(* ===== verification/Prelude.thy ===== *)
theory Prelude
  imports Main "HOL-Library.List_Lexorder" "HOL-Library.Product_Lexorder"
    "HOL-Library.Char_ord" "HOL-Library.Sublist" "HOL-Library.AList"
    "HOL-Library.Code_Target_Nat"
begin

text \<open>
  Shared vocabulary of the development: Python exceptions as values, the string methods the
  program uses, decimal numerals, keyed tables (the shape of the SQLite tables and of Python
  dictionaries) and the lemmas about them that every component needs.

  A Python \<open>str\<close> is a \<open>string\<close> here: a list of characters, one per code point below 256.
  The texts of error messages are Chinese in the source; a message is represented by a short
  ASCII tag, so that two different messages stay different.
\<close>

named_theorems str_simps \<open>evaluation of the string helpers\<close>
named_theorems tbl_simps \<open>lookup after an update of a keyed table\<close>
named_theorems err_simps \<open>results and their combinators\<close>

section \<open>Exceptions and results\<close>

datatype exn =
    ValueError string
  | RuntimeError string
  | OSError string
  | TypeError string
  | KeyError string
  | JSONDecodeError string
  | IntegrityError string
  | FileNotFoundError string
  | AttributeError string
  | IndexError string

type_synonym 'a res = "exn + 'a"

text \<open>\<open>raise\<close> aborts with the exception; \<open>rbind\<close> runs the continuation on a value.\<close>

definition rbind :: "'a res \<Rightarrow> ('a \<Rightarrow> 'b res) \<Rightarrow> 'b res" where
  "rbind r k = (case r of Inl e \<Rightarrow> Inl e | Inr x \<Rightarrow> k x)"

lemma rbind_simps [simp, err_simps]:
  "rbind (Inl e) k = Inl e"
  "rbind (Inr x) k = k x"
  by (simp_all add: rbind_def)

lemma rbind_Inr_iff:
  "rbind r k = Inr y \<longleftrightarrow> (\<exists>x. r = Inr x \<and> k x = Inr y)"
  by (cases r) simp_all

fun is_ok :: "'a res \<Rightarrow> bool" where
  "is_ok (Inl _) = False"
| "is_ok (Inr _) = True"

lemma is_ok_iff: "is_ok r \<longleftrightarrow> (\<exists>x. r = Inr x)"
  by (cases r) simp_all

text \<open>A loop whose body may raise: it stops at the first exception.\<close>

fun mapM :: "('a \<Rightarrow> 'b res) \<Rightarrow> 'a list \<Rightarrow> 'b list res" where
  "mapM f [] = Inr []"
| "mapM f (x # xs) = rbind (f x) (\<lambda>y. rbind (mapM f xs) (\<lambda>ys. Inr (y # ys)))"

lemma mapM_Inr_iff:
  "mapM f xs = Inr ys \<longleftrightarrow> list_all2 (\<lambda>x y. f x = Inr y) xs ys"
  by (induction xs arbitrary: ys) (auto simp: rbind_Inr_iff list_all2_Cons1)

lemma mapM_mem: "mapM f xs = Inr ys \<Longrightarrow> y \<in> set ys \<Longrightarrow> \<exists>x\<in>set xs. f x = Inr y"
  by (induction xs arbitrary: ys) (auto simp: rbind_Inr_iff)

lemma mapM_set: "mapM f xs = Inr ys \<Longrightarrow> set ys = {y. \<exists>x\<in>set xs. f x = Inr y}"
  by (induction xs arbitrary: ys) (auto simp: rbind_Inr_iff)

lemma mapM_Bex:
  assumes "mapM f xs = Inr ys" "\<And>x y. f x = Inr y \<Longrightarrow> A x = B y"
  shows "(\<exists>y\<in>set ys. B y) \<longleftrightarrow> (\<exists>x\<in>set xs. A x)"
  using assms(1)
proof (induction xs arbitrary: ys)
  case (Cons x xs)
  then obtain y zs where "f x = Inr y" "mapM f xs = Inr zs" "ys = y # zs"
    by (auto simp: rbind_Inr_iff)
  with Cons.IH assms(2) show ?case by auto
qed simp

lemma mapM_id: "(\<forall>x\<in>set xs. f x = Inr x) \<Longrightarrow> mapM f xs = Inr xs"
  by (induction xs) auto

lemma mapM_guard_iff:
  "mapM (\<lambda>x. if P x then Inr x else Inl e) xs = Inr ys \<longleftrightarrow> ys = xs \<and> (\<forall>x\<in>set xs. P x)"
  by (induction xs arbitrary: ys) (auto simp: rbind_Inr_iff)

fun iterM :: "('a \<Rightarrow> unit res) \<Rightarrow> 'a list \<Rightarrow> unit res" where
  "iterM f [] = Inr ()"
| "iterM f (x # xs) = rbind (f x) (\<lambda>_. iterM f xs)"

lemma iterM_Inr_iff: "iterM f xs = Inr u \<longleftrightarrow> (\<forall>x\<in>set xs. f x = Inr ())"
  by (induction xs) (auto simp: rbind_Inr_iff)

section \<open>Strings\<close>

text \<open>\<open>str.isspace\<close> on the code points below 256.\<close>

definition py_space :: "char \<Rightarrow> bool" where
  "py_space c \<longleftrightarrow> (let n = of_char c :: nat in
     (9 \<le> n \<and> n \<le> 13) \<or> (28 \<le> n \<and> n \<le> 32) \<or> n = 133 \<or> n = 160)"

definition is_digit :: "char \<Rightarrow> bool" where
  "is_digit c \<longleftrightarrow> (let n = of_char c :: nat in 48 \<le> n \<and> n \<le> 57)"

lemma digit_not_space: "is_digit c \<Longrightarrow> \<not> py_space c"
  by (auto simp: is_digit_def py_space_def Let_def)

definition lstrip :: "string \<Rightarrow> string" where
  "lstrip s = dropWhile py_space s"

definition rstrip :: "string \<Rightarrow> string" where
  "rstrip s = rev (dropWhile py_space (rev s))"

definition strip :: "string \<Rightarrow> string" where
  "strip s = rstrip (lstrip s)"

definition starts_with :: "string \<Rightarrow> string \<Rightarrow> bool" where
  "starts_with s p \<longleftrightarrow> take (length p) s = p"

definition ends_with :: "string \<Rightarrow> string \<Rightarrow> bool" where
  "ends_with s p \<longleftrightarrow> starts_with (rev s) (rev p)"

text \<open>\<open>sub in s\<close>: some suffix of \<open>s\<close> starts with \<open>sub\<close>.\<close>

fun str_in :: "string \<Rightarrow> string \<Rightarrow> bool" where
  "str_in p [] \<longleftrightarrow> p = []"
| "str_in p (c # s) \<longleftrightarrow> starts_with (c # s) p \<or> str_in p s"

text \<open>\<open>s.lower()\<close>: the Latin letters, with the accented ones of Latin-1.\<close>

definition lower_char :: "char \<Rightarrow> char" where
  "lower_char c = (let n = of_char c :: nat in
     if (65 \<le> n \<and> n \<le> 90) \<or> (192 \<le> n \<and> n \<le> 222 \<and> n \<noteq> 215) then char_of (n + 32) else c)"

definition lower :: "string \<Rightarrow> string" where
  "lower s = map lower_char s"

lemma of_char_lower: "(of_char (lower_char c) :: nat) = (let n = of_char c :: nat in
     if (65 \<le> n \<and> n \<le> 90) \<or> (192 \<le> n \<and> n \<le> 222 \<and> n \<noteq> 215) then n + 32 else n)"
  by (auto simp: lower_char_def Let_def)

lemma lower_char_space [simp]: "py_space (lower_char c) = py_space c"
  unfolding py_space_def of_char_lower by (auto simp: Let_def)

lemma lower_char_idem [simp]: "lower_char (lower_char c) = lower_char c"
proof -
  have "(of_char (lower_char (lower_char c)) :: nat) = of_char (lower_char c)"
    unfolding of_char_lower by (auto simp: Let_def)
  then show ?thesis by (simp only: of_char_eq_iff)
qed

lemma lower_idem [simp]: "lower (lower s) = lower s"
  by (simp add: lower_def comp_def)

text \<open>\<open>s.split(c)\<close> for a one-character separator, and \<open>c.join(ws)\<close>.\<close>

fun split_on :: "char \<Rightarrow> string \<Rightarrow> string list" where
  "split_on c [] = [[]]"
| "split_on c (x # xs) =
     (if x = c then [] # split_on c xs
      else (case split_on c xs of [] \<Rightarrow> [[x]] | w # ws \<Rightarrow> (x # w) # ws))"

fun join :: "string \<Rightarrow> string list \<Rightarrow> string" where
  "join s [] = []"
| "join s [w] = w"
| "join s (w # v # ws) = w @ s @ join s (v # ws)"

text \<open>\<open>s.split()\<close>: the maximal runs of non-blank characters.\<close>

fun words_acc :: "string \<Rightarrow> string \<Rightarrow> string list" where
  "words_acc acc [] = (if acc = [] then [] else [rev acc])"
| "words_acc acc (c # s) =
     (if py_space c then (if acc = [] then words_acc [] s else rev acc # words_acc [] s)
      else words_acc (c # acc) s)"

definition py_words :: "string \<Rightarrow> string list" where
  "py_words s = words_acc [] s"

text \<open>\<open>s.splitlines()\<close>: a carriage return followed by a line feed is one line break, and
  a break at the very end opens no further line.\<close>

definition line_break :: "char \<Rightarrow> bool" where
  "line_break c \<longleftrightarrow> (let n = of_char c :: nat in
     (10 \<le> n \<and> n \<le> 13) \<or> (28 \<le> n \<and> n \<le> 30) \<or> n = 133)"

fun lines_acc :: "string \<Rightarrow> string \<Rightarrow> string list" where
  "lines_acc acc [] = (if acc = [] then [] else [rev acc])"
| "lines_acc acc [c] = (if line_break c then [rev acc] else [rev (c # acc)])"
| "lines_acc acc (c # d # s) =
     (if c = CHR 0x0D \<and> d = CHR 0x0A then rev acc # lines_acc [] s
      else if line_break c then rev acc # lines_acc [] (d # s)
      else lines_acc (c # acc) (d # s))"

definition splitlines :: "string \<Rightarrow> string list" where
  "splitlines s = lines_acc [] s"

text \<open>\<open>s.replace(a, b)\<close> for single characters, and the slice \<open>s[:n]\<close>.\<close>

definition replace_char :: "char \<Rightarrow> char \<Rightarrow> string \<Rightarrow> string" where
  "replace_char a b s = map (\<lambda>c. if c = a then b else c) s"

text \<open>\<open>[x.strip() for x in s.split(",") if x.strip()]\<close>, an idiom of the whole program.\<close>

definition strip_all :: "string list \<Rightarrow> string list" where
  "strip_all ws = filter (\<lambda>w. w \<noteq> []) (map strip ws)"

definition comma_tokens :: "string \<Rightarrow> string list" where
  "comma_tokens s = strip_all (split_on (CHR '','') s)"

text \<open>\<open>str(x or "")\<close> for an optional text.\<close>

definition opt_str :: "string option \<Rightarrow> string" where
  "opt_str x = (case x of None \<Rightarrow> [] | Some s \<Rightarrow> s)"

text \<open>\<open>x or None\<close>: the empty text counts as absent.\<close>

definition str_opt :: "string \<Rightarrow> string option" where
  "str_opt s = (if s = [] then None else Some s)"

lemma opt_str_simps [simp, str_simps]:
  "opt_str None = []" "opt_str (Some s) = s"
  by (simp_all add: opt_str_def)

lemma str_opt_simps [simp, str_simps]:
  "str_opt [] = None" "s \<noteq> [] \<Longrightarrow> str_opt s = Some s"
  by (simp_all add: str_opt_def)

lemma str_opt_Some_iff [simp]: "str_opt s = Some t \<longleftrightarrow> s = t \<and> t \<noteq> []"
  by (auto simp: str_opt_def)

subsection \<open>Facts about stripping\<close>

lemma strip_Nil [simp]: "strip [] = []"
  by (simp add: strip_def lstrip_def rstrip_def)

lemma dropWhile_idem_hd: "xs = [] \<or> \<not> P (hd xs) \<Longrightarrow> dropWhile P xs = xs"
  by (cases xs) auto

lemma lstrip_hd: "lstrip s = [] \<or> \<not> py_space (hd (lstrip s))"
  unfolding lstrip_def using hd_dropWhile by blast

lemma strip_eqI:
  assumes "s \<noteq> []" "\<not> py_space (hd s)" "\<not> py_space (last s)"
  shows "strip s = s"
proof -
  have "lstrip s = s" using assms(1,2) by (simp add: lstrip_def dropWhile_idem_hd)
  moreover have "rstrip s = s"
    using assms(1,3) by (simp add: rstrip_def dropWhile_idem_hd hd_rev)
  ultimately show ?thesis by (simp add: strip_def)
qed

lemma rstrip_prefix: "\<exists>t. s = rstrip s @ t \<and> (\<forall>c\<in>set t. py_space c)"
proof -
  have "rev s = takeWhile py_space (rev s) @ dropWhile py_space (rev s)" by simp
  then have "s = rstrip s @ rev (takeWhile py_space (rev s))"
    unfolding rstrip_def by (metis rev_append rev_rev_ident)
  moreover have "\<forall>c\<in>set (rev (takeWhile py_space (rev s))). py_space c"
    by (auto dest: set_takeWhileD)
  ultimately show ?thesis by blast
qed

lemma strip_last: "strip s = [] \<or> \<not> py_space (last (strip s))"
  unfolding strip_def rstrip_def
  by (metis hd_dropWhile last_rev rev_is_Nil_conv)

lemma strip_hd: "strip s = [] \<or> \<not> py_space (hd (strip s))"
proof -
  obtain t where t: "lstrip s = strip s @ t"
    using rstrip_prefix [of "lstrip s"] by (auto simp: strip_def)
  show ?thesis
  proof (cases "strip s = []")
    case False
    then have "hd (lstrip s) = hd (strip s)" using t by simp
    moreover have "lstrip s \<noteq> []" using t False by auto
    ultimately show ?thesis using lstrip_hd [of s] by simp
  qed simp
qed

lemma strip_idem [simp]: "strip (strip s) = strip s"
  using strip_hd [of s] strip_last [of s] by (cases "strip s = []") (auto intro: strip_eqI)

lemma strip_lower [simp]: "strip (lower s) = lower (strip s)"
  by (simp add: strip_def lstrip_def rstrip_def lower_def dropWhile_map rev_map comp_def)

lemma set_strip: "set (strip s) \<subseteq> set s"
  unfolding strip_def rstrip_def lstrip_def
  by (auto dest!: set_dropWhileD)

lemma strip_all_stripped: "w \<in> set (strip_all ws) \<Longrightarrow> strip w = w \<and> w \<noteq> []"
  by (auto simp: strip_all_def)

lemma strip_all_id: "(\<forall>w\<in>set ws. strip w = w \<and> w \<noteq> []) \<Longrightarrow> strip_all ws = ws"
  by (induction ws) (auto simp: strip_all_def)

lemma strip_all_idem [simp]: "strip_all (strip_all ws) = strip_all ws"
  by (rule strip_all_id) (simp add: strip_all_stripped)

lemma strip_all_Nil [simp]: "strip_all [] = []"
  by (simp add: strip_all_def)

lemma comma_tokens_Nil [simp]: "comma_tokens [] = []"
  by (simp add: comma_tokens_def strip_all_def)

subsection \<open>Splitting and joining\<close>

lemma split_on_nonempty [simp]: "split_on c s \<noteq> []"
  by (induction s) (auto split: list.splits)

lemma split_on_no_sep: "c \<notin> set s \<Longrightarrow> split_on c s = [s]"
  by (induction s) auto

lemma split_on_append_sep: "c \<notin> set a \<Longrightarrow> split_on c (a @ c # b) = a # split_on c b"
  by (induction a) auto

lemma split_on_join:
  assumes "ws \<noteq> []" "\<forall>w\<in>set ws. c \<notin> set w"
  shows "split_on c (join [c] ws) = ws"
  using assms
proof (induction "[c]" ws rule: join.induct)
  case 2
  then show ?case by (simp add: split_on_no_sep)
next
  case (3 w v ws)
  then show ?case by (simp add: split_on_append_sep)
qed simp

lemma split_on_elems: "w \<in> set (split_on c s) \<Longrightarrow> c \<notin> set w"
  by (induction s arbitrary: w) (auto split: if_splits list.splits)

lemma join_split_on: "join [c] (split_on c s) = s"
proof (induction s)
  case (Cons x xs)
  obtain w ws where "split_on c xs = w # ws" by (meson neq_Nil_conv split_on_nonempty)
  with Cons show ?case by (cases ws) auto
qed simp

lemma join_nonempty: "ts \<noteq> [] \<Longrightarrow> \<forall>t\<in>set ts. t \<noteq> [] \<Longrightarrow> join s ts \<noteq> []"
  by (cases ts rule: list.exhaust; cases "tl ts") auto

lemma join_chars: "c \<in> set (join s ws) \<Longrightarrow> c \<in> set s \<or> (\<exists>w\<in>set ws. c \<in> set w)"
  by (induction s ws rule: join.induct) auto

section \<open>Decimal numerals\<close>

definition digit_val :: "char \<Rightarrow> nat" where
  "digit_val c = of_char c - 48"

definition digit_char :: "nat \<Rightarrow> char" where
  "digit_char n = char_of (48 + n)"

text \<open>\<open>int(s)\<close> for a text of digits, and \<open>str(n)\<close>.\<close>

definition nat_of_dec :: "string \<Rightarrow> nat" where
  "nat_of_dec s = foldl (\<lambda>a c. 10 * a + digit_val c) 0 s"

fun dec_of_nat :: "nat \<Rightarrow> string" where
  "dec_of_nat n = (if n < 10 then [digit_char n] else dec_of_nat (n div 10) @ [digit_char (n mod 10)])"

declare dec_of_nat.simps [simp del]

lemma of_char_digit_char: "d < 10 \<Longrightarrow> (of_char (digit_char d) :: nat) = 48 + d"
  by (simp add: digit_char_def)

lemma digit_val_char: "d < 10 \<Longrightarrow> digit_val (digit_char d) = d"
  by (simp add: digit_val_def of_char_digit_char)

lemma is_digit_char: "d < 10 \<Longrightarrow> is_digit (digit_char d)"
  by (simp add: is_digit_def of_char_digit_char Let_def)

lemma dec_of_nat_digits: "c \<in> set (dec_of_nat n) \<Longrightarrow> is_digit c"
proof (induction n arbitrary: c rule: dec_of_nat.induct)
  case (1 n)
  then show ?case
    by (subst (asm) (2) dec_of_nat.simps) (auto simp: is_digit_char split: if_splits)
qed

lemma dec_of_nat_nonempty [simp]: "dec_of_nat n \<noteq> []"
  by (subst dec_of_nat.simps) simp

lemma nat_of_dec_snoc: "nat_of_dec (s @ [c]) = 10 * nat_of_dec s + digit_val c"
  by (simp add: nat_of_dec_def)

lemma nat_of_dec_of_nat [simp]: "nat_of_dec (dec_of_nat n) = n"
proof (induction n rule: dec_of_nat.induct)
  case (1 n)
  show ?case
  proof (cases "n < 10")
    case True
    then show ?thesis
      by (subst dec_of_nat.simps) (simp add: nat_of_dec_def digit_val_char)
  next
    case False
    with 1 show ?thesis
      by (subst dec_of_nat.simps) (simp add: nat_of_dec_snoc digit_val_char)
  qed
qed

lemma dec_of_nat_inj: "dec_of_nat m = dec_of_nat n \<longleftrightarrow> m = n"
  by (metis nat_of_dec_of_nat)

lemma dec_of_nat_no_char: "\<not> is_digit c \<Longrightarrow> c \<notin> set (dec_of_nat n)"
  using dec_of_nat_digits by blast

section \<open>Tables with a key\<close>

text \<open>
  The rows of a SQLite table with a primary key, in insertion order.  An upsert replaces the
  row with the same key in place and appends a new one; \<open>tbl_get\<close> reads by key.
\<close>

fun tbl_upsert :: "('r \<Rightarrow> 'k) \<Rightarrow> 'r \<Rightarrow> 'r list \<Rightarrow> 'r list" where
  "tbl_upsert key r [] = [r]"
| "tbl_upsert key r (x # xs) = (if key x = key r then r # xs else x # tbl_upsert key r xs)"

definition tbl_get :: "('r \<Rightarrow> 'k) \<Rightarrow> 'k \<Rightarrow> 'r list \<Rightarrow> 'r option" where
  "tbl_get key k xs = find (\<lambda>x. key x = k) xs"

definition tbl_delete :: "('r \<Rightarrow> 'k) \<Rightarrow> 'k \<Rightarrow> 'r list \<Rightarrow> 'r list" where
  "tbl_delete key k xs = filter (\<lambda>x. key x \<noteq> k) xs"

definition tbl_ok :: "('r \<Rightarrow> 'k) \<Rightarrow> 'r list \<Rightarrow> bool" where
  "tbl_ok key xs \<longleftrightarrow> distinct (map key xs)"

lemma tbl_get_Nil [simp, tbl_simps]: "tbl_get key k [] = None"
  by (simp add: tbl_get_def)

lemma tbl_get_Cons [simp, tbl_simps]:
  "tbl_get key k (x # xs) = (if key x = k then Some x else tbl_get key k xs)"
  by (simp add: tbl_get_def)

lemma tbl_get_SomeD: "tbl_get key k xs = Some r \<Longrightarrow> r \<in> set xs \<and> key r = k"
  by (induction xs) (auto split: if_splits)

lemma tbl_get_None_iff: "tbl_get key k xs = None \<longleftrightarrow> k \<notin> key ` set xs"
  by (induction xs) auto

lemma tbl_get_iff: "tbl_ok key xs \<Longrightarrow> tbl_get key k xs = Some r \<longleftrightarrow> r \<in> set xs \<and> key r = k"
  by (induction xs) (auto simp: tbl_ok_def)

lemma keys_tbl_upsert: "key ` set (tbl_upsert key r xs) = insert (key r) (key ` set xs)"
  by (induction xs) auto

lemma tbl_ok_upsert: "tbl_ok key xs \<Longrightarrow> tbl_ok key (tbl_upsert key r xs)"
proof (induction xs)
  case (Cons x xs)
  then show ?case
    using keys_tbl_upsert [of key r xs] by (auto simp: tbl_ok_def image_iff)
qed (simp add: tbl_ok_def)

lemma tbl_get_upsert [tbl_simps]:
  "tbl_get key k (tbl_upsert key r xs) = (if k = key r then Some r else tbl_get key k xs)"
  by (induction xs) auto

lemma set_tbl_upsert: "tbl_ok key xs \<Longrightarrow>
  set (tbl_upsert key r xs) = insert r {x \<in> set xs. key x \<noteq> key r}"
  by (induction xs) (auto simp: tbl_ok_def rev_image_eqI)

lemma tbl_get_delete [tbl_simps]:
  "tbl_get key k (tbl_delete key k' xs) = (if k = k' then None else tbl_get key k xs)"
  by (induction xs) (auto simp: tbl_delete_def)

lemma tbl_ok_delete: "tbl_ok key xs \<Longrightarrow> tbl_ok key (tbl_delete key k xs)"
  by (auto simp: tbl_ok_def tbl_delete_def distinct_map intro: inj_on_subset)

lemma set_tbl_delete: "set (tbl_delete key k xs) = {x \<in> set xs. key x \<noteq> k}"
  by (auto simp: tbl_delete_def)

lemma tbl_upsert_same: "tbl_get key (key r) xs = Some r \<Longrightarrow> tbl_upsert key r xs = xs"
  by (induction xs) (auto split: if_splits)

text \<open>The contract of a keyed store, for the clients that only rely on it: what is read back after
  an upsert.  A table with \<open>DELETE\<close> extends it.\<close>

locale keyed_store =
  fixes key :: "'r \<Rightarrow> 'k"
    and upsert :: "'r \<Rightarrow> 't \<Rightarrow> 't"
    and fetch :: "'k \<Rightarrow> 't \<Rightarrow> 'r option"
    and ok :: "'t \<Rightarrow> bool"
  assumes fetch_upsert: "fetch k (upsert r t) = (if k = key r then Some r else fetch k t)"
    and fetch_key: "fetch k t = Some r \<Longrightarrow> key r = k"
    and ok_upsert: "ok t \<Longrightarrow> ok (upsert r t)"
begin

text \<open>Writing a list of rows: the last row of a key is the one that is read back.\<close>

lemma fetch_upserts:
  "fetch k (fold upsert rs t) =
    (case find (\<lambda>r. key r = k) (rev rs) of Some r \<Rightarrow> Some r | None \<Rightarrow> fetch k t)"
proof (induction rs arbitrary: t)
  case (Cons r rs)
  have app: "find P (xs @ [y]) = (case find P xs of None \<Rightarrow> if P y then Some y else None | Some z \<Rightarrow> Some z)"
    for P :: "'r \<Rightarrow> bool" and xs y
    by (induction xs) auto
  show ?case by (auto simp: Cons.IH app fetch_upsert split: option.splits)
qed simp

lemma ok_upserts: "ok t \<Longrightarrow> ok (fold upsert rs t)"
  by (induction rs arbitrary: t) (auto simp: ok_upsert)

lemma upsert_frame: "k \<noteq> key r \<Longrightarrow> fetch k (upsert r t) = fetch k t"
  by (simp add: fetch_upsert)

lemma update_in_place:
  "fetch k t = Some r \<Longrightarrow> key (f r) = k \<Longrightarrow> fetch k (upsert (f r) t) = Some (f r)"
  by (simp add: fetch_upsert)

end

locale keyed_table = keyed_store key upsert fetch ok
  for key :: "'r \<Rightarrow> 'k" and upsert :: "'r \<Rightarrow> 't \<Rightarrow> 't" and fetch :: "'k \<Rightarrow> 't \<Rightarrow> 'r option"
    and ok :: "'t \<Rightarrow> bool" +
  fixes remove :: "'k \<Rightarrow> 't \<Rightarrow> 't"
  assumes fetch_remove: "fetch k (remove k' t) = (if k = k' then None else fetch k t)"
    and ok_remove: "ok t \<Longrightarrow> ok (remove k t)"
begin

lemma remove_upsert: "fetch k (remove (key r) (upsert r t)) = fetch k (remove (key r) t)"
  by (simp add: fetch_remove fetch_upsert)

lemma removed: "fetch k (remove k t) = None"
  by (simp add: fetch_remove)

end

section \<open>Sorting\<close>

text \<open>Python's \<open>sorted\<close> is stable, as the library's \<open>sort_key\<close> is.\<close>

lemma sort_key_filter: "filter P (sort_key f xs) = sort_key f (filter P xs)"
  by (rule filter_sort)

definition is_sorted_by :: "('a \<Rightarrow> 'k::linorder) \<Rightarrow> 'a list \<Rightarrow> bool" where
  "is_sorted_by f xs \<longleftrightarrow> sorted (map f xs)"

lemma is_sorted_by_sort_key: "is_sorted_by f (sort_key f xs)"
  by (simp add: is_sorted_by_def)

text \<open>\<open>sorted(set(xs))\<close>: sorted and without repetition.\<close>

definition sorted_set :: "'a::linorder list \<Rightarrow> 'a list" where
  "sorted_set xs = remdups (sort xs)"

lemma set_sorted_set [simp]: "set (sorted_set xs) = set xs"
  by (simp add: sorted_set_def)

lemma distinct_sorted_set [simp]: "distinct (sorted_set xs)"
  by (simp add: sorted_set_def)

lemma sorted_sorted_set [simp]: "sorted (sorted_set xs)"
  by (simp add: sorted_set_def sorted_remdups)

lemma sorted_set_eqI:
  "sorted xs \<Longrightarrow> distinct xs \<Longrightarrow> set xs = set ys \<Longrightarrow> sorted_set ys = xs"
  by (metis distinct_sorted_set set_sorted_set sorted_distinct_set_unique sorted_sorted_set)

text \<open>\<open>dict.fromkeys(xs)\<close>: the first occurrence of each, in order.\<close>

definition dedup :: "'a list \<Rightarrow> 'a list" where
  "dedup xs = rev (remdups (rev xs))"

lemma set_dedup [simp]: "set (dedup xs) = set xs"
  by (simp add: dedup_def)

lemma distinct_dedup [simp]: "distinct (dedup xs)"
  by (simp add: dedup_def)

end
