(* ===== verification/Ipaddress.thy ===== *)
theory Ipaddress
  imports Prelude
begin

text \<open>
  The part of Python's standard module \<open>ipaddress\<close> the program calls, for IPv4: parsing and
  printing of addresses, \<open>IPv4Network(text, strict=False)\<close> with a prefix length, a netmask or a
  host mask after the slash, membership, \<open>hosts()\<close>, \<open>num_addresses\<close>, \<open>subnet_of\<close>.  An address is
  a natural number below \<open>2 ^ 32\<close>; a network is its (masked) network address and prefix length.
\<close>

named_theorems ip_simps \<open>evaluation of addresses and networks\<close>

section \<open>Addresses\<close>

text \<open>One octet: one to three ASCII digits, no leading zero, at most 255.\<close>

definition parse_octet :: "string \<Rightarrow> nat option" where
  "parse_octet s =
     (if s = [] \<or> \<not> list_all is_digit s \<or> length s > 3 \<or> (s \<noteq> ''0'' \<and> hd s = CHR ''0'') then None
      else if nat_of_dec s > 255 then None else Some (nat_of_dec s))"

definition ip_parse :: "string \<Rightarrow> nat option" where
  "ip_parse s = (case map parse_octet (split_on (CHR ''.'') s) of
     [Some a, Some b, Some c, Some d] \<Rightarrow> Some (((a * 256 + b) * 256 + c) * 256 + d)
   | _ \<Rightarrow> None)"

definition ip_str :: "nat \<Rightarrow> string" where
  "ip_str n = join ''.'' (map dec_of_nat
     [n div 16777216 mod 256, n div 65536 mod 256, n div 256 mod 256, n mod 256])"

section \<open>Networks\<close>

record net =
  net_addr :: nat
  net_plen :: nat

definition net_size :: "net \<Rightarrow> nat" where
  "net_size n = 2 ^ (32 - net_plen n)"

definition net_last :: "net \<Rightarrow> nat" where
  "net_last n = net_addr n + net_size n - 1"

text \<open>Zeroing the host bits of an address (\<open>packed & netmask\<close>).\<close>

definition mask_addr :: "nat \<Rightarrow> nat \<Rightarrow> nat" where
  "mask_addr a p = a div 2 ^ (32 - p) * 2 ^ (32 - p)"

definition net_ok :: "net \<Rightarrow> bool" where
  "net_ok n \<longleftrightarrow> net_plen n \<le> 32 \<and> net_addr n < 2 ^ 32 \<and> mask_addr (net_addr n) (net_plen n) = net_addr n"

definition netmask_of :: "nat \<Rightarrow> nat" where
  "netmask_of p = (2 ^ 32 - 1) - (2 ^ (32 - p) - 1)"

text \<open>The text after the slash: digits are a prefix length, otherwise a netmask or a host mask.\<close>

definition parse_prefix :: "string \<Rightarrow> nat option" where
  "parse_prefix s =
     (if s \<noteq> [] \<and> list_all is_digit s \<and> nat_of_dec s \<le> 32 then Some (nat_of_dec s)
      else (case ip_parse s of None \<Rightarrow> None
            | Some m \<Rightarrow> (case find (\<lambda>p. netmask_of p = m) [0..<33] of
                 Some p \<Rightarrow> Some p
               | None \<Rightarrow> find (\<lambda>p. netmask_of p = 2 ^ 32 - 1 - m) [0..<33])))"

definition ip_network :: "string \<Rightarrow> net option" where
  "ip_network s = (case split_on (CHR ''/'') s of
     [a] \<Rightarrow> (case ip_parse a of None \<Rightarrow> None | Some x \<Rightarrow> Some \<lparr>net_addr = x, net_plen = 32\<rparr>)
   | [a, m] \<Rightarrow> (case ip_parse a of None \<Rightarrow> None
        | Some x \<Rightarrow> (case parse_prefix m of None \<Rightarrow> None
            | Some p \<Rightarrow> Some \<lparr>net_addr = mask_addr x p, net_plen = p\<rparr>))
   | _ \<Rightarrow> None)"

definition net_str :: "net \<Rightarrow> string" where
  "net_str n = ip_str (net_addr n) @ ''/'' @ dec_of_nat (net_plen n)"

definition in_net :: "nat \<Rightarrow> net \<Rightarrow> bool" where
  "in_net a n \<longleftrightarrow> net_addr n \<le> a \<and> a \<le> net_last n"

definition net_set :: "net \<Rightarrow> nat set" where
  "net_set n = {a. in_net a n}"

definition subnet_of :: "net \<Rightarrow> net \<Rightarrow> bool" where
  "subnet_of c p \<longleftrightarrow> net_addr p \<le> net_addr c \<and> net_last c \<le> net_last p"

definition net_overlap :: "net \<Rightarrow> net \<Rightarrow> bool" where
  "net_overlap a b \<longleftrightarrow> net_addr a \<le> net_last b \<and> net_addr b \<le> net_last a"

text \<open>\<open>hosts()\<close>: without the network and broadcast addresses, except for /31 and /32.\<close>

definition hosts :: "net \<Rightarrow> nat list" where
  "hosts n = (if net_plen n = 32 then [net_addr n]
     else if net_plen n = 31 then [net_addr n, net_addr n + 1]
     else [net_addr n + 1 ..< net_last n])"

definition netmask_str :: "net \<Rightarrow> string" where
  "netmask_str n = ip_str (netmask_of (net_plen n))"

section \<open>Printing and parsing\<close>

lemma dec_of_nat_lead: "n < 1000 \<Longrightarrow>
  length (dec_of_nat n) \<le> 3 \<and> (dec_of_nat n = ''0'' \<or> hd (dec_of_nat n) \<noteq> CHR ''0'')"
proof -
  assume n: "n < 1000"
  have dc: "d < 10 \<Longrightarrow> digit_char d = CHR ''0'' \<longleftrightarrow> d = 0" for d
  proof -
    assume "d < 10"
    then have "(of_char (digit_char d) :: nat) = 48 + d" by (rule of_char_digit_char)
    moreover have "(of_char (CHR ''0'') :: nat) = 48" by simp
    moreover have "digit_char 0 = CHR ''0''" by code_simp
    ultimately show ?thesis by auto
  qed
  consider "n < 10" | "10 \<le> n" "n < 100" | "100 \<le> n" by linarith
  then show ?thesis
  proof cases
    case 1
    then show ?thesis using dc by (subst (1 2 3) dec_of_nat.simps) auto
  next
    case 2
    then have "dec_of_nat n = [digit_char (n div 10), digit_char (n mod 10)]"
      by (subst dec_of_nat.simps, subst dec_of_nat.simps) auto
    then show ?thesis using dc [of "n div 10"] 2 by auto
  next
    case 3
    then have e: "dec_of_nat n = [digit_char (n div 10 div 10), digit_char (n div 10 mod 10), digit_char (n mod 10)]"
      using n by (subst dec_of_nat.simps, subst dec_of_nat.simps, subst dec_of_nat.simps) auto
    have "digit_char (n div 10 div 10) \<noteq> CHR ''0''" using dc [of "n div 10 div 10"] 3 n by auto
    then show ?thesis by (simp add: e)
  qed
qed

lemma parse_octet_dec: "n < 256 \<Longrightarrow> parse_octet (dec_of_nat n) = Some n"
  using dec_of_nat_lead [of n]
  by (auto simp: parse_octet_def list_all_iff dec_of_nat_digits)

lemma parse_octet_bound: "parse_octet s = Some n \<Longrightarrow> n < 256"
  by (auto simp: parse_octet_def split: if_splits)

lemma ip_parse_bound: "ip_parse s = Some n \<Longrightarrow> n < 2 ^ 32"
proof -
  assume "ip_parse s = Some n"
  then obtain a b c d where m: "map parse_octet (split_on (CHR ''.'') s) = [Some a, Some b, Some c, Some d]"
    and n: "n = ((a * 256 + b) * 256 + c) * 256 + d"
    by (auto simp: ip_parse_def split: list.splits option.splits)
  have "x \<in> set (map parse_octet (split_on (CHR ''.'') s)) \<Longrightarrow> x = Some y \<Longrightarrow> y < 256" for x y
    by (metis (no_types, lifting) image_iff list.set_map parse_octet_bound)
  then have "a < 256 \<and> b < 256 \<and> c < 256 \<and> d < 256" unfolding m by auto
  then show ?thesis using n by simp
qed

lemma dot_not_digit: "\<not> is_digit (CHR ''.'')" and slash_not_digit: "\<not> is_digit (CHR ''/'')"
  by (simp_all add: is_digit_def)

lemma ip_parse_str [ip_simps]: "n < 2 ^ 32 \<Longrightarrow> ip_parse (ip_str n) = Some n"
proof -
  assume n: "n < 2 ^ 32"
  let ?ws = "map dec_of_nat [n div 16777216 mod 256, n div 65536 mod 256, n div 256 mod 256, n mod 256]"
  have sp: "split_on (CHR ''.'') (ip_str n) = ?ws"
    unfolding ip_str_def by (rule split_on_join) (auto dest: dec_of_nat_digits simp: dot_not_digit)
  have eq: "n = ((n div 16777216 mod 256 * 256 + n div 65536 mod 256) * 256 + n div 256 mod 256) * 256 + n mod 256"
  proof -
    have "n div 16777216 mod 256 = n div 16777216" using n by simp
    moreover have "n div 16777216 = n div 65536 div 256" "n div 65536 = n div 256 div 256"
      by (simp_all flip: div_mult2_eq)
    ultimately have "n div 65536 = n div 16777216 mod 256 * 256 + n div 65536 mod 256"
      "n div 256 = n div 65536 * 256 + n div 256 mod 256" "n = n div 256 * 256 + n mod 256"
      by simp_all
    then show ?thesis by metis
  qed
  have "map parse_octet ?ws = [Some (n div 16777216 mod 256), Some (n div 65536 mod 256),
      Some (n div 256 mod 256), Some (n mod 256)]"
    by (simp add: parse_octet_dec)
  then have "ip_parse (ip_str n) = Some (((n div 16777216 mod 256 * 256 + n div 65536 mod 256) * 256
      + n div 256 mod 256) * 256 + n mod 256)"
    by (simp add: ip_parse_def sp del: mult_Suc)
  then show ?thesis by (simp only: eq [symmetric])
qed

lemma ip_str_inj: "a < 2 ^ 32 \<Longrightarrow> b < 2 ^ 32 \<Longrightarrow> ip_str a = ip_str b \<longleftrightarrow> a = b"
  by (metis ip_parse_str option.inject)

lemma ip_str_chars: "c \<in> set (ip_str n) \<Longrightarrow> is_digit c \<or> c = CHR ''.''"
  unfolding ip_str_def by (auto dest: dec_of_nat_digits)

lemma ip_str_nonempty [simp]: "ip_str n \<noteq> []"
  by (simp add: ip_str_def)

lemma space_not_ip_char: "is_digit c \<or> c = CHR ''.'' \<or> c = CHR ''/'' \<Longrightarrow> \<not> py_space c"
  by (auto simp: digit_not_space) (simp_all add: py_space_def)

lemma ip_str_no_space: "c \<in> set (ip_str n) \<Longrightarrow> \<not> py_space c"
  using ip_str_chars space_not_ip_char by blast

lemma strip_ip_str [simp]: "strip (ip_str n) = ip_str n"
  by (rule strip_eqI) (auto simp: ip_str_no_space [OF hd_in_set [OF ip_str_nonempty]]
      ip_str_no_space [OF last_in_set [OF ip_str_nonempty]])

lemma slash_ip_str: "CHR ''/'' \<notin> set (ip_str n)"
  using ip_str_chars slash_not_digit by fastforce

section \<open>Networks as address ranges\<close>

lemma net_size_pos [simp]: "0 < net_size n"
  by (simp add: net_size_def)

lemma net_last_ge: "net_addr n \<le> net_last n"
  using net_size_pos [of n] by (simp add: net_last_def Suc_le_eq del: net_size_pos)

lemma mask_addr_le: "mask_addr a p \<le> a"
  by (simp add: mask_addr_def)

lemma mask_addr_idem: "mask_addr (mask_addr a p) p = mask_addr a p"
  by (simp add: mask_addr_def)

lemma net_ok_dvd: "net_ok n \<Longrightarrow> net_size n dvd net_addr n"
  by (metis dvd_triv_right mask_addr_def net_ok_def net_size_def)

lemma net_ok_last: "net_ok n \<Longrightarrow> net_last n < 2 ^ 32"
proof -
  assume ok: "net_ok n"
  then obtain k where k: "net_addr n = net_size n * k" using net_ok_dvd by blast
  have "(2::nat) ^ 32 = net_size n * 2 ^ net_plen n"
    using ok by (simp add: net_size_def net_ok_def flip: power_add)
  moreover have "net_size n * k < net_size n * 2 ^ net_plen n"
    using ok k calculation by (simp add: net_ok_def)
  then have "k < 2 ^ net_plen n" by simp
  then have "net_size n * (k + 1) \<le> net_size n * 2 ^ net_plen n"
    by (intro mult_le_mono2) simp
  ultimately show ?thesis using k net_size_pos [of n] by (simp add: net_last_def)
qed

lemma parse_prefix_bound: "parse_prefix s = Some p \<Longrightarrow> p \<le> 32"
proof -
  assume a: "parse_prefix s = Some p"
  have "find P [0..<33] = Some q \<Longrightarrow> q \<le> 32" for P and q :: nat
    by (auto simp: find_Some_iff)
  with a show ?thesis by (auto simp: parse_prefix_def split: if_splits option.splits)
qed

lemma ip_network_ok: "ip_network s = Some n \<Longrightarrow> net_ok n"
  by (auto simp: ip_network_def net_ok_def mask_addr_idem split: list.splits option.splits
      dest!: ip_parse_bound parse_prefix_bound intro: le_less_trans [OF mask_addr_le])
    (simp_all add: mask_addr_def)

lemma parse_prefix_dec: "p \<le> 32 \<Longrightarrow> parse_prefix (dec_of_nat p) = Some p"
  by (simp add: parse_prefix_def list_all_iff dec_of_nat_digits)

lemma ip_network_str [ip_simps]: "net_ok n \<Longrightarrow> ip_network (net_str n) = Some n"
proof -
  assume ok: "net_ok n"
  have "split_on (CHR ''/'') (net_str n) = [ip_str (net_addr n), dec_of_nat (net_plen n)]"
    using split_on_append_sep [OF slash_ip_str, of "net_addr n" "dec_of_nat (net_plen n)"]
    by (simp add: net_str_def split_on_no_sep dec_of_nat_no_char slash_not_digit)
  with ok show ?thesis
    by (simp add: ip_network_def net_ok_def ip_parse_str parse_prefix_dec)
qed

lemma net_str_inj: "net_ok m \<Longrightarrow> net_ok n \<Longrightarrow> net_str m = net_str n \<longleftrightarrow> m = n"
  by (metis ip_network_str option.inject)

lemma net_str_no_space: "c \<in> set (net_str n) \<Longrightarrow> \<not> py_space c"
  unfolding net_str_def
  by (auto simp: ip_str_no_space space_not_ip_char dest: dec_of_nat_digits)

lemma net_str_nonempty [simp]: "net_str n \<noteq> []"
  by (simp add: net_str_def)

lemma strip_net_str [simp]: "strip (net_str n) = net_str n"
  by (rule strip_eqI) (auto simp: net_str_no_space [OF hd_in_set [OF net_str_nonempty]]
      net_str_no_space [OF last_in_set [OF net_str_nonempty]])

lemma net_str_has_slash: "CHR ''/'' \<in> set (net_str n)"
  by (simp add: net_str_def)

lemma in_net_addr [simp]: "in_net (net_addr n) n"
  by (simp add: in_net_def net_last_ge)

lemma subnet_of_iff: "subnet_of c p \<longleftrightarrow> net_set c \<subseteq> net_set p"
proof
  assume "net_set c \<subseteq> net_set p"
  moreover have "net_addr c \<in> net_set c" "net_last c \<in> net_set c"
    using net_last_ge by (auto simp: net_set_def in_net_def)
  ultimately show "subnet_of c p" by (auto simp: subnet_of_def net_set_def in_net_def)
qed (auto simp: subnet_of_def net_set_def in_net_def)

lemma net_overlap_iff: "net_overlap a b \<longleftrightarrow> net_set a \<inter> net_set b \<noteq> {}"
proof
  assume "net_overlap a b"
  then have "max (net_addr a) (net_addr b) \<in> net_set a \<inter> net_set b"
    using net_last_ge by (auto simp: net_overlap_def net_set_def in_net_def max_def)
  then show "net_set a \<inter> net_set b \<noteq> {}" by blast
qed (auto simp: net_overlap_def net_set_def in_net_def)

lemma net_overlap_sym: "net_overlap a b = net_overlap b a"
  by (auto simp: net_overlap_def)

lemma subnet_of_trans: "subnet_of a b \<Longrightarrow> subnet_of b c \<Longrightarrow> subnet_of a c"
  by (auto simp: subnet_of_def)

lemma hosts_in_net: "net_ok n \<Longrightarrow> a \<in> set (hosts n) \<Longrightarrow> in_net a n"
  by (auto simp: hosts_def in_net_def net_last_def net_size_def split: if_splits)

lemma hosts_bound: "net_ok n \<Longrightarrow> a \<in> set (hosts n) \<Longrightarrow> a < 2 ^ 32"
  using hosts_in_net net_ok_last by (fastforce simp: in_net_def)

lemma distinct_hosts: "distinct (hosts n)"
  by (simp add: hosts_def)

lemma length_hosts: "length (hosts n) =
  (if net_plen n = 32 then 1 else if net_plen n = 31 then 2 else net_size n - 2)"
  by (simp add: hosts_def net_last_def)

end
