(* ===== verification/Cidr.thy ===== *)
theory Cidr
  imports Ipaddress
begin

text \<open>
  \<open>app/utils/cidr.py\<close>: validation and normalisation of CIDR texts, nesting and overlap of
  subnets, the client capacity of a group, and the address check of iptables fragments.

  The third-party package \<open>netaddr\<close> is a parameter, the record \<open>netaddr\<close>: what
  \<open>IPNetwork(t, version=4)\<close> accepts and the network it stands for, \<open>in\<close> on networks, whether
  two \<open>IPSet\<close>s meet, and what \<open>IPAddress(t)\<close> accepts.  \<open>netaddr_ok\<close> collects what its
  documentation says of them; \<open>netaddr_ref\<close> is a concrete instance for the witnesses.
\<close>

record netaddr =
  na_network :: "string \<Rightarrow> net option"
  na_in :: "net \<Rightarrow> net \<Rightarrow> bool"
  na_meet :: "net \<Rightarrow> net \<Rightarrow> bool"
  na_address :: "string \<Rightarrow> bool"

definition netaddr_ok :: "netaddr \<Rightarrow> bool" where
  "netaddr_ok na \<longleftrightarrow>
     (\<forall>s n. na_network na s = Some n \<longrightarrow> net_ok n) \<and>
     (\<forall>n. net_ok n \<longrightarrow> na_network na (net_str n) = Some n) \<and>
     (\<forall>c p. na_in na c p = subnet_of c p) \<and>
     (\<forall>a b. na_meet na a b = net_overlap a b)"

definition netaddr_ref :: netaddr where
  "netaddr_ref = \<lparr>na_network = ip_network, na_in = subnet_of, na_meet = net_overlap,
     na_address = (\<lambda>s. ip_parse s \<noteq> None)\<rparr>"

lemma netaddr_ref_ok: "netaddr_ok netaddr_ref"
  by (simp add: netaddr_ok_def netaddr_ref_def ip_network_ok ip_network_str)

section \<open>Validation and normalisation\<close>

definition validate_cidr :: "netaddr \<Rightarrow> string \<Rightarrow> bool" where
  "validate_cidr na s = (let t = strip s in
     if t = [] \<or> CHR ''/'' \<notin> set t then False
     else (case na_network na t of None \<Rightarrow> False | Some n \<Rightarrow> True))"

definition normalize_cidr :: "netaddr \<Rightarrow> string \<Rightarrow> string option" where
  "normalize_cidr na s = (let t = strip s in
     if \<not> validate_cidr na t then None
     else (case na_network na t of None \<Rightarrow> None
       | Some n \<Rightarrow> Some (ip_str (net_addr n) @ ''/'' @ dec_of_nat (net_plen n))))"

lemma normalize_cidr_SomeD:
  "normalize_cidr na s = Some t \<Longrightarrow> \<exists>n. na_network na (strip s) = Some n \<and> t = net_str n"
  by (auto simp: normalize_cidr_def net_str_def Let_def split: if_splits option.splits)

lemma normalize_cidr_net_str:
  "netaddr_ok na \<Longrightarrow> net_ok n \<Longrightarrow> normalize_cidr na (net_str n) = Some (net_str n)"
  by (auto simp: normalize_cidr_def validate_cidr_def netaddr_ok_def net_str_has_slash Let_def)
    (simp add: net_str_def)

lemma normalize_cidr_net:
  assumes "netaddr_ok na" "normalize_cidr na s = Some t"
  obtains n where "net_ok n" "t = net_str n" "na_network na (strip s) = Some n"
    "na_network na t = Some n" "ip_network t = Some n"
proof -
  obtain n where "na_network na (strip s) = Some n" "t = net_str n"
    using normalize_cidr_SomeD [OF assms(2)] by blast
  moreover have "net_ok n" using assms(1) calculation by (auto simp: netaddr_ok_def)
  ultimately show ?thesis
    using that assms(1) ip_network_str by (auto simp: netaddr_ok_def)
qed

lemma normalize_cidr_valid:
  "netaddr_ok na \<Longrightarrow> normalize_cidr na s = Some t \<Longrightarrow> validate_cidr na t \<and> validate_cidr na s"
proof -
  assume na: "netaddr_ok na" and t: "normalize_cidr na s = Some t"
  obtain n where n: "net_ok n" "t = net_str n" "na_network na t = Some n"
    using normalize_cidr_net [OF na t] by metis
  have "validate_cidr na s"
    using t by (auto simp: normalize_cidr_def Let_def validate_cidr_def split: if_splits)
  then show ?thesis using n by (simp add: validate_cidr_def net_str_has_slash Let_def)
qed

section \<open>Nesting and overlap\<close>

definition is_subnet_of :: "netaddr \<Rightarrow> string \<Rightarrow> string \<Rightarrow> bool" where
  "is_subnet_of na child parent =
     (case (na_network na child, na_network na parent) of
        (Some c, Some p) \<Rightarrow> na_in na c p
      | _ \<Rightarrow> False)"

definition subnets_overlap :: "netaddr \<Rightarrow> string \<Rightarrow> string \<Rightarrow> bool" where
  "subnets_overlap na a b =
     (case (na_network na a, na_network na b) of
        (Some x, Some y) \<Rightarrow> na_meet na x y
      | _ \<Rightarrow> False)"

lemma is_subnet_of_net_str:
  "netaddr_ok na \<Longrightarrow> net_ok c \<Longrightarrow> net_ok p \<Longrightarrow>
   is_subnet_of na (net_str c) (net_str p) = subnet_of c p"
  by (simp add: is_subnet_of_def netaddr_ok_def)

lemma subnets_overlap_net_str:
  "netaddr_ok na \<Longrightarrow> net_ok a \<Longrightarrow> net_ok b \<Longrightarrow>
   subnets_overlap na (net_str a) (net_str b) = net_overlap a b"
  by (simp add: subnets_overlap_def netaddr_ok_def)

section \<open>Client capacity\<close>

definition assignable_client_ip_count :: "netaddr \<Rightarrow> string \<Rightarrow> string option \<Rightarrow> int option" where
  "assignable_client_ip_count na s global_subnet =
     (case normalize_cidr na s of None \<Rightarrow> None
      | Some normalized \<Rightarrow>
        (case ip_network normalized of None \<Rightarrow> None
         | Some network \<Rightarrow>
           (let host_count = (if net_plen network \<le> 30 then max 0 (int (net_size network) - 2)
                              else int (net_size network));
                pool_text = (case global_subnet of None \<Rightarrow> normalized
                             | Some g \<Rightarrow> if g = [] then normalized else g)
            in (case ip_network pool_text of None \<Rightarrow> None
                | Some pool \<Rightarrow>
                  (let server_ip = net_addr pool + 1 in
                   if 2 ^ 32 \<le> server_ip then None
                   else Some (max 0 (host_count -
                     (if in_net server_ip network \<and>
                         (net_plen network \<ge> 31 \<or>
                          (server_ip \<noteq> net_addr network \<and> server_ip \<noteq> net_last network))
                      then 1 else 0))))))))"

lemma hosts_filter_length:
  assumes "net_ok n"
  shows "int (length (filter (\<lambda>h. h \<noteq> x) (hosts n))) =
    int (length (hosts n)) - (if x \<in> set (hosts n) then 1 else 0)"
proof -
  have "length (filter (\<lambda>h. h \<noteq> x) xs) = length xs - count_list xs x" if "distinct xs" for xs :: "nat list"
  proof -
    have "length (filter (\<lambda>h. h \<noteq> x) xs) + count_list xs x = length xs"
      by (induction xs) auto
    then show ?thesis by linarith
  qed
  moreover have "count_list xs x = (if x \<in> set xs then 1 else 0)" if "distinct xs" for xs :: "nat list"
    using that by (induction xs) auto
  moreover have "x \<in> set (hosts n) \<Longrightarrow> 0 < length (hosts n)" by (cases "hosts n") auto
  ultimately show ?thesis using distinct_hosts [of n] by (auto simp: of_nat_diff Suc_leI)
qed

lemma mem_hosts: "net_ok n \<Longrightarrow> x \<in> set (hosts n) \<longleftrightarrow>
  in_net x n \<and> (net_plen n \<ge> 31 \<or> (x \<noteq> net_addr n \<and> x \<noteq> net_last n))"
proof -
  assume "net_ok n"
  then consider "net_plen n \<le> 30" | "net_plen n = 31" | "net_plen n = 32"
    by (fastforce simp: net_ok_def)
  then show ?thesis
    by cases (auto simp: hosts_def in_net_def net_last_def net_size_def)
qed

lemma length_hosts_small: "net_plen n \<le> 30 \<Longrightarrow> 4 \<le> net_size n"
proof -
  assume "net_plen n \<le> 30"
  then have "(2::nat) ^ 2 \<le> 2 ^ (32 - net_plen n)" by (intro power_increasing) auto
  then show ?thesis by (simp add: net_size_def)
qed

section \<open>Addresses in iptables fragments\<close>

definition validate_iptables_addr_or_cidr :: "netaddr \<Rightarrow> string \<Rightarrow> unit res" where
  "validate_iptables_addr_or_cidr na token = (let t0 = strip token in
     if t0 = [] then Inl (ValueError ''empty address'')
     else (let t = (if starts_with t0 ''!'' then strip (drop 1 t0) else t0) in
       if t = [] then Inl (ValueError ''empty address after negation'')
       else if CHR '' '' \<in> set t \<or> CHR 0x0A \<in> set t \<or> CHR 0x0D \<in> set t \<or> CHR 0x09 \<in> set t
         then Inl (ValueError ''blank in address'')
       else if CHR ''/'' \<in> set t
         then (if validate_cidr na t then Inr () else Inl (ValueError ''bad cidr''))
       else if na_address na t then Inr ()
       else if list_all (\<lambda>c. is_digit c \<or> c = CHR ''.'') t then Inl (ValueError ''bad ip'')
       else Inr ()))"

text \<open>
  The regular expression \<open>(?:^|\s)-[sd]\s+([^\s]+)\<close> of the line check, over the blank-separated
  words of the line: a word \<open>-s\<close> or \<open>-d\<close> (in either case) takes the next word as its operand, and
  the search goes on after that word.
\<close>

definition addr_flag :: "string \<Rightarrow> bool" where
  "addr_flag w \<longleftrightarrow> lower w = ''-s'' \<or> lower w = ''-d''"

fun addr_operands :: "string list \<Rightarrow> string list" where
  "addr_operands (a # b # ws) = (if addr_flag a then b # addr_operands ws else addr_operands (b # ws))"
| "addr_operands _ = []"

definition validate_iptables_rest_line_addr_tokens :: "netaddr \<Rightarrow> string \<Rightarrow> unit res" where
  "validate_iptables_rest_line_addr_tokens na rest = (let t = strip rest in
     if t = [] then Inl (ValueError ''empty rule fragment'')
     else iterM (validate_iptables_addr_or_cidr na)
            (concat (map comma_tokens (addr_operands (py_words t)))))"

section \<open>Properties\<close>

text \<open>Normalising a CIDR text yields the network address with its prefix length: the result
  denotes the same set of addresses, is itself valid, has no host bits, and normalising it again
  changes nothing.\<close>

theorem normalize_cidr_canonical:
  assumes "netaddr_ok na" "normalize_cidr na s = Some t"
  shows "normalize_cidr na t = Some t \<and> validate_cidr na t \<and>
    (\<exists>n. na_network na (strip s) = Some n \<and> na_network na t = Some n \<and>
         mask_addr (net_addr n) (net_plen n) = net_addr n \<and> ip_network t = Some n)"
proof -
  obtain n where n: "net_ok n" "t = net_str n" "na_network na (strip s) = Some n"
    "na_network na t = Some n" "ip_network t = Some n"
    using normalize_cidr_net [OF assms] .
  with assms show ?thesis
    using normalize_cidr_net_str [OF assms(1) n(1)] normalize_cidr_valid [OF assms]
    by (auto simp: net_ok_def)
qed

theorem normalize_cidr_canonical_witness:
  "normalize_cidr netaddr_ref '' 192.168.1.0/16 '' = Some ''192.168.0.0/16'' \<and>
   normalize_cidr netaddr_ref ''192.168.0.0/16'' = Some ''192.168.0.0/16''"
proof -
  have h: "normalize_cidr netaddr_ref '' 192.168.1.0/16 '' = Some ''192.168.0.0/16''" by code_simp
  show ?thesis using h normalize_cidr_canonical [OF netaddr_ref_ok h] by simp
qed

text \<open>The capacity shown for a group is exactly the number of host addresses the allocator may
  hand out: the hosts of the group's network other than the tunnel server's address, the first
  address of the global pool.\<close>

theorem assignable_count_eq_hosts:
  assumes "netaddr_ok na" "normalize_cidr na s = Some t" "ip_network t = Some n"
    and "ip_network g = Some pool" "g \<noteq> []" "net_addr pool + 1 < 2 ^ 32"
  shows "assignable_client_ip_count na s (Some g) =
    Some (int (length (filter (\<lambda>h. h \<noteq> net_addr pool + 1) (hosts n))))"
proof -
  have ok: "net_ok n" by (rule ip_network_ok [OF assms(3)])
  let ?x = "net_addr pool + 1"
  have le: "net_plen n \<le> 30 \<or> net_plen n = 31 \<or> net_plen n = 32" using ok by (auto simp: net_ok_def)
  have len: "(if net_plen n \<le> 30 then max 0 (int (net_size n) - 2) else int (net_size n)) =
      int (length (hosts n))"
    using le
  proof (elim disjE)
    assume "net_plen n \<le> 30"
    with length_hosts_small [of n] show ?thesis by (simp add: length_hosts of_nat_diff max_def)
  qed (simp_all add: length_hosts net_size_def)
  have mem: "(in_net ?x n \<and> (net_plen n \<ge> 31 \<or> (?x \<noteq> net_addr n \<and> ?x \<noteq> net_last n))) \<longleftrightarrow>
      ?x \<in> set (hosts n)"
    using mem_hosts [OF ok] by blast
  have "assignable_client_ip_count na s (Some g) =
      Some (max 0 (int (length (hosts n)) - (if ?x \<in> set (hosts n) then 1 else 0)))"
    using assms(2-6) by (simp only: assignable_client_ip_count_def Let_def option.case if_False
        len mem not_le [symmetric] simp_thms if_True)
  then show ?thesis by (simp only: hosts_filter_length [OF ok, symmetric] max_def of_nat_0_le_iff if_True)
qed

theorem assignable_count_eq_hosts_witness:
  "assignable_client_ip_count netaddr_ref ''10.8.0.0/29'' (Some ''10.8.0.0/16'') =
    Some (int (length (filter (\<lambda>h. h \<noteq> 168296448 + 1)
      (hosts \<lparr>net_addr = 168296448, net_plen = 29\<rparr>))))"
proof -
  have a: "normalize_cidr netaddr_ref ''10.8.0.0/29'' = Some ''10.8.0.0/29''" by code_simp
  have b: "ip_network ''10.8.0.0/29'' = Some \<lparr>net_addr = 168296448, net_plen = 29\<rparr>" by code_simp
  have c: "ip_network ''10.8.0.0/16'' = Some \<lparr>net_addr = 168296448, net_plen = 16\<rparr>" by code_simp
  show ?thesis using assignable_count_eq_hosts [OF netaddr_ref_ok a b c] by simp
qed

end
