(* ===== verification/Models.thy ===== *)
theory Models
  imports Cidr
begin

text \<open>
  The data of \<open>app/models/\<close>: users, groups, firewall rules and peer sites as records, the
  \<open>Literal\<close> types as datatypes, and the pydantic field validators, which normalise a field or
  raise a \<open>ValidationError\<close> (a \<open>ValueError\<close>).
\<close>

section \<open>Users and groups\<close>

datatype user_status = UActive | UDisabled | UDeleted

record user =
  username :: string
  group_id :: string
  password_enabled :: bool
  u_status :: user_status
  ovpn_file_path :: "string option"
  device_binding_id :: "string option"
  cert_serial :: "string option"
  u_rule_ids :: "string list"
  u_created_at :: string
  u_updated_at :: string

datatype group_status = GActive | GDisabled

record group =
  g_id :: string
  g_name :: string
  g_subnet :: string
  g_status :: group_status
  user_count :: int
  g_rule_ids :: "string list"
  g_created_at :: string
  g_updated_at :: string

section \<open>Firewall rules\<close>

datatype owner_kind = OGroup | OUser | OTag
datatype deployment = Center | PeerSite
datatype fw_action = AAccept | ADrop | AReject

record rule =
  rule_id :: string
  owner_type :: owner_kind
  owner_id :: string
  deployment_target :: deployment
  vpn_instance :: string
  action :: fw_action
  source_subnet :: "string option"
  source_ips :: "string list option"
  dest_ip :: "string option"
  dest_port :: "string option"
  protocol :: string
  priority :: int
  enabled :: bool
  description :: "string option"
  r_created_at :: string
  r_updated_at :: string

subsection \<open>The port validator\<close>

definition all_digits :: "string \<Rightarrow> bool" where
  "all_digits s \<longleftrightarrow> s \<noteq> [] \<and> list_all is_digit s"

text \<open>\<open>^(\d+)-(\d+)$\<close> becomes \<open>start:end\<close>, anything else stays.\<close>

definition normalize_port_range_token :: "string \<Rightarrow> string" where
  "normalize_port_range_token token = (case split_on (CHR ''-'') token of
     [a, b] \<Rightarrow> if all_digits a \<and> all_digits b then a @ '':'' @ b else token
   | _ \<Rightarrow> token)"

text \<open>\<open>^(\d+)(?::(\d+))?$\<close>, read as the two numbers.\<close>

definition port_match :: "string \<Rightarrow> (nat \<times> nat) option" where
  "port_match token = (case split_on (CHR '':'') token of
     [a] \<Rightarrow> if all_digits a then Some (nat_of_dec a, nat_of_dec a) else None
   | [a, b] \<Rightarrow> if all_digits a \<and> all_digits b then Some (nat_of_dec a, nat_of_dec b) else None
   | _ \<Rightarrow> None)"

definition validate_one_port_token :: "string \<Rightarrow> string res" where
  "validate_one_port_token token0 = (let token = normalize_port_range_token token0 in
     case port_match token of None \<Rightarrow> Inl (ValueError ''bad port'')
     | Some (port_start, port_end) \<Rightarrow>
         if \<not> (1 \<le> port_start \<and> port_start \<le> 65535) then Inl (ValueError ''port out of range'')
         else if \<not> (1 \<le> port_end \<and> port_end \<le> 65535) then Inl (ValueError ''port out of range'')
         else if port_start > port_end then Inl (ValueError ''port range reversed'')
         else Inr token)"

definition validate_dest_port :: "string option \<Rightarrow> string option res" where
  "validate_dest_port v = (case v of None \<Rightarrow> Inr None
   | Some s \<Rightarrow> (let text = strip s in
       if text = [] then Inr None
       else if CHR '','' \<in> set text
         then rbind (mapM validate_one_port_token (comma_tokens text)) (\<lambda>parts. Inr (Some (join '','' parts)))
       else rbind (validate_one_port_token text) (\<lambda>t. Inr (Some t))))"

text \<open>\<open>FirewallRule(**data)\<close>: the port field is replaced by its validated form.\<close>

definition mk_rule :: "rule \<Rightarrow> rule res" where
  "mk_rule r = rbind (validate_dest_port (dest_port r)) (\<lambda>p. Inr (r\<lparr>dest_port := p\<rparr>))"

lemma mk_rule_InrD: "mk_rule r = Inr r' \<Longrightarrow> \<exists>p. validate_dest_port (dest_port r) = Inr p \<and> r' = r\<lparr>dest_port := p\<rparr>"
  by (auto simp: mk_rule_def rbind_Inr_iff)

lemma mk_rule_fields [simp]:
  assumes "mk_rule r = Inr r'"
  shows "rule_id r' = rule_id r" "owner_id r' = owner_id r" "owner_type r' = owner_type r"
    "priority r' = priority r" "enabled r' = enabled r" "source_subnet r' = source_subnet r"
    "source_ips r' = source_ips r" "dest_ip r' = dest_ip r" "deployment_target r' = deployment_target r"
  using mk_rule_InrD [OF assms] by auto

subsection \<open>Ports of a validated text\<close>

text \<open>A port text as the list of ranges it denotes.\<close>

definition port_ranges :: "string \<Rightarrow> (nat \<times> nat) option list" where
  "port_ranges s = map port_match (comma_tokens s)"

definition port_char :: "char \<Rightarrow> bool" where
  "port_char c \<longleftrightarrow> is_digit c \<or> c = CHR '':''"

lemma port_char_facts:
  "port_char c \<Longrightarrow> \<not> py_space c" "\<not> port_char (CHR '','')" "\<not> port_char (CHR ''-'')"
  "\<not> py_space (CHR '','')"
  by (auto simp: port_char_def digit_not_space) (auto simp: py_space_def is_digit_def)

lemma port_match_chars: "port_match t = Some r \<Longrightarrow> t \<noteq> [] \<and> list_all port_char t"
proof -
  assume m: "port_match t = Some r"
  have "t = join '':'' (split_on (CHR '':'') t)" by (simp add: join_split_on)
  then show ?thesis
    using m by (auto simp: port_match_def all_digits_def list_all_iff port_char_def
        split: list.splits if_splits)
qed

lemma port_text_strip: "t \<noteq> [] \<Longrightarrow> list_all port_char t \<Longrightarrow> strip t = t"
  by (rule strip_eqI) (auto simp: list_all_iff dest: port_char_facts(1))

lemma normalize_port_text: "list_all port_char t \<Longrightarrow> normalize_port_range_token t = t"
proof -
  assume "list_all port_char t"
  then have "CHR ''-'' \<notin> set t" using port_char_facts(3) by (auto simp: list_all_iff)
  then show ?thesis by (simp add: normalize_port_range_token_def split_on_no_sep)
qed

lemma validate_one_port_tokenD:
  assumes "validate_one_port_token s = Inr t"
  obtains a b where "port_match t = Some (a, b)" "1 \<le> a" "a \<le> b" "b \<le> 65535"
    "t \<noteq> []" "list_all port_char t" "validate_one_port_token t = Inr t"
proof -
  from assms obtain a b where m: "port_match t = Some (a, b)" and r: "1 \<le> a" "a \<le> b" "b \<le> 65535"
    by (auto simp: validate_one_port_token_def Let_def split: option.splits prod.splits if_splits)
  moreover have "t \<noteq> []" "list_all port_char t" using port_match_chars [OF m] by auto
  moreover have "validate_one_port_token t = Inr t"
    using m r calculation by (simp add: validate_one_port_token_def normalize_port_text Let_def)
  ultimately show ?thesis using that by blast
qed

lemma validate_dest_port_parts:
  assumes "validate_dest_port (Some s) = Inr (Some t)"
  obtains parts where "\<forall>p\<in>set parts. \<exists>s. validate_one_port_token s = Inr p" "t = join '','' parts"
proof (cases "CHR '','' \<in> set (strip s)")
  case True
  with assms have "rbind (mapM validate_one_port_token (comma_tokens (strip s)))
      (\<lambda>parts. Inr (Some (join '','' parts))) = Inr (Some t)"
    by (simp add: validate_dest_port_def Let_def split: if_splits)
  then obtain parts where "mapM validate_one_port_token (comma_tokens (strip s)) = Inr parts"
    "t = join '','' parts" by (simp add: rbind_Inr_iff) blast
  then show ?thesis using that [of parts] mapM_mem [of validate_one_port_token] by metis
next
  case False
  with assms have "rbind (validate_one_port_token (strip s)) (\<lambda>t. Inr (Some t)) = Inr (Some t)"
    by (simp add: validate_dest_port_def Let_def split: if_splits)
  then have "validate_one_port_token (strip s) = Inr t" by (simp add: rbind_Inr_iff)
  then show ?thesis using that [of "[t]"] by auto
qed

lemma port_parts_tokens:
  assumes "\<forall>p\<in>set parts. p \<noteq> [] \<and> list_all port_char p"
  shows "comma_tokens (join '','' parts) = parts"
proof (cases "parts = []")
  case False
  then have "split_on (CHR '','') (join '','' parts) = parts"
    using assms port_char_facts(2) by (intro split_on_join) (auto simp: list_all_iff)
  then show ?thesis
    using assms by (simp add: comma_tokens_def) (rule strip_all_id, auto simp: port_text_strip)
qed simp

lemma comma_join_strip:
  assumes "\<forall>p\<in>set parts. p \<noteq> [] \<and> list_all port_char p" "parts \<noteq> []"
  shows "strip (join '','' parts) = join '','' parts \<and> join '','' parts \<noteq> []"
proof -
  have nsp: "c \<in> set (join '','' parts) \<Longrightarrow> \<not> py_space c" for c
    using assms(1)
  proof (induction "'',''" parts rule: join.induct)
    case (3 w v ws)
    then show ?case using port_char_facts(4) by (auto simp: list_all_iff dest: port_char_facts(1))
  qed (auto simp: list_all_iff dest: port_char_facts(1))
  have ne: "join '','' parts \<noteq> []"
    using assms by (cases parts rule: list.exhaust; cases "tl parts") auto
  show ?thesis using ne nsp by (auto intro!: strip_eqI)
qed

section \<open>Peer sites\<close>

datatype ssh_auth_kind = SshPassword | SshKey | SshNone

record peer =
  p_id :: string
  p_name :: string
  bound_username :: string
  lan_cidrs :: "string list"
  center_forward_priority :: int
  center_forward_enabled :: bool
  center_forward_dest_ip :: string
  center_forward_dest_port :: string
  center_forward_protocol :: string
  center_forward_rule_description :: string
  mesh_route_visible_group_ids :: "string list"
  ssh_host :: string
  ssh_port :: int
  ssh_username :: string
  ssh_auth :: ssh_auth_kind
  ssh_password :: string
  ssh_private_key :: string
  ssh_private_key_passphrase :: string
  masquerade_on_peer :: bool
  auto_install_on_peer :: bool
  ssh_openvpn_binary :: string
  p_created_at :: string
  p_updated_at :: string

definition validate_mesh_group_ids :: "string list \<Rightarrow> string list" where
  "validate_mesh_group_ids v = dedup (strip_all v)"

definition center_proto :: "string \<Rightarrow> string" where
  "center_proto v = (let s = lower (strip v) in if s = [] then ''all'' else s)"

definition validate_lan_cidrs :: "netaddr \<Rightarrow> string list \<Rightarrow> string list res" where
  "validate_lan_cidrs na v =
     mapM (\<lambda>s. if validate_cidr na s then Inr s else Inl (ValueError ''bad lan cidr'')) (strip_all v)"

definition validate_bound_username :: "string \<Rightarrow> string res" where
  "validate_bound_username v = (let s = strip v in
     if s = [] then Inl (ValueError ''empty bound_username'') else Inr s)"

text \<open>\<open>PeerInstance(**data)\<close>: range checks of the numeric fields, then the validators.\<close>

definition mk_peer :: "netaddr \<Rightarrow> peer \<Rightarrow> peer res" where
  "mk_peer na p =
     rbind (validate_bound_username (bound_username p)) (\<lambda>bu.
     rbind (validate_lan_cidrs na (lan_cidrs p)) (\<lambda>lans.
     if center_forward_priority p < 1 then Inl (ValueError ''priority below 1'')
     else if ssh_port p < 1 \<or> 65535 < ssh_port p then Inl (ValueError ''ssh port out of range'')
     else Inr (p\<lparr>bound_username := bu, lan_cidrs := lans,
       center_forward_dest_ip := strip (center_forward_dest_ip p),
       center_forward_dest_port := strip (center_forward_dest_port p),
       center_forward_protocol := center_proto (center_forward_protocol p),
       center_forward_rule_description := strip (center_forward_rule_description p),
       mesh_route_visible_group_ids := validate_mesh_group_ids (mesh_route_visible_group_ids p),
       ssh_username := strip (ssh_username p),
       ssh_openvpn_binary := strip (ssh_openvpn_binary p)\<rparr>)))"

lemma validate_lan_cidrs_InrD:
  assumes "validate_lan_cidrs na v = Inr out"
  shows "out = strip_all v \<and> (\<forall>c\<in>set out. validate_cidr na c)"
  using assms by (auto simp: validate_lan_cidrs_def mapM_guard_iff)

lemma validate_dest_port_law:
  assumes "validate_dest_port (Some s) = Inr (Some t)" "t \<noteq> []"
  shows "validate_dest_port (Some t) = Inr (Some t) \<and>
    (\<forall>r\<in>set (port_ranges t). \<exists>a b. r = Some (a, b) \<and> 1 \<le> a \<and> a \<le> b \<and> b \<le> 65535)"
proof -
  obtain parts where P: "\<forall>p\<in>set parts. \<exists>s. validate_one_port_token s = Inr p"
    and t: "t = join '','' parts" using validate_dest_port_parts [OF assms(1)] .
  have ne: "parts \<noteq> []" using assms(2) t by auto
  have chars: "\<forall>p\<in>set parts. p \<noteq> [] \<and> list_all port_char p"
    using P by (metis validate_one_port_tokenD)
  have toks: "comma_tokens t = parts" using port_parts_tokens [OF chars] t by simp
  have ts: "strip t = t" "t \<noteq> []" using comma_join_strip [OF chars ne] t by auto
  have again: "\<forall>p\<in>set parts. validate_one_port_token p = Inr p"
    using P by (metis validate_one_port_tokenD)
  have all: "mapM validate_one_port_token parts = Inr parts"
    using again by (rule mapM_id)
  have "validate_dest_port (Some t) = Inr (Some t)"
  proof (cases "CHR '','' \<in> set t")
    case True
    then show ?thesis using ts toks all t by (simp add: validate_dest_port_def Let_def)
  next
    case False
    then have "split_on (CHR '','') t = [t]" by (rule split_on_no_sep)
    then have "parts = [t]" using toks ts by (simp add: comma_tokens_def strip_all_def)
    then show ?thesis using False ts again by (simp add: validate_dest_port_def Let_def)
  qed
  moreover have "\<forall>r\<in>set (port_ranges t). \<exists>a b. r = Some (a, b) \<and> 1 \<le> a \<and> a \<le> b \<and> b \<le> 65535"
  proof
    fix r assume "r \<in> set (port_ranges t)"
    then obtain p where "p \<in> set parts" "r = port_match p" by (auto simp: port_ranges_def toks)
    moreover then obtain s where "validate_one_port_token s = Inr p" using P by blast
    ultimately show "\<exists>a b. r = Some (a, b) \<and> 1 \<le> a \<and> a \<le> b \<and> b \<le> 65535"
      by (metis validate_one_port_tokenD)
  qed
  ultimately show ?thesis by blast
qed

section \<open>Properties\<close>

text \<open>An accepted port field denotes port ranges only: every range lies within 1 to 65535 with
  its start not above its end, and validating the stored text again accepts it unchanged.\<close>

theorem validate_dest_port_sound:
  assumes "validate_dest_port (Some s) = Inr (Some t)" "t \<noteq> []"
  shows "validate_dest_port (Some t) = Inr (Some t) \<and>
    (\<forall>r\<in>set (port_ranges t). \<exists>a b. r = Some (a, b) \<and> 1 \<le> a \<and> a \<le> b \<and> b \<le> 65535)"
  by (rule validate_dest_port_law [OF assms])

theorem validate_dest_port_sound_witness:
  "validate_dest_port (Some ''80, 8000-8080,443 '') = Inr (Some ''80,8000:8080,443'') \<and>
   validate_dest_port (Some ''80,8000:8080,443'') = Inr (Some ''80,8000:8080,443'')"
proof -
  have h: "validate_dest_port (Some ''80, 8000-8080,443 '') = Inr (Some ''80,8000:8080,443'')" by code_simp
  show ?thesis using h validate_dest_port_sound [OF h] by simp
qed

end
