(* ===== verification/Ipset.thy ===== *)
theory Ipset
  imports Models
begin

text \<open>
  \<open>app/services/firewall/ipset_mgr.py\<close>: the declarative life cycle of the program's ipsets
  (stage, swap, commit with garbage collection, rollback).

  \<open>subprocess.run\<close> is the parameter \<open>run\<close>: a command line and standard input act on the state of
  the host and give an exit code with its output, or no result at all (\<open>OSError\<close>,
  \<open>TimeoutExpired\<close>).  \<open>ipset_ok\<close> states the documented behaviour of the \<open>ipset\<close> program on that
  state; every command may fail.  The digests of \<open>hashlib\<close> and the random part of a staging name
  are parameters too.
\<close>

datatype proc_out = ProcExc | Proc int string string

type_synonym 'k runner = "string list \<Rightarrow> string \<Rightarrow> 'k \<Rightarrow> proc_out \<times> 'k"

text \<open>The manager's surroundings: the host, the transaction lock (thread lock and lock file),
  whether the lock file can be opened, the supply of random suffixes, and the number of
  \<open>logger.critical\<close> messages so far.\<close>

record 'k mgr =
  kernel :: 'k
  lock_held :: bool
  lock_file_ok :: bool
  uuid_ctr :: nat
  criticals :: nat

record hashes =
  md5_hex :: "string \<Rightarrow> string"
  sha1_hex :: "string \<Rightarrow> string"
  uuid_hex :: "nat \<Rightarrow> string"

record ipset_spec =
  is_name :: string
  is_entries :: "string list"
  is_owner_type :: string
  is_owner_id :: string
  is_purpose :: string
  is_set_type :: string
  is_family :: string

record ipset_swap =
  stable_of :: string
  stage_of :: string
  stable_was_created :: bool

record ipset_txn =
  desired_names :: "string list"
  swaps :: "ipset_swap list"
  committed :: bool
  rolled_back :: bool
  lock_fd :: bool

section \<open>Names\<close>

definition stable_prefixes :: "string list" where
  "stable_prefixes = [''ovpnfw_'', ''ovpnpeer_'', ''ovpntag_'']"

definition stage_prefix :: string where
  "stage_prefix = ''ovpnstg_''"

definition is_managed_name :: "string \<Rightarrow> bool" where
  "is_managed_name name \<longleftrightarrow> list_ex (starts_with name) (stable_prefixes @ [stage_prefix])"

definition is_stable_managed_name :: "string \<Rightarrow> bool" where
  "is_stable_managed_name name \<longleftrightarrow> list_ex (starts_with name) stable_prefixes"

definition stable_name :: "hashes \<Rightarrow> string \<Rightarrow> string \<Rightarrow> string \<Rightarrow> string res" where
  "stable_name h otype oident purp =
     (let ot = lower (strip otype); oid = strip oident; pur = lower (strip purp) in
      if oid = [] then Inl (ValueError ''empty owner_id'')
      else if pur = [] then Inl (ValueError ''empty purpose'')
      else rbind
        (if ot = ''rule'' then Inr (''ovpnfw_'' @ [hd pur] @ take 20 (md5_hex h (oid @ ''_'' @ pur)))
         else if ot = ''peer'' then
           (if pur = ''lan'' then Inr (''ovpnpeer_'' @ ''l'' @ take 20 (md5_hex h (''peer_lan_'' @ oid)))
            else Inr (''ovpnpeer_'' @ [hd pur] @ take 20 (md5_hex h (''peer_'' @ pur @ ''_'' @ oid))))
         else if ot = ''tag'' then Inr (''ovpntag_'' @ [hd pur] @ take 20 (md5_hex h (''tag_'' @ oid @ ''_'' @ pur)))
         else Inl (ValueError ''owner_type''))
        (\<lambda>name. if length name > 31 then Inl (ValueError ''ipset name too long'') else Inr name))"

definition stage_name :: "hashes \<Rightarrow> nat \<Rightarrow> string \<Rightarrow> string res" where
  "stage_name h i name =
     (let n = stage_prefix @ take 12 (sha1_hex h name) @ ''_'' @ take 8 (uuid_hex h i) in
      if length n > 31 then Inl (RuntimeError ''staging name too long'') else Inr n)"

lemma stage_name_not_stable: "stage_name h i name = Inr n \<Longrightarrow> \<not> is_stable_managed_name n"
  by (auto simp: stage_name_def stage_prefix_def is_stable_managed_name_def stable_prefixes_def
      starts_with_def Let_def split: if_splits)

lemma stable_name_managed: "stable_name h ot oid pur = Inr n \<Longrightarrow> is_stable_managed_name n"
  by (auto simp: stable_name_def Let_def is_stable_managed_name_def stable_prefixes_def starts_with_def
      rbind_Inr_iff split: if_splits)

section \<open>Entries\<close>

definition net_key :: "net \<Rightarrow> nat \<times> nat" where
  "net_key n = (net_addr n, net_plen n)"

definition key_net :: "nat \<times> nat \<Rightarrow> net" where
  "key_net k = \<lparr>net_addr = fst k, net_plen = snd k\<rparr>"

lemma key_net_key [simp]: "key_net (net_key n) = n" "net_key (key_net k) = k"
  by (simp_all add: key_net_def net_key_def)

lemma inj_net_key: "inj net_key"
  by (metis injI key_net_key(1))

definition parse_entry :: "string \<Rightarrow> net res" where
  "parse_entry token = (case ip_network token of None \<Rightarrow> Inl (ValueError ''bad ipset address'') | Some n \<Rightarrow> Inr n)"

definition normalize_entries :: "string list \<Rightarrow> string list res" where
  "normalize_entries entries =
     rbind (mapM parse_entry (strip_all entries))
       (\<lambda>ns. Inr (map (\<lambda>k. net_str (key_net k)) (sorted_set (map net_key ns))))"

definition spec :: "hashes \<Rightarrow> string \<Rightarrow> string \<Rightarrow> string \<Rightarrow> string list \<Rightarrow> ipset_spec res" where
  "spec h otype oident purp entries =
     rbind (normalize_entries entries) (\<lambda>es.
     rbind (stable_name h otype oident purp) (\<lambda>name.
       Inr \<lparr>is_name = name, is_entries = es, is_owner_type = lower (strip otype),
         is_owner_id = strip oident, is_purpose = lower (strip purp),
         is_set_type = ''hash:net'', is_family = ''inet''\<rparr>))"

lemma spec_InrD:
  "spec h ot oid pur es = Inr s \<Longrightarrow> stable_name h ot oid pur = Inr (is_name s) \<and> normalize_entries es = Inr (is_entries s)"
  by (auto simp: spec_def rbind_Inr_iff)

definition validate_spec :: "ipset_spec \<Rightarrow> unit res" where
  "validate_spec s =
     (if \<not> is_stable_managed_name (is_name s) then Inl (ValueError ''outside namespace'')
      else if length (is_name s) > 31 then Inl (ValueError ''ipset name too long'')
      else if is_set_type s \<noteq> ''hash:net'' then Inl (ValueError ''set type'')
      else if is_family s \<noteq> ''inet'' then Inl (ValueError ''family'')
      else Inr ())"

section \<open>Commands\<close>

text \<open>\<open>_run\<close>: no result is a \<open>RuntimeError\<close>; with \<open>check\<close> a non-zero exit code is one too.\<close>

definition ip_run :: "'k runner \<Rightarrow> string list \<Rightarrow> bool \<Rightarrow> 'k mgr \<Rightarrow> (int \<times> string \<times> string) res \<times> 'k mgr" where
  "ip_run run args check st = (case run args [] (kernel st) of
     (ProcExc, k) \<Rightarrow> (Inl (RuntimeError ''exec''), st\<lparr>kernel := k\<rparr>)
   | (Proc rc out err, k) \<Rightarrow>
       (if check \<and> rc \<noteq> 0 then Inl (RuntimeError ''rc'') else Inr (rc, out, err), st\<lparr>kernel := k\<rparr>))"

definition stderr_of :: "string \<Rightarrow> string \<Rightarrow> string" where
  "stderr_of out err = (let s = strip (if err \<noteq> [] then err else out) in
     if s = [] then ''(no stderr/stdout)'' else s)"

definition list_names :: "'k runner \<Rightarrow> 'k mgr \<Rightarrow> string list res \<times> 'k mgr" where
  "list_names run st = (case ip_run run [''ipset'', ''list'', ''-n''] False st of
     (Inl e, st') \<Rightarrow> (Inl e, st')
   | (Inr (rc, out, err), st') \<Rightarrow>
       (if rc \<noteq> 0 then Inl (RuntimeError ''ipset list'') else Inr (strip_all (splitlines out)), st'))"

definition create_args :: "string \<Rightarrow> string \<Rightarrow> string \<Rightarrow> bool \<Rightarrow> string list" where
  "create_args name set_type family exist_ok =
     [''ipset'', ''create'', name, set_type, ''family'', family] @ (if exist_ok then [''-exist''] else [])"

definition create_empty :: "'k runner \<Rightarrow> string \<Rightarrow> string \<Rightarrow> string \<Rightarrow> bool \<Rightarrow> 'k mgr \<Rightarrow> unit res \<times> 'k mgr" where
  "create_empty run name set_type family exist_ok st =
     (case ip_run run (create_args name set_type family exist_ok) True st of
        (Inl e, st') \<Rightarrow> (Inl e, st')
      | (Inr _, st') \<Rightarrow> (Inr (), st'))"

definition says_missing :: "string \<Rightarrow> string \<Rightarrow> bool" where
  "says_missing out err \<longleftrightarrow> (let s = lower (stderr_of out err) in
     str_in ''does not exist'' s \<or> str_in ''not exist'' s)"

definition destroy_best_effort :: "'k runner \<Rightarrow> string \<Rightarrow> 'k mgr \<Rightarrow> bool \<times> 'k mgr" where
  "destroy_best_effort run name st = (case ip_run run [''ipset'', ''destroy'', name] False st of
     (Inl e, st') \<Rightarrow> (False, st')
   | (Inr (rc, out, err), st') \<Rightarrow>
       (if rc = 0 then True else if says_missing out err then True else False, st'))"

definition swap_sets :: "'k runner \<Rightarrow> string \<Rightarrow> string \<Rightarrow> 'k mgr \<Rightarrow> unit res \<times> 'k mgr" where
  "swap_sets run a b st = (case ip_run run [''ipset'', ''swap'', a, b] True st of
     (Inl e, st') \<Rightarrow> (Inl e, st') | (Inr _, st') \<Rightarrow> (Inr (), st'))"

fun add_entries :: "'k runner \<Rightarrow> string \<Rightarrow> string list \<Rightarrow> 'k mgr \<Rightarrow> unit res \<times> 'k mgr" where
  "add_entries run name [] st = (Inr (), st)"
| "add_entries run name (e # es) st =
     (case ip_run run [''ipset'', ''add'', name, e, ''-exist''] True st of
        (Inl x, st') \<Rightarrow> (Inl x, st')
      | (Inr _, st') \<Rightarrow> add_entries run name es st')"

section \<open>The transaction\<close>

definition acquire_lock :: "'k mgr \<Rightarrow> (unit res \<times> 'k mgr) option" where
  "acquire_lock st = (if lock_held st then None
     else if lock_file_ok st then Some (Inr (), st\<lparr>lock_held := True\<rparr>)
     else Some (Inl (OSError ''lock file''), st))"

definition release_lock :: "ipset_txn \<Rightarrow> 'k mgr \<Rightarrow> ipset_txn \<times> 'k mgr" where
  "release_lock txn st = (if lock_fd txn then (txn\<lparr>lock_fd := False\<rparr>, st\<lparr>lock_held := False\<rparr>) else (txn, st))"

text \<open>The loop of \<open>rollback\<close> over the reversed swap records, with its success flag.\<close>

fun rollback_swaps :: "'k runner \<Rightarrow> ipset_swap list \<Rightarrow> bool \<Rightarrow> 'k mgr \<Rightarrow> bool \<times> 'k mgr" where
  "rollback_swaps run [] ok st = (ok, st)"
| "rollback_swaps run (w # ws) ok st =
     (case swap_sets run (stage_of w) (stable_of w) st of
        (Inl e, st1) \<Rightarrow> rollback_swaps run ws False (st1\<lparr>criticals := Suc (criticals st1)\<rparr>)
      | (Inr _, st1) \<Rightarrow>
          (let (ok1, st2) = (if stable_was_created w then
                 (let (d, s) = destroy_best_effort run (stable_of w) st1 in (ok \<and> d, s)) else (ok, st1));
               (d, st3) = destroy_best_effort run (stage_of w) st2
           in rollback_swaps run ws (ok1 \<and> d) st3))"

definition rollback :: "'k runner \<Rightarrow> ipset_txn \<Rightarrow> 'k mgr \<Rightarrow> bool \<times> ipset_txn \<times> 'k mgr" where
  "rollback run txn st =
     (if rolled_back txn then (True, txn, st)
      else if committed txn then (False, txn, st)
      else (let (ok, st1) = rollback_swaps run (rev (swaps txn)) True st;
                (txn1, st2) = release_lock (txn\<lparr>rolled_back := True\<rparr>) st1
            in (ok, txn1, st2)))"

fun gc_loop :: "'k runner \<Rightarrow> string list \<Rightarrow> string list \<Rightarrow> bool \<Rightarrow> 'k mgr \<Rightarrow> bool \<times> 'k mgr" where
  "gc_loop run desired [] ok st = (ok, st)"
| "gc_loop run desired (n # ns) ok st =
     (if is_stable_managed_name n \<and> n \<notin> set desired
      then (let (d, st') = destroy_best_effort run n st in gc_loop run desired ns (ok \<and> d) st')
      else gc_loop run desired ns ok st)"

definition gc :: "'k runner \<Rightarrow> string list \<Rightarrow> 'k mgr \<Rightarrow> bool \<times> 'k mgr" where
  "gc run names st = (let desired = strip_all names in
     case list_names run st of
       (Inl e, st') \<Rightarrow> (False, st')
     | (Inr actual, st') \<Rightarrow> gc_loop run desired (sorted_set actual) True st')"

fun destroy_stages :: "'k runner \<Rightarrow> ipset_swap list \<Rightarrow> bool \<Rightarrow> 'k mgr \<Rightarrow> bool \<times> 'k mgr" where
  "destroy_stages run [] ok st = (ok, st)"
| "destroy_stages run (w # ws) ok st =
     (let (d, st') = destroy_best_effort run (stage_of w) st in destroy_stages run ws (ok \<and> d) st')"

definition commit :: "'k runner \<Rightarrow> ipset_txn \<Rightarrow> 'k mgr \<Rightarrow> bool \<times> ipset_txn \<times> 'k mgr" where
  "commit run txn st =
     (if committed txn then (True, txn, st)
      else if rolled_back txn then (False, txn, st)
      else (let (ok1, st1) = destroy_stages run (swaps txn) True st;
                (ok2, st2) = gc run (desired_names txn) st1;
                (txn1, st3) = release_lock (txn\<lparr>committed := True\<rparr>) st2
            in (ok1 \<and> ok2, txn1, st3)))"

text \<open>One specification: stage the entries, make sure the stable set exists, swap.  A failure
  before the swap destroys the stage, and the stable set when this round created it.\<close>

definition stage_and_swap :: "'k runner \<Rightarrow> ipset_spec \<Rightarrow> string \<Rightarrow> bool \<Rightarrow> 'k mgr \<Rightarrow> unit res \<times> 'k mgr" where
  "stage_and_swap run s stage existed st =
     (case add_entries run stage (is_entries s) st of
        (Inl e, st1) \<Rightarrow> (Inl e, st1)
      | (Inr _, st1) \<Rightarrow>
          (case (if existed then (Inr (), st1)
                 else create_empty run (is_name s) (is_set_type s) (is_family s) True st1) of
             (Inl e, st2) \<Rightarrow> (Inl e, st2)
           | (Inr _, st2) \<Rightarrow> swap_sets run stage (is_name s) st2))"

definition reconcile_one :: "'k runner \<Rightarrow> hashes \<Rightarrow> string list \<Rightarrow> ipset_spec \<Rightarrow> 'k mgr \<Rightarrow> ipset_swap res \<times> 'k mgr" where
  "reconcile_one run h existing s st =
     (case stage_name h (uuid_ctr st) (is_name s) of
        Inl e \<Rightarrow> (Inl e, st\<lparr>uuid_ctr := Suc (uuid_ctr st)\<rparr>)
      | Inr stage \<Rightarrow>
          (let st0 = st\<lparr>uuid_ctr := Suc (uuid_ctr st)\<rparr>; existed = (is_name s \<in> set existing) in
           case create_empty run stage (is_set_type s) (is_family s) False st0 of
             (Inl e, st1) \<Rightarrow> (Inl e, st1)
           | (Inr _, st1) \<Rightarrow>
               (case stage_and_swap run s stage existed st1 of
                  (Inl e, st2) \<Rightarrow>
                    (let st3 = snd (destroy_best_effort run stage st2);
                         st4 = (if existed then st3 else snd (destroy_best_effort run (is_name s) st3))
                     in (Inl e, st4))
                | (Inr _, st2) \<Rightarrow>
                    (Inr \<lparr>stable_of = is_name s, stage_of = stage, stable_was_created = \<not> existed\<rparr>, st2))))"

fun reconcile_loop ::
  "'k runner \<Rightarrow> hashes \<Rightarrow> string list \<Rightarrow> ipset_spec list \<Rightarrow> ipset_swap list \<Rightarrow> 'k mgr \<Rightarrow>
   exn option \<times> ipset_swap list \<times> 'k mgr" where
  "reconcile_loop run h existing [] ws st = (None, ws, st)"
| "reconcile_loop run h existing (s # ss) ws st =
     (case reconcile_one run h existing s st of
        (Inl e, st') \<Rightarrow> (Some e, ws, st')
      | (Inr w, st') \<Rightarrow> reconcile_loop run h (is_name s # existing) ss (ws @ [w]) st')"

definition reconcile :: "'k runner \<Rightarrow> hashes \<Rightarrow> ipset_spec list \<Rightarrow> 'k mgr \<Rightarrow> (ipset_txn res \<times> 'k mgr) option" where
  "reconcile run h desired st =
     (let names = map is_name desired in
      if \<not> distinct names then Some (Inl (ValueError ''duplicate stable name''), st)
      else (case iterM validate_spec desired of
        Inl e \<Rightarrow> Some (Inl e, st)
      | Inr _ \<Rightarrow>
         (case acquire_lock st of
            None \<Rightarrow> None
          | Some (Inl e, st1) \<Rightarrow> Some (Inl e, st1)
          | Some (Inr _, st1) \<Rightarrow>
             (let txn = \<lparr>desired_names = names, swaps = [], committed = False, rolled_back = False, lock_fd = True\<rparr>;
                  (failure, ws, st2) =
                    (case list_names run st1 of
                       (Inl e, s) \<Rightarrow> (Some e, [], s)
                     | (Inr existing, s) \<Rightarrow> reconcile_loop run h existing desired [] s)
              in (case failure of
                    None \<Rightarrow> Some (Inr (txn\<lparr>swaps := ws\<rparr>), st2)
                  | Some e \<Rightarrow>
                     (let (ok, _, st3) = rollback run (txn\<lparr>swaps := ws\<rparr>) st2
                      in Some (Inl e, if ok then st3 else st3\<lparr>criticals := Suc (criticals st3)\<rparr>)))))))"

end
