(* ===== verification/Ipset_Laws.thy ===== *)
theory Ipset_Laws
  imports Ipset
begin

text \<open>
  What the ipset life cycle guarantees, for every host on which the \<open>ipset\<close> program behaves as
  documented (\<open>ipset_ok\<close>) and whichever of its commands fail.  The abstraction \<open>sets\<close> reads the
  sets of a host state as a map from names to entries.
\<close>

section \<open>The documented behaviour of ipset\<close>

definition exit0 :: "proc_out \<Rightarrow> bool" where
  "exit0 r \<longleftrightarrow> (case r of Proc rc _ _ \<Rightarrow> rc = 0 | ProcExc \<Rightarrow> False)"

text \<open>A command that does not exit with 0 changes nothing; \<open>list -n\<close> prints the names, one per
  line; \<open>create\<close> without \<open>-exist\<close> only succeeds on a new name; \<open>swap\<close> exchanges the contents of
  two existing sets; \<open>destroy\<close> removes a set, and only blames a set that is missing.\<close>

definition list_law :: "'k runner \<Rightarrow> ('k \<Rightarrow> string \<Rightarrow> string set option) \<Rightarrow> bool" where
  "list_law run sets \<longleftrightarrow> (\<forall>k r k'. run [''ipset'', ''list'', ''-n''] [] k = (r, k') \<longrightarrow>
     sets k' = sets k \<and>
     (\<forall>out err. r = Proc 0 out err \<longrightarrow> set (strip_all (splitlines out)) = dom (sets k)))"

definition create_law :: "'k runner \<Rightarrow> ('k \<Rightarrow> string \<Rightarrow> string set option) \<Rightarrow> bool" where
  "create_law run sets \<longleftrightarrow> (\<forall>n ty fam x k r k'. run (create_args n ty fam x) [] k = (r, k') \<longrightarrow>
     (if exit0 r then (x \<or> sets k n = None) \<and>
        sets k' = (if sets k n = None then (sets k)(n \<mapsto> {}) else sets k)
      else sets k' = sets k))"

definition add_law :: "'k runner \<Rightarrow> ('k \<Rightarrow> string \<Rightarrow> string set option) \<Rightarrow> bool" where
  "add_law run sets \<longleftrightarrow> (\<forall>n e k r k'. run [''ipset'', ''add'', n, e, ''-exist''] [] k = (r, k') \<longrightarrow>
     (if exit0 r then \<exists>E. sets k n = Some E \<and> sets k' = (sets k)(n \<mapsto> insert e E)
      else sets k' = sets k))"

definition swap_law :: "'k runner \<Rightarrow> ('k \<Rightarrow> string \<Rightarrow> string set option) \<Rightarrow> bool" where
  "swap_law run sets \<longleftrightarrow> (\<forall>a b k r k'. run [''ipset'', ''swap'', a, b] [] k = (r, k') \<longrightarrow>
     (if exit0 r then sets k a \<noteq> None \<and> sets k b \<noteq> None \<and> sets k' = (sets k)(a := sets k b, b := sets k a)
      else sets k' = sets k))"

definition destroy_law :: "'k runner \<Rightarrow> ('k \<Rightarrow> string \<Rightarrow> string set option) \<Rightarrow> bool" where
  "destroy_law run sets \<longleftrightarrow> (\<forall>n k r k'. run [''ipset'', ''destroy'', n] [] k = (r, k') \<longrightarrow>
     (if exit0 r then sets k' = (sets k)(n := None)
      else sets k' = sets k \<and> (\<forall>rc out err. r = Proc rc out err \<longrightarrow> says_missing out err \<longrightarrow> sets k n = None)))"

definition ipset_ok :: "'k runner \<Rightarrow> ('k \<Rightarrow> string \<Rightarrow> string set option) \<Rightarrow> bool" where
  "ipset_ok run sets \<longleftrightarrow> list_law run sets \<and> create_law run sets \<and> add_law run sets \<and>
     swap_law run sets \<and> destroy_law run sets"

text \<open>The parts of the manager a command leaves alone.\<close>

definition same_frame :: "'k mgr \<Rightarrow> 'k mgr \<Rightarrow> bool" where
  "same_frame s t \<longleftrightarrow> lock_held t = lock_held s \<and> lock_file_ok t = lock_file_ok s \<and> criticals t = criticals s"

lemma same_frame_refl [simp]: "same_frame s s"
  by (simp add: same_frame_def)

lemma same_frame_trans: "same_frame s t \<Longrightarrow> same_frame t u \<Longrightarrow> same_frame s u"
  by (simp add: same_frame_def)

section \<open>Single commands\<close>

lemma ip_run_frame: "ip_run run a c st = (r, st') \<Longrightarrow> same_frame st st'"
  by (auto simp: ip_run_def same_frame_def split: prod.splits proc_out.splits if_splits)

lemma ip_run_Inr:
  "ip_run run a c st = (Inr (rc, out, err), st') \<Longrightarrow>
   run a [] (kernel st) = (Proc rc out err, kernel st') \<and> (c \<longrightarrow> rc = 0)"
  by (auto simp: ip_run_def split: prod.splits proc_out.splits if_splits)

lemma ip_run_Inl:
  "ip_run run a c st = (Inl e, st') \<Longrightarrow> \<exists>r. run a [] (kernel st) = (r, kernel st') \<and> \<not> exit0 r"
  by (auto simp: ip_run_def exit0_def split: prod.splits proc_out.splits if_splits)

lemma list_names_law:
  assumes "ipset_ok run sets" "list_names run st = (r, st')"
  shows "sets (kernel st') = sets (kernel st)" "same_frame st st'"
    "r = Inr ns \<Longrightarrow> set ns = dom (sets (kernel st))"
proof -
  obtain x where x: "ip_run run [''ipset'', ''list'', ''-n''] False st = (x, st')"
    using assms(2) by (auto simp: list_names_def split: prod.splits sum.splits)
  show "same_frame st st'" using ip_run_frame [OF x] .
  have law: "list_law run sets" using assms(1) by (simp add: ipset_ok_def)
  show "sets (kernel st') = sets (kernel st)"
  proof (cases x)
    case (Inl e)
    then show ?thesis using law ip_run_Inl x unfolding list_law_def by fastforce
  next
    case (Inr t)
    obtain rc out err where "t = (rc, out, err)" by (cases t)
    then have "run [''ipset'', ''list'', ''-n''] [] (kernel st) = (Proc rc out err, kernel st')"
      using ip_run_Inr x Inr by fastforce
    then show ?thesis using law unfolding list_law_def by blast
  qed
  assume r: "r = Inr ns"
  with assms(2) obtain out err where
    "ip_run run [''ipset'', ''list'', ''-n''] False st = (Inr (0, out, err), st')"
    "ns = strip_all (splitlines out)"
    by (auto simp: list_names_def split: prod.splits sum.splits if_splits)
  then show "set ns = dom (sets (kernel st))"
    using law ip_run_Inr unfolding list_law_def by fastforce
qed

lemma create_empty_law:
  assumes "ipset_ok run sets" "create_empty run n ty fam x st = (r, st')"
  shows "same_frame st st'"
    "r = Inr () \<Longrightarrow> (x \<or> sets (kernel st) n = None) \<and>
       sets (kernel st') = (if sets (kernel st) n = None then (sets (kernel st))(n \<mapsto> {}) else sets (kernel st))"
    "r = Inl e \<Longrightarrow> sets (kernel st') = sets (kernel st)"
proof -
  obtain y where y: "ip_run run (create_args n ty fam x) True st = (y, st')"
    and r: "r = (case y of Inl e \<Rightarrow> Inl e | Inr _ \<Rightarrow> Inr ())"
    using assms(2) by (auto simp: create_empty_def split: prod.splits sum.splits)
  show "same_frame st st'" using ip_run_frame [OF y] .
  have law: "create_law run sets" using assms(1) by (simp add: ipset_ok_def)
  show "(x \<or> sets (kernel st) n = None) \<and>
       sets (kernel st') = (if sets (kernel st) n = None then (sets (kernel st))(n \<mapsto> {}) else sets (kernel st))"
    if h: "r = Inr ()"
  proof -
    obtain rc out err where "y = Inr (rc, out, err)" using r h by (cases y) auto
    then have "run (create_args n ty fam x) [] (kernel st) = (Proc rc out err, kernel st')" "rc = 0"
      using ip_run_Inr y by fastforce+
    then show ?thesis using law unfolding create_law_def exit0_def by fastforce
  qed
  show "sets (kernel st') = sets (kernel st)" if h: "r = Inl e"
  proof -
    obtain e' where "y = Inl e'" using r h by (cases y) auto
    then show ?thesis using law ip_run_Inl y unfolding create_law_def by fastforce
  qed
qed

lemma swap_sets_law:
  assumes "ipset_ok run sets" "swap_sets run a b st = (r, st')"
  shows "same_frame st st'"
    "r = Inr () \<Longrightarrow> sets (kernel st) a \<noteq> None \<and> sets (kernel st) b \<noteq> None \<and>
       sets (kernel st') = (sets (kernel st))(a := sets (kernel st) b, b := sets (kernel st) a)"
    "r = Inl e \<Longrightarrow> sets (kernel st') = sets (kernel st)"
proof -
  obtain y where y: "ip_run run [''ipset'', ''swap'', a, b] True st = (y, st')"
    and r: "r = (case y of Inl e \<Rightarrow> Inl e | Inr _ \<Rightarrow> Inr ())"
    using assms(2) by (auto simp: swap_sets_def split: prod.splits sum.splits)
  show "same_frame st st'" using ip_run_frame [OF y] .
  have law: "swap_law run sets" using assms(1) by (simp add: ipset_ok_def)
  show "sets (kernel st) a \<noteq> None \<and> sets (kernel st) b \<noteq> None \<and>
       sets (kernel st') = (sets (kernel st))(a := sets (kernel st) b, b := sets (kernel st) a)"
    if h: "r = Inr ()"
  proof -
    obtain rc out err where "y = Inr (rc, out, err)" using r h by (cases y) auto
    then have "run [''ipset'', ''swap'', a, b] [] (kernel st) = (Proc rc out err, kernel st')" "rc = 0"
      using ip_run_Inr y by fastforce+
    then show ?thesis using law unfolding swap_law_def exit0_def by fastforce
  qed
  show "sets (kernel st') = sets (kernel st)" if h: "r = Inl e"
  proof -
    obtain e' where "y = Inl e'" using r h by (cases y) auto
    then show ?thesis using law ip_run_Inl y unfolding swap_law_def by fastforce
  qed
qed

lemma destroy_law:
  assumes "ipset_ok run sets" "destroy_best_effort run n st = (b, st')"
  shows "same_frame st st'"
    "sets (kernel st') = (if b then (sets (kernel st))(n := None) else sets (kernel st))"
proof -
  obtain y where y: "ip_run run [''ipset'', ''destroy'', n] False st = (y, st')"
    using assms(2) by (auto simp: destroy_best_effort_def split: prod.splits sum.splits)
  show "same_frame st st'" using ip_run_frame [OF y] .
  have law: "destroy_law run sets" using assms(1) by (simp add: ipset_ok_def)
  show "sets (kernel st') = (if b then (sets (kernel st))(n := None) else sets (kernel st))"
  proof (cases y)
    case (Inl e)
    then have "b = False" using assms(2) y by (simp add: destroy_best_effort_def)
    then show ?thesis using law ip_run_Inl y Inl unfolding destroy_law_def by fastforce
  next
    case (Inr t)
    obtain rc out err where t: "t = (rc, out, err)" by (cases t)
    have k: "run [''ipset'', ''destroy'', n] [] (kernel st) = (Proc rc out err, kernel st')"
      using ip_run_Inr y Inr t by blast
    have b: "b \<longleftrightarrow> rc = 0 \<or> says_missing out err"
      using assms(2) y Inr t by (auto simp: destroy_best_effort_def split: if_splits)
    show ?thesis
    proof (cases "rc = 0")
      case True
      then show ?thesis using law k b unfolding destroy_law_def exit0_def by fastforce
    next
      case False
      then have "sets (kernel st') = sets (kernel st) \<and> (says_missing out err \<longrightarrow> sets (kernel st) n = None)"
        using law k unfolding destroy_law_def exit0_def by fastforce
      then show ?thesis using b False by (auto simp: fun_eq_iff)
    qed
  qed
qed

lemma add_entries_law:
  assumes "ipset_ok run sets" "add_entries run n es st = (r, st')" "sets (kernel st) n = Some E"
  shows "same_frame st st' \<and> (\<exists>E'. sets (kernel st') = (sets (kernel st))(n \<mapsto> E') \<and>
    (r = Inr () \<longrightarrow> E' = E \<union> set es))"
  using assms(2,3)
proof (induction es arbitrary: st E)
  case Nil
  then show ?case by (auto intro!: exI [of _ E])
next
  case (Cons e es)
  have law: "add_law run sets" using assms(1) by (simp add: ipset_ok_def)
  obtain y st1 where y: "ip_run run [''ipset'', ''add'', n, e, ''-exist''] True st = (y, st1)"
    by fastforce
  note fr = ip_run_frame [OF y]
  show ?case
  proof (cases y)
    case (Inl x)
    then have "st' = st1" "r = Inl x" using Cons.prems y by auto
    moreover have "sets (kernel st1) = sets (kernel st)"
      using law ip_run_Inl y Inl unfolding add_law_def by fastforce
    ultimately show ?thesis using fr Cons.prems(2) by (auto intro!: exI [of _ E])
  next
    case (Inr t)
    obtain rc out err where t: "t = (rc, out, err)" by (cases t)
    have "run [''ipset'', ''add'', n, e, ''-exist''] [] (kernel st) = (Proc rc out err, kernel st1)" "rc = 0"
      using ip_run_Inr y Inr t by fastforce+
    then have s1: "sets (kernel st1) = (sets (kernel st))(n \<mapsto> insert e E)"
      using law Cons.prems(2) unfolding add_law_def exit0_def by fastforce
    have "add_entries run n es st1 = (r, st')" using Cons.prems(1) y Inr t by simp
    moreover have "sets (kernel st1) n = Some (insert e E)" using s1 by simp
    ultimately obtain E' where E': "same_frame st1 st'" "sets (kernel st') = (sets (kernel st1))(n \<mapsto> E')"
      "r = Inr () \<longrightarrow> E' = insert e E \<union> set es"
      using Cons.IH by blast
    have "sets (kernel st') = (sets (kernel st))(n \<mapsto> E')" using E'(2) s1 by simp
    then show ?thesis using E' fr by (auto intro: same_frame_trans)
  qed
qed

section \<open>The state between swap and commit\<close>

text \<open>\<open>swapped S0 E ws S\<close>: started from \<open>S0\<close>, the recorded swaps \<open>ws\<close> are in effect in \<open>S\<close>.  The
  stable set holds the new entries, the stage keeps the old content (an empty set where the stable
  set is new), and no other set differs.\<close>

definition swap_names :: "ipset_swap list \<Rightarrow> string list" where
  "swap_names ws = concat (map (\<lambda>w. [stable_of w, stage_of w]) ws)"

lemma swap_names_simps [simp]:
  "swap_names [] = []"
  "swap_names (w # ws) = stable_of w # stage_of w # swap_names ws"
  "swap_names (ws @ vs) = swap_names ws @ swap_names vs"
  by (simp_all add: swap_names_def)

definition in_effect ::
  "(string \<Rightarrow> string set option) \<Rightarrow> (string \<Rightarrow> string set) \<Rightarrow> (string \<Rightarrow> string set option) \<Rightarrow> ipset_swap \<Rightarrow> bool" where
  "in_effect S0 E S w \<longleftrightarrow> S0 (stage_of w) = None \<and> S (stable_of w) = Some (E (stable_of w)) \<and>
     S (stage_of w) = (if stable_was_created w then Some {} else S0 (stable_of w)) \<and>
     (stable_was_created w \<longleftrightarrow> S0 (stable_of w) = None)"

definition swapped ::
  "(string \<Rightarrow> string set option) \<Rightarrow> (string \<Rightarrow> string set) \<Rightarrow> ipset_swap list \<Rightarrow> (string \<Rightarrow> string set option) \<Rightarrow> bool" where
  "swapped S0 E ws S \<longleftrightarrow> distinct (swap_names ws) \<and> (\<forall>w\<in>set ws. in_effect S0 E S w) \<and>
     (\<forall>n. n \<notin> set (swap_names ws) \<longrightarrow> S n = S0 n)"

lemma swap_names_mem: "w \<in> set ws \<Longrightarrow> stable_of w \<in> set (swap_names ws) \<and> stage_of w \<in> set (swap_names ws)"
  by (induction ws) auto

lemma in_effect_cong:
  "S (stable_of w) = S' (stable_of w) \<Longrightarrow> S (stage_of w) = S' (stage_of w) \<Longrightarrow> in_effect S0 E S w = in_effect S0 E S' w"
  by (simp add: in_effect_def)

lemma swapped_Nil: "swapped S0 E [] S0"
  by (simp add: swapped_def)

lemma swapped_undo:
  assumes "swapped S0 E (w # ws) S"
  shows "swapped S0 E ws (S(stable_of w := S0 (stable_of w), stage_of w := None))"
proof -
  let ?S = "S(stable_of w := S0 (stable_of w), stage_of w := None)"
  have d: "distinct (swap_names ws)" "stable_of w \<notin> set (swap_names ws)" "stage_of w \<notin> set (swap_names ws)"
    and st: "S0 (stage_of w) = None"
    using assms by (auto simp: swapped_def in_effect_def)
  have "in_effect S0 E ?S v" if v: "v \<in> set ws" for v
  proof -
    have "in_effect S0 E S v" using assms v by (simp add: swapped_def)
    moreover have "stable_of v \<noteq> stable_of w" "stable_of v \<noteq> stage_of w"
      "stage_of v \<noteq> stable_of w" "stage_of v \<noteq> stage_of w"
      using swap_names_mem [OF v] d by auto
    ultimately show ?thesis by (simp add: in_effect_def)
  qed
  then show ?thesis using assms d st by (auto simp: swapped_def)
qed

lemma swapped_snoc:
  assumes "swapped S0 E ws S" "S g = None" "g \<noteq> n"
    and "n \<notin> set (swap_names ws)" "created \<longleftrightarrow> S0 n = None"
  shows "swapped S0 (E(n := X)) (ws @ [\<lparr>stable_of = n, stage_of = g, stable_was_created = created\<rparr>])
    (S(g := (if created then Some {} else S n), n := Some X))"
proof -
  have g: "g \<notin> set (swap_names ws)"
  proof
    assume "g \<in> set (swap_names ws)"
    then obtain w where w: "w \<in> set ws" "g = stable_of w \<or> g = stage_of w"
      by (auto simp: swap_names_def)
    then have "S g \<noteq> None" using assms(1)
      by (auto simp: swapped_def in_effect_def split: if_splits)
    with assms(2) show False by simp
  qed
  then have "S0 g = None" "S n = S0 n" using assms by (auto simp: swapped_def)
  moreover have "in_effect S0 (E(n := X)) (S(g := (if created then Some {} else S n), n := Some X)) v"
    if v: "v \<in> set ws" for v
  proof -
    have "stable_of v \<noteq> n" "stable_of v \<noteq> g" "stage_of v \<noteq> n" "stage_of v \<noteq> g"
      using swap_names_mem [OF v] g assms(4) by auto
    then show ?thesis using assms(1) v by (simp add: swapped_def in_effect_def)
  qed
  ultimately show ?thesis
    using assms g by (auto simp: swapped_def in_effect_def)
qed

lemma swapped_le_lookup:
  assumes "swapped S0 E (w # ws) S1" "S1 \<subseteq>\<^sub>m S"
  shows "S (stable_of w) = S1 (stable_of w)" "S (stage_of w) = S1 (stage_of w)"
  using assms by (auto simp: swapped_def in_effect_def map_le_def dom_def split: if_splits)

section \<open>Rolling back\<close>

lemma rollback_swaps_False: "rollback_swaps run ws False st = (b, st') \<Longrightarrow> \<not> b"
  by (induction ws arbitrary: st) (auto simp: Let_def split: prod.splits sum.splits if_splits)

lemma rollback_swaps_frame:
  assumes "ipset_ok run sets" "rollback_swaps run ws ok st = (b, st')"
  shows "lock_held st' = lock_held st \<and> lock_file_ok st' = lock_file_ok st \<and> criticals st \<le> criticals st'"
  using assms(2)
proof (induction ws arbitrary: ok st)
  case (Cons w ws)
  obtain r st1 where r: "swap_sets run (stage_of w) (stable_of w) st = (r, st1)" by fastforce
  note f1 = swap_sets_law(1) [OF assms(1) r]
  show ?case
  proof (cases r)
    case (Inl e)
    then show ?thesis using Cons.prems r f1 Cons.IH by (fastforce simp: same_frame_def)
  next
    case (Inr u)
    obtain d1 s1 where d1: "destroy_best_effort run (stable_of w) st1 = (d1, s1)" by fastforce
    obtain d2 s2 where d2: "destroy_best_effort run (stage_of w)
        (if stable_was_created w then s1 else st1) = (d2, s2)" by fastforce
    have "rollback_swaps run ws ((if stable_was_created w then ok \<and> d1 else ok) \<and> d2) s2 = (b, st')"
      using Cons.prems r Inr d1 d2 by (simp split: if_splits)
    from Cons.IH [OF this] show ?thesis
      using f1 destroy_law(1) [OF assms(1) d1] destroy_law(1) [OF assms(1) d2]
      by (auto simp: same_frame_def split: if_splits)
  qed
qed simp

lemma rollback_swaps_restores:
  assumes ok: "ipset_ok run sets"
    and "rollback_swaps run ws True st = (True, st')" "swapped S0 E ws S1" "S1 \<subseteq>\<^sub>m sets (kernel st)"
  shows "S0 \<subseteq>\<^sub>m sets (kernel st') \<and> (S1 = sets (kernel st) \<longrightarrow> sets (kernel st') = S0)"
  using assms(2-4)
proof (induction ws arbitrary: st S1)
  case Nil
  then show ?case by (auto simp: swapped_def fun_eq_iff)
next
  case (Cons w ws)
  let ?K = "\<lambda>s. sets (kernel s)"
  obtain r st1 where r: "swap_sets run (stage_of w) (stable_of w) st = (r, st1)" by fastforce
  have look: "?K st (stable_of w) = S1 (stable_of w)" "?K st (stage_of w) = S1 (stage_of w)"
    using swapped_le_lookup [OF Cons.prems(2,3)] .
  have eff: "in_effect S0 E S1 w" and ne: "stable_of w \<noteq> stage_of w"
    using Cons.prems(2) by (auto simp: swapped_def)
  show ?case
  proof (cases r)
    case (Inl e)
    then show ?thesis using Cons.prems(1) r rollback_swaps_False by fastforce
  next
    case (Inr u)
    then have s1: "?K st1 = (?K st)(stage_of w := S1 (stable_of w), stable_of w := S1 (stage_of w))"
      using swap_sets_law(2) [OF ok r] look by simp
    obtain d1 s1' where d1: "destroy_best_effort run (stable_of w) st1 = (d1, s1')" by fastforce
    obtain d2 s2 where d2: "destroy_best_effort run (stage_of w)
        (if stable_was_created w then s1' else st1) = (d2, s2)" by fastforce
    have next_step: "rollback_swaps run ws ((if stable_was_created w then d1 else True) \<and> d2) s2 = (True, st')"
      using Cons.prems(1) r Inr d1 d2 by (simp split: if_splits)
    then have ds: "stable_was_created w \<longrightarrow> d1" "d2" using rollback_swaps_False by fastforce+
    have k2: "?K s2 = (?K st)(stable_of w := S0 (stable_of w), stage_of w := None)"
      using destroy_law(2) [OF ok d1] destroy_law(2) [OF ok d2] ds s1 eff ne
      by (auto simp: in_effect_def fun_eq_iff)
    have "S1(stable_of w := S0 (stable_of w), stage_of w := None) \<subseteq>\<^sub>m ?K s2"
      using Cons.prems(3) unfolding k2 by (auto simp: map_le_def)
    moreover have "rollback_swaps run ws True s2 = (True, st')" using next_step ds by (simp split: if_splits)
    ultimately have "S0 \<subseteq>\<^sub>m ?K st' \<and>
        (S1(stable_of w := S0 (stable_of w), stage_of w := None) = ?K s2 \<longrightarrow> ?K st' = S0)"
      using Cons.IH swapped_undo [OF Cons.prems(2)] by blast
    then show ?thesis using k2 by auto
  qed
qed

lemma swapped_rev: "swapped S0 E ws S \<Longrightarrow> swapped S0 E (rev ws) S"
proof -
  have "set (swap_names (rev ws)) = set (swap_names ws)" by (auto simp: swap_names_def)
  moreover have "distinct (swap_names ws) \<Longrightarrow> distinct (swap_names (rev ws))"
  proof (induction ws)
    case (Cons w ws)
    have "set (swap_names (rev ws)) = set (swap_names ws)" by (auto simp: swap_names_def)
    then show ?case using Cons by auto
  qed simp
  ultimately show "swapped S0 E ws S \<Longrightarrow> swapped S0 E (rev ws) S"
    by (simp add: swapped_def)
qed

section \<open>One specification\<close>

lemma create_other:
  assumes "ipset_ok run sets" "create_empty run n ty fam x st = (r, st')"
  shows "m \<noteq> n \<Longrightarrow> sets (kernel st') m = sets (kernel st) m"
    and "sets (kernel st) \<subseteq>\<^sub>m sets (kernel st')"
  using create_empty_law(2) [OF assms] create_empty_law(3) [OF assms]
  by (cases r; auto simp: map_le_def split: if_splits)+

lemma reconcile_one_law:
  assumes ok: "ipset_ok run sets" and one: "reconcile_one run h existing s st = (r, st')"
    and ex: "is_name s \<in> set existing \<longleftrightarrow> sets (kernel st) (is_name s) \<noteq> None"
    and managed: "is_stable_managed_name (is_name s)"
  shows "same_frame st st'"
    "r = Inl e \<Longrightarrow> sets (kernel st) \<subseteq>\<^sub>m sets (kernel st')"
    "r = Inr w \<Longrightarrow> \<exists>g. w = \<lparr>stable_of = is_name s, stage_of = g,
         stable_was_created = (sets (kernel st) (is_name s) = None)\<rparr> \<and>
       sets (kernel st) g = None \<and> g \<noteq> is_name s \<and> \<not> is_stable_managed_name g \<and>
       sets (kernel st') = (sets (kernel st))(g := (if sets (kernel st) (is_name s) = None then Some {}
           else sets (kernel st) (is_name s)), is_name s := Some (set (is_entries s)))"
proof -
  let ?K = "\<lambda>s. sets (kernel s)" and ?n = "is_name s"
  let ?st0 = "st\<lparr>uuid_ctr := Suc (uuid_ctr st)\<rparr>"
  have k0: "kernel ?st0 = kernel st" "same_frame st ?st0" by (simp_all add: same_frame_def)
  have goal: "same_frame st st' \<and> (\<forall>e. r = Inl e \<longrightarrow> ?K st \<subseteq>\<^sub>m ?K st') \<and>
    (\<forall>w. r = Inr w \<longrightarrow> (\<exists>g. w = \<lparr>stable_of = ?n, stage_of = g, stable_was_created = (?K st ?n = None)\<rparr> \<and>
       ?K st g = None \<and> g \<noteq> ?n \<and> \<not> is_stable_managed_name g \<and>
       ?K st' = (?K st)(g := (if ?K st ?n = None then Some {} else ?K st ?n), ?n := Some (set (is_entries s)))))"
  proof (cases "stage_name h (uuid_ctr st) ?n")
    case (Inl e)
    then show ?thesis using one k0 by (auto simp: reconcile_one_def)
  next
    case (Inr g)
    have gs: "\<not> is_stable_managed_name g" using stage_name_not_stable [OF Inr] .
    then have gn: "g \<noteq> ?n" using managed by auto
    obtain r1 st1 where c1: "create_empty run g (is_set_type s) (is_family s) False ?st0 = (r1, st1)" by fastforce
    have f1: "same_frame st st1" using create_empty_law(1) [OF ok c1] k0(2) same_frame_trans by blast
    show ?thesis
    proof (cases r1)
      case (Inl e)
      then have "r = Inl e" "st' = st1" using one Inr c1 by (auto simp: reconcile_one_def Let_def \<open>stage_name h (uuid_ctr st) ?n = Inr g\<close>)
      moreover have "?K st1 = ?K st" using create_empty_law(3) [OF ok c1] Inl by simp
      ultimately show ?thesis using f1 by simp
    next
      case (Inr u)
      then have sg: "?K st g = None" and k1: "?K st1 = (?K st)(g \<mapsto> {})"
        using create_empty_law(2) [OF ok c1] by auto
      obtain r2 st2 where c2: "stage_and_swap run s g (?n \<in> set existing) st1 = (r2, st2)" by fastforce
      obtain ra sa where ca: "add_entries run g (is_entries s) st1 = (ra, sa)" by fastforce
      obtain EA where fa: "same_frame st1 sa" and ka: "?K sa = (?K st)(g \<mapsto> EA)"
        and EA: "ra = Inr () \<longrightarrow> EA = set (is_entries s)"
        using add_entries_law [OF ok ca, of "{}"] k1 by auto
      obtain rb sb where cb: "(if ?n \<in> set existing then (Inr (), sa)
          else create_empty run ?n (is_set_type s) (is_family s) True sa) = (rb, sb)" by fastforce
      have fb: "same_frame sa sb" using cb create_empty_law(1) [OF ok] by (auto split: if_splits)
      have kb: "m \<noteq> ?n \<Longrightarrow> ?K sb m = ?K sa m" for m
        using cb create_other(1) [OF ok] by (auto split: if_splits)
      have kbn: "?K st ?n \<noteq> None \<Longrightarrow> ?K sb ?n = ?K st ?n"
        using cb ex ka gn by (auto split: if_splits)
      have kbi: "rb = Inr () \<Longrightarrow> ?K sb ?n = (if ?K st ?n = None then Some {} else ?K st ?n)"
        using cb ex ka gn create_empty_law(2) [OF ok, of ?n _ _ True sa rb sb] by (auto split: if_splits)
      have s2: "(r2, st2) = (case ra of Inl e \<Rightarrow> (Inl e, sa) | Inr _ \<Rightarrow>
          (case rb of Inl e \<Rightarrow> (Inl e, sb) | Inr _ \<Rightarrow> swap_sets run g ?n sb))"
        using c2 ca cb by (auto simp: stage_and_swap_def split: sum.splits prod.splits)
      have f2: "same_frame st1 st2"
        using s2 fa fb swap_sets_law(1) [OF ok, of g ?n sb r2 st2] same_frame_trans
        by (cases ra; cases rb) auto
      have fail: "?K st2 m = ?K st m" if "r2 = Inl e" "m \<noteq> g" "m \<noteq> ?n \<or> ?K st ?n \<noteq> None" for e m
        using that s2 ka kb [of m] kbn swap_sets_law(3) [OF ok, of g ?n sb r2 st2]
        by (cases ra; cases rb; cases "m = ?n") auto
      show ?thesis
      proof (cases r2)
        case (Inl e)
        obtain d3 s3 where d3: "destroy_best_effort run g st2 = (d3, s3)" by fastforce
        obtain d4 s4 where d4: "destroy_best_effort run ?n s3 = (d4, s4)" by fastforce
        have rst: "r = Inl e" "st' = (if ?n \<in> set existing then s3 else s4)"
          using one c1 c2 Inl d3 d4 \<open>r1 = Inr u\<close> \<open>stage_name h (uuid_ctr st) ?n = Inr g\<close>
          by (auto simp: reconcile_one_def Let_def)
        have "same_frame st st'"
          using rst destroy_law(1) [OF ok d3] destroy_law(1) [OF ok d4] f1 f2
          by (auto simp: same_frame_def)
        moreover have "?K st' m = ?K st m" if "m \<in> dom (?K st)" for m
        proof -
          have "m \<noteq> g" "m \<noteq> ?n \<or> ?K st ?n \<noteq> None" using that sg by auto
          then have "?K st2 m = ?K st m" using fail [OF Inl] by blast
          then show ?thesis
            using rst destroy_law(2) [OF ok d3] destroy_law(2) [OF ok d4] that \<open>m \<noteq> g\<close> ex
            by (auto split: if_splits)
        qed
        ultimately show ?thesis using rst by (auto simp: map_le_def)
      next
        case (Inr v)
        have rst: "r = Inr \<lparr>stable_of = ?n, stage_of = g, stable_was_created = (?n \<notin> set existing)\<rparr>" "st' = st2"
          using one c1 c2 Inr \<open>r1 = Inr u\<close> \<open>stage_name h (uuid_ctr st) ?n = Inr g\<close>
          by (auto simp: reconcile_one_def Let_def)
        have ab: "ra = Inr ()" "rb = Inr ()" using s2 Inr by (cases ra; cases rb; auto)+
        then have sw: "swap_sets run g ?n sb = (Inr (), st2)" using s2 Inr by (cases v) auto
        have "?K st2 = (?K sb)(g := ?K sb ?n, ?n := ?K sb g)"
          using swap_sets_law(2) [OF ok sw] by simp
        moreover have "?K sb g = Some (set (is_entries s))" using kb [of g] gn ka ab(1) EA by simp
        ultimately have "?K st2 = (?K st)(g := (if ?K st ?n = None then Some {} else ?K st ?n),
            ?n := Some (set (is_entries s)))"
          using kbi [OF ab(2)] kb ka gn by (auto simp: fun_eq_iff)
        then show ?thesis using rst ex gs gn sg f1 f2 by (auto intro: same_frame_trans)
      qed
    qed
  qed
  show "same_frame st st'" using goal by simp
  show "r = Inl e \<Longrightarrow> ?K st \<subseteq>\<^sub>m ?K st'" using goal by blast
  show "r = Inr w \<Longrightarrow> \<exists>g. w = \<lparr>stable_of = ?n, stage_of = g, stable_was_created = (?K st ?n = None)\<rparr> \<and>
       ?K st g = None \<and> g \<noteq> ?n \<and> \<not> is_stable_managed_name g \<and>
       ?K st' = (?K st)(g := (if ?K st ?n = None then Some {} else ?K st ?n), ?n := Some (set (is_entries s)))"
    using goal by blast
qed

section \<open>The whole reconcile\<close>

definition spec_entries :: "ipset_spec list \<Rightarrow> string \<Rightarrow> string set option" where
  "spec_entries specs = map_of (map (\<lambda>s. (is_name s, set (is_entries s))) specs)"

lemma reconcile_loop_law:
  assumes ok: "ipset_ok run sets"
    and "reconcile_loop run h existing ss ws st = (f, ws', st')"
    and "swapped S0 E ws (sets (kernel st))"
    and "distinct (map is_name ss)" "\<forall>s\<in>set ss. is_stable_managed_name (is_name s)"
    and "\<forall>s\<in>set ss. is_name s \<notin> stable_of ` set ws"
    and "\<forall>w\<in>set ws. \<not> is_stable_managed_name (stage_of w)"
    and "\<forall>s\<in>set ss. is_name s \<in> set existing \<longleftrightarrow> S0 (is_name s) \<noteq> None"
  shows "same_frame st st' \<and> (\<exists>E' S1. swapped S0 E' ws' S1 \<and> S1 \<subseteq>\<^sub>m sets (kernel st') \<and>
    (f = None \<longrightarrow> S1 = sets (kernel st') \<and> map stable_of ws' = map stable_of ws @ map is_name ss \<and>
       (\<forall>w\<in>set ws'. \<not> is_stable_managed_name (stage_of w)) \<and>
       E' = (\<lambda>n. case spec_entries ss n of Some X \<Rightarrow> X | None \<Rightarrow> E n)))"
  using assms(2-)
proof (induction ss arbitrary: existing ws st E)
  case Nil
  then show ?case by (auto simp: spec_entries_def intro!: exI [of _ E] exI [of _ "sets (kernel st)"])
next
  case (Cons s ss)
  let ?K = "\<lambda>s. sets (kernel s)" and ?n = "is_name s"
  obtain r st1 where one: "reconcile_one run h existing s st = (r, st1)" by fastforce
  have notin: "?n \<notin> set (swap_names ws)"
    using Cons.prems(4-6) by (auto simp: swap_names_def)
  then have same: "?K st ?n = S0 ?n" using Cons.prems(2) by (simp add: swapped_def)
  have ex: "?n \<in> set existing \<longleftrightarrow> ?K st ?n \<noteq> None" using Cons.prems(7) same by simp
  have man: "is_stable_managed_name ?n" using Cons.prems(4) by simp
  note law = reconcile_one_law [OF ok one ex man]
  show ?case
  proof (cases r)
    case (Inl e)
    then have "f \<noteq> None" "ws' = ws" "st' = st1" using Cons.prems(1) one by auto
    then show ?thesis using law(1) law(2) [OF Inl] Cons.prems(2) by blast
  next
    case (Inr w)
    obtain g where w: "w = \<lparr>stable_of = ?n, stage_of = g, stable_was_created = (?K st ?n = None)\<rparr>"
      and g: "?K st g = None" "g \<noteq> ?n" "\<not> is_stable_managed_name g"
      and k1: "?K st1 = (?K st)(g := (if ?K st ?n = None then Some {} else ?K st ?n), ?n := Some (set (is_entries s)))"
      using law(3) [OF Inr] by blast
    let ?E = "E(?n := set (is_entries s))"
    have sw: "swapped S0 ?E (ws @ [w]) (?K st1)"
      using swapped_snoc [OF Cons.prems(2) g(1,2) notin, of "?K st ?n = None" "set (is_entries s)"] same w k1
      by simp
    have loop: "reconcile_loop run h (?n # existing) ss (ws @ [w]) st1 = (f, ws', st')"
      using Cons.prems(1) one Inr by simp
    have "\<forall>t\<in>set ss. is_name t \<noteq> ?n" using Cons.prems(3) by (auto simp: image_iff)
    then have pre: "distinct (map is_name ss)" "\<forall>s\<in>set ss. is_stable_managed_name (is_name s)"
      "\<forall>s\<in>set ss. is_name s \<notin> stable_of ` set (ws @ [w])"
      "\<forall>w\<in>set (ws @ [w]). \<not> is_stable_managed_name (stage_of w)"
      "\<forall>t\<in>set ss. is_name t \<in> set (?n # existing) \<longleftrightarrow> S0 (is_name t) \<noteq> None"
      using Cons.prems(3-7) w g(3) by auto
    have en: "spec_entries ss ?n = None"
      using Cons.prems(3) by (auto simp: spec_entries_def map_of_eq_None_iff)
    from Cons.IH [OF loop sw pre] obtain E' S1 where
      "same_frame st1 st'" "swapped S0 E' ws' S1" "S1 \<subseteq>\<^sub>m ?K st'"
      "f = None \<longrightarrow> S1 = ?K st' \<and> map stable_of ws' = map stable_of (ws @ [w]) @ map is_name ss \<and>
         (\<forall>w\<in>set ws'. \<not> is_stable_managed_name (stage_of w)) \<and>
         E' = (\<lambda>n. case spec_entries ss n of Some X \<Rightarrow> X | None \<Rightarrow> ?E n)"
      by blast
    moreover have "(\<lambda>n. case spec_entries ss n of Some X \<Rightarrow> X | None \<Rightarrow> ?E n) =
        (\<lambda>n. case spec_entries (s # ss) n of Some X \<Rightarrow> X | None \<Rightarrow> E n)"
      using en by (auto simp: spec_entries_def fun_eq_iff split: option.splits)
    ultimately show ?thesis using law(1) same_frame_trans w by fastforce
  qed
qed

lemma reconcile_Inr_law:
  assumes ok: "ipset_ok run sets" and rec: "reconcile run h specs st = Some (Inr txn, st')"
  obtains ws S0 where "txn = \<lparr>desired_names = map is_name specs, swaps = ws, committed = False,
      rolled_back = False, lock_fd = True\<rparr>"
    "swapped (sets (kernel st)) (\<lambda>n. case spec_entries specs n of Some X \<Rightarrow> X | None \<Rightarrow> {}) ws (sets (kernel st'))"
    "map stable_of ws = map is_name specs" "lock_held st'" "\<not> lock_held st"
    "\<forall>w\<in>set ws. \<not> is_stable_managed_name (stage_of w)"
    "\<forall>s\<in>set specs. is_stable_managed_name (is_name s)"
    "criticals st' = criticals st"
proof -
  let ?K = "\<lambda>s. sets (kernel s)"
  have d: "distinct (map is_name specs)" and v: "iterM validate_spec specs = Inr ()"
    and free: "\<not> lock_held st" and lf: "lock_file_ok st"
    using rec by (auto simp: reconcile_def Let_def acquire_lock_def split: if_splits sum.splits option.splits)
  let ?st1 = "st\<lparr>lock_held := True\<rparr>"
  obtain r s where ln: "list_names run ?st1 = (r, s)" by fastforce
  have man: "\<forall>s\<in>set specs. is_stable_managed_name (is_name s)"
    using v by (auto simp: iterM_Inr_iff validate_spec_def split: if_splits)
  obtain existing where r: "r = Inr existing"
    using rec d v free lf ln by (cases r) (auto simp: reconcile_def Let_def acquire_lock_def split: prod.splits)
  obtain f ws st2 where loop: "reconcile_loop run h existing specs [] s = (f, ws, st2)"
    by (cases "reconcile_loop run h existing specs [] s") auto
  have fin: "f = None" "st' = st2" "txn = \<lparr>desired_names = map is_name specs, swaps = ws, committed = False,
      rolled_back = False, lock_fd = True\<rparr>"
    using rec d v free lf ln r loop
    by (auto simp: reconcile_def Let_def acquire_lock_def split: option.splits prod.splits)
  note lnl = list_names_law [OF ok ln]
  have k: "?K s = ?K st" using lnl(1) by simp
  have dom: "set existing = dom (?K st)" using lnl(3) [OF r] by simp
  have nil: "swapped (?K st) (\<lambda>_. {}) [] (?K s)" using k swapped_Nil by simp
  have ex: "\<forall>x\<in>set specs. is_name x \<in> set existing \<longleftrightarrow> ?K st (is_name x) \<noteq> None"
    using dom by (auto simp: domIff)
  have "same_frame s st2 \<and> (\<exists>E' S1. swapped (?K st) E' ws S1 \<and> S1 \<subseteq>\<^sub>m ?K st2 \<and>
    (f = None \<longrightarrow> S1 = ?K st2 \<and> map stable_of ws = map stable_of [] @ map is_name specs \<and>
       (\<forall>w\<in>set ws. \<not> is_stable_managed_name (stage_of w)) \<and>
       E' = (\<lambda>n. case spec_entries specs n of Some X \<Rightarrow> X | None \<Rightarrow> {})))"
    using reconcile_loop_law [OF ok loop nil d man _ _ ex] by simp
  then show ?thesis using that fin free man lnl(2) by (auto simp: same_frame_def)
qed

section \<open>Garbage collection\<close>

lemma gc_loop_False: "gc_loop run d ns False st = (b, st') \<Longrightarrow> \<not> b"
  by (induction ns arbitrary: st) (auto split: prod.splits if_splits)

lemma gc_loop_law:
  assumes ok: "ipset_ok run sets" and "gc_loop run d ns okf st = (b, st')"
  shows "same_frame st st' \<and> (b \<longrightarrow> sets (kernel st') =
    (\<lambda>n. if n \<in> set ns \<and> is_stable_managed_name n \<and> n \<notin> set d then None else sets (kernel st) n))"
  using assms(2)
proof (induction ns arbitrary: okf st)
  case (Cons n ns)
  show ?case
  proof (cases "is_stable_managed_name n \<and> n \<notin> set d")
    case True
    obtain x s where x: "destroy_best_effort run n st = (x, s)" by fastforce
    then have loop: "gc_loop run d ns (okf \<and> x) s = (b, st')" using Cons.prems True by simp
    have "b \<longrightarrow> x" using loop gc_loop_False by fastforce
    then show ?thesis
      using Cons.IH [OF loop] destroy_law [OF ok x] True by (auto simp: same_frame_def fun_eq_iff)
  next
    case False
    then have "gc_loop run d ns okf st = (b, st')" using Cons.prems by (simp only: gc_loop.simps if_False)
    from Cons.IH [OF this] False show ?thesis by (auto simp: fun_eq_iff)
  qed
qed simp

lemma destroy_stages_law:
  assumes ok: "ipset_ok run sets" and "destroy_stages run ws okf st = (b, st')"
  shows "same_frame st st' \<and> (b \<longrightarrow> okf \<and> sets (kernel st') =
    (\<lambda>n. if n \<in> stage_of ` set ws then None else sets (kernel st) n))"
  using assms(2)
proof (induction ws arbitrary: okf st)
  case (Cons w ws)
  obtain x s where x: "destroy_best_effort run (stage_of w) st = (x, s)" by fastforce
  then have loop: "destroy_stages run ws (okf \<and> x) s = (b, st')" using Cons.prems by simp
  from Cons.IH [OF loop] destroy_law [OF ok x] show ?case
    by (auto simp: same_frame_def fun_eq_iff)
qed auto

lemma gc_law:
  assumes ok: "ipset_ok run sets" and "gc run names st = (b, st')" "\<forall>n\<in>set names. strip n = n \<and> n \<noteq> []"
  shows "same_frame st st' \<and> (b \<longrightarrow> sets (kernel st') =
    (\<lambda>n. if is_stable_managed_name n \<and> n \<notin> set names then None else sets (kernel st) n))"
proof -
  obtain r s where ln: "list_names run st = (r, s)" by fastforce
  note l = list_names_law [OF ok ln]
  show ?thesis
  proof (cases r)
    case (Inl e)
    then show ?thesis using assms(2) ln l(2) by (simp add: gc_def Let_def)
  next
    case (Inr actual)
    then have loop: "gc_loop run names (sorted_set actual) True s = (b, st')"
      using assms(2) ln strip_all_id [OF assms(3)] by (simp add: gc_def Let_def)
    have "set actual = dom (sets (kernel st))" using l(3) [OF Inr] .
    then show ?thesis using gc_loop_law [OF ok loop] l(1,2)
      by (auto simp: same_frame_def fun_eq_iff domIff)
  qed
qed

section \<open>A concrete host\<close>

text \<open>A host whose ipset state is an association list, on which \<open>ipset\<close> always behaves as
  documented; it serves the witnesses.\<close>

type_synonym ref_host = "(string \<times> string list) list"

definition ref_sets :: "ref_host \<Rightarrow> string \<Rightarrow> string set option" where
  "ref_sets k n = map_option set (map_of k n)"

definition plain_name :: "string \<Rightarrow> bool" where
  "plain_name n \<longleftrightarrow> n \<noteq> [] \<and> list_all (\<lambda>c. \<not> py_space c) n"

definition ref_create :: "ref_host \<Rightarrow> string \<Rightarrow> bool \<Rightarrow> proc_out \<times> ref_host" where
  "ref_create k n x = (case map_of k n of
     None \<Rightarrow> (Proc 0 [] [], (n, []) # k)
   | Some _ \<Rightarrow> if x then (Proc 0 [] [], k) else (Proc 1 [] ''set with the same name already exists'', k))"

definition ref_run :: "ref_host runner" where
  "ref_run args inp k = (case args of
     [a, b, c] \<Rightarrow>
       if b = ''list'' then
         (if list_all plain_name (map fst k) then (Proc 0 (concat (map (\<lambda>e. fst e @ [CHR 0x0A]) k)) [], k) else (ProcExc, k))
       else if b = ''destroy'' then (Proc 0 [] [], filter (\<lambda>e. fst e \<noteq> c) k)
       else (ProcExc, k)
   | [a, b, c, d] \<Rightarrow>
       if b = ''swap'' then
         (case (map_of k c, map_of k d) of
            (Some x, Some y) \<Rightarrow> (Proc 0 [] [], (d, x) # (c, y) # filter (\<lambda>e. fst e \<noteq> c \<and> fst e \<noteq> d) k)
          | _ \<Rightarrow> (Proc 1 [] ''no such set'', k))
       else (ProcExc, k)
   | [a, b, c, d, e] \<Rightarrow>
       if b = ''add'' then
         (case map_of k c of None \<Rightarrow> (Proc 1 [] ''no such set'', k)
          | Some x \<Rightarrow> (Proc 0 [] [], (c, d # x) # k))
       else (ProcExc, k)
   | [a, b, c, d, e, f] \<Rightarrow> if b = ''create'' then ref_create k c False else (ProcExc, k)
   | [a, b, c, d, e, f, g] \<Rightarrow> if b = ''create'' then ref_create k c True else (ProcExc, k)
   | _ \<Rightarrow> (ProcExc, k))"

end
