(* ===== verification/Ipset_Props.thy ===== *)
theory Ipset_Props
  imports Ipset_Laws
begin

text \<open>
  The properties of the ipset life cycle: a commit installs exactly the desired sets, a rollback
  restores the host exactly, a failed round loses nothing; with the normal form of the entries.
  The witnesses run on the concrete host \<open>ref_run\<close>, which is shown to satisfy \<open>ipset_ok\<close>.
\<close>

section \<open>The concrete host is a host\<close>

lemma plain_char: "\<not> py_space c \<Longrightarrow> \<not> line_break c \<and> c \<noteq> CHR 0x0D"
  by (auto simp: py_space_def line_break_def Let_def)

lemma line_break_nl: "line_break (CHR 0x0A)"
  by (simp add: line_break_def)

lemma lines_acc_word:
  "list_all (\<lambda>c. \<not> py_space c) w \<Longrightarrow> lines_acc acc (w @ CHR 0x0A # s) = (rev acc @ w) # lines_acc [] s"
proof (induction w arbitrary: acc)
  case Nil
  then show ?case by (cases s) (auto simp: line_break_nl)
next
  case (Cons c w)
  obtain d t where dt: "w @ CHR 0x0A # s = d # t" by (cases w) auto
  have "lines_acc acc (c # d # t) = lines_acc (c # acc) (d # t)"
    using Cons.prems plain_char [of c] by simp
  then show ?case using Cons dt by simp
qed

lemma splitlines_names:
  "list_all plain_name ns \<Longrightarrow> splitlines (concat (map (\<lambda>n. n @ [CHR 0x0A]) ns)) = ns"
  unfolding splitlines_def by (induction ns) (auto simp: lines_acc_word plain_name_def)

lemma plain_name_strip: "plain_name n \<Longrightarrow> strip n = n \<and> n \<noteq> []"
  unfolding plain_name_def list_all_iff by (auto intro!: strip_eqI)

lemma dom_ref_sets: "dom (ref_sets k) = fst ` set k"
  by (auto simp: ref_sets_def dom_def) (metis dom_map_of_conv_image_fst domI image_eqI fst_conv,
    metis map_of_SomeD weak_map_of_SomeI option.distinct(1) not_Some_eq)

lemma ref_sets_filter: "ref_sets (filter (\<lambda>e. P (fst e)) k) n = (if P n then ref_sets k n else None)"
  by (induction k) (auto simp: ref_sets_def)

lemma ref_sets_Cons: "ref_sets ((n, E) # k) = (ref_sets k)(n \<mapsto> set E)"
  by (auto simp: ref_sets_def fun_eq_iff)

lemma ref_list_law: "list_law ref_run ref_sets"
proof -
  have "set (strip_all (splitlines (concat (map (\<lambda>e. fst e @ [CHR 0x0A]) k)))) = dom (ref_sets k)"
    if p: "list_all plain_name (map fst k)" for k :: ref_host
  proof -
    have "splitlines (concat (map (\<lambda>e. fst e @ [CHR 0x0A]) k)) = map fst k"
      using splitlines_names [OF p] by (simp add: comp_def)
    moreover have "strip_all (map fst k) = map fst k"
      using p plain_name_strip by (intro strip_all_id) (auto simp: list_all_iff)
    ultimately show ?thesis by (simp add: dom_ref_sets)
  qed
  then show ?thesis by (auto simp: list_law_def ref_run_def split: if_splits)
qed

lemma ref_create_law: "create_law ref_run ref_sets"
  by (auto simp: create_law_def create_args_def ref_run_def ref_create_def exit0_def ref_sets_Cons
      ref_sets_def fun_eq_iff split: if_splits option.splits)

lemma ref_add_law: "add_law ref_run ref_sets"
  by (auto simp: add_law_def ref_run_def exit0_def ref_sets_def fun_eq_iff split: if_splits option.splits)

lemma ref_swap_law: "swap_law ref_run ref_sets"
proof -
  have "ref_sets (filter (\<lambda>e. fst e \<noteq> a \<and> fst e \<noteq> b) k) n = (if n \<noteq> a \<and> n \<noteq> b then ref_sets k n else None)"
    for a b n and k :: ref_host using ref_sets_filter [of "\<lambda>n. n \<noteq> a \<and> n \<noteq> b"] by simp
  then show ?thesis
    by (auto simp: swap_law_def ref_run_def exit0_def ref_sets_Cons fun_eq_iff split: if_splits option.splits)
      (auto simp: ref_sets_def)
qed

lemma ref_destroy_law: "destroy_law ref_run ref_sets"
  using ref_sets_filter [of "\<lambda>m. m \<noteq> n" for n]
  by (auto simp: destroy_law_def ref_run_def exit0_def fun_eq_iff)

lemma ref_ok: "ipset_ok ref_run ref_sets"
  by (simp add: ipset_ok_def ref_list_law ref_create_law ref_add_law ref_swap_law ref_destroy_law)


section \<open>Transactions\<close>

text \<open>A concrete round: a fresh rule set, an existing tag set that gets new entries, an orphan
  of an earlier rule, and a set that is not the program's.\<close>

definition demo_hashes :: hashes where
  "demo_hashes = \<lparr>md5_hex = (\<lambda>s. ''0123456789abcdef0123'' @ s), sha1_hex = (\<lambda>s. rev s @ ''0123456789ab''),
     uuid_hex = (\<lambda>i. ''0000000'' @ dec_of_nat i)\<rparr>"

definition demo_spec :: "string \<Rightarrow> string list \<Rightarrow> ipset_spec" where
  "demo_spec n es = \<lparr>is_name = n, is_entries = es, is_owner_type = ''rule'', is_owner_id = ''r1'',
     is_purpose = ''s'', is_set_type = ''hash:net'', is_family = ''inet''\<rparr>"

definition demo_specs :: "ipset_spec list" where
  "demo_specs = [demo_spec ''ovpnfw_sA'' [''10.8.0.0/24''], demo_spec ''ovpntag_mB'' [''10.8.0.9/32'']]"

definition demo_mgr :: "ref_host mgr" where
  "demo_mgr = \<lparr>kernel = [(''ovpntag_mB'', [''10.8.0.7/32'']), (''ovpnfw_sOld'', []), (''blocklist'', [''1.2.3.4/32''])],
     lock_held = False, lock_file_ok = True, uuid_ctr = 0, criticals = 0\<rparr>"

definition demo_round :: "ipset_txn res \<times> ref_host mgr" where
  "demo_round = the (reconcile ref_run demo_hashes demo_specs demo_mgr)"

definition demo_txn :: ipset_txn where
  "demo_txn = projr (fst demo_round)"

lemma demo_reconcile: "reconcile ref_run demo_hashes demo_specs demo_mgr = Some (Inr demo_txn, snd demo_round)"
proof -
  have "case reconcile ref_run demo_hashes demo_specs demo_mgr of Some (Inr _, _) \<Rightarrow> True | _ \<Rightarrow> False"
    by code_simp
  then show ?thesis
    by (auto simp: demo_txn_def demo_round_def split: option.splits sum.splits prod.splits)
qed

text \<open>The rollback only needs the ipsets to be as \<open>reconcile\<close> left them.\<close>

lemma rollback_law:
  assumes "ipset_ok run sets"
    and "reconcile run h specs st = Some (Inr txn, st1)"
    and "rollback run txn s1 = (True, txn', st2)" "sets (kernel s1) = sets (kernel st1)"
  shows "sets (kernel st2) = sets (kernel st) \<and> \<not> lock_held st2 \<and> rolled_back txn' \<and> \<not> lock_fd txn'"
proof -
  obtain ws S0 where t: "txn = \<lparr>desired_names = map is_name specs, swaps = ws, committed = False,
      rolled_back = False, lock_fd = True\<rparr>"
    and sw: "swapped (sets (kernel st)) (\<lambda>n. case spec_entries specs n of Some X \<Rightarrow> X | None \<Rightarrow> {}) ws (sets (kernel st1))"
    using reconcile_Inr_law [OF assms(1,2)] by metis
  obtain s where r: "rollback_swaps run (rev ws) True s1 = (True, s)"
    and fin: "kernel st2 = kernel s" "\<not> lock_held st2" "rolled_back txn'" "\<not> lock_fd txn'"
    using assms(3) t by (auto simp: rollback_def release_lock_def split: prod.splits)
  have "sets (kernel s) = sets (kernel st)"
    using rollback_swaps_restores [OF assms(1) r swapped_rev [OF sw]] assms(4) by simp
  with fin show ?thesis by simp
qed

text \<open>C10. Rolling back a transaction restores the host: if \<open>reconcile\<close> succeeded and the rollback
  that follows reports success, every ipset of the host has exactly the entries it had before the
  round, sets the round created are gone, and the transaction lock is free again.\<close>

theorem rollback_restores_host:
  assumes "ipset_ok run sets"
    and "reconcile run h specs st = Some (Inr txn, st1)"
    and "rollback run txn st1 = (True, txn', st2)"
  shows "sets (kernel st2) = sets (kernel st) \<and> \<not> lock_held st2 \<and> rolled_back txn' \<and> \<not> lock_fd txn'"
  by (rule rollback_law [OF assms refl])

theorem rollback_restores_host_witness:
  "case rollback ref_run demo_txn (snd demo_round) of (b, txn', st2) \<Rightarrow>
     b \<and> ref_sets (kernel st2) = ref_sets (kernel demo_mgr) \<and> \<not> lock_held st2"
proof -
  have b: "fst (rollback ref_run demo_txn (snd demo_round))" by code_simp
  obtain txn' st2 where r: "rollback ref_run demo_txn (snd demo_round) = (True, txn', st2)"
    using b by (cases "rollback ref_run demo_txn (snd demo_round)") auto
  show ?thesis using rollback_restores_host [OF ref_ok demo_reconcile r] r by simp
qed

lemma spec_entries_None_iff: "spec_entries specs n = None \<longleftrightarrow> n \<notin> is_name ` set specs"
  by (simp add: spec_entries_def map_of_eq_None_iff image_image)

lemma commit_case:
  assumes sw: "swapped S0 (\<lambda>n. case spec_entries specs n of Some X \<Rightarrow> X | None \<Rightarrow> {}) ws S1"
    and stages: "\<forall>w\<in>set ws. \<not> is_stable_managed_name (stage_of w)"
    and names: "map stable_of ws = map is_name specs"
    and man: "\<forall>s\<in>set specs. is_stable_managed_name (is_name s)"
  shows "(if is_stable_managed_name n \<and> n \<notin> is_name ` set specs then None
      else if n \<in> stage_of ` set ws then None else S1 n) =
    (case spec_entries specs n of Some X \<Rightarrow> Some X | None \<Rightarrow> if is_stable_managed_name n then None else S0 n)"
proof (cases "n \<in> is_name ` set specs")
  case True
  then have "n \<in> stable_of ` set ws" using arg_cong [OF names, of set] by simp
  then obtain w where w: "w \<in> set ws" "stable_of w = n" by blast
  then have "S1 n = Some (case spec_entries specs n of Some X \<Rightarrow> X | None \<Rightarrow> {})"
    using sw by (auto simp: swapped_def in_effect_def)
  moreover have "n \<notin> stage_of ` set ws" using True man stages by auto
  moreover have "spec_entries specs n \<noteq> None" using True spec_entries_None_iff by blast
  ultimately show ?thesis using True by auto
next
  case False
  then have none: "spec_entries specs n = None" by (simp add: spec_entries_None_iff)
  show ?thesis
  proof (cases "n \<in> stage_of ` set ws")
    case True
    then have "S0 n = None" using sw by (auto simp: swapped_def in_effect_def)
    with True none False show ?thesis by simp
  next
    case notstage: False
    have "n \<notin> stable_of ` set ws" using False arg_cong [OF names, of set] by simp
    then have "S1 n = S0 n" using sw notstage by (auto simp: swapped_def swap_names_def)
    with notstage none False show ?thesis by simp
  qed
qed

text \<open>C9. A committed transaction leaves exactly the desired state: when \<open>reconcile\<close> and then
  \<open>commit\<close> report success, each specified stable set holds exactly the specified entries, every
  other stable set of the program is gone (garbage collection), every set outside the stable
  namespace is as it was, and the lock is free.\<close>

theorem commit_installs_desired:
  assumes "ipset_ok run sets"
    and "reconcile run h specs st = Some (Inr txn, st1)"
    and "commit run txn st1 = (True, txn', st2)"
    and "\<forall>s\<in>set specs. strip (is_name s) = is_name s"
  shows "sets (kernel st2) n =
      (case spec_entries specs n of
         Some X \<Rightarrow> Some X
       | None \<Rightarrow> if is_stable_managed_name n then None else sets (kernel st) n)
    \<and> \<not> lock_held st2 \<and> committed txn'"
proof -
  let ?E = "\<lambda>n. case spec_entries specs n of Some X \<Rightarrow> X | None \<Rightarrow> {}"
  obtain ws where t: "txn = \<lparr>desired_names = map is_name specs, swaps = ws, committed = False,
      rolled_back = False, lock_fd = True\<rparr>"
    and sw: "swapped (sets (kernel st)) ?E ws (sets (kernel st1))"
    and names: "map stable_of ws = map is_name specs"
    and stages: "\<forall>w\<in>set ws. \<not> is_stable_managed_name (stage_of w)"
    and man: "\<forall>s\<in>set specs. is_stable_managed_name (is_name s)"
    using reconcile_Inr_law [OF assms(1,2)] by metis
  obtain s1 s2 where d: "destroy_stages run ws True st1 = (True, s1)"
    and g: "gc run (map is_name specs) s1 = (True, s2)"
    and fin: "kernel st2 = kernel s2" "\<not> lock_held st2" "committed txn'"
    using assms(3) t by (auto simp: commit_def release_lock_def split: prod.splits)
  have "\<forall>n\<in>set (map is_name specs). strip n = n \<and> n \<noteq> []"
    using assms(4) man by (auto simp: is_stable_managed_name_def stable_prefixes_def starts_with_def)
  then have k: "sets (kernel s2) n = (if is_stable_managed_name n \<and> n \<notin> is_name ` set specs then None
      else if n \<in> stage_of ` set ws then None else sets (kernel st1) n)"
    using gc_law [OF assms(1) g] destroy_stages_law [OF assms(1) d] by simp
  show ?thesis
    unfolding fin(1) k commit_case [OF sw stages names man] using fin(2,3) by simp
qed


theorem commit_installs_desired_witness:
  "case commit ref_run demo_txn (snd demo_round) of (b, txn', st2) \<Rightarrow>
     b \<and> ref_sets (kernel st2) ''ovpnfw_sA'' = Some {''10.8.0.0/24''} \<and>
     ref_sets (kernel st2) ''ovpntag_mB'' = Some {''10.8.0.9/32''} \<and>
     ref_sets (kernel st2) ''ovpnfw_sOld'' = None \<and> ref_sets (kernel st2) ''blocklist'' \<noteq> None"
proof -
  have b: "fst (commit ref_run demo_txn (snd demo_round))" by code_simp
  obtain txn' st2 where r: "commit ref_run demo_txn (snd demo_round) = (True, txn', st2)"
    using b by (cases "commit ref_run demo_txn (snd demo_round)") auto
  have s: "\<forall>s\<in>set demo_specs. strip (is_name s) = is_name s" by code_simp
  have e: "spec_entries demo_specs ''ovpnfw_sA'' = Some {''10.8.0.0/24''}"
    "spec_entries demo_specs ''ovpntag_mB'' = Some {''10.8.0.9/32''}"
    "spec_entries demo_specs ''ovpnfw_sOld'' = None" "spec_entries demo_specs ''blocklist'' = None"
    by (simp_all add: spec_entries_def demo_specs_def demo_spec_def)
  have m: "is_stable_managed_name ''ovpnfw_sOld''" "\<not> is_stable_managed_name ''blocklist''"
    by code_simp+
  have "ref_sets (kernel demo_mgr) ''blocklist'' \<noteq> None" by (simp add: ref_sets_def demo_mgr_def)
  then show ?thesis
    using commit_installs_desired [OF ref_ok demo_reconcile r s] e m r by simp
qed

text \<open>The failing part of a round before its rollback: the swaps recorded so far are in effect.\<close>

lemma round_law:
  assumes ok: "ipset_ok run sets" and ln: "list_names run (st\<lparr>lock_held := True\<rparr>) = (r, s)"
    and d: "distinct (map is_name specs)" and man: "\<forall>s\<in>set specs. is_stable_managed_name (is_name s)"
    and rd: "(case r of Inl e \<Rightarrow> (Some e, [], s)
      | Inr existing \<Rightarrow> reconcile_loop run h existing specs [] s) = (f, ws, s2)"
  shows "same_frame s s2 \<and> (\<exists>E S1. swapped (sets (kernel st)) E ws S1 \<and> S1 \<subseteq>\<^sub>m sets (kernel s2))"
proof -
  note l = list_names_law [OF ok ln]
  have k: "sets (kernel s) = sets (kernel st)" using l(1) by simp
  show ?thesis
  proof (cases r)
    case (Inl e)
    then show ?thesis using rd k swapped_Nil by fastforce
  next
    case (Inr existing)
    then have loop: "reconcile_loop run h existing specs [] s = (f, ws, s2)" using rd by simp
    have nil: "swapped (sets (kernel st)) (\<lambda>_. {}) [] (sets (kernel s))" using k swapped_Nil by simp
    have ex: "\<forall>x\<in>set specs. is_name x \<in> set existing \<longleftrightarrow> sets (kernel st) (is_name x) \<noteq> None"
      using l(3) [OF Inr] by (auto simp: domIff)
    show ?thesis using reconcile_loop_law [OF ok loop nil d man _ _ ex] by auto
  qed
qed

lemma failed_reconcile_law:
  assumes "ipset_ok run sets"
    and "reconcile run h specs st = Some (Inl e, st1)"
  shows "criticals st \<le> criticals st1 \<and> (criticals st1 = criticals st \<longrightarrow>
    sets (kernel st) \<subseteq>\<^sub>m sets (kernel st1) \<and> lock_held st1 = lock_held st)"
proof (cases "distinct (map is_name specs) \<and> iterM validate_spec specs = Inr () \<and> lock_file_ok st")
  case False
  then have "st1 = st"
    using assms(2) by (auto simp: reconcile_def acquire_lock_def Let_def split: if_splits sum.splits)
  then show ?thesis by simp
next
  case True
  let ?K = "\<lambda>s. sets (kernel s)" and ?st1 = "st\<lparr>lock_held := True\<rparr>"
  have free: "\<not> lock_held st"
    using assms(2) True by (auto simp: reconcile_def acquire_lock_def Let_def split: if_splits)
  have man: "\<forall>s\<in>set specs. is_stable_managed_name (is_name s)"
    using True by (auto simp: iterM_Inr_iff validate_spec_def split: if_splits)
  obtain r s where ln: "list_names run ?st1 = (r, s)" by fastforce
  define round where "round = (case r of Inl e \<Rightarrow> (Some e, [], s)
    | Inr existing \<Rightarrow> reconcile_loop run h existing specs [] s)"
  obtain f ws s2 where rd: "round = (f, ws, s2)" by (cases round) auto
  define txn where "txn = \<lparr>desired_names = map is_name specs, swaps = ws, committed = False,
    rolled_back = False, lock_fd = True\<rparr>"
  obtain ok s3 where rb: "rollback_swaps run (rev ws) True s2 = (ok, s3)" by fastforce
  have fin: "f \<noteq> None" "st1 = (if ok then s3\<lparr>lock_held := False\<rparr>
      else s3\<lparr>lock_held := False, criticals := Suc (criticals s3)\<rparr>)"
    using assms(2) True free ln rd rb unfolding round_def
    by (auto simp: reconcile_def acquire_lock_def Let_def rollback_def release_lock_def
        split: option.splits sum.splits)
  note lnl = list_names_law [OF assms(1) ln]
  have "same_frame s s2 \<and> (\<exists>E S1. swapped (?K st) E ws S1 \<and> S1 \<subseteq>\<^sub>m ?K s2)"
    using round_law [OF assms(1) ln] True man rd unfolding round_def by blast
  then obtain E S1 where fr: "same_frame s s2" and sw: "swapped (?K st) E ws S1" and le: "S1 \<subseteq>\<^sub>m ?K s2"
    by blast
  have mono: "criticals st \<le> criticals s3"
    using rollback_swaps_frame [OF assms(1) rb] fr lnl(2) by (simp add: same_frame_def)
  show ?thesis
  proof (cases ok)
    case True
    then show ?thesis
      using rollback_swaps_restores [OF assms(1) _ swapped_rev [OF sw] le] rb mono fin(2) free by auto
  next
    case False
    then show ?thesis using mono fin(2) by simp
  qed
qed

text \<open>A failed round loses nothing: when \<open>reconcile\<close> raises and no new critical message was
  logged, every ipset that existed before the round still exists with the same entries (what a
  failed clean-up may leave behind are extra sets only), and the transaction lock is as it was.\<close>

theorem failed_reconcile_keeps_sets:
  assumes "ipset_ok run sets"
    and "reconcile run h specs st = Some (Inl e, st1)"
    and "criticals st1 = criticals st"
  shows "sets (kernel st) \<subseteq>\<^sub>m sets (kernel st1) \<and> lock_held st1 = lock_held st"
  using failed_reconcile_law [OF assms(1,2)] assms(3) by simp

text \<open>A host on which adding one particular address fails.\<close>

definition faulty_run :: "string \<Rightarrow> ref_host runner" where
  "faulty_run e args inp k =
     (if length args = 5 \<and> args ! 3 = e then (Proc 1 [] ''cannot add'', k) else ref_run args inp k)"

lemma faulty_ok: "ipset_ok (faulty_run e) ref_sets"
proof -
  have "list_law (faulty_run e) ref_sets" "swap_law (faulty_run e) ref_sets" "destroy_law (faulty_run e) ref_sets"
    using ref_list_law ref_swap_law ref_destroy_law
    by (simp_all add: faulty_run_def list_law_def swap_law_def destroy_law_def)
  moreover have "create_law (faulty_run e) ref_sets"
    using ref_create_law by (auto simp: create_law_def faulty_run_def create_args_def)
  moreover have "add_law (faulty_run e) ref_sets"
    using ref_add_law by (auto simp: add_law_def faulty_run_def exit0_def split: if_splits)
  ultimately show ?thesis by (simp add: ipset_ok_def)
qed

lemma failed_case:
  "(case x of Some (Inl e, s) \<Rightarrow> P e s | _ \<Rightarrow> False) \<Longrightarrow> \<exists>e s. x = Some (Inl e, s) \<and> P e s"
  by (cases x; cases "fst (the x)"; cases "the x") auto

theorem failed_reconcile_keeps_sets_witness:
  "case reconcile (faulty_run ''10.8.0.9/32'') demo_hashes demo_specs demo_mgr of
     Some (Inl e, st1) \<Rightarrow> ref_sets (kernel demo_mgr) \<subseteq>\<^sub>m ref_sets (kernel st1) \<and> \<not> lock_held st1
   | _ \<Rightarrow> False"
proof -
  have b: "case reconcile (faulty_run ''10.8.0.9/32'') demo_hashes demo_specs demo_mgr of
     Some (Inl e, st1) \<Rightarrow> criticals st1 = criticals demo_mgr | _ \<Rightarrow> False"
    by code_simp
  obtain e st1 where
    r: "reconcile (faulty_run ''10.8.0.9/32'') demo_hashes demo_specs demo_mgr = Some (Inl e, st1)"
    and c: "criticals st1 = criticals demo_mgr"
    using failed_case [OF b] by auto
  have "\<not> lock_held demo_mgr" by (simp add: demo_mgr_def)
  then show ?thesis using failed_reconcile_keeps_sets [OF faulty_ok r c] r by simp
qed

section \<open>Entries\<close>

lemma parse_entry_net_ok: "parse_entry t = Inr n \<Longrightarrow> net_ok n"
  by (auto simp: parse_entry_def dest: ip_network_ok split: option.splits)

lemma parse_entry_str: "net_ok n \<Longrightarrow> parse_entry (net_str n) = Inr n"
  by (simp add: parse_entry_def ip_network_str)

text \<open>The normal form of ipset entries: whatever texts the caller gives (blank ones are
  skipped, an invalid one is a \<open>ValueError\<close>), the result is strictly ascending by address and
  prefix length, consists of canonical CIDR texts, denotes the networks of the input, and is a
  fixed point of the normalisation.\<close>

theorem normalize_entries_canonical:
  assumes "normalize_entries entries = Inr out"
  shows "\<exists>ns. mapM parse_entry out = Inr ns \<and> map net_str ns = out \<and>
      sorted (map net_key ns) \<and> distinct ns \<and>
      set ns = {n. \<exists>t\<in>set (strip_all entries). parse_entry t = Inr n}
    \<and> normalize_entries out = Inr out"
proof -
  obtain ms where ms: "mapM parse_entry (strip_all entries) = Inr ms"
    and out: "out = map (\<lambda>k. net_str (key_net k)) (sorted_set (map net_key ms))"
    using assms by (auto simp: normalize_entries_def rbind_Inr_iff)
  define ns where "ns = map key_net (sorted_set (map net_key ms))"
  have keys: "map net_key ns = sorted_set (map net_key ms)" by (simp add: ns_def comp_def)
  have set_ns: "set ns = set ms" by (force simp: ns_def image_image)
  have ok: "\<forall>n\<in>set ns. net_ok n"
    using set_ns mapM_mem [OF ms] parse_entry_net_ok by blast
  have str: "map net_str ns = out" by (simp add: ns_def out comp_def)
  have parse: "mapM parse_entry out = Inr ns"
    unfolding str [symmetric] using ok by (induction ns) (auto simp: parse_entry_str)
  have strip: "strip_all out = out"
    unfolding str [symmetric] by (rule strip_all_id) auto
  have srt: "sorted (map net_key ns)" and dst: "distinct (map net_key ns)"
    unfolding keys by simp_all
  then have again: "sorted_set (map net_key ns) = map net_key ns" by (intro sorted_set_eqI) auto
  have again2: "normalize_entries out = Inr out"
    by (simp add: normalize_entries_def strip parse again comp_def) (simp add: str)
  have "set ms = {n. \<exists>t\<in>set (strip_all entries). parse_entry t = Inr n}"
    using ms by (rule mapM_set)
  then show ?thesis
    using parse str srt dst again2 set_ns by (auto simp: distinct_map)
qed

theorem normalize_entries_canonical_witness:
  "normalize_entries [''10.8.0.9'', '' 10.8.0.7/24 '', [], ''10.8.0.9/32''] = Inr [''10.8.0.0/24'', ''10.8.0.9/32'']
    \<and> normalize_entries [''10.8.0.0/24'', ''10.8.0.9/32''] = Inr [''10.8.0.0/24'', ''10.8.0.9/32'']"
proof -
  have n: "normalize_entries [''10.8.0.9'', '' 10.8.0.7/24 '', [], ''10.8.0.9/32''] = Inr [''10.8.0.0/24'', ''10.8.0.9/32'']"
    by code_simp
  show ?thesis using n normalize_entries_canonical [OF n] by blast
qed

end
