(* ===== verification/Forward.thy ===== *)
theory Forward
  imports Ipset
begin

text \<open>
  \<open>app/services/firewall/iptables_mgr.py\<close>, the planning half: how the enabled rules and the
  forwarding permissions of the peer sites are merged by priority, which ipsets the merged plan
  needs, and which \<open>iptables-restore\<close> lines it expands to.  A line is built from its parts, as the
  code builds it; \<open>join\<close> turns the parts into the line.
\<close>

section \<open>The merged plan\<close>

record peer_extra =
  ex_dest_ip :: string
  ex_dest_port :: string
  ex_protocol :: string
  ex_description :: string

record center_peer =
  cp_id :: string
  cp_cidrs :: "string list"
  cp_priority :: int
  cp_extra :: peer_extra

text \<open>The entries tagged \<open>"j"\<close> (a stored rule) and \<open>"p"\<close> (a peer site).\<close>

datatype fwd_entry = RuleFwd rule | PeerFwd string "string list" peer_extra

fun entry_rank :: "int \<times> fwd_entry \<Rightarrow> int \<times> nat" where
  "entry_rank (p, RuleFwd _) = (p, 0)"
| "entry_rank (p, PeerFwd _ _ _) = (p, 1)"

definition chain_name :: string where
  "chain_name = ''VPN_FORWARD''"

definition rule_entries :: "rule list \<Rightarrow> (int \<times> fwd_entry) list" where
  "rule_entries rules =
     map (\<lambda>r. (priority r, RuleFwd r)) (filter (\<lambda>r. enabled r \<and> deployment_target r = Center) rules)"

definition peer_entries :: "center_peer list \<Rightarrow> (int \<times> fwd_entry) list" where
  "peer_entries peers =
     map (\<lambda>c. (cp_priority c, PeerFwd (strip (cp_id c)) (strip_all (cp_cidrs c)) (cp_extra c)))
       (filter (\<lambda>c. strip_all (cp_cidrs c) \<noteq> []) peers)"

definition build_merged_forward_entries :: "rule list \<Rightarrow> center_peer list \<Rightarrow> (int \<times> fwd_entry) list \<times> nat" where
  "build_merged_forward_entries rules peers =
     (sort_key entry_rank (rule_entries rules @ peer_entries peers),
      length (filter (\<lambda>r. enabled r \<and> deployment_target r = PeerSite) rules))"

section \<open>Which side uses an ipset\<close>

definition has_multiple_addresses :: "string list \<Rightarrow> bool res" where
  "has_multiple_addresses tokens = rbind (normalize_entries tokens) (\<lambda>es. Inr (2 \<le> length es))"

definition source_list :: "rule \<Rightarrow> string list" where
  "source_list r = (case source_ips r of None \<Rightarrow> [] | Some l \<Rightarrow> l)"

definition dest_tokens_of :: "string option \<Rightarrow> string list" where
  "dest_tokens_of d = comma_tokens (opt_str d)"

definition rule_should_use_dest_ipset :: "rule \<Rightarrow> bool res" where
  "rule_should_use_dest_ipset r =
     (if opt_str (dest_ip r) = [] then Inr False else has_multiple_addresses (dest_tokens_of (dest_ip r)))"

definition effective_source_set_name :: "hashes \<Rightarrow> rule \<Rightarrow> string res" where
  "effective_source_set_name h r =
     (if owner_type r = OTag then stable_name h ''tag'' (owner_id r) ''src''
      else stable_name h ''rule'' (rule_id r) ''src'')"

section \<open>The desired ipsets\<close>

text \<open>The source and the target set of a stored rule; \<open>seen\<close> holds the names of the tag sets
  already planned, which several rules share.\<close>

definition desired_source :: "hashes \<Rightarrow> string list \<Rightarrow> rule \<Rightarrow> (ipset_spec list \<times> string list) res" where
  "desired_source h seen r =
     (if owner_type r = OTag then
        (if source_list r = [] then Inr ([], seen)
         else rbind (spec h ''tag'' (owner_id r) ''src'' (source_list r)) (\<lambda>s.
           if is_name s \<in> set seen then Inr ([], seen) else Inr ([s], is_name s # seen)))
      else rbind (has_multiple_addresses (source_list r)) (\<lambda>m.
        if m then rbind (spec h ''rule'' (rule_id r) ''src'' (source_list r)) (\<lambda>s. Inr ([s], seen))
        else Inr ([], seen)))"

definition desired_dest :: "hashes \<Rightarrow> rule \<Rightarrow> ipset_spec list res" where
  "desired_dest h r =
     rbind (rule_should_use_dest_ipset r) (\<lambda>m.
       if m then (let dest_ips = dest_tokens_of (dest_ip r) in
         if dest_ips = [] then Inr []
         else rbind (spec h ''rule'' (rule_id r) ''dst'' dest_ips) (\<lambda>s. Inr [s]))
       else Inr [])"

definition peer_rule_id :: "string \<Rightarrow> string" where
  "peer_rule_id pid = ''ce-peer-'' @ pid"

definition desired_peer :: "hashes \<Rightarrow> string \<Rightarrow> string list \<Rightarrow> peer_extra \<Rightarrow> ipset_spec list res" where
  "desired_peer h pid cln ex =
     rbind (has_multiple_addresses cln) (\<lambda>m.
     rbind (if m then rbind (spec h ''peer'' pid ''lan'' cln) (\<lambda>s. Inr [s]) else Inr []) (\<lambda>lan.
     (let d = strip (ex_dest_ip ex); dest_ips = comma_tokens d in
      if d = [] then Inr lan
      else rbind (has_multiple_addresses dest_ips) (\<lambda>md.
        if md then rbind (spec h ''rule'' (peer_rule_id pid) ''dst'' dest_ips) (\<lambda>s. Inr (lan @ [s]))
        else Inr lan))))"

fun desired_ipsets :: "hashes \<Rightarrow> string list \<Rightarrow> (int \<times> fwd_entry) list \<Rightarrow> ipset_spec list res" where
  "desired_ipsets h seen [] = Inr []"
| "desired_ipsets h seen ((pri, RuleFwd r) # es) =
     rbind (desired_source h seen r) (\<lambda>(src, seen').
     rbind (desired_dest h r) (\<lambda>dst.
     rbind (desired_ipsets h seen' es) (\<lambda>rest. Inr (src @ dst @ rest))))"
| "desired_ipsets h seen ((pri, PeerFwd pid cln ex) # es) =
     rbind (desired_peer h pid cln ex) (\<lambda>ps.
     rbind (desired_ipsets h seen es) (\<lambda>rest. Inr (ps @ rest)))"

definition desired_ipsets_for_merged_forward :: "hashes \<Rightarrow> (int \<times> fwd_entry) list \<Rightarrow> ipset_spec list res" where
  "desired_ipsets_for_merged_forward h merged = desired_ipsets h [] merged"

section \<open>Protocols and ports\<close>

record port_variant =
  pv_proto :: "string option"
  pv_dport :: "string option"
  pv_multiport :: "string option"

definition norm_proto :: "string \<Rightarrow> string" where
  "norm_proto p = (let q = lower (strip (if p = [] then ''all'' else p)) in if q = ''any'' then ''all'' else q)"

definition variants :: "string \<Rightarrow> string option \<Rightarrow> string option \<Rightarrow> port_variant list" where
  "variants proto dport multi =
     (if proto = ''all''
      then [\<lparr>pv_proto = Some ''tcp'', pv_dport = dport, pv_multiport = multi\<rparr>,
            \<lparr>pv_proto = Some ''udp'', pv_dport = dport, pv_multiport = multi\<rparr>]
      else [\<lparr>pv_proto = Some proto, pv_dport = dport, pv_multiport = multi\<rparr>])"

text \<open>The code treats a single range like a single port.\<close>

definition protocol_port_variants :: "rule \<Rightarrow> port_variant list" where
  "protocol_port_variants r =
     (let dp = strip (opt_str (dest_port r)); proto = norm_proto (protocol r) in
      if dp = [] then
        (if proto = ''all'' then [\<lparr>pv_proto = None, pv_dport = None, pv_multiport = None\<rparr>]
         else [\<lparr>pv_proto = Some proto, pv_dport = None, pv_multiport = None\<rparr>])
      else if CHR '','' \<in> set dp then variants proto None (Some (join '','' (comma_tokens dp)))
      else variants proto (Some dp) None)"

section \<open>Lines\<close>

text \<open>\<open>if x: parts.append(f"...{x}")\<close>.\<close>

definition opt_part :: "string \<Rightarrow> string option \<Rightarrow> string list" where
  "opt_part pre x = (if opt_str x = [] then [] else [pre @ opt_str x])"

definition pv_parts :: "port_variant \<Rightarrow> string list" where
  "pv_parts pv = opt_part ''-p '' (pv_proto pv) @
     (if opt_str (pv_multiport pv) \<noteq> [] then opt_part ''-m multiport --dports '' (pv_multiport pv)
      else opt_part ''--dport '' (pv_dport pv))"

definition set_part :: "string \<Rightarrow> string \<Rightarrow> string" where
  "set_part name dir = ''-m set --match-set '' @ name @ '' '' @ dir"

definition comment_part :: "string \<Rightarrow> string" where
  "comment_part c = ''-m comment --comment \"'' @ c @ ''\"''"

definition comment_text :: "string \<Rightarrow> string" where
  "comment_text d = replace_char (CHR 0x22) (CHR 0x27) (take 256 d)"

definition target_of :: "fw_action \<Rightarrow> string" where
  "target_of a = (case a of AAccept \<Rightarrow> ''ACCEPT'' | ADrop \<Rightarrow> ''DROP'' | AReject \<Rightarrow> ''REJECT'')"

definition append_part :: string where
  "append_part = ''-A '' @ chain_name"

text \<open>One side of a line: the match on its ipset, or the literal address, if any.\<close>

definition side_parts :: "bool \<Rightarrow> string res \<Rightarrow> string \<Rightarrow> string \<Rightarrow> string option \<Rightarrow> string list res" where
  "side_parts use_set set_name dir flag term =
     (if use_set then rbind set_name (\<lambda>n. Inr [set_part n dir]) else Inr (opt_part flag term))"

definition source_terms :: "rule \<Rightarrow> bool \<Rightarrow> string option list" where
  "source_terms r use_set =
     (if use_set then [None]
      else if strip_all (source_list r) \<noteq> [] then map Some (strip_all (source_list r))
      else if opt_str (source_subnet r) \<noteq> [] then [source_subnet r]
      else [None])"

definition dest_terms :: "string list \<Rightarrow> bool \<Rightarrow> string option list" where
  "dest_terms tokens use_set = (if use_set then [None] else if tokens \<noteq> [] then map Some tokens else [None])"

definition rule_line_parts ::
  "hashes \<Rightarrow> rule \<Rightarrow> bool \<Rightarrow> bool \<Rightarrow> string option \<times> string option \<times> port_variant \<Rightarrow> string list res" where
  "rule_line_parts h r us ud = (\<lambda>(src, dest, pv).
     rbind (side_parts us (effective_source_set_name h r) ''src'' ''-s '' src) (\<lambda>sp.
     rbind (side_parts ud (stable_name h ''rule'' (rule_id r) ''dst'') ''dst'' ''-d '' dest) (\<lambda>dp.
     Inr ([append_part] @ sp @ dp @ pv_parts pv @
       (if opt_str (description r) = [] then [] else [comment_part (comment_text (opt_str (description r)))]) @
       [''-j '' @ target_of (action r)]))))"

definition expand_rule_parts :: "hashes \<Rightarrow> rule \<Rightarrow> string list list res" where
  "expand_rule_parts h r =
     (let src_tokens = strip_all (source_list r); dest_toks = dest_tokens_of (dest_ip r) in
      rbind (if owner_type r = OTag then Inr True else has_multiple_addresses src_tokens) (\<lambda>us.
      rbind (has_multiple_addresses dest_toks) (\<lambda>ud.
      mapM (rule_line_parts h r us ud)
        [(s, d, pv). s \<leftarrow> source_terms r us, d \<leftarrow> dest_terms dest_toks ud, pv \<leftarrow> protocol_port_variants r])))"

definition expand_rule_lines :: "hashes \<Rightarrow> rule \<Rightarrow> string list res" where
  "expand_rule_lines h r = rbind (expand_rule_parts h r) (\<lambda>ls. Inr (map (join '' '') ls))"

subsection \<open>Lines of a peer site\<close>

definition peer_comment :: "string \<Rightarrow> peer_extra \<Rightarrow> string" where
  "peer_comment pid ex = (let d = strip (ex_description ex) in
     if d = [] then comment_text (''ovpn-mgmt-center-peer peer='' @ pid) else comment_text d)"

definition peer_rule :: "string \<Rightarrow> peer_extra \<Rightarrow> rule" where
  "peer_rule pid ex =
     \<lparr>rule_id = peer_rule_id pid, owner_type = OGroup, owner_id = ''_'', deployment_target = Center,
      vpn_instance = ''server'', action = AAccept, source_subnet = Some ''0.0.0.0/0'', source_ips = None,
      dest_ip = str_opt (strip (ex_dest_ip ex)), dest_port = str_opt (strip (ex_dest_port ex)),
      protocol = norm_proto (ex_protocol ex), priority = 1, enabled = True,
      description = Some (peer_comment pid ex), r_created_at = [], r_updated_at = []\<rparr>"

definition has_l4_match :: "peer_extra \<Rightarrow> bool" where
  "has_l4_match ex \<longleftrightarrow> strip (ex_dest_ip ex) \<noteq> [] \<or> strip (ex_dest_port ex) \<noteq> [] \<or>
     (norm_proto (ex_protocol ex) \<noteq> ''all'' \<and> norm_proto (ex_protocol ex) \<noteq> [])"

definition peer_line_parts ::
  "hashes \<Rightarrow> string \<Rightarrow> string \<Rightarrow> bool \<Rightarrow> bool \<Rightarrow> string option \<times> string option \<times> port_variant \<Rightarrow> string list res" where
  "peer_line_parts h pid comment us ud = (\<lambda>(src, dest, pv).
     rbind (side_parts us (stable_name h ''peer'' pid ''lan'') ''src'' ''-s '' src) (\<lambda>sp.
     rbind (side_parts ud (stable_name h ''rule'' (peer_rule_id pid) ''dst'') ''dst'' ''-d '' dest) (\<lambda>dp.
     Inr ([append_part] @ sp @ dp @ pv_parts pv @
       (if comment = [] then [] else [comment_part comment]) @ [''-j ACCEPT'']))))"

text \<open>Without a match beyond the source, the short form; otherwise the match fields go through the
  rule validator first, and a field it rejects is a \<open>RuntimeError\<close>.\<close>

definition no_l4 :: port_variant where
  "no_l4 = \<lparr>pv_proto = None, pv_dport = None, pv_multiport = None\<rparr>"

definition expand_center_peer_parts :: "hashes \<Rightarrow> string \<Rightarrow> string list \<Rightarrow> peer_extra \<Rightarrow> string list list res" where
  "expand_center_peer_parts h pid0 lan ex =
     (let pid = strip pid0; cleaned = strip_all lan; comment = peer_comment pid ex in
      if cleaned = [] then Inr []
      else if \<not> has_l4_match ex then
        rbind (has_multiple_addresses cleaned) (\<lambda>us.
          mapM (peer_line_parts h pid comment us False)
            [(s, None, no_l4). s \<leftarrow> (if us then [None] else map Some cleaned)])
      else (case mk_rule (peer_rule pid ex) of
        Inl e \<Rightarrow> Inl (RuntimeError ''peer match fields'')
      | Inr fr \<Rightarrow>
          (let dest_toks = dest_tokens_of (dest_ip fr) in
           rbind (has_multiple_addresses dest_toks) (\<lambda>ud.
           rbind (has_multiple_addresses cleaned) (\<lambda>us.
             mapM (peer_line_parts h pid comment us ud)
               [(s, d, pv). s \<leftarrow> (if us then [None] else map Some cleaned),
                  d \<leftarrow> dest_terms dest_toks ud, pv \<leftarrow> protocol_port_variants fr])))))"

definition expand_center_peer_forward_lines :: "hashes \<Rightarrow> string \<Rightarrow> string list \<Rightarrow> peer_extra \<Rightarrow> string list res" where
  "expand_center_peer_forward_lines h pid lan ex =
     rbind (expand_center_peer_parts h pid lan ex) (\<lambda>ls. Inr (map (join '' '') ls))"

section \<open>The whole fragment\<close>

definition entry_parts :: "hashes \<Rightarrow> int \<times> fwd_entry \<Rightarrow> string list list res" where
  "entry_parts h e = (case e of
     (pri, RuleFwd r) \<Rightarrow> (if \<not> enabled r \<or> deployment_target r \<noteq> Center then Inr [] else expand_rule_parts h r)
   | (pri, PeerFwd pid cln ex) \<Rightarrow> expand_center_peer_parts h pid cln ex)"

definition merged_parts :: "hashes \<Rightarrow> (int \<times> fwd_entry) list \<Rightarrow> string list list res" where
  "merged_parts h merged = rbind (mapM (entry_parts h) merged) (\<lambda>lss. Inr (concat lss))"

definition restore_text :: "string list \<Rightarrow> string" where
  "restore_text ls = join [CHR 0x0A] ([''*filter'', '':'' @ chain_name @ '' - [0:0]''] @ ls @ [''COMMIT'', []])"

definition generate_merged_rules_text :: "hashes \<Rightarrow> (int \<times> fwd_entry) list \<Rightarrow> string res" where
  "generate_merged_rules_text h merged =
     rbind (merged_parts h merged) (\<lambda>ls. Inr (restore_text (map (join '' '') ls)))"

definition generate_rules_text :: "hashes \<Rightarrow> rule list \<Rightarrow> string res" where
  "generate_rules_text h rules =
     rbind (mapM (expand_rule_lines h) (filter (\<lambda>r. enabled r \<and> deployment_target r = Center) rules))
       (\<lambda>lss. Inr (restore_text (concat lss)))"

end
