(* ===== verification/Forward_Laws.thy ===== *)
theory Forward_Laws
  imports Forward
begin

text \<open>
  What the generated chain means.  A line is read as \<open>iptables\<close> reads it: its parts are a
  conjunction of matches, \<open>--match-set\<close> looks the address up in the named ipset, and the first
  line that matches decides.  The policy is the merged plan itself: the first entry that covers
  the packet decides.  The two agree on every packet, and every set the lines name is planned.
\<close>

section \<open>Packets and matches\<close>

record packet =
  pk_src :: nat
  pk_dst :: nat
  pk_proto :: string
  pk_dport :: nat

definition addr_in :: "string \<Rightarrow> nat \<Rightarrow> bool" where
  "addr_in t a = (case ip_network t of None \<Rightarrow> False | Some n \<Rightarrow> in_net a n)"

definition addrs_in :: "string list \<Rightarrow> nat \<Rightarrow> bool" where
  "addrs_in ts a = list_ex (\<lambda>t. addr_in t a) ts"

definition port_in :: "string \<Rightarrow> nat \<Rightarrow> bool" where
  "port_in t p = (case port_match t of None \<Rightarrow> False | Some (a, b) \<Rightarrow> a \<le> p \<and> p \<le> b)"

definition ports_in :: "string \<Rightarrow> nat \<Rightarrow> bool" where
  "ports_in s p = list_ex (\<lambda>t. port_in t p) (comma_tokens s)"

text \<open>The ipsets of the host, as lists of entries.\<close>

type_synonym host_sets = "string \<Rightarrow> string list option"

definition set_has :: "host_sets \<Rightarrow> string \<Rightarrow> nat \<Rightarrow> bool" where
  "set_has S name a = (case S name of None \<Rightarrow> False | Some es \<Rightarrow> addrs_in es a)"

definition match_set_prefix :: string where
  "match_set_prefix = ''-m set --match-set ''"

definition match_set_of :: "string \<Rightarrow> (string \<times> string) option" where
  "match_set_of part =
     (if starts_with part match_set_prefix
      then (let rest = drop (length match_set_prefix) part
            in Some (take (length rest - 4) rest, drop (length rest - 3) rest))
      else None)"

definition part_holds :: "host_sets \<Rightarrow> packet \<Rightarrow> string \<Rightarrow> bool" where
  "part_holds S pkt part =
     (case match_set_of part of
        Some (name, dir) \<Rightarrow> set_has S name (if dir = ''src'' then pk_src pkt else pk_dst pkt)
      | None \<Rightarrow>
         if starts_with part ''-s '' then addr_in (drop 3 part) (pk_src pkt)
         else if starts_with part ''-d '' then addr_in (drop 3 part) (pk_dst pkt)
         else if starts_with part ''-p '' then pk_proto pkt = drop 3 part
         else if starts_with part ''--dport '' then port_in (drop 8 part) (pk_dport pkt)
         else if starts_with part ''-m multiport --dports '' then ports_in (drop 22 part) (pk_dport pkt)
         else True)"

definition line_holds :: "host_sets \<Rightarrow> packet \<Rightarrow> string list \<Rightarrow> bool" where
  "line_holds S pkt parts = list_all (part_holds S pkt) parts"

definition line_target :: "string list \<Rightarrow> string" where
  "line_target parts = drop 3 (last parts)"

definition chain_verdict :: "host_sets \<Rightarrow> packet \<Rightarrow> string list list \<Rightarrow> string option" where
  "chain_verdict S pkt lines = map_option line_target (find (line_holds S pkt) lines)"

section \<open>The policy\<close>

text \<open>The ports a field allows, its ranges written with a colon or a hyphen.\<close>

definition ports_allowed :: "string \<Rightarrow> nat \<Rightarrow> bool" where
  "ports_allowed s p = list_ex (\<lambda>t. port_in (normalize_port_range_token t) p) (comma_tokens s)"

definition service_covers :: "string \<Rightarrow> string \<Rightarrow> (nat \<Rightarrow> bool) \<Rightarrow> packet \<Rightarrow> bool" where
  "service_covers proto port ok pkt =
     (if port = [] then proto = ''all'' \<or> proto = [] \<or> pk_proto pkt = proto
      else (if proto = ''all'' then pk_proto pkt = ''tcp'' \<or> pk_proto pkt = ''udp''
            else proto = [] \<or> pk_proto pkt = proto) \<and> ok (pk_dport pkt))"

definition dest_covers :: "string list \<Rightarrow> packet \<Rightarrow> bool" where
  "dest_covers tokens pkt \<longleftrightarrow> tokens = [] \<or> addrs_in tokens (pk_dst pkt)"

definition source_covers :: "rule \<Rightarrow> packet \<Rightarrow> bool" where
  "source_covers r pkt =
     (if owner_type r = OTag \<or> strip_all (source_list r) \<noteq> [] then addrs_in (strip_all (source_list r)) (pk_src pkt)
      else opt_str (source_subnet r) = [] \<or> addr_in (opt_str (source_subnet r)) (pk_src pkt))"

definition rule_covers :: "rule \<Rightarrow> packet \<Rightarrow> bool" where
  "rule_covers r pkt \<longleftrightarrow> source_covers r pkt \<and> dest_covers (dest_tokens_of (dest_ip r)) pkt \<and>
     service_covers (norm_proto (protocol r)) (strip (opt_str (dest_port r))) (ports_allowed (strip (opt_str (dest_port r)))) pkt"

definition proto_or_all :: "string \<Rightarrow> string" where
  "proto_or_all p = (if norm_proto p = [] then ''all'' else norm_proto p)"

definition peer_covers :: "string list \<Rightarrow> peer_extra \<Rightarrow> packet \<Rightarrow> bool" where
  "peer_covers cidrs ex pkt \<longleftrightarrow> addrs_in (strip_all cidrs) (pk_src pkt) \<and>
     dest_covers (comma_tokens (strip (ex_dest_ip ex))) pkt \<and>
     service_covers (proto_or_all (ex_protocol ex)) (strip (ex_dest_port ex)) (ports_allowed (strip (ex_dest_port ex))) pkt"

fun entry_covers :: "packet \<Rightarrow> int \<times> fwd_entry \<Rightarrow> bool" where
  "entry_covers pkt (pri, RuleFwd r) = rule_covers r pkt"
| "entry_covers pkt (pri, PeerFwd pid cidrs ex) = peer_covers cidrs ex pkt"

fun entry_target :: "int \<times> fwd_entry \<Rightarrow> string" where
  "entry_target (pri, RuleFwd r) = target_of (action r)"
| "entry_target (pri, PeerFwd pid cidrs ex) = ''ACCEPT''"

definition policy_verdict :: "packet \<Rightarrow> (int \<times> fwd_entry) list \<Rightarrow> string option" where
  "policy_verdict pkt merged = map_option entry_target (find (entry_covers pkt) merged)"

section \<open>Reading the parts back\<close>

lemma starts_with_app [simp]: "starts_with (p @ s) p"
  by (simp add: starts_with_def)

lemma starts_with_steps:
  "starts_with s []" "\<not> starts_with [] (d # p)"
  "starts_with (c # s) (d # p) \<longleftrightarrow> c = d \<and> starts_with s p"
  by (simp_all add: starts_with_def)

lemma match_set_part [simp]:
  "d = ''src'' \<or> d = ''dst'' \<Longrightarrow> match_set_of (set_part n d) = Some (n, d)"
  by (auto simp: match_set_of_def set_part_def match_set_prefix_def starts_with_steps Let_def)

lemma match_set_other:
  "match_set_of (''-s '' @ t) = None" "match_set_of (''-d '' @ t) = None" "match_set_of (''-p '' @ t) = None"
  "match_set_of (''--dport '' @ t) = None" "match_set_of (''-m multiport --dports '' @ t) = None"
  "match_set_of append_part = None" "match_set_of (comment_part c) = None" "match_set_of (''-j '' @ t) = None"
  by (simp_all add: match_set_of_def match_set_prefix_def starts_with_steps append_part_def chain_name_def comment_part_def)

lemmas match_set_lits = match_set_other [unfolded append.simps]

lemma part_holds_simps:
  "part_holds S pkt (set_part n ''src'') = set_has S n (pk_src pkt)"
  "part_holds S pkt (set_part n ''dst'') = set_has S n (pk_dst pkt)"
  "part_holds S pkt (''-s '' @ t) = addr_in t (pk_src pkt)"
  "part_holds S pkt (''-d '' @ t) = addr_in t (pk_dst pkt)"
  "part_holds S pkt (''-p '' @ t) = (pk_proto pkt = t)"
  "part_holds S pkt (''--dport '' @ t) = port_in t (pk_dport pkt)"
  "part_holds S pkt (''-m multiport --dports '' @ t) = ports_in t (pk_dport pkt)"
  "part_holds S pkt append_part"
  "part_holds S pkt (comment_part c)"
  "part_holds S pkt (''-j '' @ t)"
  by (simp_all add: part_holds_def match_set_lits starts_with_steps)
    (simp_all add: match_set_other(6,7) append_part_def chain_name_def comment_part_def match_set_lits starts_with_steps)

lemmas part_lits [simp] =
  part_holds_simps [unfolded append.simps] match_set_other [unfolded append.simps]

lemma addrs_in_iff: "addrs_in ts a \<longleftrightarrow> (\<exists>t\<in>set ts. addr_in t a)"
  by (simp add: addrs_in_def list_ex_iff)


section \<open>Sides and services\<close>

definition term_in :: "string option \<Rightarrow> nat \<Rightarrow> bool" where
  "term_in t a \<longleftrightarrow> opt_str t = [] \<or> addr_in (opt_str t) a"

lemma side_parts_src:
  assumes "side_parts us nm ''src'' ''-s '' t = Inr ps"
  shows "list_all (part_holds S pkt) ps =
    (if us then set_has S (projr nm) (pk_src pkt) else term_in t (pk_src pkt))"
  using assms by (auto simp: side_parts_def opt_part_def term_in_def rbind_Inr_iff split: if_splits)

lemma side_parts_dst:
  assumes "side_parts ud nm ''dst'' ''-d '' t = Inr ps"
  shows "list_all (part_holds S pkt) ps =
    (if ud then set_has S (projr nm) (pk_dst pkt) else term_in t (pk_dst pkt))"
  using assms by (auto simp: side_parts_def opt_part_def term_in_def rbind_Inr_iff split: if_splits)

definition pv_holds :: "packet \<Rightarrow> port_variant \<Rightarrow> bool" where
  "pv_holds pkt pv \<longleftrightarrow> (opt_str (pv_proto pv) = [] \<or> pk_proto pkt = opt_str (pv_proto pv)) \<and>
     (if opt_str (pv_multiport pv) \<noteq> [] then ports_in (opt_str (pv_multiport pv)) (pk_dport pkt)
      else opt_str (pv_dport pv) = [] \<or> port_in (opt_str (pv_dport pv)) (pk_dport pkt))"

lemma pv_parts_holds: "list_all (part_holds S pkt) (pv_parts pv) = pv_holds pkt pv"
  by (simp add: pv_parts_def pv_holds_def opt_part_def)

text \<open>The fields a stored rule has after validation.\<close>

definition port_ok :: "string \<Rightarrow> bool" where
  "port_ok port \<longleftrightarrow> (port \<noteq> [] \<longrightarrow> comma_tokens port \<noteq> [])"

lemma comma_tokens_clean: "t \<in> set (comma_tokens s) \<Longrightarrow> strip t = t \<and> t \<noteq> [] \<and> CHR '','' \<notin> set t"
proof -
  assume t: "t \<in> set (comma_tokens s)"
  then obtain u where "u \<in> set (split_on (CHR '','') s)" "t = strip u" "t \<noteq> []"
    by (auto simp: comma_tokens_def strip_all_def)
  then show ?thesis using split_on_elems set_strip by fastforce
qed

lemma comma_tokens_join:
  assumes "ts \<noteq> []" "\<forall>t\<in>set ts. strip t = t \<and> t \<noteq> [] \<and> CHR '','' \<notin> set t"
  shows "comma_tokens (join '','' ts) = ts"
  using assms by (simp add: comma_tokens_def split_on_join strip_all_id)

lemma comma_tokens_single: "CHR '','' \<notin> set s \<Longrightarrow> strip s = s \<Longrightarrow> s \<noteq> [] \<Longrightarrow> comma_tokens s = [s]"
  by (simp add: comma_tokens_def split_on_no_sep strip_all_def)

lemma variants_hold:
  "(\<exists>pv\<in>set (variants proto dport multi). pv_holds pkt pv) \<longleftrightarrow>
   (if proto = ''all'' then pk_proto pkt = ''tcp'' \<or> pk_proto pkt = ''udp'' else proto = [] \<or> pk_proto pkt = proto) \<and>
   (if opt_str multi \<noteq> [] then ports_in (opt_str multi) (pk_dport pkt)
    else opt_str dport = [] \<or> port_in (opt_str dport) (pk_dport pkt))"
  by (auto simp: variants_def pv_holds_def)

lemma protocol_port_variants_hold:
  assumes "port_ok (strip (opt_str (dest_port r)))"
  shows "(\<exists>pv\<in>set (protocol_port_variants r). pv_holds pkt pv) \<longleftrightarrow>
    service_covers (norm_proto (protocol r)) (strip (opt_str (dest_port r))) (ports_in (strip (opt_str (dest_port r)))) pkt"
proof -
  let ?dp = "strip (opt_str (dest_port r))"
  consider "?dp = []" | "?dp \<noteq> []" "CHR '','' \<in> set ?dp" | "?dp \<noteq> []" "CHR '','' \<notin> set ?dp" by blast
  then show ?thesis
  proof cases
    case 1
    then show ?thesis
      by (auto simp: protocol_port_variants_def Let_def pv_holds_def service_covers_def)
  next
    case 2
    then have ne: "comma_tokens ?dp \<noteq> []" using assms by (simp add: port_ok_def)
    have clean: "\<forall>t\<in>set (comma_tokens ?dp). strip t = t \<and> t \<noteq> [] \<and> CHR '','' \<notin> set t"
      using comma_tokens_clean by blast
    have jn: "join '','' (comma_tokens ?dp) \<noteq> []" using ne clean by (intro join_nonempty) auto
    have "ports_in (join '','' (comma_tokens ?dp)) p = ports_in ?dp p" for p
      by (simp add: ports_in_def comma_tokens_join [OF ne clean])
    then show ?thesis
      using 2 jn by (simp add: protocol_port_variants_def Let_def variants_hold service_covers_def)
  next
    case 3
    then have "ports_in ?dp p = port_in ?dp p" for p
      by (simp add: ports_in_def comma_tokens_single)
    then show ?thesis
      using 3 by (simp add: protocol_port_variants_def Let_def variants_hold service_covers_def)
  qed
qed


subsection \<open>Validated ports\<close>

lemma validate_one_InrD: "validate_one_port_token s = Inr t \<Longrightarrow> t = normalize_port_range_token s"
  by (auto simp: validate_one_port_token_def Let_def split: option.splits prod.splits if_splits)

lemma validate_dest_port_map:
  assumes "validate_dest_port (Some s) = Inr w" "strip s \<noteq> []"
  obtains parts where "mapM validate_one_port_token (comma_tokens (strip s)) = Inr parts" "w = Some (join '','' parts)"
proof (cases "CHR '','' \<in> set (strip s)")
  case True
  with assms have "rbind (mapM validate_one_port_token (comma_tokens (strip s)))
      (\<lambda>parts. Inr (Some (join '','' parts))) = Inr w"
    by (simp add: validate_dest_port_def Let_def)
  then show ?thesis using that by (auto simp: rbind_Inr_iff)
next
  case False
  with assms have "rbind (validate_one_port_token (strip s)) (\<lambda>t. Inr (Some t)) = Inr w"
    by (simp add: validate_dest_port_def Let_def)
  then obtain t where "validate_one_port_token (strip s) = Inr t" "w = Some t" by (auto simp: rbind_Inr_iff)
  moreover have "comma_tokens (strip s) = [strip s]" using False assms(2) by (intro comma_tokens_single) auto
  ultimately show ?thesis using that [of "[t]"] by simp
qed

lemma validated_port:
  assumes "validate_dest_port v = Inr w" "port_ok (strip (opt_str v))"
  shows "(strip (opt_str w) = [] \<longleftrightarrow> strip (opt_str v) = []) \<and> port_ok (strip (opt_str w)) \<and>
    (strip (opt_str v) \<noteq> [] \<longrightarrow> ports_in (strip (opt_str w)) p = ports_allowed (strip (opt_str v)) p)"
proof (cases "strip (opt_str v) = []")
  case True
  then have "w = None" using assms(1) by (cases v) (auto simp: validate_dest_port_def)
  then show ?thesis using True by (simp add: port_ok_def)
next
  case False
  then obtain s where v: "v = Some s" by (cases v) auto
  with False assms(1) obtain parts where m: "mapM validate_one_port_token (comma_tokens (strip s)) = Inr parts"
    and w: "w = Some (join '','' parts)" using validate_dest_port_map by (metis opt_str_simps(2))
  have "comma_tokens (strip s) \<noteq> []" using assms(2) False v by (simp add: port_ok_def)
  then have ne: "parts \<noteq> []" using m by (cases "comma_tokens (strip s)") (auto simp: rbind_Inr_iff)
  have chars: "\<forall>p\<in>set parts. p \<noteq> [] \<and> list_all port_char p"
    using mapM_mem [OF m] by (metis validate_one_port_tokenD)
  have j: "strip (join '','' parts) = join '','' parts" "join '','' parts \<noteq> []"
    using comma_join_strip [OF chars ne] by auto
  have toks: "comma_tokens (join '','' parts) = parts" by (rule port_parts_tokens [OF chars])
  have "(\<exists>t\<in>set parts. port_in t p) \<longleftrightarrow>
      (\<exists>t\<in>set (comma_tokens (strip s)). port_in (normalize_port_range_token t) p)"
    by (rule mapM_Bex [OF m]) (drule validate_one_InrD, simp)
  then show ?thesis
    using j toks ne False v w by (simp add: port_ok_def ports_in_def ports_allowed_def list_ex_iff)
qed

lemma service_validated:
  assumes "validate_dest_port v = Inr w" "port_ok (strip (opt_str v))"
  shows "service_covers proto (strip (opt_str w)) (ports_in (strip (opt_str w))) pkt =
    service_covers proto (strip (opt_str v)) (ports_allowed (strip (opt_str v))) pkt"
  using validated_port [OF assms] by (auto simp: service_covers_def)

lemma mk_rule_dest_port:
  assumes "mk_rule r = Inr r"
  shows "validate_dest_port (dest_port r) = Inr (dest_port r)"
proof -
  obtain p where v: "validate_dest_port (dest_port r) = Inr p" and e: "r = r\<lparr>dest_port := p\<rparr>"
    using mk_rule_InrD [OF assms] by blast
  have "dest_port r = p" using arg_cong [OF e, of dest_port] by simp
  with v show ?thesis by simp
qed

text \<open>A rule that is its own validated form has a usable port field.\<close>

lemma mk_rule_port_ok:
  assumes "mk_rule r = Inr r"
  shows "port_ok (strip (opt_str (dest_port r)))"
proof (cases "dest_port r")
  case (Some s)
  have v: "validate_dest_port (Some s) = Inr (Some s)"
    using mk_rule_dest_port [OF assms] Some by simp
  show ?thesis
  proof (rule ccontr)
    assume "\<not> ?thesis"
    then have "strip s \<noteq> []" "comma_tokens (strip s) = []" using Some by (auto simp: port_ok_def)
    then have "Some s = Some []" using validate_dest_port_map [OF v] by auto
    with \<open>strip s \<noteq> []\<close> show False by simp
  qed
qed (simp add: port_ok_def)

section \<open>Entries of planned sets\<close>

lemma normalize_entries_strip_all [simp]: "normalize_entries (strip_all ts) = normalize_entries ts"
  by (simp add: normalize_entries_def)

lemma has_multiple_strip_all [simp]: "has_multiple_addresses (strip_all ts) = has_multiple_addresses ts"
  by (simp add: has_multiple_addresses_def)

lemma parse_entry_addr: "parse_entry t = Inr n \<Longrightarrow> addr_in t a = in_net a n"
  by (auto simp: parse_entry_def addr_in_def split: option.splits)

text \<open>Normalising the entries of a set does not change the addresses it covers.\<close>

lemma normalize_entries_cover:
  assumes "normalize_entries ts = Inr out"
  shows "addrs_in out a = addrs_in (strip_all ts) a"
proof -
  obtain ms where ms: "mapM parse_entry (strip_all ts) = Inr ms"
    and out: "out = map (\<lambda>k. net_str (key_net k)) (sorted_set (map net_key ms))"
    using assms by (auto simp: normalize_entries_def rbind_Inr_iff)
  have ok: "\<forall>n\<in>set ms. net_ok n"
    using mapM_mem [OF ms] ip_network_ok by (fastforce simp: parse_entry_def split: option.splits)
  have "addrs_in out a \<longleftrightarrow> (\<exists>n\<in>set ms. in_net a n)"
    using ok by (auto simp: addrs_in_iff out addr_in_def ip_network_str)
  also have "\<dots> \<longleftrightarrow> addrs_in (strip_all ts) a"
    unfolding addrs_in_iff
    by (rule mapM_Bex [OF ms, of "\<lambda>t. addr_in t a" "\<lambda>n. in_net a n"]) (rule parse_entry_addr)
  finally show ?thesis .
qed

definition provides :: "ipset_spec list \<Rightarrow> string res \<Rightarrow> string list \<Rightarrow> bool" where
  "provides specs nm toks \<longleftrightarrow> (\<exists>s\<in>set specs. nm = Inr (is_name s) \<and> normalize_entries toks = Inr (is_entries s))"

lemma provides_mono: "provides specs nm toks \<Longrightarrow> set specs \<subseteq> set specs' \<Longrightarrow> provides specs' nm toks"
  by (auto simp: provides_def)

lemma provides_has:
  assumes "provides specs nm toks" "\<forall>s\<in>set specs. S (is_name s) = Some (is_entries s)"
  shows "set_has S (projr nm) a = addrs_in (strip_all toks) a"
  using assms normalize_entries_cover by (auto simp: provides_def set_has_def)

text \<open>What the plan provides for each entry.\<close>

definition rule_planned :: "hashes \<Rightarrow> ipset_spec list \<Rightarrow> rule \<Rightarrow> bool" where
  "rule_planned h specs r \<longleftrightarrow>
     (owner_type r \<noteq> OTag \<and> has_multiple_addresses (source_list r) = Inr True \<longrightarrow>
        provides specs (effective_source_set_name h r) (source_list r)) \<and>
     (has_multiple_addresses (dest_tokens_of (dest_ip r)) = Inr True \<longrightarrow>
        provides specs (stable_name h ''rule'' (rule_id r) ''dst'') (dest_tokens_of (dest_ip r)))"

definition peer_planned :: "hashes \<Rightarrow> ipset_spec list \<Rightarrow> string \<Rightarrow> string list \<Rightarrow> peer_extra \<Rightarrow> bool" where
  "peer_planned h specs pid cln ex \<longleftrightarrow>
     (has_multiple_addresses cln = Inr True \<longrightarrow> provides specs (stable_name h ''peer'' pid ''lan'') cln) \<and>
     (has_multiple_addresses (comma_tokens (strip (ex_dest_ip ex))) = Inr True \<longrightarrow>
        provides specs (stable_name h ''rule'' (peer_rule_id pid) ''dst'') (comma_tokens (strip (ex_dest_ip ex))))"

lemma has_multiple_Nil: "has_multiple_addresses [] = Inr False"
  by (simp add: has_multiple_addresses_def normalize_entries_def sorted_set_def)

lemma dest_tokens_Nil: "opt_str d = [] \<Longrightarrow> dest_tokens_of d = []"
  by (simp add: dest_tokens_of_def)

lemma rule_planned_mono: "rule_planned h specs r \<Longrightarrow> set specs \<subseteq> set specs' \<Longrightarrow> rule_planned h specs' r"
  using provides_mono unfolding rule_planned_def by blast

lemma peer_planned_mono:
  "peer_planned h specs pid cln ex \<Longrightarrow> set specs \<subseteq> set specs' \<Longrightarrow> peer_planned h specs' pid cln ex"
  using provides_mono unfolding peer_planned_def by blast

lemma desired_rule_planned:
  assumes "desired_source h seen r = Inr (src, seen')" "desired_dest h r = Inr dst"
  shows "rule_planned h (src @ dst) r"
  using assms
  by (auto simp: rule_planned_def desired_source_def desired_dest_def rbind_Inr_iff provides_def
      rule_should_use_dest_ipset_def has_multiple_Nil dest_tokens_Nil effective_source_set_name_def Let_def
      dest: spec_InrD split: if_splits)

lemma desired_peer_planned:
  assumes "desired_peer h pid cln ex = Inr ps"
  shows "peer_planned h ps pid cln ex"
  using assms
  by (auto simp: peer_planned_def desired_peer_def rbind_Inr_iff provides_def has_multiple_Nil Let_def
      dest!: spec_InrD split: if_splits)

lemma desired_ipsets_planned:
  assumes "desired_ipsets h seen es = Inr specs"
  shows "((pri, RuleFwd r) \<in> set es \<longrightarrow> rule_planned h specs r) \<and>
    ((pri, PeerFwd pid cln ex) \<in> set es \<longrightarrow> peer_planned h specs pid cln ex)"
  using assms
proof (induction h seen es arbitrary: specs rule: desired_ipsets.induct)
  case (2 h seen p r' es)
  from 2(2) obtain src seen' dst rest where
    d: "desired_source h seen r' = Inr (src, seen')" "desired_dest h r' = Inr dst"
      "desired_ipsets h seen' es = Inr rest" "specs = src @ dst @ rest"
    by (auto simp: rbind_Inr_iff)
  have ih: "((pri, RuleFwd r) \<in> set es \<longrightarrow> rule_planned h rest r) \<and>
      ((pri, PeerFwd pid cln ex) \<in> set es \<longrightarrow> peer_planned h rest pid cln ex)"
    using 2(1) d by blast
  have "rule_planned h specs r'"
    by (rule rule_planned_mono [OF desired_rule_planned [OF d(1,2)]]) (auto simp: d(4))
  moreover have "set rest \<subseteq> set specs" using d(4) by auto
  ultimately show ?case using ih rule_planned_mono peer_planned_mono by fastforce
next
  case (3 h seen p pid' cln' ex' es)
  from 3(2) obtain ps rest where
    d: "desired_peer h pid' cln' ex' = Inr ps" "desired_ipsets h seen es = Inr rest" "specs = ps @ rest"
    by (auto simp: rbind_Inr_iff)
  have ih: "((pri, RuleFwd r) \<in> set es \<longrightarrow> rule_planned h rest r) \<and>
      ((pri, PeerFwd pid cln ex) \<in> set es \<longrightarrow> peer_planned h rest pid cln ex)"
    using 3(1) d by blast
  have "peer_planned h specs pid' cln' ex'"
    by (rule peer_planned_mono [OF desired_peer_planned [OF d(1)]]) (auto simp: d(3))
  moreover have "set rest \<subseteq> set specs" using d(3) by auto
  ultimately show ?case using ih rule_planned_mono peer_planned_mono by fastforce
qed simp

text \<open>Rules of one tag share one set, planned with the members of the first of them.\<close>

lemma desired_ipsets_tag:
  assumes "desired_ipsets h seen es = Inr specs" "(pri, RuleFwd r) \<in> set es"
    and "owner_type r = OTag" "source_list r \<noteq> []"
  shows "\<exists>n. effective_source_set_name h r = Inr n \<and> (n \<in> set seen \<or>
    (\<exists>p' r'. (p', RuleFwd r') \<in> set es \<and> owner_type r' = OTag \<and> effective_source_set_name h r' = Inr n \<and>
       provides specs (Inr n) (source_list r')))"
  using assms(1,2)
proof (induction h seen es arbitrary: specs rule: desired_ipsets.induct)
  case (2 h seen p r' es)
  from 2(2) obtain src seen' dst rest where
    d: "desired_source h seen r' = Inr (src, seen')" "desired_dest h r' = Inr dst"
      "desired_ipsets h seen' es = Inr rest" "specs = src @ dst @ rest"
    by (auto simp: rbind_Inr_iff)
  have head: "\<exists>n. effective_source_set_name h r' = Inr n \<and> n \<in> set seen' \<and> (n \<in> set seen \<or> provides src (Inr n) (source_list r'))"
    if "owner_type r' = OTag" "source_list r' \<noteq> []"
    using d(1) that by (auto simp: desired_source_def rbind_Inr_iff effective_source_set_name_def provides_def
        dest!: spec_InrD split: if_splits)
  have seen': "set seen' \<subseteq> set seen \<or> (owner_type r' = OTag \<and> source_list r' \<noteq> [] \<and>
      (\<exists>n. effective_source_set_name h r' = Inr n \<and> seen' = n # seen \<and> provides src (Inr n) (source_list r')))"
    using d(1) by (auto simp: desired_source_def rbind_Inr_iff effective_source_set_name_def provides_def
        dest!: spec_InrD split: if_splits)
  have up: "provides src (Inr n) t \<Longrightarrow> provides specs (Inr n) t" "provides rest (Inr n) t \<Longrightarrow> provides specs (Inr n) t" for n t
    by (rule provides_mono, simp, simp add: d(4) subset_iff)+
  show ?case
  proof (cases "r' = r")
    case True
    then show ?thesis using head assms(3,4) up by fastforce
  next
    case False
    then have "(pri, RuleFwd r) \<in> set es" using 2(3) by simp
    then obtain n where n: "effective_source_set_name h r = Inr n" "n \<in> set seen' \<or>
      (\<exists>p' r'. (p', RuleFwd r') \<in> set es \<and> owner_type r' = OTag \<and> effective_source_set_name h r' = Inr n \<and>
         provides rest (Inr n) (source_list r'))"
      using 2(1) d by blast
    then show ?thesis using seen' up by fastforce
  qed
next
  case (3 h seen p pid' cln' ex' es)
  from 3(2) obtain ps rest where
    d: "desired_ipsets h seen es = Inr rest" "specs = ps @ rest" by (auto simp: rbind_Inr_iff)
  have "provides rest (Inr n) t \<Longrightarrow> provides specs (Inr n) t" for n t
    by (rule provides_mono, simp, simp add: d(2) subset_iff)
  moreover have "\<exists>n. effective_source_set_name h r = Inr n \<and> (n \<in> set seen \<or>
    (\<exists>p' r'. (p', RuleFwd r') \<in> set es \<and> owner_type r' = OTag \<and> effective_source_set_name h r' = Inr n \<and>
       provides rest (Inr n) (source_list r')))"
    using 3(1,3) d by auto
  ultimately show ?case by fastforce
qed simp


section \<open>Lines of an entry\<close>

definition sets_hold :: "host_sets \<Rightarrow> ipset_spec list \<Rightarrow> bool" where
  "sets_hold S specs \<longleftrightarrow> (\<forall>s\<in>set specs. S (is_name s) = Some (is_entries s))"

lemma sets_hold_has:
  "sets_hold S specs \<Longrightarrow> provides specs nm toks \<Longrightarrow> set_has S (projr nm) a = addrs_in (strip_all toks) a"
  using provides_has by (auto simp: sets_hold_def)

lemma triples_Bex:
  "(\<exists>x\<in>set [(s, d, v). s \<leftarrow> ss, d \<leftarrow> ds, v \<leftarrow> vs]. case x of (s, d, v) \<Rightarrow> A s \<and> D d \<and> V v) \<longleftrightarrow>
   (\<exists>s\<in>set ss. A s) \<and> (\<exists>d\<in>set ds. D d) \<and> (\<exists>v\<in>set vs. V v)"
  by auto

definition side_in :: "bool \<Rightarrow> host_sets \<Rightarrow> string res \<Rightarrow> nat \<Rightarrow> string option \<Rightarrow> bool" where
  "side_in us S nm a t = (if us then set_has S (projr nm) a else term_in t a)"

lemma line_holds_app [simp]: "line_holds S pkt (xs @ ys) \<longleftrightarrow> line_holds S pkt xs \<and> line_holds S pkt ys"
  by (simp add: line_holds_def)

lemma rule_line_meaning:
  assumes "rule_line_parts h r us ud (s, d, pv) = Inr l"
  shows "line_holds S pkt l \<longleftrightarrow> side_in us S (effective_source_set_name h r) (pk_src pkt) s \<and>
      side_in ud S (stable_name h ''rule'' (rule_id r) ''dst'') (pk_dst pkt) d \<and> pv_holds pkt pv"
    and "line_target l = target_of (action r)"
  using assms side_parts_src side_parts_dst pv_parts_holds
  by (auto simp: rule_line_parts_def rbind_Inr_iff line_holds_def side_in_def line_target_def split: if_splits)

lemma peer_line_meaning:
  assumes "peer_line_parts h pid c us ud (s, d, pv) = Inr l"
  shows "line_holds S pkt l \<longleftrightarrow> side_in us S (stable_name h ''peer'' pid ''lan'') (pk_src pkt) s \<and>
      side_in ud S (stable_name h ''rule'' (peer_rule_id pid) ''dst'') (pk_dst pkt) d \<and> pv_holds pkt pv"
    and "line_target l = ''ACCEPT''"
  using assms side_parts_src side_parts_dst pv_parts_holds
  by (auto simp: peer_line_parts_def rbind_Inr_iff line_holds_def side_in_def line_target_def split: if_splits)

lemma tokens_Bex:
  "\<forall>t\<in>set ts. t \<noteq> [] \<Longrightarrow> (\<exists>t\<in>set (map Some ts). term_in t a) \<longleftrightarrow> addrs_in ts a"
  by (auto simp: addrs_in_iff term_in_def)

lemma strip_all_nonempty: "\<forall>t\<in>set (strip_all ts). t \<noteq> []"
  using strip_all_stripped by blast

lemma strip_all_comma [simp]: "strip_all (comma_tokens s) = comma_tokens s"
  by (simp add: comma_tokens_def)

lemma dest_side:
  assumes "has_multiple_addresses toks = Inr ud" "strip_all toks = toks"
    and "ud \<longrightarrow> (\<forall>a. set_has S (projr nm) a = addrs_in toks a)"
  shows "(\<exists>d\<in>set (dest_terms toks ud). side_in ud S nm (pk_dst pkt) d) \<longleftrightarrow> dest_covers toks pkt"
proof (cases ud)
  case True
  then have "toks \<noteq> []" using assms(1) by (auto simp: has_multiple_Nil)
  then show ?thesis using True assms(3) by (simp add: dest_terms_def side_in_def dest_covers_def)
next
  case False
  show ?thesis
  proof (cases "toks = []")
    case True
    then show ?thesis using False by (simp add: dest_terms_def side_in_def dest_covers_def term_in_def)
  next
    case ne: False
    have "\<forall>t\<in>set toks. t \<noteq> []" using assms(2) strip_all_nonempty by metis
    then show ?thesis
      using tokens_Bex [of toks "pk_dst pkt"] ne False by (simp add: dest_terms_def side_in_def dest_covers_def)
  qed
qed

lemma source_side:
  assumes "(if owner_type r = OTag then Inr True else has_multiple_addresses (strip_all (source_list r))) = Inr us"
    and "us \<longrightarrow> (\<forall>a. set_has S (projr nm) a = addrs_in (strip_all (source_list r)) a)"
  shows "(\<exists>s\<in>set (source_terms r us). side_in us S nm (pk_src pkt) s) \<longleftrightarrow> source_covers r pkt"
proof (cases us)
  case True
  then have "owner_type r = OTag \<or> strip_all (source_list r) \<noteq> []"
    using assms(1) has_multiple_Nil by (cases "strip_all (source_list r) = []") (auto split: if_splits)
  then show ?thesis using True assms(2) by (simp add: source_terms_def side_in_def source_covers_def)
next
  case False
  then have nt: "owner_type r \<noteq> OTag" using assms(1) by auto
  show ?thesis
    using False nt tokens_Bex [OF strip_all_nonempty [of "source_list r"], of "pk_src pkt"]
    by (auto simp: source_terms_def side_in_def source_covers_def term_in_def)
qed

lemma service_rule:
  assumes "mk_rule r = Inr r"
  shows "service_covers proto (strip (opt_str (dest_port r))) (ports_in (strip (opt_str (dest_port r)))) pkt =
    service_covers proto (strip (opt_str (dest_port r))) (ports_allowed (strip (opt_str (dest_port r)))) pkt"
  using service_validated [OF mk_rule_dest_port [OF assms] mk_rule_port_ok [OF assms]] .

lemma rule_entry_meaning:
  assumes parts: "expand_rule_parts h r = Inr ls" and plan: "rule_planned h specs r" and S: "sets_hold S specs"
    and tag: "owner_type r = OTag \<Longrightarrow>
      \<forall>a. set_has S (projr (effective_source_set_name h r)) a = addrs_in (strip_all (source_list r)) a"
    and valid: "mk_rule r = Inr r"
  shows "(\<exists>l\<in>set ls. line_holds S pkt l) \<longleftrightarrow> rule_covers r pkt" (is ?cov)
    and "\<forall>l\<in>set ls. line_target l = target_of (action r)" (is ?tgt)
proof -
  let ?toks = "dest_tokens_of (dest_ip r)" and ?dn = "stable_name h ''rule'' (rule_id r) ''dst''"
    and ?sn = "effective_source_set_name h r"
  obtain us ud where us: "(if owner_type r = OTag then Inr True else has_multiple_addresses (strip_all (source_list r))) = Inr us"
    and ud: "has_multiple_addresses ?toks = Inr ud"
    and m: "mapM (rule_line_parts h r us ud)
      [(s, d, pv). s \<leftarrow> source_terms r us, d \<leftarrow> dest_terms ?toks ud, pv \<leftarrow> protocol_port_variants r] = Inr ls"
    using parts by (auto simp: expand_rule_parts_def Let_def rbind_Inr_iff)
  have st: "strip_all ?toks = ?toks" by (simp add: dest_tokens_of_def)
  have ud': "ud \<longrightarrow> (\<forall>a. set_has S (projr ?dn) a = addrs_in ?toks a)"
    using plan ud sets_hold_has [OF S] st by (auto simp: rule_planned_def)
  have us': "us \<longrightarrow> (\<forall>a. set_has S (projr ?sn) a = addrs_in (strip_all (source_list r)) a)"
    using plan us sets_hold_has [OF S] tag by (auto simp: rule_planned_def split: if_splits)
  have "(\<exists>l\<in>set ls. line_holds S pkt l) \<longleftrightarrow>
    (\<exists>x\<in>set [(s, d, pv). s \<leftarrow> source_terms r us, d \<leftarrow> dest_terms ?toks ud, pv \<leftarrow> protocol_port_variants r].
       case x of (s, d, pv) \<Rightarrow> side_in us S ?sn (pk_src pkt) s \<and> side_in ud S ?dn (pk_dst pkt) d \<and> pv_holds pkt pv)"
    by (rule mapM_Bex [OF m]) (auto simp: rule_line_meaning(1))
  then show ?cov
    unfolding triples_Bex dest_side [OF ud st ud'] source_side [OF us us']
      protocol_port_variants_hold [OF mk_rule_port_ok [OF valid]] rule_covers_def service_rule [OF valid] .
  show ?tgt
  proof
    fix l assume "l \<in> set ls"
    then obtain x where "rule_line_parts h r us ud x = Inr l" using mapM_mem [OF m] by blast
    then show "line_target l = target_of (action r)" using rule_line_meaning(2) by (cases x) blast
  qed
qed


lemma dest_tokens_str_opt [simp]: "dest_tokens_of (str_opt s) = comma_tokens s"
  by (cases "s = []") (simp_all add: dest_tokens_of_def)

lemma norm_proto_twice: "norm_proto (norm_proto p) = proto_or_all p"
proof -
  have lit: "norm_proto [] = ''all''" "norm_proto ''all'' = ''all''" by code_simp+
  show ?thesis
  proof (cases "norm_proto p = [] \<or> norm_proto p = ''all''")
    case True
    then show ?thesis using lit by (auto simp: proto_or_all_def)
  next
    case False
    then obtain q where q: "norm_proto p = lower (strip q)" "lower (strip q) \<noteq> ''any''" "lower (strip q) \<noteq> []"
      by (auto simp: norm_proto_def Let_def split: if_splits)
    then have "norm_proto (lower (strip q)) = lower (strip q)" by (simp add: norm_proto_def)
    then show ?thesis using q by (simp add: proto_or_all_def)
  qed
qed

definition extra_ok :: "peer_extra \<Rightarrow> bool" where
  "extra_ok ex \<longleftrightarrow> port_ok (strip (ex_dest_port ex))"

lemma peer_sources:
  assumes "has_multiple_addresses (strip_all cln) = Inr us" "strip_all cln \<noteq> []"
    and "us \<longrightarrow> (\<forall>a. set_has S (projr nm) a = addrs_in (strip_all cln) a)"
  shows "(\<exists>s\<in>set (if us then [None] else map Some (strip_all cln)). side_in us S nm a s) \<longleftrightarrow> addrs_in (strip_all cln) a"
  using assms(3) tokens_Bex [OF strip_all_nonempty [of cln], of a] by (auto simp: side_in_def)

lemma peer_entry_meaning:
  assumes parts: "expand_center_peer_parts h pid cln ex = Inr ls" and plan: "peer_planned h specs pid cln ex"
    and S: "sets_hold S specs" and pid: "strip pid = pid" and port: "extra_ok ex"
  shows "(\<exists>l\<in>set ls. line_holds S pkt l) \<longleftrightarrow> peer_covers cln ex pkt" (is ?cov)
    and "\<forall>l\<in>set ls. line_target l = ''ACCEPT''" (is ?tgt)
proof -
  let ?toks = "comma_tokens (strip (ex_dest_ip ex))" and ?c = "peer_comment pid ex"
  let ?sn = "stable_name h ''peer'' pid ''lan''" and ?dn = "stable_name h ''rule'' (peer_rule_id pid) ''dst''"
  have lines: ?cov ?tgt
    if m: "mapM (peer_line_parts h pid ?c us ud) [(s, d, pv). s \<leftarrow> (if us then [None] else map Some (strip_all cln)), d \<leftarrow> ds, pv \<leftarrow> vs] = Inr ls"
      and us: "has_multiple_addresses (strip_all cln) = Inr us" and ne: "strip_all cln \<noteq> []"
      and ds: "(\<exists>d\<in>set ds. side_in ud S ?dn (pk_dst pkt) d) \<longleftrightarrow> dest_covers ?toks pkt"
      and vs: "(\<exists>pv\<in>set vs. pv_holds pkt pv) \<longleftrightarrow>
        service_covers (proto_or_all (ex_protocol ex)) (strip (ex_dest_port ex)) (ports_allowed (strip (ex_dest_port ex))) pkt"
    for us ud ds vs
  proof -
    have us': "us \<longrightarrow> (\<forall>a. set_has S (projr ?sn) a = addrs_in (strip_all cln) a)"
      using plan us sets_hold_has [OF S] by (auto simp: peer_planned_def)
    have "(\<exists>l\<in>set ls. line_holds S pkt l) \<longleftrightarrow>
      (\<exists>x\<in>set [(s, d, pv). s \<leftarrow> (if us then [None] else map Some (strip_all cln)), d \<leftarrow> ds, pv \<leftarrow> vs].
       case x of (s, d, pv) \<Rightarrow> side_in us S ?sn (pk_src pkt) s \<and> side_in ud S ?dn (pk_dst pkt) d \<and> pv_holds pkt pv)"
      by (rule mapM_Bex [OF m]) (auto simp: peer_line_meaning(1))
    then show ?cov unfolding triples_Bex peer_sources [OF us ne us'] ds vs peer_covers_def .
    show ?tgt
    proof
      fix l assume "l \<in> set ls"
      then obtain x where "peer_line_parts h pid ?c us ud x = Inr l" using mapM_mem [OF m] by blast
      then show "line_target l = ''ACCEPT''" using peer_line_meaning(2) by (cases x) blast
    qed
  qed
  consider "strip_all cln = []" | "strip_all cln \<noteq> []" "\<not> has_l4_match ex" | "strip_all cln \<noteq> []" "has_l4_match ex" by blast
  then have "?cov \<and> ?tgt"
  proof cases
    case 1
    then show ?thesis using parts by (simp add: expand_center_peer_parts_def peer_covers_def addrs_in_def)
  next
    case 2
    then obtain us where us: "has_multiple_addresses (strip_all cln) = Inr us"
      and m: "mapM (peer_line_parts h pid ?c us False) [(s, None, no_l4). s \<leftarrow> (if us then [None] else map Some (strip_all cln))] = Inr ls"
      using parts by (auto simp: expand_center_peer_parts_def pid rbind_Inr_iff Let_def)
    have m': "mapM (peer_line_parts h pid ?c us False)
        [(s, d, pv). s \<leftarrow> (if us then [None] else map Some (strip_all cln)), d \<leftarrow> [None], pv \<leftarrow> [no_l4]] = Inr ls"
      using m by simp
    have nol4: "strip (ex_dest_ip ex) = []" "strip (ex_dest_port ex) = []" "proto_or_all (ex_protocol ex) = ''all''"
      using 2(2) by (auto simp: has_l4_match_def proto_or_all_def)
    show ?thesis
      using lines [OF m' us 2(1)] nol4
      by (simp add: side_in_def term_in_def dest_covers_def pv_holds_def no_l4_def service_covers_def)
  next
    case 3
    then obtain fr us ud where fr: "mk_rule (peer_rule pid ex) = Inr fr"
      and ud: "has_multiple_addresses (dest_tokens_of (dest_ip fr)) = Inr ud"
      and us: "has_multiple_addresses (strip_all cln) = Inr us"
      and m: "mapM (peer_line_parts h pid ?c us ud)
        [(s, d, pv). s \<leftarrow> (if us then [None] else map Some (strip_all cln)), d \<leftarrow> dest_terms (dest_tokens_of (dest_ip fr)) ud,
           pv \<leftarrow> protocol_port_variants fr] = Inr ls"
      using parts by (auto simp: expand_center_peer_parts_def pid rbind_Inr_iff Let_def split: sum.splits)
    obtain w where w: "validate_dest_port (str_opt (strip (ex_dest_port ex))) = Inr w" and fr': "fr = (peer_rule pid ex)\<lparr>dest_port := w\<rparr>"
      using mk_rule_InrD [OF fr] by (auto simp: peer_rule_def)
    have toks: "dest_tokens_of (dest_ip fr) = ?toks" by (simp add: fr' peer_rule_def)
    have os: "opt_str (str_opt x) = x" for x by (cases "x = []") auto
    have po: "port_ok (strip (opt_str (str_opt (strip (ex_dest_port ex)))))" using port by (simp add: extra_ok_def os)
    have ud': "ud \<longrightarrow> (\<forall>a. set_has S (projr ?dn) a = addrs_in ?toks a)"
      using plan ud sets_hold_has [OF S] unfolding toks by (auto simp: peer_planned_def)
    have ds: "(\<exists>d\<in>set (dest_terms ?toks ud). side_in ud S ?dn (pk_dst pkt) d) \<longleftrightarrow> dest_covers ?toks pkt"
      using dest_side [OF ud [unfolded toks] _ ud'] by simp
    have "port_ok (strip (opt_str (dest_port fr)))" using validated_port [OF w po] by (simp add: fr')
    then have vs: "(\<exists>pv\<in>set (protocol_port_variants fr). pv_holds pkt pv) \<longleftrightarrow>
        service_covers (proto_or_all (ex_protocol ex)) (strip (ex_dest_port ex)) (ports_allowed (strip (ex_dest_port ex))) pkt"
      using protocol_port_variants_hold [of fr pkt] service_validated [OF w po]
      by (simp add: fr' peer_rule_def norm_proto_twice os)
    show ?thesis using lines [OF m [unfolded toks] us 3(1) ds vs] by blast
  qed
  then show ?cov ?tgt by auto
qed


section \<open>The verdict of the chain\<close>

text \<open>The merged entries as \<open>_build_merged_forward_entries\<close> makes them: enabled rules of the
  centre that carry their validated form, peer sites with clean identifiers and a usable port
  field, and tag rules resolved to the members of their tag.\<close>

fun entry_ok :: "int \<times> fwd_entry \<Rightarrow> bool" where
  "entry_ok (pri, RuleFwd r) \<longleftrightarrow> enabled r \<and> deployment_target r = Center \<and> mk_rule r = Inr r \<and>
     (owner_type r = OTag \<longrightarrow> source_list r \<noteq> [])"
| "entry_ok (pri, PeerFwd pid cln ex) \<longleftrightarrow> strip pid = pid \<and> extra_ok ex"

definition tag_rules :: "(int \<times> fwd_entry) list \<Rightarrow> rule list" where
  "tag_rules merged = concat (map (\<lambda>e. case e of
     (pri, RuleFwd r) \<Rightarrow> (if owner_type r = OTag then [r] else []) | _ \<Rightarrow> []) merged)"

definition tags_agree :: "hashes \<Rightarrow> (int \<times> fwd_entry) list \<Rightarrow> bool" where
  "tags_agree h merged \<longleftrightarrow> (\<forall>r\<in>set (tag_rules merged). \<forall>r'\<in>set (tag_rules merged).
     effective_source_set_name h r = effective_source_set_name h r' \<longrightarrow> source_list r = source_list r')"

lemma tag_rules_mem: "(p, RuleFwd r) \<in> set merged \<Longrightarrow> owner_type r = OTag \<Longrightarrow> r \<in> set (tag_rules merged)"
  by (force simp: tag_rules_def)

lemma tag_set:
  assumes "desired_ipsets h [] merged = Inr specs" "sets_hold S specs" "tags_agree h merged"
    and "(pri, RuleFwd r) \<in> set merged" "owner_type r = OTag" "source_list r \<noteq> []"
  shows "set_has S (projr (effective_source_set_name h r)) a = addrs_in (strip_all (source_list r)) a"
proof -
  obtain n p' r' where "effective_source_set_name h r = Inr n" "(p', RuleFwd r') \<in> set merged"
    "owner_type r' = OTag" "effective_source_set_name h r' = Inr n" "provides specs (Inr n) (source_list r')"
    using desired_ipsets_tag [OF assms(1,4,5,6)] by auto
  moreover then have "source_list r = source_list r'" using assms(3-5) tag_rules_mem unfolding tags_agree_def by metis
  ultimately show ?thesis using sets_hold_has [OF assms(2)] by fastforce
qed

lemma entry_meaning:
  assumes d: "desired_ipsets h [] merged = Inr specs" and S: "sets_hold S specs" and tags: "tags_agree h merged"
    and e: "e \<in> set merged" "entry_ok e" and parts: "entry_parts h e = Inr ls"
  shows "((\<exists>l\<in>set ls. line_holds S pkt l) \<longleftrightarrow> entry_covers pkt e) \<and> (\<forall>l\<in>set ls. line_target l = entry_target e)"
proof (cases "snd e")
  case (RuleFwd r)
  then obtain pri where pe: "e = (pri, RuleFwd r)" by (cases e) auto
  then have x: "expand_rule_parts h r = Inr ls" "mk_rule r = Inr r" using e parts by (auto simp: entry_parts_def)
  have plan: "rule_planned h specs r" using desired_ipsets_planned [OF d] e(1) pe by blast
  have tag: "\<forall>a. set_has S (projr (effective_source_set_name h r)) a = addrs_in (strip_all (source_list r)) a"
    if "owner_type r = OTag" using tag_set [OF d S tags] e pe that by auto
  show ?thesis using rule_entry_meaning [OF x(1) plan S tag x(2)] pe by simp
next
  case (PeerFwd pid cln ex)
  then obtain pri where pe: "e = (pri, PeerFwd pid cln ex)" by (cases e) auto
  then have x: "expand_center_peer_parts h pid cln ex = Inr ls" "strip pid = pid" "extra_ok ex"
    using e parts by (auto simp: entry_parts_def)
  have plan: "peer_planned h specs pid cln ex" using desired_ipsets_planned [OF d] e(1) pe by blast
  show ?thesis using peer_entry_meaning [OF x(1) plan S x(2,3)] pe by simp
qed

lemma find_append: "find Q (xs @ ys) = (case find Q xs of None \<Rightarrow> find Q ys | Some x \<Rightarrow> Some x)"
  by (induction xs) auto

lemma find_None_all: "find Q xs = None \<longleftrightarrow> \<not> (\<exists>x\<in>set xs. Q x)"
  by (auto simp: find_None_iff)

lemma verdict_entries:
  assumes m: "mapM f es = Inr lss"
    and e: "\<And>e ls. e \<in> set es \<Longrightarrow> f e = Inr ls \<Longrightarrow>
      ((\<exists>l\<in>set ls. line_holds S pkt l) \<longleftrightarrow> cov e) \<and> (\<forall>l\<in>set ls. line_target l = tgt e)"
  shows "map_option line_target (find (line_holds S pkt) (concat lss)) = map_option tgt (find cov es)"
  using assms
proof (induction es arbitrary: lss)
  case (Cons e es)
  then obtain ls lss' where l: "f e = Inr ls" "mapM f es = Inr lss'" "lss = ls # lss'"
    by (auto simp: rbind_Inr_iff)
  have h: "((\<exists>l\<in>set ls. line_holds S pkt l) \<longleftrightarrow> cov e)" "\<forall>l\<in>set ls. line_target l = tgt e"
    using Cons.prems(2) l(1) by auto
  have ih: "map_option line_target (find (line_holds S pkt) (concat lss')) = map_option tgt (find cov es)"
    using Cons.IH l(2) Cons.prems(2) by auto
  show ?case
  proof (cases "find (line_holds S pkt) ls")
    case None
    then have "\<not> cov e" using h(1) find_None_all [of "line_holds S pkt" ls] by blast
    then show ?thesis using None ih l(3) by (simp add: find_append)
  next
    case (Some x)
    then have "x \<in> set ls" "line_holds S pkt x" by (auto simp: find_Some_iff)
    then show ?thesis using h Some l(3) by (auto simp: find_append)
  qed
qed simp

lemma chain_implements_policy:
  assumes "desired_ipsets_for_merged_forward h merged = Inr specs"
    and "merged_parts h merged = Inr lines"
    and "sets_hold S specs" "\<forall>e\<in>set merged. entry_ok e" "tags_agree h merged"
  shows "chain_verdict S pkt lines = policy_verdict pkt merged"
proof -
  have d: "desired_ipsets h [] merged = Inr specs" using assms(1) by (simp add: desired_ipsets_for_merged_forward_def)
  obtain lss where m: "mapM (entry_parts h) merged = Inr lss" and lines: "lines = concat lss"
    using assms(2) by (auto simp: merged_parts_def rbind_Inr_iff)
  show ?thesis
    unfolding chain_verdict_def policy_verdict_def lines
    by (rule verdict_entries [OF m]) (use entry_meaning [OF d assms(3,5)] assms(4) in blast)
qed

text \<open>C2. The chain implements the plan: with the planned ipsets in place, the first generated
  line that matches a packet has the target of the first entry of the merged plan that covers it,
  and no line matches when no entry covers it.  Source and target lists, ipsets, protocols and
  ports, ranges and lists of ports are all read by the meaning iptables gives them.\<close>

theorem vpn_forward_verdict:
  assumes "desired_ipsets_for_merged_forward h merged = Inr specs"
    and "merged_parts h merged = Inr lines"
    and "sets_hold S specs" "\<forall>e\<in>set merged. entry_ok e" "tags_agree h merged"
  shows "chain_verdict S pkt lines = policy_verdict pkt merged"
  by (rule chain_implements_policy [OF assms])


text \<open>A small policy for the witnesses: a tag that may reach two servers on ports 80 and 8000 to
  8010, a user that may not reach one of them, and a peer site.\<close>

definition demo_fwd_hashes :: hashes where
  "demo_fwd_hashes = \<lparr>md5_hex = id, sha1_hex = id, uuid_hex = dec_of_nat\<rparr>"

definition demo_rule :: "string \<Rightarrow> owner_kind \<Rightarrow> int \<Rightarrow> fw_action \<Rightarrow> string list \<Rightarrow> string \<Rightarrow> rule" where
  "demo_rule i ot pri act src dst =
     \<lparr>rule_id = i, owner_type = ot, owner_id = ''own'', deployment_target = Center, vpn_instance = ''server'',
      action = act, source_subnet = None, source_ips = Some src, dest_ip = Some dst,
      dest_port = Some ''80,8000:8010'', protocol = ''tcp'', priority = pri, enabled = True,
      description = Some ''demo'', r_created_at = [], r_updated_at = []\<rparr>"

definition demo_rules :: "rule list" where
  "demo_rules = [demo_rule ''r2'' OTag 20 AAccept [''10.8.0.4'', ''10.8.0.5''] ''192.168.1.10,192.168.1.11'',
     demo_rule ''r1'' OUser 10 ADrop [''10.8.0.4''] ''192.168.1.10'']"

definition demo_peers :: "center_peer list" where
  "demo_peers = [\<lparr>cp_id = ''p1'', cp_cidrs = [''172.16.0.0/16''], cp_priority = 15,
     cp_extra = \<lparr>ex_dest_ip = [], ex_dest_port = ''443-450'', ex_protocol = ''any'', ex_description = []\<rparr>\<rparr>]"

definition demo_merged :: "(int \<times> fwd_entry) list" where
  "demo_merged = fst (build_merged_forward_entries demo_rules demo_peers)"

definition demo_plan :: "ipset_spec list" where
  "demo_plan = projr (desired_ipsets_for_merged_forward demo_fwd_hashes demo_merged)"

definition demo_lines :: "string list list" where
  "demo_lines = projr (merged_parts demo_fwd_hashes demo_merged)"

definition demo_sets :: host_sets where
  "demo_sets = map_of (map (\<lambda>s. (is_name s, is_entries s)) demo_plan)"

theorem vpn_forward_verdict_witness:
  "chain_verdict demo_sets \<lparr>pk_src = 168296452, pk_dst = 3232235786, pk_proto = ''tcp'', pk_dport = 8005\<rparr> demo_lines
     = Some ''DROP''
   \<and> chain_verdict demo_sets \<lparr>pk_src = 168296453, pk_dst = 3232235787, pk_proto = ''tcp'', pk_dport = 8005\<rparr> demo_lines
     = Some ''ACCEPT''
   \<and> chain_verdict demo_sets \<lparr>pk_src = 168296453, pk_dst = 3232235787, pk_proto = ''udp'', pk_dport = 8005\<rparr> demo_lines
     = None"
proof -
  have d: "desired_ipsets_for_merged_forward demo_fwd_hashes demo_merged = Inr demo_plan"
    and l: "merged_parts demo_fwd_hashes demo_merged = Inr demo_lines"
    and s: "sets_hold demo_sets demo_plan" and e: "\<forall>e\<in>set demo_merged. entry_ok e"
    and t: "tags_agree demo_fwd_hashes demo_merged"
    by code_simp+
  show ?thesis unfolding vpn_forward_verdict [OF d l s e t] by code_simp
qed

end
