(* ===== verification/Forward_Props.thy ===== *)
theory Forward_Props
  imports Forward_Laws
begin

text \<open>
  Further properties of the generated chain: which entry decides a packet, and that every ipset a
  line refers to is part of the plan.
\<close>



text \<open>The verdict is that of the most important entry: among all enabled centre rules and
  peer permissions that cover a packet, the entry that decides has the lowest priority number, and
  at equal priority a stored rule precedes a peer permission; without a covering entry there is no
  verdict.\<close>

theorem lowest_priority_decides:
  "case find (entry_covers pkt) (fst (build_merged_forward_entries rules peers)) of
     None \<Rightarrow> \<forall>e\<in>set (rule_entries rules @ peer_entries peers). \<not> entry_covers pkt e
   | Some e \<Rightarrow> e \<in> set (rule_entries rules @ peer_entries peers) \<and> entry_covers pkt e \<and>
       (\<forall>e'\<in>set (rule_entries rules @ peer_entries peers). entry_covers pkt e' \<longrightarrow> entry_rank e \<le> entry_rank e')"
proof -
  let ?all = "rule_entries rules @ peer_entries peers"
  let ?m = "sort_key entry_rank ?all"
  have m: "fst (build_merged_forward_entries rules peers) = ?m" by (simp add: build_merged_forward_entries_def)
  show ?thesis
  proof (cases "find (entry_covers pkt) ?m")
    case None
    then show ?thesis using find_None_all [of "entry_covers pkt" ?m] m by auto
  next
    case (Some e)
    then obtain i where i: "i < length ?m" "entry_covers pkt (?m ! i)" "e = ?m ! i" "\<forall>j<i. \<not> entry_covers pkt (?m ! j)"
      by (auto simp: find_Some_iff)
    have "entry_rank e \<le> entry_rank e'" if c: "e' \<in> set ?all" "entry_covers pkt e'" for e'
    proof -
      have "e' \<in> set ?m" using c(1) by simp
      then obtain j where j: "j < length ?m" "e' = ?m ! j" by (metis in_set_conv_nth)
      then have "i \<le> j" using i(4) c(2) by (metis not_le)
      then have "map entry_rank ?m ! i \<le> map entry_rank ?m ! j"
        using j(1) by (intro sorted_nth_mono) auto
      then show ?thesis using i j by simp
    qed
    moreover have "e \<in> set ?m" using i nth_mem by metis
    then have "e \<in> set ?all" by (simp only: set_sort)
    ultimately show ?thesis using Some m i(2,3) by simp
  qed
qed

theorem lowest_priority_decides_witness:
  "entry_rank (10, RuleFwd (demo_rules ! 1)) \<le> entry_rank (20, RuleFwd (demo_rules ! 0))"
proof -
  let ?pkt = "\<lparr>pk_src = 168296452, pk_dst = 3232235786, pk_proto = ''tcp'', pk_dport = 80\<rparr> :: packet"
  have f: "find (entry_covers ?pkt) (fst (build_merged_forward_entries demo_rules demo_peers)) = Some (10, RuleFwd (demo_rules ! 1))"
    and m: "(20, RuleFwd (demo_rules ! 0)) \<in> set (rule_entries demo_rules @ peer_entries demo_peers)"
    and c: "entry_covers ?pkt (20, RuleFwd (demo_rules ! 0))"
    by code_simp+
  show ?thesis using lowest_priority_decides [where pkt = ?pkt and rules = demo_rules and peers = demo_peers] m c unfolding f by simp
qed

lemma side_refs:
  assumes "side_parts us nm dir flag t = Inr ps" "p \<in> set ps" "match_set_of p = Some (n, d)"
    and "dir = ''src'' \<and> flag = ''-s '' \<or> dir = ''dst'' \<and> flag = ''-d ''"
  shows "us \<and> nm = Inr n"
  using assms by (auto simp: side_parts_def rbind_Inr_iff opt_part_def split: if_splits)

lemma pv_refs: "p \<in> set (pv_parts pv) \<Longrightarrow> match_set_of p = None"
  by (auto simp: pv_parts_def opt_part_def split: if_splits)

lemma rule_line_refs:
  assumes "rule_line_parts h r us ud (s, d, pv) = Inr l" "p \<in> set l" "match_set_of p = Some (n, dir)"
  shows "(us \<and> effective_source_set_name h r = Inr n) \<or> (ud \<and> stable_name h ''rule'' (rule_id r) ''dst'' = Inr n)"
proof -
  obtain sp dp where sp: "side_parts us (effective_source_set_name h r) ''src'' ''-s '' s = Inr sp"
    and dp: "side_parts ud (stable_name h ''rule'' (rule_id r) ''dst'') ''dst'' ''-d '' d = Inr dp"
    and "p \<in> set sp \<or> p \<in> set dp"
    using assms pv_refs by (auto simp: rule_line_parts_def rbind_Inr_iff split: if_splits)
  then show ?thesis using side_refs [OF sp _ assms(3)] side_refs [OF dp _ assms(3)] by blast
qed

lemma peer_line_refs:
  assumes "peer_line_parts h pid c us ud (s, d, pv) = Inr l" "p \<in> set l" "match_set_of p = Some (n, dir)"
  shows "(us \<and> stable_name h ''peer'' pid ''lan'' = Inr n) \<or> (ud \<and> stable_name h ''rule'' (peer_rule_id pid) ''dst'' = Inr n)"
proof -
  obtain sp dp where sp: "side_parts us (stable_name h ''peer'' pid ''lan'') ''src'' ''-s '' s = Inr sp"
    and dp: "side_parts ud (stable_name h ''rule'' (peer_rule_id pid) ''dst'') ''dst'' ''-d '' d = Inr dp"
    and "p \<in> set sp \<or> p \<in> set dp"
    using assms pv_refs by (auto simp: peer_line_parts_def rbind_Inr_iff split: if_splits)
  then show ?thesis using side_refs [OF sp _ assms(3)] side_refs [OF dp _ assms(3)] by blast
qed

lemma provides_name: "provides specs (Inr n) toks \<Longrightarrow> n \<in> is_name ` set specs"
  by (auto simp: provides_def)

lemma rule_parts_refs:
  assumes parts: "expand_rule_parts h r = Inr ls" and plan: "rule_planned h specs r"
    and tag: "owner_type r = OTag \<Longrightarrow> \<exists>t. provides specs (effective_source_set_name h r) t"
    and l: "l \<in> set ls" "p \<in> set l" "match_set_of p = Some (n, dir)"
  shows "n \<in> is_name ` set specs"
proof -
  obtain us ud x where us: "(if owner_type r = OTag then Inr True else has_multiple_addresses (strip_all (source_list r))) = Inr us"
    and ud: "has_multiple_addresses (dest_tokens_of (dest_ip r)) = Inr ud"
    and "rule_line_parts h r us ud x = Inr l"
    using parts mapM_mem [OF _ l(1)] by (fastforce simp: expand_rule_parts_def Let_def rbind_Inr_iff)
  then have "(us \<and> effective_source_set_name h r = Inr n) \<or> (ud \<and> stable_name h ''rule'' (rule_id r) ''dst'' = Inr n)"
    using rule_line_refs l(2,3) by (cases x) blast
  then show ?thesis
    using us ud plan tag provides_name unfolding rule_planned_def by (auto split: if_splits)
qed

lemma peer_parts_refs:
  assumes parts: "expand_center_peer_parts h pid cln ex = Inr ls" and plan: "peer_planned h specs pid cln ex"
    and pid: "strip pid = pid" and l: "l \<in> set ls" "p \<in> set l" "match_set_of p = Some (n, dir)"
  shows "n \<in> is_name ` set specs"
proof -
  have core: "n \<in> is_name ` set specs"
    if m: "mapM (peer_line_parts h pid c us ud) xs = Inr ls" and us: "us \<longrightarrow> has_multiple_addresses cln = Inr True"
      and ud: "ud \<longrightarrow> has_multiple_addresses (comma_tokens (strip (ex_dest_ip ex))) = Inr True" for c us ud xs
  proof -
    obtain x where "peer_line_parts h pid c us ud x = Inr l" using mapM_mem [OF m l(1)] by blast
    then have "(us \<and> stable_name h ''peer'' pid ''lan'' = Inr n) \<or> (ud \<and> stable_name h ''rule'' (peer_rule_id pid) ''dst'' = Inr n)"
      using peer_line_refs l(2,3) by (cases x) blast
    then show ?thesis using us ud plan provides_name unfolding peer_planned_def by metis
  qed
  consider "strip_all cln = []" | "strip_all cln \<noteq> []" "\<not> has_l4_match ex" | "strip_all cln \<noteq> []" "has_l4_match ex" by blast
  then show ?thesis
  proof cases
    case 1
    then show ?thesis using parts l(1) by (simp add: expand_center_peer_parts_def)
  next
    case 2
    then show ?thesis using parts pid
      by (auto simp: expand_center_peer_parts_def rbind_Inr_iff Let_def intro: core)
  next
    case 3
    then obtain fr where fr: "mk_rule (peer_rule pid ex) = Inr fr"
      using parts by (auto simp: expand_center_peer_parts_def pid Let_def split: sum.splits)
    have "dest_ip fr = str_opt (strip (ex_dest_ip ex))" using mk_rule_InrD [OF fr] by (auto simp: peer_rule_def)
    then show ?thesis using 3 parts pid fr
      by (auto simp: expand_center_peer_parts_def rbind_Inr_iff Let_def intro: core)
  qed
qed

text \<open>No line refers to a set that is not planned: every ipset a generated line matches against
  is among the desired sets of the same plan, so \<open>iptables-restore\<close> never meets a missing set.\<close>

theorem referenced_sets_planned:
  assumes "desired_ipsets_for_merged_forward h merged = Inr specs"
    and "merged_parts h merged = Inr lines" "\<forall>e\<in>set merged. entry_ok e"
    and "l \<in> set lines" "p \<in> set l" "match_set_of p = Some (n, dir)"
  shows "n \<in> is_name ` set specs"
proof -
  have d: "desired_ipsets h [] merged = Inr specs" using assms(1) by (simp add: desired_ipsets_for_merged_forward_def)
  obtain lss ls where m: "mapM (entry_parts h) merged = Inr lss" and ls: "ls \<in> set lss" "l \<in> set ls"
    using assms(2,4) by (auto simp: merged_parts_def rbind_Inr_iff)
  obtain e where e: "e \<in> set merged" "entry_parts h e = Inr ls" "entry_ok e" using mapM_mem [OF m ls(1)] assms(3) by blast
  show ?thesis
  proof (cases "snd e")
    case (RuleFwd r)
    then obtain pri where pe: "e = (pri, RuleFwd r)" by (cases e) auto
    have "\<exists>t. provides specs (effective_source_set_name h r) t" if tag: "owner_type r = OTag"
    proof -
      have ne: "source_list r \<noteq> []" using e(3) pe tag by simp
      obtain n r' where "effective_source_set_name h r = Inr n" "provides specs (Inr n) (source_list r')"
        using desired_ipsets_tag [OF d e(1) [unfolded pe] tag ne] by auto
      then show ?thesis by auto
    qed
    moreover have "rule_planned h specs r" using desired_ipsets_planned [OF d] e(1) pe by blast
    moreover have "expand_rule_parts h r = Inr ls" using e pe by (auto simp: entry_parts_def)
    ultimately show ?thesis using rule_parts_refs ls(2) assms(5,6) by blast
  next
    case (PeerFwd pid cln ex)
    then obtain pri where pe: "e = (pri, PeerFwd pid cln ex)" by (cases e) auto
    have "peer_planned h specs pid cln ex" using desired_ipsets_planned [OF d] e(1) pe by blast
    moreover have "expand_center_peer_parts h pid cln ex = Inr ls" "strip pid = pid" using e pe by (auto simp: entry_parts_def)
    ultimately show ?thesis using peer_parts_refs ls(2) assms(5,6) by blast
  qed
qed

theorem referenced_sets_planned_witness:
  "''ovpntag_stag_own_src'' \<in> is_name ` set demo_plan \<and> ''ovpnfw_dr2_dst'' \<in> is_name ` set demo_plan"
proof -
  have d: "desired_ipsets_for_merged_forward demo_fwd_hashes demo_merged = Inr demo_plan"
    and l: "merged_parts demo_fwd_hashes demo_merged = Inr demo_lines"
    and e: "\<forall>e\<in>set demo_merged. entry_ok e"
    and m: "demo_lines ! 3 \<in> set demo_lines"
    and s: "set_part ''ovpntag_stag_own_src'' ''src'' \<in> set (demo_lines ! 3)"
    and t: "set_part ''ovpnfw_dr2_dst'' ''dst'' \<in> set (demo_lines ! 3)"
    by code_simp+
  show ?thesis
    using referenced_sets_planned [OF d l e m s] referenced_sets_planned [OF d l e m t] by simp
qed

end
