(* ===== verification/Actions.thy ===== *)
theory Actions
  imports Prelude
begin

text \<open>
  Stateful code: an action takes a state to its outcome and the next state, or to \<open>None\<close> when it
  does not return.  The combinators are the Python control flow the services use: sequencing,
  \<open>raise\<close>, \<open>try\<close>/\<open>except\<close> and loops.  \<open>keeps\<close> states the frame of an action; the locale
  \<open>step_frame\<close> shows once how frames compose.
\<close>

type_synonym ('s, 'a) stact = "'s \<Rightarrow> ('a res \<times> 's) option"

section \<open>Actions\<close>

definition ret :: "'a \<Rightarrow> ('s, 'a) stact" where
  "ret x st = Some (Inr x, st)"

definition throw :: "exn \<Rightarrow> ('s, 'a) stact" where
  "throw e st = Some (Inl e, st)"

definition andthen :: "('s, 'a) stact \<Rightarrow> ('a \<Rightarrow> ('s, 'b) stact) \<Rightarrow> ('s, 'b) stact" where
  "andthen m f st = (case m st of None \<Rightarrow> None
     | Some (Inl e, s) \<Rightarrow> Some (Inl e, s)
     | Some (Inr x, s) \<Rightarrow> f x s)"

text \<open>\<open>except\<close>: the handler takes over from the state the failing body left.\<close>

definition handle :: "('s, 'a) stact \<Rightarrow> (exn \<Rightarrow> ('s, 'a) stact) \<Rightarrow> ('s, 'a) stact" where
  "handle m f st = (case m st of None \<Rightarrow> None
     | Some (Inl e, s) \<Rightarrow> f e s
     | Some (Inr x, s) \<Rightarrow> Some (Inr x, s))"

text \<open>\<open>except (subprocess.TimeoutExpired, OSError)\<close> lets other exceptions through.\<close>

definition handle_os :: "('s, 'a) stact \<Rightarrow> ('s, 'a) stact \<Rightarrow> ('s, 'a) stact" where
  "handle_os m f = handle m (\<lambda>e. case e of OSError _ \<Rightarrow> f | _ \<Rightarrow> throw e)"

text \<open>\<open>try ... finally\<close>.\<close>

definition at_end :: "('s, 'a) stact \<Rightarrow> ('s, unit) stact \<Rightarrow> ('s, 'a) stact" where
  "at_end m f s = (case m s of None \<Rightarrow> None
     | Some (r, s') \<Rightarrow> (case f s' of None \<Rightarrow> None | Some (Inl e, s'') \<Rightarrow> Some (Inl e, s'') | Some (Inr _, s'') \<Rightarrow> Some (r, s'')))"

lemma act_simps [simp]:
  "andthen (ret x) f = f x"
  "andthen (throw e) f = throw e"
  by (simp_all add: andthen_def ret_def throw_def fun_eq_iff)

fun for_each :: "('x \<Rightarrow> ('s, unit) stact) \<Rightarrow> 'x list \<Rightarrow> ('s, unit) stact" where
  "for_each f [] = ret ()"
| "for_each f (x # xs) = andthen (f x) (\<lambda>_. for_each f xs)"

section \<open>Frames of actions\<close>

definition keeps :: "('s \<Rightarrow> 's \<Rightarrow> bool) \<Rightarrow> ('s, 'a) stact \<Rightarrow> bool" where
  "keeps R m \<longleftrightarrow> (\<forall>st r st'. m st = Some (r, st') \<longrightarrow> R st st')"

lemma keepsD: "keeps R m \<Longrightarrow> m st = Some (r, st') \<Longrightarrow> R st st'"
  by (auto simp: keeps_def)

lemma andthen_Some_iff:
  "andthen m f st = Some (r, st') \<longleftrightarrow>
   (\<exists>e. m st = Some (Inl e, st') \<and> r = Inl e) \<or> (\<exists>x s. m st = Some (Inr x, s) \<and> f x s = Some (r, st'))"
  by (auto simp: andthen_def split: option.splits sum.splits prod.splits)

lemma handle_Some_iff:
  "handle m f st = Some (r, st') \<longleftrightarrow>
   (\<exists>x. m st = Some (Inr x, st') \<and> r = Inr x) \<or> (\<exists>e s. m st = Some (Inl e, s) \<and> f e s = Some (r, st'))"
  by (auto simp: handle_def split: option.splits sum.splits prod.splits)

locale step_frame =
  fixes R :: "'s \<Rightarrow> 's \<Rightarrow> bool"
  assumes refl: "R s s" and trans: "R s t \<Longrightarrow> R t u \<Longrightarrow> R s u"
begin

lemma ret_keeps [intro, simp]: "keeps R (ret x)"
  by (auto simp: keeps_def ret_def refl)

lemma throw_keeps [intro, simp]: "keeps R (throw e)"
  by (auto simp: keeps_def throw_def refl)

lemma andthen_keeps [intro]: "keeps R m \<Longrightarrow> (\<And>x. keeps R (f x)) \<Longrightarrow> keeps R (andthen m f)"
  unfolding keeps_def andthen_Some_iff using trans by blast

lemma handle_keeps: "keeps R m \<Longrightarrow> (\<And>e. keeps R (f e)) \<Longrightarrow> keeps R (handle m f)"
  unfolding keeps_def handle_Some_iff using trans by blast

lemma handle_os_keeps [intro]: "keeps R m \<Longrightarrow> keeps R f \<Longrightarrow> keeps R (handle_os m f)"
  unfolding handle_os_def by (rule handle_keeps) (auto split: exn.splits)

lemma for_each_keeps [intro]: "(\<And>x. keeps R (f x)) \<Longrightarrow> keeps R (for_each f xs)"
  by (induction xs) auto

end

end
