(* ===== verification/Kernel.thy ===== *)
theory Kernel
  imports Forward Actions
begin

text \<open>
  \<open>app/services/firewall/iptables_mgr.py\<close>, the acting half: snapshots and restoration of the
  chain and of the filter table, the fixed hooks in FORWARD, INPUT and nat POSTROUTING, and the two
  transactions \<open>refresh_vpn_forward_only\<close> and \<open>rebuild_rules\<close>.

  Every operation is an action: from a manager state it gives the outcome and the next state, or
  \<open>None\<close> when it does not return (a lock that is never free, a deletion loop that never ends).
  The temporary file of \<open>iptables-restore\<close> is handed to \<open>run\<close> as the standard input of the
  command that reads it.
\<close>

record 'k env =
  on_nt :: bool
  inst_raw :: string
  cfg_subnet :: "string res"
  sha256_hex :: "string \<Rightarrow> string"
  tmp_path :: "string res"
  tmp_write :: "unit res"
  set_ip_forward :: "'k \<Rightarrow> 'k"

type_synonym ('k, 'a) act = "('k mgr, 'a) stact"

section \<open>Commands\<close>

text \<open>\<open>subprocess.run\<close>: no result is an \<open>OSError\<close> or a \<open>TimeoutExpired\<close>, which every handler of
  this file treats alike.\<close>

definition sh_in :: "'k runner \<Rightarrow> string list \<Rightarrow> string \<Rightarrow> ('k, int \<times> string \<times> string) act" where
  "sh_in run args inp st = (case run args inp (kernel st) of
     (ProcExc, k) \<Rightarrow> Some (Inl (OSError ''subprocess''), st\<lparr>kernel := k\<rparr>)
   | (Proc rc out err, k) \<Rightarrow> Some (Inr (rc, out, err), st\<lparr>kernel := k\<rparr>))"

definition sh :: "'k runner \<Rightarrow> string list \<Rightarrow> ('k, int \<times> string \<times> string) act" where
  "sh run args = sh_in run args []"

definition critical :: "('k, unit) act" where
  "critical st = Some (Inr (), st\<lparr>criticals := Suc (criticals st)\<rparr>)"

section \<open>shlex.split\<close>

datatype shlex_mode = Plain | InSingle | InDouble | EscPlain | EscDouble

definition shlex_ws :: "char \<Rightarrow> bool" where
  "shlex_ws c \<longleftrightarrow> c = CHR '' '' \<or> c = CHR 0x09 \<or> c = CHR 0x0A \<or> c = CHR 0x0D"

text \<open>\<open>acc\<close> is the token read so far, reversed; \<open>None\<close> between tokens.\<close>

definition tok_push :: "char \<Rightarrow> string option \<Rightarrow> string option" where
  "tok_push c acc = Some (c # opt_str acc)"

definition tok_open :: "string option \<Rightarrow> string option" where
  "tok_open acc = Some (opt_str acc)"

fun shlex :: "shlex_mode \<Rightarrow> string option \<Rightarrow> string \<Rightarrow> string list option" where
  "shlex Plain acc [] = Some (case acc of None \<Rightarrow> [] | Some w \<Rightarrow> [rev w])"
| "shlex Plain acc (c # s) =
     (if shlex_ws c then
        (case acc of None \<Rightarrow> shlex Plain None s
         | Some w \<Rightarrow> (case shlex Plain None s of None \<Rightarrow> None | Some ws \<Rightarrow> Some (rev w # ws)))
      else if c = CHR 0x5C then shlex EscPlain (tok_open acc) s
      else if c = CHR 0x27 then shlex InSingle (tok_open acc) s
      else if c = CHR 0x22 then shlex InDouble (tok_open acc) s
      else shlex Plain (tok_push c acc) s)"
| "shlex InSingle acc [] = None"
| "shlex InSingle acc (c # s) =
     (if c = CHR 0x27 then shlex Plain acc s else shlex InSingle (tok_push c acc) s)"
| "shlex InDouble acc [] = None"
| "shlex InDouble acc (c # s) =
     (if c = CHR 0x22 then shlex Plain acc s
      else if c = CHR 0x5C then shlex EscDouble acc s
      else shlex InDouble (tok_push c acc) s)"
| "shlex EscPlain acc [] = None"
| "shlex EscPlain acc (c # s) = shlex Plain (tok_push c acc) s"
| "shlex EscDouble acc [] = None"
| "shlex EscDouble acc (c # s) =
     (if c = CHR 0x5C \<or> c = CHR 0x22 then shlex InDouble (tok_push c acc) s
      else shlex InDouble (tok_push c (tok_push (CHR 0x5C) acc)) s)"

definition shlex_split :: "string \<Rightarrow> string list option" where
  "shlex_split s = shlex Plain None s"

section \<open>Snapshots\<close>

definition save_chain_rule_lines :: "'k runner \<Rightarrow> string \<Rightarrow> ('k, string list option) act" where
  "save_chain_rule_lines run chain =
     handle_os (andthen (sh run [''iptables'', ''-S'', chain]) (\<lambda>(rc, out, err).
       if rc \<noteq> 0 then
         (if str_in ''No chain'' (strip err) \<or> str_in (''doesn'' @ [CHR 0x27] @ ''t exist'') (strip err)
          then ret (Some []) else ret None)
       else ret (Some (filter (\<lambda>l. starts_with l (''-A '' @ chain @ '' '')) (map strip (splitlines out))))))
     (ret None)"

fun append_lines :: "'k runner \<Rightarrow> string \<Rightarrow> string list \<Rightarrow> ('k, bool) act" where
  "append_lines run chain [] = ret True"
| "append_lines run chain (l # ls) =
     (case shlex_split l of
        Some (a # c # x # xs) \<Rightarrow>
          (if a \<noteq> ''-A'' \<or> c \<noteq> chain then ret False
           else andthen (sh run ([''iptables'', ''-A'', chain] @ x # xs)) (\<lambda>(rc, out, err).
             if rc \<noteq> 0 then ret False else append_lines run chain ls))
      | _ \<Rightarrow> ret False)"

definition restore_chain_rule_lines :: "'k runner \<Rightarrow> string \<Rightarrow> string list \<Rightarrow> ('k, bool) act" where
  "restore_chain_rule_lines run chain lines =
     handle_os (andthen (sh run [''iptables'', ''-F'', chain]) (\<lambda>_. append_lines run chain lines))
       (ret False)"

definition save_filter :: "'k runner \<Rightarrow> ('k, string option) act" where
  "save_filter run =
     handle_os (andthen (sh run [''iptables-save'', ''-t'', ''filter'']) (\<lambda>(rc, out, err).
       if rc \<noteq> 0 then ret None else ret (Some out)))
     (ret None)"

definition restore_filter :: "'k runner \<Rightarrow> string \<Rightarrow> ('k, bool) act" where
  "restore_filter run data =
     handle_os (andthen (sh_in run [''iptables-restore''] data) (\<lambda>(rc, out, err). ret (rc = 0)))
     (ret False)"

definition flush_chain :: "'k runner \<Rightarrow> ('k, unit) act" where
  "flush_chain run = handle_os (andthen (sh run [''iptables'', ''-F'', chain_name]) (\<lambda>_. ret ())) (ret ())"

section \<open>Rules of the hooks\<close>

text \<open>The text of an instance in a comment: printable ASCII without blanks, quotes, backslash or
  semicolon, at most 96 characters.\<close>

definition inst_comment_max :: nat where
  "inst_comment_max = 96"

definition comment_char :: "char \<Rightarrow> bool" where
  "comment_char c \<longleftrightarrow> (let n = of_char c :: nat in 33 \<le> n \<and> n \<le> 126) \<and>
     c \<noteq> CHR '';'' \<and> c \<noteq> CHR 0x22 \<and> c \<noteq> CHR 0x27 \<and> c \<noteq> CHR 0x5C"

definition sanitize_inst :: "(string \<Rightarrow> string) \<Rightarrow> string \<Rightarrow> string" where
  "sanitize_inst sha raw =
     (let s0 = (if strip raw = [] then ''server'' else strip raw);
          s1 = map (\<lambda>c. if comment_char c then c else CHR ''_'') s0;
          s2 = (if list_all (\<lambda>c. c = CHR ''_'') s1 then ''server'' else s1)
      in if length s2 > inst_comment_max
         then take (inst_comment_max - 11) s2 @ ''_'' @ take 10 (sha raw) else s2)"

definition iid :: "'k env \<Rightarrow> string" where
  "iid env = sanitize_inst (sha256_hex env) (inst_raw env)"

definition jump_spec :: "string \<Rightarrow> string \<Rightarrow> string list" where
  "jump_spec comment chain =
     [''FORWARD'', ''-i'', ''tun+'', ''-m'', ''comment'', ''--comment'', comment, ''-j'', chain]"

definition ct_spec :: "string \<Rightarrow> string list" where
  "ct_spec comment = [''FORWARD'', ''-m'', ''conntrack'', ''--ctstate'', ''RELATED,ESTABLISHED'',
     ''-m'', ''comment'', ''--comment'', comment, ''-j'', ''ACCEPT'']"

definition forward_hook_specs_legacy :: "string list \<times> string list" where
  "forward_hook_specs_legacy = (jump_spec ''ovpn-mgmt-jump-vpn-forward'' chain_name, ct_spec ''ovpn-mgmt-ct-established'')"

definition forward_hook_specs :: "'k env \<Rightarrow> string list \<times> string list" where
  "forward_hook_specs env = (jump_spec (''ovpn-mgmt-jump-vpn-forward inst='' @ iid env) chain_name,
     ct_spec (''ovpn-mgmt-ct-established inst='' @ iid env))"

definition forward_hook_peer_specs_legacy :: "string list" where
  "forward_hook_peer_specs_legacy = jump_spec ''ovpn-mgmt-jump-vpn-peer'' ''VPN_PEER''"

definition forward_hook_peer_specs :: "'k env \<Rightarrow> string list" where
  "forward_hook_peer_specs env = jump_spec (''ovpn-mgmt-jump-vpn-peer inst='' @ iid env) ''VPN_PEER''"

definition input_tun_rule_parts :: "string \<Rightarrow> string option \<Rightarrow> string list" where
  "input_tun_rule_parts cidr inst = [''INPUT'', ''-i'', ''tun+'', ''-s'', cidr, ''-m'', ''comment'', ''--comment'',
     (case inst of None \<Rightarrow> ''ovpn-mgmt-input-tun'' | Some i \<Rightarrow> ''ovpn-mgmt-input-tun inst='' @ i), ''-j'', ''ACCEPT'']"

definition peer_chain_prefix :: string where
  "peer_chain_prefix = ''VPN_PEER_''"

definition peer_chain_name_for_id :: "hashes \<Rightarrow> string \<Rightarrow> string" where
  "peer_chain_name_for_id h pid = peer_chain_prefix @ take 12 (md5_hex h (''peer_chain:'' @ strip pid))"

section \<open>Deleting rules\<close>

text \<open>\<open>while True: iptables -D ...\<close> until a deletion fails; not returning is \<open>None\<close>.\<close>

partial_function (option) delete_repeat ::
  "'k runner \<Rightarrow> string list \<Rightarrow> 'k mgr \<Rightarrow> (unit res \<times> 'k mgr) option" where
  "delete_repeat run args st = (case run args [] (kernel st) of
     (ProcExc, k) \<Rightarrow> Some (Inl (OSError ''subprocess''), st\<lparr>kernel := k\<rparr>)
   | (Proc rc out err, k) \<Rightarrow>
       (if rc \<noteq> 0 then Some (Inr (), st\<lparr>kernel := k\<rparr>) else delete_repeat run args (st\<lparr>kernel := k\<rparr>)))"

declare delete_repeat.simps [code]

definition delete_rule_repeat :: "'k runner \<Rightarrow> string list \<Rightarrow> ('k, unit) act" where
  "delete_rule_repeat run rule_spec = delete_repeat run ([''iptables'', ''-D''] @ rule_spec)"

definition delete_nat_postrouting_repeat :: "'k runner \<Rightarrow> string list \<Rightarrow> ('k, unit) act" where
  "delete_nat_postrouting_repeat run tail =
     delete_repeat run ([''iptables'', ''-t'', ''nat'', ''-D'', ''POSTROUTING''] @ tail)"

text \<open>The rule tails of this instance in \<open>iptables -t nat -S POSTROUTING\<close>: those without \<open>inst=\<close>,
  or with the local one.\<close>

definition masq_tail :: "string \<Rightarrow> string \<Rightarrow> string list list" where
  "masq_tail inst line0 =
     (if \<not> str_in ''ovpn-mgmt-masq'' line0 then []
      else (let line = strip line0 in
        if \<not> starts_with line ''-A POSTROUTING '' then []
        else (case shlex_split line of
          Some (a # b # x # xs) \<Rightarrow>
            (let blob = join '' '' (a # b # x # xs) in
             if a \<noteq> ''-A'' \<or> b \<noteq> ''POSTROUTING'' then []
             else if str_in '' inst='' blob \<and> \<not> str_in (''inst='' @ inst) blob then []
             else [x # xs])
        | _ \<Rightarrow> [])))"

definition delete_nat_postrouting_for_local_masq :: "'k runner \<Rightarrow> string \<Rightarrow> ('k, unit) act" where
  "delete_nat_postrouting_for_local_masq run inst =
     andthen (handle_os (andthen (sh run [''iptables'', ''-t'', ''nat'', ''-S'', ''POSTROUTING'']) (\<lambda>(rc, out, err).
         ret (if rc \<noteq> 0 \<or> out = [] then [] else concat (map (masq_tail inst) (splitlines out)))))
       (ret []))
     (for_each (delete_nat_postrouting_repeat run))"

definition enumerate_forward_rules :: "'k runner \<Rightarrow> ('k, string list) act" where
  "enumerate_forward_rules run =
     andthen (sh run [''iptables'', ''-S'', ''FORWARD'']) (\<lambda>(rc, out, err).
       ret (if rc \<noteq> 0 \<or> out = [] then []
            else filter (\<lambda>l. starts_with l ''-A FORWARD '') (splitlines out)))"

definition delete_forward_rule_line :: "'k runner \<Rightarrow> string \<Rightarrow> ('k, bool) act" where
  "delete_forward_rule_line run line =
     (let s = strip line in
      if \<not> starts_with s ''-A FORWARD '' then ret False
      else (case shlex_split s of
        Some (a # b # x # xs) \<Rightarrow>
          (if a \<noteq> ''-A'' \<or> b \<noteq> ''FORWARD'' then ret False
           else andthen (sh run ([''iptables'', ''-D''] @ x # xs)) (\<lambda>(rc, out, err). ret (rc = 0)))
      | _ \<Rightarrow> ret False))"

text \<open>The bounded loops over the FORWARD rules: find the first rule with a property, delete it,
  look again.\<close>

fun delete_matching :: "'k runner \<Rightarrow> (string \<Rightarrow> bool) \<Rightarrow> nat \<Rightarrow> ('k, unit) act" where
  "delete_matching run hit 0 = ret ()"
| "delete_matching run hit (Suc n) =
     andthen (enumerate_forward_rules run) (\<lambda>rules.
       case find hit rules of
         None \<Rightarrow> ret ()
       | Some ln \<Rightarrow> andthen (delete_forward_rule_line run ln) (\<lambda>ok.
           if ok then delete_matching run hit n else ret ()))"

fun jumps_to_peer_chain :: "string list \<Rightarrow> bool" where
  "jumps_to_peer_chain (t # u # ts) =
     (if t = ''-j'' then starts_with u peer_chain_prefix else jumps_to_peer_chain (u # ts))"
| "jumps_to_peer_chain _ = False"

definition is_peer_jump :: "string \<Rightarrow> bool" where
  "is_peer_jump ln = (case shlex_split ln of None \<Rightarrow> False | Some toks \<Rightarrow> jumps_to_peer_chain toks)"

text \<open>The chains of \<open>iptables-save\<close> with a prefix, flushed and deleted in descending order.\<close>

definition chain_of_line :: "string \<Rightarrow> string list res" where
  "chain_of_line line =
     (if \<not> starts_with line '':'' then Inr []
      else (case py_words (drop 1 line) of [] \<Rightarrow> Inl (IndexError ''list index'') | nm # _ \<Rightarrow> Inr [nm]))"

definition flush_delete_chains_matching_prefix :: "'k env \<Rightarrow> 'k runner \<Rightarrow> string \<Rightarrow> ('k, unit) act" where
  "flush_delete_chains_matching_prefix env run pre =
     (if on_nt env then ret ()
      else andthen (handle_os (sh run [''iptables-save'', ''-t'', ''filter'']) (ret (1, [], []))) (\<lambda>(rc, out, err).
        if rc \<noteq> 0 \<or> out = [] then ret ()
        else (case mapM chain_of_line (splitlines out) of
          Inl e \<Rightarrow> throw e
        | Inr nms \<Rightarrow>
            for_each (\<lambda>nm. andthen (sh run [''iptables'', ''-F'', nm]) (\<lambda>_.
                            andthen (sh run [''iptables'', ''-X'', nm]) (\<lambda>_. ret ())))
              (rev (sorted_set (filter (\<lambda>nm. starts_with nm pre) (concat nms)))))))"

definition purge_center_vpn_peer_subchains :: "'k env \<Rightarrow> 'k runner \<Rightarrow> ('k, unit) act" where
  "purge_center_vpn_peer_subchains env run =
     (if on_nt env then ret ()
      else andthen (delete_matching run is_peer_jump 256) (\<lambda>_.
        flush_delete_chains_matching_prefix env run peer_chain_prefix))"

definition remove_legacy_shared_vpn_peer :: "'k env \<Rightarrow> 'k runner \<Rightarrow> ('k, unit) act" where
  "remove_legacy_shared_vpn_peer env run =
     andthen (delete_rule_repeat run forward_hook_peer_specs_legacy) (\<lambda>_.
     andthen (delete_rule_repeat run (forward_hook_peer_specs env)) (\<lambda>_.
     andthen (sh run [''iptables'', ''-F'', ''VPN_PEER'']) (\<lambda>_.
     andthen (sh run [''iptables'', ''-X'', ''VPN_PEER'']) (\<lambda>_. ret ()))))"

section \<open>Hooks\<close>

text \<open>The last position of a line with a property; the two hooks must both be there, the jump
  before the connection tracking.\<close>

fun last_index :: "(string \<Rightarrow> bool) \<Rightarrow> nat \<Rightarrow> string list \<Rightarrow> nat option" where
  "last_index Q i [] = None"
| "last_index Q i (l # ls) = (case last_index Q (Suc i) ls of
     Some j \<Rightarrow> Some j | None \<Rightarrow> if Q l then Some i else None)"

definition is_jump_line :: "string \<Rightarrow> bool" where
  "is_jump_line l \<longleftrightarrow> str_in ''ovpn-mgmt-jump-vpn-forward'' l \<and> str_in (''-j '' @ chain_name) l"

definition is_ct_line :: "string \<Rightarrow> bool" where
  "is_ct_line l \<longleftrightarrow> str_in ''ovpn-mgmt-ct-established'' l"

definition hook_order :: "string list \<Rightarrow> bool" where
  "hook_order rules = (case (last_index is_jump_line 0 rules, last_index is_ct_line 0 rules) of
     (Some i, Some j) \<Rightarrow> i < j | _ \<Rightarrow> False)"

definition forward_hooks_order_ok :: "'k runner \<Rightarrow> ('k, bool) act" where
  "forward_hooks_order_ok run =
     handle_os (andthen (enumerate_forward_rules run) (\<lambda>rules. ret (hook_order rules))) (ret False)"

fun add_hooks :: "'k runner \<Rightarrow> string list list \<Rightarrow> ('k, bool) act" where
  "add_hooks run [] = ret True"
| "add_hooks run (p # ps) =
     andthen (sh run ([''iptables'', ''-A''] @ p)) (\<lambda>(rc, out, err).
       if rc \<noteq> 0 then ret False else add_hooks run ps)"

definition ensure_forward_hooks :: "'k env \<Rightarrow> 'k runner \<Rightarrow> ('k, bool) act" where
  "ensure_forward_hooks env run =
     (if on_nt env then ret True
      else andthen (remove_legacy_shared_vpn_peer env run) (\<lambda>_.
        andthen (purge_center_vpn_peer_subchains env run) (\<lambda>_.
        (let (lj, lc) = forward_hook_specs_legacy; (jump, ct) = forward_hook_specs env in
         andthen (forward_hooks_order_ok run) (\<lambda>ok.
           if ok then ret True
           else andthen (for_each (delete_rule_repeat run) [lj, lc, jump, ct]) (\<lambda>_.
             add_hooks run [jump, ct]))))))"

text \<open>The default policy of a chain in \<open>iptables-save\<close>.\<close>

definition filter_table_chain_policy :: "'k runner \<Rightarrow> string \<Rightarrow> string \<Rightarrow> ('k, string option) act" where
  "filter_table_chain_policy run table chain =
     handle_os (andthen (sh run [''iptables-save'', ''-t'', table]) (\<lambda>(rc, out, err).
       if rc \<noteq> 0 \<or> out = [] then ret None
       else ret (case concat (map (\<lambda>l. case py_words l of a # b # ws \<Rightarrow> [b] | _ \<Rightarrow> [])
           (filter (\<lambda>l. starts_with l ('':'' @ chain @ '' '')) (splitlines out))) of
         [] \<Rightarrow> None | p # _ \<Rightarrow> Some p)))
     (ret None)"

definition ensure_input_from_vpn :: "'k env \<Rightarrow> 'k runner \<Rightarrow> ('k, bool) act" where
  "ensure_input_from_vpn env run =
     (if on_nt env then ret True
      else (case cfg_subnet env of
        Inl e \<Rightarrow> ret False
      | Inr cidr \<Rightarrow>
          if cidr = [] then ret True
          else (let legacy = input_tun_rule_parts cidr None; parts = input_tun_rule_parts cidr (Some (iid env)) in
            andthen (filter_table_chain_policy run ''filter'' ''INPUT'') (\<lambda>policy.
              if policy = Some ''ACCEPT''
              then andthen (for_each (delete_rule_repeat run) [legacy, parts]) (\<lambda>_. ret True)
              else andthen (sh run ([''iptables'', ''-C''] @ parts)) (\<lambda>(rc, out, err).
                if rc = 0 then ret True
                else andthen (delete_rule_repeat run legacy) (\<lambda>_.
                  andthen (sh run ([''iptables'', ''-A''] @ parts)) (\<lambda>(rc, out, err). ret (rc = 0))))))))"

definition ensure_ipv4_forward_enabled :: "'k env \<Rightarrow> ('k, unit) act" where
  "ensure_ipv4_forward_enabled env st =
     (if on_nt env then ret () st else Some (Inr (), st\<lparr>kernel := set_ip_forward env (kernel st)\<rparr>))"

definition masq_parts :: "string \<Rightarrow> string \<Rightarrow> string list" where
  "masq_parts cidr inst = [''POSTROUTING'', ''-s'', cidr, ''-m'', ''comment'', ''--comment'',
     ''ovpn-mgmt-masq inst='' @ inst, ''-j'', ''MASQUERADE'']"

definition ensure_vpn_nat_masquerade :: "'k env \<Rightarrow> 'k runner \<Rightarrow> ('k, unit) act" where
  "ensure_vpn_nat_masquerade env run =
     (if on_nt env then ret ()
      else (case cfg_subnet env of
        Inl e \<Rightarrow> ret ()
      | Inr cidr \<Rightarrow>
          if cidr = [] then ret ()
          else andthen (delete_nat_postrouting_for_local_masq run (iid env)) (\<lambda>_.
            (let parts = masq_parts cidr (iid env) in
             andthen (sh run ([''iptables'', ''-t'', ''nat'', ''-C''] @ parts)) (\<lambda>(rc, out, err).
               if rc = 0 then ret ()
               else andthen (sh run ([''iptables'', ''-t'', ''nat'', ''-A''] @ parts)) (\<lambda>_. ret ()))))))"

definition remove_ovpn_mgmt_iptables_hooks :: "'k env \<Rightarrow> 'k runner \<Rightarrow> ('k, unit) act" where
  "remove_ovpn_mgmt_iptables_hooks env run =
     (if on_nt env then ret ()
      else (let (lj, lc) = forward_hook_specs_legacy; (jump, ct) = forward_hook_specs env in
        andthen (for_each (delete_rule_repeat run)
          [forward_hook_peer_specs_legacy, forward_hook_peer_specs env, lj, lc, jump, ct]) (\<lambda>_.
        andthen (delete_matching run (\<lambda>ln. str_in ''ovpn-mgmt-jump-peer'' ln \<and> str_in ''peer='' ln) 512) (\<lambda>_.
        andthen (remove_legacy_shared_vpn_peer env run) (\<lambda>_.
        andthen (flush_delete_chains_matching_prefix env run peer_chain_prefix) (\<lambda>_.
        andthen (case cfg_subnet env of
            Inl e \<Rightarrow> ret ()
          | Inr cidr \<Rightarrow> if cidr = [] then ret ()
              else for_each (delete_rule_repeat run)
                [input_tun_rule_parts cidr None, input_tun_rule_parts cidr (Some (iid env))]) (\<lambda>_.
        delete_nat_postrouting_for_local_masq run (iid env))))))))"

section \<open>The transactions\<close>

definition rollback_act :: "'k runner \<Rightarrow> ipset_txn \<Rightarrow> ('k, bool) act" where
  "rollback_act run txn st = (let (ok, _, st') = rollback run txn st in Some (Inr ok, st'))"

definition commit_act :: "'k runner \<Rightarrow> ipset_txn \<Rightarrow> ('k, bool) act" where
  "commit_act run txn st = (let (ok, _, st') = commit run txn st in Some (Inr ok, st'))"

text \<open>\<open>_kernel_rollback_and_fail\<close>: undo the ipset transaction, put the chains back, report failure.\<close>

definition kernel_rollback_and_fail :: "'k runner \<Rightarrow> ipset_txn option \<Rightarrow> ('k, bool) act \<Rightarrow> ('k, bool) act" where
  "kernel_rollback_and_fail run txn restore =
     andthen (case txn of None \<Rightarrow> ret () | Some t \<Rightarrow>
         andthen (rollback_act run t) (\<lambda>ok. if ok then ret () else critical)) (\<lambda>_.
     andthen restore (\<lambda>ok. andthen (if ok then ret () else critical) (\<lambda>_. ret False)))"

text \<open>\<open>except (RuntimeError, ValueError)\<close> lets other exceptions through.\<close>

definition is_runtime_or_value_error :: "exn \<Rightarrow> bool" where
  "is_runtime_or_value_error e = (case e of RuntimeError _ \<Rightarrow> True | ValueError _ \<Rightarrow> True | _ \<Rightarrow> False)"

text \<open>Load the generated text: write the temporary file, flush the chain, restore, then the steps
  after a successful load.  \<open>None\<close> in the result is a success, a text the reason of a failure.\<close>

definition load_rules :: "'k env \<Rightarrow> 'k runner \<Rightarrow> string \<Rightarrow> string \<Rightarrow> ('k, string option) act \<Rightarrow> ('k, string option) act" where
  "load_rules env run path rules_text after =
     handle_os (case tmp_write env of
         Inl e \<Rightarrow> throw e
       | Inr _ \<Rightarrow>
           andthen (flush_chain run) (\<lambda>_.
           andthen (sh_in run [''iptables-restore'', ''--noflush'', path] rules_text) (\<lambda>(rc, out, err).
             if rc \<noteq> 0 then ret (Some ''iptables-restore'') else after)))
       (ret (Some ''exception''))"

definition reconcile_act :: "'k runner \<Rightarrow> hashes \<Rightarrow> ipset_spec list \<Rightarrow> ('k, ipset_txn res) act" where
  "reconcile_act run h specs st =
     (case reconcile run h specs st of None \<Rightarrow> None | Some (r, st') \<Rightarrow> Some (Inr r, st'))"

definition after_load :: "'k runner \<Rightarrow> ipset_txn \<Rightarrow> ('k, string option) act \<Rightarrow> ('k, string option) act" where
  "after_load run txn after = andthen after (\<lambda>bad. case bad of Some why \<Rightarrow> ret (Some why)
     | None \<Rightarrow> andthen (commit_act run txn) (\<lambda>ok. ret None))"

text \<open>The transaction after its ipset round.\<close>

definition load_phase ::
  "'k env \<Rightarrow> 'k runner \<Rightarrow> hashes \<Rightarrow> (int \<times> fwd_entry) list \<Rightarrow> ipset_txn \<Rightarrow> ('k, bool) act \<Rightarrow> ('k, string option) act \<Rightarrow> ('k, bool) act" where
  "load_phase env run h merged txn restore after =
     (case generate_merged_rules_text h merged of
        Inl e \<Rightarrow> kernel_rollback_and_fail run (Some txn) restore
      | Inr rules_text \<Rightarrow>
          (case tmp_path env of
             Inl e \<Rightarrow> kernel_rollback_and_fail run (Some txn) restore
           | Inr path \<Rightarrow> andthen (load_rules env run path rules_text (after_load run txn after)) (\<lambda>bad.
               case bad of None \<Rightarrow> ret True | Some why \<Rightarrow> kernel_rollback_and_fail run (Some txn) restore)))"

definition forward_transaction ::
  "'k env \<Rightarrow> 'k runner \<Rightarrow> hashes \<Rightarrow> rule list \<Rightarrow> center_peer list \<Rightarrow> ('k, bool) act \<Rightarrow> ('k, string option) act \<Rightarrow> ('k, bool) act" where
  "forward_transaction env run h rules peers restore after =
     (let merged = fst (build_merged_forward_entries rules peers) in
      andthen (case desired_ipsets_for_merged_forward h merged of
          Inl e \<Rightarrow> ret (Inl e) | Inr specs \<Rightarrow> reconcile_act run h specs) (\<lambda>r.
      case r of
        Inl e \<Rightarrow> (if is_runtime_or_value_error e then kernel_rollback_and_fail run None restore else throw e)
      | Inr txn \<Rightarrow> load_phase env run h merged txn restore after))"

definition refresh_vpn_forward_only ::
  "'k env \<Rightarrow> 'k runner \<Rightarrow> hashes \<Rightarrow> rule list \<Rightarrow> center_peer list \<Rightarrow> ('k, bool) act" where
  "refresh_vpn_forward_only env run h rules peers =
     (if on_nt env then ret True
      else andthen (save_chain_rule_lines run chain_name) (\<lambda>saved.
        case saved of
          None \<Rightarrow> ret False
        | Some lines \<Rightarrow>
            forward_transaction env run h rules peers
              (restore_chain_rule_lines run chain_name lines) (ret None)))"

definition hooks_and_nat :: "'k env \<Rightarrow> 'k runner \<Rightarrow> ('k, string option) act" where
  "hooks_and_nat env run =
     andthen (ensure_forward_hooks env run) (\<lambda>ok.
       if \<not> ok then ret (Some ''FORWARD hooks'')
       else andthen (ensure_input_from_vpn env run) (\<lambda>ok.
         if \<not> ok then ret (Some ''INPUT hooks'')
         else andthen (ensure_ipv4_forward_enabled env) (\<lambda>_.
           andthen (ensure_vpn_nat_masquerade env run) (\<lambda>_. ret None))))"

definition rebuild_rules ::
  "'k env \<Rightarrow> 'k runner \<Rightarrow> hashes \<Rightarrow> rule list \<Rightarrow> center_peer list \<Rightarrow> ('k, bool) act" where
  "rebuild_rules env run h rules peers =
     (if on_nt env then ret True
      else andthen (save_filter run) (\<lambda>saved.
        case saved of
          None \<Rightarrow> ret False
        | Some snapshot \<Rightarrow>
            forward_transaction env run h rules peers (restore_filter run snapshot) (hooks_and_nat env run)))"

text \<open>\<open>import_rules\<close> after the JSON has been read: the text is loaded as it is.\<close>

definition import_rules_text :: "'k env \<Rightarrow> 'k runner \<Rightarrow> string \<Rightarrow> ('k, bool) act" where
  "import_rules_text env run rules_text =
     (if rules_text = [] then ret False
      else (case tmp_path env of
        Inl e \<Rightarrow> throw e
      | Inr path \<Rightarrow>
          handle_os (case tmp_write env of
              Inl e \<Rightarrow> throw e
            | Inr _ \<Rightarrow>
                andthen (sh_in run [''iptables-restore'', ''--noflush'', path] (rules_text @ [CHR 0x0A])) (\<lambda>(rc, out, err).
                  if rc \<noteq> 0 then ret False
                  else andthen (hooks_and_nat env run) (\<lambda>bad. ret (bad = None))))
            (ret False)))"

end
