(* ===== verification/Kernel_Laws.thy ===== *)
theory Kernel_Laws
  imports Kernel Ipset_Props
begin

text \<open>
  The two transactions on the kernel: what a failed one restores and what a successful one
  installs.  The frame of an action is stated by \<open>keeps\<close>; the locale \<open>step_frame\<close> shows once how
  frames compose, and is interpreted on the frame of the iptables commands and on the counter of
  critical messages.
\<close>

section \<open>Frames of the manager\<close>

locale mgr_frame = step_frame R for R :: "'k mgr \<Rightarrow> 'k mgr \<Rightarrow> bool"
begin

lemma delete_repeat_keeps:
  assumes "\<And>st r k. run args [] (kernel st) = (r, k) \<Longrightarrow> R st (st\<lparr>kernel := k\<rparr>)"
  shows "keeps R (delete_repeat run args)"
proof -
  let ?law = "\<lambda>run args. \<forall>st r k. run args [] (kernel st) = (r, k) \<longrightarrow> R st (st\<lparr>kernel := k\<rparr>)"
  have "?law run args \<longrightarrow> R st (snd x)" if d: "delete_repeat run args st = Some x" for st x
  proof (rule delete_repeat.raw_induct [OF _ d, where P = "\<lambda>run args st x. ?law run args \<longrightarrow> R st (snd x)"], rule impI)
    fix loop :: "'k runner \<Rightarrow> string list \<Rightarrow> 'k mgr \<Rightarrow> (unit res \<times> 'k mgr) option" and run args st x
    assume ih: "\<And>run args st x. loop run args st = Some x \<Longrightarrow> ?law run args \<longrightarrow> R st (snd x)"
      and body: "(case run args [] (kernel st) of
          (ProcExc, k) \<Rightarrow> Some (Inl (OSError ''subprocess''), st\<lparr>kernel := k\<rparr>)
        | (Proc rc out err, k) \<Rightarrow> if rc \<noteq> 0 then Some (Inr (), st\<lparr>kernel := k\<rparr>) else loop run args (st\<lparr>kernel := k\<rparr>)) = Some x"
      and law: "?law run args"
    obtain r k where rk: "run args [] (kernel st) = (r, k)" by fastforce
    have one: "R st (st\<lparr>kernel := k\<rparr>)" using law rk by blast
    show "R st (snd x)"
    proof (cases r)
      case ProcExc
      then show ?thesis using body rk one by auto
    next
      case (Proc rc out err)
      show ?thesis
      proof (cases "rc = 0")
        case True
        then have "loop run args (st\<lparr>kernel := k\<rparr>) = Some x" using body rk Proc by simp
        then show ?thesis using ih law one trans by blast
      next
        case False
        then show ?thesis using body rk Proc one by auto
      qed
    qed
  qed
  then have "R st (snd x)" if "delete_repeat run args st = Some x" for st x using that assms by blast
  then show ?thesis by (fastforce simp: keeps_def)
qed

end

section \<open>The laws of iptables\<close>

text \<open>What the transactions rely on: the iptables tools leave the ipsets alone.\<close>

definition iptables_cmd :: "string list \<Rightarrow> bool" where
  "iptables_cmd args \<longleftrightarrow> args \<noteq> [] \<and> hd args \<in> set [''iptables'', ''iptables-restore'', ''iptables-save'']"

definition ipt_frame_law :: "'k runner \<Rightarrow> ('k \<Rightarrow> string \<Rightarrow> string set option) \<Rightarrow> bool" where
  "ipt_frame_law run sets \<longleftrightarrow> (\<forall>args inp k r k'. iptables_cmd args \<longrightarrow> run args inp k = (r, k') \<longrightarrow> sets k' = sets k)"

definition ipt_frame :: "('k \<Rightarrow> string \<Rightarrow> string set option) \<Rightarrow> 'k mgr \<Rightarrow> 'k mgr \<Rightarrow> bool" where
  "ipt_frame sets s t \<longleftrightarrow> sets (kernel t) = sets (kernel s) \<and> same_frame s t"

interpretation ipt: mgr_frame "ipt_frame sets" for sets :: "'k \<Rightarrow> string \<Rightarrow> string set option"
  by unfold_locales (auto simp: ipt_frame_def same_frame_def)

interpretation crit: mgr_frame "\<lambda>s t. criticals s \<le> criticals t"
  by unfold_locales auto

lemma sh_in_ipt: "ipt_frame_law run sets \<Longrightarrow> iptables_cmd args \<Longrightarrow> keeps (ipt_frame sets) (sh_in run args inp)"
  unfolding keeps_def sh_in_def ipt_frame_law_def
  by (auto simp: ipt_frame_def same_frame_def split: prod.splits proc_out.splits)

lemma sh_ipt: "ipt_frame_law run sets \<Longrightarrow> iptables_cmd args \<Longrightarrow> keeps (ipt_frame sets) (sh run args)"
  unfolding sh_def by (rule sh_in_ipt)

lemma delete_ipt: "ipt_frame_law run sets \<Longrightarrow> iptables_cmd args \<Longrightarrow> keeps (ipt_frame sets) (delete_repeat run args)"
  by (rule ipt.delete_repeat_keeps) (auto simp: ipt_frame_def same_frame_def ipt_frame_law_def)

lemma iptables_cmds [simp]:
  "iptables_cmd (''iptables'' # xs)" "iptables_cmd (''iptables-restore'' # xs)" "iptables_cmd (''iptables-save'' # xs)"
  by (simp_all add: iptables_cmd_def)


section \<open>Frames of the operations\<close>

lemma append_lines_ipt: "ipt_frame_law run sets \<Longrightarrow> keeps (ipt_frame sets) (append_lines run c ls)"
  by (induction ls) (auto intro!: ipt.andthen_keeps sh_ipt split: option.split list.split prod.split)

lemma restore_chain_ipt: "ipt_frame_law run sets \<Longrightarrow> keeps (ipt_frame sets) (restore_chain_rule_lines run c ls)"
  unfolding restore_chain_rule_lines_def by (intro ipt.handle_os_keeps ipt.andthen_keeps sh_ipt append_lines_ipt) simp_all

lemma restore_filter_ipt: "ipt_frame_law run sets \<Longrightarrow> keeps (ipt_frame sets) (restore_filter run d)"
  unfolding restore_filter_def
  by (intro ipt.handle_os_keeps ipt.andthen_keeps sh_in_ipt) (simp_all split: prod.split)

lemma flush_chain_ipt: "ipt_frame_law run sets \<Longrightarrow> keeps (ipt_frame sets) (flush_chain run)"
  unfolding flush_chain_def by (intro ipt.handle_os_keeps ipt.andthen_keeps sh_ipt) simp_all

lemma save_chain_ipt: "ipt_frame_law run sets \<Longrightarrow> keeps (ipt_frame sets) (save_chain_rule_lines run c)"
  unfolding save_chain_rule_lines_def
  by (intro ipt.handle_os_keeps ipt.andthen_keeps sh_ipt) (simp_all split: prod.split)

lemma save_filter_ipt: "ipt_frame_law run sets \<Longrightarrow> keeps (ipt_frame sets) (save_filter run)"
  unfolding save_filter_def
  by (intro ipt.handle_os_keeps ipt.andthen_keeps sh_ipt) (simp_all split: prod.split)

lemma enumerate_ipt: "ipt_frame_law run sets \<Longrightarrow> keeps (ipt_frame sets) (enumerate_forward_rules run)"
  unfolding enumerate_forward_rules_def
  by (intro ipt.andthen_keeps sh_ipt) (simp_all split: prod.split)

lemma delete_line_ipt: "ipt_frame_law run sets \<Longrightarrow> keeps (ipt_frame sets) (delete_forward_rule_line run l)"
  unfolding delete_forward_rule_line_def Let_def
  by (auto intro!: ipt.andthen_keeps sh_ipt split: option.split list.split prod.split)

lemma delete_matching_ipt: "ipt_frame_law run sets \<Longrightarrow> keeps (ipt_frame sets) (delete_matching run hit n)"
  by (induction n) (auto intro!: ipt.andthen_keeps enumerate_ipt delete_line_ipt split: option.split)

lemma delete_rule_ipt: "ipt_frame_law run sets \<Longrightarrow> keeps (ipt_frame sets) (delete_rule_repeat run r)"
  unfolding delete_rule_repeat_def by (rule delete_ipt) simp_all

lemma delete_nat_ipt: "ipt_frame_law run sets \<Longrightarrow> keeps (ipt_frame sets) (delete_nat_postrouting_repeat run r)"
  unfolding delete_nat_postrouting_repeat_def by (rule delete_ipt) simp_all

lemma flush_delete_ipt: "ipt_frame_law run sets \<Longrightarrow> keeps (ipt_frame sets) (flush_delete_chains_matching_prefix env run p)"
  unfolding flush_delete_chains_matching_prefix_def
  by (auto intro!: ipt.andthen_keeps ipt.handle_os_keeps ipt.for_each_keeps sh_ipt split: sum.split prod.split)

lemmas hook_frames = ipt.andthen_keeps ipt.handle_os_keeps ipt.for_each_keeps sh_ipt delete_rule_ipt
  delete_nat_ipt delete_matching_ipt flush_delete_ipt enumerate_ipt

lemma add_hooks_ipt: "ipt_frame_law run sets \<Longrightarrow> keeps (ipt_frame sets) (add_hooks run ps)"
  by (induction ps) (auto intro!: hook_frames split: prod.split)

lemma ensure_hooks_ipt: "ipt_frame_law run sets \<Longrightarrow> keeps (ipt_frame sets) (ensure_forward_hooks env run)"
  unfolding ensure_forward_hooks_def remove_legacy_shared_vpn_peer_def purge_center_vpn_peer_subchains_def
    forward_hooks_order_ok_def
  by (auto intro!: hook_frames add_hooks_ipt split: prod.split)

lemma policy_ipt: "ipt_frame_law run sets \<Longrightarrow> keeps (ipt_frame sets) (filter_table_chain_policy run t c)"
  unfolding filter_table_chain_policy_def by (auto intro!: hook_frames split: prod.split)

lemma ensure_input_ipt: "ipt_frame_law run sets \<Longrightarrow> keeps (ipt_frame sets) (ensure_input_from_vpn env run)"
  unfolding ensure_input_from_vpn_def Let_def
  by (auto intro!: hook_frames policy_ipt split: prod.split sum.split)

lemma nat_ipt: "ipt_frame_law run sets \<Longrightarrow> keeps (ipt_frame sets) (ensure_vpn_nat_masquerade env run)"
  unfolding ensure_vpn_nat_masquerade_def delete_nat_postrouting_for_local_masq_def Let_def
  by (auto intro!: hook_frames split: prod.split sum.split)

definition ip_forward_law :: "'k env \<Rightarrow> ('k \<Rightarrow> string \<Rightarrow> string set option) \<Rightarrow> bool" where
  "ip_forward_law env sets \<longleftrightarrow> (\<forall>k. sets (set_ip_forward env k) = sets k)"

lemma ip_forward_ipt: "ip_forward_law env sets \<Longrightarrow> keeps (ipt_frame sets) (ensure_ipv4_forward_enabled env)"
  by (auto simp: keeps_def ensure_ipv4_forward_enabled_def ip_forward_law_def ipt_frame_def same_frame_def ret_def)

lemma hooks_and_nat_ipt:
  "ipt_frame_law run sets \<Longrightarrow> ip_forward_law env sets \<Longrightarrow> keeps (ipt_frame sets) (hooks_and_nat env run)"
  unfolding hooks_and_nat_def
  by (auto intro!: ipt.andthen_keeps ensure_hooks_ipt ensure_input_ipt ip_forward_ipt nat_ipt)


section \<open>A failed transaction\<close>

lemma restore_step:
  assumes "andthen restore (\<lambda>ok. andthen (if ok then ret () else critical) (\<lambda>_. ret False)) s = Some (r', st')"
  obtains e where "restore s = Some (Inl e, st')" "r' = Inl e"
  | "restore s = Some (Inr True, st')" "r' = Inr False"
  | s1 where "restore s = Some (Inr False, s1)" "r' = Inr False" "st' = s1\<lparr>criticals := Suc (criticals s1)\<rparr>"
  using assms
  by (auto simp: andthen_def ret_def critical_def split: option.splits sum.splits prod.splits bool.splits if_splits)

lemma rollback_step:
  assumes "andthen (rollback_act run t) (\<lambda>ok. if ok then ret () else critical) st = Some (r, s)"
  obtains t' where "r = Inr ()" "rollback run t st = (True, t', s)"
  | t' s1 where "r = Inr ()" "rollback run t st = (False, t', s1)" "s = s1\<lparr>criticals := Suc (criticals s1)\<rparr>"
  using assms
  by (auto simp: andthen_def ret_def critical_def rollback_act_def split: prod.splits if_splits)

text \<open>What \<open>_kernel_rollback_and_fail\<close> did, when it logged nothing critical.\<close>

lemma kernel_rollback_cases:
  assumes ok: "ipset_ok run sets" and r: "keeps (ipt_frame sets) restore"
    and k: "kernel_rollback_and_fail run txn restore st = Some (r', st')"
  shows "criticals st \<le> criticals st' \<and> (r' = Inr b \<longrightarrow> \<not> b \<and> (criticals st' = criticals st \<longrightarrow>
    (\<exists>s. restore s = Some (Inr True, st') \<and>
      (case txn of None \<Rightarrow> s = st | Some t \<Rightarrow> \<exists>t'. rollback run t st = (True, t', s)))))"
proof -
  let ?fin = "andthen restore (\<lambda>ok. andthen (if ok then ret () else critical) (\<lambda>_. ret False))"
  have fin: "criticals s \<le> criticals st' \<and> (r' = Inr b \<longrightarrow> \<not> b \<and>
      (criticals st' = criticals s \<longrightarrow> restore s = Some (Inr True, st')))" if "?fin s = Some (r', st')" for s
    using that
  proof (cases rule: restore_step)
    case (1 e)
    then show ?thesis using keepsD [OF r 1(1)] by (simp add: ipt_frame_def same_frame_def)
  next
    case 2
    then show ?thesis using keepsD [OF r 2(1)] by (simp add: ipt_frame_def same_frame_def)
  next
    case (3 s1)
    then show ?thesis using keepsD [OF r 3(1)] by (simp add: ipt_frame_def same_frame_def)
  qed
  show ?thesis
  proof (cases txn)
    case None
    then have "?fin st = Some (r', st')" using k by (simp add: kernel_rollback_and_fail_def)
    then show ?thesis using fin [of st] None by auto
  next
    case (Some t)
    let ?rb = "andthen (rollback_act run t) (\<lambda>ok. if ok then ret () else critical)"
    have mono: "criticals s \<le> criticals s'" if "rollback run t s = (b, t', s')" for s b t' s'
    proof -
      obtain b2 s2 where rs: "rollback_swaps run (rev (swaps t)) True s = (b2, s2)" by fastforce
      show ?thesis using that rollback_swaps_frame [OF ok rs] rs
        by (auto simp: rollback_def release_lock_def split: if_splits)
    qed
    have k': "andthen ?rb (\<lambda>_. ?fin) st = Some (r', st')" using k Some by (simp add: kernel_rollback_and_fail_def)
    consider e where "?rb st = Some (Inl e, st')" | u s where "?rb st = Some (Inr u, s)" "?fin s = Some (r', st')"
      using k' unfolding andthen_Some_iff [of ?rb] by blast
    then show ?thesis
    proof cases
      case (1 e)
      then show ?thesis by (rule rollback_step) simp_all
    next
      case (2 u s)
      show ?thesis
        using 2(1)
      proof (cases rule: rollback_step)
        case (1 t')
        then show ?thesis using fin [OF 2(2)] mono [OF 1(2)] Some by auto
      next
        case (2 t' s1)
        then show ?thesis using fin [OF \<open>?fin s = Some (r', st')\<close>] mono [OF 2(2)] by auto
      qed
    qed
  qed
qed

lemma load_rules_cases:
  assumes ipt: "ipt_frame_law run sets" and l: "load_rules env run path text after st = Some (r, st')"
    and r: "r = Inr (Some why)"
    and after: "\<And>s x s'. after s = Some (x, s') \<Longrightarrow> x \<noteq> Inr None \<Longrightarrow> ipt_frame sets s s'"
  shows "ipt_frame sets st st'"
proof -
  let ?body = "andthen (flush_chain run) (\<lambda>_. andthen (sh_in run [''iptables-restore'', ''--noflush'', path] text)
    (\<lambda>(rc, out, err). if rc \<noteq> 0 then ret (Some ''iptables-restore'') else after))"
  have inner: "ipt_frame sets s s'"
    if b: "andthen (sh_in run [''iptables-restore'', ''--noflush'', path] text)
      (\<lambda>(rc, out, err). if rc \<noteq> 0 then ret (Some ''iptables-restore'') else after) s = Some (x, s')" and x: "x \<noteq> Inr None"
    for s x s'
  proof -
    obtain y s1 where y: "sh_in run [''iptables-restore'', ''--noflush'', path] text s = Some (y, s1)"
      using b by (cases "sh_in run [''iptables-restore'', ''--noflush'', path] text s") (auto simp: andthen_def)
    have f: "ipt_frame sets s s1" using keepsD [OF sh_in_ipt [OF ipt] y] by simp
    show ?thesis
    proof (cases y)
      case (Inl e)
      then show ?thesis using b y f by (simp add: andthen_def)
    next
      case (Inr t)
      obtain rc out err where t: "t = (rc, out, err)" by (cases t)
      show ?thesis
      proof (cases "rc = 0")
        case True
        then have "after s1 = Some (x, s')" using b y Inr t by (simp add: andthen_def)
        then show ?thesis using after x f ipt.trans by blast
      next
        case False
        then show ?thesis using b y Inr t f by (simp add: andthen_def ret_def)
      qed
    qed
  qed
  have body: "ipt_frame sets s s'" if b: "?body s = Some (x, s')" and x: "x \<noteq> Inr None" for s x s'
  proof -
    obtain y s1 where y: "flush_chain run s = Some (y, s1)"
      using b by (cases "flush_chain run s") (auto simp: andthen_def)
    have f: "ipt_frame sets s s1" using keepsD [OF flush_chain_ipt [OF ipt] y] .
    show ?thesis
    proof (cases y)
      case (Inl e)
      then show ?thesis using b y f by (simp add: andthen_def)
    next
      case (Inr u)
      then have "andthen (sh_in run [''iptables-restore'', ''--noflush'', path] text)
        (\<lambda>(rc, out, err). if rc \<noteq> 0 then ret (Some ''iptables-restore'') else after) s1 = Some (x, s')"
        using b y by (subst (asm) andthen_def) simp
      then show ?thesis using inner x f ipt.trans by blast
    qed
  qed
  show ?thesis
  proof (cases "tmp_write env")
    case (Inl e)
    then show ?thesis using l r ipt.refl
      by (auto simp: load_rules_def handle_os_def handle_Some_iff throw_def ret_def split: exn.splits)
  next
    case (Inr u)
    then have "handle ?body (\<lambda>e. case e of OSError _ \<Rightarrow> ret (Some ''exception'') | _ \<Rightarrow> throw e) st = Some (r, st')"
      using l by (simp add: load_rules_def handle_os_def)
    then consider x where "?body st = Some (Inr x, st')" "r = Inr x"
      | e s1 where "?body st = Some (Inl e, s1)" "(case e of OSError _ \<Rightarrow> ret (Some ''exception'') | _ \<Rightarrow> throw e) s1 = Some (r, st')"
      unfolding handle_Some_iff [of ?body] by blast
    then show ?thesis
    proof cases
      case (1 x)
      then show ?thesis using body [OF 1(1)] r by auto
    next
      case (2 e s1)
      then have "st' = s1" by (auto simp: ret_def throw_def split: exn.splits)
      then show ?thesis using body [OF 2(1)] by simp
    qed
  qed
qed


lemma after_load_frame:
  assumes "keeps (ipt_frame sets) after" "after_load run txn after s = Some (x, s')" "x \<noteq> Inr None"
  shows "ipt_frame sets s s'"
proof -
  obtain y s1 where y: "after s = Some (y, s1)"
    using assms(2) by (cases "after s") (auto simp: after_load_def andthen_def)
  have f: "ipt_frame sets s s1" using keepsD [OF assms(1) y] .
  show ?thesis
    using assms(2,3) y f
    by (auto simp: after_load_def andthen_def ret_def commit_act_def split: sum.splits option.splits prod.splits)
qed

lemma load_phase_False:
  assumes ok: "ipset_ok run sets" and ipt: "ipt_frame_law run sets"
    and r: "keeps (ipt_frame sets) restore" and a: "keeps (ipt_frame sets) after"
    and rec: "reconcile run h specs st0 = Some (Inr txn, st)"
    and l: "load_phase env run h merged txn restore after st = Some (Inr False, st')"
    and c: "criticals st' = criticals st"
  shows "sets (kernel st') = sets (kernel st0) \<and> (\<exists>s. restore s = Some (Inr True, st'))"
proof -
  have fail: ?thesis if f: "ipt_frame sets st s" and k: "kernel_rollback_and_fail run (Some txn) restore s = Some (Inr False, st')" for s
  proof -
    have "criticals st' = criticals s" using c f by (simp add: ipt_frame_def same_frame_def)
    then obtain s1 t' where s1: "restore s1 = Some (Inr True, st')" "rollback run txn s = (True, t', s1)"
      using kernel_rollback_cases [OF ok r k, of False] by auto
    have "sets (kernel s) = sets (kernel st)" using f by (simp add: ipt_frame_def)
    then have "sets (kernel s1) = sets (kernel st0)" using rollback_law [OF ok rec s1(2)] by simp
    then show ?thesis using keepsD [OF r s1(1)] s1(1) by (auto simp: ipt_frame_def)
  qed
  show ?thesis
  proof (cases "generate_merged_rules_text h merged")
    case (Inl e)
    then show ?thesis using l fail [OF ipt.refl] by (simp add: load_phase_def)
  next
    case gen: (Inr body)
    show ?thesis
    proof (cases "tmp_path env")
      case (Inl e)
      then show ?thesis using l gen fail [OF ipt.refl] by (simp add: load_phase_def)
    next
      case (Inr path)
      then have l': "andthen (load_rules env run path body (after_load run txn after)) (\<lambda>bad.
          case bad of None \<Rightarrow> ret True | Some why \<Rightarrow> kernel_rollback_and_fail run (Some txn) restore) st = Some (Inr False, st')"
        using l gen by (simp add: load_phase_def)
      then obtain bad s where b: "load_rules env run path body (after_load run txn after) st = Some (Inr bad, s)"
        and k: "(case bad of None \<Rightarrow> ret True | Some why \<Rightarrow> kernel_rollback_and_fail run (Some txn) restore) s = Some (Inr False, st')"
        unfolding andthen_Some_iff by blast
      obtain why where w: "bad = Some why" using k by (cases bad) (auto simp: ret_def)
      have "ipt_frame sets st s"
        using load_rules_cases [OF ipt b, of why] w after_load_frame [OF a] by blast
      then show ?thesis using fail k w by simp
    qed
  qed
qed

lemma reconcile_criticals:
  assumes "ipset_ok run sets" "reconcile run h specs st = Some (r, st1)"
  shows "criticals st \<le> criticals st1"
proof (cases r)
  case (Inl e)
  then show ?thesis using failed_reconcile_law [OF assms(1)] assms(2) by blast
next
  case (Inr txn)
  then show ?thesis using reconcile_Inr_law [OF assms(1), of h specs st txn st1] assms(2) by (metis order_refl)
qed


lemma forward_transaction_False:
  assumes ok: "ipset_ok run sets" and ipt: "ipt_frame_law run sets"
    and r: "keeps (ipt_frame sets) restore" and a: "keeps (ipt_frame sets) after"
    and t: "forward_transaction env run h rules peers restore after st = Some (Inr False, st')"
    and c: "criticals st' = criticals st"
  shows "sets (kernel st) \<subseteq>\<^sub>m sets (kernel st') \<and> (\<exists>s. restore s = Some (Inr True, st'))"
proof -
  let ?m = "fst (build_merged_forward_entries rules peers)"
  have fail: "sets (kernel s) \<subseteq>\<^sub>m sets (kernel st') \<and> (\<exists>s. restore s = Some (Inr True, st'))"
    if k: "kernel_rollback_and_fail run None restore s = Some (Inr False, st')" and c: "criticals st' = criticals s" for s
    using kernel_rollback_cases [OF ok r k, of False] c keepsD [OF r] by (fastforce simp: ipt_frame_def)
  show ?thesis
  proof (cases "desired_ipsets_for_merged_forward h ?m")
    case (Inl e)
    then have "kernel_rollback_and_fail run None restore st = Some (Inr False, st')"
      using t by (auto simp: forward_transaction_def Let_def throw_def split: if_splits)
    then show ?thesis using fail c by blast
  next
    case (Inr specs)
    then obtain x s where rec: "reconcile run h specs st = Some (x, s)"
      and cont: "(case x of Inl e \<Rightarrow> (if is_runtime_or_value_error e then kernel_rollback_and_fail run None restore else throw e)
        | Inr txn \<Rightarrow> load_phase env run h ?m txn restore after) s = Some (Inr False, st')"
      using t by (auto simp: forward_transaction_def Let_def andthen_def reconcile_act_def split: option.splits prod.splits)
    have mono: "criticals st \<le> criticals s" by (rule reconcile_criticals [OF ok rec])
    show ?thesis
    proof (cases x)
      case (Inl e)
      then have k: "kernel_rollback_and_fail run None restore s = Some (Inr False, st')"
        using cont by (auto simp: throw_def split: if_splits)
      have eq: "criticals st' = criticals s" "criticals s = criticals st"
        using kernel_rollback_cases [OF ok r k] mono c by auto
      have "sets (kernel st) \<subseteq>\<^sub>m sets (kernel s)"
        using failed_reconcile_law [OF ok rec [unfolded Inl]] eq(2) by simp
      then show ?thesis using fail [OF k eq(1)] map_le_trans by blast
    next
      case (Inr txn)
      then have l: "load_phase env run h ?m txn restore after s = Some (Inr False, st')" using cont by simp
      have "criticals s = criticals st"
        using reconcile_Inr_law [OF ok rec [unfolded Inr]] by metis
      then have "criticals st' = criticals s" using c by simp
      then show ?thesis using load_phase_False [OF ok ipt r a rec [unfolded Inr] l] by simp
    qed
  qed
qed

section \<open>The chain\<close>

text \<open>The abstraction \<open>chain\<close> reads the rules of \<open>VPN_FORWARD\<close> as argument lists.  Listing shows them
  in order, a flush that exits with 0 empties the chain, any other one leaves it as it is, and an append
  that exits with 0 adds the rule at the end.\<close>

definition missing_chain :: "string \<Rightarrow> bool" where
  "missing_chain err \<longleftrightarrow> str_in ''No chain'' (strip err) \<or> str_in (''doesn'' @ [CHR 0x27] @ ''t exist'') (strip err)"

definition chain_lines :: "string \<Rightarrow> string list" where
  "chain_lines out = filter (\<lambda>l. starts_with l (''-A '' @ chain_name @ '' '')) (map strip (splitlines out))"

definition chain_law :: "'k runner \<Rightarrow> ('k \<Rightarrow> string list list) \<Rightarrow> bool" where
  "chain_law run chain \<longleftrightarrow>
     (\<forall>k r k'. run [''iptables'', ''-S'', chain_name] [] k = (r, k') \<longrightarrow> chain k' = chain k \<and>
        (\<forall>out err. r = Proc 0 out err \<longrightarrow>
           map shlex_split (chain_lines out) = map (\<lambda>a. Some (''-A'' # chain_name # a)) (chain k)) \<and>
        (\<forall>rc out err. r = Proc rc out err \<longrightarrow> rc \<noteq> 0 \<longrightarrow> missing_chain err \<longrightarrow> chain k = [])) \<and>
     (\<forall>k rc out err k'. run [''iptables'', ''-F'', chain_name] [] k = (Proc rc out err, k') \<longrightarrow>
        chain k' = (if rc = 0 then [] else chain k)) \<and>
     (\<forall>k a out err k'. run (''iptables'' # ''-A'' # chain_name # a) [] k = (Proc 0 out err, k') \<longrightarrow> chain k' = chain k @ [a]) \<and>
     (\<forall>k. [] \<notin> set (chain k))"

lemma save_chain_law:
  assumes law: "chain_law run chain" and s: "save_chain_rule_lines run chain_name st = Some (Inr saved, st')"
  shows "chain (kernel st') = chain (kernel st) \<and>
    (\<forall>ls. saved = Some ls \<longrightarrow> map shlex_split ls = map (\<lambda>a. Some (''-A'' # chain_name # a)) (chain (kernel st)))"
proof -
  obtain r k where rk: "run [''iptables'', ''-S'', chain_name] [] (kernel st) = (r, k)" by fastforce
  note l = law [unfolded chain_law_def, THEN conjunct1, rule_format, OF rk]
  show ?thesis
  proof (cases r)
    case ProcExc
    then show ?thesis using s rk l
      by (auto simp: save_chain_rule_lines_def handle_os_def handle_def andthen_def sh_def sh_in_def ret_def)
  next
    case (Proc rc out err)
    show ?thesis
    proof (cases "rc = 0")
      case True
      then show ?thesis using s rk l Proc
        by (auto simp: save_chain_rule_lines_def handle_os_def handle_def andthen_def sh_def sh_in_def ret_def chain_lines_def)
    next
      case False
      then show ?thesis using s rk l Proc
        by (auto simp: save_chain_rule_lines_def handle_os_def handle_def andthen_def sh_def sh_in_def ret_def
            missing_chain_def split: if_splits)
    qed
  qed
qed

lemma append_lines_law:
  assumes law: "chain_law run chain" and "append_lines run chain_name ls st = Some (Inr True, st')"
    and "map shlex_split ls = map (\<lambda>a. Some (''-A'' # chain_name # a)) as" "[] \<notin> set as"
  shows "chain (kernel st') = chain (kernel st) @ as"
  using assms(2-4)
proof (induction ls arbitrary: as st)
  case Nil
  then show ?case by (simp add: ret_def)
next
  case (Cons l ls)
  then obtain x xs as' where as: "as = (x # xs) # as'" "shlex_split l = Some (''-A'' # chain_name # x # xs)"
    "map shlex_split ls = map (\<lambda>a. Some (''-A'' # chain_name # a)) as'" "[] \<notin> set as'"
    by (cases as; cases "hd as") auto
  obtain r k where rk: "run (''iptables'' # ''-A'' # chain_name # x # xs) [] (kernel st) = (r, k)" by fastforce
  obtain out err where r: "r = Proc 0 out err" and rest: "append_lines run chain_name ls (st\<lparr>kernel := k\<rparr>) = Some (Inr True, st')"
    using Cons.prems(1) as(2) rk
    by (auto simp: andthen_def sh_def sh_in_def ret_def split: proc_out.splits if_splits)
  have "chain k = chain (kernel st) @ [x # xs]"
    using law rk unfolding r chain_law_def by blast
  then show ?case using Cons.IH [OF rest as(3,4)] as(1) by simp
qed

text \<open>A flush of the chain that does not exit with 0, on a chain with the rules \<open>rest\<close>: the restoration does not look
  at the exit code and appends the saved rules after them.\<close>

definition flush_fails :: "'k runner \<Rightarrow> ('k \<Rightarrow> string list list) \<Rightarrow> string list list \<Rightarrow> bool" where
  "flush_fails run chain rest \<longleftrightarrow>
     (\<exists>k rc out err k'. run [''iptables'', ''-F'', chain_name] [] k = (Proc rc out err, k') \<and> rc \<noteq> 0 \<and> chain k = rest)"

lemma restore_chain_law:
  assumes law: "chain_law run chain" and "restore_chain_rule_lines run chain_name ls st = Some (Inr True, st')"
    and "map shlex_split ls = map (\<lambda>a. Some (''-A'' # chain_name # a)) as" "[] \<notin> set as"
  shows "chain (kernel st') = as \<or> (\<exists>rest. flush_fails run chain rest \<and> chain (kernel st') = rest @ as)"
proof -
  obtain r k where rk: "run [''iptables'', ''-F'', chain_name] [] (kernel st) = (r, k)" by fastforce
  obtain rc out err where r: "r = Proc rc out err"
    and rest: "append_lines run chain_name ls (st\<lparr>kernel := k\<rparr>) = Some (Inr True, st')"
    using assms(2) rk
    by (auto simp: restore_chain_rule_lines_def handle_os_def handle_def andthen_def sh_def sh_in_def ret_def throw_def
        split: proc_out.splits option.splits prod.splits sum.splits exn.splits)
  have k: "chain k = (if rc = 0 then [] else chain (kernel st))" using law rk unfolding r chain_law_def by blast
  have a: "chain (kernel st') = chain k @ as" using append_lines_law [OF law rest assms(3,4)] by simp
  show ?thesis
  proof (cases "rc = 0")
    case True
    then show ?thesis using a k by simp
  next
    case False
    then have "flush_fails run chain (chain (kernel st))" using rk r unfolding flush_fails_def by blast
    then show ?thesis using a k False by auto
  qed
qed

lemma failed_refresh_law:
  assumes "ipset_ok run sets" "ipt_frame_law run sets" "chain_law run chain"
    and "refresh_vpn_forward_only env run h rules peers st = Some (Inr False, st')"
    and "criticals st' = criticals st"
  shows "sets (kernel st) \<subseteq>\<^sub>m sets (kernel st') \<and>
    (chain (kernel st') = chain (kernel st) \<or> (\<exists>rest. flush_fails run chain rest \<and> chain (kernel st') = rest @ chain (kernel st)))"
proof -
  have nt: "\<not> on_nt env" using assms(4) by (auto simp: refresh_vpn_forward_only_def ret_def)
  obtain saved s where s: "save_chain_rule_lines run chain_name st = Some (Inr saved, s)"
    and cont: "(case saved of None \<Rightarrow> ret False | Some lines \<Rightarrow> forward_transaction env run h rules peers
              (restore_chain_rule_lines run chain_name lines) (ret None)) s = Some (Inr False, st')"
    using assms(4) nt unfolding refresh_vpn_forward_only_def by (auto simp: andthen_Some_iff)
  note f = keepsD [OF save_chain_ipt [OF assms(2)] s]
  note l = save_chain_law [OF assms(3) s]
  show ?thesis
  proof (cases saved)
    case None
    then show ?thesis using cont f l by (auto simp: ret_def ipt_frame_def)
  next
    case (Some lines)
    have c: "criticals st' = criticals s" using assms(5) f by (simp add: ipt_frame_def same_frame_def)
    have t: "forward_transaction env run h rules peers (restore_chain_rule_lines run chain_name lines) (ret None) s = Some (Inr False, st')"
      using cont Some by simp
    obtain s1 where s1: "sets (kernel s) \<subseteq>\<^sub>m sets (kernel st')"
      "restore_chain_rule_lines run chain_name lines s1 = Some (Inr True, st')"
      using forward_transaction_False [OF assms(1,2) restore_chain_ipt [OF assms(2)] ipt.ret_keeps t c] by blast
    have "[] \<notin> set (chain (kernel st))" using assms(3) by (simp add: chain_law_def)
    then have "chain (kernel st') = chain (kernel st) \<or> (\<exists>rest. flush_fails run chain rest \<and> chain (kernel st') = rest @ chain (kernel st))"
      using restore_chain_law [OF assms(3) s1(2)] l Some by simp
    then show ?thesis using s1(1) f by (simp add: ipt_frame_def)
  qed
qed

text \<open>C6. A refresh that fails loses nothing: when \<open>refresh_vpn_forward_only\<close> returns \<open>False\<close> and logged nothing critical, every
  ipset the host had is there with the same entries, at whichever step the refresh failed, and the chain \<open>VPN_FORWARD\<close> has
  the rules it had before, in order.  The one exception is a restoration whose own \<open>iptables -F\<close> fails: its exit code is not looked
  at, so the saved rules then follow what the chain held at that moment.\<close>

theorem failed_refresh_restores:
  assumes "ipset_ok run sets" "ipt_frame_law run sets" "chain_law run chain"
    and "refresh_vpn_forward_only env run h rules peers st = Some (Inr False, st')"
    and "criticals st' = criticals st"
  shows "sets (kernel st) \<subseteq>\<^sub>m sets (kernel st') \<and>
    (chain (kernel st') = chain (kernel st) \<or> (\<exists>rest. flush_fails run chain rest \<and> chain (kernel st') = rest @ chain (kernel st)))"
  by (rule failed_refresh_law [OF assms])

end
