(* ===== verification/Kernel_Props.thy ===== *)
theory Kernel_Props
  imports Kernel_Laws
begin

text \<open>
  The kernel transactions, continued: a full rebuild that fails puts the filter table back, a
  refresh that succeeds has installed exactly the generated chain and the planned ipsets; and the
  concrete host on which the witnesses run.
\<close>

section \<open>The full rebuild\<close>

text \<open>\<open>iptables-save\<close> prints the filter table, which \<open>reads\<close> reads back; loading a printed table
  restores it.\<close>

definition table_law :: "'k runner \<Rightarrow> (string \<Rightarrow> 'f) \<Rightarrow> ('k \<Rightarrow> 'f) \<Rightarrow> bool" where
  "table_law run reads filt \<longleftrightarrow>
     (\<forall>k r k'. run [''iptables-save'', ''-t'', ''filter''] [] k = (r, k') \<longrightarrow> filt k' = filt k \<and>
        (\<forall>out err. r = Proc 0 out err \<longrightarrow> reads out = filt k)) \<and>
     (\<forall>k data out err k'. run [''iptables-restore''] data k = (Proc 0 out err, k') \<longrightarrow> filt k' = reads data)"

lemma save_filter_law:
  assumes law: "table_law run reads filt" and s: "save_filter run st = Some (Inr saved, st')"
  shows "filt (kernel st') = filt (kernel st) \<and> (\<forall>d. saved = Some d \<longrightarrow> reads d = filt (kernel st))"
proof -
  obtain r k where rk: "run [''iptables-save'', ''-t'', ''filter''] [] (kernel st) = (r, k)" by fastforce
  note l = law [unfolded table_law_def, THEN conjunct1, rule_format, OF rk]
  show ?thesis using s rk l
    by (cases r) (auto simp: save_filter_def handle_os_def handle_def andthen_def sh_def sh_in_def ret_def split: if_splits)
qed

lemma restore_filter_law:
  assumes law: "table_law run reads filt" and s: "restore_filter run d st = Some (Inr True, st')"
  shows "filt (kernel st') = reads d"
proof -
  obtain r k where rk: "run [''iptables-restore''] d (kernel st) = (r, k)" by fastforce
  obtain out err where r: "r = Proc 0 out err" and k: "kernel st' = k" using s rk
    by (cases r) (auto simp: restore_filter_def handle_os_def handle_def andthen_def sh_in_def ret_def split: if_splits)
  show ?thesis using law rk unfolding table_law_def r k by blast
qed

text \<open>A rebuild that fails leaves no trace: when \<open>rebuild_rules\<close> returns \<open>False\<close> and logged
  nothing critical, whether the chain, a FORWARD hook or the INPUT rule could not be written, the
  filter table is the one saved at the start and no ipset has been lost or changed.\<close>

theorem failed_rebuild_restores:
  assumes "ipset_ok run sets" "ipt_frame_law run sets" "ip_forward_law env sets" "table_law run reads filt"
    and "rebuild_rules env run h rules peers st = Some (Inr False, st')"
    and "criticals st' = criticals st"
  shows "filt (kernel st') = filt (kernel st) \<and> sets (kernel st) \<subseteq>\<^sub>m sets (kernel st')"
proof -
  have nt: "\<not> on_nt env" using assms(5) by (auto simp: rebuild_rules_def ret_def)
  obtain saved s where s: "save_filter run st = Some (Inr saved, s)"
    and cont: "(case saved of None \<Rightarrow> ret False | Some d \<Rightarrow> forward_transaction env run h rules peers
              (restore_filter run d) (hooks_and_nat env run)) s = Some (Inr False, st')"
    using assms(5) nt unfolding rebuild_rules_def by (auto simp: andthen_Some_iff)
  note f = keepsD [OF save_filter_ipt [OF assms(2)] s]
  note l = save_filter_law [OF assms(4) s]
  show ?thesis
  proof (cases saved)
    case None
    then show ?thesis using cont f l by (auto simp: ret_def ipt_frame_def)
  next
    case (Some d)
    have c: "criticals st' = criticals s" using assms(6) f by (simp add: ipt_frame_def same_frame_def)
    have t: "forward_transaction env run h rules peers (restore_filter run d) (hooks_and_nat env run) s = Some (Inr False, st')"
      using cont Some by simp
    obtain s1 where s1: "sets (kernel s) \<subseteq>\<^sub>m sets (kernel st')" "restore_filter run d s1 = Some (Inr True, st')"
      using forward_transaction_False [OF assms(1,2) restore_filter_ipt [OF assms(2)]
          hooks_and_nat_ipt [OF assms(2,3)] t c] by blast
    then show ?thesis using restore_filter_law [OF assms(4) s1(2)] l Some f by (simp add: ipt_frame_def)
  qed
qed

section \<open>A successful refresh\<close>

definition line_args :: "string \<Rightarrow> string list" where
  "line_args l = (case shlex_split l of None \<Rightarrow> [] | Some ts \<Rightarrow> drop 2 ts)"

definition one_line :: "string \<Rightarrow> bool" where
  "one_line l \<longleftrightarrow> CHR 0x0A \<notin> set l"

text \<open>Loading the fragment replaces the chain by the lines of the fragment, and the \<open>ipset\<close>
  program leaves the chain alone.\<close>

definition load_law :: "'k runner \<Rightarrow> ('k \<Rightarrow> string list list) \<Rightarrow> bool" where
  "load_law run chain \<longleftrightarrow>
     (\<forall>k path ls out err k'. run [''iptables-restore'', ''--noflush'', path] (restore_text ls) k = (Proc 0 out err, k') \<longrightarrow>
        list_all one_line ls \<longrightarrow> chain k' = map line_args ls) \<and>
     (\<forall>args inp k r k'. args \<noteq> [] \<longrightarrow> hd args = ''ipset'' \<longrightarrow> run args inp k = (r, k') \<longrightarrow> chain k' = chain k)"

definition hashes_ok :: "hashes \<Rightarrow> bool" where
  "hashes_ok h \<longleftrightarrow> (\<forall>s. list_all (\<lambda>c. \<not> py_space c) (md5_hex h s))"

lemma ip_run_chain:
  assumes "load_law run chain" "args \<noteq> []" "hd args = ''ipset''" "ip_run run args c st = (r, st')"
  shows "chain (kernel st') = chain (kernel st)"
  using assms unfolding load_law_def by (auto simp: ip_run_def split: prod.splits proc_out.splits if_splits)

lemma destroy_chain:
  assumes "load_law run chain" "destroy_best_effort run n st = (b, st')"
  shows "chain (kernel st') = chain (kernel st)"
proof -
  obtain x where "ip_run run [''ipset'', ''destroy'', n] False st = (x, st')"
    using assms(2) by (auto simp: destroy_best_effort_def split: prod.splits sum.splits)
  from ip_run_chain [OF assms(1) _ _ this] show ?thesis by simp
qed

lemma list_chain:
  assumes "load_law run chain" "list_names run st = (r, st')"
  shows "chain (kernel st') = chain (kernel st)"
proof -
  obtain x where "ip_run run [''ipset'', ''list'', ''-n''] False st = (x, st')"
    using assms(2) by (auto simp: list_names_def split: prod.splits sum.splits)
  from ip_run_chain [OF assms(1) _ _ this] show ?thesis by simp
qed

lemma gc_loop_chain: "load_law run chain \<Longrightarrow> gc_loop run d ns o1 st = (b, st') \<Longrightarrow> chain (kernel st') = chain (kernel st)"
proof (induction ns arbitrary: o1 st)
  case (Cons n ns)
  obtain x s where x: "destroy_best_effort run n st = (x, s)" by fastforce
  show ?case using Cons destroy_chain [OF Cons.prems(1) x] x by (auto split: if_splits)
qed simp

lemma destroy_stages_chain: "load_law run chain \<Longrightarrow> destroy_stages run ws o1 st = (b, st') \<Longrightarrow> chain (kernel st') = chain (kernel st)"
proof (induction ws arbitrary: o1 st)
  case (Cons w ws)
  obtain x s where x: "destroy_best_effort run (stage_of w) st = (x, s)" by fastforce
  show ?case using Cons destroy_chain [OF Cons.prems(1) x] x by auto
qed simp

lemma commit_chain:
  assumes load: "load_law run chain" and c: "commit run txn st = (b, txn', st')"
  shows "chain (kernel st') = chain (kernel st)"
proof (cases "committed txn \<or> rolled_back txn")
  case True
  then show ?thesis using c by (auto simp: commit_def split: if_splits)
next
  case False
  obtain b1 s1 where d: "destroy_stages run (swaps txn) True st = (b1, s1)" by fastforce
  obtain b2 s2 where g: "gc run (desired_names txn) s1 = (b2, s2)" by fastforce
  have k: "kernel st' = kernel s2" using c False d g
    by (auto simp: commit_def release_lock_def split: if_splits)
  obtain r s where ln: "list_names run s1 = (r, s)" by fastforce
  have "chain (kernel s2) = chain (kernel s1)"
    using g ln list_chain [OF load ln] gc_loop_chain [OF load]
    by (cases r) (fastforce simp: gc_def Let_def)+
  then show ?thesis using k destroy_stages_chain [OF load d] by simp
qed

lemma swap_names_distinct: "distinct (swap_names ws) \<Longrightarrow> distinct (map stable_of ws)"
proof (induction ws)
  case (Cons w ws)
  have "stable_of ` set ws \<subseteq> set (swap_names ws)" by (auto simp: swap_names_def)
  then show ?case using Cons by auto
qed simp

lemma load_rules_True:
  assumes ipt: "ipt_frame_law run sets" and l: "load_rules env run path data (after_load run txn (ret None)) st = Some (Inr None, st')"
  shows "\<exists>s2 s3 out err txn' b. ipt_frame sets st s2 \<and>
    run [''iptables-restore'', ''--noflush'', path] data (kernel s2) = (Proc 0 out err, kernel s3) \<and>
    ipt_frame sets s2 s3 \<and> commit run txn s3 = (b, txn', st')"
proof -
  let ?body = "andthen (flush_chain run) (\<lambda>_. andthen (sh_in run [''iptables-restore'', ''--noflush'', path] data)
    (\<lambda>(rc, out, err). if rc \<noteq> 0 then ret (Some ''iptables-restore'') else after_load run txn (ret None)))"
  obtain u where w: "tmp_write env = Inr u"
    using l by (cases "tmp_write env") (auto simp: load_rules_def handle_os_def handle_Some_iff throw_def ret_def split: exn.splits)
  then have "handle ?body (\<lambda>e. case e of OSError _ \<Rightarrow> ret (Some ''exception'') | _ \<Rightarrow> throw e) st = Some (Inr None, st')"
    using l by (simp add: load_rules_def handle_os_def)
  then consider "?body st = Some (Inr None, st')"
    | e s1 where "(case e of OSError _ \<Rightarrow> ret (Some ''exception'') | _ \<Rightarrow> throw e) s1 = Some (Inr None :: string option res, st')"
    unfolding handle_Some_iff [of ?body] by blast
  then have "?body st = Some (Inr None, st')"
  proof cases
    case (2 e s1)
    then show ?thesis by (cases e) (simp_all add: ret_def throw_def)
  qed
  then obtain u2 s2 where f: "flush_chain run st = Some (Inr u2, s2)"
    and r: "andthen (sh_in run [''iptables-restore'', ''--noflush'', path] data)
      (\<lambda>(rc, out, err). if rc \<noteq> 0 then ret (Some ''iptables-restore'') else after_load run txn (ret None)) s2 = Some (Inr None, st')"
    unfolding andthen_Some_iff [of "flush_chain run"] by blast
  obtain rc out err s3 where sh3: "sh_in run [''iptables-restore'', ''--noflush'', path] data s2 = Some (Inr (rc, out, err), s3)"
    and a: "(if rc \<noteq> 0 then ret (Some ''iptables-restore'') else after_load run txn (ret None)) s3 = Some (Inr None, st')"
    using r unfolding andthen_Some_iff [of "sh_in run [''iptables-restore'', ''--noflush'', path] data"] by auto
  have rc: "rc = 0" using a by (auto simp: ret_def split: if_splits)
  then have "after_load run txn (ret None) s3 = Some (Inr None, st')" using a by simp
  then obtain b txn' where "commit run txn s3 = (b, txn', st')"
    by (auto simp: after_load_def andthen_def commit_act_def ret_def split: prod.splits)
  moreover have "run [''iptables-restore'', ''--noflush'', path] data (kernel s2) = (Proc 0 out err, kernel s3)"
    using sh3 rc by (auto simp: sh_in_def split: prod.splits proc_out.splits)
  ultimately show ?thesis
    using keepsD [OF flush_chain_ipt [OF ipt] f] keepsD [OF sh_in_ipt [OF ipt] sh3] by fastforce
qed

text \<open>A commit, complete or not, never touches a desired set.\<close>

lemma destroy_other:
  assumes "ipset_ok run sets" "destroy_best_effort run n st = (b, st')" "m \<noteq> n"
  shows "sets (kernel st') m = sets (kernel st) m"
  using destroy_law(2) [OF assms(1,2)] assms(3) by simp

lemma gc_loop_other:
  assumes "ipset_ok run sets" "gc_loop run d ns o1 st = (b, st')" "m \<in> set d"
  shows "sets (kernel st') m = sets (kernel st) m"
  using assms(2)
proof (induction ns arbitrary: o1 st)
  case (Cons n ns)
  obtain x s where x: "destroy_best_effort run n st = (x, s)" by fastforce
  show ?case
  proof (cases "is_stable_managed_name n \<and> n \<notin> set d")
    case True
    then have "gc_loop run d ns (o1 \<and> x) s = (b, st')" "m \<noteq> n" using Cons.prems x assms(3) by auto
    then show ?thesis using Cons.IH destroy_other [OF assms(1) x] by simp
  next
    case False
    then have "gc_loop run d ns o1 st = (b, st')" using Cons.prems by (simp only: gc_loop.simps if_False)
    then show ?thesis using Cons.IH by simp
  qed
qed simp

lemma destroy_stages_other:
  assumes "ipset_ok run sets" "destroy_stages run ws o1 st = (b, st')" "m \<notin> stage_of ` set ws"
  shows "sets (kernel st') m = sets (kernel st) m"
  using assms(2,3)
proof (induction ws arbitrary: o1 st)
  case (Cons w ws)
  obtain x s where x: "destroy_best_effort run (stage_of w) st = (x, s)" by fastforce
  then have "destroy_stages run ws (o1 \<and> x) s = (b, st')" using Cons.prems by simp
  then show ?case using Cons.IH Cons.prems(2) destroy_other [OF assms(1) x] by simp
qed simp


lemma commit_keeps_desired:
  assumes ok: "ipset_ok run sets" and load: "load_law run chain" and c: "commit run txn st = (b, txn', st')"
    and n: "n \<in> set (desired_names txn)" "strip n = n" "n \<noteq> []" "n \<notin> stage_of ` set (swaps txn)"
  shows "sets (kernel st') n = sets (kernel st) n \<and> chain (kernel st') = chain (kernel st)"
proof (cases "committed txn \<or> rolled_back txn")
  case True
  then show ?thesis using c by (auto simp: commit_def split: if_splits)
next
  case False
  obtain b1 s1 where d: "destroy_stages run (swaps txn) True st = (b1, s1)" by fastforce
  obtain b2 s2 where g: "gc run (desired_names txn) s1 = (b2, s2)" by fastforce
  have k: "kernel st' = kernel s2" using c False d g
    by (auto simp: commit_def release_lock_def split: if_splits)
  obtain r s where ln: "list_names run s1 = (r, s)" by fastforce
  have "sets (kernel s2) n = sets (kernel s1) n \<and> chain (kernel s2) = chain (kernel s1)"
  proof (cases r)
    case (Inl e)
    then show ?thesis using g ln list_names_law(1) [OF ok ln] list_chain [OF load ln] by (simp add: gc_def Let_def)
  next
    case (Inr actual)
    then have loop: "gc_loop run (strip_all (desired_names txn)) (sorted_set actual) True s = (b2, s2)"
      using g ln by (simp add: gc_def Let_def)
    have "n \<in> strip ` set (desired_names txn)" using n(1,2) by (metis image_eqI)
    then have "n \<in> set (strip_all (desired_names txn))" using n(3) by (simp add: strip_all_def)
    then show ?thesis
      using gc_loop_other [OF ok loop] gc_loop_chain [OF load loop] list_names_law(1) [OF ok ln] list_chain [OF load ln]
      by simp
  qed
  then show ?thesis using k destroy_stages_other [OF ok d n(4)] destroy_stages_chain [OF load d] by simp
qed

lemma stable_name_plain:
  assumes "hashes_ok h" "stable_name h ot oid p = Inr n" "p \<in> set [''src'', ''dst'', ''lan'']"
  shows "strip n = n \<and> n \<noteq> []"
proof -
  have lits: "lower (strip ''src'') = ''src''" "lower (strip ''dst'') = ''dst''" "lower (strip ''lan'') = ''lan''"
    by code_simp+
  have pre: "list_all (\<lambda>c. \<not> py_space c) ''ovpnfw_''" "list_all (\<lambda>c. \<not> py_space c) ''ovpnpeer_''"
    "list_all (\<lambda>c. \<not> py_space c) ''ovpntag_''" "list_all (\<lambda>c. \<not> py_space c) ''sdl''"
    by code_simp+
  have hex: "list_all (\<lambda>c. \<not> py_space c) (take 20 (md5_hex h x))" for x
    using assms(1) by (auto simp: hashes_ok_def list_all_iff dest: in_set_takeD)
  have "list_all (\<lambda>c. \<not> py_space c) n \<and> n \<noteq> []"
    using assms(2,3) hex pre lits
    by (auto simp: stable_name_def Let_def rbind_Inr_iff split: if_splits)
  then show ?thesis by (auto simp: list_all_iff intro!: strip_eqI)
qed

definition plain_spec :: "ipset_spec \<Rightarrow> bool" where
  "plain_spec s \<longleftrightarrow> strip (is_name s) = is_name s \<and> is_name s \<noteq> []"

lemma spec_plain:
  "hashes_ok h \<Longrightarrow> spec h ot oid p es = Inr s \<Longrightarrow> p \<in> set [''src'', ''dst'', ''lan''] \<Longrightarrow> plain_spec s"
  using spec_InrD stable_name_plain unfolding plain_spec_def by blast

lemma desired_parts_plain:
  assumes h: "hashes_ok h"
  shows "desired_source h seen r = Inr (src, seen') \<Longrightarrow> s \<in> set src \<Longrightarrow> plain_spec s"
    and "desired_dest h r = Inr dst \<Longrightarrow> s \<in> set dst \<Longrightarrow> plain_spec s"
    and "desired_peer h pid cln ex = Inr ps \<Longrightarrow> s \<in> set ps \<Longrightarrow> plain_spec s"
  by (auto simp: desired_source_def desired_dest_def desired_peer_def rbind_Inr_iff Let_def
      dest!: spec_plain [OF h] split: if_splits)

lemma desired_names_plain:
  assumes "hashes_ok h" "desired_ipsets h seen es = Inr specs" "s \<in> set specs"
  shows "plain_spec s"
  using assms
proof (induction h seen es arbitrary: specs rule: desired_ipsets.induct)
  case (2 h seen p r es)
  then obtain src seen' dst rest where
    d: "desired_source h seen r = Inr (src, seen')" "desired_dest h r = Inr dst"
      "desired_ipsets h seen' es = Inr rest" "specs = src @ dst @ rest"
    by (auto simp: rbind_Inr_iff)
  then consider "s \<in> set src" | "s \<in> set dst" | "s \<in> set rest" using 2(4) by auto
  then show ?case using desired_parts_plain(1,2) [OF 2(2)] d 2(1,2) by cases blast+
next
  case (3 h seen p pid cln ex es)
  then obtain ps rest where
    d: "desired_peer h pid cln ex = Inr ps" "desired_ipsets h seen es = Inr rest" "specs = ps @ rest"
    by (auto simp: rbind_Inr_iff)
  then consider "s \<in> set ps" | "s \<in> set rest" using 3(4) by auto
  then show ?case using desired_parts_plain(3) [OF 3(2)] d 3(1,2) by cases blast+
qed simp

lemma refresh_installs_law:
  assumes "ipset_ok run sets" "ipt_frame_law run sets" "load_law run chain" "hashes_ok h" "\<not> on_nt env"
    and "refresh_vpn_forward_only env run h rules peers st = Some (Inr True, st')"
    and "\<forall>lines. merged_parts h (fst (build_merged_forward_entries rules peers)) = Inr lines \<longrightarrow>
      list_all one_line (map (join '' '') lines)"
  shows "\<exists>specs lines. desired_ipsets_for_merged_forward h (fst (build_merged_forward_entries rules peers)) = Inr specs \<and>
      merged_parts h (fst (build_merged_forward_entries rules peers)) = Inr lines \<and>
      chain (kernel st') = map (line_args \<circ> join '' '') lines \<and>
      (\<forall>s\<in>set specs. sets (kernel st') (is_name s) = Some (set (is_entries s))) \<and> distinct (map is_name specs)"
proof -
  let ?m = "fst (build_merged_forward_entries rules peers)"
  obtain saved s where cont: "(case saved of None \<Rightarrow> ret False | Some lines \<Rightarrow> forward_transaction env run h rules peers
              (restore_chain_rule_lines run chain_name lines) (ret None)) s = Some (Inr True, st')"
    using assms(5,6) unfolding refresh_vpn_forward_only_def by (auto simp: andthen_Some_iff)
  obtain old where t: "forward_transaction env run h rules peers (restore_chain_rule_lines run chain_name old) (ret None) s = Some (Inr True, st')"
    using cont by (cases saved) (auto simp: ret_def)
  note keep = restore_chain_ipt [OF assms(2), of chain_name old]
  have nofail: False if "kernel_rollback_and_fail run txn (restore_chain_rule_lines run chain_name old) z = Some (Inr True, st')" for txn z
    using kernel_rollback_cases [OF assms(1) keep that, of True] by simp
  obtain specs where specs: "desired_ipsets_for_merged_forward h ?m = Inr specs"
    using t nofail by (cases "desired_ipsets_for_merged_forward h ?m")
      (auto simp: forward_transaction_def Let_def throw_def split: if_splits)
  obtain txn s1 where rec: "reconcile run h specs s = Some (Inr txn, s1)"
    and l: "load_phase env run h ?m txn (restore_chain_rule_lines run chain_name old) (ret None) s1 = Some (Inr True, st')"
    using t specs nofail
    by (fastforce simp: forward_transaction_def Let_def andthen_def reconcile_act_def throw_def
        split: option.splits prod.splits sum.splits if_splits)
  obtain lines where lines: "merged_parts h ?m = Inr lines"
    using l nofail by (cases "merged_parts h ?m") (auto simp: load_phase_def generate_merged_rules_text_def)
  obtain path where path: "tmp_path env = Inr path"
    using l lines nofail by (cases "tmp_path env") (auto simp: load_phase_def generate_merged_rules_text_def)
  let ?text = "restore_text (map (join '' '') lines)"
  have lr: "load_rules env run path ?text (after_load run txn (ret None)) s1 = Some (Inr None, st')"
    using l lines path nofail
    by (fastforce simp: load_phase_def generate_merged_rules_text_def andthen_Some_iff ret_def split: option.splits)
  obtain s2 s3 out err txn' b where fl: "ipt_frame sets s1 s2"
    and ld: "run [''iptables-restore'', ''--noflush'', path] ?text (kernel s2) = (Proc 0 out err, kernel s3)"
    and fr3: "ipt_frame sets s2 s3"
    and cm: "commit run txn s3 = (b, txn', st')"
    using load_rules_True [OF assms(2) lr] by metis
  have chain3: "chain (kernel s3) = map line_args (map (join '' '') lines)"
    using assms(3,7) ld lines unfolding load_law_def by blast
  obtain ws where txn: "txn = \<lparr>desired_names = map is_name specs, swaps = ws, committed = False,
      rolled_back = False, lock_fd = True\<rparr>"
    and sw: "swapped (sets (kernel s)) (\<lambda>n. case spec_entries specs n of Some X \<Rightarrow> X | None \<Rightarrow> {}) ws (sets (kernel s1))"
    and names: "map stable_of ws = map is_name specs"
    and stages: "\<forall>w\<in>set ws. \<not> is_stable_managed_name (stage_of w)"
    and man: "\<forall>s\<in>set specs. is_stable_managed_name (is_name s)"
    using reconcile_Inr_law [OF assms(1) rec] by metis
  have dis: "distinct (map is_name specs)"
    using swap_names_distinct [of ws] sw names by (simp add: swapped_def)
  have one: "sets (kernel st') (is_name x) = Some (set (is_entries x)) \<and> chain (kernel st') = chain (kernel s3)"
    if x: "x \<in> set specs" for x
  proof -
    have "plain_spec x"
      using desired_names_plain [OF assms(4) _ x] specs by (simp add: desired_ipsets_for_merged_forward_def)
    moreover have "is_name x \<notin> stage_of ` set ws" using man stages x by auto
    ultimately have c: "sets (kernel st') (is_name x) = sets (kernel s3) (is_name x) \<and> chain (kernel st') = chain (kernel s3)"
      using commit_keeps_desired [OF assms(1,3) cm, of "is_name x"] x txn by (simp add: plain_spec_def)
    have "is_name x \<in> stable_of ` set ws" using arg_cong [OF names, of set] x by auto
    then have "sets (kernel s1) (is_name x) = Some (case spec_entries specs (is_name x) of Some X \<Rightarrow> X | None \<Rightarrow> {})"
      using sw by (auto simp: swapped_def in_effect_def)
    moreover have "spec_entries specs (is_name x) = Some (set (is_entries x))" using x dis
      by (auto simp: spec_entries_def comp_def intro!: map_of_is_SomeI)
    ultimately have "sets (kernel s1) (is_name x) = Some (set (is_entries x))" by simp
    then show ?thesis using c fl fr3 by (simp add: ipt_frame_def)
  qed
  have "chain (kernel st') = chain (kernel s3)" using commit_chain [OF assms(3) cm] .
  then show ?thesis using specs lines one chain3 dis by auto
qed

text \<open>C5. A refresh that succeeds has installed the plan: when \<open>refresh_vpn_forward_only\<close> returns
  \<open>True\<close>, the chain consists of exactly the generated lines in order, and every planned ipset
  exists with exactly its planned entries, even if the garbage collection of the commit failed.\<close>

theorem refresh_installs_plan:
  assumes "ipset_ok run sets" "ipt_frame_law run sets" "load_law run chain" "hashes_ok h" "\<not> on_nt env"
    and "refresh_vpn_forward_only env run h rules peers st = Some (Inr True, st')"
    and "\<forall>lines. merged_parts h (fst (build_merged_forward_entries rules peers)) = Inr lines \<longrightarrow>
      list_all one_line (map (join '' '') lines)"
  shows "\<exists>specs lines. desired_ipsets_for_merged_forward h (fst (build_merged_forward_entries rules peers)) = Inr specs \<and>
      merged_parts h (fst (build_merged_forward_entries rules peers)) = Inr lines \<and>
      chain (kernel st') = map (line_args \<circ> join '' '') lines \<and>
      (\<forall>s\<in>set specs. sets (kernel st') (is_name s) = Some (set (is_entries s)))"
  using refresh_installs_law [OF assms] by blast


section \<open>A concrete host\<close>

text \<open>Ipsets as in \<open>ref_run\<close>, with the rules of the chain as lists of plain words; \<open>fail_load\<close> makes
  every \<open>iptables-restore --noflush\<close> fail.\<close>

record ref_kernel =
  rk_sets :: ref_host
  rk_chain :: "string list list"

definition plain_word :: "string \<Rightarrow> bool" where
  "plain_word w \<longleftrightarrow> w \<noteq> [] \<and> list_all (\<lambda>c. \<not> py_space c \<and> c \<notin> {CHR 0x22, CHR 0x27, CHR 0x5C}) w"

definition plain_rule :: "string list \<Rightarrow> bool" where
  "plain_rule a \<longleftrightarrow> a \<noteq> [] \<and> list_all plain_word a"

definition rule_text :: "string list \<Rightarrow> string" where
  "rule_text a = join '' '' (''-A'' # chain_name # a)"

definition table_text :: "string list list \<Rightarrow> string" where
  "table_text c = concat (map (\<lambda>a. rule_text a @ [CHR 0x0A]) c)"

definition good_rules :: "string list list \<Rightarrow> string list list" where
  "good_rules c = filter plain_rule c"

definition loaded :: "string \<Rightarrow> string list list" where
  "loaded data = map line_args (drop 2 (butlast (butlast (split_on (CHR 0x0A) data))))"

definition ref_iptables :: "bool \<Rightarrow> string list \<Rightarrow> string \<Rightarrow> ref_kernel \<Rightarrow> proc_out \<times> ref_kernel" where
  "ref_iptables fail_load args inp k =
     (if args = [''iptables'', ''-S'', chain_name] \<or> args = [''iptables-save'', ''-t'', ''filter'']
        then (if list_all plain_rule (rk_chain k) then (Proc 0 (table_text (rk_chain k)) [], k) else (ProcExc, k))
      else if args = [''iptables'', ''-F'', chain_name] then (Proc 0 [] [], k\<lparr>rk_chain := []\<rparr>)
      else if take 3 args = [''iptables'', ''-A'', chain_name]
        then (if plain_rule (drop 3 args) then (Proc 0 [] [], k\<lparr>rk_chain := rk_chain k @ [drop 3 args]\<rparr>) else (Proc 1 [] [], k))
      else if args = [''iptables-restore''] then (Proc 0 [] [], k\<lparr>rk_chain := map line_args (splitlines inp)\<rparr>)
      else if take 2 args = [''iptables-restore'', ''--noflush'']
        then (if fail_load \<or> \<not> list_all plain_rule (loaded inp) then (Proc 1 [] ''failed'', k)
              else (Proc 0 [] [], k\<lparr>rk_chain := loaded inp\<rparr>))
      else (Proc 1 [] [], k))"

definition ref_kernel_run :: "bool \<Rightarrow> ref_kernel runner" where
  "ref_kernel_run fail_load args inp k =
     (if args \<noteq> [] \<and> hd args = ''ipset''
      then (let (r, h) = ref_run args inp (rk_sets k) in (r, k\<lparr>rk_sets := h\<rparr>))
      else ref_iptables fail_load args inp k)"

definition ref_kernel_sets :: "ref_kernel \<Rightarrow> string \<Rightarrow> string set option" where
  "ref_kernel_sets k = ref_sets (rk_sets k)"

lemma ref_kernel_lift:
  "ref_kernel_run fl (''ipset'' # xs) inp k = (r, k') \<Longrightarrow> ref_run (''ipset'' # xs) inp (rk_sets k) = (r, rk_sets k')"
  by (auto simp: ref_kernel_run_def Let_def split: prod.splits)

lemma ref_kernel_list: "list_law (ref_kernel_run fl) ref_kernel_sets"
  using ref_list_law unfolding list_law_def ref_kernel_sets_def by (blast dest: ref_kernel_lift)

lemma ref_kernel_create: "create_law (ref_kernel_run fl) ref_kernel_sets"
  unfolding create_law_def
proof (intro allI impI)
  fix n ty fam x k r k'
  assume "ref_kernel_run fl (create_args n ty fam x) [] k = (r, k')"
  then have "ref_run (create_args n ty fam x) [] (rk_sets k) = (r, rk_sets k')"
    unfolding create_args_def append_Cons by (rule ref_kernel_lift)
  from ref_create_law [unfolded create_law_def, rule_format, OF this]
  show "if exit0 r then (x \<or> ref_kernel_sets k n = None) \<and> ref_kernel_sets k' =
      (if ref_kernel_sets k n = None then (ref_kernel_sets k)(n \<mapsto> {}) else ref_kernel_sets k)
    else ref_kernel_sets k' = ref_kernel_sets k"
    unfolding ref_kernel_sets_def .
qed

lemma ref_kernel_add: "add_law (ref_kernel_run fl) ref_kernel_sets"
  unfolding add_law_def ref_kernel_sets_def
  by (intro allI impI) (rule ref_add_law [unfolded add_law_def, rule_format], erule ref_kernel_lift)

lemma ref_kernel_swap: "swap_law (ref_kernel_run fl) ref_kernel_sets"
  unfolding swap_law_def ref_kernel_sets_def
  by (intro allI impI) (rule ref_swap_law [unfolded swap_law_def, rule_format], erule ref_kernel_lift)

lemma ref_kernel_destroy: "destroy_law (ref_kernel_run fl) ref_kernel_sets"
  unfolding destroy_law_def ref_kernel_sets_def
  by (intro allI impI) (rule ref_destroy_law [unfolded destroy_law_def, rule_format], erule ref_kernel_lift)

lemma ref_kernel_ipset_ok: "ipset_ok (ref_kernel_run fl) ref_kernel_sets"
  by (simp add: ipset_ok_def ref_kernel_list ref_kernel_create ref_kernel_add ref_kernel_swap ref_kernel_destroy)

lemma ref_iptables_sets: "rk_sets (snd (ref_iptables fl args inp k)) = rk_sets k"
  by (simp add: ref_iptables_def)

lemma ref_kernel_frame: "ipt_frame_law (ref_kernel_run fl) ref_kernel_sets"
  unfolding ipt_frame_law_def
proof (intro allI impI)
  fix args inp k r k'
  assume "iptables_cmd args" and r: "ref_kernel_run fl args inp k = (r, k')"
  then have "hd args \<noteq> ''ipset''" by (auto simp: iptables_cmd_def)
  then have "ref_iptables fl args inp k = (r, k')" using r by (simp only: ref_kernel_run_def simp_thms if_False)
  then show "ref_kernel_sets k' = ref_kernel_sets k"
    using ref_iptables_sets [of fl args inp k] by (simp add: ref_kernel_sets_def)
qed

lemma shlex_ws_space: "shlex_ws c \<Longrightarrow> py_space c"
  unfolding shlex_ws_def by (elim disjE) (simp_all add: py_space_def)

lemma plain_word_no_ws: "plain_word w \<Longrightarrow> list_all (\<lambda>c. \<not> shlex_ws c \<and> c \<notin> {CHR 0x22, CHR 0x27, CHR 0x5C}) w"
  unfolding plain_word_def list_all_iff using shlex_ws_space by blast

lemma shlex_word:
  "list_all (\<lambda>c. \<not> shlex_ws c \<and> c \<notin> {CHR 0x22, CHR 0x27, CHR 0x5C}) w \<Longrightarrow>
   shlex Plain (Some acc) (w @ s) = shlex Plain (Some (rev w @ acc)) s"
  by (induction w arbitrary: acc) (auto simp: tok_push_def)

lemma shlex_first:
  "plain_word w \<Longrightarrow> shlex Plain None (w @ s) = shlex Plain (Some (rev w)) s"
  using shlex_word [of "tl w" "[hd w]" s] plain_word_no_ws [of w]
  by (cases w) (auto simp: plain_word_def tok_push_def)

lemma shlex_join: "list_all plain_word ws \<Longrightarrow> shlex_split (join '' '' ws) = Some ws"
proof (induction "'' ''" ws rule: join.induct)
  case (2 w)
  then show ?case using shlex_first [of w "[]"] by (simp add: shlex_split_def)
next
  case (3 w v ws)
  then show ?case using shlex_first [of w "'' '' @ join '' '' (v # ws)"]
    by (simp add: shlex_split_def shlex_ws_def)
qed (simp add: shlex_split_def)

lemma rule_text_split: "plain_rule a \<Longrightarrow> shlex_split (rule_text a) = Some (''-A'' # chain_name # a)"
proof -
  have "plain_word ''-A''" "plain_word chain_name" by code_simp+
  then show "plain_rule a \<Longrightarrow> ?thesis" unfolding rule_text_def by (intro shlex_join) (simp add: plain_rule_def)
qed


text \<open>Lines of the listing: words joined by one blank have no line break and nothing to strip.\<close>

lemma rule_text_chars:
  assumes "plain_rule a" "c \<in> set (rule_text a)"
  shows "\<not> line_break c \<and> c \<noteq> CHR 0x0D"
proof -
  have lits: "list_all (\<lambda>c. \<not> line_break c \<and> c \<noteq> CHR 0x0D) ('' '' @ ''-A'' @ chain_name)" by code_simp
  consider "c \<in> set ('' '' @ ''-A'' @ chain_name)" | w where "w \<in> set a" "c \<in> set w"
    using join_chars [of c "'' ''" "''-A'' # chain_name # a"] assms(2) by (auto simp: rule_text_def)
  then show ?thesis
  proof cases
    case 1
    then show ?thesis using lits unfolding list_all_iff by blast
  next
    case (2 w)
    then have "\<not> py_space c" using assms(1) by (auto simp: plain_rule_def plain_word_def list_all_iff)
    then show ?thesis by (rule plain_char)
  qed
qed

lemma lines_acc_line:
  "\<forall>c\<in>set w. \<not> line_break c \<and> c \<noteq> CHR 0x0D \<Longrightarrow> lines_acc acc (w @ CHR 0x0A # s) = (rev acc @ w) # lines_acc [] s"
proof (induction w arbitrary: acc)
  case Nil
  then show ?case by (cases s) (auto simp: line_break_nl)
next
  case (Cons c w)
  obtain d t where dt: "w @ CHR 0x0A # s = d # t" by (cases w) auto
  then show ?case using Cons by simp
qed

lemma splitlines_table: "list_all plain_rule c \<Longrightarrow> splitlines (table_text c) = map rule_text c"
  unfolding splitlines_def table_text_def
  by (induction c) (auto simp: lines_acc_line rule_text_chars)

lemma rule_text_strip: "plain_rule a \<Longrightarrow> strip (rule_text a) = rule_text a \<and> starts_with (rule_text a) (''-A '' @ chain_name @ '' '')"
proof -
  assume p: "plain_rule a"
  have l: "last (join '' '' (x # ws)) = last (last (x # ws))" if "\<forall>w\<in>set (x # ws). w \<noteq> []" for x ws
    using that by (induction "'' ''" "x # ws" arbitrary: x ws rule: join.induct) (auto simp: join_nonempty)
  have words: "\<forall>w\<in>set (''-A'' # chain_name # a). w \<noteq> []" and ne: "a \<noteq> []"
    using p by (auto simp: plain_rule_def plain_word_def list_all_iff chain_name_def)
  have last: "last (rule_text a) = last (last a)" using l [OF words] ne by (simp add: rule_text_def)
  have "plain_word (last a)" using p ne by (simp add: plain_rule_def list_all_iff)
  then have "\<not> py_space (last (rule_text a))" using last by (simp add: plain_word_def list_all_iff)
  moreover have "\<not> py_space (hd (rule_text a))" using ne by (cases a) (simp_all add: rule_text_def py_space_def)
  moreover have "rule_text a \<noteq> []" by (simp add: rule_text_def)
  ultimately have "strip (rule_text a) = rule_text a" by (intro strip_eqI)
  moreover have "starts_with (rule_text a) (''-A '' @ chain_name @ '' '')"
    using ne by (cases a) (simp_all add: rule_text_def starts_with_def)
  ultimately show ?thesis ..
qed

lemma table_lines:
  "list_all plain_rule c \<Longrightarrow> map shlex_split (chain_lines (table_text c)) = map (\<lambda>a. Some (''-A'' # chain_name # a)) c"
proof -
  assume c: "list_all plain_rule c"
  have "chain_lines (table_text c) = map rule_text c"
    unfolding chain_lines_def splitlines_table [OF c] using c rule_text_strip by (induction c) auto
  then show ?thesis using c rule_text_split by (simp add: list_all_iff)
qed


definition ref_chain :: "ref_kernel \<Rightarrow> string list list" where
  "ref_chain k = good_rules (rk_chain k)"

lemma good_rules_id: "list_all plain_rule c \<Longrightarrow> good_rules c = c"
  by (induction c) (auto simp: good_rules_def)

lemma ref_kernel_run_ipt: "hd args \<noteq> ''ipset'' \<Longrightarrow> ref_kernel_run fl args inp k = ref_iptables fl args inp k"
  by (simp only: ref_kernel_run_def simp_thms if_False)

lemma ref_iptables_steps:
  "ref_iptables fl [''iptables'', ''-S'', chain_name] inp k =
     (if list_all plain_rule (rk_chain k) then (Proc 0 (table_text (rk_chain k)) [], k) else (ProcExc, k))"
  "ref_iptables fl [''iptables-save'', ''-t'', ''filter''] inp k =
     (if list_all plain_rule (rk_chain k) then (Proc 0 (table_text (rk_chain k)) [], k) else (ProcExc, k))"
  "ref_iptables fl [''iptables'', ''-F'', chain_name] inp k = (Proc 0 [] [], k\<lparr>rk_chain := []\<rparr>)"
  "ref_iptables fl (''iptables'' # ''-A'' # chain_name # a) inp k =
     (if plain_rule a then (Proc 0 [] [], k\<lparr>rk_chain := rk_chain k @ [a]\<rparr>) else (Proc 1 [] [], k))"
  "ref_iptables fl [''iptables-restore''] inp k = (Proc 0 [] [], k\<lparr>rk_chain := map line_args (splitlines inp)\<rparr>)"
  "ref_iptables fl [''iptables-restore'', ''--noflush'', path] inp k =
     (if fl \<or> \<not> list_all plain_rule (loaded inp) then (Proc 1 [] ''failed'', k)
      else (Proc 0 [] [], k\<lparr>rk_chain := loaded inp\<rparr>))"
  by (simp_all add: ref_iptables_def)

lemma ref_kernel_chain: "chain_law (ref_kernel_run fl) ref_chain"
  unfolding chain_law_def
proof (intro conjI allI impI)
  fix k r k'
  assume "ref_kernel_run fl [''iptables'', ''-S'', chain_name] [] k = (r, k')"
  then have r: "(if list_all plain_rule (rk_chain k) then (Proc 0 (table_text (rk_chain k)) [], k) else (ProcExc, k)) = (r, k')"
    by (simp add: ref_kernel_run_ipt ref_iptables_steps)
  then show "ref_chain k' = ref_chain k" by (auto split: if_splits)
  show "map shlex_split (chain_lines out) = map (\<lambda>a. Some (''-A'' # chain_name # a)) (ref_chain k)"
    if "r = Proc 0 out err" for out err
    using r that table_lines by (auto simp: ref_chain_def good_rules_id split: if_splits)
  show "ref_chain k = []" if "r = Proc rc out err" "rc \<noteq> 0" for rc out err using r that by (auto split: if_splits)
next
  fix k rc out err k'
  assume "ref_kernel_run fl [''iptables'', ''-F'', chain_name] [] k = (Proc rc out err, k')"
  then show "ref_chain k' = (if rc = 0 then [] else ref_chain k)"
    by (auto simp: ref_kernel_run_ipt ref_iptables_steps ref_chain_def good_rules_def)
next
  fix k a out err k'
  assume "ref_kernel_run fl (''iptables'' # ''-A'' # chain_name # a) [] k = (Proc 0 out err, k')"
  then show "ref_chain k' = ref_chain k @ [a]"
    by (auto simp: ref_kernel_run_ipt ref_iptables_steps ref_chain_def good_rules_def split: if_splits)
next
  fix k show "[] \<notin> set (ref_chain k)" by (auto simp: ref_chain_def good_rules_def plain_rule_def)
qed

lemma loaded_text:
  assumes "list_all one_line ls"
  shows "loaded (restore_text ls) = map line_args ls"
proof -
  have lits: "one_line ''*filter''" "one_line ('':'' @ chain_name @ '' - [0:0]'')" "one_line ''COMMIT''" "one_line []"
    by code_simp+
  have "split_on (CHR 0x0A) (restore_text ls) =
      [''*filter'', '':'' @ chain_name @ '' - [0:0]''] @ ls @ [''COMMIT'', []]"
    unfolding restore_text_def using assms lits
    by (intro split_on_join) (auto simp: list_all_iff one_line_def)
  then show ?thesis by (simp add: loaded_def butlast_append)
qed

lemma ref_kernel_load: "load_law (ref_kernel_run fl) ref_chain"
  unfolding load_law_def
proof (intro conjI allI impI)
  fix k path ls out err k'
  assume "ref_kernel_run fl [''iptables-restore'', ''--noflush'', path] (restore_text ls) k = (Proc 0 out err, k')"
    and "list_all one_line ls"
  then show "ref_chain k' = map line_args ls"
    by (auto simp: ref_kernel_run_ipt ref_iptables_steps ref_chain_def loaded_text good_rules_id split: if_splits)
next
  fix args inp k r k'
  assume "args \<noteq> []" "hd args = ''ipset''" "ref_kernel_run fl args inp k = (r, k')"
  then show "ref_chain k' = ref_chain k"
    by (auto simp: ref_kernel_run_def Let_def ref_chain_def split: prod.splits)
qed

definition ref_reads :: "string \<Rightarrow> string list list" where
  "ref_reads out = good_rules (map line_args (splitlines out))"

lemma ref_reads_table: "list_all plain_rule c \<Longrightarrow> ref_reads (table_text c) = good_rules c"
proof -
  assume c: "list_all plain_rule c"
  then have "map line_args (map rule_text c) = c"
    by (induction c) (simp_all add: line_args_def rule_text_split)
  then show ?thesis using c by (simp add: ref_reads_def splitlines_table)
qed

lemma ref_kernel_table: "table_law (ref_kernel_run fl) ref_reads ref_chain"
proof -
  have "ref_chain k' = ref_chain k \<and> (\<forall>out err. r = Proc 0 out err \<longrightarrow> ref_reads out = ref_chain k)"
    if "ref_kernel_run fl [''iptables-save'', ''-t'', ''filter''] [] k = (r, k')" for k r k'
    using that ref_reads_table
    by (auto simp: ref_kernel_run_ipt ref_iptables_steps ref_chain_def split: if_splits)
  moreover have "ref_chain k' = ref_reads data"
    if "ref_kernel_run fl [''iptables-restore''] data k = (Proc 0 out err, k')" for k data out err k'
    using that by (auto simp: ref_kernel_run_ipt ref_iptables_steps ref_chain_def ref_reads_def)
  ultimately show ?thesis unfolding table_law_def by blast
qed

section \<open>Witnesses\<close>

definition demo_env :: "ref_kernel env" where
  "demo_env = \<lparr>on_nt = False, inst_raw = ''server'', cfg_subnet = Inr ''10.8.0.0/24'', sha256_hex = id,
     tmp_path = Inr ''/tmp/rules'', tmp_write = Inr (), set_ip_forward = id\<rparr>"

definition demo_kernel :: "ref_kernel mgr" where
  "demo_kernel = \<lparr>kernel = \<lparr>rk_sets = [(''ovpnfw_sOld'', [''10.9.0.0/24''])], rk_chain = [[''-j'', ''DROP'']]\<rparr>,
     lock_held = False, lock_file_ok = True, uuid_ctr = 0, criticals = 0\<rparr>"

definition demo_hex :: hashes where
  "demo_hex = \<lparr>md5_hex = filter (\<lambda>c. \<not> py_space c), sha1_hex = id, uuid_hex = dec_of_nat\<rparr>"

definition demo_plain_rules :: "rule list" where
  "demo_plain_rules = [\<lparr>rule_id = ''r1'', owner_type = OUser, owner_id = ''alice'', deployment_target = Center,
     vpn_instance = ''server'', action = AAccept, source_subnet = None, source_ips = Some [''10.8.0.4'', ''10.8.0.5''],
     dest_ip = Some ''192.168.1.10'', dest_port = Some ''443'', protocol = ''tcp'', priority = 10, enabled = True,
     description = None, r_created_at = [], r_updated_at = []\<rparr>]"

lemma act_result: "(case x of Some (Inr b, s) \<Rightarrow> b = v \<and> Q s | _ \<Rightarrow> False) \<Longrightarrow> \<exists>s. x = Some (Inr v, s) \<and> Q s"
  by (cases x; cases "fst (the x)"; cases "the x") auto

lemma ref_flush_never_fails: "\<not> flush_fails (ref_kernel_run fl) ref_chain rest"
  by (auto simp: flush_fails_def ref_kernel_run_ipt ref_iptables_steps)

theorem failed_refresh_restores_witness:
  "case refresh_vpn_forward_only demo_env (ref_kernel_run True) demo_hex demo_plain_rules [] demo_kernel of
     Some (Inr b, st') \<Rightarrow> \<not> b \<and> ref_chain (kernel st') = [[''-j'', ''DROP'']]
   | _ \<Rightarrow> False"
proof -
  have b: "case refresh_vpn_forward_only demo_env (ref_kernel_run True) demo_hex demo_plain_rules [] demo_kernel of
     Some (Inr b, s) \<Rightarrow> b = False \<and> criticals s = criticals demo_kernel | _ \<Rightarrow> False"
    by code_simp
  obtain s where s: "refresh_vpn_forward_only demo_env (ref_kernel_run True) demo_hex demo_plain_rules [] demo_kernel = Some (Inr False, s)"
    and c: "criticals s = criticals demo_kernel" using act_result [OF b] by blast
  have "ref_chain (kernel demo_kernel) = [[''-j'', ''DROP'']]" by code_simp
  then show ?thesis
    using failed_refresh_restores [OF ref_kernel_ipset_ok ref_kernel_frame ref_kernel_chain s c] s ref_flush_never_fails by simp
qed

text \<open>The exception is real: on a host where another process holds the lock of xtables, so that every flush of the chain
  exits with 4, a failed refresh reports \<open>False\<close>, logs nothing critical and leaves the old rules twice in the chain.\<close>

definition locked_flush :: "ref_kernel runner" where
  "locked_flush args inp k =
     (if args = [''iptables'', ''-F'', chain_name] then (Proc 4 [] ''xtables lock'', k) else ref_kernel_run True args inp k)"

lemma failed_flush_doubles:
  "case refresh_vpn_forward_only demo_env locked_flush demo_hex demo_plain_rules [] demo_kernel of
     Some (Inr b, s) \<Rightarrow> b = False \<and> criticals s = criticals demo_kernel \<and>
       ref_chain (kernel s) = [[''-j'', ''DROP''], [''-j'', ''DROP'']]
   | _ \<Rightarrow> False"
  by code_simp

theorem failed_rebuild_restores_witness:
  "case rebuild_rules demo_env (ref_kernel_run True) demo_hex demo_plain_rules [] demo_kernel of
     Some (Inr b, st') \<Rightarrow> \<not> b \<and> ref_chain (kernel st') = [[''-j'', ''DROP'']]
   | _ \<Rightarrow> False"
proof -
  have b: "case rebuild_rules demo_env (ref_kernel_run True) demo_hex demo_plain_rules [] demo_kernel of
     Some (Inr b, s) \<Rightarrow> b = False \<and> criticals s = criticals demo_kernel | _ \<Rightarrow> False"
    by code_simp
  obtain s where s: "rebuild_rules demo_env (ref_kernel_run True) demo_hex demo_plain_rules [] demo_kernel = Some (Inr False, s)"
    and c: "criticals s = criticals demo_kernel" using act_result [OF b] by blast
  have ipf: "ip_forward_law demo_env ref_kernel_sets" by (simp add: ip_forward_law_def demo_env_def)
  have "ref_chain (kernel demo_kernel) = [[''-j'', ''DROP'']]" by code_simp
  then show ?thesis
    using failed_rebuild_restores [OF ref_kernel_ipset_ok ref_kernel_frame ipf ref_kernel_table s c] s by simp
qed

theorem refresh_installs_plan_witness:
  "case refresh_vpn_forward_only demo_env (ref_kernel_run False) demo_hex demo_plain_rules [] demo_kernel of
     Some (Inr b, st') \<Rightarrow> b \<and> ref_chain (kernel st') =
       [[''-m'', ''set'', ''--match-set'', ''ovpnfw_sr1_src'', ''src'', ''-d'', ''192.168.1.10'', ''-p'', ''tcp'',
         ''--dport'', ''443'', ''-j'', ''ACCEPT'']]
   | _ \<Rightarrow> False"
proof -
  let ?m = "fst (build_merged_forward_entries demo_plain_rules [])"
  have b: "case refresh_vpn_forward_only demo_env (ref_kernel_run False) demo_hex demo_plain_rules [] demo_kernel of
     Some (Inr b, s) \<Rightarrow> b = True \<and> True | _ \<Rightarrow> False"
    by code_simp
  obtain s where s: "refresh_vpn_forward_only demo_env (ref_kernel_run False) demo_hex demo_plain_rules [] demo_kernel = Some (Inr True, s)"
    using act_result [OF b] by blast
  have lines: "case merged_parts demo_hex ?m of Inr ls \<Rightarrow> list_all one_line (map (join '' '') ls) \<and>
      map (line_args \<circ> join '' '') ls = [[''-m'', ''set'', ''--match-set'', ''ovpnfw_sr1_src'', ''src'', ''-d'', ''192.168.1.10'',
        ''-p'', ''tcp'', ''--dport'', ''443'', ''-j'', ''ACCEPT'']] | Inl _ \<Rightarrow> False"
    by code_simp
  have h: "hashes_ok demo_hex" by (simp add: hashes_ok_def demo_hex_def list_all_iff)
  have nt: "\<not> on_nt demo_env" by (simp add: demo_env_def)
  have one: "\<forall>ls. merged_parts demo_hex ?m = Inr ls \<longrightarrow> list_all one_line (map (join '' '') ls)"
    using lines by auto
  show ?thesis
    using refresh_installs_plan [OF ref_kernel_ipset_ok ref_kernel_frame ref_kernel_load h nt s one] s lines by auto
qed

end
