(* ===== verification/Sql.thy ===== *)
theory Sql
  imports Prelude "HOL-Library.Multiset"
begin

text \<open>
  The SQL the repositories rely on, and the query helpers of
  \<open>app/storage/repository_helpers.py\<close>: values in sort order, the \<open>NOCASE\<close> collation, \<open>LIKE\<close>
  with \<open>ESCAPE '\'\<close>, \<open>ORDER BY\<close> with a direction and a tie-breaker, \<open>LIMIT\<close>/\<open>OFFSET\<close>.
  A row set is a list in row order; a sort is stable, so rows that SQL leaves unordered keep
  the row order.
\<close>

section \<open>Values in sort order\<close>

text \<open>SQLite sorts \<open>NULL\<close> before integers and integers before texts.\<close>

datatype sqlkey = SqlNull | SqlInt int | SqlText string

fun sqlkey_le :: "sqlkey \<Rightarrow> sqlkey \<Rightarrow> bool" where
  "sqlkey_le SqlNull _ = True"
| "sqlkey_le (SqlInt i) SqlNull = False"
| "sqlkey_le (SqlInt i) (SqlInt j) = (i \<le> j)"
| "sqlkey_le (SqlInt i) (SqlText t) = True"
| "sqlkey_le (SqlText s) (SqlText t) = (s \<le> t)"
| "sqlkey_le (SqlText s) _ = False"

instantiation sqlkey :: linorder
begin

definition less_eq_sqlkey :: "sqlkey \<Rightarrow> sqlkey \<Rightarrow> bool" where
  "less_eq_sqlkey a b = sqlkey_le a b"

definition less_sqlkey :: "sqlkey \<Rightarrow> sqlkey \<Rightarrow> bool" where
  "less_sqlkey a b = (sqlkey_le a b \<and> \<not> sqlkey_le b a)"

instance
proof
  fix x y z :: sqlkey
  show "x < y \<longleftrightarrow> x \<le> y \<and> \<not> y \<le> x" by (simp add: less_eq_sqlkey_def less_sqlkey_def)
  show "x \<le> x" by (cases x) (auto simp: less_eq_sqlkey_def)
  show "x \<le> z" if "x \<le> y" "y \<le> z"
    using that by (cases x; cases y; cases z) (auto simp: less_eq_sqlkey_def)
  show "x = y" if "x \<le> y" "y \<le> x"
    using that by (cases x; cases y) (auto simp: less_eq_sqlkey_def)
  show "x \<le> y \<or> y \<le> x" by (cases x; cases y) (auto simp: less_eq_sqlkey_def)
qed

end

text \<open>\<open>COLLATE NOCASE\<close> folds the 26 ASCII letters only.\<close>

definition nocase_char :: "char \<Rightarrow> char" where
  "nocase_char c = (let n = of_char c :: nat in if 65 \<le> n \<and> n \<le> 90 then char_of (n + 32) else c)"

definition nocase :: "string \<Rightarrow> string" where
  "nocase s = map nocase_char s"

lemma nocase_simps [simp, str_simps]: "nocase [] = []" "nocase (c # s) = nocase_char c # nocase s"
  by (simp_all add: nocase_def)

lemma nocase_append [simp]: "nocase (s @ t) = nocase s @ nocase t"
  by (simp add: nocase_def)

lemma length_nocase [simp]: "length (nocase s) = length s"
  by (simp add: nocase_def)

section \<open>LIKE\<close>

text \<open>\<open>s LIKE pat ESCAPE '\'\<close>: \<open>%\<close> any text, \<open>_\<close> any character, a character after the escape
  stands for itself; letters match without case.\<close>

fun sql_like :: "string \<Rightarrow> string \<Rightarrow> bool" where
  "sql_like [] s = (s = [])"
| "sql_like (p # ps) s =
     (if p = CHR ''%'' then sql_like ps s \<or> (case s of [] \<Rightarrow> False | c # cs \<Rightarrow> sql_like (p # ps) cs)
      else if p = CHR ''_'' then (case s of [] \<Rightarrow> False | c # cs \<Rightarrow> sql_like ps cs)
      else if p = CHR 0x5C then
        (case ps of [] \<Rightarrow> False
         | q # qs \<Rightarrow> (case s of [] \<Rightarrow> False | c # cs \<Rightarrow> nocase_char q = nocase_char c \<and> sql_like qs cs))
      else (case s of [] \<Rightarrow> False | c # cs \<Rightarrow> nocase_char p = nocase_char c \<and> sql_like ps cs))"

text \<open>\<open>str.replace\<close> of one character by a text.\<close>

definition replace_with :: "char \<Rightarrow> string \<Rightarrow> string \<Rightarrow> string" where
  "replace_with c new s = concat (map (\<lambda>x. if x = c then new else [x]) s)"

definition like_escape :: "string \<Rightarrow> string" where
  "like_escape s = replace_with (CHR ''_'') [CHR 0x5C, CHR ''_'']
     (replace_with (CHR ''%'') [CHR 0x5C, CHR ''%''] (replace_with (CHR 0x5C) [CHR 0x5C, CHR 0x5C] s))"

definition like_pattern :: "string \<Rightarrow> string \<Rightarrow> string" where
  "like_pattern v mode = (let escaped = like_escape v in
     if mode = ''equals'' then escaped
     else if mode = ''startsWith'' then escaped @ ''%''
     else if mode = ''endsWith'' then ''%'' @ escaped
     else ''%'' @ escaped @ ''%'')"

text \<open>\<open>_append_multi_text_clause\<close>: the condition the fragment puts on the expression's value.\<close>

definition text_fragment :: "string \<Rightarrow> string \<Rightarrow> string \<Rightarrow> bool" where
  "text_fragment mode expr v =
     (if mode = ''equals'' then nocase expr = nocase v
      else if mode = ''notEqual'' then nocase expr \<noteq> nocase v
      else if mode = ''notContains'' then \<not> sql_like (like_pattern v ''contains'') expr
      else sql_like (like_pattern v mode) expr)"

definition multi_text_clause :: "string \<Rightarrow> string list \<Rightarrow> string \<Rightarrow> string \<Rightarrow> bool" where
  "multi_text_clause expr vals match_type operator =
     (let normalized = strip_all vals;
          mode = (if match_type = [] then ''contains'' else match_type)
      in normalized = [] \<or>
         (if lower operator = ''or'' then list_ex (text_fragment mode expr) normalized
          else list_all (text_fragment mode expr) normalized))"

definition like_contains :: "string \<Rightarrow> string \<Rightarrow> bool" where
  "like_contains v expr = sql_like (like_pattern v ''contains'') expr"

section \<open>ORDER BY, LIMIT and OFFSET\<close>

text \<open>A descending sort that is stable, too.\<close>

definition sort_desc :: "('a \<Rightarrow> 'k::linorder) \<Rightarrow> 'a list \<Rightarrow> 'a list" where
  "sort_desc f xs = rev (sort_key f (rev xs))"

definition order_by :: "('a \<Rightarrow> 'k::linorder) \<Rightarrow> bool \<Rightarrow> ('a \<Rightarrow> 'j::linorder) \<Rightarrow> 'a list \<Rightarrow> 'a list" where
  "order_by key desc tie xs =
     (if desc then sort_desc key (sort_key tie xs) else sort_key key (sort_key tie xs))"

text \<open>\<open>LIMIT max(1, limit) OFFSET max(0, offset)\<close>.\<close>

definition limit_offset :: "int \<Rightarrow> int \<Rightarrow> 'a list \<Rightarrow> 'a list" where
  "limit_offset limit offset xs = take (nat (max 1 limit)) (drop (nat (max 0 offset)) xs)"

text \<open>A page of the rows that satisfy a condition, with their total number.\<close>

definition select_page ::
  "('a \<Rightarrow> bool) \<Rightarrow> ('a list \<Rightarrow> 'a list) \<Rightarrow> int \<Rightarrow> int \<Rightarrow> 'a list \<Rightarrow> 'a list \<times> nat" where
  "select_page cond order limit offset rows =
     (let hits = filter cond rows in (limit_offset limit offset (order hits), length hits))"

lemma set_sort_desc [simp]: "set (sort_desc f xs) = set xs"
  by (simp add: sort_desc_def)

lemma mset_sort_desc [simp]: "mset (sort_desc f xs) = mset xs"
  by (simp add: sort_desc_def)

lemma sort_desc_sorted: "sorted_wrt (\<lambda>x y. f y \<le> f x) (sort_desc f xs)"
proof -
  have "sorted (map f (sort_key f (rev xs)))" by simp
  then show ?thesis by (simp add: sort_desc_def sorted_wrt_rev sorted_map)
qed

lemma mset_order_by [simp]: "mset (order_by key desc tie xs) = mset xs"
  by (simp add: order_by_def)

lemma length_order_by [simp]: "length (order_by key desc tie xs) = length xs"
  by (metis mset_order_by size_mset)

text \<open>Reading page after page yields the whole ordered result.\<close>

lemma pages_concat:
  assumes "0 < n"
  shows "concat (map (\<lambda>i. limit_offset (int n) (int (i * n)) xs) [0..<k]) = take (k * n) xs"
proof (induction k)
  case (Suc k)
  have "limit_offset (int n) (int (k * n)) xs = take n (drop (k * n) xs)"
    using assms by (simp add: limit_offset_def max_def del: of_nat_mult)
  then show ?case using Suc by (simp add: take_add [symmetric] add.commute del: of_nat_mult)
qed (simp add: limit_offset_def)

section \<open>What the LIKE patterns accept\<close>

definition escape_char :: "char \<Rightarrow> string" where
  "escape_char c = (if c = CHR 0x5C \<or> c = CHR ''%'' \<or> c = CHR ''_'' then [CHR 0x5C, c] else [c])"

lemma replace_with_simps [simp]:
  "replace_with c new [] = []"
  "replace_with c new (x # s) = (if x = c then new else [x]) @ replace_with c new s"
  by (simp_all add: replace_with_def)

lemma replace_with_append [simp]: "replace_with c new (s @ t) = replace_with c new s @ replace_with c new t"
  by (simp add: replace_with_def)

lemma like_escape_Nil [simp]: "like_escape [] = []"
  by (simp add: like_escape_def)

lemma like_escape_Cons: "like_escape (c # s) = escape_char c @ like_escape s"
  by (auto simp: like_escape_def escape_char_def)

lemma sql_like_any [simp]: "sql_like ''%'' s"
  by (induction s) auto

lemma sql_like_escaped_char:
  "sql_like (escape_char c @ pat) s = (case s of [] \<Rightarrow> False | x # xs \<Rightarrow> nocase_char c = nocase_char x \<and> sql_like pat xs)"
  by (auto simp: escape_char_def split: list.splits)

declare sql_like.simps(2) [simp del]

lemma sql_like_escaped:
  "sql_like (like_escape v @ pat) s \<longleftrightarrow>
   take (length v) (nocase s) = nocase v \<and> sql_like pat (drop (length v) s)"
proof (induction v arbitrary: s)
  case (Cons c v)
  then show ?case
    by (cases s) (auto simp: like_escape_Cons sql_like_escaped_char)
qed simp

lemma sql_like_percent:
  "sql_like (CHR ''%'' # pat) s \<longleftrightarrow> (\<exists>n\<le>length s. sql_like pat (drop n s))"
proof (induction s)
  case (Cons c s)
  have "sql_like (CHR ''%'' # pat) (c # s) \<longleftrightarrow> sql_like pat (c # s) \<or> (\<exists>n\<le>length s. sql_like pat (drop n s))"
    using Cons by (simp add: sql_like.simps(2))
  also have "\<dots> \<longleftrightarrow> (\<exists>n\<le>length (c # s). sql_like pat (drop n (c # s)))"
    by (metis (no_types, lifting) Suc_le_mono drop0 drop_Suc_Cons le_SucE length_Cons not0_implies_Suc zero_le)
  finally show ?case .
qed (simp add: sql_like.simps(2))

lemma str_in_iff: "str_in p s \<longleftrightarrow> (\<exists>n\<le>length s. take (length p) (drop n s) = p)"
proof (induction s)
  case (Cons c s)
  have "str_in p (c # s) \<longleftrightarrow> take (length p) (c # s) = p \<or> (\<exists>n\<le>length s. take (length p) (drop n s) = p)"
    using Cons by (simp add: starts_with_def)
  also have "\<dots> \<longleftrightarrow> (\<exists>n\<le>length (c # s). take (length p) (drop n (c # s)) = p)"
    by (metis (no_types, lifting) Suc_le_mono drop0 drop_Suc_Cons le_SucE length_Cons not0_implies_Suc zero_le)
  finally show ?case .
qed auto

lemma ends_with_iff: "ends_with s p \<longleftrightarrow> (\<exists>n\<le>length s. drop n s = p)"
proof
  assume "ends_with s p"
  then have "take (length p) (rev s) = rev p" by (simp add: ends_with_def starts_with_def)
  then have "drop (length s - length p) s = p" by (simp add: take_rev)
  then show "\<exists>n\<le>length s. drop n s = p" by (metis diff_le_self)
next
  assume "\<exists>n\<le>length s. drop n s = p"
  then obtain n where "n \<le> length s" "drop n s = p" by blast
  then have "take (length p) (rev s) = rev p" by (auto simp: take_rev)
  then show "ends_with s p" by (simp add: ends_with_def starts_with_def)
qed

lemma sql_like_exact: "sql_like (like_escape v) t \<longleftrightarrow> nocase t = nocase v"
proof -
  have "sql_like (like_escape v) t \<longleftrightarrow> take (length v) (nocase t) = nocase v \<and> length t \<le> length v"
    using sql_like_escaped [of v "[]" t] by simp
  also have "\<dots> \<longleftrightarrow> nocase t = nocase v"
  proof
    assume a: "take (length v) (nocase t) = nocase v \<and> length t \<le> length v"
    then have l: "length (nocase t) \<le> length v" by simp
    then have "take (length v) (nocase t) = nocase t" by (rule take_all)
    then show "nocase t = nocase v" using a by simp
  next
    assume e: "nocase t = nocase v"
    then have l: "length t = length v" by (metis length_nocase)
    then have "take (length v) (nocase t) = nocase t" by simp
    then show "take (length v) (nocase t) = nocase v \<and> length t \<le> length v" using e l by simp
  qed
  finally show ?thesis .
qed

section \<open>Properties\<close>

text \<open>A search text is matched literally whatever wildcards or escapes it contains: \<open>equals\<close>,
  \<open>startsWith\<close>, \<open>endsWith\<close> and \<open>contains\<close> patterns accept exactly the texts that are equal to it, begin
  with it, end with it or contain it, up to the case of ASCII letters.\<close>

theorem like_pattern_literal:
  "(sql_like (like_pattern v ''equals'') s \<longleftrightarrow> nocase s = nocase v) \<and>
   (sql_like (like_pattern v ''startsWith'') s \<longleftrightarrow> starts_with (nocase s) (nocase v)) \<and>
   (sql_like (like_pattern v ''endsWith'') s \<longleftrightarrow> ends_with (nocase s) (nocase v)) \<and>
   (sql_like (like_pattern v ''contains'') s \<longleftrightarrow> str_in (nocase v) (nocase s))"
proof (intro conjI)
  have dn: "nocase (drop n s) = drop n (nocase s)" for n by (simp add: nocase_def drop_map)
  have eq: "sql_like (like_escape v) t \<longleftrightarrow> nocase t = nocase v" for t
    by (rule sql_like_exact)
  show "sql_like (like_pattern v ''equals'') s \<longleftrightarrow> nocase s = nocase v"
    by (simp add: like_pattern_def eq Let_def)
  show "sql_like (like_pattern v ''startsWith'') s \<longleftrightarrow> starts_with (nocase s) (nocase v)"
    by (simp add: like_pattern_def sql_like_escaped starts_with_def Let_def)
  show "sql_like (like_pattern v ''endsWith'') s \<longleftrightarrow> ends_with (nocase s) (nocase v)"
    by (simp add: like_pattern_def sql_like_percent ends_with_iff eq dn Let_def)
  show "sql_like (like_pattern v ''contains'') s \<longleftrightarrow> str_in (nocase v) (nocase s)"
    by (simp add: like_pattern_def sql_like_percent [of "like_escape v @ ''%''"] sql_like_escaped str_in_iff dn Let_def)
qed

end
