(* ===== verification/Storage.thy ===== *)
theory Storage
  imports Sql Models
begin

text \<open>
  \<open>app/storage/\<close>: the SQLite store.  A \<open>db\<close> holds the tables of \<open>sql/001_initial.sql\<close> and
  \<open>sql/004_firewall_tags.sql\<close> as lists of rows; a row keeps its \<open>payload\<close> (the JSON object, here
  the record it was dumped from) beside the index columns, so that the two can disagree.

  A write operation maps a database to the next one or to the exception that leaves the
  \<open>with self.connection(write=True)\<close> block; \<open>connection_write\<close> rolls back in that case.  Primary
  keys, unique indexes and foreign keys raise \<open>IntegrityError\<close>.
\<close>

section \<open>Rows\<close>

record fw_row =
  fr_id :: string
  fr_owner_id :: string
  fr_owner_type :: string
  fr_priority :: int
  fr_enabled :: bool
  fr_created_at :: string
  fr_updated_at :: string
  fr_payload :: rule
  fr_protocol :: string
  fr_action :: string
  fr_target :: string
  fr_source_text :: string
  fr_dest_ip :: string
  fr_dest_port :: string

record peer_row =
  pr_id :: string
  pr_bound_username :: string
  pr_priority :: int
  pr_enabled :: bool
  pr_created_at :: string
  pr_updated_at :: string
  pr_payload :: peer
  pr_name :: string
  pr_has_lan :: bool
  pr_lan_text :: string
  pr_protocol :: string
  pr_dest_ip :: string
  pr_dest_port :: string

record tag =
  t_id :: string
  t_name :: string
  t_description :: string
  t_created_at :: string
  t_updated_at :: string

record db =
  db_versions :: "(int \<times> string \<times> string) list"
  db_meta :: "(string \<times> string) list"
  db_users :: "user list"
  db_groups :: "group list"
  db_peers :: "peer_row list"
  db_rules :: "fw_row list"
  db_tags :: "tag list"
  db_user_tags :: "(string \<times> string) list"
  db_group_tags :: "(string \<times> string) list"

definition empty_db :: db where
  "empty_db = \<lparr>db_versions = [], db_meta = [], db_users = [], db_groups = [], db_peers = [],
     db_rules = [], db_tags = [], db_user_tags = [], db_group_tags = []\<rparr>"

definition connection_write :: "(db \<Rightarrow> db res) \<Rightarrow> db \<Rightarrow> unit res \<times> db" where
  "connection_write body d = (case body d of Inl e \<Rightarrow> (Inl e, d) | Inr d' \<Rightarrow> (Inr (), d'))"

section \<open>Texts of the enumerations\<close>

fun owner_text :: "owner_kind \<Rightarrow> string" where
  "owner_text OGroup = ''group''"
| "owner_text OUser = ''user''"
| "owner_text OTag = ''tag''"

fun action_text :: "fw_action \<Rightarrow> string" where
  "action_text AAccept = ''accept''"
| "action_text ADrop = ''drop''"
| "action_text AReject = ''reject''"

fun target_text :: "deployment \<Rightarrow> string" where
  "target_text Center = ''center''"
| "target_text PeerSite = ''peer''"

fun user_status_text :: "user_status \<Rightarrow> string" where
  "user_status_text UActive = ''active''"
| "user_status_text UDisabled = ''disabled''"
| "user_status_text UDeleted = ''deleted''"

fun group_status_text :: "group_status \<Rightarrow> string" where
  "group_status_text GActive = ''active''"
| "group_status_text GDisabled = ''disabled''"

section \<open>Index columns\<close>

text \<open>\<open>str(x or d).strip().lower() or d\<close>.\<close>

definition lower_or :: "string \<Rightarrow> string \<Rightarrow> string" where
  "lower_or d s = (let t = lower (strip (if s = [] then d else s)) in if t = [] then d else t)"

definition normalize_group_payload :: "netaddr \<Rightarrow> group \<Rightarrow> group" where
  "normalize_group_payload na g = (let raw_subnet = strip (g_subnet g) in
     if raw_subnet = [] then g
     else (case normalize_cidr na raw_subnet of None \<Rightarrow> g | Some n \<Rightarrow> g\<lparr>g_subnet := n\<rparr>))"

definition peer_index_values :: "peer \<Rightarrow> string \<times> bool \<times> string \<times> string \<times> string \<times> string" where
  "peer_index_values p = (let lan = strip_all (lan_cidrs p) in
     (p_name p, lan \<noteq> [], join '','' lan, lower_or ''all'' (center_forward_protocol p),
      strip (center_forward_dest_ip p), strip (center_forward_dest_port p)))"

definition firewall_index_values :: "rule \<Rightarrow> string \<times> string \<times> string \<times> string \<times> string \<times> string" where
  "firewall_index_values r =
     (let subnet = strip (opt_str (source_subnet r));
          ips = strip_all (case source_ips r of None \<Rightarrow> [] | Some l \<Rightarrow> l)
      in (lower_or ''all'' (protocol r), lower_or ''accept'' (action_text (action r)),
          lower_or ''center'' (target_text (deployment_target r)),
          (if subnet = [] then join '','' ips else subnet),
          strip (opt_str (dest_ip r)), strip (opt_str (dest_port r))))"

text \<open>The six index columns, set from a payload.\<close>

definition fw_index :: "rule \<Rightarrow> fw_row \<Rightarrow> fw_row" where
  "fw_index p row = (case firewall_index_values p of (pr, ac, tg, st, di, dp) \<Rightarrow>
     row\<lparr>fr_protocol := pr, fr_action := ac, fr_target := tg, fr_source_text := st, fr_dest_ip := di, fr_dest_port := dp\<rparr>)"

definition peer_index :: "peer \<Rightarrow> peer_row \<Rightarrow> peer_row" where
  "peer_index p row = (case peer_index_values p of (nm, hl, lt, pr, di, dp) \<Rightarrow>
     row\<lparr>pr_name := nm, pr_has_lan := hl, pr_lan_text := lt, pr_protocol := pr, pr_dest_ip := di, pr_dest_port := dp\<rparr>)"

section \<open>Users\<close>

definition put_user :: "user \<Rightarrow> db \<Rightarrow> db" where
  "put_user x d = d\<lparr>db_users := tbl_upsert username x (db_users d)\<rparr>"

definition upsert_user :: "user \<Rightarrow> db \<Rightarrow> db res" where
  "upsert_user u d = (let name = strip (username u) in
     if name = [] then Inl (ValueError ''user.username empty'')
     else Inr (put_user (u\<lparr>username := name\<rparr>) d))"

definition get_user :: "string \<Rightarrow> db \<Rightarrow> user option" where
  "get_user name d = tbl_get username name (db_users d)"

definition live_user :: "bool \<Rightarrow> user \<Rightarrow> bool" where
  "live_user include_deleted u \<longleftrightarrow> include_deleted \<or> u_status u \<noteq> UDeleted"

definition user_exists :: "string \<Rightarrow> bool \<Rightarrow> db \<Rightarrow> bool" where
  "user_exists name include_deleted d \<longleftrightarrow>
     list_ex (\<lambda>u. username u = name \<and> live_user include_deleted u) (db_users d)"

definition list_users :: "bool \<Rightarrow> db \<Rightarrow> user list" where
  "list_users include_deleted d =
     sort_key (\<lambda>u. nocase (username u)) (filter (live_user include_deleted) (db_users d))"

definition list_usernames :: "bool \<Rightarrow> db \<Rightarrow> string list" where
  "list_usernames include_deleted d = map username (list_users include_deleted d)"

definition list_active_usernames_by_group :: "string \<Rightarrow> db \<Rightarrow> string list" where
  "list_active_usernames_by_group gid d =
     sort (map username (filter (\<lambda>u. group_id u = gid \<and> u_status u = UActive) (db_users d)))"

definition list_users_by_group :: "string \<Rightarrow> bool \<Rightarrow> db \<Rightarrow> user list" where
  "list_users_by_group gid include_deleted d = sort_key (\<lambda>u. nocase (username u))
     (filter (\<lambda>u. group_id u = gid \<and> live_user include_deleted u) (db_users d))"

definition count_users :: "bool \<Rightarrow> db \<Rightarrow> nat" where
  "count_users include_deleted d = length (filter (live_user include_deleted) (db_users d))"

section \<open>Groups\<close>

definition put_group :: "group \<Rightarrow> db \<Rightarrow> db" where
  "put_group x d = d\<lparr>db_groups := tbl_upsert g_id x (db_groups d)\<rparr>"

definition group_name_exists :: "string \<Rightarrow> string option \<Rightarrow> db \<Rightarrow> bool" where
  "group_name_exists nm exclude_id d \<longleftrightarrow>
     list_ex (\<lambda>g. g_name g = nm \<and> (opt_str exclude_id = [] \<or> g_id g \<noteq> opt_str exclude_id)) (db_groups d)"

definition upsert_group :: "netaddr \<Rightarrow> group \<Rightarrow> db \<Rightarrow> db res" where
  "upsert_group na g d = (let gid = strip (g_id g); payload = (normalize_group_payload na g)\<lparr>g_id := gid\<rparr> in
     if gid = [] then Inl (ValueError ''group.id empty'')
     else if list_ex (\<lambda>h. g_name h = g_name payload \<and> g_id h \<noteq> gid) (db_groups d)
       then Inl (IntegrityError ''groups.name'')
     else Inr (put_group payload d))"

definition get_group :: "string \<Rightarrow> db \<Rightarrow> group option" where
  "get_group gid d = tbl_get g_id gid (db_groups d)"

definition list_groups :: "db \<Rightarrow> group list" where
  "list_groups d = sort_key (\<lambda>g. (g_created_at g, g_id g)) (db_groups d)"

definition first_group_id :: "db \<Rightarrow> string" where
  "first_group_id d = (case list_groups d of [] \<Rightarrow> [] | g # _ \<Rightarrow> g_id g)"

text \<open>Deleting a group deletes its tag associations (\<open>ON DELETE CASCADE\<close>).\<close>

definition delete_group :: "string \<Rightarrow> db \<Rightarrow> db" where
  "delete_group gid d = d\<lparr>db_groups := tbl_delete g_id gid (db_groups d),
     db_group_tags := filter (\<lambda>(t, g). g \<noteq> gid) (db_group_tags d)\<rparr>"

definition count_groups :: "db \<Rightarrow> nat" where
  "count_groups d = length (db_groups d)"

record group_totals =
  gt_total :: nat
  gt_active :: nat
  gt_disabled :: nat
  gt_users :: nat

definition group_summary :: "db \<Rightarrow> group_totals" where
  "group_summary d = (let total = length (db_groups d);
      active = length (filter (\<lambda>g. g_status g = GActive) (db_groups d)) in
    \<lparr>gt_total = total, gt_active = active, gt_disabled = total - active,
     gt_users = count_users False d\<rparr>)"

section \<open>Peers\<close>

definition put_peer :: "peer_row \<Rightarrow> db \<Rightarrow> db" where
  "put_peer x d = d\<lparr>db_peers := tbl_upsert pr_id x (db_peers d)\<rparr>"

definition peer_values :: "string \<Rightarrow> peer \<Rightarrow> peer_row" where
  "peer_values pid p = peer_index p
     \<lparr>pr_id = pid, pr_bound_username = bound_username p,
      pr_priority = (if center_forward_priority p = 0 then 500000 else center_forward_priority p),
      pr_enabled = center_forward_enabled p, pr_created_at = p_created_at p, pr_updated_at = p_updated_at p,
      pr_payload = p, pr_name = [], pr_has_lan = False, pr_lan_text = [], pr_protocol = [],
      pr_dest_ip = [], pr_dest_port = []\<rparr>"

definition upsert_peer :: "peer \<Rightarrow> db \<Rightarrow> db res" where
  "upsert_peer p d = (let pid = strip (p_id p); row = peer_values pid (p\<lparr>p_id := pid\<rparr>) in
     if pid = [] then Inl (ValueError ''peer.id empty'')
     else if list_ex (\<lambda>q. pr_bound_username q = pr_bound_username row \<and> pr_id q \<noteq> pid) (db_peers d)
       then Inl (IntegrityError ''peers.bound_username'')
     else Inr (put_peer row d))"

definition get_peer_row :: "string \<Rightarrow> db \<Rightarrow> peer_row option" where
  "get_peer_row pid d = tbl_get pr_id pid (db_peers d)"

definition get_peer :: "string \<Rightarrow> db \<Rightarrow> peer option" where
  "get_peer pid d = map_option pr_payload (get_peer_row pid d)"

definition list_peers :: "db \<Rightarrow> peer list" where
  "list_peers d = map pr_payload (sort_key (\<lambda>r. (pr_created_at r, pr_id r)) (db_peers d))"

definition delete_peer :: "string \<Rightarrow> db \<Rightarrow> db" where
  "delete_peer pid d = d\<lparr>db_peers := tbl_delete pr_id pid (db_peers d)\<rparr>"

definition list_bound_usernames :: "string option \<Rightarrow> db \<Rightarrow> string list" where
  "list_bound_usernames exclude d = remdups (map pr_bound_username
     (filter (\<lambda>r. pr_bound_username r \<noteq> [] \<and> (opt_str exclude = [] \<or> pr_id r \<noteq> opt_str exclude)) (db_peers d)))"

definition count_peers :: "db \<Rightarrow> nat" where
  "count_peers d = length (db_peers d)"

section \<open>Firewall rules\<close>

definition firewall_values :: "string \<Rightarrow> rule \<Rightarrow> fw_row res" where
  "firewall_values oid r =
     (let payload = r\<lparr>owner_id := (if owner_id r = [] then oid else owner_id r)\<rparr>; rid = strip (rule_id r) in
      if rid = [] then Inl (ValueError ''firewall rule id empty'')
      else Inr (fw_index payload
        \<lparr>fr_id = rid, fr_owner_id = owner_id payload, fr_owner_type = owner_text (owner_type payload),
         fr_priority = priority payload, fr_enabled = enabled payload, fr_created_at = r_created_at payload,
         fr_updated_at = r_updated_at payload, fr_payload = payload, fr_protocol = [], fr_action = [],
         fr_target = [], fr_source_text = [], fr_dest_ip = [], fr_dest_port = []\<rparr>))"

fun insert_rows :: "fw_row list \<Rightarrow> fw_row list \<Rightarrow> fw_row list res" where
  "insert_rows [] t = Inr t"
| "insert_rows (r # rs) t =
     (if list_ex (\<lambda>x. fr_id x = fr_id r) t then Inl (IntegrityError ''firewall_rules.id'')
      else insert_rows rs (t @ [r]))"

definition replace_firewall_owner :: "string \<Rightarrow> rule list \<Rightarrow> db \<Rightarrow> db res" where
  "replace_firewall_owner oid rules d =
     rbind (mapM (firewall_values oid) rules) (\<lambda>rows.
     rbind (insert_rows rows (filter (\<lambda>r. fr_owner_id r \<noteq> oid) (db_rules d))) (\<lambda>t.
     Inr (d\<lparr>db_rules := t\<rparr>)))"

definition get_firewall_owner :: "string \<Rightarrow> db \<Rightarrow> rule list" where
  "get_firewall_owner oid d = map fr_payload
     (sort_key (\<lambda>r. (fr_priority r, fr_id r)) (filter (\<lambda>r. fr_owner_id r = oid) (db_rules d)))"

definition firewall_owner_exists :: "string \<Rightarrow> db \<Rightarrow> bool" where
  "firewall_owner_exists oid d \<longleftrightarrow> list_ex (\<lambda>r. fr_owner_id r = oid) (db_rules d)"

definition list_firewall_owner_ids :: "db \<Rightarrow> string list" where
  "list_firewall_owner_ids d = sorted_set (map fr_owner_id (db_rules d))"

definition list_firewall_rules :: "db \<Rightarrow> rule list" where
  "list_firewall_rules d = map fr_payload
     (sort_key (\<lambda>r. (fr_priority r, fr_owner_id r, fr_id r)) (db_rules d))"

definition find_firewall_rule_owner :: "string \<Rightarrow> db \<Rightarrow> string option \<times> rule list" where
  "find_firewall_rule_owner rid d = (case tbl_get fr_id rid (db_rules d) of
     None \<Rightarrow> (None, [])
   | Some r \<Rightarrow> (Some (fr_owner_id r), get_firewall_owner (fr_owner_id r) d))"

definition firewall_priority_exists :: "int \<Rightarrow> string option \<Rightarrow> db \<Rightarrow> bool" where
  "firewall_priority_exists pri exclude d \<longleftrightarrow>
     list_ex (\<lambda>r. fr_priority r = pri \<and> (opt_str exclude = [] \<or> fr_id r \<noteq> opt_str exclude)) (db_rules d)"

definition count_firewall_rules :: "db \<Rightarrow> nat" where
  "count_firewall_rules d = length (db_rules d)"

section \<open>Tags\<close>

definition put_tag :: "tag \<Rightarrow> db \<Rightarrow> db" where
  "put_tag x d = d\<lparr>db_tags := tbl_upsert t_id x (db_tags d)\<rparr>"

definition create_tag :: "string \<Rightarrow> string \<Rightarrow> string \<Rightarrow> string \<Rightarrow> db \<Rightarrow> db res" where
  "create_tag now tid0 nm0 desc d = (let tid = strip tid0; nm = strip nm0 in
     if tid = [] \<or> nm = [] then Inl (ValueError ''tag id or name empty'')
     else if list_ex (\<lambda>t. t_id t = tid \<or> t_name t = nm) (db_tags d) then Inl (IntegrityError ''tags'')
     else Inr (d\<lparr>db_tags := db_tags d @ [\<lparr>t_id = tid, t_name = nm, t_description = desc,
       t_created_at = now, t_updated_at = now\<rparr>]\<rparr>))"

definition list_tags :: "db \<Rightarrow> tag list" where
  "list_tags d = sort_key (\<lambda>t. (t_name t, t_id t)) (db_tags d)"

definition get_tag :: "string \<Rightarrow> db \<Rightarrow> tag option" where
  "get_tag tid d = tbl_get t_id tid (db_tags d)"

definition update_tag :: "string \<Rightarrow> string \<Rightarrow> string \<Rightarrow> string \<Rightarrow> db \<Rightarrow> db res" where
  "update_tag now tid nm0 desc d = (let nm = strip nm0 in
     if nm = [] then Inl (ValueError ''tag name empty'')
     else (case get_tag tid d of None \<Rightarrow> Inl (ValueError ''no such tag'')
      | Some t \<Rightarrow>
          if list_ex (\<lambda>x. t_name x = nm \<and> t_id x \<noteq> tid) (db_tags d) then Inl (IntegrityError ''tags.name'')
          else Inr (put_tag (t\<lparr>t_name := nm, t_description := desc, t_updated_at := now\<rparr>) d)))"

definition delete_tag :: "string \<Rightarrow> db \<Rightarrow> db" where
  "delete_tag tid d = d\<lparr>db_tags := tbl_delete t_id tid (db_tags d),
     db_user_tags := filter (\<lambda>(t, u). t \<noteq> tid) (db_user_tags d),
     db_group_tags := filter (\<lambda>(t, g). t \<noteq> tid) (db_group_tags d)\<rparr>"

text \<open>\<open>table, column, entity_table, entity_key\<close> of an \<open>entity_type\<close>.\<close>

datatype entity = EUser | EGroup

definition entity_of :: "string \<Rightarrow> entity res" where
  "entity_of s = (if s = ''user'' then Inr EUser else if s = ''group'' then Inr EGroup
     else Inl (ValueError ''only user/group''))"

fun assoc_of :: "entity \<Rightarrow> db \<Rightarrow> (string \<times> string) list" where
  "assoc_of EUser d = db_user_tags d"
| "assoc_of EGroup d = db_group_tags d"

fun set_assoc :: "entity \<Rightarrow> (string \<times> string) list \<Rightarrow> db \<Rightarrow> db" where
  "set_assoc EUser l d = d\<lparr>db_user_tags := l\<rparr>"
| "set_assoc EGroup l d = d\<lparr>db_group_tags := l\<rparr>"

fun entity_ids :: "entity \<Rightarrow> db \<Rightarrow> string list" where
  "entity_ids EUser d = map username (db_users d)"
| "entity_ids EGroup d = map g_id (db_groups d)"

text \<open>\<open>INSERT INTO user_tags/group_tags\<close> with its primary and foreign keys.\<close>

definition insert_assoc :: "entity \<Rightarrow> string \<times> string \<Rightarrow> db \<Rightarrow> db res" where
  "insert_assoc E p d =
     (if p \<in> set (assoc_of E d) then Inl (IntegrityError ''association exists'')
      else if fst p \<notin> set (map t_id (db_tags d)) \<or> snd p \<notin> set (entity_ids E d)
        then Inl (IntegrityError ''foreign key'')
      else Inr (set_assoc E (assoc_of E d @ [p]) d))"

fun insert_assocs :: "entity \<Rightarrow> (string \<times> string) list \<Rightarrow> db \<Rightarrow> db res" where
  "insert_assocs E [] d = Inr d"
| "insert_assocs E (p # ps) d = rbind (insert_assoc E p d) (insert_assocs E ps)"

definition delete_entity_assocs :: "entity \<Rightarrow> string \<Rightarrow> db \<Rightarrow> db" where
  "delete_entity_assocs E eid d = set_assoc E (filter (\<lambda>p. snd p \<noteq> eid) (assoc_of E d)) d"

definition delete_tag_assocs :: "entity \<Rightarrow> string \<Rightarrow> db \<Rightarrow> db" where
  "delete_tag_assocs E tid d = set_assoc E (filter (\<lambda>p. fst p \<noteq> tid) (assoc_of E d)) d"

text \<open>\<open>sorted({str(v).strip() for v in vs if str(v).strip()})\<close>.\<close>

definition clean_ids :: "string list \<Rightarrow> string list" where
  "clean_ids vs = sorted_set (strip_all vs)"

text \<open>The membership test runs in chunks of 500 ids; the chunks' union is what is found.\<close>

function chunk_found :: "string list \<Rightarrow> string list \<Rightarrow> string list" where
  "chunk_found known [] = []"
| "chunk_found known (x # xs) =
     filter (\<lambda>i. i \<in> set known) (take 500 (x # xs)) @ chunk_found known (drop 500 (x # xs))"
  by pat_completeness auto
termination by (relation "measure (\<lambda>(known, xs). length xs)") auto

definition set_tag_members :: "string \<Rightarrow> string list \<Rightarrow> string list \<Rightarrow> db \<Rightarrow> db res" where
  "set_tag_members tid usernames gids d =
     (let users = clean_ids usernames; grps = clean_ids gids in
      if get_tag tid d = None then Inl (ValueError ''no such tag'')
      else if users \<noteq> [] \<and> card (set (chunk_found (entity_ids EUser d) users)) \<noteq> length users
        then Inl (ValueError ''no such user'')
      else if grps \<noteq> [] \<and> card (set (chunk_found (entity_ids EGroup d) grps)) \<noteq> length grps
        then Inl (ValueError ''no such group'')
      else rbind (insert_assocs EUser (map (Pair tid) users)
                   (delete_tag_assocs EGroup tid (delete_tag_assocs EUser tid d)))
             (insert_assocs EGroup (map (Pair tid) grps)))"

definition entity_tag_ids :: "entity \<Rightarrow> string \<Rightarrow> db \<Rightarrow> string list" where
  "entity_tag_ids E eid d = sort (map fst (filter (\<lambda>p. snd p = eid) (assoc_of E d)))"

definition list_entity_tag_ids :: "string \<Rightarrow> string \<Rightarrow> db \<Rightarrow> string list res" where
  "list_entity_tag_ids etype eid d = rbind (entity_of etype) (\<lambda>E. Inr (entity_tag_ids E eid d))"

definition known_count :: "string list \<Rightarrow> string list \<Rightarrow> nat" where
  "known_count known ids = length (filter (\<lambda>k. k \<in> set ids) known)"

definition replace_entity_tags :: "string \<Rightarrow> string \<Rightarrow> string list \<Rightarrow> db \<Rightarrow> db res" where
  "replace_entity_tags etype eid0 tids d =
     rbind (entity_of etype) (\<lambda>E. (let eid = strip eid0; ids = clean_ids tids in
      if eid \<notin> set (entity_ids E d) then Inl (ValueError ''no such user or group'')
      else if ids \<noteq> [] \<and> known_count (map t_id (db_tags d)) ids \<noteq> length ids
        then Inl (ValueError ''unknown tag'')
      else insert_assocs E (map (\<lambda>t. (t, eid)) ids) (delete_entity_assocs E eid d)))"

fun batch_desired :: "string \<Rightarrow> string list \<Rightarrow> string list \<Rightarrow> string list" where
  "batch_desired operation old tags =
     (if operation = ''add'' then sorted_set (old @ tags)
      else if operation = ''remove'' then sorted_set (filter (\<lambda>t. t \<notin> set tags) old)
      else tags)"

fun batch_loop :: "entity \<Rightarrow> string \<Rightarrow> string list \<Rightarrow> string list \<Rightarrow> db \<Rightarrow> ((string \<times> string list) list \<times> db) res" where
  "batch_loop E operation tags [] d = Inr ([], d)"
| "batch_loop E operation tags (eid # eids) d =
     (let old = entity_tag_ids E eid d; desired = batch_desired operation old tags in
      rbind (if desired = old then Inr d
             else insert_assocs E (map (\<lambda>t. (t, eid)) desired) (delete_entity_assocs E eid d)) (\<lambda>d'.
      rbind (batch_loop E operation tags eids d') (\<lambda>(previous, d'').
      Inr ((eid, old) # previous, d''))))"

definition batch_change_entity_tags ::
  "string \<Rightarrow> string list \<Rightarrow> string list \<Rightarrow> string \<Rightarrow> db \<Rightarrow> ((string \<times> string list) list \<times> db) res" where
  "batch_change_entity_tags etype eids tids operation d =
     rbind (entity_of etype) (\<lambda>E. (let ids = clean_ids eids; tags = clean_ids tids in
      if operation \<notin> set [''add'', ''remove'', ''replace''] then Inl (ValueError ''bad operation'')
      else if ids = [] then Inl (ValueError ''no user or group selected'')
      else if tags = [] \<and> operation \<noteq> ''replace'' then Inl (ValueError ''no tag selected'')
      else if known_count (entity_ids E d) ids \<noteq> length ids then Inl (ValueError ''selection has unknown records'')
      else if tags \<noteq> [] \<and> known_count (map t_id (db_tags d)) tags \<noteq> length tags
        then Inl (ValueError ''unknown tag'')
      else batch_loop E operation tags ids d))"

fun restore_snapshots :: "entity \<Rightarrow> (string \<times> string list) list \<Rightarrow> db \<Rightarrow> db res" where
  "restore_snapshots E [] d = Inr d"
| "restore_snapshots E ((eid, tags) # rest) d =
     rbind (insert_assocs E (map (\<lambda>t. (t, eid)) tags) (delete_entity_assocs E eid d)) (restore_snapshots E rest)"

definition restore_entity_tag_snapshots :: "string \<Rightarrow> (string \<times> string list) list \<Rightarrow> db \<Rightarrow> db res" where
  "restore_entity_tag_snapshots etype snaps d =
     rbind (entity_of etype) (\<lambda>E. restore_snapshots E snaps d)"

definition get_tag_members :: "string \<Rightarrow> db \<Rightarrow> string list \<times> string list" where
  "get_tag_members tid d =
     (sort (map snd (filter (\<lambda>p. fst p = tid) (db_user_tags d))),
      sort (map snd (filter (\<lambda>p. fst p = tid) (db_group_tags d))))"

record tag_counts =
  tc_users :: nat
  tc_groups :: nat
  tc_rules :: nat

definition list_tag_counts :: "db \<Rightarrow> (string \<times> tag_counts) list" where
  "list_tag_counts d =
     (let us = map fst (db_user_tags d); gs = map fst (db_group_tags d);
          rs = map fr_owner_id (filter (\<lambda>r. fr_owner_type r = ''tag'') (db_rules d))
      in map (\<lambda>t. (t, \<lparr>tc_users = count_list us t, tc_groups = count_list gs t, tc_rules = count_list rs t\<rparr>))
           (dedup (sorted_set us @ sorted_set gs @ sorted_set rs)))"

section \<open>Metadata and schema\<close>

definition get_meta :: "string \<Rightarrow> db \<Rightarrow> string option" where
  "get_meta k d = map_option snd (tbl_get fst k (db_meta d))"

definition set_meta :: "string \<Rightarrow> string \<Rightarrow> db \<Rightarrow> db" where
  "set_meta k v d = d\<lparr>db_meta := tbl_upsert fst (k, v) (db_meta d)\<rparr>"

text \<open>\<open>SELECT MAX(version)\<close>, where no row counts as 0.\<close>

definition schema_version :: "db \<Rightarrow> int" where
  "schema_version d = (case map fst (db_versions d) of [] \<Rightarrow> 0 | v # vs \<Rightarrow> foldl max v vs)"

definition supported_version :: int where
  "supported_version = 4"

definition record_version :: "string \<Rightarrow> int \<Rightarrow> string \<Rightarrow> db \<Rightarrow> db res" where
  "record_version now v nm d =
     (if v \<in> set (map fst (db_versions d)) then Inl (IntegrityError ''schema_migrations.version'')
      else Inr (d\<lparr>db_versions := db_versions d @ [(v, nm, now)]\<rparr>))"

definition migrate_v2_query_indexes :: "string \<Rightarrow> db \<Rightarrow> db res" where
  "migrate_v2_query_indexes now d = record_version now 2 ''query-pagination-indexes''
     (d\<lparr>db_peers := map (\<lambda>r. peer_index (pr_payload r) r) (db_peers d),
       db_rules := map (\<lambda>r. fw_index (fr_payload r) r) (db_rules d)\<rparr>)"

definition migrate_v3_normalize_group_cidrs :: "netaddr \<Rightarrow> string \<Rightarrow> db \<Rightarrow> db res" where
  "migrate_v3_normalize_group_cidrs na now d = record_version now 3 ''normalize-group-cidrs''
     (d\<lparr>db_groups := map (normalize_group_payload na) (db_groups d)\<rparr>)"

definition migrate_v4_tags :: "string \<Rightarrow> db \<Rightarrow> db res" where
  "migrate_v4_tags now d = record_version now 4 ''firewall-tags'' d"

definition ensure_schema :: "netaddr \<Rightarrow> string \<Rightarrow> string option \<Rightarrow> db \<Rightarrow> db res" where
  "ensure_schema na now quick_check d =
     (if (case quick_check of None \<Rightarrow> True | Some c \<Rightarrow> lower c \<noteq> ''ok'') then Inl (RuntimeError ''quick_check'')
      else (let current = schema_version d in
        if current > supported_version then Inl (RuntimeError ''schema newer than the program'')
        else rbind (if current < 1 then record_version now 1 ''initial-structured-metadata'' d else Inr d) (\<lambda>d1.
             rbind (if current < 2 then migrate_v2_query_indexes now d1 else Inr d1) (\<lambda>d2.
             rbind (if current < 3 then migrate_v3_normalize_group_cidrs na now d2 else Inr d2) (\<lambda>d3.
             if current < 4 then migrate_v4_tags now d3 else Inr d3)))))"

end
