(* ===== verification/Storage_Laws.thy ===== *)
theory Storage_Laws
  imports Storage
begin

text \<open>
  The invariant of the store: primary keys, unique indexes and foreign keys hold, and the index
  columns of the rule and peer rows are those of their payloads.  Every write operation keeps it,
  so it holds in every database reachable from a bootstrap by write operations.
\<close>

section \<open>The invariant\<close>

definition fw_row_ok :: "fw_row \<Rightarrow> bool" where
  "fw_row_ok r \<longleftrightarrow> firewall_values (fr_owner_id r) (fr_payload r) = Inr r"

definition peer_row_ok :: "peer_row \<Rightarrow> bool" where
  "peer_row_ok r \<longleftrightarrow> peer_values (pr_id r) (pr_payload r) = r \<and> p_id (pr_payload r) = pr_id r"

definition users_ok :: "db \<Rightarrow> bool" where
  "users_ok d \<longleftrightarrow> tbl_ok username (db_users d)"

definition groups_ok :: "db \<Rightarrow> bool" where
  "groups_ok d \<longleftrightarrow> tbl_ok g_id (db_groups d)"

definition peers_ok :: "db \<Rightarrow> bool" where
  "peers_ok d \<longleftrightarrow> tbl_ok pr_id (db_peers d)"

definition tags_ok :: "db \<Rightarrow> bool" where
  "tags_ok d \<longleftrightarrow> tbl_ok t_id (db_tags d)"

definition rules_ok :: "db \<Rightarrow> bool" where
  "rules_ok d \<longleftrightarrow> tbl_ok fr_id (db_rules d) \<and> list_all fw_row_ok (db_rules d)"

text \<open>The unique indexes beside the primary keys.\<close>

definition uniques_ok :: "db \<Rightarrow> bool" where
  "uniques_ok d \<longleftrightarrow> distinct (map g_name (db_groups d)) \<and> distinct (map t_name (db_tags d)) \<and>
     distinct (map pr_bound_username (db_peers d)) \<and> distinct (map fst (db_versions d))"

definition assoc_ok :: "entity \<Rightarrow> db \<Rightarrow> bool" where
  "assoc_ok E d \<longleftrightarrow> distinct (assoc_of E d) \<and>
     list_all (\<lambda>(t, e). t \<in> set (map t_id (db_tags d)) \<and> e \<in> set (entity_ids E d)) (assoc_of E d)"

text \<open>Identifiers are stored stripped and are not empty.\<close>

definition clean :: "string \<Rightarrow> bool" where
  "clean s \<longleftrightarrow> strip s = s \<and> s \<noteq> []"

definition ids_clean :: "db \<Rightarrow> bool" where
  "ids_clean d \<longleftrightarrow> list_all clean (map username (db_users d)) \<and> list_all clean (map g_id (db_groups d)) \<and>
     list_all clean (map t_id (db_tags d)) \<and> list_all clean (map pr_id (db_peers d))"

definition db_ok :: "db \<Rightarrow> bool" where
  "db_ok d \<longleftrightarrow> ids_clean d \<and> users_ok d \<and> groups_ok d \<and> peers_ok d \<and> tags_ok d \<and> rules_ok d \<and> uniques_ok d \<and>
     list_all peer_row_ok (db_peers d) \<and> assoc_ok EUser d \<and> assoc_ok EGroup d"

lemmas table_defs = users_ok_def groups_ok_def peers_ok_def tags_ok_def

section \<open>The tables as keyed stores\<close>

interpretation users: keyed_store username put_user get_user users_ok
  by unfold_locales
    (auto simp: put_user_def get_user_def users_ok_def tbl_get_upsert tbl_ok_upsert dest: tbl_get_SomeD)

interpretation groups: keyed_table g_id put_group get_group groups_ok delete_group
  by unfold_locales
    (auto simp: put_group_def get_group_def groups_ok_def delete_group_def tbl_get_upsert tbl_get_delete
      tbl_ok_upsert tbl_ok_delete dest: tbl_get_SomeD)

interpretation peers: keyed_table pr_id put_peer get_peer_row peers_ok delete_peer
  by unfold_locales
    (auto simp: put_peer_def get_peer_row_def peers_ok_def delete_peer_def tbl_get_upsert tbl_get_delete
      tbl_ok_upsert tbl_ok_delete dest: tbl_get_SomeD)

interpretation tags: keyed_table t_id put_tag get_tag tags_ok delete_tag
  by unfold_locales
    (auto simp: put_tag_def get_tag_def tags_ok_def delete_tag_def tbl_get_upsert tbl_get_delete
      tbl_ok_upsert tbl_ok_delete dest: tbl_get_SomeD)

interpretation meta: keyed_store fst "\<lambda>kv. set_meta (fst kv) (snd kv)"
    "\<lambda>k d. map_option (Pair k) (get_meta k d)" "\<lambda>d. tbl_ok fst (db_meta d)"
  by unfold_locales (auto simp: set_meta_def get_meta_def tbl_get_upsert tbl_ok_upsert)

section \<open>Second keys\<close>

text \<open>An upsert keeps a second key unique when no other row has the new value.\<close>

lemma set_tbl_upsert_sub: "set (tbl_upsert key r t) \<subseteq> insert r (set t)"
  by (induction t) auto

lemma tbl_upsert_unique:
  assumes "tbl_ok key t" "distinct (map f t)" "\<forall>x\<in>set t. f x = f r \<longrightarrow> key x = key r"
  shows "distinct (map f (tbl_upsert key r t))"
  using assms
proof (induction t)
  case (Cons x t)
  show ?case
  proof (cases "key x = key r")
    case True
    have "f r \<notin> f ` set t"
    proof
      assume "f r \<in> f ` set t"
      then obtain y where "y \<in> set t" "f y = f r" by (metis imageE)
      moreover then have "key y = key x" using Cons.prems(3) True by simp
      ultimately show False using Cons.prems(1) by (auto simp: tbl_ok_def image_iff)
    qed
    then show ?thesis using True Cons.prems(2) by simp
  next
    case False
    then have "f x \<noteq> f r" using Cons.prems(3) by auto
    then have "f x \<notin> f ` set (tbl_upsert key r t)"
      using set_tbl_upsert_sub [of key r t] Cons.prems(2) by auto
    then show ?thesis using False Cons by (auto simp: tbl_ok_def)
  qed
qed simp

lemma distinct_map_filter': "distinct (map f t) \<Longrightarrow> distinct (map f (filter P t))"
  by (induction t) auto

section \<open>Rule rows\<close>

lemma fw_index_fields [simp]:
  "fr_id (fw_index p row) = fr_id row" "fr_owner_id (fw_index p row) = fr_owner_id row"
  "fr_payload (fw_index p row) = fr_payload row" "fr_priority (fw_index p row) = fr_priority row"
  "fr_owner_type (fw_index p row) = fr_owner_type row" "fr_enabled (fw_index p row) = fr_enabled row"
  by (simp_all add: fw_index_def split: prod.splits)

lemma firewall_values_InrD:
  assumes "firewall_values oid r = Inr row"
  shows "fr_id row = strip (rule_id r)" "fr_id row \<noteq> []"
    "fr_owner_id row = (if owner_id r = [] then oid else owner_id r)"
    "fr_payload row = r\<lparr>owner_id := fr_owner_id row\<rparr>" "fr_priority row = priority r"
    "fr_owner_type row = owner_text (owner_type r)" "fr_enabled row = enabled r"
  using assms by (auto simp: firewall_values_def Let_def split: if_splits)

lemma firewall_values_again:
  assumes "firewall_values oid r = Inr row"
  shows "firewall_values (fr_owner_id row) (fr_payload row) = Inr row"
proof -
  let ?o = "if owner_id r = [] then oid else owner_id r"
  have "firewall_values ?o (r\<lparr>owner_id := ?o\<rparr>) = firewall_values oid r"
    by (auto simp: firewall_values_def Let_def)
  then show ?thesis using assms firewall_values_InrD(3,4) [OF assms] by simp
qed

lemma firewall_values_ok: "firewall_values oid r = Inr row \<Longrightarrow> fw_row_ok row"
  by (simp add: fw_row_ok_def firewall_values_again)

lemma fw_row_okD:
  assumes "fw_row_ok r"
  shows "fr_id r = strip (rule_id (fr_payload r))" "owner_id (fr_payload r) = fr_owner_id r"
    "priority (fr_payload r) = fr_priority r" "owner_text (owner_type (fr_payload r)) = fr_owner_type r"
    "enabled (fr_payload r) = fr_enabled r" "fr_id r \<noteq> []"
proof -
  note v = assms [unfolded fw_row_ok_def]
  show "fr_id r = strip (rule_id (fr_payload r))" "fr_id r \<noteq> []"
    using firewall_values_InrD(1,2) [OF v] by auto
  have "owner_id (fr_payload r) = owner_id ((fr_payload r)\<lparr>owner_id := fr_owner_id r\<rparr>)"
    using firewall_values_InrD(4) [OF v] by simp
  then show "owner_id (fr_payload r) = fr_owner_id r" by simp
  show "priority (fr_payload r) = fr_priority r" "owner_text (owner_type (fr_payload r)) = fr_owner_type r"
    "enabled (fr_payload r) = fr_enabled r" using firewall_values_InrD(5,6,7) [OF v] by auto
qed

lemma insert_rows_iff:
  "insert_rows rows t = Inr t' \<longleftrightarrow>
   t' = t @ rows \<and> distinct (map fr_id rows) \<and> fr_id ` set rows \<inter> fr_id ` set t = {}"
proof (induction rows arbitrary: t)
  case (Cons r rows)
  have taken: "list_ex (\<lambda>x. fr_id x = fr_id r) t \<longleftrightarrow> fr_id r \<in> fr_id ` set t"
    unfolding list_ex_iff image_iff by metis
  show ?case
    by (cases "fr_id r \<in> fr_id ` set t") (simp_all add: taken Cons.IH, blast)
qed auto

lemma replace_firewall_owner_iff:
  "replace_firewall_owner oid rs d = Inr d' \<longleftrightarrow>
   (\<exists>rows. mapM (firewall_values oid) rs = Inr rows \<and> distinct (map fr_id rows) \<and>
     fr_id ` set rows \<inter> fr_id ` {x \<in> set (db_rules d). fr_owner_id x \<noteq> oid} = {} \<and>
     d' = d\<lparr>db_rules := filter (\<lambda>x. fr_owner_id x \<noteq> oid) (db_rules d) @ rows\<rparr>)"
  by (auto simp: replace_firewall_owner_def rbind_Inr_iff insert_rows_iff)

lemma rows_ok: "mapM (firewall_values oid) rs = Inr rows \<Longrightarrow> list_all fw_row_ok rows"
  using firewall_values_ok mapM_mem by (fastforce simp: list_all_iff)

section \<open>Associations\<close>

lemma assoc_lens [simp]:
  "assoc_of E (set_assoc E l d) = l"
  "set_assoc E l (set_assoc E l' d) = set_assoc E l d"
  "set_assoc E (assoc_of E d) d = d"
  "db_tags (set_assoc E l d) = db_tags d" "entity_ids F (set_assoc E l d) = entity_ids F d"
  "db_users (set_assoc E l d) = db_users d" "db_groups (set_assoc E l d) = db_groups d"
  "db_peers (set_assoc E l d) = db_peers d" "db_rules (set_assoc E l d) = db_rules d"
  "db_versions (set_assoc E l d) = db_versions d" "db_meta (set_assoc E l d) = db_meta d"
  by (cases E; cases F; simp; fail)+

lemma assoc_other [simp]: "E \<noteq> F \<Longrightarrow> assoc_of E (set_assoc F l d) = assoc_of E d"
  by (cases E; cases F) auto

definition fk_ok :: "entity \<Rightarrow> db \<Rightarrow> string \<times> string \<Rightarrow> bool" where
  "fk_ok E d p \<longleftrightarrow> fst p \<in> set (map t_id (db_tags d)) \<and> snd p \<in> set (entity_ids E d)"

lemma fk_ok_set_assoc [simp]: "fk_ok E (set_assoc F l d) = fk_ok E d"
  by (simp add: fk_ok_def fun_eq_iff)

lemma assoc_ok_alt: "assoc_ok E d \<longleftrightarrow> distinct (assoc_of E d) \<and> (\<forall>p\<in>set (assoc_of E d). fk_ok E d p)"
  by (auto simp: assoc_ok_def fk_ok_def list_all_iff)

lemma insert_assocs_iff:
  "insert_assocs E ps d = Inr d' \<longleftrightarrow>
   d' = set_assoc E (assoc_of E d @ ps) d \<and> distinct ps \<and> set ps \<inter> set (assoc_of E d) = {} \<and>
   (\<forall>p\<in>set ps. fk_ok E d p)"
proof (induction ps arbitrary: d)
  case (Cons p ps)
  show ?case
  proof (cases "p \<notin> set (assoc_of E d) \<and> fk_ok E d p")
    case True
    then have "insert_assoc E p d = Inr (set_assoc E (assoc_of E d @ [p]) d)"
      by (auto simp: insert_assoc_def fk_ok_def)
    then show ?thesis using True by (auto simp: Cons.IH)
  next
    case False
    then have "\<not> is_ok (insert_assoc E p d)" by (auto simp: insert_assoc_def fk_ok_def)
    then obtain e where "insert_assoc E p d = Inl e" by (cases "insert_assoc E p d") auto
    then show ?thesis using False by auto
  qed
qed auto

lemma set_assoc_ok:
  assumes "assoc_ok F d" "distinct l" "\<forall>p\<in>set l. fk_ok E d p"
  shows "assoc_ok F (set_assoc E l d)"
  using assms by (cases "E = F") (auto simp: assoc_ok_alt)

lemma insert_assocs_ok:
  assumes "insert_assocs E ps d = Inr d'" "assoc_ok E d" "assoc_ok F d"
  shows "assoc_ok F d'"
proof -
  have "d' = set_assoc E (assoc_of E d @ ps) d" using assms(1) by (simp add: insert_assocs_iff)
  moreover have "assoc_ok F (set_assoc E (assoc_of E d @ ps) d)"
    by (rule set_assoc_ok) (use assms in \<open>auto simp: insert_assocs_iff assoc_ok_alt\<close>)
  ultimately show ?thesis by simp
qed

lemma filter_assoc_ok:
  assumes "assoc_ok E d" "assoc_ok F d"
  shows "assoc_ok F (set_assoc E (filter Q (assoc_of E d)) d)"
  by (rule set_assoc_ok) (use assms in \<open>auto simp: assoc_ok_alt\<close>)

text \<open>An operation that touches associations only.\<close>

definition same_tables :: "db \<Rightarrow> db \<Rightarrow> bool" where
  "same_tables d d' \<longleftrightarrow> db_versions d' = db_versions d \<and> db_meta d' = db_meta d \<and> db_users d' = db_users d \<and>
     db_groups d' = db_groups d \<and> db_peers d' = db_peers d \<and> db_rules d' = db_rules d \<and> db_tags d' = db_tags d"

definition only_assocs :: "db \<Rightarrow> db \<Rightarrow> bool" where
  "only_assocs d d' \<longleftrightarrow> same_tables d d' \<and>
     (assoc_ok EUser d \<longrightarrow> assoc_ok EGroup d \<longrightarrow> assoc_ok EUser d' \<and> assoc_ok EGroup d')"

lemma only_assocs_refl: "only_assocs d d"
  by (simp add: only_assocs_def same_tables_def)

lemma only_assocs_trans: "only_assocs d d' \<Longrightarrow> only_assocs d' d'' \<Longrightarrow> only_assocs d d''"
  by (simp add: only_assocs_def same_tables_def)

lemma only_assocs_set:
  assumes "\<And>F. assoc_ok E d \<Longrightarrow> assoc_ok F d \<Longrightarrow> assoc_ok F d'" "d' = set_assoc E l d"
  shows "only_assocs d d'"
proof -
  have "same_tables d d'" by (simp add: assms(2) same_tables_def)
  then show ?thesis using assms(1) by (cases E) (auto simp: only_assocs_def)
qed

lemma only_assocs_insert: "insert_assocs E ps d = Inr d' \<Longrightarrow> only_assocs d d'"
proof (rule only_assocs_set [where E = E and l = "assoc_of E d @ ps"])
  assume i: "insert_assocs E ps d = Inr d'"
  then show "d' = set_assoc E (assoc_of E d @ ps) d" by (simp add: insert_assocs_iff)
  show "assoc_ok F d'" if "assoc_ok E d" "assoc_ok F d" for F using i that by (rule insert_assocs_ok)
qed

lemma only_assocs_filter: "only_assocs d (set_assoc E (filter Q (assoc_of E d)) d)"
  by (rule only_assocs_set [where E = E, OF filter_assoc_ok refl])

lemma only_assocs_ok:
  assumes "only_assocs d d'" "db_ok d" shows "db_ok d'"
  using assms by (simp add: only_assocs_def same_tables_def db_ok_def table_defs rules_ok_def uniques_ok_def ids_clean_def)

lemma only_assocs_replace:
  assumes "insert_assocs E ps (set_assoc E (filter Q (assoc_of E d)) d) = Inr d'"
  shows "only_assocs d d'"
  using only_assocs_trans [OF only_assocs_filter only_assocs_insert [OF assms]] .

section \<open>Every operation keeps the invariant\<close>

text \<open>The write operations of the store.\<close>

datatype db_op =
    UpsertUser user
  | UpsertGroup group
  | DeleteGroup string
  | UpsertPeer peer
  | DeletePeer string
  | ReplaceOwner string "rule list"
  | CreateTag string string string
  | UpdateTag string string string
  | DeleteTag string
  | SetTagMembers string "string list" "string list"
  | ReplaceEntityTags string string "string list"
  | BatchEntityTags string "string list" "string list" string
  | RestoreEntityTags string "(string \<times> string list) list"
  | SetMeta string string
  | EnsureSchema "string option"

fun apply_op :: "netaddr \<Rightarrow> string \<Rightarrow> db_op \<Rightarrow> db \<Rightarrow> db res" where
  "apply_op na now (UpsertUser u) d = upsert_user u d"
| "apply_op na now (UpsertGroup g) d = upsert_group na g d"
| "apply_op na now (DeleteGroup gid) d = Inr (delete_group gid d)"
| "apply_op na now (UpsertPeer p) d = upsert_peer p d"
| "apply_op na now (DeletePeer pid) d = Inr (delete_peer pid d)"
| "apply_op na now (ReplaceOwner oid rs) d = replace_firewall_owner oid rs d"
| "apply_op na now (CreateTag tid nm desc) d = create_tag now tid nm desc d"
| "apply_op na now (UpdateTag tid nm desc) d = update_tag now tid nm desc d"
| "apply_op na now (DeleteTag tid) d = Inr (delete_tag tid d)"
| "apply_op na now (SetTagMembers tid us gs) d = set_tag_members tid us gs d"
| "apply_op na now (ReplaceEntityTags et eid ts) d = replace_entity_tags et eid ts d"
| "apply_op na now (BatchEntityTags et es ts oper) d = rbind (batch_change_entity_tags et es ts oper d) (\<lambda>(_, d'). Inr d')"
| "apply_op na now (RestoreEntityTags et snaps) d = restore_entity_tag_snapshots et snaps d"
| "apply_op na now (SetMeta k v) d = Inr (set_meta k v d)"
| "apply_op na now (EnsureSchema qc) d = ensure_schema na now qc d"

inductive db_reachable :: "netaddr \<Rightarrow> db \<Rightarrow> bool" for na where
  boot: "ensure_schema na now qc empty_db = Inr d \<Longrightarrow> db_reachable na d"
| step: "db_reachable na d \<Longrightarrow> connection_write (apply_op na now op) d = (r, d') \<Longrightarrow> db_reachable na d'"

lemma db_okI:
  "ids_clean d \<Longrightarrow> users_ok d \<Longrightarrow> groups_ok d \<Longrightarrow> peers_ok d \<Longrightarrow> tags_ok d \<Longrightarrow> rules_ok d \<Longrightarrow> uniques_ok d \<Longrightarrow>
   list_all peer_row_ok (db_peers d) \<Longrightarrow> assoc_ok EUser d \<Longrightarrow> assoc_ok EGroup d \<Longrightarrow> db_ok d"
  by (simp add: db_ok_def)

lemma list_all_keys: "list_all P (map key (tbl_upsert key r t)) \<longleftrightarrow> P (key r) \<and> list_all P (map key t)"
  using keys_tbl_upsert [of key r t] by (simp add: list_all_iff)

lemma upsert_keys_superset: "key ` set t \<subseteq> key ` set (tbl_upsert key r t)"
  by (simp add: keys_tbl_upsert subset_insertI)

lemma upsert_user_ok:
  assumes "db_ok d" "upsert_user u d = Inr d'" shows "db_ok d'"
proof -
  obtain v where d': "d' = put_user v d" and cl: "clean (username v)" using assms(2) by (auto simp: clean_def upsert_user_def Let_def split: if_splits)
  show ?thesis
    using assms(1) cl users.ok_upsert [of d v] unfolding d'
    by (auto simp: list_all_keys db_ok_def put_user_def table_defs rules_ok_def uniques_ok_def ids_clean_def assoc_ok_alt fk_ok_def keys_tbl_upsert)
qed

lemma upsert_group_ok:
  assumes "db_ok d" "upsert_group na g d = Inr d'" shows "db_ok d'"
proof -
  obtain v where d': "d' = put_group v d" and cl: "clean (g_id v)" and u: "\<forall>h\<in>set (db_groups d). g_name h = g_name v \<longrightarrow> g_id h = g_id v"
    using assms(2) by (auto simp: upsert_group_def clean_def Let_def list_ex_iff split: if_splits)
  have "distinct (map g_name (tbl_upsert g_id v (db_groups d)))"
    using assms(1) u by (intro tbl_upsert_unique) (auto simp: db_ok_def groups_ok_def uniques_ok_def)
  then show ?thesis
    using assms(1) cl groups.ok_upsert [of d v] unfolding d'
    by (auto simp: list_all_keys db_ok_def put_group_def table_defs rules_ok_def uniques_ok_def ids_clean_def assoc_ok_alt fk_ok_def keys_tbl_upsert)
qed

lemma peer_index_fields [simp]:
  "pr_id (peer_index p row) = pr_id row" "pr_bound_username (peer_index p row) = pr_bound_username row"
  "pr_payload (peer_index p row) = pr_payload row"
  by (simp_all add: peer_index_def split: prod.splits)

lemma peer_values_fields [simp]:
  "pr_id (peer_values pid p) = pid" "pr_payload (peer_values pid p) = p"
  "pr_bound_username (peer_values pid p) = bound_username p"
  by (simp_all add: peer_values_def)

lemma peer_values_ok: "peer_row_ok (peer_values pid (p\<lparr>p_id := pid\<rparr>))"
  by (simp add: peer_row_ok_def)

lemma upsert_peer_ok:
  assumes "db_ok d" "upsert_peer p d = Inr d'" shows "db_ok d'"
proof -
  obtain v where d': "d' = put_peer v d" and cl: "clean (pr_id v)" and v: "peer_row_ok v"
    and u: "\<forall>q\<in>set (db_peers d). pr_bound_username q = pr_bound_username v \<longrightarrow> pr_id q = pr_id v"
    using assms(2) peer_values_ok by (auto simp: upsert_peer_def clean_def Let_def list_ex_iff split: if_splits)
  have "distinct (map pr_bound_username (tbl_upsert pr_id v (db_peers d)))"
    using assms(1) u by (intro tbl_upsert_unique) (auto simp: db_ok_def peers_ok_def uniques_ok_def)
  moreover have "list_all peer_row_ok (tbl_upsert pr_id v (db_peers d))"
    using assms(1) v set_tbl_upsert_sub [of pr_id v "db_peers d"] by (auto simp: db_ok_def list_all_iff)
  ultimately show ?thesis
    using assms(1) cl peers.ok_upsert [of d v] unfolding d'
    by (auto simp: list_all_keys db_ok_def put_peer_def table_defs rules_ok_def uniques_ok_def ids_clean_def assoc_ok_alt fk_ok_def)
qed

lemma delete_group_ok: "db_ok d \<Longrightarrow> db_ok (delete_group gid d)"
  using groups.ok_remove [of d gid]
  by (auto simp: db_ok_def delete_group_def table_defs rules_ok_def uniques_ok_def ids_clean_def assoc_ok_alt fk_ok_def
      set_tbl_delete tbl_delete_def distinct_map_filter' list_all_iff)

lemma delete_peer_ok: "db_ok d \<Longrightarrow> db_ok (delete_peer pid d)"
  using peers.ok_remove [of d pid]
  by (auto simp: db_ok_def delete_peer_def table_defs rules_ok_def uniques_ok_def ids_clean_def assoc_ok_alt fk_ok_def
      tbl_delete_def distinct_map_filter' list_all_iff)

lemma replace_firewall_owner_ok:
  assumes "db_ok d" "replace_firewall_owner oid rs d = Inr d'" shows "db_ok d'"
proof -
  obtain rows where r: "mapM (firewall_values oid) rs = Inr rows" "distinct (map fr_id rows)"
    "fr_id ` set rows \<inter> fr_id ` {x \<in> set (db_rules d). fr_owner_id x \<noteq> oid} = {}"
    and d': "d' = d\<lparr>db_rules := filter (\<lambda>x. fr_owner_id x \<noteq> oid) (db_rules d) @ rows\<rparr>"
    using assms(2) by (auto simp: replace_firewall_owner_iff)
  have "rules_ok d'"
    using assms(1) r(2,3) rows_ok [OF r(1)]
    by (auto simp: d' rules_ok_def db_ok_def tbl_ok_def distinct_map_filter' list_all_iff Int_commute)
  then show ?thesis
    using assms(1) by (simp add: d' db_ok_def table_defs uniques_ok_def ids_clean_def assoc_ok_alt fk_ok_def)
qed

lemma create_tag_ok:
  assumes "db_ok d" "create_tag now tid nm desc d = Inr d'" shows "db_ok d'"
proof -
  obtain t where d': "d' = d\<lparr>db_tags := db_tags d @ [t]\<rparr>" and cl: "clean (t_id t)"
    and n: "\<forall>x\<in>set (db_tags d). t_id x \<noteq> t_id t \<and> t_name x \<noteq> t_name t"
    using assms(2) by (auto simp: create_tag_def clean_def Let_def list_ex_iff split: if_splits)
  then have "t_id t \<notin> t_id ` set (db_tags d)" "t_name t \<notin> t_name ` set (db_tags d)" by (metis imageE)+
  then show ?thesis
    using assms(1) cl by (auto simp: d' db_ok_def table_defs rules_ok_def uniques_ok_def ids_clean_def tbl_ok_def assoc_ok_alt fk_ok_def)
qed

lemma update_tag_ok:
  assumes "db_ok d" "update_tag now tid nm desc d = Inr d'" shows "db_ok d'"
proof -
  obtain t0 t where t0: "get_tag tid d = Some t0" and d': "d' = put_tag t d" and tid: "t_id t = t_id t0"
    and u: "\<forall>x\<in>set (db_tags d). t_name x = t_name t \<longrightarrow> t_id x = t_id t"
    using assms(2) tags.fetch_key
    by (fastforce simp: update_tag_def Let_def list_ex_iff split: if_splits option.splits)
  have cl: "clean (t_id t)"
    using assms(1) t0 tid by (auto simp: get_tag_def db_ok_def ids_clean_def list_all_iff dest!: tbl_get_SomeD)
  have "distinct (map t_name (tbl_upsert t_id t (db_tags d)))"
    using assms(1) u by (intro tbl_upsert_unique) (auto simp: db_ok_def tags_ok_def uniques_ok_def)
  then show ?thesis
    using assms(1) cl tags.ok_upsert [of d t] unfolding d'
    by (auto simp: list_all_keys db_ok_def put_tag_def table_defs rules_ok_def uniques_ok_def ids_clean_def assoc_ok_alt fk_ok_def keys_tbl_upsert)
qed

lemma delete_tag_ok: "db_ok d \<Longrightarrow> db_ok (delete_tag tid d)"
  using tags.ok_remove [of d tid]
  by (auto simp: db_ok_def delete_tag_def table_defs rules_ok_def uniques_ok_def ids_clean_def assoc_ok_alt fk_ok_def
      set_tbl_delete tbl_delete_def distinct_map_filter' list_all_iff)

lemma set_tag_members_only:
  assumes "set_tag_members tid us gs d = Inr d'" shows "only_assocs d d'"
proof -
  obtain d1 where i: "insert_assocs EUser (map (Pair tid) (clean_ids us))
        (delete_tag_assocs EGroup tid (delete_tag_assocs EUser tid d)) = Inr d1"
    "insert_assocs EGroup (map (Pair tid) (clean_ids gs)) d1 = Inr d'"
    using assms by (auto simp: set_tag_members_def Let_def rbind_Inr_iff split: if_splits)
  have del: "only_assocs x (delete_tag_assocs E tid x)" for E x
    unfolding delete_tag_assocs_def by (rule only_assocs_filter)
  have "only_assocs d (delete_tag_assocs EGroup tid (delete_tag_assocs EUser tid d))"
    by (rule only_assocs_trans [OF del del])
  then show ?thesis
    using only_assocs_insert [OF i(1)] only_assocs_insert [OF i(2)] by (blast intro: only_assocs_trans)
qed

lemma replace_entity_tags_only: "replace_entity_tags et eid ts d = Inr d' \<Longrightarrow> only_assocs d d'"
  by (auto simp: replace_entity_tags_def Let_def rbind_Inr_iff delete_entity_assocs_def
      intro: only_assocs_replace split: if_splits)

declare batch_desired.simps [simp del]

lemma batch_loop_only: "batch_loop E oper tags es d = Inr (prev, d') \<Longrightarrow> only_assocs d d'"
proof (induction es arbitrary: d prev)
  case (Cons e es)
  obtain d1 p where s: "(if batch_desired oper (entity_tag_ids E e d) tags = entity_tag_ids E e d then Inr d
       else insert_assocs E (map (\<lambda>t. (t, e)) (batch_desired oper (entity_tag_ids E e d) tags)) (delete_entity_assocs E e d)) = Inr d1"
    "batch_loop E oper tags es d1 = Inr (p, d')"
    using Cons.prems by (auto simp: Let_def rbind_Inr_iff)
  have "only_assocs d d1"
    using s(1) only_assocs_refl by (auto simp: delete_entity_assocs_def intro: only_assocs_replace split: if_splits)
  then show ?case using Cons.IH [OF s(2)] by (rule only_assocs_trans)
qed (simp add: only_assocs_refl)

lemma batch_change_only:
  "batch_change_entity_tags et es ts oper d = Inr (prev, d') \<Longrightarrow> only_assocs d d'"
  by (auto simp: batch_change_entity_tags_def Let_def rbind_Inr_iff intro: batch_loop_only split: if_splits)

lemma restore_snapshots_only: "restore_snapshots E snaps d = Inr d' \<Longrightarrow> only_assocs d d'"
proof (induction snaps arbitrary: d)
  case (Cons s snaps)
  obtain e ts where s: "s = (e, ts)" by fastforce
  then obtain d1 where i: "insert_assocs E (map (\<lambda>t. (t, e)) ts) (delete_entity_assocs E e d) = Inr d1"
    "restore_snapshots E snaps d1 = Inr d'"
    using Cons.prems by (auto simp: rbind_Inr_iff)
  show ?case
    using only_assocs_trans [OF only_assocs_replace [OF i(1) [unfolded delete_entity_assocs_def]] Cons.IH [OF i(2)]] .
qed (simp add: only_assocs_refl)

lemma restore_entity_only: "restore_entity_tag_snapshots et snaps d = Inr d' \<Longrightarrow> only_assocs d d'"
  by (auto simp: restore_entity_tag_snapshots_def rbind_Inr_iff intro: restore_snapshots_only)

section \<open>Schema migrations\<close>

text \<open>The database with its index columns computed afresh from the payloads.\<close>

definition reindexed :: "db \<Rightarrow> db" where
  "reindexed d = d\<lparr>db_peers := map (\<lambda>r. peer_index (pr_payload r) r) (db_peers d),
     db_rules := map (\<lambda>r. fw_index (fr_payload r) r) (db_rules d)\<rparr>"

lemma fw_index_again [simp]: "fw_index p (fw_index p r) = fw_index p r"
  by (simp add: fw_index_def split: prod.splits)

lemma peer_index_again [simp]: "peer_index p (peer_index p r) = peer_index p r"
  by (simp add: peer_index_def split: prod.splits)

lemma fw_row_ok_index: "fw_row_ok r \<Longrightarrow> fw_index (fr_payload r) r = r"
proof -
  assume v: "fw_row_ok r"
  have "row = fw_index (fr_payload row) row" if "firewall_values oid p = Inr row" for oid p row
    using that by (auto simp: firewall_values_def Let_def split: if_splits)
  then show ?thesis using v by (metis fw_row_ok_def)
qed

lemma peer_row_ok_index: "peer_row_ok r \<Longrightarrow> peer_index (pr_payload r) r = r"
proof -
  assume v: "peer_row_ok r"
  have "peer_index p (peer_values pid p) = peer_values pid p" for pid p by (simp add: peer_values_def)
  then show ?thesis using v by (metis peer_row_ok_def)
qed

lemma reindexed_ok: "db_ok d \<Longrightarrow> reindexed d = d"
  by (simp add: reindexed_def db_ok_def rules_ok_def list_all_iff fw_row_ok_index peer_row_ok_index cong: map_cong)

lemma record_version_InrD:
  assumes "record_version now v nm d = Inr d'"
  shows "d' = d\<lparr>db_versions := db_versions d @ [(v, nm, now)]\<rparr>" "v \<notin> set (map fst (db_versions d))"
  using assms by (auto simp: record_version_def split: if_splits)

lemma record_version_ok:
  assumes "db_ok d" "record_version now v nm d = Inr d'" shows "db_ok d'"
  using assms(1) record_version_InrD(2) [OF assms(2)]
  by (simp add: record_version_InrD(1) [OF assms(2)] db_ok_def table_defs rules_ok_def uniques_ok_def
      ids_clean_def assoc_ok_alt fk_ok_def)

lemma normalize_group_fields [simp]:
  "g_id (normalize_group_payload na g) = g_id g" "g_name (normalize_group_payload na g) = g_name g"
  by (simp_all add: normalize_group_payload_def Let_def split: option.splits)

lemma normalized_groups_ok: "db_ok d \<Longrightarrow> db_ok (d\<lparr>db_groups := map (normalize_group_payload na) (db_groups d)\<rparr>)"
  by (simp add: db_ok_def table_defs rules_ok_def uniques_ok_def ids_clean_def assoc_ok_alt fk_ok_def tbl_ok_def comp_def image_image list_all_iff)

lemma foldl_max_ub: "x \<le> a \<or> x \<in> set vs \<Longrightarrow> (x :: int) \<le> foldl max a vs"
proof (induction vs arbitrary: a)
  case (Cons v vs)
  from Cons.prems have "x \<le> max a v \<or> x \<in> set vs" by (auto intro: max.coboundedI1 max.coboundedI2)
  then show ?case by (simp only: foldl_Cons) (rule Cons.IH)
qed simp

lemma schema_version_ub: "v \<in> set (map fst (db_versions d)) \<Longrightarrow> v \<le> schema_version d"
  unfolding schema_version_def by (cases "map fst (db_versions d)") (auto simp: foldl_max_ub)

lemma schema_version_snoc:
  "schema_version d < v \<Longrightarrow> 0 < v \<Longrightarrow> schema_version (d\<lparr>db_versions := db_versions d @ [(v, nm, now)]\<rparr>) = v"
  unfolding schema_version_def by (cases "map fst (db_versions d)") simp_all

lemma record_version_new:
  "schema_version d < v \<Longrightarrow> record_version now v nm d = Inr (d\<lparr>db_versions := db_versions d @ [(v, nm, now)]\<rparr>)"
  using schema_version_ub [of v d] by (auto simp: record_version_def)

lemma versions_frame [simp]:
  "db_versions (d\<lparr>db_groups := x\<rparr>) = db_versions d" "db_versions (reindexed d) = db_versions d"
  "schema_version (d\<lparr>db_groups := x\<rparr>) = schema_version d" "schema_version (reindexed d) = schema_version d"
  by (simp_all add: schema_version_def reindexed_def)

text \<open>What \<open>ensure_schema\<close> does to a database of each version, and to one that is up to date.\<close>

definition stamp :: "string \<Rightarrow> int \<Rightarrow> string \<Rightarrow> db \<Rightarrow> db" where
  "stamp now v nm d = d\<lparr>db_versions := db_versions d @ [(v, nm, now)]\<rparr>"

lemma stamp_facts [simp]:
  "schema_version d < v \<Longrightarrow> 0 < v \<Longrightarrow> schema_version (stamp now v nm d) = v"
  "schema_version d < v \<Longrightarrow> record_version now v nm d = Inr (stamp now v nm d)"
  by (simp_all add: stamp_def schema_version_snoc record_version_new)

lemma stamp_ok: "db_ok d \<Longrightarrow> schema_version d < v \<Longrightarrow> db_ok (stamp now v nm d)"
  by (rule record_version_ok [of d now v nm]) simp_all

lemma migrations [simp]:
  "schema_version d < 2 \<Longrightarrow> migrate_v2_query_indexes now d = Inr (stamp now 2 ''query-pagination-indexes'' (reindexed d))"
  "schema_version d < 3 \<Longrightarrow> migrate_v3_normalize_group_cidrs na now d =
     Inr (stamp now 3 ''normalize-group-cidrs'' (d\<lparr>db_groups := map (normalize_group_payload na) (db_groups d)\<rparr>))"
  "schema_version d < 4 \<Longrightarrow> migrate_v4_tags now d = Inr (stamp now 4 ''firewall-tags'' d)"
  by (simp_all add: migrate_v2_query_indexes_def migrate_v3_normalize_group_cidrs_def migrate_v4_tags_def
      flip: reindexed_def)

lemma reindexed_stamp [simp]: "reindexed (stamp now v nm d) = stamp now v nm (reindexed d)"
  by (simp add: reindexed_def stamp_def)

lemma ensure_schema_steps:
  assumes "lower c = ''ok''" "schema_version d \<le> 4"
  obtains d1 d2 d3 d4 where
    "d1 = (if schema_version d < 1 then stamp now 1 ''initial-structured-metadata'' d else d)"
    "d2 = (if schema_version d < 2 then stamp now 2 ''query-pagination-indexes'' (reindexed d1) else d1)"
    "d3 = (if schema_version d < 3 then
       stamp now 3 ''normalize-group-cidrs'' (d2\<lparr>db_groups := map (normalize_group_payload na) (db_groups d2)\<rparr>) else d2)"
    "d4 = (if schema_version d < 4 then stamp now 4 ''firewall-tags'' d3 else d3)"
    "schema_version d1 = max 1 (schema_version d)" "schema_version d2 = max 2 (schema_version d)"
    "schema_version d3 = max 3 (schema_version d)" "schema_version d4 = 4"
    "ensure_schema na now (Some c) d = Inr d4"
proof -
  let ?d1 = "if schema_version d < 1 then stamp now 1 ''initial-structured-metadata'' d else d"
  let ?d2 = "if schema_version d < 2 then stamp now 2 ''query-pagination-indexes'' (reindexed ?d1) else ?d1"
  let ?d3 = "if schema_version d < 3 then
       stamp now 3 ''normalize-group-cidrs'' (?d2\<lparr>db_groups := map (normalize_group_payload na) (db_groups ?d2)\<rparr>) else ?d2"
  let ?d4 = "if schema_version d < 4 then stamp now 4 ''firewall-tags'' ?d3 else ?d3"
  have v1: "schema_version ?d1 = max 1 (schema_version d)" by auto
  have v2: "schema_version ?d2 = max 2 (schema_version d)" using v1 by auto
  have v3: "schema_version ?d3 = max 3 (schema_version d)" using v2 by auto
  have v4: "schema_version ?d4 = 4" using v3 assms(2) by auto
  have r1: "(if schema_version d < 1 then record_version now 1 ''initial-structured-metadata'' d else Inr d) = Inr ?d1"
    by simp
  have r2: "(if schema_version d < 2 then migrate_v2_query_indexes now ?d1 else Inr ?d1) = Inr ?d2" using v1 by auto
  have r3: "(if schema_version d < 3 then migrate_v3_normalize_group_cidrs na now ?d2 else Inr ?d2) = Inr ?d3"
    using v2 by auto
  have r4: "(if schema_version d < 4 then migrate_v4_tags now ?d3 else Inr ?d3) = Inr ?d4" using v3 by auto
  have "ensure_schema na now (Some c) d = Inr ?d4"
    unfolding ensure_schema_def supported_version_def Let_def option.case r1 rbind_simps r2 r3 r4
    using assms by simp
  then show ?thesis using that [OF refl refl refl refl v1 v2 v3 v4] by blast
qed

end
