(* ===== verification/Storage_Pages.thy ===== *)
theory Storage_Pages
  imports Storage
begin

text \<open>
  The paged and filtered queries of \<open>app/storage/repositories/\<close>: users, groups, peers, the unified
  list of central rules and peer permissions with its facets, and the tag details and candidates.
  A query returns the page and the number of rows that satisfy the filter.
\<close>

section \<open>Users, groups and peers\<close>

definition in_filter :: "string \<Rightarrow> string list \<Rightarrow> bool" where
  "in_filter x vals \<longleftrightarrow> (let vs = filter (\<lambda>v. v \<noteq> []) vals in vs = [] \<or> x \<in> set vs)"

definition user_sort_key :: "db \<Rightarrow> string \<Rightarrow> user \<Rightarrow> sqlkey" where
  "user_sort_key d sort_by u =
     (if sort_by = ''account_status'' \<or> sort_by = ''status'' then SqlText (user_status_text (u_status u))
      else if sort_by = ''group'' then
        (case get_group (group_id u) d of None \<Rightarrow> SqlNull | Some g \<Rightarrow> SqlText (nocase (g_name g)))
      else if sort_by = ''group_id'' then SqlText (group_id u)
      else if sort_by = ''created_at'' then SqlText (u_created_at u)
      else SqlText (nocase (username u)))"

definition list_users_page ::
  "int \<Rightarrow> int \<Rightarrow> string \<Rightarrow> string \<Rightarrow> string list option \<Rightarrow> string \<Rightarrow> string list \<Rightarrow> string list \<Rightarrow> string \<Rightarrow> bool
    \<Rightarrow> db \<Rightarrow> user list \<times> nat" where
  "list_users_page offset limit search search_mode search_values search_operator gids statuses sort_by desc d =
     (let username_values = (case search_values of Some vs \<Rightarrow> vs
            | None \<Rightarrow> if strip search \<noteq> [] then [search] else []) in
      select_page
        (\<lambda>u. u_status u \<noteq> UDeleted \<and> multi_text_clause (username u) username_values search_mode search_operator \<and>
           in_filter (group_id u) gids \<and> in_filter (user_status_text (u_status u)) statuses)
        (order_by (user_sort_key d sort_by) desc (\<lambda>u. nocase (username u)))
        limit offset (db_users d))"

definition group_sort_key :: "string \<Rightarrow> group \<Rightarrow> sqlkey" where
  "group_sort_key sort_by g =
     (if sort_by = ''name'' then SqlText (nocase (g_name g))
      else if sort_by = ''status'' then SqlText (group_status_text (g_status g))
      else if sort_by = ''id'' then SqlText (g_id g)
      else SqlText (g_created_at g))"

definition list_groups_page ::
  "int \<Rightarrow> int \<Rightarrow> string \<Rightarrow> string list \<Rightarrow> string \<Rightarrow> bool \<Rightarrow> db \<Rightarrow> group list \<times> nat" where
  "list_groups_page offset limit search statuses sort_by desc d =
     (let needle = strip search in
      select_page
        (\<lambda>g. (needle = [] \<or> like_contains needle (g_name g) \<or> like_contains needle (g_id g)) \<and>
           in_filter (group_status_text (g_status g)) statuses)
        (order_by (group_sort_key sort_by) desc g_id) limit offset (db_groups d))"

definition peer_sort_key :: "string \<Rightarrow> peer_row \<Rightarrow> sqlkey" where
  "peer_sort_key sort_by r =
     (if sort_by = ''name'' then SqlText (nocase (pr_name r))
      else if sort_by = ''bound_username'' then SqlText (nocase (pr_bound_username r))
      else if sort_by = ''center_forward_priority'' then SqlInt (pr_priority r)
      else if sort_by = ''id'' then SqlText (pr_id r)
      else SqlText (pr_created_at r))"

definition list_peers_page :: "int \<Rightarrow> int \<Rightarrow> string \<Rightarrow> string \<Rightarrow> bool \<Rightarrow> db \<Rightarrow> peer list \<times> nat" where
  "list_peers_page offset limit search sort_by desc d =
     (let needle = strip search;
          (rows, total) = select_page
            (\<lambda>r. needle = [] \<or> like_contains needle (pr_id r) \<or> like_contains needle (pr_name r) \<or>
               like_contains needle (pr_bound_username r) \<or> like_contains needle (pr_lan_text r))
            (order_by (peer_sort_key sort_by) desc pr_id) limit offset (db_peers d)
      in (map pr_payload rows, total))"

section \<open>The unified list\<close>

datatype row_payload = JsonRule rule | CenterPeer peer

record unified_row =
  un_kind :: string
  un_source_id :: string
  un_row_id :: string
  un_owner_id :: string
  un_owner_type :: string
  un_priority :: int
  un_enabled :: bool
  un_protocol :: string
  un_action :: string
  un_target :: string
  un_source_text :: string
  un_dest_ip :: string
  un_dest_port :: string
  un_description :: string
  un_payload :: row_payload
  un_kind_key :: string

definition center_peer_prefix :: string where
  "center_peer_prefix = ''__center_peer__''"

definition rule_unified :: "fw_row \<Rightarrow> unified_row" where
  "rule_unified r = \<lparr>un_kind = ''json'', un_source_id = fr_id r, un_row_id = fr_id r, un_owner_id = fr_owner_id r,
     un_owner_type = fr_owner_type r, un_priority = fr_priority r, un_enabled = fr_enabled r,
     un_protocol = fr_protocol r, un_action = fr_action r, un_target = fr_target r,
     un_source_text = fr_source_text r, un_dest_ip = fr_dest_ip r, un_dest_port = fr_dest_port r,
     un_description = opt_str (description (fr_payload r)), un_payload = JsonRule (fr_payload r),
     un_kind_key = (if fr_target r = ''peer'' then ''peer_marker'' else ''center'')\<rparr>"

definition peer_unified :: "peer_row \<Rightarrow> unified_row" where
  "peer_unified r = \<lparr>un_kind = ''center_peer'', un_source_id = pr_id r, un_row_id = center_peer_prefix @ pr_id r,
     un_owner_id = pr_id r, un_owner_type = ''peer'', un_priority = pr_priority r, un_enabled = pr_enabled r,
     un_protocol = pr_protocol r, un_action = ''accept'', un_target = ''center'',
     un_source_text = pr_lan_text r, un_dest_ip = pr_dest_ip r, un_dest_port = pr_dest_port r,
     un_description = center_forward_rule_description (pr_payload r), un_payload = CenterPeer (pr_payload r),
     un_kind_key = ''center_peer''\<rparr>"

definition unified :: "db \<Rightarrow> unified_row list" where
  "unified d = map rule_unified (db_rules d) @ map peer_unified (filter pr_has_lan (db_peers d))"

definition text_column :: "string \<Rightarrow> (unified_row \<Rightarrow> string) option" where
  "text_column field =
     (if field = ''id'' then Some un_row_id else if field = ''source'' then Some un_source_text
      else if field = ''dest'' then Some un_dest_ip else if field = ''dest_port'' then Some un_dest_port
      else if field = ''description'' then Some un_description else None)"

definition text_filter_ok :: "unified_row \<Rightarrow> string \<times> string list \<times> string \<times> string \<Rightarrow> bool" where
  "text_filter_ok r f = (case f of (field, vals, match_type, operator) \<Rightarrow>
     (case text_column field of None \<Rightarrow> True | Some col \<Rightarrow> multi_text_clause (col r) vals match_type operator))"

definition search_ok :: "string \<Rightarrow> unified_row \<Rightarrow> bool" where
  "search_ok search r \<longleftrightarrow> (let needle = strip search in needle = [] \<or> like_contains needle (un_row_id r) \<or>
     like_contains needle (un_source_text r) \<or> like_contains needle (un_dest_ip r) \<or> like_contains needle (un_dest_port r))"

record unified_filter =
  uf_search :: string
  uf_owner_ids :: "string list"
  uf_owner_types :: "string list"
  uf_enabled :: "bool list"
  uf_protocols :: "string list"
  uf_actions :: "string list"
  uf_kind_keys :: "string list"
  uf_text :: "(string \<times> string list \<times> string \<times> string) list"

definition unified_ok :: "unified_filter \<Rightarrow> unified_row \<Rightarrow> bool" where
  "unified_ok f r \<longleftrightarrow> search_ok (uf_search f) r \<and> list_all (text_filter_ok r) (uf_text f) \<and>
     in_filter (un_owner_id r) (uf_owner_ids f) \<and> in_filter (un_owner_type r) (uf_owner_types f) \<and>
     (uf_enabled f = [] \<or> un_enabled r \<in> set (uf_enabled f)) \<and>
     in_filter (un_protocol r) (map lower (strip_all (uf_protocols f))) \<and>
     in_filter (un_action r) (map lower (strip_all (uf_actions f))) \<and>
     in_filter (un_kind_key r) (strip_all (uf_kind_keys f))"

definition unified_sort_key :: "string \<Rightarrow> unified_row \<Rightarrow> sqlkey" where
  "unified_sort_key sort_by r =
     (if sort_by = ''id'' then SqlText (nocase (un_row_id r))
      else if sort_by = ''owner_label'' \<or> sort_by = ''owner_id'' then SqlText (nocase (un_owner_id r))
      else if sort_by = ''kind_label'' then SqlText (un_kind_key r)
      else if sort_by = ''status_label'' \<or> sort_by = ''enabled'' then SqlInt (if un_enabled r then 1 else 0)
      else if sort_by = ''protocol'' then SqlText (nocase (un_protocol r))
      else if sort_by = ''source'' then SqlText (nocase (un_source_text r))
      else if sort_by = ''dest'' then SqlText (nocase (un_dest_ip r))
      else if sort_by = ''dest_port'' then SqlText (nocase (un_dest_port r))
      else if sort_by = ''description'' then SqlText (nocase (un_description r))
      else if sort_by = ''action_label'' \<or> sort_by = ''action'' then SqlText (nocase (un_action r))
      else SqlInt (un_priority r))"

definition unified_order :: "string \<Rightarrow> bool \<Rightarrow> unified_row list \<Rightarrow> unified_row list" where
  "unified_order sort_by desc = order_by (unified_sort_key sort_by) desc (\<lambda>r. (un_priority r, un_row_id r))"

definition list_firewall_unified_page ::
  "int \<Rightarrow> int \<Rightarrow> unified_filter \<Rightarrow> string \<Rightarrow> bool \<Rightarrow> db \<Rightarrow> unified_row list \<times> nat" where
  "list_firewall_unified_page offset limit f sort_by desc d =
     select_page (unified_ok f) (unified_order sort_by desc) limit offset (unified d)"

record facets =
  fc_owners :: "(string \<times> string) list"
  fc_protocols :: "string list"
  fc_actions :: "string list"
  fc_kind_keys :: "string list"

definition distinct_texts :: "string list \<Rightarrow> string list" where
  "distinct_texts xs = filter (\<lambda>x. x \<noteq> []) (sorted_set xs)"

definition list_firewall_unified_facets :: "db \<Rightarrow> facets" where
  "list_firewall_unified_facets d = (let rows = unified d in
     \<lparr>fc_owners = sorted_set (map (\<lambda>r. (un_owner_type r, un_owner_id r)) rows),
      fc_protocols = distinct_texts (map un_protocol rows), fc_actions = distinct_texts (map un_action rows),
      fc_kind_keys = distinct_texts (map un_kind_key rows)\<rparr>)"

section \<open>Tag details and candidates\<close>

datatype tag_detail =
    UserDetail string string
  | GroupDetail group
  | UnknownGroup string
  | RuleDetail rule

text \<open>The associated users of a tag with their status, the groups (\<open>LEFT JOIN\<close>), the rules.\<close>

definition user_details :: "string \<Rightarrow> string \<Rightarrow> db \<Rightarrow> (string \<times> string) list" where
  "user_details tid query d =
     map (\<lambda>(t, u). (u, case get_user u d of None \<Rightarrow> ''unknown'' | Some x \<Rightarrow> user_status_text (u_status x)))
       (filter (\<lambda>(t, u). t = tid \<and> (query = [] \<or> like_contains query u)) (db_user_tags d))"

definition group_details :: "string \<Rightarrow> string \<Rightarrow> db \<Rightarrow> (string \<times> group option) list" where
  "group_details tid query d =
     filter (\<lambda>(gid, g). query = [] \<or> (case g of None \<Rightarrow> False | Some x \<Rightarrow> like_contains query (g_name x)) \<or>
         like_contains query gid)
       (map (\<lambda>(t, gid). (gid, get_group gid d)) (filter (\<lambda>(t, gid). t = tid) (db_group_tags d)))"

definition rule_details :: "string \<Rightarrow> string \<Rightarrow> db \<Rightarrow> fw_row list" where
  "rule_details tid query d =
     filter (\<lambda>r. fr_owner_id r = tid \<and> fr_owner_type r = ''tag'' \<and>
       (query = [] \<or> like_contains query (opt_str (description (fr_payload r))))) (db_rules d)"

definition list_tag_detail_page ::
  "string \<Rightarrow> string \<Rightarrow> int \<Rightarrow> int \<Rightarrow> string \<Rightarrow> db \<Rightarrow> (tag_detail list \<times> nat) res" where
  "list_tag_detail_page tid kind offset limit search d = (let query = strip search in
     if kind = ''users'' then Inr (let rows = user_details tid query d in
       (map (\<lambda>(u, st). UserDetail u st) (limit_offset limit offset (sort_key (\<lambda>(u, st). nocase u) rows)), length rows))
     else if kind = ''groups'' then Inr (let rows = group_details tid query d in
       (map (\<lambda>(gid, g). case g of None \<Rightarrow> UnknownGroup gid | Some x \<Rightarrow> GroupDetail x)
          (limit_offset limit offset (sort_key (\<lambda>(gid, g).
             (case g of None \<Rightarrow> SqlNull | Some x \<Rightarrow> SqlText (nocase (g_name x)), gid)) rows)), length rows))
     else if kind = ''rules'' then Inr (let rows = rule_details tid query d in
       (map (\<lambda>r. RuleDetail (fr_payload r))
          (limit_offset limit offset (sort_key (\<lambda>r. (fr_priority r, fr_id r)) rows)), length rows))
     else Inl (ValueError ''unknown detail kind''))"

definition user_candidates :: "string \<Rightarrow> db \<Rightarrow> user list" where
  "user_candidates search d = sort_key (\<lambda>u. nocase (username u))
     (filter (\<lambda>u. u_status u \<noteq> UDeleted \<and> (strip search = [] \<or> like_contains (strip search) (username u))) (db_users d))"

definition group_candidates :: "string \<Rightarrow> db \<Rightarrow> group list" where
  "group_candidates search d = sort_key (\<lambda>g. (nocase (g_name g), g_id g))
     (filter (\<lambda>g. strip search = [] \<or> like_contains (strip search) (g_name g) \<or> like_contains (strip search) (g_id g))
       (db_groups d))"

datatype candidate = UserCandidate string user_status | GroupCandidate group

definition tag_candidates :: "string \<Rightarrow> string \<Rightarrow> db \<Rightarrow> candidate list res" where
  "tag_candidates kind search d =
     (if kind = ''users'' then Inr (map (\<lambda>u. UserCandidate (username u) (u_status u)) (user_candidates search d))
      else if kind = ''groups'' then Inr (map GroupCandidate (group_candidates search d))
      else Inl (ValueError ''unknown candidate kind''))"

definition list_tag_candidates_page ::
  "string \<Rightarrow> string \<Rightarrow> int \<Rightarrow> int \<Rightarrow> db \<Rightarrow> (candidate list \<times> nat) res" where
  "list_tag_candidates_page kind search offset limit d =
     rbind (tag_candidates kind search d) (\<lambda>cs. Inr (limit_offset limit offset cs, length cs))"

fun candidate_id :: "candidate \<Rightarrow> string" where
  "candidate_id (UserCandidate u st) = u"
| "candidate_id (GroupCandidate g) = g_id g"

definition list_tag_candidate_ids :: "string \<Rightarrow> string \<Rightarrow> db \<Rightarrow> string list res" where
  "list_tag_candidate_ids kind search d =
     rbind (tag_candidates kind search d) (\<lambda>cs. Inr (map candidate_id cs))"

end
