(* ===== verification/Storage_Props.thy ===== *)
theory Storage_Props
  imports Storage_Laws Storage_Pages
begin

text \<open>
  Properties of the store: the invariant of every reachable database, the schema migrations, and
  the completeness of the paged unified list.
\<close>

section \<open>Reachable databases\<close>

lemma ensure_schema_ok:
  assumes "ensure_schema na now qc d = Inr d'" "db_ok d"
  shows "db_ok d'"
proof -
  obtain c where c: "qc = Some c" "lower c = ''ok''" "schema_version d \<le> 4"
    using assms(1) by (auto simp: ensure_schema_def supported_version_def Let_def split: option.splits if_splits)
  obtain d1 d2 d3 d4 where
    d1: "d1 = (if schema_version d < 1 then stamp now 1 ''initial-structured-metadata'' d else d)" and
    d2: "d2 = (if schema_version d < 2 then stamp now 2 ''query-pagination-indexes'' (reindexed d1) else d1)" and
    d3: "d3 = (if schema_version d < 3 then
       stamp now 3 ''normalize-group-cidrs'' (d2\<lparr>db_groups := map (normalize_group_payload na) (db_groups d2)\<rparr>) else d2)" and
    d4: "d4 = (if schema_version d < 4 then stamp now 4 ''firewall-tags'' d3 else d3)" and
    v: "schema_version d1 = max 1 (schema_version d)" "schema_version d2 = max 2 (schema_version d)"
      "schema_version d3 = max 3 (schema_version d)" and
    e: "ensure_schema na now (Some c) d = Inr d4"
    using ensure_schema_steps [OF c(2,3)] .
  have ok1: "db_ok d1" using assms(2) by (simp add: d1 stamp_ok)
  have ok2: "db_ok d2" using ok1 v(1) by (simp add: d2 stamp_ok reindexed_ok)
  have ok3: "db_ok d3" using ok2 v(2) by (simp add: d3 stamp_ok normalized_groups_ok)
  have "db_ok d4" using ok3 v(3) by (simp add: d4 stamp_ok)
  then show ?thesis using e assms(1) c(1) by simp
qed

lemma set_meta_ok: "db_ok d \<Longrightarrow> db_ok (set_meta k v d)"
  by (simp add: set_meta_def db_ok_def table_defs rules_ok_def uniques_ok_def ids_clean_def assoc_ok_alt fk_ok_def)

lemma empty_db_ok: "db_ok empty_db"
  by (simp add: empty_db_def db_ok_def table_defs rules_ok_def uniques_ok_def ids_clean_def assoc_ok_def tbl_ok_def)

lemma apply_op_ok:
  assumes "db_ok d" "apply_op na now op d = Inr d'" shows "db_ok d'"
  using assms
proof (cases op)
  case (BatchEntityTags et es ts oper)
  then obtain prev where "batch_change_entity_tags et es ts oper d = Inr (prev, d')"
    using assms(2) by (auto simp: rbind_Inr_iff)
  then show ?thesis using assms(1) by (blast intro: only_assocs_ok batch_change_only)
qed (auto intro: upsert_user_ok upsert_group_ok upsert_peer_ok delete_group_ok delete_peer_ok
    replace_firewall_owner_ok create_tag_ok update_tag_ok delete_tag_ok set_meta_ok ensure_schema_ok
    dest: only_assocs_ok [OF set_tag_members_only] only_assocs_ok [OF replace_entity_tags_only]
      only_assocs_ok [OF restore_entity_only])

lemma connection_write_cases:
  "connection_write body d = (r, d') \<longleftrightarrow> (\<exists>e. body d = Inl e \<and> r = Inl e \<and> d' = d) \<or> (r = Inr () \<and> body d = Inr d')"
  by (auto simp: connection_write_def split: sum.splits)

lemma db_reachable_ok:
  assumes "db_reachable na d"
  shows "db_ok d"
  using assms
proof (induction rule: db_reachable.induct)
  case (boot now qc d)
  then show ?case using empty_db_ok by (blast intro: ensure_schema_ok)
next
  case (step d now op r d')
  then show ?case by (auto simp: connection_write_cases intro: apply_op_ok)
qed

text \<open>C7. Whatever write operations run after the bootstrap, and whichever of them fail, the store
  stays consistent: primary keys and unique indexes hold, every tag association refers to an existing
  tag and user or group, and the index columns of every rule and peer row are those of its payload.\<close>

theorem reachable_db_ok:
  assumes "db_reachable na d"
  shows "db_ok d"
  by (rule db_reachable_ok [OF assms])

definition sample_group :: group where
  "sample_group = \<lparr>g_id = ''g1'', g_name = ''dev'', g_subnet = ''10.8.1.9/24'', g_status = GActive, user_count = 0,
     g_rule_ids = [], g_created_at = ''2024'', g_updated_at = ''2024''\<rparr>"

definition sample_user :: user where
  "sample_user = \<lparr>username = ''alice'', group_id = ''g1'', password_enabled = False, u_status = UActive,
     ovpn_file_path = None, device_binding_id = None, cert_serial = None, u_rule_ids = [],
     u_created_at = ''2024'', u_updated_at = ''2024''\<rparr>"

definition sample_rule :: rule where
  "sample_rule = \<lparr>rule_id = ''r1'', owner_type = OTag, owner_id = ''t1'', deployment_target = Center,
     vpn_instance = ''server'', action = AAccept, source_subnet = None, source_ips = Some [''10.8.1.2''],
     dest_ip = None, dest_port = Some ''443'', protocol = ''TCP'', priority = 10, enabled = True,
     description = None, r_created_at = ''2024'', r_updated_at = ''2024''\<rparr>"

definition sample_ops :: "db_op list" where
  "sample_ops = [UpsertGroup sample_group, UpsertUser sample_user, CreateTag ''t1'' ''ops'' [],
     SetTagMembers ''t1'' [''alice''] [''g1''], CreateTag ''t2'' ''ops'' [], ReplaceOwner ''t1'' [sample_rule]]"

definition run_ops :: "netaddr \<Rightarrow> db_op list \<Rightarrow> db \<Rightarrow> db" where
  "run_ops na ops d = fold (\<lambda>op d. snd (connection_write (apply_op na ''now'' op) d)) ops d"

definition sample_db :: db where
  "sample_db = (case ensure_schema netaddr_ref ''now'' (Some ''ok'') empty_db of Inl e \<Rightarrow> empty_db | Inr d \<Rightarrow> d)"

lemma run_ops_reachable: "db_reachable na d \<Longrightarrow> db_reachable na (run_ops na ops d)"
proof (induction ops arbitrary: d)
  case (Cons op ops)
  have "db_reachable na (snd (connection_write (apply_op na ''now'' op) d))"
    by (rule db_reachable.step [OF Cons.prems, where r = "fst (connection_write (apply_op na ''now'' op) d)"]) simp
  then show ?case using Cons.IH by (simp add: run_ops_def)
qed (simp add: run_ops_def)

lemma sample_db_reachable: "db_reachable netaddr_ref sample_db"
proof -
  have "is_ok (ensure_schema netaddr_ref ''now'' (Some ''ok'') empty_db)" by code_simp
  then obtain d where "ensure_schema netaddr_ref ''now'' (Some ''ok'') empty_db = Inr d" by (auto simp: is_ok_iff)
  then show ?thesis using db_reachable.boot by (simp add: sample_db_def)
qed

theorem reachable_db_ok_witness:
  "db_ok (run_ops netaddr_ref sample_ops sample_db) \<and>
   map fr_protocol (db_rules (run_ops netaddr_ref sample_ops sample_db)) = [''tcp''] \<and>
   map g_subnet (db_groups (run_ops netaddr_ref sample_ops sample_db)) = [''10.8.1.0/24''] \<and>
   map t_id (db_tags (run_ops netaddr_ref sample_ops sample_db)) = [''t1'']"
proof (intro conjI)
  show "db_ok (run_ops netaddr_ref sample_ops sample_db)"
    using reachable_db_ok [OF run_ops_reachable [OF sample_db_reachable]] .
  show "map fr_protocol (db_rules (run_ops netaddr_ref sample_ops sample_db)) = [''tcp'']" by code_simp
  show "map g_subnet (db_groups (run_ops netaddr_ref sample_ops sample_db)) = [''10.8.1.0/24'']" by code_simp
  show "map t_id (db_tags (run_ops netaddr_ref sample_ops sample_db)) = [''t1'']" by code_simp
qed

section \<open>Migrations\<close>

definition groups_normal :: "netaddr \<Rightarrow> db \<Rightarrow> bool" where
  "groups_normal na d \<longleftrightarrow> list_all (\<lambda>g. normalize_group_payload na g = g) (db_groups d)"

lemma ensure_schema_uptodate:
  assumes "lower c = ''ok''" "schema_version d = 4"
  shows "ensure_schema na now (Some c) d = Inr d"
  using ensure_schema_steps [where c = c and d = d and na = na and now = now] assms by auto

text \<open>C19. Opening a database of an older schema succeeds, brings it to version 4 with index columns
  computed from the payloads, keeps every rule, peer and user, and opening it once more changes
  nothing; a database of a newer schema is refused.\<close>

theorem ensure_schema_migrates:
  assumes "lower c = ''ok''" "db_ok (reindexed d)" "2 \<le> schema_version d \<Longrightarrow> reindexed d = d"
  shows "if schema_version d \<le> 4
    then \<exists>d'. ensure_schema na now (Some c) d = Inr d' \<and> db_ok d' \<and> schema_version d' = 4 \<and>
      map fr_payload (db_rules d') = map fr_payload (db_rules d) \<and>
      map pr_payload (db_peers d') = map pr_payload (db_peers d) \<and> db_users d' = db_users d \<and>
      db_groups d' = (if schema_version d < 3 then map (normalize_group_payload na) (db_groups d) else db_groups d) \<and>
      ensure_schema na now' (Some c) d' = Inr d'
    else ensure_schema na now (Some c) d = Inl (RuntimeError ''schema newer than the program'')"
proof (cases "schema_version d \<le> 4")
  case True
  obtain d1 d2 d3 d4 where
    d1: "d1 = (if schema_version d < 1 then stamp now 1 ''initial-structured-metadata'' d else d)" and
    d2: "d2 = (if schema_version d < 2 then stamp now 2 ''query-pagination-indexes'' (reindexed d1) else d1)" and
    d3: "d3 = (if schema_version d < 3 then
       stamp now 3 ''normalize-group-cidrs'' (d2\<lparr>db_groups := map (normalize_group_payload na) (db_groups d2)\<rparr>) else d2)" and
    d4: "d4 = (if schema_version d < 4 then stamp now 4 ''firewall-tags'' d3 else d3)" and
    v: "schema_version d1 = max 1 (schema_version d)" "schema_version d2 = max 2 (schema_version d)"
      "schema_version d3 = max 3 (schema_version d)" "schema_version d4 = 4" and
    e: "ensure_schema na now (Some c) d = Inr d4"
    using ensure_schema_steps [OF assms(1) True] .
  have ok1: "db_ok (reindexed d1)"
    using stamp_ok [OF assms(2)] assms(2) by (simp add: d1)
  have ok2: "db_ok d2"
  proof (cases "schema_version d < 2")
    case False
    then have "db_ok d" using assms(2,3) by simp
    then show ?thesis using False by (simp add: d2 d1)
  qed (use ok1 v(1) in \<open>simp add: d2 stamp_ok\<close>)
  have ok3: "db_ok d3" using ok2 v(2) by (simp add: d3 stamp_ok normalized_groups_ok)
  have ok4: "db_ok d4" using ok3 v(3) by (simp add: d4 stamp_ok)
  have same: "map fr_payload (db_rules d4) = map fr_payload (db_rules d)"
    "map pr_payload (db_peers d4) = map pr_payload (db_peers d)" "db_users d4 = db_users d"
    "db_groups d4 = (if schema_version d < 3 then map (normalize_group_payload na) (db_groups d) else db_groups d)"
    by (simp_all add: d4 d3 d2 d1 stamp_def reindexed_def)
  have again: "ensure_schema na now' (Some c) d4 = Inr d4"
    by (rule ensure_schema_uptodate [OF assms(1) v(4)])
  show ?thesis using True e ok4 v(4) same again by auto
next
  case False
  then show ?thesis using assms(1) by (simp add: ensure_schema_def supported_version_def)
qed

definition v1_db :: db where
  "v1_db = empty_db\<lparr>db_versions := [(1, ''initial-structured-metadata'', ''t0'')], db_groups := [sample_group],
     db_rules := [\<lparr>fr_id = ''r1'', fr_owner_id = ''t1'', fr_owner_type = ''tag'', fr_priority = 10, fr_enabled = True,
       fr_created_at = ''2024'', fr_updated_at = ''2024'', fr_payload = sample_rule, fr_protocol = ''all'',
       fr_action = ''accept'', fr_target = ''center'', fr_source_text = [], fr_dest_ip = [], fr_dest_port = []\<rparr>]\<rparr>"

theorem ensure_schema_migrates_witness:
  "\<exists>d'. ensure_schema netaddr_ref ''t1'' (Some ''ok'') v1_db = Inr d' \<and> db_ok d' \<and> schema_version d' = 4 \<and>
     map fr_payload (db_rules d') = [sample_rule]"
proof -
  have h: "lower ''ok'' = ''ok''" "db_ok (reindexed v1_db)" "schema_version v1_db = 1" by code_simp+
  have p: "map fr_payload (db_rules v1_db) = [sample_rule]" by (simp add: v1_db_def)
  show ?thesis using ensure_schema_migrates [of "''ok''" v1_db netaddr_ref "''t1''" "''t2''"] h p by auto
qed

section \<open>Pages\<close>

lemma order_by_sorted:
  "sorted_wrt (\<lambda>x y. if desc then key y \<le> key x else key x \<le> key y) (order_by key desc tie xs)"
proof (cases desc)
  case False
  have "sorted (map key (sort_key key (sort_key tie xs)))" by simp
  then show ?thesis using False by (simp add: order_by_def sorted_map)
qed (simp add: order_by_def sort_desc_sorted)

text \<open>Reading the unified rule list page after page shows every row that satisfies the filter
  exactly once, in the order of the chosen column and direction; the reported total is their number.\<close>

theorem unified_pages_complete:
  assumes "0 < n" "snd (list_firewall_unified_page 0 1 f sort_by desc d) \<le> k * n"
  shows "let rows = concat (map (\<lambda>i. fst (list_firewall_unified_page (int (i * n)) (int n) f sort_by desc d)) [0..<k]) in
    mset rows = mset (filter (unified_ok f) (map rule_unified (db_rules d) @ map peer_unified (filter pr_has_lan (db_peers d)))) \<and>
    length rows = snd (list_firewall_unified_page 0 1 f sort_by desc d) \<and>
    sorted_wrt (\<lambda>x y. if desc then unified_sort_key sort_by y \<le> unified_sort_key sort_by x
      else unified_sort_key sort_by x \<le> unified_sort_key sort_by y) rows"
proof -
  let ?hits = "filter (unified_ok f) (unified d)"
  let ?all = "unified_order sort_by desc ?hits"
  have page: "fst (list_firewall_unified_page off lim f sort_by desc d) = limit_offset lim off ?all" for off lim
    by (simp add: list_firewall_unified_page_def select_page_def Let_def)
  have total: "snd (list_firewall_unified_page 0 1 f sort_by desc d) = length ?hits"
    by (simp add: list_firewall_unified_page_def select_page_def Let_def)
  have "concat (map (\<lambda>i. limit_offset (int n) (int (i * n)) ?all) [0..<k]) = take (k * n) ?all"
    using pages_concat [OF assms(1)] .
  moreover have "take (k * n) ?all = ?all" using assms(2) total by (simp add: unified_order_def)
  ultimately have rows: "concat (map (\<lambda>i. fst (list_firewall_unified_page (int (i * n)) (int n) f sort_by desc d)) [0..<k]) = ?all"
    unfolding page by simp
  show ?thesis
    unfolding Let_def rows total unified_def [symmetric] unified_order_def
    by (intro conjI mset_order_by order_by_sorted) simp
qed

theorem unified_pages_complete_witness:
  "let d = run_ops netaddr_ref sample_ops sample_db;
       f = \<lparr>uf_search = ''10.8'', uf_owner_ids = [], uf_owner_types = [], uf_enabled = [], uf_protocols = [],
            uf_actions = [], uf_kind_keys = [], uf_text = []\<rparr>
   in length (concat (map (\<lambda>i. fst (list_firewall_unified_page (int (i * 1)) (int 1) f ''priority'' True d)) [0..<2])) = 1"
proof -
  let ?d = "run_ops netaddr_ref sample_ops sample_db"
  let ?f = "\<lparr>uf_search = ''10.8'', uf_owner_ids = [], uf_owner_types = [], uf_enabled = [], uf_protocols = [],
            uf_actions = [], uf_kind_keys = [], uf_text = []\<rparr>"
  have t: "snd (list_firewall_unified_page 0 1 ?f ''priority'' True ?d) = 1" by code_simp
  have "snd (list_firewall_unified_page 0 1 ?f ''priority'' True ?d) \<le> 2 * 1" using t by simp
  from unified_pages_complete [OF _ this, unfolded Let_def] t show ?thesis by (simp add: Let_def)
qed

end
