(* ===== verification/Ccd.thy ===== *)
theory Ccd
  imports Models
begin

text \<open>
  \<open>app/services/peer_instance/ccd_merge.py\<close> and the CCD texts of \<open>app/services/user/crud.py\<close>: the
  file OpenVPN reads for a client, which several services edit.  The fixed address
  (\<open>ifconfig-push\<close>), a \<open>disable\<close> line, one marked \<open>iroute\<close> block per peer site and one marked block
  of mesh routes live in the same text.
\<close>

section \<open>Lines\<close>

text \<open>\<open>read_text\<close> opens in text mode: every line end becomes a line feed.\<close>

fun read_text :: "string \<Rightarrow> string" where
  "read_text [] = []"
| "read_text [c] = [if c = CHR 0x0D then CHR 0x0A else c]"
| "read_text (c # d # s) =
     (if c = CHR 0x0D \<and> d = CHR 0x0A then CHR 0x0A # read_text s
      else if c = CHR 0x0D then CHR 0x0A # read_text (d # s)
      else c # read_text (d # s))"

text \<open>\<open>s.splitlines(keepends=True)\<close>.\<close>

fun lines_keep :: "string \<Rightarrow> string list" where
  "lines_keep [] = []"
| "lines_keep [c] = [[c]]"
| "lines_keep (c # d # s) =
     (if c = CHR 0x0D \<and> d = CHR 0x0A then [c, d] # lines_keep s
      else if line_break c then [c] # lines_keep (d # s)
      else (case lines_keep (d # s) of [] \<Rightarrow> [[c]] | l # ls \<Rightarrow> (c # l) # ls))"

definition nl :: string where
  "nl = [CHR 0x0A]"

text \<open>\<open>s.find(sub)\<close>, \<open>None\<close> for -1.\<close>

fun find_sub :: "string \<Rightarrow> string \<Rightarrow> nat option" where
  "find_sub p [] = (if p = [] then Some 0 else None)"
| "find_sub p (c # s) = (if starts_with (c # s) p then Some 0 else map_option Suc (find_sub p s))"

section \<open>IPv6 networks\<close>

text \<open>
  \<open>ip_network(s, strict=False)\<close> tries IPv4 first and IPv6 then; the program only asks whether a
  text is an IPv6 network.  \<open>ip6_parse_ok\<close> is \<open>_ip_int_from_string\<close> of the standard library.
\<close>

definition is_hex :: "char \<Rightarrow> bool" where
  "is_hex c \<longleftrightarrow> is_digit c \<or> c \<in> set ''abcdefABCDEF''"

definition hextet_ok :: "string \<Rightarrow> bool" where
  "hextet_ok h \<longleftrightarrow> h \<noteq> [] \<and> list_all is_hex h \<and> length h \<le> 4"

definition ip6_expand :: "string list \<Rightarrow> string list option" where
  "ip6_expand parts = (if CHR ''.'' \<in> set (last parts)
     then (case ip_parse (last parts) of None \<Rightarrow> None | Some _ \<Rightarrow> Some (butlast parts @ [''0'', ''0'']))
     else Some parts)"

definition ip6_groups_ok :: "string list \<Rightarrow> bool" where
  "ip6_groups_ok parts \<longleftrightarrow>
     (let n = length parts; inner = filter (\<lambda>i. parts ! i = []) [1..<n - 1] in
      if n > 9 then False
      else (case inner of
        [] \<Rightarrow> n = 8 \<and> list_all hextet_ok parts
      | [k] \<Rightarrow> (let hi = (if hd parts = [] then k - 1 else k); lo = (if last parts = [] then n - k - 2 else n - k - 1) in
           (hd parts = [] \<longrightarrow> hi = 0) \<and> (last parts = [] \<longrightarrow> lo = 0) \<and> hi + lo < 8 \<and>
           list_all hextet_ok (take hi parts) \<and> list_all hextet_ok (drop (n - lo) parts))
      | _ \<Rightarrow> False))"

definition ip6_parse_ok :: "string \<Rightarrow> bool" where
  "ip6_parse_ok s \<longleftrightarrow>
     (case split_on (CHR ''%'') s of
        [a] \<Rightarrow> True | [a, sc] \<Rightarrow> sc \<noteq> [] | _ \<Rightarrow> False) \<and>
     (let parts = split_on (CHR '':'') (hd (split_on (CHR ''%'') s)) in
      length parts \<ge> 3 \<and> (case ip6_expand parts of None \<Rightarrow> False | Some ps \<Rightarrow> ip6_groups_ok ps))"

definition ip6_prefix_ok :: "string \<Rightarrow> bool" where
  "ip6_prefix_ok m \<longleftrightarrow> all_digits m \<and> nat_of_dec m \<le> 128"

definition ip6_network :: "string \<Rightarrow> bool" where
  "ip6_network s \<longleftrightarrow> (case split_on (CHR ''/'') s of
     [a] \<Rightarrow> ip6_parse_ok a | [a, m] \<Rightarrow> ip6_parse_ok a \<and> ip6_prefix_ok m | _ \<Rightarrow> False)"

text \<open>The IPv4 network, or \<open>None\<close> when the text is an IPv6 one.\<close>

definition any_network :: "string \<Rightarrow> net option res" where
  "any_network s = (case ip_network s of Some n \<Rightarrow> Inr (Some n)
     | None \<Rightarrow> if ip6_network s then Inr None else Inl (ValueError ''not a network''))"

text \<open>The IPv4 networks of a list of texts; an IPv6 one is skipped, a bad one raises.\<close>

definition v4_networks :: "string list \<Rightarrow> net list res" where
  "v4_networks cidrs = rbind (mapM any_network (strip_all cidrs)) (\<lambda>ns. Inr (List.map_filter id ns))"

section \<open>Marked blocks\<close>

text \<open>The loop shared by both merges: lines from a begin marker to an end marker are dropped.\<close>

fun drop_blocks :: "string \<Rightarrow> string \<Rightarrow> bool \<Rightarrow> string list \<Rightarrow> string list" where
  "drop_blocks b e skip [] = []"
| "drop_blocks b e skip (l # ls) =
     (if starts_with l b then drop_blocks b e True ls
      else if starts_with l e then drop_blocks b e False ls
      else if skip then drop_blocks b e True ls
      else l # drop_blocks b e False ls)"

definition without_block :: "string \<Rightarrow> string \<Rightarrow> string \<Rightarrow> string" where
  "without_block b e existing =
     (let base = rstrip (concat (drop_blocks b e False (lines_keep existing))) in
      if base \<noteq> [] \<and> \<not> ends_with base nl then base @ nl else base)"

subsection \<open>The iroute block of a peer\<close>

text \<open>The markers without their line feed.\<close>

definition peer_begin :: "string \<Rightarrow> string" where
  "peer_begin pid = ''# --- ovpn-peer begin '' @ pid @ '' ---''"

definition peer_end :: "string \<Rightarrow> string" where
  "peer_end pid = ''# --- ovpn-peer end '' @ pid @ '' ---''"

definition mesh_begin :: string where
  "mesh_begin = ''# --- ovpn-mesh-peer-routes begin ---''"

definition mesh_end :: string where
  "mesh_end = ''# --- ovpn-mesh-peer-routes end ---''"

definition iroute_line :: "net \<Rightarrow> string" where
  "iroute_line n = ''iroute '' @ ip_str (net_addr n) @ '' '' @ netmask_str n @ nl"

definition build_iroute_block :: "string \<Rightarrow> string list \<Rightarrow> string res" where
  "build_iroute_block pid cidrs = rbind (v4_networks cidrs) (\<lambda>ns.
     Inr (concat ([peer_begin pid @ nl] @ map iroute_line ns @ [peer_end pid @ nl])))"

definition insert_block :: "string \<Rightarrow> string \<Rightarrow> string" where
  "insert_block base block = (case find_sub (mesh_begin @ nl) base of
     Some idx \<Rightarrow> take idx base @ block @ drop idx base
   | None \<Rightarrow> base @ block)"

definition merge_peer_block_into_ccd :: "string \<Rightarrow> string \<Rightarrow> string list \<Rightarrow> string res" where
  "merge_peer_block_into_ccd existing pid cidrs =
     (let base = without_block (peer_begin pid) (peer_end pid) existing in
      if cidrs = [] then Inr base
      else rbind (build_iroute_block pid cidrs) (\<lambda>block. Inr (insert_block base block)))"

definition strip_peer_block_from_ccd :: "string \<Rightarrow> string \<Rightarrow> string res" where
  "strip_peer_block_from_ccd existing pid = merge_peer_block_into_ccd existing pid []"

subsection \<open>The block of mesh routes\<close>

definition cidr_order :: "string \<Rightarrow> nat \<times> nat" where
  "cidr_order x = (case ip_network x of None \<Rightarrow> (0, 0) | Some n \<Rightarrow> (net_addr n, netmask_of (net_plen n)))"

definition sorted_unique_ipv4_cidrs :: "string list \<Rightarrow> string list res" where
  "sorted_unique_ipv4_cidrs cidrs = rbind (v4_networks cidrs) (\<lambda>ns.
     Inr (sort_key cidr_order (dedup (map net_str ns))))"

definition push_route_line :: "net \<Rightarrow> string" where
  "push_route_line n = ''push '' @ [CHR 0x22] @ ''route '' @ ip_str (net_addr n) @ '' '' @ netmask_str n @ [CHR 0x22] @ nl"

definition build_mesh_peer_push_routes_block :: "string list \<Rightarrow> string res" where
  "build_mesh_peer_push_routes_block cidrs = rbind (sorted_unique_ipv4_cidrs cidrs) (\<lambda>cs.
     if cs = [] then Inr []
     else rbind (v4_networks cs) (\<lambda>ns.
       Inr (concat ([mesh_begin @ nl] @ map push_route_line ns @ [mesh_end @ nl]))))"

definition merge_mesh_peer_push_routes_into_ccd :: "string \<Rightarrow> string list \<Rightarrow> string res" where
  "merge_mesh_peer_push_routes_into_ccd existing cidrs =
     (let base = without_block mesh_begin mesh_end existing in
      rbind (build_mesh_peer_push_routes_block cidrs) (\<lambda>block.
      Inr (if block = [] then base else base @ block)))"

section \<open>The fixed address\<close>

text \<open>\<open>ifconfig-push\<close> lines of a CCD file: the word after the directive.\<close>

definition ifconfig_ip :: "string \<Rightarrow> string option" where
  "ifconfig_ip line = (case py_words (strip line) of
     a # b # ws \<Rightarrow> if a = ''ifconfig-push'' then Some b else None | _ \<Rightarrow> None)"

definition first_ifconfig_ip :: "string \<Rightarrow> string option" where
  "first_ifconfig_ip content = (case List.map_filter ifconfig_ip (splitlines content) of [] \<Rightarrow> None | ip # _ \<Rightarrow> Some ip)"

text \<open>\<open>_write_ccd\<close>: the file of a new client.\<close>

definition ccd_content :: "string \<Rightarrow> string \<Rightarrow> string" where
  "ccd_content client_ip netmask = ''ifconfig-push '' @ client_ip @ '' '' @ netmask @ nl"

text \<open>The lines with the first \<open>ifconfig-push\<close> line replaced and the later ones dropped.\<close>

fun replace_ifconfig_lines :: "string \<Rightarrow> bool \<Rightarrow> string list \<Rightarrow> string list" where
  "replace_ifconfig_lines new_line replaced [] = []"
| "replace_ifconfig_lines new_line replaced (l # ls) =
     (if ifconfig_ip l \<noteq> None
      then (if replaced then [] else [new_line]) @ replace_ifconfig_lines new_line True ls
      else l # replace_ifconfig_lines new_line replaced ls)"

definition replace_ccd_ifconfig_push :: "string \<Rightarrow> string \<Rightarrow> string \<Rightarrow> string option \<times> string" where
  "replace_ccd_ifconfig_push existing client_ip netmask =
     (let new_line = ''ifconfig-push '' @ client_ip @ '' '' @ netmask;
          ls = splitlines existing;
          output = replace_ifconfig_lines new_line False ls;
          output2 = (if list_ex (\<lambda>l. ifconfig_ip l \<noteq> None) ls then output
             else (case output of [] \<Rightarrow> [new_line]
               | l # rest \<Rightarrow> if strip l = ''disable'' then l # new_line # rest else new_line # l # rest))
      in (first_ifconfig_ip existing, rstrip (join nl output2) @ nl))"

text \<open>\<open>_update_ccd_disable\<close> on the text of an existing file.\<close>

definition set_ccd_disable :: "bool \<Rightarrow> string \<Rightarrow> string" where
  "set_ccd_disable disable existing =
     (let filtered = filter (\<lambda>l. strip l \<noteq> ''disable'') (splitlines existing)
      in join nl (if disable then ''disable'' # filtered else filtered) @ nl)"

definition ccd_disabled :: "string \<Rightarrow> bool" where
  "ccd_disabled content = list_ex (\<lambda>l. strip l = ''disable'') (splitlines content)"

end
