(* ===== verification/System.thy ===== *)
theory System
  imports Storage_Laws Kernel Ccd
begin

text \<open>
  The state the services share, and the way a stored rule reaches the kernel.

  A \<open>sys\<close> holds the database, the iptables manager with its kernel, the \<open>_prepush_snapshots\<close> of
  the rule service, the files of the CCD directory and the audit log.  The parameters of the run
  (commands, digests, clock, fresh identifiers) are a \<open>world\<close>.

  \<open>TagService.resolve_addresses\<close>, \<open>FirewallRuleService._resolve_tag_rules\<close>,
  \<open>_collect_center_peers\<close> and \<open>_refresh_vpn_forward_only\<close> / \<open>_rebuild_all_rules\<close> are here.
\<close>

section \<open>State\<close>

record audit_entry =
  au_action :: string
  au_target_type :: string
  au_target_id :: string
  au_result :: string

record 'k sys =
  s_db :: db
  s_mgr :: "'k mgr"
  s_prepush :: "(string \<times> rule list) list"
  s_ccd :: "(string \<times> string) list"
  s_audit :: "audit_entry list"

record 'k world =
  w_env :: "'k env"
  w_run :: "'k runner"
  w_hash :: hashes
  w_na :: netaddr
  w_now :: string
  w_uuid :: "nat \<Rightarrow> string"
  w_ccd_fault :: "string \<Rightarrow> bool"
  w_mkdir_ok :: bool

definition store_write :: "(db \<Rightarrow> db res) \<Rightarrow> ('k sys, unit) stact" where
  "store_write body st = (case connection_write body (s_db st) of (r, d) \<Rightarrow> Some (r, st\<lparr>s_db := d\<rparr>))"

definition read_db :: "(db \<Rightarrow> 'a) \<Rightarrow> ('k sys, 'a) stact" where
  "read_db q st = Some (Inr (q (s_db st)), st)"

definition on_mgr :: "('k, 'a) act \<Rightarrow> ('k sys, 'a) stact" where
  "on_mgr m st = (case m (s_mgr st) of None \<Rightarrow> None | Some (r, mg) \<Rightarrow> Some (r, st\<lparr>s_mgr := mg\<rparr>))"

definition of_res :: "'a res \<Rightarrow> ('s, 'a) stact" where
  "of_res r = (case r of Inl e \<Rightarrow> throw e | Inr x \<Rightarrow> ret x)"

definition audit :: "string \<Rightarrow> string \<Rightarrow> string \<Rightarrow> string \<Rightarrow> ('k sys, unit) stact" where
  "audit act ttype tid outcome st = Some (Inr (), st\<lparr>s_audit := s_audit st @
     [\<lparr>au_action = act, au_target_type = ttype, au_target_id = tid, au_result = outcome\<rparr>]\<rparr>)"

lemma of_res_simps [simp]: "of_res (Inl e) = throw e" "of_res (Inr x) = ret x"
  by (simp_all add: of_res_def)

section \<open>Fixed addresses\<close>

text \<open>\<open>UserService.list_ccd_virtual_ipv4_by_username\<close>; an unreadable file is skipped.\<close>

definition list_ccd_ips :: "(string \<Rightarrow> bool) \<Rightarrow> (string \<times> string) list \<Rightarrow> (string \<times> string) list" where
  "list_ccd_ips fault ccd = List.map_filter (\<lambda>(name, content).
     if fault name then None else map_option (Pair name) (first_ifconfig_ip content)) ccd"

section \<open>Addresses of a tag\<close>

definition group_active :: "string \<Rightarrow> db \<Rightarrow> bool" where
  "group_active gid d \<longleftrightarrow> (case get_group gid d of None \<Rightarrow> False | Some g \<Rightarrow> g_status g = GActive)"

definition group_subnet_of :: "string \<Rightarrow> db \<Rightarrow> string" where
  "group_subnet_of gid d = (case get_group gid d of None \<Rightarrow> [] | Some g \<Rightarrow> strip (g_subnet g))"

definition user_address :: "(string \<times> string) list \<Rightarrow> db \<Rightarrow> string \<Rightarrow> string list" where
  "user_address ips d u = (case get_user u d of None \<Rightarrow> []
     | Some x \<Rightarrow> if u_status x = UActive
         then (case map_of ips u of None \<Rightarrow> [] | Some a \<Rightarrow> if a = [] then [] else [a]) else [])"

definition resolve_addresses :: "string \<Rightarrow> (string \<times> string) list \<Rightarrow> db \<Rightarrow> string list res" where
  "resolve_addresses tid ips d =
     (if get_tag tid d = None then Inl (ValueError ''no such tag'')
      else (let (unames, gids) = get_tag_members tid d;
                live = filter (\<lambda>g. group_active g d) gids;
                subnets = filter (\<lambda>s. s \<noteq> []) (map (\<lambda>g. group_subnet_of g d) live);
                names = sorted_set (unames @ concat (map (\<lambda>g. list_active_usernames_by_group g d) live))
            in normalize_entries (subnets @ concat (map (user_address ips d) names))))"

section \<open>Rules for the kernel\<close>

text \<open>The answer for a tag is remembered for the rest of the pass; the first error aborts it.\<close>

fun resolve_rows :: "(string \<times> string) list \<Rightarrow> db \<Rightarrow> (string \<times> string list) list \<Rightarrow> rule list \<Rightarrow> rule list res" where
  "resolve_rows ips d memo [] = Inr []"
| "resolve_rows ips d memo (r # rs) =
     (if \<not> enabled r then resolve_rows ips d memo rs
      else if owner_type r \<noteq> OTag then
        rbind (mk_rule r) (\<lambda>r'. rbind (resolve_rows ips d memo rs) (\<lambda>out. Inr (r' # out)))
      else
        rbind (case map_of memo (owner_id r) of Some l \<Rightarrow> Inr l | None \<Rightarrow> resolve_addresses (owner_id r) ips d) (\<lambda>addrs.
        (let memo' = (if map_of memo (owner_id r) = None then (owner_id r, addrs) # memo else memo) in
         if addrs = [] then resolve_rows ips d memo' rs
         else rbind (mk_rule (r\<lparr>source_subnet := None, source_ips := Some addrs\<rparr>)) (\<lambda>r'.
           rbind (resolve_rows ips d memo' rs) (\<lambda>out. Inr (r' # out))))))"

definition resolve_tag_rules :: "(string \<times> string) list \<Rightarrow> db \<Rightarrow> rule list \<Rightarrow> rule list res" where
  "resolve_tag_rules ips d rows = rbind (resolve_rows ips d [] rows) (\<lambda>rs. Inr (sort_key priority rs))"

definition center_peer_of :: "peer \<Rightarrow> center_peer option" where
  "center_peer_of p =
     (if strip (p_id p) = [] \<or> \<not> center_forward_enabled p \<or> strip_all (lan_cidrs p) = [] then None
      else Some \<lparr>cp_id = strip (p_id p), cp_cidrs = strip_all (lan_cidrs p), cp_priority = center_forward_priority p,
        cp_extra = \<lparr>ex_dest_ip = strip (center_forward_dest_ip p), ex_dest_port = strip (center_forward_dest_port p),
          ex_protocol = lower (strip (if center_forward_protocol p = [] then ''all'' else center_forward_protocol p)),
          ex_description = strip (center_forward_rule_description p)\<rparr>\<rparr>)"

definition collect_center_peers :: "db \<Rightarrow> center_peer list" where
  "collect_center_peers d = List.map_filter center_peer_of (list_peers d)"

definition enabled_rules :: "'k world \<Rightarrow> 'k sys \<Rightarrow> rule list res" where
  "enabled_rules w st = resolve_tag_rules (list_ccd_ips (w_ccd_fault w) (s_ccd st)) (s_db st) (list_firewall_rules (s_db st))"

definition refresh_forward :: "'k world \<Rightarrow> ('k sys, unit) stact" where
  "refresh_forward w st = andthen (of_res (enabled_rules w st)) (\<lambda>rules.
     andthen (on_mgr (refresh_vpn_forward_only (w_env w) (w_run w) (w_hash w) rules (collect_center_peers (s_db st)))) (\<lambda>ok.
       if ok then ret () else throw (RuntimeError ''VPN_FORWARD refresh''))) st"

definition rebuild_all_rules :: "'k world \<Rightarrow> ('k sys, unit) stact" where
  "rebuild_all_rules w st = andthen (of_res (enabled_rules w st)) (\<lambda>rules.
     andthen (on_mgr (rebuild_rules (w_env w) (w_run w) (w_hash w) rules (collect_center_peers (s_db st)))) (\<lambda>ok.
       if ok then ret () else throw (RuntimeError ''iptables rebuild''))) st"

section \<open>Save, refresh, undo\<close>

text \<open>The pattern of every change of a rule or of a tag: write the store, refresh the kernel, and
  when the refresh raises, write the old contents back and raise again.\<close>

definition guarded :: "('s, unit) stact \<Rightarrow> ('s, unit) stact \<Rightarrow> ('s, unit) stact \<Rightarrow> ('s, unit) stact" where
  "guarded change refresh undo = andthen change (\<lambda>_. handle refresh (\<lambda>e. andthen undo (\<lambda>_. throw e)))"

text \<open>What the pattern guarantees, from what its three parts promise: \<open>seen\<close> is what must survive a
  failure, \<open>mem\<close> what \<open>undo\<close> relies on and \<open>refresh\<close> leaves alone.\<close>

locale guarded_update =
  fixes pre :: "'s \<Rightarrow> bool"
    and seen :: "'s \<Rightarrow> 'v"
    and mem :: "'s \<Rightarrow> 'm"
    and change :: "('s, unit) stact"
    and refresh :: "('s, unit) stact"
    and undo :: "('s, unit) stact"
  assumes change_fails: "pre s \<Longrightarrow> change s = Some (Inl e, t) \<Longrightarrow> seen t = seen s"
    and refresh_mem: "refresh s = Some (r, t) \<Longrightarrow> mem t = mem s"
    and undo_restores: "pre s \<Longrightarrow> change s = Some (Inr (), t) \<Longrightarrow> mem u = mem t \<Longrightarrow> undo u = Some (r, v) \<Longrightarrow>
      r = Inr () \<and> seen v = seen s"
begin

lemma failure_restores:
  assumes "pre s" "guarded change refresh undo s = Some (Inl e, v)"
  shows "seen v = seen s"
proof -
  consider "change s = Some (Inl e, v)"
    | t where "change s = Some (Inr (), t)" "handle refresh (\<lambda>e. andthen undo (\<lambda>_. throw e)) t = Some (Inl e, v)"
    using assms(2) by (auto simp: guarded_def andthen_Some_iff)
  then show ?thesis
  proof cases
    case 1
    then show ?thesis using change_fails assms(1) by blast
  next
    case 2
    then obtain e' u where u: "refresh t = Some (Inl e', u)" "andthen undo (\<lambda>_. throw e') u = Some (Inl e :: unit res, v)"
      using 2(2) by (auto simp: handle_Some_iff)
    obtain r where r: "undo u = Some (r, v)"
      using u(2) by (auto simp: andthen_Some_iff throw_def)
    show ?thesis using undo_restores [OF assms(1) 2(1) refresh_mem [OF u(1)] r] by simp
  qed
qed

lemma success_applies:
  assumes "guarded change refresh undo s = Some (Inr (), v)"
  shows "\<exists>t. change s = Some (Inr (), t) \<and> refresh t = Some (Inr (), v) \<and> mem v = mem t"
proof -
  obtain t where t: "change s = Some (Inr (), t)"
    "handle refresh (\<lambda>e. andthen undo (\<lambda>_. throw e)) t = Some (Inr (), v)"
    using assms by (auto simp: guarded_def andthen_Some_iff)
  then have "refresh t = Some (Inr (), v)"
    by (auto simp: handle_Some_iff andthen_Some_iff throw_def)
  then show ?thesis using t(1) refresh_mem by blast
qed

end

section \<open>Frames\<close>

lemma on_mgr_Some: "on_mgr m st = Some (r, st') \<longleftrightarrow> (\<exists>mg. m (s_mgr st) = Some (r, mg) \<and> st' = st\<lparr>s_mgr := mg\<rparr>)"
  by (auto simp: on_mgr_def split: option.splits)

lemma store_write_Some:
  "store_write body st = Some (r, st') \<longleftrightarrow>
   (\<exists>e. body (s_db st) = Inl e \<and> r = Inl e \<and> st' = st) \<or> (\<exists>d. body (s_db st) = Inr d \<and> r = Inr () \<and> st' = st\<lparr>s_db := d\<rparr>)"
  by (auto simp: store_write_def connection_write_def split: sum.splits prod.splits)

text \<open>A refresh changes the kernel only.\<close>

definition kernel_only :: "'k sys \<Rightarrow> 'k sys \<Rightarrow> bool" where
  "kernel_only st st' \<longleftrightarrow> st' = st\<lparr>s_mgr := s_mgr st'\<rparr>"

lemma kernel_only_fields:
  "kernel_only st st' \<Longrightarrow> s_db st' = s_db st \<and> s_prepush st' = s_prepush st \<and> s_ccd st' = s_ccd st \<and> s_audit st' = s_audit st"
  unfolding kernel_only_def by (metis sys.select_convs sys.surjective sys.update_convs(2))

interpretation ker: step_frame "kernel_only :: 'k sys \<Rightarrow> 'k sys \<Rightarrow> bool"
  by unfold_locales (auto simp: kernel_only_def, metis sys.surjective sys.update_convs(2))

lemma on_mgr_kernel_only: "keeps kernel_only (on_mgr m)"
  by (auto simp: keeps_def on_mgr_Some kernel_only_def)

lemma of_res_keeps: "(\<And>s. R s s) \<Longrightarrow> keeps R (of_res r)"
  by (cases r) (auto simp: keeps_def ret_def throw_def)

lemma refresh_forward_kernel_only: "keeps kernel_only (refresh_forward w)"
proof -
  have "kernel_only st st'" if "refresh_forward w st = Some (r, st')" for st r and st' :: "'a sys"
  proof -
    let ?m = "andthen (of_res (enabled_rules w st)) (\<lambda>rules.
     andthen (on_mgr (refresh_vpn_forward_only (w_env w) (w_run w) (w_hash w) rules (collect_center_peers (s_db st)))) (\<lambda>ok.
       if ok then ret () else throw (RuntimeError ''VPN_FORWARD refresh'')))"
    have "keeps kernel_only ?m"
      by (intro ker.andthen_keeps on_mgr_kernel_only of_res_keeps ker.refl) auto
    then show ?thesis using that by (auto simp: refresh_forward_def dest: keepsD)
  qed
  then show ?thesis by (auto simp: keeps_def)
qed

end
