(* ===== verification/Tags.thy ===== *)
theory Tags
  imports System Ipset_Props
begin

text \<open>
  \<open>app/services/firewall/tag_service.py\<close>: tags, their members, and the refresh of the kernel that
  follows a change; a failed refresh puts the associations back.
\<close>

section \<open>Operations\<close>

definition tag_create :: "'k world \<Rightarrow> string \<Rightarrow> string \<Rightarrow> ('k sys, tag option) stact" where
  "tag_create w nm desc = andthen (store_write (create_tag (w_now w) (w_uuid w 0) nm desc)) (\<lambda>_.
     read_db (get_tag (w_uuid w 0)))"

definition tag_update :: "'k world \<Rightarrow> string \<Rightarrow> string \<Rightarrow> string \<Rightarrow> ('k sys, tag option) stact" where
  "tag_update w tid nm desc = andthen (store_write (update_tag (w_now w) tid nm desc)) (\<lambda>_. read_db (get_tag tid))"

definition references :: "string \<Rightarrow> db \<Rightarrow> rule list" where
  "references tid d = filter (\<lambda>r. owner_type r = OTag \<and> owner_id r = tid) (list_firewall_rules d)"

definition tag_rule_count :: "string \<Rightarrow> db \<Rightarrow> nat" where
  "tag_rule_count tid d = length (references tid d)"

definition tag_delete :: "string \<Rightarrow> ('k sys, unit) stact" where
  "tag_delete tid = store_write (\<lambda>d.
     if get_tag tid d = None then Inl (ValueError ''no such tag'')
     else if references tid d \<noteq> [] then Inl (ValueError ''tag referenced by rules'')
     else Inr (delete_tag tid d))"

definition active_tag_owners :: "db \<Rightarrow> string list" where
  "active_tag_owners d = map owner_id (filter (\<lambda>r. owner_type r = OTag \<and> enabled r) (list_firewall_rules d))"

definition refresh_for_tags :: "'k world \<Rightarrow> string list \<Rightarrow> ('k sys, unit) stact" where
  "refresh_for_tags w tids st =
     (if list_ex (\<lambda>t. t \<in> set (active_tag_owners (s_db st))) tids then refresh_forward w st else ret () st)"

definition set_members :: "'k world \<Rightarrow> string \<Rightarrow> string list \<Rightarrow> string list \<Rightarrow> bool \<Rightarrow> ('k sys, unit) stact" where
  "set_members w tid usernames gids refresh_kernel st =
     (let (us, gs) = get_tag_members tid (s_db st) in
      if refresh_kernel
      then guarded (store_write (set_tag_members tid usernames gids)) (refresh_for_tags w [tid])
             (store_write (set_tag_members tid us gs)) st
      else store_write (set_tag_members tid usernames gids) st)"

definition set_entity_tags :: "'k world \<Rightarrow> string \<Rightarrow> string \<Rightarrow> string list \<Rightarrow> bool \<Rightarrow> ('k sys, unit) stact" where
  "set_entity_tags w etype eid tids refresh_kernel st =
     (case list_entity_tag_ids etype eid (s_db st) of
        Inl e \<Rightarrow> throw e st
      | Inr before \<Rightarrow> (let desired = sorted_set tids in
          if before = desired then ret () st
          else if refresh_kernel
          then guarded (store_write (replace_entity_tags etype eid desired)) (refresh_for_tags w (before @ desired))
                 (store_write (replace_entity_tags etype eid before)) st
          else store_write (replace_entity_tags etype eid desired) st))"

definition batch_change_entities ::
  "'k world \<Rightarrow> string \<Rightarrow> string list \<Rightarrow> string list \<Rightarrow> string \<Rightarrow> ('k sys, nat) stact" where
  "batch_change_entities w etype eids tids operation st =
     (let ids = clean_ids eids; tags = clean_ids tids in
      case batch_change_entity_tags etype ids tags operation (s_db st) of
        Inl e \<Rightarrow> throw e st
      | Inr (before, d) \<Rightarrow>
          andthen (guarded (store_write (\<lambda>_. Inr d)) (refresh_for_tags w (tags @ concat (map snd before)))
             (store_write (restore_entity_tag_snapshots etype before))) (\<lambda>_. ret (length ids)) st)"

definition relevant_tags :: "string \<Rightarrow> string \<Rightarrow> string \<Rightarrow> db \<Rightarrow> string list res" where
  "relevant_tags etype eid other_group d =
     rbind (list_entity_tag_ids etype eid d) (\<lambda>own.
     Inr (own @ (if etype = ''user'' then
         (case get_user eid d of None \<Rightarrow> [] | Some u \<Rightarrow> entity_tag_ids EGroup (group_id u) d) @
         (if other_group = [] then [] else entity_tag_ids EGroup other_group d) else [])))"

definition refresh_if_referenced :: "'k world \<Rightarrow> string \<Rightarrow> string \<Rightarrow> string \<Rightarrow> ('k sys, unit) stact" where
  "refresh_if_referenced w etype eid other_group st =
     andthen (of_res (relevant_tags etype eid other_group (s_db st))) (refresh_for_tags w) st"

section \<open>What must survive\<close>

text \<open>The contents of the store, with the rows of the tables that are rewritten as sets.\<close>

definition db_view :: "db \<Rightarrow> db \<times> fw_row set \<times> (string \<times> string) set \<times> (string \<times> string) set" where
  "db_view d = (d\<lparr>db_rules := [], db_user_tags := [], db_group_tags := []\<rparr>,
     set (db_rules d), set (db_user_tags d), set (db_group_tags d))"

lemma sort_key_same_set:
  assumes "distinct xs" "distinct ys" "set xs = set ys" "inj_on f (set xs)"
  shows "sort_key f xs = sort_key f ys"
proof -
  have "mset xs = mset ys" using assms by (simp add: set_eq_iff_mset_eq_distinct)
  then show ?thesis using assms by (metis mset_sort set_sort sort_key_inj_key_eq sorted_sort_key)
qed

lemma sort_same_set: "distinct xs \<Longrightarrow> distinct ys \<Longrightarrow> set xs = set ys \<Longrightarrow> sort xs = sort ys"
  using sort_key_same_set [of xs ys "\<lambda>x. x"] by simp

lemma rules_distinct: "db_ok d \<Longrightarrow> distinct (db_rules d) \<and> inj_on fr_id (set (db_rules d))"
  by (simp add: db_ok_def rules_ok_def tbl_ok_def distinct_map)

text \<open>Equal contents give equal answers.\<close>

lemma db_view_queries:
  assumes "db_ok d" "db_ok d'" "db_view d' = db_view d"
  shows "list_firewall_rules d' = list_firewall_rules d" "get_firewall_owner oid d' = get_firewall_owner oid d"
    "get_tag_members tid d' = get_tag_members tid d" "entity_tag_ids E eid d' = entity_tag_ids E eid d"
proof -
  have sets: "set (db_rules d') = set (db_rules d)" "set (db_user_tags d') = set (db_user_tags d)"
    "set (db_group_tags d') = set (db_group_tags d)"
    using assms(3) by (auto simp: db_view_def)
  have dis: "distinct (db_rules d)" "distinct (db_rules d')" "inj_on fr_id (set (db_rules d))"
    using assms(1,2) rules_distinct by auto
  show "list_firewall_rules d' = list_firewall_rules d" unfolding list_firewall_rules_def
    by (rule arg_cong [of _ _ "map fr_payload"], rule sort_key_same_set)
      (use dis sets in \<open>auto simp: inj_on_def\<close>)
  show "get_firewall_owner oid d' = get_firewall_owner oid d" unfolding get_firewall_owner_def
    by (rule arg_cong [of _ _ "map fr_payload"], rule sort_key_same_set)
      (use dis sets in \<open>auto simp: inj_on_def\<close>)
  have dt: "distinct (assoc_of E x)" if "db_ok x" for E x
    using that by (cases E) (auto simp: db_ok_def assoc_ok_alt)
  have st: "set (assoc_of E d') = set (assoc_of E d)" for E using sets by (cases E) auto
  have q: "sort (map snd (filter (\<lambda>p. fst p = tid) (assoc_of E d'))) = sort (map snd (filter (\<lambda>p. fst p = tid) (assoc_of E d)))"
    for E by (rule sort_same_set) (use dt [OF assms(1), of E] dt [OF assms(2), of E] st [of E] in
        \<open>auto simp: distinct_map inj_on_def prod_eq_iff\<close>)
  show "get_tag_members tid d' = get_tag_members tid d"
    using q [of EUser] q [of EGroup] by (simp add: get_tag_members_def)
  show "entity_tag_ids E eid d' = entity_tag_ids E eid d" unfolding entity_tag_ids_def
    by (rule sort_same_set) (use dt [OF assms(1), of E] dt [OF assms(2), of E] st [of E] in
        \<open>auto simp: distinct_map inj_on_def prod_eq_iff\<close>)
qed

end
