(* ===== verification/Tags_Laws.thy ===== *)
theory Tags_Laws
  imports Tags
begin

text \<open>
  What the tag operations of the store do to the associations, and that a failed refresh of the
  kernel leaves the store as it was.  The locale \<open>guarded_update\<close> is interpreted on the three
  operations that change associations.
\<close>

section \<open>Clean identifiers\<close>

lemma clean_ids_facts [simp]: "distinct (clean_ids xs)" "sorted (clean_ids xs)" "set (clean_ids xs) = set (strip_all xs)"
  by (simp_all add: clean_ids_def)

lemma clean_ids_id: "list_all clean xs \<Longrightarrow> sorted xs \<Longrightarrow> distinct xs \<Longrightarrow> clean_ids xs = xs"
  by (simp add: clean_ids_def clean_def list_all_iff strip_all_id sorted_set_eqI)

lemma set_chunk_found: "set (chunk_found known xs) = set xs \<inter> set known"
proof (induction known xs rule: chunk_found.induct)
  case (2 known x xs)
  have "set (x # xs) = set (take 500 (x # xs)) \<union> set (drop 500 (x # xs))"
    by (metis append_take_drop_id set_append)
  then show ?case using 2 by (subst chunk_found.simps) auto
qed simp

declare chunk_found.simps [simp del]

lemma chunk_found_all: "distinct xs \<Longrightarrow> card (set (chunk_found known xs)) = length xs \<longleftrightarrow> set xs \<subseteq> set known"
proof -
  assume d: "distinct xs"
  have "card (set xs \<inter> set known) = card (set xs) \<longleftrightarrow> set xs \<inter> set known = set xs"
    by (metis List.finite_set card_subset_eq inf_le1)
  then show ?thesis using d by (simp add: set_chunk_found distinct_card) blast
qed

lemma chunk_guard:
  "distinct xs \<Longrightarrow> xs \<noteq> [] \<and> card (set (chunk_found known xs)) \<noteq> length xs \<longleftrightarrow> \<not> set xs \<subseteq> set known"
  by (cases "xs = []") (simp_all add: chunk_found_all)

lemma known_count_all:
  assumes "distinct known" "distinct ids" shows "known_count known ids = length ids \<longleftrightarrow> set ids \<subseteq> set known"
proof -
  have "known_count known ids = card (set ids \<inter> set known)"
    using assms(1) by (auto simp: known_count_def distinct_card [symmetric] intro!: arg_cong [where f = card])
  moreover have "card (set ids \<inter> set known) = card (set ids) \<longleftrightarrow> set ids \<inter> set known = set ids"
    by (metis List.finite_set card_subset_eq inf_le1)
  ultimately show ?thesis using assms(2) by (auto simp: distinct_card)
qed

lemma known_guard:
  "distinct known \<Longrightarrow> distinct ids \<Longrightarrow> ids \<noteq> [] \<and> known_count known ids \<noteq> length ids \<longleftrightarrow> \<not> set ids \<subseteq> set known"
  by (cases "ids = []") (simp_all add: known_count_all)

section \<open>Rewriting the associations of a tag or of an entity\<close>

declare set_assoc.simps [simp del] assoc_of.simps [simp del] entity_ids.simps [simp del] insert_assocs.simps [simp del]

lemma set_assoc_swap: "set_assoc EUser l (set_assoc EGroup l' d) = set_assoc EGroup l' (set_assoc EUser l d)"
  by (simp add: set_assoc.simps)

definition retag :: "entity \<Rightarrow> string \<Rightarrow> string list \<Rightarrow> db \<Rightarrow> db" where
  "retag E tid es d = set_assoc E (filter (\<lambda>p. fst p \<noteq> tid) (assoc_of E d) @ map (Pair tid) es) d"

definition relabel :: "entity \<Rightarrow> string \<Rightarrow> string list \<Rightarrow> db \<Rightarrow> db" where
  "relabel E eid ts d = set_assoc E (filter (\<lambda>p. snd p \<noteq> eid) (assoc_of E d) @ map (\<lambda>t. (t, eid)) ts) d"

lemma retag_fields [simp]:
  "assoc_of E (retag E tid es d) = filter (\<lambda>p. fst p \<noteq> tid) (assoc_of E d) @ map (Pair tid) es"
  "E \<noteq> F \<Longrightarrow> assoc_of E (retag F tid es d) = assoc_of E d"
  "entity_ids F (retag E tid es d) = entity_ids F d" "db_tags (retag E tid es d) = db_tags d"
  "get_tag t (retag E tid es d) = get_tag t d" "db_rules (retag E tid es d) = db_rules d"
  by (simp_all add: retag_def get_tag_def)

lemma relabel_fields [simp]:
  "assoc_of E (relabel E eid ts d) = filter (\<lambda>p. snd p \<noteq> eid) (assoc_of E d) @ map (\<lambda>t. (t, eid)) ts"
  "E \<noteq> F \<Longrightarrow> assoc_of E (relabel F eid ts d) = assoc_of E d"
  "entity_ids F (relabel E eid ts d) = entity_ids F d" "db_tags (relabel E eid ts d) = db_tags d"
  "db_rules (relabel E eid ts d) = db_rules d"
  by (simp_all add: relabel_def)

lemma insert_retag:
  "insert_assocs E (map (Pair tid) es) (delete_tag_assocs E tid d) = Inr d' \<longleftrightarrow>
   distinct es \<and> (\<forall>e\<in>set es. tid \<in> set (map t_id (db_tags d))) \<and> set es \<subseteq> set (entity_ids E d) \<and> d' = retag E tid es d"
  by (auto simp: insert_assocs_iff delete_tag_assocs_def retag_def distinct_map inj_on_def fk_ok_def subset_iff)

lemma insert_relabel:
  "insert_assocs E (map (\<lambda>t. (t, eid)) ts) (delete_entity_assocs E eid d) = Inr d' \<longleftrightarrow>
   distinct ts \<and> (\<forall>t\<in>set ts. eid \<in> set (entity_ids E d)) \<and> set ts \<subseteq> set (map t_id (db_tags d)) \<and> d' = relabel E eid ts d"
  by (auto simp: insert_assocs_iff delete_entity_assocs_def relabel_def distinct_map inj_on_def fk_ok_def subset_iff)

lemma get_tag_some: "get_tag tid d \<noteq> None \<longleftrightarrow> tid \<in> set (map t_id (db_tags d))"
  by (auto simp: get_tag_def tbl_get_None_iff)

lemma delete_tag_assocs_other [simp]:
  "E \<noteq> F \<Longrightarrow> assoc_of E (delete_tag_assocs F tid d) = assoc_of E d"
  "db_tags (delete_tag_assocs F tid d) = db_tags d" "entity_ids E (delete_tag_assocs F tid d) = entity_ids E d"
  by (simp_all add: delete_tag_assocs_def)

lemma delete_swap: "delete_tag_assocs EGroup tid (retag EUser tid us d) = retag EUser tid us (delete_tag_assocs EGroup tid d)"
  by (simp add: delete_tag_assocs_def retag_def set_assoc_swap)

lemma retag_delete: "retag EUser tid us (delete_tag_assocs EGroup tid (delete_tag_assocs EUser tid d)) =
    delete_tag_assocs EGroup tid (retag EUser tid us d)"
  by (simp add: delete_tag_assocs_def retag_def set_assoc_swap)

lemma set_tag_members_iff:
  "set_tag_members tid us gs d = Inr d' \<longleftrightarrow> get_tag tid d \<noteq> None \<and>
   set (strip_all us) \<subseteq> set (entity_ids EUser d) \<and> set (strip_all gs) \<subseteq> set (entity_ids EGroup d) \<and>
   d' = retag EGroup tid (clean_ids gs) (retag EUser tid (clean_ids us) d)"
proof (cases "get_tag tid d = None")
  case False
  let ?d0 = "delete_tag_assocs EGroup tid (delete_tag_assocs EUser tid d)"
  have u0: "insert_assocs EUser (map (Pair tid) us') ?d0 =
      insert_assocs EUser (map (Pair tid) us') (delete_tag_assocs EUser tid (delete_tag_assocs EGroup tid d))" for us'
    by (simp add: delete_tag_assocs_def set_assoc_swap)
  have u: "insert_assocs EUser (map (Pair tid) us') ?d0 = Inr d1 \<longleftrightarrow>
      distinct us' \<and> set us' \<subseteq> set (entity_ids EUser d) \<and> d1 = delete_tag_assocs EGroup tid (retag EUser tid us' d)" for us' d1
    using False get_tag_some [of tid d] by (auto simp: u0 insert_retag delete_swap)
  have g: "insert_assocs EGroup (map (Pair tid) gs') (delete_tag_assocs EGroup tid (retag EUser tid us' d)) = Inr d1 \<longleftrightarrow>
      distinct gs' \<and> set gs' \<subseteq> set (entity_ids EGroup d) \<and> d1 = retag EGroup tid gs' (retag EUser tid us' d)" for us' gs' d1
    using False get_tag_some [of tid d] by (auto simp: insert_retag)
  show ?thesis
    using False by (auto simp: set_tag_members_def Let_def rbind_Inr_iff chunk_guard u g)
qed (simp add: set_tag_members_def Let_def)

lemma set_entity_tag_ids: "set (entity_tag_ids E eid d) = {t. (t, eid) \<in> set (assoc_of E d)}"
  by (auto simp: entity_tag_ids_def image_iff)

lemma entity_tag_ids_facts:
  assumes "assoc_ok E d"
  shows "distinct (entity_tag_ids E eid d)" "sorted (entity_tag_ids E eid d)"
    "set (entity_tag_ids E eid d) \<subseteq> set (map t_id (db_tags d))"
    "t \<in> set (entity_tag_ids E eid d) \<Longrightarrow> eid \<in> set (entity_ids E d)"
proof -
  show "distinct (entity_tag_ids E eid d)" "sorted (entity_tag_ids E eid d)"
    using assms by (auto simp: entity_tag_ids_def assoc_ok_alt distinct_map inj_on_def prod_eq_iff)
  show "set (entity_tag_ids E eid d) \<subseteq> set (map t_id (db_tags d))"
    unfolding set_entity_tag_ids using assms by (auto simp: assoc_ok_alt fk_ok_def)
  show "t \<in> set (entity_tag_ids E eid d) \<Longrightarrow> eid \<in> set (entity_ids E d)"
    unfolding set_entity_tag_ids using assms by (auto simp: assoc_ok_alt fk_ok_def)
qed

definition members :: "entity \<Rightarrow> string \<Rightarrow> db \<Rightarrow> string list" where
  "members E tid d = sort (map snd (filter (\<lambda>p. fst p = tid) (assoc_of E d)))"

lemma get_tag_members_alt: "get_tag_members tid d = (members EUser tid d, members EGroup tid d)"
  by (simp add: get_tag_members_def members_def assoc_of.simps)

lemma entity_ids_clean: "db_ok d \<Longrightarrow> x \<in> set (entity_ids E d) \<Longrightarrow> clean x"
  by (cases E) (auto simp: db_ok_def ids_clean_def list_all_iff entity_ids.simps)

lemma members_facts:
  assumes "db_ok d"
  shows "clean_ids (members E tid d) = members E tid d"
    "set (members E tid d) = {e. (tid, e) \<in> set (assoc_of E d)}"
    "set (members E tid d) \<subseteq> set (entity_ids E d)"
    "strip_all (members E tid d) = members E tid d"
proof -
  have ok: "assoc_ok E d" using assms by (cases E) (auto simp: db_ok_def)
  show s: "set (members E tid d) = {e. (tid, e) \<in> set (assoc_of E d)}"
    by (auto simp: members_def image_iff)
  show sub: "set (members E tid d) \<subseteq> set (entity_ids E d)"
    unfolding s using ok by (auto simp: assoc_ok_alt fk_ok_def)
  have cl: "list_all clean (members E tid d)"
    using sub entity_ids_clean [OF assms] by (auto simp: list_all_iff)
  moreover have "distinct (members E tid d)" "sorted (members E tid d)"
    using ok by (auto simp: members_def assoc_ok_alt distinct_map inj_on_def prod_eq_iff)
  ultimately show "clean_ids (members E tid d) = members E tid d" by (simp add: clean_ids_id)
  show "strip_all (members E tid d) = members E tid d"
    using cl by (intro strip_all_id) (auto simp: list_all_iff clean_def)
qed

section \<open>Undoing a change\<close>

lemma db_view_assoc:
  assumes "set l = set (assoc_of E d)" shows "db_view (set_assoc E l d) = db_view d"
  using assms by (cases E) (auto simp: db_view_def set_assoc.simps assoc_of.simps)

lemma undo_members:
  assumes ok: "db_ok d" and ch: "set_tag_members tid us gs d = Inr d1"
  shows "\<exists>d2. set_tag_members tid (members EUser tid d) (members EGroup tid d) d1 = Inr d2 \<and> db_view d2 = db_view d"
proof -
  have tag: "get_tag tid d \<noteq> None" and d1: "d1 = retag EGroup tid (clean_ids gs) (retag EUser tid (clean_ids us) d)"
    using ch by (auto simp: set_tag_members_iff)
  let ?d2 = "retag EGroup tid (members EGroup tid d) (retag EUser tid (members EUser tid d) d1)"
  have undo: "set_tag_members tid (members EUser tid d) (members EGroup tid d) d1 = Inr ?d2"
    using tag members_facts [OF ok] by (simp add: set_tag_members_iff d1 del: members_facts(2))
  have l: "set (filter (\<lambda>p. fst p \<noteq> tid) (assoc_of E d) @ map (Pair tid) (members E tid d)) = set (assoc_of E d)" for E
    using members_facts(2) [OF ok, of E tid] by auto
  have "?d2 = set_assoc EGroup (filter (\<lambda>p. fst p \<noteq> tid) (assoc_of EGroup d) @ map (Pair tid) (members EGroup tid d))
      (set_assoc EUser (filter (\<lambda>p. fst p \<noteq> tid) (assoc_of EUser d) @ map (Pair tid) (members EUser tid d)) d)"
    by (simp add: d1 retag_def set_assoc_swap)
  then have "db_view ?d2 = db_view d"
    using l [of EUser] l [of EGroup] by (simp add: db_view_assoc)
  then show ?thesis using undo by blast
qed

lemma replace_entity_tags_iff:
  assumes "db_ok d" "entity_of etype = Inr E" "strip eid = eid"
  shows "replace_entity_tags etype eid ts d = Inr d' \<longleftrightarrow>
    eid \<in> set (entity_ids E d) \<and> set (strip_all ts) \<subseteq> set (map t_id (db_tags d)) \<and> d' = relabel E eid (clean_ids ts) d"
proof -
  have "distinct (map t_id (db_tags d))" using assms(1) by (simp add: db_ok_def tags_ok_def tbl_ok_def)
  then have "clean_ids ts \<noteq> [] \<and> known_count (map t_id (db_tags d)) (clean_ids ts) \<noteq> length (clean_ids ts) \<longleftrightarrow>
      \<not> set (strip_all ts) \<subseteq> set (map t_id (db_tags d))"
    using known_guard [of "map t_id (db_tags d)" "clean_ids ts"] by simp
  then show ?thesis using assms(2,3) by (auto simp: replace_entity_tags_def Let_def insert_relabel)
qed

lemma undo_entity_tags:
  assumes ok: "db_ok d" and E: "entity_of etype = Inr E" and eid: "strip eid = eid"
    and ch: "replace_entity_tags etype eid ts d = Inr d1"
  shows "\<exists>d2. replace_entity_tags etype eid (entity_tag_ids E eid d) d1 = Inr d2 \<and> db_view d2 = db_view d"
proof -
  note iff = replace_entity_tags_iff [OF _ E eid]
  have d1: "d1 = relabel E eid (clean_ids ts) d" and known: "eid \<in> set (entity_ids E d)"
    using ch by (auto simp: iff [OF ok])
  have ok1: "db_ok d1" using ok only_assocs_ok [OF replace_entity_tags_only [OF ch]] by blast
  have aok: "assoc_ok E d" using ok by (cases E) (auto simp: db_ok_def)
  note f = entity_tag_ids_facts [OF aok, of eid]
  have cl: "list_all clean (entity_tag_ids E eid d)"
    using f(3) ok by (auto simp: list_all_iff db_ok_def ids_clean_def)
  have c: "clean_ids (entity_tag_ids E eid d) = entity_tag_ids E eid d"
    using cl f(1,2) by (simp add: clean_ids_id)
  have s: "strip_all (entity_tag_ids E eid d) = entity_tag_ids E eid d"
    using cl by (intro strip_all_id) (auto simp: list_all_iff clean_def)
  let ?d2 = "relabel E eid (entity_tag_ids E eid d) d1"
  have "replace_entity_tags etype eid (entity_tag_ids E eid d) d1 = Inr ?d2"
    using known f(3) by (subst iff [OF ok1]) (simp add: c s d1)
  moreover have "?d2 = set_assoc E (filter (\<lambda>p. snd p \<noteq> eid) (assoc_of E d) @ map (\<lambda>t. (t, eid)) (entity_tag_ids E eid d)) d"
    by (simp add: relabel_def d1)
  moreover have "set (filter (\<lambda>p. snd p \<noteq> eid) (assoc_of E d) @ map (\<lambda>t. (t, eid)) (entity_tag_ids E eid d)) = set (assoc_of E d)"
    by (auto simp: set_entity_tag_ids)
  ultimately show ?thesis by (metis db_view_assoc)
qed

text \<open>The batch: the recorded snapshots, and restoring them.\<close>

lemma relabel_rows:
  "{t. (t, e) \<in> set (assoc_of E (relabel E e ts d))} = set ts"
  "x \<noteq> e \<Longrightarrow> {t. (t, x) \<in> set (assoc_of E (relabel E e ts d))} = {t. (t, x) \<in> set (assoc_of E d)}"
  by auto

lemma entity_tag_ids_relabel: "x \<noteq> e \<Longrightarrow> entity_tag_ids E x (relabel E e ts d) = entity_tag_ids E x d"
proof -
  assume x: "x \<noteq> e"
  have "filter (\<lambda>p. snd p = x) (filter (\<lambda>p. snd p \<noteq> e) l) = filter (\<lambda>p. snd p = x) l" for l :: "(string \<times> string) list"
    using x by (induction l) auto
  moreover have "filter (\<lambda>p. snd p = x) (map (\<lambda>t. (t, e)) ts) = []" using x by (induction ts) auto
  ultimately show ?thesis by (simp add: entity_tag_ids_def)
qed

lemma batch_loop_rows:
  assumes "batch_loop E oper tags es d = Inr (prev, d')" "distinct es"
  shows "prev = map (\<lambda>e. (e, entity_tag_ids E e d)) es \<and> (\<exists>l. d' = set_assoc E l d) \<and>
    (\<forall>e. {t. (t, e) \<in> set (assoc_of E d')} =
      (if e \<in> set es then set (batch_desired oper (entity_tag_ids E e d) tags) else {t. (t, e) \<in> set (assoc_of E d)}))"
  using assms
proof (induction es arbitrary: d prev)
  case Nil
  then show ?case by (simp, metis assoc_lens(3))
next
  case (Cons e es)
  let ?des = "batch_desired oper (entity_tag_ids E e d) tags"
  obtain d1 p where s: "(if ?des = entity_tag_ids E e d then Inr d
       else insert_assocs E (map (\<lambda>t. (t, e)) ?des) (delete_entity_assocs E e d)) = Inr d1"
    and l: "batch_loop E oper tags es d1 = Inr (p, d')" and prev: "prev = (e, entity_tag_ids E e d) # p"
    using Cons.prems(1) by (auto simp: Let_def rbind_Inr_iff)
  have d1: "d1 = d \<and> ?des = entity_tag_ids E e d \<or> d1 = relabel E e ?des d"
    using s by (auto simp: insert_relabel split: if_splits)
  have same: "entity_tag_ids E x d1 = entity_tag_ids E x d" if "x \<noteq> e" for x
    using d1 entity_tag_ids_relabel [OF that] by auto
  have here: "{t. (t, e) \<in> set (assoc_of E d1)} = set ?des"
    using d1 relabel_rows(1) [of e E ?des d] by (auto simp: set_entity_tag_ids)
  have there: "{t. (t, x) \<in> set (assoc_of E d1)} = {t. (t, x) \<in> set (assoc_of E d)}" if "x \<noteq> e" for x
    using d1 relabel_rows(2) [OF that, of E ?des d] by (elim disjE) simp_all
  have sa: "\<exists>l. d1 = set_assoc E l d" using d1 by (metis assoc_lens(3) relabel_def)
  have d: "distinct es" "e \<notin> set es" using Cons.prems(2) by auto
  note IH = Cons.IH [OF l d(1)]
  have "map (\<lambda>x. (x, entity_tag_ids E x d1)) es = map (\<lambda>x. (x, entity_tag_ids E x d)) es"
    by (rule map_cong [OF refl]) (use same d(2) in metis)
  then have "p = map (\<lambda>x. (x, entity_tag_ids E x d)) es" using IH by simp
  moreover have "\<exists>l. d' = set_assoc E l d" using IH sa by (metis assoc_lens(2))
  moreover have "{t. (t, x) \<in> set (assoc_of E d')} =
      (if x \<in> set (e # es) then set (batch_desired oper (entity_tag_ids E x d) tags) else {t. (t, x) \<in> set (assoc_of E d)})" for x
  proof (cases "x = e")
    case True
    then show ?thesis using IH here d(2) by simp
  next
    case False
    then show ?thesis using IH there [OF False] same [OF False] by simp
  qed
  ultimately show ?case using prev by simp
qed

lemma restore_snapshots_rows:
  assumes "\<forall>(e, ts)\<in>set snaps. distinct ts \<and> set ts \<subseteq> set (map t_id (db_tags d)) \<and> (\<forall>t\<in>set ts. e \<in> set (entity_ids E d))"
    "distinct (map fst snaps)"
  shows "\<exists>d'. restore_snapshots E snaps d = Inr d' \<and> (\<exists>l. d' = set_assoc E l d) \<and>
    (\<forall>x. {t. (t, x) \<in> set (assoc_of E d')} =
      (case map_of snaps x of Some ts \<Rightarrow> set ts | None \<Rightarrow> {t. (t, x) \<in> set (assoc_of E d)}))"
  using assms
proof (induction snaps arbitrary: d)
  case Nil
  then show ?case by (simp, metis assoc_lens(3))
next
  case (Cons s snaps)
  obtain e ts where s: "s = (e, ts)" by fastforce
  let ?d1 = "relabel E e ts d"
  have i: "insert_assocs E (map (\<lambda>t. (t, e)) ts) (delete_entity_assocs E e d) = Inr ?d1"
    using Cons.prems(1) by (auto simp: s insert_relabel)
  have pre: "\<forall>(e, ts)\<in>set snaps. distinct ts \<and> set ts \<subseteq> set (map t_id (db_tags ?d1)) \<and> (\<forall>t\<in>set ts. e \<in> set (entity_ids E ?d1))"
    using Cons.prems(1) by auto
  obtain d' l where d': "restore_snapshots E snaps ?d1 = Inr d'" "d' = set_assoc E l ?d1"
    "\<forall>x. {t. (t, x) \<in> set (assoc_of E d')} =
      (case map_of snaps x of Some ts \<Rightarrow> set ts | None \<Rightarrow> {t. (t, x) \<in> set (assoc_of E ?d1)})"
    using Cons.IH [OF pre] Cons.prems(2) by (auto simp: s)
  have e: "map_of snaps e = None" using Cons.prems(2) by (simp add: s map_of_eq_None_iff)
  have "{t. (t, x) \<in> set (assoc_of E d')} =
      (case map_of (s # snaps) x of Some ts \<Rightarrow> set ts | None \<Rightarrow> {t. (t, x) \<in> set (assoc_of E d)})" for x
  proof (cases "x = e")
    case True
    then show ?thesis using d'(3) e relabel_rows(1) [of e E ts d] by (simp add: s)
  next
    case False
    then show ?thesis using d'(3) relabel_rows(2) [OF False, of E ts d] by (simp add: s split: option.splits)
  qed
  moreover have "d' = set_assoc E l d" using d'(2) by (simp add: relabel_def)
  ultimately show ?case using i d'(1) by (auto simp: s)
qed

lemma map_of_tabulated: "map_of (map (\<lambda>k. (k, f k)) ks) x = (if x \<in> set ks then Some (f x) else None)"
  by (induction ks) auto

lemma undo_batch:
  assumes ok: "db_ok d" and ch: "batch_change_entity_tags etype es tags oper d = Inr (prev, d1)"
  shows "\<exists>d2. restore_entity_tag_snapshots etype prev d1 = Inr d2 \<and> db_view d2 = db_view d"
proof -
  obtain E where E: "entity_of etype = Inr E" and l: "batch_loop E oper (clean_ids tags) (clean_ids es) d = Inr (prev, d1)"
    using ch by (auto simp: batch_change_entity_tags_def Let_def rbind_Inr_iff split: if_splits)
  note rows = batch_loop_rows [OF l clean_ids_facts(1)]
  have aok: "assoc_ok E d" using ok by (cases E) (auto simp: db_ok_def)
  note f = entity_tag_ids_facts [OF aok]
  obtain l1 where d1: "d1 = set_assoc E l1 d" using rows by blast
  have pre: "\<forall>(e, ts)\<in>set prev. distinct ts \<and> set ts \<subseteq> set (map t_id (db_tags d1)) \<and> (\<forall>t\<in>set ts. e \<in> set (entity_ids E d1))"
    using rows f(1,3) f(4) unfolding d1 by auto
  have dis: "distinct (map fst prev)" using rows by (simp add: comp_def)
  obtain d2 l2 where d2: "restore_snapshots E prev d1 = Inr d2" "d2 = set_assoc E l2 d1"
    "\<forall>x. {t. (t, x) \<in> set (assoc_of E d2)} =
      (case map_of prev x of Some ts \<Rightarrow> set ts | None \<Rightarrow> {t. (t, x) \<in> set (assoc_of E d1)})"
    using restore_snapshots_rows [OF pre dis] by blast
  have mo: "map_of prev x = (if x \<in> set (clean_ids es) then Some (entity_tag_ids E x d) else None)" for x
    using rows by (simp add: map_of_tabulated)
  have "{t. (t, x) \<in> set (assoc_of E d2)} = {t. (t, x) \<in> set (assoc_of E d)}" for x
    using d2(3) mo rows by (auto simp: set_entity_tag_ids)
  then have "set (assoc_of E d2) = set (assoc_of E d)" by auto
  moreover have "d2 = set_assoc E l2 d" using d2(2) d1 by simp
  ultimately have "db_view d2 = db_view d" by (metis db_view_assoc assoc_lens(1))
  then show ?thesis using d2(1) E by (auto simp: restore_entity_tag_snapshots_def)
qed

end
