(* ===== verification/Demo.thy ===== *)
theory Demo
  imports System Kernel_Props Storage_Props
begin

text \<open>
  A small concrete system on which the services are evaluated: the sample database, a CCD file
  with a fixed address, and the reference kernel, whose \<open>iptables-restore\<close> can be made to fail.
\<close>

definition demo_world :: "bool \<Rightarrow> ref_kernel world" where
  "demo_world fail_load = \<lparr>w_env = demo_env, w_run = ref_kernel_run fail_load, w_hash = demo_hex, w_na = netaddr_ref,
     w_now = ''now'', w_uuid = (\<lambda>n. ''u'' @ dec_of_nat n),
     w_ccd_fault = (\<lambda>_. False), w_mkdir_ok = True\<rparr>"

definition demo_db :: db where
  "demo_db = run_ops netaddr_ref sample_ops sample_db"

definition demo_sys :: "ref_kernel sys" where
  "demo_sys = \<lparr>s_db = demo_db, s_mgr = demo_kernel, s_prepush = [],
     s_ccd = [(''alice'', ''ifconfig-push 10.8.0.5 255.255.0.0'')], s_audit = []\<rparr>"

lemma demo_db_reachable: "db_reachable netaddr_ref demo_db"
  unfolding demo_db_def by (rule run_ops_reachable [OF sample_db_reachable])

lemma demo_db_ok: "db_ok (s_db demo_sys)"
  using db_reachable_ok [OF demo_db_reachable] by (simp add: demo_sys_def)

lemma raised: "(case x of Some (Inl e, s) \<Rightarrow> Q s | _ \<Rightarrow> False) \<Longrightarrow> \<exists>e s. x = Some (Inl e, s) \<and> Q s"
  by (cases x; cases "fst (the x)"; cases "the x") auto

lemma returned: "(case x of Some (Inr b, s) \<Rightarrow> Q b s | _ \<Rightarrow> False) \<Longrightarrow> \<exists>b s. x = Some (Inr b, s) \<and> Q b s"
  by (cases x; cases "fst (the x)"; cases "the x") auto

lemma returned_unit: "(case x of Some (Inr (_ :: unit), s) \<Rightarrow> True | _ \<Rightarrow> False) \<Longrightarrow> \<exists>s. x = Some (Inr (), s)"
  by (cases x; cases "fst (the x)"; cases "the x") auto

text \<open>A peer site behind the user \<open>alice\<close>.\<close>

definition demo_peer :: "string list \<Rightarrow> peer" where
  "demo_peer lans = \<lparr>p_id = ''p1'', p_name = ''site'', bound_username = ''alice'', lan_cidrs = lans,
     center_forward_priority = 500, center_forward_enabled = True, center_forward_dest_ip = [],
     center_forward_dest_port = [], center_forward_protocol = ''all'', center_forward_rule_description = [],
     mesh_route_visible_group_ids = [], ssh_host = [], ssh_port = 22, ssh_username = [], ssh_auth = SshNone,
     ssh_password = [], ssh_private_key = [], ssh_private_key_passphrase = [], masquerade_on_peer = False,
     auto_install_on_peer = False, ssh_openvpn_binary = [], p_created_at = ''2024'', p_updated_at = ''2024''\<rparr>"

definition demo_peer_sys :: "string list \<Rightarrow> ref_kernel sys" where
  "demo_peer_sys lans = demo_sys\<lparr>s_db := run_ops netaddr_ref [UpsertPeer (demo_peer lans)] demo_db\<rparr>"

lemma demo_peer_db_ok: "db_ok (s_db (demo_peer_sys lans))"
  using db_reachable_ok [OF run_ops_reachable [OF demo_db_reachable]] by (simp add: demo_peer_sys_def)

end
