(* ===== verification/Tags_Props.thy ===== *)
theory Tags_Props
  imports Tags_Laws Forward_Laws Demo
begin

text \<open>
  Properties of the tags: a change is all or nothing, a successful one is exactly the requested
  one, and the rules of a tag reach the kernel with the addresses of its present members only.
\<close>

section \<open>The guarded operations\<close>

lemma refresh_for_tags_kernel_only: "keeps kernel_only (refresh_for_tags w ts)"
proof -
  have "kernel_only st st'" if "refresh_for_tags w ts st = Some (r, st')" for st r and st' :: "'a sys"
    using that keepsD [OF refresh_forward_kernel_only] ker.refl
    by (auto simp: refresh_for_tags_def ret_def split: if_splits)
  then show ?thesis by (auto simp: keeps_def)
qed

lemma refresh_for_tags_db: "refresh_for_tags w ts st = Some (r, st') \<Longrightarrow> s_db st' = s_db st"
  using keepsD [OF refresh_for_tags_kernel_only] kernel_only_fields by blast

interpretation member_update: guarded_update
    "\<lambda>st :: 'k sys. db_ok (s_db st) \<and> get_tag_members tid (s_db st) = (us0, gs0)" "\<lambda>st. db_view (s_db st)" s_db
    "store_write (set_tag_members tid us gs)" "refresh_for_tags w ts" "store_write (set_tag_members tid us0 gs0)"
  for w :: "'k world" and tid us gs us0 gs0 ts
proof unfold_locales
  fix s t u v :: "'k sys" and r e
  assume pre: "db_ok (s_db s) \<and> get_tag_members tid (s_db s) = (us0, gs0)"
  show "store_write (set_tag_members tid us gs) s = Some (Inl e, t) \<Longrightarrow> db_view (s_db t) = db_view (s_db s)"
    by (auto simp: store_write_Some)
  assume ch: "store_write (set_tag_members tid us gs) s = Some (Inr (), t)" and m: "s_db u = s_db t"
    and un: "store_write (set_tag_members tid us0 gs0) u = Some (r, v)"
  have "set_tag_members tid us gs (s_db s) = Inr (s_db u)" using ch m by (auto simp: store_write_Some)
  from undo_members [OF _ this] obtain d2 where "set_tag_members tid us0 gs0 (s_db u) = Inr d2" "db_view d2 = db_view (s_db s)"
    using pre by (auto simp: get_tag_members_alt)
  then show "r = Inr () \<and> db_view (s_db v) = db_view (s_db s)" using un by (auto simp: store_write_Some)
qed (rule refresh_for_tags_db)

interpretation entity_update: guarded_update
    "\<lambda>st :: 'k sys. db_ok (s_db st) \<and> strip eid = eid \<and> list_entity_tag_ids etype eid (s_db st) = Inr before"
    "\<lambda>st. db_view (s_db st)" s_db
    "store_write (replace_entity_tags etype eid ts)" "refresh_for_tags w tids" "store_write (replace_entity_tags etype eid before)"
  for w :: "'k world" and etype eid ts before tids
proof unfold_locales
  fix s t u v :: "'k sys" and r e
  assume pre: "db_ok (s_db s) \<and> strip eid = eid \<and> list_entity_tag_ids etype eid (s_db s) = Inr before"
  show "store_write (replace_entity_tags etype eid ts) s = Some (Inl e, t) \<Longrightarrow> db_view (s_db t) = db_view (s_db s)"
    by (auto simp: store_write_Some)
  assume ch: "store_write (replace_entity_tags etype eid ts) s = Some (Inr (), t)" and m: "s_db u = s_db t"
    and un: "store_write (replace_entity_tags etype eid before) u = Some (r, v)"
  obtain E where E: "entity_of etype = Inr E" and b: "before = entity_tag_ids E eid (s_db s)"
    using pre by (auto simp: list_entity_tag_ids_def rbind_Inr_iff)
  have "replace_entity_tags etype eid ts (s_db s) = Inr (s_db u)" using ch m by (auto simp: store_write_Some)
  from undo_entity_tags [OF _ E _ this] obtain d2 where "replace_entity_tags etype eid before (s_db u) = Inr d2"
    "db_view d2 = db_view (s_db s)" using pre b by auto
  then show "r = Inr () \<and> db_view (s_db v) = db_view (s_db s)" using un by (auto simp: store_write_Some)
qed (rule refresh_for_tags_db)

interpretation batch_update: guarded_update
    "\<lambda>st :: 'k sys. db_ok (s_db st) \<and> batch_change_entity_tags etype ids tags oper (s_db st) = Inr (before, d)"
    "\<lambda>st. db_view (s_db st)" s_db
    "store_write (\<lambda>_. Inr d)" "refresh_for_tags w tids" "store_write (restore_entity_tag_snapshots etype before)"
  for w :: "'k world" and etype ids tags oper before d tids
proof unfold_locales
  fix s t u v :: "'k sys" and r e
  assume pre: "db_ok (s_db s) \<and> batch_change_entity_tags etype ids tags oper (s_db s) = Inr (before, d)"
  show "store_write (\<lambda>_. Inr d) s = Some (Inl e, t) \<Longrightarrow> db_view (s_db t) = db_view (s_db s)"
    by (auto simp: store_write_Some)
  assume "store_write (\<lambda>_. Inr d) s = Some (Inr (), t)" "s_db u = s_db t"
    and un: "store_write (restore_entity_tag_snapshots etype before) u = Some (r, v)"
  then have "s_db u = d" by (auto simp: store_write_Some)
  moreover obtain d2 where "restore_entity_tag_snapshots etype before d = Inr d2" "db_view d2 = db_view (s_db s)"
    using undo_batch pre by blast
  ultimately show "r = Inr () \<and> db_view (s_db v) = db_view (s_db s)" using un by (auto simp: store_write_Some)
qed (rule refresh_for_tags_db)

section \<open>The addresses of a tag\<close>

definition resolve_one :: "(string \<times> string) list \<Rightarrow> db \<Rightarrow> rule \<Rightarrow> rule list res" where
  "resolve_one ips d r =
     (if \<not> enabled r then Inr []
      else if owner_type r \<noteq> OTag then rbind (mk_rule r) (\<lambda>r'. Inr [r'])
      else rbind (resolve_addresses (owner_id r) ips d) (\<lambda>addrs.
        if addrs = [] then Inr []
        else rbind (mk_rule (r\<lparr>source_subnet := None, source_ips := Some addrs\<rparr>)) (\<lambda>r'. Inr [r'])))"

lemma rbind_assoc: "rbind (rbind m f) g = rbind m (\<lambda>x. rbind (f x) g)"
  by (cases m) simp_all

text \<open>Remembering the addresses of a tag does not change the result.\<close>

lemma resolve_rows_memo:
  assumes "\<forall>t a. map_of memo t = Some a \<longrightarrow> resolve_addresses t ips d = Inr a"
  shows "resolve_rows ips d memo rows = rbind (mapM (resolve_one ips d) rows) (\<lambda>l. Inr (concat l))"
  using assms
proof (induction rows arbitrary: memo)
  case (Cons r rows)
  show ?case
  proof (cases "enabled r \<and> owner_type r = OTag")
    case False
    then show ?thesis using Cons.IH [OF Cons.prems] by (auto simp: resolve_one_def rbind_assoc)
  next
    case True
    have look: "(case map_of memo (owner_id r) of Some l \<Rightarrow> Inr l | None \<Rightarrow> resolve_addresses (owner_id r) ips d) =
        resolve_addresses (owner_id r) ips d"
      using Cons.prems by (auto split: option.splits)
    show ?thesis
    proof (cases "resolve_addresses (owner_id r) ips d")
      case (Inl e)
      then show ?thesis using True look by (simp add: resolve_one_def)
    next
      case (Inr addrs)
      let ?memo = "if map_of memo (owner_id r) = None then (owner_id r, addrs) # memo else memo"
      have "\<forall>t a. map_of ?memo t = Some a \<longrightarrow> resolve_addresses t ips d = Inr a"
        using Cons.prems Inr by auto
      from Cons.IH [OF this] show ?thesis
        using True look Inr by (auto simp: resolve_one_def rbind_assoc Let_def)
    qed
  qed
qed simp

lemma resolve_one_cases:
  assumes "resolve_one ips d r = Inr out" "x \<in> set out"
  shows "enabled x \<and> enabled r \<and> rule_id x = rule_id r \<and> priority x = priority r \<and> owner_type x = owner_type r \<and>
    owner_id x = owner_id r \<and> deployment_target x = deployment_target r \<and>
    (owner_type r = OTag \<longrightarrow> source_subnet x = None \<and>
      (\<exists>addrs. source_ips x = Some addrs \<and> addrs \<noteq> [] \<and> resolve_addresses (owner_id r) ips d = Inr addrs))"
proof (cases "owner_type r = OTag")
  case False
  then have "enabled r" "mk_rule r = Inr x"
    using assms by (auto simp: resolve_one_def rbind_Inr_iff split: if_splits)
  then show ?thesis using False by simp
next
  case True
  then obtain addrs where "enabled r" "resolve_addresses (owner_id r) ips d = Inr addrs" "addrs \<noteq> []"
    and m: "mk_rule (r\<lparr>source_subnet := None, source_ips := Some addrs\<rparr>) = Inr x"
    using assms by (auto simp: resolve_one_def rbind_Inr_iff split: if_splits)
  then show ?thesis using True mk_rule_fields [OF m] by auto
qed

lemma resolve_tag_rules_InrD:
  assumes "resolve_tag_rules ips d rows = Inr out"
  obtains l where "mapM (resolve_one ips d) rows = Inr l" "out = sort_key priority (concat l)"
  using assms resolve_rows_memo [of "[]" ips d rows] that by (auto simp: resolve_tag_rules_def rbind_Inr_iff)

lemma user_address_set:
  "(\<exists>t\<in>set (strip_all (user_address ips d u)). addr_in t a) \<longleftrightarrow>
   (\<exists>x ip. get_user u d = Some x \<and> u_status x = UActive \<and> map_of ips u = Some ip \<and> strip ip \<noteq> [] \<and> addr_in (strip ip) a)"
proof (cases "get_user u d")
  case (Some x)
  then show ?thesis
    by (cases "u_status x = UActive"; cases "map_of ips u") (auto simp: user_address_def strip_all_def)
qed (simp add: user_address_def strip_all_def)

lemma strip_all_append: "strip_all (xs @ ys) = strip_all xs @ strip_all ys"
  by (simp add: strip_all_def)

lemma set_strip_all_concat: "set (strip_all (concat xss)) = (\<Union>xs\<in>set xss. set (strip_all xs))"
  by (auto simp: strip_all_def)

lemma user_route:
  "(\<exists>u. (P u \<or> (\<exists>g. G g \<and> H g \<and> (\<exists>x. look u = Some x \<and> A x \<and> grp x = g))) \<and>
      (\<exists>x ip. look u = Some x \<and> A x \<and> I u ip \<and> J ip \<and> K ip)) \<longleftrightarrow>
   (\<exists>u x ip. look u = Some x \<and> A x \<and> I u ip \<and> J ip \<and> K ip \<and> (P u \<or> (\<exists>g. G g \<and> H g \<and> grp x = g)))"
  by (rule iff_exI) auto

lemma tag_addresses_law:
  assumes "db_ok d" "resolve_addresses tid ips d = Inr out"
  shows "addrs_in out a \<longleftrightarrow>
    (\<exists>gid. (tid, gid) \<in> set (db_group_tags d) \<and> group_active gid d \<and> group_subnet_of gid d \<noteq> [] \<and>
       addr_in (group_subnet_of gid d) a) \<or>
    (\<exists>u x ip. get_user u d = Some x \<and> u_status x = UActive \<and> map_of ips u = Some ip \<and> strip ip \<noteq> [] \<and>
       addr_in (strip ip) a \<and>
       ((tid, u) \<in> set (db_user_tags d) \<or> (\<exists>gid. (tid, gid) \<in> set (db_group_tags d) \<and> group_active gid d \<and> group_id x = gid)))"
proof -
  let ?gids = "members EGroup tid d"
  let ?live = "filter (\<lambda>g. group_active g d) ?gids"
  let ?subs = "filter (\<lambda>s. s \<noteq> []) (map (\<lambda>g. group_subnet_of g d) ?live)"
  let ?names = "sorted_set (members EUser tid d @ concat (map (\<lambda>g. list_active_usernames_by_group g d) ?live))"
  have n: "normalize_entries (?subs @ concat (map (user_address ips d) ?names)) = Inr out"
    using assms(2) by (auto simp: resolve_addresses_def get_tag_members_alt Let_def split: if_splits)
  have g: "gid \<in> set ?gids \<longleftrightarrow> (tid, gid) \<in> set (db_group_tags d)" for gid
    using members_facts(2) [OF assms(1), of EGroup tid] by (simp add: assoc_of.simps)
  have u: "u \<in> set (members EUser tid d) \<longleftrightarrow> (tid, u) \<in> set (db_user_tags d)" for u
    using members_facts(2) [OF assms(1), of EUser tid] by (simp add: assoc_of.simps)
  have users: "tbl_ok username (db_users d)" using assms(1) by (simp add: db_ok_def users_ok_def)
  have act: "u \<in> set (list_active_usernames_by_group gid d) \<longleftrightarrow>
      (\<exists>x. get_user u d = Some x \<and> u_status x = UActive \<and> group_id x = gid)" for u gid
    using tbl_get_iff [OF users] by (auto simp: list_active_usernames_by_group_def get_user_def)
  have subs: "strip_all ?subs = ?subs"
    by (rule strip_all_id) (auto simp: group_subnet_of_def split: option.splits)
  have "addrs_in out a \<longleftrightarrow> (\<exists>t\<in>set ?subs. addr_in t a) \<or>
      (\<exists>u\<in>set ?names. \<exists>t\<in>set (strip_all (user_address ips d u)). addr_in t a)"
  proof -
    have "addrs_in out a \<longleftrightarrow> addrs_in (?subs @ strip_all (concat (map (user_address ips d) ?names))) a"
      using normalize_entries_cover [OF n] by (simp only: strip_all_append subs)
    also have "\<dots> \<longleftrightarrow> (\<exists>t\<in>set ?subs. addr_in t a) \<or> (\<exists>t\<in>set (strip_all (concat (map (user_address ips d) ?names))). addr_in t a)"
      by (simp only: addrs_in_iff set_append bex_Un)
    also have "(\<exists>t\<in>set (strip_all (concat (map (user_address ips d) ?names))). addr_in t a) \<longleftrightarrow>
        (\<exists>u\<in>set ?names. \<exists>t\<in>set (strip_all (user_address ips d u)). addr_in t a)"
      by (simp only: set_strip_all_concat set_map) blast
    finally show ?thesis .
  qed
  also have "(\<exists>t\<in>set ?subs. addr_in t a) \<longleftrightarrow>
      (\<exists>gid. (tid, gid) \<in> set (db_group_tags d) \<and> group_active gid d \<and> group_subnet_of gid d \<noteq> [] \<and> addr_in (group_subnet_of gid d) a)"
    using g by auto
  also have "(\<exists>u\<in>set ?names. \<exists>t\<in>set (strip_all (user_address ips d u)). addr_in t a) \<longleftrightarrow>
     (\<exists>u x ip. get_user u d = Some x \<and> u_status x = UActive \<and> map_of ips u = Some ip \<and> strip ip \<noteq> [] \<and> addr_in (strip ip) a \<and>
       ((tid, u) \<in> set (db_user_tags d) \<or> (\<exists>gid. (tid, gid) \<in> set (db_group_tags d) \<and> group_active gid d \<and> group_id x = gid)))"
  proof -
    have names: "n \<in> set ?names \<longleftrightarrow> (tid, n) \<in> set (db_user_tags d) \<or>
        (\<exists>gid. (tid, gid) \<in> set (db_group_tags d) \<and> group_active gid d \<and> n \<in> set (list_active_usernames_by_group gid d))" for n
      using u [of n] g by auto
    show ?thesis unfolding user_address_set unfolding Bex_def names act by (rule user_route)
  qed
  finally show ?thesis .
qed

section \<open>Properties\<close>

text \<open>C11. Which addresses a tag stands for: exactly those of the subnets of its active groups and the
  fixed addresses of its active users, where the active users of an active member group count as
  users of the tag.  A disabled group or user contributes nothing.\<close>

theorem tag_addresses_exact:
  assumes "db_ok d" "resolve_addresses tid ips d = Inr out"
  shows "addrs_in out a \<longleftrightarrow>
    (\<exists>gid. (tid, gid) \<in> set (db_group_tags d) \<and> group_active gid d \<and> group_subnet_of gid d \<noteq> [] \<and>
       addr_in (group_subnet_of gid d) a) \<or>
    (\<exists>u x ip. get_user u d = Some x \<and> u_status x = UActive \<and> map_of ips u = Some ip \<and> strip ip \<noteq> [] \<and>
       addr_in (strip ip) a \<and>
       ((tid, u) \<in> set (db_user_tags d) \<or> (\<exists>gid. (tid, gid) \<in> set (db_group_tags d) \<and> group_active gid d \<and> group_id x = gid)))"
  by (rule tag_addresses_law [OF assms])

text \<open>The rules handed to the kernel: they are the enabled stored rules in order of priority; a
  rule of a tag has the addresses of the tag's present members as its only source and is left out
  when there are none, so that no tag rule ever matches every source.  Resolving each tag once per
  pass gives the same rules as resolving it for every rule.\<close>

theorem tag_rules_resolved:
  assumes "resolve_tag_rules ips d rows = Inr out"
  shows "resolve_tag_rules ips d rows = rbind (mapM (resolve_one ips d) rows) (\<lambda>l. Inr (sort_key priority (concat l))) \<and>
    sorted (map priority out) \<and>
    (\<forall>x\<in>set out. enabled x \<and> (\<exists>r\<in>set rows. enabled r \<and> rule_id x = rule_id r \<and> priority x = priority r \<and> owner_id x = owner_id r) \<and>
      (owner_type x = OTag \<longrightarrow> source_subnet x = None \<and>
        (\<exists>addrs. source_ips x = Some addrs \<and> addrs \<noteq> [] \<and> resolve_addresses (owner_id x) ips d = Inr addrs)))"
proof -
  obtain l where l: "mapM (resolve_one ips d) rows = Inr l" and out: "out = sort_key priority (concat l)"
    using resolve_tag_rules_InrD [OF assms] .
  have "\<exists>r\<in>set rows. \<exists>o1. resolve_one ips d r = Inr o1 \<and> x \<in> set o1" if "x \<in> set out" for x
  proof -
    obtain o1 where "o1 \<in> set l" "x \<in> set o1" using \<open>x \<in> set out\<close> by (auto simp: out)
    then show ?thesis using mapM_mem [OF l] by blast
  qed
  then have "\<forall>x\<in>set out. enabled x \<and> (\<exists>r\<in>set rows. enabled r \<and> rule_id x = rule_id r \<and> priority x = priority r \<and> owner_id x = owner_id r) \<and>
      (owner_type x = OTag \<longrightarrow> source_subnet x = None \<and>
        (\<exists>addrs. source_ips x = Some addrs \<and> addrs \<noteq> [] \<and> resolve_addresses (owner_id x) ips d = Inr addrs))"
    using resolve_one_cases by metis
  moreover have "sorted (map priority out)" by (simp add: out)
  ultimately show ?thesis using l out assms by simp
qed

text \<open>C12. A change of tag associations is all or nothing: when the operation raises, because a member is
  unknown or because the kernel could not be refreshed, every association, rule and other record is
  as before.\<close>

theorem failed_tag_change_restores:
  assumes "db_ok (s_db st)"
  shows "(set_members w tid us gs True st = Some (Inl e, st') \<longrightarrow> db_view (s_db st') = db_view (s_db st)) \<and>
    (strip eid = eid \<longrightarrow> set_entity_tags w etype eid ts True st = Some (Inl e, st') \<longrightarrow> db_view (s_db st') = db_view (s_db st)) \<and>
    (batch_change_entities w etype eids ts oper st = Some (Inl e, st') \<longrightarrow> db_view (s_db st') = db_view (s_db st))"
proof (intro conjI impI)
  obtain us0 gs0 where m: "get_tag_members tid (s_db st) = (us0, gs0)" by fastforce
  assume "set_members w tid us gs True st = Some (Inl e, st')"
  then show "db_view (s_db st') = db_view (s_db st)"
    using assms m by (intro member_update.failure_restores) (auto simp: set_members_def)
next
  assume eid: "strip eid = eid" and r: "set_entity_tags w etype eid ts True st = Some (Inl e, st')"
  show "db_view (s_db st') = db_view (s_db st)"
  proof (cases "list_entity_tag_ids etype eid (s_db st)")
    case (Inl x)
    then show ?thesis using r by (simp add: set_entity_tags_def throw_def)
  next
    case (Inr before)
    then show ?thesis
      using assms eid r by (intro entity_update.failure_restores)
        (auto simp: set_entity_tags_def Let_def ret_def split: if_splits)
  qed
next
  assume r: "batch_change_entities w etype eids ts oper st = Some (Inl e, st')"
  show "db_view (s_db st') = db_view (s_db st)"
  proof (cases "batch_change_entity_tags etype (clean_ids eids) (clean_ids ts) oper (s_db st)")
    case (Inl x)
    then show ?thesis using r by (simp add: batch_change_entities_def Let_def throw_def)
  next
    case (Inr p)
    obtain before d where p: "p = (before, d)" by fastforce
    then have "guarded (store_write (\<lambda>_. Inr d)) (refresh_for_tags w (clean_ids ts @ concat (map snd before)))
             (store_write (restore_entity_tag_snapshots etype before)) st = Some (Inl e, st')"
      using r Inr by (auto simp: batch_change_entities_def Let_def andthen_Some_iff ret_def)
    then show ?thesis using assms Inr p by (intro batch_update.failure_restores) auto
  qed
qed

text \<open>A successful replacement of a tag's members gives the tag exactly the requested members
  (stripped, sorted, without repetition), changes no other tag, and, when an enabled rule uses the
  tag, leaves the kernel refreshed from the new associations.\<close>

theorem set_members_applies:
  assumes "db_ok (s_db st)" "set_members w tid us gs True st = Some (Inr (), st')"
  shows "get_tag_members tid (s_db st') = (clean_ids us, clean_ids gs) \<and>
    (\<forall>t. t \<noteq> tid \<longrightarrow> get_tag_members t (s_db st') = get_tag_members t (s_db st)) \<and>
    (tid \<in> set (active_tag_owners (s_db st)) \<longrightarrow> refresh_forward w (st\<lparr>s_db := s_db st'\<rparr>) = Some (Inr (), st'))"
proof -
  obtain us0 gs0 where m: "get_tag_members tid (s_db st) = (us0, gs0)" by fastforce
  obtain t where t: "store_write (set_tag_members tid us gs) st = Some (Inr (), t)"
    "refresh_for_tags w [tid] t = Some (Inr (), st')" "s_db st' = s_db t"
    using member_update.success_applies [of tid us gs w "[tid]" us0 gs0 st st'] assms(2) m by (auto simp: set_members_def)
  have tt: "t = st\<lparr>s_db := s_db st'\<rparr>" and ch: "set_tag_members tid us gs (s_db st) = Inr (s_db st')"
    using t(1,3) by (auto simp: store_write_Some)
  have d': "s_db st' = retag EGroup tid (clean_ids gs) (retag EUser tid (clean_ids us) (s_db st))"
    using ch by (simp add: set_tag_members_iff)
  have mem: "members E tid (set_assoc E (filter (\<lambda>p. fst p \<noteq> tid) l @ map (Pair tid) es) d) = sort es" for E l es d
  proof -
    have "filter (\<lambda>p. fst p = tid) (map (Pair tid) es) = map (Pair tid) es" by (induction es) auto
    then show ?thesis by (simp add: members_def filter_empty_conv comp_def)
  qed
  have oth: "members E x (set_assoc E (filter (\<lambda>p. fst p \<noteq> tid) (assoc_of E d) @ map (Pair tid) es) d) = members E x d"
    if "x \<noteq> tid" for E x es d
  proof -
    have "filter (\<lambda>p. fst p = x) (map (Pair tid) es) = []" using that by (induction es) auto
    moreover have "filter (\<lambda>p. fst p = x) (filter (\<lambda>p. fst p \<noteq> tid) l) = filter (\<lambda>p. fst p = x) l" for l :: "(string \<times> string) list"
      using that by (induction l) auto
    ultimately show ?thesis by (simp add: members_def)
  qed
  have swap: "members EUser x (retag EGroup tid es d) = members EUser x d" "members EGroup x (retag EUser tid es d) = members EGroup x d" for x es d
    by (simp_all add: members_def retag_def)
  have "get_tag_members tid (s_db st') = (clean_ids us, clean_ids gs)"
    by (simp only: d' get_tag_members_alt swap) (simp only: retag_def mem sorted_sort_id [OF clean_ids_facts(2)])
  moreover have "\<forall>x. x \<noteq> tid \<longrightarrow> get_tag_members x (s_db st') = get_tag_members x (s_db st)"
  proof (intro allI impI)
    fix x assume x: "x \<noteq> tid"
    show "get_tag_members x (s_db st') = get_tag_members x (s_db st)"
      by (simp only: d' get_tag_members_alt swap) (simp only: retag_def oth [OF x], simp add: members_def)
  qed
  moreover have "refresh_forward w (st\<lparr>s_db := s_db st'\<rparr>) = Some (Inr (), st')" if "tid \<in> set (active_tag_owners (s_db st))"
  proof -
    have "db_rules (s_db t) = db_rules (s_db st)" using tt d' by simp
    then have "active_tag_owners (s_db t) = active_tag_owners (s_db st)"
      by (simp add: active_tag_owners_def list_firewall_rules_def)
    then show ?thesis using t(2) that tt by (simp add: refresh_for_tags_def)
  qed
  ultimately show ?thesis by blast
qed

section \<open>Witnesses\<close>

theorem tag_addresses_exact_witness:
  "case resolve_addresses ''t1'' [(''alice'', ''10.8.0.5'')] demo_db of
     Inl _ \<Rightarrow> False
   | Inr out \<Rightarrow> out = [''10.8.0.5/32'', ''10.8.1.0/24''] \<and> addrs_in out 168296453"
proof -
  have a: "resolve_addresses ''t1'' [(''alice'', ''10.8.0.5'')] demo_db = Inr [''10.8.0.5/32'', ''10.8.1.0/24'']" by code_simp
  have ok: "db_ok demo_db" using demo_db_ok by (simp add: demo_sys_def)
  have "case get_user ''alice'' demo_db of Some x \<Rightarrow> u_status x = UActive \<and> (''t1'', ''alice'') \<in> set (db_user_tags demo_db) | None \<Rightarrow> False"
    by code_simp
  moreover have "strip ''10.8.0.5'' \<noteq> [] \<and> addr_in (strip ''10.8.0.5'') 168296453" by code_simp
  ultimately have "addrs_in [''10.8.0.5/32'', ''10.8.1.0/24''] 168296453"
    unfolding tag_addresses_exact [OF ok a] by (auto split: option.splits)
  then show ?thesis using a by simp
qed

theorem tag_rules_resolved_witness:
  "case resolve_tag_rules [(''alice'', ''10.8.0.5'')] demo_db (list_firewall_rules demo_db) of
     Inl _ \<Rightarrow> False
   | Inr out \<Rightarrow> sorted (map priority out) \<and> map source_ips out = [Some [''10.8.0.5/32'', ''10.8.1.0/24'']]"
proof -
  have "case resolve_tag_rules [(''alice'', ''10.8.0.5'')] demo_db (list_firewall_rules demo_db) of
     Inl _ \<Rightarrow> False | Inr out \<Rightarrow> map source_ips out = [Some [''10.8.0.5/32'', ''10.8.1.0/24'']]" by code_simp
  then obtain out where "resolve_tag_rules [(''alice'', ''10.8.0.5'')] demo_db (list_firewall_rules demo_db) = Inr out"
    "map source_ips out = [Some [''10.8.0.5/32'', ''10.8.1.0/24'']]"
    by (auto split: sum.splits)
  then show ?thesis using tag_rules_resolved by fastforce
qed

theorem failed_tag_change_restores_witness:
  "\<exists>e st'. set_members (demo_world True) ''t1'' [] [] True demo_sys = Some (Inl e, st') \<and>
     db_view (s_db st') = db_view (s_db demo_sys)"
proof -
  have "case set_members (demo_world True) ''t1'' [] [] True demo_sys of Some (Inl e, s) \<Rightarrow> True | _ \<Rightarrow> False" by code_simp
  then obtain e st' where "set_members (demo_world True) ''t1'' [] [] True demo_sys = Some (Inl e, st')"
    using raised [where Q = "\<lambda>_. True"] by blast
  then show ?thesis using failed_tag_change_restores [OF demo_db_ok] by blast
qed

theorem set_members_applies_witness:
  "\<exists>st'. set_members (demo_world False) ''t1'' [''alice '', ''alice''] [] True demo_sys = Some (Inr (), st') \<and>
     get_tag_members ''t1'' (s_db st') = ([''alice''], [])"
proof -
  have "case set_members (demo_world False) ''t1'' [''alice '', ''alice''] [] True demo_sys of
      Some (Inr _, s) \<Rightarrow> True | _ \<Rightarrow> False" by code_simp
  then obtain st' where r: "set_members (demo_world False) ''t1'' [''alice '', ''alice''] [] True demo_sys = Some (Inr (), st')"
    using returned_unit by blast
  have "clean_ids [''alice '', ''alice''] = [''alice'']" "clean_ids [] = []" by code_simp+
  then show ?thesis using set_members_applies [OF demo_db_ok r] r by auto
qed

end
