(* ===== verification/Peers.thy ===== *)
theory Peers
  imports System
begin

text \<open>
  \<open>app/services/peer_instance/service.py\<close>: the peer sites.  A peer is bound to a VPN user: its LAN
  is routed to that user by an \<open>iroute\<close> block of the user's CCD file, let through by the centre's
  VPN_FORWARD chain, and pushed to the other users as mesh routes in their CCD files.  The functions
  that act on the peer's own host over SSH are outside.
\<close>

section \<open>Fingerprints\<close>

text \<open>What the forward chain, the mesh routes and the CCD block of a peer depend on.\<close>

definition lan_fingerprint :: "peer \<Rightarrow> string list res" where
  "lan_fingerprint p = sorted_unique_ipv4_cidrs (strip_all (lan_cidrs p))"

definition vpn_forward_wire_snapshot ::
  "peer \<Rightarrow> (string list \<times> bool \<times> int \<times> string \<times> string \<times> string \<times> string) res" where
  "vpn_forward_wire_snapshot p = rbind (lan_fingerprint p) (\<lambda>lan_t.
     Inr (lan_t, center_forward_enabled p, center_forward_priority p, lower_or ''all'' (center_forward_protocol p),
       strip (center_forward_dest_ip p), strip (center_forward_dest_port p), strip (center_forward_rule_description p)))"

definition mesh_push_wire_snapshot :: "peer \<Rightarrow> (string list \<times> string list) res" where
  "mesh_push_wire_snapshot p = rbind (lan_fingerprint p) (\<lambda>lan_t.
     Inr (lan_t, sort (strip_all (mesh_route_visible_group_ids p))))"

definition ccd_iroute_wire_snapshot :: "peer \<Rightarrow> (string \<times> string list) res" where
  "ccd_iroute_wire_snapshot p = rbind (lan_fingerprint p) (\<lambda>lan_t. Inr (strip (bound_username p), lan_t))"

text \<open>The networks pushed to the users of a group.\<close>

definition mesh_visible :: "string \<Rightarrow> peer \<Rightarrow> bool" where
  "mesh_visible ug p \<longleftrightarrow> (let visible = strip_all (mesh_route_visible_group_ids p) in
     visible = [] \<or> (ug \<noteq> [] \<and> ug \<in> set visible))"

definition mesh_lan_cidrs_for_user_group :: "peer list \<Rightarrow> string \<Rightarrow> string list res" where
  "mesh_lan_cidrs_for_user_group peers gid =
     sorted_unique_ipv4_cidrs (concat (map lan_cidrs
       (filter (\<lambda>p. lan_cidrs p \<noteq> [] \<and> mesh_visible (strip gid) p) peers)))"

section \<open>CCD files\<close>

definition ccd_read :: "'k world \<Rightarrow> string \<Rightarrow> ('k sys, string) stact" where
  "ccd_read w name st = (case map_of (s_ccd st) name of
     None \<Rightarrow> throw (FileNotFoundError name) st
   | Some text_now \<Rightarrow> if w_ccd_fault w name then throw (OSError name) st else ret (read_text text_now) st)"

definition ccd_write :: "'k world \<Rightarrow> string \<Rightarrow> string \<Rightarrow> ('k sys, unit) stact" where
  "ccd_write w name new_text st =
     (if w_ccd_fault w name then throw (OSError name) st
      else ret () (st\<lparr>s_ccd := AList.update name new_text (s_ccd st)\<rparr>))"

definition merge_ccd :: "'k world \<Rightarrow> string \<Rightarrow> string \<Rightarrow> string list \<Rightarrow> ('k sys, unit) stact" where
  "merge_ccd w uname pid cidrs st =
     (if map_of (s_ccd st) uname = None then throw (ValueError ''no CCD file of the user'') st
      else andthen (ccd_read w uname) (\<lambda>old.
        andthen (of_res (merge_peer_block_into_ccd old pid cidrs)) (\<lambda>new_text. ccd_write w uname new_text)) st)"

definition strip_ccd :: "'k world \<Rightarrow> string \<Rightarrow> string \<Rightarrow> ('k sys, unit) stact" where
  "strip_ccd w uname pid st =
     (if map_of (s_ccd st) uname = None then ret () st
      else andthen (ccd_read w uname) (\<lambda>old.
        andthen (of_res (strip_peer_block_from_ccd old pid)) (\<lambda>new_text. ccd_write w uname new_text)) st)"

section \<open>Mesh routes\<close>

text \<open>One user: an \<open>OSError\<close> is recorded, the loop goes on.\<close>

definition mesh_sync_user :: "'k world \<Rightarrow> string \<Rightarrow> string list \<Rightarrow> ('k sys, string list) stact" where
  "mesh_sync_user w uname cidrs = handle_os
     (andthen (ccd_read w uname) (\<lambda>old.
      andthen (of_res (merge_mesh_peer_push_routes_into_ccd old cidrs)) (\<lambda>new_text.
      if new_text = old then ret [] else andthen (ccd_write w uname new_text) (\<lambda>_. ret []))))
     (ret [uname])"

fun mesh_sync_loop :: "'k world \<Rightarrow> peer list \<Rightarrow> user list \<Rightarrow> ('k sys, string list) stact" where
  "mesh_sync_loop w peers [] st = ret [] st"
| "mesh_sync_loop w peers (u # us) st =
     (let uname = strip (username u) in
      if u_status u \<noteq> UActive \<or> uname = [] \<or> map_of (s_ccd st) uname = None
      then mesh_sync_loop w peers us st
      else andthen (of_res (mesh_lan_cidrs_for_user_group peers (strip (group_id u)))) (\<lambda>cidrs.
        andthen (mesh_sync_user w uname cidrs) (\<lambda>failed.
        andthen (mesh_sync_loop w peers us) (\<lambda>rest. ret (failed @ rest)))) st)"

definition sync_all_mesh_push_routes_in_ccd :: "'k world \<Rightarrow> ('k sys, unit) stact" where
  "sync_all_mesh_push_routes_in_ccd w st =
     andthen (mesh_sync_loop w (list_peers (s_db st)) (list_users False (s_db st))) (\<lambda>failed.
       if failed = [] then ret () else throw (RuntimeError ''mesh push CCD'')) st"

section \<open>Operations\<close>

definition ensure_bound_username_unique :: "string \<Rightarrow> string option \<Rightarrow> ('k sys, unit) stact" where
  "ensure_bound_username_unique uname exclude st =
     (let u = strip uname; ex = str_opt (strip (opt_str exclude)) in
      if u = [] then ret () st
      else if u \<in> set (list_bound_usernames ex (s_db st))
        then throw (ValueError ''user bound to another peer'') st
      else ret () st)"

definition center_refresh :: "'k world \<Rightarrow> ('k sys, unit) stact" where
  "center_refresh w = (if on_nt (w_env w) then ret () else refresh_forward w)"

definition apply_ccd_and_vpn_forward :: "'k world \<Rightarrow> peer \<Rightarrow> ('k sys, unit) stact" where
  "apply_ccd_and_vpn_forward w p = andthen (center_refresh w) (\<lambda>_. merge_ccd w (bound_username p) (p_id p) (lan_cidrs p))"

definition peer_create :: "'k world \<Rightarrow> peer \<Rightarrow> ('k sys, peer) stact" where
  "peer_create w data =
     andthen (of_res (mk_peer (w_na w) (if strip (p_id data) = [] then data\<lparr>p_id := w_uuid w 0\<rparr> else data))) (\<lambda>p.
     andthen (ensure_bound_username_unique (bound_username p) None) (\<lambda>_.
     andthen (store_write (upsert_peer p)) (\<lambda>_.
     andthen (apply_ccd_and_vpn_forward w p) (\<lambda>_.
     andthen (sync_all_mesh_push_routes_in_ccd w) (\<lambda>_. ret p)))))"

definition load_peer :: "string \<Rightarrow> ('k sys, peer) stact" where
  "load_peer pid st = (case get_peer pid (s_db st) of None \<Rightarrow> throw (ValueError ''no such peer'') st
     | Some cur \<Rightarrow> ret cur st)"

definition patch_center_forward_priority :: "'k world \<Rightarrow> string \<Rightarrow> int \<Rightarrow> ('k sys, unit) stact" where
  "patch_center_forward_priority w pid pri = andthen (load_peer pid) (\<lambda>cur.
     andthen (of_res (mk_peer (w_na w) (cur\<lparr>center_forward_priority := pri, p_updated_at := w_now w\<rparr>))) (\<lambda>p.
     store_write (upsert_peer p)))"

definition patch_center_forward_enabled :: "'k world \<Rightarrow> string \<Rightarrow> bool \<Rightarrow> ('k sys, unit) stact" where
  "patch_center_forward_enabled w pid en = andthen (load_peer pid) (\<lambda>cur.
     andthen (of_res (mk_peer (w_na w) (cur\<lparr>center_forward_enabled := en, p_updated_at := w_now w\<rparr>))) (\<lambda>p.
     andthen (store_write (upsert_peer p)) (\<lambda>_. center_refresh w)))"

text \<open>\<open>data\<close> sets some of the fields: it is a function on the stored record.\<close>

definition peer_update :: "'k world \<Rightarrow> string \<Rightarrow> (peer \<Rightarrow> peer) \<Rightarrow> bool \<Rightarrow> ('k sys, peer) stact" where
  "peer_update w pid data refresh_center = andthen (load_peer pid) (\<lambda>cur.
     andthen (of_res (mk_peer (w_na w) ((data cur)\<lparr>p_id := pid, p_updated_at := w_now w\<rparr>))) (\<lambda>p.
     andthen (ensure_bound_username_unique (bound_username p) (Some pid)) (\<lambda>_.
     andthen (of_res (rbind (vpn_forward_wire_snapshot cur) (\<lambda>a. rbind (vpn_forward_wire_snapshot p) (\<lambda>b. Inr (a \<noteq> b))))) (\<lambda>need_fw.
     andthen (of_res (rbind (mesh_push_wire_snapshot cur) (\<lambda>a. rbind (mesh_push_wire_snapshot p) (\<lambda>b. Inr (a \<noteq> b))))) (\<lambda>need_mesh.
     andthen (of_res (rbind (ccd_iroute_wire_snapshot cur) (\<lambda>a. rbind (ccd_iroute_wire_snapshot p) (\<lambda>b. Inr (a \<noteq> b))))) (\<lambda>need_ccd.
     andthen (store_write (upsert_peer p)) (\<lambda>_.
     andthen (if refresh_center \<and> need_fw then center_refresh w else ret ()) (\<lambda>_.
     andthen (if need_ccd then merge_ccd w (bound_username p) (p_id p) (lan_cidrs p) else ret ()) (\<lambda>_.
     andthen (if need_mesh then sync_all_mesh_push_routes_in_ccd w else ret ()) (\<lambda>_. ret p))))))))))"

definition peer_delete :: "'k world \<Rightarrow> string \<Rightarrow> ('k sys, unit) stact" where
  "peer_delete w pid = andthen (load_peer pid) (\<lambda>cur.
     andthen (strip_ccd w (bound_username cur) pid) (\<lambda>_.
     andthen (store_write (\<lambda>d. Inr (delete_peer pid d))) (\<lambda>_.
     andthen (center_refresh w) (\<lambda>_. sync_all_mesh_push_routes_in_ccd w))))"

definition sync_all_center_iptables :: "'k world \<Rightarrow> ('k sys, unit) stact" where
  "sync_all_center_iptables w =
     (if on_nt (w_env w) then ret ()
      else andthen (on_mgr (ensure_forward_hooks (w_env w) (w_run w))) (\<lambda>ok.
        if ok then ret () else throw (RuntimeError ''FORWARD hooks'')))"

text \<open>The LAN networks offered in the rule form: key, network, peer id and peer name.\<close>

definition lan_presets_of :: "peer \<Rightarrow> (string \<times> string \<times> string \<times> string) list" where
  "lan_presets_of p = (if p_id p = [] then [] else
     map (\<lambda>c. (p_id p @ ''::'' @ c, c, p_id p, if p_name p = [] then p_id p else p_name p)) (strip_all (lan_cidrs p)))"

definition list_peer_lan_firewall_presets :: "db \<Rightarrow> (string \<times> string \<times> string \<times> string) list" where
  "list_peer_lan_firewall_presets d = concat (map lan_presets_of (list_peers d))"

end
