(* ===== verification/Peer_Frames.thy ===== *)
theory Peer_Frames
  imports Peers Storage_Props
begin

text \<open>
  What every operation on the peer sites keeps.  The locale \<open>peer_store\<close> is the contract of a property of
  the database: writing a record that \<open>PeerInstance(**data)\<close> accepted keeps it, and so does deleting one.
  Under it every operation of \<open>app/services/peer_instance/service.py\<close> keeps the property, whether it returns
  or raises.  The locale is interpreted on the consistency of the database here and on the type of the
  stored records in \<open>Peer_Types\<close>.
\<close>

section \<open>The CCD files\<close>

lemma ccd_read_Some: "ccd_read w n st = Some (r, st') \<longleftrightarrow> st' = st \<and>
   ((map_of (s_ccd st) n = None \<and> r = Inl (FileNotFoundError n)) \<or>
    (\<exists>t. map_of (s_ccd st) n = Some t \<and> (if w_ccd_fault w n then r = Inl (OSError n) else r = Inr (read_text t))))"
  by (auto simp: ccd_read_def throw_def ret_def split: option.splits)

lemma ccd_write_Some: "ccd_write w n t st = Some (r, st') \<longleftrightarrow>
   (if w_ccd_fault w n then r = Inl (OSError n) \<and> st' = st else r = Inr () \<and> st' = st\<lparr>s_ccd := AList.update n t (s_ccd st)\<rparr>)"
  by (auto simp: ccd_write_def throw_def ret_def)

section \<open>Frames of the store\<close>

definition store_frame :: "(db \<Rightarrow> bool) \<Rightarrow> 'k sys \<Rightarrow> 'k sys \<Rightarrow> bool" where
  "store_frame P s t \<longleftrightarrow> (P (s_db s) \<longrightarrow> P (s_db t))"

interpretation stf: step_frame "store_frame P" for P :: "db \<Rightarrow> bool"
  by unfold_locales (auto simp: store_frame_def)

lemma kernel_only_stf: "keeps kernel_only m \<Longrightarrow> keeps (store_frame P) m"
  using kernel_only_fields by (fastforce simp: keeps_def store_frame_def)

lemma center_refresh_stf: "keeps (store_frame P) (center_refresh w)"
  unfolding center_refresh_def using kernel_only_stf [OF refresh_forward_kernel_only] by auto

lemma of_res_stf [simp]: "keeps (store_frame P) (of_res r)"
  by (rule of_res_keeps) (simp add: store_frame_def)

lemma ccd_ops_stf: "keeps (store_frame P) (ccd_read w n)" "keeps (store_frame P) (ccd_write w n t)"
  by (auto simp: keeps_def ccd_read_Some ccd_write_Some store_frame_def split: if_splits)

lemma if_state_keeps: "keeps R a \<Longrightarrow> keeps R b \<Longrightarrow> keeps R (\<lambda>st. (if c st then a else b) st)"
  by (auto simp: keeps_def)

lemma of_res_then_stf: "(\<And>x. r = Inr x \<Longrightarrow> keeps (store_frame P) (f x)) \<Longrightarrow> keeps (store_frame P) (andthen (of_res r) f)"
  by (cases r) (auto simp: keeps_def andthen_def ret_def throw_def store_frame_def)

lemma merge_ccd_stf: "keeps (store_frame P) (merge_ccd w n pid lans)"
  unfolding merge_ccd_def [abs_def] if_distribR [symmetric] by (intro if_state_keeps stf.andthen_keeps ccd_ops_stf of_res_stf stf.throw_keeps)

lemma strip_ccd_stf: "keeps (store_frame P) (strip_ccd w n pid)"
  unfolding strip_ccd_def [abs_def] if_distribR [symmetric] by (intro if_state_keeps stf.andthen_keeps ccd_ops_stf of_res_stf stf.ret_keeps)

lemma mesh_sync_user_stf: "keeps (store_frame P) (mesh_sync_user w n cidrs)"
  unfolding mesh_sync_user_def by (intro stf.handle_os_keeps stf.andthen_keeps ccd_ops_stf of_res_stf) (auto intro: stf.andthen_keeps ccd_ops_stf)

lemma mesh_sync_loop_stf: "keeps (store_frame P) (mesh_sync_loop w peers us)"
proof (induction us)
  case (Cons u us)
  show ?case
    unfolding mesh_sync_loop.simps(2) [abs_def] Let_def if_distribR [symmetric]
    by (intro if_state_keeps stf.andthen_keeps mesh_sync_user_stf of_res_stf Cons.IH stf.ret_keeps)
qed (simp add: keeps_def ret_def store_frame_def)

lemma mesh_sync_stf: "keeps (store_frame P) (sync_all_mesh_push_routes_in_ccd w)"
proof -
  have "keeps (store_frame P) (andthen (mesh_sync_loop w ps us) (\<lambda>failed.
      if failed = [] then ret () else throw (RuntimeError ''mesh push CCD'')))" for ps us
    by (intro stf.andthen_keeps mesh_sync_loop_stf) auto
  then show ?thesis unfolding keeps_def sync_all_mesh_push_routes_in_ccd_def by blast
qed

lemma check_stf: "keeps (store_frame P) (ensure_bound_username_unique u ex)" "keeps (store_frame P) (load_peer pid)"
  by (auto simp: keeps_def ensure_bound_username_unique_def load_peer_def Let_def ret_def throw_def store_frame_def split: if_splits option.splits)

section \<open>Requests\<close>

datatype peer_req =
    PeerCreate peer
  | PeerPriority string int
  | PeerEnabled string bool
  | PeerUpdate string "peer \<Rightarrow> peer" bool
  | PeerDelete string
  | PeerSync

fun peer_act :: "'k world \<Rightarrow> peer_req \<Rightarrow> ('k sys, unit) stact" where
  "peer_act w (PeerCreate data) = andthen (peer_create w data) (\<lambda>_. ret ())"
| "peer_act w (PeerPriority pid pri) = patch_center_forward_priority w pid pri"
| "peer_act w (PeerEnabled pid en) = patch_center_forward_enabled w pid en"
| "peer_act w (PeerUpdate pid data refresh_center) = andthen (peer_update w pid data refresh_center) (\<lambda>_. ret ())"
| "peer_act w (PeerDelete pid) = peer_delete w pid"
| "peer_act w PeerSync = sync_all_mesh_push_routes_in_ccd w"

text \<open>Requests served one after the other; the caller of a failed one gets the exception, the store stays as it is then.\<close>

fun peer_run :: "'k world \<Rightarrow> peer_req list \<Rightarrow> 'k sys \<Rightarrow> 'k sys option" where
  "peer_run w [] st = Some st"
| "peer_run w (req # reqs) st = (case peer_act w req st of None \<Rightarrow> None | Some (_, st') \<Rightarrow> peer_run w reqs st')"

section \<open>The contract\<close>

locale peer_store =
  fixes na :: netaddr and P :: "db \<Rightarrow> bool"
  assumes accepted_kept: "mk_peer na p = Inr q \<Longrightarrow> upsert_peer q d = Inr d' \<Longrightarrow> P d \<Longrightarrow> P d'"
    and deleted_kept: "P d \<Longrightarrow> P (delete_peer pid d)"
begin

lemma store_keeps: "mk_peer na p = Inr q \<Longrightarrow> keeps (store_frame P) (store_write (upsert_peer q))"
  using accepted_kept by (auto simp: keeps_def store_write_Some store_frame_def)

lemma delete_keeps: "keeps (store_frame P) (store_write (\<lambda>d. Inr (delete_peer pid d)))"
  by (auto simp: keeps_def store_write_Some store_frame_def deleted_kept)

lemmas peer_frames = stf.andthen_keeps of_res_then_stf check_stf store_keeps delete_keeps center_refresh_stf merge_ccd_stf strip_ccd_stf
  mesh_sync_stf stf.ret_keeps

lemma create_keeps: "w_na w = na \<Longrightarrow> keeps (store_frame P) (peer_create w data)"
  unfolding peer_create_def apply_ccd_and_vpn_forward_def
  by (rule of_res_then_stf) (intro peer_frames, simp)

lemma priority_keeps: "w_na w = na \<Longrightarrow> keeps (store_frame P) (patch_center_forward_priority w pid pri)"
  unfolding patch_center_forward_priority_def
  by (rule stf.andthen_keeps, rule check_stf, rule of_res_then_stf) (intro store_keeps, simp)

lemma enabled_keeps: "w_na w = na \<Longrightarrow> keeps (store_frame P) (patch_center_forward_enabled w pid en)"
  unfolding patch_center_forward_enabled_def
  by (rule stf.andthen_keeps, rule check_stf, rule of_res_then_stf) (intro stf.andthen_keeps store_keeps center_refresh_stf, simp)

lemma update_keeps:
  assumes "w_na w = na"
  shows "keeps (store_frame P) (peer_update w pid data refresh_center)"
proof -
  have tail: "mk_peer na p = Inr q \<Longrightarrow> keeps (store_frame P) (andthen (store_write (upsert_peer q)) (\<lambda>_.
     andthen (if c then center_refresh w else ret ()) (\<lambda>_.
     andthen (if d then merge_ccd w (bound_username q) (p_id q) (lan_cidrs q) else ret ()) (\<lambda>_.
     andthen (if e then sync_all_mesh_push_routes_in_ccd w else ret ()) (\<lambda>_. ret q)))))" for p q c d e
    by (cases c; cases d; cases e) (auto intro!: peer_frames)
  show ?thesis
    unfolding peer_update_def assms
    by (rule stf.andthen_keeps, rule check_stf, rule of_res_then_stf, rule stf.andthen_keeps, rule check_stf)
      (intro of_res_then_stf tail)
qed

lemma act_keeps:
  assumes "w_na w = na"
  shows "keeps (store_frame P) (peer_act w req)"
proof (cases req)
  case (PeerCreate data)
  show ?thesis unfolding PeerCreate peer_act.simps by (intro stf.andthen_keeps create_keeps assms stf.ret_keeps)
next
  case (PeerUpdate pid data refresh_center)
  show ?thesis unfolding PeerUpdate peer_act.simps by (intro stf.andthen_keeps update_keeps assms stf.ret_keeps)
next
  case (PeerDelete pid)
  show ?thesis unfolding PeerDelete peer_act.simps peer_delete_def by (intro peer_frames)
qed (auto intro: priority_keeps enabled_keeps mesh_sync_stf assms)

lemma run_keeps: "w_na w = na \<Longrightarrow> P (s_db s) \<Longrightarrow> peer_run w reqs s = Some t \<Longrightarrow> P (s_db t)"
proof (induction reqs arbitrary: s)
  case (Cons req reqs)
  obtain r u where u: "peer_act w req s = Some (r, u)" "peer_run w reqs u = Some t" using Cons.prems(3) by (auto split: option.splits)
  have "P (s_db u)" using keepsD [OF act_keeps [OF Cons.prems(1)] u(1)] Cons.prems(2) by (simp add: store_frame_def)
  then show ?case using Cons.IH [OF Cons.prems(1) _ u(2)] by simp
qed simp

end

interpretation ok_peers: peer_store na db_ok for na
  by unfold_locales (auto intro: upsert_peer_ok delete_peer_ok)

end
