(* ===== verification/Ccd_Laws.thy ===== *)
theory Ccd_Laws
  imports Ccd
begin

text \<open>
  Laws of the CCD texts: lines, marked blocks (the locale \<open>marked_block\<close>, for the block of a peer
  and for the mesh routes) and what every edit leaves of the fixed address.
\<close>

section \<open>Lines\<close>

lemma lines_keep_nonempty [simp]: "lines_keep s = [] \<longleftrightarrow> s = []"
  by (cases s rule: lines_keep.cases) (auto split: list.splits)

lemma concat_lines_keep [simp]: "concat (lines_keep s) = s"
proof (induction s rule: lines_keep.induct)
  case (3 c d s)
  then show ?case by (cases "lines_keep (d # s)") auto
qed auto

lemma lines_keep_hd: "lines_keep (c # s) = h # r \<Longrightarrow> \<exists>h'. h = c # h'"
  by (cases s) (auto split: if_splits list.splits)

lemma line_break_ends [simp]: "line_break (CHR 0x0A)" "line_break (CHR 0x0D)"
  by (simp_all add: line_break_def)

lemma line_break_space: "line_break c \<Longrightarrow> py_space c"
  by (auto simp: line_break_def py_space_def Let_def)

definition no_break :: "string \<Rightarrow> bool" where
  "no_break s \<longleftrightarrow> list_all (\<lambda>c. \<not> line_break c) s"

lemma no_break_simps [simp]: "no_break []" "no_break (c # s) \<longleftrightarrow> \<not> line_break c \<and> no_break s"
  "no_break (s @ t) \<longleftrightarrow> no_break s \<and> no_break t"
  by (simp_all add: no_break_def)

lemma lines_keep_break: "no_break w \<Longrightarrow> line_break c \<Longrightarrow> c \<noteq> CHR 0x0D \<Longrightarrow>
  lines_keep (w @ c # s) = (w @ [c]) # lines_keep s"
proof (induction w)
  case Nil
  then show ?case by (cases s) auto
next
  case (Cons a w)
  then have a: "a \<noteq> CHR 0x0D" "\<not> line_break a" by auto
  show ?case using Cons a by (cases w) auto
qed

lemma lines_keep_single: "no_break w \<Longrightarrow> w \<noteq> [] \<Longrightarrow> lines_keep w = [w]"
proof (induction w rule: lines_keep.induct)
  case (3 c d s)
  then show ?case by (cases "c = CHR 0x0D") auto
qed auto

lemma lines_keep_append:
  assumes "a = [] \<or> last a = CHR 0x0A"
  shows "lines_keep (a @ b) = lines_keep a @ lines_keep b"
  using assms
proof (induction a rule: lines_keep.induct)
  case (2 c)
  then show ?case by (cases b) auto
next
  case (3 c d s)
  show ?case
  proof (cases "c = CHR 0x0D \<and> d = CHR 0x0A")
    case True
    then show ?thesis using 3 by (cases s) auto
  next
    case False
    have "lines_keep ((d # s) @ b) = lines_keep (d # s) @ lines_keep b"
      using 3 False by (cases "line_break c") auto
    then show ?thesis using False by (cases "lines_keep (d # s)") auto
  qed
qed simp

definition line_ok :: "string \<Rightarrow> bool" where
  "line_ok l \<longleftrightarrow> l \<noteq> [] \<and> no_break (butlast l)"

fun lines_ok :: "string list \<Rightarrow> bool" where
  "lines_ok [] \<longleftrightarrow> True"
| "lines_ok (l # ls) \<longleftrightarrow> line_ok l \<and> (ls = [] \<or> line_break (last l)) \<and> lines_ok ls"

definition no_cr :: "string \<Rightarrow> bool" where
  "no_cr s \<longleftrightarrow> CHR 0x0D \<notin> set s"

lemma no_cr_simps [simp]: "no_cr []" "no_cr (c # s) \<longleftrightarrow> c \<noteq> CHR 0x0D \<and> no_cr s" "no_cr (s @ t) \<longleftrightarrow> no_cr s \<and> no_cr t"
  by (auto simp: no_cr_def)

lemma no_break_cr: "no_break s \<Longrightarrow> no_cr s"
  by (auto simp: no_break_def no_cr_def list_all_iff)

lemma no_cr_read_text: "no_cr (read_text s)"
  by (induction s rule: read_text.induct) auto

lemma lines_keep_ok: "no_cr s \<Longrightarrow> lines_ok (lines_keep s)"
proof (induction s rule: lines_keep.induct)
  case (3 c d s)
  show ?case
  proof (cases "line_break c")
    case True
    then show ?thesis using 3 by (auto simp: line_ok_def)
  next
    case False
    then have "lines_ok (lines_keep (d # s))" using 3 by auto
    then show ?thesis using False by (cases "lines_keep (d # s)") (auto simp: line_ok_def)
  qed
qed (auto simp: line_ok_def)

lemma lines_keep_concat: "lines_ok ls \<Longrightarrow> no_cr (concat ls) \<Longrightarrow> lines_keep (concat ls) = ls"
proof (induction ls)
  case (Cons l ls)
  have l: "l = butlast l @ [last l]" "no_break (butlast l)" using Cons.prems by (auto simp: line_ok_def)
  show ?case
  proof (cases "line_break (last l)")
    case True
    have "last l \<in> set l" using Cons.prems by (auto simp: line_ok_def)
    then have "last l \<noteq> CHR 0x0D" using Cons.prems by (auto simp: no_cr_def)
    then have "lines_keep (butlast l @ last l # concat ls) = (butlast l @ [last l]) # lines_keep (concat ls)"
      using lines_keep_break [OF l(2) True] by simp
    moreover have "butlast l @ last l # concat ls = l @ concat ls"
      by (subst (3) l(1)) simp
    ultimately show ?thesis using Cons l(1) by simp
  next
    case False
    then have "ls = []" using Cons.prems by auto
    moreover have "no_break l" using l False by (metis no_break_simps)
    ultimately show ?thesis using Cons.prems by (simp add: lines_keep_single line_ok_def)
  qed
qed simp

lemma lines_prefix:
  "\<exists>ls' rest. lines_keep (s @ t) = ls' @ rest \<and> list_all2 prefix (lines_keep s) ls'"
proof (induction s rule: lines_keep.induct)
  case 1
  then show ?case by simp
next
  case (2 c)
  show ?case
  proof (cases "lines_keep (c # t)")
    case (Cons h r)
    then have "prefix [c] h" using lines_keep_hd by fastforce
    then show ?thesis using Cons by (intro exI [of _ "[h]"] exI [of _ r]) simp
  qed simp
next
  case (3 c d s)
  show ?case
  proof (cases "c = CHR 0x0D \<and> d = CHR 0x0A")
    case True
    then obtain ls' rest where "lines_keep (s @ t) = ls' @ rest" "list_all2 prefix (lines_keep s) ls'"
      using 3 by blast
    then show ?thesis using True by (intro exI [of _ "[c, d] # ls'"] exI [of _ rest]) auto
  next
    case False
    then obtain ls' rest where l: "lines_keep (d # s @ t) = ls' @ rest" "list_all2 prefix (lines_keep (d # s)) ls'"
      using 3 by (cases "line_break c") auto
    show ?thesis
    proof (cases "line_break c")
      case True
      then show ?thesis using l False by (intro exI [of _ "[c] # ls'"] exI [of _ rest]) auto
    next
      case nb: False
      obtain m ms where m: "lines_keep (d # s) = m # ms" by (cases "lines_keep (d # s)") auto
      then obtain m' ms' where m': "ls' = m' # ms'" "prefix m m'" "list_all2 prefix ms ms'"
        using l(2) by (cases ls') auto
      then show ?thesis using l(1) m False nb
        by (intro exI [of _ "(c # m') # ms'"] exI [of _ rest]) auto
    qed
  qed
qed

lemma starts_with_iff: "starts_with s p \<longleftrightarrow> prefix p s"
  by (auto simp: starts_with_def prefix_def) (metis append_take_drop_id)

lemma starts_with_longer: "prefix l l' \<Longrightarrow> starts_with l p \<Longrightarrow> starts_with l' p"
  by (auto simp: starts_with_iff intro: prefix_order.trans)

section \<open>Trailing blanks\<close>

lemma rstrip_idem [simp]: "rstrip (rstrip s) = rstrip s"
proof -
  have "rev (rstrip s) = [] \<or> \<not> py_space (hd (rev (rstrip s)))"
    using hd_dropWhile [of py_space "rev s"] by (auto simp: rstrip_def simp del: dropWhile_eq_Nil_conv)
  then have "dropWhile py_space (rev (rstrip s)) = rev (rstrip s)" by (rule dropWhile_idem_hd)
  then show ?thesis by (simp add: rstrip_def)
qed

lemma rstrip_last: "rstrip s \<noteq> [] \<Longrightarrow> \<not> py_space (last (rstrip s))"
  using hd_dropWhile [of py_space "rev s"] by (auto simp: rstrip_def last_rev simp del: dropWhile_eq_Nil_conv)

lemma rstrip_snoc: "py_space c \<Longrightarrow> rstrip (s @ [c]) = rstrip s"
  by (simp add: rstrip_def)

lemma strip_snoc: "py_space c \<Longrightarrow> strip (s @ [c]) = strip s"
proof (cases "lstrip s = []")
  case True
  assume c: "py_space c"
  then have "lstrip (s @ [c]) = []" using True by (auto simp: lstrip_def dropWhile_eq_Nil_conv)
  then show ?thesis using True by (simp add: strip_def)
next
  case False
  assume c: "py_space c"
  then obtain x where "x \<in> set s" "\<not> py_space x" using False by (auto simp: lstrip_def dropWhile_eq_Nil_conv)
  then have "lstrip (s @ [c]) = lstrip s @ [c]" by (auto simp: lstrip_def dropWhile_append1)
  then show ?thesis using c by (simp add: strip_def rstrip_snoc)
qed

section \<open>Blocks between markers\<close>

definition canonical :: "string \<Rightarrow> bool" where
  "canonical t \<longleftrightarrow> t = (if rstrip t = [] then [] else rstrip t @ nl)"

lemma canonical_last: "canonical t \<Longrightarrow> t = [] \<or> last t = CHR 0x0A"
  by (auto simp: canonical_def nl_def split: if_splits) (metis last_snoc)

lemma rstrip_end: "rstrip t = [] \<or> \<not> ends_with (rstrip t) nl"
proof (cases "rstrip t = []")
  case False
  then obtain u c where u: "rstrip t = u @ [c]" by (metis rev_exhaust)
  then have "\<not> py_space c" using rstrip_last [of t] by simp
  then have "c \<noteq> CHR 0x0A" by (auto simp: py_space_def)
  then show ?thesis by (simp add: u ends_with_def starts_with_def nl_def)
qed simp

lemma without_block_alt:
  "without_block b e t = (let r = rstrip (concat (drop_blocks b e False (lines_keep t))) in if r = [] then [] else r @ nl)"
  using rstrip_end by (auto simp: without_block_def Let_def)

lemma without_block_canonical: "canonical (without_block b e t)"
proof -
  have "rstrip (rstrip x @ nl) = rstrip x" for x by (simp add: nl_def rstrip_snoc py_space_def)
  moreover have "rstrip [] = []" by (simp add: rstrip_def)
  ultimately show ?thesis by (simp add: without_block_alt canonical_def Let_def)
qed

lemma drop_blocks_lines_ok: "lines_ok ls \<Longrightarrow> lines_ok (drop_blocks b e sk ls)"
proof (induction ls arbitrary: sk)
  case (Cons l ls)
  then show ?case by (cases ls) auto
qed simp

lemma drop_blocks_subset: "set (drop_blocks b e sk ls) \<subseteq> {l \<in> set ls. \<not> starts_with l b \<and> \<not> starts_with l e}"
  by (induction ls arbitrary: sk) auto

lemma drop_blocks_free:
  "\<forall>l\<in>set ls. \<not> starts_with l b \<and> \<not> starts_with l e \<Longrightarrow> drop_blocks b e False (ls @ ms) = ls @ drop_blocks b e False ms"
  by (induction ls) auto

lemma drop_blocks_skip:
  "\<forall>l\<in>set ls. \<not> starts_with l e \<Longrightarrow> drop_blocks b e True (ls @ ms) = drop_blocks b e True ms"
  by (induction ls) auto

lemma no_cr_drop: "no_cr t \<Longrightarrow> no_cr (concat (drop_blocks b e sk (lines_keep t)))"
proof -
  assume "no_cr t"
  moreover have "set (concat (drop_blocks b e sk (lines_keep t))) \<subseteq> set (concat (lines_keep t))"
  proof -
    have "set (concat (drop_blocks b e sk (lines_keep t))) \<subseteq> \<Union> (set ` set (lines_keep t))"
      using drop_blocks_subset [of b e sk "lines_keep t"] by auto
    then show ?thesis by (simp only: set_concat)
  qed
  ultimately show ?thesis by (auto simp: no_cr_def)
qed

lemma set_rstrip: "set (rstrip s) \<subseteq> set s"
  unfolding rstrip_def by (metis set_dropWhileD set_rev subsetI)

lemma rstrip_is_prefix: "prefix (rstrip s) s"
  using rstrip_prefix [of s] by (auto simp: prefix_def)

lemma no_cr_rstrip: "no_cr s \<Longrightarrow> no_cr (rstrip s)"
  using set_rstrip [of s] by (auto simp: no_cr_def)

lemma no_cr_without: "no_cr t \<Longrightarrow> no_cr (without_block b e t)"
  using no_cr_rstrip [OF no_cr_drop] by (simp add: without_block_alt Let_def nl_def)

text \<open>The lines of a text that lost its trailing blanks and got a final line feed.\<close>

lemma lines_keep_snoc:
  "no_cr y \<Longrightarrow> y \<noteq> [] \<Longrightarrow> lines_keep (y @ [c]) =
    (if line_break (last y) then lines_keep y @ [[c]] else butlast (lines_keep y) @ [last (lines_keep y) @ [c]])"
proof (induction y rule: lines_keep.induct)
  case (3 a d s)
  then have IH: "lines_keep (d # s @ [c]) = (if line_break (last (d # s)) then lines_keep (d # s) @ [[c]]
      else butlast (lines_keep (d # s)) @ [last (lines_keep (d # s)) @ [c]])"
    by (cases "line_break a") auto
  obtain m ms where m: "lines_keep (d # s) = m # ms" by (cases "lines_keep (d # s)") auto
  have "lines_keep (a # d # s @ [c]) = (if line_break a then [a] # lines_keep (d # s @ [c])
      else (a # hd (lines_keep (d # s @ [c]))) # tl (lines_keep (d # s @ [c])))"
    using 3(4) by (cases "lines_keep (d # s @ [c])") auto
  then show ?case using IH m 3(4) by (cases ms) auto
qed auto

lemma starts_with_nl: "CHR 0x0A \<notin> set b \<Longrightarrow> starts_with (l @ nl) b \<Longrightarrow> starts_with l b"
  by (auto simp: starts_with_iff nl_def prefix_snoc)

lemma lines_rstrip_marker:
  assumes "no_cr x" "l \<in> set (lines_keep (rstrip x @ nl))" "rstrip x \<noteq> []" "CHR 0x0A \<notin> set b" "starts_with l b"
  shows "\<exists>l'\<in>set (lines_keep x). starts_with l' b"
proof -
  obtain ls' rest where p: "lines_keep x = ls' @ rest" "list_all2 prefix (lines_keep (rstrip x)) ls'"
    using lines_prefix rstrip_is_prefix [of x] unfolding prefix_def by metis
  have fin: "\<not> line_break (last (rstrip x))" using rstrip_last [OF assms(3)] line_break_space by blast
  have ne: "lines_keep (rstrip x) \<noteq> []" using assms(3) by simp
  have "set (lines_keep (rstrip x @ nl)) \<subseteq> set (lines_keep (rstrip x)) \<union> {last (lines_keep (rstrip x)) @ nl}"
    using lines_keep_snoc [OF no_cr_rstrip [OF assms(1)] assms(3), of "CHR 0x0A"] fin
    by (auto simp: nl_def dest: in_set_butlastD)
  then obtain l1 where l1: "l1 \<in> set (lines_keep (rstrip x))" "l = l1 \<or> l = l1 @ nl"
    using assms(2) last_in_set [OF ne] by auto
  then have "starts_with l1 b" using assms(4,5) starts_with_nl by blast
  moreover obtain l' where "l' \<in> set ls'" "prefix l1 l'"
    using p(2) l1(1) by (metis in_set_conv_nth list_all2_conv_all_nth)
  ultimately show ?thesis using p(1) starts_with_longer by auto
qed

text \<open>A block between two markers, removed and put back.\<close>

locale marked_block =
  fixes b e :: string
  assumes b_line: "no_break b" and e_line: "no_break e" and e_not_b: "\<not> starts_with (e @ nl) b"
begin

definition block :: "string list \<Rightarrow> string" where
  "block body = concat ([b @ nl] @ body @ [e @ nl])"

lemma nl_markers: "CHR 0x0A \<notin> set b" "CHR 0x0A \<notin> set e"
  using b_line e_line by (auto simp: no_break_def list_all_iff)

lemma base_free:
  assumes "no_cr t" "l \<in> set (lines_keep (without_block b e t))"
  shows "\<not> starts_with l b \<and> \<not> starts_with l e"
proof -
  let ?D = "drop_blocks b e False (lines_keep t)"
  have ok: "lines_keep (concat ?D) = ?D"
    by (rule lines_keep_concat [OF drop_blocks_lines_ok [OF lines_keep_ok [OF assms(1)]] no_cr_drop [OF assms(1)]])
  have ne: "rstrip (concat ?D) \<noteq> []" and l: "l \<in> set (lines_keep (rstrip (concat ?D) @ nl))"
    using assms(2) by (auto simp: without_block_alt Let_def split: if_splits)
  have "\<forall>l'\<in>set ?D. \<not> starts_with l' b \<and> \<not> starts_with l' e" using drop_blocks_subset by blast
  then show ?thesis
    using lines_rstrip_marker [OF no_cr_drop [OF assms(1)] l ne nl_markers(1)]
      lines_rstrip_marker [OF no_cr_drop [OF assms(1)] l ne nl_markers(2)] unfolding ok by blast
qed

lemma base_idem:
  assumes "no_cr t"
  shows "without_block b e (without_block b e t) = without_block b e t"
proof -
  let ?base = "without_block b e t"
  have "drop_blocks b e False (lines_keep ?base @ []) = lines_keep ?base"
    using base_free [OF assms] by (subst drop_blocks_free) auto
  then have "concat (drop_blocks b e False (lines_keep ?base)) = ?base" by simp
  moreover have "canonical ?base" by (rule without_block_canonical)
  ultimately show ?thesis unfolding canonical_def by (subst without_block_alt) (simp add: Let_def)
qed

lemma lines_block:
  assumes "\<forall>l\<in>set body. \<exists>w. l = w @ nl \<and> no_break w"
  shows "lines_keep (block body @ q) = [b @ nl] @ body @ [e @ nl] @ lines_keep q"
proof -
  have one: "no_break w \<Longrightarrow> lines_keep ((w @ nl) @ s) = (w @ nl) # lines_keep s" for w s
    using lines_keep_break [of w "CHR 0x0A" s] by (simp add: nl_def)
  have "lines_keep (concat body @ s) = body @ lines_keep s" for s
    using assms
  proof (induction body)
    case (Cons l body)
    then obtain w where "l = w @ nl" "no_break w" by auto
    then show ?case using Cons one [of w "concat body @ s"] by auto
  qed simp
  from this [of "(e @ nl) @ q"] show ?thesis
    using one [OF b_line, of "concat body @ (e @ nl) @ q"] one [OF e_line, of q] by (simp add: block_def)
qed

lemma reinsert:
  assumes "no_cr t" "without_block b e t = p @ q" "p = [] \<or> last p = CHR 0x0A"
    and body: "\<forall>l\<in>set body. (\<exists>w. l = w @ nl \<and> no_break w) \<and> \<not> starts_with l e"
  shows "without_block b e (p @ block body @ q) = p @ q"
proof -
  have lp: "lines_keep (p @ s) = lines_keep p @ lines_keep s" for s by (rule lines_keep_append [OF assms(3)])
  have free: "\<forall>l\<in>set (lines_keep p) \<union> set (lines_keep q). \<not> starts_with l b \<and> \<not> starts_with l e"
    using base_free [OF assms(1)] unfolding assms(2) lp by auto
  have "starts_with (b @ nl) b" "starts_with (e @ nl) e" by (simp_all add: starts_with_def)
  then have "drop_blocks b e False (lines_keep (p @ block body @ q)) = lines_keep p @ lines_keep q"
    using free body e_not_b drop_blocks_free [of "lines_keep q" b e "[]"]
    by (simp add: lp lines_block drop_blocks_free drop_blocks_skip)
  then have "concat (drop_blocks b e False (lines_keep (p @ block body @ q))) = p @ q" by simp
  moreover have "canonical (p @ q)" using without_block_canonical [of b e t] assms(2) by simp
  ultimately show ?thesis unfolding without_block_alt canonical_def by (simp add: Let_def)
qed

end

lemma ends_not: "c \<notin> set p \<Longrightarrow> \<not> prefix (p @ c # x) (p @ d # y) \<or> c = d"
  by simp

interpretation mesh: marked_block mesh_begin mesh_end
  by unfold_locales (simp_all add: mesh_begin_def mesh_end_def no_break_def line_break_def starts_with_def nl_def)

interpretation peer_block: marked_block "peer_begin (filter (\<lambda>c. \<not> line_break c) pid)" "peer_end (filter (\<lambda>c. \<not> line_break c) pid)"
  for pid
  by unfold_locales (simp_all add: peer_begin_def peer_end_def no_break_def line_break_def starts_with_def nl_def list_all_iff)

section \<open>Putting a block in again\<close>

lemma find_sub_Some: "find_sub p s = Some i \<Longrightarrow> i \<le> length s \<and> starts_with (drop i s) p"
proof (induction s arbitrary: i)
  case (Cons c s)
  then show ?case by (cases "starts_with (c # s) p") (auto split: if_splits)
qed (auto simp: starts_with_def split: if_splits)

text \<open>The mesh block of a file starts at the beginning of a line.\<close>

definition mesh_at_line_start :: "string \<Rightarrow> bool" where
  "mesh_at_line_start base \<longleftrightarrow> (case find_sub (mesh_begin @ nl) base of None \<Rightarrow> True
     | Some i \<Rightarrow> i = 0 \<or> base ! (i - 1) = CHR 0x0A)"

lemma insert_block_split:
  assumes "canonical base" "mesh_at_line_start base"
  obtains p q where "base = p @ q" "\<And>block. insert_block base block = p @ block @ q" "p = [] \<or> last p = CHR 0x0A"
proof (cases "find_sub (mesh_begin @ nl) base")
  case None
  then show ?thesis using that [of base "[]"] canonical_last [OF assms(1)] by (simp add: insert_block_def)
next
  case (Some i)
  then have "i \<le> length base" using find_sub_Some by blast
  then have "take i base = [] \<or> last (take i base) = CHR 0x0A"
    using assms(2) Some by (cases i) (auto simp: mesh_at_line_start_def take_Suc_conv_app_nth)
  then show ?thesis using that [of "take i base" "drop i base"] Some by (simp add: insert_block_def)
qed

lemma ip_str_no_break: "no_break (ip_str n)" "no_break (netmask_str m)"
  using ip_str_no_space line_break_space by (auto simp: no_break_def list_all_iff netmask_str_def)

lemma iroute_line_ok:
  "(\<exists>w. iroute_line n = w @ nl \<and> no_break w) \<and> \<not> starts_with (iroute_line n) (peer_end pid)"
proof
  show "\<exists>w. iroute_line n = w @ nl \<and> no_break w"
    by (intro exI [of _ "''iroute '' @ ip_str (net_addr n) @ '' '' @ netmask_str n"])
      (auto simp: iroute_line_def ip_str_no_break line_break_def)
  show "\<not> starts_with (iroute_line n) (peer_end pid)"
    by (simp add: starts_with_iff iroute_line_def peer_end_def)
qed

lemma push_route_line_ok:
  "(\<exists>w. push_route_line n = w @ nl \<and> no_break w) \<and> \<not> starts_with (push_route_line n) mesh_end"
proof
  show "\<exists>w. push_route_line n = w @ nl \<and> no_break w"
    by (intro exI [of _ "''push '' @ [CHR 0x22] @ ''route '' @ ip_str (net_addr n) @ '' '' @ netmask_str n @ [CHR 0x22]"])
      (auto simp: push_route_line_def ip_str_no_break line_break_def)
  show "\<not> starts_with (push_route_line n) mesh_end"
    by (simp add: starts_with_iff push_route_line_def mesh_end_def)
qed

lemma filter_no_break: "no_break pid \<Longrightarrow> filter (\<lambda>c. \<not> line_break c) pid = pid"
  by (auto simp: no_break_def list_all_iff intro: filter_True)

lemma merge_peer_base:
  assumes "no_cr t" "no_break pid" "mesh_at_line_start (without_block (peer_begin pid) (peer_end pid) t)"
    and "merge_peer_block_into_ccd t pid cidrs = Inr new"
  shows "without_block (peer_begin pid) (peer_end pid) new = without_block (peer_begin pid) (peer_end pid) t"
proof (cases "cidrs = []")
  case True
  then have "new = without_block (peer_begin pid) (peer_end pid) t"
    using assms(4) by (simp add: merge_peer_block_into_ccd_def)
  then show ?thesis
    using peer_block.base_idem [where pid = pid, OF assms(1)] unfolding filter_no_break [OF assms(2)] by simp
next
  case False
  let ?base = "without_block (peer_begin pid) (peer_end pid) t"
  obtain p q where pq: "?base = p @ q" "\<And>block. insert_block ?base block = p @ block @ q" "p = [] \<or> last p = CHR 0x0A"
    using insert_block_split [OF without_block_canonical assms(3)] by metis
  obtain ns where "new = p @ concat ([peer_begin pid @ nl] @ map iroute_line ns @ [peer_end pid @ nl]) @ q"
    using assms(4) False pq(2) by (auto simp: merge_peer_block_into_ccd_def build_iroute_block_def rbind_Inr_iff Let_def)
  moreover have blk: "marked_block.block (peer_begin pid) (peer_end pid) body =
      concat ([peer_begin pid @ nl] @ body @ [peer_end pid @ nl])" for body
    using peer_block.block_def [of pid body] unfolding filter_no_break [OF assms(2)] .
  ultimately show ?thesis
    using peer_block.reinsert [where pid = pid, unfolded filter_no_break [OF assms(2)],
        OF assms(1) pq(1) pq(3), of "map iroute_line ns"] iroute_line_ok pq(1) blk by auto
qed

lemma merge_mesh_base:
  assumes "no_cr t" "merge_mesh_peer_push_routes_into_ccd t cidrs = Inr new"
  shows "without_block mesh_begin mesh_end new = without_block mesh_begin mesh_end t"
proof -
  let ?base = "without_block mesh_begin mesh_end t"
  consider "new = ?base" | ns where "new = ?base @ concat ([mesh_begin @ nl] @ map push_route_line ns @ [mesh_end @ nl])"
    using assms(2) by (auto simp: merge_mesh_peer_push_routes_into_ccd_def build_mesh_peer_push_routes_block_def
        rbind_Inr_iff Let_def split: if_splits)
  then show ?thesis
  proof cases
    case 1
    then show ?thesis using mesh.base_idem [OF assms(1)] by simp
  next
    case 2
    then show ?thesis
      using mesh.reinsert [unfolded mesh.block_def, OF assms(1), of ?base "[]" "map push_route_line ns"]
        push_route_line_ok canonical_last [OF without_block_canonical] by auto
  qed
qed

section \<open>The words of the lines\<close>

lemma lines_acc_strip:
  "map strip (lines_acc acc s) = (case lines_keep s of [] \<Rightarrow> if acc = [] then [] else [strip (rev acc)]
     | l # ls \<Rightarrow> strip (rev acc @ l) # map strip ls)"
proof (induction acc s rule: lines_acc.induct)
  case (2 acc c)
  then show ?case by (simp add: strip_snoc line_break_space)
next
  case (3 acc c d s)
  show ?case
  proof (cases "c = CHR 0x0D \<and> d = CHR 0x0A")
    case True
    have "strip (rev acc @ [c] @ [d]) = strip (rev acc)"
      using True by (metis append_assoc line_break_ends line_break_space strip_snoc)
    then show ?thesis using 3(1) True by (cases "lines_keep s") auto
  next
    case False
    then show ?thesis
      using 3(2,3) by (cases "line_break c"; cases "lines_keep (d # s)") (auto simp: strip_snoc line_break_space)
  qed
qed simp

lemma splitlines_strip: "map strip (splitlines s) = map strip (lines_keep s)"
  using lines_acc_strip [of "[]" s] by (cases "lines_keep s") (auto simp: splitlines_def)

lemma ifconfig_strip: "ifconfig_ip l = ifconfig_ip (strip l)"
  by (simp add: ifconfig_ip_def)

lemma first_ifconfig_alt:
  "first_ifconfig_ip s = (case List.map_filter ifconfig_ip (lines_keep s) of [] \<Rightarrow> None | ip # _ \<Rightarrow> Some ip)"
proof -
  have "List.map_filter ifconfig_ip ls = List.map_filter ifconfig_ip (map strip ls)" for ls
    by (induction ls) (auto simp: List.map_filter_simps ifconfig_strip [symmetric] split: option.splits)
  then have "List.map_filter ifconfig_ip (splitlines s) = List.map_filter ifconfig_ip (lines_keep s)"
    by (metis splitlines_strip)
  then show ?thesis by (simp add: first_ifconfig_ip_def)
qed

lemma ccd_disabled_alt: "ccd_disabled s \<longleftrightarrow> (\<exists>l\<in>set (lines_keep s). strip l = ''disable'')"
proof -
  have "set (map strip (splitlines s)) = set (map strip (lines_keep s))" by (simp only: splitlines_strip)
  then have "''disable'' \<in> strip ` set (splitlines s) \<longleftrightarrow> ''disable'' \<in> strip ` set (lines_keep s)" by simp
  then show ?thesis unfolding ccd_disabled_def list_ex_iff image_iff by (simp only: eq_commute [of "''disable''"])
qed

text \<open>The stripped lines of a text, blank ones included.\<close>

definition stripped :: "string \<Rightarrow> string set" where
  "stripped s = insert [] (strip ` set (lines_keep s))"

lemma stripped_Nil [simp]: "stripped [] = {[]}"
  by (simp add: stripped_def)

lemma strip_blank: "py_space c \<Longrightarrow> strip [c] = []"
  by (simp add: strip_def lstrip_def rstrip_def)

lemma stripped_snoc:
  assumes "py_space c" "no_cr s"
  shows "stripped (s @ [c]) = stripped s"
proof (cases "s = []")
  case True
  then show ?thesis using assms by (simp add: stripped_def strip_blank)
next
  case False
  show ?thesis
  proof (cases "line_break (last s)")
    case True
    then show ?thesis using lines_keep_snoc [OF assms(2) False, of c] assms(1) by (auto simp: stripped_def strip_blank)
  next
    case nb: False
    have "lines_keep s = butlast (lines_keep s) @ [last (lines_keep s)]" using False by simp
    then have "strip ` set (lines_keep s) = insert (strip (last (lines_keep s))) (strip ` set (butlast (lines_keep s)))"
      by (metis image_insert list.simps(15) rotate1.simps(2) set_rotate1)
    then show ?thesis using lines_keep_snoc [OF assms(2) False, of c] nb strip_snoc [OF assms(1)]
      by (auto simp: stripped_def)
  qed
qed

lemma stripped_blank: "list_all py_space t \<Longrightarrow> no_cr (s @ t) \<Longrightarrow> stripped (s @ t) = stripped s"
proof (induction t rule: rev_induct)
  case (snoc c t)
  then show ?case using stripped_snoc [of c "s @ t"] by simp
qed simp

lemma stripped_rstrip: "no_cr s \<Longrightarrow> stripped (rstrip s) = stripped s"
  using rstrip_prefix [of s] stripped_blank by (metis list_all_iff)

lemma stripped_append: "a = [] \<or> last a = CHR 0x0A \<Longrightarrow> stripped (a @ b) = stripped a \<union> stripped b"
  by (auto simp: stripped_def lines_keep_append)

end
