(* ===== verification/Ccd_Props.thy ===== *)
theory Ccd_Props
  imports Ccd_Laws
begin

text \<open>
  Properties of the CCD file: a peer's block can be rewritten without a trace of the old one, and
  whatever the services do to the file of a client, its fixed address and its \<open>disable\<close> line are
  the ones set last.
\<close>

section \<open>Words\<close>

lemma words_acc_word: "list_all (\<lambda>c. \<not> py_space c) w \<Longrightarrow> words_acc acc (w @ s) = words_acc (rev w @ acc) s"
  by (induction w arbitrary: acc) auto

lemma words_acc_blank: "list_all py_space t \<Longrightarrow> words_acc acc (s @ t) = words_acc acc s"
proof (induction s arbitrary: acc)
  case Nil
  have "list_all py_space t \<Longrightarrow> words_acc [] t = []" by (induction t) auto
  then show ?case using Nil by (cases t) auto
qed auto

lemma words_acc_lead: "words_acc [] (dropWhile py_space s) = words_acc [] s"
  by (induction s) auto

lemma py_words_strip: "py_words (strip s) = py_words s"
proof -
  obtain t where "lstrip s = rstrip (lstrip s) @ t" "\<forall>c\<in>set t. py_space c" using rstrip_prefix by blast
  then have "words_acc [] (strip s) = words_acc [] (lstrip s)"
    unfolding strip_def by (metis list_all_iff words_acc_blank)
  then show ?thesis by (simp add: py_words_def lstrip_def words_acc_lead)
qed

lemma ifconfig_words: "ifconfig_ip l = (case py_words l of a # b # ws \<Rightarrow>
    if a = ''ifconfig-push'' then Some b else None | _ \<Rightarrow> None)"
  by (simp add: ifconfig_ip_def py_words_strip)

lemma first_word: "list_all (\<lambda>c. \<not> py_space c) w \<Longrightarrow> w \<noteq> [] \<Longrightarrow> py_words (w @ CHR '' '' # s) = w # py_words s"
  using words_acc_word [of w "[]" "CHR '' '' # s"] by (simp add: py_words_def py_space_def)

lemma ifconfig_none: "list_all (\<lambda>c. \<not> py_space c) w \<Longrightarrow> w \<noteq> [] \<Longrightarrow> w \<noteq> ''ifconfig-push'' \<Longrightarrow>
  ifconfig_ip (w @ CHR '' '' # s) = None"
  by (simp add: ifconfig_words first_word split: list.splits)

section \<open>The shape of a client's file\<close>

definition address_line :: "nat \<Rightarrow> nat \<Rightarrow> string" where
  "address_line a m = ''ifconfig-push '' @ ip_str a @ '' '' @ ip_str m"

lemma address_line_ip: "ifconfig_ip (address_line a m) = Some (ip_str a)"
proof -
  have ns: "list_all (\<lambda>c. \<not> py_space c) (ip_str n)" for n using ip_str_no_space by (simp add: list_all_iff)
  have p: "list_all (\<lambda>c. \<not> py_space c) ''ifconfig-push''" by (simp add: py_space_def)
  have "py_words (address_line a m) = ''ifconfig-push'' # ip_str a # py_words (ip_str m)"
    using first_word [OF p, of "ip_str a @ '' '' @ ip_str m"] first_word [OF ns [of a], of "ip_str m"]
    by (simp add: address_line_def)
  then show ?thesis by (simp add: ifconfig_words)
qed

definition head_lines :: "bool \<Rightarrow> nat \<Rightarrow> nat \<Rightarrow> string list" where
  "head_lines dis a m = (if dis then [''disable''] else []) @ [address_line a m]"

definition unlines :: "string list \<Rightarrow> string" where
  "unlines ls = concat (map (\<lambda>l. l @ nl) ls)"

definition word_ok :: "string \<Rightarrow> bool" where
  "word_ok w \<longleftrightarrow> w \<noteq> ''disable'' \<and> ifconfig_ip w = None"

definition only_nl :: "string \<Rightarrow> bool" where
  "only_nl s \<longleftrightarrow> (\<forall>c\<in>set s. line_break c \<longrightarrow> c = CHR 0x0A)"

definition rest_ok :: "string \<Rightarrow> bool" where
  "rest_ok r \<longleftrightarrow> only_nl r \<and> (\<forall>l\<in>set (lines_keep r). CHR ''#'' \<notin> set (tl l)) \<and> (\<forall>w\<in>stripped r. word_ok w)"

definition ccd_form :: "bool \<Rightarrow> nat \<Rightarrow> string \<Rightarrow> bool" where
  "ccd_form dis a t \<longleftrightarrow> (\<exists>m r. t = unlines (head_lines dis a m) @ r \<and> rest_ok r)"

lemma only_nl_cr: "only_nl s \<Longrightarrow> no_cr s"
  by (auto simp: only_nl_def no_cr_def)

lemma only_nl_simps [simp]: "only_nl []" "only_nl (s @ t) \<longleftrightarrow> only_nl s \<and> only_nl t"
  "only_nl (c # s) \<longleftrightarrow> (line_break c \<longrightarrow> c = CHR 0x0A) \<and> only_nl s" "no_break s \<Longrightarrow> only_nl s" "only_nl nl"
  by (auto simp: only_nl_def no_break_def list_all_iff nl_def)

lemma word_ok_Nil [simp]: "word_ok []"
  by (simp add: word_ok_def ifconfig_words py_words_def)

lemma unlines_simps [simp]: "unlines [] = []" "unlines (l # ls) = l @ nl @ unlines ls"
  "unlines (ls @ ms) = unlines ls @ unlines ms"
  by (simp_all add: unlines_def)

lemma unlines_last: "unlines ls = [] \<or> last (unlines ls) = CHR 0x0A"
  by (cases ls rule: rev_cases) (auto simp: unlines_def nl_def)

lemma lines_unlines: "\<forall>l\<in>set ls. no_break l \<Longrightarrow> lines_keep (unlines ls @ s) = map (\<lambda>l. l @ nl) ls @ lines_keep s"
proof (induction ls)
  case (Cons l ls)
  then show ?case using lines_keep_break [of l "CHR 0x0A" "unlines ls @ s"] by (simp add: nl_def)
qed simp

lemma head_no_break: "l \<in> set (head_lines dis a m) \<Longrightarrow> no_break l"
  using ip_str_no_break by (auto simp: head_lines_def address_line_def line_break_def split: if_splits)

lemma head_no_hash: "CHR ''#'' \<notin> set (unlines (head_lines dis a m))"
  using ip_str_chars [of "CHR ''#''"] by (auto simp: head_lines_def address_line_def nl_def is_digit_def)

lemma word_ok_strip: "word_ok (strip l) \<Longrightarrow> ifconfig_ip l = None \<and> strip l \<noteq> ''disable''"
  using ifconfig_strip [of l] by (simp add: word_ok_def)

text \<open>The shape shows the state.\<close>

lemma ccd_form_state:
  assumes "ccd_form dis a t"
  shows "ccd_disabled t = dis \<and> first_ifconfig_ip t = Some (ip_str a)"
proof -
  obtain m r where t: "t = unlines (head_lines dis a m) @ r" and r: "rest_ok r" using assms by (auto simp: ccd_form_def)
  have ls: "lines_keep t = map (\<lambda>l. l @ nl) (head_lines dis a m) @ lines_keep r"
    unfolding t by (rule lines_unlines) (blast intro: head_no_break)
  have rl: "l \<in> set (lines_keep r) \<Longrightarrow> ifconfig_ip l = None \<and> strip l \<noteq> ''disable''" for l
    using r word_ok_strip by (auto simp: rest_ok_def stripped_def)
  have sp: "strip (s @ nl) = strip s" for s using strip_snoc [of "CHR 0x0A" s] by (simp add: nl_def py_space_def)
  have a: "ifconfig_ip (address_line a m @ nl) = Some (ip_str a)"
    using address_line_ip [of a m] by (metis ifconfig_strip sp)
  have d: "ifconfig_ip (''disable'' @ nl) = None" "strip (''disable'' @ nl) = ''disable''" "ifconfig_ip ''disable'' = None"
    by (simp_all add: nl_def ifconfig_words py_words_def py_space_def strip_def lstrip_def rstrip_def)
  have "strip (address_line a m @ nl) \<noteq> ''disable''" using a d(3) ifconfig_strip by (metis option.distinct(1))
  then have "ccd_disabled t = dis"
    using rl d(2) unfolding ccd_disabled_alt ls by (auto simp: head_lines_def)
  moreover have "List.map_filter ifconfig_ip (lines_keep r) = []"
    using rl by (induction "lines_keep r") (auto simp: List.map_filter_def filter_empty_conv)
  then have "first_ifconfig_ip t = Some (ip_str a)"
    using a d(1) unfolding first_ifconfig_alt ls by (simp add: head_lines_def List.map_filter_def)
  ultimately show ?thesis by simp
qed

section \<open>What every edit keeps\<close>

lemma rest_ok_append:
  assumes "p = [] \<or> last p = CHR 0x0A"
  shows "rest_ok (p @ q) \<longleftrightarrow> rest_ok p \<and> rest_ok q"
  unfolding rest_ok_def stripped_append [OF assms] lines_keep_append [OF assms] by auto

lemma rest_ok_Nil [simp]: "rest_ok []"
  by (simp add: rest_ok_def)

lemma rest_ok_drop:
  assumes "rest_ok r"
  shows "rest_ok (concat (drop_blocks b e sk (lines_keep r)))"
proof -
  let ?D = "drop_blocks b e sk (lines_keep r)"
  have cr: "no_cr r" using assms only_nl_cr by (simp add: rest_ok_def)
  have ok: "lines_keep (concat ?D) = ?D"
    by (rule lines_keep_concat [OF drop_blocks_lines_ok [OF lines_keep_ok [OF cr]] no_cr_drop [OF cr]])
  have sub: "set ?D \<subseteq> set (lines_keep r)" using drop_blocks_subset by blast
  then have "set (concat ?D) \<subseteq> set r" using concat_lines_keep [of r] by (metis Union_mono image_mono set_concat)
  then show ?thesis using assms sub unfolding rest_ok_def stripped_def ok only_nl_def by blast
qed

lemma rest_ok_trim:
  assumes "rest_ok r"
  shows "rest_ok (if rstrip r = [] then [] else rstrip r @ nl)"
proof (cases "rstrip r = []")
  case False
  have cr: "no_cr r" using assms only_nl_cr by (simp add: rest_ok_def)
  have "only_nl (rstrip r)" using assms set_rstrip [of r] by (auto simp: rest_ok_def only_nl_def)
  moreover have "stripped (rstrip r @ nl) = stripped r"
    using stripped_snoc [of "CHR 0x0A" "rstrip r"] no_cr_rstrip [OF cr] stripped_rstrip [OF cr]
    by (simp add: nl_def py_space_def)
  moreover have "CHR ''#'' \<notin> set (tl l)" if l: "l \<in> set (lines_keep (rstrip r @ nl))" for l
  proof -
    obtain ls' rest where p: "lines_keep r = ls' @ rest" "list_all2 prefix (lines_keep (rstrip r)) ls'"
      using lines_prefix rstrip_is_prefix [of r] unfolding prefix_def by metis
    have fin: "\<not> line_break (last (rstrip r))" using rstrip_last [OF False] line_break_space by blast
    have ne: "lines_keep (rstrip r) \<noteq> []" using False by simp
    have "set (lines_keep (rstrip r @ nl)) \<subseteq> set (lines_keep (rstrip r)) \<union> {last (lines_keep (rstrip r)) @ nl}"
      using lines_keep_snoc [OF no_cr_rstrip [OF cr] False, of "CHR 0x0A"] fin by (auto simp: nl_def dest: in_set_butlastD)
    then obtain l1 where l1: "l1 \<in> set (lines_keep (rstrip r))" "l = l1 \<or> l = l1 @ nl"
      using l last_in_set [OF ne] by auto
    then obtain l' where "l' \<in> set ls'" "prefix l1 l'" using p(2) by (metis in_set_conv_nth list_all2_conv_all_nth)
    moreover have "set (tl l) \<subseteq> set (tl l1) \<union> {CHR 0x0A}" using l1(2) by (cases l1) (auto simp: nl_def)
    moreover have "prefix l1 l' \<Longrightarrow> set (tl l1) \<subseteq> set (tl l')" by (cases l1) (auto simp: prefix_def)
    moreover have "CHR ''#'' \<notin> set (tl l')" if "l' \<in> set (lines_keep r)" using assms that by (simp add: rest_ok_def)
    ultimately show ?thesis using p(1) by auto
  qed
  ultimately show ?thesis using assms False by (simp add: rest_ok_def)
qed simp

lemma rest_ok_unlines:
  assumes "\<forall>l\<in>set ls. no_break l \<and> CHR ''#'' \<notin> set (tl l) \<and> word_ok (strip l)"
  shows "rest_ok (unlines ls)"
proof -
  have "lines_keep (unlines ls) = map (\<lambda>l. l @ nl) ls" using lines_unlines [of ls "[]"] assms by simp
  moreover have "strip (l @ nl) = strip l" for l using strip_snoc [of "CHR 0x0A" l] by (simp add: nl_def py_space_def)
  moreover have "set (tl (l @ nl)) \<subseteq> set (tl l) \<union> {CHR 0x0A}" for l by (cases l) (auto simp: nl_def)
  moreover have "only_nl (unlines ls)" using assms by (induction ls) auto
  ultimately show ?thesis using assms by (fastforce simp: rest_ok_def stripped_def)
qed

lemma rstrip_append: "rstrip (h @ r) = (if rstrip r = [] then rstrip h else h @ rstrip r)"
  by (auto simp: rstrip_def dropWhile_append)

lemma rstrip_id: "s \<noteq> [] \<Longrightarrow> \<not> py_space (last s) \<Longrightarrow> rstrip s = s"
  by (cases s rule: rev_cases) (auto simp: rstrip_def)

lemma unlines_canonical: "ls \<noteq> [] \<Longrightarrow> last ls \<noteq> [] \<Longrightarrow> \<not> py_space (last (last ls)) \<Longrightarrow> rstrip (unlines ls) @ nl = unlines ls"
proof (induction ls rule: rev_induct)
  case (snoc l ls)
  then have "rstrip (unlines ls @ l) = unlines ls @ l" by (intro rstrip_id) auto
  then show ?case using rstrip_snoc [of "CHR 0x0A" "unlines ls @ l"] by (simp add: nl_def py_space_def)
qed simp

lemma head_canonical: "rstrip (unlines (head_lines dis a m)) @ nl = unlines (head_lines dis a m)"
  by (rule unlines_canonical)
    (auto simp: head_lines_def address_line_def ip_str_no_space [OF last_in_set [OF ip_str_nonempty]])

text \<open>Removing a marked block, and the file with blanks at its end removed.\<close>

lemma trim_head:
  assumes "rest_ok r"
  obtains r' where "rstrip (unlines (head_lines dis a m) @ r) @ nl = unlines (head_lines dis a m) @ r'" "rest_ok r'"
  using rest_ok_trim [OF assms] head_canonical [of dis a m] that
  by (cases "rstrip r = []") (auto simp: rstrip_append)

lemma without_block_form:
  assumes "ccd_form dis a t" "b \<noteq> []" "hd b = CHR ''#''" "e \<noteq> []" "hd e = CHR ''#''"
  obtains m r where "without_block b e t = unlines (head_lines dis a m) @ r" "rest_ok r"
proof -
  obtain m r where t: "t = unlines (head_lines dis a m) @ r" and r: "rest_ok r" using assms by (auto simp: ccd_form_def)
  let ?H = "map (\<lambda>l. l @ nl) (head_lines dis a m)"
  have ls: "lines_keep t = ?H @ lines_keep r"
    unfolding t by (rule lines_unlines) (blast intro: head_no_break)
  have nb: "\<not> starts_with (l @ nl) b'" if "l \<in> set (head_lines dis a m)" "b' \<noteq> []" "hd b' = CHR ''#''" for l b'
    using that by (cases b') (auto simp: starts_with_def head_lines_def address_line_def nl_def split: if_splits)
  have "drop_blocks b e False (lines_keep t) = ?H @ drop_blocks b e False (lines_keep r)"
    unfolding ls using nb assms(2-5) by (intro drop_blocks_free) auto
  then have c: "concat (drop_blocks b e False (lines_keep t)) =
      unlines (head_lines dis a m) @ concat (drop_blocks b e False (lines_keep r))" by (simp add: unlines_def)
  obtain r' where r': "rstrip (unlines (head_lines dis a m) @ concat (drop_blocks b e False (lines_keep r))) @ nl =
      unlines (head_lines dis a m) @ r'" "rest_ok r'" using trim_head [OF rest_ok_drop [OF r]] .
  have "rstrip (unlines (head_lines dis a m)) \<noteq> []" using head_canonical [of dis a m]
    by (auto simp: head_lines_def address_line_def nl_def)
  then have "rstrip (unlines (head_lines dis a m) @ x) \<noteq> []" for x by (auto simp: rstrip_append)
  then show thesis using that r' by (simp add: without_block_alt c Let_def)
qed

lemma find_sub_append: "CHR ''#'' \<notin> set h \<Longrightarrow> p \<noteq> [] \<Longrightarrow> hd p = CHR ''#'' \<Longrightarrow>
  find_sub p (h @ r) = map_option ((+) (length h)) (find_sub p r)"
proof (induction h)
  case Nil
  then show ?case by (simp add: option.map_ident [unfolded id_def])
next
  case (Cons c h)
  have "\<not> starts_with (c # h @ r) p" using Cons.prems by (cases p) (auto simp: starts_with_def)
  then show ?case using Cons by (cases "find_sub p r") auto
qed

lemma hash_start:
  assumes "only_nl r" "\<forall>l\<in>set (lines_keep r). CHR ''#'' \<notin> set (tl l)" "r = x @ CHR ''#'' # y"
  shows "x = [] \<or> last x = CHR 0x0A"
  using assms
proof (induction r arbitrary: x rule: lines_keep.induct)
  case (2 c)
  then show ?case by (cases x) auto
next
  case (3 c d s)
  have c: "c \<noteq> CHR 0x0D" using 3(4) by auto
  show ?case
  proof (cases x)
    case (Cons c' x')
    then have eq: "d # s = x' @ CHR ''#'' # y" and cc: "c' = c" using 3(6) by auto
    show ?thesis
    proof (cases "line_break c")
      case True
      then show ?thesis using 3(2) [OF _ True _ _ eq] 3(4,5) c cc Cons by auto
    next
      case False
      obtain l ls where l: "lines_keep (d # s) = l # ls" by (cases "lines_keep (d # s)") auto
      then obtain h where h: "l = d # h" using lines_keep_hd by blast
      have "\<forall>k\<in>set (lines_keep (d # s)). CHR ''#'' \<notin> set (tl k)" "CHR ''#'' \<noteq> d"
        using 3(5) False c l h by auto
      then have "x' = [] \<or> last x' = CHR 0x0A" "x' \<noteq> []" using 3(3) [OF _ False _ _ eq] 3(4) c eq by (auto simp: Cons_eq_append_conv)
      then show ?thesis using Cons by simp
    qed
  qed simp
qed auto

lemma insert_block_form:
  assumes "rest_ok r" "rest_ok block" "block \<noteq> []" "last block = CHR 0x0A" "CHR ''#'' \<notin> set h" "h = [] \<or> last h = CHR 0x0A"
    "r = [] \<or> last r = CHR 0x0A"
  obtains r' where "insert_block (h @ r) block = h @ r'" "rest_ok r'"
proof (cases "find_sub (mesh_begin @ nl) r")
  case None
  then show ?thesis using that [of "r @ block"] assms
    by (auto simp: insert_block_def find_sub_append mesh_begin_def rest_ok_append)
next
  case (Some i)
  then have i: "i \<le> length r" "starts_with (drop i r) (mesh_begin @ nl)" using find_sub_Some by blast+
  then obtain y where y: "drop i r = CHR ''#'' # y" by (cases "drop i r") (auto simp: starts_with_def mesh_begin_def)
  then have ti: "take i r = [] \<or> last (take i r) = CHR 0x0A"
    using hash_start [of r "take i r" y] assms(1) append_take_drop_id [of i r] by (auto simp: rest_ok_def)
  have "rest_ok (take i r)" "rest_ok (drop i r)" using rest_ok_append [OF ti, of "drop i r"] assms(1) by auto
  moreover have "last (take i r @ block) = CHR 0x0A" using assms(3,4) by simp
  ultimately have "rest_ok ((take i r @ block) @ drop i r)"
    using assms(2) ti by (subst rest_ok_append) (auto simp: rest_ok_append)
  then show ?thesis using that [of "take i r @ block @ drop i r"] Some assms(5) i
    by (simp add: insert_block_def find_sub_append mesh_begin_def)
qed

lemma only_nl_decomp: "only_nl r \<Longrightarrow> \<exists>ls w. r = unlines ls @ w \<and> (\<forall>l\<in>set ls. no_break l) \<and> no_break w"
proof (induction r)
  case (Cons c r)
  then obtain ls w where r: "r = unlines ls @ w" "\<forall>l\<in>set ls. no_break l" "no_break w" by auto
  show ?case
  proof (cases "line_break c")
    case True
    then have "c = CHR 0x0A" using Cons.prems by auto
    then show ?thesis using r by (intro exI [of _ "[] # ls"] exI [of _ w]) (auto simp: nl_def)
  next
    case False
    then show ?thesis using r
      by (cases ls) (auto intro: exI [of _ "[]"] exI [of _ "(c # hd ls) # tl ls"])
  qed
qed (auto intro: exI [of _ "[]"])

lemma splitlines_line: "no_break w \<Longrightarrow> splitlines (w @ nl @ s) = w # splitlines s"
proof -
  have "no_break w \<Longrightarrow> lines_acc acc (w @ CHR 0x0A # s) = (rev acc @ w) # lines_acc [] s" for acc
  proof (induction w arbitrary: acc)
    case Nil
    then show ?case by (cases s) auto
  next
    case (Cons c w)
    then have "c \<noteq> CHR 0x0D" by auto
    then show ?case using Cons by (cases w) auto
  qed
  then show "no_break w \<Longrightarrow> splitlines (w @ nl @ s) = w # splitlines s" by (simp add: splitlines_def nl_def)
qed

lemma splitlines_unlines: "\<forall>l\<in>set ls. no_break l \<Longrightarrow> splitlines (unlines ls @ s) = ls @ splitlines s"
  by (induction ls) (auto simp: splitlines_line)

lemma splitlines_last: "no_break w \<Longrightarrow> splitlines w = (if w = [] then [] else [w])"
proof -
  have "no_break w \<Longrightarrow> lines_acc acc w = (if acc = [] \<and> w = [] then [] else [rev acc @ w])" for acc
  proof (induction acc w rule: lines_acc.induct)
    case (3 acc c d s)
    then have "c \<noteq> CHR 0x0D" by auto
    then show ?case using 3 by auto
  qed auto
  then show "no_break w \<Longrightarrow> splitlines w = (if w = [] then [] else [w])" by (simp add: splitlines_def)
qed

lemma rest_ok_lines:
  assumes "rest_ok r" "l \<in> set (splitlines r)"
  shows "no_break l \<and> CHR ''#'' \<notin> set (tl l) \<and> word_ok (strip l)"
proof -
  obtain ls w where r: "r = unlines ls @ w" "\<forall>l\<in>set ls. no_break l" "no_break w"
    using only_nl_decomp assms(1) unfolding rest_ok_def by blast
  have k: "lines_keep r = map (\<lambda>l. l @ nl) ls @ (if w = [] then [] else [w])"
    using lines_unlines [OF r(2), of w] lines_keep_single [OF r(3)] r(1) by auto
  have sp: "splitlines r = ls @ (if w = [] then [] else [w])"
    using splitlines_unlines [OF r(2)] splitlines_last [OF r(3)] r(1) by simp
  have strip_nl: "strip (l @ nl) = strip l" for l using strip_snoc [of "CHR 0x0A" l] by (simp add: nl_def py_space_def)
  have "l @ nl \<in> set (lines_keep r) \<or> l \<in> set (lines_keep r)" using assms(2) unfolding sp k by auto
  then have "CHR ''#'' \<notin> set (tl l)" "strip l \<in> stripped r"
    using assms(1) strip_nl [of l] by (cases l; auto simp: rest_ok_def stripped_def; metis image_eqI)+
  moreover have "no_break l" using assms(2) r unfolding sp by (auto split: if_splits)
  ultimately show ?thesis using assms(1) by (auto simp: rest_ok_def)
qed

section \<open>Edits\<close>

datatype ccd_edit =
    PeerBlock string "string list"
  | MeshRoutes "string list"
  | Disable bool
  | Address nat nat

fun edit_text :: "ccd_edit \<Rightarrow> string \<Rightarrow> string res" where
  "edit_text (PeerBlock pid cidrs) t = merge_peer_block_into_ccd t pid cidrs"
| "edit_text (MeshRoutes cidrs) t = merge_mesh_peer_push_routes_into_ccd t cidrs"
| "edit_text (Disable d) t = Inr (set_ccd_disable d t)"
| "edit_text (Address a m) t = Inr (snd (replace_ccd_ifconfig_push t (ip_str a) (ip_str m)))"

text \<open>What the edits mean: the client's \<open>disable\<close> flag and its fixed address.\<close>

fun edit_state :: "ccd_edit \<Rightarrow> bool \<times> nat \<Rightarrow> bool \<times> nat" where
  "edit_state (PeerBlock _ _) x = x"
| "edit_state (MeshRoutes _) x = x"
| "edit_state (Disable d) x = (d, snd x)"
| "edit_state (Address a m) x = (fst x, a)"

fun edit_ok :: "ccd_edit \<Rightarrow> bool" where
  "edit_ok (PeerBlock pid _) \<longleftrightarrow> list_all (\<lambda>c. \<not> line_break c \<and> c \<noteq> CHR ''#'') pid"
| "edit_ok _ \<longleftrightarrow> True"

text \<open>An edit that raises leaves the file alone.\<close>

fun run_edits :: "ccd_edit list \<Rightarrow> string \<Rightarrow> string" where
  "run_edits [] t = t"
| "run_edits (x # xs) t = run_edits xs (case edit_text x (read_text t) of Inl _ \<Rightarrow> t | Inr t' \<Rightarrow> t')"

lemma word_ok_first:
  assumes "list_all (\<lambda>c. \<not> py_space c) w" "w \<noteq> []" "w \<noteq> ''ifconfig-push''" "w \<noteq> ''disable''"
  shows "word_ok (strip (w @ CHR '' '' # s))"
proof -
  have "py_words (strip (w @ CHR '' '' # s)) = w # py_words s" using first_word [OF assms(1,2)] by (simp add: py_words_strip)
  moreover have "py_words ''disable'' = [''disable'']" by (simp add: py_words_def py_space_def)
  ultimately have "strip (w @ CHR '' '' # s) \<noteq> ''disable''" using assms(4) by (metis list.inject)
  then show ?thesis using ifconfig_none [OF assms(1-3)] ifconfig_strip unfolding word_ok_def by metis
qed

lemma marker_ok:
  "no_break pid \<Longrightarrow> CHR ''#'' \<notin> set pid \<Longrightarrow> no_break (peer_begin pid) \<and> CHR ''#'' \<notin> set (tl (peer_begin pid)) \<and> word_ok (strip (peer_begin pid))"
  "no_break pid \<Longrightarrow> CHR ''#'' \<notin> set pid \<Longrightarrow> no_break (peer_end pid) \<and> CHR ''#'' \<notin> set (tl (peer_end pid)) \<and> word_ok (strip (peer_end pid))"
  "no_break mesh_begin \<and> CHR ''#'' \<notin> set (tl mesh_begin) \<and> word_ok (strip mesh_begin)"
  "no_break mesh_end \<and> CHR ''#'' \<notin> set (tl mesh_end) \<and> word_ok (strip mesh_end)"
  using word_ok_first [of "''#''"]
  by (simp_all add: peer_begin_def peer_end_def mesh_begin_def mesh_end_def line_break_def py_space_def)

definition iroute_text :: "net \<Rightarrow> string" where
  "iroute_text n = ''iroute'' @ CHR '' '' # ip_str (net_addr n) @ '' '' @ netmask_str n"

definition push_text :: "net \<Rightarrow> string" where
  "push_text n = ''push'' @ CHR '' '' # [CHR 0x22] @ ''route '' @ ip_str (net_addr n) @ '' '' @ netmask_str n @ [CHR 0x22]"

lemma line_texts: "iroute_line = (\<lambda>n. iroute_text n @ nl)" "push_route_line = (\<lambda>n. push_text n @ nl)"
  by (simp_all add: fun_eq_iff iroute_line_def push_route_line_def iroute_text_def push_text_def)

lemma blocks_unlines:
  "concat ([peer_begin pid @ nl] @ map iroute_line ns @ [peer_end pid @ nl]) = unlines ([peer_begin pid] @ map iroute_text ns @ [peer_end pid])"
  "concat ([mesh_begin @ nl] @ map push_route_line ns @ [mesh_end @ nl]) = unlines ([mesh_begin] @ map push_text ns @ [mesh_end])"
  by (simp_all add: unlines_def line_texts comp_def)

lemma route_ok:
  "no_break (iroute_text n) \<and> CHR ''#'' \<notin> set (tl (iroute_text n)) \<and> word_ok (strip (iroute_text n))"
  "no_break (push_text n) \<and> CHR ''#'' \<notin> set (tl (push_text n)) \<and> word_ok (strip (push_text n))"
proof -
  have h: "CHR ''#'' \<notin> set (ip_str k)" for k using ip_str_chars [of "CHR ''#''" k] by (auto simp: is_digit_def)
  show "no_break (iroute_text n) \<and> CHR ''#'' \<notin> set (tl (iroute_text n)) \<and> word_ok (strip (iroute_text n))"
    unfolding iroute_text_def using ip_str_no_break h
    by (intro conjI word_ok_first) (auto simp: line_break_def netmask_str_def py_space_def)
  show "no_break (push_text n) \<and> CHR ''#'' \<notin> set (tl (push_text n)) \<and> word_ok (strip (push_text n))"
    unfolding push_text_def using ip_str_no_break h
    by (intro conjI word_ok_first) (auto simp: line_break_def netmask_str_def py_space_def)
qed

lemma canonical_rest:
  assumes "canonical (unlines (head_lines dis a m) @ r)"
  shows "r = [] \<or> last r = CHR 0x0A"
  using canonical_last [OF assms] by (cases "r = []") auto

lemma peer_edit_form:
  assumes "ccd_form dis a t" "edit_ok (PeerBlock pid cidrs)" "merge_peer_block_into_ccd t pid cidrs = Inr t'"
  shows "ccd_form dis a t'"
proof -
  let ?B = "without_block (peer_begin pid) (peer_end pid) t"
  have pid: "no_break pid" "CHR ''#'' \<notin> set pid" using assms(2) by (auto simp: no_break_def list_all_iff)
  obtain m r where B: "?B = unlines (head_lines dis a m) @ r" "rest_ok r"
    using without_block_form [OF assms(1), of "peer_begin pid" "peer_end pid"] by (auto simp: peer_begin_def peer_end_def)
  show ?thesis
  proof (cases "cidrs = []")
    case True
    then show ?thesis using assms(3) B by (auto simp: merge_peer_block_into_ccd_def ccd_form_def)
  next
    case False
    then obtain ns where t': "t' = insert_block ?B (unlines ([peer_begin pid] @ map iroute_text ns @ [peer_end pid]))"
      using assms(3) unfolding merge_peer_block_into_ccd_def build_iroute_block_def blocks_unlines
      by (auto simp: rbind_Inr_iff Let_def)
    let ?L = "unlines ([peer_begin pid] @ map iroute_text ns @ [peer_end pid])"
    have L: "rest_ok ?L" using marker_ok(1,2) [OF pid] route_ok by (intro rest_ok_unlines) auto
    have end_L: "?L \<noteq> []" "last ?L = CHR 0x0A" by (simp_all add: nl_def)
    have r: "r = [] \<or> last r = CHR 0x0A" using canonical_rest without_block_canonical B(1) by metis
    show ?thesis
      using insert_block_form [OF B(2) L end_L head_no_hash unlines_last r] t' unfolding B(1) ccd_form_def by metis
  qed
qed

lemma mesh_edit_form:
  assumes "ccd_form dis a t" "merge_mesh_peer_push_routes_into_ccd t cidrs = Inr t'"
  shows "ccd_form dis a t'"
proof -
  let ?B = "without_block mesh_begin mesh_end t"
  obtain m r where B: "?B = unlines (head_lines dis a m) @ r" "rest_ok r"
    using without_block_form [OF assms(1), of mesh_begin mesh_end] by (auto simp: mesh_begin_def mesh_end_def)
  have r: "r = [] \<or> last r = CHR 0x0A" using canonical_rest without_block_canonical B(1) by metis
  consider "t' = ?B" | ns where "t' = ?B @ unlines ([mesh_begin] @ map push_text ns @ [mesh_end])"
    using assms(2) unfolding merge_mesh_peer_push_routes_into_ccd_def build_mesh_peer_push_routes_block_def blocks_unlines
    by (auto simp: rbind_Inr_iff Let_def split: if_splits)
  then show ?thesis
  proof cases
    case 1
    then show ?thesis using B by (auto simp: ccd_form_def)
  next
    case 2
    have "rest_ok (unlines ([mesh_begin] @ map push_text ns @ [mesh_end]))"
      using marker_ok(3,4) route_ok by (intro rest_ok_unlines) auto
    then have "rest_ok (r @ unlines ([mesh_begin] @ map push_text ns @ [mesh_end]))"
      using B(2) r by (simp only: rest_ok_append)
    then show ?thesis using 2 B(1) unfolding ccd_form_def by (metis append.assoc)
  qed
qed

lemma join_unlines: "ls \<noteq> [] \<Longrightarrow> join nl ls @ nl = unlines ls"
  by (induction nl ls rule: join.induct) auto

lemma form_lines:
  assumes "ccd_form dis a t"
  obtains m R where "splitlines t = head_lines dis a m @ R" "\<forall>l\<in>set R. no_break l \<and> CHR ''#'' \<notin> set (tl l) \<and> word_ok (strip l)"
proof -
  obtain m r where "t = unlines (head_lines dis a m) @ r" "rest_ok r" using assms by (auto simp: ccd_form_def)
  then show thesis using that [of m "splitlines r"] splitlines_unlines [of "head_lines dis a m" r] head_no_break rest_ok_lines by blast
qed

lemma address_not_disable: "strip (address_line a m) \<noteq> ''disable''"
proof
  assume "strip (address_line a m) = ''disable''"
  then have "ifconfig_ip ''disable'' = Some (ip_str a)" using address_line_ip ifconfig_strip by metis
  then show False by (simp add: ifconfig_words py_words_def py_space_def)
qed

lemma disable_edit_form:
  assumes "ccd_form dis a t"
  shows "ccd_form d a (set_ccd_disable d t)"
proof -
  obtain m R where R: "splitlines t = head_lines dis a m @ R" "\<forall>l\<in>set R. no_break l \<and> CHR ''#'' \<notin> set (tl l) \<and> word_ok (strip l)"
    using form_lines [OF assms] .
  have "strip ''disable'' = ''disable''" by (simp add: strip_def lstrip_def rstrip_def py_space_def)
  then have f: "filter (\<lambda>l. strip l \<noteq> ''disable'') (splitlines t) = address_line a m # R"
    using R address_not_disable by (auto simp: head_lines_def word_ok_def intro!: filter_True)
  have "set_ccd_disable d t = unlines (head_lines d a m) @ unlines R"
    unfolding set_ccd_disable_def f Let_def by (cases d) (simp_all add: join_unlines head_lines_def)
  then show ?thesis using rest_ok_unlines [OF R(2)] unfolding ccd_form_def by blast
qed

lemma address_edit_form:
  assumes "ccd_form dis a t"
  shows "ccd_form dis a' (snd (replace_ccd_ifconfig_push t (ip_str a') (ip_str m')))"
proof -
  obtain m R where R: "splitlines t = head_lines dis a m @ R" "\<forall>l\<in>set R. no_break l \<and> CHR ''#'' \<notin> set (tl l) \<and> word_ok (strip l)"
    using form_lines [OF assms] .
  have none: "ifconfig_ip l = None" if "l \<in> set R" for l using R(2) that ifconfig_strip by (auto simp: word_ok_def)
  have skip: "replace_ifconfig_lines x True R = R" for x using none by (induction R) auto
  have dis: "ifconfig_ip ''disable'' = None" by (simp add: ifconfig_words py_words_def py_space_def)
  have new: "''ifconfig-push '' @ ip_str a' @ '' '' @ ip_str m' = address_line a' m'" by (simp add: address_line_def)
  have out: "replace_ifconfig_lines (address_line a' m') False (splitlines t) = head_lines dis a' m' @ R"
    using skip address_line_ip dis by (simp add: R(1) head_lines_def)
  have "list_ex (\<lambda>l. ifconfig_ip l \<noteq> None) (splitlines t)" using address_line_ip by (simp add: R(1) head_lines_def)
  then have "snd (replace_ccd_ifconfig_push t (ip_str a') (ip_str m')) = rstrip (join nl (head_lines dis a' m' @ R)) @ nl"
    unfolding replace_ccd_ifconfig_push_def Let_def new out by simp
  also have "\<dots> = rstrip (unlines (head_lines dis a' m') @ unlines R) @ nl"
    using rstrip_snoc [of "CHR 0x0A" "join nl (head_lines dis a' m' @ R)"] join_unlines [of "head_lines dis a' m' @ R"]
    by (simp add: nl_def py_space_def head_lines_def)
  finally show ?thesis using trim_head [OF rest_ok_unlines [OF R(2)], of dis a' m'] unfolding ccd_form_def by metis
qed

section \<open>Properties\<close>

lemma read_text_id: "no_cr t \<Longrightarrow> read_text t = t"
  by (induction t rule: read_text.induct) auto

lemma ccd_form_cr: "ccd_form dis a t \<Longrightarrow> no_cr t"
proof -
  assume "ccd_form dis a t"
  then obtain m r where t: "t = unlines (head_lines dis a m) @ r" "rest_ok r" by (auto simp: ccd_form_def)
  have "l \<in> set (head_lines dis a m) \<Longrightarrow> no_cr l" for l using head_no_break no_break_cr by blast
  then have "no_cr (unlines (head_lines dis a m))" by (auto simp: no_cr_def unlines_def nl_def)
  then show "no_cr t" using t only_nl_cr by (simp add: rest_ok_def)
qed

lemma edit_form:
  assumes "ccd_form dis a t" "edit_ok x"
  shows "case edit_state x (dis, a) of (d', a') \<Rightarrow>
    ccd_form d' a' (case edit_text x (read_text t) of Inl _ \<Rightarrow> t | Inr t' \<Rightarrow> t')"
proof -
  have r: "read_text t = t" by (rule read_text_id [OF ccd_form_cr [OF assms(1)]])
  show ?thesis unfolding r
  proof (cases x)
    case (PeerBlock pid cs)
    then show "case edit_state x (dis, a) of (d', a') \<Rightarrow> ccd_form d' a' (case edit_text x t of Inl _ \<Rightarrow> t | Inr t' \<Rightarrow> t')"
      using peer_edit_form [OF assms(1)] assms by (cases "merge_peer_block_into_ccd t pid cs") auto
  next
    case (MeshRoutes cs)
    then show "case edit_state x (dis, a) of (d', a') \<Rightarrow> ccd_form d' a' (case edit_text x t of Inl _ \<Rightarrow> t | Inr t' \<Rightarrow> t')"
      using mesh_edit_form [OF assms(1)] assms by (cases "merge_mesh_peer_push_routes_into_ccd t cs") auto
  qed (use disable_edit_form [OF assms(1)] address_edit_form [OF assms(1)] in simp_all)
qed

text \<open>C13. Whatever the services do to a client's CCD file after it was written, in any order, with
  edits that fail in between: the file says the client is disabled exactly when it was disabled
  last, and its first fixed address is the one assigned last.  Blocks of peers and of mesh routes
  never change either.  Peer ids are assumed to contain no line break and no \<open>#\<close>.\<close>

theorem ccd_edits_refine:
  assumes "\<forall>x\<in>set edits. edit_ok x"
  shows "case fold edit_state edits (False, a) of (dis, b) \<Rightarrow>
    (let t = run_edits edits (ccd_content (ip_str a) (ip_str m)) in ccd_disabled t = dis \<and> first_ifconfig_ip t = Some (ip_str b))"
proof -
  have run: "case fold edit_state xs (dis, b) of (d', b') \<Rightarrow> ccd_form d' b' (run_edits xs t)"
    if "ccd_form dis b t" "\<forall>x\<in>set xs. edit_ok x" for xs t dis b
    using that
  proof (induction xs arbitrary: t dis b)
    case (Cons x xs)
    obtain d1 b1 where s: "edit_state x (dis, b) = (d1, b1)" by fastforce
    then show ?case using Cons edit_form [OF Cons.prems(1), of x] by simp
  qed simp
  have "ccd_content (ip_str a) (ip_str m) = unlines (head_lines False a m) @ []"
    by (simp add: ccd_content_def head_lines_def address_line_def)
  then have "ccd_form False a (ccd_content (ip_str a) (ip_str m))" unfolding ccd_form_def using rest_ok_Nil by metis
  from run [OF this assms] show ?thesis by (auto simp: Let_def split: prod.splits dest: ccd_form_state)
qed

text \<open>Writing the block of a peer site is an update in place: whatever a first merge wrote, a second
  merge with any networks gives the text it would have given without the first, and removing the
  block restores the text without the block; the block of mesh routes behaves the same.\<close>

theorem ccd_blocks_overwrite:
  "(no_break pid \<longrightarrow> mesh_at_line_start (without_block (peer_begin pid) (peer_end pid) (read_text t)) \<longrightarrow>
      merge_peer_block_into_ccd (read_text t) pid cidrs = Inr new \<longrightarrow>
      merge_peer_block_into_ccd new pid cidrs' = merge_peer_block_into_ccd (read_text t) pid cidrs' \<and>
      strip_peer_block_from_ccd new pid = strip_peer_block_from_ccd (read_text t) pid) \<and>
   (merge_mesh_peer_push_routes_into_ccd (read_text t) cidrs = Inr new \<longrightarrow>
      merge_mesh_peer_push_routes_into_ccd new cidrs' = merge_mesh_peer_push_routes_into_ccd (read_text t) cidrs')"
  using merge_peer_base [OF no_cr_read_text [of t], of pid cidrs new] merge_mesh_base [OF no_cr_read_text [of t], of cidrs new]
  by (simp add: merge_peer_block_into_ccd_def strip_peer_block_from_ccd_def merge_mesh_peer_push_routes_into_ccd_def)

definition sample_edits :: "ccd_edit list" where
  "sample_edits = [PeerBlock ''p1'' [''192.168.7.9/24''], Disable True, MeshRoutes [''10.0.0.0/8'', ''fd00::/8''],
     Address 168296454 4294901760, PeerBlock ''p1'' [''bad''], Disable False]"

theorem ccd_edits_refine_witness:
  "first_ifconfig_ip (run_edits sample_edits (ccd_content ''10.8.0.5'' ''255.255.0.0'')) = Some ''10.8.0.6''"
proof -
  have "\<forall>x\<in>set sample_edits. edit_ok x" by code_simp
  from ccd_edits_refine [OF this, of 168296453 4294901760]
  have "first_ifconfig_ip (run_edits sample_edits (ccd_content (ip_str 168296453) (ip_str 4294901760))) = Some (ip_str 168296454)"
    by (simp add: sample_edits_def Let_def)
  moreover have "ip_str 168296453 = ''10.8.0.5''" "ip_str 4294901760 = ''255.255.0.0''" "ip_str 168296454 = ''10.8.0.6''"
    by code_simp+
  ultimately show ?thesis by simp
qed

theorem ccd_blocks_overwrite_witness:
  "case merge_peer_block_into_ccd (ccd_content ''10.8.0.5'' ''255.255.0.0'') ''p1'' [''192.168.7.0/24''] of
     Inl _ \<Rightarrow> False
   | Inr new \<Rightarrow> strip_peer_block_from_ccd new ''p1'' = Inr (ccd_content ''10.8.0.5'' ''255.255.0.0'')"
proof -
  let ?t = "ccd_content ''10.8.0.5'' ''255.255.0.0''"
  have r: "read_text ?t = ?t" by code_simp
  have "no_break ''p1''" by (simp add: line_break_def)
  moreover have "mesh_at_line_start (without_block (peer_begin ''p1'') (peer_end ''p1'') ?t)" by code_simp
  moreover have "is_ok (merge_peer_block_into_ccd ?t ''p1'' [''192.168.7.0/24''])" by code_simp
  moreover have "strip_peer_block_from_ccd ?t ''p1'' = Inr ?t" by code_simp
  ultimately show ?thesis
    using ccd_blocks_overwrite [of "''p1''" ?t "[''192.168.7.0/24'']"] unfolding r by (auto simp: is_ok_iff split: sum.splits)
qed

end
