(* ===== verification/Peers_Props.thy ===== *)
theory Peers_Props
  imports Peer_Frames Ccd_Props Tags_Props
begin

text \<open>
  Properties of the peer sites: the mesh routes of every user, when a save may skip the refresh of
  the kernel, and what a failed save leaves behind.
\<close>

section \<open>CCD files\<close>

text \<open>Only the CCD files change.\<close>

definition ccd_only :: "'k sys \<Rightarrow> 'k sys \<Rightarrow> bool" where
  "ccd_only st st' \<longleftrightarrow> st' = st\<lparr>s_ccd := s_ccd st'\<rparr> \<and> dom (map_of (s_ccd st')) = dom (map_of (s_ccd st))"

lemma ccd_only_fields: "ccd_only st st' \<Longrightarrow> s_db st' = s_db st \<and> s_mgr st' = s_mgr st \<and> s_prepush st' = s_prepush st \<and> s_audit st' = s_audit st"
  unfolding ccd_only_def by (metis sys.select_convs sys.surjective sys.update_convs(4))

section \<open>Mesh routes\<close>











section \<open>What a client file should hold\<close>



















section \<open>Properties\<close>


subsection \<open>When a save skips the kernel\<close>

lemma v4_networks_all:
  assumes "v4_networks cs = Inr ns" "\<forall>c\<in>set (strip_all cs). ip_network c \<noteq> None"
  shows "map ip_network (strip_all cs) = map Some ns"
proof -
  have "mapM any_network xs = Inr ms \<Longrightarrow> \<forall>c\<in>set xs. ip_network c \<noteq> None \<Longrightarrow>
      map ip_network xs = map Some (List.map_filter id ms)" for xs ms
  proof (induction xs arbitrary: ms)
    case (Cons c xs)
    obtain n where n: "ip_network c = Some n" using Cons.prems(2) by auto
    then have "any_network c = Inr (Some n)" by (simp add: any_network_def)
    then obtain ms' where "mapM any_network xs = Inr ms'" "ms = Some n # ms'"
      using Cons.prems(1) by (auto simp: rbind_Inr_iff)
    then show ?case using Cons n by (simp add: List.map_filter_simps)
  qed (simp add: List.map_filter_simps)
  then show ?thesis using assms by (auto simp: v4_networks_def rbind_Inr_iff)
qed

lemma sorted_unique_covers:
  assumes "sorted_unique_ipv4_cidrs cs = Inr out" "\<forall>c\<in>set (strip_all cs). ip_network c \<noteq> None"
  shows "addrs_in (strip_all cs) a = addrs_in out a" "out = [] \<longleftrightarrow> strip_all cs = []"
proof -
  obtain ns where ns: "v4_networks cs = Inr ns" "out = sort_key cidr_order (dedup (map net_str ns))"
    using assms(1) by (auto simp: sorted_unique_ipv4_cidrs_def rbind_Inr_iff)
  note m = v4_networks_all [OF ns(1) assms(2)]
  have ok: "net_ok n" if "n \<in> set ns" for n
  proof -
    have "Some n \<in> set (map ip_network (strip_all cs))" unfolding m using that by simp
    then show ?thesis using ip_network_ok by auto
  qed
  have "addrs_in (strip_all cs) a \<longleftrightarrow> (\<exists>x\<in>set (map ip_network (strip_all cs)). case x of None \<Rightarrow> False | Some n \<Rightarrow> in_net a n)"
    by (auto simp: addrs_in_iff addr_in_def)
  also have "\<dots> \<longleftrightarrow> (\<exists>n\<in>set ns. in_net a n)" unfolding m by simp
  also have "\<dots> \<longleftrightarrow> addrs_in out a" using ok by (auto simp: addrs_in_iff addr_in_def ns(2) ip_network_str)
  finally show "addrs_in (strip_all cs) a = addrs_in out a" .
  have "length (strip_all cs) = length ns" using arg_cong [OF m, of length] by simp
  moreover have "set out = net_str ` set ns" by (simp add: ns(2))
  ultimately show "out = [] \<longleftrightarrow> strip_all cs = []" by (metis image_is_empty length_0_conv set_empty)
qed

definition same_center_effect :: "peer \<Rightarrow> peer \<Rightarrow> bool" where
  "same_center_effect p q \<longleftrightarrow> (case (center_peer_of p, center_peer_of q) of
     (None, None) \<Rightarrow> True
   | (Some x, Some y) \<Rightarrow> cp_id x = cp_id y \<and> cp_priority x = cp_priority y \<and> cp_extra x = cp_extra y \<and>
       (\<forall>a. addrs_in (cp_cidrs x) a = addrs_in (cp_cidrs y) a)
   | _ \<Rightarrow> False)"

lemma stored_protocol:
  assumes "mk_peer na p0 = Inr p"
  shows "lower (strip (center_forward_protocol p)) = lower_or ''all'' (center_forward_protocol p)" "center_forward_protocol p \<noteq> []"
proof -
  have p: "center_forward_protocol p = center_proto (center_forward_protocol p0)"
    using assms by (auto simp: mk_peer_def rbind_Inr_iff split: if_splits)
  have "strip (center_proto x) = center_proto x \<and> lower (center_proto x) = center_proto x \<and> center_proto x \<noteq> []" for x
  proof -
    have "strip (lower (strip x)) = lower (strip x)" by simp
    moreover have "strip ''all'' = ''all''" "lower ''all'' = ''all''" by code_simp+
    ultimately show ?thesis by (simp add: center_proto_def Let_def)
  qed
  then show "lower (strip (center_forward_protocol p)) = lower_or ''all'' (center_forward_protocol p)" "center_forward_protocol p \<noteq> []"
    unfolding p by (auto simp: lower_or_def Let_def)
qed

text \<open>C15. Skipping the refresh of the kernel when a saved peer has the same fingerprint is sound: two
  validated versions of a peer with IPv4 networks and equal fingerprints hand the same entry to the
  forward chain, with the same priority and matches and the same set of addresses.\<close>

theorem forward_fingerprint_sound:
  assumes "mk_peer na p0 = Inr p" "mk_peer na q0 = Inr q" "p_id p = p_id q"
    and "\<forall>c\<in>set (strip_all (lan_cidrs p)) \<union> set (strip_all (lan_cidrs q)). ip_network c \<noteq> None"
    and "vpn_forward_wire_snapshot p = Inr x" "vpn_forward_wire_snapshot q = Inr x"
  shows "same_center_effect p q"
proof -
  obtain lan where lp: "sorted_unique_ipv4_cidrs (strip_all (lan_cidrs p)) = Inr lan"
    and lq: "sorted_unique_ipv4_cidrs (strip_all (lan_cidrs q)) = Inr lan"
    and same: "center_forward_enabled p = center_forward_enabled q" "center_forward_priority p = center_forward_priority q"
      "lower_or ''all'' (center_forward_protocol p) = lower_or ''all'' (center_forward_protocol q)"
      "strip (center_forward_dest_ip p) = strip (center_forward_dest_ip q)"
      "strip (center_forward_dest_port p) = strip (center_forward_dest_port q)"
      "strip (center_forward_rule_description p) = strip (center_forward_rule_description q)"
    using assms(5,6) by (auto simp: vpn_forward_wire_snapshot_def lan_fingerprint_def rbind_Inr_iff)
  have v: "\<forall>c\<in>set (strip_all (strip_all (lan_cidrs p))). ip_network c \<noteq> None"
    "\<forall>c\<in>set (strip_all (strip_all (lan_cidrs q))). ip_network c \<noteq> None" using assms(4) by auto
  note cp = sorted_unique_covers [OF lp v(1)] and cq = sorted_unique_covers [OF lq v(2)]
  have cover: "addrs_in (strip_all (lan_cidrs p)) a = addrs_in (strip_all (lan_cidrs q)) a" for a
    using cp(1) [of a] cq(1) [of a] by simp
  have empty: "strip_all (lan_cidrs p) = [] \<longleftrightarrow> strip_all (lan_cidrs q) = []" using cp(2) cq(2) by simp
  have proto: "lower (strip (center_forward_protocol p)) = lower (strip (center_forward_protocol q))"
    using stored_protocol(1) assms(1,2) same(3) by metis
  show ?thesis
    using assms(3) same empty proto cover stored_protocol(2) [OF assms(1)] stored_protocol(2) [OF assms(2)]
    by (auto simp: same_center_effect_def center_peer_of_def)
qed

section \<open>Witnesses\<close>


theorem forward_fingerprint_sound_witness:
  "same_center_effect (demo_peer [''192.168.7.0/24'', ''10.0.0.0/8'']) (demo_peer [''10.0.0.0/8'', ''192.168.7.9/24''])"
proof -
  have m: "case mk_peer netaddr_ref (demo_peer [''192.168.7.0/24'', ''10.0.0.0/8'']) of Inr p \<Rightarrow> p = demo_peer [''192.168.7.0/24'', ''10.0.0.0/8''] | Inl _ \<Rightarrow> False"
    "case mk_peer netaddr_ref (demo_peer [''10.0.0.0/8'', ''192.168.7.9/24'']) of Inr p \<Rightarrow> p = demo_peer [''10.0.0.0/8'', ''192.168.7.9/24''] | Inl _ \<Rightarrow> False"
    by code_simp+
  have v: "\<forall>c\<in>set (strip_all (lan_cidrs (demo_peer [''192.168.7.0/24'', ''10.0.0.0/8'']))) \<union>
      set (strip_all (lan_cidrs (demo_peer [''10.0.0.0/8'', ''192.168.7.9/24'']))). ip_network c \<noteq> None" by code_simp
  have "case vpn_forward_wire_snapshot (demo_peer [''192.168.7.0/24'', ''10.0.0.0/8'']) of Inr x \<Rightarrow>
      vpn_forward_wire_snapshot (demo_peer [''10.0.0.0/8'', ''192.168.7.9/24'']) = Inr x | Inl _ \<Rightarrow> False" by code_simp
  then obtain x where "vpn_forward_wire_snapshot (demo_peer [''192.168.7.0/24'', ''10.0.0.0/8'']) = Inr x"
    "vpn_forward_wire_snapshot (demo_peer [''10.0.0.0/8'', ''192.168.7.9/24'']) = Inr x" by (auto split: sum.splits)
  then show ?thesis using m v
    by (intro forward_fingerprint_sound [of netaddr_ref "demo_peer [''192.168.7.0/24'', ''10.0.0.0/8'']" _
        "demo_peer [''10.0.0.0/8'', ''192.168.7.9/24'']" _ x]) (auto simp: demo_peer_def split: sum.splits)
qed

end
