(* ===== verification/Rules.thy ===== *)
theory Rules
  imports Peers
begin

text \<open>
  \<open>app/services/firewall/rule_service.py\<close>: the rules of the centre.  Every change keeps a snapshot
  of the owner's rules in \<open>_prepush_snapshots\<close>, writes the store, refreshes VPN_FORWARD and puts the
  snapshot back when the refresh raises.
\<close>

section \<open>Checks before a rule is stored\<close>

definition validate_json_rule_addr_fields :: "netaddr \<Rightarrow> rule \<Rightarrow> unit res" where
  "validate_json_rule_addr_fields na r =
     rbind (iterM (validate_iptables_addr_or_cidr na) (comma_tokens (strip (opt_str (dest_ip r))))) (\<lambda>_.
     iterM (validate_iptables_addr_or_cidr na) (strip_all (case source_ips r of None \<Rightarrow> [] | Some l \<Rightarrow> l)))"

text \<open>The checks \<open>create\<close>, \<open>create_many\<close> and \<open>update_by_id\<close> begin with.\<close>

definition checked_rule :: "netaddr \<Rightarrow> rule \<Rightarrow> rule res" where
  "checked_rule na r =
     (if opt_str (source_subnet r) \<noteq> [] \<and> \<not> validate_cidr na (opt_str (source_subnet r))
      then Inl (ValueError ''bad source subnet'')
      else rbind (mk_rule r) (\<lambda>r'. rbind (validate_json_rule_addr_fields na r') (\<lambda>_. Inr r')))"

definition all_priorities :: "db \<Rightarrow> int list" where
  "all_priorities d = map priority (list_firewall_rules d)"

section \<open>Snapshots\<close>

definition load_owner_rules :: "string \<Rightarrow> db \<Rightarrow> rule list" where
  "load_owner_rules oid d = get_firewall_owner oid d"

definition save_rules :: "string \<Rightarrow> rule list \<Rightarrow> ('k sys, unit) stact" where
  "save_rules oid rs = store_write (replace_firewall_owner oid rs)"

definition backup_center_rules_before_mutation :: "string \<Rightarrow> ('k sys, unit) stact" where
  "backup_center_rules_before_mutation oid st =
     ret () (st\<lparr>s_prepush := AList.update oid (load_owner_rules oid (s_db st)) (s_prepush st)\<rparr>)"

definition clear_center_prepush_backup :: "string \<Rightarrow> ('k sys, unit) stact" where
  "clear_center_prepush_backup oid st = ret () (st\<lparr>s_prepush := AList.delete oid (s_prepush st)\<rparr>)"

definition rollback_center_json_after_rebuild_fail :: "string \<Rightarrow> bool \<Rightarrow> ('k sys, unit) stact" where
  "rollback_center_json_after_rebuild_fail oid had_main_before st =
     (let snapshot = (case map_of (s_prepush st) oid of Some rs \<Rightarrow> rs
         | None \<Rightarrow> if \<not> had_main_before then [] else load_owner_rules oid (s_db st))
      in save_rules oid snapshot (st\<lparr>s_prepush := AList.delete oid (s_prepush st)\<rparr>))"

definition rollback_center_json_owners :: "(string \<times> bool) list \<Rightarrow> ('k sys, unit) stact" where
  "rollback_center_json_owners owners = for_each (\<lambda>(oid, had). rollback_center_json_after_rebuild_fail oid had) owners"

definition backup_if :: "bool \<Rightarrow> string \<Rightarrow> ('k sys, unit) stact" where
  "backup_if had oid = (if had then backup_center_rules_before_mutation oid else ret ())"

definition clear_if :: "bool \<Rightarrow> string \<Rightarrow> ('k sys, unit) stact" where
  "clear_if had oid = (if had then clear_center_prepush_backup oid else ret ())"

text \<open>Write the owner's rules, refresh, or roll back and raise again.\<close>

definition push_rules :: "'k world \<Rightarrow> string \<Rightarrow> bool \<Rightarrow> rule list \<Rightarrow> ('k sys, unit) stact" where
  "push_rules w oid had rs = andthen
     (guarded (save_rules oid rs) (refresh_forward w) (rollback_center_json_after_rebuild_fail oid had))
     (\<lambda>_. clear_if had oid)"

definition guarded_save :: "'k world \<Rightarrow> string \<Rightarrow> rule list \<Rightarrow> ('k sys, unit) stact" where
  "guarded_save w oid rs st =
     (let had = firewall_owner_exists oid (s_db st)
      in andthen (backup_if had oid) (\<lambda>_. push_rules w oid had rs) st)"

section \<open>Creating rules\<close>

text \<open>\<open>given\<close> tells whether the request names an \<open>id\<close>.\<close>

definition rule_create :: "'k world \<Rightarrow> bool \<Rightarrow> rule \<Rightarrow> bool \<Rightarrow> ('k sys, rule) stact" where
  "rule_create w given data refresh_kernel st =
     andthen (of_res (checked_rule (w_na w) (if given then data else data\<lparr>rule_id := w_uuid w 0\<rparr>))) (\<lambda>r.
     (let oid = owner_id r; existing = load_owner_rules oid (s_db st); had = firewall_owner_exists oid (s_db st) in
      andthen (backup_if had oid) (\<lambda>_.
      if priority r \<in> set (all_priorities (s_db st)) then throw (ValueError ''priority in use'')
      else andthen (if refresh_kernel then push_rules w oid had (existing @ [r]) else save_rules oid (existing @ [r])) (\<lambda>_.
        andthen (audit ''create_firewall_rule'' ''firewall_rule'' (rule_id r) ''success'') (\<lambda>_. ret r))))) st"

text \<open>The validation loop of \<open>create_many\<close>: the owner is that of the first rule, priorities differ.\<close>

fun check_payloads :: "'k world \<Rightarrow> nat \<Rightarrow> string \<Rightarrow> int list \<Rightarrow> (bool \<times> rule) list \<Rightarrow> (string \<times> rule list) res" where
  "check_payloads w n oid pris [] = Inr (oid, [])"
| "check_payloads w n oid pris ((given, data) # ps) =
     rbind (checked_rule (w_na w) (if given then data else data\<lparr>rule_id := w_uuid w n\<rparr>)) (\<lambda>r.
     if oid \<noteq> [] \<and> oid \<noteq> owner_id r then Inl (ValueError ''several owners'')
     else if priority r \<in> set pris then Inl (ValueError ''priority repeated'')
     else rbind (check_payloads w (n + 1) (if oid = [] then owner_id r else oid) (priority r # pris) ps) (\<lambda>(oid', rs).
       Inr (oid', r # rs)))"

definition rule_create_many :: "'k world \<Rightarrow> (bool \<times> rule) list \<Rightarrow> ('k sys, rule list) stact" where
  "rule_create_many w payloads st =
     (if payloads = [] then throw (ValueError ''empty batch'') st
      else andthen (of_res (check_payloads w 0 [] [] payloads)) (\<lambda>(oid, rs).
        (let existing = load_owner_rules oid (s_db st); had = firewall_owner_exists oid (s_db st) in
         if list_ex (\<lambda>r. rule_id r \<in> set (map rule_id existing)) rs then throw (ValueError ''id stored already'')
         else if list_ex (\<lambda>r. priority r \<in> set (all_priorities (s_db st))) rs then throw (ValueError ''priority in use'')
         else andthen (backup_if had oid) (\<lambda>_. andthen (push_rules w oid had (existing @ rs)) (\<lambda>_.
           andthen (audit ''create_firewall_rules_batch'' ''firewall_rule'' oid ''success'') (\<lambda>_. ret rs))))) st)"

section \<open>Changing a rule\<close>

definition index_of :: "('a \<Rightarrow> bool) \<Rightarrow> 'a list \<Rightarrow> nat option" where
  "index_of P xs = find (\<lambda>i. P (xs ! i)) [0..<length xs]"

text \<open>\<open>data\<close> sets some of the fields: it is a function on the stored rule.\<close>

definition rule_update_by_id :: "'k world \<Rightarrow> string \<Rightarrow> (rule \<Rightarrow> rule) \<Rightarrow> ('k sys, rule) stact" where
  "rule_update_by_id w rid data st =
     (case find_firewall_rule_owner rid (s_db st) of
        (None, _) \<Rightarrow> throw (ValueError ''no such rule'') st
      | (Some oid, rules) \<Rightarrow>
          (case index_of (\<lambda>r. rule_id r = rid) rules of
             None \<Rightarrow> throw (ValueError ''no such rule'') st
           | Some idx \<Rightarrow>
               andthen (of_res (checked_rule (w_na w) ((data (rules ! idx))\<lparr>rule_id := rid\<rparr>))) (\<lambda>r.
               if priority r \<in> set (map priority (filter (\<lambda>x. rule_id x \<noteq> rid) (list_firewall_rules (s_db st))))
               then throw (ValueError ''priority in use'')
               else andthen (guarded_save w oid (rules[idx := r])) (\<lambda>_.
                 andthen (audit ''update_firewall_rule'' ''firewall_rule'' rid ''success'') (\<lambda>_. ret r))) st))"

section \<open>Order\<close>

text \<open>
  The priority a rule gets is that of its last position in the list: the loop changes the one
  stored object each time it meets the id.
\<close>

definition last_position :: "string \<Rightarrow> string list \<Rightarrow> nat" where
  "last_position rid order = length order - 1 - length (takeWhile (\<lambda>x. x \<noteq> rid) (rev order))"

definition step_priority :: "string list \<Rightarrow> string \<Rightarrow> int" where
  "step_priority order rid = int ((last_position rid order + 1) * 10)"

definition rule_by_id :: "rule list \<Rightarrow> string \<Rightarrow> rule option" where
  "rule_by_id rules rid = find (\<lambda>r. rule_id r = rid) (rev rules)"

definition reordered_rules :: "string \<Rightarrow> string list \<Rightarrow> rule list \<Rightarrow> rule list" where
  "reordered_rules now order rules =
     List.map_filter (\<lambda>rid. map_option (\<lambda>r. r\<lparr>priority := step_priority order rid, r_updated_at := now\<rparr>)
       (rule_by_id rules rid)) order
     @ filter (\<lambda>r. rule_id r \<notin> set order) rules"

definition rule_reorder_owner :: "'k world \<Rightarrow> string \<Rightarrow> string list \<Rightarrow> ('k sys, bool) stact" where
  "rule_reorder_owner w oid order st =
     andthen (guarded_save w oid (reordered_rules (w_now w) order (load_owner_rules oid (s_db st)))) (\<lambda>_.
     andthen (audit ''reorder_firewall_rules'' ''firewall_rule'' oid ''success'') (\<lambda>_. ret True)) st"

subsection \<open>All rules together with the peers\<close>

definition ce_peer_rule_prefix :: string where
  "ce_peer_rule_prefix = ''ce-peer-''"

record virtual_rule =
  v_id :: string
  v_peer_id :: string
  v_priority :: int
  v_description :: string
  v_tag_line :: string
  v_enabled :: bool
  v_protocol :: string
  v_source_subnet :: string
  v_dest_ip :: "string option"
  v_dest_port :: "string option"

definition center_peer_virtual_rule :: "peer \<Rightarrow> virtual_rule option" where
  "center_peer_virtual_rule p = (let pid = strip (p_id p); lan = strip_all (lan_cidrs p) in
     if pid = [] \<or> lan = [] then None
     else Some \<lparr>v_id = ce_peer_rule_prefix @ pid, v_peer_id = pid, v_priority = center_forward_priority p,
       v_description = strip (center_forward_rule_description p),
       v_tag_line = replace_char (CHR 0x22) (CHR 0x27) (take 256 (''ovpn-mgmt-center-peer peer='' @ pid)),
       v_enabled = center_forward_enabled p,
       v_protocol = (let s = strip (if center_forward_protocol p = [] then ''all'' else center_forward_protocol p)
         in if s = [] then ''all'' else s),
       v_source_subnet = join '','' lan,
       v_dest_ip = str_opt (strip (center_forward_dest_ip p)),
       v_dest_port = str_opt (strip (center_forward_dest_port p))\<rparr>)"

datatype flat_row = JsonRow rule | PeerRow virtual_rule

fun row_id :: "flat_row \<Rightarrow> string" where
  "row_id (JsonRow r) = rule_id r"
| "row_id (PeerRow v) = v_id v"

fun row_priority :: "flat_row \<Rightarrow> int" where
  "row_priority (JsonRow r) = priority r"
| "row_priority (PeerRow v) = v_priority v"

definition list_unified_flat :: "db \<Rightarrow> flat_row list" where
  "list_unified_flat d = sort_key (\<lambda>x. (row_priority x, row_id x))
     (map JsonRow (list_firewall_rules d) @ List.map_filter (\<lambda>p. map_option PeerRow (center_peer_virtual_rule p)) (list_peers d))"

definition row_by_id :: "flat_row list \<Rightarrow> string \<Rightarrow> flat_row option" where
  "row_by_id rows rid = find (\<lambda>x. row_id x = rid) (rev rows)"

text \<open>The rules in their new order with their new priorities, then the rules left out.\<close>

definition global_rules :: "string \<Rightarrow> string list \<Rightarrow> flat_row list \<Rightarrow> rule list" where
  "global_rules now order rows =
     List.map_filter (\<lambda>rid. case row_by_id rows rid of
        Some (JsonRow r) \<Rightarrow> Some (r\<lparr>priority := step_priority order rid, r_updated_at := now\<rparr>) | _ \<Rightarrow> None) order
     @ List.map_filter (\<lambda>x. case x of JsonRow r \<Rightarrow> if rule_id r \<in> set order then None else Some r | PeerRow _ \<Rightarrow> None) rows"

definition by_owner :: "rule list \<Rightarrow> (string \<times> rule list) list" where
  "by_owner rs = map (\<lambda>oid. (oid, filter (\<lambda>r. owner_id r = oid) rs)) (filter (\<lambda>oid. oid \<noteq> []) (dedup (map owner_id rs)))"

definition patch_peer_order :: "'k world \<Rightarrow> flat_row list \<Rightarrow> string list \<Rightarrow> ('k sys, unit) stact" where
  "patch_peer_order w rows order = for_each (\<lambda>rid. case row_by_id rows rid of
       Some (PeerRow v) \<Rightarrow> patch_center_forward_priority w (v_peer_id v) (step_priority order rid)
     | _ \<Rightarrow> ret ()) (dedup order)"

definition reorder_unified_global :: "'k world \<Rightarrow> string list \<Rightarrow> ('k sys, bool) stact" where
  "reorder_unified_global w order st =
     (let rows = list_unified_flat (s_db st); groups = by_owner (global_rules (w_now w) order rows) in
      andthen (patch_peer_order w rows order) (\<lambda>_ st1.
        (let owners = map (\<lambda>(oid, rs). (oid, firewall_owner_exists oid (s_db st1))) groups in
         andthen (for_each (\<lambda>(oid, had). backup_if had oid) owners) (\<lambda>_.
         andthen (guarded (for_each (\<lambda>(oid, rs). save_rules oid rs) groups) (refresh_forward w)
            (rollback_center_json_owners owners)) (\<lambda>_.
         andthen (for_each (\<lambda>(oid, had). clear_if had oid) owners) (\<lambda>_.
         andthen (audit ''reorder_firewall_rules'' ''firewall_rule'' ''global'' ''success'') (\<lambda>_. ret True)))) st1)) st)"

definition rule_reorder :: "'k world \<Rightarrow> string \<Rightarrow> string list \<Rightarrow> ('k sys, bool) stact" where
  "rule_reorder w oid order = (if strip oid = [] then reorder_unified_global w order else rule_reorder_owner w oid order)"

section \<open>Deleting and switching\<close>

definition rule_delete :: "'k world \<Rightarrow> string \<Rightarrow> ('k sys, bool) stact" where
  "rule_delete w rid st =
     (if starts_with rid ce_peer_rule_prefix
      then andthen (peer_update w (drop (length ce_peer_rule_prefix) rid) (\<lambda>p. p\<lparr>lan_cidrs := []\<rparr>) False) (\<lambda>_.
        andthen (refresh_forward w) (\<lambda>_.
        andthen (audit ''delete_firewall_rule'' ''firewall_rule'' rid ''success'') (\<lambda>_. ret True))) st
      else (case find_firewall_rule_owner rid (s_db st) of
          (None, _) \<Rightarrow> throw (ValueError ''no such rule'') st
        | (Some oid, rules) \<Rightarrow> andthen (guarded_save w oid (filter (\<lambda>r. rule_id r \<noteq> rid) rules)) (\<lambda>_.
            andthen (audit ''delete_firewall_rule'' ''firewall_rule'' rid ''success'') (\<lambda>_. ret True)) st))"

text \<open>The first rule with the id is changed, then the loop stops.\<close>

fun set_first_enabled :: "string \<Rightarrow> bool \<Rightarrow> string \<Rightarrow> rule list \<Rightarrow> rule list" where
  "set_first_enabled rid en now [] = []"
| "set_first_enabled rid en now (r # rs) =
     (if rule_id r = rid then r\<lparr>enabled := en, r_updated_at := now\<rparr> # rs else r # set_first_enabled rid en now rs)"

definition rule_set_enabled :: "'k world \<Rightarrow> string \<Rightarrow> bool \<Rightarrow> ('k sys, bool) stact" where
  "rule_set_enabled w rid en st =
     (if starts_with rid ce_peer_rule_prefix
      then andthen (patch_center_forward_enabled w (drop (length ce_peer_rule_prefix) rid) en) (\<lambda>_.
        andthen (audit ''toggle_firewall_rule'' ''firewall_rule'' rid ''success'') (\<lambda>_. ret True)) st
      else (case find_firewall_rule_owner rid (s_db st) of
          (None, _) \<Rightarrow> throw (ValueError ''no such rule'') st
        | (Some oid, rules) \<Rightarrow> andthen (guarded_save w oid (set_first_enabled rid en (w_now w) rules)) (\<lambda>_.
            andthen (audit ''toggle_firewall_rule'' ''firewall_rule'' rid ''success'') (\<lambda>_. ret True)) st))"

section \<open>Backup and restore\<close>

text \<open>
  The JSON document as a value: \<open>json.dumps\<close> and \<open>json.loads\<close> are not modelled.  A field of an
  item is \<open>None\<close> when the key is missing.
\<close>

record backup_peer =
  bp_id :: string
  bp_name :: string
  bp_lan :: "string list"
  bp_priority :: "int option"
  bp_enabled :: "bool option"
  bp_dest_ip :: "string option"
  bp_dest_port :: "string option"
  bp_protocol :: "string option"
  bp_description :: "string option"

record backup_data =
  bk_rules :: "(string \<times> rule list) list option"
  bk_peers :: "backup_peer list option"

definition backup_peer_of :: "peer \<Rightarrow> backup_peer option" where
  "backup_peer_of p = (if strip (p_id p) = [] then None else
     Some \<lparr>bp_id = strip (p_id p), bp_name = p_name p, bp_lan = strip_all (lan_cidrs p),
       bp_priority = Some (center_forward_priority p), bp_enabled = Some (center_forward_enabled p),
       bp_dest_ip = Some (strip (center_forward_dest_ip p)), bp_dest_port = Some (strip (center_forward_dest_port p)),
       bp_protocol = Some (let s = strip (if center_forward_protocol p = [] then ''all'' else center_forward_protocol p)
         in if s = [] then ''all'' else s),
       bp_description = Some (strip (center_forward_rule_description p))\<rparr>)"

definition rule_backup_data :: "db \<Rightarrow> backup_data" where
  "rule_backup_data d = \<lparr>bk_rules = Some (map (\<lambda>oid. (oid, load_owner_rules oid d)) (list_firewall_owner_ids d)),
     bk_peers = Some (List.map_filter backup_peer_of (list_peers d))\<rparr>"

definition rule_backup :: "('k sys, backup_data) stact" where
  "rule_backup st = andthen (audit ''backup_firewall_rules'' ''firewall'' ''all'' ''success'') (\<lambda>_.
     ret (rule_backup_data (s_db st))) st"

text \<open>\<open>FirewallRule(**r)\<close> decides which rules are kept.\<close>

definition valid_rules :: "rule list \<Rightarrow> rule list" where
  "valid_rules rs = List.map_filter (\<lambda>r. case mk_rule r of Inl _ \<Rightarrow> None | Inr r' \<Rightarrow> Some r') rs"

definition patch_from_backup :: "backup_peer \<Rightarrow> peer \<Rightarrow> peer" where
  "patch_from_backup b cur =
     (let str = (\<lambda>new old. case new of None \<Rightarrow> old | Some s \<Rightarrow> strip s);
          pri = (case bp_priority b of Some n \<Rightarrow> if n \<noteq> 0 then n else if center_forward_priority cur \<noteq> 0
                   then center_forward_priority cur else 500000
                 | None \<Rightarrow> if center_forward_priority cur \<noteq> 0 then center_forward_priority cur else 500000);
          proto = (case bp_protocol b of None \<Rightarrow> center_forward_protocol cur
                   | Some s \<Rightarrow> if strip s = [] then ''all'' else strip s);
          nm = strip (bp_name b)
      in cur\<lparr>lan_cidrs := strip_all (bp_lan b), center_forward_priority := pri,
         center_forward_enabled := (case bp_enabled b of None \<Rightarrow> center_forward_enabled cur | Some e \<Rightarrow> e),
         center_forward_dest_ip := str (bp_dest_ip b) (center_forward_dest_ip cur),
         center_forward_dest_port := str (bp_dest_port b) (center_forward_dest_port cur),
         center_forward_protocol := proto,
         center_forward_rule_description := str (bp_description b) (center_forward_rule_description cur),
         p_name := (if nm = [] then p_name cur else nm)\<rparr>)"

text \<open>The peers of a backup; a peer that no longer exists is skipped, a failed update ends the loop.\<close>

definition restore_peers :: "'k world \<Rightarrow> backup_peer list \<Rightarrow> ('k sys, unit) stact" where
  "restore_peers w items = for_each (\<lambda>b st. (let pid = strip (bp_id b) in
     if pid = [] \<or> get_peer pid (s_db st) = None then ret () st
     else andthen (peer_update w pid (patch_from_backup b) False) (\<lambda>_. ret ()) st)) items"

definition rule_restore :: "'k world \<Rightarrow> backup_data option \<Rightarrow> ('k sys, bool) stact" where
  "rule_restore w doc st = (case doc of
     None \<Rightarrow> ret False st
   | Some data \<Rightarrow> (case bk_rules data of
       None \<Rightarrow> ret False st
     | Some owners \<Rightarrow>
         (let items = (case bk_peers data of None \<Rightarrow> [] | Some l \<Rightarrow> l);
              flags = map (\<lambda>(oid, rs). (oid, firewall_owner_exists oid (s_db st))) owners in
          if owners = [] \<and> items = [] then ret False st
          else andthen (for_each (\<lambda>(oid, had). backup_if had oid) flags) (\<lambda>_.
            andthen (for_each (\<lambda>(oid, rs). save_rules oid (valid_rules rs)) owners) (\<lambda>_.
            andthen (handle (andthen (restore_peers w items) (\<lambda>_. ret True)) (\<lambda>_. ret False)) (\<lambda>peers_ok.
            if \<not> peers_ok then ret False
            else andthen (handle (andthen (refresh_forward w) (\<lambda>_. ret True))
                   (\<lambda>_. andthen (rollback_center_json_owners flags) (\<lambda>_. ret False))) (\<lambda>ok.
              if \<not> ok then ret False
              else andthen (for_each (\<lambda>(oid, had). clear_if had oid) flags) (\<lambda>_.
                andthen (audit ''restore_firewall_rules'' ''firewall'' ''all'' ''success'') (\<lambda>_. ret True)))))) st)))"

definition list_by_owner :: "string \<Rightarrow> db \<Rightarrow> rule list" where
  "list_by_owner oid d = sort_key priority (load_owner_rules oid d)"

definition list_all_flat :: "db \<Rightarrow> (rule \<times> string) list" where
  "list_all_flat d = map (\<lambda>r. (r, owner_id r)) (list_firewall_rules d)"

end
