(* ===== verification/Rules_Laws.thy ===== *)
theory Rules_Laws
  imports Rules Tags_Laws
begin

text \<open>
  Laws of the rule service: what a write of an owner's rules does to the table, that the snapshot
  undoes it, and the operations as one type of requests.
\<close>

section \<open>Writing an owner's rules\<close>

lemma load_rules_rows:
  "load_owner_rules oid d = map fr_payload (sort_key (\<lambda>r. (fr_priority r, fr_id r)) (filter (\<lambda>r. fr_owner_id r = oid) (db_rules d)))"
  by (simp add: load_owner_rules_def get_firewall_owner_def)

lemma rows_of_payloads:
  assumes "list_all fw_row_ok rows" "\<forall>r\<in>set rows. fr_owner_id r = oid"
  shows "mapM (firewall_values oid) (map fr_payload rows) = Inr rows"
  using assms by (induction rows) (auto simp: fw_row_ok_def)

lemma db_rules_ok: "db_ok d \<Longrightarrow> distinct (map fr_id (db_rules d)) \<and> list_all fw_row_ok (db_rules d)"
  by (simp add: db_ok_def rules_ok_def tbl_ok_def)

lemma loaded_rules:
  assumes "db_ok d" "r \<in> set (load_owner_rules oid d)"
  shows "owner_id r = oid \<and> (\<exists>row\<in>set (db_rules d). fr_payload row = r \<and> fr_id row = strip (rule_id r) \<and>
    fr_priority row = priority r \<and> fr_owner_id row = oid)"
proof -
  obtain row where row: "row \<in> set (db_rules d)" "fr_owner_id row = oid" "fr_payload row = r"
    using assms(2) by (auto simp: load_rules_rows)
  then have "fw_row_ok row" using db_rules_ok [OF assms(1)] by (simp add: list_all_iff)
  then show ?thesis using fw_row_okD row by metis
qed

lemma undo_rules:
  assumes "db_ok d" "replace_firewall_owner oid rs d = Inr d1" "\<forall>r\<in>set rs. owner_id r = oid \<or> owner_id r = []"
    and "db_rules u = db_rules d1" "u\<lparr>db_rules := []\<rparr> = d1\<lparr>db_rules := []\<rparr>"
  shows "\<exists>d2. replace_firewall_owner oid (load_owner_rules oid d) u = Inr d2 \<and> db_view d2 = db_view d"
proof -
  let ?own = "sort_key (\<lambda>r. (fr_priority r, fr_id r)) (filter (\<lambda>r. fr_owner_id r = oid) (db_rules d))"
  obtain rows where rows: "mapM (firewall_values oid) rs = Inr rows"
    and d1: "d1 = d\<lparr>db_rules := filter (\<lambda>x. fr_owner_id x \<noteq> oid) (db_rules d) @ rows\<rparr>"
    using assms(2) by (auto simp: replace_firewall_owner_iff)
  have own: "fr_owner_id row = oid" if "row \<in> set rows" for row
    using mapM_mem [OF rows that] firewall_values_InrD(3) assms(3) by fastforce
  have rest: "filter (\<lambda>x. fr_owner_id x \<noteq> oid) (db_rules u) = filter (\<lambda>x. fr_owner_id x \<noteq> oid) (db_rules d)"
    using own by (simp add: assms(4) d1 filter_empty_conv)
  note ok = db_rules_ok [OF assms(1)]
  have m: "mapM (firewall_values oid) (load_owner_rules oid d) = Inr ?own"
    unfolding load_rules_rows using ok by (intro rows_of_payloads) (auto simp: list_all_iff)
  have inj: "inj_on fr_id (set (db_rules d))" and dis: "distinct (db_rules d)" using ok by (auto simp: distinct_map)
  have "mset (map fr_id ?own) = mset (map fr_id (filter (\<lambda>r. fr_owner_id r = oid) (db_rules d)))" by simp
  then have dis_own: "distinct (map fr_id ?own)" using ok distinct_map_filter' mset_eq_imp_distinct_iff by metis
  have apart: "fr_id ` set ?own \<inter> fr_id ` {x \<in> set (db_rules d). fr_owner_id x \<noteq> oid} = {}"
    using inj by (auto simp: inj_on_def)
  let ?d2 = "u\<lparr>db_rules := filter (\<lambda>x. fr_owner_id x \<noteq> oid) (db_rules d) @ ?own\<rparr>"
  have same: "set (filter (\<lambda>x. fr_owner_id x \<noteq> oid) (db_rules u)) = {x \<in> set (db_rules d). fr_owner_id x \<noteq> oid}"
    unfolding rest by auto
  then have "{x \<in> set (db_rules u). fr_owner_id x \<noteq> oid} = {x \<in> set (db_rules d). fr_owner_id x \<noteq> oid}" by simp
  then have "replace_firewall_owner oid (load_owner_rules oid d) u = Inr ?d2"
    unfolding replace_firewall_owner_iff rest using m dis_own apart by auto
  moreover have "db_view ?d2 = db_view d"
  proof -
    have "u\<lparr>db_rules := []\<rparr> = d\<lparr>db_rules := []\<rparr>" using assms(5) by (simp add: d1)
    then have f: "db_user_tags u = db_user_tags d" "db_group_tags u = db_group_tags d"
        "u\<lparr>db_rules := [], db_user_tags := [], db_group_tags := []\<rparr> = d\<lparr>db_rules := [], db_user_tags := [], db_group_tags := []\<rparr>"
      by (metis db.select_convs(8) db.update_convs(6) db.surjective, metis db.select_convs(9) db.update_convs(6) db.surjective,
          metis)
    then show ?thesis by (auto simp: db_view_def)
  qed
  ultimately show ?thesis by blast
qed

section \<open>Snapshots\<close>

text \<open>A snapshot is kept only for an owner that has rules.\<close>

definition prepush_ok :: "'k sys \<Rightarrow> bool" where
  "prepush_ok st \<longleftrightarrow> (\<forall>oid. map_of (s_prepush st) oid \<noteq> None \<longrightarrow> firewall_owner_exists oid (s_db st))"

lemma save_rules_Some:
  "save_rules oid rs st = Some (r, st') \<longleftrightarrow>
   (\<exists>e. replace_firewall_owner oid rs (s_db st) = Inl e \<and> r = Inl e \<and> st' = st) \<or>
   (\<exists>d. replace_firewall_owner oid rs (s_db st) = Inr d \<and> r = Inr () \<and> st' = st\<lparr>s_db := d\<rparr>)"
  by (simp add: save_rules_def store_write_Some)

lemma refresh_forward_fields:
  "refresh_forward w st = Some (r, st') \<Longrightarrow> s_db st' = s_db st \<and> s_prepush st' = s_prepush st \<and> s_ccd st' = s_ccd st \<and> s_audit st' = s_audit st"
  using keepsD [OF refresh_forward_kernel_only] kernel_only_fields by blast

text \<open>The state in which the rules of an owner are pushed: the snapshot is the present rules.\<close>

definition armed :: "string \<Rightarrow> bool \<Rightarrow> 'k sys \<Rightarrow> bool" where
  "armed oid had st \<longleftrightarrow> db_ok (s_db st) \<and> had = firewall_owner_exists oid (s_db st) \<and>
     map_of (s_prepush st) oid = (if had then Some (load_owner_rules oid (s_db st)) else None)"

lemma owner_absent: "\<not> firewall_owner_exists oid d \<Longrightarrow> load_owner_rules oid d = []"
  by (simp add: firewall_owner_exists_def load_rules_rows list_ex_iff filter_empty_conv)

interpretation rule_push: guarded_update
    "\<lambda>st :: 'k sys. armed oid had st \<and> (\<forall>r\<in>set rs. owner_id r = oid \<or> owner_id r = [])"
    "\<lambda>st. db_view (s_db st)" "\<lambda>st. (s_db st, s_prepush st)"
    "save_rules oid rs" "refresh_forward w" "rollback_center_json_after_rebuild_fail oid had"
  for w :: "'k world" and oid had rs
proof unfold_locales
  fix s t u v :: "'k sys" and r e
  assume pre: "armed oid had s \<and> (\<forall>r\<in>set rs. owner_id r = oid \<or> owner_id r = [])"
  show "save_rules oid rs s = Some (Inl e, t) \<Longrightarrow> db_view (s_db t) = db_view (s_db s)"
    by (auto simp: save_rules_Some)
  assume ch: "save_rules oid rs s = Some (Inr (), t)" and m: "(s_db u, s_prepush u) = (s_db t, s_prepush t)"
    and un: "rollback_center_json_after_rebuild_fail oid had u = Some (r, v)"
  obtain d where d: "replace_firewall_owner oid rs (s_db s) = Inr d" "t = s\<lparr>s_db := d\<rparr>" using ch by (auto simp: save_rules_Some)
  have "(case map_of (s_prepush u) oid of Some rs \<Rightarrow> rs | None \<Rightarrow> if \<not> had then [] else load_owner_rules oid (s_db u)) =
      load_owner_rules oid (s_db s)"
    using pre m d(2) owner_absent by (auto simp: armed_def)
  then have "save_rules oid (load_owner_rules oid (s_db s)) (u\<lparr>s_prepush := AList.delete oid (s_prepush u)\<rparr>) = Some (r, v)"
    using un by (simp add: rollback_center_json_after_rebuild_fail_def Let_def)
  moreover obtain d2 where "replace_firewall_owner oid (load_owner_rules oid (s_db s)) (s_db u) = Inr d2" "db_view d2 = db_view (s_db s)"
    using undo_rules [OF _ d(1), of "s_db u"] pre m d(2) by (auto simp: armed_def)
  ultimately show "r = Inr () \<and> db_view (s_db v) = db_view (s_db s)" by (auto simp: save_rules_Some)
next
  fix s t :: "'k sys" and r
  show "refresh_forward w s = Some (r, t) \<Longrightarrow> (s_db t, s_prepush t) = (s_db s, s_prepush s)"
    using refresh_forward_fields by blast
qed

end
