(* ===== verification/Rules_Ops.thy ===== *)
theory Rules_Ops
  imports Rules_Laws Peer_Frames
begin

text \<open>
  The operations of the rule service as one type of requests, and what a request does to the table
  of rules and to the snapshots, whether it succeeds or raises.
\<close>

section \<open>Consistency is kept\<close>

definition ok_frame :: "'k sys \<Rightarrow> 'k sys \<Rightarrow> bool" where
  "ok_frame s t \<longleftrightarrow> (db_ok (s_db s) \<longrightarrow> db_ok (s_db t))"

interpretation okf: step_frame "ok_frame :: 'k sys \<Rightarrow> 'k sys \<Rightarrow> bool"
  by unfold_locales (auto simp: ok_frame_def)

lemma store_write_okf: "(\<And>d d'. db_ok d \<Longrightarrow> body d = Inr d' \<Longrightarrow> db_ok d') \<Longrightarrow> keeps ok_frame (store_write body)"
  by (auto simp: keeps_def store_write_Some ok_frame_def)

lemma kernel_only_okf: "keeps kernel_only m \<Longrightarrow> keeps ok_frame m"
  using kernel_only_fields by (fastforce simp: keeps_def ok_frame_def)

lemma save_rules_okf: "keeps ok_frame (save_rules oid rs)"
  unfolding save_rules_def by (rule store_write_okf) (rule replace_firewall_owner_ok)

lemma refresh_forward_okf: "keeps ok_frame (refresh_forward w)"
  by (rule kernel_only_okf [OF refresh_forward_kernel_only])

lemma rollback_okf: "keeps ok_frame (rollback_center_json_after_rebuild_fail oid had)"
  using keepsD [OF save_rules_okf]
  by (fastforce simp: keeps_def rollback_center_json_after_rebuild_fail_def Let_def ok_frame_def)

lemma snapshot_okf: "keeps ok_frame (backup_if had oid)" "keeps ok_frame (clear_if had oid)" "keeps ok_frame (audit a b c r)"
  by (auto simp: keeps_def backup_if_def clear_if_def backup_center_rules_before_mutation_def
      clear_center_prepush_backup_def ret_def ok_frame_def audit_def)

lemma guarded_okf: "keeps ok_frame a \<Longrightarrow> keeps ok_frame b \<Longrightarrow> keeps ok_frame c \<Longrightarrow> keeps ok_frame (guarded a b c)"
  unfolding guarded_def by (intro okf.andthen_keeps okf.handle_keeps) auto

lemma push_rules_okf: "keeps ok_frame (push_rules w oid had rs)"
  unfolding push_rules_def
  by (intro okf.andthen_keeps guarded_okf save_rules_okf refresh_forward_okf rollback_okf snapshot_okf)

lemma guarded_save_okf: "keeps ok_frame (guarded_save w oid rs)"
proof -
  have "keeps ok_frame (\<lambda>st. andthen (backup_if (f st) oid) (\<lambda>_. push_rules w oid (f st) rs) st)" for f :: "'a sys \<Rightarrow> bool"
    using keepsD [OF okf.andthen_keeps [OF snapshot_okf(1) push_rules_okf]] by (fastforce simp: keeps_def)
  then show ?thesis unfolding guarded_save_def Let_def .
qed

section \<open>One guarded change\<close>

lemma backup_if_Some: "backup_if had oid st = Some (r, st') \<longleftrightarrow> r = Inr () \<and>
    st' = (if had then st\<lparr>s_prepush := AList.update oid (load_owner_rules oid (s_db st)) (s_prepush st)\<rparr> else st)"
  by (auto simp: backup_if_def backup_center_rules_before_mutation_def ret_def)

lemma clear_if_Some: "clear_if had oid st = Some (r, st') \<longleftrightarrow> r = Inr () \<and>
    st' = (if had then st\<lparr>s_prepush := AList.delete oid (s_prepush st)\<rparr> else st)"
  by (auto simp: clear_if_def clear_center_prepush_backup_def ret_def)

lemma audit_Some: "audit a b c x st = Some (r, st') \<longleftrightarrow> r = Inr () \<and> st' = st\<lparr>s_audit := s_audit st @
    [\<lparr>au_action = a, au_target_type = b, au_target_id = c, au_result = x\<rparr>]\<rparr>"
  by (auto simp: audit_def)

definition arm :: "bool \<Rightarrow> string \<Rightarrow> 'k sys \<Rightarrow> 'k sys" where
  "arm had oid st = (if had then st\<lparr>s_prepush := AList.update oid (load_owner_rules oid (s_db st)) (s_prepush st)\<rparr> else st)"

lemma arm_fields [simp]: "s_db (arm had oid st) = s_db st" "s_mgr (arm had oid st) = s_mgr st" "s_ccd (arm had oid st) = s_ccd st"
  by (simp_all add: arm_def)

lemma arm_armed:
  "db_ok (s_db st) \<Longrightarrow> prepush_ok st \<Longrightarrow> armed oid (firewall_owner_exists oid (s_db st)) (arm (firewall_owner_exists oid (s_db st)) oid st)"
  by (auto simp: armed_def arm_def prepush_ok_def update_conv')

lemma arm_prepush_ok:
  "prepush_ok st \<Longrightarrow> prepush_ok (arm (firewall_owner_exists oid (s_db st)) oid st)"
  by (auto simp: prepush_ok_def arm_def update_conv' split: if_splits)

lemma owner_exists_view: "db_view d' = db_view d \<Longrightarrow> firewall_owner_exists oid d' = firewall_owner_exists oid d"
  by (auto simp: firewall_owner_exists_def list_ex_iff db_view_def)

lemma prepush_ok_view:
  assumes "prepush_ok st" "db_view (s_db st') = db_view (s_db st)" "map_of (s_prepush st') \<subseteq>\<^sub>m map_of (s_prepush st)"
  shows "prepush_ok st'"
  unfolding prepush_ok_def
proof (intro allI impI)
  fix oid assume "map_of (s_prepush st') oid \<noteq> None"
  then have "map_of (s_prepush st) oid \<noteq> None" using assms(3) by (auto simp: map_le_def dom_def)
  then show "firewall_owner_exists oid (s_db st')"
    using assms(1) owner_exists_view [OF assms(2)] by (simp add: prepush_ok_def)
qed

lemma delete_sub: "map_of (AList.delete k l) \<subseteq>\<^sub>m map_of l"
  by (auto simp: map_le_def delete_conv')

lemma push_fails:
  assumes "db_ok (s_db st)" "prepush_ok st" "\<forall>r\<in>set rs. owner_id r = oid \<or> owner_id r = []"
    and "had = firewall_owner_exists oid (s_db st)" "push_rules w oid had rs (arm had oid st) = Some (Inl e, st')"
  shows "db_view (s_db st') = db_view (s_db st) \<and> prepush_ok st'"
proof -
  have g: "guarded (save_rules oid rs) (refresh_forward w) (rollback_center_json_after_rebuild_fail oid had) (arm had oid st) = Some (Inl e, st')"
    using assms(5) by (auto simp: push_rules_def andthen_Some_iff clear_if_Some)
  have a: "armed oid had (arm had oid st) \<and> (\<forall>r\<in>set rs. owner_id r = oid \<or> owner_id r = [])"
    using arm_armed [OF assms(1,2)] assms(3,4) by simp
  have view: "db_view (s_db st') = db_view (s_db st)" using rule_push.failure_restores [OF a g] by simp
  have "map_of (s_prepush st') \<subseteq>\<^sub>m map_of (s_prepush (arm had oid st))"
  proof -
    consider "st' = arm had oid st" | s u where "save_rules oid rs (arm had oid st) = Some (Inr (), s)"
      "refresh_forward w s = Some (Inl e, u)" "rollback_center_json_after_rebuild_fail oid had u = Some (Inr (), st')"
      | s u x where "save_rules oid rs (arm had oid st) = Some (Inr (), s)"
      "refresh_forward w s = Some (Inl x, u)" "rollback_center_json_after_rebuild_fail oid had u = Some (Inl e, st')"
      using g by (auto simp: guarded_def andthen_Some_iff handle_Some_iff throw_def save_rules_Some)
    then show ?thesis
    proof cases
      case 2
      then show ?thesis using delete_sub [of oid "s_prepush u"] refresh_forward_fields [OF 2(2)]
        by (auto simp: save_rules_Some rollback_center_json_after_rebuild_fail_def Let_def)
    next
      case 3
      then show ?thesis using delete_sub [of oid "s_prepush u"] refresh_forward_fields [OF 3(2)]
        by (auto simp: save_rules_Some rollback_center_json_after_rebuild_fail_def Let_def)
    qed simp
  qed
  then show ?thesis
    using prepush_ok_view [OF arm_prepush_ok [OF assms(2), of oid]] view assms(4) by simp
qed

text \<open>The kernel was refreshed from the present database and the present CCD files.\<close>

definition refreshed :: "'k world \<Rightarrow> 'k sys \<Rightarrow> bool" where
  "refreshed w st \<longleftrightarrow> (\<exists>s t. s_db s = s_db st \<and> s_ccd s = s_ccd st \<and>
     refresh_forward w s = Some (Inr (), t) \<and> s_mgr t = s_mgr st)"

lemma push_succeeds:
  assumes "prepush_ok st" "had = firewall_owner_exists oid (s_db st)"
    and "push_rules w oid had rs (arm had oid st) = Some (Inr (), st')"
  shows "replace_firewall_owner oid rs (s_db st) = Inr (s_db st') \<and> prepush_ok st' \<and> s_ccd st' = s_ccd st \<and> refreshed w st'"
proof -
  obtain t where g: "guarded (save_rules oid rs) (refresh_forward w) (rollback_center_json_after_rebuild_fail oid had) (arm had oid st) = Some (Inr (), t)"
    and c: "st' = (if had then t\<lparr>s_prepush := AList.delete oid (s_prepush t)\<rparr> else t)"
    using assms(3) by (auto simp: push_rules_def andthen_Some_iff clear_if_Some)
  obtain s where s: "save_rules oid rs (arm had oid st) = Some (Inr (), s)" "refresh_forward w s = Some (Inr (), t)"
    using g by (auto simp: guarded_def andthen_Some_iff handle_Some_iff throw_def)
  note f = refresh_forward_fields [OF s(2)]
  obtain d where d: "replace_firewall_owner oid rs (s_db st) = Inr d" "s = (arm had oid st)\<lparr>s_db := d\<rparr>"
    using s(1) by (auto simp: save_rules_Some)
  have db: "s_db st' = d" using f d(2) c by simp
  have others: "firewall_owner_exists x d" if "x \<noteq> oid" "firewall_owner_exists x (s_db st)" for x
    using d(1) that unfolding replace_firewall_owner_iff by (auto simp: firewall_owner_exists_def list_ex_iff)
  have "prepush_ok st'"
    unfolding prepush_ok_def
  proof (intro allI impI)
    fix x assume x: "map_of (s_prepush st') x \<noteq> None"
    have p: "s_prepush t = s_prepush (arm had oid st)" using f d(2) by simp
    have "x \<noteq> oid \<and> map_of (s_prepush st) x \<noteq> None"
      using x c p assms(1,2) by (auto simp: delete_conv' arm_def update_conv' prepush_ok_def split: if_splits)
    then show "firewall_owner_exists x (s_db st')" using others assms(1) by (auto simp: db prepush_ok_def)
  qed
  moreover have "refreshed w st'"
    unfolding refreshed_def using s(2) f c d(2) db by (intro exI [of _ s] exI [of _ t]) auto
  moreover have "s_ccd st' = s_ccd st" using f d(2) c by simp
  ultimately show ?thesis using d(1) db by simp
qed

lemma guarded_save_cases:
  assumes "db_ok (s_db st)" "prepush_ok st" "\<forall>r\<in>set rs. owner_id r = oid \<or> owner_id r = []"
    and "guarded_save w oid rs st = Some (r, st')"
  shows "prepush_ok st' \<and> (case r of
      Inl e \<Rightarrow> db_view (s_db st') = db_view (s_db st)
    | Inr _ \<Rightarrow> replace_firewall_owner oid rs (s_db st) = Inr (s_db st') \<and> refreshed w st')"
proof -
  let ?had = "firewall_owner_exists oid (s_db st)"
  have p: "push_rules w oid ?had rs (arm ?had oid st) = Some (r, st')"
    using assms(4) by (auto simp: guarded_save_def Let_def andthen_Some_iff backup_if_Some arm_def split: if_splits)
  show ?thesis
  proof (cases r)
    case (Inl e)
    then show ?thesis using push_fails [OF assms(1-3) refl, of w e st'] p by simp
  next
    case (Inr u)
    then show ?thesis using push_succeeds [OF assms(2) refl, of w oid rs st'] p by simp
  qed
qed

section \<open>Requests\<close>

datatype rule_op =
    Create bool rule bool
  | CreateMany "(bool \<times> rule) list"
  | Update string "rule \<Rightarrow> rule"
  | Reorder string "string list"
  | Delete string
  | SetEnabled string bool

fun rule_step :: "'k world \<Rightarrow> rule_op \<Rightarrow> ('k sys, unit) stact" where
  "rule_step w (Create given data refresh_kernel) = andthen (rule_create w given data refresh_kernel) (\<lambda>_. ret ())"
| "rule_step w (CreateMany payloads) = andthen (rule_create_many w payloads) (\<lambda>_. ret ())"
| "rule_step w (Update rid data) = andthen (rule_update_by_id w rid data) (\<lambda>_. ret ())"
| "rule_step w (Reorder oid order) = andthen (rule_reorder w oid order) (\<lambda>_. ret ())"
| "rule_step w (Delete rid) = andthen (rule_delete w rid) (\<lambda>_. ret ())"
| "rule_step w (SetEnabled rid en) = andthen (rule_set_enabled w rid en) (\<lambda>_. ret ())"

text \<open>Requests about one owner's rules: an update that keeps the owner, no peer behind the id.\<close>

fun local_op :: "rule_op \<Rightarrow> bool" where
  "local_op (Create _ _ _) \<longleftrightarrow> True"
| "local_op (CreateMany _) \<longleftrightarrow> True"
| "local_op (Update _ data) \<longleftrightarrow> (\<forall>r. owner_id (data r) = owner_id r)"
| "local_op (Reorder oid _) \<longleftrightarrow> strip oid \<noteq> []"
| "local_op (Delete rid) \<longleftrightarrow> \<not> starts_with rid ce_peer_rule_prefix"
| "local_op (SetEnabled rid _) \<longleftrightarrow> \<not> starts_with rid ce_peer_rule_prefix"

lemma checked_rule_fields:
  assumes "checked_rule na r = Inr r'"
  shows "rule_id r' = rule_id r" "owner_id r' = owner_id r" "priority r' = priority r" "mk_rule r = Inr r'"
proof -
  have m: "mk_rule r = Inr r'" using assms by (auto simp: checked_rule_def rbind_Inr_iff split: if_splits)
  then show "rule_id r' = rule_id r" "owner_id r' = owner_id r" "priority r' = priority r" "mk_rule r = Inr r'"
    using mk_rule_fields [OF m] by auto
qed

lemma check_payloads_facts:
  assumes "check_payloads w n oid pris ps = Inr (oid', rs)"
  shows "(oid \<noteq> [] \<longrightarrow> oid' = oid) \<and> (\<forall>r\<in>set rs. owner_id r = oid' \<or> owner_id r = []) \<and> length rs = length ps \<and>
    distinct (map priority rs) \<and> set (map priority rs) \<inter> set pris = {}"
  using assms
proof (induction w n oid pris ps arbitrary: oid' rs rule: check_payloads.induct)
  case (2 w n oid pris given data ps)
  obtain r where r: "checked_rule (w_na w) (if given then data else data\<lparr>rule_id := w_uuid w n\<rparr>) = Inr r"
    and ow: "\<not> (oid \<noteq> [] \<and> oid \<noteq> owner_id r)" "priority r \<notin> set pris"
    and rest: "rbind (check_payloads w (n + 1) (if oid = [] then owner_id r else oid) (priority r # pris) ps)
        (\<lambda>(oid', rs). Inr (oid', r # rs)) = Inr (oid', rs)"
    using 2(2) by (auto simp: rbind_Inr_iff split: if_splits)
  obtain rs1 where rs1: "check_payloads w (n + 1) (if oid = [] then owner_id r else oid) (priority r # pris) ps = Inr (oid', rs1)"
    "rs = r # rs1" using rest by (auto simp: rbind_Inr_iff)
  note IH = 2(1) [OF ow rs1(1)]
  show ?case using IH ow rs1(2) by (auto split: if_splits)
qed simp

section \<open>Every request is all or nothing\<close>

definition safe_outcome :: "'k sys \<Rightarrow> 'a res \<Rightarrow> 'k sys \<Rightarrow> bool" where
  "safe_outcome st r st' \<longleftrightarrow> prepush_ok st' \<and> (\<forall>e. r = Inl e \<longrightarrow> db_view (s_db st') = db_view (s_db st))"

lemma safe_refl: "prepush_ok st \<Longrightarrow> safe_outcome st r st"
  by (simp add: safe_outcome_def)

lemma audit_after:
  assumes "andthen m (\<lambda>_. andthen (audit a b c x) (\<lambda>_. ret y)) st = Some (r, st')"
  obtains e where "m st = Some (Inl e, st')" "r = Inl e"
    | u s where "m st = Some (Inr u, s)" "r = Inr y" "s_db st' = s_db s" "s_prepush st' = s_prepush s" "s_ccd st' = s_ccd s" "s_mgr st' = s_mgr s"
  using assms by (auto simp: andthen_Some_iff audit_Some ret_def)

lemma prepush_ok_cong: "s_db s = s_db t \<Longrightarrow> s_prepush s = s_prepush t \<Longrightarrow> prepush_ok s = prepush_ok t"
  by (simp add: prepush_ok_def)

lemma guarded_save_safe:
  assumes "db_ok (s_db st)" "prepush_ok st" "\<forall>r\<in>set rs. owner_id r = oid \<or> owner_id r = []"
    and "andthen (guarded_save w oid rs) (\<lambda>_. andthen (audit a b c x) (\<lambda>_. ret y)) st = Some (r, st')"
  shows "safe_outcome st r st'"
  using assms(4)
proof (cases rule: audit_after)
  case (1 e)
  then show ?thesis using guarded_save_cases [OF assms(1-3)] by (fastforce simp: safe_outcome_def)
next
  case (2 u s)
  then show ?thesis using guarded_save_cases [OF assms(1-3) 2(1)] prepush_ok_cong [of st' s] by (simp add: safe_outcome_def)
qed

lemma loaded_owner: "db_ok d \<Longrightarrow> \<forall>r\<in>set (load_owner_rules oid d). owner_id r = oid \<or> owner_id r = []"
  using loaded_rules by blast

lemma rule_create_safe:
  assumes "db_ok (s_db st)" "prepush_ok st" "rule_create w given data refresh_kernel st = Some (r, st')"
  shows "safe_outcome st r st'"
proof (cases "checked_rule (w_na w) (if given then data else data\<lparr>rule_id := w_uuid w 0\<rparr>)")
  case (Inl e)
  then show ?thesis using assms by (auto simp: rule_create_def throw_def safe_outcome_def)
next
  case (Inr q)
  let ?oid = "owner_id q" and ?d = "s_db st"
  let ?had = "firewall_owner_exists ?oid ?d" and ?rs = "load_owner_rules ?oid ?d @ [q]"
  have own: "\<forall>r\<in>set ?rs. owner_id r = ?oid \<or> owner_id r = []" using loaded_owner [OF assms(1)] by auto
  note pa = arm_prepush_ok [OF assms(2), of ?oid]
  have run: "(if priority q \<in> set (all_priorities ?d) then throw (ValueError ''priority in use'')
      else andthen (if refresh_kernel then push_rules w ?oid ?had ?rs else save_rules ?oid ?rs) (\<lambda>_.
        andthen (audit ''create_firewall_rule'' ''firewall_rule'' (rule_id q) ''success'') (\<lambda>_. ret q))) (arm ?had ?oid st) = Some (r, st')"
    using assms(3) Inr by (simp add: rule_create_def Let_def andthen_Some_iff backup_if_Some arm_def)
  show ?thesis
  proof (cases "priority q \<in> set (all_priorities ?d)")
    case True
    then show ?thesis using run pa by (auto simp: throw_def safe_outcome_def)
  next
    case False
    then have go: "andthen (if refresh_kernel then push_rules w ?oid ?had ?rs else save_rules ?oid ?rs) (\<lambda>_.
        andthen (audit ''create_firewall_rule'' ''firewall_rule'' (rule_id q) ''success'') (\<lambda>_. ret q)) (arm ?had ?oid st) = Some (r, st')"
      using run by simp
    show ?thesis
    proof (cases refresh_kernel)
      case True
      from go show ?thesis
      proof (cases rule: audit_after)
        case (1 e)
        then show ?thesis using True push_fails [OF assms(1,2) own refl, of w e st'] by (simp add: safe_outcome_def)
      next
        case (2 u s)
        then show ?thesis using True push_succeeds [OF assms(2) refl, of w ?oid ?rs s] prepush_ok_cong [of st' s]
          by (simp add: safe_outcome_def)
      qed
    next
      case False
      from go show ?thesis
      proof (cases rule: audit_after)
        case (1 e)
        then show ?thesis using False pa by (auto simp: safe_outcome_def save_rules_Some)
      next
        case (2 u s)
        then obtain d where d: "replace_firewall_owner ?oid ?rs ?d = Inr d" "s = (arm ?had ?oid st)\<lparr>s_db := d\<rparr>"
          using False by (auto simp: save_rules_Some)
        obtain rows where rows: "mapM (firewall_values ?oid) ?rs = Inr rows"
          "d = ?d\<lparr>db_rules := filter (\<lambda>x. fr_owner_id x \<noteq> ?oid) (db_rules ?d) @ rows\<rparr>"
          using d(1) by (auto simp: replace_firewall_owner_iff)
        have "\<exists>row\<in>set rows. fr_owner_id row = ?oid"
        proof -
          have "length rows = length ?rs" using list_all2_lengthD [OF rows(1) [unfolded mapM_Inr_iff]] by simp
          then obtain row where row: "row \<in> set rows" by (cases rows) auto
          then show ?thesis using mapM_mem [OF rows(1) row] firewall_values_InrD(3) own by fastforce
        qed
        then have ex: "firewall_owner_exists x (s_db st) \<or> x = ?oid \<Longrightarrow> firewall_owner_exists x d" for x
          unfolding firewall_owner_exists_def list_ex_iff rows(2) by (cases "x = ?oid") auto
        have "prepush_ok s"
          using assms(2) ex by (auto simp: prepush_ok_def d(2) arm_def update_conv' split: if_splits)
        then show ?thesis using 2 prepush_ok_cong [of st' s] by (simp add: safe_outcome_def)
      qed
    qed
  qed
qed

lemma rule_create_many_checked:
  assumes "db_ok (s_db st)" "prepush_ok st" and c: "check_payloads w 0 [] [] payloads = Inr (oid, rs)" and ne: "payloads \<noteq> []"
    and "rule_create_many w payloads st = Some (r, st')"
  shows "safe_outcome st r st'"
proof -
  let ?d = "s_db st"
  let ?had = "firewall_owner_exists oid ?d" and ?rs = "load_owner_rules oid ?d @ rs"
  have own: "\<forall>r\<in>set ?rs. owner_id r = oid \<or> owner_id r = []"
    using loaded_owner [OF assms(1)] check_payloads_facts [OF c] by auto
  consider "st' = st" "prepush_ok st"
    | "andthen (push_rules w oid ?had ?rs) (\<lambda>_. andthen (audit ''create_firewall_rules_batch'' ''firewall_rule'' oid ''success'') (\<lambda>_. ret rs))
        (arm ?had oid st) = Some (r, st')"
    using assms(2,5) c ne
    by (auto simp: rule_create_many_def Let_def andthen_Some_iff backup_if_Some arm_def throw_def split: if_splits)
  then show ?thesis
  proof cases
    case 1
    then show ?thesis by (auto simp: safe_outcome_def)
  next
    case 2
    then show ?thesis
    proof (cases rule: audit_after)
      case (1 e)
      then show ?thesis using push_fails [OF assms(1,2) own refl, of w e st'] by (simp add: safe_outcome_def)
    next
      case (2 u s)
      then show ?thesis using push_succeeds [OF assms(2) refl, of w oid ?rs s] prepush_ok_cong [of st' s]
        by (simp add: safe_outcome_def)
    qed
  qed
qed

lemma rule_create_many_safe:
  assumes "db_ok (s_db st)" "prepush_ok st" "rule_create_many w payloads st = Some (r, st')"
  shows "safe_outcome st r st'"
proof -
  consider "payloads = []" | e where "payloads \<noteq> []" "check_payloads w 0 [] [] payloads = Inl e"
    | oid rs where "payloads \<noteq> []" "check_payloads w 0 [] [] payloads = Inr (oid, rs)"
    by (metis old.prod.exhaust sum.exhaust)
  then show ?thesis
  proof cases
    case 1
    then show ?thesis using assms(2,3) by (simp add: rule_create_many_def throw_def safe_outcome_def)
  next
    case 2
    then show ?thesis using assms(2,3) by (simp add: rule_create_many_def throw_def safe_outcome_def)
  next
    case 3
    show ?thesis by (rule rule_create_many_checked [OF assms(1,2) 3(2,1) assms(3)])
  qed
qed

lemma found_owner: "find_firewall_rule_owner rid d = (Some oid, rules) \<Longrightarrow> rules = load_owner_rules oid d"
  by (auto simp: find_firewall_rule_owner_def load_owner_rules_def split: option.splits)

lemma index_of_Some: "index_of P xs = Some i \<Longrightarrow> i < length xs \<and> P (xs ! i)"
  by (auto simp: index_of_def find_Some_iff)

lemma rule_update_safe:
  assumes "db_ok (s_db st)" "prepush_ok st" "\<forall>r. owner_id (data r) = owner_id r" "rule_update_by_id w rid data st = Some (r, st')"
  shows "safe_outcome st r st'"
proof -
  obtain o1 rules where f: "find_firewall_rule_owner rid (s_db st) = (o1, rules)" by fastforce
  consider "st' = st" | oid idx q where "o1 = Some oid" "index_of (\<lambda>r. rule_id r = rid) rules = Some idx"
      "checked_rule (w_na w) ((data (rules ! idx))\<lparr>rule_id := rid\<rparr>) = Inr q"
      "andthen (guarded_save w oid (rules[idx := q])) (\<lambda>_. andthen (audit ''update_firewall_rule'' ''firewall_rule'' rid ''success'') (\<lambda>_. ret q)) st = Some (r, st')"
  proof -
    show thesis
    proof (cases o1)
      case None
      then show ?thesis using assms(4) f that(1) by (simp add: rule_update_by_id_def throw_def)
    next
      case (Some oid)
      show ?thesis
      proof (cases "index_of (\<lambda>r. rule_id r = rid) rules")
        case None
        then show ?thesis using assms(4) f Some that(1) by (simp add: rule_update_by_id_def throw_def)
      next
        case idx: (Some idx)
        then show ?thesis using assms(4) f Some that
          by (cases "checked_rule (w_na w) ((data (rules ! idx))\<lparr>rule_id := rid\<rparr>)")
            (auto simp: rule_update_by_id_def throw_def split: if_splits)
      qed
    qed
  qed
  then show ?thesis
  proof cases
    case 2
    have rules: "rules = load_owner_rules oid (s_db st)" using found_owner f 2(1) by blast
    have "owner_id q = oid"
      using checked_rule_fields(2) [OF 2(3)] assms(3) index_of_Some [OF 2(2)] loaded_rules [OF assms(1)] rules nth_mem
      by (metis rule.select_convs(3) rule.surjective rule.update_convs(1))
    then have "\<forall>r\<in>set (rules[idx := q]). owner_id r = oid \<or> owner_id r = []"
      using loaded_owner [OF assms(1)] rules set_update_subset_insert by fastforce
    from guarded_save_safe [OF assms(1,2) this 2(4)] show ?thesis .
  qed (use assms(2) safe_refl in blast)
qed

lemma rule_by_id_Some: "rule_by_id rules rid = Some r \<Longrightarrow> r \<in> set rules \<and> rule_id r = rid"
  unfolding rule_by_id_def find_Some_iff by (metis length_rev nth_mem set_rev)

lemma reordered_owner:
  assumes "x \<in> set (reordered_rules now order rules)"
  shows "\<exists>r\<in>set rules. owner_id x = owner_id r \<and> rule_id x = rule_id r"
proof -
  consider "x \<in> set rules" | rid r where "rule_by_id rules rid = Some r" "x = r\<lparr>priority := step_priority order rid, r_updated_at := now\<rparr>"
    using assms by (auto simp: reordered_rules_def map_filter_def)
  then show ?thesis
  proof cases
    case 2
    then show ?thesis using rule_by_id_Some [OF 2(1)] by auto
  qed auto
qed

lemma set_first_enabled_same:
  "x \<in> set (set_first_enabled rid en now rules) \<Longrightarrow> \<exists>r\<in>set rules. owner_id x = owner_id r \<and> rule_id x = rule_id r \<and> priority x = priority r"
  by (induction rules) (auto split: if_splits)

lemma rule_step_safe:
  assumes "db_ok (s_db st)" "prepush_ok st" "local_op op" "rule_step w op st = Some (r, st')"
  shows "safe_outcome st r st'"
proof -
  have void: "safe_outcome st r st'" if "andthen m (\<lambda>_. ret ()) st = Some (r, st')" "\<And>r. m st = Some (r, st') \<Longrightarrow> safe_outcome st r st'"
    for m :: "('a sys, 'b) stact"
    using that by (auto simp: andthen_Some_iff ret_def safe_outcome_def)
  show ?thesis
  proof (cases op)
    case (Create given data refresh_kernel)
    then show ?thesis using assms void rule_create_safe by (metis rule_step.simps(1))
  next
    case (CreateMany payloads)
    then show ?thesis using assms void rule_create_many_safe by (metis rule_step.simps(2))
  next
    case (Update rid data)
    then show ?thesis using assms void rule_update_safe by (metis local_op.simps(3) rule_step.simps(3))
  next
    case (Reorder oid order)
    have "\<forall>r\<in>set (reordered_rules (w_now w) order (load_owner_rules oid (s_db st))). owner_id r = oid \<or> owner_id r = []"
      using reordered_owner loaded_owner [OF assms(1)] by metis
    note g = guarded_save_safe [OF assms(1,2) this]
    show ?thesis using assms(3,4) Reorder g
      by (intro void [of "rule_reorder w oid order"]) (auto simp: rule_reorder_def rule_reorder_owner_def)
  next
    case (Delete rid)
    show ?thesis
    proof (rule void [of "rule_delete w rid"])
      show "andthen (rule_delete w rid) (\<lambda>_. ret ()) st = Some (r, st')" using assms(4) Delete by simp
      fix r :: "bool res" assume run: "rule_delete w rid st = Some (r, st')"
      obtain o1 rules where f: "find_firewall_rule_owner rid (s_db st) = (o1, rules)" by fastforce
      show "safe_outcome st r st'"
      proof (cases o1)
        case None
        then show ?thesis using run f assms(2,3) Delete by (auto simp: rule_delete_def throw_def safe_outcome_def)
      next
        case (Some oid)
        have own: "\<forall>r\<in>set (filter (\<lambda>r. rule_id r \<noteq> rid) rules). owner_id r = oid \<or> owner_id r = []"
          using found_owner f Some loaded_owner [OF assms(1)] by fastforce
        show ?thesis by (rule guarded_save_safe [OF assms(1,2) own]) (use run f assms(3) Delete Some in \<open>simp add: rule_delete_def\<close>)
      qed
    qed
  next
    case (SetEnabled rid en)
    show ?thesis
    proof (rule void [of "rule_set_enabled w rid en"])
      show "andthen (rule_set_enabled w rid en) (\<lambda>_. ret ()) st = Some (r, st')" using assms(4) SetEnabled by simp
      fix r :: "bool res" assume run: "rule_set_enabled w rid en st = Some (r, st')"
      obtain o1 rules where f: "find_firewall_rule_owner rid (s_db st) = (o1, rules)" by fastforce
      show "safe_outcome st r st'"
      proof (cases o1)
        case None
        then show ?thesis using run f assms(2,3) SetEnabled by (auto simp: rule_set_enabled_def throw_def safe_outcome_def)
      next
        case (Some oid)
        have own: "\<forall>r\<in>set (set_first_enabled rid en (w_now w) rules). owner_id r = oid \<or> owner_id r = []"
          using found_owner f Some loaded_owner [OF assms(1)] set_first_enabled_same by metis
        show ?thesis by (rule guarded_save_safe [OF assms(1,2) own]) (use run f assms(3) SetEnabled Some in \<open>simp add: rule_set_enabled_def\<close>)
      qed
    qed
  qed
qed

section \<open>Requests keep the database consistent\<close>

lemma of_res_okf: "keeps ok_frame (of_res r)"
  by (cases r) auto

lemma okD: "keeps ok_frame m \<Longrightarrow> m st = Some (r, st') \<Longrightarrow> db_ok (s_db st) \<Longrightarrow> db_ok (s_db st')"
  by (auto simp: keeps_def ok_frame_def)

lemma if_okf: "keeps R a \<Longrightarrow> keeps R b \<Longrightarrow> keeps R (if c then a else b)"
  by simp

lemma pair_okf: "(\<And>a b. keeps R (f a b)) \<Longrightarrow> keeps R (case p of (a, b) \<Rightarrow> f a b)"
  by (cases p) simp

lemmas okf_rules = okf.andthen_keeps okf.ret_keeps okf.throw_keeps if_okf pair_okf of_res_okf push_rules_okf save_rules_okf
  snapshot_okf guarded_save_okf

lemma rule_create_okf: "keeps ok_frame (rule_create w given data k)"
  unfolding keeps_def rule_create_def ok_frame_def Let_def by (intro allI impI) (erule (1) okD [rotated], intro okf_rules)

lemma rule_create_many_okf: "keeps ok_frame (rule_create_many w payloads)"
proof (cases "payloads = []")
  case False
  then show ?thesis
    unfolding keeps_def rule_create_many_def ok_frame_def Let_def
    by (intro allI impI) (simp only: if_False, erule (1) okD [rotated], intro okf_rules)
qed (simp add: rule_create_many_def [abs_def] keeps_def throw_def okf.refl)

lemma rule_update_okf: "keeps ok_frame (rule_update_by_id w rid data)"
proof -
  have "db_ok (s_db st')" if r: "rule_update_by_id w rid data st = Some (r, st')" and ok: "db_ok (s_db st)" for st r st'
  proof -
    obtain o1 rules where f: "find_firewall_rule_owner rid (s_db st) = (o1, rules)" by fastforce
    show ?thesis
    proof (cases o1)
      case (Some oid)
      show ?thesis
      proof (cases "index_of (\<lambda>r. rule_id r = rid) rules")
        case (Some idx)
        then have "andthen (of_res (checked_rule (w_na w) ((data (rules ! idx))\<lparr>rule_id := rid\<rparr>))) (\<lambda>r.
               if priority r \<in> set (map priority (filter (\<lambda>x. rule_id x \<noteq> rid) (list_firewall_rules (s_db st))))
               then throw (ValueError ''priority in use'')
               else andthen (guarded_save w oid (rules[idx := r])) (\<lambda>_.
                 andthen (audit ''update_firewall_rule'' ''firewall_rule'' rid ''success'') (\<lambda>_. ret r))) st = Some (r, st')"
          using r f \<open>o1 = Some oid\<close> by (simp only: rule_update_by_id_def prod.case option.case)
        then show ?thesis by (rule okD [rotated, OF _ ok]) (intro okf_rules)
      qed (use r f ok Some in \<open>simp add: rule_update_by_id_def throw_def\<close>)
    qed (use r f ok in \<open>simp add: rule_update_by_id_def throw_def\<close>)
  qed
  then show ?thesis by (simp add: keeps_def ok_frame_def)
qed

lemma owner_case_okf:
  assumes "(case find_firewall_rule_owner rid (s_db st) of (None, _) \<Rightarrow> throw e st
      | (Some oid, rules) \<Rightarrow> andthen (guarded_save w oid (f rules)) (\<lambda>_. andthen (audit a b c x) (\<lambda>_. ret y)) st) = Some (r, st')"
    and "db_ok (s_db st)"
  shows "db_ok (s_db st')"
proof -
  obtain o1 rules where f: "find_firewall_rule_owner rid (s_db st) = (o1, rules)" by fastforce
  show ?thesis
  proof (cases o1)
    case None
    then show ?thesis using assms f by (simp add: throw_def)
  next
    case (Some oid)
    then have "andthen (guarded_save w oid (f rules)) (\<lambda>_. andthen (audit a b c x) (\<lambda>_. ret y)) st = Some (r, st')"
      using assms(1) f by simp
    then show ?thesis by (rule okD [rotated, OF _ assms(2)]) (intro okf_rules)
  qed
qed

lemma ok_frame_store: "ok_frame = store_frame db_ok"
  by (intro ext) (simp add: ok_frame_def store_frame_def)

lemma reorder_global_okf: "keeps ok_frame (reorder_unified_global w order)"
proof -
  have patch: "keeps ok_frame (patch_peer_order w rows order)" for rows
    unfolding patch_peer_order_def
    by (intro okf.for_each_keeps) (auto simp: ok_frame_store intro!: ok_peers.priority_keeps split: option.splits flat_row.splits)
  have rest: "keeps ok_frame (andthen (for_each (\<lambda>(oid, had). backup_if had oid) owners) (\<lambda>_.
      andthen (guarded (for_each (\<lambda>(oid, rs). save_rules oid rs) groups) (refresh_forward w) (rollback_center_json_owners owners)) (\<lambda>_.
      andthen (for_each (\<lambda>(oid, had). clear_if had oid) owners) (\<lambda>_.
      andthen (audit a b c x) (\<lambda>_. ret True)))))" for owners groups a b c x
    unfolding rollback_center_json_owners_def
    by (intro okf.andthen_keeps okf.for_each_keeps guarded_okf pair_okf snapshot_okf save_rules_okf refresh_forward_okf rollback_okf okf.ret_keeps)
  have "keeps ok_frame (\<lambda>st. andthen (patch_peer_order w (f st) order) (\<lambda>_ st1. g st st1 st1) st)"
    if "\<And>s t. keeps ok_frame (g s t)" for f :: "'a sys \<Rightarrow> flat_row list" and g :: "'a sys \<Rightarrow> 'a sys \<Rightarrow> ('a sys, bool) stact"
    unfolding keeps_def andthen_Some_iff
    using keepsD [OF patch] that [THEN keepsD] okf.trans by (intro allI impI, elim disjE exE conjE) blast+
  note this [where f = "\<lambda>st. list_unified_flat (s_db st)"
    and g = "\<lambda>s t. let groups = by_owner (global_rules (w_now w) order (list_unified_flat (s_db s)));
         owners = map (\<lambda>(oid, rs). (oid, firewall_owner_exists oid (s_db t))) groups in
       andthen (for_each (\<lambda>(oid, had). backup_if had oid) owners) (\<lambda>_.
         andthen (guarded (for_each (\<lambda>(oid, rs). save_rules oid rs) groups) (refresh_forward w)
            (rollback_center_json_owners owners)) (\<lambda>_.
         andthen (for_each (\<lambda>(oid, had). clear_if had oid) owners) (\<lambda>_.
         andthen (audit ''reorder_firewall_rules'' ''firewall_rule'' ''global'' ''success'') (\<lambda>_. ret True))))"]
  then show ?thesis unfolding reorder_unified_global_def [abs_def] Let_def using rest by blast
qed

lemma owner_okf: "keeps ok_frame (\<lambda>st. case find_firewall_rule_owner rid (s_db st) of (None, _) \<Rightarrow> throw e st
      | (Some oid, rules) \<Rightarrow> andthen (guarded_save w oid (f rules)) (\<lambda>_. andthen (audit a b c x) (\<lambda>_. ret y)) st)"
  unfolding keeps_def ok_frame_def by (intro allI impI) (erule (1) owner_case_okf)

lemma rule_delete_okf: "keeps ok_frame (rule_delete w rid)"
proof (cases "starts_with rid ce_peer_rule_prefix")
  case True
  have "keeps ok_frame (peer_update w pid data k)" for pid data k unfolding ok_frame_store by (rule ok_peers.update_keeps) simp
  then show ?thesis
    unfolding rule_delete_def [abs_def] using True
    by (simp only: if_True) (intro okf.andthen_keeps refresh_forward_okf snapshot_okf okf.ret_keeps)
next
  case False
  show ?thesis unfolding rule_delete_def [abs_def] using False by (simp only: if_False) (rule owner_okf)
qed

lemma rule_set_enabled_okf: "keeps ok_frame (rule_set_enabled w rid en)"
proof (cases "starts_with rid ce_peer_rule_prefix")
  case True
  have "keeps ok_frame (patch_center_forward_enabled w pid en)" for pid unfolding ok_frame_store by (rule ok_peers.enabled_keeps) simp
  then show ?thesis
    unfolding rule_set_enabled_def [abs_def] using True
    by (simp only: if_True) (intro okf.andthen_keeps snapshot_okf okf.ret_keeps)
next
  case False
  show ?thesis unfolding rule_set_enabled_def [abs_def] using False by (simp only: if_False) (rule owner_okf)
qed

lemma rule_reorder_owner_okf: "keeps ok_frame (rule_reorder_owner w oid order)"
proof -
  have "keeps ok_frame (andthen (guarded_save w oid rs) (\<lambda>_. andthen (audit a b c x) (\<lambda>_. ret True)))" for a b c x rs
    by (intro okf_rules)
  then show ?thesis unfolding keeps_def rule_reorder_owner_def by blast
qed

text \<open>Every request, about peer sites and the global order too.\<close>

lemma rule_step_okf: "keeps ok_frame (rule_step w op)"
  by (cases op) (simp_all only: rule_step.simps rule_reorder_def if_okf, auto intro!: okf.andthen_keeps rule_create_okf rule_create_many_okf
      rule_update_okf rule_reorder_owner_okf reorder_global_okf rule_delete_okf rule_set_enabled_okf)

lemma rule_step_db_ok: "rule_step w op st = Some (r, st') \<Longrightarrow> db_ok (s_db st) \<Longrightarrow> db_ok (s_db st')"
  by (rule okD [OF rule_step_okf])

section \<open>Requests that return have refreshed the kernel\<close>

text \<open>Whether a request asks for the kernel to be refreshed.\<close>

fun pushes :: "rule_op \<Rightarrow> bool" where
  "pushes (Create _ _ k) = k"
| "pushes _ = True"

lemma refreshed_cong: "refreshed w s \<Longrightarrow> s_db t = s_db s \<Longrightarrow> s_ccd t = s_ccd s \<Longrightarrow> s_mgr t = s_mgr s \<Longrightarrow> refreshed w t"
  by (simp add: refreshed_def)

lemma refresh_refreshed:
  assumes "refresh_forward w s = Some (Inr (), t)"
  shows "refreshed w t"
  unfolding refreshed_def using refresh_forward_fields [OF assms] assms by (intro exI [of _ s] exI [of _ t]) simp

lemma guarded_refreshed: "guarded change (refresh_forward w) undo s = Some (Inr (), t) \<Longrightarrow> refreshed w t"
  using refresh_refreshed by (auto simp: guarded_def andthen_Some_iff handle_Some_iff throw_def)

lemma push_refreshed: "push_rules w oid had rs s = Some (Inr (), t) \<Longrightarrow> refreshed w t"
  unfolding push_rules_def andthen_Some_iff
  by (auto simp: clear_if_Some split: if_splits dest!: guarded_refreshed elim!: refreshed_cong)

lemma guarded_save_refreshed: "guarded_save w oid rs s = Some (Inr (), t) \<Longrightarrow> refreshed w t"
  by (auto simp: guarded_save_def Let_def andthen_Some_iff intro: push_refreshed)

lemma then_audit_refreshed:
  assumes "andthen m (\<lambda>_. andthen (audit a b c x) (\<lambda>_. ret y)) s = Some (Inr z, t)" "\<And>u v. m s = Some (Inr u, v) \<Longrightarrow> refreshed w v"
  shows "refreshed w t"
  using assms(1) by (rule audit_after) (use assms(2) refreshed_cong in blast)+

lemma clear_all_fields:
  "for_each (\<lambda>(oid, had). clear_if had oid) owners s = Some (r, t) \<Longrightarrow> s_db t = s_db s \<and> s_ccd t = s_ccd s \<and> s_mgr t = s_mgr s"
  by (induction owners arbitrary: s) (auto simp: andthen_Some_iff clear_if_Some ret_def split: if_splits)

lemma reorder_global_refreshed: "reorder_unified_global w order s = Some (Inr b, t) \<Longrightarrow> refreshed w t"
  unfolding reorder_unified_global_def Let_def andthen_Some_iff
  by (auto simp: audit_Some ret_def dest!: guarded_refreshed clear_all_fields elim!: refreshed_cong)

lemma found_refreshed:
  assumes "(case find_firewall_rule_owner rid (s_db s) of (None, _) \<Rightarrow> throw e s
      | (Some oid, rules) \<Rightarrow> andthen (guarded_save w oid (f rules)) (\<lambda>_. andthen (audit a b c x) (\<lambda>_. ret y)) s) = Some (Inr z, t)"
  shows "refreshed w t"
proof -
  obtain o1 rules where f: "find_firewall_rule_owner rid (s_db s) = (o1, rules)" by fastforce
  then obtain oid where "andthen (guarded_save w oid (f rules)) (\<lambda>_. andthen (audit a b c x) (\<lambda>_. ret y)) s = Some (Inr z, t)"
    using assms by (cases o1) (auto simp: throw_def)
  then show ?thesis by (rule then_audit_refreshed) (rule guarded_save_refreshed, simp)
qed

lemma rule_delete_refreshed:
  assumes "rule_delete w rid s = Some (Inr b, t)"
  shows "refreshed w t"
proof (cases "starts_with rid ce_peer_rule_prefix")
  case True
  then obtain u v where "andthen (refresh_forward w) (\<lambda>_. andthen (audit ''delete_firewall_rule'' ''firewall_rule'' rid ''success'') (\<lambda>_. ret True)) u = Some (Inr v, t)"
    using assms by (simp add: rule_delete_def andthen_Some_iff [of "peer_update _ _ _ _"]) blast
  then show ?thesis by (rule then_audit_refreshed) (simp add: refresh_refreshed)
next
  case False
  then show ?thesis using assms by (intro found_refreshed) (simp add: rule_delete_def)
qed

lemma center_refresh_refreshed: "\<not> on_nt (w_env w) \<Longrightarrow> center_refresh w s = Some (Inr u, t) \<Longrightarrow> refreshed w t"
  by (simp add: center_refresh_def refresh_refreshed)

lemma rule_set_enabled_refreshed:
  assumes "\<not> on_nt (w_env w)" "rule_set_enabled w rid en s = Some (Inr b, t)"
  shows "refreshed w t"
proof (cases "starts_with rid ce_peer_rule_prefix")
  case True
  have patched: "refreshed w v" if "patch_center_forward_enabled w pid en s = Some (Inr u, v)" for pid u v
    using that center_refresh_refreshed [OF assms(1)]
    by (auto simp: patch_center_forward_enabled_def andthen_Some_iff)
  have "andthen (patch_center_forward_enabled w (drop (length ce_peer_rule_prefix) rid) en) (\<lambda>_.
      andthen (audit ''toggle_firewall_rule'' ''firewall_rule'' rid ''success'') (\<lambda>_. ret True)) s = Some (Inr b, t)"
    using assms(2) True by (simp add: rule_set_enabled_def)
  then show ?thesis by (rule then_audit_refreshed) (rule patched)
next
  case False
  then show ?thesis using assms by (intro found_refreshed) (simp add: rule_set_enabled_def)
qed

text \<open>Every request that returns, about peer sites and the global order too.\<close>

lemma rule_step_refreshed:
  assumes "\<not> on_nt (w_env w)" "pushes op" "rule_step w op s = Some (Inr u, t)"
  shows "refreshed w t"
proof -
  have void: "\<exists>z. m s = Some (Inr z, t)" if "andthen m (\<lambda>_. ret ()) s = Some (Inr u, t)" for m :: "('a sys, 'b) stact"
    using that by (auto simp: andthen_Some_iff ret_def)
  show ?thesis
  proof (cases op)
    case (Create given data k)
    then obtain z where "rule_create w given data True s = Some (Inr z, t)" using assms void by fastforce
    then show ?thesis
      by (auto simp: rule_create_def Let_def andthen_Some_iff audit_Some ret_def throw_def split: if_splits dest!: push_refreshed elim!: refreshed_cong)
  next
    case (CreateMany payloads)
    then obtain z where "rule_create_many w payloads s = Some (Inr z, t)" using assms void by fastforce
    then show ?thesis
      by (auto simp: rule_create_many_def Let_def andthen_Some_iff audit_Some ret_def throw_def split: if_splits dest!: push_refreshed elim!: refreshed_cong)
  next
    case (Update rid data)
    then obtain z where "rule_update_by_id w rid data s = Some (Inr z, t)" using assms void by fastforce
    then show ?thesis
      by (auto simp: rule_update_by_id_def andthen_Some_iff audit_Some ret_def throw_def split: if_splits option.splits prod.splits
          dest!: guarded_save_refreshed elim!: refreshed_cong)
  next
    case (Reorder oid order)
    then obtain z where z: "rule_reorder w oid order s = Some (Inr z, t)" using assms void by fastforce
    show ?thesis
    proof (cases "strip oid = []")
      case True
      then show ?thesis using z reorder_global_refreshed by (simp add: rule_reorder_def)
    next
      case False
      then show ?thesis using z
        by (auto simp: rule_reorder_def rule_reorder_owner_def andthen_Some_iff audit_Some ret_def dest!: guarded_save_refreshed elim!: refreshed_cong)
    qed
  next
    case (Delete rid)
    then show ?thesis using assms void rule_delete_refreshed by fastforce
  next
    case (SetEnabled rid en)
    then show ?thesis using assms void rule_set_enabled_refreshed by fastforce
  qed
qed

end
