(* ===== verification/Rules_Table.thy ===== *)
theory Rules_Table
  imports Rules_Ops
begin

text \<open>
  Properties of the rule service: the requests refine a table of rules changed at one place, keep
  the database and the snapshots consistent, and a failed one leaves no trace.
\<close>

section \<open>The table of rules\<close>

lemma fw_rows: "db_ok d \<Longrightarrow> row \<in> set (db_rules d) \<Longrightarrow> fw_row_ok row"
  using db_rules_ok by (auto simp: list_all_iff)

lemma listed_rules_mset: "mset (list_firewall_rules d) = mset (map fr_payload (db_rules d))"
  by (simp add: list_firewall_rules_def)

lemma listed_rules_set: "set (list_firewall_rules d) = fr_payload ` set (db_rules d)"
  by (simp add: list_firewall_rules_def)

lemma stripped_ids_distinct:
  assumes "db_ok d"
  shows "distinct (map (strip \<circ> rule_id) (list_firewall_rules d))"
proof -
  have "map (\<lambda>x. strip (rule_id (fr_payload x))) (db_rules d) = map fr_id (db_rules d)"
    using fw_rows [OF assms] fw_row_okD(1) by auto
  then have "distinct (map (\<lambda>x. strip (rule_id (fr_payload x))) (db_rules d))"
    using db_rules_ok [OF assms] by (simp only:)
  then have "distinct (map (strip \<circ> rule_id) (map fr_payload (db_rules d)))"
    by (simp add: comp_def)
  moreover have "mset (map (strip \<circ> rule_id) (list_firewall_rules d)) = mset (map (strip \<circ> rule_id) (map fr_payload (db_rules d)))"
    using listed_rules_mset [of d] by (metis mset_map)
  ultimately show ?thesis using mset_eq_imp_distinct_iff by blast
qed

lemma same_id_same_rule:
  assumes "db_ok d" "x \<in> set (list_firewall_rules d)" "y \<in> set (list_firewall_rules d)" "strip (rule_id x) = strip (rule_id y)"
  shows "x = y"
  using stripped_ids_distinct [OF assms(1)] assms(2-4) by (auto simp: distinct_map inj_on_def)

lemma own_rules:
  assumes "db_ok d"
  shows "mset (load_owner_rules oid d) = mset (filter (\<lambda>r. owner_id r = oid) (list_firewall_rules d))"
proof -
  have "filter (\<lambda>r. owner_id r = oid) (map fr_payload (db_rules d)) = map fr_payload (filter (\<lambda>r. fr_owner_id r = oid) (db_rules d))"
    using fw_rows [OF assms] fw_row_okD(2) by (auto simp: filter_map comp_def intro!: arg_cong [of _ _ "map fr_payload"] filter_cong)
  then have "mset (filter (\<lambda>r. owner_id r = oid) (list_firewall_rules d)) = mset (map fr_payload (filter (\<lambda>r. fr_owner_id r = oid) (db_rules d)))"
    by (simp only: mset_filter listed_rules_mset) (simp only: mset_filter [symmetric])
  then show ?thesis by (simp add: load_rules_rows)
qed

lemma own_rules_set: "db_ok d \<Longrightarrow> set (load_owner_rules oid d) = {r \<in> set (list_firewall_rules d). owner_id r = oid}"
  using own_rules [of d oid] by (metis set_filter set_mset_mset)

lemma firewall_values_payload:
  "firewall_values oid r = Inr row \<Longrightarrow> fr_payload row = r\<lparr>owner_id := (if owner_id r = [] then oid else owner_id r)\<rparr>"
  by (auto simp: firewall_values_def Let_def fw_index_def split: if_splits prod.splits)

lemma saved_rules:
  assumes "db_ok d" "replace_firewall_owner oid rs d = Inr d'"
  shows "mset (list_firewall_rules d') =
    mset (filter (\<lambda>r. owner_id r \<noteq> oid) (list_firewall_rules d) @ map (\<lambda>r. r\<lparr>owner_id := (if owner_id r = [] then oid else owner_id r)\<rparr>) rs)"
proof -
  obtain rows where rows: "mapM (firewall_values oid) rs = Inr rows"
    "db_rules d' = filter (\<lambda>x. fr_owner_id x \<noteq> oid) (db_rules d) @ rows"
    using assms(2) by (auto simp: replace_firewall_owner_iff)
  have "map fr_payload rows = map (\<lambda>r. r\<lparr>owner_id := (if owner_id r = [] then oid else owner_id r)\<rparr>) rs"
    using rows(1) unfolding mapM_Inr_iff by (induction rule: list_all2_induct) (simp_all add: firewall_values_payload)
  moreover have "filter (\<lambda>r. owner_id r \<noteq> oid) (map fr_payload (db_rules d)) = map fr_payload (filter (\<lambda>r. fr_owner_id r \<noteq> oid) (db_rules d))"
    using fw_rows [OF assms(1)] fw_row_okD(2) by (auto simp: filter_map comp_def intro!: arg_cong [of _ _ "map fr_payload"] filter_cong)
  ultimately show ?thesis
    unfolding mset_append mset_filter listed_rules_mset rows(2) map_append
    by (simp only: mset_append mset_filter [symmetric])
qed

lemma saved_own_rules:
  assumes "db_ok d" "replace_firewall_owner oid rs d = Inr d'" "\<forall>r\<in>set rs. owner_id r = oid"
  shows "mset (list_firewall_rules d') = mset (filter (\<lambda>r. owner_id r \<noteq> oid) (list_firewall_rules d) @ rs)"
proof -
  have "map (\<lambda>r. r\<lparr>owner_id := (if owner_id r = [] then oid else owner_id r)\<rparr>) rs = rs"
    using assms(3) by (intro map_idI) auto
  then show ?thesis using saved_rules [OF assms(1,2)] by simp
qed

lemma partition_mset: "mset (filter (\<lambda>r. \<not> P r) xs) + mset (filter P xs) = mset xs"
  by (induction xs) auto

lemma map_own:
  assumes "mset rs = image_mset f (mset (filter P xs))" "\<forall>r\<in>set xs. \<not> P r \<longrightarrow> f r = r"
  shows "mset (filter (\<lambda>r. \<not> P r) xs @ rs) = mset (map f xs)"
proof -
  have "map f (filter (\<lambda>r. \<not> P r) xs) = filter (\<lambda>r. \<not> P r) xs" using assms(2) by (intro map_idI) auto
  then have "mset (filter (\<lambda>r. \<not> P r) xs @ rs) = image_mset f (mset (filter (\<lambda>r. \<not> P r) xs) + mset (filter P xs))"
    using assms(1) by (metis image_mset_union mset_append mset_map)
  then show ?thesis by (simp only: partition_mset mset_map)
qed

lemma filter_own:
  assumes "mset rs = filter_mset Q (mset (filter P xs))" "\<forall>r\<in>set xs. \<not> P r \<longrightarrow> Q r"
  shows "mset (filter (\<lambda>r. \<not> P r) xs @ rs) = mset (filter Q xs)"
proof -
  have "filter Q (filter (\<lambda>r. \<not> P r) xs) = filter (\<lambda>r. \<not> P r) xs" using assms(2) by (auto simp: filter_filter intro!: filter_cong)
  then have "mset (filter (\<lambda>r. \<not> P r) xs @ rs) = filter_mset Q (mset (filter (\<lambda>r. \<not> P r) xs) + mset (filter P xs))"
    using assms(1) by (metis filter_union_mset mset_append mset_filter)
  then show ?thesis unfolding mset_filter [symmetric] partition_mset .
qed

lemma ids_distinct: "db_ok d \<Longrightarrow> distinct (map rule_id (list_firewall_rules d))"
  using stripped_ids_distinct [of d] by (auto simp: distinct_map comp_def inj_on_def)

lemma own_ids_distinct:
  assumes "db_ok d"
  shows "distinct (map rule_id (load_owner_rules oid d))"
proof -
  have "mset (map rule_id (load_owner_rules oid d)) = mset (map rule_id (filter (\<lambda>r. owner_id r = oid) (list_firewall_rules d)))"
    using own_rules [OF assms] by (metis mset_map)
  then show ?thesis using distinct_map_filter' [OF ids_distinct [OF assms]] mset_eq_imp_distinct_iff by metis
qed

section \<open>Order of one owner's rules\<close>

lemma find_id_distinct:
  assumes "distinct (map rule_id rules)" "r \<in> set rules"
  shows "find (\<lambda>x. rule_id x = rule_id r) rules = Some r"
  using assms by (induction rules) auto

lemma rule_by_id_distinct:
  "distinct (map rule_id rules) \<Longrightarrow> r \<in> set rules \<Longrightarrow> rule_by_id rules (rule_id r) = Some r"
  using find_id_distinct [of "rev rules" r] by (simp add: rule_by_id_def rev_map [symmetric])

definition with_step :: "string \<Rightarrow> string list \<Rightarrow> rule \<Rightarrow> rule" where
  "with_step now order r =
     (if rule_id r \<in> set order then r\<lparr>priority := step_priority order (rule_id r), r_updated_at := now\<rparr> else r)"

lemma with_step_id [simp]: "rule_id (with_step now order r) = rule_id r"
  by (simp add: with_step_def)

lemma reordered_set:
  assumes "distinct (map rule_id rules)"
  shows "set (reordered_rules now order rules) = with_step now order ` set rules"
proof (rule set_eqI, rule iffI)
  fix x assume "x \<in> set (reordered_rules now order rules)"
  then consider rid r where "rid \<in> set order" "rule_by_id rules rid = Some r"
      "x = r\<lparr>priority := step_priority order rid, r_updated_at := now\<rparr>"
    | "x \<in> set rules" "rule_id x \<notin> set order"
    by (auto simp: reordered_rules_def map_filter_def)
  then show "x \<in> with_step now order ` set rules"
  proof cases
    case 1
    then have "x = with_step now order r" "r \<in> set rules" using rule_by_id_Some [OF 1(2)] by (auto simp: with_step_def)
    then show ?thesis by blast
  next
    case 2
    then have "x = with_step now order x" by (simp add: with_step_def)
    then show ?thesis using 2(1) by blast
  qed
next
  fix x assume "x \<in> with_step now order ` set rules"
  then obtain r where r: "r \<in> set rules" "x = with_step now order r" by auto
  show "x \<in> set (reordered_rules now order rules)"
  proof (cases "rule_id r \<in> set order")
    case True
    then show ?thesis using r rule_by_id_distinct [OF assms r(1)]
      by (auto simp: reordered_rules_def map_filter_def with_step_def intro!: image_eqI [of _ _ "rule_id r"])
  next
    case False
    then show ?thesis using r by (simp add: reordered_rules_def with_step_def)
  qed
qed

lemma reordered_mset:
  assumes "distinct (map rule_id rules)" "distinct (map rule_id (reordered_rules now order rules))"
  shows "mset (reordered_rules now order rules) = image_mset (with_step now order) (mset rules)"
proof -
  have "distinct (map rule_id (map (with_step now order) rules))" using assms(1) by (simp add: comp_def)
  then have "distinct (map (with_step now order) rules)" by (simp only: distinct_map)
  moreover have "distinct (reordered_rules now order rules)" using assms(2) by (simp only: distinct_map)
  moreover have "set (reordered_rules now order rules) = set (map (with_step now order) rules)"
    using reordered_set [OF assms(1)] by simp
  ultimately have "mset (reordered_rules now order rules) = mset (map (with_step now order) rules)"
    using set_eq_iff_mset_eq_distinct by blast
  then show ?thesis by simp
qed

section \<open>What a request asks for\<close>

text \<open>The table as a list of rules, up to order: what a request changes when it succeeds.\<close>

fun rule_spec :: "'k world \<Rightarrow> rule_op \<Rightarrow> rule list \<Rightarrow> rule list \<Rightarrow> bool" where
  "rule_spec w (Create given data _) xs ys =
     (case checked_rule (w_na w) (if given then data else data\<lparr>rule_id := w_uuid w 0\<rparr>) of Inl _ \<Rightarrow> False
      | Inr q \<Rightarrow> priority q \<notin> set (map priority xs) \<and> mset ys = mset (q # xs))"
| "rule_spec w (CreateMany payloads) xs ys =
     (case check_payloads w 0 [] [] payloads of Inl _ \<Rightarrow> False
      | Inr (oid, rs) \<Rightarrow> set (map priority rs) \<inter> set (map priority xs) = {} \<and>
          mset ys = mset (map (\<lambda>r. r\<lparr>owner_id := (if owner_id r = [] then oid else owner_id r)\<rparr>) rs @ xs))"
| "rule_spec w (Update rid data) xs ys =
     (case find (\<lambda>r. rule_id r = rid) xs of None \<Rightarrow> False
      | Some old \<Rightarrow> (case checked_rule (w_na w) ((data old)\<lparr>rule_id := rid\<rparr>) of Inl _ \<Rightarrow> False
        | Inr q \<Rightarrow> priority q \<notin> set (map priority (filter (\<lambda>r. rule_id r \<noteq> rid) xs)) \<and>
            mset ys = mset (map (\<lambda>r. if rule_id r = rid then q else r) xs)))"
| "rule_spec w (Reorder oid order) xs ys =
     (mset ys = mset (map (\<lambda>r. if owner_id r = oid then with_step (w_now w) order r else r) xs))"
| "rule_spec w (Delete rid) xs ys = (mset ys = mset (filter (\<lambda>r. rule_id r \<noteq> rid) xs))"
| "rule_spec w (SetEnabled rid en) xs ys =
     (mset ys = mset (map (\<lambda>r. if rule_id r = rid then r\<lparr>enabled := en, r_updated_at := w_now w\<rparr> else r) xs))"

lemma found_unique:
  assumes "db_ok d" "find_firewall_rule_owner rid d = (Some oid, rules)" "r \<in> set (list_firewall_rules d)" "rule_id r = rid"
  shows "owner_id r = oid"
proof -
  obtain row where row: "row \<in> set (db_rules d)" "fr_id row = rid" "fr_owner_id row = oid"
    using assms(2) tbl_get_SomeD by (fastforce simp: find_firewall_rule_owner_def split: option.splits)
  have ok: "fw_row_ok row" using fw_rows [OF assms(1) row(1)] .
  have "strip (rule_id (fr_payload row)) = strip rid" using fw_row_okD(1) [OF ok] row(2) by (metis strip_idem)
  then have "fr_payload row = r" using same_id_same_rule [OF assms(1) _ assms(3)] row(1) assms(4) by (auto simp: listed_rules_set)
  then show ?thesis using fw_row_okD(2) [OF ok] row(3) by simp
qed

lemma update_by_index:
  assumes "distinct (map rule_id rules)" "index_of (\<lambda>r. rule_id r = rid) rules = Some idx"
  shows "rules[idx := q] = map (\<lambda>r. if rule_id r = rid then q else r) rules"
proof (rule nth_equalityI)
  note i = index_of_Some [OF assms(2)]
  fix j assume "j < length (rules[idx := q])"
  then show "rules[idx := q] ! j = map (\<lambda>r. if rule_id r = rid then q else r) rules ! j"
    using i assms(1) nth_eq_iff_index_eq [OF assms(1), of j idx] by (cases "j = idx") auto
qed simp

lemma set_first_enabled_map:
  "distinct (map rule_id rules) \<Longrightarrow> set_first_enabled rid en now rules =
     map (\<lambda>r. if rule_id r = rid then r\<lparr>enabled := en, r_updated_at := now\<rparr> else r) rules"
proof (induction rules)
  case (Cons a rules)
  have "map (\<lambda>r. if rule_id r = rid then r\<lparr>enabled := en, r_updated_at := now\<rparr> else r) rules = rules" if "rule_id a = rid"
  proof (rule map_idI)
    fix x assume "x \<in> set rules"
    then have "rule_id x \<in> rule_id ` set rules" by (rule imageI)
    then have "rule_id x \<noteq> rid" using Cons.prems that by auto
    then show "(if rule_id x = rid then x\<lparr>enabled := en, r_updated_at := now\<rparr> else x) = x" by simp
  qed
  then show ?case using Cons by simp
qed simp

lemma guarded_save_result:
  assumes "db_ok (s_db st)" "prepush_ok st" "\<forall>r\<in>set rs. owner_id r = oid"
    and "andthen (guarded_save w oid rs) (\<lambda>_. andthen (audit a b c x) (\<lambda>_. ret y)) st = Some (Inr z, st')"
  shows "mset (list_firewall_rules (s_db st')) = mset (filter (\<lambda>r. owner_id r \<noteq> oid) (list_firewall_rules (s_db st)) @ rs) \<and>
    refreshed w st' \<and> replace_firewall_owner oid rs (s_db st) = Inr (s_db st')"
  using assms(4)
proof (cases rule: audit_after)
  case (2 u s)
  have own: "\<forall>r\<in>set rs. owner_id r = oid \<or> owner_id r = []" using assms(3) by blast
  have g: "replace_firewall_owner oid rs (s_db st) = Inr (s_db s)" "refreshed w s"
    using guarded_save_cases [OF assms(1,2) own 2(1)] by auto
  then have "refreshed w st'" using 2 by (simp add: refreshed_def)
  then show ?thesis using saved_own_rules [OF assms(1) _ assms(3)] g(1) 2(3) by metis
qed simp

section \<open>Successful requests\<close>

lemma priorities_of: "all_priorities d = map priority (list_firewall_rules d)"
  by (simp add: all_priorities_def)

lemma saved_more:
  assumes "db_ok d" "replace_firewall_owner oid (load_owner_rules oid d @ rs) d = Inr d'"
  shows "mset (list_firewall_rules d') =
    mset (map (\<lambda>r. r\<lparr>owner_id := (if owner_id r = [] then oid else owner_id r)\<rparr>) rs @ list_firewall_rules d)"
proof -
  let ?f = "\<lambda>r. r\<lparr>owner_id := (if owner_id r = [] then oid else owner_id r)\<rparr>"
  have "map ?f (load_owner_rules oid d) = load_owner_rules oid d"
    using loaded_rules [OF assms(1)] by (intro map_idI) auto
  then have "mset (list_firewall_rules d') =
      mset (filter (\<lambda>r. owner_id r \<noteq> oid) (list_firewall_rules d)) + mset (load_owner_rules oid d) + mset (map ?f rs)"
    using saved_rules [OF assms] by (simp only: map_append mset_append add.assoc)
  also have "\<dots> = mset (list_firewall_rules d) + mset (map ?f rs)"
    by (simp only: own_rules [OF assms(1)] partition_mset)
  finally show ?thesis by (simp add: add.commute)
qed

lemma rule_create_refines:
  assumes "db_ok (s_db st)" "prepush_ok st" "rule_create w given data k st = Some (Inr z, st')"
  shows "rule_spec w (Create given data k) (list_firewall_rules (s_db st)) (list_firewall_rules (s_db st')) \<and> (k \<longrightarrow> refreshed w st')"
proof -
  obtain q where q: "checked_rule (w_na w) (if given then data else data\<lparr>rule_id := w_uuid w 0\<rparr>) = Inr q"
    using assms(3) by (cases "checked_rule (w_na w) (if given then data else data\<lparr>rule_id := w_uuid w 0\<rparr>)")
      (auto simp: rule_create_def throw_def)
  let ?oid = "owner_id q" and ?d = "s_db st"
  let ?had = "firewall_owner_exists ?oid ?d" and ?rs = "load_owner_rules ?oid ?d @ [q]"
  have fresh: "priority q \<notin> set (all_priorities ?d)"
    and go: "andthen (if k then push_rules w ?oid ?had ?rs else save_rules ?oid ?rs) (\<lambda>_.
        andthen (audit ''create_firewall_rule'' ''firewall_rule'' (rule_id q) ''success'') (\<lambda>_. ret q)) (arm ?had ?oid st) = Some (Inr z, st')"
    using assms(3) q by (auto simp: rule_create_def Let_def andthen_Some_iff backup_if_Some arm_def throw_def split: if_splits)
  obtain u s where u: "(if k then push_rules w ?oid ?had ?rs else save_rules ?oid ?rs) (arm ?had ?oid st) = Some (Inr u, s)"
    and s: "s_db st' = s_db s" "s_ccd st' = s_ccd s" "s_mgr st' = s_mgr s"
    using go by (cases rule: audit_after) auto
  have r: "replace_firewall_owner ?oid ?rs ?d = Inr (s_db s) \<and> (k \<longrightarrow> refreshed w s)"
    using u push_succeeds [OF assms(2) refl, of w ?oid ?rs s] by (auto simp: save_rules_Some split: if_splits)
  then have "refreshed w s \<Longrightarrow> refreshed w st'" using s by (simp add: refreshed_def)
  then show ?thesis
    using saved_more [OF assms(1), of ?oid "[q]" "s_db s"] r q fresh s(1) by (auto simp: priorities_of)
qed

lemma rule_create_many_refines:
  assumes "db_ok (s_db st)" "prepush_ok st" "rule_create_many w payloads st = Some (Inr z, st')"
  shows "rule_spec w (CreateMany payloads) (list_firewall_rules (s_db st)) (list_firewall_rules (s_db st')) \<and> refreshed w st'"
proof -
  obtain oid rs where c: "check_payloads w 0 [] [] payloads = Inr (oid, rs)" and ne: "payloads \<noteq> []"
    using assms(3) by (cases "check_payloads w 0 [] [] payloads") (auto simp: rule_create_many_def throw_def split: if_splits)
  let ?d = "s_db st"
  let ?had = "firewall_owner_exists oid ?d" and ?rs = "load_owner_rules oid ?d @ rs"
  have fresh: "set (map priority rs) \<inter> set (all_priorities ?d) = {}"
    and go: "andthen (push_rules w oid ?had ?rs) (\<lambda>_. andthen (audit ''create_firewall_rules_batch'' ''firewall_rule'' oid ''success'') (\<lambda>_. ret rs))
        (arm ?had oid st) = Some (Inr z, st')"
    using assms(3) c ne
    by (auto simp: rule_create_many_def Let_def andthen_Some_iff backup_if_Some arm_def throw_def list_ex_iff split: if_splits)
  obtain u s where u: "push_rules w oid ?had ?rs (arm ?had oid st) = Some (Inr u, s)"
    and s: "s_db st' = s_db s" "s_ccd st' = s_ccd s" "s_mgr st' = s_mgr s"
    using go by (cases rule: audit_after) auto
  have r: "replace_firewall_owner oid ?rs ?d = Inr (s_db s) \<and> refreshed w s"
    using u push_succeeds [OF assms(2) refl, of w oid ?rs s] by auto
  then have "refreshed w st'" using s by (simp add: refreshed_def)
  then show ?thesis
    using saved_more [OF assms(1), of oid rs "s_db s"] r c fresh s(1) by (simp add: priorities_of)
qed

lemma find_mset_eq: "mset ys = mset xs \<Longrightarrow> x \<in> set xs \<longleftrightarrow> x \<in> set ys"
  by (metis set_mset_mset)

lemma rule_update_refines:
  assumes "db_ok (s_db st)" "prepush_ok st" "\<forall>r. owner_id (data r) = owner_id r" "rule_update_by_id w rid data st = Some (Inr z, st')"
  shows "rule_spec w (Update rid data) (list_firewall_rules (s_db st)) (list_firewall_rules (s_db st')) \<and> refreshed w st'"
proof -
  let ?xs = "list_firewall_rules (s_db st)"
  obtain o1 rules where f: "find_firewall_rule_owner rid (s_db st) = (o1, rules)" by fastforce
  obtain oid where o1: "o1 = Some oid" using assms(4) f by (cases o1) (auto simp: rule_update_by_id_def throw_def)
  obtain idx where idx: "index_of (\<lambda>r. rule_id r = rid) rules = Some idx"
    using assms(4) f o1 by (cases "index_of (\<lambda>r. rule_id r = rid) rules") (auto simp: rule_update_by_id_def throw_def)
  let ?old = "rules ! idx"
  obtain q where q: "checked_rule (w_na w) ((data ?old)\<lparr>rule_id := rid\<rparr>) = Inr q"
    using assms(4) f o1 idx by (cases "checked_rule (w_na w) ((data ?old)\<lparr>rule_id := rid\<rparr>)") (auto simp: rule_update_by_id_def throw_def)
  have fresh: "priority q \<notin> set (map priority (filter (\<lambda>r. rule_id r \<noteq> rid) ?xs))"
    and go: "andthen (guarded_save w oid (rules[idx := q])) (\<lambda>_. andthen (audit ''update_firewall_rule'' ''firewall_rule'' rid ''success'') (\<lambda>_. ret q)) st = Some (Inr z, st')"
    using assms(4) f o1 idx q by (auto simp: rule_update_by_id_def throw_def split: if_splits)
  have rules: "rules = load_owner_rules oid (s_db st)" using found_owner f o1 by blast
  note i = index_of_Some [OF idx]
  have old: "?old \<in> set ?xs" "owner_id ?old = oid" using i own_rules_set [OF assms(1), of oid] rules nth_mem by fastforce+
  have upd: "rules[idx := q] = map (\<lambda>r. if rule_id r = rid then q else r) rules"
    using update_by_index [OF _ idx] own_ids_distinct [OF assms(1)] rules by simp
  have qo: "owner_id q = oid" using checked_rule_fields(2) [OF q] assms(3) old(2) by simp
  have own: "\<forall>r\<in>set (rules[idx := q]). owner_id r = oid"
    using qo loaded_rules [OF assms(1)] rules unfolding upd by auto
  note g = guarded_save_result [OF assms(1,2) own go]
  have "mset (filter (\<lambda>r. owner_id r \<noteq> oid) ?xs @ rules[idx := q]) = mset (map (\<lambda>r. if rule_id r = rid then q else r) ?xs)"
  proof (rule map_own)
    show "mset (rules[idx := q]) = image_mset (\<lambda>r. if rule_id r = rid then q else r) (mset (filter (\<lambda>r. owner_id r = oid) ?xs))"
      unfolding upd using own_rules [OF assms(1), of oid] rules by simp
    show "\<forall>r\<in>set ?xs. owner_id r \<noteq> oid \<longrightarrow> (if rule_id r = rid then q else r) = r"
      using found_unique [OF assms(1)] f o1 by auto
  qed
  moreover have "find (\<lambda>r. rule_id r = rid) ?xs = Some ?old"
    using find_id_distinct [OF ids_distinct [OF assms(1)] old(1)] i by simp
  ultimately show ?thesis using g q fresh by simp
qed

lemma rule_reorder_refines:
  assumes "db_ok (s_db st)" "prepush_ok st" "strip oid \<noteq> []" "rule_reorder w oid order st = Some (Inr z, st')"
  shows "rule_spec w (Reorder oid order) (list_firewall_rules (s_db st)) (list_firewall_rules (s_db st')) \<and> refreshed w st'"
proof -
  let ?xs = "list_firewall_rules (s_db st)" and ?own = "load_owner_rules oid (s_db st)"
  let ?rs = "reordered_rules (w_now w) order ?own" and ?f = "\<lambda>r. if owner_id r = oid then with_step (w_now w) order r else r"
  have own: "\<forall>r\<in>set ?rs. owner_id r = oid"
    using reordered_owner loaded_rules [OF assms(1)] by metis
  have "andthen (guarded_save w oid ?rs) (\<lambda>_. andthen (audit ''reorder_firewall_rules'' ''firewall_rule'' oid ''success'') (\<lambda>_. ret True)) st = Some (Inr z, st')"
    using assms(3,4) by (simp add: rule_reorder_def rule_reorder_owner_def)
  note g = guarded_save_result [OF assms(1,2) own this]
  obtain rows where rows: "mapM (firewall_values oid) ?rs = Inr rows" "distinct (map fr_id rows)"
    using g by (auto simp: replace_firewall_owner_iff)
  have "map fr_id rows = map (\<lambda>r. strip (rule_id r)) ?rs"
    using rows(1) unfolding mapM_Inr_iff by (induction rule: list_all2_induct) (simp_all add: firewall_values_InrD(1))
  then have "distinct (map (\<lambda>r. strip (rule_id r)) ?rs)" using rows(2) by simp
  then have "distinct (map rule_id ?rs)" by (auto simp: distinct_map inj_on_def)
  note m = reordered_mset [OF own_ids_distinct [OF assms(1)] this]
  have "mset (filter (\<lambda>r. owner_id r \<noteq> oid) ?xs @ ?rs) = mset (map ?f ?xs)"
  proof (rule map_own)
    have "image_mset (with_step (w_now w) order) (filter_mset (\<lambda>r. owner_id r = oid) (mset ?xs)) =
        image_mset ?f (filter_mset (\<lambda>r. owner_id r = oid) (mset ?xs))" by (intro image_mset_cong) auto
    then show "mset ?rs = image_mset ?f (mset (filter (\<lambda>r. owner_id r = oid) ?xs))"
      using m own_rules [OF assms(1), of oid] by simp
  qed simp
  then show ?thesis using g by simp
qed

lemma rule_delete_refines:
  assumes "db_ok (s_db st)" "prepush_ok st" "\<not> starts_with rid ce_peer_rule_prefix" "rule_delete w rid st = Some (Inr z, st')"
  shows "rule_spec w (Delete rid) (list_firewall_rules (s_db st)) (list_firewall_rules (s_db st')) \<and> refreshed w st'"
proof -
  let ?xs = "list_firewall_rules (s_db st)"
  obtain o1 rules where f: "find_firewall_rule_owner rid (s_db st) = (o1, rules)" by fastforce
  obtain oid where o1: "o1 = Some oid" using assms(3,4) f by (cases o1) (auto simp: rule_delete_def throw_def)
  have rules: "rules = load_owner_rules oid (s_db st)" using found_owner f o1 by blast
  let ?rs = "filter (\<lambda>r. rule_id r \<noteq> rid) rules"
  have own: "\<forall>r\<in>set ?rs. owner_id r = oid" using loaded_rules [OF assms(1)] rules by auto
  have "andthen (guarded_save w oid ?rs) (\<lambda>_. andthen (audit ''delete_firewall_rule'' ''firewall_rule'' rid ''success'') (\<lambda>_. ret True)) st = Some (Inr z, st')"
    using assms(3,4) f o1 by (simp add: rule_delete_def)
  note g = guarded_save_result [OF assms(1,2) own this]
  have "mset (filter (\<lambda>r. owner_id r \<noteq> oid) ?xs @ ?rs) = mset (filter (\<lambda>r. rule_id r \<noteq> rid) ?xs)"
  proof (rule filter_own)
    show "mset ?rs = filter_mset (\<lambda>r. rule_id r \<noteq> rid) (mset (filter (\<lambda>r. owner_id r = oid) ?xs))"
      using own_rules [OF assms(1), of oid] rules by simp
    show "\<forall>r\<in>set ?xs. owner_id r \<noteq> oid \<longrightarrow> rule_id r \<noteq> rid"
      using found_unique [OF assms(1)] f o1 by auto
  qed
  then show ?thesis using g by simp
qed

lemma rule_set_enabled_refines:
  assumes "db_ok (s_db st)" "prepush_ok st" "\<not> starts_with rid ce_peer_rule_prefix" "rule_set_enabled w rid en st = Some (Inr z, st')"
  shows "rule_spec w (SetEnabled rid en) (list_firewall_rules (s_db st)) (list_firewall_rules (s_db st')) \<and> refreshed w st'"
proof -
  let ?xs = "list_firewall_rules (s_db st)"
  let ?f = "\<lambda>r. if rule_id r = rid then r\<lparr>enabled := en, r_updated_at := w_now w\<rparr> else r"
  obtain o1 rules where f: "find_firewall_rule_owner rid (s_db st) = (o1, rules)" by fastforce
  obtain oid where o1: "o1 = Some oid" using assms(3,4) f by (cases o1) (auto simp: rule_set_enabled_def throw_def)
  have rules: "rules = load_owner_rules oid (s_db st)" using found_owner f o1 by blast
  let ?rs = "set_first_enabled rid en (w_now w) rules"
  have eq: "?rs = map ?f rules" using set_first_enabled_map own_ids_distinct [OF assms(1)] rules by simp
  have own: "\<forall>r\<in>set ?rs. owner_id r = oid" using loaded_rules [OF assms(1)] rules unfolding eq by auto
  have "andthen (guarded_save w oid ?rs) (\<lambda>_. andthen (audit ''toggle_firewall_rule'' ''firewall_rule'' rid ''success'') (\<lambda>_. ret True)) st = Some (Inr z, st')"
    using assms(3,4) f o1 by (simp add: rule_set_enabled_def)
  note g = guarded_save_result [OF assms(1,2) own this]
  have "mset (filter (\<lambda>r. owner_id r \<noteq> oid) ?xs @ ?rs) = mset (map ?f ?xs)"
  proof (rule map_own)
    show "mset ?rs = image_mset ?f (mset (filter (\<lambda>r. owner_id r = oid) ?xs))"
      unfolding eq using own_rules [OF assms(1), of oid] rules by simp
    show "\<forall>r\<in>set ?xs. owner_id r \<noteq> oid \<longrightarrow> ?f r = r"
      using found_unique [OF assms(1)] f o1 by auto
  qed
  then show ?thesis using g by simp
qed

lemma rule_step_refines:
  assumes "db_ok (s_db st)" "prepush_ok st" "local_op op" "rule_step w op st = Some (Inr u, st')"
  shows "rule_spec w op (list_firewall_rules (s_db st)) (list_firewall_rules (s_db st')) \<and> (pushes op \<longrightarrow> refreshed w st')"
proof -
  have void: "\<exists>z. m st = Some (Inr z, st')" if "andthen m (\<lambda>_. ret ()) st = Some (Inr u, st')" for m :: "('a sys, 'b) stact"
    using that by (auto simp: andthen_Some_iff ret_def)
  show ?thesis
  proof (cases op)
    case (Create given data k)
    then obtain z where "rule_create w given data k st = Some (Inr z, st')" using assms(4) void by fastforce
    from rule_create_refines [OF assms(1,2) this] show ?thesis unfolding Create by simp
  next
    case (CreateMany payloads)
    then obtain z where "rule_create_many w payloads st = Some (Inr z, st')" using assms(4) void by fastforce
    from rule_create_many_refines [OF assms(1,2) this] show ?thesis unfolding CreateMany by simp
  next
    case (Update rid data)
    then obtain z where r: "rule_update_by_id w rid data st = Some (Inr z, st')" using assms(4) void by fastforce
    have "\<forall>r. owner_id (data r) = owner_id r" using assms(3) Update by simp
    from rule_update_refines [OF assms(1,2) this r] show ?thesis unfolding Update by simp
  next
    case (Reorder oid order)
    then obtain z where r: "rule_reorder w oid order st = Some (Inr z, st')" using assms(4) void by fastforce
    have "strip oid \<noteq> []" using assms(3) Reorder by simp
    from rule_reorder_refines [OF assms(1,2) this r] show ?thesis unfolding Reorder by simp
  next
    case (Delete rid)
    then obtain z where r: "rule_delete w rid st = Some (Inr z, st')" using assms(4) void by fastforce
    have "\<not> starts_with rid ce_peer_rule_prefix" using assms(3) Delete by simp
    from rule_delete_refines [OF assms(1,2) this r] show ?thesis unfolding Delete by simp
  next
    case (SetEnabled rid en)
    then obtain z where r: "rule_set_enabled w rid en st = Some (Inr z, st')" using assms(4) void by fastforce
    have "\<not> starts_with rid ce_peer_rule_prefix" using assms(3) SetEnabled by simp
    from rule_set_enabled_refines [OF assms(1,2) this r] show ?thesis unfolding SetEnabled by simp
  qed
qed

end
