(* ===== verification/Stored_Policy.thy ===== *)
theory Stored_Policy
  imports Tags_Props
begin

text \<open>
  What the stored data decide about a packet, read off the tables without the code that plans the chain: a list of
  stored rules and peer sites in order of priority, of which the first that covers the packet decides.  A rule of a tag covers
  the addresses of the tag's active groups and users, a peer site the networks behind it while its forwarding is switched on.
  The lemmas show that the merged plan, which the code computes through resolved rules, collected sites and two
  sorts, decides every packet the same way.
\<close>

section \<open>The policy of the tables\<close>

datatype stored_item = SRule rule | SPeer peer

fun item_rank :: "stored_item \<Rightarrow> int \<times> nat" where
  "item_rank (SRule r) = (priority r, 0)"
| "item_rank (SPeer p) = (center_forward_priority p, 1)"

text \<open>A smaller priority first, a rule before a site of the same priority, otherwise in the order of the listings.\<close>

definition stored_items :: "db \<Rightarrow> stored_item list" where
  "stored_items d = sort_key item_rank (map SRule (list_firewall_rules d) @ map SPeer (list_peers d))"

text \<open>The second word of the first line that assigns an address.\<close>

definition assigns_ip :: "string \<Rightarrow> string \<Rightarrow> bool" where
  "assigns_ip l ip \<longleftrightarrow> (\<exists>ws. py_words (strip l) = ''ifconfig-push'' # ip # ws)"

definition fixed_ip :: "string \<Rightarrow> string \<Rightarrow> bool" where
  "fixed_ip content ip \<longleftrightarrow> (\<exists>before l after. splitlines content = before @ l # after \<and> assigns_ip l ip \<and>
     (\<forall>b\<in>set before. \<forall>i. \<not> assigns_ip b i))"

definition has_address :: "(string \<Rightarrow> bool) \<Rightarrow> (string \<times> string) list \<Rightarrow> string \<Rightarrow> nat \<Rightarrow> bool" where
  "has_address fault ccd name a \<longleftrightarrow> (\<exists>content ip. (name, content) \<in> set ccd \<and> \<not> fault name \<and> fixed_ip content ip \<and>
     strip ip \<noteq> [] \<and> addr_in (strip ip) a)"

definition tagged_group :: "db \<Rightarrow> string \<Rightarrow> group \<Rightarrow> bool" where
  "tagged_group d tid g \<longleftrightarrow> g \<in> set (db_groups d) \<and> g_status g = GActive \<and> (tid, g_id g) \<in> set (db_group_tags d)"

definition tagged_user :: "db \<Rightarrow> string \<Rightarrow> user \<Rightarrow> bool" where
  "tagged_user d tid u \<longleftrightarrow> u \<in> set (db_users d) \<and> u_status u = UActive \<and>
     ((tid, username u) \<in> set (db_user_tags d) \<or> (\<exists>g. tagged_group d tid g \<and> group_id u = g_id g))"

definition tag_covers :: "(string \<Rightarrow> bool) \<Rightarrow> (string \<times> string) list \<Rightarrow> db \<Rightarrow> string \<Rightarrow> nat \<Rightarrow> bool" where
  "tag_covers fault ccd d tid a \<longleftrightarrow>
     (\<exists>g. tagged_group d tid g \<and> strip (g_subnet g) \<noteq> [] \<and> addr_in (strip (g_subnet g)) a) \<or>
     (\<exists>u. tagged_user d tid u \<and> has_address fault ccd (username u) a)"

definition stored_source :: "(string \<Rightarrow> bool) \<Rightarrow> (string \<times> string) list \<Rightarrow> db \<Rightarrow> rule \<Rightarrow> nat \<Rightarrow> bool" where
  "stored_source fault ccd d r a =
     (if owner_type r = OTag then tag_covers fault ccd d (owner_id r) a
      else if strip_all (source_list r) \<noteq> [] then addrs_in (strip_all (source_list r)) a
      else opt_str (source_subnet r) = [] \<or> addr_in (opt_str (source_subnet r)) a)"

definition peer_proto :: "peer \<Rightarrow> string" where
  "peer_proto p = (let q = lower (strip (center_forward_protocol p)) in if q = [] \<or> q = ''any'' then ''all'' else q)"

fun item_covers :: "(string \<Rightarrow> bool) \<Rightarrow> (string \<times> string) list \<Rightarrow> db \<Rightarrow> packet \<Rightarrow> stored_item \<Rightarrow> bool" where
  "item_covers fault ccd d pkt (SRule r) \<longleftrightarrow> enabled r \<and> deployment_target r = Center \<and> stored_source fault ccd d r (pk_src pkt) \<and>
     dest_covers (dest_tokens_of (dest_ip r)) pkt \<and>
     service_covers (norm_proto (protocol r)) (strip (opt_str (dest_port r))) (ports_allowed (strip (opt_str (dest_port r)))) pkt"
| "item_covers fault ccd d pkt (SPeer p) \<longleftrightarrow> strip (p_id p) \<noteq> [] \<and> center_forward_enabled p \<and>
     addrs_in (strip_all (lan_cidrs p)) (pk_src pkt) \<and> dest_covers (comma_tokens (strip (center_forward_dest_ip p))) pkt \<and>
     service_covers (peer_proto p) (strip (center_forward_dest_port p)) (ports_allowed (strip (center_forward_dest_port p))) pkt"

fun item_target :: "stored_item \<Rightarrow> string" where
  "item_target (SRule r) = (case action r of AAccept \<Rightarrow> ''ACCEPT'' | ADrop \<Rightarrow> ''DROP'' | AReject \<Rightarrow> ''REJECT'')"
| "item_target (SPeer p) = ''ACCEPT''"

text \<open>No item that covers: the chain decides nothing.\<close>

definition stored_verdict :: "'k world \<Rightarrow> 'k sys \<Rightarrow> packet \<Rightarrow> string option" where
  "stored_verdict w st pkt =
     map_option item_target (find (item_covers (w_ccd_fault w) (s_ccd st) (s_db st) pkt) (stored_items (s_db st)))"

text \<open>The plan the code makes from the same tables.\<close>

definition stored_policy :: "'k world \<Rightarrow> 'k sys \<Rightarrow> (int \<times> fwd_entry) list" where
  "stored_policy w st = fst (build_merged_forward_entries (projr (enabled_rules w st)) (collect_center_peers (s_db st)))"

text \<open>Port fields that name at least one port or are blank: \<open>validate_dest_port\<close> accepts a field of
  commas alone and turns it into an empty one.\<close>

definition ports_usable :: "db \<Rightarrow> bool" where
  "ports_usable d \<longleftrightarrow> list_all (\<lambda>r. port_ok (strip (opt_str (dest_port r)))) (list_firewall_rules d) \<and>
     list_all (\<lambda>p. port_ok (strip (center_forward_dest_port p))) (list_peers d)"

section \<open>Stable sorting\<close>

lemma sort_key_prefix: "sort_key k (sort_key k xs @ ys) = sort_key k (xs @ ys)"
proof (rule properties_for_sort_key [symmetric])
  show "mset (sort_key k (sort_key k xs @ ys)) = mset (xs @ ys)" by simp
  show "filter (\<lambda>x. k a = k x) (sort_key k (sort_key k xs @ ys)) = filter (\<lambda>x. k a = k x) (xs @ ys)" for a
    using sort_key_stable [of k "k a"] by (simp add: eq_commute [of "k a"])
qed simp

lemma map_filter_mem: "e \<in> set (List.map_filter f xs) \<longleftrightarrow> (\<exists>x\<in>set xs. f x = Some e)"
  by (induction xs) (auto simp: List.map_filter_simps split: option.split)

lemma map_filter_insort:
  assumes ord: "\<forall>x y e e'. f x = Some e \<longrightarrow> f y = Some e' \<longrightarrow> (k' x \<le> k' y \<longleftrightarrow> k e \<le> k e')"
    and "sorted (map k' ys)"
  shows "List.map_filter f (insort_key k' x ys) = (case f x of None \<Rightarrow> List.map_filter f ys | Some e \<Rightarrow> insort_key k e (List.map_filter f ys))"
  using assms(2)
proof (induction ys)
  case Nil
  then show ?case by (simp add: List.map_filter_simps split: option.split)
next
  case (Cons y ys)
  show ?case
  proof (cases "f x")
    case None
    then show ?thesis using Cons by (simp add: List.map_filter_simps split: option.split)
  next
    case (Some e)
    show ?thesis
    proof (cases "k' x \<le> k' y")
      case True
      have "k e \<le> k e'" if "e' \<in> set (List.map_filter f (y # ys))" for e'
      proof -
        from that obtain z where z: "z \<in> set (y # ys)" "f z = Some e'" unfolding map_filter_mem by blast
        then have "k' x \<le> k' z" using True Cons.prems by auto
        then show ?thesis using ord Some z(2) by blast
      qed
      then have "insort_key k e (List.map_filter f (y # ys)) = e # List.map_filter f (y # ys)" by (intro insort_is_Cons) auto
      then show ?thesis using True Some by (simp add: List.map_filter_simps)
    next
      case False
      have "k e \<le> k e' \<longleftrightarrow> False" if "f y = Some e'" for e' using ord Some that False by blast
      then show ?thesis using Cons Some False by (auto simp: List.map_filter_simps split: option.split)
    qed
  qed
qed

lemma map_filter_sort:
  assumes "\<forall>x y e e'. f x = Some e \<longrightarrow> f y = Some e' \<longrightarrow> (k' x \<le> k' y \<longleftrightarrow> k e \<le> k e')"
  shows "List.map_filter f (sort_key k' xs) = sort_key k (List.map_filter f xs)"
proof (induction xs)
  case (Cons x xs)
  have "sorted (map k' (sort_key k' xs))" by simp
  from map_filter_insort [OF assms this, of x] Cons.IH show ?case by (simp add: List.map_filter_simps split: option.split)
qed (simp add: List.map_filter_simps)

lemma find_map_filter:
  assumes "\<And>x. x \<in> set xs \<Longrightarrow> P x \<longleftrightarrow> (\<exists>e. f x = Some e \<and> Q e)" "\<And>x e. x \<in> set xs \<Longrightarrow> f x = Some e \<Longrightarrow> h e = g x"
  shows "map_option h (find Q (List.map_filter f xs)) = map_option g (find P xs)"
  using assms by (induction xs) (auto simp: List.map_filter_simps split: option.split)

lemma map_filter_append': "List.map_filter f (xs @ ys) = List.map_filter f xs @ List.map_filter f ys"
  by (simp add: List.map_filter_def)

section \<open>The plan as a filtered list of stored items\<close>

definition entry_of :: "(string \<times> string) list \<Rightarrow> db \<Rightarrow> stored_item \<Rightarrow> (int \<times> fwd_entry) option" where
  "entry_of ips d it = (case it of
     SRule r \<Rightarrow> (case resolve_one ips d r of Inr [x] \<Rightarrow> if deployment_target x = Center then Some (priority x, RuleFwd x) else None | _ \<Rightarrow> None)
   | SPeer p \<Rightarrow> map_option (\<lambda>c. (cp_priority c, PeerFwd (strip (cp_id c)) (strip_all (cp_cidrs c)) (cp_extra c))) (center_peer_of p))"

lemma resolve_one_shape:
  assumes "resolve_one ips d r = Inr out"
  shows "out = [] \<or> (\<exists>x. out = [x])"
  using assms by (auto simp: resolve_one_def rbind_Inr_iff split: if_splits)

lemma entry_of_rank: "entry_of ips d it = Some e \<Longrightarrow> entry_rank e = item_rank it"
proof (cases it)
  case (SRule r)
  assume e: "entry_of ips d it = Some e"
  then obtain x where x: "resolve_one ips d r = Inr [x]" "e = (priority x, RuleFwd x)"
    by (auto simp: entry_of_def SRule split: sum.splits list.splits if_splits)
  then show ?thesis using resolve_one_cases [OF x(1), of x] by (simp add: SRule)
next
  case (SPeer p)
  assume "entry_of ips d it = Some e"
  then show ?thesis by (auto simp: entry_of_def SPeer center_peer_of_def split: if_splits)
qed

lemma resolved_entries:
  assumes "mapM (resolve_one ips d) rs = Inr l"
  shows "List.map_filter (entry_of ips d) (map SRule rs) = rule_entries (concat l)"
  using assms
proof (induction rs arbitrary: l)
  case Nil
  then show ?case by (simp add: rule_entries_def List.map_filter_simps)
next
  case (Cons r rs)
  then obtain out l' where o: "resolve_one ips d r = Inr out" "mapM (resolve_one ips d) rs = Inr l'" "l = out # l'"
    by (auto simp: rbind_Inr_iff)
  consider "out = []" | x where "out = [x]" using resolve_one_shape [OF o(1)] by blast
  then show ?case
  proof cases
    case 1
    then have "entry_of ips d (SRule r) = None" using o(1) by (simp add: entry_of_def)
    then show ?thesis using Cons.IH [OF o(2)] o(3) 1 by (simp add: List.map_filter_simps)
  next
    case (2 x)
    then have "entry_of ips d (SRule r) = (if deployment_target x = Center then Some (priority x, RuleFwd x) else None)"
      using o(1) by (simp add: entry_of_def)
    moreover have "enabled x" using resolve_one_cases [OF o(1), of x] 2 by simp
    ultimately show ?thesis using Cons.IH [OF o(2)] o(3) 2 by (simp add: rule_entries_def List.map_filter_simps)
  qed
qed

lemma collected_entries:
  "List.map_filter (entry_of ips d) (map SPeer ps) = peer_entries (List.map_filter center_peer_of ps)"
proof (induction ps)
  case (Cons p ps)
  have "strip_all (cp_cidrs c) \<noteq> []" if "center_peer_of p = Some c" for c
  proof -
    have "strip_all (lan_cidrs p) \<noteq> []" "cp_cidrs c = strip_all (lan_cidrs p)" using that by (auto simp: center_peer_of_def split: if_splits)
    then show ?thesis by simp
  qed
  then show ?case using Cons
    by (auto simp: entry_of_def peer_entries_def List.map_filter_simps split: option.split)
qed (simp add: peer_entries_def List.map_filter_simps)

lemma sorted_rule_entries:
  "rule_entries (sort_key priority rs) = sort_key entry_rank (rule_entries rs)"
proof -
  let ?f = "\<lambda>r. if enabled r \<and> deployment_target r = Center then Some (priority r, RuleFwd r) else None"
  have eq: "rule_entries xs = List.map_filter ?f xs" for xs
    by (induction xs) (auto simp: rule_entries_def List.map_filter_simps)
  show ?thesis unfolding eq by (rule map_filter_sort) (auto split: if_splits)
qed

lemma plan_filters_items:
  assumes "enabled_rules w st = Inr rules"
  shows "stored_policy w st =
    List.map_filter (entry_of (list_ccd_ips (w_ccd_fault w) (s_ccd st)) (s_db st)) (stored_items (s_db st))"
proof -
  let ?ips = "list_ccd_ips (w_ccd_fault w) (s_ccd st)" and ?d = "s_db st"
  let ?f = "entry_of ?ips ?d"
  obtain l where l: "mapM (resolve_one ?ips ?d) (list_firewall_rules ?d) = Inr l" "rules = sort_key priority (concat l)"
    using assms resolve_tag_rules_InrD unfolding enabled_rules_def by blast
  have "List.map_filter ?f (stored_items ?d) =
      sort_key entry_rank (List.map_filter ?f (map SRule (list_firewall_rules ?d) @ map SPeer (list_peers ?d)))"
    unfolding stored_items_def by (rule map_filter_sort) (auto dest!: entry_of_rank)
  also have "\<dots> = sort_key entry_rank (rule_entries (concat l) @ peer_entries (collect_center_peers ?d))"
    by (simp only: map_filter_append' resolved_entries [OF l(1)] collected_entries collect_center_peers_def)
  also have "\<dots> = sort_key entry_rank (rule_entries rules @ peer_entries (collect_center_peers ?d))"
    by (simp only: l(2) sorted_rule_entries sort_key_prefix)
  finally show ?thesis using assms by (simp add: stored_policy_def build_merged_forward_entries_def)
qed

section \<open>An item and its entry\<close>

lemma validate_again:
  assumes "validate_dest_port v = Inr u" "port_ok (strip (opt_str v))"
  shows "validate_dest_port u = Inr u"
proof (cases "strip (opt_str v) = []")
  case True
  then show ?thesis using assms(1) by (cases v) (auto simp: validate_dest_port_def)
next
  case False
  then obtain s where v: "v = Some s" by (cases v) auto
  then obtain t where u: "u = Some t" using assms(1) False validate_dest_port_map by (metis opt_str_simps(2))
  have "strip t \<noteq> []" using validated_port [OF assms] False u by simp
  then have "t \<noteq> []" by (auto simp: strip_def lstrip_def rstrip_def)
  then show ?thesis using validate_dest_port_law assms(1) v u by blast
qed

lemma mk_rule_again:
  assumes "mk_rule r = Inr x" "port_ok (strip (opt_str (dest_port r)))"
  shows "mk_rule x = Inr x"
proof -
  obtain u where u: "validate_dest_port (dest_port r) = Inr u" "x = r\<lparr>dest_port := u\<rparr>" using mk_rule_InrD [OF assms(1)] by blast
  then show ?thesis using validate_again [OF u(1) assms(2)] by (simp add: mk_rule_def)
qed

lemma ports_again:
  assumes "mk_rule r = Inr x" "port_ok (strip (opt_str (dest_port r)))"
  shows "service_covers proto (strip (opt_str (dest_port x))) (ports_allowed (strip (opt_str (dest_port x)))) pkt =
    service_covers proto (strip (opt_str (dest_port r))) (ports_allowed (strip (opt_str (dest_port r)))) pkt"
proof -
  obtain u where u: "validate_dest_port (dest_port r) = Inr u" "x = r\<lparr>dest_port := u\<rparr>" using mk_rule_InrD [OF assms(1)] by blast
  have v: "validate_dest_port u = Inr u" by (rule validate_again [OF u(1) assms(2)])
  have "port_ok (strip (opt_str u))" using validated_port [OF u(1) assms(2)] by blast
  from service_validated [OF v this] service_validated [OF u(1) assms(2)] show ?thesis by (simp add: u(2))
qed

lemma first_split:
  "(\<exists>before l after. x # ls = before @ l # after \<and> A l \<and> (\<forall>b\<in>set before. N b)) \<longleftrightarrow>
   A x \<or> (N x \<and> (\<exists>before l after. ls = before @ l # after \<and> A l \<and> (\<forall>b\<in>set before. N b)))"
proof
  assume "\<exists>before l after. x # ls = before @ l # after \<and> A l \<and> (\<forall>b\<in>set before. N b)"
  then obtain before l after where s: "x # ls = before @ l # after" "A l" "\<forall>b\<in>set before. N b" by blast
  then show "A x \<or> (N x \<and> (\<exists>before l after. ls = before @ l # after \<and> A l \<and> (\<forall>b\<in>set before. N b)))"
    by (cases before) auto
next
  assume "A x \<or> (N x \<and> (\<exists>before l after. ls = before @ l # after \<and> A l \<and> (\<forall>b\<in>set before. N b)))"
  then show "\<exists>before l after. x # ls = before @ l # after \<and> A l \<and> (\<forall>b\<in>set before. N b)"
  proof
    assume "A x"
    then show ?thesis by (intro exI [of _ "[]"] exI [of _ x] exI [of _ ls]) simp
  next
    assume "N x \<and> (\<exists>before l after. ls = before @ l # after \<and> A l \<and> (\<forall>b\<in>set before. N b))"
    then obtain before l after where "N x" "ls = before @ l # after" "A l" "\<forall>b\<in>set before. N b" by blast
    then show ?thesis by (intro exI [of _ "x # before"] exI [of _ l] exI [of _ after]) simp
  qed
qed

lemma fixed_ip_iff: "first_ifconfig_ip content = Some ip \<longleftrightarrow> fixed_ip content ip"
proof -
  have one: "ifconfig_ip l = Some i \<longleftrightarrow> assigns_ip l i" for l i
    by (auto simp: ifconfig_ip_def assigns_ip_def split: list.splits)
  have none: "(\<forall>i. \<not> assigns_ip l i) \<longleftrightarrow> ifconfig_ip l = None" for l
    unfolding one [symmetric] by simp
  have "(case List.map_filter ifconfig_ip ls of [] \<Rightarrow> None | i # _ \<Rightarrow> Some i) = Some ip \<longleftrightarrow>
      (\<exists>before l after. ls = before @ l # after \<and> ifconfig_ip l = Some ip \<and> (\<forall>b\<in>set before. ifconfig_ip b = None))" for ls
  proof (induction ls)
    case (Cons l ls)
    then show ?case unfolding first_split by (cases "ifconfig_ip l") (simp_all add: List.map_filter_simps)
  qed (simp add: List.map_filter_simps)
  then show ?thesis by (simp add: first_ifconfig_ip_def fixed_ip_def none one)
qed

lemma ccd_ips_lookup:
  assumes "distinct (map fst ccd)"
  shows "map_of (list_ccd_ips fault ccd) name = Some ip \<longleftrightarrow> (\<exists>content. (name, content) \<in> set ccd \<and> \<not> fault name \<and> fixed_ip content ip)"
  using assms
proof (induction ccd)
  case (Cons e ccd)
  obtain n c where e: "e = (n, c)" by (cases e)
  have n: "\<nexists>x. (n, x) \<in> set ccd" using Cons.prems e by force
  have IH: "map_of (list_ccd_ips fault ccd) name = Some ip \<longleftrightarrow> (\<exists>content. (name, content) \<in> set ccd \<and> \<not> fault name \<and> fixed_ip content ip)"
    using Cons by simp
  have step: "list_ccd_ips fault (e # ccd) =
      (if fault n then list_ccd_ips fault ccd else case first_ifconfig_ip c of None \<Rightarrow> list_ccd_ips fault ccd
       | Some i \<Rightarrow> (n, i) # list_ccd_ips fault ccd)"
    by (simp add: list_ccd_ips_def e List.map_filter_simps split: option.split)
  show ?case
  proof (cases "name = n")
    case False
    then have "map_of (list_ccd_ips fault (e # ccd)) name = map_of (list_ccd_ips fault ccd) name"
      unfolding step by (simp split: option.split)
    then show ?thesis using IH False e by simp
  next
    case True
    have absent: "map_of (list_ccd_ips fault ccd) name = None"
    proof (rule ccontr)
      assume "map_of (list_ccd_ips fault ccd) name \<noteq> None"
      then obtain i where "(n, i) \<in> set (list_ccd_ips fault ccd)" using map_of_SomeD True by fast
      then show False using n by (auto simp: list_ccd_ips_def map_filter_mem split: if_splits)
    qed
    have "map_of (list_ccd_ips fault (e # ccd)) name = Some ip \<longleftrightarrow> \<not> fault n \<and> fixed_ip c ip"
      unfolding step fixed_ip_iff [symmetric] using absent True by (simp split: option.split)
    then show ?thesis using n True e by auto
  qed
qed (simp add: list_ccd_ips_def List.map_filter_simps)

lemma tag_covers_law:
  assumes ok: "db_ok d" and ccd: "distinct (map fst ccd)"
    and addrs: "resolve_addresses tid (list_ccd_ips fault ccd) d = Inr out"
  shows "addrs_in out a \<longleftrightarrow> tag_covers fault ccd d tid a"
proof -
  have users: "get_user n d = Some u \<longleftrightarrow> u \<in> set (db_users d) \<and> username u = n" for n u
    using ok by (simp add: db_ok_def users_ok_def get_user_def tbl_get_iff)
  have groups: "get_group n d = Some g \<longleftrightarrow> g \<in> set (db_groups d) \<and> g_id g = n" for n g
    using ok by (simp add: db_ok_def groups_ok_def get_group_def tbl_get_iff)
  have "group_active gid d \<longleftrightarrow> (\<exists>g. get_group gid d = Some g \<and> g_status g = GActive)" for gid
    by (simp add: group_active_def split: option.split)
  then have act: "group_active gid d \<longleftrightarrow> (\<exists>g\<in>set (db_groups d). g_id g = gid \<and> g_status g = GActive)" for gid
    using groups by blast
  have sub: "g \<in> set (db_groups d) \<Longrightarrow> group_subnet_of (g_id g) d = strip (g_subnet g)" for g
    using groups [of "g_id g" g] by (simp add: group_subnet_of_def)
  have tg: "(\<exists>gid. (tid, gid) \<in> set (db_group_tags d) \<and> group_active gid d \<and> Q gid) \<longleftrightarrow> (\<exists>g. tagged_group d tid g \<and> Q (g_id g))" for Q
    unfolding act tagged_group_def by blast
  have tu: "get_user n d = Some x \<and> u_status x = UActive \<and> A n \<and> ((tid, n) \<in> set (db_user_tags d) \<or>
       (\<exists>gid. (tid, gid) \<in> set (db_group_tags d) \<and> group_active gid d \<and> group_id x = gid)) \<longleftrightarrow>
      n = username x \<and> tagged_user d tid x \<and> A (username x)" for n x A
    unfolding tg users tagged_user_def by blast
  have "addrs_in out a \<longleftrightarrow> (\<exists>gid. (tid, gid) \<in> set (db_group_tags d) \<and> group_active gid d \<and> group_subnet_of gid d \<noteq> [] \<and>
       addr_in (group_subnet_of gid d) a) \<or>
    (\<exists>u x ip. get_user u d = Some x \<and> u_status x = UActive \<and> map_of (list_ccd_ips fault ccd) u = Some ip \<and> strip ip \<noteq> [] \<and>
       addr_in (strip ip) a \<and>
       ((tid, u) \<in> set (db_user_tags d) \<or> (\<exists>gid. (tid, gid) \<in> set (db_group_tags d) \<and> group_active gid d \<and> group_id x = gid)))"
    by (rule tag_addresses_law [OF ok addrs])
  also have "(\<exists>gid. (tid, gid) \<in> set (db_group_tags d) \<and> group_active gid d \<and> group_subnet_of gid d \<noteq> [] \<and>
       addr_in (group_subnet_of gid d) a) \<longleftrightarrow> (\<exists>g. tagged_group d tid g \<and> strip (g_subnet g) \<noteq> [] \<and> addr_in (strip (g_subnet g)) a)"
    unfolding tg by (rule ex_cong1) (use sub in \<open>auto simp: tagged_group_def\<close>)
  also have "(\<exists>u x ip. get_user u d = Some x \<and> u_status x = UActive \<and> map_of (list_ccd_ips fault ccd) u = Some ip \<and> strip ip \<noteq> [] \<and>
       addr_in (strip ip) a \<and>
       ((tid, u) \<in> set (db_user_tags d) \<or> (\<exists>gid. (tid, gid) \<in> set (db_group_tags d) \<and> group_active gid d \<and> group_id x = gid))) \<longleftrightarrow>
      (\<exists>u x. get_user u d = Some x \<and> u_status x = UActive \<and> has_address fault ccd u a \<and> ((tid, u) \<in> set (db_user_tags d) \<or>
        (\<exists>gid. (tid, gid) \<in> set (db_group_tags d) \<and> group_active gid d \<and> group_id x = gid)))"
    unfolding ccd_ips_lookup [OF ccd] has_address_def by blast
  also have "\<dots> \<longleftrightarrow> (\<exists>u. tagged_user d tid u \<and> has_address fault ccd (username u) a)"
    using tu [where A = "\<lambda>n. has_address fault ccd n a"] by blast
  finally show ?thesis unfolding tag_covers_def .
qed

lemma resolved_clean: "resolve_addresses tid ips d = Inr addrs \<Longrightarrow> strip_all addrs = addrs"
proof -
  assume "resolve_addresses tid ips d = Inr addrs"
  then obtain ts where "normalize_entries ts = Inr addrs" by (auto simp: resolve_addresses_def Let_def split: if_splits prod.splits)
  then have "\<forall>t\<in>set addrs. \<exists>n. t = net_str n" by (auto simp: normalize_entries_def rbind_Inr_iff)
  moreover have "strip (net_str n) = net_str n" "net_str n \<noteq> []" for n
    using strip_eqI [of "net_str n"] net_str_no_space [of _ n] by (auto simp: net_str_def)
  ultimately show ?thesis by (intro strip_all_id) metis
qed

lemma rule_item_law:
  assumes ok: "db_ok d" and ccd: "distinct (map fst ccd)" and port: "port_ok (strip (opt_str (dest_port r)))"
    and res: "resolve_one (list_ccd_ips fault ccd) d r = Inr out"
  shows "item_covers fault ccd d pkt (SRule r) \<longleftrightarrow> (\<exists>x. out = [x] \<and> deployment_target x = Center \<and> rule_covers x pkt)"
    and "out = [x] \<Longrightarrow> target_of (action x) = item_target (SRule r)"
proof -
  let ?ips = "list_ccd_ips fault ccd"
  consider (off) "\<not> enabled r" "out = []"
    | (plain) x where "enabled r" "owner_type r \<noteq> OTag" "mk_rule r = Inr x" "out = [x]"
    | (none) "enabled r" "owner_type r = OTag" "resolve_addresses (owner_id r) ?ips d = Inr []" "out = []"
    | (tag) addrs x where "enabled r" "owner_type r = OTag" "resolve_addresses (owner_id r) ?ips d = Inr addrs"
        "mk_rule (r\<lparr>source_subnet := None, source_ips := Some addrs\<rparr>) = Inr x" "out = [x]"
    using res by (auto simp: resolve_one_def rbind_Inr_iff split: if_splits)
  note cases4 = this
  show "item_covers fault ccd d pkt (SRule r) \<longleftrightarrow> (\<exists>x. out = [x] \<and> deployment_target x = Center \<and> rule_covers x pkt)"
    using cases4
  proof cases
    case plain
    obtain u where u: "x = r\<lparr>dest_port := u\<rparr>" using mk_rule_InrD [OF plain(3)] by blast
    show ?thesis using plain u ports_again [OF plain(3) port, of "norm_proto (protocol r)" pkt]
      by (simp add: rule_covers_def stored_source_def source_covers_def source_list_def)
  next
    case none
    then have "\<not> tag_covers fault ccd d (owner_id r) a" for a
      using tag_covers_law [OF ok ccd none(3), of a] by (simp add: addrs_in_def)
    then show ?thesis using none by (simp add: stored_source_def)
  next
    case tag
    obtain u where u: "x = r\<lparr>source_subnet := None, source_ips := Some addrs, dest_port := u\<rparr>"
      using mk_rule_InrD [OF tag(4)] by auto
    have "addrs_in (strip_all addrs) a = tag_covers fault ccd d (owner_id r) a" for a
      using tag_covers_law [OF ok ccd tag(3), of a] resolved_clean [OF tag(3)] by simp
    moreover have "port_ok (strip (opt_str (dest_port (r\<lparr>source_subnet := None, source_ips := Some addrs\<rparr>))))" using port by simp
    ultimately show ?thesis using tag u ports_again [OF tag(4), of "norm_proto (protocol r)" pkt]
      by (simp add: rule_covers_def stored_source_def source_covers_def source_list_def)
  qed simp
  show "target_of (action x) = item_target (SRule r)" if o: "out = [x]"
    using cases4
  proof cases
    case (plain y)
    then have "action x = action r" using mk_rule_InrD [OF plain(3)] o by auto
    then show ?thesis by (simp add: target_of_def)
  next
    case (tag addrs y)
    then have "action x = action r" using mk_rule_InrD [OF tag(4)] o by auto
    then show ?thesis by (simp add: target_of_def)
  qed (use o in simp_all)
qed

lemma peer_item_law:
  "item_covers fault ccd d pkt (SPeer p) \<longleftrightarrow>
   (\<exists>c. center_peer_of p = Some c \<and> peer_covers (strip_all (cp_cidrs c)) (cp_extra c) pkt)"
proof -
  have lit: "lower (strip ''all'') = ''all''" "norm_proto ''all'' = ''all''" "norm_proto [] = ''all''" "lower (strip []) = []" by code_simp+
  have proto: "proto_or_all (lower (strip (if q = [] then ''all'' else q))) = (let s = lower (strip q) in if s = [] \<or> s = ''any'' then ''all'' else s)" for q
  proof (cases "q = [] \<or> lower (strip q) = []")
    case True
    then show ?thesis using lit by (auto simp: proto_or_all_def)
  next
    case False
    then have "norm_proto (lower (strip q)) = (if lower (strip q) = ''any'' then ''all'' else lower (strip q))"
      by (simp add: norm_proto_def)
    then show ?thesis using False by (simp add: proto_or_all_def)
  qed
  show ?thesis
  proof (cases "strip_all (lan_cidrs p) = []")
    case True
    then show ?thesis by (simp add: center_peer_of_def addrs_in_def)
  next
    case False
    then show ?thesis by (auto simp: center_peer_of_def peer_covers_def peer_proto_def proto)
  qed
qed

text \<open>The merged plan decides every packet as the tables do.\<close>

lemma plan_decides_as_stored:
  assumes en: "enabled_rules w st = Inr rules" and ok: "db_ok (s_db st)" and ccd: "distinct (map fst (s_ccd st))"
    and ports: "ports_usable (s_db st)"
  shows "policy_verdict pkt (stored_policy w st) = stored_verdict w st pkt"
proof -
  let ?ips = "list_ccd_ips (w_ccd_fault w) (s_ccd st)" and ?d = "s_db st"
  obtain l where l: "mapM (resolve_one ?ips ?d) (list_firewall_rules ?d) = Inr l"
    using en resolve_tag_rules_InrD unfolding enabled_rules_def by blast
  have items: "it \<in> set (stored_items ?d) \<Longrightarrow> (\<exists>r\<in>set (list_firewall_rules ?d). it = SRule r) \<or> (\<exists>p. it = SPeer p)" for it
    by (auto simp: stored_items_def)
  have rule: "(item_covers (w_ccd_fault w) (s_ccd st) ?d pkt (SRule r) \<longleftrightarrow> (\<exists>e. entry_of ?ips ?d (SRule r) = Some e \<and> entry_covers pkt e)) \<and>
      (\<forall>e. entry_of ?ips ?d (SRule r) = Some e \<longrightarrow> entry_target e = item_target (SRule r))"
    if r: "r \<in> set (list_firewall_rules ?d)" for r
  proof -
    obtain out where out: "resolve_one ?ips ?d r = Inr out" using l r by (auto simp: mapM_Inr_iff list_all2_conv_all_nth in_set_conv_nth)
    have "port_ok (strip (opt_str (dest_port r)))" using ports r by (simp add: ports_usable_def list_all_iff)
    note law = rule_item_law [OF ok ccd this out]
    show ?thesis using resolve_one_shape [OF out] law
      by (auto simp: entry_of_def out simp del: item_covers.simps item_target.simps split: if_splits)
  qed
  have peer: "(item_covers (w_ccd_fault w) (s_ccd st) ?d pkt (SPeer p) \<longleftrightarrow> (\<exists>e. entry_of ?ips ?d (SPeer p) = Some e \<and> entry_covers pkt e)) \<and>
      (\<forall>e. entry_of ?ips ?d (SPeer p) = Some e \<longrightarrow> entry_target e = item_target (SPeer p))" for p
    unfolding peer_item_law by (auto simp: entry_of_def)
  show ?thesis
    unfolding policy_verdict_def stored_verdict_def plan_filters_items [OF en]
    by (rule find_map_filter) (use items rule peer in blast)+
qed

end
