(* ===== verification/Rules_Props.thy ===== *)
theory Rules_Props
  imports Rules_Table Stored_Policy
begin

text \<open>
  Properties of the rule service: any request that succeeds puts the stored policy in force.  Requests about
  one owner's rules refine a table of rules changed at one place, keep the database and the snapshots consistent,
  and the priorities apart while nothing is reordered, and leave no trace when they fail; the last lemmas show
  what the other requests leave when they fail.
\<close>

section \<open>Runs\<close>

text \<open>Requests are served one after the other; the caller of a failed one gets the exception.\<close>

fun rule_run :: "'k world \<Rightarrow> rule_op list \<Rightarrow> 'k sys \<Rightarrow> 'k sys option" where
  "rule_run w [] st = Some st"
| "rule_run w (op # ops) st = (case rule_step w op st of None \<Rightarrow> None | Some (_, st') \<Rightarrow> rule_run w ops st')"

definition rules_inv :: "'k sys \<Rightarrow> bool" where
  "rules_inv st \<longleftrightarrow> db_ok (s_db st) \<and> prepush_ok st"

lemma rule_step_inv:
  assumes "rules_inv st" "local_op op" "rule_step w op st = Some (r, st')"
  shows "rules_inv st'"
proof -
  have ok: "db_ok (s_db st)" "prepush_ok st" using assms(1) by (auto simp: rules_inv_def)
  show ?thesis
    using rule_step_safe [OF ok assms(2,3)] rule_step_db_ok [OF assms(3) ok(1)] by (simp add: rules_inv_def safe_outcome_def)
qed

text \<open>Whether the stored priorities differ; \<open>Reorder\<close> is the one request that does not look at
  the rules of other owners.\<close>

definition priorities_apart :: "'k sys \<Rightarrow> bool" where
  "priorities_apart st \<longleftrightarrow> distinct (map priority (list_firewall_rules (s_db st)))"

fun checks_priority :: "rule_op \<Rightarrow> bool" where
  "checks_priority (Reorder _ _) = False"
| "checks_priority _ = True"

lemma distinct_perm: "mset ys = mset xs \<Longrightarrow> distinct (map f ys) = distinct (map f xs)"
  using mset_eq_imp_distinct_iff by (metis mset_map)

lemma distinct_map_upd:
  assumes "distinct (map rule_id xs)" "distinct (map priority xs)"
    and "priority q \<notin> set (map priority (filter (\<lambda>r. rule_id r \<noteq> rid) xs))"
  shows "distinct (map priority (map (\<lambda>r. if rule_id r = rid then q else r) xs))"
  using assms
proof (induction xs)
  case (Cons a xs)
  let ?f = "\<lambda>r. if rule_id r = rid then q else r"
  have others: "map ?f xs = xs" if "rule_id a = rid"
  proof (rule map_idI)
    fix x assume "x \<in> set xs"
    then have "rule_id x \<in> rule_id ` set xs" by (rule imageI)
    then show "?f x = x" using Cons.prems(1) that by auto
  qed
  have IH: "distinct (map priority (map ?f xs))" using Cons by (auto split: if_splits)
  show ?case
  proof (cases "rule_id a = rid")
    case True
    have "filter (\<lambda>r. rule_id r \<noteq> rid) xs = xs" using Cons.prems(1) True by (auto simp: filter_id_conv image_iff)
    then show ?thesis using Cons.prems(2,3) True others [OF True] by simp
  next
    case False
    have "priority a \<noteq> priority (?f x)" if "x \<in> set xs" for x
      using that Cons.prems(2,3) False by (auto simp: image_iff)
    then show ?thesis using False IH by auto
  qed
qed simp

lemma spec_distinct:
  assumes "rule_spec w op xs ys" "checks_priority op" "distinct (map rule_id xs)" "distinct (map priority xs)"
  shows "distinct (map priority ys)"
proof (cases op)
  case (Create given data k)
  then obtain q where "priority q \<notin> set (map priority xs)" "mset ys = mset (q # xs)"
    using assms(1) by (auto split: sum.splits)
  then show ?thesis using distinct_perm [of ys "q # xs" priority] assms(4) by simp
next
  case (CreateMany payloads)
  then obtain oid rs where c: "check_payloads w 0 [] [] payloads = Inr (oid, rs)" "set (map priority rs) \<inter> set (map priority xs) = {}"
    and m: "mset ys = mset (map (\<lambda>r. r\<lparr>owner_id := (if owner_id r = [] then oid else owner_id r)\<rparr>) rs @ xs)"
    using assms(1) by (auto split: sum.splits)
  have "distinct (map priority rs)" using check_payloads_facts [OF c(1)] by blast
  then show ?thesis using distinct_perm [OF m, of priority] assms(4) c(2) by (simp add: comp_def)
next
  case (Update rid data)
  then obtain q where q: "priority q \<notin> set (map priority (filter (\<lambda>r. rule_id r \<noteq> rid) xs))"
    "mset ys = mset (map (\<lambda>r. if rule_id r = rid then q else r) xs)"
    using assms(1) by (simp only: rule_spec.simps split: option.splits sum.splits) auto
  show ?thesis using distinct_map_upd [OF assms(3,4) q(1)] unfolding distinct_perm [OF q(2)] .
next
  case (Delete rid)
  then have m: "mset ys = mset (filter (\<lambda>r. rule_id r \<noteq> rid) xs)" using assms(1) by simp
  show ?thesis unfolding distinct_perm [OF m] by (rule distinct_map_filter' [OF assms(4)])
next
  case (SetEnabled rid en)
  then have m: "mset ys = mset (map (\<lambda>r. if rule_id r = rid then r\<lparr>enabled := en, r_updated_at := w_now w\<rparr> else r) xs)"
    using assms(1) by simp
  have "map priority (map (\<lambda>r. if rule_id r = rid then r\<lparr>enabled := en, r_updated_at := w_now w\<rparr> else r) xs) = map priority xs"
    by simp
  then show ?thesis using assms(4) unfolding distinct_perm [OF m] by (simp only:)
qed (use assms(2) in simp)

lemma same_view_rules:
  assumes "db_ok d" "db_ok d'" "db_view d' = db_view d"
  shows "mset (list_firewall_rules d') = mset (list_firewall_rules d)"
proof -
  have "set (db_rules d') = set (db_rules d)" using assms(3) by (simp add: db_view_def)
  moreover have "distinct (db_rules d)" "distinct (db_rules d')" using db_rules_ok assms(1,2) by (auto simp: distinct_map)
  ultimately have "mset (db_rules d') = mset (db_rules d)" using set_eq_iff_mset_eq_distinct by blast
  then show ?thesis by (simp add: listed_rules_mset)
qed

lemma rule_step_apart:
  assumes "rules_inv st" "local_op op" "rule_step w op st = Some (r, st')" "checks_priority op" "priorities_apart st"
  shows "priorities_apart st'"
proof (cases r)
  case (Inl e)
  have ok: "db_ok (s_db st)" "prepush_ok st" using assms(1) by (auto simp: rules_inv_def)
  have "db_view (s_db st') = db_view (s_db st)" using rule_step_safe [OF ok assms(2,3)] Inl by (simp add: safe_outcome_def)
  then show ?thesis
    using same_view_rules [OF ok(1) rule_step_db_ok [OF assms(3) ok(1)]] distinct_perm assms(5) unfolding priorities_apart_def by blast
next
  case (Inr u)
  have ok: "db_ok (s_db st)" "prepush_ok st" using assms(1) by (auto simp: rules_inv_def)
  have "rule_spec w op (list_firewall_rules (s_db st)) (list_firewall_rules (s_db st'))"
    using rule_step_refines [OF ok assms(2)] assms(3) Inr by blast
  from spec_distinct [OF this assms(4) ids_distinct [OF ok(1)]] show ?thesis
    using assms(5) by (simp add: priorities_apart_def)
qed

lemma rule_run_inv:
  assumes "rules_inv st" "list_all local_op ops" "rule_run w ops st = Some st'"
  shows "rules_inv st' \<and> (list_all checks_priority ops \<longrightarrow> priorities_apart st \<longrightarrow> priorities_apart st')"
  using assms
proof (induction ops arbitrary: st)
  case (Cons op ops)
  obtain r s where s: "rule_step w op st = Some (r, s)" "rule_run w ops s = Some st'"
    using Cons.prems(3) by (auto split: option.splits)
  have "rules_inv s" using rule_step_inv [OF Cons.prems(1) _ s(1)] Cons.prems(2) by simp
  moreover have "priorities_apart s" if "checks_priority op" "priorities_apart st"
    using rule_step_apart [OF Cons.prems(1) _ s(1)] that Cons.prems(2) by simp
  ultimately show ?case using Cons.IH [OF _ _ s(2)] Cons.prems(2) by auto
qed simp

section \<open>From the store to the kernel\<close>

text \<open>No two tags share the name of their ipset.\<close>

definition tag_sets_differ :: "hashes \<Rightarrow> db \<Rightarrow> bool" where
  "tag_sets_differ h d \<longleftrightarrow> (\<forall>r\<in>set (list_firewall_rules d). \<forall>r'\<in>set (list_firewall_rules d).
     owner_type r = OTag \<longrightarrow> owner_type r' = OTag \<longrightarrow>
     stable_name h ''tag'' (owner_id r) ''src'' = stable_name h ''tag'' (owner_id r') ''src'' \<longrightarrow> owner_id r = owner_id r')"

lemma enabled_rules_mem:
  assumes "enabled_rules w st = Inr rules" "x \<in> set rules"
  obtains r out where "r \<in> set (list_firewall_rules (s_db st))"
    "resolve_one (list_ccd_ips (w_ccd_fault w) (s_ccd st)) (s_db st) r = Inr out" "x \<in> set out"
proof -
  let ?ips = "list_ccd_ips (w_ccd_fault w) (s_ccd st)"
  obtain l where l: "mapM (resolve_one ?ips (s_db st)) (list_firewall_rules (s_db st)) = Inr l" "rules = sort_key priority (concat l)"
    using assms(1) resolve_tag_rules_InrD unfolding enabled_rules_def by blast
  then obtain out where "out \<in> set l" "x \<in> set out" using assms(2) by auto
  then show ?thesis using that mapM_mem [OF l(1)] by blast
qed

lemma resolve_one_valid:
  assumes "resolve_one ips d r = Inr out" "x \<in> set out" "port_ok (strip (opt_str (dest_port r)))"
  shows "mk_rule x = Inr x"
proof -
  have "mk_rule r = Inr x \<or> (\<exists>addrs. mk_rule (r\<lparr>source_subnet := None, source_ips := Some addrs\<rparr>) = Inr x)"
    using assms(1,2) by (auto simp: resolve_one_def rbind_Inr_iff split: if_splits)
  then show ?thesis using mk_rule_again assms(3) by fastforce
qed

lemma center_peer_port: "center_peer_of p = Some c \<Longrightarrow> ex_dest_port (cp_extra c) = strip (center_forward_dest_port p)"
  by (cases "strip (p_id p) = [] \<or> \<not> center_forward_enabled p \<or> strip_all (lan_cidrs p) = []")
    (simp_all only: center_peer_of_def if_True if_False option.distinct option.inject, drule sym, simp only: center_peer.simps peer_extra.simps)

lemma stored_entries_ok:
  assumes "enabled_rules w st = Inr rules" "ports_usable (s_db st)"
  shows "\<forall>e\<in>set (fst (build_merged_forward_entries rules (collect_center_peers (s_db st)))). entry_ok e"
proof
  fix e assume "e \<in> set (fst (build_merged_forward_entries rules (collect_center_peers (s_db st))))"
  then consider x where "x \<in> set rules" "enabled x" "deployment_target x = Center" "e = (priority x, RuleFwd x)"
    | p c where "p \<in> set (list_peers (s_db st))" "center_peer_of p = Some c"
        "e = (cp_priority c, PeerFwd (strip (cp_id c)) (strip_all (cp_cidrs c)) (cp_extra c))"
    by (auto simp: build_merged_forward_entries_def rule_entries_def peer_entries_def collect_center_peers_def map_filter_def)
  then show "entry_ok e"
  proof cases
    case 1
    obtain r out where r: "r \<in> set (list_firewall_rules (s_db st))"
      "resolve_one (list_ccd_ips (w_ccd_fault w) (s_ccd st)) (s_db st) r = Inr out" "x \<in> set out"
      using enabled_rules_mem [OF assms(1) 1(1)] .
    have "port_ok (strip (opt_str (dest_port r)))" using assms(2) r(1) by (simp add: ports_usable_def list_all_iff)
    then have "mk_rule x = Inr x" by (rule resolve_one_valid [OF r(2,3)])
    moreover have "owner_type x = OTag \<longrightarrow> source_list x \<noteq> []"
    proof
      assume "owner_type x = OTag"
      then obtain addrs where "source_ips x = Some addrs" "addrs \<noteq> []" using resolve_one_cases [OF r(2,3)] by metis
      then show "source_list x \<noteq> []" by (simp add: source_list_def)
    qed
    ultimately show ?thesis using 1(2,3) unfolding 1(4) entry_ok.simps by blast
  next
    case 2
    have "port_ok (strip (center_forward_dest_port p))" using assms(2) 2(1) by (simp add: ports_usable_def list_all_iff)
    moreover have "ex_dest_port (cp_extra c) = strip (center_forward_dest_port p)" using 2(2) by (rule center_peer_port)
    ultimately have "extra_ok (cp_extra c)" by (simp only: extra_ok_def strip_idem)
    then show ?thesis by (simp only: 2(3) entry_ok.simps strip_idem simp_thms)
  qed
qed

lemma stored_tags_agree:
  assumes "enabled_rules w st = Inr rules" "tag_sets_differ h (s_db st)"
  shows "tags_agree h (fst (build_merged_forward_entries rules (collect_center_peers (s_db st))))"
proof -
  let ?ips = "list_ccd_ips (w_ccd_fault w) (s_ccd st)"
  have tag: "\<exists>r\<in>set (list_firewall_rules (s_db st)). owner_type r = OTag \<and> owner_id r = owner_id x \<and>
      resolve_addresses (owner_id x) ?ips (s_db st) = Inr (source_list x) \<and> owner_type x = OTag"
    if "x \<in> set (tag_rules (fst (build_merged_forward_entries rules (collect_center_peers (s_db st)))))" for x
  proof -
    have x: "x \<in> set rules" "owner_type x = OTag"
      using that by (auto simp: tag_rules_def build_merged_forward_entries_def rule_entries_def peer_entries_def
          split: fwd_entry.splits if_splits prod.splits)
    obtain r out where r: "r \<in> set (list_firewall_rules (s_db st))" "resolve_one ?ips (s_db st) r = Inr out" "x \<in> set out"
      using enabled_rules_mem [OF assms(1) x(1)] .
    from resolve_one_cases [OF r(2,3)] show ?thesis using x(2) by (intro bexI [OF _ r(1)]) (simp add: source_list_def, metis option.simps(5))
  qed
  show ?thesis
    unfolding tags_agree_def
  proof (intro ballI impI)
    fix x y
    assume m: "x \<in> set (tag_rules (fst (build_merged_forward_entries rules (collect_center_peers (s_db st)))))"
      "y \<in> set (tag_rules (fst (build_merged_forward_entries rules (collect_center_peers (s_db st)))))"
      and n: "effective_source_set_name h x = effective_source_set_name h y"
    obtain rx ry where r: "rx \<in> set (list_firewall_rules (s_db st))" "owner_type rx = OTag" "owner_id rx = owner_id x"
      "ry \<in> set (list_firewall_rules (s_db st))" "owner_type ry = OTag" "owner_id ry = owner_id y"
      using tag [OF m(1)] tag [OF m(2)] by blast
    have t: "owner_type x = OTag" "owner_type y = OTag" using tag [OF m(1)] tag [OF m(2)] by blast+
    have "stable_name h ''tag'' (owner_id rx) ''src'' = stable_name h ''tag'' (owner_id ry) ''src''"
      using n unfolding effective_source_set_name_def by (simp only: t r(3,6) if_True simp_thms)
    then have "owner_id x = owner_id y" using assms(2) r unfolding tag_sets_differ_def by metis
    then show "source_list x = source_list y" using tag [OF m(1)] tag [OF m(2)] by (metis sum.inject(2))
  qed
qed

lemma part_holds_cong:
  assumes "\<forall>n. map_option set (S n) = map_option set (S' n)"
  shows "part_holds S pkt p = part_holds S' pkt p"
proof -
  have "set_has S n a = set_has S' n a" for n a
    using assms [rule_format, of n] by (auto simp: set_has_def addrs_in_def list_ex_iff split: option.splits)
  then show ?thesis by (simp add: part_holds_def split: option.splits)
qed

lemma chain_verdict_cong:
  assumes "\<forall>n. map_option set (S n) = map_option set (S' n)"
  shows "chain_verdict S pkt ls = chain_verdict S' pkt ls"
proof -
  have "line_holds S pkt = line_holds S' pkt"
    using part_holds_cong [OF assms] by (auto simp: line_holds_def list_all_iff)
  then show ?thesis by (simp add: chain_verdict_def)
qed

lemma refresh_forward_done:
  assumes "refresh_forward w s = Some (Inr (), t)"
  obtains rules where "enabled_rules w s = Inr rules"
    "refresh_vpn_forward_only (w_env w) (w_run w) (w_hash w) rules (collect_center_peers (s_db s)) (s_mgr s) = Some (Inr True, s_mgr t)"
proof (cases "enabled_rules w s")
  case (Inl e)
  then show ?thesis using assms by (simp add: refresh_forward_def throw_def)
next
  case (Inr rules)
  then show ?thesis using assms that
    by (auto simp: refresh_forward_def andthen_Some_iff on_mgr_Some ret_def throw_def split: if_splits)
qed

lemma refreshed_in_force:
  assumes "refreshed w st" "ipset_ok (w_run w) sets" "ipt_frame_law (w_run w) sets" "load_law (w_run w) chain"
    and "hashes_ok (w_hash w)" "\<not> on_nt (w_env w)"
    and "\<forall>lines. merged_parts (w_hash w) (stored_policy w st) = Inr lines \<longrightarrow> list_all one_line (map (join '' '') lines)"
    and "ports_usable (s_db st)" "tag_sets_differ (w_hash w) (s_db st)"
    and S: "\<forall>n. map_option set (S n) = sets (kernel (s_mgr st)) n"
    and "db_ok (s_db st)" "distinct (map fst (s_ccd st))"
  shows "\<exists>lines. chain (kernel (s_mgr st)) = map (line_args \<circ> join '' '') lines \<and>
    (\<forall>pkt. chain_verdict S pkt lines = stored_verdict w st pkt)"
proof -
  obtain s t where st: "s_db s = s_db st" "s_ccd s = s_ccd st" "refresh_forward w s = Some (Inr (), t)" "s_mgr t = s_mgr st"
    using assms(1) by (auto simp: refreshed_def)
  obtain rules where rules: "enabled_rules w s = Inr rules"
    "refresh_vpn_forward_only (w_env w) (w_run w) (w_hash w) rules (collect_center_peers (s_db s)) (s_mgr s) = Some (Inr True, s_mgr t)"
    using refresh_forward_done [OF st(3)] .
  have en: "enabled_rules w st = Inr rules" using rules(1) st(1,2) by (simp add: enabled_rules_def)
  let ?m = "fst (build_merged_forward_entries rules (collect_center_peers (s_db st)))"
  have m: "stored_policy w st = ?m" using en by (simp add: stored_policy_def)
  note r2 = rules(2) [unfolded st(1,4)]
  obtain specs lines where k: "desired_ipsets_for_merged_forward (w_hash w) ?m = Inr specs" "merged_parts (w_hash w) ?m = Inr lines"
    "chain (kernel (s_mgr st)) = map (line_args \<circ> join '' '') lines"
    "\<forall>x\<in>set specs. sets (kernel (s_mgr st)) (is_name x) = Some (set (is_entries x))" and d: "distinct (map is_name specs)"
    using refresh_installs_law [OF assms(2-6) r2 assms(7) [unfolded m]] by blast
  let ?S = "\<lambda>n. case find (\<lambda>x. is_name x = n) specs of Some x \<Rightarrow> Some (is_entries x) | None \<Rightarrow> S n"
  have same: "\<forall>n. map_option set (?S n) = map_option set (S n)"
  proof
    fix n
    show "map_option set (?S n) = map_option set (S n)"
    proof (cases "find (\<lambda>x. is_name x = n) specs")
      case (Some x)
      then have "x \<in> set specs" "is_name x = n" by (auto simp: find_Some_iff)
      then show ?thesis using Some k(4) S by fastforce
    qed simp
  qed
  have hold: "sets_hold ?S specs"
    unfolding sets_hold_def
  proof
    fix x assume "x \<in> set specs"
    then have "find (\<lambda>y. is_name y = is_name x) specs = Some x" using d by (induction specs) auto
    then show "?S (is_name x) = Some (is_entries x)" by simp
  qed
  have "chain_verdict S pkt lines = policy_verdict pkt ?m" for pkt
    using chain_implements_policy [OF k(1,2) hold stored_entries_ok [OF en assms(8)] stored_tags_agree [OF en assms(9)]]
      chain_verdict_cong [OF same] by simp
  then show ?thesis using k(3) m plan_decides_as_stored [OF en assms(11,12,8)] by auto
qed

section \<open>Properties\<close>

text \<open>C3. A request about one owner's rules is all or nothing: creating rules, updating a rule without changing its owner,
  ordering the rules of one owner, deleting and switching a stored rule (\<open>local_op\<close>).  When such a request raises, because a rule is refused
  or because the kernel could not be refreshed, every rule and every other record is as before, and the snapshot
  taken for the owner belongs to an owner that still has rules.  The other requests do not have the property: the row of a peer site
  (\<open>failed_toggle_stays\<close>), the order over all owners (\<open>failed_global_order_stays\<close>), an update to another owner (\<open>failed_move_stays\<close>).\<close>

theorem failed_rule_change_restores:
  assumes "db_ok (s_db st)" "prepush_ok st" "local_op op" "rule_step w op st = Some (Inl e, st')"
  shows "db_view (s_db st') = db_view (s_db st) \<and> prepush_ok st'"
  using rule_step_safe [OF assms(1-4)] by (simp add: safe_outcome_def)

text \<open>C4. A successful request refines the table of rules: creating adds exactly the validated rules,
  with priorities no stored rule has; an update replaces the one rule with the id; a reordering
  renumbers the listed rules of the owner in steps of ten; deleting and switching touch the rule
  with the id alone.  Unless the caller asked otherwise, the kernel was refreshed from the result.\<close>

theorem rule_change_refines:
  assumes "db_ok (s_db st)" "prepush_ok st" "local_op op" "rule_step w op st = Some (Inr u, st')"
  shows "rule_spec w op (list_firewall_rules (s_db st)) (list_firewall_rules (s_db st')) \<and> (pushes op \<longrightarrow> refreshed w st')"
  by (rule rule_step_refines [OF assms])

text \<open>C8. Any sequence of requests about one owner's rules (\<open>local_op\<close>), failed ones included, keeps the database consistent and every
  snapshot with an owner that has rules; and as long as none of them reorders, no two rules ever share a priority.
  Reordering does not look at the rules of other owners, so after one two rules can share a priority
  (\<open>reorder_clashes\<close> in \<open>Rules_Backup\<close>).\<close>

theorem rule_requests_keep_invariant:
  assumes "rules_inv st" "list_all local_op ops" "rule_run w ops st = Some st'"
  shows "rules_inv st' \<and> (list_all checks_priority ops \<longrightarrow> priorities_apart st \<longrightarrow> priorities_apart st')"
  by (rule rule_run_inv [OF assms])

text \<open>C1. From a request to the packets: after any change of the rules that returns, requests about a peer site, about the
  global order and about the owner of a rule included, the chain in the kernel decides every packet as the tables do: of the enabled
  rules of the centre and the peer sites with forwarding, in order of priority, the first that covers the packet.  A rule of a tag covers
  the networks and the fixed addresses of the tag's active groups and users, a peer site the networks behind it
  (\<open>Stored_Policy.stored_verdict\<close>, which uses nothing of the code that plans the chain).\<close>

theorem rule_change_in_force:
  assumes "db_ok (s_db st)" "pushes op" "rule_step w op st = Some (Inr u, st')"
    and "ipset_ok (w_run w) sets" "ipt_frame_law (w_run w) sets" "load_law (w_run w) chain"
    and "hashes_ok (w_hash w)" "\<not> on_nt (w_env w)"
    and "\<forall>lines. merged_parts (w_hash w) (stored_policy w st') = Inr lines \<longrightarrow> list_all one_line (map (join '' '') lines)"
    and "ports_usable (s_db st')" "tag_sets_differ (w_hash w) (s_db st')" "distinct (map fst (s_ccd st'))"
    and "\<forall>n. map_option set (S n) = sets (kernel (s_mgr st')) n"
  shows "\<exists>lines. chain (kernel (s_mgr st')) = map (line_args \<circ> join '' '') lines \<and>
    (\<forall>pkt. chain_verdict S pkt lines = stored_verdict w st' pkt)"
  using refreshed_in_force [OF rule_step_refreshed [OF assms(8,2,3)] assms(4-11,13) rule_step_db_ok [OF assms(3,1)] assms(12)] .

section \<open>Witnesses\<close>

lemma demo_prepush_ok: "prepush_ok demo_sys"
  by (simp add: prepush_ok_def demo_sys_def)

theorem failed_rule_change_restores_witness:
  "\<exists>e st'. rule_step (demo_world True) (Delete ''r1'') demo_sys = Some (Inl e, st') \<and>
     db_view (s_db st') = db_view (s_db demo_sys)"
proof -
  have "\<not> starts_with ''r1'' ce_peer_rule_prefix" by code_simp
  then have l: "local_op (Delete ''r1'')" by simp
  have "case rule_step (demo_world True) (Delete ''r1'') demo_sys of Some (Inl e, s) \<Rightarrow> True | _ \<Rightarrow> False" by code_simp
  then obtain e st' where "rule_step (demo_world True) (Delete ''r1'') demo_sys = Some (Inl e, st')"
    using raised [where Q = "\<lambda>_. True"] by blast
  then show ?thesis using failed_rule_change_restores [OF demo_db_ok demo_prepush_ok l] by blast
qed

definition demo_new_rule :: rule where
  "demo_new_rule = \<lparr>rule_id = [], owner_type = OUser, owner_id = ''alice'', deployment_target = Center,
     vpn_instance = ''server'', action = ADrop, source_subnet = None, source_ips = Some [''10.8.0.5''],
     dest_ip = Some ''192.168.1.10'', dest_port = Some ''80'', protocol = ''tcp'', priority = 20, enabled = True,
     description = None, r_created_at = ''2024'', r_updated_at = ''2024''\<rparr>"

definition demo_create :: rule_op where
  "demo_create = Create False demo_new_rule True"

lemma returned_in: "(case x of Some (Inr (_ :: unit), s) \<Rightarrow> Q s | _ \<Rightarrow> False) \<Longrightarrow> \<exists>s. x = Some (Inr (), s) \<and> Q s"
  by (cases x; cases "fst (the x)"; cases "the x") auto

lemma demo_create_runs: "\<exists>st'. rule_step (demo_world False) demo_create demo_sys = Some (Inr (), st') \<and>
    map rule_id (list_firewall_rules (s_db st')) = [''r1'', ''u0'']"
proof -
  have "case rule_step (demo_world False) demo_create demo_sys of Some (Inr _, s) \<Rightarrow>
      map rule_id (list_firewall_rules (s_db s)) = [''r1'', ''u0''] | _ \<Rightarrow> False" by code_simp
  then show ?thesis by (rule returned_in)
qed

lemma demo_create_local: "local_op demo_create" "pushes demo_create"
  by (simp_all add: demo_create_def)

theorem rule_change_refines_witness:
  "\<exists>st'. rule_step (demo_world False) demo_create demo_sys = Some (Inr (), st') \<and>
     rule_spec (demo_world False) demo_create (list_firewall_rules (s_db demo_sys)) (list_firewall_rules (s_db st')) \<and>
     map rule_id (list_firewall_rules (s_db st')) = [''r1'', ''u0'']"
proof -
  obtain st' where s: "rule_step (demo_world False) demo_create demo_sys = Some (Inr (), st')"
    "map rule_id (list_firewall_rules (s_db st')) = [''r1'', ''u0'']" by (rule exE [OF demo_create_runs]) (elim conjE)
  have sp: "rule_spec (demo_world False) demo_create (list_firewall_rules (s_db demo_sys)) (list_firewall_rules (s_db st'))"
    by (rule conjunct1 [OF rule_change_refines [OF demo_db_ok demo_prepush_ok demo_create_local(1) s(1)]])
  show ?thesis by (intro exI [of _ st'] conjI) (rule s(1), rule sp, rule s(2))
qed

theorem rule_requests_keep_invariant_witness:
  "case rule_run (demo_world False) [demo_create, Delete ''zz'', demo_create, SetEnabled ''r1'' False] demo_sys of
     None \<Rightarrow> False
   | Some st' \<Rightarrow> priorities_apart st' \<and> map enabled (list_firewall_rules (s_db st')) = [False, True]"
proof -
  let ?ops = "[demo_create, Delete ''zz'', demo_create, SetEnabled ''r1'' False]"
  have r: "case rule_run (demo_world False) ?ops demo_sys of None \<Rightarrow> False
      | Some s \<Rightarrow> map enabled (list_firewall_rules (s_db s)) = [False, True]" by code_simp
  have "\<not> starts_with ''r1'' ce_peer_rule_prefix" "\<not> starts_with ''zz'' ce_peer_rule_prefix" by code_simp+
  then have l: "list_all local_op ?ops" "list_all checks_priority ?ops" by (simp_all add: demo_create_def)
  have apart: "priorities_apart demo_sys" by code_simp
  have i: "rules_inv demo_sys" using demo_db_ok demo_prepush_ok by (simp add: rules_inv_def)
  obtain s where "rule_run (demo_world False) ?ops demo_sys = Some s" using r by (auto split: option.splits)
  then show ?thesis using rule_requests_keep_invariant [OF i l(1)] l(2) apart r by simp
qed

text \<open>The request of the witness switches the forwarding of a peer site off, a request that is not about one owner's rules.\<close>

definition demo_toggle :: rule_op where
  "demo_toggle = SetEnabled ''ce-peer-p1'' False"

lemma demo_toggle_runs:
  "case rule_step (demo_world False) demo_toggle (demo_peer_sys [''192.168.7.0/24'']) of
     Some (Inr _, s) \<Rightarrow> ports_usable (s_db s) \<and> tag_sets_differ (w_hash (demo_world False)) (s_db s) \<and> distinct (map fst (s_ccd s)) \<and>
       map center_forward_enabled (list_peers (s_db s)) = [False] \<and>
       (case merged_parts (w_hash (demo_world False)) (stored_policy (demo_world False) s) of Inl _ \<Rightarrow> True
        | Inr lines \<Rightarrow> list_all one_line (map (join '' '') lines))
   | _ \<Rightarrow> False"
  by code_simp

theorem rule_change_in_force_witness:
  "\<exists>st' lines. rule_step (demo_world False) demo_toggle (demo_peer_sys [''192.168.7.0/24'']) = Some (Inr (), st') \<and>
     ref_chain (kernel (s_mgr st')) = map (line_args \<circ> join '' '') lines \<and>
     (\<forall>pkt. chain_verdict (map_of (rk_sets (kernel (s_mgr st')))) pkt lines = stored_verdict (demo_world False) st' pkt)"
proof -
  let ?w = "demo_world False"
  obtain s where s: "rule_step ?w demo_toggle (demo_peer_sys [''192.168.7.0/24'']) = Some (Inr (), s)"
    "ports_usable (s_db s)" "tag_sets_differ (w_hash ?w) (s_db s)" "distinct (map fst (s_ccd s))"
    "case merged_parts (w_hash ?w) (stored_policy ?w s) of Inl _ \<Rightarrow> True | Inr lines \<Rightarrow> list_all one_line (map (join '' '') lines)"
    using returned_in [OF demo_toggle_runs] by blast
  have w: "w_run ?w = ref_kernel_run False" "w_hash ?w = demo_hex" "w_env ?w = demo_env" by (simp_all add: demo_world_def)
  have one: "\<forall>lines. merged_parts (w_hash ?w) (stored_policy ?w s) = Inr lines \<longrightarrow> list_all one_line (map (join '' '') lines)"
    using s(5) by auto
  have h: "hashes_ok (w_hash ?w)" by (simp add: w hashes_ok_def demo_hex_def list_all_iff)
  have nt: "\<not> on_nt (w_env ?w)" by (simp add: w demo_env_def)
  have S: "\<forall>n. map_option set (map_of (rk_sets (kernel (s_mgr s))) n) = ref_kernel_sets (kernel (s_mgr s)) n"
    by (simp add: ref_kernel_sets_def ref_sets_def)
  have k: "ipset_ok (w_run ?w) ref_kernel_sets" "ipt_frame_law (w_run ?w) ref_kernel_sets" "load_law (w_run ?w) ref_chain"
    unfolding w by (rule ref_kernel_ipset_ok ref_kernel_frame ref_kernel_load)+
  have p: "pushes demo_toggle" by (simp add: demo_toggle_def)
  show ?thesis
    using rule_change_in_force [OF demo_peer_db_ok p s(1) k h nt one s(2-4) S] s(1) by blast
qed

section \<open>Requests that leave changes when they fail\<close>

text \<open>On a kernel that refuses the new chain: switching the forwarding of a peer site raises and stays switched.\<close>

lemma failed_toggle_stays:
  "case rule_step (demo_world True) demo_toggle (demo_peer_sys [''192.168.7.0/24'']) of
     Some (Inl _, s) \<Rightarrow> map center_forward_enabled (list_peers (s_db (demo_peer_sys [''192.168.7.0/24'']))) = [True] \<and>
       map center_forward_enabled (list_peers (s_db s)) = [False]
   | _ \<Rightarrow> False"
  by code_simp

text \<open>The order over all owners raises, and the new priority of the peer site stays while the rules get theirs back.\<close>

lemma failed_global_order_stays:
  "case rule_step (demo_world True) (Reorder [] [''ce-peer-p1'', ''r1'']) (demo_peer_sys [''192.168.7.0/24'']) of
     Some (Inl _, s) \<Rightarrow> map center_forward_priority (list_peers (s_db s)) = [10] \<and>
       list_firewall_rules (s_db s) = list_firewall_rules (s_db (demo_peer_sys [''192.168.7.0/24'']))
   | _ \<Rightarrow> False"
  by code_simp

text \<open>An update that moves a rule to another owner raises, and the rule stays with the new owner.\<close>

lemma failed_move_stays:
  "case rule_step (demo_world True) (Update ''r1'' (\<lambda>r. r\<lparr>owner_id := ''bob''\<rparr>)) demo_sys of
     Some (Inl _, s) \<Rightarrow> map owner_id (list_firewall_rules (s_db demo_sys)) \<noteq> [''bob''] \<and> map owner_id (list_firewall_rules (s_db s)) = [''bob'']
   | _ \<Rightarrow> False"
  by code_simp

end
