(* ===== verification/Rules_Backup.thy ===== *)
theory Rules_Backup
  imports Rules_Table Demo
begin

text \<open>
  Reordering the rules of an owner, and the round trip through a backup.
\<close>

section \<open>Reordering\<close>

lemma last_index_nth:
  assumes "distinct order" "i < length order"
  shows "last_position (order ! i) order = i"
proof -
  let ?n = "length order - 1 - i"
  have "takeWhile (\<lambda>x. x \<noteq> order ! i) (rev order) = take ?n (rev order)"
  proof (rule takeWhile_eq_take_P_nth)
    fix j assume j: "j < ?n" "j < length (rev order)"
    then have "rev order ! j = order ! (length order - Suc j)" "length order - Suc j < length order" by (auto simp: rev_nth)
    moreover have "length order - Suc j \<noteq> i" using j assms(2) by linarith
    ultimately show "rev order ! j \<noteq> order ! i" using nth_eq_iff_index_eq [OF assms(1)] assms(2) by simp
  next
    assume "?n < length (rev order)"
    have "length order - Suc ?n = i" using assms(2) by linarith
    then show "\<not> rev order ! ?n \<noteq> order ! i" using assms(2) by (simp add: rev_nth)
  qed
  then show ?thesis using assms(2) by (simp add: last_position_def)
qed

lemma steps: "distinct order \<Longrightarrow> map (step_priority order) order = map (\<lambda>i. int ((i + 1) * 10)) [0..<length order]"
  by (rule nth_equalityI) (simp_all add: step_priority_def last_index_nth)

lemma steps_facts:
  assumes "distinct order"
  shows "sorted (map (step_priority order) order)" "distinct (map (step_priority order) order)"
  unfolding steps [OF assms] by (auto simp: sorted_iff_nth_mono distinct_map inj_on_def)

lemma load_rules_sorted:
  assumes "db_ok d"
  shows "sorted (map priority (load_owner_rules oid d))"
proof -
  let ?rows = "sort_key (\<lambda>r. (fr_priority r, fr_id r)) (filter (\<lambda>r. fr_owner_id r = oid) (db_rules d))"
  have "map priority (load_owner_rules oid d) = map fst (map (\<lambda>r. (fr_priority r, fr_id r)) ?rows)"
    using fw_rows [OF assms] fw_row_okD(3) by (auto simp: load_rules_rows)
  moreover have "sorted (map (\<lambda>r. (fr_priority r, fr_id r)) ?rows)" by (rule sorted_sort_key)
  moreover have "sorted (map fst l)" if "sorted l" for l :: "(int \<times> string) list"
    using that by (induction l) (auto simp: less_eq_prod_def)
  ultimately show ?thesis by metis
qed

lemma with_step_owner [simp]: "owner_id (with_step now order r) = owner_id r"
  by (simp add: with_step_def)

lemma reordered_load:
  assumes "db_ok d" "db_ok d'" "distinct order" "set order = set (map rule_id (load_owner_rules oid d))"
    and "mset (list_firewall_rules d') = mset (map (\<lambda>r. if owner_id r = oid then with_step now order r else r) (list_firewall_rules d))"
  shows "map rule_id (load_owner_rules oid d') = order \<and> map priority (load_owner_rules oid d') = map (\<lambda>i. int ((i + 1) * 10)) [0..<length order]"
proof -
  let ?f = "\<lambda>r. if owner_id r = oid then with_step now order r else r"
  have keep: "owner_id (?f r) = owner_id r" "rule_id (?f r) = rule_id r" for r by (auto simp: with_step_def)
  have "set (list_firewall_rules d') = ?f ` set (list_firewall_rules d)" using arg_cong [OF assms(5), of set_mset] by simp
  then have new: "set (load_owner_rules oid d') = ?f ` set (load_owner_rules oid d)"
    unfolding own_rules_set [OF assms(1)] own_rules_set [OF assms(2)] using keep(1) by auto
  have ids: "set (map rule_id (load_owner_rules oid d')) = set order"
    unfolding set_map new image_image keep(2) using assms(4) by simp
  have pri: "map priority (load_owner_rules oid d') = map (step_priority order) (map rule_id (load_owner_rules oid d'))"
  proof -
    have "priority x = step_priority order (rule_id x)" if x: "x \<in> set (load_owner_rules oid d')" for x
    proof -
      obtain r where r: "r \<in> set (load_owner_rules oid d)" "x = ?f r" using x new by auto
      have "owner_id r = oid" using loaded_rules [OF assms(1) r(1)] by blast
      moreover have "rule_id r \<in> set order" using r(1) assms(4) by auto
      ultimately show ?thesis using r(2) by (simp add: with_step_def)
    qed
    then show ?thesis by simp
  qed
  have "map rule_id (load_owner_rules oid d') = order"
  proof (rule map_sorted_distinct_set_unique [of "step_priority order"])
    show "inj_on (step_priority order) (set (map rule_id (load_owner_rules oid d')) \<union> set order)"
      using steps_facts(2) [OF assms(3)] unfolding ids by (simp add: distinct_map)
    show "sorted (map (step_priority order) (map rule_id (load_owner_rules oid d')))"
      using load_rules_sorted [OF assms(2), of oid] unfolding pri .
    show "distinct (map (step_priority order) (map rule_id (load_owner_rules oid d')))"
      using own_ids_distinct [OF assms(2)] steps_facts(2) [OF assms(3)] ids by (simp only: distinct_map simp_thms)
  qed (use steps_facts [OF assms(3)] ids in auto)
  then show ?thesis using pri steps [OF assms(3)] by simp
qed

section \<open>Restoring a backup\<close>

abbreviation owner_rows :: "db \<Rightarrow> string \<Rightarrow> fw_row list" where
  "owner_rows d oid \<equiv> sort_key (\<lambda>r. (fr_priority r, fr_id r)) (filter (\<lambda>r. fr_owner_id r = oid) (db_rules d))"

lemma owner_rows_set: "set (owner_rows d oid) = {r \<in> set (db_rules d). fr_owner_id r = oid}"
  by simp

lemma map_filter_some: "\<forall>x\<in>set xs. g x = Some x \<Longrightarrow> List.map_filter g xs = xs"
  by (induction xs) (simp_all add: map_filter_def)

lemma valid_rules_id: "\<forall>r\<in>set rs. mk_rule r = Inr r \<Longrightarrow> valid_rules rs = rs"
  unfolding valid_rules_def by (rule map_filter_some, rule ballI, drule (1) bspec, erule ssubst, rule sum.case)

lemma save_into_free:
  assumes "db_ok d" "\<forall>r\<in>set (db_rules t). fr_owner_id r \<noteq> oid" "set (db_rules t) \<subseteq> set (db_rules d)" "s_db st = t"
  shows "save_rules oid (load_owner_rules oid d) st = Some (Inr (), st\<lparr>s_db := t\<lparr>db_rules := db_rules t @ owner_rows d oid\<rparr>\<rparr>)"
proof -
  have m: "mapM (firewall_values oid) (load_owner_rules oid d) = Inr (owner_rows d oid)"
    unfolding load_rules_rows using db_rules_ok [OF assms(1)] by (intro rows_of_payloads) (auto simp: list_all_iff)
  have ids: "distinct (map fr_id (db_rules d))" using db_rules_ok [OF assms(1)] by blast
  have "mset (map fr_id (owner_rows d oid)) = mset (map fr_id (filter (\<lambda>r. fr_owner_id r = oid) (db_rules d)))" by simp
  then have own: "distinct (map fr_id (owner_rows d oid))" using distinct_map_filter' [OF ids] mset_eq_imp_distinct_iff by metis
  have "fr_id ` set (owner_rows d oid) \<inter> fr_id ` {x \<in> set (db_rules t). fr_owner_id x \<noteq> oid} = {}"
    using ids assms(3) by (auto simp: distinct_map inj_on_def)
  moreover have "filter (\<lambda>x. fr_owner_id x \<noteq> oid) (db_rules t) = db_rules t" using assms(2) by (auto simp: filter_id_conv)
  ultimately have "replace_firewall_owner oid (load_owner_rules oid d) t = Inr (t\<lparr>db_rules := db_rules t @ owner_rows d oid\<rparr>)"
    using m own by (simp add: replace_firewall_owner_iff)
  then show ?thesis using assms(4) by (simp add: save_rules_Some)
qed

lemma save_all:
  assumes "db_ok d" "distinct oids" "\<forall>r\<in>set (db_rules (s_db st)). fr_owner_id r \<notin> set oids" "set (db_rules (s_db st)) \<subseteq> set (db_rules d)"
  shows "for_each (\<lambda>oid. save_rules oid (load_owner_rules oid d)) oids st =
    Some (Inr (), st\<lparr>s_db := (s_db st)\<lparr>db_rules := db_rules (s_db st) @ concat (map (owner_rows d) oids)\<rparr>\<rparr>)"
  using assms
proof (induction oids arbitrary: st)
  case (Cons oid oids)
  let ?st = "st\<lparr>s_db := (s_db st)\<lparr>db_rules := db_rules (s_db st) @ owner_rows d oid\<rparr>\<rparr>"
  have one: "save_rules oid (load_owner_rules oid d) st = Some (Inr (), ?st)"
    using save_into_free [OF assms(1) _ Cons.prems(4) refl] Cons.prems(3) by simp
  have "for_each (\<lambda>oid. save_rules oid (load_owner_rules oid d)) oids ?st =
      Some (Inr (), ?st\<lparr>s_db := (s_db ?st)\<lparr>db_rules := db_rules (s_db ?st) @ concat (map (owner_rows d) oids)\<rparr>\<rparr>)"
    using Cons.prems by (intro Cons.IH) auto
  then show ?case using one by (simp add: andthen_def)
qed (simp add: ret_def)

lemma owners_partition:
  "mset (concat (map (owner_rows d) (list_firewall_owner_ids d))) = mset (db_rules d)"
proof -
  have part: "distinct os \<Longrightarrow> mset (concat (map (\<lambda>oid. filter (\<lambda>r. fr_owner_id r = oid) rows) os)) =
      mset (filter (\<lambda>r. fr_owner_id r \<in> set os) rows)" for os and rows :: "fw_row list"
  proof (induction os)
    case (Cons x os)
    have "mset (filter (\<lambda>r. fr_owner_id r \<in> set (x # os)) rows) =
        mset (filter (\<lambda>r. fr_owner_id r = x) rows) + mset (filter (\<lambda>r. fr_owner_id r \<in> set os) rows)"
      using Cons.prems by (induction rows) auto
    then show ?case using Cons by simp
  qed simp
  have "mset (concat (map (owner_rows d) os)) = mset (concat (map (\<lambda>oid. filter (\<lambda>r. fr_owner_id r = oid) (db_rules d)) os))" for os
    by (induction os) simp_all
  moreover have "distinct (list_firewall_owner_ids d)" by (simp add: list_firewall_owner_ids_def)
  moreover have "filter (\<lambda>r. fr_owner_id r \<in> set (list_firewall_owner_ids d)) (db_rules d) = db_rules d"
    by (auto simp: list_firewall_owner_ids_def filter_id_conv)
  ultimately show ?thesis using part [of "list_firewall_owner_ids d" "db_rules d"] by (simp only:)
qed

lemma listed_perm:
  assumes "db_ok d" "mset (db_rules d') = mset (db_rules d)"
  shows "list_firewall_rules d' = list_firewall_rules d"
proof -
  have "distinct (db_rules d)" using db_rules_ok [OF assms(1)] by (auto simp: distinct_map)
  moreover have "distinct (db_rules d')" using calculation assms(2) mset_eq_imp_distinct_iff by blast
  moreover have "set (db_rules d') = set (db_rules d)" using assms(2) by (metis set_mset_mset)
  moreover have "inj_on (\<lambda>r. (fr_priority r, fr_owner_id r, fr_id r)) (set (db_rules d'))"
    using db_rules_ok [OF assms(1)] calculation(3) by (auto simp: distinct_map inj_on_def)
  ultimately show ?thesis unfolding list_firewall_rules_def by (intro arg_cong [of _ _ "map fr_payload"] sort_key_same_set)
qed

text \<open>The loops over the owners do nothing when none of them had rules before.\<close>

lemma skip_each: "\<forall>x\<in>set xs. f x = ret () \<Longrightarrow> for_each f xs st = Some (Inr (), st)"
  by (induction xs) (simp_all add: ret_def)

lemma restore_peers_skip:
  "\<forall>b\<in>set items. strip (bp_id b) = [] \<or> get_peer (strip (bp_id b)) (s_db st) = None \<Longrightarrow> restore_peers w items st = Some (Inr (), st)"
  unfolding restore_peers_def by (induction items) (auto simp: ret_def andthen_def Let_def)

lemma rollback_empty:
  assumes "s_prepush st = []"
  shows "rollback_center_json_owners (map (\<lambda>oid. (oid, False)) oids) st =
    Some (Inr (), st\<lparr>s_db := (s_db st)\<lparr>db_rules := filter (\<lambda>r. fr_owner_id r \<notin> set oids) (db_rules (s_db st))\<rparr>\<rparr>)"
  using assms
proof (induction oids arbitrary: st)
  case Nil
  then show ?case by (simp add: rollback_center_json_owners_def ret_def)
next
  case (Cons oid oids)
  let ?st = "st\<lparr>s_db := (s_db st)\<lparr>db_rules := filter (\<lambda>r. fr_owner_id r \<noteq> oid) (db_rules (s_db st))\<rparr>\<rparr>"
  have "replace_firewall_owner oid [] (s_db st) = Inr ((s_db st)\<lparr>db_rules := filter (\<lambda>r. fr_owner_id r \<noteq> oid) (db_rules (s_db st))\<rparr>)"
    by (simp add: replace_firewall_owner_iff)
  then have one: "rollback_center_json_after_rebuild_fail oid False st = Some (Inr (), ?st)"
    using Cons.prems by (simp add: rollback_center_json_after_rebuild_fail_def save_rules_Some)
  have "rollback_center_json_owners (map (\<lambda>oid. (oid, False)) oids) ?st =
      Some (Inr (), ?st\<lparr>s_db := (s_db ?st)\<lparr>db_rules := filter (\<lambda>r. fr_owner_id r \<notin> set oids) (db_rules (s_db ?st))\<rparr>\<rparr>)"
    using Cons.prems by (intro Cons.IH) simp
  moreover have "filter (\<lambda>r. fr_owner_id r \<notin> set oids) (filter (\<lambda>r. fr_owner_id r \<noteq> oid) l) =
      filter (\<lambda>r. fr_owner_id r \<notin> set (oid # oids)) l" for l
    by (auto simp: filter_filter intro: filter_cong)
  ultimately show ?case using one by (simp add: rollback_center_json_owners_def andthen_def)
qed

lemma backup_peers_absent:
  assumes "\<forall>p\<in>set (list_peers d). get_peer (strip (p_id p)) d' = None"
  shows "\<forall>b\<in>set (List.map_filter backup_peer_of (list_peers d)). strip (bp_id b) = [] \<or> get_peer (strip (bp_id b)) d' = None"
  using assms by (auto simp: map_filter_def backup_peer_of_def split: if_splits)

lemma restore_backup:
  assumes "db_ok d" "db_rules d \<noteq> []" "\<forall>r\<in>set (list_firewall_rules d). mk_rule r = Inr r"
    and "\<forall>p\<in>set (list_peers d). get_peer (strip (p_id p)) (s_db st) = None"
    and "db_rules (s_db st) = []" "prepush_ok st"
    and "rule_restore w (Some (rule_backup_data d)) st = Some (r, st')"
  shows "r = Inr True \<and> list_firewall_rules (s_db st') = list_firewall_rules d \<and> refreshed w st' \<or>
    r = Inr False \<and> db_rules (s_db st') = []"
proof -
  let ?ids = "list_firewall_owner_ids d"
  let ?own = "map (\<lambda>oid. (oid, load_owner_rules oid d)) ?ids" and ?flags = "map (\<lambda>oid. (oid, False)) ?ids"
  let ?items = "List.map_filter backup_peer_of (list_peers d)"
  let ?all = "concat (map (owner_rows d) ?ids)"
  let ?s1 = "st\<lparr>s_db := (s_db st)\<lparr>db_rules := ?all\<rparr>\<rparr>"
  have "set ?ids \<noteq> {}" using assms(2) by (simp add: list_firewall_owner_ids_def)
  then have ne: "?ids \<noteq> []" by (simp only: set_empty simp_thms)
  have flags: "map (\<lambda>(oid, rs). (oid, firewall_owner_exists oid (s_db st))) ?own = ?flags"
    using assms(5) by (simp add: firewall_owner_exists_def)
  have noex: "firewall_owner_exists x (s_db st) = False" for x
    using assms(5) by (simp add: firewall_owner_exists_def)
  have nosnap: "s_prepush st = []"
  proof (cases "s_prepush st")
    case (Cons p l)
    then have "map_of (s_prepush st) (fst p) \<noteq> None" by (cases p) simp
    then show ?thesis using assms(5,6) by (auto simp: prepush_ok_def firewall_owner_exists_def)
  qed
  have valid: "valid_rules (load_owner_rules oid d) = load_owner_rules oid d" for oid
    using assms(3) own_rules_set [OF assms(1), of oid] by (intro valid_rules_id) auto
  have skip: "for_each (\<lambda>(oid, had). backup_if had oid) ?flags s = Some (Inr (), s)"
    "for_each (\<lambda>(oid, had). clear_if had oid) ?flags s = Some (Inr (), s)" for s :: "'a sys"
    by (rule skip_each; auto simp: backup_if_def clear_if_def)+
  have each: "for_each (\<lambda>(oid, rs). save_rules oid (valid_rules rs)) (map (\<lambda>oid. (oid, load_owner_rules oid d)) oids) =
      for_each (\<lambda>oid. save_rules oid (load_owner_rules oid d)) oids" for oids
    by (induction oids) (simp_all add: valid)
  have save: "for_each (\<lambda>(oid, rs). save_rules oid (valid_rules rs)) ?own st = Some (Inr (), ?s1)"
    unfolding each using save_all [OF assms(1), of ?ids st] assms(5) by (simp add: list_firewall_owner_ids_def)
  have peers: "restore_peers w ?items ?s1 = Some (Inr (), ?s1)"
    using backup_peers_absent [OF assms(4)] by (intro restore_peers_skip) (simp add: get_peer_def get_peer_row_def)
  have go: "andthen (handle (andthen (refresh_forward w) (\<lambda>_. ret True)) (\<lambda>_. andthen (rollback_center_json_owners ?flags) (\<lambda>_. ret False)))
      (\<lambda>ok. if \<not> ok then ret False else andthen (for_each (\<lambda>(oid, had). clear_if had oid) ?flags) (\<lambda>_.
        andthen (audit ''restore_firewall_rules'' ''firewall'' ''all'' ''success'') (\<lambda>_. ret True))) ?s1 = Some (r, st')"
    using assms(7) ne skip(1) [of st] save peers
    by (simp add: noex rule_restore_def rule_backup_data_def Let_def andthen_def handle_def ret_def comp_def)
  have perm: "mset (db_rules (s_db ?s1)) = mset (db_rules d)" using owners_partition by simp
  consider s where "refresh_forward w ?s1 = Some (Inr (), s)" | e s where "refresh_forward w ?s1 = Some (Inl e, s)"
    using go by (cases "refresh_forward w ?s1") (auto simp: andthen_Some_iff handle_Some_iff)
  then show ?thesis
  proof cases
    case 1
    note f = refresh_forward_fields [OF 1]
    have fin: "r = Inr True \<and> s_db st' = s_db s \<and> s_ccd st' = s_ccd s \<and> s_mgr st' = s_mgr s"
      using go 1 skip(2) [of s] by (auto simp: andthen_Some_iff handle_Some_iff ret_def audit_Some)
    have "list_firewall_rules (s_db s) = list_firewall_rules d"
      using listed_perm [OF assms(1) perm] f by simp
    moreover have "refreshed w st'"
      unfolding refreshed_def using 1 f fin by (intro exI [of _ ?s1] exI [of _ s]) auto
    ultimately show ?thesis using fin by simp
  next
    case 2
    note f = refresh_forward_fields [OF 2]
    have "db_rules (s_db s) = ?all" using f by simp
    moreover have "filter (\<lambda>x. fr_owner_id x \<notin> set ?ids) ?all = []" by (auto simp: filter_empty_conv)
    moreover have "s_prepush s = []" using f nosnap by simp
    ultimately show ?thesis
      using go 2 rollback_empty [of s ?ids] by (auto simp: andthen_Some_iff handle_Some_iff ret_def)
  qed
qed

section \<open>Properties\<close>

text \<open>Putting an owner's rules in order: when the order names each of the owner's rules once, the
  rules are afterwards listed in exactly that order, with the priorities 10, 20, 30 and so on.\<close>

theorem reorder_gives_order:
  assumes "db_ok (s_db st)" "prepush_ok st" "strip oid \<noteq> []" "rule_reorder w oid order st = Some (Inr b, st')"
    and "distinct order" "set order = set (map rule_id (load_owner_rules oid (s_db st)))"
  shows "map rule_id (load_owner_rules oid (s_db st')) = order \<and>
    map priority (load_owner_rules oid (s_db st')) = map (\<lambda>i. int ((i + 1) * 10)) [0..<length order]"
proof (rule reordered_load [OF assms(1) _ assms(5,6)])
  show "mset (list_firewall_rules (s_db st')) =
      mset (map (\<lambda>r. if owner_id r = oid then with_step (w_now w) order r else r) (list_firewall_rules (s_db st)))"
    using rule_reorder_refines [OF assms(1-4)] by simp
  have step: "rule_step w (Reorder oid order) st = Some (Inr (), st')" using assms(4) by (simp add: andthen_def ret_def)
  from rule_step_db_ok [OF step assms(1)] show "db_ok (s_db st')" .
qed

text \<open>C18. A backup can be restored: into a store without rules and without the peers of the backup, a
  restore either brings back every rule of the backed-up store, in its order, and refreshes the
  kernel from them, or reports failure and leaves the store without rules.\<close>

theorem backup_restore_roundtrip:
  assumes "db_ok d" "db_rules d \<noteq> []" "\<forall>r\<in>set (list_firewall_rules d). mk_rule r = Inr r"
    and "\<forall>p\<in>set (list_peers d). get_peer (strip (p_id p)) (s_db st) = None"
    and "db_rules (s_db st) = []" "prepush_ok st"
    and "rule_restore w (Some (rule_backup_data d)) st = Some (r, st')"
  shows "r = Inr True \<and> list_firewall_rules (s_db st') = list_firewall_rules d \<and> refreshed w st' \<or>
    r = Inr False \<and> db_rules (s_db st') = []"
  by (rule restore_backup [OF assms])

section \<open>Witnesses\<close>

lemma returned_True: "(case x of Some (Inr b, s) \<Rightarrow> b | _ \<Rightarrow> False) \<Longrightarrow> \<exists>s. x = Some (Inr True, s)"
  by (cases x; cases "fst (the x)"; cases "the x") auto

definition two_rules_sys :: "ref_kernel sys" where
  "two_rules_sys = demo_sys\<lparr>s_db := run_ops netaddr_ref
     [ReplaceOwner ''t1'' [sample_rule, sample_rule\<lparr>rule_id := ''r2'', priority := 15\<rparr>]] demo_db\<rparr>"

lemma two_rules_ok: "db_ok (s_db two_rules_sys)" "prepush_ok two_rules_sys"
  using db_reachable_ok [OF run_ops_reachable [OF demo_db_reachable]]
  by (simp_all add: two_rules_sys_def prepush_ok_def demo_sys_def)

theorem reorder_gives_order_witness:
  "\<exists>st'. rule_reorder (demo_world False) ''t1'' [''r2'', ''r1''] two_rules_sys = Some (Inr True, st') \<and>
     map rule_id (load_owner_rules ''t1'' (s_db st')) = [''r2'', ''r1''] \<and> map priority (load_owner_rules ''t1'' (s_db st')) = [10, 20]"
proof -
  have "case rule_reorder (demo_world False) ''t1'' [''r2'', ''r1''] two_rules_sys of Some (Inr b, s) \<Rightarrow> b | _ \<Rightarrow> False" by code_simp
  then obtain st' where r: "rule_reorder (demo_world False) ''t1'' [''r2'', ''r1''] two_rules_sys = Some (Inr True, st')"
    by (rule exE [OF returned_True])
  have "strip ''t1'' \<noteq> []" "distinct [''r2'', ''r1'']"
    "set [''r2'', ''r1''] = set (map rule_id (load_owner_rules ''t1'' (s_db two_rules_sys)))" by code_simp+
  from reorder_gives_order [OF two_rules_ok this(1) r this(2,3)] show ?thesis using r by (simp add: upt_rec)
qed

definition no_rules_sys :: "ref_kernel sys" where
  "no_rules_sys = demo_sys\<lparr>s_db := run_ops netaddr_ref [ReplaceOwner ''t1'' []] demo_db\<rparr>"

theorem backup_restore_roundtrip_witness:
  "\<exists>st'. rule_restore (demo_world False) (Some (rule_backup_data (s_db two_rules_sys))) no_rules_sys = Some (Inr True, st') \<and>
     list_firewall_rules (s_db st') = list_firewall_rules (s_db two_rules_sys)"
proof -
  have "case rule_restore (demo_world False) (Some (rule_backup_data (s_db two_rules_sys))) no_rules_sys of
      Some (Inr b, s) \<Rightarrow> b | _ \<Rightarrow> False" by code_simp
  then obtain st' where r: "rule_restore (demo_world False) (Some (rule_backup_data (s_db two_rules_sys))) no_rules_sys = Some (Inr True, st')"
    by (rule exE [OF returned_True])
  have "db_rules (s_db two_rules_sys) \<noteq> []" "\<forall>r\<in>set (list_firewall_rules (s_db two_rules_sys)). mk_rule r = Inr r"
    "\<forall>p\<in>set (list_peers (s_db two_rules_sys)). get_peer (strip (p_id p)) (s_db no_rules_sys) = None"
    "db_rules (s_db no_rules_sys) = []" by code_simp+
  moreover have "prepush_ok no_rules_sys" by (simp add: no_rules_sys_def prepush_ok_def demo_sys_def)
  ultimately show ?thesis using backup_restore_roundtrip [OF two_rules_ok(1) _ _ _ _ _ r] r by blast
qed

text \<open>Putting one owner's rules in order can give them the priority of another owner's rule, which
  creating a rule refuses.\<close>

lemma reorder_clashes:
  "\<exists>st'. rule_reorder (demo_world False) ''alice'' [''a1'']
      (demo_sys\<lparr>s_db := run_ops netaddr_ref
        [ReplaceOwner ''alice'' [sample_rule\<lparr>rule_id := ''a1'', owner_type := OUser, owner_id := ''alice'', priority := 30\<rparr>]] demo_db\<rparr>)
      = Some (Inr True, st') \<and> map priority (list_firewall_rules (s_db st')) = [10, 10]"
proof -
  have "case rule_reorder (demo_world False) ''alice'' [''a1'']
      (demo_sys\<lparr>s_db := run_ops netaddr_ref
        [ReplaceOwner ''alice'' [sample_rule\<lparr>rule_id := ''a1'', owner_type := OUser, owner_id := ''alice'', priority := 30\<rparr>]] demo_db\<rparr>)
      of Some (Inr b, s) \<Rightarrow> b \<and> map priority (list_firewall_rules (s_db s)) = [10, 10] | _ \<Rightarrow> False" by code_simp
  then show ?thesis by (elim exE [OF returned]) auto
qed

end
