(* ===== verification/Address_Groups.thy ===== *)
theory Address_Groups
  imports Rules Tags
begin

text \<open>
  \<open>app/services/group/subnet.py\<close> and \<open>app/services/group/crud.py\<close>: the address plan.  A group owns a
  subnet; the first group is the root and owns the global pool.

  A \<open>site\<close> adds to the shared state what the group and user services also change: the two settings
  of \<open>config.json\<close> they write and the device binding files.
\<close>

section \<open>State\<close>

record binding =
  b_id :: string
  b_username :: string
  b_fingerprint :: string
  b_source :: string
  b_iv_plat :: "string option"
  b_last_connected :: "string option"
  b_unique_id :: "string option"
  b_bound_at :: string
  b_last_seen_at :: "string option"

record 'k site =
  si_sys :: "'k sys"
  si_global :: "string option"
  si_instances :: "(string \<times> string option) list"
  si_bindings :: "(string \<times> binding option) list"

definition on_sys :: "('k sys, 'a) stact \<Rightarrow> ('k site, 'a) stact" where
  "on_sys m s = (case m (si_sys s) of None \<Rightarrow> None | Some (r, t) \<Rightarrow> Some (r, s\<lparr>si_sys := t\<rparr>))"

abbreviation si_db :: "'k site \<Rightarrow> db" where
  "si_db s \<equiv> s_db (si_sys s)"

definition log_audit :: "string \<Rightarrow> string \<Rightarrow> string \<Rightarrow> string \<Rightarrow> ('k site, unit) stact" where
  "log_audit act ttype tid outcome = on_sys (audit act ttype tid outcome)"

definition handle_value :: "('s, 'a) stact \<Rightarrow> ('s, 'a) stact \<Rightarrow> ('s, 'a) stact" where
  "handle_value m f = handle m (\<lambda>e. case e of ValueError _ \<Rightarrow> f | _ \<Rightarrow> throw e)"

section \<open>Conflicts of subnets\<close>

datatype conflict = BadFormat | OutsideGlobal | Overlaps string string

definition equals_global :: "string \<Rightarrow> string \<Rightarrow> bool" where
  "equals_global global subnet \<longleftrightarrow> global \<noteq> [] \<and> ip_network global \<noteq> None \<and> ip_network subnet = ip_network global"

definition group_conflict :: "netaddr \<Rightarrow> string \<Rightarrow> string \<Rightarrow> string \<Rightarrow> group \<Rightarrow> conflict option" where
  "group_conflict na new_subnet global exclude g =
     (if exclude \<noteq> [] \<and> g_id g = exclude then None
      else if g_subnet g = [] then None
      else if equals_global global (g_subnet g) then None
      else if subnets_overlap na new_subnet (g_subnet g) then Some (Overlaps (g_name g) (g_subnet g))
      else None)"

definition check_subnet_conflict :: "netaddr \<Rightarrow> string \<Rightarrow> string \<Rightarrow> group list \<Rightarrow> string \<Rightarrow> conflict list" where
  "check_subnet_conflict na new_subnet global existing exclude =
     (if \<not> validate_cidr na new_subnet then [BadFormat]
      else if global \<noteq> [] \<and> \<not> is_subnet_of na new_subnet global then [OutsideGlobal]
      else List.map_filter (group_conflict na new_subnet global exclude) existing)"

section \<open>Creating groups\<close>

text \<open>The subnet of a new group lies within that of the root, the first group.\<close>

definition check_root :: "netaddr \<Rightarrow> string \<Rightarrow> group list \<Rightarrow> unit res" where
  "check_root na subnet existing = (case existing of [] \<Rightarrow> Inr ()
     | root # _ \<Rightarrow>
        if g_subnet root = [] then Inr ()
        else if \<not> validate_cidr na subnet then Inl (ValueError ''bad subnet'')
        else if \<not> is_subnet_of na subnet (g_subnet root) then Inl (ValueError ''outside the root group'')
        else Inr ())"

definition new_group :: "'k world \<Rightarrow> nat \<Rightarrow> string \<Rightarrow> string \<Rightarrow> group" where
  "new_group w n nm subnet = \<lparr>g_id = w_uuid w n, g_name = nm, g_subnet = subnet, g_status = GActive, user_count = 0,
     g_rule_ids = [], g_created_at = w_now w, g_updated_at = w_now w\<rparr>"

definition check_new_group :: "'k world \<Rightarrow> string \<Rightarrow> string \<Rightarrow> 'k site \<Rightarrow> string res" where
  "check_new_group w nm subnet s = (case normalize_cidr (w_na w) subnet of
       None \<Rightarrow> Inl (ValueError ''bad subnet'')
     | Some sub \<Rightarrow>
         if group_name_exists nm None (si_db s) then Inl (ValueError ''group name exists'')
         else rbind (check_root (w_na w) sub (list_groups (si_db s))) (\<lambda>_.
           if check_subnet_conflict (w_na w) sub (opt_str (si_global s)) (list_groups (si_db s)) [] \<noteq> []
           then Inl (ValueError ''subnet conflict'') else Inr sub))"

text \<open>\<open>n\<close> numbers the identifiers drawn within one request.\<close>

definition group_create :: "'k world \<Rightarrow> nat \<Rightarrow> string \<Rightarrow> string \<Rightarrow> ('k site, group) stact" where
  "group_create w n nm subnet s = andthen (of_res (check_new_group w nm subnet s)) (\<lambda>sub.
     andthen (on_sys (store_write (upsert_group (w_na w) (new_group w n nm sub)))) (\<lambda>_.
     andthen (log_audit ''create_group'' ''group'' (w_uuid w n) ''success'') (\<lambda>_. ret (new_group w n nm sub)))) s"

fun group_bulk_create :: "'k world \<Rightarrow> nat \<Rightarrow> (string \<times> string) list \<Rightarrow> ('k site, group list) stact" where
  "group_bulk_create w n [] = ret []"
| "group_bulk_create w n ((nm, subnet) # items) =
     (if nm = [] \<or> subnet = [] then group_bulk_create w (n + 1) items
      else andthen (handle_value (andthen (group_create w n nm subnet) (\<lambda>g. ret [g]))
             (andthen (log_audit ''create_group'' ''group'' nm ''failure'') (\<lambda>_. ret []))) (\<lambda>made.
           andthen (group_bulk_create w (n + 1) items) (\<lambda>rest. ret (made @ rest))))"

section \<open>The global subnet\<close>

text \<open>\<open>SystemConfig\<close>: the prefix of the global pool is at least 16.\<close>

definition validate_global_subnet :: "string \<Rightarrow> unit res" where
  "validate_global_subnet s = rbind (case ip_network s of Some n \<Rightarrow> Inr (net_plen n)
       | None \<Rightarrow> Inl (ValueError ''bad CIDR'')) (\<lambda>p.
     if p < 16 then Inl (ValueError ''global subnet too large'') else Inr ())"

text \<open>The description of the rule the initialisation creates, in UTF-8.\<close>

definition default_rule_description :: string where
  "default_rule_description = [CHR 0xE5, CHR 0x88, CHR 0x9D, CHR 0xE5, CHR 0xA7, CHR 0x8B, CHR 0xE5, CHR 0x8C, CHR 0x96,
     CHR 0xE9, CHR 0xBB, CHR 0x98, CHR 0xE8, CHR 0xAE, CHR 0xA4, CHR 0xE6, CHR 0x94, CHR 0xBE, CHR 0xE8, CHR 0xA1, CHR 0x8C]"

fun move_default_rule :: "string \<Rightarrow> string \<Rightarrow> string \<Rightarrow> rule list \<Rightarrow> rule list option" where
  "move_default_rule old_subnet new_subnet now [] = None"
| "move_default_rule old_subnet new_subnet now (r # rs) =
     (if description r = Some default_rule_description \<and> source_subnet r = Some old_subnet
      then Some (r\<lparr>source_subnet := Some new_subnet, r_updated_at := now\<rparr> # rs)
      else map_option (Cons r) (move_default_rule old_subnet new_subnet now rs))"

definition sync_default_rule :: "'k world \<Rightarrow> string \<Rightarrow> string \<Rightarrow> string \<Rightarrow> ('k sys, unit) stact" where
  "sync_default_rule w root old_subnet new_subnet st =
     handle (case move_default_rule old_subnet new_subnet (w_now w) (list_by_owner root (s_db st)) of
         None \<Rightarrow> ret ()
       | Some rules \<Rightarrow> andthen (save_rules root rules) (\<lambda>_. refresh_forward w)) (\<lambda>_. ret ()) st"

text \<open>Configuration and default rule follow the root group; \<open>save_ok\<close> tells whether the
  configuration file can be written.  The rewriting of \<open>server.conf\<close> catches every exception and
  touches no state of the model.\<close>

definition sync_global_subnet :: "'k world \<Rightarrow> bool \<Rightarrow> string \<Rightarrow> string \<Rightarrow> string \<Rightarrow> ('k site, unit) stact" where
  "sync_global_subnet w save_ok root old_subnet new_subnet =
     andthen (of_res (validate_global_subnet new_subnet)) (\<lambda>_.
     andthen (\<lambda>s. if \<not> save_ok then throw (OSError ''config.json'') s
        else ret () (s\<lparr>si_global := Some new_subnet,
          si_instances := map (\<lambda>(i, sub). (i, if sub = Some old_subnet then Some new_subnet else sub)) (si_instances s)\<rparr>)) (\<lambda>_.
     on_sys (sync_default_rule w root old_subnet new_subnet)))"

section \<open>Changing groups\<close>

definition load_group :: "string \<Rightarrow> ('k site, group) stact" where
  "load_group gid s = (case get_group gid (si_db s) of None \<Rightarrow> throw (ValueError ''no such group'') s
     | Some g \<Rightarrow> ret g s)"

definition is_root_group :: "string \<Rightarrow> db \<Rightarrow> bool" where
  "is_root_group gid d = (case list_groups d of [] \<Rightarrow> False | root # _ \<Rightarrow> g_id root = gid)"

definition check_new_subnet :: "'k world \<Rightarrow> group \<Rightarrow> string \<Rightarrow> 'k site \<Rightarrow> string res" where
  "check_new_subnet w g new_subnet s = (case normalize_cidr (w_na w) new_subnet of
       None \<Rightarrow> Inl (ValueError ''bad subnet'')
     | Some sub \<Rightarrow>
         if user_count g > 0 then Inl (ValueError ''group has users'')
         else if is_root_group (g_id g) (si_db s) then
           if length (list_groups (si_db s)) > 1 then Inl (ValueError ''root has sub-groups'')
           else if \<not> validate_cidr (w_na w) sub then Inl (ValueError ''bad subnet'') else Inr sub
         else if check_subnet_conflict (w_na w) sub (opt_str (si_global s)) (list_groups (si_db s)) (g_id g) \<noteq> []
           then Inl (ValueError ''subnet conflict'') else Inr sub)"

definition group_update_subnet :: "'k world \<Rightarrow> bool \<Rightarrow> string \<Rightarrow> string \<Rightarrow> ('k site, group) stact" where
  "group_update_subnet w save_ok gid new_subnet s = andthen (load_group gid) (\<lambda>g.
     andthen (of_res (check_new_subnet w g new_subnet s)) (\<lambda>sub.
     (let new = g\<lparr>g_subnet := sub, g_updated_at := w_now w\<rparr> in
      andthen (on_sys (store_write (upsert_group (w_na w) new))) (\<lambda>_.
      andthen (on_sys (refresh_if_referenced w ''group'' gid [])) (\<lambda>_.
      andthen (if is_root_group gid (si_db s) then sync_global_subnet w save_ok gid (g_subnet g) sub else ret ()) (\<lambda>_.
      andthen (log_audit ''update_group_subnet'' ''group'' gid ''success'') (\<lambda>_. ret new))))))) s"

definition group_update_details :: "'k world \<Rightarrow> bool \<Rightarrow> string \<Rightarrow> string \<Rightarrow> string \<Rightarrow> ('k site, group) stact" where
  "group_update_details w save_ok gid nm subnet s = andthen (load_group gid) (\<lambda>current.
     (let new_name = strip nm; raw = strip subnet in
      if new_name = [] then throw (ValueError ''group name empty'')
      else if raw = [] then throw (ValueError ''subnet empty'')
      else (case normalize_cidr (w_na w) raw of
          None \<Rightarrow> throw (ValueError ''bad subnet'')
        | Some sub \<Rightarrow>
            if list_ex (\<lambda>g. g_id g \<noteq> gid \<and> g_name g = new_name) (list_groups (si_db s))
            then throw (ValueError ''group name exists'')
            else andthen (if sub \<noteq> g_subnet current
                then andthen (group_update_subnet w save_ok gid sub) (\<lambda>_. load_group gid) else ret current) (\<lambda>cur.
              if new_name = g_name cur then ret cur
              else andthen (on_sys (store_write (upsert_group (w_na w) (cur\<lparr>g_name := new_name, g_updated_at := w_now w\<rparr>)))) (\<lambda>_.
                andthen (log_audit ''update_group_name'' ''group'' gid ''success'') (\<lambda>_.
                ret (cur\<lparr>g_name := new_name, g_updated_at := w_now w\<rparr>))))))) s"

section \<open>Deleting and switching groups\<close>

definition linked_rules :: "string \<Rightarrow> db \<Rightarrow> rule list" where
  "linked_rules gid d = filter (\<lambda>r. owner_type r = OGroup) (get_firewall_owner gid d)"

definition group_delete :: "'k world \<Rightarrow> string \<Rightarrow> ('k site, bool) stact" where
  "group_delete w gid s = andthen (load_group gid) (\<lambda>g.
     if user_count g > 0 then throw (ValueError ''group has users'')
     else if is_root_group gid (si_db s) then throw (ValueError ''root group'')
     else if linked_rules gid (si_db s) \<noteq> [] then throw (ValueError ''group has rules'')
     else (let affected = entity_tag_ids EGroup gid (si_db s) in
       andthen (on_sys (store_write (\<lambda>d. Inr (delete_group gid d)))) (\<lambda>_.
       andthen (on_sys (refresh_for_tags w affected)) (\<lambda>_.
       andthen (log_audit ''delete_group'' ''group'' gid ''success'') (\<lambda>_. ret True))))) s"

fun group_bulk_delete :: "'k world \<Rightarrow> string list \<Rightarrow> ('k site, (string \<times> bool) list) stact" where
  "group_bulk_delete w [] = ret []"
| "group_bulk_delete w (gid # ids) = andthen (handle_value (andthen (group_delete w gid) (\<lambda>_. ret True)) (ret False)) (\<lambda>ok.
     andthen (group_bulk_delete w ids) (\<lambda>rest. ret ((gid, ok) # rest)))"

definition group_set_status :: "'k world \<Rightarrow> string \<Rightarrow> group_status \<Rightarrow> ('k site, group) stact" where
  "group_set_status w gid status = andthen (load_group gid) (\<lambda>g.
     (let new = g\<lparr>g_status := status, g_updated_at := w_now w\<rparr> in
      andthen (on_sys (store_write (upsert_group (w_na w) new))) (\<lambda>_.
      andthen (on_sys (refresh_if_referenced w ''group'' gid [])) (\<lambda>_.
      andthen (log_audit (if status = GActive then ''enable_group'' else ''disable_group'') ''group'' gid ''success'') (\<lambda>_.
      ret new)))))"

fun group_bulk_status :: "'k world \<Rightarrow> group_status \<Rightarrow> string list \<Rightarrow> ('k site, (string \<times> bool) list) stact" where
  "group_bulk_status w status [] = ret []"
| "group_bulk_status w status (gid # ids) =
     andthen (handle_value (andthen (group_set_status w gid status) (\<lambda>_. ret True)) (ret False)) (\<lambda>ok.
     andthen (group_bulk_status w status ids) (\<lambda>rest. ret ((gid, ok) # rest)))"

end
