(* ===== verification/Users.thy ===== *)
theory Users
  imports Address_Groups
begin

text \<open>
  \<open>app/services/user/crud.py\<close> and \<open>app/services/user/device_bind.py\<close>: users, the fixed address each
  one gets from its group's subnet, and the device each one is bound to.

  The certificate steps (EasyRSA as a subprocess, the files of the PKI directory, the OVPN file) are
  parameters of \<open>user_create\<close> and \<open>user_delete\<close>: what they return or raise.  The \<open>kill\<close> command on
  the management sockets only logs its failures and is left out.
\<close>

section \<open>Device bindings\<close>

text \<open>The files of the directory in \<open>glob\<close> order; an unreadable one is \<open>None\<close>.\<close>

definition find_binding_file :: "string \<Rightarrow> ('k site, (string \<times> binding) option) stact" where
  "find_binding_file uname s = ret (case find (\<lambda>(f, b). case b of None \<Rightarrow> False | Some x \<Rightarrow> b_username x = uname) (si_bindings s) of
     Some (f, Some x) \<Rightarrow> Some (f, x) | _ \<Rightarrow> None) s"

definition unlink_binding :: "string \<Rightarrow> ('k site, unit) stact" where
  "unlink_binding f s = ret () (s\<lparr>si_bindings := filter (\<lambda>(g, b). g \<noteq> f) (si_bindings s)\<rparr>)"

definition reset_binding :: "string \<Rightarrow> ('k site, bool) stact" where
  "reset_binding uname = andthen (find_binding_file uname) (\<lambda>found. case found of
     None \<Rightarrow> ret False
   | Some (f, b) \<Rightarrow> andthen (unlink_binding f) (\<lambda>_. ret True))"

definition create_binding :: "'k world \<Rightarrow> string \<Rightarrow> string \<Rightarrow> string \<Rightarrow> ('k site, binding) stact" where
  "create_binding w uname fingerprint source = andthen (find_binding_file uname) (\<lambda>found.
     andthen (case found of None \<Rightarrow> ret () | Some (f, b) \<Rightarrow> unlink_binding f) (\<lambda>_.
     (let b = \<lparr>b_id = w_uuid w 0, b_username = uname, b_fingerprint = fingerprint, b_source = source, b_iv_plat = None,
       b_last_connected = None, b_unique_id = None, b_bound_at = w_now w, b_last_seen_at = None\<rparr> in
      andthen (\<lambda>s. ret () (s\<lparr>si_bindings := AList.update (b_id b @ ''.json'') (Some b) (si_bindings s)\<rparr>)) (\<lambda>_. ret b))))"

definition get_binding :: "string \<Rightarrow> ('k site, binding option) stact" where
  "get_binding uname = andthen (find_binding_file uname) (\<lambda>found. ret (map_option snd found))"

definition verify_binding :: "string \<Rightarrow> string \<Rightarrow> ('k site, bool) stact" where
  "verify_binding uname fingerprint = andthen (get_binding uname) (\<lambda>b. case b of
     None \<Rightarrow> ret False | Some x \<Rightarrow> ret (b_fingerprint x = fingerprint))"

text \<open>The labels of the user list, in UTF-8.\<close>

definition iv_plat_labels :: "(string \<times> string) list" where
  "iv_plat_labels = [(''android'', [CHR 0xE5, CHR 0xAE, CHR 0x89, CHR 0xE5, CHR 0x8D, CHR 0x93]), (''ios'', ''iOS''), (''mac'', ''Mac''), (''macos'', ''Mac''),
     (''darwin'', ''Mac''), (''macosx'', ''Mac''), (''win'', ''Windows''), (''windows'', ''Windows''), (''linux'', ''Linux'')]"

definition format_iv_plat_display :: "string option \<Rightarrow> string" where
  "format_iv_plat_display raw = (let t = strip (opt_str raw) in
     if t = [] then []
     else (case map_of iv_plat_labels (lower t) of Some label \<Rightarrow> label
       | None \<Rightarrow> [CHR 0xE5, CHR 0x85, CHR 0xB6, CHR 0xE4, CHR 0xBB, CHR 0x96] @ ''('' @ t @ '')''))"

text \<open>The label and the start of the last session per user; a later file of the same user replaces the entry.\<close>

fun user_binding_aux :: "(string \<times> binding option) list \<Rightarrow> (string \<times> string \<times> string) list \<Rightarrow> (string \<times> string \<times> string) list" where
  "user_binding_aux [] out = out"
| "user_binding_aux ((f, None) # files) out = user_binding_aux files out"
| "user_binding_aux ((f, Some b) # files) out = user_binding_aux files (if b_username b = [] then out
     else AList.update (b_username b) (format_iv_plat_display (b_iv_plat b), strip (opt_str (b_last_connected b))) out)"

definition build_user_binding_aux :: "'k site \<Rightarrow> (string \<times> string \<times> string) list" where
  "build_user_binding_aux s = user_binding_aux (si_bindings s) []"

section \<open>Addresses\<close>

definition ifconfig_push_netmask :: "string \<Rightarrow> net \<Rightarrow> string" where
  "ifconfig_push_netmask global group_net = (let gs = strip global in
     if gs = [] then netmask_str group_net
     else (case ip_network gs of None \<Rightarrow> netmask_str group_net | Some pool \<Rightarrow> netmask_str pool))"

text \<open>\<open>IPv4Network\<close> and \<open>IPv4Address\<close> raise a \<open>ValueError\<close>.\<close>

definition v4_network :: "string \<Rightarrow> net res" where
  "v4_network s = (case ip_network s of None \<Rightarrow> Inl (ValueError ''not an IPv4 network'') | Some n \<Rightarrow> Inr n)"

definition v4_address :: "nat \<Rightarrow> nat res" where
  "v4_address a = (if a < 2 ^ 32 then Inr a else Inl (ValueError ''not an IPv4 address''))"

definition allocate_virtual_ip :: "string \<Rightarrow> string list \<Rightarrow> string \<Rightarrow> (string \<times> string) res" where
  "allocate_virtual_ip global used_ips group_subnet =
     rbind (v4_network (if group_subnet = [] then ''10.8.1.0/24'' else group_subnet)) (\<lambda>network.
     if strip global = [] then Inl (ValueError ''no global address pool'')
     else rbind (v4_network (strip global)) (\<lambda>pool.
     if \<not> subnet_of network pool then Inl (ValueError ''group outside the pool'')
     else rbind (v4_address (net_addr pool + 1)) (\<lambda>server_ip.
     (case find (\<lambda>h. h \<noteq> server_ip \<and> ip_str h \<notin> set used_ips) (hosts network) of
        Some h \<Rightarrow> Inr (ip_str h, ifconfig_push_netmask global network)
      | None \<Rightarrow> Inl (ValueError ''no address left'')))))"

definition allocate_virtual_ip_for_group :: "'k world \<Rightarrow> group \<Rightarrow> ('k site, string \<times> string) stact" where
  "allocate_virtual_ip_for_group w g s =
     of_res (allocate_virtual_ip (opt_str (si_global s)) (map snd (list_ccd_ips (w_ccd_fault w) (s_ccd (si_sys s)))) (g_subnet g)) s"

section \<open>Client files\<close>

definition ccd_mkdir :: "'k world \<Rightarrow> ('k site, unit) stact" where
  "ccd_mkdir w = (if w_mkdir_ok w then ret () else throw (OSError ''ccd''))"

definition write_ccd :: "'k world \<Rightarrow> string \<Rightarrow> group \<Rightarrow> ('k site, unit) stact" where
  "write_ccd w uname g = andthen (ccd_mkdir w) (\<lambda>_. andthen (allocate_virtual_ip_for_group w g) (\<lambda>(ip, netmask).
     on_sys (ccd_write w uname (ccd_content ip netmask))))"

definition ccd_exists :: "string \<Rightarrow> 'k site \<Rightarrow> bool" where
  "ccd_exists uname s \<longleftrightarrow> map_of (s_ccd (si_sys s)) uname \<noteq> None"

definition read_ccd_virtual_ip :: "'k world \<Rightarrow> string \<Rightarrow> ('k site, string option) stact" where
  "read_ccd_virtual_ip w uname s =
     (if \<not> ccd_exists uname s then ret None s
      else andthen (on_sys (ccd_read w uname)) (\<lambda>content. ret (first_ifconfig_ip content)) s)"

definition update_ccd_disable :: "'k world \<Rightarrow> string \<Rightarrow> bool \<Rightarrow> ('k site, unit) stact" where
  "update_ccd_disable w uname disable s =
     (if \<not> ccd_exists uname s
      then (if disable then andthen (ccd_mkdir w) (\<lambda>_. on_sys (ccd_write w uname (''disable'' @ nl))) else ret ()) s
      else andthen (on_sys (ccd_read w uname)) (\<lambda>content. on_sys (ccd_write w uname (set_ccd_disable disable content))) s)"

definition unlink_ccd :: "'k world \<Rightarrow> string \<Rightarrow> ('k site, unit) stact" where
  "unlink_ccd w uname s =
     (if \<not> ccd_exists uname s then ret () s
      else if w_ccd_fault w uname then throw (OSError uname) s
      else ret () (s\<lparr>si_sys := (si_sys s)\<lparr>s_ccd := AList.delete uname (s_ccd (si_sys s))\<rparr>\<rparr>))"

section \<open>Users\<close>

definition increment_group_user_count :: "'k world \<Rightarrow> string \<Rightarrow> int \<Rightarrow> ('k site, unit) stact" where
  "increment_group_user_count w gid delta s =
     (if gid = [] then ret () s
      else (case get_group gid (si_db s) of None \<Rightarrow> ret () s
        | Some g \<Rightarrow> on_sys (store_write (upsert_group (w_na w)
            (g\<lparr>user_count := max 0 (user_count g + delta), g_updated_at := w_now w\<rparr>))) s))"

definition load_user :: "string \<Rightarrow> ('k site, user) stact" where
  "load_user uname s = (case get_user uname (si_db s) of None \<Rightarrow> throw (ValueError ''no such user'') s
     | Some u \<Rightarrow> ret u s)"

text \<open>The checks before a certificate is issued; the address is drawn to see that one is left.\<close>

definition check_new_user :: "'k world \<Rightarrow> string \<Rightarrow> string \<Rightarrow> bool \<Rightarrow> string \<Rightarrow> ('k site, group) stact" where
  "check_new_user w uname gid password_on password s =
     (if user_exists uname False (si_db s) then throw (ValueError ''user exists'') s
      else andthen (load_group gid) (\<lambda>g.
        if password_on \<and> password = [] then throw (ValueError ''password missing'')
        else andthen (allocate_virtual_ip_for_group w g) (\<lambda>_. ret g)) s)"

definition new_user :: "'k world \<Rightarrow> string \<Rightarrow> string \<Rightarrow> bool \<Rightarrow> string option \<times> string \<Rightarrow> user" where
  "new_user w uname gid password_on material = \<lparr>username = uname, group_id = gid, password_enabled = password_on,
     u_status = UActive, ovpn_file_path = Some (snd material), device_binding_id = None, cert_serial = fst material,
     u_rule_ids = [], u_created_at = w_now w, u_updated_at = w_now w\<rparr>"

text \<open>\<open>issue\<close> is the outcome of the certificate steps: serial number and path of the OVPN file.\<close>

definition user_create ::
  "'k world \<Rightarrow> (string option \<times> string) res \<Rightarrow> string \<Rightarrow> string \<Rightarrow> bool \<Rightarrow> string \<Rightarrow> ('k site, user) stact" where
  "user_create w issue uname gid password_on password =
     andthen (check_new_user w uname gid password_on password) (\<lambda>g.
     (case issue of
        Inl e \<Rightarrow> andthen (log_audit ''create_user'' ''user'' uname ''failure'') (\<lambda>_. throw e)
      | Inr material \<Rightarrow>
          andthen (write_ccd w uname g) (\<lambda>_.
          andthen (on_sys (store_write (upsert_user (new_user w uname gid password_on material)))) (\<lambda>_.
          andthen (increment_group_user_count w gid 1) (\<lambda>_.
          andthen (log_audit ''create_user'' ''user'' uname ''success'') (\<lambda>_.
          andthen (on_sys (sync_all_mesh_push_routes_in_ccd w)) (\<lambda>_. ret (new_user w uname gid password_on material))))))))"

text \<open>\<open>revoked\<close> is the outcome of revocation, CRL and the removal of PKI and OVPN files.\<close>

definition user_delete :: "'k world \<Rightarrow> unit res \<Rightarrow> string \<Rightarrow> ('k site, bool) stact" where
  "user_delete w revoked uname = andthen (load_user uname) (\<lambda>u.
     andthen (of_res revoked) (\<lambda>_.
     andthen (unlink_ccd w uname) (\<lambda>_.
     andthen (reset_binding uname) (\<lambda>_.
     andthen (on_sys (store_write (upsert_user (u\<lparr>u_status := UDeleted, u_updated_at := w_now w\<rparr>)))) (\<lambda>_.
     andthen (increment_group_user_count w (group_id u) (- 1)) (\<lambda>_.
     andthen (on_sys (refresh_if_referenced w ''user'' uname [])) (\<lambda>_.
     andthen (log_audit ''delete_user'' ''user'' uname ''success'') (\<lambda>_. ret True))))))))"

definition toggle_status :: "'k world \<Rightarrow> string \<Rightarrow> ('k site, user_status) stact" where
  "toggle_status w uname = andthen (load_user uname) (\<lambda>u.
     if u_status u = UDeleted then throw (ValueError ''user deleted'')
     else (let new_status = (if u_status u = UActive then UDisabled else UActive) in
       andthen (on_sys (store_write (upsert_user (u\<lparr>u_status := new_status, u_updated_at := w_now w\<rparr>)))) (\<lambda>_.
       andthen (update_ccd_disable w uname (new_status = UDisabled)) (\<lambda>_.
       andthen (on_sys (refresh_if_referenced w ''user'' uname [])) (\<lambda>_.
       andthen (log_audit ''toggle_user_status'' ''user'' uname ''success'') (\<lambda>_. ret new_status))))))"

record group_change =
  gc_old_group :: string
  gc_new_group :: string
  gc_old_ip :: "string option"
  gc_new_ip :: "string option"
  gc_changed :: bool

text \<open>The body of the \<open>try\<close> of \<open>change_group\<close>.\<close>

definition move_user :: "'k world \<Rightarrow> user \<Rightarrow> string \<Rightarrow> group \<Rightarrow> string \<Rightarrow> ('k site, group_change) stact" where
  "move_user w u uname target old_gid = andthen (allocate_virtual_ip_for_group w target) (\<lambda>(new_ip, netmask).
     andthen (\<lambda>s. (if ccd_exists uname s then on_sys (ccd_read w uname) else ret []) s) (\<lambda>old_text.
     (let (old_ip, new_text) = replace_ccd_ifconfig_push old_text new_ip netmask in
      andthen (ccd_mkdir w) (\<lambda>_.
      andthen (on_sys (ccd_write w uname new_text)) (\<lambda>_.
      andthen (on_sys (store_write (upsert_user (u\<lparr>group_id := g_id target, u_updated_at := w_now w\<rparr>)))) (\<lambda>_.
      andthen (increment_group_user_count w old_gid (- 1)) (\<lambda>_.
      andthen (increment_group_user_count w (g_id target) 1) (\<lambda>_.
      andthen (on_sys (sync_all_mesh_push_routes_in_ccd w)) (\<lambda>_.
      andthen (on_sys (refresh_if_referenced w ''user'' uname old_gid)) (\<lambda>_.
      andthen (log_audit ''change_user_group'' ''user'' uname ''success'') (\<lambda>_.
      ret \<lparr>gc_old_group = old_gid, gc_new_group = g_id target, gc_old_ip = old_ip, gc_new_ip = Some new_ip, gc_changed = True\<rparr>)))))))))))"

definition change_group :: "'k world \<Rightarrow> string \<Rightarrow> string \<Rightarrow> ('k site, group_change) stact" where
  "change_group w uname new_gid = andthen (load_user uname) (\<lambda>u.
     if u_status u = UDeleted then throw (ValueError ''user deleted'')
     else if strip new_gid = [] then throw (ValueError ''no target group'')
     else andthen (load_group (strip new_gid)) (\<lambda>target.
       if g_status target \<noteq> GActive then throw (ValueError ''group disabled'')
       else (let old_gid = strip (group_id u) in
         if old_gid = strip new_gid
         then andthen (read_ccd_virtual_ip w uname) (\<lambda>ip.
           ret \<lparr>gc_old_group = old_gid, gc_new_group = strip new_gid, gc_old_ip = ip, gc_new_ip = ip, gc_changed = False\<rparr>)
         else handle (move_user w u uname target old_gid) (\<lambda>e.
           andthen (log_audit ''change_user_group'' ''user'' uname ''failure'') (\<lambda>_. throw e)))))"

definition update_cert_serial :: "'k world \<Rightarrow> string \<Rightarrow> string \<Rightarrow> ('k site, unit) stact" where
  "update_cert_serial w uname serial = andthen (load_user uname) (\<lambda>u.
     on_sys (store_write (upsert_user (u\<lparr>cert_serial := Some serial, u_updated_at := w_now w\<rparr>))))"

text \<open>\<open>written\<close> is the outcome of writing the OVPN file: its path.\<close>

definition regenerate_ovpn :: "'k world \<Rightarrow> string res \<Rightarrow> string \<Rightarrow> ('k site, string) stact" where
  "regenerate_ovpn w written uname = andthen (load_user uname) (\<lambda>u.
     if u_status u = UDeleted then throw (ValueError ''user deleted'')
     else andthen (load_group (strip (group_id u))) (\<lambda>_.
       andthen (of_res written) (\<lambda>path.
       andthen (on_sys (store_write (upsert_user (u\<lparr>ovpn_file_path := Some path, u_updated_at := w_now w\<rparr>)))) (\<lambda>_. ret path))))"

definition list_usernames_by_group :: "string \<Rightarrow> db \<Rightarrow> string list res" where
  "list_usernames_by_group gid d = (if strip gid = [] then Inl (ValueError ''group id empty'')
     else Inr (list_active_usernames_by_group (strip gid) d))"

end
