(* ===== verification/Site_Plan.thy ===== *)
theory Site_Plan
  imports Users Peers_Props
begin

text \<open>
  What the group and user services keep true together, as predicates on the tables and files:

  \<^item> \<open>plan_ok\<close>: the subnets are canonical, two groups other than the global one share no address, and
    with more than one group all lie within the global subnet;
  \<^item> \<open>counts_ok\<close>: \<open>user_count\<close> is the number of users of the group that are not deleted, and the
    group of such a user exists;
  \<^item> \<open>addr_ok\<close>: no two client files fix the same address, and each user that is not deleted has a
    file whose address is a host of the group's subnet other than the tunnel server.

  The lemmas say how each predicate follows an update of a table or file.
\<close>

abbreviation live :: "user \<Rightarrow> bool" where
  "live u \<equiv> u_status u \<noteq> UDeleted"

section \<open>The address plan\<close>

definition is_cidr :: "string \<Rightarrow> bool" where
  "is_cidr s \<longleftrightarrow> (\<exists>n. net_ok n \<and> s = net_str n)"

definition addrs :: "string \<Rightarrow> nat set" where
  "addrs s = (case ip_network s of None \<Rightarrow> {} | Some n \<Rightarrow> net_set n)"

definition plan_ok :: "string \<Rightarrow> group list \<Rightarrow> bool" where
  "plan_ok G gs \<longleftrightarrow> (G = [] \<or> is_cidr G) \<and> (\<forall>g\<in>set gs. is_cidr (g_subnet g)) \<and>
     (\<forall>g\<in>set gs. \<forall>h\<in>set gs. g_id g \<noteq> g_id h \<longrightarrow> g_subnet g \<noteq> G \<longrightarrow> g_subnet h \<noteq> G \<longrightarrow>
        addrs (g_subnet g) \<inter> addrs (g_subnet h) = {}) \<and>
     (1 < length gs \<longrightarrow> G \<noteq> [] \<longrightarrow> (\<forall>g\<in>set gs. addrs (g_subnet g) \<subseteq> addrs G))"

text \<open>The plan as a property of the pairs of identifier and subnet.\<close>

definition plan_pairs :: "string \<Rightarrow> (string \<times> string) set \<Rightarrow> nat \<Rightarrow> bool" where
  "plan_pairs G S n \<longleftrightarrow> (G = [] \<or> is_cidr G) \<and> (\<forall>p\<in>S. is_cidr (snd p)) \<and>
     (\<forall>p\<in>S. \<forall>q\<in>S. fst p \<noteq> fst q \<longrightarrow> snd p \<noteq> G \<longrightarrow> snd q \<noteq> G \<longrightarrow> addrs (snd p) \<inter> addrs (snd q) = {}) \<and>
     (1 < n \<longrightarrow> G \<noteq> [] \<longrightarrow> (\<forall>p\<in>S. addrs (snd p) \<subseteq> addrs G))"

lemma plan_alt: "plan_ok G gs \<longleftrightarrow> plan_pairs G ((\<lambda>g. (g_id g, g_subnet g)) ` set gs) (length gs)"
  by (simp add: plan_ok_def plan_pairs_def)

lemma is_cidr_net: "is_cidr s \<Longrightarrow> \<exists>n. net_ok n \<and> s = net_str n \<and> ip_network s = Some n \<and> addrs s = net_set n"
  using ip_network_str by (auto simp: is_cidr_def addrs_def)

lemma is_cidr_nonempty: "is_cidr s \<Longrightarrow> s \<noteq> [] \<and> addrs s \<noteq> {}"
proof -
  assume "is_cidr s"
  then obtain n where "s = net_str n" "addrs s = net_set n" using is_cidr_net by blast
  moreover have "net_addr n \<in> net_set n" by (simp add: net_set_def)
  ultimately show ?thesis by auto
qed

lemma cidr_inj: "is_cidr s \<Longrightarrow> is_cidr t \<Longrightarrow> ip_network s = ip_network t \<longleftrightarrow> s = t"
  using ip_network_str by (auto simp: is_cidr_def)

lemma normalize_is_cidr: "netaddr_ok na \<Longrightarrow> normalize_cidr na s = Some t \<Longrightarrow> is_cidr t"
  using normalize_cidr_net unfolding is_cidr_def by metis

lemma normalize_again: "netaddr_ok na \<Longrightarrow> is_cidr (g_subnet g) \<Longrightarrow> normalize_group_payload na g = g"
  by (auto simp: normalize_group_payload_def is_cidr_def normalize_cidr_net_str Let_def)

lemma subnet_of_addrs: "netaddr_ok na \<Longrightarrow> is_cidr s \<Longrightarrow> is_cidr t \<Longrightarrow> is_subnet_of na s t \<longleftrightarrow> addrs s \<subseteq> addrs t"
  using is_cidr_net [of s] is_cidr_net [of t] by (auto simp: is_subnet_of_net_str subnet_of_iff)

lemma overlap_addrs: "netaddr_ok na \<Longrightarrow> is_cidr s \<Longrightarrow> is_cidr t \<Longrightarrow> subnets_overlap na s t \<longleftrightarrow> addrs s \<inter> addrs t \<noteq> {}"
  using is_cidr_net [of s] is_cidr_net [of t] by (auto simp: subnets_overlap_net_str net_overlap_iff)

lemma no_conflict_iff:
  assumes "netaddr_ok na" "is_cidr sub" "G = [] \<or> is_cidr G" "\<forall>g\<in>set gs. is_cidr (g_subnet g)"
  shows "check_subnet_conflict na sub G gs ex = [] \<longleftrightarrow> (G \<noteq> [] \<longrightarrow> addrs sub \<subseteq> addrs G) \<and>
    (\<forall>g\<in>set gs. (ex = [] \<or> g_id g \<noteq> ex) \<longrightarrow> g_subnet g \<noteq> G \<longrightarrow> addrs sub \<inter> addrs (g_subnet g) = {})"
proof -
  have v: "validate_cidr na sub"
    using assms(1,2) normalize_cidr_net_str normalize_cidr_valid unfolding is_cidr_def by metis
  have eq: "equals_global G (g_subnet g) \<longleftrightarrow> g_subnet g = G" if "g \<in> set gs" for g
  proof -
    have g: "is_cidr (g_subnet g)" using that assms(4) by blast
    show ?thesis
      using assms(3) g cidr_inj [OF g, of G] is_cidr_nonempty [OF g] is_cidr_net [OF g] by (auto simp: equals_global_def)
  qed
  have one: "group_conflict na sub G ex g = None \<longleftrightarrow>
      ((ex = [] \<or> g_id g \<noteq> ex) \<longrightarrow> g_subnet g \<noteq> G \<longrightarrow> addrs sub \<inter> addrs (g_subnet g) = {})" if "g \<in> set gs" for g
  proof -
    have g: "is_cidr (g_subnet g)" using that assms(4) by blast
    show ?thesis using is_cidr_nonempty [OF g] overlap_addrs [OF assms(1,2) g] eq [OF that] by (auto simp: group_conflict_def)
  qed
  have nil: "List.map_filter f xs = [] \<longleftrightarrow> (\<forall>x\<in>set xs. f x = None)" for f :: "group \<Rightarrow> conflict option" and xs
    by (auto simp: List.map_filter_def filter_empty_conv)
  have "G \<noteq> [] \<Longrightarrow> is_subnet_of na sub G \<longleftrightarrow> addrs sub \<subseteq> addrs G" using assms(1-3) subnet_of_addrs by blast
  then show ?thesis using v one by (auto simp: check_subnet_conflict_def nil)
qed

lemma length_tbl_upsert: "length (tbl_upsert key r xs) = (if key r \<in> key ` set xs then length xs else Suc (length xs))"
  by (induction xs) auto

lemma plan_upsert:
  assumes "plan_ok G gs" "tbl_ok g_id gs" "is_cidr (g_subnet r)"
    and "\<forall>h\<in>set gs. g_id h \<noteq> g_id r \<longrightarrow> g_subnet r \<noteq> G \<longrightarrow> g_subnet h \<noteq> G \<longrightarrow> addrs (g_subnet r) \<inter> addrs (g_subnet h) = {}"
    and "1 < length (tbl_upsert g_id r gs) \<Longrightarrow> G \<noteq> [] \<Longrightarrow> \<forall>g\<in>insert r (set gs). addrs (g_subnet g) \<subseteq> addrs G"
  shows "plan_ok G (tbl_upsert g_id r gs)"
proof -
  have s: "set (tbl_upsert g_id r gs) = insert r {g \<in> set gs. g_id g \<noteq> g_id r}" by (rule set_tbl_upsert [OF assms(2)])
  have "\<forall>g\<in>set gs. g_id g \<noteq> g_id r \<longrightarrow> g_subnet r \<noteq> G \<longrightarrow> g_subnet g \<noteq> G \<longrightarrow> addrs (g_subnet g) \<inter> addrs (g_subnet r) = {}"
    using assms(4) by (metis Int_commute)
  then show ?thesis using assms(1,3-5) unfolding plan_ok_def s by auto
qed

lemma plan_keep:
  assumes "plan_ok G gs" "tbl_ok g_id gs" "g \<in> set gs" "g_id r = g_id g" "g_subnet r = g_subnet g"
  shows "plan_ok G (tbl_upsert g_id r gs)"
proof (rule plan_upsert [OF assms(1,2)])
  show "is_cidr (g_subnet r)" using assms by (auto simp: plan_ok_def)
  show "\<forall>h\<in>set gs. g_id h \<noteq> g_id r \<longrightarrow> g_subnet r \<noteq> G \<longrightarrow> g_subnet h \<noteq> G \<longrightarrow> addrs (g_subnet r) \<inter> addrs (g_subnet h) = {}"
    using assms unfolding plan_ok_def by metis
  assume "1 < length (tbl_upsert g_id r gs)" "G \<noteq> []"
  then have "1 < length gs" using assms(3,4) by (simp add: length_tbl_upsert)
  then show "\<forall>g\<in>insert r (set gs). addrs (g_subnet g) \<subseteq> addrs G" using assms \<open>G \<noteq> []\<close> by (auto simp: plan_ok_def)
qed

lemma plan_delete: "plan_ok G gs \<Longrightarrow> plan_ok G (tbl_delete g_id gid gs)"
proof -
  assume p: "plan_ok G gs"
  have "length (tbl_delete g_id gid gs) \<le> length gs" by (simp add: tbl_delete_def)
  then have "1 < length (tbl_delete g_id gid gs) \<Longrightarrow> 1 < length gs" by linarith
  then show ?thesis using p unfolding plan_ok_def set_tbl_delete by blast
qed

lemma plan_single:
  assumes "plan_ok G gs" "length gs \<le> 1" "is_cidr G'"
  shows "plan_ok G' gs"
  using assms by (cases gs) (auto simp: plan_ok_def)

lemma plan_create:
  assumes "netaddr_ok na" "plan_ok G gs" "tbl_ok g_id gs" "set ls = set gs" "length ls = length gs" "is_cidr (g_subnet r)"
    and "check_root na (g_subnet r) ls = Inr ()" "check_subnet_conflict na (g_subnet r) G ls [] = []"
  shows "plan_ok G (tbl_upsert g_id r gs)"
proof (rule plan_upsert [OF assms(2,3,6)])
  have c: "\<forall>g\<in>set gs. is_cidr (g_subnet g)" "G = [] \<or> is_cidr G" using assms(2) by (auto simp: plan_ok_def)
  have nc: "G \<noteq> [] \<longrightarrow> addrs (g_subnet r) \<subseteq> addrs G"
    "\<forall>g\<in>set gs. g_subnet g \<noteq> G \<longrightarrow> addrs (g_subnet r) \<inter> addrs (g_subnet g) = {}"
    using assms(8) no_conflict_iff [OF assms(1,6) c(2), of ls "[]"] c(1) assms(4) by auto
  then show "\<forall>h\<in>set gs. g_id h \<noteq> g_id r \<longrightarrow> g_subnet r \<noteq> G \<longrightarrow> g_subnet h \<noteq> G \<longrightarrow> addrs (g_subnet r) \<inter> addrs (g_subnet h) = {}"
    by blast
  assume many: "1 < length (tbl_upsert g_id r gs)" and G: "G \<noteq> []"
  then have "gs \<noteq> []" by auto
  show "\<forall>g\<in>insert r (set gs). addrs (g_subnet g) \<subseteq> addrs G"
  proof (cases "1 < length gs")
    case True
    then show ?thesis using assms(2) G nc(1) by (auto simp: plan_ok_def)
  next
    case False
    then have "length gs = 1" using \<open>gs \<noteq> []\<close> by (cases gs) auto
    then obtain root where root: "gs = [root]" by (cases gs) auto
    then have "ls = [root]" using assms(4,5) by (cases ls) auto
    moreover have "is_cidr (g_subnet root)" using c root by simp
    ultimately have "addrs (g_subnet r) \<subseteq> addrs (g_subnet root)"
      using assms(7) is_cidr_nonempty subnet_of_addrs [OF assms(1,6)] by (auto simp: check_root_def split: if_splits)
    then have "g_subnet root = G" using nc(2) root is_cidr_nonempty [OF assms(6)] by auto
    then show ?thesis using root nc(1) G by auto
  qed
qed
section \<open>Counting users\<close>

definition cnt :: "user list \<Rightarrow> string \<Rightarrow> int" where
  "cnt us gid = int (length (filter (\<lambda>u. live u \<and> group_id u = gid) us))"

definition counts_ok :: "user list \<Rightarrow> group list \<Rightarrow> bool" where
  "counts_ok us gs \<longleftrightarrow> (\<forall>g\<in>set gs. user_count g = cnt us (g_id g)) \<and> (\<forall>u\<in>set us. live u \<longrightarrow> group_id u \<in> g_id ` set gs)"

definition weight :: "user option \<Rightarrow> string \<Rightarrow> int" where
  "weight ou gid = (case ou of Some u \<Rightarrow> if live u \<and> group_id u = gid then 1 else 0 | None \<Rightarrow> 0)"

lemma cnt_upsert: "cnt (tbl_upsert username r us) gid = cnt us gid - weight (tbl_get username (username r) us) gid + weight (Some r) gid"
  by (induction us) (auto simp: cnt_def weight_def)

lemma cnt_pos: "0 < cnt us gid \<longleftrightarrow> (\<exists>u\<in>set us. live u \<and> group_id u = gid)"
  by (auto simp: cnt_def filter_empty_conv)

lemma counts_user_keep:
  assumes "counts_ok us gs" "tbl_ok username us" "tbl_get username (username r) us = Some u"
    and "group_id r = group_id u" "live r \<longleftrightarrow> live u"
  shows "counts_ok (tbl_upsert username r us) gs"
  using assms tbl_get_SomeD [OF assms(3)] unfolding counts_ok_def cnt_upsert set_tbl_upsert [OF assms(2)]
  by (auto simp: weight_def)

lemma counts_group_keep:
  assumes "counts_ok us gs" "tbl_ok g_id gs" "g \<in> set gs" "g_id r = g_id g" "user_count r = user_count g"
  shows "counts_ok us (tbl_upsert g_id r gs)"
proof -
  have "g_id ` set (tbl_upsert g_id r gs) = g_id ` set gs" using assms(3,4) by (auto simp: keys_tbl_upsert)
  then show ?thesis using assms unfolding counts_ok_def set_tbl_upsert [OF assms(2)] by auto
qed

lemma counts_group_new:
  assumes "counts_ok us gs" "tbl_ok g_id gs" "g_id r \<notin> g_id ` set gs" "user_count r = 0"
  shows "counts_ok us (tbl_upsert g_id r gs)"
proof -
  have "cnt us (g_id r) = 0"
  proof (rule ccontr)
    assume "cnt us (g_id r) \<noteq> 0"
    then have "0 < cnt us (g_id r)" by (simp add: cnt_def)
    then obtain u where "u \<in> set us" "live u" "group_id u = g_id r" by (auto simp: cnt_pos)
    then show False using assms(1,3) unfolding counts_ok_def by metis
  qed
  moreover have "{x \<in> set gs. g_id x \<noteq> g_id r} = set gs" using assms(3) by (auto simp: image_iff)
  ultimately show ?thesis using assms(1,4) unfolding counts_ok_def set_tbl_upsert [OF assms(2)] by auto
qed

lemma counts_group_delete:
  assumes "counts_ok us gs" "tbl_ok g_id gs" "g \<in> set gs" "user_count g \<le> 0"
  shows "counts_ok us (tbl_delete g_id (g_id g) gs)"
proof -
  have "\<not> 0 < cnt us (g_id g)" using assms by (simp add: counts_ok_def)
  then have "\<forall>u\<in>set us. live u \<longrightarrow> group_id u \<noteq> g_id g" by (auto simp: cnt_pos)
  then show ?thesis using assms(1) unfolding counts_ok_def set_tbl_delete by fastforce
qed

text \<open>A change of one user, with the counters the services write; \<open>delta\<close> adds to a counter.\<close>

definition delta :: "string \<Rightarrow> string \<Rightarrow> int \<Rightarrow> group list \<Rightarrow> group list" where
  "delta now gid k gs = map (\<lambda>g. if g_id g = gid then g\<lparr>user_count := max 0 (user_count g + k), g_updated_at := now\<rparr> else g) gs"

lemma delta_fields [simp]: "g_id ` set (delta now gid k gs) = g_id ` set gs" "map g_id (delta now gid k gs) = map g_id gs"
  "(\<lambda>g. (g_id g, g_subnet g)) ` set (delta now gid k gs) = (\<lambda>g. (g_id g, g_subnet g)) ` set gs" "length (delta now gid k gs) = length gs"
proof -
  have i: "(if g_id g = gid then g\<lparr>user_count := x, g_updated_at := now\<rparr> else g) = g\<lparr>user_count := if g_id g = gid then x else user_count g,
      g_updated_at := if g_id g = gid then now else g_updated_at g\<rparr>" for g x by simp
  show "g_id ` set (delta now gid k gs) = g_id ` set gs" "map g_id (delta now gid k gs) = map g_id gs"
    "(\<lambda>g. (g_id g, g_subnet g)) ` set (delta now gid k gs) = (\<lambda>g. (g_id g, g_subnet g)) ` set gs" "length (delta now gid k gs) = length gs"
    unfolding delta_def i by (simp_all add: image_image)
qed

lemma counts_user_new:
  assumes "counts_ok us gs" "tbl_ok username us" "live r" "group_id r \<in> g_id ` set gs"
    and "case tbl_get username (username r) us of None \<Rightarrow> True | Some u \<Rightarrow> \<not> live u"
  shows "counts_ok (tbl_upsert username r us) (delta now (group_id r) 1 gs)"
proof -
  have w: "weight (tbl_get username (username r) us) gid = 0" for gid using assms(5) by (auto simp: weight_def split: option.splits)
  have c: "0 \<le> cnt us gid" for gid by (simp add: cnt_def)
  show ?thesis
    using assms(1,3,4) c unfolding counts_ok_def delta_fields cnt_upsert w set_tbl_upsert [OF assms(2)]
    by (auto simp: delta_def weight_def)
qed

lemma counts_user_delete:
  assumes "counts_ok us gs" "tbl_ok username us" "tbl_get username (username r) us = Some u" "live u" "\<not> live r"
  shows "counts_ok (tbl_upsert username r us) (delta now (group_id u) (- 1) gs)"
proof -
  have w: "weight (Some u) gid = (if gid = group_id u then 1 else 0)" "weight (Some r) gid = 0" for gid
    using assms(4,5) by (auto simp: weight_def)
  have "0 < cnt us (group_id u)" using assms(3,4) tbl_get_SomeD cnt_pos by fast
  then show ?thesis
    using assms(1,5) unfolding counts_ok_def delta_fields cnt_upsert assms(3) w set_tbl_upsert [OF assms(2)]
    by (auto simp: delta_def)
qed

lemma counts_user_move:
  assumes "counts_ok us gs" "tbl_ok username us" "tbl_get username (username r) us = Some u" "live u" "live r"
    and "group_id r \<noteq> group_id u" "group_id r \<in> g_id ` set gs"
  shows "counts_ok (tbl_upsert username r us) (delta now (group_id r) 1 (delta now (group_id u) (- 1) gs))"
proof -
  have w: "weight (Some u) gid = (if gid = group_id u then 1 else 0)" "weight (Some r) gid = (if gid = group_id r then 1 else 0)" for gid
    using assms(4,5) by (auto simp: weight_def)
  have "0 < cnt us (group_id u)" using assms(3,4) tbl_get_SomeD cnt_pos by fast
  moreover have "0 \<le> cnt us gid" for gid by (simp add: cnt_def)
  ultimately show ?thesis
    using assms(1,5-7) unfolding counts_ok_def delta_fields cnt_upsert assms(3) w set_tbl_upsert [OF assms(2)]
    by (auto simp: delta_def)
qed

lemma upsert_delta:
  assumes "tbl_ok g_id gs" "g \<in> set gs"
  shows "tbl_upsert g_id (g\<lparr>user_count := max 0 (user_count g + k), g_updated_at := now\<rparr>) gs = delta now (g_id g) k gs"
  using assms
proof (induction gs)
  case (Cons x xs)
  show ?case
  proof (cases "g_id x = g_id g")
    case True
    then have "x = g" using Cons.prems by (auto simp: tbl_ok_def rev_image_eqI)
    moreover have "delta now (g_id g) k xs = xs" using Cons.prems True by (auto simp: delta_def tbl_ok_def rev_image_eqI intro!: map_idI)
    ultimately show ?thesis by (simp add: delta_def)
  next
    case False
    then show ?thesis using Cons by (auto simp: delta_def tbl_ok_def)
  qed
qed simp

lemma delta_missing: "gid \<notin> g_id ` set gs \<Longrightarrow> delta now gid k gs = gs"
  by (auto simp: delta_def intro!: map_idI)

lemma plan_delta: "plan_ok G gs \<Longrightarrow> plan_ok G (delta now gid k gs)"
  unfolding plan_alt delta_fields .

section \<open>Fixed addresses\<close>

definition file_ip :: "(string \<times> string) list \<Rightarrow> string \<Rightarrow> string option" where
  "file_ip ccd n = Option.bind (map_of ccd n) first_ifconfig_ip"

definition placed :: "string \<Rightarrow> group list \<Rightarrow> nat \<Rightarrow> string \<Rightarrow> bool" where
  "placed G gs a gid \<longleftrightarrow> (\<exists>g\<in>set gs. g_id g = gid \<and> (\<exists>n. ip_network (g_subnet g) = Some n \<and> a \<in> set (hosts n))) \<and>
     (\<exists>pool. ip_network (strip G) = Some pool \<and> a \<noteq> net_addr pool + 1)"

definition addr_ok :: "string \<Rightarrow> user list \<Rightarrow> group list \<Rightarrow> (string \<times> string) list \<Rightarrow> bool" where
  "addr_ok G us gs ccd \<longleftrightarrow> distinct (map fst ccd) \<and>
     (\<forall>n m. file_ip ccd n \<noteq> None \<longrightarrow> file_ip ccd n = file_ip ccd m \<longrightarrow> n = m) \<and>
     (\<forall>u\<in>set us. live u \<longrightarrow> (\<exists>t dis a. map_of ccd (username u) = Some t \<and> ccd_form dis a t \<and> placed G gs a (group_id u)))"

text \<open>The files after an edit that keeps addresses; \<open>L\<close> are the files that must stay.\<close>

definition follows :: "string set \<Rightarrow> (string \<times> string) list \<Rightarrow> (string \<times> string) list \<Rightarrow> bool" where
  "follows L ccd ccd' \<longleftrightarrow> (distinct (map fst ccd) \<longrightarrow> distinct (map fst ccd')) \<and>
     (\<forall>n. n \<notin> L \<longrightarrow> map_of ccd' n = map_of ccd n \<or> map_of ccd' n = None) \<and>
     (\<forall>n\<in>L. \<forall>t dis a. map_of ccd n = Some t \<longrightarrow> ccd_form dis a t \<longrightarrow> (\<exists>t' dis'. map_of ccd' n = Some t' \<and> ccd_form dis' a t'))"

lemma follows_refl: "follows L ccd ccd"
  unfolding follows_def by blast

lemma follows_trans: "follows L a b \<Longrightarrow> follows L b c \<Longrightarrow> follows L a c"
  unfolding follows_def by (metis (no_types))

lemma follows_update:
  assumes "n \<in> L" "map_of ccd n = Some t" "\<And>dis a. ccd_form dis a t \<Longrightarrow> \<exists>dis'. ccd_form dis' a t'"
  shows "follows L ccd (AList.update n t' ccd)"
  using assms by (auto simp: follows_def update_conv' distinct_update)

lemma addr_follow:
  assumes "addr_ok G us gs ccd" "follows L ccd ccd'"
    and "\<forall>u\<in>set us'. live u \<longrightarrow> username u \<in> L \<and> (\<exists>v\<in>set us. live v \<and> username v = username u \<and> group_id v = group_id u) \<and>
       (\<forall>a. placed G gs a (group_id u) \<longrightarrow> placed G' gs' a (group_id u))"
    and "\<forall>n\<in>L. \<exists>u\<in>set us. live u \<and> username u = n"
  shows "addr_ok G' us' gs' ccd'"
proof -
  have form: "\<exists>t dis a. map_of ccd n = Some t \<and> ccd_form dis a t" if "n \<in> L" for n
    using that assms(1,4) unfolding addr_ok_def by metis
  have ip: "file_ip ccd' n = file_ip ccd n \<or> file_ip ccd' n = None" for n
  proof (cases "n \<in> L")
    case True
    obtain t dis a where t: "map_of ccd n = Some t" "ccd_form dis a t" using form [OF True] by blast
    then obtain t' dis' where t': "map_of ccd' n = Some t'" "ccd_form dis' a t'" using assms(2) True unfolding follows_def by blast
    show ?thesis using t t' ccd_form_state by (simp add: file_ip_def)
  next
    case False
    then have "map_of ccd' n = map_of ccd n \<or> map_of ccd' n = None" using assms(2) by (auto simp: follows_def)
    then show ?thesis by (auto simp: file_ip_def)
  qed
  have users: "\<exists>t dis a. map_of ccd' (username u) = Some t \<and> ccd_form dis a t \<and> placed G' gs' a (group_id u)"
    if "u \<in> set us'" "live u" for u
  proof -
    from assms(3) that have "username u \<in> L \<and> (\<exists>v\<in>set us. live v \<and> username v = username u \<and> group_id v = group_id u)" by blast
    then obtain v where v: "v \<in> set us" "live v" "username v = username u" "group_id v = group_id u" and L: "username u \<in> L"
      by blast
    obtain t dis a where t: "map_of ccd (username u) = Some t" "ccd_form dis a t" "placed G gs a (group_id u)"
      using assms(1) v unfolding addr_ok_def by metis
    then obtain t' dis' where "map_of ccd' (username u) = Some t'" "ccd_form dis' a t'" using assms(2) L unfolding follows_def by blast
    then show ?thesis using t(3) assms(3) that by blast
  qed
  have "n = m" if "file_ip ccd' n \<noteq> None" "file_ip ccd' n = file_ip ccd' m" for n m
    using that ip [of n] ip [of m] assms(1) unfolding addr_ok_def by metis
  moreover have "distinct (map fst ccd')" using assms(1,2) unfolding addr_ok_def follows_def by blast
  ultimately show ?thesis using users unfolding addr_ok_def by blast
qed

text \<open>A file written with an address no other file has.\<close>

lemma addr_put:
  assumes "addr_ok G us gs ccd" "tbl_ok username us" "ccd_form dis a t" "\<forall>m. file_ip ccd m \<noteq> Some (ip_str a)"
    and "placed G gs' a (group_id r)" "(\<lambda>g. (g_id g, g_subnet g)) ` set gs' = (\<lambda>g. (g_id g, g_subnet g)) ` set gs"
  shows "addr_ok G (tbl_upsert username r us) gs' (AList.update (username r) t ccd)"
proof -
  let ?n = "username r" and ?c = "AList.update (username r) t ccd"
  have ip: "file_ip ?c m = (if m = ?n then Some (ip_str a) else file_ip ccd m)" for m
    using ccd_form_state [OF assms(3)] by (simp add: file_ip_def update_conv')
  have pl: "placed G gs' b gid" if "placed G gs b gid" for b gid
  proof -
    obtain g n where g: "g \<in> set gs" "g_id g = gid" "ip_network (g_subnet g) = Some n" "b \<in> set (hosts n)"
      using \<open>placed G gs b gid\<close> unfolding placed_def by blast
    then have "(g_id g, g_subnet g) \<in> (\<lambda>g. (g_id g, g_subnet g)) ` set gs'" unfolding assms(6) by blast
    then obtain g' where "g' \<in> set gs'" "g_id g' = g_id g" "g_subnet g' = g_subnet g" by auto
    then show ?thesis using \<open>placed G gs b gid\<close> g unfolding placed_def by metis
  qed
  have "n = m" if "file_ip ?c n \<noteq> None" "file_ip ?c n = file_ip ?c m" for n m
    using that assms(1,4) unfolding ip addr_ok_def by (metis option.distinct(1))
  moreover have "\<exists>t' dis' b. map_of ?c (username u) = Some t' \<and> ccd_form dis' b t' \<and> placed G gs' b (group_id u)"
    if u: "u \<in> set (tbl_upsert username r us)" "live u" for u
  proof (cases "username u = ?n")
    case True
    then have "u = r" using u(1) by (auto simp: set_tbl_upsert [OF assms(2)])
    then show ?thesis using assms(3,5) by (auto simp: update_conv')
  next
    case False
    then have "u \<in> set us" using u(1) by (auto simp: set_tbl_upsert [OF assms(2)])
    then obtain t' dis' b where "map_of ccd (username u) = Some t'" "ccd_form dis' b t'" "placed G gs b (group_id u)"
      using assms(1) u(2) unfolding addr_ok_def by blast
    then show ?thesis using False pl by (auto simp: update_conv')
  qed
  moreover have "distinct (map fst ?c)"
    by (rule distinct_update) (use assms(1) in \<open>auto simp: addr_ok_def\<close>)
  ultimately show ?thesis unfolding addr_ok_def by blast
qed

end
