(* ===== verification/Site_Steps.thy ===== *)
theory Site_Steps
  imports Site_Plan
begin

text \<open>
  Every request to the group and user services keeps \<open>site_inv\<close>, whether it returns or raises.

  \<open>leads I P m Q\<close>: from a state with \<open>P\<close>, an action that returns \<open>x\<close> reaches \<open>Q x\<close> and one that raises
  leaves a state with \<open>I\<close>.  Its rules compose the steps of a handler.
\<close>

section \<open>The invariant\<close>

abbreviation si_G :: "'k site \<Rightarrow> string" where
  "si_G s \<equiv> opt_str (si_global s)"

abbreviation si_ccd :: "'k site \<Rightarrow> (string \<times> string) list" where
  "si_ccd s \<equiv> s_ccd (si_sys s)"

definition site_inv :: "'k site \<Rightarrow> bool" where
  "site_inv s \<longleftrightarrow> db_ok (si_db s) \<and> plan_ok (si_G s) (db_groups (si_db s)) \<and>
     counts_ok (db_users (si_db s)) (db_groups (si_db s)) \<and>
     addr_ok (si_G s) (db_users (si_db s)) (db_groups (si_db s)) (si_ccd s)"

text \<open>What a refresh, the audit log and the device bindings leave alone.\<close>

definition quiet :: "'k site \<Rightarrow> 'k site \<Rightarrow> bool" where
  "quiet s t \<longleftrightarrow> si_global t = si_global s \<and> si_ccd t = si_ccd s \<and> db_users (si_db t) = db_users (si_db s) \<and>
     db_groups (si_db t) = db_groups (si_db s) \<and> (db_ok (si_db s) \<longrightarrow> db_ok (si_db t))"

lemma quiet_inv: "quiet s t \<Longrightarrow> site_inv s \<Longrightarrow> site_inv t"
  by (simp add: quiet_def site_inv_def)

interpretation qs: step_frame "quiet :: 'k site \<Rightarrow> 'k site \<Rightarrow> bool"
  by unfold_locales (auto simp: quiet_def)

section \<open>Leading to\<close>

definition leads :: "('s \<Rightarrow> bool) \<Rightarrow> ('s \<Rightarrow> bool) \<Rightarrow> ('s, 'a) stact \<Rightarrow> ('a \<Rightarrow> 's \<Rightarrow> bool) \<Rightarrow> bool" where
  "leads I P m Q \<longleftrightarrow> (\<forall>s r t. P s \<longrightarrow> m s = Some (r, t) \<longrightarrow> (case r of Inl e \<Rightarrow> I t | Inr x \<Rightarrow> Q x t))"

lemma leadsI: "(\<And>s r t. P s \<Longrightarrow> m s = Some (r, t) \<Longrightarrow> case r of Inl e \<Rightarrow> I t | Inr x \<Rightarrow> Q x t) \<Longrightarrow> leads I P m Q"
  by (simp add: leads_def)

lemma leadsD: "leads I P m Q \<Longrightarrow> P s \<Longrightarrow> m s = Some (r, t) \<Longrightarrow> case r of Inl e \<Rightarrow> I t | Inr x \<Rightarrow> Q x t"
  by (simp add: leads_def)

lemma leads_andthen: "leads I P m R \<Longrightarrow> (\<And>x. leads I (R x) (f x) Q) \<Longrightarrow> leads I P (andthen m f) Q"
  unfolding leads_def andthen_Some_iff by (fastforce split: sum.splits)

lemma leads_ret: "(\<And>s. P s \<Longrightarrow> Q x s) \<Longrightarrow> leads I P (ret x) Q"
  by (simp add: leads_def ret_def)

lemma leads_throw: "(\<And>s. P s \<Longrightarrow> I s) \<Longrightarrow> leads I P (throw e) Q"
  by (simp add: leads_def throw_def)

lemma leads_of_res: "(\<And>s. P s \<Longrightarrow> I s) \<Longrightarrow> (\<And>s x. P s \<Longrightarrow> r = Inr x \<Longrightarrow> Q x s) \<Longrightarrow> leads I P (of_res r) Q"
  by (cases r) (simp_all add: leads_throw leads_ret)

lemma leads_if: "(b \<Longrightarrow> leads I P m Q) \<Longrightarrow> (\<not> b \<Longrightarrow> leads I P n Q) \<Longrightarrow> leads I P (if b then m else n) Q"
  by simp

lemma leads_weaken: "leads I P m Q \<Longrightarrow> (\<And>s. P' s \<Longrightarrow> P s) \<Longrightarrow> (\<And>x s. Q x s \<Longrightarrow> Q' x s) \<Longrightarrow> (\<And>s. I s \<Longrightarrow> I' s) \<Longrightarrow> leads I' P' m Q'"
  unfolding leads_def by (fastforce split: sum.splits)

lemma leads_pre: "leads I P m Q \<Longrightarrow> (\<And>s. P' s \<Longrightarrow> P s) \<Longrightarrow> leads I P' m Q"
  by (rule leads_weaken)

lemma leads_fact: "(b \<Longrightarrow> leads I P m Q) \<Longrightarrow> leads I (\<lambda>s. b \<and> P s) m Q"
  by (auto simp: leads_def)

text \<open>The state at the start is known to the rest of the handler.\<close>

lemma leads_state: "(\<And>s0. P s0 \<Longrightarrow> leads I (\<lambda>s. s = s0) (m s0) Q) \<Longrightarrow> leads I P (\<lambda>s. m s s) Q"
  by (auto simp: leads_def)

lemma leads_quiet:
  assumes "keeps quiet m" "\<And>s t. P s \<Longrightarrow> quiet s t \<Longrightarrow> I t" "\<And>s t x. P s \<Longrightarrow> quiet s t \<Longrightarrow> Q x t"
  shows "leads I P m Q"
proof (rule leadsI)
  fix s r t assume "P s" "m s = Some (r, t)"
  moreover have "quiet s t" using assms(1) \<open>m s = _\<close> by (rule keepsD)
  ultimately show "case r of Inl e \<Rightarrow> I t | Inr x \<Rightarrow> Q x t" using assms(2,3) by (cases r) auto
qed

lemma leads_quiet_same:
  assumes "keeps quiet m" "\<And>s t. quiet s t \<Longrightarrow> P s \<Longrightarrow> P t" "\<And>s. P s \<Longrightarrow> I s"
  shows "leads I P m (\<lambda>_. P)"
  by (rule leads_quiet [OF assms(1)]) (use assms(2,3) in blast)+

lemma leads_quiet_inv: "keeps quiet m \<Longrightarrow> leads site_inv site_inv m (\<lambda>_. site_inv)"
  by (rule leads_quiet) (auto intro: quiet_inv)

lemma leads_handle:
  assumes "leads J P m Q" "\<And>e. leads I J (f e) Q"
  shows "leads I P (handle m f) Q"
proof (rule leadsI)
  fix s r t assume a: "P s" "handle m f s = Some (r, t)"
  then consider x where "m s = Some (Inr x, t)" "r = Inr x" | e u where "m s = Some (Inl e, u)" "f e u = Some (r, t)"
    by (auto simp: handle_Some_iff)
  then show "case r of Inl e \<Rightarrow> I t | Inr x \<Rightarrow> Q x t"
  proof cases
    case 1
    then show ?thesis using leadsD [OF assms(1) a(1)] by fastforce
  next
    case 2
    then have "J u" using leadsD [OF assms(1) a(1) 2(1)] by simp
    then show ?thesis using 2(2) leadsD [OF assms(2)] by blast
  qed
qed

lemma leads_handle_value:
  assumes "leads J P m Q" "leads I J f Q" "\<And>s. J s \<Longrightarrow> I s"
  shows "leads I P (handle_value m f) Q"
  unfolding handle_value_def
proof (rule leads_handle [OF assms(1)])
  fix e
  have "leads I J (throw e) Q" by (rule leads_throw) (rule assms(3))
  then show "leads I J (case e of ValueError _ \<Rightarrow> f | _ \<Rightarrow> throw e) Q" using assms(2) by (cases e) simp_all
qed

section \<open>Quiet actions\<close>

lemma on_sys_Some: "on_sys m s = Some (r, t) \<longleftrightarrow> (\<exists>u. m (si_sys s) = Some (r, u) \<and> t = s\<lparr>si_sys := u\<rparr>)"
  by (auto simp: on_sys_def split: option.splits)

lemma on_sys_quiet: "keeps kernel_only m \<Longrightarrow> keeps quiet (on_sys m)"
  unfolding keeps_def on_sys_Some by (fastforce simp: quiet_def dest: kernel_only_fields)

lemma refresh_if_quiet: "keeps quiet (on_sys (refresh_if_referenced w etype eid other))"
proof (rule on_sys_quiet)
  have "kernel_only st st'" if "refresh_if_referenced w etype eid other st = Some (r, st')" for st r and st' :: "'a sys"
  proof -
    have "keeps kernel_only (andthen (of_res (relevant_tags etype eid other (s_db st))) (refresh_for_tags w))"
      by (intro ker.andthen_keeps of_res_keeps ker.refl refresh_for_tags_kernel_only)
    then show ?thesis using that by (auto simp: refresh_if_referenced_def dest: keepsD)
  qed
  then show "keeps kernel_only (refresh_if_referenced w etype eid other)" by (auto simp: keeps_def)
qed

lemma refresh_tags_quiet: "keeps quiet (on_sys (refresh_for_tags w tids))"
  by (rule on_sys_quiet [OF refresh_for_tags_kernel_only])

lemma log_audit_quiet: "keeps quiet (log_audit a b c d)"
  by (auto simp: log_audit_def keeps_def on_sys_Some audit_def quiet_def)

lemma of_res_quiet: "keeps quiet (of_res r)"
  by (rule of_res_keeps) (simp add: quiet_def)

lemma load_quiet: "keeps quiet (load_group gid)" "keeps quiet (load_user n)"
  by (auto simp: keeps_def load_group_def load_user_def throw_def ret_def quiet_def split: option.splits)

lemma binding_quiet: "keeps quiet (find_binding_file n)" "keeps quiet (unlink_binding f)" "keeps quiet (reset_binding n)"
proof -
  show a: "keeps quiet (find_binding_file n)" for n :: string by (auto simp: keeps_def find_binding_file_def ret_def quiet_def)
  show b: "keeps quiet (unlink_binding f)" for f by (auto simp: keeps_def unlink_binding_def ret_def quiet_def)
  show "keeps quiet (reset_binding n)"
    unfolding reset_binding_def by (intro qs.andthen_keeps a) (auto intro: b split: option.split prod.split)
qed

lemma sync_default_quiet: "keeps quiet (on_sys (sync_default_rule w root old new))"
proof -
  have save: "quiet s (s\<lparr>si_sys := u\<rparr>)" if "save_rules root rules (si_sys s) = Some (r, u)" for rules r u and s :: "'a site"
  proof -
    have "u = si_sys s \<or> (\<exists>d. replace_firewall_owner root rules (si_db s) = Inr d \<and> u = (si_sys s)\<lparr>s_db := d\<rparr>)"
      using that by (auto simp: save_rules_def store_write_Some)
    moreover have "quiet s (s\<lparr>si_sys := (si_sys s)\<lparr>s_db := d\<rparr>\<rparr>)" if d: "replace_firewall_owner root rules (si_db s) = Inr d" for d
      using replace_firewall_owner_ok [OF _ d] d by (auto simp: quiet_def replace_firewall_owner_iff)
    moreover have "quiet s (s\<lparr>si_sys := si_sys s\<rparr>)" by (simp add: quiet_def)
    ultimately show ?thesis by blast
  qed
  have refresh: "quiet s (s\<lparr>si_sys := u\<rparr>)" if "refresh_forward w (si_sys s) = Some (r, u)" for r u and s :: "'a site"
    using keepsD [OF refresh_forward_kernel_only that] by (auto simp: quiet_def dest: kernel_only_fields)
  have "quiet s (s\<lparr>si_sys := u\<rparr>)" if "sync_default_rule w root old new (si_sys s) = Some (r, u)" for r u and s :: "'a site"
  proof (cases "move_default_rule old new (w_now w) (list_by_owner root (si_db s))")
    case None
    then have "u = si_sys s" using that by (auto simp: sync_default_rule_def handle_Some_iff ret_def)
    then show ?thesis by (simp add: quiet_def)
  next
    case (Some rules)
    then obtain r1 u1 where u1: "save_rules root rules (si_sys s) = Some (r1, u1)"
      "u = u1 \<or> (\<exists>r2. refresh_forward w u1 = Some (r2, u))"
      using \<open>sync_default_rule w root old new (si_sys s) = Some (r, u)\<close>
      by (auto simp: sync_default_rule_def handle_Some_iff andthen_Some_iff ret_def)
    have "quiet s (s\<lparr>si_sys := u1\<rparr>)" using save [OF u1(1)] .
    moreover have "quiet (s\<lparr>si_sys := u1\<rparr>) (s\<lparr>si_sys := u\<rparr>)"
    proof (cases "u = u1")
      case False
      then obtain r2 where "refresh_forward w u1 = Some (r2, u)" using u1(2) by blast
      then show ?thesis using refresh [of "s\<lparr>si_sys := u1\<rparr>"] by simp
    qed (simp add: quiet_def)
    ultimately show ?thesis using qs.trans by blast
  qed
  then show ?thesis by (auto simp: keeps_def on_sys_Some)
qed

section \<open>Writing the store\<close>

definition set_db :: "db \<Rightarrow> 'k site \<Rightarrow> 'k site" where
  "set_db d s = s\<lparr>si_sys := (si_sys s)\<lparr>s_db := d\<rparr>\<rparr>"

definition set_ccd :: "(string \<times> string) list \<Rightarrow> 'k site \<Rightarrow> 'k site" where
  "set_ccd l s = s\<lparr>si_sys := (si_sys s)\<lparr>s_ccd := l\<rparr>\<rparr>"

lemma set_fields [simp]:
  "si_db (set_db d s) = d" "si_ccd (set_db d s) = si_ccd s" "si_global (set_db d s) = si_global s"
  "si_db (set_ccd l s) = si_db s" "si_ccd (set_ccd l s) = l" "si_global (set_ccd l s) = si_global s"
  by (simp_all add: set_db_def set_ccd_def)

lemma leads_store:
  assumes "\<And>s. P s \<Longrightarrow> I s" "\<And>s d. P s \<Longrightarrow> body (si_db s) = Inr d \<Longrightarrow> Q () (set_db d s)"
  shows "leads I P (on_sys (store_write body)) Q"
proof (rule leadsI)
  fix s t r assume a: "P s" "on_sys (store_write body) s = Some (r, t)"
  then consider e where "r = Inl e" "t = s" | d where "body (si_db s) = Inr d" "r = Inr ()" "t = set_db d s"
    by (auto simp: on_sys_Some store_write_Some set_db_def)
  then show "case r of Inl e \<Rightarrow> I t | Inr x \<Rightarrow> Q x t" using assms a(1) by cases auto
qed

lemma group_ids: "db_ok d \<Longrightarrow> g \<in> set (db_groups d) \<Longrightarrow> strip (g_id g) = g_id g \<and> g_id g \<noteq> [] \<and> tbl_ok g_id (db_groups d)"
  by (auto simp: db_ok_def ids_clean_def groups_ok_def clean_def list_all_iff)

lemma groups_tbl: "db_ok d \<Longrightarrow> tbl_ok g_id (db_groups d)" and users_tbl: "db_ok d \<Longrightarrow> tbl_ok username (db_users d)"
  by (simp_all add: db_ok_def groups_ok_def users_ok_def)

lemma user_names: "db_ok d \<Longrightarrow> u \<in> set (db_users d) \<Longrightarrow> clean (username u)"
  by (auto simp: db_ok_def ids_clean_def list_all_iff)

lemma upsert_group_Inr:
  assumes "netaddr_ok na" "is_cidr (g_subnet g)" "upsert_group na g d = Inr d'"
  shows "d' = put_group (g\<lparr>g_id := strip (g_id g)\<rparr>) d \<and> clean (strip (g_id g))"
  using assms normalize_again [OF assms(1,2)] by (auto simp: upsert_group_def Let_def clean_def split: if_splits)

lemma list_groups_facts: "set (list_groups d) = set (db_groups d)" "length (list_groups d) = length (db_groups d)"
  by (simp_all add: list_groups_def)

lemma addr_groups:
  assumes "addr_ok G us gs ccd"
    and "\<And>u g. u \<in> set us \<Longrightarrow> live u \<Longrightarrow> g \<in> set gs \<Longrightarrow> g_id g = group_id u \<Longrightarrow> \<exists>g'\<in>set gs'. g_id g' = g_id g \<and> g_subnet g' = g_subnet g"
  shows "addr_ok G us gs' ccd"
proof -
  have "placed G gs' a (group_id u)" if "u \<in> set us" "live u" "placed G gs a (group_id u)" for u a
  proof -
    obtain g n where g: "g \<in> set gs" "g_id g = group_id u" "ip_network (g_subnet g) = Some n" "a \<in> set (hosts n)"
      using \<open>placed G gs a (group_id u)\<close> unfolding placed_def by blast
    then obtain g' where "g' \<in> set gs'" "g_id g' = g_id g" "g_subnet g' = g_subnet g"
      using assms(2) \<open>u \<in> set us\<close> \<open>live u\<close> by blast
    then show ?thesis using g \<open>placed G gs a (group_id u)\<close> unfolding placed_def by metis
  qed
  then show ?thesis using assms(1) unfolding addr_ok_def by blast
qed

lemma addr_no_live: "addr_ok G us gs ccd \<Longrightarrow> \<forall>u\<in>set us. \<not> live u \<Longrightarrow> addr_ok G' us gs' ccd"
  unfolding addr_ok_def by blast

text \<open>Writing a group back with the same subnet and counter.\<close>

lemma group_keep:
  assumes "netaddr_ok na" "site_inv s" "g \<in> set (db_groups (si_db s))"
    and "g_id r = g_id g" "g_subnet r = g_subnet g" "user_count r = user_count g" "upsert_group na r (si_db s) = Inr d"
  shows "site_inv (set_db d s) \<and> r \<in> set (db_groups d)"
proof -
  let ?gs = "db_groups (si_db s)"
  have ok: "db_ok (si_db s)" "plan_ok (si_G s) ?gs" "counts_ok (db_users (si_db s)) ?gs"
    "addr_ok (si_G s) (db_users (si_db s)) ?gs (si_ccd s)" using assms(2) by (simp_all add: site_inv_def)
  note id = group_ids [OF ok(1) assms(3)]
  have c: "is_cidr (g_subnet r)" using ok(2) assms(3,5) by (auto simp: plan_ok_def)
  have e: "r\<lparr>g_id := strip (g_id r)\<rparr> = r" using id assms(4) by simp
  have d: "d = put_group r (si_db s)"
    using conjunct1 [OF upsert_group_Inr [OF assms(1) c assms(7)]] by (simp only: e)
  have set: "set (tbl_upsert g_id r ?gs) = insert r {x \<in> set ?gs. g_id x \<noteq> g_id r}"
    by (rule set_tbl_upsert [OF groups_tbl [OF ok(1)]])
  have "\<exists>g'\<in>set (tbl_upsert g_id r ?gs). g_id g' = g_id h \<and> g_subnet g' = g_subnet h" if "h \<in> set ?gs" for h
  proof (cases "g_id h = g_id g")
    case True
    then have "h = g" using that assms(3) id by (auto simp: tbl_ok_def distinct_map inj_on_def)
    then show ?thesis using assms(4,5) unfolding set by blast
  next
    case False
    then show ?thesis using that assms(4) unfolding set by auto
  qed
  then have "addr_ok (si_G s) (db_users (si_db s)) (tbl_upsert g_id r ?gs) (si_ccd s)"
    using addr_groups [OF ok(4)] by blast
  moreover have "db_ok d" by (rule upsert_group_ok [OF ok(1) assms(7)])
  moreover have "plan_ok (si_G s) (tbl_upsert g_id r ?gs)" by (rule plan_keep [OF ok(2) groups_tbl [OF ok(1)] assms(3-5)])
  moreover have "counts_ok (db_users (si_db s)) (tbl_upsert g_id r ?gs)"
    by (rule counts_group_keep [OF ok(3) groups_tbl [OF ok(1)] assms(3,4,6)])
  ultimately show ?thesis using set by (simp add: site_inv_def d put_group_def)
qed

end
