(* ===== verification/Site_Groups.thy ===== *)
theory Site_Groups
  imports Site_Steps
begin

text \<open>
  The requests of the group service keep the invariant of the site: what each change of the tables
  does to it, then the handlers.
\<close>

abbreviation safe :: "('k site, 'a) stact \<Rightarrow> bool" where
  "safe m \<equiv> leads site_inv site_inv m (\<lambda>_. site_inv)"

lemma safe_andthen: "safe m \<Longrightarrow> (\<And>x. safe (f x)) \<Longrightarrow> safe (andthen m f)"
  by (rule leads_andthen)

lemma safe_ret: "safe (ret x)" and safe_throw: "safe (throw e)"
  by (simp_all add: leads_ret leads_throw)

lemmas safe_quiet = leads_quiet_inv [OF refresh_if_quiet] leads_quiet_inv [OF refresh_tags_quiet] leads_quiet_inv [OF log_audit_quiet]
  leads_quiet_inv [OF of_res_quiet] leads_quiet_inv [OF load_quiet(1)] leads_quiet_inv [OF load_quiet(2)]

lemma load_group_leads:
  "(\<And>s. P s \<Longrightarrow> I s) \<Longrightarrow> leads I P (load_group gid) (\<lambda>g s. (get_group gid (si_db s) = Some g) \<and> P s)"
  by (auto simp: leads_def load_group_def throw_def ret_def split: option.splits)

lemma get_groupD: "get_group gid d = Some g \<Longrightarrow> g \<in> set (db_groups d) \<and> g_id g = gid"
  by (auto simp: get_group_def dest: tbl_get_SomeD)

section \<open>Changes of the group table\<close>

lemma created_group:
  assumes "netaddr_ok (w_na w)" "site_inv s" "check_new_group w nm subnet s = Inr sub"
    and "strip (w_uuid w n) \<notin> g_id ` set (db_groups (si_db s))" "upsert_group (w_na w) (new_group w n nm sub) (si_db s) = Inr d"
  shows "site_inv (set_db d s) \<and> g_id ` set (db_groups d) = insert (strip (w_uuid w n)) (g_id ` set (db_groups (si_db s)))"
proof -
  let ?gs = "db_groups (si_db s)" and ?r = "(new_group w n nm sub)\<lparr>g_id := strip (w_uuid w n)\<rparr>"
  have ok: "db_ok (si_db s)" "plan_ok (si_G s) ?gs" "counts_ok (db_users (si_db s)) ?gs"
    "addr_ok (si_G s) (db_users (si_db s)) ?gs (si_ccd s)" using assms(2) by (simp_all add: site_inv_def)
  have chk: "normalize_cidr (w_na w) subnet = Some sub" "check_root (w_na w) sub (list_groups (si_db s)) = Inr ()"
    "check_subnet_conflict (w_na w) sub (si_G s) (list_groups (si_db s)) [] = []"
    using assms(3) by (auto simp: check_new_group_def rbind_Inr_iff split: option.splits if_splits)
  have c: "is_cidr sub" by (rule normalize_is_cidr [OF assms(1) chk(1)])
  have sub: "g_subnet (new_group w n nm sub) = sub" "g_subnet ?r = sub" "user_count ?r = 0" "g_id (new_group w n nm sub) = w_uuid w n"
    by (simp_all add: new_group_def)
  have d: "d = put_group ?r (si_db s)"
    using conjunct1 [OF upsert_group_Inr [OF assms(1) _ assms(5)]] c by (simp only: sub)
  have "plan_ok (si_G s) (tbl_upsert g_id ?r ?gs)"
    by (rule plan_create [OF assms(1) ok(2) groups_tbl [OF ok(1)] list_groups_facts])
      (simp_all only: sub c chk)
  moreover have "counts_ok (db_users (si_db s)) (tbl_upsert g_id ?r ?gs)"
    by (rule counts_group_new [OF ok(3) groups_tbl [OF ok(1)]]) (use assms(4) sub in simp_all)
  moreover have "addr_ok (si_G s) (db_users (si_db s)) (tbl_upsert g_id ?r ?gs) (si_ccd s)"
  proof (rule addr_groups [OF ok(4)])
    fix g assume "g \<in> set ?gs"
    then have "g \<in> set (tbl_upsert g_id ?r ?gs)"
      using assms(4) by (auto simp: set_tbl_upsert [OF groups_tbl [OF ok(1)]] image_iff)
    then show "\<exists>g'\<in>set (tbl_upsert g_id ?r ?gs). g_id g' = g_id g \<and> g_subnet g' = g_subnet g" by blast
  qed
  moreover have "db_ok d" by (rule upsert_group_ok [OF ok(1) assms(5)])
  moreover have "g_id ` set (tbl_upsert g_id ?r ?gs) = insert (strip (w_uuid w n)) (g_id ` set ?gs)" by (simp add: keys_tbl_upsert)
  ultimately show ?thesis by (simp add: site_inv_def d put_group_def)
qed

lemma no_users:
  assumes "site_inv s" "g \<in> set (db_groups (si_db s))" "\<not> 0 < user_count g" "u \<in> set (db_users (si_db s))" "live u"
  shows "group_id u \<noteq> g_id g"
proof -
  have "user_count g = cnt (db_users (si_db s)) (g_id g)" using assms(1,2) by (simp add: site_inv_def counts_ok_def)
  then show ?thesis using assms(3-5) cnt_pos by metis
qed

lemma moved_subnet:
  assumes "netaddr_ok (w_na w)" "site_inv s" "g \<in> set (db_groups (si_db s))" "check_new_subnet w g new_subnet s = Inr sub"
    and "r = g\<lparr>g_subnet := sub, g_updated_at := w_now w\<rparr>" "upsert_group (w_na w) r (si_db s) = Inr d"
  shows "site_inv (set_db d s) \<and> is_cidr sub \<and> (is_root_group (g_id g) (si_db s) \<longrightarrow>
    length (db_groups d) \<le> 1 \<and> (\<forall>u\<in>set (db_users d). \<not> live u))"
proof -
  let ?gs = "db_groups (si_db s)"
  have ok: "db_ok (si_db s)" "plan_ok (si_G s) ?gs" "counts_ok (db_users (si_db s)) ?gs"
    "addr_ok (si_G s) (db_users (si_db s)) ?gs (si_ccd s)" using assms(2) by (simp_all add: site_inv_def)
  note id = group_ids [OF ok(1) assms(3)] and tbl = groups_tbl [OF ok(1)]
  have chk: "normalize_cidr (w_na w) new_subnet = Some sub" "\<not> 0 < user_count g"
    "is_root_group (g_id g) (si_db s) \<Longrightarrow> length ?gs \<le> 1"
    "\<not> is_root_group (g_id g) (si_db s) \<Longrightarrow> check_subnet_conflict (w_na w) sub (si_G s) (list_groups (si_db s)) (g_id g) = []"
    using assms(4) list_groups_facts [of "si_db s"]
    by (auto simp: check_new_subnet_def not_less split: option.splits if_splits)
  have c: "is_cidr sub" by (rule normalize_is_cidr [OF assms(1) chk(1)])
  have r: "g_id r = g_id g" "g_subnet r = sub" "user_count r = user_count g" by (simp_all add: assms(5))
  have e: "r\<lparr>g_id := strip (g_id r)\<rparr> = r" using id r by simp
  have d: "d = put_group r (si_db s)" using conjunct1 [OF upsert_group_Inr [OF assms(1) _ assms(6)]] c r(2) by (simp only: e)
  have len: "length (tbl_upsert g_id r ?gs) = length ?gs" using assms(3) r(1) by (simp add: length_tbl_upsert)
  have root: "\<forall>u\<in>set (db_users (si_db s)). \<not> live u" if "length ?gs \<le> 1"
  proof -
    have "?gs = [g]" using that assms(3) by (cases ?gs) auto
    then show ?thesis using ok(3) no_users [OF assms(2,3) chk(2)] by (auto simp: counts_ok_def)
  qed
  have "plan_ok (si_G s) (tbl_upsert g_id r ?gs)"
  proof (cases "is_root_group (g_id g) (si_db s)")
    case True
    then have "?gs = [g]" using chk(3) assms(3) by (cases ?gs) auto
    then show ?thesis using c r by (intro plan_upsert [OF ok(2) tbl]) auto
  next
    case False
    have pl: "si_G s = [] \<or> is_cidr (si_G s)" "\<forall>g\<in>set ?gs. is_cidr (g_subnet g)" using ok(2) by (auto simp: plan_ok_def)
    have nc: "si_G s \<noteq> [] \<longrightarrow> addrs sub \<subseteq> addrs (si_G s)"
      "\<forall>h\<in>set ?gs. g_id h \<noteq> g_id g \<longrightarrow> g_subnet h \<noteq> si_G s \<longrightarrow> addrs sub \<inter> addrs (g_subnet h) = {}"
      using chk(4) [OF False] no_conflict_iff [OF assms(1) c pl(1), of "list_groups (si_db s)" "g_id g"] pl(2) id
      by (auto simp: list_groups_facts)
    show ?thesis
    proof (rule plan_upsert [OF ok(2) tbl])
      assume "1 < length (tbl_upsert g_id r ?gs)" "si_G s \<noteq> []"
      then show "\<forall>g\<in>insert r (set ?gs). addrs (g_subnet g) \<subseteq> addrs (si_G s)"
        using nc(1) ok(2) len r by (auto simp: plan_ok_def)
    qed (use c nc r in auto)
  qed
  moreover have "counts_ok (db_users (si_db s)) (tbl_upsert g_id r ?gs)"
    by (rule counts_group_keep [OF ok(3) tbl assms(3) r(1,3)])
  moreover have "addr_ok (si_G s) (db_users (si_db s)) (tbl_upsert g_id r ?gs) (si_ccd s)"
  proof (rule addr_groups [OF ok(4)])
    fix u h assume "u \<in> set (db_users (si_db s))" "live u" "h \<in> set ?gs" "g_id h = group_id u"
    moreover have "group_id u \<noteq> g_id g" by (rule no_users [OF assms(2,3) chk(2)]) fact+
    ultimately have "h \<in> set (tbl_upsert g_id r ?gs)" using r by (simp add: set_tbl_upsert [OF tbl])
    then show "\<exists>g'\<in>set (tbl_upsert g_id r ?gs). g_id g' = g_id h \<and> g_subnet g' = g_subnet h" by blast
  qed
  moreover have "db_ok d" by (rule upsert_group_ok [OF ok(1) assms(6)])
  ultimately show ?thesis using c chk(3) root len by (simp add: site_inv_def d put_group_def)
qed

lemma deleted_group:
  assumes "site_inv s" "g \<in> set (db_groups (si_db s))" "\<not> 0 < user_count g"
  shows "site_inv (set_db (delete_group (g_id g) (si_db s)) s)"
proof -
  let ?gs = "db_groups (si_db s)"
  have ok: "db_ok (si_db s)" "plan_ok (si_G s) ?gs" "counts_ok (db_users (si_db s)) ?gs"
    "addr_ok (si_G s) (db_users (si_db s)) ?gs (si_ccd s)" using assms(1) by (simp_all add: site_inv_def)
  have "addr_ok (si_G s) (db_users (si_db s)) (tbl_delete g_id (g_id g) ?gs) (si_ccd s)"
  proof (rule addr_groups [OF ok(4)])
    fix u h assume a: "u \<in> set (db_users (si_db s))" "live u" "h \<in> set ?gs" "g_id h = group_id u"
    then have "group_id u \<noteq> g_id g" using no_users [OF assms] by blast
    then have "h \<in> set (tbl_delete g_id (g_id g) ?gs)" using a by (simp add: set_tbl_delete)
    then show "\<exists>g'\<in>set (tbl_delete g_id (g_id g) ?gs). g_id g' = g_id h \<and> g_subnet g' = g_subnet h" by blast
  qed
  moreover have "counts_ok (db_users (si_db s)) (tbl_delete g_id (g_id g) ?gs)"
    by (rule counts_group_delete [OF ok(3) groups_tbl [OF ok(1)] assms(2)]) (use assms(3) in simp)
  ultimately show ?thesis
    using plan_delete [OF ok(2)] delete_group_ok [OF ok(1)] by (simp add: site_inv_def delete_group_def)
qed

section \<open>Handlers\<close>

definition fresh_from :: "'k world \<Rightarrow> nat \<Rightarrow> 'k site \<Rightarrow> bool" where
  "fresh_from w n s \<longleftrightarrow> (\<forall>k\<ge>n. strip (w_uuid w k) \<notin> g_id ` set (db_groups (si_db s)))"

lemma quiet_fresh: "quiet s t \<Longrightarrow> fresh_from w n s \<Longrightarrow> fresh_from w n t"
  by (simp add: quiet_def fresh_from_def)

text \<open>The refresh, log and return at the end of a handler.\<close>

lemma safe_tail: "safe (andthen (log_audit a b c e) (\<lambda>_. ret x))"
  by (intro safe_andthen safe_quiet safe_ret)

lemma group_create_leads:
  assumes "netaddr_ok (w_na w)" "inj (\<lambda>k. strip (w_uuid w k))"
  shows "leads (\<lambda>s. site_inv s \<and> fresh_from w (n + 1) s) (\<lambda>s. site_inv s \<and> fresh_from w n s)
    (group_create w n nm subnet) (\<lambda>_ s. site_inv s \<and> fresh_from w (n + 1) s)"
    (is "leads ?I ?P _ _")
proof -
  let ?w = "\<lambda>sub. andthen (on_sys (store_write (upsert_group (w_na w) (new_group w n nm sub)))) (\<lambda>_.
     andthen (log_audit ''create_group'' ''group'' (w_uuid w n) ''success'') (\<lambda>_. ret (new_group w n nm sub)))"
  have PI: "?P s \<Longrightarrow> ?I s" for s by (auto simp: fresh_from_def)
  have wr: "leads ?I (\<lambda>s. check_new_group w nm subnet s = Inr sub \<and> ?P s) (?w sub) (\<lambda>_. ?I)" for sub
  proof (rule leads_andthen [where R = "\<lambda>_. ?I"])
    show "leads ?I (\<lambda>s. check_new_group w nm subnet s = Inr sub \<and> ?P s)
        (on_sys (store_write (upsert_group (w_na w) (new_group w n nm sub)))) (\<lambda>_. ?I)"
    proof (rule leads_store)
      fix s d
      assume a: "check_new_group w nm subnet s = Inr sub \<and> ?P s" "upsert_group (w_na w) (new_group w n nm sub) (si_db s) = Inr d"
      then have "strip (w_uuid w n) \<notin> g_id ` set (db_groups (si_db s))" by (auto simp: fresh_from_def)
      from created_group [OF assms(1) _ _ this a(2)] a(1)
      have new: "site_inv (set_db d s)" "g_id ` set (db_groups d) = insert (strip (w_uuid w n)) (g_id ` set (db_groups (si_db s)))"
        by blast+
      have "strip (w_uuid w k) \<noteq> strip (w_uuid w n)" if "k \<ge> n + 1" for k
        using that injD [OF assms(2), of k n] by auto
      then show "?I (set_db d s)" using new(1) a(1) unfolding fresh_from_def set_fields new(2) by auto
    qed (use PI in blast)
    show "leads ?I ?I (andthen (log_audit ''create_group'' ''group'' (w_uuid w n) ''success'') (\<lambda>_. ret (new_group w n nm sub))) (\<lambda>_. ?I)"
      by (intro leads_andthen [where R = "\<lambda>_. ?I"] leads_quiet [OF log_audit_quiet] leads_ret)
        (auto intro: quiet_inv quiet_fresh)
  qed
  have "leads ?I ?P (\<lambda>s. andthen (of_res (check_new_group w nm subnet s)) ?w s) (\<lambda>_. ?I)"
  proof (rule leads_state [where m = "\<lambda>s. andthen (of_res (check_new_group w nm subnet s)) ?w"])
    fix s0 assume P: "?P s0"
    show "leads ?I (\<lambda>s. s = s0) (andthen (of_res (check_new_group w nm subnet s0)) ?w) (\<lambda>_. ?I)"
    proof (rule leads_andthen)
      show "leads ?I (\<lambda>s. s = s0) (of_res (check_new_group w nm subnet s0)) (\<lambda>sub s. check_new_group w nm subnet s = Inr sub \<and> ?P s)"
        by (rule leads_of_res) (use P PI in simp_all)
    qed (rule wr)
  qed
  moreover have "group_create w n nm subnet = (\<lambda>s. andthen (of_res (check_new_group w nm subnet s)) ?w s)"
    by (rule ext) (simp only: group_create_def)
  ultimately show ?thesis by simp
qed

lemma group_bulk_create_leads:
  assumes "netaddr_ok (w_na w)" "inj (\<lambda>k. strip (w_uuid w k))"
  shows "leads site_inv (\<lambda>s. site_inv s \<and> fresh_from w n s) (group_bulk_create w n items) (\<lambda>_. site_inv)"
proof (induction items arbitrary: n)
  case Nil
  show ?case unfolding group_bulk_create.simps by (rule leads_ret) simp
next
  case (Cons it items)
  obtain nm subnet where it: "it = (nm, subnet)" by fastforce
  let ?I = "\<lambda>s. site_inv s \<and> fresh_from w (n + 1) s"
  let ?P = "\<lambda>s. site_inv s \<and> fresh_from w n s"
  have PI: "?P s \<Longrightarrow> ?I s" for s by (auto simp: fresh_from_def)
  have one: "leads ?I ?P (handle_value (andthen (group_create w n nm subnet) (\<lambda>g. ret [g]))
      (andthen (log_audit ''create_group'' ''group'' nm ''failure'') (\<lambda>_. ret []))) (\<lambda>_. ?I)"
  proof (rule leads_handle_value)
    show "leads ?I ?P (andthen (group_create w n nm subnet) (\<lambda>g. ret [g])) (\<lambda>_. ?I)"
      by (rule leads_andthen [OF group_create_leads [OF assms]]) (rule leads_ret, assumption)
    show "leads ?I ?I (andthen (log_audit ''create_group'' ''group'' nm ''failure'') (\<lambda>_. ret [])) (\<lambda>_. ?I)"
      by (intro leads_andthen [where R = "\<lambda>_. ?I"] leads_quiet [OF log_audit_quiet] leads_ret)
        (auto intro: quiet_inv quiet_fresh)
  qed
  have "leads site_inv ?P (handle_value (andthen (group_create w n nm subnet) (\<lambda>g. ret [g]))
      (andthen (log_audit ''create_group'' ''group'' nm ''failure'') (\<lambda>_. ret []))) (\<lambda>_. ?I)"
    by (rule leads_weaken [OF one]) auto
  then have "leads site_inv ?P (andthen (handle_value (andthen (group_create w n nm subnet) (\<lambda>g. ret [g]))
      (andthen (log_audit ''create_group'' ''group'' nm ''failure'') (\<lambda>_. ret []))) (\<lambda>made.
        andthen (group_bulk_create w (n + 1) items) (\<lambda>rest. ret (made @ rest)))) (\<lambda>_. site_inv)"
    by (rule leads_andthen) (rule leads_andthen [OF Cons.IH], rule safe_ret)
  moreover have "leads site_inv ?P (group_bulk_create w (n + 1) items) (\<lambda>_. site_inv)"
    by (rule leads_pre [OF Cons.IH]) (rule PI)
  ultimately show ?case by (simp add: it)
qed

lemma sync_global_leads:
  assumes "is_cidr new_subnet"
  shows "leads site_inv (\<lambda>s. site_inv s \<and> length (db_groups (si_db s)) \<le> 1 \<and> (\<forall>u\<in>set (db_users (si_db s)). \<not> live u))
    (sync_global_subnet w save_ok root old_subnet new_subnet) (\<lambda>_. site_inv)" (is "leads _ ?R _ _")
proof -
  let ?save = "\<lambda>s. if \<not> save_ok then throw (OSError ''config.json'') s
        else ret () (s\<lparr>si_global := Some new_subnet,
          si_instances := map (\<lambda>(i, sub). (i, if sub = Some old_subnet then Some new_subnet else sub)) (si_instances s)\<rparr>)"
  have "leads site_inv ?R ?save (\<lambda>_. site_inv)"
  proof (rule leadsI)
    fix s t r assume R: "?R s" and run: "?save s = Some (r, t)"
    show "case r of Inl e \<Rightarrow> site_inv t | Inr x \<Rightarrow> site_inv t"
    proof (cases save_ok)
      case True
      then have "si_G t = new_subnet" "si_db t = si_db s" "si_ccd t = si_ccd s" and r: "r = Inr ()" using run by (auto simp: ret_def)
      then have "site_inv t"
        using R plan_single [OF _ _ assms] addr_no_live unfolding site_inv_def by metis
      then show ?thesis by (simp add: r)
    qed (use run R in \<open>auto simp: throw_def\<close>)
  qed
  then have "leads site_inv ?R (andthen ?save (\<lambda>_. on_sys (sync_default_rule w root old_subnet new_subnet))) (\<lambda>_. site_inv)"
    by (rule leads_andthen) (rule leads_quiet_inv [OF sync_default_quiet])
  then show ?thesis
    unfolding sync_global_subnet_def
    by (rule leads_andthen [where R = "\<lambda>_. ?R", rotated]) (rule leads_of_res; simp)
qed

lemma group_update_subnet_safe:
  assumes "netaddr_ok (w_na w)"
  shows "safe (group_update_subnet w save_ok gid new_subnet)"
proof -
  let ?m = "\<lambda>s. andthen (load_group gid) (\<lambda>g.
     andthen (of_res (check_new_subnet w g new_subnet s)) (\<lambda>sub.
     (let new = g\<lparr>g_subnet := sub, g_updated_at := w_now w\<rparr> in
      andthen (on_sys (store_write (upsert_group (w_na w) new))) (\<lambda>_.
      andthen (on_sys (refresh_if_referenced w ''group'' gid [])) (\<lambda>_.
      andthen (if is_root_group gid (si_db s) then sync_global_subnet w save_ok gid (g_subnet g) sub else ret ()) (\<lambda>_.
      andthen (log_audit ''update_group_subnet'' ''group'' gid ''success'') (\<lambda>_. ret new)))))))"
  have "safe (\<lambda>s. ?m s s)"
  proof (rule leads_state [where m = ?m])
    fix s0 :: "'a site" assume inv: "site_inv s0"
    show "leads site_inv (\<lambda>s. s = s0) (?m s0) (\<lambda>_. site_inv)"
    proof (rule leads_andthen [OF load_group_leads], simp add: inv, rule leads_andthen)
      fix g
      show "leads site_inv (\<lambda>s. get_group gid (si_db s) = Some g \<and> s = s0) (of_res (check_new_subnet w g new_subnet s0))
          (\<lambda>sub s. (get_group gid (si_db s0) = Some g \<and> check_new_subnet w g new_subnet s0 = Inr sub) \<and> s = s0)"
        by (rule leads_of_res) (auto simp: inv)
      fix sub
      show "leads site_inv (\<lambda>s. (get_group gid (si_db s0) = Some g \<and> check_new_subnet w g new_subnet s0 = Inr sub) \<and> s = s0)
          (let new = g\<lparr>g_subnet := sub, g_updated_at := w_now w\<rparr> in
            andthen (on_sys (store_write (upsert_group (w_na w) new))) (\<lambda>_.
            andthen (on_sys (refresh_if_referenced w ''group'' gid [])) (\<lambda>_.
            andthen (if is_root_group gid (si_db s0) then sync_global_subnet w save_ok gid (g_subnet g) sub else ret ()) (\<lambda>_.
            andthen (log_audit ''update_group_subnet'' ''group'' gid ''success'') (\<lambda>_. ret new))))) (\<lambda>_. site_inv)"
        unfolding Let_def
      proof (rule leads_fact)
        assume g: "get_group gid (si_db s0) = Some g \<and> check_new_subnet w g new_subnet s0 = Inr sub"
        let ?new = "g\<lparr>g_subnet := sub, g_updated_at := w_now w\<rparr>"
        let ?R = "\<lambda>s. site_inv s \<and> is_cidr sub \<and> (is_root_group gid (si_db s0) \<longrightarrow>
          length (db_groups (si_db s)) \<le> 1 \<and> (\<forall>u\<in>set (db_users (si_db s)). \<not> live u))"
        note G = get_groupD [OF conjunct1 [OF g]]
        have 1: "leads site_inv (\<lambda>s. s = s0) (on_sys (store_write (upsert_group (w_na w) ?new))) (\<lambda>_. ?R)"
        proof (rule leads_store)
          fix s d assume s: "s = s0" and d: "upsert_group (w_na w) ?new (si_db s) = Inr d"
          show "?R (set_db d s)"
            using moved_subnet [OF assms inv _ conjunct2 [OF g] refl d [unfolded s]] G by (simp add: s)
        qed (simp add: inv)
        have 2: "leads site_inv ?R (on_sys (refresh_if_referenced w ''group'' gid [])) (\<lambda>_. ?R)"
          by (rule leads_quiet [OF refresh_if_quiet]) (auto intro: quiet_inv simp: quiet_def)
        have 3: "leads site_inv ?R (if is_root_group gid (si_db s0) then sync_global_subnet w save_ok gid (g_subnet g) sub else ret ()) (\<lambda>_. site_inv)"
        proof (cases "is_root_group gid (si_db s0)")
          case True
          show ?thesis
          proof (cases "is_cidr sub")
            case c: True
            show ?thesis unfolding if_P [OF True] by (rule leads_pre [OF sync_global_leads [OF c]]) (use True in blast)
          qed (simp add: leads_def)
        next
          case False
          show ?thesis unfolding if_not_P [OF False] by (rule leads_ret) blast
        qed
        show "leads site_inv (\<lambda>s. s = s0) (andthen (on_sys (store_write (upsert_group (w_na w) ?new))) (\<lambda>_.
            andthen (on_sys (refresh_if_referenced w ''group'' gid [])) (\<lambda>_.
            andthen (if is_root_group gid (si_db s0) then sync_global_subnet w save_ok gid (g_subnet g) sub else ret ()) (\<lambda>_.
            andthen (log_audit ''update_group_subnet'' ''group'' gid ''success'') (\<lambda>_. ret ?new))))) (\<lambda>_. site_inv)"
          by (rule leads_andthen [OF 1], rule leads_andthen [OF 2], rule leads_andthen [OF 3], rule safe_tail)
      qed
    qed
  qed
  moreover have "group_update_subnet w save_ok gid new_subnet = (\<lambda>s. ?m s s)"
    by (rule ext) (simp only: group_update_subnet_def)
  ultimately show ?thesis by simp
qed

lemma group_update_details_safe:
  assumes "netaddr_ok (w_na w)"
  shows "safe (group_update_details w save_ok gid nm subnet)"
proof -
  let ?new = "strip nm" and ?mem = "\<lambda>g s. site_inv s \<and> g \<in> set (db_groups (si_db s))"
  have load: "leads site_inv site_inv (load_group gid) ?mem"
    by (rule leads_weaken [OF load_group_leads [where P = site_inv]]) (auto dest: get_groupD)
  have rename: "leads site_inv (?mem cur) (if ?new = g_name cur then ret cur
      else andthen (on_sys (store_write (upsert_group (w_na w) (cur\<lparr>g_name := ?new, g_updated_at := w_now w\<rparr>)))) (\<lambda>_.
        andthen (log_audit ''update_group_name'' ''group'' gid ''success'') (\<lambda>_. ret (cur\<lparr>g_name := ?new, g_updated_at := w_now w\<rparr>))))
      (\<lambda>_. site_inv)" for cur :: group
  proof (rule leads_if)
    show "leads site_inv (?mem cur) (ret cur) (\<lambda>_. site_inv)" by (rule leads_ret) blast
    let ?r = "cur\<lparr>g_name := ?new, g_updated_at := w_now w\<rparr>"
    have "leads site_inv (?mem cur) (on_sys (store_write (upsert_group (w_na w) ?r))) (\<lambda>_. site_inv)"
      by (rule leads_store) (use group_keep [OF assms, where r = ?r and g = cur] in auto)
    then show "leads site_inv (?mem cur) (andthen (on_sys (store_write (upsert_group (w_na w) ?r))) (\<lambda>_.
        andthen (log_audit ''update_group_name'' ''group'' gid ''success'') (\<lambda>_. ret ?r))) (\<lambda>_. site_inv)"
      by (rule leads_andthen) (rule safe_tail)
  qed
  have move: "leads site_inv (?mem current) (if sub \<noteq> g_subnet current
      then andthen (group_update_subnet w save_ok gid sub) (\<lambda>_. load_group gid) else ret current) ?mem" for sub current
  proof (rule leads_if)
    show "leads site_inv (?mem current) (andthen (group_update_subnet w save_ok gid sub) (\<lambda>_. load_group gid)) ?mem"
      by (rule leads_andthen [OF leads_pre [OF group_update_subnet_safe [OF assms]] load]) blast
    show "leads site_inv (?mem current) (ret current) ?mem" by (rule leads_ret)
  qed
  have bad: "leads site_inv (?mem current) (throw e) (\<lambda>_. site_inv)" for e and current :: group by (rule leads_throw) blast
  show ?thesis
  proof (rule leadsI)
    fix s t :: "'a site" and r assume a: "site_inv s" "group_update_details w save_ok gid nm subnet s = Some (r, t)"
    have m: "safe (andthen (load_group gid) (\<lambda>current.
      if ?new = [] then throw (ValueError ''group name empty'')
      else if strip subnet = [] then throw (ValueError ''subnet empty'')
      else (case normalize_cidr (w_na w) (strip subnet) of
          None \<Rightarrow> throw (ValueError ''bad subnet'')
        | Some sub \<Rightarrow>
            if list_ex (\<lambda>g. g_id g \<noteq> gid \<and> g_name g = ?new) (list_groups (si_db s))
            then throw (ValueError ''group name exists'')
            else andthen (if sub \<noteq> g_subnet current
                then andthen (group_update_subnet w save_ok gid sub) (\<lambda>_. load_group gid) else ret current) (\<lambda>cur.
              if ?new = g_name cur then ret cur
              else andthen (on_sys (store_write (upsert_group (w_na w) (cur\<lparr>g_name := ?new, g_updated_at := w_now w\<rparr>)))) (\<lambda>_.
                andthen (log_audit ''update_group_name'' ''group'' gid ''success'') (\<lambda>_.
                ret (cur\<lparr>g_name := ?new, g_updated_at := w_now w\<rparr>)))))))"
      (is "safe ?m")
    proof (rule leads_andthen [OF load], intro leads_if)
      fix current
      show "leads site_inv (?mem current) (case normalize_cidr (w_na w) (strip subnet) of
          None \<Rightarrow> throw (ValueError ''bad subnet'')
        | Some sub \<Rightarrow>
            if list_ex (\<lambda>g. g_id g \<noteq> gid \<and> g_name g = ?new) (list_groups (si_db s))
            then throw (ValueError ''group name exists'')
            else andthen (if sub \<noteq> g_subnet current
                then andthen (group_update_subnet w save_ok gid sub) (\<lambda>_. load_group gid) else ret current) (\<lambda>cur.
              if ?new = g_name cur then ret cur
              else andthen (on_sys (store_write (upsert_group (w_na w) (cur\<lparr>g_name := ?new, g_updated_at := w_now w\<rparr>)))) (\<lambda>_.
                andthen (log_audit ''update_group_name'' ''group'' gid ''success'') (\<lambda>_.
                ret (cur\<lparr>g_name := ?new, g_updated_at := w_now w\<rparr>))))) (\<lambda>_. site_inv)"
      proof (cases "normalize_cidr (w_na w) (strip subnet)")
        case (Some sub)
        show ?thesis unfolding Some option.case by (rule leads_if [OF bad], rule leads_andthen [OF move], rule rename)
      qed (simp add: bad)
    qed (rule bad)+
    show "case r of Inl e \<Rightarrow> site_inv t | Inr x \<Rightarrow> site_inv t"
      by (rule leadsD [OF m a(1)]) (use a(2) in \<open>simp only: group_update_details_def Let_def\<close>)
  qed
qed

lemma group_delete_safe: "safe (group_delete w gid)"
proof -
  let ?m = "\<lambda>s. andthen (load_group gid) (\<lambda>g.
     if user_count g > 0 then throw (ValueError ''group has users'')
     else if is_root_group gid (si_db s) then throw (ValueError ''root group'')
     else if linked_rules gid (si_db s) \<noteq> [] then throw (ValueError ''group has rules'')
     else andthen (on_sys (store_write (\<lambda>d. Inr (delete_group gid d)))) (\<lambda>_.
       andthen (on_sys (refresh_for_tags w (entity_tag_ids EGroup gid (si_db s)))) (\<lambda>_.
       andthen (log_audit ''delete_group'' ''group'' gid ''success'') (\<lambda>_. ret True))))"
  have "safe (?m s0)" for s0 :: "'a site"
  proof (rule leads_andthen [OF load_group_leads [where P = site_inv]], assumption)
    fix g
    let ?P = "\<lambda>s. get_group gid (si_db s) = Some g \<and> site_inv s"
    have bad: "leads site_inv ?P (throw e) (\<lambda>_. site_inv)" for e by (rule leads_throw) blast
    have st: "leads site_inv ?P (on_sys (store_write (\<lambda>d. Inr (delete_group gid d)))) (\<lambda>_. site_inv)" if c: "\<not> user_count g > 0"
      by (rule leads_store) (use deleted_group [OF _ _ c] in \<open>auto dest: get_groupD\<close>)
    have del: "leads site_inv ?P (andthen (on_sys (store_write (\<lambda>d. Inr (delete_group gid d)))) (\<lambda>_.
       andthen (on_sys (refresh_for_tags w (entity_tag_ids EGroup gid (si_db s0)))) (\<lambda>_.
       andthen (log_audit ''delete_group'' ''group'' gid ''success'') (\<lambda>_. ret True)))) (\<lambda>_. site_inv)" if "\<not> user_count g > 0"
      by (rule leads_andthen [OF st [OF that]], rule safe_andthen [OF safe_quiet(2)], rule safe_tail)
    show "leads site_inv ?P (if user_count g > 0 then throw (ValueError ''group has users'')
     else if is_root_group gid (si_db s0) then throw (ValueError ''root group'')
     else if linked_rules gid (si_db s0) \<noteq> [] then throw (ValueError ''group has rules'')
     else andthen (on_sys (store_write (\<lambda>d. Inr (delete_group gid d)))) (\<lambda>_.
       andthen (on_sys (refresh_for_tags w (entity_tag_ids EGroup gid (si_db s0)))) (\<lambda>_.
       andthen (log_audit ''delete_group'' ''group'' gid ''success'') (\<lambda>_. ret True)))) (\<lambda>_. site_inv)"
      by (intro leads_if bad del)
  qed
  then show ?thesis unfolding leads_def group_delete_def Let_def by blast
qed

lemma group_set_status_safe:
  assumes "netaddr_ok (w_na w)"
  shows "safe (group_set_status w gid status)"
  unfolding group_set_status_def Let_def
proof (rule leads_andthen [OF load_group_leads [where P = site_inv]], assumption, rule leads_andthen)
  fix g :: group
  let ?r = "g\<lparr>g_status := status, g_updated_at := w_now w\<rparr>"
  show "leads site_inv (\<lambda>s. get_group gid (si_db s) = Some g \<and> site_inv s) (on_sys (store_write (upsert_group (w_na w) ?r))) (\<lambda>_. site_inv)"
    by (rule leads_store) (use group_keep [OF assms, where r = ?r and g = g] in \<open>auto dest: get_groupD\<close>)
  show "safe (andthen (on_sys (refresh_if_referenced w ''group'' gid [])) (\<lambda>_.
      andthen (log_audit (if status = GActive then ''enable_group'' else ''disable_group'') ''group'' gid ''success'') (\<lambda>_. ret ?r)))"
    by (rule safe_andthen [OF safe_quiet(1)], rule safe_tail)
qed

lemma safe_bulk: "safe m \<Longrightarrow> safe (handle_value (andthen m (\<lambda>_. ret True)) (ret False))"
  by (rule leads_handle_value) (auto intro: safe_andthen safe_ret)

lemma group_bulk_safe:
  "safe (group_bulk_delete w ids)" "netaddr_ok (w_na w) \<Longrightarrow> safe (group_bulk_status w status ids)"
proof -
  show "safe (group_bulk_delete w ids)"
  proof (induction ids)
    case (Cons i ids)
    show ?case
      unfolding group_bulk_delete.simps by (rule safe_andthen [OF safe_bulk [OF group_delete_safe]], rule safe_andthen [OF Cons.IH], rule safe_ret)
  qed (simp add: safe_ret)
  assume na: "netaddr_ok (w_na w)"
  show "safe (group_bulk_status w status ids)"
  proof (induction ids)
    case (Cons i ids)
    show ?case
      unfolding group_bulk_status.simps by (rule safe_andthen [OF safe_bulk [OF group_set_status_safe [OF na]]], rule safe_andthen [OF Cons.IH], rule safe_ret)
  qed (simp add: safe_ret)
qed

end
