(* ===== verification/Site_Users.thy ===== *)
theory Site_Users
  imports Site_Groups
begin

text \<open>
  The requests of the user service keep the invariant of the site.  A request that adds, removes or
  moves a user passes through states where the counters lag behind: \<open>ready\<close> before the user row is
  written, \<open>pending\<close> before the counters are.
\<close>

section \<open>Counters that lag behind\<close>

definition owed :: "string \<Rightarrow> (string \<times> int) list \<Rightarrow> group list \<Rightarrow> group list" where
  "owed now ds gs = fold (\<lambda>(gid, k). delta now gid k) ds gs"

definition pending :: "'k world \<Rightarrow> (string \<times> int) list \<Rightarrow> 'k site \<Rightarrow> bool" where
  "pending w ds s \<longleftrightarrow> db_ok (si_db s) \<and> plan_ok (si_G s) (db_groups (si_db s)) \<and>
     addr_ok (si_G s) (db_users (si_db s)) (db_groups (si_db s)) (si_ccd s) \<and>
     counts_ok (db_users (si_db s)) (owed (w_now w) ds (db_groups (si_db s)))"

definition ready :: "'k world \<Rightarrow> user \<Rightarrow> (string \<times> int) list \<Rightarrow> 'k site \<Rightarrow> bool" where
  "ready w r ds s \<longleftrightarrow> db_ok (si_db s) \<and> plan_ok (si_G s) (db_groups (si_db s)) \<and> clean (username r) \<and>
     addr_ok (si_G s) (tbl_upsert username r (db_users (si_db s))) (db_groups (si_db s)) (si_ccd s) \<and>
     counts_ok (tbl_upsert username r (db_users (si_db s))) (owed (w_now w) ds (db_groups (si_db s)))"

lemma pending_Nil: "pending w [] s \<longleftrightarrow> site_inv s"
  by (auto simp: pending_def site_inv_def owed_def)

lemma leads_exact:
  "(\<And>s. P s \<Longrightarrow> \<exists>t. m s = Some (Inr x, t) \<and> Q x t) \<Longrightarrow> leads I P m Q"
  by (fastforce simp: leads_def)

lemma addr_delta: "addr_ok G us gs ccd \<Longrightarrow> addr_ok G us (delta now gid k gs) ccd"
proof (erule addr_groups)
  fix g assume "g \<in> set gs"
  then have "(g_id g, g_subnet g) \<in> (\<lambda>g. (g_id g, g_subnet g)) ` set (delta now gid k gs)"
    unfolding delta_fields(3) by (rule imageI)
  then obtain g' where "g' \<in> set (delta now gid k gs)" "(g_id g, g_subnet g) = (g_id g', g_subnet g')" by (rule imageE)
  then show "\<exists>g'\<in>set (delta now gid k gs). g_id g' = g_id g \<and> g_subnet g' = g_subnet g" by auto
qed

lemma increment_effect:
  assumes "netaddr_ok (w_na w)" "db_ok (si_db s)" "plan_ok (si_G s) (db_groups (si_db s))"
  shows "\<exists>d. increment_group_user_count w gid k s = Some (Inr (), set_db d s) \<and> db_ok d \<and>
    db_users d = db_users (si_db s) \<and> db_groups d = delta (w_now w) gid k (db_groups (si_db s))"
proof (cases "get_group gid (si_db s)")
  case None
  then have "gid \<notin> g_id ` set (db_groups (si_db s))" by (simp add: get_group_def tbl_get_None_iff)
  then have "delta (w_now w) gid k (db_groups (si_db s)) = db_groups (si_db s)" by (rule delta_missing)
  moreover have "increment_group_user_count w gid k s = Some (Inr (), set_db (si_db s) s)"
    using None by (simp add: increment_group_user_count_def ret_def set_db_def)
  ultimately show ?thesis using assms(2) by fastforce
next
  case (Some g)
  let ?r = "g\<lparr>user_count := max 0 (user_count g + k), g_updated_at := w_now w\<rparr>"
  note g = get_groupD [OF Some] and id = group_ids [OF assms(2) conjunct1 [OF get_groupD [OF Some]]]
  have c: "is_cidr (g_subnet ?r)" using assms(3) g by (simp add: plan_ok_def)
  have norm: "normalize_group_payload (w_na w) ?r = ?r" by (rule normalize_again [OF assms(1) c])
  have names: "distinct (map g_name (db_groups (si_db s)))" using assms(2) by (simp add: db_ok_def uniques_ok_def)
  have "\<not> list_ex (\<lambda>h. g_name h = g_name ?r \<and> g_id h \<noteq> g_id g) (db_groups (si_db s))"
    using names g by (auto simp: list_ex_iff distinct_map inj_on_def)
  moreover have "?r\<lparr>g_id := strip (g_id ?r)\<rparr> = ?r" using id by simp
  ultimately have up: "upsert_group (w_na w) ?r (si_db s) = Inr (put_group ?r (si_db s))"
    unfolding upsert_group_def norm Let_def using id by simp
  have "increment_group_user_count w gid k s = Some (Inr (), set_db (put_group ?r (si_db s)) s)"
    using Some g id up by (simp add: increment_group_user_count_def on_sys_def store_write_def connection_write_def set_db_def)
  moreover have "db_groups (put_group ?r (si_db s)) = delta (w_now w) gid k (db_groups (si_db s))"
    using upsert_delta [OF groups_tbl [OF assms(2)] conjunct1 [OF g]] g by (simp add: put_group_def)
  moreover have "db_ok (put_group ?r (si_db s))" by (rule upsert_group_ok [OF assms(2) up])
  ultimately show ?thesis by (intro exI [of _ "put_group ?r (si_db s)"]) (simp add: put_group_def)
qed

lemma increment_leads:
  assumes "netaddr_ok (w_na w)"
  shows "leads I (pending w ((gid, k) # ds)) (increment_group_user_count w gid k) (\<lambda>_. pending w ds)"
proof (rule leads_exact)
  fix s assume p: "pending w ((gid, k) # ds) s"
  then obtain d where d: "increment_group_user_count w gid k s = Some (Inr (), set_db d s)" "db_ok d"
    "db_users d = db_users (si_db s)" "db_groups d = delta (w_now w) gid k (db_groups (si_db s))"
    using increment_effect [OF assms, of s gid k] by (auto simp: pending_def)
  moreover have "pending w ds (set_db d s)"
    using p d(2) plan_delta addr_delta unfolding pending_def set_fields d(3,4) owed_def by simp
  ultimately show "\<exists>t. increment_group_user_count w gid k s = Some (Inr (), t) \<and> pending w ds t" by blast
qed

lemma put_user_effect: "clean (username r) \<Longrightarrow> upsert_user r d = Inr (put_user r d)"
  by (simp add: upsert_user_def clean_def)

lemma upsert_user_leads: "leads I (ready w r ds) (on_sys (store_write (upsert_user r))) (\<lambda>_. pending w ds)"
proof (rule leads_exact)
  fix s :: "'a site" assume p: "ready w r ds s"
  then have up: "upsert_user r (si_db s) = Inr (put_user r (si_db s))" using put_user_effect by (simp add: ready_def)
  then have "on_sys (store_write (upsert_user r)) s = Some (Inr (), set_db (put_user r (si_db s)) s)"
    by (simp add: on_sys_def store_write_def connection_write_def set_db_def)
  moreover have "pending w ds (set_db (put_user r (si_db s)) s)"
    using p upsert_user_ok [OF _ up] by (simp add: ready_def pending_def put_user_def)
  ultimately show "\<exists>t. on_sys (store_write (upsert_user r)) s = Some (Inr (), t) \<and> pending w ds t" by blast
qed

lemma quiet_ready: "quiet s t \<Longrightarrow> ready w r ds s \<Longrightarrow> ready w r ds t"
  by (simp add: quiet_def ready_def)

section \<open>Users that stay in place\<close>

definition live_names :: "'k site \<Rightarrow> string set" where
  "live_names s = username ` {u \<in> set (db_users (si_db s)). live u}"

lemma get_userD: "get_user n d = Some u \<Longrightarrow> u \<in> set (db_users d) \<and> username u = n"
  by (auto simp: get_user_def dest: tbl_get_SomeD)

lemma load_user_leads:
  "(\<And>s. P s \<Longrightarrow> I s) \<Longrightarrow> leads I P (load_user n) (\<lambda>u s. get_user n (si_db s) = Some u \<and> P s)"
  by (auto simp: leads_def load_user_def throw_def ret_def split: option.splits)

lemma user_keep:
  assumes "site_inv s" "get_user (username r) (si_db s) = Some u" "group_id r = group_id u" "live r \<longleftrightarrow> live u"
  shows "ready w r [] s"
proof -
  let ?us = "db_users (si_db s)"
  have ok: "db_ok (si_db s)" "plan_ok (si_G s) (db_groups (si_db s))" "counts_ok ?us (db_groups (si_db s))"
    "addr_ok (si_G s) ?us (db_groups (si_db s)) (si_ccd s)" using assms(1) by (simp_all add: site_inv_def)
  note u = get_userD [OF assms(2)] and set = set_tbl_upsert [OF users_tbl [OF ok(1)], of r]
  have "addr_ok (si_G s) (tbl_upsert username r ?us) (db_groups (si_db s)) (si_ccd s)"
  proof (rule addr_follow [OF ok(4) follows_refl [of "live_names s"]])
    show "\<forall>x\<in>set (tbl_upsert username r ?us). live x \<longrightarrow> username x \<in> live_names s \<and>
        (\<exists>v\<in>set ?us. live v \<and> username v = username x \<and> group_id v = group_id x) \<and>
        (\<forall>a. placed (si_G s) (db_groups (si_db s)) a (group_id x) \<longrightarrow> placed (si_G s) (db_groups (si_db s)) a (group_id x))"
      unfolding set using u assms(3,4) by (auto simp: live_names_def rev_image_eqI)
  qed (auto simp: live_names_def)
  moreover have "counts_ok (tbl_upsert username r ?us) (db_groups (si_db s))"
    by (rule counts_user_keep [OF ok(3) users_tbl [OF ok(1)] _ assms(3,4)]) (use assms(2) in \<open>simp add: get_user_def\<close>)
  ultimately show ?thesis using ok u user_names [OF ok(1), of u] by (simp add: ready_def owed_def)
qed

lemma user_keep_leads:
  assumes "\<And>s. P s \<Longrightarrow> site_inv s \<and> (\<exists>u. get_user (username r) (si_db s) = Some u \<and> group_id r = group_id u \<and> (live r \<longleftrightarrow> live u))"
  shows "leads site_inv P (on_sys (store_write (upsert_user r))) (\<lambda>_. site_inv)"
proof (rule leads_weaken [OF upsert_user_leads [of site_inv undefined r "[]"]])
  show "P s \<Longrightarrow> ready undefined r [] s" for s using assms user_keep by blast
qed (auto simp: pending_Nil)

lemma update_cert_serial_safe: "safe (update_cert_serial w uname serial)"
  unfolding update_cert_serial_def
  by (rule leads_andthen [OF load_user_leads [where P = site_inv]], assumption, rule user_keep_leads) (auto dest: get_userD)

lemma regenerate_ovpn_safe: "safe (regenerate_ovpn w written uname)"
  unfolding regenerate_ovpn_def
proof (rule leads_andthen [OF load_user_leads [where P = site_inv]], assumption, intro leads_if)
  fix u :: user
  let ?P = "\<lambda>s :: 'a site. get_user uname (si_db s) = Some u \<and> site_inv s"
  show "leads site_inv ?P (throw (ValueError ''user deleted'')) (\<lambda>_. site_inv)" by (rule leads_throw) blast
  have PQ: "quiet s t \<Longrightarrow> ?P s \<Longrightarrow> ?P t" for s t by (auto simp: quiet_def get_user_def intro: quiet_inv [unfolded quiet_def])
  have wr: "leads site_inv ?P (andthen (on_sys (store_write (upsert_user (u\<lparr>ovpn_file_path := Some path, u_updated_at := w_now w\<rparr>)))) (\<lambda>_. ret path)) (\<lambda>_. site_inv)"
    for path
  proof (rule leads_andthen)
    show "leads site_inv ?P (on_sys (store_write (upsert_user (u\<lparr>ovpn_file_path := Some path, u_updated_at := w_now w\<rparr>)))) (\<lambda>_. site_inv)"
      by (rule user_keep_leads) (auto dest: get_userD)
  qed (rule safe_ret)
  show "leads site_inv ?P (andthen (load_group (strip (group_id u))) (\<lambda>_. andthen (of_res written) (\<lambda>path.
       andthen (on_sys (store_write (upsert_user (u\<lparr>ovpn_file_path := Some path, u_updated_at := w_now w\<rparr>)))) (\<lambda>_. ret path)))) (\<lambda>_. site_inv)"
    by (rule leads_andthen [OF leads_quiet_same [where P = ?P, OF load_quiet(1)] leads_andthen [OF leads_quiet_same [where P = ?P, OF of_res_quiet] wr]])
      (use PQ in blast)+
qed

section \<open>Edits of the client files\<close>

lemma ccd_follow:
  assumes "site_inv s" "follows (live_names s) (si_ccd s) l"
  shows "site_inv (set_ccd l s)"
proof -
  have "addr_ok (si_G s) (db_users (si_db s)) (db_groups (si_db s)) l"
    by (rule addr_follow [OF _ assms(2)]) (use assms(1) in \<open>auto simp: site_inv_def live_names_def\<close>)
  then show ?thesis using assms(1) by (simp add: site_inv_def)
qed

text \<open>The mesh routes: only files of live users are rewritten, and only their marked block.\<close>

definition sync_rel :: "string set \<Rightarrow> 'k sys \<Rightarrow> 'k sys \<Rightarrow> bool" where
  "sync_rel L st st' \<longleftrightarrow> st' = st\<lparr>s_ccd := s_ccd st'\<rparr> \<and> follows L (s_ccd st) (s_ccd st')"

interpretation mesh_files: step_frame "sync_rel L :: 'k sys \<Rightarrow> 'k sys \<Rightarrow> bool"
proof
  show "sync_rel L s s" for s :: "'k sys" by (simp add: sync_rel_def follows_refl)
  show "sync_rel L s u" if "sync_rel L s t" "sync_rel L t u" for s t u :: "'k sys"
  proof -
    have "s_ccd (s\<lparr>s_ccd := x\<rparr>) = x" for x by simp
    then have "u = s\<lparr>s_ccd := s_ccd u\<rparr>" using that unfolding sync_rel_def by (metis sys.surjective sys.update_convs(4))
    then show ?thesis using that follows_trans unfolding sync_rel_def by blast
  qed
qed

lemma mesh_user_keeps:
  assumes "n \<in> L"
  shows "keeps (sync_rel L) (mesh_sync_user w n cidrs)"
proof -
  have wr: "sync_rel L st (st\<lparr>s_ccd := AList.update n new_text (s_ccd st)\<rparr>)"
    if t: "map_of (s_ccd st) n = Some t" and m: "merge_mesh_peer_push_routes_into_ccd (read_text t) cidrs = Inr new_text"
    for st :: "'a sys" and t new_text
  proof -
    have "\<exists>dis'. ccd_form dis' a new_text" if "ccd_form dis a t" for dis a
      using mesh_edit_form [OF that] m read_text_id [OF ccd_form_cr [OF that]] by auto
    then have "follows L (s_ccd st) (AList.update n new_text (s_ccd st))" by (rule follows_update [OF assms t])
    then show ?thesis by (simp add: sync_rel_def)
  qed
  have "sync_rel L st st'" if r: "mesh_sync_user w n cidrs st = Some (r, st')" for st st' :: "'a sys" and r
  proof -
    have "st' = st \<or> (\<exists>t new_text. map_of (s_ccd st) n = Some t \<and> merge_mesh_peer_push_routes_into_ccd (read_text t) cidrs = Inr new_text \<and>
        st' = st\<lparr>s_ccd := AList.update n new_text (s_ccd st)\<rparr>)"
    proof (cases "map_of (s_ccd st) n")
      case (Some t)
      then show ?thesis
        using r by (cases "merge_mesh_peer_push_routes_into_ccd (read_text t) cidrs")
          (auto simp: mesh_sync_user_def handle_os_def handle_Some_iff andthen_Some_iff ccd_read_Some ccd_write_Some
            ret_def throw_def split: if_splits exn.splits)
    qed (use r in \<open>auto simp: mesh_sync_user_def handle_os_def handle_Some_iff andthen_Some_iff ccd_read_Some throw_def split: exn.splits\<close>)
    then show ?thesis using wr mesh_files.refl by blast
  qed
  then show ?thesis by (auto simp: keeps_def)
qed

lemma mesh_loop_keeps:
  "(\<And>u. u \<in> set us \<Longrightarrow> strip (username u) \<in> L) \<Longrightarrow> keeps (sync_rel L) (mesh_sync_loop w peers us)"
proof (induction us)
  case Nil
  then show ?case by (auto simp: keeps_def ret_def mesh_files.refl)
next
  case (Cons u us)
  have rest: "keeps (sync_rel L) (mesh_sync_loop w peers us)" using Cons by simp
  have "keeps (sync_rel L) (andthen (of_res (mesh_lan_cidrs_for_user_group peers (strip (group_id u)))) (\<lambda>cidrs.
        andthen (mesh_sync_user w (strip (username u)) cidrs) (\<lambda>failed.
        andthen (mesh_sync_loop w peers us) (\<lambda>rest. ret (failed @ rest)))))"
    by (intro mesh_files.andthen_keeps of_res_keeps mesh_files.refl mesh_user_keeps rest mesh_files.ret_keeps) (use Cons.prems in simp)
  then show ?case using rest by (auto simp: keeps_def Let_def)
qed

lemma mesh_sync_safe: "safe (on_sys (sync_all_mesh_push_routes_in_ccd w))"
proof (rule leadsI)
  fix s t :: "'a site" and r assume inv: "site_inv s" and run: "on_sys (sync_all_mesh_push_routes_in_ccd w) s = Some (r, t)"
  obtain u where u: "sync_all_mesh_push_routes_in_ccd w (si_sys s) = Some (r, u)" "t = s\<lparr>si_sys := u\<rparr>"
    using run by (auto simp: on_sys_Some)
  have ok: "db_ok (si_db s)" using inv by (simp add: site_inv_def)
  have names: "strip (username x) \<in> live_names s" if "x \<in> set (list_users False (si_db s))" for x
    using that user_names [OF ok, of x] by (auto simp: list_users_def live_names_def live_user_def clean_def)
  have "keeps (sync_rel (live_names s)) (andthen (mesh_sync_loop w (list_peers (si_db s)) (list_users False (si_db s))) (\<lambda>failed.
      if failed = [] then ret () else throw (RuntimeError ''mesh push CCD'')))"
    by (intro mesh_files.andthen_keeps mesh_loop_keeps names) auto
  then have "sync_rel (live_names s) (si_sys s) u" using u(1) by (auto simp: sync_all_mesh_push_routes_in_ccd_def dest: keepsD)
  then have f: "u = (si_sys s)\<lparr>s_ccd := s_ccd u\<rparr>" "follows (live_names s) (si_ccd s) (s_ccd u)" by (auto simp: sync_rel_def)
  have "t = set_ccd (s_ccd u) s" using u(2) f(1) unfolding set_ccd_def by metis
  then show "case r of Inl e \<Rightarrow> site_inv t | Inr x \<Rightarrow> site_inv t" using ccd_follow [OF inv f(2)] by (cases r) simp_all
qed

lemma live_file:
  assumes "site_inv s" "n \<in> live_names s"
  shows "\<exists>t dis a. map_of (si_ccd s) n = Some t \<and> ccd_form dis a t \<and> read_text t = t"
proof -
  obtain u where "u \<in> set (db_users (si_db s))" "live u" "username u = n" using assms(2) by (auto simp: live_names_def)
  then obtain t dis a where "map_of (si_ccd s) n = Some t" "ccd_form dis a t"
    using assms(1) unfolding site_inv_def addr_ok_def by blast
  then show ?thesis using read_text_id ccd_form_cr by blast
qed

lemma on_ccd_read: "on_sys (ccd_read w n) s = Some (r, s') \<Longrightarrow> s' = s \<and> (\<forall>x. r = Inr x \<longrightarrow> (\<exists>t. map_of (si_ccd s) n = Some t \<and> x = read_text t))"
  by (auto simp: on_sys_Some ccd_read_Some split: if_splits)

lemma on_ccd_write: "on_sys (ccd_write w n t) s = Some (r, s') \<longleftrightarrow>
   (if w_ccd_fault w n then r = Inl (OSError n) \<and> s' = s else r = Inr () \<and> s' = set_ccd (AList.update n t (si_ccd s)) s)"
  by (auto simp: on_sys_Some ccd_write_Some set_ccd_def)

lemma update_ccd_disable_leads:
  "leads site_inv (\<lambda>s. site_inv s \<and> n \<in> live_names s) (update_ccd_disable w n disable) (\<lambda>_. site_inv)"
proof (rule leadsI)
  fix s t :: "'a site" and r assume P: "site_inv s \<and> n \<in> live_names s" and run: "update_ccd_disable w n disable s = Some (r, t)"
  obtain x dis a where x: "map_of (si_ccd s) n = Some x" "ccd_form dis a x" "read_text x = x" using live_file P by blast
  have "andthen (on_sys (ccd_read w n)) (\<lambda>content. on_sys (ccd_write w n (set_ccd_disable disable content))) s = Some (r, t)"
    using run x(1) by (simp add: update_ccd_disable_def ccd_exists_def)
  then have "t = s \<or> t = set_ccd (AList.update n (set_ccd_disable disable x) (si_ccd s)) s"
    using x by (auto simp: andthen_Some_iff on_ccd_write dest!: on_ccd_read split: if_splits)
  moreover have "follows (live_names s) (si_ccd s) (AList.update n (set_ccd_disable disable x) (si_ccd s))"
    using follows_update [OF conjunct2 [OF P] x(1)] disable_edit_form x(2) by blast
  ultimately have "site_inv t" using ccd_follow P by blast
  then show "case r of Inl e \<Rightarrow> site_inv t | Inr x \<Rightarrow> site_inv t" by (cases r) simp_all
qed

lemma toggle_status_safe: "safe (toggle_status w n)"
  unfolding toggle_status_def
proof (rule leads_andthen [OF load_user_leads [where P = site_inv]], assumption, intro leads_if)
  fix u :: user
  let ?P = "\<lambda>s :: 'a site. get_user n (si_db s) = Some u \<and> site_inv s"
  show "leads site_inv ?P (throw (ValueError ''user deleted'')) (\<lambda>_. site_inv)" by (rule leads_throw) blast
  assume live: "u_status u \<noteq> UDeleted"
  let ?new = "if u_status u = UActive then UDisabled else UActive"
  let ?r = "u\<lparr>u_status := ?new, u_updated_at := w_now w\<rparr>"
  have "leads site_inv ?P (on_sys (store_write (upsert_user ?r))) (\<lambda>_ s. site_inv s \<and> n \<in> live_names s)"
  proof (rule leads_store)
    fix s d assume P: "?P s" and d: "upsert_user ?r (si_db s) = Inr d"
    note u = get_userD [OF conjunct1 [OF P]]
    have ready: "ready w ?r [] s" using P u live by (intro user_keep [where u = u]) auto
    then have "d = put_user ?r (si_db s)" using d put_user_effect [of ?r "si_db s"] by (simp add: ready_def)
    moreover have "site_inv (set_db (put_user ?r (si_db s)) s)"
      using leadsD [OF upsert_user_leads ready, where I = "\<lambda>_. False"] P put_user_effect [of ?r "si_db s"] ready
      by (auto simp: on_sys_def store_write_def connection_write_def set_db_def pending_Nil ready_def)
    moreover have "?r \<in> set (db_users (put_user ?r (si_db s)))" by (simp add: put_user_def) (meson keys_tbl_upsert tbl_get_SomeD tbl_get_upsert)
    then have "n \<in> live_names (set_db (put_user ?r (si_db s)) s)" using u by (auto simp: live_names_def intro!: image_eqI [of _ _ ?r])
    ultimately show "site_inv (set_db d s) \<and> n \<in> live_names (set_db d s)" by simp
  qed blast
  note wr = this
  show "leads site_inv ?P (let new_status = ?new in
       andthen (on_sys (store_write (upsert_user (u\<lparr>u_status := new_status, u_updated_at := w_now w\<rparr>)))) (\<lambda>_.
       andthen (update_ccd_disable w n (new_status = UDisabled)) (\<lambda>_.
       andthen (on_sys (refresh_if_referenced w ''user'' n [])) (\<lambda>_.
       andthen (log_audit ''toggle_user_status'' ''user'' n ''success'') (\<lambda>_. ret new_status))))) (\<lambda>_. site_inv)"
    unfolding Let_def
    by (rule leads_andthen [OF wr], rule leads_andthen [OF update_ccd_disable_leads], rule safe_andthen [OF safe_quiet(1)], rule safe_tail)
qed

section \<open>The allocated address\<close>

lemma allocate_Inr:
  assumes "allocate_virtual_ip global used sub = Inr (ip, msk)" "sub \<noteq> []"
  shows "\<exists>network pool a m. ip_network sub = Some network \<and> ip_network (strip global) = Some pool \<and> subnet_of network pool \<and>
    a \<in> set (hosts network) \<and> a \<noteq> net_addr pool + 1 \<and> ip = ip_str a \<and> ip \<notin> set used \<and> msk = ip_str m"
proof -
  obtain network where n: "ip_network sub = Some network"
    using assms by (auto simp: allocate_virtual_ip_def v4_network_def rbind_Inr_iff split: option.splits)
  obtain pool where p: "ip_network (strip global) = Some pool"
    using assms n by (auto simp: allocate_virtual_ip_def v4_network_def rbind_Inr_iff split: option.splits if_splits)
  have f: "subnet_of network pool" "(case find (\<lambda>h. h \<noteq> net_addr pool + 1 \<and> ip_str h \<notin> set used) (hosts network) of
      Some h \<Rightarrow> Inr (ip_str h, ifconfig_push_netmask global network) | None \<Rightarrow> Inl (ValueError ''no address left'')) = Inr (ip, msk)"
    using assms n p by (auto simp: allocate_virtual_ip_def v4_network_def v4_address_def rbind_Inr_iff split: if_splits)
  obtain a where a: "find (\<lambda>h. h \<noteq> net_addr pool + 1 \<and> ip_str h \<notin> set used) (hosts network) = Some a" "ip = ip_str a"
    "msk = ifconfig_push_netmask global network"
    using f(2) by (auto split: option.splits)
  have "a \<in> set (hosts network)" "a \<noteq> net_addr pool + 1" "ip_str a \<notin> set used" using a(1) by (auto simp: find_Some_iff)
  moreover have "\<exists>m. msk = ip_str m" using a(3) by (auto simp: ifconfig_push_netmask_def netmask_str_def Let_def split: option.splits)
  ultimately show ?thesis using n p f(1) a(2) by blast
qed

text \<open>An address drawn for a group is fresh and lies in the group.\<close>

definition drawn :: "'k site \<Rightarrow> string \<Rightarrow> nat \<Rightarrow> bool" where
  "drawn s gid a \<longleftrightarrow> placed (si_G s) (db_groups (si_db s)) a gid \<and> (\<forall>m. file_ip (si_ccd s) m \<noteq> Some (ip_str a))"

lemma allocate_leads:
  assumes "\<forall>n. \<not> w_ccd_fault w n" "\<And>s. P s \<Longrightarrow> site_inv s \<and> get_group gid (si_db s) = Some g"
  shows "leads site_inv P (allocate_virtual_ip_for_group w g) (\<lambda>(ip, msk) s. P s \<and> (\<exists>a m. drawn s gid a \<and> ip = ip_str a \<and> msk = ip_str m))"
proof (rule leadsI)
  fix s t :: "'a site" and r assume P: "P s" and run: "allocate_virtual_ip_for_group w g s = Some (r, t)"
  let ?used = "map snd (list_ccd_ips (w_ccd_fault w) (si_ccd s))"
  have r: "r = allocate_virtual_ip (si_G s) ?used (g_subnet g)" "t = s"
    using run unfolding allocate_virtual_ip_for_group_def by (auto simp: of_res_def ret_def throw_def split: sum.splits)
  show "case r of Inl e \<Rightarrow> site_inv t | Inr x \<Rightarrow> (case x of (ip, msk) \<Rightarrow> \<lambda>s. P s \<and> (\<exists>a m. drawn s gid a \<and> ip = ip_str a \<and> msk = ip_str m)) t"
  proof (cases r)
    case (Inr x)
    obtain ip msk where x: "x = (ip, msk)" by fastforce
    have g: "g \<in> set (db_groups (si_db s))" "g_id g = gid" using assms(2) [OF P] get_groupD by auto
    have "is_cidr (g_subnet g)" using assms(2) [OF P] g by (simp add: site_inv_def plan_ok_def)
    then obtain network pool a m where a: "ip_network (g_subnet g) = Some network" "ip_network (strip (si_G s)) = Some pool"
      "a \<in> set (hosts network)" "a \<noteq> net_addr pool + 1" "ip = ip_str a" "ip \<notin> set ?used" "msk = ip_str m"
      using allocate_Inr is_cidr_nonempty Inr x r(1) by metis
    have "file_ip (si_ccd s) n \<noteq> Some (ip_str a)" for n
    proof
      assume "file_ip (si_ccd s) n = Some (ip_str a)"
      then obtain c where "(n, c) \<in> set (si_ccd s)" "first_ifconfig_ip c = Some (ip_str a)"
        using map_of_SomeD by (fastforce simp: file_ip_def bind_eq_Some_conv)
      then have "(n, ip_str a) \<in> set (list_ccd_ips (w_ccd_fault w) (si_ccd s))"
        using assms(1) by (force simp: list_ccd_ips_def List.map_filter_def)
      then show False using a(5,6) by force
    qed
    then have "drawn s gid a" using a g by (auto simp: drawn_def placed_def)
    then show ?thesis using Inr x P r(2) a(5,7) by auto
  qed (use r(2) assms(2) [OF P] in simp)
qed

section \<open>Creating, deleting and moving users\<close>

lemma ccd_content_form: "ccd_form False a (ccd_content (ip_str a) (ip_str m))"
proof -
  have "ccd_content (ip_str a) (ip_str m) = unlines (head_lines False a m) @ []"
    by (simp add: ccd_content_def head_lines_def address_line_def)
  then show ?thesis unfolding ccd_form_def using rest_ok_Nil by metis
qed

lemma mkdir_leads: "(\<And>s. P s \<Longrightarrow> I s) \<Longrightarrow> leads I P (ccd_mkdir w) (\<lambda>_. P)"
  by (simp add: ccd_mkdir_def leads_ret leads_throw)

lemma created_user:
  assumes "site_inv s" "\<not> user_exists uname False (si_db s)" "clean uname" "get_group gid (si_db s) = Some g" "drawn s gid a"
    and r: "username r = uname" "group_id r = gid" "live r"
  shows "ready w r [(gid, 1)] (set_ccd (AList.update uname (ccd_content (ip_str a) (ip_str m)) (si_ccd s)) s)"
proof -
  let ?us = "db_users (si_db s)" and ?gs = "db_groups (si_db s)"
  have ok: "db_ok (si_db s)" "plan_ok (si_G s) ?gs" "counts_ok ?us ?gs" "addr_ok (si_G s) ?us ?gs (si_ccd s)"
    using assms(1) by (simp_all add: site_inv_def)
  have "addr_ok (si_G s) (tbl_upsert username r ?us) ?gs (AList.update (username r) (ccd_content (ip_str a) (ip_str m)) (si_ccd s))"
    by (rule addr_put [OF ok(4) users_tbl [OF ok(1)] ccd_content_form]) (use assms(5) r in \<open>auto simp: drawn_def\<close>)
  moreover have "counts_ok (tbl_upsert username r ?us) (delta (w_now w) (group_id r) 1 ?gs)"
  proof (rule counts_user_new [OF ok(3) users_tbl [OF ok(1)] r(3)])
    show "group_id r \<in> g_id ` set ?gs" using get_groupD [OF assms(4)] r by (auto simp: rev_image_eqI)
    show "case tbl_get username (username r) ?us of None \<Rightarrow> True | Some u \<Rightarrow> \<not> live u"
      using assms(2) r by (auto simp: user_exists_def list_ex_iff live_user_def split: option.split dest: tbl_get_SomeD)
  qed
  ultimately show ?thesis using ok assms(3) r by (simp add: ready_def owed_def)
qed

lemma user_create_safe:
  assumes "netaddr_ok (w_na w)" "\<forall>n. \<not> w_ccd_fault w n" "clean uname"
  shows "safe (user_create w issue uname gid password_on password)"
proof -
  let ?P = "\<lambda>g s :: 'a site. site_inv s \<and> \<not> user_exists uname False (si_db s) \<and> get_group gid (si_db s) = Some g"
  have check: "leads site_inv site_inv (check_new_user w uname gid password_on password) ?P"
  proof (rule leadsI)
    fix s t :: "'a site" and r assume inv: "site_inv s" and run: "check_new_user w uname gid password_on password s = Some (r, t)"
    have "t = s" using run
      by (auto simp: check_new_user_def andthen_Some_iff load_group_def throw_def ret_def allocate_virtual_ip_for_group_def of_res_def
          split: if_splits option.splits sum.splits)
    moreover have "?P g s" if "r = Inr g" for g using run inv that
      by (auto simp: check_new_user_def andthen_Some_iff load_group_def throw_def ret_def allocate_virtual_ip_for_group_def of_res_def
          split: if_splits option.splits sum.splits)
    ultimately show "case r of Inl e \<Rightarrow> site_inv t | Inr g \<Rightarrow> ?P g t" using inv by (cases r) simp_all
  qed
  have put: "leads site_inv (?P g) (write_ccd w uname g) (\<lambda>_. ready w (new_user w uname gid password_on material) [(gid, 1)])"
    (is "leads _ _ _ (\<lambda>_. ?R)") for g material
    unfolding write_ccd_def
  proof (rule leads_andthen [OF mkdir_leads leads_andthen [OF allocate_leads [OF assms(2), where gid = gid]]])
    fix x
    show "leads site_inv ((\<lambda>(ip, msk) s. ?P g s \<and> (\<exists>a m. drawn s gid a \<and> ip = ip_str a \<and> msk = ip_str m)) x)
        (case x of (ip, netmask) \<Rightarrow> on_sys (ccd_write w uname (ccd_content ip netmask))) (\<lambda>_. ?R)"
    proof -
      have "ready w (new_user w uname gid password_on material) [(gid, 1)]
          (set_ccd (AList.update uname (ccd_content (ip_str a) (ip_str m)) (si_ccd s)) s)"
        if "?P g s" "drawn s gid a" for s a m
        by (rule created_user [OF _ _ assms(3), where g = g]) (use that in \<open>simp_all add: new_user_def\<close>)
      then show ?thesis using assms(2) by (cases x) (auto simp: leads_def on_ccd_write)
    qed
  qed auto
  show ?thesis
    unfolding user_create_def
  proof (rule leads_andthen [OF check])
    fix g
    show "leads site_inv (?P g) (case issue of
        Inl e \<Rightarrow> andthen (log_audit ''create_user'' ''user'' uname ''failure'') (\<lambda>_. throw e)
      | Inr material \<Rightarrow>
          andthen (write_ccd w uname g) (\<lambda>_.
          andthen (on_sys (store_write (upsert_user (new_user w uname gid password_on material)))) (\<lambda>_.
          andthen (increment_group_user_count w gid 1) (\<lambda>_.
          andthen (log_audit ''create_user'' ''user'' uname ''success'') (\<lambda>_.
          andthen (on_sys (sync_all_mesh_push_routes_in_ccd w)) (\<lambda>_. ret (new_user w uname gid password_on material))))))) (\<lambda>_. site_inv)"
    proof (cases issue)
      case (Inl e)
      show ?thesis unfolding Inl sum.case
        by (rule leads_pre [OF safe_andthen [OF safe_quiet(3) safe_throw]]) blast
    next
      case (Inr material)
      have "leads site_inv (pending w [(gid, 1)]) (increment_group_user_count w gid 1) (\<lambda>_. site_inv)"
        by (rule leads_weaken [OF increment_leads [OF assms(1), of site_inv gid 1 "[]"]]) (auto simp: pending_Nil)
      note steps = leads_andthen [OF put leads_andthen [OF upsert_user_leads leads_andthen [OF this
        safe_andthen [OF safe_quiet(3) safe_andthen [OF mesh_sync_safe safe_ret]]]]]
      show ?thesis unfolding Inr sum.case by (rule steps)
    qed
  qed
qed

lemma unlink_leads:
  assumes "live u"
  shows "leads site_inv (\<lambda>s. get_user uname (si_db s) = Some u \<and> site_inv s) (unlink_ccd w uname)
    (\<lambda>_. ready w (u\<lparr>u_status := UDeleted, u_updated_at := now\<rparr>) [(group_id u, - 1)])"
proof (rule leadsI)
  fix s t :: "'a site" and r assume P: "get_user uname (si_db s) = Some u \<and> site_inv s" and run: "unlink_ccd w uname s = Some (r, t)"
  let ?us = "db_users (si_db s)" and ?gs = "db_groups (si_db s)" and ?r = "u\<lparr>u_status := UDeleted, u_updated_at := now\<rparr>"
  have ok: "db_ok (si_db s)" "plan_ok (si_G s) ?gs" "counts_ok ?us ?gs" "addr_ok (si_G s) ?us ?gs (si_ccd s)"
    using P by (simp_all add: site_inv_def)
  note u = get_userD [OF conjunct1 [OF P]]
  have "uname \<in> live_names s" using u assms by (auto simp: live_names_def)
  then have "ccd_exists uname s" using live_file P by (fastforce simp: ccd_exists_def)
  then consider e where "r = Inl e" "t = s" | "r = Inr ()" "t = set_ccd (AList.delete uname (si_ccd s)) s"
    using run by (auto simp: unlink_ccd_def throw_def ret_def set_ccd_def split: if_splits)
  then show "case r of Inl e \<Rightarrow> site_inv t | Inr x \<Rightarrow> ready w ?r [(group_id u, - 1)] t"
  proof cases
    case 2
    have "addr_ok (si_G s) (tbl_upsert username ?r ?us) ?gs (AList.delete uname (si_ccd s))"
    proof (rule addr_follow [OF ok(4), where L = "live_names s - {uname}"])
      show "follows (live_names s - {uname}) (si_ccd s) (AList.delete uname (si_ccd s))"
        by (auto simp: follows_def delete_conv' distinct_delete)
      show "\<forall>x\<in>set (tbl_upsert username ?r ?us). live x \<longrightarrow> username x \<in> live_names s - {uname} \<and>
          (\<exists>v\<in>set ?us. live v \<and> username v = username x \<and> group_id v = group_id x) \<and>
          (\<forall>a. placed (si_G s) ?gs a (group_id x) \<longrightarrow> placed (si_G s) ?gs a (group_id x))"
        unfolding set_tbl_upsert [OF users_tbl [OF ok(1)]] using u by (auto simp: live_names_def rev_image_eqI)
    qed (auto simp: live_names_def)
    moreover have "counts_ok (tbl_upsert username ?r ?us) (delta (w_now w) (group_id u) (- 1) ?gs)"
      by (rule counts_user_delete [OF ok(3) users_tbl [OF ok(1)]]) (use P u assms in \<open>auto simp: get_user_def\<close>)
    ultimately show ?thesis using 2 ok u user_names [OF ok(1), of u] by (simp add: ready_def owed_def)
  qed (use P in simp)
qed

lemma reset_binding_effect: "\<exists>t b. reset_binding n s = Some (Inr b, t) \<and> quiet s t"
proof -
  have "\<exists>b t. reset_binding n s = Some (Inr b, t)"
    by (auto simp: reset_binding_def find_binding_file_def unlink_binding_def andthen_def ret_def split: option.splits prod.splits)
  then show ?thesis using keepsD [OF binding_quiet(3)] by blast
qed

lemma user_delete_safe:
  assumes "netaddr_ok (w_na w)"
  shows "leads site_inv (\<lambda>s. site_inv s \<and> (\<forall>u. get_user uname (si_db s) = Some u \<longrightarrow> live u)) (user_delete w revoked uname) (\<lambda>_. site_inv)"
proof -
  let ?P = "\<lambda>u s :: 'a site. get_user uname (si_db s) = Some u \<and> live u \<and> site_inv s"
  let ?r = "\<lambda>u. u\<lparr>u_status := UDeleted, u_updated_at := w_now w\<rparr>"
  have load: "leads site_inv (\<lambda>s. site_inv s \<and> (\<forall>u. get_user uname (si_db s) = Some u \<longrightarrow> live u)) (load_user uname) ?P"
    by (rule leads_weaken [OF load_user_leads [where P = "\<lambda>s. site_inv s \<and> (\<forall>u. get_user uname (si_db s) = Some u \<longrightarrow> live u)"]]) auto
  have rev: "leads site_inv (?P u) (of_res revoked) (\<lambda>_. ?P u)" for u
    by (rule leads_quiet_same [OF of_res_quiet]) (auto simp: quiet_def get_user_def intro: quiet_inv [unfolded quiet_def])
  have unlink: "leads site_inv (?P u) (unlink_ccd w uname) (\<lambda>_. ready w (?r u) [(group_id u, - 1)])" for u
    by (cases "live u") (use unlink_leads [of u uname w "w_now w"] in \<open>auto simp: leads_def\<close>)
  have reset: "leads site_inv (ready w (?r u) ds) (reset_binding uname) (\<lambda>_. ready w (?r u) ds)" for u ds
  proof (rule leadsI)
    fix s t :: "'a site" and r assume a: "ready w (?r u) ds s" "reset_binding uname s = Some (r, t)"
    obtain t' b where "reset_binding uname s = Some (Inr b, t')" "quiet s t'" using reset_binding_effect by blast
    then have "r = Inr b" "quiet s t" using a(2) by auto
    then show "case r of Inl e \<Rightarrow> site_inv t | Inr x \<Rightarrow> ready w (?r u) ds t" using quiet_ready a(1) by auto
  qed
  have inc: "leads site_inv (pending w [(group_id u, - 1)]) (increment_group_user_count w (group_id u) (- 1)) (\<lambda>_. site_inv)" for u
    by (rule leads_weaken [OF increment_leads [OF assms, of site_inv "group_id u" "- 1" "[]"]]) (auto simp: pending_Nil)
  show ?thesis
    unfolding user_delete_def
    by (rule leads_andthen [OF load], rule leads_andthen [OF rev], rule leads_andthen [OF unlink], rule leads_andthen [OF reset],
        rule leads_andthen [OF upsert_user_leads], rule leads_andthen [OF inc], rule safe_andthen [OF safe_quiet(1)], rule safe_tail)
qed

lemma moved_user:
  assumes "site_inv s" "get_user uname (si_db s) = Some u" "live u" "get_group gid (si_db s) = Some g" "group_id u \<noteq> gid" "drawn s gid a"
    and "ccd_form dis a t" "r = u\<lparr>group_id := gid, u_updated_at := now\<rparr>"
  shows "ready w r [(group_id u, - 1), (gid, 1)] (set_ccd (AList.update uname t (si_ccd s)) s)"
proof -
  let ?us = "db_users (si_db s)" and ?gs = "db_groups (si_db s)"
  have ok: "db_ok (si_db s)" "plan_ok (si_G s) ?gs" "counts_ok ?us ?gs" "addr_ok (si_G s) ?us ?gs (si_ccd s)"
    using assms(1) by (simp_all add: site_inv_def)
  note u = get_userD [OF assms(2)]
  have r: "username r = uname" "group_id r = gid" "live r" using u assms(3) by (simp_all add: assms(8))
  have "addr_ok (si_G s) (tbl_upsert username r ?us) ?gs (AList.update (username r) t (si_ccd s))"
    by (rule addr_put [OF ok(4) users_tbl [OF ok(1)] assms(7)]) (use assms(6) r in \<open>auto simp: drawn_def\<close>)
  moreover have "counts_ok (tbl_upsert username r ?us) (delta (w_now w) (group_id r) 1 (delta (w_now w) (group_id u) (- 1) ?gs))"
    by (rule counts_user_move [OF ok(3) users_tbl [OF ok(1)] _ assms(3) r(3)])
      (use assms(2,5) r get_groupD [OF assms(4)] in \<open>auto simp: get_user_def rev_image_eqI\<close>)
  ultimately show ?thesis using ok r u user_names [OF ok(1), of u] by (simp add: ready_def owed_def)
qed

lemma read_old_leads:
  assumes "\<And>s. P s \<Longrightarrow> site_inv s \<and> n \<in> live_names s"
  shows "leads site_inv P (\<lambda>s. (if ccd_exists n s then on_sys (ccd_read w n) else ret []) s)
    (\<lambda>old s. P s \<and> (\<exists>dis a. ccd_form dis a old))"
proof (rule leadsI)
  fix s t :: "'a site" and r assume P: "P s" and run: "(if ccd_exists n s then on_sys (ccd_read w n) else ret []) s = Some (r, t)"
  obtain x dis a where x: "map_of (si_ccd s) n = Some x" "ccd_form dis a x" "read_text x = x" using live_file assms [OF P] by blast
  then have "on_sys (ccd_read w n) s = Some (r, t)" using run by (simp add: ccd_exists_def)
  from on_ccd_read [OF this] have t: "t = s" "\<And>y. r = Inr y \<Longrightarrow> y = x" using x by auto
  then show "case r of Inl e \<Rightarrow> site_inv t | Inr old \<Rightarrow> P t \<and> (\<exists>dis a. ccd_form dis a old)"
    using P assms [OF P] x(2) by (cases r) auto
qed

lemma move_user_leads:
  assumes "netaddr_ok (w_na w)" "\<forall>n. \<not> w_ccd_fault w n"
  shows "leads site_inv (\<lambda>s. site_inv s \<and> get_user uname (si_db s) = Some u \<and> live u \<and> get_group gid (si_db s) = Some g \<and>
      group_id u = old \<and> old \<noteq> gid) (move_user w u uname g old) (\<lambda>_. site_inv)"
    (is "leads _ ?P _ _")
proof -
  let ?r = "u\<lparr>group_id := g_id g, u_updated_at := w_now w\<rparr>" and ?ds = "[(old, - 1), (g_id g, 1)]"
  let ?Q = "\<lambda>x s. ?P s \<and> (\<exists>a m. drawn s gid a \<and> fst x = ip_str a \<and> snd x = ip_str m)"
  let ?S = "\<lambda>x body s. ?Q x s \<and> (\<exists>dis a. ccd_form dis a body)"
  have alloc: "leads site_inv ?P (allocate_virtual_ip_for_group w g) ?Q"
    by (rule leads_weaken [OF allocate_leads [OF assms(2), where gid = gid and P = ?P]]) (simp_all add: case_prod_unfold)
  have names: "?Q x s \<Longrightarrow> site_inv s \<and> uname \<in> live_names s" for x s by (auto simp: live_names_def dest!: get_userD intro: rev_image_eqI)
  have read: "leads site_inv (?Q x) (\<lambda>s. (if ccd_exists uname s then on_sys (ccd_read w uname) else ret []) s) (?S x)" for x
    by (rule read_old_leads) (rule names)
  have wr: "leads site_inv (?S x body) (on_sys (ccd_write w uname (snd (replace_ccd_ifconfig_push body (fst x) (snd x))))) (\<lambda>_. ready w ?r ?ds)"
    for x body
  proof (rule leadsI)
    fix s t :: "'a site" and r assume S: "?S x body s"
      and run: "on_sys (ccd_write w uname (snd (replace_ccd_ifconfig_push body (fst x) (snd x)))) s = Some (r, t)"
    obtain a m where am: "drawn s gid a" "fst x = ip_str a" "snd x = ip_str m" using S by blast
    obtain dis b where "ccd_form dis b body" using S by blast
    then have form: "ccd_form dis a (snd (replace_ccd_ifconfig_push body (ip_str a) (ip_str m)))" by (rule address_edit_form)
    have id: "g_id g = gid" "group_id u = old" "old \<noteq> gid" using S get_groupD by auto
    have "r = Inr ()" "t = set_ccd (AList.update uname (snd (replace_ccd_ifconfig_push body (ip_str a) (ip_str m))) (si_ccd s)) s"
      using run assms(2) am by (simp_all add: on_ccd_write)
    moreover have "ready w ?r ?ds (set_ccd (AList.update uname (snd (replace_ccd_ifconfig_push body (ip_str a) (ip_str m))) (si_ccd s)) s)"
      unfolding id(2) [symmetric] id(1) by (rule moved_user [where g = g, OF _ _ _ _ _ am(1) form refl]) (use S id in auto)
    ultimately show "case r of Inl e \<Rightarrow> site_inv t | Inr x \<Rightarrow> ready w ?r ?ds t" by simp
  qed
  have mkdir: "leads site_inv (?S x body) (ccd_mkdir w) (\<lambda>_. ?S x body)" for x body by (rule mkdir_leads) blast
  have inc1: "leads site_inv (pending w ?ds) (increment_group_user_count w old (- 1)) (\<lambda>_. pending w [(g_id g, 1)])"
    by (rule increment_leads [OF assms(1)])
  have inc2: "leads site_inv (pending w [(g_id g, 1)]) (increment_group_user_count w (g_id g) 1) (\<lambda>_. site_inv)"
    by (rule leads_weaken [OF increment_leads [OF assms(1), of site_inv "g_id g" 1 "[]"]]) (auto simp: pending_Nil)
  note rest = leads_andthen [OF upsert_user_leads leads_andthen [OF inc1 leads_andthen [OF inc2
    safe_andthen [OF mesh_sync_safe safe_andthen [OF safe_quiet(1) safe_andthen [OF safe_quiet(3) safe_ret]]]]]]
  show ?thesis
    unfolding move_user_def Let_def case_prod_beta
    by (rule leads_andthen [OF alloc], rule leads_andthen [OF read], rule leads_andthen [OF mkdir], rule leads_andthen [OF wr], rule rest)
qed

lemma change_group_safe:
  assumes "netaddr_ok (w_na w)" "\<forall>n. \<not> w_ccd_fault w n"
  shows "safe (change_group w uname new_gid)"
  unfolding change_group_def
proof (rule leads_andthen [OF load_user_leads [where P = site_inv]], assumption, intro leads_if)
  fix u :: user
  let ?P = "\<lambda>s :: 'a site. get_user uname (si_db s) = Some u \<and> site_inv s" and ?g = "strip new_gid" and ?old = "strip (group_id u)"
  show "leads site_inv ?P (throw (ValueError ''user deleted'')) (\<lambda>_. site_inv)" by (rule leads_throw) blast
  assume live: "u_status u \<noteq> UDeleted"
  let ?Q = "\<lambda>target s :: 'a site. get_group ?g (si_db s) = Some target \<and> ?P s"
  have load: "leads site_inv ?P (load_group ?g) ?Q" by (rule load_group_leads) blast
  have old: "group_id u = ?old" if "?P s" for s
  proof -
    have "group_id u \<in> g_id ` set (db_groups (si_db s))" "db_ok (si_db s)"
      using that live get_userD by (auto simp: site_inv_def counts_ok_def)
    then show ?thesis using group_ids by fastforce
  qed
  have same: "leads site_inv (?Q target) (andthen (read_ccd_virtual_ip w uname) (\<lambda>ip. ret (f ip))) (\<lambda>_. site_inv)"
    for target and f :: "string option \<Rightarrow> group_change"
  proof (rule leadsI)
    fix s t :: "'a site" and r assume "?Q target s" "andthen (read_ccd_virtual_ip w uname) (\<lambda>ip. ret (f ip)) s = Some (r, t)"
    moreover from this have "t = s"
      by (auto simp: read_ccd_virtual_ip_def andthen_Some_iff ret_def split: if_splits dest: on_ccd_read)
    ultimately show "case r of Inl e \<Rightarrow> site_inv t | Inr x \<Rightarrow> site_inv t" by (cases r) simp_all
  qed
  have move: "leads site_inv (?Q target) (handle (move_user w u uname target ?old) (\<lambda>e.
      andthen (log_audit ''change_user_group'' ''user'' uname ''failure'') (\<lambda>_. throw e))) (\<lambda>_. site_inv)" if "?old \<noteq> ?g" for target
  proof (rule leads_handle)
    show "leads site_inv (?Q target) (move_user w u uname target ?old) (\<lambda>_. site_inv)"
      by (rule leads_pre [OF move_user_leads [OF assms, where gid = ?g]]) (use old live that in blast)
  qed (intro safe_andthen safe_quiet safe_throw)
  show "leads site_inv ?P (andthen (load_group ?g) (\<lambda>target.
       if g_status target \<noteq> GActive then throw (ValueError ''group disabled'')
       else (let old_gid = ?old in
         if old_gid = ?g
         then andthen (read_ccd_virtual_ip w uname) (\<lambda>ip.
           ret \<lparr>gc_old_group = old_gid, gc_new_group = ?g, gc_old_ip = ip, gc_new_ip = ip, gc_changed = False\<rparr>)
         else handle (move_user w u uname target old_gid) (\<lambda>e.
           andthen (log_audit ''change_user_group'' ''user'' uname ''failure'') (\<lambda>_. throw e))))) (\<lambda>_. site_inv)"
    unfolding Let_def
  proof (rule leads_andthen [OF load], intro leads_if same move)
    fix target show "leads site_inv (?Q target) (throw (ValueError ''group disabled'')) (\<lambda>_. site_inv)" by (rule leads_throw) blast
  qed
qed (rule leads_throw, blast)

end
