(* ===== verification/Site_Run.thy ===== *)
theory Site_Run
  imports Site_Users Demo
begin

text \<open>
  The sites reachable by requests to the group and user services, which all satisfy \<open>site_inv\<close>, and
  a small reachable site for the witnesses.
\<close>

section \<open>Requests\<close>

datatype site_req =
    GroupCreate string string
  | GroupBulkCreate "(string \<times> string) list"
  | GroupSubnet bool string string
  | GroupDetails bool string string string
  | GroupDelete string
  | GroupBulkDelete "string list"
  | GroupStatus group_status string
  | GroupBulkStatus group_status "string list"
  | UserCreate "(string option \<times> string) res" string string bool string
  | UserDelete "unit res" string
  | UserToggle string
  | UserMove string string
  | UserSerial string string
  | UserOvpn "string res" string

abbreviation done_with :: "('s, 'a) stact \<Rightarrow> ('s, unit) stact" where
  "done_with m \<equiv> andthen m (\<lambda>_. ret ())"

fun site_act :: "'k world \<Rightarrow> site_req \<Rightarrow> ('k site, unit) stact" where
  "site_act w (GroupCreate nm subnet) = done_with (group_create w 0 nm subnet)"
| "site_act w (GroupBulkCreate items) = done_with (group_bulk_create w 0 items)"
| "site_act w (GroupSubnet save_ok gid subnet) = done_with (group_update_subnet w save_ok gid subnet)"
| "site_act w (GroupDetails save_ok gid nm subnet) = done_with (group_update_details w save_ok gid nm subnet)"
| "site_act w (GroupDelete gid) = done_with (group_delete w gid)"
| "site_act w (GroupBulkDelete gids) = done_with (group_bulk_delete w gids)"
| "site_act w (GroupStatus status gid) = done_with (group_set_status w gid status)"
| "site_act w (GroupBulkStatus status gids) = done_with (group_bulk_status w status gids)"
| "site_act w (UserCreate issue uname gid password_on password) = done_with (user_create w issue uname gid password_on password)"
| "site_act w (UserDelete revoked uname) = done_with (user_delete w revoked uname)"
| "site_act w (UserToggle uname) = done_with (toggle_status w uname)"
| "site_act w (UserMove uname gid) = done_with (change_group w uname gid)"
| "site_act w (UserSerial uname serial) = done_with (update_cert_serial w uname serial)"
| "site_act w (UserOvpn written uname) = done_with (regenerate_ovpn w written uname)"

text \<open>
  What a request relies on: identifiers drawn for groups are new, a user name has no surrounding
  blanks, the user to delete is not deleted already, and a client file that is there can be read
  when an address is drawn.
\<close>

definition uuids_fresh :: "'k world \<Rightarrow> 'k site \<Rightarrow> bool" where
  "uuids_fresh w s \<longleftrightarrow> inj (\<lambda>k. strip (w_uuid w k)) \<and> fresh_from w 0 s"

fun req_fits :: "'k world \<Rightarrow> site_req \<Rightarrow> 'k site \<Rightarrow> bool" where
  "req_fits w (GroupCreate nm subnet) s \<longleftrightarrow> uuids_fresh w s"
| "req_fits w (GroupBulkCreate items) s \<longleftrightarrow> uuids_fresh w s"
| "req_fits w (UserCreate issue uname gid password_on password) s \<longleftrightarrow> clean uname \<and> (\<forall>n. \<not> w_ccd_fault w n)"
| "req_fits w (UserMove uname gid) s \<longleftrightarrow> (\<forall>n. \<not> w_ccd_fault w n)"
| "req_fits w (UserDelete revoked uname) s \<longleftrightarrow> (\<forall>u. get_user uname (si_db s) = Some u \<longrightarrow> live u)"
| "req_fits w _ s \<longleftrightarrow> True"

text \<open>A site starts without users, groups and client files.  \<open>others\<close> stands for the other
  services: they leave the users, the groups, the pool and the files of the clients alone.\<close>

inductive site_reachable :: "'k site \<Rightarrow> bool" where
  boot: "db_ok (si_db s) \<Longrightarrow> db_users (si_db s) = [] \<Longrightarrow> db_groups (si_db s) = [] \<Longrightarrow> si_ccd s = [] \<Longrightarrow>
    si_G s = [] \<or> is_cidr (si_G s) \<Longrightarrow> site_reachable s"
| request: "site_reachable s \<Longrightarrow> netaddr_ok (w_na w) \<Longrightarrow> req_fits w req s \<Longrightarrow> site_act w req s = Some (r, t) \<Longrightarrow> site_reachable t"
| others: "site_reachable s \<Longrightarrow> quiet s t \<Longrightarrow> site_reachable t"

lemma safe_done: "leads site_inv P m (\<lambda>_. site_inv) \<Longrightarrow> leads site_inv P (done_with m) (\<lambda>_. site_inv)"
  by (rule leads_andthen) (auto intro: leads_ret)

lemma create_done: "leads (\<lambda>s. site_inv s \<and> F s) P m (\<lambda>_ s. site_inv s \<and> F s) \<Longrightarrow> leads site_inv P m (\<lambda>_. site_inv)"
  by (erule leads_weaken) auto

lemma site_act_leads:
  assumes "netaddr_ok (w_na w)"
  shows "leads site_inv (\<lambda>s. site_inv s \<and> req_fits w req s) (site_act w req) (\<lambda>_. site_inv)"
proof (cases req)
  case (GroupCreate nm subnet)
  show ?thesis
  proof (cases "inj (\<lambda>k. strip (w_uuid w k))")
    case True
    show ?thesis unfolding GroupCreate site_act.simps
      by (rule leads_pre [OF safe_done [OF create_done [OF group_create_leads [OF assms True]]]])
        (simp add: uuids_fresh_def)
  qed (simp add: leads_def GroupCreate uuids_fresh_def)
next
  case (GroupBulkCreate items)
  show ?thesis
  proof (cases "inj (\<lambda>k. strip (w_uuid w k))")
    case True
    show ?thesis unfolding GroupBulkCreate site_act.simps
      by (rule leads_pre [OF safe_done [OF group_bulk_create_leads [OF assms True]]]) (simp add: uuids_fresh_def)
  qed (simp add: leads_def GroupBulkCreate uuids_fresh_def)
next
  case (UserCreate issue uname gid password_on password)
  show ?thesis
  proof (cases "clean uname \<and> (\<forall>n. \<not> w_ccd_fault w n)")
    case True
    then have c: "clean uname" "\<forall>n. \<not> w_ccd_fault w n" by blast+
    show ?thesis unfolding UserCreate site_act.simps
      by (rule leads_pre [OF safe_done [OF user_create_safe [OF assms c(2,1)]]]) simp
  qed (auto simp: leads_def UserCreate)
next
  case (UserMove uname gid)
  show ?thesis
  proof (cases "\<forall>n. \<not> w_ccd_fault w n")
    case True
    show ?thesis unfolding UserMove site_act.simps
      by (rule leads_pre [OF safe_done [OF change_group_safe [OF assms True]]]) simp
  qed (auto simp: leads_def UserMove)
next
  case (UserDelete revoked uname)
  show ?thesis unfolding UserDelete site_act.simps req_fits.simps by (rule safe_done [OF user_delete_safe [OF assms]])
next
  case (GroupSubnet save_ok gid subnet)
  show ?thesis unfolding GroupSubnet site_act.simps
    by (rule leads_pre [OF safe_done [OF group_update_subnet_safe [OF assms]]]) simp
next
  case (GroupDetails save_ok gid nm subnet)
  show ?thesis unfolding GroupDetails site_act.simps
    by (rule leads_pre [OF safe_done [OF group_update_details_safe [OF assms]]]) simp
next
  case (GroupDelete gid)
  show ?thesis unfolding GroupDelete site_act.simps by (rule leads_pre [OF safe_done [OF group_delete_safe]]) simp
next
  case (GroupBulkDelete gids)
  show ?thesis unfolding GroupBulkDelete site_act.simps by (rule leads_pre [OF safe_done [OF group_bulk_safe(1)]]) simp
next
  case (GroupStatus status gid)
  show ?thesis unfolding GroupStatus site_act.simps
    by (rule leads_pre [OF safe_done [OF group_set_status_safe [OF assms]]]) simp
next
  case (GroupBulkStatus status gids)
  show ?thesis unfolding GroupBulkStatus site_act.simps
    by (rule leads_pre [OF safe_done [OF group_bulk_safe(2) [OF assms]]]) simp
next
  case (UserToggle uname)
  show ?thesis unfolding UserToggle site_act.simps by (rule leads_pre [OF safe_done [OF toggle_status_safe]]) simp
next
  case (UserSerial uname serial)
  show ?thesis unfolding UserSerial site_act.simps by (rule leads_pre [OF safe_done [OF update_cert_serial_safe]]) simp
next
  case (UserOvpn written uname)
  show ?thesis unfolding UserOvpn site_act.simps by (rule leads_pre [OF safe_done [OF regenerate_ovpn_safe]]) simp
qed

lemma reachable_inv: "site_reachable s \<Longrightarrow> site_inv s"
proof (induction rule: site_reachable.induct)
  case (boot s)
  then show ?case by (simp add: site_inv_def plan_ok_def counts_ok_def addr_ok_def file_ip_def)
next
  case (request s w req r t)
  then have "case r of Inl e \<Rightarrow> site_inv t | Inr x \<Rightarrow> site_inv t"
    using leadsD [OF site_act_leads [OF request.hyps(2)], where req1 = req] by blast
  then show ?case by (cases r) simp_all
qed (rule quiet_inv)

section \<open>A site with two groups and a user\<close>

definition demo_world_of :: "char \<Rightarrow> ref_kernel world" where
  "demo_world_of c = (demo_world False)\<lparr>w_uuid := (\<lambda>k. c # replicate k CHR ''x'')\<rparr>"

definition demo_boot :: "ref_kernel site" where
  "demo_boot = \<lparr>si_sys = \<lparr>s_db = sample_db, s_mgr = demo_kernel, s_prepush = [], s_ccd = [], s_audit = []\<rparr>,
     si_global = Some ''10.8.0.0/24'', si_instances = [(''server'', Some ''10.8.0.0/24'')], si_bindings = []\<rparr>"

fun demo_fits :: "char \<Rightarrow> site_req \<Rightarrow> ref_kernel site \<Rightarrow> bool" where
  "demo_fits c (GroupCreate nm subnet) s \<longleftrightarrow> \<not> py_space c \<and> list_all (\<lambda>g. hd (g_id g) \<noteq> c) (db_groups (si_db s))"
| "demo_fits c (GroupBulkCreate items) s \<longleftrightarrow> \<not> py_space c \<and> list_all (\<lambda>g. hd (g_id g) \<noteq> c) (db_groups (si_db s))"
| "demo_fits c (UserCreate issue uname gid password_on password) s \<longleftrightarrow> clean uname"
| "demo_fits c (UserDelete revoked uname) s \<longleftrightarrow> (case get_user uname (si_db s) of None \<Rightarrow> True | Some u \<Rightarrow> live u)"
| "demo_fits c _ s \<longleftrightarrow> True"

fun run_requests :: "(char \<times> site_req) list \<Rightarrow> ref_kernel site \<Rightarrow> ref_kernel site option" where
  "run_requests [] s = Some s"
| "run_requests ((c, req) # reqs) s = (if \<not> demo_fits c req s then None else (case site_act (demo_world_of c) req s of
     None \<Rightarrow> None | Some (_, t) \<Rightarrow> run_requests reqs t))"

lemma demo_fresh:
  assumes "\<not> py_space c" "list_all (\<lambda>g. hd (g_id g) \<noteq> c) (db_groups (si_db s))"
  shows "uuids_fresh (demo_world_of c) s"
proof -
  have i: "w_uuid (demo_world_of c) k = c # replicate k CHR ''x''" for k by (simp add: demo_world_of_def)
  have st: "strip (w_uuid (demo_world_of c) k) = w_uuid (demo_world_of c) k" for k
    unfolding i by (rule strip_eqI) (use assms(1) in \<open>auto simp: py_space_def last_replicate\<close>)
  have "inj (\<lambda>k. c # replicate k CHR ''x'')" by (rule injI) (simp add: replicate_eq_replicate)
  moreover have "c # replicate k CHR ''x'' \<notin> g_id ` set (db_groups (si_db s))" for k
    using assms(2) by (auto simp: list_all_iff image_iff) (metis list.sel(1))
  ultimately show ?thesis unfolding uuids_fresh_def fresh_from_def st unfolding i by blast
qed

lemma demo_fits_req: "demo_fits c req s \<Longrightarrow> req_fits (demo_world_of c) req s"
proof (cases req)
  case (UserMove uname gid)
  then show ?thesis by (simp add: demo_world_of_def demo_world_def)
next
  case (UserCreate issue uname gid password_on password)
  then show "demo_fits c req s \<Longrightarrow> ?thesis" by (simp add: demo_world_of_def demo_world_def)
qed (auto simp: demo_fresh split: option.splits)

lemma run_reachable: "site_reachable s \<Longrightarrow> run_requests reqs s = Some t \<Longrightarrow> site_reachable t"
proof (induction reqs s arbitrary: t rule: run_requests.induct)
  case (2 c req reqs s)
  then obtain r u where u: "demo_fits c req s" "site_act (demo_world_of c) req s = Some (r, u)" "run_requests reqs u = Some t"
    by (auto split: option.splits prod.splits if_splits)
  have "site_reachable u"
    by (rule site_reachable.request [OF 2(2) _ demo_fits_req [OF u(1)] u(2)]) (simp add: demo_world_of_def demo_world_def netaddr_ref_ok)
  then show ?case using 2(1) u by auto
qed simp

definition demo_requests :: "(char \<times> site_req) list" where
  "demo_requests = [(CHR ''g'', GroupCreate ''root'' ''10.8.0.0/24''), (CHR ''h'', GroupCreate ''staff'' ''10.8.0.16/28''),
     (CHR ''u'', UserCreate (Inr (Some ''01'', ''/ovpn/alice'')) ''alice'' ''h'' False []),
     (CHR ''u'', UserCreate (Inr (Some ''02'', ''/ovpn/bob'')) ''bob'' ''h'' False [])]"

definition demo_site :: "ref_kernel site" where
  "demo_site = (case run_requests demo_requests demo_boot of Some t \<Rightarrow> t | None \<Rightarrow> demo_boot)"

lemma demo_boot_reachable: "site_reachable demo_boot"
proof (rule site_reachable.boot)
  show "db_ok (si_db demo_boot)" using db_reachable_ok [OF sample_db_reachable] by (simp add: demo_boot_def)
  show "db_users (si_db demo_boot) = []" "db_groups (si_db demo_boot) = []" by code_simp+
  have "net_ok \<lparr>net_addr = 168296448, net_plen = 24\<rparr>" "''10.8.0.0/24'' = net_str \<lparr>net_addr = 168296448, net_plen = 24\<rparr>" by code_simp+
  then show "si_G demo_boot = [] \<or> is_cidr (si_G demo_boot)" unfolding is_cidr_def demo_boot_def by auto
qed (simp add: demo_boot_def)

text \<open>What the demonstration site holds.\<close>

definition demo_rows :: "ref_kernel site \<Rightarrow> bool" where
  "demo_rows s \<longleftrightarrow>
     map (\<lambda>u. (username u, u_status u, group_id u)) (db_users (si_db s)) = [(''alice'', UActive, ''h''), (''bob'', UActive, ''h'')] \<and>
     map (\<lambda>g. (g_id g, g_subnet g, user_count g)) (db_groups (si_db s)) = [(''g'', ''10.8.0.0/24'', 0), (''h'', ''10.8.0.16/28'', 2)] \<and>
     map (\<lambda>(n, t). (n, first_ifconfig_ip t)) (si_ccd s) = [(''alice'', Some ''10.8.0.17''), (''bob'', Some ''10.8.0.18'')] \<and>
     si_global s = Some ''10.8.0.0/24''"

lemma demo_run: "case run_requests demo_requests demo_boot of Some s \<Rightarrow> demo_rows s | None \<Rightarrow> False"
  by code_simp

lemma demo_site_reachable: "site_reachable demo_site"
proof -
  have "run_requests demo_requests demo_boot = Some demo_site" using demo_run by (auto simp: demo_site_def split: option.splits)
  then show ?thesis by (rule run_reachable [OF demo_boot_reachable])
qed

lemma demo_site_rows: "demo_rows demo_site"
  using demo_run by (auto simp: demo_site_def split: option.splits)

lemma demo_users:
  obtains u v where "db_users (si_db demo_site) = [u, v]" "username u = ''alice''" "username v = ''bob''" "live u" "live v"
    "group_id u = ''h''" "group_id v = ''h''"
  using demo_site_rows by (auto simp: demo_rows_def map_eq_Cons_conv)

lemma demo_groups:
  obtains g h where "db_groups (si_db demo_site) = [g, h]" "g_id g = ''g''" "g_id h = ''h''" "g_subnet g = ''10.8.0.0/24''"
    "g_subnet h = ''10.8.0.16/28''" "user_count h = 2"
  using demo_site_rows by (auto simp: demo_rows_def map_eq_Cons_conv)

end
