(* ===== verification/Site_Props.thy ===== *)
theory Site_Props
  imports Site_Run
begin

text \<open>
  The properties of the group and user services: fixed addresses are distinct and lie in the
  group's subnet, the subnets of the groups are apart but for groups with the whole pool, the counters of the groups are exact in every
  reachable site; what allocation, the deletion of a group and the device bindings do exactly.
\<close>

section \<open>The reachable sites\<close>

text \<open>C20. Fixed addresses.  In every reachable site the client file of a user that is not deleted fixes
  an address which is a host address of the subnet of the user's group, is not the address of the
  tunnel server, and is fixed by no other client file.\<close>

theorem live_addresses_distinct:
  assumes "site_reachable s" "u \<in> set (db_users (si_db s))" "u_status u \<noteq> UDeleted"
  shows "\<exists>a g n pool. file_ip (s_ccd (si_sys s)) (username u) = Some (ip_str a) \<and>
    get_group (group_id u) (si_db s) = Some g \<and> ip_network (g_subnet g) = Some n \<and> a \<in> set (hosts n) \<and>
    ip_network (strip (opt_str (si_global s))) = Some pool \<and> a \<noteq> net_addr pool + 1 \<and>
    (\<forall>m. m \<noteq> username u \<longrightarrow> file_ip (s_ccd (si_sys s)) m \<noteq> Some (ip_str a))"
proof -
  have inv: "addr_ok (si_G s) (db_users (si_db s)) (db_groups (si_db s)) (si_ccd s)" "db_ok (si_db s)"
    using reachable_inv [OF assms(1)] by (simp_all add: site_inv_def)
  obtain t dis a where a: "map_of (si_ccd s) (username u) = Some t" "ccd_form dis a t"
    "placed (si_G s) (db_groups (si_db s)) a (group_id u)" using inv(1) assms(2,3) unfolding addr_ok_def by blast
  have ip: "file_ip (si_ccd s) (username u) = Some (ip_str a)" using a(1) ccd_form_state [OF a(2)] by (simp add: file_ip_def)
  have other: "file_ip (si_ccd s) m \<noteq> Some (ip_str a)" if "m \<noteq> username u" for m
    using inv(1) ip that unfolding addr_ok_def by (metis option.distinct(1))
  obtain g n pool where g: "g \<in> set (db_groups (si_db s))" "g_id g = group_id u" "ip_network (g_subnet g) = Some n" "a \<in> set (hosts n)"
    "ip_network (strip (si_G s)) = Some pool" "a \<noteq> net_addr pool + 1" using a(3) unfolding placed_def by blast
  have "get_group (group_id u) (si_db s) = Some g"
    using tbl_get_iff [OF groups_tbl [OF inv(2)]] g(1,2) by (simp add: get_group_def)
  then show ?thesis using ip g other by blast
qed

lemma live_addresses_distinct_witness:
  "\<exists>a b. file_ip (s_ccd (si_sys demo_site)) ''alice'' = Some (ip_str a) \<and> file_ip (s_ccd (si_sys demo_site)) ''bob'' = Some (ip_str b) \<and> a \<noteq> b"
proof -
  obtain u v where u: "db_users (si_db demo_site) = [u, v]" "username u = ''alice''" "username v = ''bob''" "live u" "live v"
    using demo_users by blast
  obtain a where a: "file_ip (si_ccd demo_site) ''alice'' = Some (ip_str a)"
    "\<forall>m. m \<noteq> ''alice'' \<longrightarrow> file_ip (si_ccd demo_site) m \<noteq> Some (ip_str a)"
    using live_addresses_distinct [OF demo_site_reachable _ u(4)] u(1,2) by auto
  obtain b where b: "file_ip (si_ccd demo_site) ''bob'' = Some (ip_str b)"
    using live_addresses_distinct [OF demo_site_reachable _ u(5)] u(1,3) by auto
  have "file_ip (si_ccd demo_site) ''bob'' \<noteq> Some (ip_str a)" using a(2) by simp
  then have "a \<noteq> b" using b by auto
  then show ?thesis using a(1) b by blast
qed

text \<open>C21. The address plan.  In every reachable site the subnets of two different groups are IPv4 networks that share
  no address, unless one of the two is the whole global pool; when a pool is set both lie within it.  The exception is as
  wide as the code's: any group, not only the root, may be given the pool itself (\<open>whole_pool_accepted\<close>).\<close>

theorem group_subnets_disjoint:
  assumes "site_reachable s" "g \<in> set (db_groups (si_db s))" "h \<in> set (db_groups (si_db s))" "g_id g \<noteq> g_id h"
  shows "\<exists>n m. ip_network (g_subnet g) = Some n \<and> ip_network (g_subnet h) = Some m \<and>
    (net_set n \<inter> net_set m = {} \<or> g_subnet g = opt_str (si_global s) \<or> g_subnet h = opt_str (si_global s)) \<and>
    (opt_str (si_global s) \<noteq> [] \<longrightarrow> (\<exists>pool. ip_network (opt_str (si_global s)) = Some pool \<and> net_set n \<union> net_set m \<subseteq> net_set pool))"
proof -
  let ?gs = "db_groups (si_db s)"
  have p: "plan_ok (si_G s) ?gs" using reachable_inv [OF assms(1)] by (simp add: site_inv_def)
  have c: "is_cidr (g_subnet g)" "is_cidr (g_subnet h)" using p assms(2,3) by (auto simp: plan_ok_def)
  obtain n m where n: "ip_network (g_subnet g) = Some n" "addrs (g_subnet g) = net_set n"
    "ip_network (g_subnet h) = Some m" "addrs (g_subnet h) = net_set m" using is_cidr_net [OF c(1)] is_cidr_net [OF c(2)] by blast
  have "1 < length ?gs" using assms(2-4) by (cases ?gs; cases "tl ?gs") auto
  then have "\<exists>pool. ip_network (si_G s) = Some pool \<and> net_set n \<union> net_set m \<subseteq> net_set pool" if "si_G s \<noteq> []"
    using that p assms(2,3) n is_cidr_net [of "si_G s"] unfolding plan_ok_def by (metis Un_least)
  moreover have "net_set n \<inter> net_set m = {} \<or> g_subnet g = opt_str (si_global s) \<or> g_subnet h = opt_str (si_global s)"
    using p assms(2-4) n unfolding plan_ok_def by metis
  ultimately show ?thesis using n by blast
qed

text \<open>With the pool \<open>10.8.0.0/24\<close>, a second group with the same subnet is accepted, and so is a third within it: the groups below the
  root share addresses.\<close>

lemma whole_pool_accepted:
  "case run_requests [(CHR ''g'', GroupCreate ''root'' ''10.8.0.0/24''), (CHR ''h'', GroupCreate ''staff'' ''10.8.0.0/24''),
       (CHR ''k'', GroupCreate ''labs'' ''10.8.0.16/28'')] demo_boot of None \<Rightarrow> False
   | Some s \<Rightarrow> map (\<lambda>g. (g_id g, g_subnet g)) (db_groups (si_db s)) =
       [(''g'', ''10.8.0.0/24''), (''h'', ''10.8.0.0/24''), (''k'', ''10.8.0.16/28'')] \<and> si_global s = Some ''10.8.0.0/24''"
  by code_simp

text \<open>A site with two groups below the root.\<close>

definition demo_nets :: "ref_kernel site" where
  "demo_nets = (case run_requests [(CHR ''g'', GroupCreate ''root'' ''10.8.0.0/24''), (CHR ''h'', GroupCreate ''staff'' ''10.8.0.16/28''),
     (CHR ''k'', GroupCreate ''labs'' ''10.8.0.37/28'')] demo_boot of Some t \<Rightarrow> t | None \<Rightarrow> demo_boot)"

lemma group_subnets_disjoint_witness:
  "\<exists>g h. g \<in> set (db_groups (si_db demo_nets)) \<and> h \<in> set (db_groups (si_db demo_nets)) \<and> g_subnet g = ''10.8.0.16/28'' \<and> g_subnet h = ''10.8.0.32/28'' \<and>
     (\<exists>n m. ip_network ''10.8.0.16/28'' = Some n \<and> ip_network ''10.8.0.32/28'' = Some m \<and> net_set n \<inter> net_set m = {})"
proof -
  let ?reqs = "[(CHR ''g'', GroupCreate ''root'' ''10.8.0.0/24''), (CHR ''h'', GroupCreate ''staff'' ''10.8.0.16/28''),
     (CHR ''k'', GroupCreate ''labs'' ''10.8.0.37/28'')]"
  have run: "case run_requests ?reqs demo_boot of Some s \<Rightarrow> map (\<lambda>g. (g_id g, g_subnet g)) (db_groups (si_db s)) =
      [(''g'', ''10.8.0.0/24''), (''h'', ''10.8.0.16/28''), (''k'', ''10.8.0.32/28'')] \<and> si_global s = Some ''10.8.0.0/24'' | None \<Rightarrow> False"
    by code_simp
  then have r: "site_reachable demo_nets" "map (\<lambda>g. (g_id g, g_subnet g)) (db_groups (si_db demo_nets)) =
      [(''g'', ''10.8.0.0/24''), (''h'', ''10.8.0.16/28''), (''k'', ''10.8.0.32/28'')]" "si_global demo_nets = Some ''10.8.0.0/24''"
    using run_reachable [OF demo_boot_reachable, of ?reqs] by (auto simp: demo_nets_def split: option.splits)
  obtain x g h where g: "db_groups (si_db demo_nets) = [x, g, h]" "g_id g = ''h''" "g_subnet g = ''10.8.0.16/28''" "g_id h = ''k''" "g_subnet h = ''10.8.0.32/28''"
    using r(2) by (auto simp: map_eq_Cons_conv)
  show ?thesis
    using group_subnets_disjoint [OF r(1), of g h] r(3) g by (auto simp: opt_str_simps)
qed

text \<open>The counters of the groups.  In every reachable site the counter of a group is the number of its users
  that are not deleted, and the group of each such user exists.\<close>

theorem user_counts_exact:
  assumes "site_reachable s"
  shows "(\<forall>g\<in>set (db_groups (si_db s)). user_count g = int (card {u \<in> set (db_users (si_db s)). u_status u \<noteq> UDeleted \<and> group_id u = g_id g})) \<and>
    (\<forall>u\<in>set (db_users (si_db s)). u_status u \<noteq> UDeleted \<longrightarrow> (\<exists>g. get_group (group_id u) (si_db s) = Some g))"
proof -
  have inv: "counts_ok (db_users (si_db s)) (db_groups (si_db s))" "db_ok (si_db s)"
    using reachable_inv [OF assms] by (simp_all add: site_inv_def)
  have "distinct (db_users (si_db s))" using users_tbl [OF inv(2)] by (auto simp: tbl_ok_def distinct_map)
  then have "cnt (db_users (si_db s)) gid = int (card {u \<in> set (db_users (si_db s)). live u \<and> group_id u = gid})" for gid
    using distinct_card [OF distinct_filter, of "db_users (si_db s)" "\<lambda>u. live u \<and> group_id u = gid"] by (simp add: cnt_def)
  moreover have "\<exists>g. get_group (group_id u) (si_db s) = Some g" if "u \<in> set (db_users (si_db s))" "live u" for u
  proof -
    have "group_id u \<in> g_id ` set (db_groups (si_db s))" using inv(1) that by (auto simp: counts_ok_def)
    then show ?thesis using tbl_get_None_iff [of g_id "group_id u" "db_groups (si_db s)"] by (auto simp: get_group_def)
  qed
  ultimately show ?thesis using inv(1) by (auto simp: counts_ok_def)
qed

lemma user_counts_exact_witness:
  "card {u \<in> set (db_users (si_db demo_site)). u_status u \<noteq> UDeleted \<and> group_id u = ''h''} = 2"
proof -
  obtain g h where g: "db_groups (si_db demo_site) = [g, h]" "g_id h = ''h''" "user_count h = 2" using demo_groups by blast
  then show ?thesis using conjunct1 [OF user_counts_exact [OF demo_site_reachable]] by simp
qed

section \<open>Drawing an address\<close>

lemma sorted_hosts: "sorted (hosts n)"
  by (simp add: hosts_def)

lemma find_least:
  assumes "sorted xs" "distinct xs"
  shows "case find P xs of Some a \<Rightarrow> a \<in> set xs \<and> P a \<and> (\<forall>b\<in>set xs. b < a \<longrightarrow> \<not> P b) | None \<Rightarrow> \<forall>b\<in>set xs. \<not> P b"
  using assms by (induction xs) (fastforce split: option.splits)+

lemma ip_network_Nil: "ip_network [] = None"
  by code_simp

text \<open>C22. Drawing an address.  When the group's subnet lies within the pool, the drawn address is the lowest
  host address of the subnet that is neither the server's nor in use, the netmask is the pool's, and
  drawing fails only when no such address is left.\<close>

theorem allocation_exact:
  assumes "ip_network sub = Some n" "ip_network (strip global) = Some pool" "net_set n \<subseteq> net_set pool" "net_addr pool + 1 < 2 ^ 32"
  shows "case allocate_virtual_ip global used sub of
      Inr (ip, netmask) \<Rightarrow> netmask = netmask_str pool \<and>
        (\<exists>a\<in>set (hosts n). ip = ip_str a \<and> ip \<notin> set used \<and> a \<noteq> net_addr pool + 1 \<and>
           (\<forall>b\<in>set (hosts n). b < a \<longrightarrow> b = net_addr pool + 1 \<or> ip_str b \<in> set used))
    | Inl e \<Rightarrow> e = ValueError ''no address left'' \<and> (\<forall>b\<in>set (hosts n). b = net_addr pool + 1 \<or> ip_str b \<in> set used)"
proof -
  let ?P = "\<lambda>h. h \<noteq> net_addr pool + 1 \<and> ip_str h \<notin> set used"
  have ne: "sub \<noteq> []" "strip global \<noteq> []" using assms(1,2) by (auto simp: ip_network_Nil)
  have m: "ifconfig_push_netmask global n = netmask_str pool" using ne assms(2) by (simp add: ifconfig_push_netmask_def)
  have e: "allocate_virtual_ip global used sub = (case find ?P (hosts n) of
      Some h \<Rightarrow> Inr (ip_str h, netmask_str pool) | None \<Rightarrow> Inl (ValueError ''no address left''))"
    using assms(4) ne
    unfolding allocate_virtual_ip_def v4_network_def v4_address_def m [symmetric] by (simp add: assms(1,2) assms(3) [folded subnet_of_iff])
  show ?thesis
    unfolding e using find_least [where P = ?P, OF sorted_hosts distinct_hosts, of n] by (cases "find ?P (hosts n)") auto
qed

lemma allocation_exact_witness:
  "netmask_str \<lparr>net_addr = 168296448, net_plen = 24\<rparr> = ''255.255.255.0'' \<and>
   allocate_virtual_ip '' 10.8.0.0/24'' [''10.8.0.2''] ''10.8.0.0/29'' = Inr (''10.8.0.3'', ''255.255.255.0'') \<and>
   ip_str 168296451 = ''10.8.0.3'' \<and> ''10.8.0.3'' \<notin> set [''10.8.0.2'']"
proof -
  let ?n = "\<lparr>net_addr = 168296448, net_plen = 29\<rparr>" and ?p = "\<lparr>net_addr = 168296448, net_plen = 24\<rparr>"
  have f: "ip_network ''10.8.0.0/29'' = Some ?n" "ip_network (strip '' 10.8.0.0/24'') = Some ?p" "subnet_of ?n ?p"
    "net_addr ?p + 1 < 2 ^ 32" by code_simp+
  have a: "allocate_virtual_ip '' 10.8.0.0/24'' [''10.8.0.2''] ''10.8.0.0/29'' = Inr (''10.8.0.3'', ''255.255.255.0'')" "ip_str 168296451 = ''10.8.0.3''"
    by code_simp+
  show ?thesis using allocation_exact [OF f(1,2) f(3) [unfolded subnet_of_iff] f(4), of "[''10.8.0.2'']"] a by auto
qed

section \<open>Deleting a group\<close>

lemma group_delete_guards:
  assumes "group_delete w gid s = Some (Inr b, t)"
  shows "\<exists>g. get_group gid (si_db s) = Some g \<and> \<not> 0 < user_count g \<and> linked_rules gid (si_db s) = [] \<and> \<not> is_root_group gid (si_db s)"
proof -
  obtain g where g: "get_group gid (si_db s) = Some g"
    using assms by (cases "get_group gid (si_db s)") (auto simp: group_delete_def load_group_def andthen_def throw_def)
  then have "\<not> 0 < user_count g \<and> linked_rules gid (si_db s) = [] \<and> \<not> is_root_group gid (si_db s)"
    using assms unfolding group_delete_def load_group_def andthen_def [of "\<lambda>s. _ s"] by (auto simp: throw_def ret_def andthen_def split: if_splits)
  then show ?thesis using g by blast
qed

lemma group_delete_db:
  assumes "group_delete w gid s = Some (Inr b, t)"
  shows "si_db t = delete_group gid (si_db s)"
proof -
  let ?s = "set_db (delete_group gid (si_db s)) s" and ?log = "log_audit ''delete_group'' ''group'' gid ''success''"
  let ?ref = "refresh_for_tags w (entity_tag_ids EGroup gid (si_db s))"
  obtain g where g: "get_group gid (si_db s) = Some g" "\<not> 0 < user_count g" "linked_rules gid (si_db s) = []" "\<not> is_root_group gid (si_db s)"
    using group_delete_guards [OF assms] by blast
  have load: "load_group gid s = Some (Inr g, s)" using g(1) by (simp add: load_group_def ret_def)
  have store: "on_sys (store_write (\<lambda>d. Inr (delete_group gid d))) s = Some (Inr (), ?s)"
    by (simp add: on_sys_def store_write_def connection_write_def set_db_def)
  have "andthen (on_sys ?ref) (\<lambda>_. andthen ?log (\<lambda>_. ret True)) ?s = Some (Inr b, t)"
    using assms g(2-4) by (simp add: group_delete_def andthen_def [of "load_group gid"] load Let_def andthen_def [of "on_sys (store_write _)"] store)
  then obtain u x where u: "on_sys ?ref ?s = Some (Inr x, u)" "andthen ?log (\<lambda>_. ret True) u = Some (Inr b, t)"
    unfolding andthen_Some_iff by blast
  obtain v where v: "?ref (si_sys ?s) = Some (Inr x, v)" "u = ?s\<lparr>si_sys := v\<rparr>" using u(1) unfolding on_sys_Some by blast
  have "si_db u = si_db ?s" using kernel_only_fields [OF keepsD [OF refresh_for_tags_kernel_only v(1)]] v(2) by simp
  moreover have "si_db t = si_db u"
    using u(2) by (auto simp: andthen_Some_iff ret_def log_audit_def on_sys_Some audit_def)
  ultimately show ?thesis by simp
qed

definition demo_plan :: "ref_kernel site" where
  "demo_plan = (case run_requests (take 2 demo_requests) demo_boot of Some t \<Rightarrow> t | None \<Rightarrow> demo_boot)"

text \<open>Deleting a group.  In every reachable site a deletion that succeeds removes the group and its tag
  associations, when no user that is not deleted and no rule of a group belongs to it; the other groups, the users,
  the rules, the tags of users and the other associations are untouched.\<close>

theorem deleted_group_leaves_nothing:
  assumes "site_reachable s" "group_delete w gid s = Some (Inr b, t)"
  shows "get_group gid (si_db t) = None \<and> (\<forall>tid. (tid, gid) \<notin> set (db_group_tags (si_db t))) \<and>
    (\<forall>u\<in>set (db_users (si_db t)). u_status u \<noteq> UDeleted \<longrightarrow> group_id u \<noteq> gid) \<and>
    (\<forall>r\<in>set (get_firewall_owner gid (si_db t)). owner_type r \<noteq> OGroup) \<and>
    (\<forall>other. other \<noteq> gid \<longrightarrow> get_group other (si_db t) = get_group other (si_db s) \<and> entity_tag_ids EGroup other (si_db t) = entity_tag_ids EGroup other (si_db s)) \<and>
    db_users (si_db t) = db_users (si_db s) \<and> db_rules (si_db t) = db_rules (si_db s) \<and> db_user_tags (si_db t) = db_user_tags (si_db s)"
proof -
  have inv: "site_inv s" by (rule reachable_inv [OF assms(1)])
  note d = group_delete_db [OF assms(2)]
  obtain g where g: "get_group gid (si_db s) = Some g" "\<not> 0 < user_count g" "linked_rules gid (si_db s) = []"
    using group_delete_guards [OF assms(2)] by blast
  have "group_id u \<noteq> gid" if "u \<in> set (db_users (si_db s))" "live u" for u
    using no_users [OF inv conjunct1 [OF get_groupD [OF g(1)]] g(2) that] get_groupD [OF g(1)] by simp
  moreover have "\<forall>r\<in>set (get_firewall_owner gid (si_db s)). owner_type r \<noteq> OGroup"
    using g(3) by (auto simp: linked_rules_def filter_empty_conv)
  moreover have "filter (\<lambda>x. (case x of (t, h) \<Rightarrow> h \<noteq> gid) \<and> snd x = other) l = filter (\<lambda>p. snd p = other) l"
    if "other \<noteq> gid" for other and l :: "(string \<times> string) list" using that by (auto intro: filter_cong)
  ultimately show ?thesis
    unfolding d by (auto simp: delete_group_def get_group_def get_firewall_owner_def entity_tag_ids_def tbl_get_delete)
qed

lemma deleted_group_leaves_nothing_witness:
  "\<exists>t. (\<exists>b. group_delete (demo_world False) ''h'' demo_plan = Some (Inr b, t)) \<and> get_group ''h'' (si_db t) = None \<and>
     get_group ''g'' (si_db t) \<noteq> None"
proof -
  have run: "case run_requests (take 2 demo_requests) demo_boot of Some s \<Rightarrow>
      (case group_delete (demo_world False) ''h'' s of Some (Inr b, t) \<Rightarrow> get_group ''g'' (si_db s) \<noteq> None | _ \<Rightarrow> False) | None \<Rightarrow> False"
    by code_simp
  then have plan: "run_requests (take 2 demo_requests) demo_boot = Some demo_plan" by (auto simp: demo_plan_def split: option.splits)
  obtain b t where t: "group_delete (demo_world False) ''h'' demo_plan = Some (Inr b, t)" "get_group ''g'' (si_db demo_plan) \<noteq> None"
    using run plan by (auto split: option.splits sum.splits)
  show ?thesis
    using deleted_group_leaves_nothing [OF run_reachable [OF demo_boot_reachable plan] t(1)] t by auto
qed

section \<open>Device bindings\<close>

text \<open>The bindings as the service keeps them: no two files of the same name, no two readable ones of the same user.\<close>

definition bindings_ok :: "'k site \<Rightarrow> bool" where
  "bindings_ok s \<longleftrightarrow> distinct (map fst (si_bindings s)) \<and>
     (\<forall>f b g c. (f, Some b) \<in> set (si_bindings s) \<longrightarrow> (g, Some c) \<in> set (si_bindings s) \<longrightarrow> b_username b = b_username c \<longrightarrow> f = g)"

definition names :: "string \<Rightarrow> string \<times> binding option \<Rightarrow> bool" where
  "names n p \<longleftrightarrow> (case p of (f, b) \<Rightarrow> case b of None \<Rightarrow> False | Some x \<Rightarrow> b_username x = n)"

definition bound_to :: "'k site \<Rightarrow> string \<Rightarrow> string option" where
  "bound_to s n = (case find (names n) (si_bindings s) of Some (f, Some b) \<Rightarrow> Some (b_fingerprint b) | _ \<Rightarrow> None)"

lemma names_Some [simp]: "names n (f, Some b) \<longleftrightarrow> b_username b = n"
  by (simp add: names_def)

lemma find_names: "case find (names n) l of None \<Rightarrow> \<forall>f b. (f, Some b) \<in> set l \<longrightarrow> b_username b \<noteq> n
  | Some (f, b) \<Rightarrow> \<exists>c. b = Some c \<and> (f, Some c) \<in> set l \<and> b_username c = n"
  by (induction l) (auto simp: names_def split: option.splits if_splits)

lemma find_binding_names: "find_binding_file n s = Some (Inr (case find (names n) (si_bindings s) of Some (f, Some x) \<Rightarrow> Some (f, x) | _ \<Rightarrow> None), s)"
  unfolding find_binding_file_def names_def ret_def by simp

lemma bound_iff:
  assumes "bindings_ok s"
  shows "bound_to s n = Some x \<longleftrightarrow> (\<exists>f b. (f, Some b) \<in> set (si_bindings s) \<and> b_username b = n \<and> b_fingerprint b = x)"
proof (cases "find (names n) (si_bindings s)")
  case None
  then show ?thesis using find_names [where n = n and l = "si_bindings s"] by (auto simp: bound_to_def)
next
  case (Some p)
  then obtain f c where c: "p = (f, Some c)" "(f, Some c) \<in> set (si_bindings s)" "b_username c = n"
    using find_names [where n = n and l = "si_bindings s"] by auto
  have "c = b" if "(g, Some b) \<in> set (si_bindings s)" "b_username b = n" for g b
  proof -
    have "f = g" using assms c(2,3) that unfolding bindings_ok_def by metis
    then show ?thesis using assms c(2) that(1) unfolding bindings_ok_def by (metis eq_key_imp_eq_value option.inject)
  qed
  note uniq = this
  have e: "bound_to s n = Some (b_fingerprint c)" using Some c(1) by (simp add: bound_to_def)
  show ?thesis
  proof
    assume "bound_to s n = Some x"
    then have "b_fingerprint c = x" using e by simp
    then show "\<exists>f b. (f, Some b) \<in> set (si_bindings s) \<and> b_username b = n \<and> b_fingerprint b = x" using c by blast
  next
    assume "\<exists>f b. (f, Some b) \<in> set (si_bindings s) \<and> b_username b = n \<and> b_fingerprint b = x"
    then obtain g b where "(g, Some b) \<in> set (si_bindings s)" "b_username b = n" "b_fingerprint b = x" by blast
    then show "bound_to s n = Some x" using e uniq by blast
  qed
qed

lemma verify_effect: "verify_binding n fp s = Some (Inr (bound_to s n = Some fp), s)"
  using find_names [where n = n and l = "si_bindings s"]
  by (auto simp: verify_binding_def get_binding_def andthen_def find_binding_names ret_def bound_to_def split: option.splits)

lemma bindings_update:
  assumes "bindings_ok s" "si_bindings t = l" "distinct (map fst l)"
    and "\<And>f b. (f, Some b) \<in> set l \<longleftrightarrow> (f, Some b) \<in> set (si_bindings s) \<and> b_username b \<noteq> n \<or> new = Some (f, b)"
    and "\<And>f b. new = Some (f, b) \<Longrightarrow> b_username b = n"
  shows "bindings_ok t \<and> (\<forall>m. bound_to t m = (if m = n then map_option (b_fingerprint \<circ> snd) new else bound_to s m))"
proof -
  have ok: "bindings_ok t"
    unfolding bindings_ok_def assms(2) assms(4) using assms(1,3,5) unfolding bindings_ok_def by (metis option.inject prod.inject)
  have eq: "bound_to t m = Some x \<longleftrightarrow> (if m = n then \<exists>f b. new = Some (f, b) \<and> b_fingerprint b = x else bound_to s m = Some x)" for m x
    unfolding bound_iff [OF ok] bound_iff [OF assms(1)] assms(2) assms(4) using assms(5) by auto
  have ext: "a = b" if "\<And>x. a = Some x \<longleftrightarrow> b = Some x" for a b :: "string option"
    using that [of "the a"] that [of "the b"] by (cases a; cases b) simp_all
  have "bound_to t m = (if m = n then map_option (b_fingerprint \<circ> snd) new else bound_to s m)" for m
  proof (cases "m = n")
    case True
    have "bound_to t n = map_option (b_fingerprint \<circ> snd) new"
      by (rule ext, unfold eq) (cases new; auto)
    then show ?thesis using True by simp
  next
    case False
    have "bound_to t m = bound_to s m" by (rule ext, unfold eq) (simp add: False)
    then show ?thesis using False by simp
  qed
  then show ?thesis using ok by blast
qed

lemma reset_effect:
  assumes "bindings_ok s"
  shows "\<exists>t. reset_binding n s = Some (Inr (bound_to s n \<noteq> None), t) \<and> bindings_ok t \<and> (\<forall>m. bound_to t m = (if m = n then None else bound_to s m)) \<and>
    fst ` set (si_bindings t) \<subseteq> fst ` set (si_bindings s) \<and> (\<forall>f b. (f, Some b) \<in> set (si_bindings t) \<longrightarrow> b_username b \<noteq> n)"
proof (cases "find (names n) (si_bindings s)")
  case None
  then have b: "bound_to s n = None" by (simp add: bound_to_def)
  have "reset_binding n s = Some (Inr False, s)" using None by (simp add: reset_binding_def andthen_def find_binding_names ret_def)
  then show ?thesis using b assms find_names [where n = n and l = "si_bindings s"] None by auto
next
  case (Some p)
  then obtain f c where c: "p = (f, Some c)" "(f, Some c) \<in> set (si_bindings s)" "b_username c = n"
    using find_names [where n = n and l = "si_bindings s"] by auto
  let ?l = "filter (\<lambda>(g, b). g \<noteq> f) (si_bindings s)"
  let ?t = "s\<lparr>si_bindings := ?l\<rparr>"
  have run: "reset_binding n s = Some (Inr True, ?t)"
    using Some c(1) by (simp add: reset_binding_def andthen_def find_binding_names unlink_binding_def ret_def)
  have mem: "(g, Some b) \<in> set ?l \<longleftrightarrow> (g, Some b) \<in> set (si_bindings s) \<and> b_username b \<noteq> n" for g b
  proof -
    have "g = f" if "(g, Some b) \<in> set (si_bindings s)" "b_username b = n" using assms c that unfolding bindings_ok_def by metis
    moreover have "b = c" if "(f, Some b) \<in> set (si_bindings s)"
      using assms c(2) that unfolding bindings_ok_def by (metis eq_key_imp_eq_value option.inject)
    ultimately show ?thesis using c(3) by auto
  qed
  have "bindings_ok ?t \<and> (\<forall>m. bound_to ?t m = (if m = n then map_option (b_fingerprint \<circ> snd) (None :: (string \<times> binding) option) else bound_to s m))"
  proof (rule bindings_update [OF assms, where l = ?l])
    show "si_bindings ?t = ?l" by simp
    show "distinct (map fst ?l)" using assms by (simp add: bindings_ok_def distinct_map inj_on_def)
    show "(g, Some b) \<in> set ?l \<longleftrightarrow> (g, Some b) \<in> set (si_bindings s) \<and> b_username b \<noteq> n \<or> None = Some (g, b)" for g b
      using mem by simp
  qed simp_all
  moreover have "bound_to s n \<noteq> None" using Some c by (simp add: bound_to_def)
  ultimately show ?thesis using run mem by auto
qed

lemma update_fresh: "k \<notin> fst ` set l \<Longrightarrow> AList.update k v l = l @ [(k, v)]"
  by (induction l) auto

lemma create_effect:
  assumes "reset_binding n s = Some (Inr r, t)"
  shows "\<exists>b. b_username b = n \<and> b_fingerprint b = fp \<and> create_binding w n fp src s =
    Some (Inr b, t\<lparr>si_bindings := AList.update (w_uuid w 0 @ ''.json'') (Some b) (si_bindings t)\<rparr>)"
  using assms
  by (auto simp: create_binding_def reset_binding_def andthen_def find_binding_names unlink_binding_def ret_def Let_def split: option.splits)

text \<open>C23. Binding a device.  When every user has at most one readable binding file and the new file name is fresh,
  binding a user to a device makes exactly that device pass the check for the user, resetting makes every device fail it,
  and neither changes the answer for any other user.\<close>

theorem device_binding_exact:
  assumes "bindings_ok s" "w_uuid w 0 @ ''.json'' \<notin> fst ` set (si_bindings s)"
  shows "\<exists>b t u. create_binding w n fp src s = Some (Inr b, t) \<and> reset_binding n t = Some (Inr True, u) \<and> bindings_ok t \<and> bindings_ok u \<and>
    (\<forall>m x. \<exists>v. verify_binding m x s = Some (Inr v, s) \<and> verify_binding m x t = Some (Inr (if m = n then x = fp else v), t) \<and>
       verify_binding m x u = Some (Inr (m \<noteq> n \<and> v), u))"
proof -
  let ?f = "w_uuid w 0 @ ''.json''"
  obtain s1 where s1: "reset_binding n s = Some (Inr (bound_to s n \<noteq> None), s1)" "bindings_ok s1"
    "\<forall>m. bound_to s1 m = (if m = n then None else bound_to s m)" "fst ` set (si_bindings s1) \<subseteq> fst ` set (si_bindings s)"
    "\<forall>f b. (f, Some b) \<in> set (si_bindings s1) \<longrightarrow> b_username b \<noteq> n" using reset_effect [OF assms(1), of n] by blast
  obtain b where b: "b_username b = n" "b_fingerprint b = fp"
    "create_binding w n fp src s = Some (Inr b, s1\<lparr>si_bindings := AList.update ?f (Some b) (si_bindings s1)\<rparr>)"
    using create_effect [OF s1(1), of fp w src] by blast
  let ?l = "si_bindings s1 @ [(?f, Some b)]"
  let ?t = "s1\<lparr>si_bindings := ?l\<rparr>"
  have f: "?f \<notin> fst ` set (si_bindings s1)" using s1(4) assms(2) by blast
  have t: "create_binding w n fp src s = Some (Inr b, ?t)" using b(3) update_fresh [OF f] by simp
  have ok: "bindings_ok ?t \<and> (\<forall>m. bound_to ?t m = (if m = n then map_option (b_fingerprint \<circ> snd) (Some (?f, b)) else bound_to s1 m))"
  proof (rule bindings_update [OF s1(2), where l = ?l])
    show "si_bindings ?t = ?l" by simp
    show "distinct (map fst ?l)" using s1(2) f by (auto simp: bindings_ok_def)
    show "(g, Some c) \<in> set ?l \<longleftrightarrow> (g, Some c) \<in> set (si_bindings s1) \<and> b_username c \<noteq> n \<or> Some (?f, b) = Some (g, c)" for g c
      using s1(5) by auto
    show "b_username c = n" if "Some (?f, b) = Some (g, c)" for g c using that b(1) by simp
  qed
  obtain u where u: "reset_binding n ?t = Some (Inr (bound_to ?t n \<noteq> None), u)" "bindings_ok u"
    "\<forall>m. bound_to u m = (if m = n then None else bound_to ?t m)" using reset_effect [OF conjunct1 [OF ok], of n] by blast
  have tn: "bound_to ?t n = Some fp" using ok b(2) by simp
  have v: "verify_binding m x s = Some (Inr (bound_to s m = Some x), s)"
      "verify_binding m x ?t = Some (Inr (if m = n then x = fp else bound_to s m = Some x), ?t)"
      "verify_binding m x u = Some (Inr (m \<noteq> n \<and> bound_to s m = Some x), u)" for m x
    unfolding verify_effect using ok u(3) s1(3) b(2) by auto
  have "reset_binding n ?t = Some (Inr True, u)" using u(1) tn by simp
  then show ?thesis using t ok u(2) v by blast
qed

lemma device_binding_exact_witness:
  "\<exists>b t. create_binding (demo_world False) ''alice'' ''fp1'' ''machine-id'' demo_boot = Some (Inr b, t) \<and>
     verify_binding ''alice'' ''fp1'' t = Some (Inr True, t) \<and> verify_binding ''alice'' ''fp2'' t = Some (Inr False, t)"
proof -
  have h: "bindings_ok demo_boot" "w_uuid (demo_world False) 0 @ ''.json'' \<notin> fst ` set (si_bindings demo_boot)"
    by (simp_all add: bindings_ok_def demo_boot_def)
  obtain b t where bt: "create_binding (demo_world False) ''alice'' ''fp1'' ''machine-id'' demo_boot = Some (Inr b, t)"
    and v: "\<forall>m x. \<exists>v. verify_binding m x t = Some (Inr (if m = ''alice'' then x = ''fp1'' else v), t)"
    using device_binding_exact [OF h, of "''alice''" "''fp1''" "''machine-id''"] by blast
  show ?thesis using bt v [rule_format, of "''alice''" "''fp1''"] v [rule_format, of "''alice''" "''fp2''"] by auto
qed

end
