(* ===== verification/Returns.thy ===== *)
theory Returns
  imports Kernel_Props
begin

text \<open>
  Which actions return.  \<open>returns_in I m\<close>: from a state with \<open>I\<close> the action \<open>m\<close> returns or raises, and
  \<open>I\<close> holds again.  Two things can keep an action of the firewall from returning: a lock of the
  ipset transaction that is never given back, and a deletion loop whose command keeps succeeding.
  For the first, \<open>I\<close> is that the lock is free; for the second, a law on the command says that a
  successful deletion makes the tables smaller.
\<close>

section \<open>Actions that return\<close>

definition returns_in :: "('s \<Rightarrow> bool) \<Rightarrow> ('s, 'a) stact \<Rightarrow> bool" where
  "returns_in I m \<longleftrightarrow> (\<forall>s. I s \<longrightarrow> (\<exists>r t. m s = Some (r, t) \<and> I t))"

lemma returns_inI: "(\<And>s. I s \<Longrightarrow> \<exists>r t. m s = Some (r, t) \<and> I t) \<Longrightarrow> returns_in I m"
  by (simp add: returns_in_def)

lemma returns_inD: "returns_in I m \<Longrightarrow> I s \<Longrightarrow> \<exists>r t. m s = Some (r, t) \<and> I t"
  by (simp add: returns_in_def)

lemma returns_ret [intro!]: "returns_in I (ret x)" and returns_throw [intro!]: "returns_in I (throw e)"
  by (simp_all add: returns_in_def ret_def throw_def)

lemma returns_andthen [intro!]:
  assumes "returns_in I m" "\<And>x. returns_in I (f x)"
  shows "returns_in I (andthen m f)"
proof (rule returns_inI)
  fix s assume "I s"
  then obtain r t where t: "m s = Some (r, t)" "I t" using returns_inD [OF assms(1) \<open>I s\<close>] by blast
  show "\<exists>r t. andthen m f s = Some (r, t) \<and> I t"
  proof (cases r)
    case (Inl e)
    then show ?thesis using t by (simp add: andthen_def)
  next
    case (Inr x)
    obtain r' u where "f x t = Some (r', u)" "I u" using returns_inD [OF assms(2) [of x] t(2)] by blast
    then show ?thesis using t Inr by (simp add: andthen_def)
  qed
qed

lemma returns_handle [intro!]:
  assumes "returns_in I m" "\<And>e. returns_in I (f e)"
  shows "returns_in I (handle m f)"
proof (rule returns_inI)
  fix s assume "I s"
  then obtain r t where t: "m s = Some (r, t)" "I t" using returns_inD [OF assms(1) \<open>I s\<close>] by blast
  show "\<exists>r t. handle m f s = Some (r, t) \<and> I t"
  proof (cases r)
    case (Inr x)
    then show ?thesis using t by (simp add: handle_def)
  next
    case (Inl e)
    obtain r' u where "f e t = Some (r', u)" "I u" using returns_inD [OF assms(2) [of e] t(2)] by blast
    then show ?thesis using t Inl by (simp add: handle_def)
  qed
qed

lemma returns_handle_os [intro!]: "returns_in I m \<Longrightarrow> returns_in I f \<Longrightarrow> returns_in I (handle_os m f)"
  unfolding handle_os_def by (rule returns_handle) (auto split: exn.split)

lemma returns_for_each [intro!]: "(\<And>x. returns_in I (f x)) \<Longrightarrow> returns_in I (for_each f xs)"
  by (induction xs) auto

lemma returns_if [intro!]: "(b \<Longrightarrow> returns_in I m) \<Longrightarrow> (\<not> b \<Longrightarrow> returns_in I n) \<Longrightarrow> returns_in I (if b then m else n)"
  by simp

text \<open>An action that looks at the state it starts from.\<close>

lemma returns_state: "(\<And>s0. returns_in I (m s0)) \<Longrightarrow> returns_in I (\<lambda>s. m s s)"
  by (auto simp: returns_in_def)

text \<open>Actions that return from every state.\<close>

abbreviation returns :: "('s, 'a) stact \<Rightarrow> bool" where
  "returns m \<equiv> returns_in (\<lambda>_. True) m"

lemma returnsI: "(\<And>s. \<exists>r t. m s = Some (r, t)) \<Longrightarrow> returns m"
  by (rule returns_inI) simp

lemma returns_done [intro!]: "returns (\<lambda>s. ret x (f s))" and returns_failed [intro!]: "returns (\<lambda>s. throw e (f s))"
  by (simp_all add: returns_in_def ret_def throw_def)

lemma returns_some: "returns m \<Longrightarrow> \<exists>r t. m s = Some (r, t)"
  using returns_inD [of "\<lambda>_. True" m s] by blast

lemma returns_at_end: "returns m \<Longrightarrow> returns f \<Longrightarrow> returns (at_end m f)"
proof (rule returnsI)
  fix s assume "returns m" "returns f"
  then obtain r t r' u where "m s = Some (r, t)" "f t = Some (r', u)" using returns_inD by metis
  then show "\<exists>r t. at_end m f s = Some (r, t)" by (cases r') (simp_all add: at_end_def)
qed

section \<open>Commands\<close>

text \<open>The lock is no part of what a command or a hook changes.\<close>

definition lock_is :: "bool \<Rightarrow> 'k mgr \<Rightarrow> bool" where
  "lock_is b st \<longleftrightarrow> lock_held st = b"

text \<open>\<open>iptables -D\<close> deletes one rule, so it succeeds only finitely often: \<open>left\<close> counts the rules.\<close>

definition deletes_end :: "'k runner \<Rightarrow> ('k \<Rightarrow> nat) \<Rightarrow> bool" where
  "deletes_end run left \<longleftrightarrow> (\<forall>args k out err k'.
     (take 2 args = [''iptables'', ''-D''] \<or> take 5 args = [''iptables'', ''-t'', ''nat'', ''-D'', ''POSTROUTING'']) \<longrightarrow>
     run args [] k = (Proc 0 out err, k') \<longrightarrow> left k' < left k)"

lemma returns_sh [intro!]: "returns_in (lock_is b) (sh run args)"
  by (auto simp: returns_in_def sh_def sh_in_def lock_is_def split: prod.split proc_out.split)

lemma returns_sh_in [intro!]: "returns_in (lock_is b) (sh_in run args inp)"
  by (auto simp: returns_in_def sh_in_def lock_is_def split: prod.split proc_out.split)

lemma delete_repeat_returns:
  assumes "\<And>k out err k'. run args [] k = (Proc 0 out err, k') \<Longrightarrow> left k' < (left k :: nat)"
  shows "returns_in (lock_is b) (delete_repeat run args)"
proof -
  have "\<exists>r t. delete_repeat run args st = Some (r, t) \<and> lock_is b t" if "lock_is b st" for st
    using that
  proof (induction "left (kernel st)" arbitrary: st rule: less_induct)
    case less
    obtain p k where run: "run args [] (kernel st) = (p, k)" by fastforce
    show ?case
    proof (cases p)
      case ProcExc
      then show ?thesis using run less.prems by (simp add: delete_repeat.simps [of run args st] lock_is_def)
    next
      case (Proc rc out err)
      show ?thesis
      proof (cases "rc = 0")
        case True
        then have "left k < left (kernel st)" using assms run Proc by blast
        then show ?thesis
          using less.hyps [of "st\<lparr>kernel := k\<rparr>"] less.prems run Proc True
          by (simp add: delete_repeat.simps [of run args st] lock_is_def)
      qed (use run Proc less.prems in \<open>simp add: delete_repeat.simps [of run args st] lock_is_def\<close>)
    qed
  qed
  then show ?thesis by (rule returns_inI)
qed

section \<open>The operations of the iptables manager\<close>

lemma snapshots_returns [intro!]: "returns_in (lock_is b) (save_chain_rule_lines run c)" "returns_in (lock_is b) (save_filter run)"
  "returns_in (lock_is b) (restore_filter run d)" "returns_in (lock_is b) (flush_chain run)"
  unfolding save_chain_rule_lines_def save_filter_def restore_filter_def flush_chain_def by (auto split: prod.split)

lemma append_lines_returns [intro!]: "returns_in (lock_is b) (append_lines run c ls)"
  by (induction ls) (auto split: option.split list.split prod.split)

lemma restore_chain_returns [intro!]: "returns_in (lock_is b) (restore_chain_rule_lines run c ls)"
  unfolding restore_chain_rule_lines_def by auto

lemma enumerate_returns [intro!]: "returns_in (lock_is b) (enumerate_forward_rules run)"
  unfolding enumerate_forward_rules_def by (auto split: prod.split)

lemma delete_line_returns [intro!]: "returns_in (lock_is b) (delete_forward_rule_line run l)"
  unfolding delete_forward_rule_line_def Let_def by (auto split: option.split list.split prod.split)

lemma delete_matching_returns [intro!]: "returns_in (lock_is b) (delete_matching run hit n)"
  by (induction n) (auto split: option.split)

lemma flush_delete_returns [intro!]: "returns_in (lock_is b) (flush_delete_chains_matching_prefix env run p)"
proof -
  have "returns_in (lock_is b) (case mapM chain_of_line (splitlines out) of Inl e \<Rightarrow> throw e
      | Inr nms \<Rightarrow> for_each (\<lambda>nm. andthen (sh run [''iptables'', ''-F'', nm]) (\<lambda>_. andthen (sh run [''iptables'', ''-X'', nm]) (\<lambda>_. ret ())))
              (rev (sorted_set (filter (\<lambda>nm. starts_with nm p) (concat nms)))))" for out
    by (cases "mapM chain_of_line (splitlines out)") auto
  then show ?thesis unfolding flush_delete_chains_matching_prefix_def by (auto split: prod.split)
qed

lemma purge_returns [intro!]: "returns_in (lock_is b) (purge_center_vpn_peer_subchains env run)"
  unfolding purge_center_vpn_peer_subchains_def by auto

lemma add_hooks_returns [intro!]: "returns_in (lock_is b) (add_hooks run ps)"
  by (induction ps) (auto split: prod.split)

lemma policy_returns [intro!]: "returns_in (lock_is b) (filter_table_chain_policy run tb c)"
  unfolding filter_table_chain_policy_def by (auto split: prod.split)

lemma order_returns [intro!]: "returns_in (lock_is b) (forward_hooks_order_ok run)"
  unfolding forward_hooks_order_ok_def by auto

lemma enable_returns [intro!]: "returns_in (lock_is b) (ensure_ipv4_forward_enabled env)"
  by (auto simp: returns_in_def ensure_ipv4_forward_enabled_def ret_def lock_is_def)

lemma delete_rule_returns:
  assumes "deletes_end run left"
  shows "returns_in (lock_is b) (delete_rule_repeat run parts)" "returns_in (lock_is b) (delete_nat_postrouting_repeat run ps)"
proof -
  have d: "left k' < left k" if "take 2 args = [''iptables'', ''-D''] \<or> take 5 args = [''iptables'', ''-t'', ''nat'', ''-D'', ''POSTROUTING'']"
    "run args [] k = (Proc 0 out err, k')" for args k out err k' using assms that unfolding deletes_end_def by blast
  show "returns_in (lock_is b) (delete_rule_repeat run parts)" "returns_in (lock_is b) (delete_nat_postrouting_repeat run ps)"
    unfolding delete_rule_repeat_def delete_nat_postrouting_repeat_def by (rule delete_repeat_returns [where left = left], rule d, simp_all)+
qed

lemma remove_peer_returns: "deletes_end run left \<Longrightarrow> returns_in (lock_is b) (remove_legacy_shared_vpn_peer env run)"
  unfolding remove_legacy_shared_vpn_peer_def by (auto intro!: delete_rule_returns)

lemma masq_returns: "deletes_end run left \<Longrightarrow> returns_in (lock_is b) (delete_nat_postrouting_for_local_masq run i)"
  unfolding delete_nat_postrouting_for_local_masq_def by (auto intro!: delete_rule_returns split: prod.split)

lemma hooks_returns: "deletes_end run left \<Longrightarrow> returns_in (lock_is b) (ensure_forward_hooks env run)"
  unfolding ensure_forward_hooks_def Let_def by (auto intro!: delete_rule_returns remove_peer_returns split: prod.split)

lemma input_returns: "deletes_end run left \<Longrightarrow> returns_in (lock_is b) (ensure_input_from_vpn env run)"
  unfolding ensure_input_from_vpn_def Let_def by (auto intro!: delete_rule_returns split: prod.split sum.split)

lemma nat_returns: "deletes_end run left \<Longrightarrow> returns_in (lock_is b) (ensure_vpn_nat_masquerade env run)"
  unfolding ensure_vpn_nat_masquerade_def Let_def by (auto intro!: masq_returns split: prod.split sum.split)

lemma remove_hooks_returns: "deletes_end run left \<Longrightarrow> returns_in (lock_is b) (remove_ovpn_mgmt_iptables_hooks env run)"
  unfolding remove_ovpn_mgmt_iptables_hooks_def Let_def
  by (auto intro!: delete_rule_returns remove_peer_returns masq_returns split: prod.split sum.split)

lemma hooks_and_nat_returns: "deletes_end run left \<Longrightarrow> returns_in (lock_is b) (hooks_and_nat env run)"
  unfolding hooks_and_nat_def by (auto intro!: hooks_returns input_returns nat_returns)

section \<open>The lock of the ipset transaction\<close>

lemma ip_run_lock [simp]: "lock_held (snd (ip_run run args c st)) = lock_held st"
  by (simp add: ip_run_def split: prod.split proc_out.split)

lemma ip_cmds_lock [simp]:
  "lock_held (snd (list_names run st)) = lock_held st" "lock_held (snd (create_empty run n ty f x st)) = lock_held st"
  "lock_held (snd (destroy_best_effort run n st)) = lock_held st" "lock_held (snd (swap_sets run a b st)) = lock_held st"
proof -
  have i: "lock_held t = lock_held st" if "ip_run run args c st = (r, t)" for args c r t
    using ip_run_lock [of run args c st] that by simp
  show "lock_held (snd (list_names run st)) = lock_held st" "lock_held (snd (create_empty run n ty f x st)) = lock_held st"
    "lock_held (snd (destroy_best_effort run n st)) = lock_held st" "lock_held (snd (swap_sets run a b st)) = lock_held st"
    by (auto simp: list_names_def create_empty_def destroy_best_effort_def swap_sets_def dest!: i split: prod.split sum.split)
qed

lemma add_entries_lock [simp]: "lock_held (snd (add_entries run n es st)) = lock_held st"
proof (induction es arbitrary: st)
  case (Cons e es)
  have i: "lock_held t = lock_held st" if "ip_run run args c st = (r, t)" for args c r t
    using ip_run_lock [of run args c st] that by simp
  show ?case using Cons by (auto dest!: i split: prod.split sum.split)
qed simp

lemma rollback_swaps_lock [simp]: "lock_held (snd (rollback_swaps run ws ok st)) = lock_held st"
proof (induction ws arbitrary: ok st)
  case (Cons w ws)
  have i: "lock_held t = lock_held s" if "swap_sets run a b s = (r, t)" for a b r s t
    using ip_cmds_lock(4) [of run a b s] that by simp
  have j: "lock_held t = lock_held s" if "destroy_best_effort run a s = (r, t)" for a r s t
    using ip_cmds_lock(3) [of run a s] that by simp
  show ?case using Cons by (auto simp: Let_def dest!: i j split: prod.split sum.split)
qed simp

lemma reconcile_one_lock [simp]: "lock_held (snd (reconcile_one run h ex s st)) = lock_held st"
proof -
  have i: "lock_held t = lock_held u" if "create_empty run n ty f x u = (r, t)" for n ty f x r t u
    using ip_cmds_lock(2) [of run n ty f x u] that by simp
  have j: "lock_held t = lock_held u" if "add_entries run n es u = (r, t)" for n es r t u
    using add_entries_lock [of run n es u] that by simp
  have k: "lock_held t = lock_held u" if "swap_sets run a b u = (r, t)" for a b r t u
    using ip_cmds_lock(4) [of run a b u] that by simp
  have l: "lock_held t = lock_held u" if "stage_and_swap run s stage existed u = (r, t)" for stage existed r t u
    using that by (auto simp: stage_and_swap_def dest!: i j k split: prod.splits sum.splits if_splits)
  show ?thesis by (auto simp: reconcile_one_def Let_def dest!: i l split: prod.split sum.split)
qed

lemma reconcile_loop_lock [simp]: "lock_held (snd (snd (reconcile_loop run h ex ss ws st))) = lock_held st"
proof (induction ss arbitrary: ex ws st)
  case (Cons s ss)
  have i: "lock_held t = lock_held u" if "reconcile_one run h x s u = (r, t)" for x r t u
    using reconcile_one_lock [of run h x s u] that by simp
  show ?case using Cons by (auto dest!: i split: prod.split sum.split)
qed simp

definition open_txn :: "ipset_txn \<Rightarrow> bool" where
  "open_txn txn \<longleftrightarrow> lock_fd txn \<and> \<not> committed txn \<and> \<not> rolled_back txn"

lemma rollback_frees: "open_txn txn \<Longrightarrow> \<not> lock_held (snd (snd (rollback run txn st)))"
  by (simp add: open_txn_def rollback_def release_lock_def Let_def split: prod.split)

lemma commit_frees: "open_txn txn \<Longrightarrow> \<not> lock_held (snd (snd (commit run txn st)))"
  by (simp add: open_txn_def commit_def release_lock_def Let_def split: prod.split)

lemma reconcile_returns:
  assumes "\<not> lock_held st"
  shows "\<exists>r t. reconcile run h specs st = Some (r, t) \<and> (case r of Inl e \<Rightarrow> \<not> lock_held t | Inr txn \<Rightarrow> open_txn txn)"
proof (cases "distinct (map is_name specs) \<and> iterM validate_spec specs = Inr () \<and> lock_file_ok st")
  case True
  let ?st1 = "st\<lparr>lock_held := True\<rparr>"
  let ?txn = "\<lparr>desired_names = map is_name specs, swaps = [], committed = False, rolled_back = False, lock_fd = True\<rparr>"
  obtain f ws st2 where loop: "(case list_names run ?st1 of (Inl e, s) \<Rightarrow> (Some e, [], s)
      | (Inr existing, s) \<Rightarrow> reconcile_loop run h existing specs [] s) = (f, ws, st2)" by (rule prod_cases3)
  obtain ok x st3 where undone: "rollback run (?txn\<lparr>swaps := ws\<rparr>) st2 = (ok, x, st3)" by (rule prod_cases3)
  have "\<not> lock_held st3" using rollback_frees [of "?txn\<lparr>swaps := ws\<rparr>" run st2] unfolding undone by (simp add: open_txn_def)
  moreover have "reconcile run h specs st = (case f of None \<Rightarrow> Some (Inr (?txn\<lparr>swaps := ws\<rparr>), st2)
      | Some e \<Rightarrow> Some (Inl e, if ok then st3 else st3\<lparr>criticals := Suc (criticals st3)\<rparr>))"
  proof -
    have a: "acquire_lock st = Some (Inr (), ?st1)" "iterM validate_spec specs = Inr ()" "distinct (map is_name specs)"
      using True assms by (simp_all add: acquire_lock_def)
    show ?thesis
      unfolding reconcile_def Let_def a(1,2) using a(3) by (simp only: loop undone option.case sum.case prod.case if_False simp_thms)
  qed
  moreover have "open_txn (?txn\<lparr>swaps := ws\<rparr>)" by (simp add: open_txn_def)
  ultimately show ?thesis by (cases f) simp_all
next
  case False
  have "iterM validate_spec specs = Inr () \<or> (\<exists>e. iterM validate_spec specs = Inl e)" by (cases "iterM validate_spec specs") auto
  then show ?thesis using False assms by (auto simp: reconcile_def acquire_lock_def Let_def)
qed

section \<open>The transactions\<close>

text \<open>\<open>ends P m Q\<close>: from a state with \<open>P\<close> the action returns, with outcome and state in \<open>Q\<close>.\<close>

definition ends :: "('s \<Rightarrow> bool) \<Rightarrow> ('s, 'a) stact \<Rightarrow> ('a res \<Rightarrow> 's \<Rightarrow> bool) \<Rightarrow> bool" where
  "ends P m Q \<longleftrightarrow> (\<forall>s. P s \<longrightarrow> (\<exists>r t. m s = Some (r, t) \<and> Q r t))"

lemma endsD: "ends P m Q \<Longrightarrow> P s \<Longrightarrow> \<exists>r t. m s = Some (r, t) \<and> Q r t"
  by (simp add: ends_def)

lemma ends_andthen:
  assumes "ends P m R" "\<And>e s. R (Inl e) s \<Longrightarrow> Q (Inl e) s" "\<And>x. ends (R (Inr x)) (f x) Q"
  shows "ends P (andthen m f) Q"
  unfolding ends_def
proof (intro allI impI)
  fix s assume "P s"
  then obtain r t where t: "m s = Some (r, t)" "R r t" using endsD [OF assms(1)] by blast
  show "\<exists>r t. andthen m f s = Some (r, t) \<and> Q r t"
  proof (cases r)
    case (Inl e)
    then show ?thesis using t assms(2) by (simp add: andthen_def)
  next
    case (Inr x)
    then obtain r' u where "f x t = Some (r', u)" "Q r' u" using endsD [OF assms(3) [of x]] t(2) by blast
    then show ?thesis using t(1) Inr by (simp add: andthen_def)
  qed
qed

lemma ends_returns: "returns_in (lock_is b) m \<Longrightarrow> ends (lock_is b) m (\<lambda>_. lock_is b)"
  by (simp add: ends_def returns_in_def)

lemma returns_ends: "ends I m (\<lambda>_. I) \<Longrightarrow> returns_in I m"
  by (simp add: ends_def returns_in_def)

lemma ends_weaken: "ends P m R \<Longrightarrow> (\<And>r s. R r s \<Longrightarrow> Q r s) \<Longrightarrow> ends P m Q"
  unfolding ends_def by blast

lemma ends_True: "(\<And>b. returns_in (lock_is b) m) \<Longrightarrow> ends (\<lambda>_. True) m (\<lambda>_ _. True)"
  unfolding ends_def returns_in_def lock_is_def by blast

lemma fail_ends:
  assumes "\<And>b. returns_in (lock_is b) restore" "\<And>t. txn = Some t \<Longrightarrow> open_txn t"
  shows "ends (\<lambda>s. txn = None \<longrightarrow> lock_is False s) (kernel_rollback_and_fail run txn restore) (\<lambda>r s. lock_is False s)"
proof -
  let ?undo = "case txn of None \<Rightarrow> ret () | Some t \<Rightarrow> andthen (rollback_act run t) (\<lambda>ok. if ok then ret () else critical)"
  have crit: "returns_in (lock_is b) critical" for b by (simp add: returns_in_def critical_def lock_is_def)
  have a: "ends (\<lambda>s. txn = None \<longrightarrow> lock_is False s) ?undo (\<lambda>_. lock_is False)"
  proof (cases txn)
    case None
    then show ?thesis by (simp add: ends_def ret_def)
  next
    case (Some t)
    have "ends (\<lambda>_. True) (rollback_act run t) (\<lambda>_. lock_is False)"
      using rollback_frees [OF assms(2) [OF Some], of run] by (simp add: ends_def rollback_act_def lock_is_def case_prod_unfold Let_def)
    then have "ends (\<lambda>_. True) (andthen (rollback_act run t) (\<lambda>ok. if ok then ret () else critical)) (\<lambda>_. lock_is False)"
      by (rule ends_andthen) (auto intro: ends_returns crit)
    then show ?thesis using Some by simp
  qed
  have b: "ends (lock_is False) (andthen restore (\<lambda>ok. andthen (if ok then ret () else critical) (\<lambda>_. ret False))) (\<lambda>_. lock_is False)"
    by (rule ends_returns) (auto intro: assms(1) crit)
  show ?thesis unfolding kernel_rollback_and_fail_def by (rule ends_andthen [OF a]) (simp, rule b)
qed

text \<open>A command raises only an \<open>OSError\<close>.\<close>

abbreviation os_only :: "'a res \<Rightarrow> 's \<Rightarrow> bool" where
  "os_only r s \<equiv> (\<forall>e. r = Inl e \<longrightarrow> (\<exists>x. e = OSError x))"

lemma ends_os:
  assumes "ends (\<lambda>_. True) m os_only" "\<And>e s. Q (Inl (OSError e)) s" "\<And>x. ends (\<lambda>_. True) (f x) Q"
  shows "ends (\<lambda>_. True) (andthen m f) Q"
proof (rule ends_andthen [OF assms(1)])
  show "Q (Inl e) s" if "\<forall>e'. Inl e = Inl e' \<longrightarrow> (\<exists>x. e' = OSError x)" for e s
    using that assms(2) by auto
  show "ends (\<lambda>s. \<forall>e. Inr x = Inl e \<longrightarrow> (\<exists>y. e = OSError y)) (f x) Q" for x using assms(3) [of x] by simp
qed

lemma sh_in_ends: "ends (\<lambda>_. True) (sh_in run args inp) os_only"
  by (auto simp: ends_def sh_in_def split: prod.split proc_out.split)

lemma flush_ends: "ends (\<lambda>_. True) (flush_chain run) os_only"
  unfolding flush_chain_def
  by (auto simp: ends_def handle_os_def handle_def andthen_def sh_def sh_in_def ret_def throw_def split: prod.split proc_out.split)

lemma load_rules_ends:
  assumes "open_txn txn" "\<And>b. returns_in (lock_is b) after" "\<And>e. tmp_write env = Inl e \<Longrightarrow> \<exists>x. e = OSError x"
    and "\<And>s e t. calm \<Longrightarrow> after s \<noteq> Some (Inl e, t)"
  shows "ends (\<lambda>_. True) (load_rules env run path rules_text (after_load run txn after))
    (\<lambda>r s. (r = Inr None \<longrightarrow> lock_is False s) \<and> (calm \<longrightarrow> (\<exists>x. r = Inr x)))"
proof -
  let ?R = "\<lambda>r s. (r = Inr None \<longrightarrow> lock_is False s) \<and> (calm \<longrightarrow> (\<exists>x. r = Inr x))"
  let ?O = "\<lambda>r s. (r = Inr None \<longrightarrow> lock_is False s) \<and> (calm \<longrightarrow> (\<exists>x. r = Inr x) \<or> (\<exists>x. r = Inl (OSError x)))"
  have "ends (\<lambda>_. True) (commit_act run txn) (\<lambda>r s. lock_is False s \<and> (\<exists>x. r = Inr x))"
    using commit_frees [OF assms(1), of run] by (simp add: ends_def commit_act_def lock_is_def case_prod_unfold Let_def)
  then have "ends (\<lambda>_. True) (andthen (commit_act run txn) (\<lambda>ok. ret None)) ?R"
    by (rule ends_andthen) (auto simp: ends_def ret_def)
  then have after: "ends (\<lambda>_. True) (after_load run txn after) ?R"
    unfolding after_load_def using ends_True [OF assms(2)] assms(4)
    by (intro ends_andthen [where R = "\<lambda>r _. calm \<longrightarrow> (\<exists>x. r = Inr x)"]) (auto simp: ends_def ret_def split: option.split, metis sum.exhaust)
  have load: "ends (\<lambda>_. True) (andthen (flush_chain run) (\<lambda>_.
           andthen (sh_in run [''iptables-restore'', ''--noflush'', path] rules_text) (\<lambda>(rc, out, err).
             if rc \<noteq> 0 then ret (Some ''iptables-restore'') else after_load run txn after))) ?O"
  proof (rule ends_os [OF flush_ends], simp, rule ends_os [OF sh_in_ends], simp)
    fix x :: "int \<times> string \<times> string"
    have "ends (\<lambda>_. True) (ret (Some ''iptables-restore'') :: ('a, string option) act) ?R" by (simp add: ends_def ret_def)
    then show "ends (\<lambda>_. True) (case x of (rc, out, err) \<Rightarrow> if rc \<noteq> 0 then ret (Some ''iptables-restore'') else after_load run txn after) ?O"
      using after by (cases x) (auto elim!: ends_weaken)
  qed
  have os: "ends (\<lambda>_. True) (handle_os m (ret (Some w))) ?R" if "ends (\<lambda>_. True) m ?O" for m :: "('a, string option) act" and w
    unfolding ends_def
  proof (intro allI impI)
    fix s
    obtain r t where t: "m s = Some (r, t)" "?O r t" using endsD [OF \<open>ends (\<lambda>_. True) m ?O\<close> TrueI] by blast
    show "\<exists>r t. handle_os m (ret (Some w)) s = Some (r, t) \<and> ?R r t"
    proof (cases r)
      case (Inl e)
      then show ?thesis using t by (cases e) (simp_all add: handle_os_def handle_def ret_def throw_def)
    next
      case (Inr x)
      then show ?thesis using t by (simp add: handle_os_def handle_def)
    qed
  qed
  show ?thesis
  proof (cases "tmp_write env")
    case (Inl e)
    then obtain x where "e = OSError x" using assms(3) by blast
    then show ?thesis using Inl by (simp add: load_rules_def ends_def handle_os_def handle_def throw_def ret_def)
  next
    case (Inr u)
    then show ?thesis unfolding load_rules_def using os [OF load] by simp
  qed
qed

lemma transaction_ends:
  assumes "\<And>b. returns_in (lock_is b) restore" "\<And>b. returns_in (lock_is b) after" "\<And>e. tmp_write env = Inl e \<Longrightarrow> \<exists>x. e = OSError x"
    and "\<And>s e t. calm \<Longrightarrow> after s \<noteq> Some (Inl e, t)"
  shows "ends (lock_is False) (forward_transaction env run h rules peers restore after) (\<lambda>r s. calm \<or> (\<exists>b. r = Inr b) \<longrightarrow> lock_is False s)"
    (is "ends _ _ ?Q")
proof -
  let ?merged = "fst (build_merged_forward_entries rules peers)"
  let ?R = "\<lambda>r s. case r of Inl e \<Rightarrow> False | Inr (Inl e) \<Rightarrow> lock_is False s | Inr (Inr txn) \<Rightarrow> open_txn txn"
  have rec: "ends (lock_is False) (case desired_ipsets_for_merged_forward h ?merged of
          Inl e \<Rightarrow> ret (Inl e) | Inr specs \<Rightarrow> reconcile_act run h specs) ?R"
  proof (cases "desired_ipsets_for_merged_forward h ?merged")
    case (Inl e)
    then show ?thesis by (simp add: ends_def ret_def)
  next
    case (Inr specs)
    have "\<exists>r t. reconcile_act run h specs s = Some (r, t) \<and> ?R r t" if "lock_is False s" for s
    proof -
      obtain r t where r: "reconcile run h specs s = Some (r, t)" "case r of Inl e \<Rightarrow> \<not> lock_held t | Inr txn \<Rightarrow> open_txn txn"
        using reconcile_returns [of s run h specs] \<open>lock_is False s\<close> unfolding lock_is_def by blast
      then show ?thesis by (cases r) (auto simp: reconcile_act_def lock_is_def)
    qed
    then show ?thesis using Inr by (simp add: ends_def)
  qed
  have load: "ends (\<lambda>_. True) (load_phase env run h ?merged txn restore after) ?Q" if "open_txn txn" for txn
  proof -
    have fail: "ends (\<lambda>_. True) (kernel_rollback_and_fail run (Some txn) restore) ?Q"
      using fail_ends [OF assms(1), of "Some txn" run] that by (auto elim!: ends_weaken)
    have "ends (\<lambda>_. True) (andthen (load_rules env run path rules_text (after_load run txn after)) (\<lambda>bad.
        case bad of None \<Rightarrow> ret True | Some why \<Rightarrow> kernel_rollback_and_fail run (Some txn) restore)) ?Q" for path rules_text
    proof (rule ends_andthen [OF load_rules_ends [OF that assms(2-4)]])
      fix x :: "string option"
      show "ends (\<lambda>s. (Inr x = (Inr None :: string option res) \<longrightarrow> lock_is False s) \<and> (calm \<longrightarrow> (\<exists>y. Inr x = (Inr y :: string option res)))) (case x of None \<Rightarrow> ret True | Some why \<Rightarrow> kernel_rollback_and_fail run (Some txn) restore) ?Q"
        using fail by (cases x) (auto simp: ends_def ret_def)
    next
      show "calm \<or> (\<exists>b. Inl e = (Inr b :: bool res)) \<longrightarrow> lock_is False s"
        if "(Inl e = (Inr None :: string option res) \<longrightarrow> lock_is False s) \<and> (calm \<longrightarrow> (\<exists>x. Inl e = (Inr x :: string option res)))" for e s
        using that by auto
    qed
    then show ?thesis using fail unfolding load_phase_def by (auto split: sum.split)
  qed
  show ?thesis unfolding forward_transaction_def Let_def
  proof (rule ends_andthen [OF rec])
    fix x :: "ipset_txn res"
    show "ends (?R (Inr x)) (case x of Inl e \<Rightarrow> (if is_runtime_or_value_error e then kernel_rollback_and_fail run None restore else throw e)
      | Inr txn \<Rightarrow> load_phase env run h ?merged txn restore after) ?Q"
    proof (cases x)
      case (Inl e)
      have "ends (lock_is False) (kernel_rollback_and_fail run None restore) ?Q"
        using fail_ends [OF assms(1), of None run] by (auto elim!: ends_weaken)
      then show ?thesis using Inl by (auto simp: ends_def throw_def)
    next
      case (Inr txn)
      then show ?thesis using load [of txn] by (cases "open_txn txn") (auto simp: ends_def)
    qed
  qed simp
qed

text \<open>What the application of rules relies on: deletions end and writing the temporary file fails with an \<open>OSError\<close> only.\<close>

definition kernel_ends :: "'k env \<Rightarrow> 'k runner \<Rightarrow> ('k \<Rightarrow> nat) \<Rightarrow> bool" where
  "kernel_ends env run left \<longleftrightarrow> deletes_end run left \<and> (\<forall>e. tmp_write env = Inl e \<longrightarrow> (\<exists>x. e = OSError x))"

lemma refresh_ends:
  assumes "kernel_ends env run left"
  shows "ends (lock_is False) (refresh_vpn_forward_only env run h rules peers) (\<lambda>r s. lock_is False s)"
proof -
  have "ends (lock_is False) (forward_transaction env run h rules peers (restore_chain_rule_lines run chain_name ls) (ret None))
      (\<lambda>r s. True \<or> (\<exists>b. r = Inr b) \<longrightarrow> lock_is False s)" for ls
    by (rule transaction_ends) (use assms in \<open>auto simp: kernel_ends_def ret_def\<close>)
  then show ?thesis
    unfolding refresh_vpn_forward_only_def
    by (auto intro!: ends_andthen [OF ends_returns] simp: ends_def [of _ "ret _"] ret_def split: option.split)
qed

lemma rebuild_ends:
  assumes "kernel_ends env run left"
  shows "ends (lock_is False) (rebuild_rules env run h rules peers) (\<lambda>r s. (\<exists>b. r = Inr b) \<longrightarrow> lock_is False s)"
proof -
  have "ends (lock_is False) (forward_transaction env run h rules peers (restore_filter run d) (hooks_and_nat env run))
      (\<lambda>r s. False \<or> (\<exists>b. r = Inr b) \<longrightarrow> lock_is False s)" for d
    by (rule transaction_ends) (use assms hooks_and_nat_returns in \<open>auto simp: kernel_ends_def\<close>)
  then show ?thesis
    unfolding rebuild_rules_def
    by (auto intro!: ends_andthen [OF ends_returns] simp: ends_def [of _ "ret _"] ret_def split: option.split)
qed

lemma import_returns: "kernel_ends env run left \<Longrightarrow> returns_in (lock_is b) (import_rules_text env run contents)"
  unfolding import_rules_text_def kernel_ends_def by (auto intro!: hooks_and_nat_returns split: sum.split prod.split)

section \<open>A kernel with rules that can be deleted\<close>

text \<open>The FORWARD rules as lists of words; \<open>-A\<close> appends and \<open>-D\<close> deletes the first copy.\<close>

definition hook_run :: "string list list runner" where
  "hook_run args inp k =
     (if take 2 args = [''iptables'', ''-A''] then (Proc 0 [] [], k @ [drop 2 args])
      else if take 2 args = [''iptables'', ''-D''] then
        (if drop 2 args \<in> set k then (Proc 0 [] [], remove1 (drop 2 args) k) else (Proc 1 [] [], k))
      else if args = [''iptables-save'', ''-t'', ''filter''] then (Proc 0 [] [], k)
      else (Proc 1 [] [], k))"

lemma hook_run_deletes: "deletes_end hook_run length"
  unfolding deletes_end_def
proof (intro allI impI)
  fix args k out err k'
  assume a: "take 2 args = [''iptables'', ''-D''] \<or> take 5 args = [''iptables'', ''-t'', ''nat'', ''-D'', ''POSTROUTING'']"
    and run: "hook_run args [] k = (Proc 0 out err, k')"
  have t: "take 2 args = take 2 (take 5 args)" by (simp add: min_def)
  have two: "take 2 args = [''iptables'', ''-D''] \<or> take 2 args = [''iptables'', ''-t'']" using a t by (elim disjE) simp_all
  then have "take 2 args \<noteq> [''iptables'', ''-A'']" "args \<noteq> [''iptables-save'', ''-t'', ''filter'']" by auto
  then have "k' = remove1 (drop 2 args) k \<and> drop 2 args \<in> set k" using run by (auto simp: hook_run_def split: if_splits)
  then show "length k' < length k" using length_pos_if_in_set [of "drop 2 args" k] by (simp add: length_remove1)
qed

definition hook_env :: "string list list env" where
  "hook_env = \<lparr>on_nt = False, inst_raw = ''server'', cfg_subnet = Inr ''10.8.0.0/24'', sha256_hex = id, tmp_path = Inr ''/tmp/r'',
     tmp_write = Inr (), set_ip_forward = id\<rparr>"

definition hook_mgr :: "string list list mgr" where
  "hook_mgr = \<lparr>kernel = replicate 3 forward_hook_peer_specs_legacy @ [fst forward_hook_specs_legacy, fst forward_hook_specs_legacy],
     lock_held = False, lock_file_ok = True, uuid_ctr = 0, criticals = 0\<rparr>"

section \<open>The property\<close>

text \<open>C24. The firewall operations come back.  When a successful deletion of a rule leaves fewer rules and the temporary
  file fails with an \<open>OSError\<close> only, a refresh and a rebuild that start with the lock free return, whatever the commands
  answer; the refresh gives the lock back even when it raises, the rebuild whenever it returns a value.  Setting up and
  removing the hooks and importing a table return as well.\<close>

theorem firewall_operations_return:
  assumes "deletes_end run left" "\<forall>e. tmp_write env = Inl e \<longrightarrow> (\<exists>x. e = OSError x)" "\<not> lock_held st"
  shows "(\<exists>r t. refresh_vpn_forward_only env run h rules peers st = Some (r, t) \<and> \<not> lock_held t) \<and>
    (\<exists>r t. rebuild_rules env run h rules peers st = Some (r, t) \<and> ((\<exists>b. r = Inr b) \<longrightarrow> \<not> lock_held t)) \<and>
    ensure_forward_hooks env run st \<noteq> None \<and> ensure_input_from_vpn env run st \<noteq> None \<and> ensure_vpn_nat_masquerade env run st \<noteq> None \<and>
    remove_ovpn_mgmt_iptables_hooks env run st \<noteq> None \<and> import_rules_text env run contents st \<noteq> None"
proof -
  have k: "kernel_ends env run left" using assms(1,2) by (simp add: kernel_ends_def)
  have f: "lock_is False st" using assms(3) by (simp add: lock_is_def)
  have "\<exists>r t. refresh_vpn_forward_only env run h rules peers st = Some (r, t) \<and> \<not> lock_held t"
    using endsD [OF refresh_ends [OF k] f] by (simp add: lock_is_def)
  moreover have "\<exists>r t. rebuild_rules env run h rules peers st = Some (r, t) \<and> ((\<exists>b. r = Inr b) \<longrightarrow> \<not> lock_held t)"
    using endsD [OF rebuild_ends [OF k] f] by (simp add: lock_is_def)
  moreover have some: "m st \<noteq> None" if "returns_in (lock_is False) m" for m :: "('a, 'b) act" using returns_inD [OF that f] by auto
  ultimately show ?thesis
    using returns_inD [OF hooks_returns [OF assms(1)] f, of env] returns_inD [OF input_returns [OF assms(1)] f, of env]
      returns_inD [OF nat_returns [OF assms(1)] f, of env] returns_inD [OF remove_hooks_returns [OF assms(1)] f, of env]
      returns_inD [OF import_returns [OF k] f, of contents] by auto
qed

lemma firewall_operations_return_witness:
  "(\<exists>r t. refresh_vpn_forward_only hook_env hook_run demo_hex [] [] hook_mgr = Some (r, t) \<and> \<not> lock_held t) \<and>
   ensure_forward_hooks hook_env hook_run hook_mgr \<noteq> None"
proof -
  have "\<forall>e. tmp_write hook_env = Inl e \<longrightarrow> (\<exists>x. e = OSError x)" "\<not> lock_held hook_mgr" by (simp_all add: hook_env_def hook_mgr_def)
  from firewall_operations_return [OF hook_run_deletes this, of demo_hex "[]" "[]"] show ?thesis by blast
qed

end
