(* ===== verification/Import_Lines.thy ===== *)
theory Import_Lines
  imports Kernel Storage
begin

text \<open>
  \<open>app/services/firewall/simple_rule_import.py\<close> and \<open>app/cli/iptables_parse.py\<close>: the two readers of
  typed or pasted rules, and the writer of the rule lines of a peer site.

  The regular expressions of the source look for a flag at the start of the line or after a blank,
  blanks, and a run of non-blank characters; on the list of the words of the line that is the word
  after the flag.  With \<open>re.IGNORECASE\<close> a flag is compared in lower case.
\<close>

section \<open>Flags\<close>

fun find_after :: "(string \<Rightarrow> bool) \<Rightarrow> string list \<Rightarrow> string option" where
  "find_after hit (t # u # ts) = (if hit t then Some u else find_after hit (u # ts))"
| "find_after hit _ = None"

text \<open>\<open>--dport\<close> may be followed by a colon.\<close>

fun find_dport :: "string list \<Rightarrow> string option" where
  "find_dport [] = None"
| "find_dport (t # ts) =
     (if lower t = ''--dport'' then (case ts of [] \<Rightarrow> None | u # _ \<Rightarrow> Some u)
      else if starts_with (lower t) ''--dport:''
        then (if drop 8 t \<noteq> [] then Some (drop 8 t) else (case ts of [] \<Rightarrow> None | u # _ \<Rightarrow> Some u))
      else find_dport ts)"

text \<open>\<open>-m multiport --dports\<close>; the pattern has no anchor before the \<open>-m\<close>.\<close>

fun find_multiport :: "string \<Rightarrow> string list \<Rightarrow> string option" where
  "find_multiport flag (a # b # c # d # ts) =
     (if ends_with (lower a) flag \<and> lower b = ''multiport'' \<and> lower c = ''--dports'' then Some d
      else find_multiport flag (b # c # d # ts))"
| "find_multiport flag _ = None"

definition first_some :: "'a option list \<Rightarrow> 'a option" where
  "first_some xs = (case find (\<lambda>x. x \<noteq> None) xs of None \<Rightarrow> None | Some x \<Rightarrow> x)"

section \<open>Simplified lines\<close>

record simplified_line =
  sl_source :: "string option"
  sl_dest :: "string option"
  sl_protocol :: string
  sl_dest_port :: "string option"
  sl_action :: fw_action

text \<open>An unknown target means \<open>accept\<close>; \<open>upper\<close> of the target is compared, here its lower case.\<close>

definition jump_action :: "string \<Rightarrow> fw_action option" where
  "jump_action j = (if lower j = ''accept'' then Some AAccept else if lower j = ''drop'' then Some ADrop
     else if lower j = ''reject'' then Some AReject else None)"

definition any_to_all :: "string \<Rightarrow> string" where
  "any_to_all p = (if p = ''any'' then ''all'' else p)"

definition try_parse_simplified_line :: "string \<Rightarrow> simplified_line option" where
  "try_parse_simplified_line line = (let s = strip line; ws = py_words s in
     if s = [] \<or> starts_with s ''#'' \<or> starts_with s ''-A '' then None
     else (let src = find_after (\<lambda>t. t = ''-s'') ws; dst = find_after (\<lambda>t. t = ''-d'') ws in
       if src = None \<and> dst = None then None
       else Some \<lparr>sl_source = src, sl_dest = dst,
         sl_protocol = (case find_after (\<lambda>t. lower t = ''-p'') ws of None \<Rightarrow> ''all'' | Some p \<Rightarrow> any_to_all (lower p)),
         sl_dest_port = first_some [find_multiport ''-m'' ws, find_multiport ''--match'' ws,
            find_after (\<lambda>t. lower t = ''--dports'') ws, find_dport ws],
         sl_action = (case find_after (\<lambda>t. lower t = ''-j'') ws of None \<Rightarrow> AAccept
            | Some j \<Rightarrow> (case jump_action j of None \<Rightarrow> AAccept | Some a \<Rightarrow> a))\<rparr>))"

text \<open>The copy of \<open>IptablesManager._protocol_port_variants\<close> for peer sites.\<close>

definition both_protos :: "string \<Rightarrow> string option \<Rightarrow> string option \<Rightarrow> port_variant list" where
  "both_protos proto dport multi = (if proto = ''all''
     then map (\<lambda>p. \<lparr>pv_proto = Some p, pv_dport = dport, pv_multiport = multi\<rparr>) [''tcp'', ''udp'']
     else [\<lparr>pv_proto = Some proto, pv_dport = dport, pv_multiport = multi\<rparr>])"

definition proto_port_variants :: "string \<Rightarrow> string option \<Rightarrow> port_variant list" where
  "proto_port_variants prot dport = (let dp = strip (opt_str dport);
       proto = any_to_all (lower (strip (if prot = [] then ''all'' else prot))) in
     if dp = [] then
       [\<lparr>pv_proto = (if proto = ''all'' then None else Some proto), pv_dport = None, pv_multiport = None\<rparr>]
     else if CHR '','' \<in> set dp then both_protos proto None (Some (join '','' (comma_tokens dp)))
     else if CHR '':'' \<in> set dp \<and> count_list dp (CHR '':'') = 1 then both_protos proto (Some dp) None
     else both_protos proto (Some dp) None)"

definition rest_parts :: "simplified_line \<Rightarrow> port_variant \<Rightarrow> string list" where
  "rest_parts line pv =
     (if strip (opt_str (sl_source line)) = [] then [] else [''-s '' @ strip (opt_str (sl_source line))]) @
     (if strip (opt_str (sl_dest line)) = [] then [] else [''-d '' @ strip (opt_str (sl_dest line))]) @
     pv_parts pv @ [''-j '' @ target_of (sl_action line)]"

definition peer_rests_from_simplified_line :: "simplified_line \<Rightarrow> string list" where
  "peer_rests_from_simplified_line line =
     map (\<lambda>pv. join '' '' (rest_parts line pv)) (proto_port_variants (sl_protocol line) (sl_dest_port line))"

text \<open>The fields of the form for a new rule, as lines for a peer site.  \<open>FirewallRule\<close> is built for
  the check of its port only.\<close>

definition probe_rule :: "fw_action \<Rightarrow> string option \<Rightarrow> rule" where
  "probe_rule act dp = \<lparr>rule_id = [], owner_type = OGroup, owner_id = ''_'', deployment_target = Center, vpn_instance = ''server'',
     action = act, source_subnet = None, source_ips = None, dest_ip = None, dest_port = dp, protocol = ''all'', priority = 1,
     enabled = True, description = None, r_created_at = [], r_updated_at = []\<rparr>"

definition form_action :: "string \<Rightarrow> fw_action" where
  "form_action act = (case jump_action act of None \<Rightarrow> AAccept | Some a \<Rightarrow> a)"

definition check_addresses :: "netaddr \<Rightarrow> string \<Rightarrow> unit res" where
  "check_addresses na s = iterM (validate_iptables_addr_or_cidr na) (comma_tokens s)"

definition form_sources :: "string option \<Rightarrow> string list option \<Rightarrow> string option list" where
  "form_sources subnet ips = (let l = (case ips of
         Some (i # is) \<Rightarrow> strip_all (i # is)
       | _ \<Rightarrow> if strip (opt_str subnet) \<noteq> [] then [strip (opt_str subnet)] else [])
     in if l = [] then [None] else map Some l)"

definition remote_rests_from_create_fields ::
  "netaddr \<Rightarrow> string option \<Rightarrow> string list option \<Rightarrow> string \<Rightarrow> string \<Rightarrow> string option \<Rightarrow> string option \<Rightarrow> string list res" where
  "remote_rests_from_create_fields na subnet ips act prot dest port =
     (let dp = str_opt (strip (opt_str port)); a = form_action act;
          p = any_to_all (lower (strip (if prot = [] then ''all'' else prot)));
          dst = str_opt (strip (opt_str dest)); srcs = form_sources subnet ips in
      rbind (mk_rule (probe_rule a dp)) (\<lambda>_.
      if srcs = [None] \<and> dst = None then Inl (ValueError ''no source and no destination'')
      else rbind (iterM (\<lambda>s. check_addresses na (opt_str s)) srcs) (\<lambda>_.
      rbind (check_addresses na (opt_str dst)) (\<lambda>_.
      (let out = concat (map (\<lambda>s. peer_rests_from_simplified_line
             \<lparr>sl_source = s, sl_dest = dst, sl_protocol = p, sl_dest_port = dp, sl_action = a\<rparr>) srcs) in
       rbind (iterM (validate_iptables_rest_line_addr_tokens na) out) (\<lambda>_. Inr out))))))"

text \<open>Several lines for the rules of one owner.\<close>

fun center_lines :: "string list \<Rightarrow> simplified_line list res" where
  "center_lines [] = Inr []"
| "center_lines (line # ls) = (let raw = strip line in
     if raw = [] \<or> starts_with raw ''#'' then center_lines ls
     else if starts_with raw ''-A '' then Inl (ValueError ''-A line'')
     else (case try_parse_simplified_line raw of
         None \<Rightarrow> Inl (ValueError ''not a simplified line'')
       | Some line \<Rightarrow> rbind (center_lines ls) (\<lambda>out. Inr (line # out))))"

definition parse_center_simplified_lines :: "string \<Rightarrow> simplified_line list res" where
  "parse_center_simplified_lines s = rbind (center_lines (splitlines s)) (\<lambda>out.
     if out = [] then Inl (ValueError ''no line'') else Inr out)"

definition resolve_center_owner_type :: "string \<Rightarrow> db \<Rightarrow> owner_kind res" where
  "resolve_center_owner_type oid0 d = (let oid = strip oid0 in
     if oid = [] then Inl (ValueError ''owner empty'')
     else if list_ex (\<lambda>g. g_id g = oid) (list_groups d) then Inr OGroup
     else if list_ex (\<lambda>u. username u = oid) (list_users False d) then Inr OUser
     else Inl (ValueError ''no such owner''))"

text \<open>\<open>re.match\<close> of a dotted quad: four runs of one to three digits.  The end anchor allows one
  line feed after them, which a stripped text does not have.\<close>

definition dotted_quad :: "string \<Rightarrow> bool" where
  "dotted_quad t \<longleftrightarrow> (let ws = split_on (CHR ''.'') t in length ws = 4 \<and>
     list_all (\<lambda>w. 1 \<le> length w \<and> length w \<le> 3 \<and> list_all is_digit w) ws)"

definition normalize_group_source_s :: "netaddr \<Rightarrow> string \<Rightarrow> string res" where
  "normalize_group_source_s na src = (let t = strip src in
     if t = [] then Inl (ValueError ''source empty'')
     else if CHR '','' \<in> set t then Inl (ValueError ''several sources'')
     else if validate_cidr na t then Inr t
     else if dotted_quad t then
       (if validate_cidr na (t @ ''/32'') then Inr (t @ ''/32'') else Inl (ValueError ''bad source''))
     else Inl (ValueError ''not a CIDR or IPv4''))"

definition parse_user_source_commas :: "netaddr \<Rightarrow> string \<Rightarrow> (string option \<times> string list option) res" where
  "parse_user_source_commas na s = (let chunks = comma_tokens (strip s); cidrs = filter (validate_cidr na) chunks in
     if strip s = [] \<or> chunks = [] then Inr (None, None)
     else if length cidrs = length chunks \<and> length chunks = 1 then Inr (Some (hd cidrs), None)
     else if list_ex (\<lambda>c. \<not> validate_cidr na c \<and> dotted_quad c) chunks then Inr (None, Some chunks)
     else Inl (ValueError ''bad user source''))"

definition source_fields_for_center ::
  "netaddr \<Rightarrow> simplified_line \<Rightarrow> owner_kind \<Rightarrow> (string option \<times> string list option) res" where
  "source_fields_for_center na line ot = (let s = strip (opt_str (sl_source line)) in
     if s = [] then Inr (None, None)
     else if ot = OGroup then rbind (normalize_group_source_s na s) (\<lambda>c. Inr (Some c, None))
     else parse_user_source_commas na s)"

section \<open>Lines of iptables\<close>

record parsed_rule =
  pl_action :: fw_action
  pl_instance :: string
  pl_enabled :: bool
  pl_description :: string
  pl_chain :: string
  pl_raw :: string
  pl_source_subnet :: "string option"
  pl_dest_ip :: "string option"
  pl_dest_port :: "string option"
  pl_protocol :: string

text \<open>\<open>ipaddress.ip_address\<close> accepts an IPv4 or an IPv6 address; \<open>v6\<close> tells which texts are the latter.\<close>

definition normalize_source_cidr :: "(string \<Rightarrow> bool) \<Rightarrow> string \<Rightarrow> string" where
  "normalize_source_cidr v6 v = (let s = strip v in
     if CHR ''/'' \<in> set s then s else if ip_parse s \<noteq> None \<or> v6 s then s @ ''/32'' else s)"

fun table_of :: "string list \<Rightarrow> string" where
  "table_of (t # u # ts) = (if t = ''-t'' then u else table_of (u # ts))"
| "table_of _ = ''filter''"

definition skip_jumps :: "string list" where
  "skip_jumps = [''MASQUERADE'', ''SNAT'', ''DNAT'', ''LOG'', ''MARK'', ''REDIRECT'']"

definition nonempty :: "string option \<Rightarrow> string option" where
  "nonempty x = (if opt_str x = [] then None else x)"

text \<open>The fields of the words of one command.\<close>

definition fields_of_parts :: "(string \<Rightarrow> bool) \<Rightarrow> string \<Rightarrow> string list \<Rightarrow> parsed_rule option" where
  "fields_of_parts v6 raw parts =
     (let after = (\<lambda>flags. find_after (\<lambda>t. t \<in> set flags) parts);
          dport = (case after [''--dport'', ''--destination-port''] of None \<Rightarrow> after [''--dports''] | Some p \<Rightarrow> Some p);
          prot = after [''-p'', ''--protocol''] in
      if table_of parts \<noteq> ''filter'' then None
      else case (nonempty (after [''-A'', ''--append'']), nonempty (after [''-j'', ''--jump''])) of
        (Some chain, Some jump) \<Rightarrow>
          (if jump \<in> set skip_jumps then None
           else (case jump_action jump of None \<Rightarrow> None
             | Some act \<Rightarrow> Some \<lparr>pl_action = act, pl_instance = ''server'', pl_enabled = True,
                 pl_description = ''cli-iptables '' @ chain @ '' '' @ take 200 raw, pl_chain = chain, pl_raw = raw,
                 pl_source_subnet = map_option (normalize_source_cidr v6) (nonempty (after [''-s'', ''--source''])),
                 pl_dest_ip = map_option strip (nonempty (after [''-d'', ''--destination''])),
                 pl_dest_port = map_option (\<lambda>p. filter (\<lambda>c. c \<noteq> CHR '' '') (strip p)) (nonempty dport),
                 pl_protocol = (case nonempty prot of None \<Rightarrow> ''all''
                   | Some p \<Rightarrow> if lower (strip p) = ''0'' then ''all'' else lower (strip p))\<rparr>))
      | _ \<Rightarrow> None)"

definition parse_iptables_line :: "(string \<Rightarrow> bool) \<Rightarrow> string \<Rightarrow> parsed_rule option" where
  "parse_iptables_line v6 line = (let s = strip line in
     if s = [] \<or> starts_with s ''#'' then None
     else if \<not> starts_with s ''iptables'' \<and> \<not> starts_with s ''-A '' \<and> \<not> starts_with s ''--append '' then None
     else (let raw = (if starts_with s ''iptables'' then s else ''iptables '' @ s) in
       case shlex_split raw of
         Some (p # ps) \<Rightarrow> if p = ''iptables'' then fields_of_parts v6 raw (p # ps) else None
       | _ \<Rightarrow> None))"

text \<open>The characters of \<open>\\w\<close> below 256: letters, digits, numeric signs and the underscore.\<close>

definition word_char :: "char \<Rightarrow> bool" where
  "word_char c \<longleftrightarrow> (let n = of_char c :: nat in (48 \<le> n \<and> n \<le> 57) \<or> (65 \<le> n \<and> n \<le> 90) \<or> n = 95 \<or> (97 \<le> n \<and> n \<le> 122) \<or>
     n \<in> {170, 178, 179, 181, 185, 186, 188, 189, 190} \<or> (192 \<le> n \<and> n \<le> 255 \<and> n \<noteq> 215 \<and> n \<noteq> 247))"

text \<open>\<open>^-A\\s+\\w+\<close>.\<close>

definition append_chain :: "string \<Rightarrow> bool" where
  "append_chain l \<longleftrightarrow> starts_with l ''-A'' \<and> (let rest = drop 2 l; w = dropWhile py_space rest in
     rest \<noteq> w \<and> w \<noteq> [] \<and> word_char (hd w))"

fun iter_lines :: "(string \<Rightarrow> bool) \<Rightarrow> string list \<Rightarrow> parsed_rule list" where
  "iter_lines v6 [] = []"
| "iter_lines v6 (l # ls) = (let line = strip l in
     if line = [] \<or> starts_with line ''#'' then iter_lines v6 ls
     else (case parse_iptables_line v6 line of
         Some r \<Rightarrow> r # iter_lines v6 ls
       | None \<Rightarrow> (case if append_chain line then parse_iptables_line v6 (''iptables '' @ line) else None of
           Some r \<Rightarrow> r # iter_lines v6 ls
         | None \<Rightarrow> iter_lines v6 ls)))"

text \<open>\<open>contents\<close> is the text of the file, if it is one.\<close>

definition iter_iptables_file :: "(string \<Rightarrow> bool) \<Rightarrow> string option \<Rightarrow> parsed_rule list res" where
  "iter_iptables_file v6 contents = (case contents of
     None \<Rightarrow> Inl (FileNotFoundError ''no such file'') | Some s \<Rightarrow> Inr (iter_lines v6 (splitlines s)))"

end
