(* ===== verification/Import_Props.thy ===== *)
theory Import_Props
  imports Import_Lines Kernel_Props
begin

text \<open>
  What the readers of typed rules guarantee: the lines written for a peer site are read back, by both
  readers, with the fields they were written from; the copy of the port expansion agrees with the
  one of the iptables manager.
\<close>

section \<open>Words of a line\<close>

lemma words_acc_plain: "list_all (\<lambda>c. \<not> py_space c) w \<Longrightarrow> words_acc acc (w @ s) = words_acc (rev w @ acc) s"
  by (induction w arbitrary: acc) simp_all

lemma py_words_join: "list_all plain_word ws \<Longrightarrow> py_words (join '' '' ws) = ws"
proof (induction "'' ''" ws rule: join.induct)
  case (2 w)
  then show ?case using words_acc_plain [of w "[]" "[]"] by (auto simp: py_words_def plain_word_def list_all_iff)
next
  case (3 w v ws)
  have "list_all (\<lambda>c. \<not> py_space c) w" "w \<noteq> []" using 3(2) by (auto simp: plain_word_def list_all_iff)
  then show ?case using words_acc_plain [of w "[]" "'' '' @ join '' '' (v # ws)"] 3 by (simp add: py_words_def py_space_def)
qed (simp add: py_words_def)

lemma join_join: "\<forall>ws\<in>set wss. ws \<noteq> [] \<Longrightarrow> join s (map (join s) wss) = join s (concat wss)"
proof (induction wss)
  case (Cons ws wss)
  have two: "a \<noteq> [] \<Longrightarrow> b \<noteq> [] \<Longrightarrow> join s (a @ b) = join s a @ s @ join s b" for a b
  proof (induction s a rule: join.induct)
    case (2 s w)
    then show ?case by (cases b) simp_all
  qed simp_all
  show ?case
  proof (cases wss)
    case (Cons vs vss)
    then have "concat wss \<noteq> []" "map (join s) wss \<noteq> []" using Cons.prems by auto
    then show ?thesis using Cons.IH Cons.prems two [of ws "concat wss"] Cons by simp
  qed simp
qed simp

text \<open>A value after a flag: plain, and not itself a flag.\<close>

definition plain_value :: "string \<Rightarrow> bool" where
  "plain_value v \<longleftrightarrow> plain_word v \<and> hd v \<noteq> CHR ''-''"

lemma lower_dash: "lower_char c = CHR ''-'' \<longleftrightarrow> c = CHR ''-''"
proof
  assume h: "lower_char c = CHR ''-''"
  then have "(of_char (lower_char c) :: nat) = 45" by simp
  then have "(of_char c :: nat) = 45" by (auto simp: of_char_lower Let_def split: if_splits)
  then have "of_char c = (of_char (CHR ''-'') :: nat)" by simp
  then show "c = CHR ''-''" by (simp only: of_char_eq_iff)
qed (simp add: lower_char_def)

lemma value_no_flag [simp]: "plain_value v \<Longrightarrow> v \<noteq> CHR ''-'' # xs" "plain_value v \<Longrightarrow> lower v \<noteq> CHR ''-'' # xs"
  "plain_value v \<Longrightarrow> \<not> starts_with (lower v) (CHR ''-'' # xs)" "plain_value v \<Longrightarrow> v \<noteq> []"
proof -
  assume v: "plain_value v"
  obtain c w where c: "v = c # w" "c \<noteq> CHR ''-''" using v by (cases v) (auto simp: plain_value_def plain_word_def)
  then have "lower_char c \<noteq> CHR ''-''" by (simp add: lower_dash)
  then show "v \<noteq> CHR ''-'' # xs" "lower v \<noteq> CHR ''-'' # xs" "\<not> starts_with (lower v) (CHR ''-'' # xs)" "v \<noteq> []"
    using c by (auto simp: lower_def starts_with_def)
qed

lemma value_strip [simp]: "plain_value v \<Longrightarrow> strip v = v"
  by (rule strip_eqI) (auto simp: plain_value_def plain_word_def list_all_iff)

definition flag_words :: "string \<Rightarrow> string option \<Rightarrow> string list" where
  "flag_words f x = (case x of None \<Rightarrow> [] | Some v \<Rightarrow> [f, v])"

definition port_words :: "port_variant \<Rightarrow> string list" where
  "port_words pv = (case pv_multiport pv of Some m \<Rightarrow> [''-m'', ''multiport'', ''--dports'', m] | None \<Rightarrow> flag_words ''--dport'' (pv_dport pv))"

definition rest_words :: "simplified_line \<Rightarrow> port_variant \<Rightarrow> string list" where
  "rest_words l pv = flag_words ''-s'' (sl_source l) @ flag_words ''-d'' (sl_dest l) @ flag_words ''-p'' (pv_proto pv) @
     port_words pv @ [''-j'', target_of (sl_action l)]"

text \<open>A line as the forms and the parser make it: values without blanks or quotes, a lower-case protocol, ports without empty parts.\<close>

definition plain_opt :: "string option \<Rightarrow> bool" where
  "plain_opt x \<longleftrightarrow> (case x of None \<Rightarrow> True | Some v \<Rightarrow> plain_value v)"

definition tidy_line :: "simplified_line \<Rightarrow> bool" where
  "tidy_line l \<longleftrightarrow> plain_opt (sl_source l) \<and> plain_opt (sl_dest l) \<and> (sl_source l \<noteq> None \<or> sl_dest l \<noteq> None) \<and>
     plain_value (sl_protocol l) \<and> lower (sl_protocol l) = sl_protocol l \<and> sl_protocol l \<noteq> ''any'' \<and> sl_protocol l \<noteq> ''0'' \<and>
     plain_opt (sl_dest_port l) \<and> (\<forall>p. sl_dest_port l = Some p \<longrightarrow> [] \<notin> set (split_on (CHR '','') p))"

definition plain_variant :: "port_variant \<Rightarrow> bool" where
  "plain_variant pv \<longleftrightarrow> plain_opt (pv_proto pv) \<and> plain_opt (pv_dport pv) \<and> plain_opt (pv_multiport pv) \<and>
     (\<forall>p. pv_proto pv = Some p \<longrightarrow> lower p = p \<and> p \<noteq> ''any'' \<and> p \<noteq> ''0'' \<and> p \<noteq> ''all'')"

definition variant_port :: "port_variant \<Rightarrow> string option" where
  "variant_port pv = (case pv_multiport pv of Some m \<Rightarrow> Some m | None \<Rightarrow> pv_dport pv)"

lemma comma_tokens_tidy:
  assumes "plain_value p" "[] \<notin> set (split_on (CHR '','') p)"
  shows "join '','' (comma_tokens p) = p"
proof -
  have "strip w = w \<and> w \<noteq> []" if "w \<in> set (split_on (CHR '','') p)" for w
  proof -
    have ne: "w \<noteq> []" using that assms(2) by blast
    have "set w \<subseteq> set p" using that
    proof (induction p arbitrary: w)
      case (Cons x p)
      then show ?case by (auto split: if_splits list.splits) blast+
    qed simp
    then have "list_all (\<lambda>c. \<not> py_space c) w" using assms(1) by (auto simp: plain_value_def plain_word_def list_all_iff)
    then have "strip w = w" using ne by (intro strip_eqI) (auto simp: list_all_iff)
    then show ?thesis using ne by blast
  qed
  then have "comma_tokens p = split_on (CHR '','') p" unfolding comma_tokens_def by (intro strip_all_id) blast
  then show ?thesis using join_split_on [of "CHR '',''" p] by simp
qed

lemma variants_of_tidy:
  assumes "tidy_line l" "pv \<in> set (proto_port_variants (sl_protocol l) (sl_dest_port l))"
  shows "plain_variant pv \<and> variant_port pv = sl_dest_port l \<and>
    pv_proto pv = (if sl_protocol l \<noteq> ''all'' then Some (sl_protocol l) else if sl_dest_port l = None then None else pv_proto pv) \<and>
    (sl_protocol l = ''all'' \<longrightarrow> sl_dest_port l \<noteq> None \<longrightarrow> pv_proto pv \<in> {Some ''tcp'', Some ''udp''})"
proof -
  have prot: "plain_value (sl_protocol l)" "lower (sl_protocol l) = sl_protocol l" "sl_protocol l \<noteq> ''any''" "sl_protocol l \<noteq> ''0''"
    using assms(1) by (simp_all add: tidy_line_def)
  have norm: "any_to_all (lower (strip (if sl_protocol l = [] then ''all'' else sl_protocol l))) = sl_protocol l"
    using prot by (simp add: any_to_all_def)
  have tu: "plain_value ''tcp''" "plain_value ''udp''" "lower ''tcp'' = ''tcp''" "lower ''udp'' = ''udp''" by code_simp+
  show ?thesis
  proof (cases "sl_dest_port l")
    case None
    then show ?thesis using assms(2) prot unfolding proto_port_variants_def Let_def norm
      by (auto simp: plain_variant_def variant_port_def plain_opt_def)
  next
    case (Some p)
    have p: "plain_value p" "join '','' (comma_tokens p) = p"
      using assms(1) Some comma_tokens_tidy by (auto simp: tidy_line_def plain_opt_def)
    then show ?thesis using assms(2) prot tu Some unfolding proto_port_variants_def Let_def norm both_protos_def
      by (auto simp: plain_variant_def variant_port_def plain_opt_def split: if_splits)
  qed
qed

section \<open>Reading the lines back\<close>

lemma target_facts [simp]: "jump_action (target_of a) = Some a" "target_of a \<noteq> CHR ''-'' # xs" "target_of a \<notin> set skip_jumps" "target_of a \<noteq> []"
  "plain_word (target_of a)" "lower (target_of a) \<noteq> CHR ''-'' # xs"
proof -
  have l: "jump_action ''ACCEPT'' = Some AAccept" "jump_action ''DROP'' = Some ADrop" "jump_action ''REJECT'' = Some AReject"
    "plain_word ''ACCEPT''" "plain_word ''DROP''" "plain_word ''REJECT''" "lower ''ACCEPT'' = ''accept''" "lower ''DROP'' = ''drop''" "lower ''REJECT'' = ''reject''"
    by code_simp+
  show "jump_action (target_of a) = Some a" "target_of a \<noteq> CHR ''-'' # xs" "target_of a \<notin> set skip_jumps" "target_of a \<noteq> []"
    "plain_word (target_of a)" "lower (target_of a) \<noteq> CHR ''-'' # xs"
    by (cases a; simp add: target_of_def l skip_jumps_def)+
qed

lemma rest_join:
  assumes "tidy_line l" "plain_variant pv"
  shows "join '' '' (rest_parts l pv) = join '' '' (rest_words l pv)"
proof -
  let ?wss = "(case sl_source l of None \<Rightarrow> [] | Some v \<Rightarrow> [[''-s'', v]]) @ (case sl_dest l of None \<Rightarrow> [] | Some v \<Rightarrow> [[''-d'', v]]) @
    (case pv_proto pv of None \<Rightarrow> [] | Some v \<Rightarrow> [[''-p'', v]]) @
    (case pv_multiport pv of Some m \<Rightarrow> [[''-m'', ''multiport'', ''--dports'', m]] | None \<Rightarrow> (case pv_dport pv of None \<Rightarrow> [] | Some v \<Rightarrow> [[''--dport'', v]])) @
    [[''-j'', target_of (sl_action l)]]"
  have p: "plain_opt (sl_source l)" "plain_opt (sl_dest l)" "plain_opt (pv_proto pv)" "plain_opt (pv_dport pv)" "plain_opt (pv_multiport pv)"
    using assms by (simp_all add: tidy_line_def plain_variant_def)
  have a: "(if strip (opt_str x) = [] then [] else [g @ strip (opt_str x)]) = map (join '' '') (case x of None \<Rightarrow> [] | Some v \<Rightarrow> [[f, v]])"
    if "plain_opt x" "g = f @ '' ''" for x f g using that by (cases x) (simp_all add: plain_opt_def)
  have b: "opt_part g x = map (join '' '') (case x of None \<Rightarrow> [] | Some v \<Rightarrow> [[f, v]])" if "plain_opt x" "g = f @ '' ''" for x f g
    using that by (cases x) (simp_all add: plain_opt_def opt_part_def)
  have c: "(if opt_str (pv_multiport pv) \<noteq> [] then opt_part ''-m multiport --dports '' (pv_multiport pv) else opt_part ''--dport '' (pv_dport pv)) =
      map (join '' '') (case pv_multiport pv of Some m \<Rightarrow> [[''-m'', ''multiport'', ''--dports'', m]] | None \<Rightarrow> (case pv_dport pv of None \<Rightarrow> [] | Some v \<Rightarrow> [[''--dport'', v]]))"
    using p(5) b [OF p(4), of "''--dport ''" "''--dport''"] by (cases "pv_multiport pv") (simp_all add: plain_opt_def opt_part_def)
  have "rest_parts l pv = map (join '' '') ?wss"
    unfolding rest_parts_def pv_parts_def c a [OF p(1), of "''-s ''" "''-s''", simplified] a [OF p(2), of "''-d ''" "''-d''", simplified]
      b [OF p(3), of "''-p ''" "''-p''", simplified] by simp
  moreover have "rest_words l pv = concat ?wss"
    by (simp add: rest_words_def flag_words_def port_words_def split: option.split)
  moreover have "\<forall>ws\<in>set ?wss. ws \<noteq> []" by (auto split: option.split)
  ultimately show ?thesis using join_join [of ?wss "'' ''"] by (simp only:)
qed

lemma plain_flags: "plain_word ''-s''" "plain_word ''-d''" "plain_word ''-p''" "plain_word ''-m''" "plain_word ''multiport''" "plain_word ''--dports''"
  "plain_word ''--dport''" "plain_word ''-j''" "plain_word ''-A''" "plain_word ''iptables''"
  by code_simp+

lemma value_word: "plain_value v \<Longrightarrow> plain_word v"
  by (simp add: plain_value_def)

lemma rest_plain: "tidy_line l \<Longrightarrow> plain_variant pv \<Longrightarrow> list_all plain_word (rest_words l pv)"
  unfolding tidy_line_def plain_variant_def plain_opt_def
  by (auto simp: rest_words_def flag_words_def port_words_def plain_flags value_word split: option.splits)

definition line_read :: "simplified_line \<Rightarrow> port_variant \<Rightarrow> simplified_line" where
  "line_read l pv = l\<lparr>sl_protocol := (case pv_proto pv of None \<Rightarrow> ''all'' | Some p \<Rightarrow> p), sl_dest_port := variant_port pv\<rparr>"

text \<open>What follows a value is a flag again, so no value is taken for one.\<close>

lemma find_after_value: "\<not> hit v \<Longrightarrow> find_after hit (v # ws) = find_after hit ws"
  by (cases ws) simp_all

lemma find_after_flags:
  "plain_opt x \<Longrightarrow> \<not> hit f \<Longrightarrow> (\<And>v. plain_value v \<Longrightarrow> \<not> hit v) \<Longrightarrow> find_after hit (flag_words f x @ ws) = find_after hit ws"
  "plain_opt x \<Longrightarrow> hit f \<Longrightarrow> find_after hit (flag_words f x @ ws) = (case x of None \<Rightarrow> find_after hit ws | Some v \<Rightarrow> Some v)"
  by (cases x; simp add: flag_words_def plain_opt_def find_after_value)+

lemma find_after_ports:
  "plain_variant pv \<Longrightarrow> (\<And>v. plain_value v \<Longrightarrow> \<not> hit v) \<Longrightarrow> \<not> hit ''-m'' \<Longrightarrow> \<not> hit ''--dports'' \<Longrightarrow> \<not> hit ''--dport'' \<Longrightarrow>
   find_after hit (port_words pv @ ws) = find_after hit ws"
proof -
  assume a: "plain_variant pv" "\<And>v. plain_value v \<Longrightarrow> \<not> hit v" "\<not> hit ''-m''" "\<not> hit ''--dports''" "\<not> hit ''--dport''"
  have "plain_value ''multiport''" by code_simp
  then show ?thesis
    using a find_after_flags(1) [of "pv_dport pv" hit "''--dport''" ws]
    by (cases "pv_multiport pv") (simp_all add: port_words_def plain_variant_def plain_opt_def find_after_value)
qed

lemma lower_flags [simp]: "lower ''-s'' = ''-s''" "lower ''-d'' = ''-d''" "lower ''-p'' = ''-p''" "lower ''-m'' = ''-m''" "lower ''-j'' = ''-j''"
  "lower ''multiport'' = ''multiport''" "lower ''--dports'' = ''--dports''" "lower ''--dport'' = ''--dport''"
  by code_simp+

lemma find_multiport_rest:
  assumes "tidy_line l" "plain_variant pv"
  shows "find_multiport ''-m'' (rest_words l pv) = pv_multiport pv" "find_multiport ''--match'' (rest_words l pv) = None"
proof -
  have e: "\<not> ends_with ''-s'' ''-m''" "\<not> ends_with ''-d'' ''-m''" "\<not> ends_with ''-p'' ''-m''" "ends_with ''-m'' ''-m''" "\<not> ends_with ''--dport'' ''-m''"
    "\<not> ends_with ''-s'' ''--match''" "\<not> ends_with ''-d'' ''--match''" "\<not> ends_with ''-p'' ''--match''" "\<not> ends_with ''-m'' ''--match''"
    "\<not> ends_with ''--dport'' ''--match''" by code_simp+
  show "find_multiport ''-m'' (rest_words l pv) = pv_multiport pv" "find_multiport ''--match'' (rest_words l pv) = None"
    by (cases "sl_source l"; cases "sl_dest l"; cases "pv_proto pv"; cases "pv_multiport pv"; cases "pv_dport pv";
        simp add: rest_words_def flag_words_def port_words_def e)+
qed

lemma find_dport_rest:
  assumes "tidy_line l" "plain_variant pv" "pv_multiport pv = None"
  shows "find_dport (rest_words l pv) = pv_dport pv"
proof -
  have v: "find_dport (flag_words f x @ ws) = find_dport ws" if "plain_opt x" "lower f \<noteq> ''--dport''" "\<not> starts_with (lower f) ''--dport:''" for f x ws
    using that by (cases x) (simp_all add: flag_words_def plain_opt_def)
  have c: "find_dport [''-j'', ''ACCEPT''] = None" "find_dport [''-j'', ''DROP''] = None" "find_dport [''-j'', ''REJECT''] = None" by code_simp+
  have j: "find_dport [''-j'', target_of a] = None" for a by (cases a) (simp_all only: target_of_def fw_action.case c)
  have d: "find_dport (flag_words ''--dport'' x @ [''-j'', target_of a]) = x" for x a
  proof (cases x)
    case None
    then show ?thesis by (simp only: flag_words_def option.case append_Nil j)
  qed (simp add: flag_words_def)
  have s: "\<not> starts_with ''-s'' ''--dport:''" "\<not> starts_with ''-d'' ''--dport:''" "\<not> starts_with ''-p'' ''--dport:''" by code_simp+
  show ?thesis
    using assms v d s by (simp add: rest_words_def port_words_def tidy_line_def plain_variant_def)
qed

lemma find_after_rest:
  assumes "tidy_line l" "plain_variant pv"
  shows "find_after (\<lambda>t. t = ''-s'') (rest_words l pv) = sl_source l"
    "find_after (\<lambda>t. t = ''-d'') (rest_words l pv) = sl_dest l"
    "find_after (\<lambda>t. lower t = ''-p'') (rest_words l pv) = pv_proto pv"
    "find_after (\<lambda>t. lower t = ''--dports'') (rest_words l pv) = pv_multiport pv"
    "find_after (\<lambda>t. lower t = ''-j'') (rest_words l pv) = Some (target_of (sl_action l))"
proof -
  have p: "plain_opt (sl_source l)" "plain_opt (sl_dest l)" "plain_opt (pv_proto pv)" "plain_opt (pv_dport pv)" "plain_opt (pv_multiport pv)"
    using assms by (simp_all add: tidy_line_def plain_variant_def)
  note f = rest_words_def p find_after_flags find_after_ports [OF assms(2)]
  show "find_after (\<lambda>t. t = ''-s'') (rest_words l pv) = sl_source l"
    "find_after (\<lambda>t. t = ''-d'') (rest_words l pv) = sl_dest l"
    "find_after (\<lambda>t. lower t = ''-p'') (rest_words l pv) = pv_proto pv"
    "find_after (\<lambda>t. lower t = ''-j'') (rest_words l pv) = Some (target_of (sl_action l))"
    by (simp_all add: f split: option.split)
  show "find_after (\<lambda>t. lower t = ''--dports'') (rest_words l pv) = pv_multiport pv"
    by (cases "pv_multiport pv") (simp_all add: rest_words_def p find_after_flags port_words_def)
qed

lemma strip_join: "list_all plain_word ws \<Longrightarrow> ws \<noteq> [] \<Longrightarrow> strip (join '' '' ws) = join '' '' ws"
proof (rule strip_eqI)
  assume p: "list_all plain_word ws" "ws \<noteq> []"
  show "join '' '' ws \<noteq> []" "\<not> py_space (hd (join '' '' ws))" "\<not> py_space (last (join '' '' ws))"
    using p by (induction "'' ''" ws rule: join.induct) (auto simp: plain_word_def list_all_iff hd_append)
qed

lemma rest_start:
  assumes "tidy_line l"
  shows "\<exists>f ws. rest_words l pv = f # ws \<and> (f = ''-s'' \<or> f = ''-d'') \<and> ws \<noteq> []"
  using assms by (cases "sl_source l"; cases "sl_dest l") (auto simp: rest_words_def flag_words_def tidy_line_def)

lemma line_read_fields: "line_read l pv = \<lparr>sl_source = sl_source l, sl_dest = sl_dest l,
    sl_protocol = (case pv_proto pv of None \<Rightarrow> ''all'' | Some p \<Rightarrow> p), sl_dest_port = variant_port pv, sl_action = sl_action l\<rparr>"
  by (cases l) (simp add: line_read_def)

lemma read_simplified:
  assumes "tidy_line l" "plain_variant pv"
  shows "try_parse_simplified_line (join '' '' (rest_words l pv)) = Some (line_read l pv)"
proof -
  let ?ws = "rest_words l pv"
  let ?s = "join '' '' ?ws"
  obtain f ws where f: "?ws = f # ws" "f = ''-s'' \<or> f = ''-d''" "ws \<noteq> []" using rest_start [OF assms(1), of pv] by blast
  have s: "strip ?s = ?s" "py_words ?s = ?ws" using strip_join [OF rest_plain [OF assms]] py_words_join [OF rest_plain [OF assms]] f by auto
  have h: "?s \<noteq> []" "\<not> starts_with ?s ''#''" "\<not> starts_with ?s ''-A ''" using f by (cases ws; auto simp: starts_with_def)+
  have some: "sl_source l \<noteq> None \<or> sl_dest l \<noteq> None" using assms(1) by (simp add: tidy_line_def)
  have port: "first_some [find_multiport ''-m'' ?ws, find_multiport ''--match'' ?ws, find_after (\<lambda>t. lower t = ''--dports'') ?ws, find_dport ?ws] = variant_port pv"
    unfolding find_multiport_rest [OF assms] find_after_rest [OF assms]
    using find_dport_rest [OF assms] by (cases "pv_multiport pv"; cases "pv_dport pv") (simp_all add: first_some_def variant_port_def)
  have prot: "any_to_all (lower p) = p" if "pv_proto pv = Some p" for p using assms(2) that by (simp add: plain_variant_def any_to_all_def)
  show ?thesis
    unfolding try_parse_simplified_line_def Let_def s port unfolding find_after_rest [OF assms] line_read_fields
    using h some prot by (cases "pv_proto pv") auto
qed

lemma table_of_find: "table_of ts = (case find_after (\<lambda>t. t = ''-t'') ts of None \<Rightarrow> ''filter'' | Some u \<Rightarrow> u)"
  by (induction ts rule: table_of.induct) simp_all

lemma fields_read:
  assumes "tidy_line l" "plain_variant pv" "plain_value chain" "\<forall>p. variant_port pv = Some p \<longrightarrow> CHR '' '' \<notin> set p"
  shows "fields_of_parts v6 raw ([''iptables'', ''-A'', chain] @ rest_words l pv) = Some \<lparr>pl_action = sl_action l, pl_instance = ''server'',
    pl_enabled = True, pl_description = ''cli-iptables '' @ chain @ '' '' @ take 200 raw, pl_chain = chain, pl_raw = raw,
    pl_source_subnet = map_option (normalize_source_cidr v6) (sl_source l), pl_dest_ip = sl_dest l, pl_dest_port = variant_port pv,
    pl_protocol = (case pv_proto pv of None \<Rightarrow> ''all'' | Some p \<Rightarrow> p)\<rparr>"
proof -
  let ?ps = "[''iptables'', ''-A'', chain] @ rest_words l pv"
  have p: "plain_opt (sl_source l)" "plain_opt (sl_dest l)" "plain_opt (pv_proto pv)" "plain_opt (pv_dport pv)" "plain_opt (pv_multiport pv)"
    using assms by (simp_all add: tidy_line_def plain_variant_def)
  have head: "find_after hit ?ps = find_after hit (rest_words l pv)" if "\<not> hit ''iptables''" "\<not> hit ''-A''" "\<not> hit chain" for hit
    using that by (simp add: find_after_value)
  note f = rest_words_def p find_after_flags find_after_ports [OF assms(2)]
  have a: "find_after (\<lambda>t. t \<in> set [''-A'', ''--append'']) ?ps = Some chain"
    "find_after (\<lambda>t. t \<in> set [''-s'', ''--source'']) ?ps = sl_source l"
    "find_after (\<lambda>t. t \<in> set [''-d'', ''--destination'']) ?ps = sl_dest l"
    "find_after (\<lambda>t. t \<in> set [''-p'', ''--protocol'']) ?ps = pv_proto pv"
    "find_after (\<lambda>t. t \<in> set [''-j'', ''--jump'']) ?ps = Some (target_of (sl_action l))"
    using assms(3) by (simp, (subst head, simp, simp, simp, simp add: f split: option.split)+)
  have mp: "plain_value m" if "pv_multiport pv = Some m" for m using p(5) that by (simp add: plain_opt_def)
  have b: "find_after (\<lambda>t. t \<in> set [''--dport'', ''--destination-port'']) ?ps = (if pv_multiport pv = None then pv_dport pv else None)"
    "find_after (\<lambda>t. t \<in> set [''--dports'']) ?ps = pv_multiport pv"
    using assms(3) mp by (subst head, simp, simp, simp, cases "pv_multiport pv", simp_all add: rest_words_def p find_after_flags port_words_def find_after_value split: option.split)
  have c: "table_of ?ps = ''filter''"
    unfolding table_of_find using assms(3) by (subst head, simp, simp, simp, simp add: f split: option.split)
  have d: "nonempty x = x" if "plain_opt x" for x using that by (cases x) (auto simp: nonempty_def plain_opt_def)
  have e: "map_option strip x = x" if "plain_opt x" for x using that by (cases x) (auto simp: plain_opt_def)
  have chain: "nonempty (Some chain) = Some chain" "nonempty (Some (target_of (sl_action l))) = Some (target_of (sl_action l))"
    using assms(3) by (simp_all add: nonempty_def)
  have port: "(case if pv_multiport pv = None then pv_dport pv else None of None \<Rightarrow> pv_multiport pv | Some q \<Rightarrow> Some q) = variant_port pv"
    by (cases "pv_multiport pv"; cases "pv_dport pv") (simp_all add: variant_port_def)
  have vp: "plain_opt (variant_port pv)" using p by (cases "pv_multiport pv") (simp_all add: variant_port_def)
  have blanks: "map_option (\<lambda>q. filter (\<lambda>c. c \<noteq> CHR '' '') (strip q)) (variant_port pv) = variant_port pv"
    using vp assms(4) by (cases "variant_port pv") (auto simp: plain_opt_def intro!: filter_True)
  have prot: "(case pv_proto pv of None \<Rightarrow> ''all'' | Some q \<Rightarrow> if lower (strip q) = ''0'' then ''all'' else lower (strip q)) =
      (case pv_proto pv of None \<Rightarrow> ''all'' | Some q \<Rightarrow> q)"
    using assms(2) by (cases "pv_proto pv") (auto simp: plain_variant_def plain_opt_def)
  show ?thesis
    unfolding fields_of_parts_def Let_def a b c port chain d [OF p(1)] d [OF p(2)] d [OF p(3)] d [OF vp] e [OF p(2)] blanks prot
    by simp
qed

lemma space_is_blank: "py_space (CHR '' '')"
  by code_simp

lemma read_iptables:
  assumes "tidy_line l" "plain_variant pv" "plain_value chain" "\<forall>p. variant_port pv = Some p \<longrightarrow> CHR '' '' \<notin> set p"
  shows "\<exists>r. parse_iptables_line v6 (''-A '' @ chain @ '' '' @ join '' '' (rest_words l pv)) = Some r \<and> pl_chain r = chain \<and>
    pl_action r = sl_action l \<and> pl_source_subnet r = map_option (normalize_source_cidr v6) (sl_source l) \<and> pl_dest_ip r = sl_dest l \<and>
    pl_dest_port r = variant_port pv \<and> pl_protocol r = (case pv_proto pv of None \<Rightarrow> ''all'' | Some p \<Rightarrow> p) \<and> pl_enabled r"
proof -
  let ?ws = "rest_words l pv"
  let ?s = "''-A '' @ chain @ '' '' @ join '' '' ?ws"
  obtain f ws where f: "?ws = f # ws" using rest_start [OF assms(1), of pv] by blast
  have j: "?s = join '' '' ([''-A'', chain] @ ?ws)" "''iptables '' @ ?s = join '' '' ([''iptables'', ''-A'', chain] @ ?ws)"
    using f by simp_all
  have pw: "list_all plain_word ([''iptables'', ''-A'', chain] @ ?ws)" using rest_plain [OF assms(1,2)] assms(3) plain_flags by (simp add: value_word)
  then have s: "strip ?s = ?s" unfolding j(1) by (intro strip_join) simp_all
  have sh: "shlex_split (''iptables '' @ ?s) = Some ([''iptables'', ''-A'', chain] @ ?ws)" unfolding j(2) by (rule shlex_join [OF pw])
  have h: "?s \<noteq> []" "\<not> starts_with ?s ''#''" "\<not> starts_with ?s ''iptables''" "starts_with ?s ''-A ''" by (simp_all add: starts_with_def)
  have "parse_iptables_line v6 ?s = fields_of_parts v6 (''iptables '' @ ?s) ([''iptables'', ''-A'', chain] @ ?ws)"
    unfolding parse_iptables_line_def Let_def s using h sh by simp
  then show ?thesis unfolding fields_read [OF assms] by simp
qed

section \<open>Properties\<close>

text \<open>The copy of the port expansion that serves peer sites gives the variants of the
  iptables manager for every protocol and port of a rule.\<close>

theorem port_expansions_agree: "proto_port_variants (protocol r) (dest_port r) = protocol_port_variants r"
  unfolding proto_port_variants_def protocol_port_variants_def both_protos_def variants_def norm_proto_def any_to_all_def Let_def by simp

text \<open>C25. Written rules are read back.  A line with plain values is written for a peer site as one rule per port variant;
  read back as a simplified line, or after \<open>-A\<close> and a chain as an iptables line, each has the source, destination, ports and
  action it was written from, and the protocol of its variant: the protocol of the line, or TCP and UDP when the line has
  ports and no protocol.\<close>

theorem written_rules_read_back:
  assumes "tidy_line l" "plain_value chain" "rest \<in> set (peer_rests_from_simplified_line l)"
  shows "\<exists>p r. try_parse_simplified_line rest = Some (l\<lparr>sl_protocol := p\<rparr>) \<and>
    (p = sl_protocol l \<or> sl_protocol l = ''all'' \<and> sl_dest_port l \<noteq> None \<and> p \<in> {''tcp'', ''udp''}) \<and>
    parse_iptables_line v6 (''-A '' @ chain @ '' '' @ rest) = Some r \<and> pl_chain r = chain \<and> pl_action r = sl_action l \<and>
    pl_source_subnet r = map_option (normalize_source_cidr v6) (sl_source l) \<and> pl_dest_ip r = sl_dest l \<and>
    pl_dest_port r = sl_dest_port l \<and> pl_protocol r = p"
proof -
  obtain pv where pv: "pv \<in> set (proto_port_variants (sl_protocol l) (sl_dest_port l))" "rest = join '' '' (rest_parts l pv)"
    using assms(3) by (auto simp: peer_rests_from_simplified_line_def)
  note v = variants_of_tidy [OF assms(1) pv(1)]
  then have pl: "plain_variant pv" and port: "variant_port pv = sl_dest_port l" by blast+
  have rest: "rest = join '' '' (rest_words l pv)" using pv(2) rest_join [OF assms(1) pl] by simp
  define p where "p = (case pv_proto pv of None \<Rightarrow> ''all'' | Some p \<Rightarrow> p)"
  have a: "try_parse_simplified_line rest = Some (l\<lparr>sl_protocol := p\<rparr>)"
    unfolding rest read_simplified [OF assms(1) pl] line_read_def p_def port by (cases l) simp
  have b: "p = sl_protocol l \<or> sl_protocol l = ''all'' \<and> sl_dest_port l \<noteq> None \<and> p \<in> {''tcp'', ''udp''}"
    using v by (cases "sl_protocol l = ''all''"; cases "sl_dest_port l = None") (auto simp: p_def)
  have c: "\<forall>q. variant_port pv = Some q \<longrightarrow> CHR '' '' \<notin> set q"
  proof (intro allI impI)
    fix q assume "variant_port pv = Some q"
    then have "plain_word q" using assms(1) unfolding port by (simp add: tidy_line_def plain_opt_def value_word)
    then show "CHR '' '' \<notin> set q" using space_is_blank unfolding plain_word_def list_all_iff by blast
  qed
  show ?thesis
    using read_iptables [OF assms(1) pl assms(2) c, of v6] unfolding rest [symmetric] port p_def [symmetric]
    by (elim exE conjE) (rule exI, rule exI, intro conjI, rule a, rule b, assumption+)
qed

definition demo_line :: simplified_line where
  "demo_line = \<lparr>sl_source = Some ''10.8.0.5'', sl_dest = Some ''192.168.1.0/24'', sl_protocol = ''all'', sl_dest_port = Some ''80,443'', sl_action = ADrop\<rparr>"

lemma written_rules_read_back_witness:
  "peer_rests_from_simplified_line demo_line =
     [''-s 10.8.0.5 -d 192.168.1.0/24 -p tcp -m multiport --dports 80,443 -j DROP'',
      ''-s 10.8.0.5 -d 192.168.1.0/24 -p udp -m multiport --dports 80,443 -j DROP''] \<and>
   (\<exists>p. try_parse_simplified_line ''-s 10.8.0.5 -d 192.168.1.0/24 -p tcp -m multiport --dports 80,443 -j DROP'' = Some (demo_line\<lparr>sl_protocol := p\<rparr>))"
proof -
  have w: "peer_rests_from_simplified_line demo_line =
     [''-s 10.8.0.5 -d 192.168.1.0/24 -p tcp -m multiport --dports 80,443 -j DROP'',
      ''-s 10.8.0.5 -d 192.168.1.0/24 -p udp -m multiport --dports 80,443 -j DROP'']" by code_simp
  have t: "plain_value ''10.8.0.5''" "plain_value ''192.168.1.0/24''" "plain_value ''all''" "lower ''all'' = ''all''" "plain_value ''80,443''"
    "[] \<notin> set (split_on (CHR '','') ''80,443'')" "plain_value ''VPN''" by code_simp+
  then have l: "tidy_line demo_line" by (simp add: tidy_line_def plain_opt_def demo_line_def)
  have "''-s 10.8.0.5 -d 192.168.1.0/24 -p tcp -m multiport --dports 80,443 -j DROP'' \<in> set (peer_rests_from_simplified_line demo_line)"
    unfolding w by (rule list.set_intros(1))
  from written_rules_read_back [OF l t(7) this] show ?thesis using w by blast
qed

end
