(* ===== verification/Auth.thy ===== *)
theory Auth
  imports Prelude
begin

text \<open>
  \<open>app/services/auth/admin_auth.py\<close> and the part of \<open>app/ui/auth.py\<close> that decides: the limiter of failed
  logins, the check of the credentials, the session, the guard in front of every page and the target
  of the redirection after a login.

  Time is a number of ticks.  The hash function of \<open>pwdlib\<close> is a parameter: what \<open>verify\<close> returns or raises.
  Of \<open>urllib.parse\<close> the functions the code calls are written out below.
\<close>

section \<open>Failed logins\<close>

record limiter =
  lm_max :: int
  lm_window :: int
  lm_failures :: "(string \<times> int list) list"

definition new_limiter :: "int \<Rightarrow> int \<Rightarrow> limiter res" where
  "new_limiter max_failures window = (if max_failures < 1 \<or> window \<le> 0 then Inl (ValueError ''limits must be positive'')
     else Inr \<lparr>lm_max = max_failures, lm_window = window, lm_failures = []\<rparr>)"

text \<open>Failures older than the window are dropped from the front; an empty entry goes away.\<close>

definition active_failures :: "string \<Rightarrow> int \<Rightarrow> limiter \<Rightarrow> int list \<times> limiter" where
  "active_failures source now l =
     (let fs = dropWhile (\<lambda>t. t \<le> now - lm_window l) (case map_of (lm_failures l) source of None \<Rightarrow> [] | Some ts \<Rightarrow> ts) in
      (fs, l\<lparr>lm_failures := (if fs = [] then AList.delete source (lm_failures l) else AList.update source fs (lm_failures l))\<rparr>))"

definition allows_attempt :: "string \<Rightarrow> int \<Rightarrow> limiter \<Rightarrow> bool \<times> limiter" where
  "allows_attempt source now l = (let (fs, l') = active_failures source now l in (int (length fs) < lm_max l, l'))"

definition record_failure :: "string \<Rightarrow> int \<Rightarrow> limiter \<Rightarrow> limiter" where
  "record_failure source now l = (let (fs, l') = active_failures source now l in
     l'\<lparr>lm_failures := AList.update source (fs @ [now]) (lm_failures l')\<rparr>)"

definition reset_failures :: "string \<Rightarrow> limiter \<Rightarrow> limiter" where
  "reset_failures source l = l\<lparr>lm_failures := AList.delete source (lm_failures l)\<rparr>"

section \<open>Credentials\<close>

text \<open>\<open>secrets.compare_digest\<close> raises a \<open>TypeError\<close> for texts outside ASCII.\<close>

definition compare_digest :: "string \<Rightarrow> string \<Rightarrow> bool res" where
  "compare_digest a b = (if list_all (\<lambda>c. (of_char c :: nat) < 128) a \<and> list_all (\<lambda>c. (of_char c :: nat) < 128) b
     then Inr (a = b) else Inl (TypeError ''not ASCII''))"

text \<open>\<open>None\<close> is an \<open>UnknownHashError\<close>.\<close>

type_synonym verifier = "string \<Rightarrow> string \<Rightarrow> bool res option"

definition password_ok :: "verifier \<Rightarrow> string \<Rightarrow> string \<Rightarrow> bool res" where
  "password_ok verify pw hashed = (case verify pw hashed of
     None \<Rightarrow> Inr False | Some (Inl (ValueError m)) \<Rightarrow> Inr False | Some (Inl (TypeError m)) \<Rightarrow> Inr False
   | Some (Inl e) \<Rightarrow> Inl e | Some (Inr ok) \<Rightarrow> Inr ok)"

definition verify_credentials :: "verifier \<Rightarrow> string \<Rightarrow> string \<Rightarrow> string \<Rightarrow> string \<Rightarrow> bool res" where
  "verify_credentials verify submitted_username submitted_password configured_username configured_password_hash =
     rbind (compare_digest submitted_username configured_username) (\<lambda>username_matches.
     rbind (password_ok verify submitted_password configured_password_hash) (\<lambda>ok. Inr (username_matches \<and> ok)))"

definition hash_password :: "(string \<Rightarrow> string) \<Rightarrow> string \<Rightarrow> string res" where
  "hash_password digest pw = (if pw = [] then Inl (ValueError ''password empty'')
     else if length pw > 1024 then Inl (ValueError ''password too long'') else Inr (digest pw))"

section \<open>Sessions\<close>

datatype sval = SBool bool | SText string | SNum int | SNone

type_synonym session = "(string \<times> sval) list"

record login_manager =
  li_username :: string
  li_hash :: string
  li_lifetime :: int

record auth_state =
  as_limiter :: limiter
  as_session :: session

datatype login_result = LoggedIn | LoginFailed | LoginBlocked

text \<open>One attempt.  The clock is read before the check, after a failed one and, as wall clock, after a
  successful one.\<close>

definition attempt_login ::
  "login_manager \<Rightarrow> verifier \<Rightarrow> string \<times> string \<Rightarrow> string \<Rightarrow> int \<Rightarrow> int \<Rightarrow> int \<Rightarrow> auth_state \<Rightarrow> login_result res \<times> auth_state" where
  "attempt_login lm verify submitted source t1 t2 wall st =
     (let (allowed, l1) = allows_attempt source t1 (as_limiter st); st1 = st\<lparr>as_limiter := l1\<rparr> in
      if \<not> allowed then (Inr LoginBlocked, st1)
      else (case verify_credentials verify (fst submitted) (snd submitted) (li_username lm) (li_hash lm) of
          Inl e \<Rightarrow> (Inl e, st1)
        | Inr ok \<Rightarrow>
            if \<not> ok then (Inr LoginFailed, st1\<lparr>as_limiter := record_failure source t2 l1\<rparr>)
            else (Inr LoggedIn, st1\<lparr>as_limiter := reset_failures source l1,
              as_session := [(''authenticated'', SBool True), (''username'', SText (li_username lm)), (''expires_at'', SNum (wall + li_lifetime lm))]\<rparr>)))"

text \<open>\<open>float(...)\<close> of a session value; \<open>ftext\<close> reads a text.\<close>

definition float_of :: "(string \<Rightarrow> int option) \<Rightarrow> sval \<Rightarrow> int option" where
  "float_of ftext v = (case v of SNum n \<Rightarrow> Some n | SBool b \<Rightarrow> Some (if b then 1 else 0) | SText t \<Rightarrow> ftext t | SNone \<Rightarrow> None)"

definition session_is_authenticated :: "(string \<Rightarrow> int option) \<Rightarrow> int \<Rightarrow> session \<Rightarrow> bool" where
  "session_is_authenticated ftext now s =
     (if map_of s ''authenticated'' \<noteq> Some (SBool True) then False
      else (case float_of ftext (case map_of s ''expires_at'' of None \<Rightarrow> SNum 0 | Some v \<Rightarrow> v) of
          None \<Rightarrow> False | Some expires_at \<Rightarrow> now < expires_at))"

section \<open>URLs\<close>

text \<open>The first position of one of the characters, and what \<open>partition\<close> makes of it.\<close>

definition split_at :: "char set \<Rightarrow> string \<Rightarrow> string \<times> string" where
  "split_at cs s = (takeWhile (\<lambda>c. c \<notin> cs) s, dropWhile (\<lambda>c. c \<notin> cs) s)"

definition scheme_char :: "char \<Rightarrow> bool" where
  "scheme_char c \<longleftrightarrow> (let n = of_char c :: nat in (48 \<le> n \<and> n \<le> 57) \<or> (65 \<le> n \<and> n \<le> 90) \<or> (97 \<le> n \<and> n \<le> 122)) \<or>
     c \<in> {CHR ''+'', CHR ''-'', CHR ''.''}"

definition ascii_letter :: "char \<Rightarrow> bool" where
  "ascii_letter c \<longleftrightarrow> (let n = of_char c :: nat in (65 \<le> n \<and> n \<le> 90) \<or> (97 \<le> n \<and> n \<le> 122))"

record url_parts =
  u_scheme :: string
  u_netloc :: string
  u_path :: string
  u_query :: string
  u_fragment :: string

definition url_scheme :: "string \<Rightarrow> string \<times> string" where
  "url_scheme url = (let (pre, rest) = split_at {CHR '':''} url in
     if rest \<noteq> [] \<and> pre \<noteq> [] \<and> ascii_letter (hd pre) \<and> list_all scheme_char pre then (lower pre, tl rest) else ([], url))"

text \<open>\<open>urlsplit\<close> of a text without control characters and surrounding blanks; \<open>netloc_ok\<close> is the check of
  the bracketed host and of its normalisation, which raises a \<open>ValueError\<close>.\<close>

definition urlsplit :: "(string \<Rightarrow> bool) \<Rightarrow> string \<Rightarrow> url_parts res" where
  "urlsplit netloc_ok url =
     (let (scheme, rest) = url_scheme url;
          (netloc, rest1) = (if starts_with rest ''//'' then split_at {CHR ''/'', CHR ''?'', CHR ''#''} (drop 2 rest) else ([], rest));
          (rest2, frag) = split_at {CHR ''#''} rest1;
          (path, query) = split_at {CHR ''?''} rest2 in
      if starts_with rest ''//'' \<and> \<not> netloc_ok netloc then Inl (ValueError ''bad netloc'')
      else Inr \<lparr>u_scheme = scheme, u_netloc = netloc, u_path = path, u_query = drop 1 query, u_fragment = drop 1 frag\<rparr>)"

definition hex_val :: "char \<Rightarrow> nat option" where
  "hex_val c = (let n = of_char c :: nat in
     if 48 \<le> n \<and> n \<le> 57 then Some (n - 48) else if 65 \<le> n \<and> n \<le> 70 then Some (n - 55) else if 97 \<le> n \<and> n \<le> 102 then Some (n - 87) else None)"

text \<open>\<open>unquote\<close>, byte by byte: decoding the bytes as UTF-8 leaves every ASCII byte in its place.\<close>

fun unquote :: "string \<Rightarrow> string" where
  "unquote (c # d # e # s) = (if c = CHR ''%'' then (case (hex_val d, hex_val e) of
       (Some m, Some n) \<Rightarrow> char_of (16 * m + n) # unquote s | _ \<Rightarrow> c # unquote (d # e # s))
     else c # unquote (d # e # s))"
| "unquote s = s"

text \<open>\<open>urlunsplit\<close> with a path that does not start with two slashes and a query only.\<close>

definition urlunsplit_path :: "string \<Rightarrow> string \<Rightarrow> string" where
  "urlunsplit_path path query = (if query = [] then path else path @ ''?'' @ query)"

definition sanitize_redirect_target :: "(string \<Rightarrow> bool) \<Rightarrow> string option \<Rightarrow> string res" where
  "sanitize_redirect_target netloc_ok value = (let candidate = strip (opt_str value) in
     if candidate = [] \<or> list_ex (\<lambda>c. (of_char c :: nat) < 32) candidate then Inr ''/''
     else rbind (urlsplit netloc_ok candidate) (\<lambda>parsed. (let decoded = unquote (u_path parsed) in
       if u_scheme parsed \<noteq> [] \<or> u_netloc parsed \<noteq> [] \<or> u_fragment parsed \<noteq> [] \<or> \<not> starts_with (u_path parsed) ''/'' \<or>
          starts_with (u_path parsed) ''//'' \<or> starts_with decoded ''//'' \<or> CHR 0x5C \<in> set (u_path parsed) \<or> CHR 0x5C \<in> set decoded \<or>
          u_path parsed = ''/login''
       then Inr ''/'' else Inr (urlunsplit_path (u_path parsed) (u_query parsed)))))"

section \<open>The guard\<close>

definition is_public_auth_path :: "string \<Rightarrow> bool" where
  "is_public_auth_path path \<longleftrightarrow> path \<in> {''/login'', ''/favicon.ico''} \<or>
     list_ex (\<lambda>p. path = p \<or> starts_with path (p @ ''/'')) [''/_nicegui'', ''/static'', ''/download'']"

text \<open>A request is served, or the session is emptied and the target kept for after the login.\<close>

datatype guard_answer = Served | ToLogin string

definition guard_request ::
  "(string \<Rightarrow> bool) \<Rightarrow> (string \<Rightarrow> int option) \<Rightarrow> int \<Rightarrow> string \<Rightarrow> string \<Rightarrow> session \<Rightarrow> guard_answer res \<times> session" where
  "guard_request netloc_ok ftext now path query s =
     (if is_public_auth_path path then (Inr Served, s)
      else if session_is_authenticated ftext now s then (Inr Served, s)
      else (case sanitize_redirect_target netloc_ok (Some (if query = [] then path else path @ ''?'' @ query)) of
          Inl e \<Rightarrow> (Inl e, [])
        | Inr target \<Rightarrow> (Inr (ToLogin target), [(''redirect_after_login'', SText target)])))"

end
