(* ===== verification/Auth_Props.thy ===== *)
theory Auth_Props
  imports Auth
begin

text \<open>
  What the login guarantees: the limiter refines a specification over the history of all attempts, a
  page behind the guard is served only within the lifetime of a login with the right credentials,
  and the target after a login is a path of this site.
\<close>

section \<open>The limiter over a history\<close>

type_synonym attempt = "(string \<times> string) \<times> string \<times> int \<times> int \<times> int"

type_synonym event = "string \<times> int \<times> login_result res"

fun run_logins :: "login_manager \<Rightarrow> verifier \<Rightarrow> attempt list \<Rightarrow> auth_state \<Rightarrow> login_result res list" where
  "run_logins lm verify [] st = []"
| "run_logins lm verify ((sub, source, t1, t2, wall) # as) st =
     (case attempt_login lm verify sub source t1 t2 wall st of (r, st') \<Rightarrow> r # run_logins lm verify as st')"

text \<open>The failures of a source since its last success, oldest first.\<close>

definition note_event :: "string \<Rightarrow> int list \<Rightarrow> event \<Rightarrow> int list" where
  "note_event source acc ev = (case ev of (s, t, r) \<Rightarrow> if s \<noteq> source then acc
     else (case r of Inr LoggedIn \<Rightarrow> [] | Inr LoginFailed \<Rightarrow> acc @ [t] | _ \<Rightarrow> acc))"

definition failures_since :: "string \<Rightarrow> event list \<Rightarrow> int list" where
  "failures_since source hist = foldl (note_event source) [] hist"

definition recent_failures :: "int \<Rightarrow> string \<Rightarrow> int \<Rightarrow> event list \<Rightarrow> nat" where
  "recent_failures window source now hist = length (filter (\<lambda>t. now - window < t) (failures_since source hist))"

fun spec_logins :: "login_manager \<Rightarrow> verifier \<Rightarrow> int \<Rightarrow> int \<Rightarrow> event list \<Rightarrow> attempt list \<Rightarrow> login_result res list" where
  "spec_logins lm verify m window hist [] = []"
| "spec_logins lm verify m window hist ((sub, source, t1, t2, wall) # as) =
     (let r = (if m \<le> int (recent_failures window source t1 hist) then Inr LoginBlocked
        else rbind (verify_credentials verify (fst sub) (snd sub) (li_username lm) (li_hash lm)) (\<lambda>ok. Inr (if ok then LoggedIn else LoginFailed)))
      in r # spec_logins lm verify m window (hist @ [(source, t2, r)]) as)"

text \<open>The clock does not run backwards.\<close>

fun clock_ok :: "int \<Rightarrow> attempt list \<Rightarrow> bool" where
  "clock_ok now [] \<longleftrightarrow> True"
| "clock_ok now ((sub, source, t1, t2, wall) # as) \<longleftrightarrow> now \<le> t1 \<and> t1 \<le> t2 \<and> clock_ok t2 as"

definition kept :: "limiter \<Rightarrow> string \<Rightarrow> int list" where
  "kept l source = (case map_of (lm_failures l) source of None \<Rightarrow> [] | Some ts \<Rightarrow> ts)"

definition tracks :: "int \<Rightarrow> int \<Rightarrow> event list \<Rightarrow> int \<Rightarrow> limiter \<Rightarrow> bool" where
  "tracks m window hist now l \<longleftrightarrow> lm_max l = m \<and> lm_window l = window \<and> 0 < window \<and>
     (\<forall>source. sorted (kept l source) \<and> (\<forall>t\<in>set (kept l source). t \<le> now) \<and>
        (\<forall>from\<ge>now - window. filter (\<lambda>t. from < t) (kept l source) = filter (\<lambda>t. from < t) (failures_since source hist)))"

lemma dropWhile_sorted: "sorted (xs :: int list) \<Longrightarrow> dropWhile (\<lambda>t. t \<le> a) xs = filter (\<lambda>t. a < t) xs"
proof (induction xs)
  case (Cons x xs)
  then show ?case by (cases "x \<le> a") (auto intro!: filter_True [symmetric])
qed simp

lemma kept_simps:
  "kept (l\<lparr>lm_failures := AList.delete source (lm_failures l)\<rparr>) s = (if s = source then [] else kept l s)"
  "kept (l\<lparr>lm_failures := AList.update source ts (lm_failures l)\<rparr>) s = (if s = source then ts else kept l s)"
  by (simp_all add: kept_def delete_conv' update_conv')

lemma active_kept:
  "fst (active_failures source now l) = dropWhile (\<lambda>t. t \<le> now - lm_window l) (kept l source)"
  "kept (snd (active_failures source now l)) s = (if s = source then dropWhile (\<lambda>t. t \<le> now - lm_window l) (kept l source) else kept l s)"
  "lm_max (snd (active_failures source now l)) = lm_max l" "lm_window (snd (active_failures source now l)) = lm_window l"
proof -
  let ?fs = "dropWhile (\<lambda>t. t \<le> now - lm_window l) (kept l source)"
  have a: "active_failures source now l = (?fs, l\<lparr>lm_failures :=
      (if ?fs = [] then AList.delete source (lm_failures l) else AList.update source ?fs (lm_failures l))\<rparr>)"
    unfolding active_failures_def Let_def kept_def by (rule refl)
  show "fst (active_failures source now l) = ?fs" "lm_max (snd (active_failures source now l)) = lm_max l"
    "lm_window (snd (active_failures source now l)) = lm_window l" by (simp_all add: a)
  show "kept (snd (active_failures source now l)) s = (if s = source then ?fs else kept l s)"
    unfolding a snd_conv by (cases "?fs = []") (simp_all only: simp_thms if_True if_False kept_simps)
qed

lemma active_tracks:
  assumes "tracks m window hist now l" "now \<le> t"
  shows "tracks m window hist t (snd (active_failures source t l))"
    "length (fst (active_failures source t l)) = recent_failures window source t hist"
proof -
  have k: "sorted (kept l s)" "\<forall>x\<in>set (kept l s). x \<le> now"
    "from \<ge> now - window \<Longrightarrow> filter (\<lambda>x. from < x) (kept l s) = filter (\<lambda>x. from < x) (failures_since s hist)" for s "from"
    using assms(1) unfolding tracks_def by blast+
  have w: "lm_window l = window" "lm_max l = m" "0 < window" using assms(1) unfolding tracks_def by blast+
  have d: "dropWhile (\<lambda>x. x \<le> t - window) (kept l source) = filter (\<lambda>x. t - window < x) (kept l source)"
    by (rule dropWhile_sorted [OF k(1)])
  show "length (fst (active_failures source t l)) = recent_failures window source t hist"
    unfolding active_kept w d recent_failures_def using k(3) [of "t - window" source] assms(2) by simp
  have e: "filter (\<lambda>x. from < x) (filter (\<lambda>x. t - window < x) (kept l source)) = filter (\<lambda>x. from < x) (failures_since source hist)"
    if "t - window \<le> from" for "from"
  proof -
    have "filter (\<lambda>x. from < x) (filter (\<lambda>x. t - window < x) (kept l source)) = filter (\<lambda>x. from < x) (kept l source)"
      unfolding filter_filter by (rule filter_cong) (use that in auto)
    then show ?thesis using k(3) [of "from" source] that assms(2) by simp
  qed
  show "tracks m window hist t (snd (active_failures source t l))"
  proof (unfold tracks_def active_kept w d, intro conjI allI impI)
    fix s
    show "sorted (if s = source then filter (\<lambda>x. t - window < x) (kept l source) else kept l s)"
      using k(1) sorted_filter [of id "kept l source"] by simp
    show "\<forall>x\<in>set (if s = source then filter (\<lambda>x. t - window < x) (kept l source) else kept l s). x \<le> t"
      using k(2) assms(2) by (auto dest: order_trans)
    fix "from" assume "t - window \<le> from"
    then show "filter (\<lambda>x. from < x) (if s = source then filter (\<lambda>x. t - window < x) (kept l source) else kept l s) =
        filter (\<lambda>x. from < x) (failures_since s hist)" using e [of "from"] k(3) [of "from" s] assms(2) by simp
  qed (use w(3) in simp_all)
qed

lemma note_snoc: "failures_since s (hist @ [ev]) = note_event s (failures_since s hist) ev"
  by (simp add: failures_since_def)

lemma tracks_kept:
  assumes "tracks m window hist t l" "lm_max l' = lm_max l" "lm_window l' = lm_window l" "t \<le> t'"
    and "\<And>s. sorted (kept l' s) \<and> (\<forall>x\<in>set (kept l' s). x \<le> t')"
    and "\<And>s from. from \<ge> t' - window \<Longrightarrow> filter (\<lambda>x. from < x) (kept l' s) = filter (\<lambda>x. from < x) (failures_since s hist')"
  shows "tracks m window hist' t' l'"
  using assms unfolding tracks_def by simp

lemma failure_tracks:
  assumes "tracks m window hist t l"  "t \<le> t2"
  shows "tracks m window (hist @ [(source, t2, Inr LoginFailed)]) t2 (record_failure source t2 l)"
proof -
  obtain fs l2 where a: "active_failures source t2 l = (fs, l2)" by fastforce
  have t: "tracks m window hist t2 l2" using active_tracks(1) [OF assms, of source] by (simp add: a)
  have fs: "fs = kept l2 source" using active_kept(1,2) [of source t2 l] by (simp add: a)
  have k: "sorted (kept l2 s)" "\<forall>x\<in>set (kept l2 s). x \<le> t2"
    "from \<ge> t2 - window \<Longrightarrow> filter (\<lambda>x. from < x) (kept l2 s) = filter (\<lambda>x. from < x) (failures_since s hist)" for s "from"
    using t unfolding tracks_def by blast+
  have r: "record_failure source t2 l = l2\<lparr>lm_failures := AList.update source (fs @ [t2]) (lm_failures l2)\<rparr>"
    by (simp add: record_failure_def a)
  show ?thesis unfolding r
  proof (rule tracks_kept [OF t], simp, simp, simp, unfold kept_simps)
    show "sorted (if s = source then fs @ [t2] else kept l2 s) \<and> (\<forall>x\<in>set (if s = source then fs @ [t2] else kept l2 s). x \<le> t2)" for s
      using k(1,2) [of s] by (auto simp: fs sorted_append)
    show "filter (\<lambda>x. from < x) (if s = source then fs @ [t2] else kept l2 s) = filter (\<lambda>x. from < x) (failures_since s (hist @ [(source, t2, Inr LoginFailed)]))"
      if "from \<ge> t2 - window" for s "from"
      using k(3) [OF that, of s] by (auto simp: fs note_snoc note_event_def)
  qed
qed

lemma success_tracks:
  assumes "tracks m window hist t l" "t \<le> t2"
  shows "tracks m window (hist @ [(source, t2, Inr LoggedIn)]) t2 (reset_failures source l)"
proof -
  have k: "sorted (kept l s)" "\<forall>x\<in>set (kept l s). x \<le> t"
    "from \<ge> t - window \<Longrightarrow> filter (\<lambda>x. from < x) (kept l s) = filter (\<lambda>x. from < x) (failures_since s hist)" for s "from"
    using assms(1) unfolding tracks_def by blast+
  show ?thesis unfolding reset_failures_def
  proof (rule tracks_kept [OF assms(1)], simp, simp, rule assms(2), unfold kept_simps)
    show "sorted (if s = source then [] else kept l s) \<and> (\<forall>x\<in>set (if s = source then [] else kept l s). x \<le> t2)" for s
      using k(1,2) [of s] assms(2) by (auto dest: order_trans)
    show "filter (\<lambda>x. from < x) (if s = source then [] else kept l s) = filter (\<lambda>x. from < x) (failures_since s (hist @ [(source, t2, Inr LoggedIn)]))"
      if "from \<ge> t2 - window" for s "from"
      using k(3) [of "from" s] that assms(2) by (auto simp: note_snoc note_event_def)
  qed
qed

lemma attempt_tracks:
  assumes "tracks m window hist now (as_limiter st)" "now \<le> t1" "t1 \<le> t2"
    and run: "attempt_login lm verify sub source t1 t2 wall st = (r, st')"
  shows "r = (if m \<le> int (recent_failures window source t1 hist) then Inr LoginBlocked
      else rbind (verify_credentials verify (fst sub) (snd sub) (li_username lm) (li_hash lm)) (\<lambda>ok. Inr (if ok then LoggedIn else LoginFailed)))"
    and "tracks m window (hist @ [(source, t2, r)]) t2 (as_limiter st')"
proof -
  obtain fs l1 where a: "active_failures source t1 (as_limiter st) = (fs, l1)" by fastforce
  have t: "tracks m window hist t1 l1" "length fs = recent_failures window source t1 hist"
    using active_tracks [OF assms(1,2), of source] by (simp_all add: a)
  have k: "sorted (kept l1 s)" "\<forall>x\<in>set (kept l1 s). x \<le> t1"
    "from \<ge> t1 - window \<Longrightarrow> filter (\<lambda>x. from < x) (kept l1 s) = filter (\<lambda>x. from < x) (failures_since s hist)" for s "from"
    using t(1) unfolding tracks_def by blast+
  have mx: "lm_max (as_limiter st) = m" using assms(1) by (simp add: tracks_def)
  let ?vc = "verify_credentials verify (fst sub) (snd sub) (li_username lm) (li_hash lm)"
  have allowed: "allows_attempt source t1 (as_limiter st) = (\<not> m \<le> int (recent_failures window source t1 hist), l1)"
    using t(2) mx by (auto simp: allows_attempt_def a)
  show r: "r = (if m \<le> int (recent_failures window source t1 hist) then Inr LoginBlocked
      else rbind ?vc (\<lambda>ok. Inr (if ok then LoggedIn else LoginFailed)))"
    using run unfolding attempt_login_def allowed by (auto simp: Let_def split: if_splits sum.splits)
  have same: "tracks m window (hist @ [(source, t2, r)]) t2 l1" if "r = Inr LoginBlocked \<or> (\<exists>e. r = Inl e)"
  proof (rule tracks_kept [OF t(1) refl refl assms(3)])
    show "sorted (kept l1 s) \<and> (\<forall>x\<in>set (kept l1 s). x \<le> t2)" for s using k(1,2) assms(3) by (auto dest: order_trans)
    show "filter (\<lambda>x. from < x) (kept l1 s) = filter (\<lambda>x. from < x) (failures_since s (hist @ [(source, t2, r)]))"
      if "from \<ge> t2 - window" for s "from"
      using k(3) [of "from" s] that assms(3) \<open>r = Inr LoginBlocked \<or> (\<exists>e. r = Inl e)\<close> by (auto simp: note_snoc note_event_def)
  qed
  consider "r = Inr LoginBlocked \<or> (\<exists>e. r = Inl e)" "as_limiter st' = l1"
    | "r = Inr LoginFailed" "as_limiter st' = record_failure source t2 l1" | "r = Inr LoggedIn" "as_limiter st' = reset_failures source l1"
    using run unfolding attempt_login_def allowed by (auto simp: Let_def split: if_splits sum.splits)
  then show "tracks m window (hist @ [(source, t2, r)]) t2 (as_limiter st')"
  proof cases
    case 1
    then show ?thesis using same by simp
  next
    case 2
    then show ?thesis using failure_tracks [OF t(1) assms(3)] by simp
  next
    case 3
    then show ?thesis using success_tracks [OF t(1) assms(3)] by simp
  qed
qed

lemma run_spec: "tracks m window hist now (as_limiter st) \<Longrightarrow> clock_ok now as \<Longrightarrow>
   run_logins lm verify as st = spec_logins lm verify m window hist as"
proof (induction as arbitrary: st hist now)
  case (Cons a as)
  obtain sub source t1 t2 wall where a: "a = (sub, source, t1, t2, wall)" by (cases a) auto
  obtain r st' where run: "attempt_login lm verify sub source t1 t2 wall st = (r, st')" by fastforce
  have c: "now \<le> t1" "t1 \<le> t2" "clock_ok t2 as" using Cons.prems(2) by (auto simp: a)
  note s = attempt_tracks [OF Cons.prems(1) c(1,2) run]
  show ?case using Cons.IH [OF s(2) c(3)] s(1) by (simp add: a run Let_def)
qed simp

section \<open>Properties of the login\<close>

text \<open>C26. The limiter of failed logins.  For a clock that does not run backwards, a sequence of login attempts has
  exactly the outcomes of the specification: an attempt is blocked when the source has the maximal number of failures
  within the window since its last success, and succeeds or fails by its credentials otherwise.\<close>

theorem login_limiter_refines:
  assumes "new_limiter m window = Inr l" "clock_ok now as"
  shows "run_logins lm verify as \<lparr>as_limiter = l, as_session = s\<rparr> = spec_logins lm verify m window [] as"
proof (rule run_spec [OF _ assms(2)])
  show "tracks m window [] now (as_limiter \<lparr>as_limiter = l, as_session = s\<rparr>)"
    using assms(1) by (auto simp: new_limiter_def tracks_def kept_def failures_since_def split: if_splits)
qed

definition demo_login :: login_manager where
  "demo_login = \<lparr>li_username = ''admin'', li_hash = ''secret'', li_lifetime = 600\<rparr>"

definition demo_verify :: verifier where
  "demo_verify pw hashed = Some (Inr (pw = hashed))"

definition demo_attempts :: "attempt list" where
  "demo_attempts = [((''admin'', ''x''), ''h'', 0, 1, 1), ((''admin'', ''x''), ''h'', 2, 3, 3), ((''admin'', ''secret''), ''h'', 4, 5, 5),
     ((''admin'', ''secret''), ''other'', 6, 7, 7), ((''admin'', ''secret''), ''h'', 12, 13, 13)]"

lemma login_limiter_refines_witness:
  "\<exists>l. new_limiter 2 10 = Inr l \<and> run_logins demo_login demo_verify demo_attempts \<lparr>as_limiter = l, as_session = []\<rparr> =
     [Inr LoginFailed, Inr LoginFailed, Inr LoginBlocked, Inr LoggedIn, Inr LoggedIn]"
proof -
  have l: "new_limiter 2 10 = Inr \<lparr>lm_max = 2, lm_window = 10, lm_failures = []\<rparr>" "clock_ok 0 demo_attempts" by code_simp+
  have "spec_logins demo_login demo_verify 2 10 [] demo_attempts = [Inr LoginFailed, Inr LoginFailed, Inr LoginBlocked, Inr LoggedIn, Inr LoggedIn]"
    by code_simp
  then show ?thesis using login_limiter_refines [OF l, of demo_login demo_verify "[]"] l(1) by auto
qed

section \<open>Sessions\<close>

text \<open>What happens to one browser session: its own login attempts, page requests, logging out; other
  browsers change the limiter only.\<close>

datatype auth_event = Attempt "string \<times> string" int "login_result res" | Page string | Logout | Elsewhere

inductive auth_trace :: "login_manager \<Rightarrow> verifier \<Rightarrow> (string \<Rightarrow> bool) \<Rightarrow> (string \<Rightarrow> int option) \<Rightarrow> auth_event list \<Rightarrow> auth_state \<Rightarrow> bool"
  for lm verify netloc_ok ftext where
  start: "new_limiter m window = Inr l \<Longrightarrow> auth_trace lm verify netloc_ok ftext [] \<lparr>as_limiter = l, as_session = []\<rparr>"
| attempt: "auth_trace lm verify netloc_ok ftext tr st \<Longrightarrow> attempt_login lm verify sub source t1 t2 wall st = (r, st') \<Longrightarrow>
    auth_trace lm verify netloc_ok ftext (tr @ [Attempt sub wall r]) st'"
| page: "auth_trace lm verify netloc_ok ftext tr st \<Longrightarrow> guard_request netloc_ok ftext now path query (as_session st) = (r, s) \<Longrightarrow>
    auth_trace lm verify netloc_ok ftext (tr @ [Page path]) (st\<lparr>as_session := s\<rparr>)"
| logout: "auth_trace lm verify netloc_ok ftext tr st \<Longrightarrow> auth_trace lm verify netloc_ok ftext (tr @ [Logout]) (st\<lparr>as_session := []\<rparr>)"
| elsewhere: "auth_trace lm verify netloc_ok ftext tr st \<Longrightarrow> auth_trace lm verify netloc_ok ftext (tr @ [Elsewhere]) (st\<lparr>as_limiter := l\<rparr>)"

definition session_backed :: "login_manager \<Rightarrow> verifier \<Rightarrow> auth_event list \<Rightarrow> session \<Rightarrow> bool" where
  "session_backed lm verify tr s \<longleftrightarrow> (map_of s ''authenticated'' = Some (SBool True) \<longrightarrow>
     (\<exists>before sub wall after. tr = before @ Attempt sub wall (Inr LoggedIn) # after \<and> Logout \<notin> set after \<and>
        verify_credentials verify (fst sub) (snd sub) (li_username lm) (li_hash lm) = Inr True \<and>
        map_of s ''expires_at'' = Some (SNum (wall + li_lifetime lm))))"

lemma backed_snoc:
  assumes "session_backed lm verify tr s" "ev \<noteq> Logout"
  shows "session_backed lm verify (tr @ [ev]) s"
  unfolding session_backed_def
proof
  assume "map_of s ''authenticated'' = Some (SBool True)"
  then obtain before sub wall after where b: "tr = before @ Attempt sub wall (Inr LoggedIn) # after" "Logout \<notin> set after"
    "verify_credentials verify (fst sub) (snd sub) (li_username lm) (li_hash lm) = Inr True"
    "map_of s ''expires_at'' = Some (SNum (wall + li_lifetime lm))" using assms(1) unfolding session_backed_def by blast
  have "tr @ [ev] = before @ Attempt sub wall (Inr LoggedIn) # (after @ [ev])" "Logout \<notin> set (after @ [ev])" using b(1,2) assms(2) by auto
  then show "\<exists>before sub wall after. tr @ [ev] = before @ Attempt sub wall (Inr LoggedIn) # after \<and> Logout \<notin> set after \<and>
      verify_credentials verify (fst sub) (snd sub) (li_username lm) (li_hash lm) = Inr True \<and>
      map_of s ''expires_at'' = Some (SNum (wall + li_lifetime lm))" using b(3,4) by blast
qed

lemma unauthenticated_backed: "map_of s ''authenticated'' \<noteq> Some (SBool True) \<Longrightarrow> session_backed lm verify tr s"
  by (simp add: session_backed_def)

lemma attempt_session:
  assumes "attempt_login lm verify sub source t1 t2 wall st = (r, st')" "session_backed lm verify tr (as_session st)"
  shows "session_backed lm verify (tr @ [Attempt sub wall r]) (as_session st')"
proof -
  consider "as_session st' = as_session st"
    | "r = Inr LoggedIn" "verify_credentials verify (fst sub) (snd sub) (li_username lm) (li_hash lm) = Inr True"
      "as_session st' = [(''authenticated'', SBool True), (''username'', SText (li_username lm)), (''expires_at'', SNum (wall + li_lifetime lm))]"
    using assms(1) by (auto simp: attempt_login_def Let_def split: prod.splits if_splits sum.splits)
  then show ?thesis
  proof cases
    case 1
    then show ?thesis using backed_snoc [OF assms(2)] by simp
  next
    case 2
    have "tr @ [Attempt sub wall r] = tr @ Attempt sub wall (Inr LoggedIn) # []" "Logout \<notin> set []" using 2(1) by simp_all
    moreover have "map_of (as_session st') ''expires_at'' = Some (SNum (wall + li_lifetime lm))" using 2(3) by simp
    ultimately show ?thesis using 2(2) unfolding session_backed_def by blast
  qed
qed

lemma trace_backed: "auth_trace lm verify netloc_ok ftext tr st \<Longrightarrow> session_backed lm verify tr (as_session st)"
proof (induction rule: auth_trace.induct)
  case (start m window l)
  then show ?case by (simp add: unauthenticated_backed)
next
  case (attempt tr st sub source t1 t2 wall r st')
  then show ?case by (blast intro: attempt_session)
next
  case (page tr st now path query r s)
  then have "s = as_session st \<or> map_of s ''authenticated'' \<noteq> Some (SBool True)"
    by (auto simp: guard_request_def split: if_splits sum.splits)
  then show ?case using backed_snoc [OF page.IH] by (auto intro: unauthenticated_backed)
next
  case (logout tr st)
  then show ?case by (simp add: unauthenticated_backed)
next
  case (elsewhere tr st l)
  then show ?case using backed_snoc by simp
qed

text \<open>C27. The guard in front of the pages.  When a page that is not public is served, the last login of the
  session, since which nobody logged out, had the configured user name and a password the hash accepts, and its
  lifetime is not over.\<close>

theorem guarded_pages_need_login:
  assumes "auth_trace lm verify netloc_ok ftext tr st" "\<not> is_public_auth_path path"
    and "guard_request netloc_ok ftext now path query (as_session st) = (Inr Served, s)"
  shows "\<exists>before sub wall after. tr = before @ Attempt sub wall (Inr LoggedIn) # after \<and> Logout \<notin> set after \<and>
    fst sub = li_username lm \<and> verify (snd sub) (li_hash lm) = Some (Inr True) \<and> now < wall + li_lifetime lm"
proof -
  have a: "map_of (as_session st) ''authenticated'' = Some (SBool True)" "session_is_authenticated ftext now (as_session st)"
    using assms(2,3) by (auto simp: guard_request_def session_is_authenticated_def split: if_splits sum.splits)
  obtain before sub wall after where t: "tr = before @ Attempt sub wall (Inr LoggedIn) # after" "Logout \<notin> set after"
    "verify_credentials verify (fst sub) (snd sub) (li_username lm) (li_hash lm) = Inr True"
    "map_of (as_session st) ''expires_at'' = Some (SNum (wall + li_lifetime lm))"
    using trace_backed [OF assms(1)] a(1) unfolding session_backed_def by blast
  have "fst sub = li_username lm \<and> verify (snd sub) (li_hash lm) = Some (Inr True)"
    using t(3) by (auto simp: verify_credentials_def compare_digest_def rbind_Inr_iff password_ok_def split: if_splits option.splits sum.splits exn.splits)
  moreover have "now < wall + li_lifetime lm" using a t(4) by (simp add: session_is_authenticated_def float_of_def)
  ultimately show ?thesis using t(1,2) by blast
qed

lemma guarded_pages_need_login_witness:
  "\<exists>st s. auth_trace demo_login demo_verify (\<lambda>_. True) (\<lambda>_. None) [Attempt (''admin'', ''secret'') 5 (Inr LoggedIn)] st \<and>
     guard_request (\<lambda>_. True) (\<lambda>_. None) 100 ''/users'' [] (as_session st) = (Inr Served, s) \<and> (100 :: int) < 5 + li_lifetime demo_login"
proof -
  let ?l = "\<lparr>lm_max = 2, lm_window = 10, lm_failures = []\<rparr>"
  have n: "new_limiter 2 10 = Inr ?l" by code_simp
  have run: "case attempt_login demo_login demo_verify (''admin'', ''secret'') ''h'' 4 5 5 \<lparr>as_limiter = ?l, as_session = []\<rparr> of
      (r, st) \<Rightarrow> r = Inr LoggedIn \<and> fst (guard_request (\<lambda>_. True) (\<lambda>_. None) 100 ''/users'' [] (as_session st)) = Inr Served"
    by code_simp
  obtain st s where st: "attempt_login demo_login demo_verify (''admin'', ''secret'') ''h'' 4 5 5 \<lparr>as_limiter = ?l, as_session = []\<rparr> = (Inr LoggedIn, st)"
    "guard_request (\<lambda>_. True) (\<lambda>_. None) 100 ''/users'' [] (as_session st) = (Inr Served, s)"
    using run by (auto simp: prod_eq_iff split: prod.splits)
  have tr: "auth_trace demo_login demo_verify (\<lambda>_. True) (\<lambda>_. None) [Attempt (''admin'', ''secret'') 5 (Inr LoggedIn)] st"
    using auth_trace.attempt [OF auth_trace.start [OF n] st(1)] by simp
  have "\<not> is_public_auth_path ''/users''" by code_simp
  from guarded_pages_need_login [OF tr this st(2)] show ?thesis using tr st(2) by (auto simp: Cons_eq_append_conv)
qed

section \<open>The target after a login\<close>

lemma split_at_facts:
  assumes "split_at cs s = (a, b)"
  shows "s = a @ b" "set a \<inter> cs = {}" "b = [] \<or> hd b \<in> cs"
proof -
  have e: "a = takeWhile (\<lambda>c. c \<notin> cs) s" "b = dropWhile (\<lambda>c. c \<notin> cs) s" using assms by (simp_all add: split_at_def)
  show "s = a @ b" by (simp add: e)
  show "set a \<inter> cs = {}" unfolding e by (auto dest: set_takeWhileD)
  show "b = [] \<or> hd b \<in> cs" using hd_dropWhile [of "\<lambda>c. c \<notin> cs" s] unfolding e by blast
qed

lemma split_at_eq: "set a \<inter> cs = {} \<Longrightarrow> b = [] \<or> hd b \<in> cs \<Longrightarrow> split_at cs (a @ b) = (a, b)"
proof -
  assume a: "set a \<inter> cs = {}" and b: "b = [] \<or> hd b \<in> cs"
  have "\<forall>x\<in>set a. x \<notin> cs" using a by blast
  then show ?thesis using b by (cases b) (simp_all add: split_at_def takeWhile_append2 dropWhile_append2)
qed

lemma local_urlsplit:
  assumes "starts_with path ''/''" "\<not> starts_with path ''//''" "CHR ''?'' \<notin> set path" "CHR ''#'' \<notin> set path" "CHR ''#'' \<notin> set query"
  shows "urlsplit netloc_ok (urlunsplit_path path query) = Inr \<lparr>u_scheme = [], u_netloc = [], u_path = path, u_query = query, u_fragment = []\<rparr>"
proof -
  let ?r = "urlunsplit_path path query" and ?q = "if query = [] then [] else ''?'' @ query"
  obtain rest where path: "path = CHR ''/'' # rest" using assms(1) by (cases path) (auto simp: starts_with_def)
  have r: "?r = path @ ?q" by (simp add: urlunsplit_path_def)
  have two: "\<not> starts_with ?r ''//''" using assms(2) unfolding r unfolding path by (cases rest) (auto simp: starts_with_def)
  have scheme: "url_scheme ?r = ([], ?r)" unfolding r unfolding path by (simp add: url_scheme_def split_at_def ascii_letter_def)
  have frag: "split_at {CHR ''#''} ?r = (?r, [])" using split_at_eq [of ?r "{CHR ''#''}" "[]"] assms(4,5) unfolding r by simp
  have query: "split_at {CHR ''?''} ?r = (path, ?q)" unfolding r by (rule split_at_eq) (use assms(3) in simp_all)
  show ?thesis unfolding urlsplit_def Let_def scheme using two by (simp add: frag query)
qed

text \<open>C28. No redirection to another site.  Whatever text asks for a target after the login, the target parses as a path of
  this site with a query only: no scheme, no host, one leading slash even after percent decoding, no backslash, no control
  character, and not the login page.\<close>

theorem redirect_stays_on_site:
  assumes "sanitize_redirect_target netloc_ok v = Inr r"
  shows "\<exists>path query. urlsplit netloc_ok r = Inr \<lparr>u_scheme = [], u_netloc = [], u_path = path, u_query = query, u_fragment = []\<rparr> \<and>
    starts_with path ''/'' \<and> \<not> starts_with path ''//'' \<and> \<not> starts_with (unquote path) ''//'' \<and>
    CHR 0x5C \<notin> set path \<and> CHR 0x5C \<notin> set (unquote path) \<and> path \<noteq> ''/login'' \<and> list_all (\<lambda>c. 32 \<le> (of_char c :: nat)) r"
proof (cases "r = ''/''")
  case True
  have h: "starts_with ''/'' ''/''" "\<not> starts_with ''/'' ''//''" "\<not> starts_with (unquote ''/'') ''//''" "CHR 0x5C \<notin> set (unquote ''/'')" by code_simp+
  have "urlsplit netloc_ok ''/'' = Inr \<lparr>u_scheme = [], u_netloc = [], u_path = ''/'', u_query = [], u_fragment = []\<rparr>"
    using local_urlsplit [OF h(1,2), of "[]"] by (simp add: urlunsplit_path_def)
  then show ?thesis unfolding True using h by (intro exI [of _ "''/''"] exI [of _ "[]"]) simp
next
  case False
  let ?c = "strip (opt_str v)"
  obtain parsed where p: "urlsplit netloc_ok ?c = Inr parsed" "list_all (\<lambda>c. 32 \<le> (of_char c :: nat)) ?c"
    "u_scheme parsed = []" "u_netloc parsed = []" "u_fragment parsed = []" "starts_with (u_path parsed) ''/''"
    "\<not> starts_with (u_path parsed) ''//''" "\<not> starts_with (unquote (u_path parsed)) ''//''" "CHR 0x5C \<notin> set (u_path parsed)"
    "CHR 0x5C \<notin> set (unquote (u_path parsed))" "u_path parsed \<noteq> ''/login''" "r = urlunsplit_path (u_path parsed) (u_query parsed)"
    using assms False unfolding sanitize_redirect_target_def Let_def
    by (auto simp: rbind_Inr_iff list_ex_iff list_all_iff not_less split: if_splits)
  obtain rest2 frag path query rest1 where s: "split_at {CHR ''#''} rest1 = (rest2, frag)" "split_at {CHR ''?''} rest2 = (path, query)"
    "u_path parsed = path" "u_query parsed = drop 1 query" "set rest1 \<subseteq> set ?c"
  proof -
    obtain scheme rest where u: "url_scheme ?c = (scheme, rest)" by fastforce
    have "rest = tl (snd (split_at {CHR '':''} ?c)) \<or> rest = ?c" using u by (simp add: url_scheme_def case_prod_unfold Let_def split: if_splits)
    moreover have "set (tl l) \<subseteq> set l" for l :: string by (cases l) auto
    moreover have "set (snd (split_at {CHR '':''} ?c)) \<subseteq> set ?c" using set_dropWhileD by (fastforce simp: split_at_def)
    ultimately have sr: "set rest \<subseteq> set ?c" by blast
    obtain netloc rest1 where n: "(if starts_with rest ''//'' then split_at {CHR ''/'', CHR ''?'', CHR ''#''} (drop 2 rest) else ([], rest)) = (netloc, rest1)"
      by fastforce
    have "set rest1 \<subseteq> set rest" using n by (auto simp: split_at_def split: if_splits dest: set_dropWhileD in_set_dropD)
    then have c: "set rest1 \<subseteq> set ?c" using sr by blast
    obtain rest2 frag where f: "split_at {CHR ''#''} rest1 = (rest2, frag)" by fastforce
    obtain path query where q: "split_at {CHR ''?''} rest2 = (path, query)" by fastforce
    have "u_path parsed = path" "u_query parsed = drop 1 query"
      using p(1) unfolding urlsplit_def Let_def u prod.case n f q by (auto split: if_splits)
    then show ?thesis using that [OF f q _ _ c] by blast
  qed
  note f = split_at_facts [OF s(1)] split_at_facts [OF s(2)]
  have sub: "set path \<subseteq> set rest2" "set (drop 1 query) \<subseteq> set rest2" using f(4) by (auto dest: in_set_dropD)
  have chars: "CHR ''#'' \<notin> set path" "CHR ''#'' \<notin> set (drop 1 query)" "CHR ''?'' \<notin> set path" using f(2,5) sub by auto
  have "urlsplit netloc_ok r = Inr \<lparr>u_scheme = [], u_netloc = [], u_path = path, u_query = drop 1 query, u_fragment = []\<rparr>"
    using local_urlsplit [OF p(6,7), of "u_query parsed" netloc_ok] chars unfolding p(12) s(3,4) by simp
  moreover have "set r \<subseteq> insert (CHR ''?'') (set ?c)" unfolding p(12) s(3,4) urlunsplit_path_def using sub f(1) s(5) by auto
  then have "list_all (\<lambda>c. 32 \<le> (of_char c :: nat)) r" using p(2) by (auto simp: list_all_iff subset_iff)
  ultimately show ?thesis using p(6-11) unfolding s(3) by blast
qed

lemma redirect_stays_on_site_witness:
  "sanitize_redirect_target (\<lambda>_. True) (Some '' /users?page=2 '') = Inr ''/users?page=2'' \<and>
   (\<exists>path query. urlsplit (\<lambda>_. True) ''/users?page=2'' = Inr \<lparr>u_scheme = [], u_netloc = [], u_path = path, u_query = query, u_fragment = []\<rparr>) \<and>
   sanitize_redirect_target (\<lambda>_. True) (Some ''/%2Fevil.example'') = Inr ''/''"
proof -
  have s: "sanitize_redirect_target (\<lambda>_. True) (Some '' /users?page=2 '') = Inr ''/users?page=2''"
    "sanitize_redirect_target (\<lambda>_. True) (Some ''/%2Fevil.example'') = Inr ''/''" by code_simp+
  show ?thesis using redirect_stays_on_site [OF s(1)] s by blast
qed

end

