(* ===== verification/Peer_Types.thy ===== *)
theory Peer_Types
  imports Peer_Frames Demo
begin

text \<open>
  The type of a stored peer site.  \<open>PeerInstance\<close> gives every field the service writes a normal form:
  the record of a reachable store has it, building it again from its own fields changes nothing.
\<close>

section \<open>Typed records\<close>

definition tidy :: "string \<Rightarrow> bool" where
  "tidy s \<longleftrightarrow> strip s = s"

definition typed_peer :: "netaddr \<Rightarrow> peer \<Rightarrow> bool" where
  "typed_peer na p \<longleftrightarrow>
     bound_username p \<noteq> [] \<and> tidy (bound_username p) \<and>
     (\<forall>c\<in>set (lan_cidrs p). c \<noteq> [] \<and> tidy c \<and> validate_cidr na c) \<and>
     1 \<le> center_forward_priority p \<and> 1 \<le> ssh_port p \<and> ssh_port p \<le> 65535 \<and>
     tidy (center_forward_dest_ip p) \<and> tidy (center_forward_dest_port p) \<and> tidy (center_forward_rule_description p) \<and>
     center_forward_protocol p \<noteq> [] \<and> tidy (center_forward_protocol p) \<and> lower (center_forward_protocol p) = center_forward_protocol p \<and>
     distinct (mesh_route_visible_group_ids p) \<and> (\<forall>g\<in>set (mesh_route_visible_group_ids p). g \<noteq> [] \<and> tidy g) \<and>
     tidy (ssh_username p) \<and> tidy (ssh_openvpn_binary p)"

lemma tidy_strip [simp]: "tidy (strip s)"
  by (simp add: tidy_def)

lemma strip_all_tidy: "t \<in> set (strip_all ts) \<Longrightarrow> t \<noteq> [] \<and> tidy t"
  by (auto simp: strip_all_def)

lemma tidy_lower: "tidy s \<Longrightarrow> tidy (lower s)"
proof -
  assume a: "tidy s"
  show "tidy (lower s)"
  proof (cases "s = []")
    case False
    have "\<not> py_space (hd s)" "\<not> py_space (last s)" using strip_hd [of s] strip_last [of s] a False by (auto simp: tidy_def)
    then show ?thesis
      unfolding tidy_def lower_def by (intro strip_eqI) (use False in \<open>auto simp: last_map hd_map\<close>)
  qed (simp add: tidy_def lower_def)
qed

lemma center_proto_typed: "center_proto v \<noteq> [] \<and> tidy (center_proto v) \<and> lower (center_proto v) = center_proto v"
proof -
  have "tidy ''all''" "lower ''all'' = ''all''" by (simp_all add: tidy_def, code_simp+)
  then show ?thesis by (auto simp: center_proto_def Let_def tidy_lower)
qed

lemma center_proto_id: "s \<noteq> [] \<Longrightarrow> tidy s \<Longrightarrow> lower s = s \<Longrightarrow> center_proto s = s"
  by (simp add: center_proto_def tidy_def)

lemma mk_peer_typed: "mk_peer na p = Inr q \<Longrightarrow> typed_peer na q"
  using center_proto_typed [of "center_forward_protocol p"]
  by (auto simp: mk_peer_def typed_peer_def validate_bound_username_def validate_mesh_group_ids_def Let_def
      rbind_Inr_iff dest!: validate_lan_cidrs_InrD dest: strip_all_tidy split: if_splits)

lemma tidy_texts_kept: "\<forall>t\<in>set ts. t \<noteq> [] \<and> tidy t \<Longrightarrow> strip_all ts = ts"
  by (induction ts) (auto simp: strip_all_def tidy_def)

lemma dedup_id: "distinct xs \<Longrightarrow> dedup xs = xs"
  by (simp add: dedup_def distinct_remdups_id)

lemma typed_peer_again: "typed_peer na p \<Longrightarrow> mk_peer na p = Inr p"
proof -
  assume t: "typed_peer na p"
  have "validate_lan_cidrs na (lan_cidrs p) = Inr (lan_cidrs p)"
    unfolding validate_lan_cidrs_def mapM_guard_iff using t tidy_texts_kept [of "lan_cidrs p"] by (auto simp: typed_peer_def)
  moreover have "validate_mesh_group_ids (mesh_route_visible_group_ids p) = mesh_route_visible_group_ids p"
    unfolding validate_mesh_group_ids_def using t tidy_texts_kept [of "mesh_route_visible_group_ids p"]
      dedup_id [of "mesh_route_visible_group_ids p"] by (simp add: typed_peer_def)
  ultimately show ?thesis
    using t center_proto_id [of "center_forward_protocol p"]
    by (simp add: mk_peer_def typed_peer_def validate_bound_username_def tidy_def)
qed

section \<open>Typed stores\<close>

definition peers_typed :: "netaddr \<Rightarrow> db \<Rightarrow> bool" where
  "peers_typed na d \<longleftrightarrow> (\<forall>r\<in>set (db_peers d). typed_peer na (pr_payload r))"

lemma peers_typed_list: "peers_typed na d \<longleftrightarrow> (\<forall>p\<in>set (list_peers d). typed_peer na p)"
  by (simp add: peers_typed_def list_peers_def)

lemma peers_typed_get: "peers_typed na d \<Longrightarrow> get_peer pid d = Some p \<Longrightarrow> typed_peer na p"
  by (auto simp: peers_typed_def get_peer_def get_peer_row_def dest: tbl_get_SomeD)

lemma upsert_peer_typed:
  assumes "typed_peer na p" "peers_typed na d" "upsert_peer p d = Inr d'"
  shows "peers_typed na d'"
proof -
  let ?p = "p\<lparr>p_id := strip (p_id p)\<rparr>"
  have "typed_peer na ?p" using assms(1) by (simp add: typed_peer_def)
  moreover have "set (db_peers d') \<subseteq> insert (peer_values (strip (p_id p)) ?p) (set (db_peers d))"
    using assms(3) by (auto simp: upsert_peer_def Let_def put_peer_def split: if_splits dest!: set_mp [OF set_tbl_upsert_sub])
  ultimately show ?thesis using assms(2) by (auto simp: peers_typed_def)
qed

lemma delete_peer_typed: "peers_typed na d \<Longrightarrow> peers_typed na (delete_peer pid d)"
  by (auto simp: peers_typed_def delete_peer_def tbl_delete_def)

interpretation typed: peer_store na "peers_typed na" for na
  by unfold_locales (auto intro: upsert_peer_typed mk_peer_typed delete_peer_typed)

section \<open>The property\<close>

text \<open>C40. The type of the stored peer sites.  \<open>PeerInstance(**data)\<close> yields a record in normal form (the bound user not
  empty, every text without surrounding blanks, valid networks, a priority of at least 1, a port between 1 and 65535, a protocol
  in lower case, no group twice), and after any sequence of requests to the peer service that started without peer sites, whether
  the single requests return or raise, every stored record is in that form and building it again from its fields changes nothing.\<close>

theorem stored_peers_typed:
  assumes "list_peers (s_db s) = []" "peer_run w reqs s = Some t"
  shows "(\<forall>p\<in>set (list_peers (s_db t)). typed_peer (w_na w) p \<and> mk_peer (w_na w) p = Inr p) \<and>
    (\<forall>data q. mk_peer (w_na w) data = Inr q \<longrightarrow> typed_peer (w_na w) q)"
proof -
  have "peers_typed (w_na w) (s_db t)"
    using typed.run_keeps [OF refl _ assms(2)] assms(1) by (simp add: peers_typed_list)
  then show ?thesis using typed_peer_again mk_peer_typed unfolding peers_typed_list by blast
qed

text \<open>A run: the first request creates a site, the second raises because its user is bound already, the third raises because the
  priority is refused, the fourth changes the networks and the protocol.\<close>

definition demo_peer_reqs :: "peer_req list" where
  "demo_peer_reqs = [PeerCreate (demo_peer ['' 192.168.7.0/24'']), PeerCreate ((demo_peer [])\<lparr>p_id := ''p2''\<rparr>), PeerPriority ''p1'' 0,
     PeerUpdate ''p1'' (\<lambda>p. p\<lparr>lan_cidrs := ['' 192.168.9.0/24 '', []], center_forward_protocol := '' TCP''\<rparr>) True]"

lemma stored_peers_typed_witness:
  "case peer_run (demo_world False) demo_peer_reqs demo_sys of None \<Rightarrow> False | Some t \<Rightarrow>
     map (\<lambda>p. (lan_cidrs p, center_forward_protocol p)) (list_peers (s_db t)) = [([''192.168.9.0/24''], ''tcp'')] \<and>
     (\<forall>p\<in>set (list_peers (s_db t)). mk_peer netaddr_ref p = Inr p)"
proof -
  have run: "case peer_run (demo_world False) demo_peer_reqs demo_sys of None \<Rightarrow> False | Some t \<Rightarrow>
      map (\<lambda>p. (lan_cidrs p, center_forward_protocol p)) (list_peers (s_db t)) = [([''192.168.9.0/24''], ''tcp'')]"
    by code_simp
  have start: "list_peers (s_db demo_sys) = []" by code_simp
  obtain t where t: "peer_run (demo_world False) demo_peer_reqs demo_sys = Some t" using run by (auto split: option.splits)
  have "\<forall>p\<in>set (list_peers (s_db t)). mk_peer netaddr_ref p = Inr p"
    using stored_peers_typed [OF start t] by (simp add: demo_world_def)
  then show ?thesis using run t by simp
qed

end
