(* ===== verification/Links.thy ===== *)
theory Links
  imports Prelude "HOL-Library.AList"
begin

text \<open>
  \<open>app/services/download/link_mgr.py\<close> and \<open>app/api/download.py\<close>: download links that serve one
  file once.  A token names a file of the directory of links.  Times are microseconds; a time in
  the file of a link is its ISO text, kept here as the value \<open>fromisoformat\<close> reads from it.
  The lock around each read and each write of a file is not modelled: the handler runs in the event
  loop, without a point where another request could come in between.
\<close>

section \<open>Links\<close>

datatype iso = Aware int | Naive int | NotIso

record link =
  l_token :: string
  l_username :: string
  l_file_path :: string
  l_download_filename :: "string option"
  l_expires_at :: iso
  l_used :: bool
  l_created_at :: iso
  l_used_at :: "iso option"

text \<open>A file of the directory may be empty or not be JSON.\<close>

datatype link_file = LinkEmpty | LinkBroken | Link link

type_synonym link_dir = "(string \<times> link_file) list"

definition expire_seconds :: int where
  "expire_seconds = 3600"

text \<open>The URL without the trailing slashes of the base.\<close>

definition rstrip_slash :: "string \<Rightarrow> string" where
  "rstrip_slash s = rev (dropWhile (\<lambda>c. c = CHR ''/'') (rev s))"

definition create_link :: "string \<Rightarrow> int \<Rightarrow> bool \<Rightarrow> string \<Rightarrow> string \<Rightarrow> string \<Rightarrow> string option \<Rightarrow> link_dir \<Rightarrow> string res \<times> link_dir" where
  "create_link token now write_ok uname ovpn_path base_url download_filename links =
     (let lnk = \<lparr>l_token = token, l_username = uname, l_file_path = ovpn_path, l_download_filename = download_filename,
          l_expires_at = Aware (now + 1000000 * expire_seconds), l_used = False, l_created_at = Aware now, l_used_at = None\<rparr> in
      if \<not> write_ok then (Inl (OSError token), links)
      else (Inr (rstrip_slash base_url @ ''/download/'' @ token), AList.update token (Link lnk) links))"

text \<open>\<open>read_json\<close> of the file: a missing and an empty one yield an empty record.\<close>

definition read_link :: "string \<Rightarrow> link_dir \<Rightarrow> link option res" where
  "read_link token links = (case map_of links token of
     None \<Rightarrow> Inr None | Some LinkEmpty \<Rightarrow> Inr None | Some LinkBroken \<Rightarrow> Inl (JSONDecodeError token) | Some (Link l) \<Rightarrow> Inr (Some l))"

datatype consumed = NoLink | Refused string | Consumed link

text \<open>A time without a zone counts as UTC.\<close>

definition utc :: "iso \<Rightarrow> int res" where
  "utc t = (case t of Aware n \<Rightarrow> Inr n | Naive n \<Rightarrow> Inr n | NotIso \<Rightarrow> Inl (ValueError ''isoformat''))"

definition consume_link :: "int \<Rightarrow> bool \<Rightarrow> string \<Rightarrow> link_dir \<Rightarrow> consumed res \<times> link_dir" where
  "consume_link now write_ok token links = (case read_link token links of
     Inl e \<Rightarrow> (Inl e, links)
   | Inr None \<Rightarrow> (Inr NoLink, links)
   | Inr (Some l) \<Rightarrow>
       if l_used l then (Inr (Refused ''used''), links)
       else (case utc (l_expires_at l) of
         Inl e \<Rightarrow> (Inl e, links)
       | Inr expires_at \<Rightarrow>
           if now > expires_at then (Inr (Refused ''expired''), links)
           else if \<not> write_ok then (Inl (OSError token), links)
           else (Inr (Consumed l), AList.update token (Link (l\<lparr>l_used := True, l_used_at := Some (Aware now)\<rparr>)) links)))"

definition get_link_info :: "string \<Rightarrow> link_dir \<Rightarrow> link option res" where
  "get_link_info token links = read_link token links"

section \<open>The route\<close>

text \<open>The answer to a request: status 404, 410, 500, or the file with its name and media type.\<close>

datatype answer = NotFound | Gone | FileMissing | SendFile string string string

definition shown_name :: "link \<Rightarrow> string" where
  "shown_name l = (let disp = strip (opt_str (l_download_filename l)) in if disp = [] then l_username l @ ''.ovpn'' else disp)"

definition media_of :: "string \<Rightarrow> string" where
  "media_of disp = (if ends_with (lower disp) ''.zip'' then ''application/zip'' else ''application/octet-stream'')"

definition download_ovpn :: "int \<Rightarrow> bool \<Rightarrow> (string \<Rightarrow> bool) \<Rightarrow> string \<Rightarrow> link_dir \<Rightarrow> answer res \<times> link_dir" where
  "download_ovpn now write_ok exists token links = (case consume_link now write_ok token links of
     (Inl e, ls) \<Rightarrow> (Inl e, ls)
   | (Inr NoLink, ls) \<Rightarrow> (Inr NotFound, ls)
   | (Inr (Refused e), ls) \<Rightarrow> (Inr Gone, ls)
   | (Inr (Consumed l), ls) \<Rightarrow>
       if \<not> exists (l_file_path l) then (Inr FileMissing, ls)
       else (Inr (SendFile (l_file_path l) (shown_name l) (media_of (shown_name l))), ls))"

section \<open>Requests in sequence\<close>

datatype link_event =
    Create string int bool string string string "string option"
  | Download int bool "string \<Rightarrow> bool" string

fun link_step :: "link_event \<Rightarrow> link_dir \<Rightarrow> answer res option \<times> link_dir" where
  "link_step (Create token now write_ok uname ovpn_path base_url name) ls =
     (None, snd (create_link token now write_ok uname ovpn_path base_url name ls))"
| "link_step (Download now write_ok exists token) ls = (let (a, ls') = download_ovpn now write_ok exists token ls in (Some a, ls'))"

text \<open>The files sent for one token, with the time of the request.\<close>

fun sent :: "string \<Rightarrow> link_event \<Rightarrow> answer res option \<Rightarrow> (int \<times> string \<times> string) list" where
  "sent token (Download now write_ok exists t) (Some (Inr (SendFile path name media))) = (if t = token then [(now, path, name)] else [])"
| "sent token _ _ = []"

fun all_sent :: "string \<Rightarrow> link_event list \<Rightarrow> link_dir \<Rightarrow> (int \<times> string \<times> string) list" where
  "all_sent token [] ls = []"
| "all_sent token (e # es) ls = (let (a, ls') = link_step e ls in sent token e a @ all_sent token es ls')"

fun creates :: "string \<Rightarrow> link_event \<Rightarrow> bool" where
  "creates token (Create t now write_ok uname ovpn_path base_url name) \<longleftrightarrow> t = token"
| "creates token _ \<longleftrightarrow> False"

section \<open>Laws\<close>

text \<open>Whether a token can still be redeemed.\<close>

definition spent :: "string \<Rightarrow> link_dir \<Rightarrow> bool" where
  "spent token ls \<longleftrightarrow> (case map_of ls token of Some (Link l) \<Rightarrow> l_used l | _ \<Rightarrow> True)"

lemma map_of_update_other: "k \<noteq> t \<Longrightarrow> map_of (AList.update t v xs) k = map_of xs k"
  by (simp add: update_conv')

lemma consumed_link:
  "consume_link now w token ls = (Inr (Consumed l), ls') \<Longrightarrow> map_of ls token = Some (Link l) \<and> \<not> l_used l \<and> spent token ls' \<and>
     (\<exists>t. utc (l_expires_at l) = Inr t \<and> now \<le> t) \<and> (\<forall>k. k \<noteq> token \<longrightarrow> map_of ls' k = map_of ls k)"
  by (auto simp: consume_link_def read_link_def spent_def update_conv' split: option.splits sum.splits if_splits link_file.splits)

lemma not_consumed: "(\<exists>l. fst (consume_link now w token ls) = Inr (Consumed l)) \<or> snd (consume_link now w token ls) = ls"
  by (simp add: consume_link_def split: option.split sum.split)

lemma consume_cases:
  obtains l where "fst (consume_link now w token ls) = Inr (Consumed l)" | "snd (consume_link now w token ls) = ls" "\<forall>l. fst (consume_link now w token ls) \<noteq> Inr (Consumed l)"
  using not_consumed by blast

lemma step_other:
  assumes "\<not> creates token e" "link_step e ls = (a, ls')"
  shows "map_of ls' token = map_of ls token \<and> sent token e a = [] \<or>
    (\<exists>now ex l. map_of ls token = Some (Link l) \<and> \<not> l_used l \<and> spent token ls' \<and>
       (\<exists>t. utc (l_expires_at l) = Inr t \<and> now \<le> t) \<and>
       sent token e a = (if ex (l_file_path l) then [(now, l_file_path l, shown_name l)] else []))"
proof (cases e)
  case (Create t now w u p b n)
  then show ?thesis using assms by (auto simp: create_link_def Let_def update_conv')
next
  case (Download now w ex t)
  show ?thesis
  proof (cases rule: consume_cases [of now w t ls])
    case (1 l)
    then obtain ls2 where c: "consume_link now w t ls = (Inr (Consumed l), ls2)" by (cases "consume_link now w t ls") auto
    note d = consumed_link [OF c]
    have ls: "ls' = ls2" and a: "a = Some (Inr (if \<not> ex (l_file_path l) then FileMissing
        else SendFile (l_file_path l) (shown_name l) (media_of (shown_name l))))"
      using assms(2) c by (auto simp: Download download_ovpn_def split: if_splits)
    show ?thesis
    proof (cases "t = token")
      case True
      have "sent token e a = (if ex (l_file_path l) then [(now, l_file_path l, shown_name l)] else [])" using a True by (simp add: Download)
      then show ?thesis using d ls True by blast
    next
      case False
      then have "sent token e a = []" using a by (simp add: Download)
      then show ?thesis using d ls False by simp
    qed
  next
    case 2
    then have "ls' = ls" "sent token e a = []"
      using assms(2) by (auto simp: Download download_ovpn_def split: prod.splits sum.splits consumed.splits)
    then show ?thesis by simp
  qed
qed

lemma spent_sends_nothing: "spent token ls \<Longrightarrow> \<forall>e\<in>set es. \<not> creates token e \<Longrightarrow> all_sent token es ls = []"
proof (induction es arbitrary: ls)
  case (Cons e es)
  obtain a ls' where s: "link_step e ls = (a, ls')" by (cases "link_step e ls")
  have c: "\<not> creates token e" using Cons.prems(2) by simp
  have "map_of ls' token = map_of ls token \<and> sent token e a = []"
    using step_other [OF c s] Cons.prems(1) by (auto simp: spent_def)
  moreover from this have "spent token ls'" using Cons.prems(1) by (simp add: spent_def)
  ultimately show ?case using Cons.IH [of ls'] Cons.prems(2) by (simp add: s)
qed simp

text \<open>C33. A download link serves its file once.  For every token and every sequence of requests in which it is not
  created anew, at most one request is answered with a file: the file the link was created for, under its name, for a link
  not used before and at a time not after its expiry.  A token that is unknown or used serves nothing.\<close>

theorem link_serves_once:
  assumes "\<forall>e\<in>set es. \<not> creates token e"
  shows "all_sent token es ls = [] \<or>
    (\<exists>l now t. all_sent token es ls = [(now, l_file_path l, shown_name l)] \<and> map_of ls token = Some (Link l) \<and> \<not> l_used l \<and>
       utc (l_expires_at l) = Inr t \<and> now \<le> t)"
  using assms
proof (induction es arbitrary: ls)
  case (Cons e es)
  obtain a ls' where s: "link_step e ls = (a, ls')" by (cases "link_step e ls")
  have c: "\<not> creates token e" "\<forall>e\<in>set es. \<not> creates token e" using Cons.prems by simp_all
  from step_other [OF c(1) s] show ?case
  proof (elim disjE)
    assume o: "map_of ls' token = map_of ls token \<and> sent token e a = []"
    then show ?thesis using Cons.IH [OF c(2), of ls'] by (simp add: s)
  next
    assume "\<exists>now ex l. map_of ls token = Some (Link l) \<and> \<not> l_used l \<and> spent token ls' \<and>
       (\<exists>t. utc (l_expires_at l) = Inr t \<and> now \<le> t) \<and>
       sent token e a = (if ex (l_file_path l) then [(now, l_file_path l, shown_name l)] else [])"
    then obtain now ex l t where d: "map_of ls token = Some (Link l)" "\<not> l_used l" "spent token ls'"
      "utc (l_expires_at l) = Inr t" "now \<le> t" "sent token e a = (if ex (l_file_path l) then [(now, l_file_path l, shown_name l)] else [])"
      by blast
    then show ?thesis using spent_sends_nothing [OF d(3) c(2)] by (auto simp: s)
  qed
qed simp

text \<open>A link created and asked for in time serves the file.\<close>

lemma fresh_link_serves:
  assumes "t0 \<le> now" "now \<le> t0 + 1000000 * expire_seconds" "exists path"
  shows "fst (download_ovpn now True exists token (snd (create_link token t0 True uname path base name ls))) =
    Inr (SendFile path (shown_name \<lparr>l_token = token, l_username = uname, l_file_path = path, l_download_filename = name,
       l_expires_at = Aware (t0 + 1000000 * expire_seconds), l_used = False, l_created_at = Aware t0, l_used_at = None\<rparr>)
      (media_of (if strip (opt_str name) = [] then uname @ ''.ovpn'' else strip (opt_str name))))"
  using assms by (simp add: download_ovpn_def consume_link_def read_link_def create_link_def utc_def update_conv' Let_def shown_name_def)

definition demo_links :: link_dir where
  "demo_links = snd (create_link ''tok'' 0 True ''alice'' ''/ovpn/alice'' ''https://vpn/'' None [])"

lemma link_serves_once_witness:
  "all_sent ''tok'' [Download 5 True (\<lambda>_. True) ''tok'', Download 6 True (\<lambda>_. True) ''tok''] demo_links = [(5, ''/ovpn/alice'', ''alice.ovpn'')]"
proof -
  let ?es = "[Download 5 True (\<lambda>_. True) ''tok'', Download 6 True (\<lambda>_. True) ''tok'']"
  have "all_sent ''tok'' ?es demo_links \<noteq> [] \<and> hd (all_sent ''tok'' ?es demo_links) = (5, ''/ovpn/alice'', ''alice.ovpn'')" by code_simp
  then show ?thesis using link_serves_once [of ?es "''tok''" demo_links] by auto
qed

end
