(* ===== verification/Json.thy ===== *)
theory Json
  imports Prelude "HOL-Library.AList"
begin

text \<open>
  Values of \<open>json.loads\<close> as the Python code treats them: truth, \<open>str\<close>, \<open>int\<close>, and the lookup of a key.
  Numbers with a fraction are left out: no file of the program holds one.
\<close>

datatype json = JNull | JBool bool | JInt int | JStr string | JList "json list" | JObj "(string \<times> json) list"

type_synonym jobj = "(string \<times> json) list"

fun truthy :: "json \<Rightarrow> bool" where
  "truthy JNull = False"
| "truthy (JBool b) = b"
| "truthy (JInt n) = (n \<noteq> 0)"
| "truthy (JStr s) = (s \<noteq> [])"
| "truthy (JList l) = (l \<noteq> [])"
| "truthy (JObj x) = (x \<noteq> [])"

text \<open>\<open>x.get(key)\<close> and \<open>x.get(key, default)\<close> of a dict.\<close>

definition jget :: "string \<Rightarrow> jobj \<Rightarrow> json" where
  "jget k x = (case map_of x k of None \<Rightarrow> JNull | Some v \<Rightarrow> v)"

definition jget_or :: "json \<Rightarrow> string \<Rightarrow> jobj \<Rightarrow> json" where
  "jget_or d k x = (case map_of x k of None \<Rightarrow> d | Some v \<Rightarrow> v)"

definition dec_of_int :: "int \<Rightarrow> string" where
  "dec_of_int n = (if n < 0 then CHR ''-'' # dec_of_nat (nat (- n)) else dec_of_nat (nat n))"

text \<open>\<open>str(x)\<close>; \<open>rep\<close> is \<open>repr\<close> of a list or dict.\<close>

fun py_str :: "(json \<Rightarrow> string) \<Rightarrow> json \<Rightarrow> string" where
  "py_str rep JNull = ''None''"
| "py_str rep (JBool b) = (if b then ''True'' else ''False'')"
| "py_str rep (JInt n) = dec_of_int n"
| "py_str rep (JStr s) = s"
| "py_str rep (JList l) = rep (JList l)"
| "py_str rep (JObj x) = rep (JObj x)"

text \<open>\<open>str(x or "")\<close>.\<close>

definition str_or :: "(json \<Rightarrow> string) \<Rightarrow> json \<Rightarrow> string" where
  "str_or rep x = (if truthy x then py_str rep x else [])"

text \<open>\<open>int\<close> of a text: blanks around it, a sign, single underscores between digits.\<close>

definition int_of_text :: "string \<Rightarrow> int option" where
  "int_of_text s0 = (let s = strip s0; neg = (s \<noteq> [] \<and> hd s = CHR ''-'');
       ds = (if s \<noteq> [] \<and> hd s \<in> {CHR ''-'', CHR ''+''} then tl s else s); ws = split_on (CHR ''_'') ds in
     if list_all (\<lambda>w. w \<noteq> [] \<and> list_all is_digit w) ws
     then Some ((if neg then - 1 else 1) * int (nat_of_dec (concat ws))) else None)"

fun py_int :: "json \<Rightarrow> int res" where
  "py_int (JInt n) = Inr n"
| "py_int (JBool b) = Inr (if b then 1 else 0)"
| "py_int (JStr s) = (case int_of_text s of None \<Rightarrow> Inl (ValueError s) | Some n \<Rightarrow> Inr n)"
| "py_int JNull = Inl (TypeError ''int'')"
| "py_int (JList l) = Inl (TypeError ''int'')"
| "py_int (JObj x) = Inl (TypeError ''int'')"

definition int_or_none :: "json \<Rightarrow> int option" where
  "int_or_none x = (case py_int x of Inl e \<Rightarrow> None | Inr n \<Rightarrow> Some n)"

text \<open>Writing keys into a dict.\<close>

definition jset :: "string \<Rightarrow> json \<Rightarrow> jobj \<Rightarrow> jobj" where
  "jset k v x = AList.update k v x"

lemma jget_jset [simp]: "jget k (jset k' v x) = (if k = k' then v else jget k x)"
  by (simp add: jget_def jset_def update_conv')

lemma jget_Cons [simp]: "jget k ((k', v) # x) = (if k = k' then v else jget k x)"
  by (simp add: jget_def)

lemma jget_or_simps [simp]: "jget_or d k [] = d" "jget_or d k ((k', v) # x) = (if k = k' then v else jget_or d k x)"
  by (simp_all add: jget_or_def)

lemma jget_Nil [simp]: "jget k [] = JNull"
  by (simp add: jget_def)

lemma jget_append: "jget k (x @ y) = (case map_of x k of None \<Rightarrow> jget k y | Some v \<Rightarrow> v)"
  by (auto simp: jget_def map_add_def split: option.splits)

end
