(* ===== verification/Chain_Cache.thy ===== *)
theory Chain_Cache
  imports Json Actions System
begin

text \<open>
  \<open>app/services/peer_instance/remote_chain_cache.py\<close>: the working copy of a peer's filter chain on the
  centre, one JSON file per peer, and the copy of it taken before a push (\<open>.prepush.bak\<close>).
  A file is its JSON value, or \<open>None\<close> when the text is not JSON.
\<close>

section \<open>Files\<close>

record 'k remote =
  rm_host :: 'k
  rm_files :: "(string \<times> json option) list"

text \<open>
  The surroundings: the clock, \<open>repr\<close>, which files can be read, written, copied and removed; the keys
  of the configuration, the parsing of a private key, the check of a key file; and paramiko, which
  connects and runs a command on the peer: standard output, standard error and exit code, or an
  exception.
\<close>

datatype ssh_cred = ByKey string "string option" | ByKeyFile string | ByPassword string

record 'k remote_world =
  rw_now :: string
  rw_repr :: "json \<Rightarrow> string"
  rw_read_ok :: "string \<Rightarrow> bool"
  rw_write_ok :: "string \<Rightarrow> bool"
  rw_copy_ok :: "string \<Rightarrow> bool"
  rw_unlink_ok :: "string \<Rightarrow> bool"
  rw_hash :: hashes
  rw_na :: netaddr
  rw_global_key :: "string \<times> string"
  rw_load_key :: "string \<Rightarrow> string option \<Rightarrow> unit res"
  rw_key_file :: "string \<Rightarrow> string res"
  rw_connect :: "string \<Rightarrow> int \<Rightarrow> string \<Rightarrow> ssh_cred \<Rightarrow> unit res"
  rw_exec :: "string \<Rightarrow> 'k \<Rightarrow> (string \<times> string \<times> int) res \<times> 'k"

definition safe_name :: "string \<Rightarrow> string" where
  "safe_name s = map (\<lambda>c. if c = CHR ''/'' then CHR ''_'' else c) s"

definition path_for_peer :: "string \<Rightarrow> string res" where
  "path_for_peer peer_id = (let pid = strip peer_id in
     if pid = [] then Inl (ValueError ''peer_id empty'') else Inr (safe_name pid @ ''.json''))"

definition prepush_bak_path :: "string \<Rightarrow> string res" where
  "prepush_bak_path peer_id = rbind (path_for_peer peer_id) (\<lambda>p. Inr (safe_name (strip peer_id) @ ''.prepush.bak''))"

definition is_file :: "string \<Rightarrow> 'k remote \<Rightarrow> bool" where
  "is_file f s \<longleftrightarrow> map_of (rm_files s) f \<noteq> None"

definition put_file :: "string \<Rightarrow> json option \<Rightarrow> 'k remote \<Rightarrow> 'k remote" where
  "put_file f j s = s\<lparr>rm_files := AList.update f j (rm_files s)\<rparr>"

text \<open>\<open>read_json\<close>: a missing file is an empty dict.\<close>

definition rm_read_json :: "'k remote_world \<Rightarrow> string \<Rightarrow> ('k remote, json) stact" where
  "rm_read_json w f s = (case map_of (rm_files s) f of
     None \<Rightarrow> ret (JObj []) s
   | Some j \<Rightarrow> if \<not> rw_read_ok w f then throw (OSError f) s
       else (case j of None \<Rightarrow> throw (JSONDecodeError f) s | Some v \<Rightarrow> ret v s))"

definition rm_write_json :: "'k remote_world \<Rightarrow> string \<Rightarrow> jobj \<Rightarrow> ('k remote, unit) stact" where
  "rm_write_json w f x s = (if rw_write_ok w f then ret () (put_file f (Some (JObj x)) s) else throw (OSError f) s)"

text \<open>\<open>except (OSError, ValueError, TypeError)\<close>; \<open>JSONDecodeError\<close> is a \<open>ValueError\<close>.\<close>

definition read_faults :: "('s, 'a) stact \<Rightarrow> ('s, 'a) stact \<Rightarrow> ('s, 'a) stact" where
  "read_faults m f = handle m (\<lambda>e. case e of OSError _ \<Rightarrow> f | FileNotFoundError _ \<Rightarrow> f | ValueError _ \<Rightarrow> f | JSONDecodeError _ \<Rightarrow> f
     | TypeError _ \<Rightarrow> f | _ \<Rightarrow> throw e)"

section \<open>The copy before a push\<close>

definition backup_main_json_before_mutation :: "'k remote_world \<Rightarrow> string \<Rightarrow> ('k remote, unit) stact" where
  "backup_main_json_before_mutation w peer_id = andthen (of_res (path_for_peer peer_id)) (\<lambda>main.
     andthen (of_res (prepush_bak_path peer_id)) (\<lambda>bak s.
       (case map_of (rm_files s) main of None \<Rightarrow> ret () s
        | Some j \<Rightarrow> if rw_copy_ok w bak then ret () (put_file bak j s) else throw (RuntimeError ''backup'') s)))"

definition clear_prepush_backup :: "'k remote_world \<Rightarrow> string \<Rightarrow> ('k remote, unit) stact" where
  "clear_prepush_backup w peer_id = andthen (of_res (prepush_bak_path peer_id)) (\<lambda>bak s.
     ret () (if is_file bak s \<and> rw_unlink_ok w bak then s\<lparr>rm_files := AList.delete bak (rm_files s)\<rparr> else s))"

text \<open>The text for a failure without a message, in UTF-8.\<close>

definition push_failed :: string where
  "push_failed = [CHR 0xE5, CHR 0x86, CHR 0x99, CHR 0xE5, CHR 0x9B, CHR 0x9E, CHR 0xE5, CHR 0xAF, CHR 0xB9, CHR 0xE7, CHR 0xAB, CHR 0xAF, CHR 0xE5, CHR 0xA4, CHR 0xB1, CHR 0xE8, CHR 0xB4, CHR 0xA5]"

definition error_text :: "string option \<Rightarrow> string" where
  "error_text m = take 2000 (if opt_str m = [] then push_failed else opt_str m)"

definition restore_main_from_prepush_backup :: "'k remote_world \<Rightarrow> string \<Rightarrow> string option \<Rightarrow> ('k remote, bool) stact" where
  "restore_main_from_prepush_backup w peer_id error_message = andthen (of_res (path_for_peer peer_id)) (\<lambda>main.
     andthen (of_res (prepush_bak_path peer_id)) (\<lambda>bak s.
       (if \<not> is_file bak s then ret False s
        else andthen (read_faults (andthen (rm_read_json w bak) (\<lambda>v. ret (Some v))) (ret None)) (\<lambda>raw.
          case raw of
            Some (JObj x) \<Rightarrow> andthen (rm_write_json w main (jset ''updated_at'' (JStr (rw_now w)) (jset ''pending_sync'' (JBool True)
                (jset ''last_sync_error'' (JStr (error_text error_message)) x)))) (\<lambda>_. ret True)
          | _ \<Rightarrow> ret False) s)))"

section \<open>Rows\<close>

text \<open>One row of a file or of a request in its normal form.\<close>

definition clean_row :: "(json \<Rightarrow> string) \<Rightarrow> json \<Rightarrow> jobj option" where
  "clean_row rep v = (case v of
     JObj x \<Rightarrow>
       (let r = strip (py_str rep (jget_or (JStr []) ''rest'' x)); ds = strip (str_or rep (jget ''description'' x)) in
        if r = [] then None
        else Some ([(''rest'', JStr r), (''enabled'', JBool (truthy (jget_or (JBool True) ''enabled'' x)))] @
          (if ds = [] then [] else [(''description'', JStr ds)]) @
          (case int_or_none (jget ''priority'' x) of None \<Rightarrow> [] | Some n \<Rightarrow> [(''priority'', JInt n)])))
   | _ \<Rightarrow> None)"

definition clean_rows :: "(json \<Rightarrow> string) \<Rightarrow> json list \<Rightarrow> jobj list" where
  "clean_rows rep rows = List.map_filter (clean_row rep) rows"

text \<open>Older files hold a list of texts.\<close>

definition items :: "json \<Rightarrow> json list res" where
  "items v = (if \<not> truthy v then Inr [] else (case v of
     JList l \<Rightarrow> Inr l | JStr s \<Rightarrow> Inr (map (\<lambda>c. JStr [c]) s) | JObj x \<Rightarrow> Inr (map (JStr \<circ> fst) x) | _ \<Rightarrow> Inl (TypeError ''not iterable'')))"

definition normalize_rows_from_raw :: "(json \<Rightarrow> string) \<Rightarrow> jobj \<Rightarrow> jobj list res" where
  "normalize_rows_from_raw rep raw = (case jget ''rows'' raw of
     JList (x # xs) \<Rightarrow> Inr (clean_rows rep (x # xs))
   | _ \<Rightarrow> rbind (items (jget ''rests'' raw)) (\<lambda>l.
       Inr (map (\<lambda>s. [(''rest'', JStr s), (''enabled'', JBool True)]) (strip_all (map (py_str rep) l)))))"

definition row_rest :: "jobj \<Rightarrow> json" where
  "row_rest r = jget ''rest'' r"

section \<open>The working copy\<close>

definition read_remote_chain_cache :: "'k remote_world \<Rightarrow> string \<Rightarrow> ('k remote, jobj option) stact" where
  "read_remote_chain_cache w peer_id = andthen (of_res (path_for_peer peer_id)) (\<lambda>p s.
     (if \<not> is_file p s then ret None s
      else andthen (read_faults (andthen (rm_read_json w p) (\<lambda>v. ret (Some v))) (ret None)) (\<lambda>v.
        case v of None \<Rightarrow> ret None
        | Some j \<Rightarrow>
            if \<not> truthy j then ret None
            else (case j of
              JObj raw \<Rightarrow>
                if strip (str_or (rw_repr w) (jget ''peer_id'' raw)) \<noteq> strip peer_id then ret None
                else andthen (of_res (py_int (jget_or (JInt 0) ''version'' raw))) (\<lambda>version.
                  if version < 1 then ret None
                  else andthen (of_res (normalize_rows_from_raw (rw_repr w) raw)) (\<lambda>rows.
                    ret (Some (jset ''rests'' (JList (map row_rest rows)) (jset ''rows'' (JList (map JObj rows)) raw)))))
            | _ \<Rightarrow> throw (AttributeError ''get''))) s))"

text \<open>The arguments of \<open>write_remote_chain_cache\<close>.\<close>

record copy_args =
  ca_chain :: string
  ca_chain_exists :: bool
  ca_rows :: "json list"
  ca_pending_sync :: bool
  ca_last_sync_error :: "string option"
  ca_set_pulled :: bool
  ca_set_pushed :: bool

definition opt_json :: "string option \<Rightarrow> json" where
  "opt_json t = (case t of None \<Rightarrow> JNull | Some s \<Rightarrow> JStr s)"

definition copy_record :: "'k remote_world \<Rightarrow> string \<Rightarrow> copy_args \<Rightarrow> jobj \<Rightarrow> jobj" where
  "copy_record w peer_id a prev = (let rows = clean_rows (rw_repr w) (ca_rows a) in
     [(''version'', JInt 1), (''peer_id'', JStr (strip peer_id)), (''chain'', JStr (ca_chain a)), (''chain_exists'', JBool (ca_chain_exists a)),
      (''rows'', JList (map JObj rows)), (''rests'', JList (map row_rest rows)), (''pending_sync'', JBool (ca_pending_sync a)),
      (''last_sync_error'', opt_json (ca_last_sync_error a)), (''updated_at'', JStr (rw_now w)),
      (''last_pulled_at'', if ca_set_pulled a then JStr (rw_now w) else jget ''last_pulled_at'' prev),
      (''last_pushed_at'', if ca_set_pushed a then JStr (rw_now w) else jget ''last_pushed_at'' prev)])"

definition write_remote_chain_cache :: "'k remote_world \<Rightarrow> string \<Rightarrow> copy_args \<Rightarrow> ('k remote, unit) stact" where
  "write_remote_chain_cache w peer_id a = andthen (of_res (path_for_peer peer_id)) (\<lambda>p.
     andthen (read_remote_chain_cache w peer_id) (\<lambda>prev.
     rm_write_json w p (copy_record w peer_id a (case prev of None \<Rightarrow> [] | Some x \<Rightarrow> x))))"

text \<open>The texts to push: rows in order, the enabled ones.\<close>

definition rests_to_push_list :: "(json \<Rightarrow> string) \<Rightarrow> jobj list \<Rightarrow> string list" where
  "rests_to_push_list rep rows = List.map_filter (\<lambda>x. let r = strip (py_str rep (jget_or (JStr []) ''rest'' x)) in
     if r \<noteq> [] \<and> truthy (jget_or (JBool True) ''enabled'' x) then Some r else None) rows"

section \<open>Pull and push\<close>

record chain_snapshot =
  cs_chain :: string
  cs_chain_exists :: bool
  cs_chain_rests :: "string list"
  cs_forward_refs :: "string list"

definition record_from_fetch :: "'k remote_world \<Rightarrow> chain_snapshot \<Rightarrow> string \<Rightarrow> ('k remote, unit) stact" where
  "record_from_fetch w snap peer_id = andthen (clear_prepush_backup w peer_id) (\<lambda>_.
     write_remote_chain_cache w peer_id \<lparr>ca_chain = cs_chain snap, ca_chain_exists = cs_chain_exists snap,
       ca_rows = map (\<lambda>s. JObj [(''rest'', JStr s), (''enabled'', JBool True)]) (cs_chain_rests snap),
       ca_pending_sync = False, ca_last_sync_error = None, ca_set_pulled = True, ca_set_pushed = False\<rparr>)"

definition record_after_apply :: "'k remote_world \<Rightarrow> string \<Rightarrow> string \<Rightarrow> bool \<Rightarrow> json list \<Rightarrow> bool \<Rightarrow> string option \<Rightarrow> ('k remote, unit) stact" where
  "record_after_apply w peer_id chain chain_exists rows ok error_message =
     (if ok then andthen (write_remote_chain_cache w peer_id \<lparr>ca_chain = chain, ca_chain_exists = chain_exists, ca_rows = rows,
          ca_pending_sync = False, ca_last_sync_error = None, ca_set_pulled = False, ca_set_pushed = True\<rparr>) (\<lambda>_. clear_prepush_backup w peer_id)
      else andthen (restore_main_from_prepush_backup w peer_id error_message) (\<lambda>restored.
        if restored then ret ()
        else write_remote_chain_cache w peer_id \<lparr>ca_chain = chain, ca_chain_exists = chain_exists, ca_rows = rows,
          ca_pending_sync = True, ca_last_sync_error = Some (error_text error_message), ca_set_pulled = False, ca_set_pushed = False\<rparr>))"

definition mark_pending_apply :: "'k remote_world \<Rightarrow> string \<Rightarrow> string \<Rightarrow> bool \<Rightarrow> json list \<Rightarrow> ('k remote, unit) stact" where
  "mark_pending_apply w peer_id chain chain_exists rows = andthen (backup_main_json_before_mutation w peer_id) (\<lambda>_.
     write_remote_chain_cache w peer_id \<lparr>ca_chain = chain, ca_chain_exists = chain_exists, ca_rows = rows,
       ca_pending_sync = True, ca_last_sync_error = None, ca_set_pulled = False, ca_set_pushed = False\<rparr>)"

end
