(* ===== verification/Remote_Chain.thy ===== *)
theory Remote_Chain
  imports Chain_Cache
begin

text \<open>
  \<open>app/services/peer_instance/peer_ssh_connect.py\<close> and \<open>remote_peer_iptables.py\<close>: the rules of the
  centre on the host of a peer, written over SSH; the push of a working copy from
  \<open>app/ui/pages/firewall_remote.py\<close>.
\<close>

section \<open>Connecting\<close>

definition effective_ssh_private_key_for_peer :: "'k remote_world \<Rightarrow> peer \<Rightarrow> (string \<times> string option) option" where
  "effective_ssh_private_key_for_peer w p =
     (if strip (ssh_private_key p) \<noteq> [] then Some (strip (ssh_private_key p), str_opt (strip (ssh_private_key_passphrase p)))
      else if strip (fst (rw_global_key w)) \<noteq> [] then Some (strip (fst (rw_global_key w)), str_opt (strip (snd (rw_global_key w))))
      else None)"

definition peer_row_has_usable_ssh_auth :: "'k remote_world \<Rightarrow> peer \<Rightarrow> bool" where
  "peer_row_has_usable_ssh_auth w p \<longleftrightarrow> strip (ssh_password p) \<noteq> [] \<or> strip (ssh_private_key p) \<noteq> [] \<or> strip (fst (rw_global_key w)) \<noteq> []"

definition connect_peer_ssh_client ::
  "'k remote_world \<Rightarrow> string \<Rightarrow> int \<Rightarrow> string \<Rightarrow> string option \<Rightarrow> (string \<times> string option) option \<Rightarrow> string option \<Rightarrow> unit res" where
  "connect_peer_ssh_client w host0 port uname0 password key key_filename =
     (let host = strip host0; uname = strip uname0; pem = (case key of None \<Rightarrow> [] | Some (t, _) \<Rightarrow> strip t); pw = strip (opt_str password) in
      if host = [] then Inl (ValueError ''SSH host empty'')
      else if uname = [] then Inl (ValueError ''SSH user empty'')
      else if pem \<noteq> [] then rbind (rw_load_key w pem (case key of None \<Rightarrow> None | Some (_, pp) \<Rightarrow> pp)) (\<lambda>_.
        rw_connect w host port uname (ByKey pem (case key of None \<Rightarrow> None | Some (_, pp) \<Rightarrow> pp)))
      else if strip (opt_str key_filename) \<noteq> [] then rbind (rw_key_file w (strip (opt_str key_filename))) (\<lambda>path.
        rw_connect w host port uname (ByKeyFile path))
      else if pw = [] then Inl (ValueError ''no SSH credentials'')
      else rw_connect w host port uname (ByPassword pw))"

definition connect_peer_ssh_client_from_row :: "'k remote_world \<Rightarrow> peer \<Rightarrow> unit res" where
  "connect_peer_ssh_client_from_row w p =
     (let host = strip (ssh_host p); uname = strip (ssh_username p) in
      if host = [] \<or> uname = [] then Inl (ValueError ''SSH host or user missing'')
      else connect_peer_ssh_client w host (if ssh_port p = 0 then 22 else ssh_port p) uname (str_opt (strip (ssh_password p)))
        (effective_ssh_private_key_for_peer w p) None)"

section \<open>Commands\<close>

definition exec_ssh :: "'k remote_world \<Rightarrow> string \<Rightarrow> ('k remote, string \<times> string \<times> int) stact" where
  "exec_ssh w cmd s = (case rw_exec w cmd (rm_host s) of (r, k) \<Rightarrow> Some (r, s\<lparr>rm_host := k\<rparr>))"

text \<open>\<open>shlex.quote\<close>.\<close>

definition shell_safe :: "char \<Rightarrow> bool" where
  "shell_safe c \<longleftrightarrow> (let n = of_char c :: nat in (48 \<le> n \<and> n \<le> 57) \<or> (65 \<le> n \<and> n \<le> 90) \<or> (97 \<le> n \<and> n \<le> 122)) \<or>
     c \<in> set ''_@%+=:,./-''"

definition shlex_quote :: "string \<Rightarrow> string" where
  "shlex_quote s = (if s = [] then [CHR 0x27, CHR 0x27] else if list_all shell_safe s then s
     else [CHR 0x27] @ concat (map (\<lambda>c. if c = CHR 0x27 then [CHR 0x27, CHR 0x22, CHR 0x27, CHR 0x22, CHR 0x27] else [c]) s) @ [CHR 0x27])"

definition detect_sudo_prefix :: "'k remote_world \<Rightarrow> ('k remote, string) stact" where
  "detect_sudo_prefix w = andthen (exec_ssh w ''sudo -n true 2>/dev/null'') (\<lambda>(_, _, c).
     if c = 0 then ret ''sudo -n ''
     else andthen (exec_ssh w ''id -u'') (\<lambda>(out, _, c2).
       if c2 = 0 \<and> strip out = ''0'' then ret [] else throw (RuntimeError ''neither root nor sudo -n'')))"

definition listed :: "'k remote_world \<Rightarrow> string \<Rightarrow> ('k remote, string) stact" where
  "listed w cmd = andthen (exec_ssh w cmd) (\<lambda>(out, err, code).
     if code \<noteq> 0 then throw (RuntimeError ''iptables -S'') else ret out)"

definition comment_fwd :: "string \<Rightarrow> string" where
  "comment_fwd pid = ''ovpn-mgmt-peer peer='' @ pid @ '' role=fwd-global''"

definition comment_jump :: "string \<Rightarrow> string" where
  "comment_jump pid = ''ovpn-mgmt-peer peer='' @ pid @ '' role=jump-chain''"

definition comment_masq :: "string \<Rightarrow> nat \<Rightarrow> string" where
  "comment_masq pid n = ''ovpn-mgmt-peer peer='' @ pid @ '' role=masq idx='' @ dec_of_nat n"

section \<open>Rules of a peer\<close>

definition peer_line :: "string \<Rightarrow> string \<Rightarrow> bool" where
  "peer_line pid l \<longleftrightarrow> str_in (''peer='' @ pid) l \<and> str_in ''ovpn-mgmt-peer'' l"

text \<open>The rules of a listing after the prefix, each deleted; the number of deletions that succeeded.\<close>

fun delete_lines :: "'k remote_world \<Rightarrow> string \<Rightarrow> string list \<Rightarrow> ('k remote, nat) stact" where
  "delete_lines w cmd [] = ret 0"
| "delete_lines w cmd (body # bodies) = andthen (exec_ssh w (cmd @ body)) (\<lambda>(_, _, code).
     andthen (delete_lines w cmd bodies) (\<lambda>n. ret (if code = 0 then Suc n else n)))"

definition bodies_of :: "(string \<Rightarrow> bool) \<Rightarrow> string \<Rightarrow> string \<Rightarrow> string list" where
  "bodies_of hit pre out = map (\<lambda>s. drop (length pre) s)
     (filter (\<lambda>s. starts_with s pre \<and> hit s) (map strip (splitlines out)))"

definition remove_in_table :: "'k remote_world \<Rightarrow> string \<Rightarrow> string \<Rightarrow> string \<Rightarrow> string \<Rightarrow> ('k remote, nat) stact" where
  "remove_in_table w pid sp tpart chain = andthen (listed w (sp @ ''iptables '' @ tpart @ ''-S '' @ chain)) (\<lambda>out.
     delete_lines w (sp @ ''iptables '' @ tpart @ ''-D '' @ chain @ '' '') (bodies_of (peer_line pid) (''-A '' @ chain @ '' '') out))"

definition remove_rules_matching_peer :: "'k remote_world \<Rightarrow> string \<Rightarrow> string \<Rightarrow> ('k remote, nat) stact" where
  "remove_rules_matching_peer w pid sp = andthen (remove_in_table w pid sp [] ''FORWARD'') (\<lambda>m.
     andthen (remove_in_table w pid sp ''-t nat '' ''POSTROUTING'') (\<lambda>n. ret (m + n)))"

definition remove_remote_peer_chain_and_jump :: "'k remote_world \<Rightarrow> string \<Rightarrow> string \<Rightarrow> ('k remote, unit) stact" where
  "remove_remote_peer_chain_and_jump w chain sp = andthen (listed w (sp @ ''iptables -S FORWARD'')) (\<lambda>out.
     andthen (delete_lines w (sp @ ''iptables -D FORWARD '') (bodies_of (str_in (''-j '' @ chain)) ''-A FORWARD '' out)) (\<lambda>_.
     andthen (exec_ssh w (sp @ ''iptables -F '' @ shlex_quote chain @ '' 2>/dev/null || true'')) (\<lambda>_.
     andthen (exec_ssh w (sp @ ''iptables -X '' @ shlex_quote chain @ '' 2>/dev/null || true'')) (\<lambda>_. ret ()))))"

text \<open>Whether the single line of the peer has all the parts.\<close>

definition one_line_with :: "string \<Rightarrow> string list \<Rightarrow> string \<Rightarrow> bool" where
  "one_line_with pid parts out = (case filter (peer_line pid) (splitlines out) of
     [l] \<Rightarrow> list_all (\<lambda>part. str_in part l) parts | _ \<Rightarrow> False)"

definition peer_site_rules_already_current :: "'k remote_world \<Rightarrow> string \<Rightarrow> string \<Rightarrow> string \<Rightarrow> string \<Rightarrow> bool \<Rightarrow> ('k remote, bool) stact" where
  "peer_site_rules_already_current w pid chain sp gs want_masquerade =
     andthen (listed w (sp @ ''iptables -S FORWARD'')) (\<lambda>out_forward.
     andthen (exec_ssh w (sp @ ''iptables -S '' @ shlex_quote chain)) (\<lambda>(out_chain, _, code_chain).
     if code_chain \<noteq> 0 then ret False
     else andthen (listed w (sp @ ''iptables -t nat -S POSTROUTING'')) (\<lambda>out_nat.
       ret (one_line_with pid [comment_jump pid, ''-j '' @ chain] out_forward \<and>
         one_line_with pid [''-s '' @ gs, comment_fwd pid, ''-j ACCEPT''] out_chain \<and>
         (if want_masquerade then one_line_with pid [''-s '' @ gs, comment_masq pid 0, ''-j MASQUERADE''] out_nat
          else filter (peer_line pid) (splitlines out_nat) = [])))))"

record site_report =
  sr_removed_prior :: nat
  sr_masquerade_rules :: nat
  sr_already_current :: bool
  sr_warnings :: nat

text \<open>A command whose failure is an error.\<close>

definition must :: "'k remote_world \<Rightarrow> string \<Rightarrow> string \<Rightarrow> ('k remote, unit) stact" where
  "must w msg cmd = andthen (exec_ssh w cmd) (\<lambda>(_, _, code). if code \<noteq> 0 then throw (RuntimeError msg) else ret ())"

definition write_site_rules :: "'k remote_world \<Rightarrow> string \<Rightarrow> string \<Rightarrow> string \<Rightarrow> string \<Rightarrow> bool \<Rightarrow> ('k remote, unit) stact" where
  "write_site_rules w pid chain sp gs want_masquerade =
     andthen (exec_ssh w (sp @ ''iptables -N '' @ shlex_quote chain)) (\<lambda>_.
     andthen (must w ''peer chain rule'' (sp @ ''iptables -A '' @ shlex_quote chain @ '' -s '' @ shlex_quote gs @
        '' -m comment --comment '' @ shlex_quote (comment_fwd pid) @ '' -j ACCEPT'')) (\<lambda>_.
     andthen (must w ''FORWARD jump'' (sp @ ''iptables -I FORWARD 1 -m comment --comment '' @ shlex_quote (comment_jump pid) @
        '' -j '' @ shlex_quote chain)) (\<lambda>_.
     if want_masquerade then must w ''POSTROUTING'' (sp @ ''iptables -t nat -I POSTROUTING 1 -s '' @ shlex_quote gs @
        '' -m comment --comment '' @ shlex_quote (comment_masq pid 0) @ '' -j MASQUERADE'')
     else ret ())))"

definition apply_peer_site_iptables_via_ssh :: "'k remote_world \<Rightarrow> peer \<Rightarrow> string \<Rightarrow> bool \<Rightarrow> ('k remote, site_report) stact" where
  "apply_peer_site_iptables_via_ssh w p global_subnet force =
     (let pid = strip (p_id p); gs = strip global_subnet; chain = peer_chain_name_for_id (rw_hash w) pid; masq = masquerade_on_peer p in
      if pid = [] then throw (ValueError ''peer id empty'')
      else if gs = [] then throw (ValueError ''global_subnet missing'')
      else andthen (of_res (connect_peer_ssh_client_from_row w p)) (\<lambda>_.
        andthen (exec_ssh w ''systemctl is-active firewalld 2>/dev/null'') (\<lambda>(out_act, _, c_act).
        (let warned = (if c_act = 0 \<and> strip out_act = ''active'' then 1 else 0) in
        andthen (detect_sudo_prefix w) (\<lambda>sp.
        andthen (if force then ret False else peer_site_rules_already_current w pid chain sp gs masq) (\<lambda>current.
        if current then ret \<lparr>sr_removed_prior = 0, sr_masquerade_rules = (if masq then 1 else 0), sr_already_current = True, sr_warnings = warned\<rparr>
        else andthen (remove_remote_peer_chain_and_jump w chain sp) (\<lambda>_.
          andthen (remove_rules_matching_peer w pid sp) (\<lambda>removed.
          andthen (write_site_rules w pid chain sp gs masq) (\<lambda>_.
          ret \<lparr>sr_removed_prior = removed, sr_masquerade_rules = (if masq then 1 else 0), sr_already_current = False, sr_warnings = warned\<rparr>)))))))))"

definition remove_peer_site_iptables_via_ssh :: "'k remote_world \<Rightarrow> peer \<Rightarrow> ('k remote, nat) stact" where
  "remove_peer_site_iptables_via_ssh w p = (let pid = strip (p_id p) in
     if pid = [] then throw (ValueError ''peer id empty'')
     else andthen (of_res (connect_peer_ssh_client_from_row w p)) (\<lambda>_.
       andthen (detect_sudo_prefix w) (\<lambda>sp.
       andthen (remove_remote_peer_chain_and_jump w (peer_chain_name_for_id (rw_hash w) pid) sp) (\<lambda>_.
       remove_rules_matching_peer w pid sp))))"

section \<open>The filter chain of a peer\<close>

definition filter_chain_rests_from_iptables_s :: "string \<Rightarrow> string \<Rightarrow> string list" where
  "filter_chain_rests_from_iptables_s out chain = map strip (bodies_of (\<lambda>_. True) (''-A '' @ chain @ '' '') out)"

definition forward_lines_jumping_to_chain :: "string \<Rightarrow> string \<Rightarrow> string list" where
  "forward_lines_jumping_to_chain out chain =
     filter (\<lambda>s. starts_with s ''-A FORWARD '' \<and> str_in (''-j '' @ chain) s) (map strip (splitlines out))"

definition chain_missing_message :: "string \<Rightarrow> bool" where
  "chain_missing_message msg \<longleftrightarrow> (let t = lower msg in str_in ''no chain'' t \<or> str_in ''does not exist'' t \<or> str_in ''inexistent'' t)"

definition listing_message :: "string \<Rightarrow> string \<Rightarrow> string" where
  "listing_message err out = strip err @ [CHR 0x0A] @ strip out"

definition fetch_peer_filter_chain_snapshot_via_ssh :: "'k remote_world \<Rightarrow> peer \<Rightarrow> ('k remote, chain_snapshot) stact" where
  "fetch_peer_filter_chain_snapshot_via_ssh w p = (let pid = strip (p_id p); chain = peer_chain_name_for_id (rw_hash w) pid in
     if pid = [] then throw (ValueError ''peer id empty'')
     else andthen (of_res (connect_peer_ssh_client_from_row w p)) (\<lambda>_.
       andthen (detect_sudo_prefix w) (\<lambda>sp.
       andthen (listed w (sp @ ''iptables -S FORWARD'')) (\<lambda>f_out.
       andthen (exec_ssh w (sp @ ''iptables -S '' @ shlex_quote chain)) (\<lambda>(out, err, code).
       if code \<noteq> 0
       then (if chain_missing_message (listing_message err out)
         then ret \<lparr>cs_chain = chain, cs_chain_exists = False, cs_chain_rests = [], cs_forward_refs = forward_lines_jumping_to_chain f_out chain\<rparr>
         else throw (RuntimeError ''iptables -S''))
       else ret \<lparr>cs_chain = chain, cs_chain_exists = True, cs_chain_rests = filter_chain_rests_from_iptables_s out chain,
         cs_forward_refs = forward_lines_jumping_to_chain f_out chain\<rparr>)))))"

definition bad_rest :: "string \<Rightarrow> bool" where
  "bad_rest r \<longleftrightarrow> (let s = strip r in CHR 0x0A \<in> set s \<or> CHR 0x0D \<in> set s \<or> CHR 0x00 \<in> set s)"

fun append_rests :: "'k remote_world \<Rightarrow> string \<Rightarrow> string list \<Rightarrow> ('k remote, unit) stact" where
  "append_rests w cmd [] = ret ()"
| "append_rests w cmd (r # rs) = (if strip r = [] then append_rests w cmd rs
     else andthen (must w ''append'' (cmd @ strip r)) (\<lambda>_. append_rests w cmd rs))"

definition replace_peer_filter_chain_rests_via_ssh :: "'k remote_world \<Rightarrow> peer \<Rightarrow> string list \<Rightarrow> ('k remote, unit) stact" where
  "replace_peer_filter_chain_rests_via_ssh w p rests = (let pid = strip (p_id p); chq = shlex_quote (peer_chain_name_for_id (rw_hash w) pid) in
     if pid = [] then throw (ValueError ''peer id empty'')
     else if list_ex bad_rest rests then throw (ValueError ''bad character'')
     else andthen (of_res (iterM (\<lambda>r. validate_iptables_rest_line_addr_tokens (rw_na w) r) (strip_all rests))) (\<lambda>_.
       andthen (of_res (connect_peer_ssh_client_from_row w p)) (\<lambda>_.
       andthen (detect_sudo_prefix w) (\<lambda>sp.
       andthen (exec_ssh w (sp @ ''iptables -S '' @ chq)) (\<lambda>(out, err, code).
       if code \<noteq> 0
       then (if chain_missing_message (listing_message err out) then throw (ValueError ''no such chain'') else throw (RuntimeError ''iptables -S''))
       else andthen (exec_ssh w (sp @ ''iptables -F '' @ chq)) (\<lambda>_. append_rests w (sp @ ''iptables -A '' @ chq @ '' '') rests))))))"

section \<open>The service and the push of a working copy\<close>

definition service_row :: "db \<Rightarrow> string \<Rightarrow> peer res" where
  "service_row d pid = (case get_peer pid d of None \<Rightarrow> Inl (ValueError ''no such peer'') | Some p \<Rightarrow> Inr p)"

definition deploy_peer_site_firewall_via_ssh :: "'k remote_world \<Rightarrow> db \<Rightarrow> string \<Rightarrow> string \<Rightarrow> bool option \<Rightarrow> bool \<Rightarrow> ('k remote, site_report) stact" where
  "deploy_peer_site_firewall_via_ssh w d global_subnet pid masquerade force = andthen (of_res (service_row d pid)) (\<lambda>p.
     apply_peer_site_iptables_via_ssh w (case masquerade of None \<Rightarrow> p | Some b \<Rightarrow> p\<lparr>masquerade_on_peer := b\<rparr>) (strip global_subnet) force)"

definition apply_remote_peer_filter_chain_rests :: "'k remote_world \<Rightarrow> db \<Rightarrow> string \<Rightarrow> string list \<Rightarrow> ('k remote, unit) stact" where
  "apply_remote_peer_filter_chain_rests w d pid rests = andthen (of_res (service_row d pid)) (\<lambda>p. replace_peer_filter_chain_rests_via_ssh w p rests)"

definition fetch_remote_peer_filter_chain_snapshot :: "'k remote_world \<Rightarrow> db \<Rightarrow> string \<Rightarrow> ('k remote, chain_snapshot) stact" where
  "fetch_remote_peer_filter_chain_snapshot w d pid = andthen (of_res (service_row d pid)) (\<lambda>p. fetch_peer_filter_chain_snapshot_via_ssh w p)"

definition pull_working_copy :: "'k remote_world \<Rightarrow> db \<Rightarrow> string \<Rightarrow> ('k remote, unit) stact" where
  "pull_working_copy w d pid = andthen (fetch_remote_peer_filter_chain_snapshot w d pid) (\<lambda>snap. record_from_fetch w snap pid)"

fun exn_text :: "exn \<Rightarrow> string" where
  "exn_text (ValueError m) = m" | "exn_text (RuntimeError m) = m" | "exn_text (OSError m) = m" | "exn_text (TypeError m) = m"
| "exn_text (KeyError m) = m" | "exn_text (JSONDecodeError m) = m" | "exn_text (IntegrityError m) = m"
| "exn_text (FileNotFoundError m) = m" | "exn_text (AttributeError m) = m" | "exn_text (IndexError m) = m"

text \<open>The rows of a record read back are dicts.\<close>

definition rows_of_cache :: "jobj \<Rightarrow> json list" where
  "rows_of_cache c = (case jget ''rows'' c of JList l \<Rightarrow> l | _ \<Rightarrow> [])"

definition dicts :: "json list \<Rightarrow> jobj list" where
  "dicts l = List.map_filter (\<lambda>v. case v of JObj x \<Rightarrow> Some x | _ \<Rightarrow> None) l"

definition cached_chain :: "'k remote_world \<Rightarrow> string \<Rightarrow> jobj \<Rightarrow> string" where
  "cached_chain w pid c = (if truthy (jget ''chain'' c) then py_str (rw_repr w) (jget ''chain'' c) else peer_chain_name_for_id (rw_hash w) pid)"

definition apply_remote_cache_to_peer :: "'k remote_world \<Rightarrow> db \<Rightarrow> string \<Rightarrow> ('k remote, bool) stact" where
  "apply_remote_cache_to_peer w d pid = andthen (read_remote_chain_cache w pid) (\<lambda>found.
     (let cache = (case found of None \<Rightarrow> [] | Some c \<Rightarrow> c); chain = cached_chain w pid cache; ce = truthy (jget ''chain_exists'' cache);
          rows = rows_of_cache cache in
      handle (andthen (apply_remote_peer_filter_chain_rests w d pid (rests_to_push_list (rw_repr w) (dicts rows))) (\<lambda>_.
          andthen (record_after_apply w pid chain ce rows True None) (\<lambda>_. ret True)))
        (\<lambda>e. andthen (record_after_apply w pid chain ce rows False (Some (exn_text e))) (\<lambda>_. ret False))))"

definition push_rows :: "'k remote_world \<Rightarrow> db \<Rightarrow> string \<Rightarrow> string \<Rightarrow> bool \<Rightarrow> json list \<Rightarrow> ('k remote, bool) stact" where
  "push_rows w d pid chain chain_exists rows = andthen (mark_pending_apply w pid chain chain_exists rows) (\<lambda>_. apply_remote_cache_to_peer w d pid)"

definition on_remote_push :: "'k remote_world \<Rightarrow> db \<Rightarrow> string \<Rightarrow> ('k remote, bool) stact" where
  "on_remote_push w d pid = andthen (read_remote_chain_cache w pid) (\<lambda>found. case found of
     None \<Rightarrow> ret False
   | Some cache \<Rightarrow> push_rows w d pid (cached_chain w pid cache) (truthy (jget ''chain_exists'' cache)) (rows_of_cache cache))"

text \<open>Enabling or disabling one row, and a new order.\<close>

definition chain_exists_or_true :: "jobj \<Rightarrow> bool" where
  "chain_exists_or_true c = truthy (jget_or (JBool True) ''chain_exists'' c)"

definition set_remote_row_enabled :: "'k remote_world \<Rightarrow> db \<Rightarrow> string \<Rightarrow> nat \<Rightarrow> bool \<Rightarrow> ('k remote, bool) stact" where
  "set_remote_row_enabled w d pid n en = andthen (read_remote_chain_cache w pid) (\<lambda>found.
     (let cache = (case found of None \<Rightarrow> [] | Some c \<Rightarrow> c); rows = dicts (rows_of_cache cache) in
      if length rows \<le> n then ret False
      else if truthy (jget_or (JBool True) ''enabled'' (rows ! n)) = en then ret True
      else push_rows w d pid (cached_chain w pid cache) (chain_exists_or_true cache)
        (map JObj (rows[n := jset ''enabled'' (JBool en) (rows ! n)]))))"

definition do_remote_reorder :: "'k remote_world \<Rightarrow> db \<Rightarrow> string \<Rightarrow> nat list \<Rightarrow> ('k remote, bool) stact" where
  "do_remote_reorder w d pid new_order = andthen (read_remote_chain_cache w pid) (\<lambda>found.
     (let cache = (case found of None \<Rightarrow> [] | Some c \<Rightarrow> c); rws = rows_of_cache cache; n = length rws in
      if n < 1 \<or> length new_order \<noteq> n \<or> set new_order \<noteq> set [0..<n] then ret False
      else push_rows w d pid (cached_chain w pid cache) (chain_exists_or_true cache) (map (\<lambda>i. rws ! i) new_order)))"

end
