(* ===== verification/Remote_Props.thy ===== *)
theory Remote_Props
  imports Remote_Chain Demo
begin

text \<open>
  Laws of the working copies and of a push: the rows of a file are in normal form, a push that
  succeeds leaves exactly the enabled rows on the peer, and one that fails brings the working copy
  from before it back.
\<close>

section \<open>Rows in normal form\<close>

definition row_form :: "string \<Rightarrow> bool \<Rightarrow> string \<Rightarrow> int option \<Rightarrow> jobj" where
  "row_form t b ds pr = [(''rest'', JStr t), (''enabled'', JBool b)] @ (if ds = [] then [] else [(''description'', JStr ds)]) @
     (case pr of None \<Rightarrow> [] | Some n \<Rightarrow> [(''priority'', JInt n)])"

lemma clean_row_form: "clean_row rep v = Some r \<Longrightarrow> \<exists>t b ds pr. r = row_form t b ds pr \<and> strip t = t \<and> t \<noteq> [] \<and> strip ds = ds"
  unfolding clean_row_def Let_def row_form_def by (cases v) (simp_all split: if_splits, (metis strip_idem)+)

lemma clean_row_of_form: "strip t = t \<Longrightarrow> t \<noteq> [] \<Longrightarrow> strip ds = ds \<Longrightarrow> clean_row rep (JObj (row_form t b ds pr)) = Some (row_form t b ds pr)"
  by (cases "ds = []"; cases pr) (simp_all add: clean_row_def row_form_def str_or_def int_or_none_def)

lemma clean_row_again: "clean_row rep v = Some r \<Longrightarrow> clean_row rep (JObj r) = Some r"
  using clean_row_form clean_row_of_form by blast

lemma map_filter_again: "\<forall>r\<in>set rs. f (g r) = Some r \<Longrightarrow> List.map_filter f (map g rs) = rs"
  by (induction rs) (auto simp: List.map_filter_simps)

lemma clean_rows_mem: "r \<in> set (clean_rows rep vs) \<Longrightarrow> \<exists>v. clean_row rep v = Some r"
  by (auto simp: clean_rows_def List.map_filter_def)

lemma clean_rows_again [simp]: "clean_rows rep (map JObj (clean_rows rep vs)) = clean_rows rep vs"
  unfolding clean_rows_def [of rep "map JObj _"]
  by (rule map_filter_again) (use clean_rows_mem clean_row_again in blast)

lemma dicts_map [simp]: "dicts (map JObj rs) = rs"
  unfolding dicts_def by (rule map_filter_again) simp

section \<open>Files\<close>

lemma path_Inr: "path_for_peer pid = Inr p \<longleftrightarrow> strip pid \<noteq> [] \<and> p = safe_name (strip pid) @ ''.json''"
  by (auto simp: path_for_peer_def Let_def)

lemma bak_path: "path_for_peer pid = Inr p \<Longrightarrow> prepush_bak_path pid = Inr (safe_name (strip pid) @ ''.prepush.bak'')"
  by (simp add: prepush_bak_path_def)

lemma bak_neq: "path_for_peer pid = Inr p \<Longrightarrow> prepush_bak_path pid = Inr b \<Longrightarrow> p \<noteq> b"
  using bak_path [of pid p] by (auto simp: path_Inr dest: arg_cong [where f = last])

lemma files_put [simp]: "map_of (rm_files (put_file f j s)) g = (if g = f then Some j else map_of (rm_files s) g)"
  "rm_host (put_file f j s) = rm_host s"
  by (simp_all add: put_file_def update_conv')

text \<open>Reading changes nothing.\<close>

definition same :: "'s \<Rightarrow> 's \<Rightarrow> bool" where
  "same s t \<longleftrightarrow> t = s"

interpretation same: step_frame same
  by unfold_locales (simp_all add: same_def)

lemma if_keeps: "keeps R a \<Longrightarrow> keeps R b \<Longrightarrow> keeps R (\<lambda>st. if c st then a st else b st)"
  by (auto simp: keeps_def)

lemma read_json_same: "keeps same (rm_read_json w f)"
  by (auto simp: keeps_def rm_read_json_def ret_def throw_def same_def split: option.splits if_splits)

lemma read_faults_same: "keeps same m \<Longrightarrow> keeps same f \<Longrightarrow> keeps same (read_faults m f)"
  unfolding read_faults_def by (rule same.handle_keeps) (auto split: exn.split)

lemma of_res_same: "keeps same (of_res r)"
  by (rule of_res_keeps) (simp add: same_def)

lemma tried_read_same: "keeps same (read_faults (andthen (rm_read_json w f) (\<lambda>v. ret (Some v))) (ret None))"
  by (intro read_faults_same same.andthen_keeps read_json_same same.ret_keeps)

lemma read_same: "keeps same (read_remote_chain_cache w pid)"
  unfolding read_remote_chain_cache_def
proof (rule same.andthen_keeps [OF of_res_same], rule if_keeps [OF same.ret_keeps], rule same.andthen_keeps [OF tried_read_same])
  fix v
  show "keeps same (case v of None \<Rightarrow> ret None | Some j \<Rightarrow>
            if \<not> truthy j then ret None
            else (case j of
              JObj raw \<Rightarrow>
                if strip (str_or (rw_repr w) (jget ''peer_id'' raw)) \<noteq> strip pid then ret None
                else andthen (of_res (py_int (jget_or (JInt 0) ''version'' raw))) (\<lambda>version.
                  if version < 1 then ret None
                  else andthen (of_res (normalize_rows_from_raw (rw_repr w) raw)) (\<lambda>rows.
                    ret (Some (jset ''rests'' (JList (map row_rest rows)) (jset ''rows'' (JList (map JObj rows)) raw)))))
            | _ \<Rightarrow> throw (AttributeError ''get'')))"
  proof (cases v)
    case (Some j)
    then show ?thesis by (cases j) (auto intro!: same.andthen_keeps of_res_same)
  qed auto
qed

lemma read_state: "read_remote_chain_cache w pid s = Some (r, t) \<Longrightarrow> t = s"
  using keepsD [OF read_same] by (simp add: same_def)

lemma write_state:
  assumes "write_remote_chain_cache w pid a s = Some (Inr u, t)"
  shows "\<exists>p prev. path_for_peer pid = Inr p \<and> t = put_file p (Some (JObj (copy_record w pid a prev))) s"
  using assms
  by (cases "path_for_peer pid")
    (auto simp: write_remote_chain_cache_def andthen_Some_iff of_res_def ret_def throw_def rm_write_json_def dest!: read_state split: if_splits)

definition copy_as_read :: "'k remote_world \<Rightarrow> string \<Rightarrow> copy_args \<Rightarrow> jobj \<Rightarrow> jobj" where
  "copy_as_read w pid a prev = (let rows = clean_rows (rw_repr w) (ca_rows a) in
     jset ''rests'' (JList (map row_rest rows)) (jset ''rows'' (JList (map JObj rows)) (copy_record w pid a prev)))"

lemma read_copy:
  assumes "path_for_peer pid = Inr p" "map_of (rm_files s) p = Some (Some (JObj (copy_record w pid a prev)))" "rw_read_ok w p"
  shows "read_remote_chain_cache w pid s = Some (Inr (Some (copy_as_read w pid a prev)), s)"
proof -
  let ?rows = "clean_rows (rw_repr w) (ca_rows a)" and ?rec = "copy_record w pid a prev"
  have n: "normalize_rows_from_raw (rw_repr w) ?rec = Inr ?rows"
  proof (cases ?rows)
    case Nil
    then show ?thesis by (simp add: normalize_rows_from_raw_def copy_record_def items_def Let_def strip_all_def)
  next
    case (Cons r rs)
    then have "normalize_rows_from_raw (rw_repr w) ?rec = Inr (clean_rows (rw_repr w) (map JObj ?rows))"
      by (simp add: normalize_rows_from_raw_def copy_record_def Let_def)
    then show ?thesis by simp
  qed
  have pid: "strip (str_or (rw_repr w) (jget ''peer_id'' ?rec)) = strip pid" and v: "py_int (jget_or (JInt 0) ''version'' ?rec) = Inr 1"
    and ne: "?rec \<noteq> []"
    using assms(1) by (auto simp: copy_record_def Let_def str_or_def path_Inr)
  have rd: "rm_read_json w p s = Some (Inr (JObj ?rec), s)" using assms(2,3) by (simp add: rm_read_json_def ret_def)
  then have rf: "read_faults (andthen (rm_read_json w p) (\<lambda>v. ret (Some v))) (ret None) s = Some (Inr (Some (JObj ?rec)), s)"
    by (simp add: read_faults_def handle_def andthen_def ret_def)
  show ?thesis
    unfolding read_remote_chain_cache_def
    using assms(1,2) rf ne pid v n by (simp add: andthen_def ret_def is_file_def copy_as_read_def Let_def)
qed

lemma copy_as_read_fields:
  "rows_of_cache (copy_as_read w pid a prev) = map JObj (clean_rows (rw_repr w) (ca_rows a))"
  "jget ''chain'' (copy_as_read w pid a prev) = JStr (ca_chain a)"
  "jget ''chain_exists'' (copy_as_read w pid a prev) = JBool (ca_chain_exists a)"
  "jget ''pending_sync'' (copy_as_read w pid a prev) = JBool (ca_pending_sync a)"
  "jget ''last_sync_error'' (copy_as_read w pid a prev) = opt_json (ca_last_sync_error a)"
  by (simp_all add: copy_as_read_def copy_record_def rows_of_cache_def Let_def)

lemma jget_or_jset [simp]: "jget_or d k (jset k' v x) = (if k = k' then v else jget_or d k x)"
  by (simp add: jget_or_def jset_def update_conv')

lemma jset_nonempty [simp]: "jset k v x \<noteq> []"
  by (cases x) (auto simp: jset_def)

text \<open>When a working copy is found, and what is then in the file.\<close>

definition valid_copy :: "'k remote_world \<Rightarrow> string \<Rightarrow> jobj \<Rightarrow> jobj list \<Rightarrow> bool" where
  "valid_copy w pid raw rows \<longleftrightarrow> raw \<noteq> [] \<and> strip (str_or (rw_repr w) (jget ''peer_id'' raw)) = strip pid \<and>
     (\<exists>v. py_int (jget_or (JInt 0) ''version'' raw) = Inr v \<and> 1 \<le> v) \<and> normalize_rows_from_raw (rw_repr w) raw = Inr rows"

definition read_form :: "jobj \<Rightarrow> jobj list \<Rightarrow> jobj" where
  "read_form raw rows = jset ''rests'' (JList (map row_rest rows)) (jset ''rows'' (JList (map JObj rows)) raw)"

lemma read_found:
  assumes "path_for_peer pid = Inr p" "map_of (rm_files s) p = Some (Some (JObj raw))" "rw_read_ok w p" "valid_copy w pid raw rows"
  shows "read_remote_chain_cache w pid s = Some (Inr (Some (read_form raw rows)), s)"
proof -
  have "rm_read_json w p s = Some (Inr (JObj raw), s)" using assms(2,3) by (simp add: rm_read_json_def ret_def)
  then have "read_faults (andthen (rm_read_json w p) (\<lambda>v. ret (Some v))) (ret None) s = Some (Inr (Some (JObj raw)), s)"
    by (simp add: read_faults_def handle_def andthen_def ret_def)
  then show ?thesis
    using assms(1,2,4) unfolding read_remote_chain_cache_def valid_copy_def
    by (auto simp: andthen_def ret_def is_file_def read_form_def)
qed

lemma read_finds:
  assumes "read_remote_chain_cache w pid s = Some (Inr (Some c), s)"
  obtains p raw rows where "path_for_peer pid = Inr p" "map_of (rm_files s) p = Some (Some (JObj raw))" "valid_copy w pid raw rows" "c = read_form raw rows"
proof -
  obtain p where p: "path_for_peer pid = Inr p"
    using assms by (cases "path_for_peer pid") (simp_all add: read_remote_chain_cache_def throw_def)
  let ?t = "read_faults (andthen (rm_read_json w p) (\<lambda>v. ret (Some v))) (ret None)"
  have f: "is_file p s" using assms p by (auto simp: read_remote_chain_cache_def ret_def split: if_splits)
  then obtain v where v: "?t s = Some (Inr v, s)" "v \<noteq> None"
    using assms p tried_read_same [of w p] by (force simp: read_remote_chain_cache_def andthen_Some_iff keeps_def same_def ret_def)
  obtain jo where jo: "map_of (rm_files s) p = Some jo" using f by (auto simp: is_file_def)
  obtain j where j: "v = Some j" and m: "map_of (rm_files s) p = Some (Some j)"
    using v jo by (cases "rw_read_ok w p"; cases jo)
      (auto simp: read_faults_def handle_def andthen_def rm_read_json_def ret_def throw_def)
  have c: "(if \<not> truthy j then ret None
            else (case j of
              JObj raw \<Rightarrow>
                if strip (str_or (rw_repr w) (jget ''peer_id'' raw)) \<noteq> strip pid then ret None
                else andthen (of_res (py_int (jget_or (JInt 0) ''version'' raw))) (\<lambda>version.
                  if version < 1 then ret None
                  else andthen (of_res (normalize_rows_from_raw (rw_repr w) raw)) (\<lambda>rows.
                    ret (Some (jset ''rests'' (JList (map row_rest rows)) (jset ''rows'' (JList (map JObj rows)) raw)))))
            | _ \<Rightarrow> throw (AttributeError ''get''))) s = Some (Inr (Some c), s)"
    using assms p f v(1) j by (simp add: read_remote_chain_cache_def andthen_def)
  then obtain raw where raw: "j = JObj raw" "raw \<noteq> []" by (cases j) (auto simp: ret_def throw_def split: if_splits)
  have "\<exists>rows. valid_copy w pid raw rows \<and> c = read_form raw rows"
    using c raw by (cases "py_int (jget_or (JInt 0) ''version'' raw)"; cases "normalize_rows_from_raw (rw_repr w) raw")
      (auto simp: valid_copy_def read_form_def ret_def throw_def split: if_splits)
  then show ?thesis using that p m raw(1) by blast
qed

section \<open>The push\<close>

lemma write_result:
  assumes "path_for_peer pid = Inr p" "write_remote_chain_cache w pid a s = Some (r, t)"
  shows "(\<exists>e. r = Inl e \<and> t = s) \<or> (\<exists>prev. r = Inr () \<and> t = put_file p (Some (JObj (copy_record w pid a prev))) s)"
  using assms by (auto simp: write_remote_chain_cache_def andthen_Some_iff ret_def throw_def rm_write_json_def dest!: read_state split: if_splits)

lemma mark_result:
  assumes "path_for_peer pid = Inr p" "prepush_bak_path pid = Inr b" "map_of (rm_files s) p = Some j"
    and "mark_pending_apply w pid chain ce rows s = Some (Inr u, t)"
  shows "\<exists>prev. map_of (rm_files t) p = Some (Some (JObj (copy_record w pid \<lparr>ca_chain = chain, ca_chain_exists = ce, ca_rows = rows,
       ca_pending_sync = True, ca_last_sync_error = None, ca_set_pulled = False, ca_set_pushed = False\<rparr> prev))) \<and>
     map_of (rm_files t) b = Some j \<and> rm_host t = rm_host s"
proof -
  have ne: "p \<noteq> b" using bak_neq [OF assms(1,2)] .
  obtain s1 where s1: "backup_main_json_before_mutation w pid s = Some (Inr (), s1)"
    and wr: "write_remote_chain_cache w pid \<lparr>ca_chain = chain, ca_chain_exists = ce, ca_rows = rows,
       ca_pending_sync = True, ca_last_sync_error = None, ca_set_pulled = False, ca_set_pushed = False\<rparr> s1 = Some (Inr u, t)"
    using assms(4) by (auto simp: mark_pending_apply_def andthen_Some_iff)
  have "s1 = put_file b j s"
    using s1 assms(1,2,3) by (auto simp: backup_main_json_before_mutation_def ret_def throw_def split: if_splits)
  then show ?thesis using write_result [OF assms(1) wr] ne by auto
qed

lemma clear_result:
  assumes "prepush_bak_path pid = Inr b" "p \<noteq> b"
  shows "\<exists>t. clear_prepush_backup w pid s = Some (Inr (), t) \<and> map_of (rm_files t) p = map_of (rm_files s) p \<and> rm_host t = rm_host s"
  using assms by (auto simp: clear_prepush_backup_def ret_def delete_conv')

text \<open>Running commands leaves the files alone.\<close>

definition files_same :: "'k remote \<Rightarrow> 'k remote \<Rightarrow> bool" where
  "files_same s t \<longleftrightarrow> rm_files t = rm_files s"

interpretation fs: step_frame "files_same :: 'k remote \<Rightarrow> 'k remote \<Rightarrow> bool"
  by unfold_locales (simp_all add: files_same_def)

lemma exec_fs: "keeps files_same (exec_ssh w cmd)"
  by (auto simp: keeps_def exec_ssh_def files_same_def split: prod.splits)

lemma of_res_fs: "keeps files_same (of_res r)"
  by (rule of_res_keeps) (simp add: files_same_def)

lemma sudo_fs: "keeps files_same (detect_sudo_prefix w)"
  unfolding detect_sudo_prefix_def by (intro fs.andthen_keeps exec_fs) (auto intro!: fs.andthen_keeps exec_fs split: prod.split)

lemma must_fs: "keeps files_same (must w msg cmd)"
  unfolding must_def by (intro fs.andthen_keeps exec_fs) (auto split: prod.split)

lemma append_fs: "keeps files_same (append_rests w cmd rs)"
  by (induction rs) (auto intro!: fs.andthen_keeps must_fs)

lemma replace_fs: "keeps files_same (replace_peer_filter_chain_rests_via_ssh w p rests)"
  unfolding replace_peer_filter_chain_rests_via_ssh_def Let_def
  by (auto intro!: fs.andthen_keeps exec_fs of_res_fs sudo_fs append_fs split: prod.split)

lemma apply_rests_fs: "keeps files_same (apply_remote_peer_filter_chain_rests w d pid rests)"
  unfolding apply_remote_peer_filter_chain_rests_def by (intro fs.andthen_keeps of_res_fs replace_fs)

text \<open>What iptables promises for the chain of a peer: listing it does not change it, a flush that exits with 0 empties
  it and any other one leaves it as it is, and an append that succeeds adds the rule at the end.  The two commands that look for \<open>sudo\<close> do
  not touch it.\<close>

definition remote_chain_law :: "'k remote_world \<Rightarrow> string \<Rightarrow> ('k \<Rightarrow> string list option) \<Rightarrow> bool" where
  "remote_chain_law w chain rules \<longleftrightarrow>
     (\<forall>cmd\<in>{''sudo -n true 2>/dev/null'', ''id -u''}. \<forall>k r k'. rw_exec w cmd k = (r, k') \<longrightarrow> rules k' = rules k) \<and>
     (\<forall>sp\<in>{[], ''sudo -n ''}. \<forall>k out err k'.
     (rw_exec w (sp @ ''iptables -S '' @ shlex_quote chain) k = (Inr (out, err, 0), k') \<longrightarrow> rules k \<noteq> None \<and> rules k' = rules k) \<and>
     (\<forall>code. rw_exec w (sp @ ''iptables -F '' @ shlex_quote chain) k = (Inr (out, err, code), k') \<longrightarrow>
        rules k' = (if code = 0 then map_option (\<lambda>_. []) (rules k) else rules k)) \<and>
     (\<forall>body l. rw_exec w (sp @ ''iptables -A '' @ shlex_quote chain @ '' '' @ body) k = (Inr (out, err, 0), k') \<longrightarrow>
        rules k = Some l \<longrightarrow> rules k' = Some (l @ [body])))"

text \<open>A flush of the chain that does not exit with 0 when the chain has the rules \<open>old\<close>.\<close>

definition flush_refused :: "'k remote_world \<Rightarrow> string \<Rightarrow> ('k \<Rightarrow> string list option) \<Rightarrow> string list \<Rightarrow> bool" where
  "flush_refused w chain rules old \<longleftrightarrow> (\<exists>sp\<in>{[], ''sudo -n ''}. \<exists>k out err code k'.
     rw_exec w (sp @ ''iptables -F '' @ shlex_quote chain) k = (Inr (out, err, code), k') \<and> code \<noteq> 0 \<and> rules k = Some old)"

text \<open>What a push that is reported as successful leaves: the new rules, or, as the exit code of the flush is not looked at, the
  new rules after the old ones when the flush was refused.\<close>

definition chain_replaced :: "'k remote_world \<Rightarrow> string \<Rightarrow> ('k \<Rightarrow> string list option) \<Rightarrow> 'k \<Rightarrow> string list \<Rightarrow> 'k \<Rightarrow> bool" where
  "chain_replaced w chain rules k new k' \<longleftrightarrow> rules k' = Some new \<or>
     (\<exists>old. rules k = Some old \<and> flush_refused w chain rules old \<and> rules k' = Some (old @ new))"

lemma sudo_prefix: "detect_sudo_prefix w s = Some (Inr sp, t) \<Longrightarrow> sp \<in> {[], ''sudo -n ''}"
  by (auto simp: detect_sudo_prefix_def andthen_Some_iff ret_def throw_def split: if_splits)

lemma sudo_effect:
  assumes "remote_chain_law w chain rules" "detect_sudo_prefix w s = Some (r, t)"
  shows "rules (rm_host t) = rules (rm_host s)"
proof -
  have e: "rules (rm_host v) = rules (rm_host u)"
    if "exec_ssh w cmd u = Some (x, v)" "cmd \<in> {''sudo -n true 2>/dev/null'', ''id -u''}" for cmd u x v
    using assms(1) that unfolding remote_chain_law_def by (fastforce simp: exec_ssh_def split: prod.splits)
  show ?thesis
    using assms(2) e unfolding detect_sudo_prefix_def
    by (fastforce simp: andthen_Some_iff ret_def throw_def split: if_splits prod.splits)
qed

lemma append_effect:
  assumes "remote_chain_law w chain rules" "sp \<in> {[], ''sudo -n ''}"
  shows "append_rests w (sp @ ''iptables -A '' @ shlex_quote chain @ '' '') rs s = Some (Inr u, t) \<Longrightarrow> rules (rm_host s) = Some l \<Longrightarrow>
    rules (rm_host t) = Some (l @ strip_all rs)"
proof (induction rs arbitrary: s l)
  case Nil
  then show ?case by (simp add: ret_def strip_all_def)
next
  case (Cons r rs)
  show ?case
  proof (cases "strip r = []")
    case True
    then show ?thesis using Cons by (simp add: strip_all_def)
  next
    case False
    then obtain s1 where s1: "must w ''append'' (sp @ ''iptables -A '' @ shlex_quote chain @ '' '' @ strip r) s = Some (Inr (), s1)"
      and rest: "append_rests w (sp @ ''iptables -A '' @ shlex_quote chain @ '' '') rs s1 = Some (Inr u, t)"
      using Cons.prems(1) by (auto simp: andthen_Some_iff)
    then obtain out err k where k: "rw_exec w (sp @ ''iptables -A '' @ shlex_quote chain @ '' '' @ strip r) (rm_host s) = (Inr (out, err, 0), k)"
      "rm_host s1 = k"
      by (auto simp: must_def andthen_Some_iff exec_ssh_def ret_def throw_def split: prod.splits if_splits)
    have "rules (rm_host s1) = Some (l @ [strip r])"
      using assms k Cons.prems(2) unfolding remote_chain_law_def by blast
    from Cons.IH [OF rest this] False show ?thesis by (simp add: strip_all_def)
  qed
qed

lemma of_res_Inr: "of_res r s = Some (Inr x, t) \<longleftrightarrow> r = Inr x \<and> t = s"
  by (cases r) (auto simp: ret_def throw_def)

lemma replace_effect:
  assumes "remote_chain_law w (peer_chain_name_for_id (rw_hash w) (strip (p_id p))) rules"
    and "replace_peer_filter_chain_rests_via_ssh w p rests s = Some (Inr u, t)"
  shows "chain_replaced w (peer_chain_name_for_id (rw_hash w) (strip (p_id p))) rules (rm_host s) (strip_all rests) (rm_host t)"
proof -
  let ?chain = "peer_chain_name_for_id (rw_hash w) (strip (p_id p))"
  obtain sp s2 out err s3 fl where sp: "detect_sudo_prefix w s = Some (Inr sp, s2)"
    and ls: "exec_ssh w (sp @ ''iptables -S '' @ shlex_quote ?chain) s2 = Some (Inr (out, err, 0), s3)"
    and fl: "\<exists>s4. exec_ssh w (sp @ ''iptables -F '' @ shlex_quote ?chain) s3 = Some (Inr fl, s4) \<and>
      append_rests w (sp @ ''iptables -A '' @ shlex_quote ?chain @ '' '') rests s4 = Some (Inr u, t)"
    using assms(2) unfolding replace_peer_filter_chain_rests_via_ssh_def Let_def
    by (auto simp: andthen_Some_iff throw_def of_res_Inr split: if_splits)
  obtain s4 where fl4: "exec_ssh w (sp @ ''iptables -F '' @ shlex_quote ?chain) s3 = Some (Inr fl, s4)"
    and ap: "append_rests w (sp @ ''iptables -A '' @ shlex_quote ?chain @ '' '') rests s4 = Some (Inr u, t)" using fl by blast
  note spp = sudo_prefix [OF sp]
  have e3: "rw_exec w (sp @ ''iptables -S '' @ shlex_quote ?chain) (rm_host s2) = (Inr (out, err, 0), rm_host s3)"
    using ls by (auto simp: exec_ssh_def split: prod.splits)
  have "rules (rm_host s2) \<noteq> None \<and> rules (rm_host s3) = rules (rm_host s2)" using assms(1) spp e3 unfolding remote_chain_law_def by metis
  then obtain old where old: "rules (rm_host s) = Some old" "rules (rm_host s3) = Some old"
    using sudo_effect [OF assms(1) sp] by auto
  obtain o1 e1 code where F: "rw_exec w (sp @ ''iptables -F '' @ shlex_quote ?chain) (rm_host s3) = (Inr (o1, e1, code), rm_host s4)"
    using fl4 by (cases fl) (auto simp: exec_ssh_def split: prod.splits)
  have r4: "rules (rm_host s4) = (if code = 0 then Some [] else Some old)"
    using assms(1) spp F old(2) unfolding remote_chain_law_def by fastforce
  show ?thesis
  proof (cases "code = 0")
    case True
    then show ?thesis using append_effect [OF assms(1) spp ap, of "[]"] r4 by (simp add: chain_replaced_def)
  next
    case False
    then have "flush_refused w ?chain rules old" using spp F old(2) unfolding flush_refused_def by blast
    then show ?thesis using append_effect [OF assms(1) spp ap, of old] r4 False old(1) by (simp add: chain_replaced_def)
  qed
qed

text \<open>What a push reads of the record it has just written.\<close>

lemma copy_valid: "path_for_peer pid = Inr p \<Longrightarrow> valid_copy w pid (copy_record w pid a prev) (clean_rows (rw_repr w) (ca_rows a))"
proof -
  assume p: "path_for_peer pid = Inr p"
  let ?rows = "clean_rows (rw_repr w) (ca_rows a)" and ?rec = "copy_record w pid a prev"
  have "normalize_rows_from_raw (rw_repr w) ?rec = Inr ?rows"
  proof (cases ?rows)
    case Nil
    then show ?thesis by (simp add: normalize_rows_from_raw_def copy_record_def items_def Let_def strip_all_def)
  next
    case (Cons r rs)
    then have "normalize_rows_from_raw (rw_repr w) ?rec = Inr (clean_rows (rw_repr w) (map JObj ?rows))"
      by (simp add: normalize_rows_from_raw_def copy_record_def Let_def)
    then show ?thesis by simp
  qed
  then show ?thesis using p by (auto simp: valid_copy_def copy_record_def Let_def str_or_def path_Inr)
qed

lemma read_form_fields [simp]:
  "rows_of_cache (read_form raw rows) = map JObj rows" "k \<noteq> ''rests'' \<Longrightarrow> k \<noteq> ''rows'' \<Longrightarrow> jget k (read_form raw rows) = jget k raw"
  by (simp_all add: read_form_def rows_of_cache_def)

lemma copy_record_fields [simp]:
  "jget ''chain'' (copy_record w pid a prev) = JStr (ca_chain a)"
  "jget ''pending_sync'' (copy_record w pid a prev) = JBool (ca_pending_sync a)"
  "jget ''last_sync_error'' (copy_record w pid a prev) = opt_json (ca_last_sync_error a)"
  by (simp_all add: copy_record_def Let_def)

lemma record_ok_result:
  assumes "path_for_peer pid = Inr p" "record_after_apply w pid chain ce rows True m s = Some (r, t)"
  shows "(\<exists>e. r = Inl e \<and> t = s) \<or> (r = Inr () \<and> rm_host t = rm_host s \<and>
    (\<exists>a prev. map_of (rm_files t) p = Some (Some (JObj (copy_record w pid a prev))) \<and> ca_rows a = rows \<and> \<not> ca_pending_sync a \<and> ca_last_sync_error a = None))"
proof -
  let ?a = "\<lparr>ca_chain = chain, ca_chain_exists = ce, ca_rows = rows, ca_pending_sync = False, ca_last_sync_error = None,
    ca_set_pulled = False, ca_set_pushed = True\<rparr>"
  obtain r1 s1 where w1: "write_remote_chain_cache w pid ?a s = Some (r1, s1)"
    using assms(2) by (auto simp: record_after_apply_def andthen_def split: option.splits)
  from write_result [OF assms(1) w1] show ?thesis
  proof
    assume "\<exists>e. r1 = Inl e \<and> s1 = s"
    then show ?thesis using assms(2) w1 by (auto simp: record_after_apply_def andthen_def)
  next
    assume "\<exists>prev. r1 = Inr () \<and> s1 = put_file p (Some (JObj (copy_record w pid ?a prev))) s"
    then obtain prev where prev: "r1 = Inr ()" "s1 = put_file p (Some (JObj (copy_record w pid ?a prev))) s" by blast
    obtain b where b: "prepush_bak_path pid = Inr b" using bak_path [OF assms(1)] by blast
    obtain s2 where s2: "clear_prepush_backup w pid s1 = Some (Inr (), s2)" "map_of (rm_files s2) p = map_of (rm_files s1) p" "rm_host s2 = rm_host s1"
      using clear_result [OF b bak_neq [OF assms(1) b]] by blast
    have "r = Inr () \<and> t = s2" using assms(2) w1 prev(1) s2(1) by (simp add: record_after_apply_def andthen_def)
    moreover have "map_of (rm_files s2) p = Some (Some (JObj (copy_record w pid ?a prev)))" "rm_host s2 = rm_host s" using s2 prev(2) by simp_all
    moreover have "ca_rows ?a = rows \<and> \<not> ca_pending_sync ?a \<and> ca_last_sync_error ?a = None" by simp
    ultimately show ?thesis by blast
  qed
qed

definition failed_record :: "'k remote_world \<Rightarrow> string option \<Rightarrow> jobj \<Rightarrow> jobj" where
  "failed_record w m raw = jset ''updated_at'' (JStr (rw_now w)) (jset ''pending_sync'' (JBool True) (jset ''last_sync_error'' (JStr (error_text m)) raw))"

lemma record_failed_result:
  assumes "path_for_peer pid = Inr p" "prepush_bak_path pid = Inr b" "map_of (rm_files s) b = Some (Some (JObj raw))" "rw_read_ok w b"
    and "record_after_apply w pid chain ce rows False m s = Some (Inr u, t)"
  shows "map_of (rm_files t) p = Some (Some (JObj (failed_record w m raw)))"
proof -
  have rj: "rm_read_json w b s = Some (Inr (JObj raw), s)" using assms(3,4) by (simp add: rm_read_json_def ret_def)
  then have "read_faults (andthen (rm_read_json w b) (\<lambda>v. ret (Some v))) (ret None) s = Some (Inr (Some (JObj raw)), s)"
    by (simp add: read_faults_def handle_def andthen_def ret_def)
  then show ?thesis
    using assms(1,2,3,5) by (auto simp: record_after_apply_def restore_main_from_prepush_backup_def andthen_def is_file_def ret_def throw_def
        rm_write_json_def failed_record_def split: if_splits)
qed

lemma restored_valid: "valid_copy w pid raw rows \<Longrightarrow> valid_copy w pid (failed_record w m raw) rows"
  unfolding valid_copy_def failed_record_def normalize_rows_from_raw_def by (simp cong: json.case_cong list.case_cong)

lemma rests_stripped [simp]: "strip_all (rests_to_push_list rep rows) = rests_to_push_list rep rows"
proof -
  have "\<forall>t\<in>set (rests_to_push_list rep rows). strip t = t \<and> t \<noteq> []"
    by (auto simp: rests_to_push_list_def List.map_filter_def Let_def split: if_splits)
  then show ?thesis by (induction "rests_to_push_list rep rows") (auto simp: strip_all_def filter_id_conv map_idI)
qed

lemma error_text_nonempty: "error_text m \<noteq> []"
  by (simp add: error_text_def push_failed_def)

lemma apply_result:
  assumes "path_for_peer pid = Inr p" "get_peer pid d = Some q" "remote_chain_law w (peer_chain_name_for_id (rw_hash w) (strip (p_id q))) rules"
    and "\<forall>f. rw_read_ok w f" "map_of (rm_files s) p = Some (Some (JObj (copy_record w pid a prev)))"
    and "prepush_bak_path pid = Inr b" "map_of (rm_files s) b = Some (Some (JObj raw))"
    and "apply_remote_cache_to_peer w d pid s = Some (Inr ok, t)"
  shows "(ok \<and> chain_replaced w (peer_chain_name_for_id (rw_hash w) (strip (p_id q))) rules (rm_host s)
        (rests_to_push_list (rw_repr w) (clean_rows (rw_repr w) (ca_rows a))) (rm_host t) \<and>
      (\<exists>a' prev'. map_of (rm_files t) p = Some (Some (JObj (copy_record w pid a' prev'))) \<and>
        ca_rows a' = map JObj (clean_rows (rw_repr w) (ca_rows a)) \<and> \<not> ca_pending_sync a' \<and> ca_last_sync_error a' = None)) \<or>
    (\<not> ok \<and> (\<exists>m. map_of (rm_files t) p = Some (Some (JObj (failed_record w m raw)))))"
proof -
  let ?rows = "clean_rows (rw_repr w) (ca_rows a)" and ?rec = "copy_record w pid a prev"
  have rd: "read_remote_chain_cache w pid s = Some (Inr (Some (read_form ?rec ?rows)), s)"
    using read_found [OF assms(1,5) _ copy_valid [OF assms(1)]] assms(4) by blast
  let ?chain = "cached_chain w pid (read_form ?rec ?rows)" and ?ce = "truthy (jget ''chain_exists'' (read_form ?rec ?rows))"
  let ?push = "apply_remote_peer_filter_chain_rests w d pid (rests_to_push_list (rw_repr w) ?rows)"
  let ?body = "andthen ?push (\<lambda>_. andthen (record_after_apply w pid ?chain ?ce (map JObj ?rows) True None) (\<lambda>_. ret True))"
  have h: "handle ?body (\<lambda>e. andthen (record_after_apply w pid ?chain ?ce (map JObj ?rows) False (Some (exn_text e))) (\<lambda>_. ret False)) s = Some (Inr ok, t)"
    using assms(8) rd by (simp add: apply_remote_cache_to_peer_def andthen_def Let_def)
  then consider (good) "?body s = Some (Inr ok, t)"
    | (bad) e s1 where "?body s = Some (Inl e, s1)" "andthen (record_after_apply w pid ?chain ?ce (map JObj ?rows) False (Some (exn_text e))) (\<lambda>_. ret False) s1 = Some (Inr ok, t)"
    by (auto simp: handle_Some_iff)
  then show ?thesis
  proof cases
    case good
    then obtain u s1 v where ps: "?push s = Some (Inr u, s1)" and rc: "record_after_apply w pid ?chain ?ce (map JObj ?rows) True None s1 = Some (Inr v, t)"
      and ok: "ok" by (auto simp: andthen_Some_iff ret_def)
    have "chain_replaced w (peer_chain_name_for_id (rw_hash w) (strip (p_id q))) rules (rm_host s) (rests_to_push_list (rw_repr w) ?rows) (rm_host s1)"
      using ps assms(2) replace_effect [OF assms(3)] by (fastforce simp: apply_remote_peer_filter_chain_rests_def service_row_def)
    then show ?thesis using record_ok_result [OF assms(1) rc] ok by auto
  next
    case bad
    have "rm_files s1 = rm_files s"
    proof -
      from bad(1) consider "?push s = Some (Inl e, s1)" | u s2 where "?push s = Some (Inr u, s2)"
          "record_after_apply w pid ?chain ?ce (map JObj ?rows) True None s2 = Some (Inl e, s1)"
        by (auto simp: andthen_Some_iff ret_def)
      then show ?thesis
      proof cases
        case 1
        then show ?thesis using keepsD [OF apply_rests_fs] by (auto simp: files_same_def)
      next
        case (2 u s2)
        then show ?thesis using keepsD [OF apply_rests_fs 2(1)] record_ok_result [OF assms(1) 2(2)] by (auto simp: files_same_def)
      qed
    qed
    then have "map_of (rm_files s1) b = Some (Some (JObj raw))" using assms(7) by simp
    then show ?thesis
      using bad(2) record_failed_result [OF assms(1,6) _ assms(4) [rule_format]] by (fastforce simp: andthen_Some_iff ret_def)
  qed
qed

text \<open>What a push of new rows over a working copy leaves on the peer and in the copy.\<close>

lemma push_outcome:
  assumes "remote_chain_law w (peer_chain_name_for_id (rw_hash w) (strip (p_id q))) rules" "get_peer pid d = Some q" "\<forall>f. rw_read_ok w f"
    and "read_remote_chain_cache w pid s = Some (Inr (Some c), s)" "push_rows w d pid chain ce rows s = Some (Inr ok, t)"
  shows "\<exists>c'. read_remote_chain_cache w pid t = Some (Inr (Some c'), t) \<and>
    (if ok then chain_replaced w (peer_chain_name_for_id (rw_hash w) (strip (p_id q))) rules (rm_host s)
          (rests_to_push_list (rw_repr w) (clean_rows (rw_repr w) rows)) (rm_host t) \<and>
        rows_of_cache c' = map JObj (clean_rows (rw_repr w) rows) \<and> jget ''pending_sync'' c' = JBool False \<and> jget ''last_sync_error'' c' = JNull
     else rows_of_cache c' = rows_of_cache c \<and> jget ''chain'' c' = jget ''chain'' c \<and> jget ''pending_sync'' c' = JBool True \<and>
        (\<exists>m. jget ''last_sync_error'' c' = JStr m \<and> m \<noteq> []))"
proof -
  obtain p raw old where p: "path_for_peer pid = Inr p" "map_of (rm_files s) p = Some (Some (JObj raw))" "valid_copy w pid raw old" "c = read_form raw old"
    using read_finds [OF assms(4)] .
  obtain b where b: "prepush_bak_path pid = Inr b" using bak_path [OF p(1)] by blast
  let ?a = "\<lparr>ca_chain = chain, ca_chain_exists = ce, ca_rows = rows, ca_pending_sync = True, ca_last_sync_error = None, ca_set_pulled = False, ca_set_pushed = False\<rparr>"
  obtain u s1 where mk: "mark_pending_apply w pid chain ce rows s = Some (Inr u, s1)" and ap: "apply_remote_cache_to_peer w d pid s1 = Some (Inr ok, t)"
    using assms(5) by (auto simp: push_rows_def andthen_Some_iff)
  obtain prev where s1: "map_of (rm_files s1) p = Some (Some (JObj (copy_record w pid ?a prev)))" "map_of (rm_files s1) b = Some (Some (JObj raw))" "rm_host s1 = rm_host s"
    using mark_result [OF p(1) b p(2) mk] by blast
  from apply_result [OF p(1) assms(2,1,3) s1(1) b s1(2) ap] show ?thesis
  proof
    assume "ok \<and> chain_replaced w (peer_chain_name_for_id (rw_hash w) (strip (p_id q))) rules (rm_host s1)
        (rests_to_push_list (rw_repr w) (clean_rows (rw_repr w) (ca_rows ?a))) (rm_host t) \<and>
      (\<exists>a' prev'. map_of (rm_files t) p = Some (Some (JObj (copy_record w pid a' prev'))) \<and>
        ca_rows a' = map JObj (clean_rows (rw_repr w) (ca_rows ?a)) \<and> \<not> ca_pending_sync a' \<and> ca_last_sync_error a' = None)"
    then obtain a' prev' where g: "ok" "chain_replaced w (peer_chain_name_for_id (rw_hash w) (strip (p_id q))) rules (rm_host s) (rests_to_push_list (rw_repr w) (clean_rows (rw_repr w) rows)) (rm_host t)"
      "map_of (rm_files t) p = Some (Some (JObj (copy_record w pid a' prev')))"
      "ca_rows a' = map JObj (clean_rows (rw_repr w) rows)" "\<not> ca_pending_sync a'" "ca_last_sync_error a' = None" using s1(3) by auto
    show ?thesis
      using read_found [OF p(1) g(3) assms(3) [rule_format] copy_valid [OF p(1)]] g by (simp add: opt_json_def)
  next
    assume "\<not> ok \<and> (\<exists>m. map_of (rm_files t) p = Some (Some (JObj (failed_record w m raw))))"
    then obtain m where m: "\<not> ok" "map_of (rm_files t) p = Some (Some (JObj (failed_record w m raw)))" by blast
    show ?thesis
      using read_found [OF p(1) m(2) assms(3) [rule_format] restored_valid [OF p(3)]] m(1) p(4) by (simp add: error_text_nonempty failed_record_def)
  qed
qed

section \<open>Properties\<close>

text \<open>C29. Pushing the working copy of a peer is all or nothing for the centre.  A push of new rows over an existing working
  copy that reports success leaves on the peer exactly the enabled rows in their order and in the working copy the new
  rows, in sync and without an error; one that reports a failure leaves the working copy with the rows and the chain
  it had before, marked as pending and with the error.  One case of a reported success differs (\<open>chain_replaced\<close>): when the peer refused the
  \<open>iptables -F\<close>, whose exit code is not looked at, the new rules follow the old ones (\<open>refused_flush_reported_ok\<close>).\<close>

theorem push_all_or_nothing:
  assumes "remote_chain_law w (peer_chain_name_for_id (rw_hash w) (strip (p_id q))) rules" "get_peer pid d = Some q" "\<forall>f. rw_read_ok w f"
    and "read_remote_chain_cache w pid s = Some (Inr (Some c), s)" "push_rows w d pid chain ce rows s = Some (Inr ok, t)"
  shows "\<exists>c'. read_remote_chain_cache w pid t = Some (Inr (Some c'), t) \<and>
    (if ok then chain_replaced w (peer_chain_name_for_id (rw_hash w) (strip (p_id q))) rules (rm_host s)
          (rests_to_push_list (rw_repr w) (clean_rows (rw_repr w) rows)) (rm_host t) \<and>
        rows_of_cache c' = map JObj (clean_rows (rw_repr w) rows) \<and> jget ''pending_sync'' c' = JBool False \<and> jget ''last_sync_error'' c' = JNull
     else rows_of_cache c' = rows_of_cache c \<and> jget ''chain'' c' = jget ''chain'' c \<and> jget ''pending_sync'' c' = JBool True \<and>
        (\<exists>m. jget ''last_sync_error'' c' = JStr m \<and> m \<noteq> []))"
  using push_outcome [OF assms] .

section \<open>A peer host\<close>

text \<open>A host with one chain; a rule that mentions \<open>bad\<close> is refused.\<close>

definition demo_iptables :: "string \<Rightarrow> string \<Rightarrow> string list option \<Rightarrow> (string \<times> string \<times> int) res \<times> string list option" where
  "demo_iptables q cmd k = (let app = ''iptables -A '' @ q @ '' '' in
     if cmd = ''true 2>/dev/null'' then (Inr ([], [], 0), k)
     else if cmd = ''iptables -S '' @ q then (if k = None then (Inr ([], ''No chain'', 1), k) else (Inr ([], [], 0), k))
     else if cmd = ''iptables -F '' @ q then (Inr ([], [], 0), map_option (\<lambda>_. []) k)
     else if starts_with cmd app \<and> \<not> str_in ''bad'' cmd then (Inr ([], [], 0), map_option (\<lambda>l. l @ [drop (length app) cmd]) k)
     else (Inr ([], ''failed'', 2), k))"

definition without_sudo :: "string \<Rightarrow> string" where
  "without_sudo cmd = (if starts_with cmd ''sudo -n '' then drop 8 cmd else cmd)"

definition demo_exec :: "string \<Rightarrow> string \<Rightarrow> string list option \<Rightarrow> (string \<times> string \<times> int) res \<times> string list option" where
  "demo_exec chain cmd k = demo_iptables (shlex_quote chain) (without_sudo cmd) k"

definition demo_chain :: string where
  "demo_chain = peer_chain_name_for_id demo_hex ''p1''"

definition demo_remote_world :: "string list option remote_world" where
  "demo_remote_world = \<lparr>rw_now = ''now'', rw_repr = (\<lambda>_. []), rw_read_ok = (\<lambda>_. True), rw_write_ok = (\<lambda>_. True), rw_copy_ok = (\<lambda>_. True),
     rw_unlink_ok = (\<lambda>_. True), rw_hash = demo_hex, rw_na = netaddr_ref, rw_global_key = ([], []), rw_load_key = (\<lambda>_ _. Inr ()),
     rw_key_file = Inr, rw_connect = (\<lambda>_ _ _ _. Inr ()), rw_exec = demo_exec demo_chain\<rparr>"

lemma starts_with_append [simp]: "starts_with (a @ b) a"
  by (simp add: starts_with_def)

lemma demo_exec_law: "remote_chain_law demo_remote_world demo_chain id"
proof -
  have pre: "without_sudo (sp @ CHR ''i'' # c) = CHR ''i'' # c" if "sp \<in> {[], ''sudo -n ''}" for sp c
    using that by (auto simp: without_sudo_def starts_with_def)
  let ?q = "shlex_quote demo_chain"
  have S: "demo_iptables ?q (''iptables -S '' @ ?q) k = (if k = None then (Inr ([], ''No chain'', 1), k) else (Inr ([], [], 0), k))" for k
    by (simp add: demo_iptables_def)
  have F: "demo_iptables ?q (''iptables -F '' @ ?q) k = (Inr ([], [], 0), map_option (\<lambda>_. []) k)" for k
    by (simp add: demo_iptables_def)
  have A: "demo_iptables ?q (''iptables -A '' @ ?q @ '' '' @ body) k = (Inr (out, err, 0), k') \<Longrightarrow> k = Some l \<Longrightarrow> k' = Some (l @ [body])" for body k k' out err l
    by (auto simp: demo_iptables_def Let_def split: if_splits)
  have w: "without_sudo ''sudo -n true 2>/dev/null'' = ''true 2>/dev/null''" "without_sudo ''id -u'' = ''id -u''" by code_simp+
  have d: "demo_iptables ?q ''true 2>/dev/null'' k = (Inr ([], [], 0), k)" for k by (simp add: demo_iptables_def)
  have i: "demo_iptables ?q ''id -u'' k = (Inr ([], ''failed'', 2), k)" for k by (simp add: demo_iptables_def starts_with_def)
  have quiet: "demo_iptables ?q (without_sudo cmd) k = (r, k') \<Longrightarrow> k' = k" if "cmd \<in> {''sudo -n true 2>/dev/null'', ''id -u''}" for cmd k r k'
    using that
  proof
    assume "cmd = ''sudo -n true 2>/dev/null''" "demo_iptables ?q (without_sudo cmd) k = (r, k')"
    then show "k' = k" by (simp only: w d prod.inject)
  next
    assume "cmd \<in> {''id -u''}" "demo_iptables ?q (without_sudo cmd) k = (r, k')"
    then show "k' = k" by (simp only: singleton_iff w i prod.inject)
  qed
  have F': "k' = (if code = 0 then map_option (\<lambda>_. []) k else k)" if "demo_iptables ?q (''iptables -F '' @ ?q) k = (Inr (out, err, code), k')" for k k' out err code
    using that F [of k] by auto
  have S': "k \<noteq> None \<and> k' = k" if "demo_iptables ?q (''iptables -S '' @ ?q) k = (Inr (out, err, 0), k')" for k k' out err
    using that S [of k] by (auto split: if_splits)
  show ?thesis
    unfolding remote_chain_law_def demo_remote_world_def demo_exec_def remote_world.select_convs id_def
  proof (intro conjI ballI allI impI)
    fix cmd k r k'
    assume "cmd \<in> {''sudo -n true 2>/dev/null'', ''id -u''}" "demo_iptables ?q (without_sudo cmd) k = (r, k')"
    then show "k' = k" by (rule quiet)
  next
    fix sp :: string and k out err k'
    assume sp: "sp \<in> {[], ''sudo -n ''}" and "demo_iptables ?q (without_sudo (sp @ ''iptables -S '' @ ?q)) k = (Inr (out, err, 0), k')"
    then show "k \<noteq> None" "k' = k" using S' pre by auto
  next
    fix sp :: string and k out err k' and code :: int
    assume sp: "sp \<in> {[], ''sudo -n ''}" and "demo_iptables ?q (without_sudo (sp @ ''iptables -F '' @ ?q)) k = (Inr (out, err, code), k')"
    then show "k' = (if code = 0 then map_option (\<lambda>_. []) k else k)" using F' pre by auto
  next
    fix sp :: string and k out err k' body l
    assume sp: "sp \<in> {[], ''sudo -n ''}" "demo_iptables ?q (without_sudo (sp @ ''iptables -A '' @ ?q @ '' '' @ body)) k = (Inr (out, err, 0), k')" "k = Some l"
    then show "k' = Some (l @ [body])" using A pre by auto
  qed
qed

lemma demo_flush_obeys: "\<not> flush_refused demo_remote_world demo_chain id old"
proof -
  have pre: "without_sudo (sp @ CHR ''i'' # c) = CHR ''i'' # c" if "sp \<in> {[], ''sudo -n ''}" for sp c
    using that by (auto simp: without_sudo_def starts_with_def)
  have "demo_iptables q (''iptables -F '' @ q) k = (Inr ([], [], 0), map_option (\<lambda>_. []) k)" for q k
    by (simp add: demo_iptables_def)
  then show ?thesis using pre by (auto simp: flush_refused_def demo_remote_world_def demo_exec_def)
qed

definition demo_ssh_peer :: peer where
  "demo_ssh_peer = (demo_peer [])\<lparr>ssh_host := ''site'', ssh_username := ''root'', ssh_password := ''pw''\<rparr>"

definition demo_ssh_db :: db where
  "demo_ssh_db = run_ops netaddr_ref [UpsertPeer demo_ssh_peer] demo_db"

definition demo_rows_of :: "(string \<times> bool) list \<Rightarrow> json list" where
  "demo_rows_of = map (\<lambda>(r, en). JObj [(''rest'', JStr r), (''enabled'', JBool en)])"

definition demo_pulled :: "string list option remote" where
  "demo_pulled = (case record_from_fetch demo_remote_world
       \<lparr>cs_chain = demo_chain, cs_chain_exists = True, cs_chain_rests = [''-j ACCEPT''], cs_forward_refs = []\<rparr> ''p1'' \<lparr>rm_host = Some [''-j ACCEPT''], rm_files = []\<rparr> of
     Some (_, s) \<Rightarrow> s | None \<Rightarrow> \<lparr>rm_host = None, rm_files = []\<rparr>)"

lemma push_all_or_nothing_witness:
  "\<exists>t u c c'. push_rows demo_remote_world demo_ssh_db ''p1'' demo_chain True (demo_rows_of [(''-s 10.8.0.5 -j DROP'', True), (''-j DROP'', False), (''-j ACCEPT'', True)]) demo_pulled =
       Some (Inr True, t) \<and> rm_host t = Some [''-s 10.8.0.5 -j DROP'', ''-j ACCEPT''] \<and>
     push_rows demo_remote_world demo_ssh_db ''p1'' demo_chain True (demo_rows_of [(''-j DROP'', True), (''-j bad'', True)]) demo_pulled = Some (Inr False, u) \<and>
     rm_host u = Some [''-j DROP''] \<and> read_remote_chain_cache demo_remote_world ''p1'' demo_pulled = Some (Inr (Some c), demo_pulled) \<and>
     read_remote_chain_cache demo_remote_world ''p1'' u = Some (Inr (Some c'), u) \<and> rows_of_cache c' = rows_of_cache c"
proof -
  let ?w = demo_remote_world and ?d = demo_ssh_db
  let ?good = "demo_rows_of [(''-s 10.8.0.5 -j DROP'', True), (''-j DROP'', False), (''-j ACCEPT'', True)]"
  let ?bad = "demo_rows_of [(''-j DROP'', True), (''-j bad'', True)]"
  have law: "remote_chain_law ?w (peer_chain_name_for_id (rw_hash ?w) (strip (p_id demo_ssh_peer))) id"
    using demo_exec_law by (simp add: demo_chain_def demo_remote_world_def demo_ssh_peer_def demo_peer_def strip_def rstrip_def lstrip_def py_space_def)
  have obeys: "\<not> flush_refused ?w (peer_chain_name_for_id (rw_hash ?w) (strip (p_id demo_ssh_peer))) id old" for old
    using demo_flush_obeys by (simp add: demo_chain_def demo_remote_world_def demo_ssh_peer_def demo_peer_def strip_def rstrip_def lstrip_def py_space_def)
  have q: "get_peer ''p1'' ?d = Some demo_ssh_peer" by code_simp
  have rd: "\<forall>f. rw_read_ok ?w f" by (simp add: demo_remote_world_def)
  have "case read_remote_chain_cache ?w ''p1'' demo_pulled of Some (Inr (Some c), s) \<Rightarrow> True | _ \<Rightarrow> False" by code_simp
  then obtain c s where cs: "read_remote_chain_cache ?w ''p1'' demo_pulled = Some (Inr (Some c), s)" by (auto split: option.splits sum.splits)
  then have c: "read_remote_chain_cache ?w ''p1'' demo_pulled = Some (Inr (Some c), demo_pulled)" using read_state by blast
  have "case push_rows ?w ?d ''p1'' demo_chain True ?good demo_pulled of Some (Inr ok, t) \<Rightarrow> ok | _ \<Rightarrow> False" by code_simp
  then obtain t where t: "push_rows ?w ?d ''p1'' demo_chain True ?good demo_pulled = Some (Inr True, t)" by (auto split: option.splits sum.splits)
  have run: "case push_rows ?w ?d ''p1'' demo_chain True ?bad demo_pulled of Some (Inr ok, u) \<Rightarrow> \<not> ok \<and> rm_host u = Some [''-j DROP''] | _ \<Rightarrow> False" by code_simp
  obtain ok u where "push_rows ?w ?d ''p1'' demo_chain True ?bad demo_pulled = Some (Inr ok, u)" "\<not> ok \<and> rm_host u = Some [''-j DROP'']"
    using returned [OF run] by blast
  then have u: "push_rows ?w ?d ''p1'' demo_chain True ?bad demo_pulled = Some (Inr False, u)" "rm_host u = Some [''-j DROP'']" by simp_all
  have rests: "rests_to_push_list (rw_repr ?w) (clean_rows (rw_repr ?w) ?good) = [''-s 10.8.0.5 -j DROP'', ''-j ACCEPT'']" by code_simp
  have "rm_host t = Some [''-s 10.8.0.5 -j DROP'', ''-j ACCEPT'']"
    using push_all_or_nothing [OF law q rd c t] rests obeys by (auto simp: chain_replaced_def)
  moreover obtain c' where "read_remote_chain_cache ?w ''p1'' u = Some (Inr (Some c'), u)" "rows_of_cache c' = rows_of_cache c"
    using push_all_or_nothing [OF law q rd c u(1)] by auto
  ultimately show ?thesis using t u c by blast
qed

text \<open>A peer on which another process holds the lock of xtables while the chain is flushed: the push reports success and the old rule
  is still in front of the new one.\<close>

lemma refused_flush_reported_ok:
  "case push_rows (demo_remote_world\<lparr>rw_exec := \<lambda>cmd k. if str_in ''iptables -F'' cmd then (Inr ([], ''xtables lock'', 4), k) else demo_exec demo_chain cmd k\<rparr>)
       demo_ssh_db ''p1'' demo_chain True (demo_rows_of [(''-j DROP'', True)]) demo_pulled of
     Some (Inr ok, t) \<Rightarrow> ok \<and> rm_host demo_pulled = Some [''-j ACCEPT''] \<and> rm_host t = Some [''-j ACCEPT'', ''-j DROP'']
   | _ \<Rightarrow> False"
  by code_simp

end
