(* ===== verification/Migration.thy ===== *)
theory Migration
  imports Storage
begin

text \<open>
  \<open>app/storage/migration.py\<close>: the first start with SQLite imports the JSON files of the older
  versions into a temporary database, checks the counts, puts it in place and archives the files.
  A directory lists its \<open>*.json\<close> files as stem and content.  The lock files, the modes of the
  files and the names of the archives are not modelled.
\<close>

section \<open>Legacy files\<close>

text \<open>A file that cannot be read or is not JSON, one that holds no object, one the model class refuses, or the object.\<close>

datatype 'a legacy = LBroken | LNotObject | LInvalid | LObject 'a

text \<open>A rule of a firewall file: \<open>owner_id\<close> may be missing or empty; \<open>None\<close> when another field is refused.\<close>

datatype fw_item = ItemNotObject | Item string "rule option"

datatype fw_file = FwBroken | FwBadTop | FwRulesNotList | FwRows "fw_item list"

record legacy_dirs =
  ld_users :: "(string \<times> user legacy) list"
  ld_groups :: "(string \<times> group legacy) list"
  ld_peers :: "(string \<times> peer legacy) list"
  ld_rules :: "(string \<times> fw_file) list"

text \<open>\<open>sorted\<close> of the paths of one directory.\<close>

definition legacy_json_files :: "(string \<times> 'a) list \<Rightarrow> (string \<times> 'a) list" where
  "legacy_json_files fs = sort_key (\<lambda>p. fst p @ ''.json'') fs"

definition has_legacy_json :: "legacy_dirs \<Rightarrow> bool" where
  "has_legacy_json l \<longleftrightarrow> ld_users l \<noteq> [] \<or> ld_groups l \<noteq> [] \<or> ld_peers l \<noteq> [] \<or> ld_rules l \<noteq> []"

definition refused :: "'a res" where
  "refused = Inl (RuntimeError ''legacy JSON'')"

section \<open>Import\<close>

text \<open>One directory: \<open>build\<close> is the model class, \<open>key\<close> the field that names the file, \<open>store\<close> the write.\<close>

definition import_one :: "('a \<Rightarrow> 'a res) \<Rightarrow> ('a \<Rightarrow> string) \<Rightarrow> ('a \<Rightarrow> db \<Rightarrow> db res) \<Rightarrow> string \<Rightarrow> 'a legacy \<Rightarrow> db \<Rightarrow> db res" where
  "import_one build key store stem c d = (case c of
     LObject x \<Rightarrow> (case build x of
         Inl e \<Rightarrow> refused
       | Inr y \<Rightarrow> if key y \<noteq> stem then refused else store y d)
   | _ \<Rightarrow> refused)"

fun import_files :: "('a \<Rightarrow> 'a res) \<Rightarrow> ('a \<Rightarrow> string) \<Rightarrow> ('a \<Rightarrow> db \<Rightarrow> db res) \<Rightarrow> (string \<times> 'a legacy) list \<Rightarrow> db \<Rightarrow> db res" where
  "import_files build key store [] d = Inr d"
| "import_files build key store ((stem, c) # fs) d =
     rbind (import_one build key store stem c d) (import_files build key store fs)"

definition import_users :: "legacy_dirs \<Rightarrow> db \<Rightarrow> (db \<times> nat) res" where
  "import_users l d = rbind (import_files Inr username upsert_user (legacy_json_files (ld_users l)) d) (\<lambda>d'. Inr (d', length (ld_users l)))"

definition import_groups :: "netaddr \<Rightarrow> legacy_dirs \<Rightarrow> db \<Rightarrow> (db \<times> nat) res" where
  "import_groups na l d = rbind (import_files Inr g_id (upsert_group na) (legacy_json_files (ld_groups l)) d) (\<lambda>d'. Inr (d', length (ld_groups l)))"

definition import_peers :: "netaddr \<Rightarrow> legacy_dirs \<Rightarrow> db \<Rightarrow> (db \<times> nat) res" where
  "import_peers na l d = rbind (import_files (mk_peer na) p_id upsert_peer (legacy_json_files (ld_peers l)) d) (\<lambda>d'. Inr (d', length (ld_peers l)))"

fun import_items :: "string \<Rightarrow> fw_item list \<Rightarrow> string list \<Rightarrow> (rule list \<times> string list) res" where
  "import_items stem [] seen = Inr ([], seen)"
| "import_items stem (ItemNotObject # items) seen = refused"
| "import_items stem (Item owner r # items) seen = (let oid = (if owner = [] then stem else owner) in
     if oid \<noteq> stem then refused
     else (case r of None \<Rightarrow> refused | Some x \<Rightarrow>
       (case mk_rule (x\<lparr>owner_id := oid\<rparr>) of
          Inl e \<Rightarrow> refused
        | Inr y \<Rightarrow> if rule_id y \<in> set seen then refused
            else rbind (import_items stem items (rule_id y # seen)) (\<lambda>(rows, seen'). Inr (y # rows, seen')))))"

fun import_fw_files :: "(string \<times> fw_file) list \<Rightarrow> string list \<Rightarrow> db \<Rightarrow> (db \<times> nat) res" where
  "import_fw_files [] seen d = Inr (d, 0)"
| "import_fw_files ((stem, FwRows items) # fs) seen d =
     rbind (import_items stem items seen) (\<lambda>(rows, seen').
     rbind (replace_firewall_owner stem rows d) (\<lambda>d'.
     rbind (import_fw_files fs seen' d') (\<lambda>(d2, n). Inr (d2, length rows + n))))"
| "import_fw_files ((stem, f) # fs) seen d = refused"

definition import_firewall :: "legacy_dirs \<Rightarrow> db \<Rightarrow> (db \<times> nat) res" where
  "import_firewall l d = import_fw_files (legacy_json_files (ld_rules l)) [] d"

definition verify_counts :: "nat \<Rightarrow> nat \<Rightarrow> nat \<Rightarrow> nat \<Rightarrow> db \<Rightarrow> unit res" where
  "verify_counts users groups peers firewall_rules d =
     (if count_users True d = users \<and> count_groups d = groups \<and> count_peers d = peers \<and> count_firewall_rules d = firewall_rules
      then Inr () else Inl (RuntimeError ''counts differ''))"

section \<open>The archive\<close>

text \<open>The files are moved one by one; \<open>limit\<close> is the number after which an \<open>OSError\<close> comes.\<close>

definition archive_legacy_files :: "nat option \<Rightarrow> legacy_dirs \<Rightarrow> bool \<times> legacy_dirs \<times> legacy_dirs" where
  "archive_legacy_files limit l = (let us = legacy_json_files (ld_users l); gs = legacy_json_files (ld_groups l);
       ps = legacy_json_files (ld_peers l); rs = legacy_json_files (ld_rules l);
       total_files = length us + length gs + length ps + length rs;
       n = (case limit of None \<Rightarrow> total_files | Some k \<Rightarrow> min k total_files);
       ng = n - length us; np = ng - length gs; nr = np - length ps in
     (limit = None \<or> total_files = 0,
      \<lparr>ld_users = take n us, ld_groups = take ng gs, ld_peers = take np ps, ld_rules = take nr rs\<rparr>,
      \<lparr>ld_users = drop n us, ld_groups = drop ng gs, ld_peers = drop np ps, ld_rules = drop nr rs\<rparr>))"

section \<open>The start\<close>

record storage_files =
  sf_db :: "db option"
  sf_temp :: "db option"
  sf_legacy :: legacy_dirs
  sf_archive :: "legacy_dirs list"
  sf_ready :: bool

record migration_world =
  mw_na :: netaddr
  mw_now :: string
  mw_quick_check :: "string option"
  mw_checkpoint :: "unit res"
  mw_replace :: "unit res"
  mw_archive_limit :: "nat option"

record migration_result =
  mr_migrated :: bool
  mr_users :: nat
  mr_groups :: nat
  mr_peers :: nat
  mr_firewall_rules :: nat

definition not_migrated :: migration_result where
  "not_migrated = \<lparr>mr_migrated = False, mr_users = 0, mr_groups = 0, mr_peers = 0, mr_firewall_rules = 0\<rparr>"

text \<open>Everything that fills the temporary database.\<close>

definition fill_temp :: "migration_world \<Rightarrow> legacy_dirs \<Rightarrow> (db \<times> migration_result) res" where
  "fill_temp w l =
     rbind (ensure_schema (mw_na w) (mw_now w) (mw_quick_check w) empty_db) (\<lambda>d0.
     rbind (import_groups (mw_na w) l d0) (\<lambda>(d1, groups).
     rbind (import_users l d1) (\<lambda>(d2, users).
     rbind (import_peers (mw_na w) l d2) (\<lambda>(d3, peers).
     rbind (import_firewall l d3) (\<lambda>(d4, firewall_rules).
     rbind (verify_counts users groups peers firewall_rules d4) (\<lambda>_.
     rbind (mw_checkpoint w) (\<lambda>_.
     rbind (mw_replace w) (\<lambda>_.
     Inr (set_meta ''storage_backend'' ''sqlite'' (set_meta ''legacy_json_migrated_at'' (mw_now w) d4),
       \<lparr>mr_migrated = True, mr_users = users, mr_groups = groups, mr_peers = peers, mr_firewall_rules = firewall_rules\<rparr>)))))))))"

definition archived :: "migration_world \<Rightarrow> storage_files \<Rightarrow> storage_files" where
  "archived w s = (case archive_legacy_files (mw_archive_limit w) (sf_legacy s) of (ok, moved, rest) \<Rightarrow>
     if \<not> has_legacy_json moved then s else s\<lparr>sf_legacy := rest, sf_archive := moved # sf_archive s\<rparr>)"

definition ensure_storage_ready :: "migration_world \<Rightarrow> storage_files \<Rightarrow> migration_result res \<times> storage_files" where
  "ensure_storage_ready w s =
     (if sf_ready s then (Inr not_migrated, s)
      else (case sf_db s of
        Some d \<Rightarrow> (case ensure_schema (mw_na w) (mw_now w) (mw_quick_check w) d of
            Inl e \<Rightarrow> (Inl e, s)
          | Inr d1 \<Rightarrow> (let s1 = s\<lparr>sf_db := Some d1\<rparr>; has_legacy = has_legacy_json (sf_legacy s) in
              if schema_version d1 \<noteq> supported_version then (Inl (RuntimeError ''schema version''), s1)
              else if has_legacy \<and> get_meta ''storage_backend'' d1 \<noteq> Some ''sqlite'' then (Inl (RuntimeError ''unmarked database beside legacy JSON''), s1)
              else (Inr not_migrated, (if has_legacy then archived w s1 else s1)\<lparr>sf_ready := True\<rparr>)))
      | None \<Rightarrow> (case fill_temp w (sf_legacy s) of
            Inl e \<Rightarrow> (Inl e, s\<lparr>sf_temp := None\<rparr>)
          | Inr (d, result) \<Rightarrow> (Inr result, (archived w (s\<lparr>sf_temp := None, sf_db := Some d\<rparr>))\<lparr>sf_ready := True\<rparr>))))"

end
