(* ===== verification/Migration_Props.thy ===== *)
theory Migration_Props
  imports Migration Storage_Props
begin

text \<open>
  The import of the legacy files is complete or leaves nothing: the count of each table at the end
  shows that no record overwrote another.
\<close>

section \<open>Importing a directory into a table\<close>

text \<open>The interface of a table the import writes: \<open>row x\<close> goes into the table, the rest of the database stays, the
  database stays consistent.\<close>

locale imported_table =
  fixes put :: "'a \<Rightarrow> db \<Rightarrow> db res" and table :: "db \<Rightarrow> 'r list" and key :: "'r \<Rightarrow> string" and row :: "'a \<Rightarrow> 'r" and rest :: "db \<Rightarrow> 'x"
  assumes stored: "put x d = Inr d' \<Longrightarrow> table d' = tbl_upsert key (row x) (table d) \<and> rest d' = rest d"
    and stored_ok: "put x d = Inr d' \<Longrightarrow> db_ok d \<Longrightarrow> db_ok d'"
begin

definition rows_of :: "('a \<Rightarrow> 'a res) \<Rightarrow> (string \<times> 'a legacy) list \<Rightarrow> 'r set" where
  "rows_of build fs = {row y | y. \<exists>stem x. (stem, LObject x) \<in> set fs \<and> build x = Inr y}"

lemma import_one_result:
  assumes "import_one build k put stem c d = Inr d'"
  obtains x y where "c = LObject x" "build x = Inr y" "k y = stem" "put y d = Inr d'"
  using assms by (auto simp: import_one_def refused_def split: legacy.splits sum.splits if_splits)

lemma upsert_length: "length (tbl_upsert key r t) = (if key r \<in> key ` set t then length t else Suc (length t))"
  by (induction t) auto

lemma upsert_new: "key r \<notin> key ` set t \<Longrightarrow> tbl_upsert key r t = t @ [r]"
  by (induction t) auto

lemma import_frame: "import_files build k put fs d = Inr d' \<Longrightarrow> rest d' = rest d \<and> (db_ok d \<longrightarrow> db_ok d') \<and> length (table d') \<le> length (table d) + length fs"
proof (induction fs arbitrary: d)
  case (Cons f fs)
  obtain stem c where f: "f = (stem, c)" by (cases f)
  obtain d1 where d1: "import_one build k put stem c d = Inr d1" "import_files build k put fs d1 = Inr d'"
    using Cons.prems by (auto simp: f rbind_Inr_iff)
  from import_one_result [OF d1(1)] obtain x y where y: "c = LObject x" "build x = Inr y" "k y = stem" "put y d = Inr d1" .
  show ?case using Cons.IH [OF d1(2)] stored [OF y(4)] stored_ok [OF y(4)] by (auto simp: upsert_length split: if_splits)
qed simp

lemma import_exact:
  "import_files build k put fs d = Inr d' \<Longrightarrow> length (table d') = length (table d) + length fs \<Longrightarrow>
   set (table d') = set (table d) \<union> rows_of build fs \<and> (\<forall>(stem, c)\<in>set fs. \<exists>x y. c = LObject x \<and> build x = Inr y \<and> k y = stem)"
proof (induction fs arbitrary: d)
  case (Cons f fs)
  obtain stem c where f: "f = (stem, c)" by (cases f)
  obtain d1 where d1: "import_one build k put stem c d = Inr d1" "import_files build k put fs d1 = Inr d'"
    using Cons.prems by (auto simp: f rbind_Inr_iff)
  from import_one_result [OF d1(1)] obtain x y where y: "c = LObject x" "build x = Inr y" "k y = stem" "put y d = Inr d1" .
  have len: "length (table d1) = Suc (length (table d))" "key (row y) \<notin> key ` set (table d)"
    using import_frame [OF d1(2)] Cons.prems(2) stored [OF y(4)] by (auto simp: upsert_length split: if_splits)
  then have t1: "set (table d1) = insert (row y) (set (table d))" using stored [OF y(4)] by (simp add: upsert_new)
  have "rows_of build (f # fs) = insert (row y) (rows_of build fs)" using y f by (auto simp: rows_of_def)
  moreover have "length (table d') = length (table d1) + length fs" using Cons.prems(2) len(1) by simp
  ultimately show ?case using Cons.IH [OF d1(2)] t1 y f by auto
qed (simp add: rows_of_def)

end

definition user_row :: "user \<Rightarrow> user" where
  "user_row u = u\<lparr>username := strip (username u)\<rparr>"

definition group_row :: "netaddr \<Rightarrow> group \<Rightarrow> group" where
  "group_row na g = (normalize_group_payload na g)\<lparr>g_id := strip (g_id g)\<rparr>"

definition peer_row_of :: "peer \<Rightarrow> peer_row" where
  "peer_row_of p = peer_values (strip (p_id p)) (p\<lparr>p_id := strip (p_id p)\<rparr>)"

interpretation users_import: imported_table upsert_user db_users username user_row "\<lambda>d. (db_groups d, db_peers d, db_rules d, db_versions d)"
proof
  show "db_users d' = tbl_upsert username (user_row x) (db_users d) \<and> (db_groups d', db_peers d', db_rules d', db_versions d') = (db_groups d, db_peers d, db_rules d, db_versions d)"
    if "upsert_user x d = Inr d'" for x d d'
    using that by (auto simp: upsert_user_def Let_def put_user_def user_row_def split: if_splits)
qed (rule upsert_user_ok)

interpretation groups_import: imported_table "upsert_group na" db_groups g_id "group_row na" "\<lambda>d. (db_users d, db_peers d, db_rules d, db_versions d)" for na
proof
  show "db_groups d' = tbl_upsert g_id (group_row na x) (db_groups d) \<and> (db_users d', db_peers d', db_rules d', db_versions d') = (db_users d, db_peers d, db_rules d, db_versions d)"
    if "upsert_group na x d = Inr d'" for x d d'
    using that by (auto simp: upsert_group_def Let_def put_group_def group_row_def split: if_splits)
qed (rule upsert_group_ok)

interpretation peers_import: imported_table upsert_peer db_peers pr_id peer_row_of "\<lambda>d. (db_users d, db_groups d, db_rules d, db_versions d)"
proof
  show "db_peers d' = tbl_upsert pr_id (peer_row_of x) (db_peers d) \<and> (db_users d', db_groups d', db_rules d', db_versions d') = (db_users d, db_groups d, db_rules d, db_versions d)"
    if "upsert_peer x d = Inr d'" for x d d'
    using that by (auto simp: upsert_peer_def Let_def put_peer_def peer_row_of_def split: if_splits)
qed (rule upsert_peer_ok)

section \<open>Rules\<close>

definition item_rules :: "string \<Rightarrow> fw_item list \<Rightarrow> rule set" where
  "item_rules stem items = {y. \<exists>owner x. Item owner (Some x) \<in> set items \<and> mk_rule (x\<lparr>owner_id := stem\<rparr>) = Inr y}"

lemma import_items_rows: "import_items stem items seen = Inr (rows, seen') \<Longrightarrow> set rows = item_rules stem items \<and> (\<forall>y\<in>set rows. owner_id y = stem)"
proof (induction items arbitrary: seen rows seen')
  case (Cons i items)
  obtain owner r where ir: "i = Item owner r" using Cons.prems by (cases i) (simp_all add: refused_def)
  then have oid: "(if owner = [] then stem else owner) = stem" using Cons.prems by (simp add: refused_def Let_def split: if_splits)
  obtain x where x: "r = Some x" using Cons.prems oid by (cases r) (simp_all add: ir refused_def Let_def)
  obtain y where y: "mk_rule (x\<lparr>owner_id := stem\<rparr>) = Inr y"
    using Cons.prems oid by (cases "mk_rule (x\<lparr>owner_id := stem\<rparr>)") (simp_all add: ir x refused_def Let_def)
  have "rbind (import_items stem items (rule_id y # seen)) (\<lambda>(rows, seen'). Inr (y # rows, seen')) = Inr (rows, seen')"
    using Cons.prems oid y by (simp add: ir x refused_def Let_def split: if_splits)
  then obtain rows' where rows: "rows = y # rows'" and rec: "import_items stem items (rule_id y # seen) = Inr (rows', seen')"
    by (auto simp: rbind_Inr_iff)
  have i: "i = Item owner (Some x)" using ir x by simp
  have "item_rules stem (i # items) = insert y (item_rules stem items)" using y unfolding i item_rules_def by auto
  moreover have "owner_id y = stem" using mk_rule_InrD [OF y] by auto
  ultimately show ?case using Cons.IH [OF rec] rows by simp
qed (simp add: item_rules_def)

definition owned :: "db \<Rightarrow> (string \<times> rule) set" where
  "owned d = (\<lambda>r. (fr_owner_id r, fr_payload r)) ` set (db_rules d)"

definition file_rules :: "(string \<times> fw_file) list \<Rightarrow> (string \<times> rule) set" where
  "file_rules fs = {(stem, y). \<exists>items. (stem, FwRows items) \<in> set fs \<and> y \<in> item_rules stem items}"

lemma firewall_values_pair: "firewall_values stem y = Inr row \<Longrightarrow> owner_id y = stem \<Longrightarrow> fr_owner_id row = stem \<and> fr_payload row = y"
  by (auto simp: firewall_values_def Let_def split: if_splits)

lemma replace_pairs:
  assumes "replace_firewall_owner stem rows d = Inr d'" "\<forall>y\<in>set rows. owner_id y = stem" "\<forall>r\<in>set (db_rules d). fr_owner_id r \<noteq> stem"
  shows "owned d' = owned d \<union> Pair stem ` set rows \<and> db_users d' = db_users d \<and> db_groups d' = db_groups d \<and> db_peers d' = db_peers d \<and>
    db_versions d' = db_versions d \<and> length (db_rules d') = length (db_rules d) + length rows"
proof -
  obtain rs where rs: "mapM (firewall_values stem) rows = Inr rs" "d' = d\<lparr>db_rules := db_rules d @ rs\<rparr>"
    using assms(1,3) by (auto simp: replace_firewall_owner_iff filter_id_conv)
  have "(\<lambda>r. (fr_owner_id r, fr_payload r)) ` set rs = Pair stem ` set rows \<and> length rs = length rows"
    using rs(1) assms(2)
  proof (induction rows arbitrary: rs)
    case (Cons y rows)
    obtain r rs' where "rs = r # rs'" "firewall_values stem y = Inr r" "mapM (firewall_values stem) rows = Inr rs'"
      using Cons.prems(1) by (auto simp: rbind_Inr_iff)
    then show ?case using Cons.IH [of rs'] Cons.prems(2) firewall_values_pair [of stem y r] by auto
  qed simp
  then show ?thesis using rs(2) by (auto simp: owned_def)
qed

lemma import_fw_files_exact:
  "import_fw_files fs seen d = Inr (d', n) \<Longrightarrow> distinct (map fst fs) \<Longrightarrow> \<forall>r\<in>set (db_rules d). fr_owner_id r \<notin> fst ` set fs \<Longrightarrow> db_ok d \<Longrightarrow>
   owned d' = owned d \<union> file_rules fs \<and> db_users d' = db_users d \<and> db_groups d' = db_groups d \<and> db_peers d' = db_peers d \<and>
   db_versions d' = db_versions d \<and> db_ok d' \<and> (\<forall>(stem, f)\<in>set fs. \<exists>items. f = FwRows items)"
proof (induction fs arbitrary: seen d n)
  case (Cons p fs)
  obtain stem f where p: "p = (stem, f)" by (cases p)
  obtain items where f: "f = FwRows items" using Cons.prems(1) by (cases f) (auto simp: p refused_def)
  obtain rows seen' d1 n1 where r: "import_items stem items seen = Inr (rows, seen')" "replace_firewall_owner stem rows d = Inr d1"
    "import_fw_files fs seen' d1 = Inr (d', n1)"
    using Cons.prems(1) by (auto simp: p f rbind_Inr_iff)
  note rows = import_items_rows [OF r(1)]
  have ne: "\<forall>r\<in>set (db_rules d). fr_owner_id r \<noteq> stem" using Cons.prems(3) p by auto
  note d1 = replace_pairs [OF r(2) conjunct2 [OF rows] ne]
  have own: "\<forall>r\<in>set (db_rules d1). fr_owner_id r \<notin> fst ` set fs"
  proof
    fix r assume "r \<in> set (db_rules d1)"
    then have "(fr_owner_id r, fr_payload r) \<in> owned d1" unfolding owned_def by (rule imageI)
    then have "(fr_owner_id r, fr_payload r) \<in> owned d \<union> Pair stem ` set rows" using d1 by simp
    then have "fr_owner_id r = stem \<or> (\<exists>x\<in>set (db_rules d). fr_owner_id r = fr_owner_id x)" by (auto simp: owned_def)
    then show "fr_owner_id r \<notin> fst ` set fs" using Cons.prems(2,3) p by force
  qed
  have "file_rules (p # fs) = file_rules fs \<union> Pair stem ` item_rules stem items" by (auto simp: file_rules_def p f)
  moreover have "distinct (map fst fs)" using Cons.prems(2) by simp
  ultimately show ?case
    using Cons.IH [OF r(3) _ own replace_firewall_owner_ok [OF Cons.prems(4) r(2)]] d1 rows p f by auto
qed (auto simp: file_rules_def)

section \<open>The whole import\<close>

lemma legacy_files_same: "set (legacy_json_files fs) = set fs" "length (legacy_json_files fs) = length fs"
  "distinct (map fst (legacy_json_files fs)) \<longleftrightarrow> distinct (map fst fs)"
proof -
  have "mset (map fst (legacy_json_files fs)) = mset (map fst fs)" by (simp add: legacy_json_files_def)
  then show "distinct (map fst (legacy_json_files fs)) \<longleftrightarrow> distinct (map fst fs)" by (rule mset_eq_imp_distinct_iff)
qed (simp_all add: legacy_json_files_def)

text \<open>What the tables must hold for the files of \<open>l\<close>.\<close>

definition imports_of :: "netaddr \<Rightarrow> legacy_dirs \<Rightarrow> db \<Rightarrow> bool" where
  "imports_of na l d \<longleftrightarrow>
     set (db_users d) = users_import.rows_of Inr (ld_users l) \<and> length (db_users d) = length (ld_users l) \<and>
     set (db_groups d) = groups_import.rows_of na Inr (ld_groups l) \<and> length (db_groups d) = length (ld_groups l) \<and>
     set (db_peers d) = peers_import.rows_of (mk_peer na) (ld_peers l) \<and> length (db_peers d) = length (ld_peers l) \<and>
     owned d = file_rules (ld_rules l)"

lemma rows_of_sorted: "users_import.rows_of b1 (legacy_json_files us) = users_import.rows_of b1 us"
  "groups_import.rows_of na b2 (legacy_json_files gs) = groups_import.rows_of na b2 gs"
  "peers_import.rows_of b3 (legacy_json_files ps) = peers_import.rows_of b3 ps"
  "file_rules (legacy_json_files rs) = file_rules rs"
  by (simp_all add: users_import.rows_of_def groups_import.rows_of_def peers_import.rows_of_def file_rules_def legacy_files_same)

lemma schema_of_empty:
  assumes "ensure_schema na now qc empty_db = Inr d"
  shows "db_ok d \<and> schema_version d = 4 \<and> db_users d = [] \<and> db_groups d = [] \<and> db_peers d = [] \<and> db_rules d = [] \<and> (\<exists>c. qc = Some c \<and> lower c = ''ok'')"
proof -
  obtain c where c: "qc = Some c" "lower c = ''ok''" using assms by (auto simp: ensure_schema_def split: option.splits if_splits)
  have v: "schema_version empty_db = 0" by (simp add: schema_version_def empty_db_def)
  then have le: "schema_version empty_db \<le> 4" by simp
  obtain d1 d2 d3 d4 where
    d1: "d1 = (if schema_version empty_db < 1 then stamp now 1 ''initial-structured-metadata'' empty_db else empty_db)" and
    d2: "d2 = (if schema_version empty_db < 2 then stamp now 2 ''query-pagination-indexes'' (reindexed d1) else d1)" and
    d3: "d3 = (if schema_version empty_db < 3 then
       stamp now 3 ''normalize-group-cidrs'' (d2\<lparr>db_groups := map (normalize_group_payload na) (db_groups d2)\<rparr>) else d2)" and
    d4: "d4 = (if schema_version empty_db < 4 then stamp now 4 ''firewall-tags'' d3 else d3)" and
    v4: "schema_version d4 = 4" and e: "ensure_schema na now (Some c) empty_db = Inr d4"
    using ensure_schema_steps [OF c(2) le] .
  have "db_users d4 = [] \<and> db_groups d4 = [] \<and> db_peers d4 = [] \<and> db_rules d4 = []"
    using v by (simp add: d4 d3 d2 d1 stamp_def reindexed_def empty_db_def)
  then have d4: "ensure_schema na now (Some c) empty_db = Inr d4" "schema_version d4 = 4"
    "db_users d4 = []" "db_groups d4 = []" "db_peers d4 = []" "db_rules d4 = []" using v4 e by simp_all
  have "d = d4" using assms d4(1) c by simp
  then show ?thesis using d4 c ensure_schema_ok [OF assms empty_db_ok] by simp
qed

lemma fill_temp_imports:
  assumes "fill_temp w l = Inr (d, m)" "distinct (map fst (ld_rules l))"
  shows "db_ok d \<and> schema_version d = 4 \<and> get_meta ''storage_backend'' d = Some ''sqlite'' \<and> imports_of (mw_na w) l d \<and>
    (\<exists>c. mw_quick_check w = Some c \<and> lower c = ''ok'') \<and>
    m = \<lparr>mr_migrated = True, mr_users = length (ld_users l), mr_groups = length (ld_groups l), mr_peers = length (ld_peers l),
      mr_firewall_rules = length (db_rules d)\<rparr>"
proof -
  obtain d0 d1 d2 d3 d4 n where
    d0: "ensure_schema (mw_na w) (mw_now w) (mw_quick_check w) empty_db = Inr d0" and
    d1: "import_files Inr g_id (upsert_group (mw_na w)) (legacy_json_files (ld_groups l)) d0 = Inr d1" and
    d2: "import_files Inr username upsert_user (legacy_json_files (ld_users l)) d1 = Inr d2" and
    d3: "import_files (mk_peer (mw_na w)) p_id upsert_peer (legacy_json_files (ld_peers l)) d2 = Inr d3" and
    d4: "import_fw_files (legacy_json_files (ld_rules l)) [] d3 = Inr (d4, n)" and
    v: "verify_counts (length (ld_users l)) (length (ld_groups l)) (length (ld_peers l)) n d4 = Inr ()" and
    d: "d = set_meta ''storage_backend'' ''sqlite'' (set_meta ''legacy_json_migrated_at'' (mw_now w) d4)" and
    m: "m = \<lparr>mr_migrated = True, mr_users = length (ld_users l), mr_groups = length (ld_groups l), mr_peers = length (ld_peers l), mr_firewall_rules = n\<rparr>"
    using assms(1) by (auto simp: fill_temp_def import_groups_def import_users_def import_peers_def import_firewall_def rbind_Inr_iff)
  note e = schema_of_empty [OF d0]
  note f1 = groups_import.import_frame [OF d1] and f2 = users_import.import_frame [OF d2] and f3 = peers_import.import_frame [OF d3]
  have ok3: "db_ok d3" using e f1 f2 f3 by simp
  have "distinct (map fst (legacy_json_files (ld_rules l)))" using assms(2) by (simp add: legacy_files_same)
  moreover have "\<forall>r\<in>set (db_rules d3). fr_owner_id r \<notin> fst ` set (legacy_json_files (ld_rules l))" using e f1 f2 f3 by simp
  ultimately have f4: "owned d4 = owned d3 \<union> file_rules (legacy_json_files (ld_rules l))" "db_users d4 = db_users d3" "db_groups d4 = db_groups d3"
    "db_peers d4 = db_peers d3" "db_versions d4 = db_versions d3" "db_ok d4"
    using import_fw_files_exact [OF d4 _ _ ok3] by simp_all
  have c: "length (db_users d4) = length (ld_users l)" "length (db_groups d4) = length (ld_groups l)" "length (db_peers d4) = length (ld_peers l)"
    "n = length (db_rules d4)"
    using v by (auto simp: verify_counts_def count_users_def live_user_def count_groups_def count_peers_def count_firewall_rules_def split: if_splits)
  have "set (db_groups d1) = groups_import.rows_of (mw_na w) Inr (legacy_json_files (ld_groups l))"
    using groups_import.import_exact [OF d1] e f2 f3 f4 c by (simp add: legacy_files_same)
  moreover have "set (db_users d2) = users_import.rows_of Inr (legacy_json_files (ld_users l))"
    using users_import.import_exact [OF d2] e f1 f3 f4 c by (simp add: legacy_files_same)
  moreover have "set (db_peers d3) = peers_import.rows_of (mk_peer (mw_na w)) (legacy_json_files (ld_peers l))"
    using peers_import.import_exact [OF d3] e f1 f2 f4 c by (simp add: legacy_files_same)
  moreover have "owned d3 = {}" using e f1 f2 f3 by (simp add: owned_def)
  ultimately have "imports_of (mw_na w) l d4" using f1 f2 f3 f4 c by (simp add: imports_of_def rows_of_sorted)
  then have "imports_of (mw_na w) l d" by (simp add: d imports_of_def set_meta_def owned_def)
  moreover have "schema_version d = 4" using e f1 f2 f3 f4 by (simp add: d schema_version_def set_meta_def)
  moreover have "db_ok d" using f4 by (simp add: d set_meta_ok)
  moreover have "get_meta ''storage_backend'' d = Some ''sqlite''" by (simp add: d get_meta_def set_meta_def tbl_get_upsert)
  moreover have "db_rules d = db_rules d4" by (simp add: d set_meta_def)
  ultimately show ?thesis using e m c by simp
qed

text \<open>A file of a directory is still there or in one of the archives.\<close>

definition held :: "(legacy_dirs \<Rightarrow> (string \<times> 'a) list) \<Rightarrow> storage_files \<Rightarrow> (string \<times> 'a) set" where
  "held dir s = set (dir (sf_legacy s)) \<union> (\<Union>a\<in>set (sf_archive s). set (dir a))"

lemma archived_keeps:
  "sf_db (archived w s) = sf_db s" "sf_temp (archived w s) = sf_temp s"
  "held ld_users (archived w s) = held ld_users s" "held ld_groups (archived w s) = held ld_groups s"
  "held ld_peers (archived w s) = held ld_peers s" "held ld_rules (archived w s) = held ld_rules s"
proof -
  have parts: "set (take n (legacy_json_files fs)) \<union> A \<union> set (drop n (legacy_json_files fs)) = set fs \<union> A" for n A and fs :: "(string \<times> 'b) list"
    using append_take_drop_id [of n "legacy_json_files fs"] by (metis Un_assoc Un_commute legacy_files_same(1) set_append)
  have split: "set (drop n (legacy_json_files fs)) \<union> (set (take n (legacy_json_files fs)) \<union> A) = set fs \<union> A" for n A and fs :: "(string \<times> 'b) list"
    using parts by blast
  show "sf_db (archived w s) = sf_db s" "sf_temp (archived w s) = sf_temp s"
    by (simp_all add: archived_def split: prod.splits)
  show "held ld_users (archived w s) = held ld_users s" "held ld_groups (archived w s) = held ld_groups s"
    "held ld_peers (archived w s) = held ld_peers s" "held ld_rules (archived w s) = held ld_rules s"
    by (simp_all add: archived_def archive_legacy_files_def held_def Let_def split)
qed

definition holds_same :: "storage_files \<Rightarrow> storage_files \<Rightarrow> bool" where
  "holds_same s s' \<longleftrightarrow> held ld_users s' = held ld_users s \<and> held ld_groups s' = held ld_groups s \<and>
     held ld_peers s' = held ld_peers s \<and> held ld_rules s' = held ld_rules s"

lemma next_start:
  assumes "sf_db s = Some d" "\<not> sf_ready s" "schema_version d = 4" "get_meta ''storage_backend'' d = Some ''sqlite''"
    "mw_quick_check w = Some c" "lower c = ''ok''"
  shows "\<exists>s'. ensure_storage_ready w s = (Inr not_migrated, s') \<and> sf_db s' = Some d \<and> sf_ready s' \<and> holds_same s s'"
proof -
  show ?thesis using assms archived_keeps [of w "s\<lparr>sf_db := Some d\<rparr>"]
    by (simp add: ensure_storage_ready_def ensure_schema_uptodate supported_version_def Let_def holds_same_def held_def)
qed

text \<open>C32. The first start without a database either fails, and then there is no database, the JSON files are all
  where they were and nothing was archived; or it leaves a consistent database at the current schema whose tables
  hold exactly the records of the files, one row for each user, group and peer file and every rule under the owner
  its file names, with every file still in its directory or in an archive; a later start imports nothing and keeps
  that database.\<close>

theorem legacy_import_complete:
  assumes "sf_db s = None" "\<not> sf_ready s" "distinct (map fst (ld_rules (sf_legacy s)))"
  shows "case ensure_storage_ready w s of
      (Inl e, s') \<Rightarrow> s' = s\<lparr>sf_temp := None\<rparr>
    | (Inr m, s') \<Rightarrow> \<exists>d s2. sf_db s' = Some d \<and> db_ok d \<and> schema_version d = 4 \<and> imports_of (mw_na w) (sf_legacy s) d \<and>
        m = \<lparr>mr_migrated = True, mr_users = length (ld_users (sf_legacy s)), mr_groups = length (ld_groups (sf_legacy s)),
          mr_peers = length (ld_peers (sf_legacy s)), mr_firewall_rules = length (db_rules d)\<rparr> \<and> holds_same s s' \<and>
        ensure_storage_ready w (s'\<lparr>sf_ready := False\<rparr>) = (Inr not_migrated, s2) \<and> sf_db s2 = Some d \<and> holds_same s s2"
proof (cases "fill_temp w (sf_legacy s)")
  case (Inl e)
  then show ?thesis using assms by (simp add: ensure_storage_ready_def)
next
  case (Inr p)
  obtain d m where p: "p = (d, m)" by (cases p)
  let ?s' = "(archived w (s\<lparr>sf_temp := None, sf_db := Some d\<rparr>))\<lparr>sf_ready := True\<rparr>"
  note f = fill_temp_imports [OF Inr [unfolded p] assms(3)]
  have run: "ensure_storage_ready w s = (Inr m, ?s')" using Inr p assms by (simp add: ensure_storage_ready_def)
  note keeps = archived_keeps [of w "s\<lparr>sf_temp := None, sf_db := Some d\<rparr>"]
  have same: "holds_same s ?s'" using keeps by (simp add: holds_same_def held_def)
  obtain c where c: "mw_quick_check w = Some c" "lower c = ''ok''" using f by blast
  obtain s2 where s2: "ensure_storage_ready w (?s'\<lparr>sf_ready := False\<rparr>) = (Inr not_migrated, s2)" "sf_db s2 = Some d"
    "holds_same (?s'\<lparr>sf_ready := False\<rparr>) s2"
    using next_start [of "?s'\<lparr>sf_ready := False\<rparr>" d w c] f c keeps by auto
  have "holds_same s s2" using s2(3) same by (simp add: holds_same_def held_def)
  then show ?thesis using run s2 f same keeps by auto
qed

definition old_files :: legacy_dirs where
  "old_files = \<lparr>ld_users = [(''bob'', LObject (sample_user\<lparr>username := ''bob''\<rparr>))], ld_groups = [(g_id sample_group, LObject sample_group)],
     ld_peers = [], ld_rules = [(''t1'', FwRows [Item [] (Some sample_rule)])]\<rparr>"

definition old_install :: storage_files where
  "old_install = \<lparr>sf_db = None, sf_temp = None, sf_legacy = old_files, sf_archive = [], sf_ready = False\<rparr>"

definition first_start :: migration_world where
  "first_start = \<lparr>mw_na = netaddr_ref, mw_now = ''2024'', mw_quick_check = Some ''ok'', mw_checkpoint = Inr (), mw_replace = Inr (), mw_archive_limit = Some 2\<rparr>"

theorem legacy_import_complete_witness:
  "case ensure_storage_ready first_start old_install of
      (Inl e, s') \<Rightarrow> False
    | (Inr m, s') \<Rightarrow> mr_users m = 1 \<and> mr_firewall_rules m = 1 \<and> sf_legacy s' = old_files\<lparr>ld_users := [], ld_groups := []\<rparr> \<and>
        (\<exists>d s2. sf_db s' = Some d \<and> imports_of netaddr_ref old_files d \<and>
          ensure_storage_ready first_start (s'\<lparr>sf_ready := False\<rparr>) = (Inr not_migrated, s2) \<and> sf_db s2 = Some d)"
proof -
  have h: "sf_db old_install = None" "\<not> sf_ready old_install" "distinct (map fst (ld_rules (sf_legacy old_install)))" by code_simp+
  have run: "case ensure_storage_ready first_start old_install of (Inl e, s') \<Rightarrow> False
    | (Inr m, s') \<Rightarrow> mr_users m = 1 \<and> mr_firewall_rules m = 1 \<and> sf_legacy s' = old_files\<lparr>ld_users := [], ld_groups := []\<rparr>" by code_simp
  show ?thesis using legacy_import_complete [OF h, of first_start] run
    by (auto simp: old_install_def first_start_def split: prod.splits sum.splits)
qed

end
