(* ===== verification/Instances.thy ===== *)
theory Instances
  imports Ipaddress Json
begin

text \<open>
  \<open>app/services/openvpn/instance.py\<close> and \<open>app/services/user/ovpn_gen.py\<close>: the text of a server
  configuration and of a client profile from their templates, the rewriting of the configurations of
  all instances, the names and management ports of the instances, and the status file of OpenVPN.
  The templates, the version check of OpenVPN and \<open>systemctl\<close> are parameters.
\<close>

abbreviation LF :: char where "LF \<equiv> CHR 0x0A"

section \<open>Templates\<close>

text \<open>A faster way to evaluate \<open>startswith\<close>.\<close>

lemma starts_with_code [code]:
  "starts_with s [] = True"
  "starts_with [] (d # p) = False"
  "starts_with (c # s) (d # p) = (c = d \<and> starts_with s p)"
  by (auto simp: starts_with_def)

text \<open>\<open>s.replace(old, new)\<close> for a text \<open>old\<close> that is not empty; the number counts what is left of a match.\<close>

fun replace_skip :: "string \<Rightarrow> string \<Rightarrow> nat \<Rightarrow> string \<Rightarrow> string" where
  "replace_skip old new n [] = []"
| "replace_skip old new (Suc n) (c # s) = replace_skip old new n s"
| "replace_skip old new 0 (c # s) = (if starts_with (c # s) old then new @ replace_skip old new (length old - 1) s
     else c # replace_skip old new 0 s)"

definition str_replace :: "string \<Rightarrow> string \<Rightarrow> string \<Rightarrow> string" where
  "str_replace old new s = replace_skip old new 0 s"

definition placeholder :: "string \<Rightarrow> string" where
  "placeholder k = ''{{'' @ k @ ''}}''"

definition fill_template :: "(string \<times> string) list \<Rightarrow> string \<Rightarrow> string" where
  "fill_template values t = fold (\<lambda>(k, v) t. str_replace (placeholder k) v t) values t"

text \<open>\<open>re.findall\<close> of a name of capitals, digits and underscores in double braces.\<close>

definition token_char :: "char \<Rightarrow> bool" where
  "token_char c \<longleftrightarrow> (let n = of_char c :: nat in (65 \<le> n \<and> n \<le> 90) \<or> (48 \<le> n \<and> n \<le> 57) \<or> n = 95)"

definition placeholder_at :: "string \<Rightarrow> bool" where
  "placeholder_at s \<longleftrightarrow> starts_with s ''{{'' \<and> (let r = drop 2 s in takeWhile token_char r \<noteq> [] \<and> starts_with (dropWhile token_char r) ''}}'')"

fun has_placeholder :: "string \<Rightarrow> bool" where
  "has_placeholder [] = False"
| "has_placeholder (c # s) = (placeholder_at (c # s) \<or> has_placeholder s)"

definition render_server_conf_template :: "string res \<Rightarrow> (string \<times> string) list \<Rightarrow> string res" where
  "render_server_conf_template template values = (case template of
     Inl e \<Rightarrow> Inl (RuntimeError ''server template'')
   | Inr t \<Rightarrow> (let t' = fill_template values t in if has_placeholder t' then Inl (RuntimeError ''open placeholder'') else Inr t'))"

definition client_tokens :: "string list" where
  "client_tokens = [''USERNAME'', ''GROUP_SUBNET'', ''PROTO'', ''SERVER_IP'', ''PORT'', ''CA_CERT'', ''USER_CERT'', ''USER_KEY'', ''TC2_CLIENT_KEY'']"

definition render_client_ovpn_template :: "string res \<Rightarrow> (string \<times> string) list \<Rightarrow> string res" where
  "render_client_ovpn_template template values = (case template of
     Inl e \<Rightarrow> Inl (RuntimeError ''client template'')
   | Inr t \<Rightarrow> (let t' = fill_template values t in
       if list_ex (\<lambda>k. str_in (placeholder k) t') client_tokens then Inl (RuntimeError ''open placeholder'') else Inr t'))"

record client_conf =
  cc_server_ip :: string
  cc_port :: "int option"
  cc_proto :: "string option"
  cc_ca_cert :: string
  cc_user_cert :: string
  cc_user_key :: string
  cc_tc2_client_key :: string

definition generate_ovpn :: "string res \<Rightarrow> string \<Rightarrow> string \<Rightarrow> client_conf \<Rightarrow> string res" where
  "generate_ovpn template uname group_subnet c = render_client_ovpn_template template
     [(''USERNAME'', uname), (''GROUP_SUBNET'', group_subnet),
      (''PROTO'', case cc_proto c of None \<Rightarrow> ''udp'' | Some p \<Rightarrow> p), (''SERVER_IP'', cc_server_ip c),
      (''PORT'', dec_of_int (case cc_port c of None \<Rightarrow> 1194 | Some p \<Rightarrow> p)), (''CA_CERT'', strip (cc_ca_cert c)),
      (''USER_CERT'', strip (cc_user_cert c)), (''USER_KEY'', strip (cc_user_key c)), (''TC2_CLIENT_KEY'', strip (cc_tc2_client_key c))]"

section \<open>The configuration of a server\<close>

text \<open>The last part of the path decides whether \<open>server\<close> is added.\<close>

definition resolve_server_conf_dir :: "string \<Rightarrow> string" where
  "resolve_server_conf_dir base0 = (let base = (if base0 = [] then ''/etc/openvpn'' else base0) in
     if base = ''server'' \<or> ends_with base ''/server'' then base else base @ ''/server'')"

text \<open>The constant texts in UTF-8: the start of the line with the time, and the comment above the routes.\<close>

definition gen_time_mark :: string where
  "gen_time_mark = [CHR 0x23, CHR 0x20, CHR 0xE7, CHR 0x94, CHR 0x9F, CHR 0xE6, CHR 0x88, CHR 0x90, CHR 0xE6, CHR 0x97, CHR 0xB6, CHR 0xE9, CHR 0x97, CHR 0xB4, CHR 0x3A]"

definition normalize_server_conf_for_compare :: "string \<Rightarrow> string" where
  "normalize_server_conf_for_compare text0 = (let ls = split_on LF (str_replace [CHR 0x0D, LF] [LF] text0) in
     join [LF] (filter (\<lambda>l. \<not> starts_with l gen_time_mark) (butlast ls) @ [last ls]))"

definition push_route :: "string \<Rightarrow> string option" where
  "push_route raw = (if strip raw = [] then None else (case ip_network (strip raw) of
     None \<Rightarrow> None | Some n \<Rightarrow> Some (''push '' @ [CHR 0x22] @ ''route '' @ ip_str (net_addr n) @ '' '' @ netmask_str n @ [CHR 0x22])))"

definition format_push_lan_routes_block :: "string \<Rightarrow> string list \<Rightarrow> string" where
  "format_push_lan_routes_block header routes = (let lines_out = List.map_filter push_route routes in
     if lines_out = [] then [] else [LF] @ header @ [LF] @ join [LF] lines_out @ [LF])"

record server_conf =
  sc_mgmt_port :: "int option"
  sc_base :: "string option"
  sc_pki :: "string option"
  sc_network :: "string option"
  sc_mask :: "string option"
  sc_push :: "string list"
  sc_port :: "int option"
  sc_proto :: "string option"
  sc_max_clients :: "int option"

record instance_world =
  iw_template :: "string res"
  iw_header :: string
  iw_supports_max_age :: bool
  iw_now :: "string \<Rightarrow> bool \<Rightarrow> string"
  iw_scripts :: "unit res"
  iw_read :: "string \<Rightarrow> bool"
  iw_write :: "string \<Rightarrow> unit res"
  iw_permissions :: "string \<Rightarrow> unit res"

definition mgmt_port_start :: int where
  "mgmt_port_start = 7505"

definition default_max_clients :: int where
  "default_max_clients = 2048"

definition or_else :: "'a \<Rightarrow> 'a option \<Rightarrow> 'a" where
  "or_else d x = (case x of None \<Rightarrow> d | Some y \<Rightarrow> y)"

text \<open>The flag tells the text that is compared from the text that is written: they are made at different times.\<close>

definition generate_server_conf :: "instance_world \<Rightarrow> bool \<Rightarrow> string \<Rightarrow> server_conf \<Rightarrow> string res" where
  "generate_server_conf w written nm c = (let base = or_else ''/etc/openvpn'' (sc_base c) in
     render_server_conf_template (iw_template w)
      [(''INSTANCE_NAME'', nm), (''GENERATED_AT'', iw_now w nm written), (''PORT'', dec_of_int (or_else 1194 (sc_port c))),
       (''PROTO'', or_else ''udp'' (sc_proto c)), (''SERVER_NETWORK'', or_else ''10.8.0.0'' (sc_network c)),
       (''SERVER_MASK'', or_else ''255.255.0.0'' (sc_mask c)), (''PUSH_BLOCK'', format_push_lan_routes_block (iw_header w) (sc_push c)),
       (''PKI_DIR'', or_else (base @ ''/pki'') (sc_pki c)), (''BASE_DIR'', base),
       (''TLS_MAX_AGE_LINE'', if iw_supports_max_age w then ''tls-crypt-v2-max-age 3650'' @ [LF] else []),
       (''CCD_DIR'', ''/etc/openvpn/ccd''), (''IPP_FILE'', ''/etc/openvpn/ipp-'' @ nm @ ''.txt''),
       (''DAEMON_STATUS'', ''/etc/openvpn/log/'' @ nm @ ''-status.log''), (''DAEMON_LOG'', ''/etc/openvpn/log/'' @ nm @ ''.log''),
       (''MGMT_PORT'', dec_of_int (or_else mgmt_port_start (sc_mgmt_port c))),
       (''MAX_CLIENTS'', dec_of_int (or_else default_max_clients (sc_max_clients c)))])"

text \<open>The files of the directory of configurations by the name of the instance.\<close>

type_synonym conf_files = "(string \<times> string) list"

definition write_server_conf :: "instance_world \<Rightarrow> string \<Rightarrow> server_conf \<Rightarrow> conf_files \<Rightarrow> unit res \<times> conf_files" where
  "write_server_conf w nm c files = (case generate_server_conf w True nm c of
     Inl e \<Rightarrow> (Inl e, files)
   | Inr content \<Rightarrow> (case iw_write w nm of
       Inl e \<Rightarrow> (Inl e, files)
     | Inr _ \<Rightarrow> (iw_permissions w nm, AList.update nm content files)))"

section \<open>All instances\<close>

record system_conf =
  cf_global_subnet :: string
  cf_conf_dir :: string
  cf_instances :: "string list"
  cf_push :: "string list"
  cf_port :: "int option"
  cf_proto :: "string option"
  cf_pki :: string
  cf_max_clients :: "int option"

definition instance_conf :: "system_conf \<Rightarrow> net \<Rightarrow> nat \<Rightarrow> server_conf" where
  "instance_conf cfg network n = \<lparr>sc_mgmt_port = Some (mgmt_port_start + int n),
     sc_base = Some (if cf_conf_dir cfg = [] then ''/etc/openvpn'' else cf_conf_dir cfg), sc_pki = Some (cf_pki cfg),
     sc_network = Some (ip_str (net_addr network)), sc_mask = Some (netmask_str network), sc_push = cf_push cfg,
     sc_port = cf_port cfg, sc_proto = cf_proto cfg,
     sc_max_clients = Some (case cf_max_clients cfg of None \<Rightarrow> default_max_clients | Some m \<Rightarrow> if m = 0 then default_max_clients else m)\<rparr>"

definition up_to_date :: "instance_world \<Rightarrow> string \<Rightarrow> string \<Rightarrow> conf_files \<Rightarrow> bool" where
  "up_to_date w nm new_text files \<longleftrightarrow> (case map_of files nm of
     None \<Rightarrow> False
   | Some old_text \<Rightarrow> iw_read w nm \<and> normalize_server_conf_for_compare old_text = normalize_server_conf_for_compare new_text)"

fun regenerate_loop :: "instance_world \<Rightarrow> system_conf \<Rightarrow> net \<Rightarrow> nat \<Rightarrow> string list \<Rightarrow> conf_files \<Rightarrow> unit res \<times> conf_files" where
  "regenerate_loop w cfg network n [] files = (Inr (), files)"
| "regenerate_loop w cfg network n (nm # nms) files = (case generate_server_conf w False nm (instance_conf cfg network n) of
     Inl e \<Rightarrow> (Inl e, files)
   | Inr new_text \<Rightarrow>
       if up_to_date w nm new_text files then regenerate_loop w cfg network (Suc n) nms files
       else (case write_server_conf w nm (instance_conf cfg network n) files of
           (Inl e, fs) \<Rightarrow> (Inl e, fs)
         | (Inr _, fs) \<Rightarrow> regenerate_loop w cfg network (Suc n) nms fs))"

definition regenerate_all_server_confs :: "instance_world \<Rightarrow> system_conf \<Rightarrow> conf_files \<Rightarrow> unit res \<times> conf_files" where
  "regenerate_all_server_confs w cfg files =
     (if strip (cf_global_subnet cfg) = [] then (Inr (), files)
      else (case ip_network (strip (cf_global_subnet cfg)) of
        None \<Rightarrow> (Inr (), files)
      | Some network \<Rightarrow> (case iw_scripts w of
          Inl e \<Rightarrow> (Inl e, files)
        | Inr _ \<Rightarrow> regenerate_loop w cfg network 0 (sorted_set (cf_instances cfg)) files)))"

definition iter_instance_mgmt_ports :: "system_conf \<Rightarrow> (string \<times> int) list" where
  "iter_instance_mgmt_ports cfg = (let names = sorted_set (cf_instances cfg) in
     map (\<lambda>(n, nm). (nm, mgmt_port_start + int n)) (zip [0..<length names] names))"

definition iter_all_openvpn_instance_names :: "system_conf \<Rightarrow> conf_files \<Rightarrow> string list" where
  "iter_all_openvpn_instance_names cfg files = sorted_set (cf_instances cfg @ map fst files)"

text \<open>\<open>systemctl\<close> answers with an exit code and a standard output.\<close>

type_synonym 'k systemctl = "string list \<Rightarrow> 'k \<Rightarrow> (int \<times> string) \<times> 'k"

definition unit_of :: "string \<Rightarrow> string" where
  "unit_of nm = ''openvpn-server@'' @ nm"

definition start_instance :: "'k systemctl \<Rightarrow> string \<Rightarrow> 'k \<Rightarrow> bool \<times> 'k" where
  "start_instance ctl nm k = (case ctl [''enable'', ''--now'', unit_of nm] k of ((code, _), k') \<Rightarrow> (code = 0, k'))"

definition stop_instance :: "'k systemctl \<Rightarrow> string \<Rightarrow> 'k \<Rightarrow> bool \<times> 'k" where
  "stop_instance ctl nm k = (case ctl [''stop'', unit_of nm] k of ((code, _), k') \<Rightarrow> (code = 0, k'))"

definition restart_instance :: "'k systemctl \<Rightarrow> string \<Rightarrow> 'k \<Rightarrow> bool \<times> 'k" where
  "restart_instance ctl nm k = (case ctl [''restart'', unit_of nm] k of ((code, _), k') \<Rightarrow> (code = 0, k'))"

definition is_instance_active :: "'k systemctl \<Rightarrow> string \<Rightarrow> 'k \<Rightarrow> bool \<times> 'k" where
  "is_instance_active ctl nm k = (case ctl [''is-active'', unit_of nm] k of ((_, out), k') \<Rightarrow> (strip out = ''active'', k'))"

fun any_active :: "'k systemctl \<Rightarrow> string list \<Rightarrow> 'k \<Rightarrow> bool \<times> 'k" where
  "any_active ctl [] k = (False, k)"
| "any_active ctl (nm # nms) k = (case is_instance_active ctl nm k of (up, k') \<Rightarrow> if up then (True, k') else any_active ctl nms k')"

definition any_openvpn_instance_active :: "'k systemctl \<Rightarrow> system_conf \<Rightarrow> conf_files \<Rightarrow> 'k \<Rightarrow> bool \<times> 'k" where
  "any_openvpn_instance_active ctl cfg files = any_active ctl (iter_all_openvpn_instance_names cfg files)"

definition get_local_openvpn_instance_id :: "string \<Rightarrow> system_conf \<Rightarrow> conf_files \<Rightarrow> string" where
  "get_local_openvpn_instance_id vpn_instance_id cfg files = (if strip vpn_instance_id \<noteq> [] then strip vpn_instance_id
     else (case iter_all_openvpn_instance_names cfg files of [] \<Rightarrow> ''server'' | nm # _ \<Rightarrow> nm))"

section \<open>The status file\<close>

definition split_status_v2_line :: "string \<Rightarrow> string list" where
  "split_status_v2_line l = (if CHR 0x09 \<in> set l then split_on (CHR 0x09) l else split_on (CHR '','') l)"

text \<open>The first \<open>status\<close> directive of a configuration; a comment may follow on the line.\<close>

definition status_path_of_line :: "string \<Rightarrow> string option" where
  "status_path_of_line raw = (let l = strip raw in
     if l = [] \<or> hd l = CHR ''#'' then None
     else (case py_words (hd (split_on (CHR ''#'') l)) of d # p # _ \<Rightarrow> if d = ''status'' then Some p else None | _ \<Rightarrow> None))"

definition parse_status_file_path :: "string \<Rightarrow> string option" where
  "parse_status_file_path content = (case List.map_filter status_path_of_line (splitlines content) of [] \<Rightarrow> None | p # _ \<Rightarrow> Some p)"

definition resolve_status_log_path :: "(string \<Rightarrow> bool) \<Rightarrow> conf_files \<Rightarrow> string \<Rightarrow> bool \<Rightarrow> string" where
  "resolve_status_log_path exists files nm with_dir = (let preferred = ''/etc/openvpn/log/'' @ nm @ ''-status.log'';
       legacy = ''/var/log/openvpn-'' @ nm @ ''-status.log'';
       parsed = (if with_dir then Option.bind (map_of files nm) parse_status_file_path else None) in
     case parsed of Some p \<Rightarrow> p
     | None \<Rightarrow> if exists preferred then preferred else if exists legacy then legacy else preferred)"

record vpn_client =
  vc_common_name :: string
  vc_real_address :: string
  vc_virtual_address :: string
  vc_bytes_received :: nat
  vc_bytes_sent :: nat
  vc_connected_since :: string

definition digits_or_zero :: "string \<Rightarrow> nat" where
  "digits_or_zero s = (if s \<noteq> [] \<and> list_all is_digit s then nat_of_dec s else 0)"

definition client_of_parts :: "string list \<Rightarrow> vpn_client option" where
  "client_of_parts parts = (if 7 \<le> length parts \<and> hd parts = ''CLIENT_LIST''
     then Some \<lparr>vc_common_name = parts ! 1, vc_real_address = parts ! 2, vc_virtual_address = parts ! 3,
       vc_bytes_received = digits_or_zero (parts ! 5), vc_bytes_sent = digits_or_zero (parts ! 6),
       vc_connected_since = (if 7 < length parts then parts ! 7 else [])\<rparr>
     else None)"

record status_result =
  st_clients :: "vpn_client list"
  st_received :: nat
  st_sent :: nat

definition no_status :: status_result where
  "no_status = \<lparr>st_clients = [], st_received = 0, st_sent = 0\<rparr>"

fun status_lines :: "string option \<Rightarrow> string list \<Rightarrow> status_result \<Rightarrow> status_result" where
  "status_lines sec [] r = r"
| "status_lines sec (raw # ls) r = (let l = strip raw in
     if starts_with l ''HEADER''
     then (let parts = split_status_v2_line l in status_lines (if 2 \<le> length parts then Some (parts ! 1) else sec) ls r)
     else if sec = Some ''CLIENT_LIST''
     then (case client_of_parts (split_status_v2_line l) of
         None \<Rightarrow> status_lines sec ls r
       | Some c \<Rightarrow> status_lines sec ls \<lparr>st_clients = st_clients r @ [c], st_received = st_received r + vc_bytes_received c, st_sent = st_sent r + vc_bytes_sent c\<rparr>)
     else status_lines sec ls r)"

text \<open>A file that is missing or cannot be read gives no clients.\<close>

definition get_status :: "string option \<Rightarrow> status_result" where
  "get_status content = (case content of None \<Rightarrow> no_status | Some t \<Rightarrow> status_lines None (splitlines t) no_status)"

end
