(* ===== verification/Instances_Props.thy ===== *)
theory Instances_Props
  imports Instances
begin

text \<open>
  Rewriting the configurations of the servers settles: a second start finds every file as it wants it.
\<close>

section \<open>Texts that differ in the time only\<close>

text \<open>The lines of a text, ended by a line feed with or without a carriage return before it; what follows the last line feed is the
  last item.\<close>

definition conf_lines :: "string \<Rightarrow> string list" where
  "conf_lines t = (let ls = split_on LF t in
     map (\<lambda>l. if l \<noteq> [] \<and> last l = CHR 0x0D then butlast l else l) (butlast ls) @ [last ls])"

text \<open>Two texts are alike when they have the same lines in the same order, lines with the time of the generation aside.\<close>

definition alike :: "string \<Rightarrow> string \<Rightarrow> bool" where
  "alike a b \<longleftrightarrow> filter (\<lambda>l. \<not> starts_with l gen_time_mark) (butlast (conf_lines a)) = filter (\<lambda>l. \<not> starts_with l gen_time_mark) (butlast (conf_lines b)) \<and>
     last (conf_lines a) = last (conf_lines b)"

lemma replace_crlf:
  "str_replace [CHR 0x0D, LF] [LF] [] = []"
  "str_replace [CHR 0x0D, LF] [LF] (CHR 0x0D # LF # s) = LF # str_replace [CHR 0x0D, LF] [LF] s"
  "\<not> (c = CHR 0x0D \<and> s \<noteq> [] \<and> hd s = LF) \<Longrightarrow> str_replace [CHR 0x0D, LF] [LF] (c # s) = c # str_replace [CHR 0x0D, LF] [LF] s"
  by (cases s; simp add: str_replace_def starts_with_def)+

lemma conf_lines_cons:
  "conf_lines [] = [[]]"
  "conf_lines (CHR 0x0D # LF # s) = [] # conf_lines s"
  "conf_lines (LF # s) = [] # conf_lines s"
  "c \<noteq> LF \<Longrightarrow> \<not> (c = CHR 0x0D \<and> s \<noteq> [] \<and> hd s = LF) \<Longrightarrow> conf_lines (c # s) = (c # hd (conf_lines s)) # tl (conf_lines s)"
proof -
  show "conf_lines [] = [[]]" "conf_lines (CHR 0x0D # LF # s) = [] # conf_lines s" "conf_lines (LF # s) = [] # conf_lines s"
    by (simp_all add: conf_lines_def Let_def)
  assume c: "c \<noteq> LF" "\<not> (c = CHR 0x0D \<and> s \<noteq> [] \<and> hd s = LF)"
  obtain l ls where ls: "split_on LF s = l # ls" by (cases "split_on LF s") auto
  have "l \<noteq> [] \<or> s = [] \<or> hd s = LF" using ls by (cases s) (auto split: if_splits list.splits)
  moreover have "ls = []" if "s = []" using that ls by simp
  ultimately show "conf_lines (c # s) = (c # hd (conf_lines s)) # tl (conf_lines s)"
    using c ls by (cases ls) (auto simp: conf_lines_def Let_def)
qed

lemma crlf_lines: "split_on LF (str_replace [CHR 0x0D, LF] [LF] s) = conf_lines s"
proof (induction s rule: length_induct)
  case (1 s)
  show ?case
  proof (cases s)
    case Nil
    then show ?thesis by (simp add: replace_crlf conf_lines_cons)
  next
    case (Cons c r)
    show ?thesis
    proof (cases "c = CHR 0x0D \<and> r \<noteq> [] \<and> hd r = LF")
      case True
      then obtain r' where r: "s = CHR 0x0D # LF # r'" using Cons by (cases r) auto
      then show ?thesis using 1 by (simp add: replace_crlf conf_lines_cons)
    next
      case False
      have "split_on LF (str_replace [CHR 0x0D, LF] [LF] r) = conf_lines r" using 1 Cons by simp
      then show ?thesis
        using False Cons by (cases "c = LF"; cases "conf_lines r") (auto simp: replace_crlf conf_lines_cons)
    qed
  qed
qed

text \<open>The comparison of the code decides likeness.\<close>

lemma alike_iff: "normalize_server_conf_for_compare a = normalize_server_conf_for_compare b \<longleftrightarrow> alike a b"
proof -
  let ?k = "\<lambda>t. filter (\<lambda>l. \<not> starts_with l gen_time_mark) (butlast (conf_lines t)) @ [last (conf_lines t)]"
  have clean: "\<forall>l\<in>set (?k t). LF \<notin> set l" for t
  proof -
    have all: "\<forall>l\<in>set (conf_lines t). LF \<notin> set l" using split_on_elems unfolding crlf_lines [symmetric] by fast
    have "set (butlast (conf_lines t)) \<subseteq> set (conf_lines t)" "last (conf_lines t) \<in> set (conf_lines t)"
      by (auto dest: in_set_butlastD simp: conf_lines_def Let_def)
    then show ?thesis using all by auto
  qed
  have n: "normalize_server_conf_for_compare t = join [LF] (?k t)" for t
    by (simp only: normalize_server_conf_for_compare_def crlf_lines Let_def)
  have split: "split_on LF (normalize_server_conf_for_compare t) = ?k t" for t
    unfolding n by (rule split_on_join) (use clean in auto)
  have "normalize_server_conf_for_compare a = normalize_server_conf_for_compare b \<longleftrightarrow> ?k a = ?k b"
    using split n by metis
  then show ?thesis by (simp add: alike_def)
qed

section \<open>Generated texts\<close>

definition same_text :: "string res \<Rightarrow> string res \<Rightarrow> bool" where
  "same_text a b = (case (a, b) of (Inr x, Inr y) \<Rightarrow> alike x y | (Inl _, Inl _) \<Rightarrow> True | _ \<Rightarrow> False)"

text \<open>The time of the generation shows in its own line only, in every text the two starts generate.\<close>

fun timeless :: "instance_world \<Rightarrow> instance_world \<Rightarrow> system_conf \<Rightarrow> net \<Rightarrow> nat \<Rightarrow> string list \<Rightarrow> bool" where
  "timeless w w' cfg network n [] = True"
| "timeless w w' cfg network n (nm # nms) = (let c = instance_conf cfg network n; u = generate_server_conf w' False nm c in
     same_text (generate_server_conf w True nm c) u \<and> same_text (generate_server_conf w False nm c) u \<and> timeless w w' cfg network (Suc n) nms)"

text \<open>What a pass leaves for the instance at a place: the old file when it can be read and is alike to the generated text,
  and otherwise the generated text.\<close>

definition passed :: "instance_world \<Rightarrow> system_conf \<Rightarrow> net \<Rightarrow> conf_files \<Rightarrow> conf_files \<Rightarrow> nat \<Rightarrow> string \<Rightarrow> bool" where
  "passed w cfg network files fs n nm \<longleftrightarrow> (let c = instance_conf cfg network n in \<exists>new. generate_server_conf w False nm c = Inr new \<and>
     (if \<exists>old. map_of files nm = Some old \<and> iw_read w nm \<and> alike old new then map_of fs nm = map_of files nm
      else \<exists>t. generate_server_conf w True nm c = Inr t \<and> map_of fs nm = Some t))"

text \<open>The file of an instance is alike to what the next start generates.\<close>

definition settled :: "instance_world \<Rightarrow> system_conf \<Rightarrow> net \<Rightarrow> conf_files \<Rightarrow> nat \<Rightarrow> string \<Rightarrow> bool" where
  "settled w cfg network fs n nm \<longleftrightarrow> (\<exists>t u. map_of fs nm = Some t \<and>
     generate_server_conf w False nm (instance_conf cfg network n) = Inr u \<and> alike t u)"

lemma write_server_confD:
  "write_server_conf w nm c files = (Inr u, fs) \<Longrightarrow> \<exists>t. generate_server_conf w True nm c = Inr t \<and> fs = AList.update nm t files"
  by (auto simp: write_server_conf_def split: sum.splits)

lemma up_to_date_iff: "up_to_date w nm new files \<longleftrightarrow> (\<exists>old. map_of files nm = Some old \<and> iw_read w nm \<and> alike old new)"
  by (auto simp: up_to_date_def alike_iff split: option.split)

lemma regenerate_loop_passed:
  "regenerate_loop w cfg network k nms files = (Inr (), fs) \<Longrightarrow> distinct nms \<Longrightarrow>
   (\<forall>n<length nms. passed w cfg network files fs (k + n) (nms ! n)) \<and> (\<forall>x. x \<notin> set nms \<longrightarrow> map_of fs x = map_of files x)"
proof (induction nms arbitrary: k files)
  case (Cons nm nms)
  let ?c = "instance_conf cfg network k"
  obtain new where new: "generate_server_conf w False nm ?c = Inr new" using Cons.prems(1) by (auto split: sum.splits)
  obtain files1 where f1: "regenerate_loop w cfg network (Suc k) nms files1 = (Inr (), fs)" "\<forall>x. x \<noteq> nm \<longrightarrow> map_of files1 x = map_of files x"
    "if up_to_date w nm new files then map_of files1 nm = map_of files nm
     else \<exists>t. generate_server_conf w True nm ?c = Inr t \<and> map_of files1 nm = Some t"
  proof (cases "up_to_date w nm new files")
    case True
    then show ?thesis using that [of files] Cons.prems(1) new by simp
  next
    case False
    then obtain fs1 where w1: "write_server_conf w nm ?c files = (Inr (), fs1)" "regenerate_loop w cfg network (Suc k) nms fs1 = (Inr (), fs)"
      using Cons.prems(1) new by (auto split: prod.splits sum.splits)
    obtain t where t: "generate_server_conf w True nm ?c = Inr t" "fs1 = AList.update nm t files" using write_server_confD [OF w1(1)] by blast
    then show ?thesis using that [OF w1(2)] False by (simp add: update_conv')
  qed
  have ih: "(\<forall>n<length nms. passed w cfg network files1 fs (Suc k + n) (nms ! n)) \<and> (\<forall>x. x \<notin> set nms \<longrightarrow> map_of fs x = map_of files1 x)"
    using Cons.IH [OF f1(1)] Cons.prems(2) by simp
  then have same: "passed w cfg network files fs (Suc k + n) (nms ! n)" if "n < length nms" for n
  proof -
    have "nms ! n \<noteq> nm" using Cons.prems(2) that nth_mem by fastforce
    then have eq: "map_of files1 (nms ! n) = map_of files (nms ! n)" using f1(2) by blast
    have "passed w cfg network files1 fs (Suc k + n) (nms ! n)" using ih that by blast
    then show ?thesis unfolding passed_def eq .
  qed
  have "passed w cfg network files fs k nm"
    using f1(3) new ih Cons.prems(2) by (auto simp: passed_def up_to_date_iff [symmetric] Let_def split: if_splits)
  then have "\<forall>n<length (nm # nms). passed w cfg network files fs (k + n) ((nm # nms) ! n)"
    using same by (auto simp: nth_Cons' dest: less_imp_Suc_add)
  then show ?case using ih f1(2) by auto
qed simp

lemma alike_refl: "alike a a" and alike_trans: "alike a b \<Longrightarrow> alike b c \<Longrightarrow> alike a c"
  by (simp_all add: alike_def)

lemma timeless_nth:
  "timeless w w' cfg network k nms \<Longrightarrow> n < length nms \<Longrightarrow>
   same_text (generate_server_conf w True (nms ! n) (instance_conf cfg network (k + n))) (generate_server_conf w' False (nms ! n) (instance_conf cfg network (k + n))) \<and>
   same_text (generate_server_conf w False (nms ! n) (instance_conf cfg network (k + n))) (generate_server_conf w' False (nms ! n) (instance_conf cfg network (k + n)))"
proof (induction nms arbitrary: k n)
  case (Cons nm nms)
  then show ?case by (cases n) (force simp: Let_def)+
qed simp

lemma passed_settled:
  assumes "passed w cfg network files fs n nm"
    and "same_text (generate_server_conf w True nm (instance_conf cfg network n)) (generate_server_conf w' False nm (instance_conf cfg network n))"
    and "same_text (generate_server_conf w False nm (instance_conf cfg network n)) (generate_server_conf w' False nm (instance_conf cfg network n))"
  shows "settled w' cfg network fs n nm"
  using assms by (auto simp: passed_def settled_def same_text_def Let_def split: if_splits sum.splits intro: alike_trans)

lemma regenerate_loop_settled:
  "\<forall>n<length nms. settled w cfg network fs (k + n) (nms ! n) \<Longrightarrow> \<forall>nm. iw_read w nm \<Longrightarrow> regenerate_loop w cfg network k nms fs = (Inr (), fs)"
proof (induction nms arbitrary: k)
  case (Cons nm nms)
  have "settled w cfg network fs k nm" using Cons.prems(1) by force
  moreover have "\<forall>n<length nms. settled w cfg network fs (Suc k + n) (nms ! n)" using Cons.prems(1) by force
  ultimately show ?case using Cons.IH [of "Suc k"] Cons.prems(2) by (auto simp: settled_def up_to_date_iff)
qed simp

section \<open>Properties\<close>

text \<open>C37. A pass over the instances writes exactly the files that differ: for each instance, in the sorted order of the names that also gives
  its management port, a file that can be read and has the same lines as the generated text (line ends and the line with the time
  aside) stays as it is, any other is replaced by the generated text; the ports are pairwise distinct and the files of other names are
  untouched.  The next start finds every file alike to what it generates and writes nothing, when the texts
  generated by the two starts differ in the line with their time only.\<close>

theorem server_confs_settle:
  assumes "regenerate_all_server_confs w cfg files = (Inr (), fs)" "ip_network (strip (cf_global_subnet cfg)) = Some network"
    "strip (cf_global_subnet cfg) \<noteq> []" "timeless w w' cfg network 0 (sorted_set (cf_instances cfg))" "\<forall>nm. iw_read w' nm" "iw_scripts w' = Inr ()"
  shows "regenerate_all_server_confs w' cfg fs = (Inr (), fs) \<and>
    (\<forall>(nm, port)\<in>set (iter_instance_mgmt_ports cfg). \<exists>n. port = mgmt_port_start + int n \<and>
       passed w cfg network files fs n nm \<and> settled w' cfg network fs n nm) \<and>
    map fst (iter_instance_mgmt_ports cfg) = sorted_set (cf_instances cfg) \<and> distinct (map snd (iter_instance_mgmt_ports cfg)) \<and>
    (\<forall>nm. nm \<notin> set (cf_instances cfg) \<longrightarrow> map_of fs nm = map_of files nm)"
proof -
  let ?nms = "sorted_set (cf_instances cfg)"
  have loop: "regenerate_loop w cfg network 0 ?nms files = (Inr (), fs)"
    using assms(1,2,3) by (auto simp: regenerate_all_server_confs_def split: sum.splits)
  note r = regenerate_loop_passed [OF loop distinct_sorted_set]
  have s: "\<forall>n<length ?nms. settled w' cfg network fs n (?nms ! n)"
    using r timeless_nth [OF assms(4)] passed_settled by fastforce
  have again: "regenerate_loop w' cfg network 0 ?nms fs = (Inr (), fs)"
    using regenerate_loop_settled [where k = 0 and nms = ?nms and w = w' and cfg = cfg and network = network and fs = fs] s assms(5) by simp
  have ports: "\<exists>n. port = mgmt_port_start + int n \<and> passed w cfg network files fs n nm \<and> settled w' cfg network fs n nm"
    if "(nm, port) \<in> set (iter_instance_mgmt_ports cfg)" for nm port
    using that r s by (fastforce simp: iter_instance_mgmt_ports_def Let_def set_zip)
  have snds: "map snd (iter_instance_mgmt_ports cfg) = map (\<lambda>n. mgmt_port_start + int n) [0..<length ?nms]"
    by (rule nth_equalityI) (simp_all add: iter_instance_mgmt_ports_def Let_def)
  have dist: "distinct (map snd (iter_instance_mgmt_ports cfg))" unfolding snds by (simp add: distinct_map inj_on_def)
  have names: "map fst (iter_instance_mgmt_ports cfg) = ?nms"
    by (rule nth_equalityI) (simp_all add: iter_instance_mgmt_ports_def Let_def)
  show ?thesis using again assms(2,3,6) ports dist names r by (auto simp: regenerate_all_server_confs_def)
qed

definition demo_instances :: instance_world where
  "demo_instances = \<lparr>iw_template = Inr (gen_time_mark @ '' {{GENERATED_AT}}'' @ [LF] @ ''port {{MGMT_PORT}}''),
     iw_header = ''# routes'', iw_supports_max_age = True, iw_now = (\<lambda>nm written. if written then ''10:02'' else ''10:01''), iw_scripts = Inr (),
     iw_read = (\<lambda>_. True), iw_write = (\<lambda>_. Inr ()), iw_permissions = (\<lambda>_. Inr ())\<rparr>"

definition demo_system :: system_conf where
  "demo_system = \<lparr>cf_global_subnet = ''10.8.0.0/16'', cf_conf_dir = [], cf_instances = [''b'', ''a''], cf_push = [''192.168.1.0/24''],
     cf_port = Some 1194, cf_proto = Some ''udp'', cf_pki = ''/etc/openvpn/pki'', cf_max_clients = None\<rparr>"

theorem server_confs_settle_witness:
  "regenerate_all_server_confs (demo_instances\<lparr>iw_now := \<lambda>_ _. ''11:00''\<rparr>) demo_system (snd (regenerate_all_server_confs demo_instances demo_system [])) =
     (Inr (), snd (regenerate_all_server_confs demo_instances demo_system []))"
proof -
  let ?w = "demo_instances\<lparr>iw_now := \<lambda>_ _. ''11:00''\<rparr>"
  let ?net = "\<lparr>net_addr = 168296448, net_plen = 16\<rparr>"
  have net: "ip_network (strip (cf_global_subnet demo_system)) = Some ?net" by code_simp
  have run: "fst (regenerate_all_server_confs demo_instances demo_system []) = Inr ()" by code_simp
  then have first: "regenerate_all_server_confs demo_instances demo_system [] = (Inr (), snd (regenerate_all_server_confs demo_instances demo_system []))"
    by (metis prod.collapse)
  have t: "timeless demo_instances ?w demo_system ?net 0 (sorted_set (cf_instances demo_system))"
    by code_simp
  have ne: "strip (cf_global_subnet demo_system) \<noteq> []" by code_simp
  have rd: "\<forall>nm. iw_read ?w nm" "iw_scripts ?w = Inr ()" by (simp_all add: demo_instances_def)
  show ?thesis using server_confs_settle [OF first net ne t rd] by simp
qed

end
