(* ===== verification/Preflight.thy ===== *)
theory Preflight
  imports Instances Actions
begin

text \<open>
  \<open>app/services/openvpn/upgrade.py\<close>, first part: the configuration a candidate version of OpenVPN is
  tried with, and the trial itself.  \<open>casefold\<close> and \<open>lower\<close> act on ASCII letters; the running candidate
  is a parameter.
\<close>

section \<open>Rewriting a configuration\<close>

definition opens_inline :: "string \<Rightarrow> bool" where
  "opens_inline s \<longleftrightarrow> starts_with s ''<'' \<and> ends_with s ''>'' \<and> \<not> starts_with s ''</''"

definition inline_name :: "string \<Rightarrow> string" where
  "inline_name s = lower (strip (butlast (tl s)))"

definition closes_inline :: "string \<Rightarrow> string \<Rightarrow> bool" where
  "closes_inline nm raw \<longleftrightarrow> lower (strip raw) = ''</'' @ nm @ ''>''"

definition blank_or_comment :: "string \<Rightarrow> bool" where
  "blank_or_comment s \<longleftrightarrow> s = [] \<or> hd s = CHR ''#'' \<or> hd s = CHR '';''"

definition directive_of :: "string \<Rightarrow> string" where
  "directive_of s = lower (hd (py_words s))"

definition disabled_line :: "string \<Rightarrow> string" where
  "disabled_line raw = ''# NiceVPN preflight disabled: '' @ raw"

definition duplicate_line :: "string \<Rightarrow> string" where
  "duplicate_line raw = ''# NiceVPN preflight disabled duplicate: '' @ raw"

text \<open>The lines of the result and the replacements that found their directive.\<close>

fun rewrite_lines :: "string list \<Rightarrow> (string \<times> string) list \<Rightarrow> string option \<Rightarrow> string list \<Rightarrow> string list \<Rightarrow> string list \<times> string list" where
  "rewrite_lines dis rep inl replaced [] = ([], replaced)"
| "rewrite_lines dis rep (Some nm) replaced (raw # ls) =
     (let (out, d) = rewrite_lines dis rep (if closes_inline nm raw then None else Some nm) replaced ls in (raw # out, d))"
| "rewrite_lines dis rep None replaced (raw # ls) = (let s = strip raw in
     if opens_inline s then (let (out, d) = rewrite_lines dis rep (Some (inline_name s)) replaced ls in (raw # out, d))
     else if blank_or_comment s then (let (out, d) = rewrite_lines dis rep None replaced ls in (raw # out, d))
     else (let dir = directive_of s in
       case map_of rep dir of
         Some line \<Rightarrow> if dir \<notin> set replaced
           then (let (out, d) = rewrite_lines dis rep None (dir # replaced) ls in (line # out, d))
           else (let (out, d) = rewrite_lines dis rep None replaced ls in (duplicate_line raw # out, d))
       | None \<Rightarrow> (let (out, d) = rewrite_lines dis rep None replaced ls in
           ((if dir \<in> set dis then disabled_line raw else raw) # out, d))))"

definition rewrite_config :: "string \<Rightarrow> string list \<Rightarrow> (string \<times> string) list \<Rightarrow> string list \<Rightarrow> string" where
  "rewrite_config text0 dis rep append_lines = (let (out, replaced) = rewrite_lines dis rep None [] (splitlines text0);
       missing = map snd (filter (\<lambda>(d, _). d \<notin> set replaced) rep) in
     rstrip (join [LF] (out @ missing @ append_lines)) @ [LF])"

definition server_side_effect_directives :: "string list" where
  "server_side_effect_directives = [''auth-user-pass-verify'', ''client-connect'', ''client-disconnect'', ''daemon'', ''down'', ''group'',
     ''ifconfig-pool-persist'', ''ipchange'', ''learn-address'', ''log'', ''log-append'', ''management'', ''plugin'', ''route-up'',
     ''script-security'', ''status'', ''tls-crypt-v2-verify'', ''up'', ''user'', ''writepid'']"

definition client_side_effect_directives :: "string list" where
  "client_side_effect_directives = [''connect-retry'', ''connect-retry-max'', ''connect-timeout'', ''daemon'', ''dev'', ''down'', ''log'',
     ''log-append'', ''management'', ''remote'', ''resolv-retry'', ''route-up'', ''up'', ''writepid'']"

definition server_append_lines :: "string \<Rightarrow> nat \<Rightarrow> string \<Rightarrow> string list" where
  "server_append_lines tun_name port status_log = [''dev '' @ tun_name, ''dev-type tun'', ''local 127.0.0.1'', ''port '' @ dec_of_nat port,
     ''ifconfig-noexec'', ''route-noexec'', ''disable-dco'', ''script-security 0'', ''status '' @ status_log @ '' 1'', ''verb 4'']"

definition client_append_lines :: "string \<Rightarrow> nat \<Rightarrow> string list" where
  "client_append_lines tun_name port = [''dev '' @ tun_name, ''dev-type tun'', ''remote 127.0.0.1 '' @ dec_of_nat port, ''resolv-retry 0'',
     ''connect-retry 1 1'', ''connect-retry-max 1'', ''connect-timeout 1'', ''tls-exit'', ''ifconfig-noexec'', ''route-noexec'', ''disable-dco'', ''verb 4'']"

definition server_trial_text :: "string \<Rightarrow> nat \<Rightarrow> string \<Rightarrow> string \<Rightarrow> string" where
  "server_trial_text tun_name port status_log text0 =
     rewrite_config text0 (server_side_effect_directives @ [''dev'', ''local'', ''port'']) [] (server_append_lines tun_name port status_log)"

definition client_trial_text :: "string \<Rightarrow> nat \<Rightarrow> string \<Rightarrow> string" where
  "client_trial_text tun_name port text0 = rewrite_config text0 client_side_effect_directives [] (client_append_lines tun_name port)"

section \<open>The trial\<close>

definition fatal_config_markers :: "string list" where
  "fatal_config_markers = [''options error:'', ''unrecognized option'', ''cannot load'', ''cannot read'', ''error reading'', ''failed to parse'',
     ''cannot pre-load'', ''private key password verification failed'', ''openssl: error'',
     ''error: private key password verification failed'', ''exiting due to fatal error'']"

definition server_success_markers :: "string list" where
  "server_success_markers = [''initialization sequence completed'']"

definition client_success_markers :: "string list" where
  "client_success_markers = [''udp link remote:'', ''udpv4 link remote:'', ''udpv6 link remote:'', ''attempting to establish tcp connection'']"

definition preflight_output_state :: "string \<Rightarrow> string list \<Rightarrow> bool \<times> bool" where
  "preflight_output_state output markers = (let lowered = lower output in
     (list_ex (\<lambda>m. str_in m lowered) markers, list_ex (\<lambda>m. str_in m lowered) fatal_config_markers))"

text \<open>What the loop sees until its deadline: the log so far and whether the process has ended.\<close>

fun watch_output :: "string list \<Rightarrow> (string \<times> bool) list \<Rightarrow> bool \<times> bool \<Rightarrow> bool \<times> bool" where
  "watch_output markers [] r = r"
| "watch_output markers ((output, ended) # later) r = (let (success, fatal) = preflight_output_state output markers in
     if fatal \<or> success \<or> ended then (success, fatal) else watch_output markers later (success, fatal))"

record trial_run =
  tr_seen :: "(string \<times> bool) list"
  tr_output :: string

definition run_foreground_preflight :: "string list \<Rightarrow> trial_run \<Rightarrow> bool \<times> string \<times> bool" where
  "run_foreground_preflight markers p = (let (reached_success, fatal_before) = watch_output markers (tr_seen p) (False, False);
       (_, fatal_after) = preflight_output_state (tr_output p) markers in
     (reached_success \<and> \<not> (fatal_before \<or> fatal_after), tr_output p, reached_success))"

text \<open>The surroundings: free names and ports, the candidate run on a configuration, the steps that make a client profile.\<close>

record 'k trial_world =
  tw_tun :: "'k \<Rightarrow> string"
  tw_port :: "'k \<Rightarrow> nat"
  tw_tmp :: string
  tw_openvpn :: "string \<Rightarrow> string \<Rightarrow> 'k \<Rightarrow> trial_run res \<times> 'k"
  tw_openssl :: "string option"
  tw_run :: "string list \<Rightarrow> 'k \<Rightarrow> int res \<times> 'k"
  tw_made :: "string \<Rightarrow> 'k \<Rightarrow> string res"
  tw_server_key :: "string option"
  tw_template :: "string res"

record trial_result =
  tq_ok :: bool
  tq_path :: string
  tq_reached :: bool
  tq_missing :: bool

definition preflight_server_config :: "'k trial_world \<Rightarrow> string \<Rightarrow> string \<Rightarrow> string option \<Rightarrow> ('k, trial_result) stact" where
  "preflight_server_config w binary path content k = (case content of
     None \<Rightarrow> ret \<lparr>tq_ok = False, tq_path = path, tq_reached = False, tq_missing = True\<rparr> k
   | Some text0 \<Rightarrow> (case tw_openvpn w binary (server_trial_text (tw_tun w k) (tw_port w k) (tw_tmp w @ ''/status.log'') text0) k of
       (Inl e, k') \<Rightarrow> throw e k'
     | (Inr p, k') \<Rightarrow> (case run_foreground_preflight server_success_markers p of (ok, _, reached) \<Rightarrow>
         ret \<lparr>tq_ok = ok, tq_path = path, tq_reached = reached, tq_missing = False\<rparr> k')))"

text \<open>A command of the profile generation; its failure is an error.\<close>

definition made_by :: "'k trial_world \<Rightarrow> string \<Rightarrow> string list \<Rightarrow> ('k, unit) stact" where
  "made_by w msg cmd k = (case tw_run w cmd k of (Inl e, k') \<Rightarrow> throw e k'
     | (Inr code, k') \<Rightarrow> if code \<noteq> 0 then throw (RuntimeError msg) k' else ret () k')"

definition read_made :: "'k trial_world \<Rightarrow> string \<Rightarrow> ('k, string) stact" where
  "read_made w f k = (case tw_made w f k of Inl e \<Rightarrow> throw e k | Inr t \<Rightarrow> ret t k)"

definition generate_ephemeral_client_profile :: "'k trial_world \<Rightarrow> string \<Rightarrow> ('k, string) stact" where
  "generate_ephemeral_client_profile w binary = (case tw_openssl w of
     None \<Rightarrow> throw (RuntimeError ''openssl missing'')
   | Some openssl \<Rightarrow> (let cert = tw_tmp w @ ''/client.crt''; ckey = tw_tmp w @ ''/client.key''; tc2_client = tw_tmp w @ ''/tc2-client.key'';
         tc2_server = (case tw_server_key w of Some f \<Rightarrow> f | None \<Rightarrow> tw_tmp w @ ''/tc2-server.key'') in
       andthen (made_by w ''client certificate'' [openssl, ''req'', ''-x509'', ''-newkey'', ''rsa:2048'', ''-nodes'', ''-days'', ''1'',
           ''-subj'', ''/CN=nicevpn-preflight'', ''-keyout'', ckey, ''-out'', cert]) (\<lambda>_.
       andthen (if tw_server_key w \<noteq> None then ret ()
         else made_by w ''tls-crypt-v2 server key'' [binary, ''--genkey'', ''tls-crypt-v2-server'', tc2_server]) (\<lambda>_.
       andthen (made_by w ''tls-crypt-v2 client key'' [binary, ''--tls-crypt-v2'', tc2_server, ''--genkey'', ''tls-crypt-v2-client'', tc2_client]) (\<lambda>_.
       andthen (read_made w cert) (\<lambda>ct. andthen (read_made w ckey) (\<lambda>kt. andthen (read_made w tc2_client) (\<lambda>tc.
         (case generate_ovpn (tw_template w) ''nicevpn-preflight'' ''10.255.255.0/24''
             \<lparr>cc_server_ip = ''127.0.0.1'', cc_port = Some 9, cc_proto = Some ''udp'', cc_ca_cert = ct, cc_user_cert = ct, cc_user_key = kt,
               cc_tc2_client_key = tc\<rparr> of
           Inl e \<Rightarrow> throw e | Inr t \<Rightarrow> ret t)))))))))"

definition preflight_client_profile :: "'k trial_world \<Rightarrow> string \<Rightarrow> ('k, bool) stact" where
  "preflight_client_profile w binary = andthen (generate_ephemeral_client_profile w binary) (\<lambda>original k.
     (case tw_openvpn w binary (client_trial_text (tw_tun w k) (tw_port w k) original) k of
       (Inl e, k') \<Rightarrow> throw e k'
     | (Inr p, k') \<Rightarrow> ret (fst (run_foreground_preflight client_success_markers p)) k'))"

text \<open>All configurations of servers in turn; the first that fails ends the check.\<close>

fun preflight_servers :: "'k trial_world \<Rightarrow> string \<Rightarrow> (string \<times> string) list \<Rightarrow> ('k, bool) stact" where
  "preflight_servers w binary [] = ret True"
| "preflight_servers w binary ((path, content) # later) = andthen (preflight_server_config w binary path (Some content)) (\<lambda>r.
     if \<not> tq_ok r then ret False else preflight_servers w binary later)"

definition preflight_upgrade_candidate :: "'k trial_world \<Rightarrow> bool \<Rightarrow> string \<Rightarrow> (string \<times> string) list \<Rightarrow> ('k, bool) stact" where
  "preflight_upgrade_candidate w binary_exists binary confs =
     (if \<not> binary_exists then throw (RuntimeError ''candidate missing'')
      else if confs = [] then throw (RuntimeError ''no server configuration'')
      else andthen (preflight_servers w binary (sort_key fst confs)) (\<lambda>ok. if \<not> ok then ret False else preflight_client_profile w binary))"

section \<open>Laws\<close>

text \<open>What OpenVPN reads in a configuration: outside the inline blocks the lines that are neither blank nor a comment, each with
  its first word in lower case; and every line of an inline block, its opening and closing line included, with the name of the block.\<close>

datatype conf_item = Acting string string | Inlined string string

fun conf_items :: "string option \<Rightarrow> string list \<Rightarrow> conf_item list" where
  "conf_items inl [] = []"
| "conf_items (Some nm) (raw # ls) = Inlined nm raw # conf_items (if closes_inline nm raw then None else Some nm) ls"
| "conf_items None (raw # ls) = (let s = strip raw in
     if opens_inline s then Inlined (inline_name s) raw # conf_items (Some (inline_name s)) ls
     else if blank_or_comment s then conf_items None ls
     else Acting (directive_of s) raw # conf_items None ls)"

text \<open>The items that are not an acting line with one of the directives.\<close>

fun without_directives :: "string list \<Rightarrow> conf_item \<Rightarrow> bool" where
  "without_directives ds (Acting d raw) \<longleftrightarrow> d \<notin> set ds"
| "without_directives ds (Inlined nm raw) \<longleftrightarrow> True"

text \<open>The block that is open at the end of the lines.\<close>

fun block_after :: "string option \<Rightarrow> string list \<Rightarrow> string option" where
  "block_after inl [] = inl"
| "block_after (Some nm) (raw # ls) = block_after (if closes_inline nm raw then None else Some nm) ls"
| "block_after None (raw # ls) = (let s = strip raw in if opens_inline s then block_after (Some (inline_name s)) ls else block_after None ls)"

lemma conf_items_append: "conf_items inl (xs @ ys) = conf_items inl xs @ conf_items (block_after inl xs) ys"
  by (induction inl xs rule: conf_items.induct) (auto simp: Let_def)

lemma strip_hash: "strip (CHR ''#'' # t) = CHR ''#'' # rev (dropWhile py_space (rev t))"
  by (simp add: strip_def lstrip_def rstrip_def dropWhile_append3 py_space_def)

lemma disabled_is_comment: "blank_or_comment (strip (disabled_line raw))" "\<not> opens_inline (strip (disabled_line raw))"
  by (simp_all add: disabled_line_def strip_hash blank_or_comment_def opens_inline_def starts_with_def)

lemma rewrite_lines_items:
  "conf_items inl (fst (rewrite_lines dis [] inl replaced ls)) = filter (without_directives dis) (conf_items inl ls) \<and>
   block_after inl (fst (rewrite_lines dis [] inl replaced ls)) = block_after inl ls"
  by (induction ls arbitrary: inl replaced; case_tac inl) (auto simp: Let_def disabled_is_comment case_prod_beta)

end
