(* ===== verification/Upgrade.thy ===== *)
theory Upgrade
  imports Preflight
begin

text \<open>
  \<open>app/services/openvpn/upgrade.py\<close>, second part: the switch to a staged candidate and its rollback, over
  a file system of paths.  The contents of a directory count as one value; the removal of the
  directory with the copies made before the switch is not modelled, the copies are the records of the
  snapshots.  Which file operations fail, and what a failed one leaves behind, are parameters.
\<close>

section \<open>Files\<close>

datatype node = Symlink string | Dir "(string \<times> string) list" | File string

type_synonym fs = "(string \<times> node) list"

text \<open>The host, and the two local variables the rollback looks at.\<close>

record 'k host =
  h_ext :: 'k
  h_fs :: fs
  h_moved :: bool
  h_installed :: bool

record stage =
  sg_prefix :: string
  sg_source_dir :: string
  sg_binary :: string
  sg_tag :: string
  sg_version :: string

record 'k upgrade_world =
  uw_trial :: "'k trial_world"
  uw_confs :: "'k \<Rightarrow> (string \<times> string) list"
  uw_backup :: "string \<Rightarrow> 'k \<Rightarrow> string res \<times> 'k"
  uw_instances :: "string list"
  uw_ctl :: "'k systemctl"
  uw_restart :: "string \<Rightarrow> 'k \<Rightarrow> int res \<times> 'k"
  uw_install :: "stage \<Rightarrow> 'k \<times> fs \<Rightarrow> unit res \<times> 'k \<times> fs"
  uw_op :: "string \<Rightarrow> string \<Rightarrow> 'k \<Rightarrow> exn option \<times> 'k"
  uw_partial :: "string \<Rightarrow> 'k \<Rightarrow> node option"
  uw_live :: "fs \<Rightarrow> string \<Rightarrow> bool"
  uw_new :: string
  uw_old :: string

definition node_at :: "string \<Rightarrow> 'k host \<Rightarrow> node option" where
  "node_at p s = map_of (h_fs s) p"

definition put_node :: "string \<Rightarrow> node \<Rightarrow> 'k host \<Rightarrow> 'k host" where
  "put_node p n s = s\<lparr>h_fs := AList.update p n (h_fs s)\<rparr>"

definition drop_node :: "string \<Rightarrow> 'k host \<Rightarrow> 'k host" where
  "drop_node p s = s\<lparr>h_fs := AList.delete p (h_fs s)\<rparr>"

text \<open>\<open>exists\<close> follows a symbolic link.\<close>

definition path_exists :: "'k upgrade_world \<Rightarrow> string \<Rightarrow> 'k host \<Rightarrow> bool" where
  "path_exists w p s \<longleftrightarrow> (case node_at p s of None \<Rightarrow> False | Some (Symlink t) \<Rightarrow> uw_live w (h_fs s) t | Some _ \<Rightarrow> True)"

definition file_at :: "string \<Rightarrow> fs \<Rightarrow> bool" where
  "file_at path f \<longleftrightarrow> list_ex (\<lambda>(p, n). case n of File c \<Rightarrow> p = path | Dir es \<Rightarrow> list_ex (\<lambda>(rel, c). p @ ''/'' @ rel = path) es | Symlink t \<Rightarrow> False) f"

section \<open>Operations\<close>

text \<open>An operation that may fail; \<open>broken\<close> is what it leaves then.\<close>

definition fallible :: "'k upgrade_world \<Rightarrow> string \<Rightarrow> string \<Rightarrow> ('k host \<Rightarrow> 'k host) \<Rightarrow> ('k host, 'a) stact \<Rightarrow> ('k host, 'a) stact" where
  "fallible w nm p broken m s = (case uw_op w nm p (h_ext s) of
     (None, k) \<Rightarrow> m (s\<lparr>h_ext := k\<rparr>)
   | (Some e, k) \<Rightarrow> throw e (broken (s\<lparr>h_ext := k\<rparr>)))"

definition left_behind :: "'k upgrade_world \<Rightarrow> string \<Rightarrow> 'k host \<Rightarrow> 'k host" where
  "left_behind w p s = (case uw_partial w p (h_ext s) of None \<Rightarrow> s | Some n \<Rightarrow> put_node p n s)"

text \<open>\<open>os.replace\<close>: a directory only replaces an empty one, another file only what is no directory.\<close>

definition may_replace :: "node \<Rightarrow> node option \<Rightarrow> bool" where
  "may_replace n d \<longleftrightarrow> (case d of None \<Rightarrow> True
     | Some (Dir es) \<Rightarrow> (case n of Dir _ \<Rightarrow> es = [] | _ \<Rightarrow> False)
     | Some _ \<Rightarrow> (case n of Dir _ \<Rightarrow> False | _ \<Rightarrow> True))"

definition os_replace :: "'k upgrade_world \<Rightarrow> string \<Rightarrow> string \<Rightarrow> ('k host, unit) stact" where
  "os_replace w src dst = fallible w ''replace'' src id (\<lambda>s. case node_at src s of
     None \<Rightarrow> throw (FileNotFoundError src) s
   | Some n \<Rightarrow> if may_replace n (node_at dst s) then ret () (put_node dst n (drop_node src s)) else throw (OSError dst) s)"

definition copy_tree :: "'k upgrade_world \<Rightarrow> string \<Rightarrow> (string \<times> string) list \<Rightarrow> ('k host, unit) stact" where
  "copy_tree w dst es = (\<lambda>s. if node_at dst s \<noteq> None then throw (OSError dst) s
     else fallible w ''copytree'' dst (left_behind w dst) (\<lambda>s. ret () (put_node dst (Dir es) s)) s)"

definition copytree :: "'k upgrade_world \<Rightarrow> string \<Rightarrow> string \<Rightarrow> ('k host, unit) stact" where
  "copytree w src dst = (\<lambda>s. case node_at src s of Some (Dir es) \<Rightarrow> copy_tree w dst es s | _ \<Rightarrow> throw (OSError src) s)"

definition symlink_to :: "'k upgrade_world \<Rightarrow> string \<Rightarrow> string \<Rightarrow> ('k host, unit) stact" where
  "symlink_to w p t = fallible w ''symlink'' p id (\<lambda>s. if node_at p s \<noteq> None then throw (OSError p) s else ret () (put_node p (Symlink t) s))"

definition mkdir_parent :: "'k upgrade_world \<Rightarrow> string \<Rightarrow> ('k host, unit) stact" where
  "mkdir_parent w p = fallible w ''mkdir'' p id (ret ())"

text \<open>\<open>rmtree\<close> ignores errors.\<close>

definition remove_path :: "'k upgrade_world \<Rightarrow> string \<Rightarrow> ('k host, unit) stact" where
  "remove_path w p s = (case node_at p s of
     None \<Rightarrow> ret () s
   | Some (Dir es) \<Rightarrow> handle (fallible w ''rmtree'' p (left_behind w p) (\<lambda>s. ret () (drop_node p s))) (\<lambda>_. ret ()) s
   | Some _ \<Rightarrow> fallible w ''unlink'' p id (\<lambda>s. ret () (drop_node p s)) s)"

datatype copy_kind = SMissing | SLink string | SDir "(string \<times> string) list" | SFile string

record path_copy =
  pc_path :: string
  pc_name :: string
  pc_kind :: copy_kind

definition snapshot_path :: "'k upgrade_world \<Rightarrow> string \<Rightarrow> string \<Rightarrow> ('k host, path_copy) stact" where
  "snapshot_path w p nm s = (case node_at p s of
     None \<Rightarrow> ret \<lparr>pc_path = p, pc_name = nm, pc_kind = SMissing\<rparr> s
   | Some (Symlink t) \<Rightarrow> ret \<lparr>pc_path = p, pc_name = nm, pc_kind = SLink t\<rparr> s
   | Some (Dir es) \<Rightarrow> fallible w ''snapshot'' p id (ret \<lparr>pc_path = p, pc_name = nm, pc_kind = SDir es\<rparr>) s
   | Some (File c) \<Rightarrow> fallible w ''snapshot'' p id (ret \<lparr>pc_path = p, pc_name = nm, pc_kind = SFile c\<rparr>) s)"

text \<open>A file copied to the path of a directory goes into it.\<close>

definition copy_file :: "'k upgrade_world \<Rightarrow> string \<Rightarrow> string \<Rightarrow> string \<Rightarrow> ('k host, unit) stact" where
  "copy_file w p nm c = fallible w ''copy'' p id (\<lambda>s. ret () (put_node p (case node_at p s of Some (Dir es) \<Rightarrow> Dir (AList.update nm c es) | _ \<Rightarrow> File c) s))"

definition restore_path :: "'k upgrade_world \<Rightarrow> path_copy \<Rightarrow> ('k host, unit) stact" where
  "restore_path w r = andthen (remove_path w (pc_path r)) (\<lambda>_. case pc_kind r of
     SMissing \<Rightarrow> ret ()
   | SLink t \<Rightarrow> andthen (mkdir_parent w (pc_path r)) (\<lambda>_. symlink_to w (pc_path r) t)
   | SDir es \<Rightarrow> copy_tree w (pc_path r) es
   | SFile c \<Rightarrow> andthen (mkdir_parent w (pc_path r)) (\<lambda>_. copy_file w (pc_path r) (pc_name r) c))"

section \<open>The switch\<close>

definition install_prefix :: string where "install_prefix = ''/opt/openvpn''"

definition unit_file :: string where "unit_file = ''/etc/systemd/system/openvpn-server@.service''"

definition override_dir :: string where "override_dir = ''/etc/systemd/system/openvpn-server@.service.d''"

definition cli_link :: string where "cli_link = ''/usr/local/sbin/openvpn''"

definition outside :: "('k, 'a) stact \<Rightarrow> ('k host, 'a) stact" where
  "outside m s = (case m (h_ext s) of None \<Rightarrow> None | Some (r, k) \<Rightarrow> Some (r, s\<lparr>h_ext := k\<rparr>))"

definition of_outcome :: "('k \<Rightarrow> 'a res \<times> 'k) \<Rightarrow> ('k, 'a) stact" where
  "of_outcome f k = Some (f k)"

definition preflight_stage :: "'k upgrade_world \<Rightarrow> string \<Rightarrow> ('k host, bool) stact" where
  "preflight_stage w binary s = outside (\<lambda>k. preflight_upgrade_candidate (uw_trial w) (file_at binary (h_fs s)) binary (uw_confs w k) k) s"

fun running :: "'k systemctl \<Rightarrow> string list \<Rightarrow> ('k, string list) stact" where
  "running ctl [] = ret []"
| "running ctl (nm # nms) = (\<lambda>k. case is_instance_active ctl nm k of (up, k') \<Rightarrow>
     andthen (running ctl nms) (\<lambda>rest. ret (if up then nm # rest else rest)) k')"

definition restart_or_fail :: "'k upgrade_world \<Rightarrow> string \<Rightarrow> ('k host, unit) stact" where
  "restart_or_fail w nm = andthen (outside (of_outcome (uw_restart w nm))) (\<lambda>code. if code \<noteq> 0 then throw (RuntimeError nm) else ret ())"

definition install_systemd :: "'k upgrade_world \<Rightarrow> stage \<Rightarrow> ('k host, unit) stact" where
  "install_systemd w sg s = (case uw_install w sg (h_ext s, h_fs s) of (r, k, f) \<Rightarrow> Some (r, s\<lparr>h_ext := k, h_fs := f\<rparr>))"

definition move_prefix :: "'k upgrade_world \<Rightarrow> bool \<Rightarrow> ('k host, unit) stact" where
  "move_prefix w prefix_existed = (if \<not> prefix_existed then ret ()
     else andthen (os_replace w install_prefix (uw_old w)) (\<lambda>_ s. ret () (s\<lparr>h_moved := True\<rparr>)))"

definition remove_old :: "'k upgrade_world \<Rightarrow> ('k host, unit) stact" where
  "remove_old w s = (if node_at (uw_old w) s \<noteq> None then remove_path w (uw_old w) s else ret () s)"

definition switch_over :: "'k upgrade_world \<Rightarrow> stage \<Rightarrow> bool \<Rightarrow> string list \<Rightarrow> ('k host, unit) stact" where
  "switch_over w sg prefix_existed active =
     andthen (copytree w (sg_prefix sg) (uw_new w)) (\<lambda>_.
     andthen (move_prefix w prefix_existed) (\<lambda>_.
     andthen (andthen (os_replace w (uw_new w) install_prefix) (\<lambda>_ s. ret () (s\<lparr>h_installed := True\<rparr>))) (\<lambda>_.
     andthen (mkdir_parent w cli_link) (\<lambda>_.
     andthen (remove_path w cli_link) (\<lambda>_.
     andthen (symlink_to w cli_link (install_prefix @ ''/sbin/openvpn'')) (\<lambda>_.
     andthen (install_systemd w sg) (\<lambda>_.
     andthen (for_each (restart_or_fail w) active) (\<lambda>_.
     andthen (preflight_stage w (install_prefix @ ''/sbin/openvpn'')) (\<lambda>ok.
     if \<not> ok then throw (RuntimeError ''postflight'')
     else andthen (outside (running (uw_ctl w) active)) (\<lambda>up.
     if up \<noteq> active then throw (RuntimeError ''instances down'')
     else remove_old w))))))))))"

definition roll_back :: "'k upgrade_world \<Rightarrow> bool \<Rightarrow> path_copy list \<Rightarrow> string list \<Rightarrow> ('k host, unit) stact" where
  "roll_back w prefix_existed snapshots active =
     andthen (remove_path w (uw_new w)) (\<lambda>_.
     andthen (\<lambda>s. if h_installed s then remove_path w install_prefix s else ret () s) (\<lambda>_.
     andthen (\<lambda>s. if h_moved s \<and> path_exists w (uw_old w) s then os_replace w (uw_old w) install_prefix s
        else if \<not> prefix_existed then remove_path w install_prefix s else ret () s) (\<lambda>_.
     andthen (for_each (restore_path w) snapshots) (\<lambda>_.
     andthen (outside (of_outcome (uw_restart w []))) (\<lambda>_.
     for_each (\<lambda>nm. andthen (outside (of_outcome (uw_restart w nm))) (\<lambda>_. ret ())) active)))))"

record upgrade_result =
  ur_version :: string
  ur_backup :: string
  ur_active :: "string list"

text \<open>Everything before the \<open>try\<close>: the backup, the running instances and the copies for the rollback.\<close>

definition prepare_switch :: "'k upgrade_world \<Rightarrow> stage \<Rightarrow> ('k host, string \<times> string list \<times> path_copy list) stact" where
  "prepare_switch w sg =
     andthen (preflight_stage w (sg_binary sg)) (\<lambda>ok.
     if \<not> ok then throw (RuntimeError ''preflight'')
     else andthen (outside (of_outcome (uw_backup w (''openvpn-upgrade-'' @ sg_version sg)))) (\<lambda>backup_file.
     andthen (outside (running (uw_ctl w) (uw_instances w))) (\<lambda>active.
     andthen (fallible w ''mkdtemp'' [] id (ret ())) (\<lambda>_.
     andthen (snapshot_path w unit_file ''openvpn-server.service'') (\<lambda>c1.
     andthen (snapshot_path w override_dir ''openvpn-server.service.d'') (\<lambda>c2.
     andthen (snapshot_path w cli_link ''openvpn-cli-link'') (\<lambda>c3. ret (backup_file, active, [c1, c2, c3]))))))))"

definition guarded_switch :: "'k upgrade_world \<Rightarrow> stage \<Rightarrow> string \<Rightarrow> string list \<Rightarrow> path_copy list \<Rightarrow> ('k host, upgrade_result) stact" where
  "guarded_switch w sg backup_file active snapshots s = (let prefix_existed = (node_at install_prefix s \<noteq> None) in
     at_end (handle (andthen (switch_over w sg prefix_existed active) (\<lambda>_.
          ret \<lparr>ur_version = sg_version sg, ur_backup = backup_file, ur_active = active\<rparr>))
        (\<lambda>e. andthen (roll_back w prefix_existed snapshots active) (\<lambda>_. throw e)))
       (andthen (remove_path w (uw_new w)) (\<lambda>_. remove_old w)) (s\<lparr>h_moved := False, h_installed := False\<rparr>))"

definition apply_staged_upgrade :: "'k upgrade_world \<Rightarrow> stage \<Rightarrow> ('k host, upgrade_result) stact" where
  "apply_staged_upgrade w sg = andthen (prepare_switch w sg) (\<lambda>(backup_file, active, snapshots). guarded_switch w sg backup_file active snapshots)"

section \<open>Cleaning up\<close>

definition cleanup_staged_candidate :: "'k upgrade_world \<Rightarrow> string \<Rightarrow> string \<Rightarrow> ('k host, unit) stact" where
  "cleanup_staged_candidate w root base = (\<lambda>s. case node_at root s of
     Some (Dir es) \<Rightarrow> if starts_with base ''nicevpn-openvpn-upgrade-'' then remove_path w root s else ret () s
   | _ \<Rightarrow> ret () s)"

end
