(* ===== verification/Upgrade_Props.thy ===== *)
theory Upgrade_Props
  imports Upgrade Ccd_Props Returns
begin

text \<open>
  The upgrade of OpenVPN: the configurations of the trial have no side effects of the running server, and a
  switch that fails leaves every path of the file system as it was.
\<close>

section \<open>Assumptions about the file system\<close>

text \<open>Copying the candidate, moving directories, and copying for the rollback may fail; removing, linking and copying back do not.\<close>

definition reliable :: "'k upgrade_world \<Rightarrow> bool" where
  "reliable w \<longleftrightarrow> (\<forall>nm p k. fst (uw_op w nm p k) = None \<or> nm \<in> {''snapshot'', ''mkdtemp''} \<or>
     (nm, p) \<in> {(''copytree'', uw_new w), (''replace'', install_prefix), (''replace'', uw_new w)})"

definition fresh_paths :: "'k upgrade_world \<Rightarrow> bool" where
  "fresh_paths w \<longleftrightarrow> distinct [uw_new w, uw_old w, install_prefix, unit_file, override_dir, cli_link]"

text \<open>The script of systemd writes the unit and its override only.\<close>

definition script_law :: "'k upgrade_world \<Rightarrow> bool" where
  "script_law w \<longleftrightarrow> (\<forall>sg k f r k' f' p. uw_install w sg (k, f) = (r, k', f') \<longrightarrow> p \<notin> {unit_file, override_dir} \<longrightarrow> map_of f' p = map_of f p)"

section \<open>Operations\<close>

text \<open>What an action changes besides the state outside: the file system at one place, or nothing.\<close>

definition view :: "'k host \<Rightarrow> (string \<Rightarrow> node option) \<times> bool \<times> bool" where
  "view s = (map_of (h_fs s), h_moved s, h_installed s)"

lemma node_at_simps [simp]:
  "map_of (h_fs (put_node p n s)) = (map_of (h_fs s))(p \<mapsto> n)" "map_of (h_fs (drop_node p s)) = (map_of (h_fs s))(p := None)"
  "h_moved (put_node p n s) = h_moved s" "h_installed (put_node p n s) = h_installed s"
  "h_moved (drop_node p s) = h_moved s" "h_installed (drop_node p s) = h_installed s"
  "h_ext (put_node p n s) = h_ext s" "h_ext (drop_node p s) = h_ext s"
  by (simp_all add: put_node_def drop_node_def update_conv' delete_conv')

lemma reliableD: "reliable w \<Longrightarrow> nm \<notin> {''snapshot'', ''mkdtemp'', ''replace''} \<Longrightarrow> nm \<noteq> ''copytree'' \<or> p \<noteq> uw_new w \<Longrightarrow> \<exists>k'. uw_op w nm p k = (None, k')"
  unfolding reliable_def by (metis insert_iff empty_iff prod.collapse prod.inject)

lemma fallible_reliable:
  assumes "reliable w" "nm \<notin> {''snapshot'', ''mkdtemp'', ''replace''}" "nm \<noteq> ''copytree'' \<or> p \<noteq> uw_new w"
  shows "\<exists>k'. fallible w nm p broken m s = m (s\<lparr>h_ext := k'\<rparr>)"
  using reliableD [OF assms, of "h_ext s"] by (auto simp: fallible_def)

lemma remove_path_removes:
  assumes "reliable w"
  shows "\<exists>s'. remove_path w p s = Some (Inr (), s') \<and> view s' = ((map_of (h_fs s))(p := None), h_moved s, h_installed s)"
proof (cases "map_of (h_fs s) p")
  case None
  then show ?thesis by (auto simp: remove_path_def node_at_def ret_def view_def fun_upd_idem_iff)
next
  case (Some n)
  show ?thesis
  proof (cases "\<exists>es. n = Dir es")
    case True
    then obtain es where n: "n = Dir es" by blast
    have "''rmtree'' \<notin> {''snapshot'', ''mkdtemp'', ''replace''}" "''rmtree'' \<noteq> ''copytree'' \<or> p \<noteq> uw_new w" by simp_all
    then obtain k where "fallible w ''rmtree'' p (left_behind w p) (\<lambda>s. ret () (drop_node p s)) s = ret () (drop_node p (s\<lparr>h_ext := k\<rparr>))"
      using fallible_reliable [OF assms, of "''rmtree''" p "left_behind w p" "\<lambda>s. ret () (drop_node p s)" s] by auto
    then show ?thesis using n Some by (auto simp: remove_path_def node_at_def handle_def ret_def view_def)
  next
    case False
    have "''unlink'' \<notin> {''snapshot'', ''mkdtemp'', ''replace''}" "''unlink'' \<noteq> ''copytree'' \<or> p \<noteq> uw_new w" by simp_all
    then obtain k where "fallible w ''unlink'' p id (\<lambda>s. ret () (drop_node p s)) s = ret () (drop_node p (s\<lparr>h_ext := k\<rparr>))"
      using fallible_reliable [OF assms, of "''unlink''" p id "\<lambda>s. ret () (drop_node p s)" s] by auto
    then show ?thesis using False Some by (cases n) (auto simp: remove_path_def node_at_def ret_def view_def)
  qed
qed

text \<open>What a snapshot stands for.\<close>

definition kind_node :: "copy_kind \<Rightarrow> node option" where
  "kind_node c = (case c of SMissing \<Rightarrow> None | SLink t \<Rightarrow> Some (Symlink t) | SDir es \<Rightarrow> Some (Dir es) | SFile c \<Rightarrow> Some (File c))"

lemma restore_path_restores:
  assumes "reliable w" "pc_path r \<noteq> uw_new w"
  shows "\<exists>s'. restore_path w r s = Some (Inr (), s') \<and> view s' = ((map_of (h_fs s))(pc_path r := kind_node (pc_kind r)), h_moved s, h_installed s)"
proof -
  let ?p = "pc_path r"
  obtain s1 where s1: "remove_path w ?p s = Some (Inr (), s1)" "view s1 = ((map_of (h_fs s))(?p := None), h_moved s, h_installed s)"
    using remove_path_removes [OF assms(1)] by blast
  have op: "\<exists>k. uw_op w nm ?p e = (None, k)" if "nm \<in> {''mkdir'', ''symlink'', ''copytree'', ''copy''}" for nm e
    using reliableD [OF assms(1), of nm ?p e] that assms(2) by auto
  show ?thesis
  proof (cases "pc_kind r")
    case SMissing
    then show ?thesis using s1 by (simp add: restore_path_def andthen_def ret_def kind_node_def)
  next
    case (SLink t)
    obtain k1 where k1: "uw_op w ''mkdir'' ?p (h_ext s1) = (None, k1)" using op by blast
    obtain k2 where k2: "uw_op w ''symlink'' ?p k1 = (None, k2)" using op by blast
    show ?thesis using s1 k1 k2 SLink
      by (auto simp: restore_path_def andthen_def ret_def kind_node_def mkdir_parent_def symlink_to_def fallible_def view_def node_at_def)
  next
    case (SDir es)
    obtain k1 where k1: "uw_op w ''copytree'' ?p (h_ext s1) = (None, k1)" using op by blast
    show ?thesis using s1 k1 SDir
      by (auto simp: restore_path_def andthen_def ret_def kind_node_def copy_tree_def fallible_def view_def node_at_def)
  next
    case (SFile c)
    obtain k1 where k1: "uw_op w ''mkdir'' ?p (h_ext s1) = (None, k1)" using op by blast
    obtain k2 where k2: "uw_op w ''copy'' ?p k1 = (None, k2)" using op by blast
    show ?thesis using s1 k1 k2 SFile
      by (auto simp: restore_path_def andthen_def ret_def kind_node_def mkdir_parent_def copy_file_def fallible_def view_def node_at_def)
  qed
qed

lemma snapshot_pathD:
  "snapshot_path w p nm s = Some (Inr c, s') \<Longrightarrow> pc_path c = p \<and> kind_node (pc_kind c) = map_of (h_fs s) p \<and> view s' = view s"
  by (auto simp: snapshot_path_def fallible_def ret_def throw_def kind_node_def node_at_def view_def split: option.splits node.splits prod.splits)

lemma snapshot_path_fs: "snapshot_path w p nm s = Some (r, s') \<Longrightarrow> view s' = view s"
  by (auto simp: snapshot_path_def fallible_def ret_def throw_def view_def split: option.splits node.splits prod.splits)

lemma outside_view: "outside m s = Some (r, s') \<Longrightarrow> view s' = view s"
  by (auto simp: outside_def view_def split: option.splits)

lemma preflight_stage_view: "preflight_stage w b s = Some (r, s') \<Longrightarrow> view s' = view s"
  unfolding preflight_stage_def by (rule outside_view)

section \<open>The switch half way\<close>

text \<open>What holds while the switch runs, for the file system \<open>V\<close> it started with: the old tree is in its place or
  moved aside, and nothing else changed but the new tree, the link and the unit.\<close>

definition mid :: "'k upgrade_world \<Rightarrow> (string \<Rightarrow> node option) \<Rightarrow> 'k host \<Rightarrow> bool" where
  "mid w V s \<longleftrightarrow> (\<forall>p. p \<notin> {install_prefix, uw_new w, uw_old w, unit_file, override_dir, cli_link} \<longrightarrow> map_of (h_fs s) p = V p) \<and>
     (if h_moved s then V install_prefix \<noteq> None \<and> map_of (h_fs s) (uw_old w) = V install_prefix \<and> (h_installed s \<or> map_of (h_fs s) install_prefix = None)
      else map_of (h_fs s) (uw_old w) = None \<and> (if h_installed s then V install_prefix = None else map_of (h_fs s) install_prefix = V install_prefix))"

lemma mid_view: "view s' = view s \<Longrightarrow> mid w V s' = mid w V s"
  by (simp add: mid_def view_def)

interpretation mid_frame: step_frame "\<lambda>s s'. mid w V s \<longrightarrow> mid w V s'" for w V
  by unfold_locales auto

text \<open>An action that leaves \<open>mid\<close> when it fails.\<close>

definition fails_mid :: "'k upgrade_world \<Rightarrow> (string \<Rightarrow> node option) \<Rightarrow> ('k host, 'a) stact \<Rightarrow> bool" where
  "fails_mid w V m \<longleftrightarrow> (\<forall>s e s'. mid w V s \<longrightarrow> m s = Some (Inl e, s') \<longrightarrow> mid w V s')"

lemma fails_mid_andthen: "keeps (\<lambda>s s'. mid w V s \<longrightarrow> mid w V s') m \<Longrightarrow> (\<And>x. fails_mid w V (f x)) \<Longrightarrow> fails_mid w V (andthen m f)"
  unfolding fails_mid_def keeps_def andthen_Some_iff by (metis sum.inject(1))

lemma keeps_fails_mid: "keeps (\<lambda>s s'. mid w V s \<longrightarrow> mid w V s') m \<Longrightarrow> fails_mid w V m"
  by (auto simp: keeps_def fails_mid_def)

lemma view_keeps: "(\<And>s r s'. m s = Some (r, s') \<Longrightarrow> view s' = view s) \<Longrightarrow> keeps (\<lambda>s s'. mid w V s \<longrightarrow> mid w V s') m"
  unfolding keeps_def by (metis mid_view)

lemma keeps_at:
  assumes "\<And>s r s'. m s = Some (r, s') \<Longrightarrow> h_moved s' = h_moved s \<and> h_installed s' = h_installed s \<and> (\<forall>p. p \<notin> A \<longrightarrow> map_of (h_fs s') p = map_of (h_fs s) p)"
    and "A \<subseteq> {uw_new w, unit_file, override_dir, cli_link}" "fresh_paths w"
  shows "keeps (\<lambda>s s'. mid w V s \<longrightarrow> mid w V s') m"
  unfolding keeps_def
proof (intro allI impI)
  fix s r s' assume run: "m s = Some (r, s')" and M: "mid w V s"
  have old: "uw_old w \<notin> A" "install_prefix \<notin> A" using assms(2,3) unfolding fresh_paths_def by auto
  have rest: "p \<notin> {install_prefix, uw_new w, uw_old w, unit_file, override_dir, cli_link} \<Longrightarrow> p \<notin> A" for p using assms(2) by auto
  note c = assms(1) [OF run]
  have "map_of (h_fs s') (uw_old w) = map_of (h_fs s) (uw_old w)" "map_of (h_fs s') install_prefix = map_of (h_fs s) install_prefix"
    using c old by simp_all
  then show "mid w V s'" using M c rest unfolding mid_def by auto
qed

lemma copy_tree_at: "copy_tree w dst es s = Some (r, s') \<Longrightarrow> h_moved s' = h_moved s \<and> h_installed s' = h_installed s \<and> (\<forall>p. p \<notin> {dst} \<longrightarrow> map_of (h_fs s') p = map_of (h_fs s) p)"
  by (auto simp: copy_tree_def fallible_def throw_def ret_def left_behind_def split: if_splits prod.splits option.splits)

lemma copytree_at: "copytree w src dst s = Some (r, s') \<Longrightarrow> h_moved s' = h_moved s \<and> h_installed s' = h_installed s \<and> (\<forall>p. p \<notin> {dst} \<longrightarrow> map_of (h_fs s') p = map_of (h_fs s) p)"
  using copy_tree_at [of w dst] by (fastforce simp: copytree_def throw_def split: option.splits node.splits)

lemma symlink_to_at: "symlink_to w p t s = Some (r, s') \<Longrightarrow> h_moved s' = h_moved s \<and> h_installed s' = h_installed s \<and> (\<forall>q. q \<notin> {p} \<longrightarrow> map_of (h_fs s') q = map_of (h_fs s) q)"
  by (auto simp: symlink_to_def fallible_def throw_def ret_def split: if_splits prod.splits option.splits)

lemma mkdir_parent_at: "mkdir_parent w p s = Some (r, s') \<Longrightarrow> view s' = view s"
  by (auto simp: mkdir_parent_def fallible_def throw_def ret_def view_def split: prod.splits option.splits)

lemma remove_path_at:
  assumes "reliable w" "remove_path w p s = Some (r, s')"
  shows "h_moved s' = h_moved s \<and> h_installed s' = h_installed s \<and> (\<forall>q. q \<notin> {p} \<longrightarrow> map_of (h_fs s') q = map_of (h_fs s) q)"
  using remove_path_removes [OF assms(1), of p s] assms(2) by (auto simp: view_def)

lemma install_systemd_at: "script_law w \<Longrightarrow> install_systemd w sg s = Some (r, s') \<Longrightarrow>
   h_moved s' = h_moved s \<and> h_installed s' = h_installed s \<and> (\<forall>q. q \<notin> {unit_file, override_dir} \<longrightarrow> map_of (h_fs s') q = map_of (h_fs s) q)"
  unfolding script_law_def install_systemd_def by (auto split: prod.splits)

lemma restart_view: "restart_or_fail w nm s = Some (r, s') \<Longrightarrow> view s' = view s"
  by (auto simp: restart_or_fail_def andthen_Some_iff throw_def ret_def split: if_splits dest!: outside_view)

interpretation view_frame: step_frame "\<lambda>s s'. view s' = view s"
  by unfold_locales auto

lemma if_keeps_view: "keeps (\<lambda>s s'. view s' = view s) a \<Longrightarrow> keeps (\<lambda>s s'. view s' = view s) b \<Longrightarrow> keeps (\<lambda>s s'. view s' = view s) (if c then a else b)"
  by simp

lemma for_each_view:
  assumes "\<And>x s r s'. f x s = Some (r, s') \<Longrightarrow> view s' = view s" "for_each f xs s = Some (r, s')"
  shows "view s' = view s"
proof -
  have "keeps (\<lambda>s s'. view s' = view s) (for_each f xs)"
    by (rule view_frame.for_each_keeps) (use assms(1) in \<open>auto simp: keeps_def\<close>)
  then show ?thesis using assms(2) by (rule keepsD)
qed

lemma remove_old_succeeds: "reliable w \<Longrightarrow> \<exists>s'. remove_old w s = Some (Inr (), s') \<and> view s' = ((map_of (h_fs s))(uw_old w := None), h_moved s, h_installed s)"
  using remove_path_removes [of w "uw_old w" s] by (auto simp: remove_old_def node_at_def ret_def view_def fun_upd_idem_iff)

text \<open>The first three steps.\<close>

lemma move_prefix_mid:
  assumes "mid w V s" "\<not> h_moved s" "\<not> h_installed s" "move_prefix w pe s = Some (r, s')" "pe \<longleftrightarrow> V install_prefix \<noteq> None" "fresh_paths w"
  shows "mid w V s' \<and> \<not> h_installed s' \<and> (r = Inr () \<longrightarrow> h_moved s' \<or> V install_prefix = None)"
proof (cases pe)
  case False
  then show ?thesis using assms by (auto simp: move_prefix_def ret_def)
next
  case True
  have ne: "uw_old w \<noteq> install_prefix" using assms(6) by (auto simp: fresh_paths_def)
  obtain f k where op: "uw_op w ''replace'' install_prefix (h_ext s) = (f, k)" by fastforce
  obtain n where n: "map_of (h_fs s) install_prefix = Some n" "V install_prefix = Some n" "map_of (h_fs s) (uw_old w) = None"
    using assms True by (auto simp: mid_def)
  show ?thesis
  proof (cases f)
    case None
    then have "s' = (put_node (uw_old w) n (drop_node install_prefix (s\<lparr>h_ext := k\<rparr>)))\<lparr>h_moved := True\<rparr>" "r = Inr ()"
      using assms(4) True op n by (auto simp: move_prefix_def os_replace_def fallible_def andthen_def ret_def node_at_def may_replace_def)
    then show ?thesis using assms(1,3) n ne by (auto simp: mid_def)
  next
    case (Some e)
    then have "s' = s\<lparr>h_ext := k\<rparr>" "r = Inl e" using assms(4) True op by (auto simp: move_prefix_def os_replace_def fallible_def andthen_def throw_def)
    then show ?thesis using assms by (auto simp: mid_def)
  qed
qed

definition place_new :: "'k upgrade_world \<Rightarrow> ('k host, unit) stact" where
  "place_new w = andthen (os_replace w (uw_new w) install_prefix) (\<lambda>_ s. ret () (s\<lparr>h_installed := True\<rparr>))"

lemma place_new_mid:
  assumes "mid w V s" "\<not> h_installed s" "h_moved s \<or> V install_prefix = None" "place_new w s = Some (r, s')" "fresh_paths w"
  shows "mid w V s' \<and> (r = Inr () \<longrightarrow> (map_of (h_fs s')) = (map_of (h_fs s))(uw_new w := None, install_prefix := map_of (h_fs s) (uw_new w)) \<and> map_of (h_fs s) (uw_new w) \<noteq> None)"
proof -
  obtain f k where op: "uw_op w ''replace'' (uw_new w) (h_ext s) = (f, k)" by fastforce
  have none: "map_of (h_fs s) install_prefix = None" using assms(1,2,3) by (auto simp: mid_def split: if_splits)
  have ne: "uw_old w \<noteq> install_prefix" "uw_new w \<noteq> install_prefix" "uw_old w \<noteq> uw_new w" using assms(5) by (auto simp: fresh_paths_def)
  show ?thesis
  proof (cases f)
    case (Some e)
    then have "s' = s\<lparr>h_ext := k\<rparr>" "r = Inl e" using assms(4) op by (auto simp: place_new_def os_replace_def fallible_def andthen_def throw_def)
    then show ?thesis using assms by (auto simp: mid_def)
  next
    case None
    show ?thesis
    proof (cases "map_of (h_fs s) (uw_new w)")
      case new: None
      then have "s' = s\<lparr>h_ext := k\<rparr>" "\<exists>e. r = Inl e" using assms(4) op None by (auto simp: place_new_def os_replace_def fallible_def andthen_def throw_def node_at_def)
      then show ?thesis using assms by (auto simp: mid_def)
    next
      case (Some n)
      then have "s' = (put_node install_prefix n (drop_node (uw_new w) (s\<lparr>h_ext := k\<rparr>)))\<lparr>h_installed := True\<rparr>"
        using assms(4) op None none by (auto simp: place_new_def os_replace_def fallible_def andthen_def ret_def node_at_def may_replace_def)
      then show ?thesis using assms(1,2,3) ne Some by (auto simp: mid_def)
    qed
  qed
qed

text \<open>The steps after the new tree is in its place.\<close>

definition finish :: "'k upgrade_world \<Rightarrow> stage \<Rightarrow> string list \<Rightarrow> ('k host, unit) stact" where
  "finish w sg active = andthen (mkdir_parent w cli_link) (\<lambda>_.
     andthen (remove_path w cli_link) (\<lambda>_.
     andthen (symlink_to w cli_link (install_prefix @ ''/sbin/openvpn'')) (\<lambda>_.
     andthen (install_systemd w sg) (\<lambda>_.
     andthen (for_each (restart_or_fail w) active) (\<lambda>_.
     andthen (preflight_stage w (install_prefix @ ''/sbin/openvpn'')) (\<lambda>ok.
     if \<not> ok then throw (RuntimeError ''postflight'')
     else andthen (outside (running (uw_ctl w) active)) (\<lambda>up.
     if up \<noteq> active then throw (RuntimeError ''instances down'')
     else remove_old w)))))))"

lemma switch_over_eq: "switch_over w sg pe active = andthen (copytree w (sg_prefix sg) (uw_new w)) (\<lambda>_.
   andthen (move_prefix w pe) (\<lambda>_. andthen (place_new w) (\<lambda>_. finish w sg active)))"
  by (simp add: switch_over_def finish_def place_new_def)

lemma finish_fails:
  assumes "reliable w" "script_law w" "fresh_paths w"
  shows "fails_mid w V (finish w sg active)"
  unfolding finish_def
proof (intro fails_mid_andthen)
  show "keeps (\<lambda>s s'. mid w V s \<longrightarrow> mid w V s') (mkdir_parent w cli_link)" by (rule view_keeps) (rule mkdir_parent_at)
  show "keeps (\<lambda>s s'. mid w V s \<longrightarrow> mid w V s') (remove_path w cli_link)"
    by (rule keeps_at [OF remove_path_at [OF assms(1)] _ assms(3)]) auto
  show "keeps (\<lambda>s s'. mid w V s \<longrightarrow> mid w V s') (symlink_to w cli_link (install_prefix @ ''/sbin/openvpn''))"
    by (rule keeps_at [OF symlink_to_at _ assms(3)]) auto
  show "keeps (\<lambda>s s'. mid w V s \<longrightarrow> mid w V s') (install_systemd w sg)"
    by (rule keeps_at [OF install_systemd_at [OF assms(2)] _ assms(3)]) auto
  show "keeps (\<lambda>s s'. mid w V s \<longrightarrow> mid w V s') (for_each (restart_or_fail w) active)"
    by (rule view_keeps) (rule for_each_view [OF restart_view])
  show "keeps (\<lambda>s s'. mid w V s \<longrightarrow> mid w V s') (preflight_stage w (install_prefix @ ''/sbin/openvpn''))"
    by (rule view_keeps) (rule preflight_stage_view)
  have old: "fails_mid w V (remove_old w)" using remove_old_succeeds [OF assms(1)] unfolding fails_mid_def by (metis Inl_Inr_False option.inject prod.inject)
  have up: "fails_mid w V (andthen (outside (running (uw_ctl w) active)) (\<lambda>up. if up \<noteq> active then throw (RuntimeError ''instances down'') else remove_old w))"
    by (rule fails_mid_andthen, rule view_keeps, erule outside_view) (use old in \<open>auto simp: fails_mid_def throw_def\<close>)
  show "fails_mid w V (if \<not> ok then throw (RuntimeError ''postflight'') else andthen (outside (running (uw_ctl w) active)) (\<lambda>up.
     if up \<noteq> active then throw (RuntimeError ''instances down'') else remove_old w))" for ok
    using up by (auto simp: fails_mid_def throw_def)
qed

lemma switch_over_fails:
  assumes "reliable w" "script_law w" "fresh_paths w" "mid w V s" "\<not> h_moved s" "\<not> h_installed s" "pe \<longleftrightarrow> V install_prefix \<noteq> None"
    "switch_over w sg pe active s = Some (Inl e, t)"
  shows "mid w V t"
proof -
  have kc: "keeps (\<lambda>s s'. mid w V s \<longrightarrow> mid w V s') (copytree w (sg_prefix sg) (uw_new w))"
    by (rule keeps_at [OF copytree_at _ assms(3)]) auto
  have cp: "mid w V s1 \<and> \<not> h_moved s1 \<and> \<not> h_installed s1" if "copytree w (sg_prefix sg) (uw_new w) s = Some (r, s1)" for r s1
    using keepsD [OF kc that] copytree_at [OF that] assms(4,5,6) by auto
  consider "copytree w (sg_prefix sg) (uw_new w) s = Some (Inl e, t)"
    | s1 where "copytree w (sg_prefix sg) (uw_new w) s = Some (Inr (), s1)" "move_prefix w pe s1 = Some (Inl e, t)"
    | s1 s2 where "copytree w (sg_prefix sg) (uw_new w) s = Some (Inr (), s1)" "move_prefix w pe s1 = Some (Inr (), s2)" "place_new w s2 = Some (Inl e, t)"
    | s1 s2 s3 where "copytree w (sg_prefix sg) (uw_new w) s = Some (Inr (), s1)" "move_prefix w pe s1 = Some (Inr (), s2)"
        "place_new w s2 = Some (Inr (), s3)" "finish w sg active s3 = Some (Inl e, t)"
    using assms(8) unfolding switch_over_eq andthen_Some_iff by auto
  then show ?thesis
  proof cases
    case 1
    then show ?thesis using cp by blast
  next
    case 2
    then show ?thesis using move_prefix_mid [where V = V, OF _ _ _ 2(2) assms(7,3)] cp [OF 2(1)] by simp
  next
    case 3
    then have "mid w V s2 \<and> \<not> h_installed s2 \<and> (h_moved s2 \<or> V install_prefix = None)" using move_prefix_mid [where V = V, OF _ _ _ 3(2) assms(7,3)] cp [OF 3(1)] by simp
    then show ?thesis using place_new_mid [where V = V, OF _ _ _ 3(3) assms(3)] by simp
  next
    case 4
    then have "mid w V s2 \<and> \<not> h_installed s2 \<and> (h_moved s2 \<or> V install_prefix = None)" using move_prefix_mid [where V = V, OF _ _ _ 4(2) assms(7,3)] cp [OF 4(1)] by simp
    then have "mid w V s3" using place_new_mid [where V = V, OF _ _ _ 4(3) assms(3)] by simp
    then show ?thesis using finish_fails [OF assms(1,2,3), of V sg active] 4(4) unfolding fails_mid_def by blast
  qed
qed

section \<open>The rollback\<close>

definition restored :: "path_copy list \<Rightarrow> (string \<Rightarrow> node option) \<Rightarrow> string \<Rightarrow> node option" where
  "restored cs f = fold (\<lambda>c g. g(pc_path c := kind_node (pc_kind c))) cs f"

lemma restore_all:
  "reliable w \<Longrightarrow> \<forall>c\<in>set cs. pc_path c \<noteq> uw_new w \<Longrightarrow>
   \<exists>s'. for_each (restore_path w) cs s = Some (Inr (), s') \<and> view s' = (restored cs (map_of (h_fs s)), h_moved s, h_installed s)"
proof (induction cs arbitrary: s)
  case (Cons c cs)
  obtain s1 where s1: "restore_path w c s = Some (Inr (), s1)" "view s1 = ((map_of (h_fs s))(pc_path c := kind_node (pc_kind c)), h_moved s, h_installed s)"
    using restore_path_restores [of w c s] Cons.prems by auto
  obtain s2 where "for_each (restore_path w) cs s1 = Some (Inr (), s2)" "view s2 = (restored cs (map_of (h_fs s1)), h_moved s1, h_installed s1)"
    using Cons.IH [of s1] Cons.prems by auto
  then show ?case using s1 by (auto simp: andthen_def view_def restored_def)
qed (simp add: ret_def view_def restored_def)

definition calls_only :: "'k upgrade_world \<Rightarrow> string list \<Rightarrow> ('k host, unit) stact" where
  "calls_only w active = andthen (outside (of_outcome (uw_restart w []))) (\<lambda>_.
     for_each (\<lambda>nm. andthen (outside (of_outcome (uw_restart w nm))) (\<lambda>_. ret ())) active)"

lemma calls_only_runs: "\<exists>r s'. calls_only w active s = Some (r, s') \<and> view s' = view s"
proof -
  have one: "\<exists>r s'. outside (of_outcome (uw_restart w nm)) s = Some (r, s') \<and> view s' = view s" for nm and s :: "'a host"
    by (cases "uw_restart w nm (h_ext s)") (simp add: outside_def of_outcome_def view_def)
  have each: "\<exists>r s'. for_each (\<lambda>nm. andthen (outside (of_outcome (uw_restart w nm))) (\<lambda>_. ret ())) active s = Some (r, s') \<and> view s' = view s" for s
  proof (induction active arbitrary: s)
    case (Cons nm nms)
    obtain r s1 where s1: "outside (of_outcome (uw_restart w nm)) s = Some (r, s1)" "view s1 = view s" using one by blast
    show ?case
    proof (cases r)
      case (Inl e)
      then show ?thesis using s1 by (simp add: andthen_def)
    next
      case (Inr x)
      then show ?thesis using s1 Cons.IH [of s1] by (simp add: andthen_def ret_def)
    qed
  qed (simp add: ret_def)
  obtain r s1 where s1: "outside (of_outcome (uw_restart w [])) s = Some (r, s1)" "view s1 = view s" using one by blast
  show ?thesis
  proof (cases r)
    case (Inl e)
    then show ?thesis using s1 by (simp add: calls_only_def andthen_def)
  next
    case (Inr x)
    then show ?thesis using s1 each [of s1] by (simp add: calls_only_def andthen_def)
  qed
qed

lemma roll_back_moves:
  assumes "reliable w" "fresh_paths w" "mid w V s" "V (uw_new w) = None" "V (uw_old w) = None" "pe \<longleftrightarrow> V install_prefix \<noteq> None"
    and "\<forall>t f. V install_prefix = Some (Symlink t) \<longrightarrow> uw_live w f t"
    and "map_of (h_fs s2) = (if h_installed s then (map_of (h_fs s))(uw_new w := None, install_prefix := None) else (map_of (h_fs s))(uw_new w := None))"
      "h_moved s2 = h_moved s"
  shows "\<exists>s3. (if h_moved s2 \<and> path_exists w (uw_old w) s2 then os_replace w (uw_old w) install_prefix s2 else if \<not> pe then remove_path w install_prefix s2 else ret () s2) =
      Some (Inr (), s3) \<and> (\<forall>p. p \<notin> {unit_file, override_dir, cli_link} \<longrightarrow> map_of (h_fs s3) p = V p)"
proof -
  have ne: "uw_new w \<noteq> uw_old w" "uw_new w \<noteq> install_prefix" "uw_old w \<noteq> install_prefix"
    "uw_old w \<notin> {unit_file, override_dir, cli_link}" "install_prefix \<notin> {unit_file, override_dir, cli_link}" using assms(2) by (auto simp: fresh_paths_def)
  have out: "map_of (h_fs s2) p = V p" if "p \<notin> {install_prefix, uw_old w, unit_file, override_dir, cli_link}" for p
    using that assms(3,4,8) by (auto simp: mid_def)
  show ?thesis
  proof (cases "h_moved s")
    case True
    obtain n where n: "V install_prefix = Some n" "map_of (h_fs s2) (uw_old w) = Some n" "map_of (h_fs s2) install_prefix = None"
      using assms(3) True assms(8) ne by (auto simp: mid_def split: if_splits)
    have "path_exists w (uw_old w) s2" using n assms(7) by (auto simp: path_exists_def node_at_def split: node.splits)
    moreover have "fst (uw_op w ''replace'' (uw_old w) (h_ext s2)) = None"
      using assms(1) [unfolded reliable_def, rule_format, of "''replace''" "uw_old w" "h_ext s2"] ne by auto
    then obtain k where "uw_op w ''replace'' (uw_old w) (h_ext s2) = (None, k)" by (cases "uw_op w ''replace'' (uw_old w) (h_ext s2)") auto
    ultimately have "(if h_moved s2 \<and> path_exists w (uw_old w) s2 then os_replace w (uw_old w) install_prefix s2 else if \<not> pe then remove_path w install_prefix s2 else ret () s2) =
        Some (Inr (), put_node install_prefix n (drop_node (uw_old w) (s2\<lparr>h_ext := k\<rparr>)))"
      using True assms(9) n by (simp add: os_replace_def fallible_def node_at_def may_replace_def ret_def)
    then show ?thesis using n ne out assms(5) by auto
  next
    case False
    have old: "map_of (h_fs s2) (uw_old w) = None" using assms(3) False assms(8) ne by (auto simp: mid_def)
    show ?thesis
    proof (cases pe)
      case True
      then have "map_of (h_fs s2) install_prefix = V install_prefix" using assms(3,6) False assms(8) ne by (auto simp: mid_def)
      then have "map_of (h_fs s2) p = V p" if "p \<notin> {unit_file, override_dir, cli_link}" for p using that out old assms(5) by (cases "p = install_prefix \<or> p = uw_old w") auto
      then show ?thesis using False True assms(9) by (auto simp: ret_def)
    next
      case no: False
      obtain s3 where s3: "remove_path w install_prefix s2 = Some (Inr (), s3)" "map_of (h_fs s3) = (map_of (h_fs s2))(install_prefix := None)"
        using remove_path_removes [OF assms(1), of install_prefix s2] by (auto simp: view_def)
      then have "map_of (h_fs s3) p = V p" if "p \<notin> {unit_file, override_dir, cli_link}" for p
        using that out old assms(5,6) no by (cases "p = install_prefix \<or> p = uw_old w") auto
      then show ?thesis using s3 False no assms(9) by auto
    qed
  qed
qed

lemma roll_back_restores:
  assumes "reliable w" "fresh_paths w" "mid w V s" "V (uw_new w) = None" "V (uw_old w) = None" "pe \<longleftrightarrow> V install_prefix \<noteq> None"
    and "\<forall>t f. V install_prefix = Some (Symlink t) \<longrightarrow> uw_live w f t"
    and "map pc_path cs = [unit_file, override_dir, cli_link]" "\<forall>c\<in>set cs. kind_node (pc_kind c) = V (pc_path c)"
  shows "\<exists>r s'. roll_back w pe cs active s = Some (r, s') \<and> map_of (h_fs s') = V"
proof -
  obtain s1 where s1: "remove_path w (uw_new w) s = Some (Inr (), s1)" "view s1 = ((map_of (h_fs s))(uw_new w := None), h_moved s, h_installed s)"
    using remove_path_removes [OF assms(1)] by blast
  obtain s2 where s2: "(if h_installed s1 then remove_path w install_prefix s1 else ret () s1) = Some (Inr (), s2)"
    "map_of (h_fs s2) = (if h_installed s1 then (map_of (h_fs s1))(install_prefix := None) else map_of (h_fs s1))" "h_moved s2 = h_moved s1"
    using remove_path_removes [OF assms(1), of install_prefix s1] by (auto simp: view_def ret_def)
  have v2: "map_of (h_fs s2) = (if h_installed s then (map_of (h_fs s))(uw_new w := None, install_prefix := None) else (map_of (h_fs s))(uw_new w := None))" "h_moved s2 = h_moved s"
    using s1(2) s2(2,3) by (simp_all add: view_def)
  from roll_back_moves [OF assms(1-7) v2] obtain s3 where s3: "(if h_moved s2 \<and> path_exists w (uw_old w) s2 then os_replace w (uw_old w) install_prefix s2
      else if \<not> pe then remove_path w install_prefix s2 else ret () s2) = Some (Inr (), s3)"
    "\<forall>p. p \<notin> {unit_file, override_dir, cli_link} \<longrightarrow> map_of (h_fs s3) p = V p" by blast
  obtain c1 c2 c3 where cs: "cs = [c1, c2, c3]" "pc_path c1 = unit_file" "pc_path c2 = override_dir" "pc_path c3 = cli_link"
    using assms(8) by auto
  have "\<forall>c\<in>set cs. pc_path c \<noteq> uw_new w" using cs assms(2) by (auto simp: fresh_paths_def)
  then obtain s4 where s4: "for_each (restore_path w) cs s3 = Some (Inr (), s4)" "view s4 = (restored cs (map_of (h_fs s3)), h_moved s3, h_installed s3)"
    using restore_all [OF assms(1)] by blast
  have "distinct [unit_file, override_dir, cli_link]" using assms(2) by (simp add: fresh_paths_def)
  then have "restored cs (map_of (h_fs s3)) p = V p" for p
    using s3(2) assms(9) cs by (cases "p \<in> {unit_file, override_dir, cli_link}") (auto simp: restored_def)
  then have v4: "map_of (h_fs s4) = V" using s4(2) by (auto simp: view_def)
  obtain r s5 where s5: "calls_only w active s4 = Some (r, s5)" "view s5 = view s4" using calls_only_runs by blast
  have "roll_back w pe cs active s = calls_only w active s4"
    using s1(1) s2(1) s3(1) s4(1) by (simp add: roll_back_def andthen_def calls_only_def)
  then show ?thesis using s5 v4 by (auto simp: view_def)
qed

section \<open>A switch that succeeds\<close>

lemma symlink_done: "symlink_to w p t s = Some (Inr (), s') \<Longrightarrow> map_of (h_fs s') = (map_of (h_fs s))(p \<mapsto> Symlink t)"
  by (auto simp: symlink_to_def fallible_def throw_def ret_def split: if_splits prod.splits option.splits)

lemma finish_done:
  assumes "reliable w" "script_law w" "fresh_paths w" "finish w sg active s = Some (Inr (), t)"
  shows "map_of (h_fs t) cli_link = Some (Symlink (install_prefix @ ''/sbin/openvpn'')) \<and> map_of (h_fs t) (uw_old w) = None \<and>
    (\<forall>p. p \<notin> {cli_link, unit_file, override_dir, uw_old w} \<longrightarrow> map_of (h_fs t) p = map_of (h_fs s) p)"
proof -
  obtain s1 s2 s3 s4 s5 ok s6 up s7 where
    1: "mkdir_parent w cli_link s = Some (Inr (), s1)" and 2: "remove_path w cli_link s1 = Some (Inr (), s2)" and
    3: "symlink_to w cli_link (install_prefix @ ''/sbin/openvpn'') s2 = Some (Inr (), s3)" and 4: "install_systemd w sg s3 = Some (Inr (), s4)" and
    5: "for_each (restart_or_fail w) active s4 = Some (Inr (), s5)" and 6: "preflight_stage w (install_prefix @ ''/sbin/openvpn'') s5 = Some (Inr ok, s6)" and
    7: "outside (running (uw_ctl w) active) s6 = Some (Inr up, s7)" and 8: "remove_old w s7 = Some (Inr (), t)"
    using assms(4) by (auto simp: finish_def andthen_Some_iff throw_def split: if_splits)
  have v: "map_of (h_fs s1) = map_of (h_fs s)" "map_of (h_fs s5) = map_of (h_fs s4)" "map_of (h_fs s7) = map_of (h_fs s5)"
    using mkdir_parent_at [OF 1] for_each_view [OF restart_view 5] preflight_stage_view [OF 6] outside_view [OF 7] by (auto simp: view_def)
  have t: "map_of (h_fs t) = (map_of (h_fs s7))(uw_old w := None)" using remove_old_succeeds [OF assms(1), of s7] 8 by (auto simp: view_def)
  have ne: "cli_link \<notin> {unit_file, override_dir, uw_old w}" using assms(3) by (auto simp: fresh_paths_def)
  have "map_of (h_fs s4) cli_link = Some (Symlink (install_prefix @ ''/sbin/openvpn''))"
    using install_systemd_at [OF assms(2) 4] symlink_done [OF 3] ne by auto
  moreover have "map_of (h_fs s4) p = map_of (h_fs s) p" if "p \<notin> {cli_link, unit_file, override_dir}" for p
    using that install_systemd_at [OF assms(2) 4] symlink_done [OF 3] remove_path_at [OF assms(1) 2] v(1) by auto
  ultimately show ?thesis using t v ne by auto
qed

lemma switch_over_done:
  assumes "reliable w" "script_law w" "fresh_paths w" "mid w V s" "\<not> h_moved s" "\<not> h_installed s" "pe \<longleftrightarrow> V install_prefix \<noteq> None"
    "switch_over w sg pe active s = Some (Inr (), t)"
  shows "\<exists>es. map_of (h_fs s) (sg_prefix sg) = Some (Dir es) \<and> map_of (h_fs t) install_prefix = Some (Dir es) \<and>
    map_of (h_fs t) cli_link = Some (Symlink (install_prefix @ ''/sbin/openvpn'')) \<and> map_of (h_fs t) (uw_new w) = None \<and> map_of (h_fs t) (uw_old w) = None \<and>
    (\<forall>p. p \<notin> {install_prefix, uw_new w, uw_old w, unit_file, override_dir, cli_link} \<longrightarrow> map_of (h_fs t) p = V p)"
proof -
  obtain s1 s2 s3 where 1: "copytree w (sg_prefix sg) (uw_new w) s = Some (Inr (), s1)" and 2: "move_prefix w pe s1 = Some (Inr (), s2)" and
    3: "place_new w s2 = Some (Inr (), s3)" and 4: "finish w sg active s3 = Some (Inr (), t)"
    using assms(8) by (auto simp: switch_over_eq andthen_Some_iff)
  have ne: "uw_new w \<noteq> uw_old w" "uw_new w \<noteq> install_prefix" "uw_old w \<noteq> install_prefix" "uw_new w \<notin> {unit_file, override_dir, cli_link}"
    "install_prefix \<notin> {unit_file, override_dir, cli_link}" using assms(3) by (auto simp: fresh_paths_def)
  obtain es where es: "map_of (h_fs s) (sg_prefix sg) = Some (Dir es)" "map_of (h_fs s1) (uw_new w) = Some (Dir es)"
    using 1 by (auto simp: copytree_def copy_tree_def fallible_def throw_def ret_def node_at_def split: option.splits node.splits if_splits prod.splits)
  have kc: "keeps (\<lambda>s s'. mid w V s \<longrightarrow> mid w V s') (copytree w (sg_prefix sg) (uw_new w))"
    by (rule keeps_at [OF copytree_at _ assms(3)]) auto
  have m1: "mid w V s1" "\<not> h_moved s1" "\<not> h_installed s1" using keepsD [OF kc 1] copytree_at [OF 1] assms(4,5,6) by auto
  have m2: "mid w V s2" "\<not> h_installed s2" "h_moved s2 \<or> V install_prefix = None"
    using move_prefix_mid [where V = V, OF m1 2 assms(7,3)] by auto
  have "map_of (h_fs s2) (uw_new w) = map_of (h_fs s1) (uw_new w)"
    using 2 ne by (auto simp: move_prefix_def os_replace_def fallible_def andthen_Some_iff ret_def throw_def split: if_splits prod.splits option.splits)
  then have s3: "map_of (h_fs s3) (uw_new w) = None" "map_of (h_fs s3) install_prefix = Some (Dir es)" "mid w V s3"
    using place_new_mid [where V = V, OF m2 3 assms(3)] es ne by auto
  then show ?thesis using finish_done [OF assms(1,2,3) 4] es ne by (auto simp: mid_def)
qed

section \<open>The whole upgrade\<close>

lemma prepare_view:
  assumes "prepare_switch w sg s = Some (r, t)"
  shows "view t = view s \<and> (\<forall>b active cs. r = Inr (b, active, cs) \<longrightarrow> map pc_path cs = [unit_file, override_dir, cli_link] \<and>
    (\<forall>c\<in>set cs. kind_node (pc_kind c) = map_of (h_fs s) (pc_path c)))"
proof -
  have tmp: "view s' = view s" if "fallible w ''mkdtemp'' [] id (ret ()) s = Some (r, s')" for r s' and s :: "'a host"
    using that by (auto simp: fallible_def ret_def throw_def view_def split: prod.splits option.splits)
  have "keeps (\<lambda>s s'. view s' = view s) (prepare_switch w sg)"
    unfolding prepare_switch_def
    by (intro view_frame.andthen_keeps if_keeps_view)
      (auto simp: keeps_def throw_def ret_def dest: preflight_stage_view outside_view tmp snapshot_path_fs)
  then have "view t = view s" using assms by (rule keepsD)
  moreover have "map pc_path cs = [unit_file, override_dir, cli_link] \<and> (\<forall>c\<in>set cs. kind_node (pc_kind c) = map_of (h_fs s) (pc_path c))"
    if r: "r = Inr (b, active, cs)" for b active cs
  proof -
    obtain ok s1 s2 s3 s4 c1 s5 c2 s6 c3 where 1: "preflight_stage w (sg_binary sg) s = Some (Inr ok, s1)" and
      2: "outside (of_outcome (uw_backup w (''openvpn-upgrade-'' @ sg_version sg))) s1 = Some (Inr b, s2)" and
      3: "outside (running (uw_ctl w) (uw_instances w)) s2 = Some (Inr active, s3)" and 4: "fallible w ''mkdtemp'' [] id (ret ()) s3 = Some (Inr (), s4)" and
      5: "snapshot_path w unit_file ''openvpn-server.service'' s4 = Some (Inr c1, s5)" and
      6: "snapshot_path w override_dir ''openvpn-server.service.d'' s5 = Some (Inr c2, s6)" and
      7: "snapshot_path w cli_link ''openvpn-cli-link'' s6 = Some (Inr c3, t)" and cs: "cs = [c1, c2, c3]"
      using assms r by (auto simp: prepare_switch_def andthen_Some_iff throw_def ret_def split: if_splits)
    have "map_of (h_fs s4) = map_of (h_fs s)" "map_of (h_fs s5) = map_of (h_fs s)" "map_of (h_fs s6) = map_of (h_fs s)"
      using preflight_stage_view [OF 1] outside_view [OF 2] outside_view [OF 3] tmp [OF 4] snapshot_path_fs [OF 5] snapshot_path_fs [OF 6]
      by (simp_all add: view_def)
    then show ?thesis using snapshot_pathD [OF 5] snapshot_pathD [OF 6] snapshot_pathD [OF 7] cs by simp
  qed
  ultimately show ?thesis by blast
qed

lemma at_end_removes:
  assumes "reliable w" "fresh_paths w" "at_end m (andthen (remove_path w (uw_new w)) (\<lambda>_. remove_old w)) s = Some (r, s')"
  obtains t where "m s = Some (r, t)" "map_of (h_fs s') = (map_of (h_fs t))(uw_new w := None, uw_old w := None)"
proof -
  obtain r1 t where t: "m s = Some (r1, t)" using assms(3) by (auto simp: at_end_def split: option.splits)
  obtain t1 where t1: "remove_path w (uw_new w) t = Some (Inr (), t1)" "view t1 = ((map_of (h_fs t))(uw_new w := None), h_moved t, h_installed t)"
    using remove_path_removes [OF assms(1)] by blast
  obtain t2 where t2: "remove_old w t1 = Some (Inr (), t2)" "view t2 = ((map_of (h_fs t1))(uw_old w := None), h_moved t1, h_installed t1)"
    using remove_old_succeeds [OF assms(1)] by blast
  have "s' = t2" "r = r1" using assms(3) t t1(1) t2(1) by (simp_all add: at_end_def andthen_def)
  then show thesis using that [of t] t t1(2) t2(2) by (simp add: view_def)
qed

lemma guarded_switch_result:
  assumes "reliable w" "script_law w" "fresh_paths w" "map_of (h_fs s) (uw_new w) = None" "map_of (h_fs s) (uw_old w) = None"
    "\<forall>t f. map_of (h_fs s) install_prefix = Some (Symlink t) \<longrightarrow> uw_live w f t" "guarded_switch w sg b active cs s = Some (r, s')"
    and "map pc_path cs = [unit_file, override_dir, cli_link]" "\<forall>c\<in>set cs. kind_node (pc_kind c) = map_of (h_fs s) (pc_path c)"
  shows "case r of
      Inl e \<Rightarrow> map_of (h_fs s') = map_of (h_fs s)
    | Inr u \<Rightarrow> (\<exists>es. map_of (h_fs s) (sg_prefix sg) = Some (Dir es) \<and> map_of (h_fs s') install_prefix = Some (Dir es)) \<and>
        map_of (h_fs s') cli_link = Some (Symlink (install_prefix @ ''/sbin/openvpn'')) \<and> map_of (h_fs s') (uw_new w) = None \<and> map_of (h_fs s') (uw_old w) = None \<and>
        (\<forall>p. p \<notin> {install_prefix, uw_new w, uw_old w, unit_file, override_dir, cli_link} \<longrightarrow> map_of (h_fs s') p = map_of (h_fs s) p)"
proof -
  let ?V = "map_of (h_fs s)" and ?s0 = "s\<lparr>h_moved := False, h_installed := False\<rparr>"
  let ?pe = "node_at install_prefix s \<noteq> None"
  let ?body = "handle (andthen (switch_over w sg ?pe active) (\<lambda>_. ret \<lparr>ur_version = sg_version sg, ur_backup = b, ur_active = active\<rparr>))
        (\<lambda>e. andthen (roll_back w ?pe cs active) (\<lambda>_. throw e))"
  obtain t where t: "?body ?s0 = Some (r, t)" "map_of (h_fs s') = (map_of (h_fs t))(uw_new w := None, uw_old w := None)"
    using at_end_removes [OF assms(1,3) assms(7) [unfolded guarded_switch_def Let_def]] .
  have pe: "?pe \<longleftrightarrow> ?V install_prefix \<noteq> None" by (simp add: node_at_def)
  have m0: "mid w ?V ?s0" "\<not> h_moved ?s0" "\<not> h_installed ?s0" using assms(5) by (simp_all add: mid_def)
  obtain x t1 where sw: "switch_over w sg ?pe active ?s0 = Some (x, t1)"
    using t(1) by (cases "switch_over w sg ?pe active ?s0") (auto simp: handle_def andthen_def)
  show ?thesis
  proof (cases x)
    case (Inl e)
    have "mid w ?V t1" using switch_over_fails [OF assms(1,2,3) m0 pe sw [unfolded Inl]] .
    then obtain y t2 where rb: "roll_back w ?pe cs active t1 = Some (y, t2)" "map_of (h_fs t2) = ?V"
      using roll_back_restores [OF assms(1,3) _ assms(4,5) pe assms(6,8,9)] by blast
    have "t = t2 \<and> (\<exists>e'. r = Inl e')"
      using t(1) sw rb(1) Inl by (cases y) (auto simp: handle_def andthen_def throw_def)
    moreover have "?V(uw_new w := None) = ?V" "?V(uw_old w := None) = ?V" using assms(4,5) by (auto intro: fun_upd_idem)
    ultimately show ?thesis using t(2) rb(2) by auto
  next
    case (Inr u)
    then have "t = t1" "r = Inr \<lparr>ur_version = sg_version sg, ur_backup = b, ur_active = active\<rparr>"
      using t(1) sw by (auto simp: handle_def andthen_def ret_def)
    moreover have ne: "uw_new w \<notin> {install_prefix, cli_link}" "uw_old w \<notin> {install_prefix, cli_link}" using assms(3) by (auto simp: fresh_paths_def)
    moreover have "switch_over w sg ?pe active ?s0 = Some (Inr (), t1)" using sw Inr by simp
    note d = switch_over_done [OF assms(1,2,3) m0 pe this]
    ultimately show ?thesis using t(2) by auto
  qed
qed

section \<open>The upgrade returns\<close>

lemma returns_fallible [intro!]: "returns m \<Longrightarrow> returns (fallible w nm p b m)"
  by (rule returnsI) (auto simp: fallible_def throw_def dest!: returns_inD split: prod.splits option.splits)

lemma returns_outside [intro!]: "returns m \<Longrightarrow> returns (outside m)"
  by (rule returnsI) (auto simp: outside_def dest!: returns_inD split: option.splits)

lemma returns_outcome [intro!]: "returns (of_outcome f)"
  by (rule returnsI) (simp add: of_outcome_def)

lemma returns_replace [intro!]: "returns (os_replace w p q)"
  unfolding os_replace_def by (intro returns_fallible returnsI) (auto simp: ret_def throw_def split: option.split)

lemma returns_copy_tree [intro!]: "returns (copy_tree w p es)"
  unfolding copy_tree_def by (rule returnsI) (auto simp: throw_def intro!: returns_some)

lemma returns_copytree [intro!]: "returns (copytree w p q)"
  unfolding copytree_def by (rule returnsI) (auto simp: throw_def intro!: returns_some split: option.split node.split)

lemma returns_symlink [intro!]: "returns (symlink_to w p t)"
  unfolding symlink_to_def by (intro returns_fallible returnsI) (auto simp: ret_def throw_def)

lemma returns_mkdir [intro!]: "returns (mkdir_parent w p)" and returns_copy_file [intro!]: "returns (copy_file w p nm c)"
  unfolding mkdir_parent_def copy_file_def by auto

lemma returns_remove [intro!]: "returns (remove_path w p)"
  unfolding remove_path_def by (rule returnsI) (auto intro!: returns_some split: option.split node.split)

lemma returns_snapshot [intro!]: "returns (snapshot_path w p nm)"
  unfolding snapshot_path_def by (rule returnsI) (auto intro!: returns_some split: option.split node.split)

lemma returns_restore [intro!]: "returns (restore_path w r)"
  unfolding restore_path_def by (auto split: copy_kind.split)

lemma returns_server_trial [intro!]: "returns (preflight_server_config w b p c)"
  unfolding preflight_server_config_def by (rule returnsI) (auto simp: ret_def throw_def split: option.split prod.split sum.split)

lemma returns_made [intro!]: "returns (made_by w m c)" and returns_read_made [intro!]: "returns (read_made w f)"
  unfolding made_by_def read_made_def
  by (rule returnsI; auto simp: ret_def throw_def split: prod.split sum.split)+

lemma returns_profile [intro!]: "returns (generate_ephemeral_client_profile w b)"
  unfolding generate_ephemeral_client_profile_def Let_def by (auto split: option.split sum.split)

lemma returns_client_trial [intro!]: "returns (preflight_client_profile w b)"
  unfolding preflight_client_profile_def
  by (intro returns_andthen returns_profile returnsI) (auto simp: ret_def throw_def split: prod.split sum.split)

lemma returns_servers [intro!]: "returns (preflight_servers w b cs)"
  by (induction w b cs rule: preflight_servers.induct) auto

lemma returns_preflight [intro!]: "returns (preflight_stage w b)"
proof (rule returnsI)
  fix s
  have "returns (preflight_upgrade_candidate w0 e b cs)" for w0 e and cs :: "(string \<times> string) list"
    unfolding preflight_upgrade_candidate_def by auto
  then show "\<exists>r t. preflight_stage w b s = Some (r, t)"
    unfolding preflight_stage_def by (auto simp: outside_def dest!: returns_some split: option.splits intro: returns_some)
qed

lemma returns_running [intro!]: "returns (running ctl nms)"
proof (induction nms)
  case (Cons nm nms)
  have *: "returns (andthen (running ctl nms) (\<lambda>rest. ret (if up then nm # rest else rest)))" for up using Cons by auto
  show ?case by (rule returnsI) (simp add: returns_some [OF *] split: prod.split)
qed auto

lemma returns_prepare: "returns (prepare_switch w sg)"
  unfolding prepare_switch_def by (auto split: prod.split)

lemma returns_install [intro!]: "returns (install_systemd w sg)"
  by (rule returnsI) (simp add: install_systemd_def split: prod.split)

lemma returns_remove_old [intro!]: "returns (remove_old w)"
  unfolding remove_old_def by (rule returnsI) (auto intro!: returns_some)

lemma returns_switch: "returns (switch_over w sg pe active)"
  unfolding switch_over_def move_prefix_def restart_or_fail_def by auto

lemma returns_roll_back: "returns (roll_back w pe cs active)"
proof -
  have "returns (\<lambda>s. if h_installed s then remove_path w install_prefix s else ret () s)"
    "returns (\<lambda>s. if h_moved s \<and> path_exists w (uw_old w) s then os_replace w (uw_old w) install_prefix s
        else if \<not> pe then remove_path w install_prefix s else ret () s)"
    by (rule returnsI; auto intro!: returns_some)+
  then show ?thesis unfolding roll_back_def by auto
qed

lemma upgrade_returns: "\<exists>r t. apply_staged_upgrade w sg s = Some (r, t)"
proof -
  have g: "returns (guarded_switch w sg b active cs)" for b active cs
  proof (rule returnsI)
    fix s :: "'a host"
    have "returns (at_end (handle (andthen (switch_over w sg pe active) (\<lambda>_. ret u)) (\<lambda>e. andthen (roll_back w pe cs active) (\<lambda>_. throw e)))
       (andthen (remove_path w (uw_new w)) (\<lambda>_. remove_old w)))" for pe and u :: upgrade_result
      by (intro returns_at_end returns_handle returns_andthen returns_switch returns_roll_back) auto
    then show "\<exists>r t. guarded_switch w sg b active cs s = Some (r, t)" unfolding guarded_switch_def Let_def by (rule returns_some)
  qed
  have "returns (apply_staged_upgrade w sg)"
    unfolding apply_staged_upgrade_def by (rule returns_andthen [OF returns_prepare]) (auto intro: g split: prod.split)
  then show ?thesis by (rule returns_some)
qed

section \<open>Properties\<close>

text \<open>C34. An upgrade always ends.  One that fails, at whatever step, leaves every path of the file system as it was before: the installed
  tree, the systemd unit and its override, the link of the command and everything else, with no temporary tree left.
  One that succeeds leaves the candidate as the installed tree and the link of the command pointing into it, no temporary
  tree, and every other path but the unit and its override as it was.  This needs that removing, linking and copying back work and that the
  installed tree is no dangling link.\<close>

theorem upgrade_all_or_nothing:
  assumes "reliable w" "script_law w" "fresh_paths w" "map_of (h_fs s) (uw_new w) = None" "map_of (h_fs s) (uw_old w) = None"
    "\<forall>t f. map_of (h_fs s) install_prefix = Some (Symlink t) \<longrightarrow> uw_live w f t"
  shows "\<exists>r s'. apply_staged_upgrade w sg s = Some (r, s') \<and> (case r of
      Inl e \<Rightarrow> map_of (h_fs s') = map_of (h_fs s)
    | Inr u \<Rightarrow> (\<exists>es. map_of (h_fs s) (sg_prefix sg) = Some (Dir es) \<and> map_of (h_fs s') install_prefix = Some (Dir es)) \<and>
        map_of (h_fs s') cli_link = Some (Symlink (install_prefix @ ''/sbin/openvpn'')) \<and> map_of (h_fs s') (uw_new w) = None \<and> map_of (h_fs s') (uw_old w) = None \<and>
        (\<forall>p. p \<notin> {install_prefix, uw_new w, uw_old w, unit_file, override_dir, cli_link} \<longrightarrow> map_of (h_fs s') p = map_of (h_fs s) p))"
proof -
  obtain r s' where run: "apply_staged_upgrade w sg s = Some (r, s')" using upgrade_returns by blast
  have "case r of
      Inl e \<Rightarrow> map_of (h_fs s') = map_of (h_fs s)
    | Inr u \<Rightarrow> (\<exists>es. map_of (h_fs s) (sg_prefix sg) = Some (Dir es) \<and> map_of (h_fs s') install_prefix = Some (Dir es)) \<and>
        map_of (h_fs s') cli_link = Some (Symlink (install_prefix @ ''/sbin/openvpn'')) \<and> map_of (h_fs s') (uw_new w) = None \<and> map_of (h_fs s') (uw_old w) = None \<and>
        (\<forall>p. p \<notin> {install_prefix, uw_new w, uw_old w, unit_file, override_dir, cli_link} \<longrightarrow> map_of (h_fs s') p = map_of (h_fs s) p)"
  proof -
    obtain x t where p: "prepare_switch w sg s = Some (x, t)"
      using run by (cases "prepare_switch w sg s") (auto simp: apply_staged_upgrade_def andthen_def)
    note v = prepare_view [OF p]
    have fs: "map_of (h_fs t) = map_of (h_fs s)" using v by (simp add: view_def)
    show ?thesis
    proof (cases x)
      case (Inl e)
      then have "r = Inl e" "s' = t" using run p by (simp_all add: apply_staged_upgrade_def andthen_def)
      then show ?thesis using fs by simp
    next
      case (Inr q)
      obtain b active cs where q: "q = (b, active, cs)" by (cases q)
      have "guarded_switch w sg b active cs t = Some (r, s')" using run p Inr q by (simp add: apply_staged_upgrade_def andthen_def)
      then show ?thesis
        using guarded_switch_result [where s = t, OF assms(1,2,3), of sg b active cs r s'] v assms(4,5,6) fs Inr q by (cases r) simp_all
    qed
  qed
  then show ?thesis using run by blast
qed

section \<open>The configuration of the trial\<close>

lemma splitlines_Cons:
  "\<not> line_break c \<Longrightarrow> lines_acc acc (c # s) = lines_acc (c # acc) s"
  by (cases s) (auto simp: line_break_def)

lemma trial_lines_acc:
  "\<forall>c\<in>set l. \<not> line_break c \<Longrightarrow> lines_acc acc (l @ LF # s) = (rev acc @ l) # lines_acc [] s"
proof (induction l arbitrary: acc)
  case Nil
  have "line_break LF" by (simp add: line_break_def)
  then show ?case by (cases s) auto
next
  case (Cons c l)
  then show ?case using splitlines_Cons [of c acc "l @ LF # s"] by simp
qed

text \<open>Lines put together with line feeds come apart again.\<close>

lemma splitlines_join:
  "ls \<noteq> [] \<Longrightarrow> \<forall>l\<in>set ls. \<forall>c\<in>set l. \<not> line_break c \<Longrightarrow> splitlines (join [LF] ls @ [LF]) = ls"
proof (induction ls)
  case (Cons l ls)
  show ?case
  proof (cases ls)
    case Nil
    then show ?thesis using trial_lines_acc [of l "[]" "[]"] Cons.prems by (simp add: splitlines_def)
  next
    case (Cons m ms)
    then show ?thesis using trial_lines_acc [of l "[]" "join [LF] ls @ [LF]"] Cons.IH Cons.prems by (simp add: splitlines_def)
  qed
qed simp

lemma lines_acc_clean: "\<forall>c\<in>set acc. \<not> line_break c \<Longrightarrow> \<forall>l\<in>set (lines_acc acc s). \<forall>c\<in>set l. \<not> line_break c"
proof (induction acc s rule: lines_acc.induct)
  case (3 acc c d s)
  show ?case
  proof (cases "c = CHR 0x0D \<and> d = CHR 0x0A")
    case True
    then have e: "lines_acc acc (c # d # s) = rev acc # lines_acc [] s" by simp
    have "\<forall>l\<in>set (lines_acc [] s). \<forall>c\<in>set l. \<not> line_break c" using 3(1) [OF True] by simp
    then show ?thesis unfolding e using 3(4) by simp
  next
    case no: False
    show ?thesis
    proof (cases "line_break c")
      case True
      then have e: "lines_acc acc (c # d # s) = rev acc # lines_acc [] (d # s)" using no by auto
      have "\<forall>l\<in>set (lines_acc [] (d # s)). \<forall>c\<in>set l. \<not> line_break c" using 3(2) [OF no True] by simp
      then show ?thesis unfolding e using 3(4) by simp
    next
      case False
      then have e: "lines_acc acc (c # d # s) = lines_acc (c # acc) (d # s)" using no by auto
      show ?thesis unfolding e using 3(3) [OF no False] 3(4) False by simp
    qed
  qed
qed simp_all

lemma splitlines_clean: "\<forall>l\<in>set (splitlines s). \<forall>c\<in>set l. \<not> line_break c"
  using lines_acc_clean [of "[]"] by (simp add: splitlines_def)

lemma disabled_clean: "\<forall>c\<in>set raw. \<not> line_break c \<Longrightarrow> c \<in> set (disabled_line raw) \<Longrightarrow> \<not> line_break c"
proof -
  have "list_all (\<lambda>c. \<not> line_break c) ''# NiceVPN preflight disabled: ''" by code_simp
  then show "\<forall>c\<in>set raw. \<not> line_break c \<Longrightarrow> c \<in> set (disabled_line raw) \<Longrightarrow> \<not> line_break c"
    unfolding disabled_line_def list_all_iff set_append by blast
qed

lemma rewrite_lines_clean:
  "\<forall>l\<in>set ls. \<forall>c\<in>set l. \<not> line_break c \<Longrightarrow> \<forall>l\<in>set (fst (rewrite_lines dis [] inl replaced ls)). \<forall>c\<in>set l. \<not> line_break c"
  by (induction ls arbitrary: inl replaced; case_tac inl) (auto simp: Let_def case_prod_beta dest: disabled_clean)

lemma rstrip_join_last:
  assumes "l \<noteq> []" "\<not> py_space (last l)"
  shows "rstrip (join [LF] (ls @ [l])) = join [LF] (ls @ [l])"
proof -
  have "\<exists>s. join [LF] (ls @ [l]) = s @ l"
  proof (induction ls)
    case (Cons m ms)
    then obtain s where "join [LF] (ms @ [l]) = s @ l" by blast
    then show ?case by (cases "ms @ [l]") auto
  qed simp
  then obtain s where s: "join [LF] (ls @ [l]) = s @ l" by blast
  obtain l0 x where "l = l0 @ [x]" using assms(1) by (cases l rule: rev_cases) auto
  then show ?thesis using assms(2) unfolding s by (simp add: rstrip_def)
qed

text \<open>The lines a trial adds are whole lines.\<close>

definition clean_text :: "string \<Rightarrow> bool" where
  "clean_text s \<longleftrightarrow> list_all (\<lambda>c. \<not> line_break c) s"

lemma rewritten_lines:
  assumes "\<forall>l\<in>set app. clean_text l" "app \<noteq> []" "last app \<noteq> []" "\<not> py_space (last (last app))"
  shows "splitlines (rewrite_config text0 dis [] app) = fst (rewrite_lines dis [] None [] (splitlines text0)) @ app"
proof -
  let ?out = "fst (rewrite_lines dis [] None [] (splitlines text0))"
  have "rewrite_config text0 dis [] app = rstrip (join [LF] (?out @ app)) @ [LF]" by (simp add: rewrite_config_def case_prod_beta)
  also have "?out @ app = (?out @ butlast app) @ [last app]" using assms(2) by simp
  also have "rstrip (join [LF] \<dots>) = join [LF] \<dots>" by (rule rstrip_join_last [OF assms(3,4)])
  finally have "rewrite_config text0 dis [] app = join [LF] (?out @ app) @ [LF]" using assms(2) by simp
  moreover have "\<forall>l\<in>set (?out @ app). \<forall>c\<in>set l. \<not> line_break c"
    using rewrite_lines_clean [OF splitlines_clean] assms(1) by (auto simp: clean_text_def list_all_iff)
  ultimately show ?thesis using splitlines_join [of "?out @ app"] assms(2) by simp
qed

lemma rewritten_items:
  assumes "\<forall>l\<in>set app. clean_text l" "app \<noteq> []" "last app \<noteq> []" "\<not> py_space (last (last app))"
  shows "conf_items None (splitlines (rewrite_config text0 dis [] app)) =
     filter (without_directives dis) (conf_items None (splitlines text0)) @ conf_items (block_after None (splitlines text0)) app"
  using rewrite_lines_items [of None dis "[]" "splitlines text0"] by (simp add: rewritten_lines [OF assms] conf_items_append)

text \<open>A line that opens and closes no block and has the directive \<open>d\<close>.\<close>

definition whole :: "string \<times> string \<Rightarrow> bool" where
  "whole p \<longleftrightarrow> (case p of (raw, d) \<Rightarrow> strip raw \<noteq> [] \<and> hd (strip raw) \<notin> {CHR ''<'', CHR ''#'', CHR '';''} \<and> lower_char (hd (strip raw)) \<noteq> CHR ''<'' \<and> directive_of (strip raw) = d)"

lemma wholeD:
  assumes "whole (raw, d)"
  shows "\<not> opens_inline (strip raw)" "\<not> blank_or_comment (strip raw)" "directive_of (strip raw) = d" "\<not> closes_inline nm raw"
  using assms by (cases "strip raw"; auto simp: whole_def opens_inline_def blank_or_comment_def closes_inline_def starts_with_def lower_def)+

lemma whole_items: "list_all whole ps \<Longrightarrow> conf_items inl (map fst ps) =
   (case inl of None \<Rightarrow> map (\<lambda>(raw, d). Acting d raw) ps | Some nm \<Rightarrow> map (\<lambda>(raw, d). Inlined nm raw) ps)"
proof (induction ps)
  case (Cons p ps)
  obtain raw d where p: "p = (raw, d)" by (cases p)
  show ?case using Cons wholeD [of raw d] by (cases inl) (auto simp: p)
qed (cases inl; simp)

lemma whole_argument:
  assumes "list_all (\<lambda>c. \<not> py_space c) d" "d \<noteq> []" "hd d \<notin> {CHR ''<'', CHR ''#'', CHR '';''}" "lower d = d"
  shows "whole (d @ CHR '' '' # x, d)"
proof -
  let ?raw = "d @ CHR '' '' # x"
  obtain c d' where d: "d = c # d'" using assms(2) by (cases d) auto
  have l: "lstrip ?raw = ?raw" using assms(1) by (simp add: d lstrip_def)
  obtain t where t: "?raw = rstrip ?raw @ t" "\<forall>c\<in>set t. py_space c" using rstrip_prefix by blast
  have ne: "rstrip ?raw \<noteq> []"
  proof
    assume "rstrip ?raw = []"
    then have "?raw = t" using t(1) by simp
    then have "c \<in> set t" unfolding d by auto
    then have "py_space c" using t(2) by blast
    then show False using assms(1) by (simp add: d)
  qed
  then have h: "hd (strip ?raw) = c" using t(1) unfolding strip_def l by (cases "rstrip ?raw") (auto simp: d)
  have "py_words (strip ?raw) = d # py_words x" using first_word [OF assms(1,2)] by (simp add: py_words_strip)
  moreover have "lower_char c = c" using assms(4) by (simp add: d lower_def)
  moreover have "strip ?raw \<noteq> []" using ne by (simp only: strip_def l) simp
  moreover have "hd d = c" by (simp add: d)
  ultimately show ?thesis using h assms(3,4) unfolding whole_def prod.case directive_of_def by simp
qed

text \<open>The lines a trial adds, with their directives.\<close>

definition server_added :: "string \<Rightarrow> nat \<Rightarrow> string \<Rightarrow> (string \<times> string) list" where
  "server_added tun port log = [(''dev '' @ tun, ''dev''), (''dev-type tun'', ''dev-type''), (''local 127.0.0.1'', ''local''),
     (''port '' @ dec_of_nat port, ''port''), (''ifconfig-noexec'', ''ifconfig-noexec''), (''route-noexec'', ''route-noexec''),
     (''disable-dco'', ''disable-dco''), (''script-security 0'', ''script-security''), (''status '' @ log @ '' 1'', ''status''), (''verb 4'', ''verb'')]"

definition client_added :: "string \<Rightarrow> nat \<Rightarrow> (string \<times> string) list" where
  "client_added tun port = [(''dev '' @ tun, ''dev''), (''dev-type tun'', ''dev-type''), (''remote 127.0.0.1 '' @ dec_of_nat port, ''remote''),
     (''resolv-retry 0'', ''resolv-retry''), (''connect-retry 1 1'', ''connect-retry''), (''connect-retry-max 1'', ''connect-retry-max''),
     (''connect-timeout 1'', ''connect-timeout''), (''tls-exit'', ''tls-exit''), (''ifconfig-noexec'', ''ifconfig-noexec''),
     (''route-noexec'', ''route-noexec''), (''disable-dco'', ''disable-dco''), (''verb 4'', ''verb'')]"

lemma added_lines: "server_append_lines tun port log = map fst (server_added tun port log)" "client_append_lines tun port = map fst (client_added tun port)"
  by (simp_all add: server_append_lines_def server_added_def client_append_lines_def client_added_def)

lemma server_whole: "list_all whole (server_added tun port log)"
proof -
  have a: "whole (''dev '' @ tun, ''dev'')" "whole (''port '' @ dec_of_nat port, ''port'')" "whole (''status '' @ log @ '' 1'', ''status'')"
    using whole_argument [of "''dev''" tun] whole_argument [of "''port''" "dec_of_nat port"] whole_argument [of "''status''" "log @ '' 1''"]
    by (simp_all add: py_space_def lower_def lower_char_def Let_def)
  have b: "list_all whole [(''dev-type tun'', ''dev-type''), (''local 127.0.0.1'', ''local''), (''ifconfig-noexec'', ''ifconfig-noexec''),
     (''route-noexec'', ''route-noexec''), (''disable-dco'', ''disable-dco''), (''script-security 0'', ''script-security''), (''verb 4'', ''verb'')]"
    by code_simp
  show ?thesis using a b by (simp add: server_added_def)
qed

lemma client_whole: "list_all whole (client_added tun port)"
proof -
  have a: "whole (''dev '' @ tun, ''dev'')" "whole (''remote 127.0.0.1 '' @ dec_of_nat port, ''remote'')"
    using whole_argument [of "''dev''" tun] whole_argument [of "''remote''" "''127.0.0.1 '' @ dec_of_nat port"]
    by (simp_all add: py_space_def lower_def lower_char_def Let_def)
  have b: "list_all whole [(''dev-type tun'', ''dev-type''), (''resolv-retry 0'', ''resolv-retry''), (''connect-retry 1 1'', ''connect-retry''),
     (''connect-retry-max 1'', ''connect-retry-max''), (''connect-timeout 1'', ''connect-timeout''), (''tls-exit'', ''tls-exit''), (''ifconfig-noexec'', ''ifconfig-noexec''),
     (''route-noexec'', ''route-noexec''), (''disable-dco'', ''disable-dco''), (''verb 4'', ''verb'')]"
    by code_simp
  show ?thesis using a b by (simp add: client_added_def)
qed

lemma clean_digits: "clean_text (dec_of_nat n)"
proof -
  have "is_digit c \<Longrightarrow> \<not> line_break c" for c by (auto simp: line_break_def is_digit_def Let_def)
  then show ?thesis using dec_of_nat_digits by (auto simp: clean_text_def list_all_iff)
qed

lemma clean_append [simp]: "clean_text (a @ b) \<longleftrightarrow> clean_text a \<and> clean_text b"
  by (simp add: clean_text_def)

lemma server_clean:
  assumes "clean_text tun" "clean_text log"
  shows "\<forall>l\<in>set (server_append_lines tun port log). clean_text l"
proof -
  have "list_all clean_text [''dev '', ''dev-type tun'', ''local 127.0.0.1'', ''port '', ''ifconfig-noexec'', ''route-noexec'', ''disable-dco'', ''script-security 0'', ''status '', '' 1'', ''verb 4'']"
    by code_simp
  then show ?thesis using assms clean_digits [of port] unfolding server_append_lines_def list.pred_inject list.set ball_simps clean_append by blast
qed

lemma client_clean:
  assumes "clean_text tun"
  shows "\<forall>l\<in>set (client_append_lines tun port). clean_text l"
proof -
  have "list_all clean_text [''dev '', ''dev-type tun'', ''remote 127.0.0.1 '', ''resolv-retry 0'', ''connect-retry 1 1'', ''connect-retry-max 1'', ''connect-timeout 1'', ''tls-exit'',
    ''ifconfig-noexec'', ''route-noexec'', ''disable-dco'', ''verb 4'']"
    by code_simp
  then show ?thesis using assms clean_digits [of port] unfolding client_append_lines_def list.pred_inject list.set ball_simps clean_append by blast
qed

text \<open>What must not act in a trial of the server: scripts and plugins, the management socket, files for logs, status, pids and the address
  pool, the change to another user, going to the background, and the device, address and port of the running server.\<close>

definition server_effects :: "string list" where
  "server_effects = [''up'', ''down'', ''route-up'', ''ipchange'', ''learn-address'', ''client-connect'', ''client-disconnect'',
     ''auth-user-pass-verify'', ''tls-crypt-v2-verify'', ''script-security'', ''plugin'', ''management'', ''log'', ''log-append'', ''status'', ''writepid'',
     ''ifconfig-pool-persist'', ''user'', ''group'', ''daemon'', ''dev'', ''local'', ''port'']"

text \<open>In a trial of the client: scripts, the management socket, files for logs and pids, going to the background, and the device, the
  remote and the retries of the profile.\<close>

definition client_effects :: "string list" where
  "client_effects = [''up'', ''down'', ''route-up'', ''management'', ''log'', ''log-append'', ''writepid'', ''daemon'', ''dev'', ''remote'',
     ''resolv-retry'', ''connect-retry'', ''connect-retry-max'', ''connect-timeout'']"

lemma effects_listed:
  "set (server_side_effect_directives @ [''dev'', ''local'', ''port'']) = set server_effects" "set client_side_effect_directives = set client_effects"
  unfolding server_side_effect_directives_def server_effects_def client_side_effect_directives_def client_effects_def by auto

lemma without_directives_cong: "set ds = set es \<Longrightarrow> filter (without_directives ds) xs = filter (without_directives es) xs"
proof -
  assume a: "set ds = set es"
  have "without_directives ds x = without_directives es x" for x by (cases x) (simp_all add: a)
  then show ?thesis by presburger
qed

text \<open>C35. The configuration a candidate is tried with is the one of the running server without what has effects on the host: OpenVPN
  reads in it, in their order, every line of the inline blocks and every directive with its arguments except the
  directives of \<open>server_effects\<close> (scripts, plugins, the management socket, log, status, pid and pool files, the user and group, the device, the address and
  the port), and then the lines of \<open>server_added\<close>, among them \<open>script-security 0\<close>; when a block is left open the added lines
  belong to it.  The client profile is treated alike, with \<open>client_effects\<close> and \<open>client_added\<close>.\<close>

theorem trial_has_no_side_effects:
  assumes "clean_text tun_name" "clean_text status_log"
  shows "conf_items None (splitlines (server_trial_text tun_name port status_log text0)) =
      filter (without_directives server_effects) (conf_items None (splitlines text0)) @
      (case block_after None (splitlines text0) of None \<Rightarrow> map (\<lambda>(raw, d). Acting d raw) (server_added tun_name port status_log)
       | Some nm \<Rightarrow> map (\<lambda>(raw, d). Inlined nm raw) (server_added tun_name port status_log)) \<and>
    conf_items None (splitlines (client_trial_text tun_name port text0)) =
      filter (without_directives client_effects) (conf_items None (splitlines text0)) @
      (case block_after None (splitlines text0) of None \<Rightarrow> map (\<lambda>(raw, d). Acting d raw) (client_added tun_name port)
       | Some nm \<Rightarrow> map (\<lambda>(raw, d). Inlined nm raw) (client_added tun_name port))"
proof -
  have v: "\<not> py_space (CHR ''4'')" by (simp add: py_space_def)
  have ends: "server_append_lines tun_name port status_log \<noteq> []" "last (server_append_lines tun_name port status_log) = ''verb 4''"
    "client_append_lines tun_name port \<noteq> []" "last (client_append_lines tun_name port) = ''verb 4''"
    by (simp_all add: server_append_lines_def client_append_lines_def)
  note s = rewritten_items [OF server_clean [OF assms] ends(1), unfolded ends(2), of text0 "server_side_effect_directives @ [''dev'', ''local'', ''port'']"]
  note c = rewritten_items [OF client_clean [OF assms(1)] ends(3), unfolded ends(4), of text0 client_side_effect_directives]
  show ?thesis
    unfolding server_trial_text_def client_trial_text_def without_directives_cong [OF effects_listed(1), symmetric]
      without_directives_cong [OF effects_listed(2), symmetric]
    using s c v by (simp add: added_lines whole_items [OF server_whole] whole_items [OF client_whole])
qed

theorem trial_has_no_side_effects_witness:
  "conf_items None (splitlines (server_trial_text ''t'' 9 ''l'' (''port 1'' @ [LF] @ ''<ca>'' @ [LF] @ ''up x'' @ [LF] @ ''</ca>'' @ [LF] @ ''plugin y'' @ [LF] @ ''tls-exit''))) =
     [Inlined ''ca'' ''<ca>'', Inlined ''ca'' ''up x'', Inlined ''ca'' ''</ca>'', Acting ''tls-exit'' ''tls-exit'', Acting ''dev'' ''dev t'', Acting ''dev-type'' ''dev-type tun'',
      Acting ''local'' ''local 127.0.0.1'', Acting ''port'' ''port 9'', Acting ''ifconfig-noexec'' ''ifconfig-noexec'', Acting ''route-noexec'' ''route-noexec'',
      Acting ''disable-dco'' ''disable-dco'', Acting ''script-security'' ''script-security 0'', Acting ''status'' ''status l 1'', Acting ''verb'' ''verb 4'']"
proof -
  let ?t = "''port 1'' @ [LF] @ ''<ca>'' @ [LF] @ ''up x'' @ [LF] @ ''</ca>'' @ [LF] @ ''plugin y'' @ [LF] @ ''tls-exit''"
  have c: "clean_text ''t''" "clean_text ''l''" by code_simp+
  have a: "filter (without_directives server_effects) (conf_items None (splitlines ?t)) =
      [Inlined ''ca'' ''<ca>'', Inlined ''ca'' ''up x'', Inlined ''ca'' ''</ca>'', Acting ''tls-exit'' ''tls-exit'']"
    "block_after None (splitlines ?t) = None" "dec_of_nat 9 = ''9''" by code_simp+
  show ?thesis using trial_has_no_side_effects [OF c, of 9 ?t] unfolding a by (simp add: server_added_def a(3))
qed

definition demo_trial :: "nat trial_world" where
  "demo_trial = \<lparr>tw_tun = (\<lambda>_. ''t''), tw_port = (\<lambda>_. 9), tw_tmp = ''/tmp/x'',
     tw_openvpn = (\<lambda>binary conf k. (Inr \<lparr>tr_seen = [(if k = 2 then ''cannot load'' else if k = 0 then ''initialization sequence completed'' else ''udp link remote:'', False)], tr_output = []\<rparr>, Suc k)),
     tw_openssl = Some ''openssl'', tw_run = (\<lambda>_ k. (Inr 0, k)), tw_made = (\<lambda>_ _. Inr ''pem''), tw_server_key = Some ''k'', tw_template = Inr ''port 1''\<rparr>"

text \<open>The candidate fails after the switch.\<close>

definition demo_upgrade :: "nat upgrade_world" where
  "demo_upgrade = \<lparr>uw_trial = demo_trial, uw_confs = (\<lambda>_. [(''s.conf'', ''port 1'')]), uw_backup = (\<lambda>_ k. (Inr ''b'', k)), uw_instances = [],
     uw_ctl = (\<lambda>_ k. ((0, ''active''), k)), uw_restart = (\<lambda>_ k. (Inr 0, k)), uw_install = (\<lambda>sg (k, f). (Inr (), k, AList.update unit_file (File ''new'') f)),
     uw_op = (\<lambda>_ _ k. (None, k)), uw_partial = (\<lambda>_ _. None), uw_live = (\<lambda>_ _. False), uw_new = ''/opt/n'', uw_old = ''/opt/o''\<rparr>"

definition demo_stage :: stage where
  "demo_stage = \<lparr>sg_prefix = ''/tmp/p'', sg_source_dir = ''/tmp/s'', sg_binary = ''/tmp/p/sbin/openvpn'', sg_tag = ''v2'', sg_version = ''2''\<rparr>"

definition demo_host :: "node \<Rightarrow> nat host" where
  "demo_host n = \<lparr>h_ext = 0, h_fs = [(''/tmp/p'', Dir [(''sbin/openvpn'', ''new'')]), (install_prefix, n), (unit_file, File ''unit'')],
     h_moved = False, h_installed = False\<rparr>"

theorem upgrade_all_or_nothing_witness:
  "\<exists>e s'. apply_staged_upgrade demo_upgrade demo_stage (demo_host (Dir [(''sbin/openvpn'', ''old'')])) = Some (Inl e, s') \<and>
     map_of (h_fs s') = map_of (h_fs (demo_host (Dir [(''sbin/openvpn'', ''old'')])))"
proof -
  let ?s = "demo_host (Dir [(''sbin/openvpn'', ''old'')])"
  have rel: "reliable demo_upgrade" by (simp add: reliable_def demo_upgrade_def)
  have law: "script_law demo_upgrade" by (auto simp: script_law_def demo_upgrade_def update_conv')
  have paths: "fresh_paths demo_upgrade" by code_simp
  have new: "map_of (h_fs ?s) (uw_new demo_upgrade) = None" "map_of (h_fs ?s) (uw_old demo_upgrade) = None" by code_simp+
  have pre: "map_of (h_fs ?s) install_prefix = Some (Dir [(''sbin/openvpn'', ''old'')])" by code_simp
  have "case apply_staged_upgrade demo_upgrade demo_stage ?s of Some (Inl e, s') \<Rightarrow> True | _ \<Rightarrow> False" by code_simp
  then obtain e s' where run: "apply_staged_upgrade demo_upgrade demo_stage ?s = Some (Inl e, s')" by (auto split: option.splits sum.splits prod.splits)
  have live: "\<forall>t f. map_of (h_fs ?s) install_prefix = Some (Symlink t) \<longrightarrow> uw_live demo_upgrade f t" unfolding pre by simp
  show ?thesis using upgrade_all_or_nothing [OF rel law paths new live, of demo_stage] run by simp
qed

text \<open>An installed tree that is a dangling link does not come back.\<close>

lemma dangling_prefix_lost:
  "case apply_staged_upgrade demo_upgrade demo_stage (demo_host (Symlink ''/gone'')) of Some (Inl e, t) \<Rightarrow> node_at install_prefix t = None | _ \<Rightarrow> False"
  by code_simp

end
