(* ===== verification/Conntrack.thy ===== *)
theory Conntrack
  imports Instances System
begin

text \<open>
  \<open>app/services/audit/conntrack_audit.py\<close>: the lines of \<open>conntrack -E\<close> as audit events of the VPN, and the
  listener that writes them.  Dates are parameters; an event is its record, the JSON line is not modelled.
\<close>

section \<open>One line\<close>

text \<open>The texts in square brackets, and the line without them.\<close>

definition bracket_at :: "string \<Rightarrow> bool" where
  "bracket_at s \<longleftrightarrow> s \<noteq> [] \<and> hd s = CHR ''['' \<and> takeWhile (\<lambda>c. c \<noteq> CHR '']'') (tl s) \<noteq> [] \<and> dropWhile (\<lambda>c. c \<noteq> CHR '']'') (tl s) \<noteq> []"

function brackets :: "string \<Rightarrow> string list \<times> string" where
  "brackets [] = ([], [])"
| "brackets (c # s) = (if bracket_at (c # s)
     then (let (vs, rest) = brackets (tl (dropWhile (\<lambda>c. c \<noteq> CHR '']'') s)) in (takeWhile (\<lambda>c. c \<noteq> CHR '']'') s # vs, CHR '' '' # rest))
     else (let (vs, rest) = brackets s in (vs, c # rest)))"
  by pat_completeness auto

termination
  by (relation "measure length") (auto, meson diff_le_self length_dropWhile_le le_imp_less_Suc le_trans)

record audit_world =
  aw_now :: string
  aw_epoch :: "string \<Rightarrow> string res"
  aw_iso :: "string \<Rightarrow> string res"

definition epoch_text :: "string \<Rightarrow> bool" where
  "epoch_text v \<longleftrightarrow> (case split_on (CHR ''.'') v of
     [a] \<Rightarrow> a \<noteq> [] \<and> list_all is_digit a
   | [a, b] \<Rightarrow> a \<noteq> [] \<and> list_all is_digit a \<and> b \<noteq> [] \<and> list_all is_digit b
   | _ \<Rightarrow> False)"

text \<open>A zone \<open>+hhmm\<close> at the end gets a colon.\<close>

definition zone_with_colon :: "string \<Rightarrow> string" where
  "zone_with_colon v = (let n = length v; z = drop (n - 5) v in
     if 5 \<le> n \<and> hd z \<in> {CHR ''+'', CHR ''-''} \<and> list_all is_digit (tl z) then take (n - 2) v @ '':'' @ drop (n - 2) v else v)"

definition parse_timestamp :: "audit_world \<Rightarrow> string \<Rightarrow> string res" where
  "parse_timestamp w raw = (if raw = [] then Inr (aw_now w)
     else (let v = strip raw; r = (if epoch_text v then aw_epoch w v else aw_iso w (zone_with_colon (str_replace ''Z'' ''+00:00'' v))) in
       case r of Inl (ValueError m) \<Rightarrow> Inr (aw_now w) | _ \<Rightarrow> r))"

definition safe_int :: "string option \<Rightarrow> int option res" where
  "safe_int raw = (case raw of None \<Rightarrow> Inr None | Some s \<Rightarrow> if s = [] then Inr None
     else (case int_of_text s of None \<Rightarrow> Inl (ValueError s) | Some n \<Rightarrow> Inr (Some n)))"

definition key_value :: "string \<Rightarrow> (string \<times> string) option" where
  "key_value token = (if CHR ''='' \<notin> set token then None
     else Some (takeWhile (\<lambda>c. c \<noteq> CHR ''='') token, tl (dropWhile (\<lambda>c. c \<noteq> CHR ''='') token)))"

text \<open>The second \<open>src\<close>, \<open>dst\<close>, \<open>sport\<close> or \<open>dport\<close> starts the reply direction.\<close>

fun extract_first_tuple :: "string list \<Rightarrow> (string \<times> string) list \<Rightarrow> (string \<times> string) list" where
  "extract_first_tuple [] r = r"
| "extract_first_tuple (token # ts) r = (case key_value token of
     None \<Rightarrow> extract_first_tuple ts r
   | Some (k, v) \<Rightarrow>
       if k \<in> fst ` set r then (if k \<in> {''src'', ''dst'', ''sport'', ''dport''} then r else extract_first_tuple ts r)
       else extract_first_tuple ts (r @ [(k, v)]))"

record audit_event =
  ae_time :: string
  ae_type :: string
  ae_instance :: string
  ae_username :: string
  ae_src_ip :: string
  ae_src_port :: "int option"
  ae_dst_ip :: string
  ae_dst_port :: "int option"
  ae_proto :: string
  ae_packets :: "int option"
  ae_bytes :: "int option"
  ae_event :: string
  ae_timestamp :: string

definition event_map :: "(string \<times> string) list" where
  "event_map = [(''NEW'', ''vpn_connection_new''), (''DESTROY'', ''vpn_connection_end'')]"

definition supported_proto :: "string list" where
  "supported_proto = [''tcp'', ''udp'', ''icmp'']"

text \<open>The event among the bracketed texts, and the first text before it.\<close>

fun event_of :: "string list \<Rightarrow> string \<Rightarrow> string \<times> string" where
  "event_of [] ts = ([], ts)"
| "event_of (v # vs) ts = (if v \<in> fst ` set event_map then (v, ts) else event_of vs (if ts = [] then v else ts))"

definition or_empty :: "string \<Rightarrow> (string \<times> string) list \<Rightarrow> string" where
  "or_empty k m = (case map_of m k of None \<Rightarrow> [] | Some v \<Rightarrow> v)"

definition parse_conntrack_event :: "audit_world \<Rightarrow> net \<Rightarrow> (string \<times> string) list \<Rightarrow> string \<Rightarrow> string \<Rightarrow> audit_event option res" where
  "parse_conntrack_event w network names inst line = (if strip line = [] then Inr None
     else (let (values, cleaned) = brackets (strip line); (ev, ts) = event_of values [] in
       case map_of event_map ev of
         None \<Rightarrow> Inr None
       | Some etype \<Rightarrow>
           (let tokens = py_words cleaned; fields = extract_first_tuple tokens []; src = or_empty ''src'' fields in
            if src = [] then Inr None
            else (case ip_parse src of
              None \<Rightarrow> Inl (ValueError src)
            | Some a \<Rightarrow>
                if \<not> in_net a network then Inr None
                else rbind (parse_timestamp w ts) (\<lambda>time. rbind (safe_int (map_of fields ''sport'')) (\<lambda>sport.
                  rbind (safe_int (map_of fields ''dport'')) (\<lambda>dport. rbind (safe_int (map_of fields ''packets'')) (\<lambda>packets.
                  rbind (safe_int (map_of fields ''bytes'')) (\<lambda>bytes.
                  Inr (Some \<lparr>ae_time = time, ae_type = etype, ae_instance = inst, ae_username = or_empty src names, ae_src_ip = src,
                    ae_src_port = sport, ae_dst_ip = or_empty ''dst'' fields, ae_dst_port = dport,
                    ae_proto = (case filter (\<lambda>t. t \<in> set supported_proto) tokens of [] \<Rightarrow> [] | p # _ \<Rightarrow> p),
                    ae_packets = packets, ae_bytes = bytes, ae_event = ev, ae_timestamp = ts\<rparr>))))))))))"

section \<open>The listener\<close>

text \<open>
  The state outside answers whether a stop was requested, runs \<open>conntrack\<close>, waits between two runs and
  reads the client files; \<open>li_log\<close> is the file of events, \<open>li_names\<close> the last map from addresses to users.
\<close>

record 'k listener =
  li_ext :: 'k
  li_log :: "audit_event list"
  li_names :: "(string \<times> string) list"
  li_loaded :: int

record 'k listen_world =
  lw_audit :: "'k \<Rightarrow> audit_world"
  lw_subnet :: "'k \<Rightarrow> string"
  lw_instance :: "'k \<Rightarrow> string"
  lw_stop :: "'k \<Rightarrow> bool \<times> 'k"
  lw_clock :: "'k \<Rightarrow> int"
  lw_ccd :: "'k \<Rightarrow> (string \<times> string) list"
  lw_ccd_fault :: "string \<Rightarrow> bool"
  lw_start :: "'k \<Rightarrow> string list res \<times> 'k"
  lw_exit :: "'k \<Rightarrow> int \<times> 'k"
  lw_append :: "'k \<Rightarrow> unit res \<times> 'k"
  lw_wait :: "'k \<Rightarrow> bool \<times> 'k"

definition should_stop :: "'k listen_world \<Rightarrow> ('k listener, bool) stact" where
  "should_stop w s = (case lw_stop w (li_ext s) of (b, k) \<Rightarrow> ret b (s\<lparr>li_ext := k\<rparr>))"

text \<open>The map is read again after a minute; of two users with one address the later one counts.\<close>

definition names_of :: "'k listen_world \<Rightarrow> 'k \<Rightarrow> (string \<times> string) list" where
  "names_of w k = map (\<lambda>(u, ip). (ip, u)) (rev (list_ccd_ips (lw_ccd_fault w) (lw_ccd w k)))"

definition refresh_username_mapping :: "'k listen_world \<Rightarrow> bool \<Rightarrow> ('k listener, unit) stact" where
  "refresh_username_mapping w force s = (let now = lw_clock w (li_ext s) in
     if \<not> force \<and> now - li_loaded s < 60 then ret () s
     else ret () (s\<lparr>li_names := names_of w (li_ext s), li_loaded := now\<rparr>))"

definition append_event :: "'k listen_world \<Rightarrow> audit_event \<Rightarrow> ('k listener, unit) stact" where
  "append_event w e s = (case lw_append w (li_ext s) of
     (Inl x, k) \<Rightarrow> throw x (s\<lparr>li_ext := k\<rparr>)
   | (Inr _, k) \<Rightarrow> ret () (s\<lparr>li_ext := k, li_log := li_log s @ [e]\<rparr>))"

fun consume_stdout :: "'k listen_world \<Rightarrow> net \<Rightarrow> string \<Rightarrow> string list \<Rightarrow> ('k listener, unit) stact" where
  "consume_stdout w network inst [] = ret ()"
| "consume_stdout w network inst (l # ls) = andthen (should_stop w) (\<lambda>stop.
     if stop then ret ()
     else andthen (refresh_username_mapping w False) (\<lambda>_ s.
       andthen (of_res (parse_conntrack_event (lw_audit w (li_ext s)) network (li_names s) inst l)) (\<lambda>ev.
       case ev of None \<Rightarrow> consume_stdout w network inst ls
       | Some e \<Rightarrow> andthen (append_event w e) (\<lambda>_. consume_stdout w network inst ls)) s))"

definition run_once :: "'k listen_world \<Rightarrow> ('k listener, unit) stact" where
  "run_once w s = (let raw_subnet = strip (lw_subnet w (li_ext s)) in
     if raw_subnet = [] then ret () s
     else (case ip_network raw_subnet of
       None \<Rightarrow> throw (ValueError raw_subnet) s
     | Some network \<Rightarrow> (let inst = lw_instance w (li_ext s) in
         andthen (refresh_username_mapping w True) (\<lambda>_.
         andthen (should_stop w) (\<lambda>stop.
         if stop then ret ()
         else (\<lambda>s. case lw_start w (li_ext s) of
             (Inl e, k) \<Rightarrow> throw e (s\<lparr>li_ext := k\<rparr>)
           | (Inr lines, k) \<Rightarrow> andthen (consume_stdout w network inst lines) (\<lambda>_ s.
               (case lw_exit w (li_ext s) of (code, k') \<Rightarrow>
                 andthen (should_stop w) (\<lambda>stop. if code \<noteq> 0 \<and> \<not> stop then throw (RuntimeError ''conntrack'') else ret ()) (s\<lparr>li_ext := k'\<rparr>)))
               (s\<lparr>li_ext := k\<rparr>)))) s)))"

text \<open>The loop of the thread, for at most so many runs of \<open>conntrack\<close>; \<open>None\<close> when it needs more.\<close>

fun run_forever :: "nat \<Rightarrow> 'k listen_world \<Rightarrow> ('k listener, unit) stact" where
  "run_forever 0 w = (\<lambda>s. None)"
| "run_forever (Suc n) w = andthen (should_stop w) (\<lambda>stop.
     if stop then ret ()
     else andthen (handle (andthen (run_once w) (\<lambda>_. ret False)) (\<lambda>_. should_stop w)) (\<lambda>stopped.
       if stopped then ret ()
       else andthen (should_stop w) (\<lambda>stop.
       if stop then ret ()
       else andthen (\<lambda>s. case lw_wait w (li_ext s) of (b, k) \<Rightarrow> ret b (s\<lparr>li_ext := k\<rparr>)) (\<lambda>set.
         if set then ret ()
         else andthen (should_stop w) (\<lambda>stop. if stop then ret () else run_forever n w)))))"

definition resolve_vpn_instance :: "string \<Rightarrow> string list \<Rightarrow> string" where
  "resolve_vpn_instance vpn_instance_id instances = (if strip vpn_instance_id \<noteq> [] then strip vpn_instance_id
     else (case instances of [nm] \<Rightarrow> nm | _ \<Rightarrow> ''server''))"

end
