(* ===== verification/Conntrack_Props.thy ===== *)
theory Conntrack_Props
  imports Conntrack
begin

text \<open>
  What the connection audit logs: one event for each line about a client of the VPN, in the order of the
  lines, up to the point where the listener was stopped or failed.
\<close>

section \<open>The lines to log\<close>

definition source_of_line :: "string \<Rightarrow> string" where
  "source_of_line l = or_empty ''src'' (extract_first_tuple (py_words (snd (brackets (strip l)))) [])"

definition event_of_line :: "string \<Rightarrow> string" where
  "event_of_line l = fst (event_of (fst (brackets (strip l))) [])"

text \<open>A line with a known event whose original source is an address of the network.\<close>

definition audited :: "net \<Rightarrow> string \<Rightarrow> bool" where
  "audited network l \<longleftrightarrow> map_of event_map (event_of_line l) \<noteq> None
     \<and> (case ip_parse (source_of_line l) of None \<Rightarrow> False | Some a \<Rightarrow> in_net a network)"

text \<open>The event says of the line what it says, and its user is the one the client files gave the address to.\<close>

definition event_for :: "'k listen_world \<Rightarrow> string \<Rightarrow> string \<Rightarrow> audit_event \<Rightarrow> bool" where
  "event_for w inst l e \<longleftrightarrow> Some (ae_type e) = map_of event_map (event_of_line l) \<and> ae_event e = event_of_line l
     \<and> ae_src_ip e = source_of_line l \<and> ae_instance e = inst
     \<and> (\<exists>k. ae_username e = or_empty (source_of_line l) (names_of w k))"

definition log_of :: "'k listen_world \<Rightarrow> net \<Rightarrow> string \<Rightarrow> string list \<Rightarrow> audit_event list \<Rightarrow> bool" where
  "log_of w network inst ls evs \<longleftrightarrow> list_all2 (event_for w inst) (filter (audited network) ls) evs"

definition never_stopped :: "'k listen_world \<Rightarrow> bool" where
  "never_stopped w \<longleftrightarrow> (\<forall>k. \<not> fst (lw_stop w k))"

section \<open>One line\<close>

lemma ip_parse_empty: "ip_parse [] = None"
  by code_simp

lemma ip_network_empty: "ip_network [] = None"
  by code_simp

lemma parse_audited:
  assumes "parse_conntrack_event aw network names inst l = Inr r"
  shows "audited network l \<longleftrightarrow> r \<noteq> None"
  using assms
  by (auto simp: parse_conntrack_event_def audited_def source_of_line_def event_of_line_def Let_def case_prod_beta event_map_def rbind_def ip_parse_empty
      split: if_splits option.splits sum.splits)

lemma parse_event_for:
  assumes "parse_conntrack_event aw network (names_of w k) inst l = Inr (Some e)"
  shows "event_for w inst l e"
  using assms
  by (auto simp: parse_conntrack_event_def event_for_def source_of_line_def event_of_line_def Let_def case_prod_beta rbind_def
      split: if_splits option.splits sum.splits)

section \<open>The lines of one run\<close>

definition named :: "'k listen_world \<Rightarrow> 'k listener \<Rightarrow> bool" where
  "named w s \<longleftrightarrow> (\<exists>k. li_names s = names_of w k)"

lemma should_stop_result: "should_stop w s = Some (Inr (fst (lw_stop w (li_ext s))), s\<lparr>li_ext := snd (lw_stop w (li_ext s))\<rparr>)"
  by (cases "lw_stop w (li_ext s)") (simp add: should_stop_def ret_def)

lemma refresh_result:
  assumes "named w s"
  shows "\<exists>t. refresh_username_mapping w force s = Some (Inr (), t) \<and> named w t \<and> li_log t = li_log s \<and> li_ext t = li_ext s"
  using assms by (auto simp: refresh_username_mapping_def Let_def ret_def named_def)

lemma append_result:
  "\<exists>r t. append_event w e s = Some (r, t) \<and> li_names t = li_names s \<and> li_log t = (case r of Inl _ \<Rightarrow> li_log s | Inr _ \<Rightarrow> li_log s @ [e])"
  by (cases "lw_append w (li_ext s)"; cases "fst (lw_append w (li_ext s))") (auto simp: append_event_def ret_def throw_def)

lemma log_of_Nil [simp]: "log_of w network inst [] []"
  by (simp add: log_of_def)

lemma log_of_Cons:
  assumes "log_of w network inst ls evs"
  shows "\<not> audited network l \<Longrightarrow> log_of w network inst (l # ls) evs"
    and "audited network l \<Longrightarrow> event_for w inst l e \<Longrightarrow> log_of w network inst (l # ls) (e # evs)"
  using assms by (simp_all add: log_of_def)

text \<open>The lines are logged up to some line, and all of them when the listener was neither stopped nor failed.\<close>

definition logs_prefix :: "'k listen_world \<Rightarrow> net \<Rightarrow> string \<Rightarrow> string list \<Rightarrow> 'k listener \<Rightarrow> unit res \<Rightarrow> 'k listener \<Rightarrow> bool" where
  "logs_prefix w network inst ls s r t \<longleftrightarrow> (\<exists>n evs. li_log t = li_log s @ evs \<and> log_of w network inst (take n ls) evs
     \<and> (never_stopped w \<and> r = Inr () \<longrightarrow> length ls \<le> n))"

lemma logs_nothing: "li_log t = li_log s \<Longrightarrow> \<not> never_stopped w \<or> r \<noteq> Inr () \<or> ls = [] \<Longrightarrow> logs_prefix w network inst ls s r t"
  unfolding logs_prefix_def by (intro exI[of _ 0] exI[of _ "[]"]) auto

lemma logs_Cons:
  assumes "logs_prefix w network inst ls s' r t" "li_log s' = li_log s @ es" "if audited network l then \<exists>e. es = [e] \<and> event_for w inst l e else es = []"
  shows "logs_prefix w network inst (l # ls) s r t"
proof -
  obtain n evs where *: "li_log t = li_log s' @ evs" "log_of w network inst (take n ls) evs" "never_stopped w \<and> r = Inr () \<longrightarrow> length ls \<le> n"
    using assms(1) unfolding logs_prefix_def by blast
  have "log_of w network inst (take (Suc n) (l # ls)) (es @ evs)"
    using log_of_Cons[OF *(2)] assms(3) by (auto split: if_splits)
  then show ?thesis unfolding logs_prefix_def
    by (intro exI[of _ "Suc n"] exI[of _ "es @ evs"]) (use * assms(2) in auto)
qed

lemma consume_logs:
  "named w s \<Longrightarrow> \<exists>r t. consume_stdout w network inst ls s = Some (r, t) \<and> named w t \<and> logs_prefix w network inst ls s r t"
proof (induction ls arbitrary: s)
  case Nil
  then show ?case by (auto simp: ret_def logs_nothing)
next
  case (Cons l ls)
  define k where "k = snd (lw_stop w (li_ext s))"
  have k: "should_stop w s = Some (Inr (fst (lw_stop w (li_ext s))), s\<lparr>li_ext := k\<rparr>)"
    unfolding k_def by (rule should_stop_result)
  show ?case
  proof (cases "fst (lw_stop w (li_ext s))")
    case True
    then have "\<not> never_stopped w" by (auto simp: never_stopped_def)
    then show ?thesis using True Cons.prems k by (auto simp: andthen_def ret_def named_def logs_nothing)
  next
    case False
    have "named w (s\<lparr>li_ext := k\<rparr>)" using Cons.prems by (simp add: named_def)
    then obtain t where t: "refresh_username_mapping w False (s\<lparr>li_ext := k\<rparr>) = Some (Inr (), t)" "named w t" "li_log t = li_log s"
      using refresh_result[of w "s\<lparr>li_ext := k\<rparr>" False] by auto
    define p where "p = parse_conntrack_event (lw_audit w (li_ext t)) network (li_names t) inst l"
    note step = andthen_def k False t(1) p_def[symmetric] ret_def throw_def
    show ?thesis
    proof (cases p)
      case (Inl e)
      then show ?thesis using t by (auto simp: step logs_nothing)
    next
      case (Inr ev)
      have aud: "audited network l \<longleftrightarrow> ev \<noteq> None" using parse_audited p_def Inr by metis
      show ?thesis
      proof (cases ev)
        case None
        obtain r u where u: "consume_stdout w network inst ls t = Some (r, u)" "named w u" "logs_prefix w network inst ls t r u"
          using Cons.IH[OF t(2)] by blast
        have "logs_prefix w network inst (l # ls) s r u" using logs_Cons[OF u(3), of s "[]"] t(3) aud None by simp
        then show ?thesis using u Inr None by (auto simp: step)
      next
        case (Some e)
        have ef: "event_for w inst l e" using t(2) Inr Some p_def parse_event_for unfolding named_def by metis
        obtain r u where u: "append_event w e t = Some (r, u)" "li_names u = li_names t" "li_log u = (case r of Inl _ \<Rightarrow> li_log t | Inr _ \<Rightarrow> li_log t @ [e])"
          using append_result by blast
        have nu: "named w u" using t(2) u(2) by (simp add: named_def)
        show ?thesis
        proof (cases r)
          case (Inl x)
          then show ?thesis using u nu t(3) \<open>p = Inr ev\<close> Some by (auto simp: step logs_nothing)
        next
          case (Inr x)
          obtain r' v where v: "consume_stdout w network inst ls u = Some (r', v)" "named w v" "logs_prefix w network inst ls u r' v"
            using Cons.IH[OF nu] by blast
          have "logs_prefix w network inst (l # ls) s r' v"
            using logs_Cons[OF v(3), of s "[e]" l] u(3) t(3) aud Some ef Inr by auto
          then show ?thesis using v u \<open>p = Inr ev\<close> Some Inr by (auto simp: step)
        qed
      qed
    qed
  qed
qed

section \<open>One run\<close>

definition lines_read :: "'k listen_world \<Rightarrow> 'k \<Rightarrow> string list" where
  "lines_read w k = (case fst (lw_start w (snd (lw_stop w k))) of Inl _ \<Rightarrow> [] | Inr ls \<Rightarrow> ls)"

lemma forced_names: "\<exists>t. refresh_username_mapping w True s = Some (Inr (), t) \<and> named w t \<and> li_log t = li_log s \<and> li_ext t = li_ext s"
  by (auto simp: refresh_username_mapping_def Let_def ret_def named_def)

lemma logs_same: "logs_prefix w network inst ls s r t \<Longrightarrow> li_log s = li_log s' \<Longrightarrow> li_log t = li_log t' \<Longrightarrow> r' = Inr () \<longrightarrow> r = Inr ()
    \<Longrightarrow> logs_prefix w network inst ls s' r' t'"
  by (auto simp: logs_prefix_def)

text \<open>C39. One run of the listener always ends.  The events it appends to the log are those of the lines of conntrack
  with a known event whose original source is an address of the VPN, one for each line and in their order, each
  with the type, the source and the instance of its line and the user to whom a client file gives the address.
  They stop at the line at which the listener was stopped or a line or an append failed; a run that returns
  without a stop request has logged every such line.
\<close>

theorem audit_log_exact:
  assumes "ip_network (strip (lw_subnet w (li_ext s))) = Some network"
  shows "\<exists>r t n evs. run_once w s = Some (r, t) \<and> li_log t = li_log s @ evs
    \<and> list_all2 (event_for w (lw_instance w (li_ext s))) (filter (audited network) (take n (lines_read w (li_ext s)))) evs
    \<and> (never_stopped w \<and> r = Inr () \<longrightarrow> length (lines_read w (li_ext s)) \<le> n)"
proof -
  let ?inst = "lw_instance w (li_ext s)" and ?ls = "lines_read w (li_ext s)"
  have ne: "strip (lw_subnet w (li_ext s)) \<noteq> []" using assms by (auto simp: ip_network_empty)
  obtain t where t: "refresh_username_mapping w True s = Some (Inr (), t)" "named w t" "li_log t = li_log s" "li_ext t = li_ext s"
    using forced_names by blast
  define k where "k = snd (lw_stop w (li_ext s))"
  have k: "should_stop w t = Some (Inr (fst (lw_stop w (li_ext s))), t\<lparr>li_ext := k\<rparr>)"
    using should_stop_result[of w t] t(4) by (simp add: k_def)
  note step = run_once_def Let_def assms ne andthen_def t(1) k ret_def throw_def
  have "\<exists>r u. run_once w s = Some (r, u) \<and> logs_prefix w network ?inst ?ls s r u"
  proof (cases "fst (lw_stop w (li_ext s))")
    case True
    then have "\<not> never_stopped w" by (auto simp: never_stopped_def)
    then show ?thesis using True t(3) by (simp add: step logs_nothing)
  next
    case False
    show ?thesis
    proof (cases "lw_start w k")
      case (Pair st k')
      show ?thesis
      proof (cases st)
        case (Inl e)
        then show ?thesis using False Pair t(3) by (simp add: step logs_nothing)
      next
        case (Inr ls)
        have ls: "?ls = ls" using Pair Inr by (simp add: lines_read_def k_def)
        have "named w (t\<lparr>li_ext := k'\<rparr>)" using t(2) by (simp add: named_def)
        then obtain r u where u: "consume_stdout w network ?inst ls (t\<lparr>li_ext := k'\<rparr>) = Some (r, u)"
            "logs_prefix w network ?inst ls (t\<lparr>li_ext := k'\<rparr>) r u"
          using consume_logs by blast
        show ?thesis
        proof (cases r)
          case (Inl e)
          then show ?thesis using False Pair Inr u t(3) ls logs_same[OF u(2), of s u r] by (simp add: step)
        next
          case r: (Inr x)
          show ?thesis
            using False Pair Inr u t(3) ls r logs_same[OF u(2), of s _ _]
            by (cases "lw_exit w (li_ext u)") (auto simp: step should_stop_result t(4) k_def[symmetric])
        qed
      qed
    qed
  qed
  then show ?thesis unfolding logs_prefix_def log_of_def by blast
qed

text \<open>Four lines: a new connection of a client, one of another host, an update and the end of the first.\<close>

definition demo_conntrack :: "string list" where
  "demo_conntrack = [''[1700000000.1] [NEW] tcp 6 120 SYN_SENT src=10.8.0.6 dst=10.0.0.2 sport=4000 dport=443 src=10.0.0.2 dst=10.8.0.6 sport=443 dport=4000'',
    ''[1700000001.2] [NEW] udp 17 30 src=192.168.1.9 dst=10.0.0.2 sport=53 dport=53'',
    ''[1700000002.3] [UPDATE] tcp 6 60 src=10.8.0.6 dst=10.0.0.2'',
    ''[1700000003.4] [DESTROY] tcp 6 src=10.8.0.6 dst=10.0.0.2 sport=4000 dport=443'']"

definition demo_listen :: "nat listen_world" where
  "demo_listen = \<lparr>lw_audit = \<lambda>_. \<lparr>aw_now = ''now'', aw_epoch = Inr, aw_iso = Inr\<rparr>, lw_subnet = \<lambda>_. ''10.8.0.0/24'', lw_instance = \<lambda>_. ''server'',
    lw_stop = \<lambda>k. (False, Suc k), lw_clock = int, lw_ccd = \<lambda>_. [(''alice'', ''ifconfig-push 10.8.0.6 255.255.255.0'')], lw_ccd_fault = \<lambda>_. False,
    lw_start = \<lambda>k. (Inr demo_conntrack, Suc k), lw_exit = \<lambda>k. (0, Suc k), lw_append = \<lambda>k. (Inr (), Suc k), lw_wait = \<lambda>k. (True, Suc k)\<rparr>"

definition demo_listener :: "nat listener" where
  "demo_listener = \<lparr>li_ext = 0, li_log = [], li_names = [], li_loaded = 0\<rparr>"

lemma audit_log_exact_witness:
  "(\<exists>r t n evs. run_once demo_listen demo_listener = Some (r, t) \<and> li_log t = li_log demo_listener @ evs
      \<and> list_all2 (event_for demo_listen ''server'') (filter (audited \<lparr>net_addr = 168296448, net_plen = 24\<rparr>) (take n demo_conntrack)) evs
      \<and> (never_stopped demo_listen \<and> r = Inr () \<longrightarrow> length demo_conntrack \<le> n))
    \<and> map_option (\<lambda>(r, t). (r, map (\<lambda>e. (ae_event e, ae_username e, ae_dst_port e)) (li_log t))) (run_once demo_listen demo_listener)
      = Some (Inr (), [(''NEW'', ''alice'', Some 443), (''DESTROY'', ''alice'', Some 443)])"
proof
  have net: "ip_network (strip (lw_subnet demo_listen (li_ext demo_listener))) = Some \<lparr>net_addr = 168296448, net_plen = 24\<rparr>" by code_simp
  have "lw_instance demo_listen (li_ext demo_listener) = ''server''" "lines_read demo_listen (li_ext demo_listener) = demo_conntrack"
    by (simp_all add: lines_read_def demo_listen_def)
  then show "\<exists>r t n evs. run_once demo_listen demo_listener = Some (r, t) \<and> li_log t = li_log demo_listener @ evs
      \<and> list_all2 (event_for demo_listen ''server'') (filter (audited \<lparr>net_addr = 168296448, net_plen = 24\<rparr>) (take n demo_conntrack)) evs
      \<and> (never_stopped demo_listen \<and> r = Inr () \<longrightarrow> length demo_conntrack \<le> n)"
    using audit_log_exact[OF net] by simp
  show "map_option (\<lambda>(r, t). (r, map (\<lambda>e. (ae_event e, ae_username e, ae_dst_port e)) (li_log t))) (run_once demo_listen demo_listener)
      = Some (Inr (), [(''NEW'', ''alice'', Some 443), (''DESTROY'', ''alice'', Some 443)])"
    by code_simp
qed

end
