(* ===== verification/System_Config.thy ===== *)
theory System_Config
  imports Ipaddress Json Actions
begin

text \<open>
  \<open>app/models/config.py\<close> and \<open>app/core/config.py\<close>: the configuration of the system.  The class is the table of
  its fields with their types, defaults and validators; a value of the class is the dict \<open>model_dump\<close> makes of it.
  The text of JSON is of some type.  How pydantic reads a number or a truth value, the text of JSON, \<open>repr\<close>, the clock and IPv6 are parameters.
\<close>

section \<open>Fields\<close>

record 't config_world =
  cw_now :: string
  cw_stamp :: string
  cw_rep :: "json \<Rightarrow> string"
  cw_bool :: "json \<Rightarrow> bool res"
  cw_int :: "json \<Rightarrow> int res"
  cw_ipv6 :: "string \<Rightarrow> nat option"
  cw_loads :: "'t \<Rightarrow> json res"
  cw_dumps :: "json \<Rightarrow> 't"

datatype field_type =
    FBool
  | FInt "(int \<times> int) option"
  | FStr
  | FOptStr "nat option"
  | FDict
  | FOneOf "string list"
  | FStrs
  | FOptStrOrStrs

definition notify_providers :: "string list" where
  "notify_providers = [''none'', ''dingtalk'', ''wework'', ''rocketchat'']"

definition device_bind_modes :: "string list" where
  "device_bind_modes = [''weak_log'', ''weak_fingerprint'', ''strict_hwaddr'']"

definition github_proxies :: "string list" where
  "github_proxies = [''https://gh-proxy.org/'', ''https://cdn.gh-proxy.org/'', ''https://gh.llkk.cc/'']"

definition jstrs :: "string list \<Rightarrow> json" where
  "jstrs ts = JList (map JStr ts)"

text \<open>The text of the default user name for Rocket.Chat is in UTF-8.\<close>

definition config_fields :: "'t config_world \<Rightarrow> (string \<times> field_type \<times> json) list" where
  "config_fields w = [
     (''initialized'', FBool, JBool False),
     (''admin_username'', FOptStr (Some 128), JNull),
     (''admin_password_hash'', FOptStr (Some 512), JNull),
     (''admin_session_lifetime_minutes'', FInt (Some (5, 10080)), JInt 480),
     (''admin_reconnect_timeout_seconds'', FInt (Some (3, 3600)), JInt 300),
     (''global_subnet'', FOptStr None, JNull),
     (''openvpn_bin'', FOptStr None, JNull),
     (''easyrsa_dir'', FOptStr None, JNull),
     (''pki_dir'', FOptStr None, JNull),
     (''instances'', FDict, JObj []),
     (''vpn_instance_id'', FOptStr None, JNull),
     (''server_ip'', FOptStr None, JNull),
     (''port'', FInt None, JInt 1194),
     (''proto'', FStr, JStr ''udp''),
     (''max_clients'', FInt (Some (16, 65534)), JInt 2048),
     (''notify_enabled'', FBool, JBool False),
     (''notify_provider'', FOneOf notify_providers, JStr ''none''),
     (''dingtalk_webhook'', FOptStr None, JNull),
     (''dingtalk_secret'', FOptStr None, JNull),
     (''wework_webhook'', FOptStr None, JNull),
     (''rocketchat_webhook'', FOptStr None, JNull),
     (''rocketchat_channel'', FOptStrOrStrs, JNull),
     (''rocketchat_username'', FOptStr None, JStr (''VPN'' @ [CHR 0xE7, CHR 0xAE, CHR 0xA1, CHR 0xE7, CHR 0x90, CHR 0x86])),
     (''rocketchat_icon_emoji'', FOptStr None, JStr '':lock:''),
     (''rocketchat_title'', FOptStr None, JStr ''OpenVPN''),
     (''download_base_url'', FOptStr None, JNull),
     (''github_proxy_urls'', FStrs, jstrs github_proxies),
     (''push_lan_routes'', FStrs, JList []),
     (''device_bind_mode'', FOneOf device_bind_modes, JStr ''weak_fingerprint''),
     (''global_ssh_private_key'', FOptStr None, JNull),
     (''global_ssh_private_key_passphrase'', FOptStr None, JNull),
     (''created_at'', FOptStr None, JStr (cw_now w)),
     (''updated_at'', FOptStr None, JStr (cw_now w))]"

section \<open>Validators\<close>

definition bad :: "string \<Rightarrow> 'a res" where
  "bad m = Inl (ValueError m)"

text \<open>What a field of each type accepts.\<close>

definition all_strs :: "json list \<Rightarrow> bool" where
  "all_strs xs \<longleftrightarrow> list_all (\<lambda>x. case x of JStr _ \<Rightarrow> True | _ \<Rightarrow> False) xs"

fun typed_value :: "'t config_world \<Rightarrow> field_type \<Rightarrow> json \<Rightarrow> json res" where
  "typed_value w FBool v = rbind (cw_bool w v) (\<lambda>b. Inr (JBool b))"
| "typed_value w (FInt limits) v = rbind (cw_int w v) (\<lambda>n. case limits of
     None \<Rightarrow> Inr (JInt n)
   | Some (lo, hi) \<Rightarrow> if lo \<le> n \<and> n \<le> hi then Inr (JInt n) else bad ''range'')"
| "typed_value w FStr v = (case v of JStr s \<Rightarrow> Inr v | _ \<Rightarrow> bad ''str'')"
| "typed_value w (FOptStr limit) v = (case v of
     JNull \<Rightarrow> Inr v
   | JStr s \<Rightarrow> (case limit of None \<Rightarrow> Inr v | Some n \<Rightarrow> if length s \<le> n then Inr v else bad ''length'')
   | _ \<Rightarrow> bad ''str'')"
| "typed_value w FDict v = (case v of JObj x \<Rightarrow> Inr v | _ \<Rightarrow> bad ''dict'')"
| "typed_value w (FOneOf names) v = (case v of JStr s \<Rightarrow> if s \<in> set names then Inr v else bad ''literal'' | _ \<Rightarrow> bad ''literal'')"
| "typed_value w FStrs v = (case v of JList xs \<Rightarrow> if all_strs xs then Inr v else bad ''list'' | _ \<Rightarrow> bad ''list'')"
| "typed_value w FOptStrOrStrs v = (case v of JNull \<Rightarrow> Inr v | JStr s \<Rightarrow> Inr v
     | JList xs \<Rightarrow> if all_strs xs then Inr v else bad ''list'' | _ \<Rightarrow> bad ''str'')"

definition normalize_admin_credentials :: "'t config_world \<Rightarrow> json \<Rightarrow> json" where
  "normalize_admin_credentials w v = (if v = JNull then JNull
     else (let s = strip (py_str (cw_rep w) v) in if s = [] then JNull else JStr s))"

definition normalize_device_bind_mode :: "'t config_world \<Rightarrow> json \<Rightarrow> json" where
  "normalize_device_bind_mode w v = (if v = JNull \<or> v = JStr [] then JStr ''weak_fingerprint''
     else (let s = strip (py_str (cw_rep w) v) in JStr (if s \<in> set device_bind_modes then s else ''weak_fingerprint'')))"

definition parse_push_lan_routes :: "'t config_world \<Rightarrow> json \<Rightarrow> json" where
  "parse_push_lan_routes w v = (case v of
     JStr s \<Rightarrow> jstrs (strip_all (splitlines s))
   | JList xs \<Rightarrow> jstrs (strip_all (map (py_str (cw_rep w)) xs))
   | _ \<Rightarrow> JList [])"

definition or_default :: "string list \<Rightarrow> string list" where
  "or_default ts = (if ts = [] then github_proxies else ts)"

definition validate_github_proxy_urls :: "'t config_world \<Rightarrow> json \<Rightarrow> json" where
  "validate_github_proxy_urls w v = (case v of
     JNull \<Rightarrow> jstrs github_proxies
   | JStr s \<Rightarrow> jstrs (or_default (strip_all (splitlines s)))
   | JList xs \<Rightarrow> jstrs (or_default (strip_all (map (py_str (cw_rep w)) xs)))
   | _ \<Rightarrow> v)"

definition route_value :: "json \<Rightarrow> json res" where
  "route_value x = (case x of
     JStr s \<Rightarrow> (case ip_network s of Some n \<Rightarrow> Inr (JStr (net_str n)) | None \<Rightarrow> bad s)
   | _ \<Rightarrow> bad ''route'')"

definition validate_push_lan_routes :: "'t config_world \<Rightarrow> json \<Rightarrow> json res" where
  "validate_push_lan_routes w v = (case v of
     JList xs \<Rightarrow> rbind (mapM route_value xs) (\<lambda>ys. Inr (JList ys))
   | _ \<Rightarrow> Inr v)"

text \<open>The prefix of the global pool, in IPv4 or IPv6, is at least 16.\<close>

definition validate_global_pool :: "'t config_world \<Rightarrow> json \<Rightarrow> json res" where
  "validate_global_pool w v = (case v of
     JStr s \<Rightarrow> (case (case ip_network s of Some n \<Rightarrow> Some (net_plen n) | None \<Rightarrow> cw_ipv6 w s) of
        None \<Rightarrow> bad s
      | Some p \<Rightarrow> if p < 16 then bad s else Inr v)
   | _ \<Rightarrow> Inr v)"

definition before_type :: "'t config_world \<Rightarrow> string \<Rightarrow> json \<Rightarrow> json" where
  "before_type w name v = (if name \<in> {''admin_username'', ''admin_password_hash''} then normalize_admin_credentials w v
     else if name = ''device_bind_mode'' then normalize_device_bind_mode w v
     else if name = ''push_lan_routes'' then parse_push_lan_routes w v
     else if name = ''github_proxy_urls'' then validate_github_proxy_urls w v
     else v)"

definition after_type :: "'t config_world \<Rightarrow> string \<Rightarrow> json \<Rightarrow> json res" where
  "after_type w name v = (if name = ''global_subnet'' then validate_global_pool w v
     else if name = ''push_lan_routes'' then validate_push_lan_routes w v
     else Inr v)"

section \<open>The class\<close>

text \<open>The text of an Argon2id hash: \<open>$argon2id$v=19$m=\<dots>,t=\<dots>,p=\<dots>$salt$hash\<close>.\<close>

definition base64_char :: "char \<Rightarrow> bool" where
  "base64_char c \<longleftrightarrow> is_digit c \<or> c \<in> {CHR ''+'', CHR ''/''} \<or> (CHR ''a'' \<le> c \<and> c \<le> CHR ''z'') \<or> (CHR ''A'' \<le> c \<and> c \<le> CHR ''Z'')"

definition base64_text :: "string \<Rightarrow> bool" where
  "base64_text s \<longleftrightarrow> takeWhile base64_char s \<noteq> [] \<and> dropWhile base64_char s \<in> {[], ''='', ''==''}"

definition number_after :: "string \<Rightarrow> string \<Rightarrow> bool" where
  "number_after p s \<longleftrightarrow> starts_with s p \<and> drop (length p) s \<noteq> [] \<and> list_all is_digit (drop (length p) s)"

definition argon2id_hash :: "string \<Rightarrow> bool" where
  "argon2id_hash s \<longleftrightarrow> (case split_on (CHR ''$'') s of
     [a, b, c, d, salt, h] \<Rightarrow> a = [] \<and> b = ''argon2id'' \<and> c = ''v=19'' \<and> base64_text salt \<and> base64_text h
       \<and> (case split_on (CHR '','') d of
            [m, t, p] \<Rightarrow> number_after ''m='' m \<and> number_after ''t='' t \<and> number_after ''p='' p
          | _ \<Rightarrow> False)
   | _ \<Rightarrow> False)"

definition plain_username :: "string \<Rightarrow> bool" where
  "plain_username s \<longleftrightarrow> list_all (\<lambda>c. \<not> py_space c \<and> \<not> of_char c < (32 :: nat)) s"

definition validate_admin_credentials :: "jobj \<Rightarrow> jobj res" where
  "validate_admin_credentials x = (case (jget ''admin_username'' x, jget ''admin_password_hash'' x) of
     (JNull, JNull) \<Rightarrow> Inr x
   | (JStr u, JStr h) \<Rightarrow> if \<not> plain_username u then bad ''admin_username'' else if \<not> argon2id_hash h then bad ''admin_password_hash'' else Inr x
   | _ \<Rightarrow> bad ''credentials'')"

definition admin_auth_enabled :: "jobj \<Rightarrow> bool" where
  "admin_auth_enabled x \<longleftrightarrow> jget ''admin_username'' x \<noteq> JNull \<and> jget ''admin_password_hash'' x \<noteq> JNull"

definition migrate_legacy_dingtalk_notify :: "'t config_world \<Rightarrow> jobj \<Rightarrow> jobj" where
  "migrate_legacy_dingtalk_notify w d = (
     if ''notify_enabled'' \<notin> fst ` set d \<and> ''notify_provider'' \<notin> fst ` set d \<and> strip (str_or (cw_rep w) (jget ''dingtalk_webhook'' d)) \<noteq> []
     then jset ''notify_provider'' (JStr ''dingtalk'') (jset ''notify_enabled'' (JBool True) d) else d)"

definition validated_field :: "'t config_world \<Rightarrow> jobj \<Rightarrow> string \<times> field_type \<times> json \<Rightarrow> (string \<times> json) res" where
  "validated_field w d = (\<lambda>(name, t, default). case map_of d name of
     None \<Rightarrow> Inr (name, default)
   | Some v \<Rightarrow> rbind (typed_value w t (before_type w name v)) (\<lambda>u. rbind (after_type w name u) (\<lambda>u. Inr (name, u))))"

definition system_config :: "'t config_world \<Rightarrow> jobj \<Rightarrow> jobj res" where
  "system_config w d = rbind (mapM (validated_field w (migrate_legacy_dingtalk_notify w d)) (config_fields w)) validate_admin_credentials"

section \<open>The file\<close>

record 't config_files =
  cg_file :: "'t option"
  cg_tmp :: "'t option"
  cg_faults :: "exn option list"

definition optional_string_fields :: "string list" where
  "optional_string_fields = [''admin_username'', ''admin_password_hash'', ''global_subnet'', ''openvpn_bin'', ''easyrsa_dir'', ''pki_dir'',
     ''vpn_instance_id'', ''server_ip'', ''dingtalk_webhook'', ''dingtalk_secret'', ''wework_webhook'', ''rocketchat_webhook'',
     ''rocketchat_channel'', ''rocketchat_username'', ''rocketchat_icon_emoji'', ''rocketchat_title'', ''download_base_url'',
     ''global_ssh_private_key'', ''global_ssh_private_key_passphrase'', ''created_at'', ''updated_at'']"

definition normalize_config_data :: "jobj \<Rightarrow> jobj" where
  "normalize_config_data d = map (\<lambda>(k, v). (k, if k \<in> set optional_string_fields \<and> v = JObj [] then JNull else v)) d"

text \<open>\<open>dict(data or {})\<close> of what the file holds.\<close>

definition as_dict :: "json \<Rightarrow> jobj res" where
  "as_dict v = (case v of JObj x \<Rightarrow> Inr x | _ \<Rightarrow> if truthy v then Inl (TypeError ''dict'') else Inr [])"

definition load_config :: "'t config_world \<Rightarrow> 't config_files \<Rightarrow> jobj res" where
  "load_config w s = (case cg_file s of
     None \<Rightarrow> system_config w []
   | Some t \<Rightarrow> rbind (cw_loads w t) (\<lambda>v. rbind (as_dict v) (\<lambda>d. system_config w (normalize_config_data d))))"

text \<open>A step on the file system; the oracle says which one fails.\<close>

definition file_step :: "('t config_files \<Rightarrow> 't config_files) \<Rightarrow> ('t config_files, unit) stact" where
  "file_step f s = (case cg_faults s of
     Some e # es \<Rightarrow> throw e (s\<lparr>cg_faults := es\<rparr>)
   | None # es \<Rightarrow> ret () (f (s\<lparr>cg_faults := es\<rparr>))
   | [] \<Rightarrow> ret () (f s))"

definition save_config :: "'t config_world \<Rightarrow> jobj \<Rightarrow> ('t config_files, unit) stact" where
  "save_config w data = andthen (file_step id) (\<lambda>_. case system_config w (normalize_config_data data) of
     Inl e \<Rightarrow> throw e
   | Inr x \<Rightarrow> (let t = cw_dumps w (JObj (jset ''updated_at'' (JStr (cw_stamp w)) x)) in
       andthen (file_step (\<lambda>s. s\<lparr>cg_tmp := Some t\<rparr>)) (\<lambda>_.
       file_step (\<lambda>s. s\<lparr>cg_file := cg_tmp s, cg_tmp := None\<rparr>))))"

end
