(* ===== verification/System_Config_Props.thy ===== *)
theory System_Config_Props
  imports System_Config
begin

text \<open>
  A configuration that was saved is loaded back as it is: every validator of the class leaves the values
  alone that it has made.
\<close>

section \<open>Values the validators keep\<close>

text \<open>What pydantic and the text of JSON are used for: numbers and truth values are read as themselves, and a dict is read back.\<close>

definition reads_back :: "'t config_world \<Rightarrow> bool" where
  "reads_back w \<longleftrightarrow> (\<forall>x. cw_loads w (cw_dumps w (JObj x)) = Inr (JObj x)) \<and> (\<forall>b. cw_bool w (JBool b) = Inr b) \<and> (\<forall>n. cw_int w (JInt n) = Inr n)"

definition stable_value :: "'t config_world \<Rightarrow> string \<Rightarrow> field_type \<Rightarrow> json \<Rightarrow> bool" where
  "stable_value w n t u \<longleftrightarrow> typed_value w t (before_type w n u) = Inr u \<and> after_type w n u = Inr u"

lemma typed_again:
  "reads_back w \<Longrightarrow> typed_value w t v = Inr u \<Longrightarrow> typed_value w t u = Inr u"
proof (cases t)
  case (FInt limits)
  assume "reads_back w" "typed_value w t v = Inr u"
  then obtain n where "u = JInt n" "cw_int w (JInt n) = Inr n" "limits = None \<or> (\<exists>a b. limits = Some (a, b) \<and> a \<le> n \<and> n \<le> b)"
    using FInt by (cases limits) (auto simp: reads_back_def rbind_Inr_iff bad_def split: if_splits)
  then show ?thesis using FInt by auto
qed (auto simp: reads_back_def rbind_Inr_iff bad_def split: json.splits option.splits if_splits)

lemma all_strs_jstrs [simp]: "all_strs (map JStr ts)"
  by (auto simp: all_strs_def list_all_iff)

lemma all_strs_iff: "all_strs xs \<Longrightarrow> \<exists>ts. xs = map JStr ts"
proof (induction xs)
  case (Cons x xs)
  then obtain ts where "xs = map JStr ts" by (auto simp: all_strs_def)
  moreover obtain s where "x = JStr s" using Cons.prems by (cases x) (auto simp: all_strs_def)
  ultimately show ?case by (intro exI [of _ "s # ts"]) simp
qed simp

lemma map_py_str [simp]: "map (py_str rep) (map JStr ts) = ts"
  by (induction ts) auto

lemma parse_routes_strs: "parse_push_lan_routes w (jstrs ts) = jstrs (strip_all ts)"
  unfolding parse_push_lan_routes_def jstrs_def json.case map_py_str by simp

lemma github_strs: "validate_github_proxy_urls w (jstrs ts) = jstrs (or_default (strip_all ts))"
  unfolding validate_github_proxy_urls_def jstrs_def json.case map_py_str by simp

lemma admin_settled: "normalize_admin_credentials w (normalize_admin_credentials w v) = normalize_admin_credentials w v"
  by (auto simp: normalize_admin_credentials_def Let_def)

lemma mode_settled: "normalize_device_bind_mode w (normalize_device_bind_mode w v) = normalize_device_bind_mode w v"
proof -
  have *: "strip s = s" if "s \<in> set device_bind_modes" for s
    using that by (auto simp: device_bind_modes_def) code_simp+
  have f: "''weak_fingerprint'' \<in> set device_bind_modes" "[] \<notin> set device_bind_modes" by (simp_all add: device_bind_modes_def)
  show ?thesis using * f by (auto simp: normalize_device_bind_mode_def Let_def)
qed

lemma github_settled: "validate_github_proxy_urls w v = JList xs \<Longrightarrow> validate_github_proxy_urls w (JList xs) = JList xs"
proof -
  have g: "strip_all github_proxies = github_proxies" by code_simp
  have r: "or_default (strip_all (or_default (strip_all ts))) = or_default (strip_all ts)" for ts
    using g by (simp add: or_default_def)
  assume "validate_github_proxy_urls w v = JList xs"
  then obtain ts where "xs = map JStr (or_default (strip_all ts)) \<or> xs = map JStr github_proxies"
    by (auto simp: validate_github_proxy_urls_def jstrs_def split: json.splits)
  then obtain us where "xs = map JStr us" "or_default (strip_all us) = us" using r g by (auto simp: or_default_def)
  then show ?thesis using github_strs [of w us] by (simp add: jstrs_def)
qed

lemma route_value_str: "route_value (JStr t) = (case ip_network t of Some n \<Rightarrow> Inr (JStr (net_str n)) | None \<Rightarrow> bad t)"
  by (simp add: route_value_def)

lemma route_value_strD: "route_value (JStr t) = Inr y \<Longrightarrow> \<exists>n. ip_network t = Some n \<and> y = JStr (net_str n)"
  by (auto simp: route_value_str bad_def split: option.splits)

lemma routes_settled:
  assumes "validate_push_lan_routes w (jstrs ts) = Inr u"
  shows "\<exists>ns. u = jstrs (map net_str ns) \<and> parse_push_lan_routes w u = u \<and> validate_push_lan_routes w u = Inr u"
proof -
  obtain ys where ys: "mapM route_value (map JStr ts) = Inr ys" "u = JList ys"
    using assms by (auto simp: validate_push_lan_routes_def jstrs_def rbind_Inr_iff)
  have "\<exists>ns. ys = map (JStr \<circ> net_str) ns \<and> (\<forall>n\<in>set ns. net_ok n)" using ys(1)
  proof (induction ts arbitrary: ys)
    case (Cons t ts)
    then obtain n zs where n: "ip_network t = Some n" "ys = JStr (net_str n) # zs"
        "mapM route_value (map JStr ts) = Inr zs"
      by (auto simp: rbind_Inr_iff dest!: route_value_strD)
    obtain ns where "zs = map (JStr \<circ> net_str) ns" "\<forall>n\<in>set ns. net_ok n" using Cons.IH [OF n(3)] by blast
    then show ?case using n ip_network_ok by (intro exI [of _ "n # ns"]) auto
  qed simp
  then obtain ns where ns: "ys = map (JStr \<circ> net_str) ns" "\<forall>n\<in>set ns. net_ok n" by blast
  have u: "u = jstrs (map net_str ns)" using ys(2) ns(1) by (simp add: jstrs_def)
  have ne: "net_str n \<noteq> []" for n by (simp add: net_str_def)
  have "strip_all (map net_str ns) = map net_str ns" using ne by (induction ns) (auto simp: strip_all_def)
  then have p: "parse_push_lan_routes w u = u" using u by (simp add: parse_routes_strs)
  have "mapM route_value
      (map JStr (map net_str ns)) = Inr (map JStr (map net_str ns))"
    using ns(2) by (induction ns) (auto simp: ip_network_str route_value_str)
  then have "validate_push_lan_routes w u = Inr u" using u by (simp add: validate_push_lan_routes_def jstrs_def)
  then show ?thesis using u p by blast
qed

text \<open>The validators of a field belong to its type.\<close>

definition fitting :: "string \<Rightarrow> field_type \<Rightarrow> bool" where
  "fitting n t \<longleftrightarrow> (n = ''push_lan_routes'' \<longrightarrow> t = FStrs) \<and> (n = ''github_proxy_urls'' \<longrightarrow> t = FStrs)
     \<and> (n \<in> {''admin_username'', ''admin_password_hash''} \<longrightarrow> (\<exists>m. t = FOptStr m)) \<and> (n = ''device_bind_mode'' \<longrightarrow> (\<exists>m. t = FOneOf m))"

lemma validated_settled:
  assumes "reads_back w" "fitting n t" "typed_value w t (before_type w n v) = Inr u'" "after_type w n u' = Inr u"
  shows "stable_value w n t u"
proof (cases "n = ''push_lan_routes''")
  case True
  have "\<exists>ts. parse_push_lan_routes w v = jstrs ts"
    by (cases v) (auto simp: parse_push_lan_routes_def jstrs_def intro: exI [of _ "[]"])
  then obtain ts where "before_type w n v = jstrs ts" using True by (auto simp: before_type_def)
  moreover have "t = FStrs" using assms(2) True by (simp add: fitting_def)
  ultimately have "u' = jstrs ts" using assms(3) by (simp add: jstrs_def)
  then have "validate_push_lan_routes w (jstrs ts) = Inr u" using assms(4) True by (simp add: after_type_def)
  then show ?thesis using routes_settled [of w ts u] True \<open>t = FStrs\<close>
    by (auto simp: stable_value_def before_type_def after_type_def jstrs_def simp del: map_map)
next
  case False
  have u: "u = u'"
    using assms(4) False by (auto simp: after_type_def validate_global_pool_def bad_def split: if_splits json.splits option.splits)
  have again: "typed_value w t u = Inr u" using typed_again assms(1,3) u by blast
  have "before_type w n u = u"
  proof (cases "n = ''github_proxy_urls''")
    case True
    then have "t = FStrs" using assms(2) by (simp add: fitting_def)
    then obtain xs where "before_type w n v = JList xs" "u = JList xs"
      using assms(3) u by (auto simp: bad_def split: json.splits if_splits)
    then show ?thesis using True github_settled [of w v xs] by (simp add: before_type_def)
  next
    case nogit: False
    show ?thesis
    proof (cases "n \<in> {''admin_username'', ''admin_password_hash'', ''device_bind_mode''}")
      case True
      then have "(\<exists>m. t = FOptStr m) \<or> (\<exists>m. t = FOneOf m)" using assms(2) by (auto simp: fitting_def)
      then have "u = before_type w n v" using assms(3) u by (auto simp: bad_def split: json.splits option.splits if_splits)
      then show ?thesis using True nogit \<open>n \<noteq> ''push_lan_routes''\<close> by (auto simp: before_type_def admin_settled mode_settled)
    next
      case False
      then show ?thesis using nogit \<open>n \<noteq> ''push_lan_routes''\<close> by (simp add: before_type_def)
    qed
  qed
  then show ?thesis using again assms(4) u by (simp add: stable_value_def)
qed

section \<open>The whole class\<close>

lemma fields_fit: "(n, t, d) \<in> set (config_fields w) \<Longrightarrow> fitting n t"
  by (auto simp: config_fields_def fitting_def)

lemma fields_distinct: "distinct (map fst (config_fields w))"
  by (simp add: config_fields_def)

lemma default_settled:
  assumes "reads_back w" "(n, t, d) \<in> set (config_fields w)"
  shows "stable_value w n t d"
proof -
  have p: "parse_push_lan_routes w (JList []) = JList []" "validate_push_lan_routes w (JList []) = Inr (JList [])"
    using parse_routes_strs [of w "[]"] by (simp_all add: jstrs_def strip_all_def validate_push_lan_routes_def)
  have "or_default (strip_all github_proxies) = github_proxies" by code_simp
  then have g: "validate_github_proxy_urls w (jstrs github_proxies) = jstrs github_proxies" by (simp add: github_strs)
  have m: "normalize_device_bind_mode w (JStr ''weak_fingerprint'') = JStr ''weak_fingerprint''" 
    using mode_settled [of w JNull] by (simp add: normalize_device_bind_mode_def)
  have a: "normalize_admin_credentials w JNull = JNull" by (simp add: normalize_admin_credentials_def)
  have z: "all_strs []" by (simp add: all_strs_def)
  have "list_all (\<lambda>(n, t, d). typed_value w t d = Inr d) (config_fields w)"
    using assms(1) by (simp add: config_fields_def reads_back_def notify_providers_def device_bind_modes_def jstrs_def z)
  moreover have "list_all (\<lambda>(n, t, d). before_type w n d = d) (config_fields w)"
    using p g m a by (simp add: config_fields_def before_type_def)
  moreover have "list_all (\<lambda>(n, t, d). after_type w n d = Inr d) (config_fields w)"
    using p by (simp add: config_fields_def after_type_def validate_global_pool_def)
  ultimately show ?thesis using assms(2) by (fastforce simp: stable_value_def list_all_iff)
qed

lemma field_settled:
  assumes "reads_back w" "(n, t, d) \<in> set (config_fields w)" "validated_field w x (n, t, d) = Inr (m, u)"
  shows "m = n \<and> stable_value w n t u"
proof (cases "map_of x n")
  case None
  then show ?thesis using assms(3) default_settled [OF assms(1,2)] by (simp add: validated_field_def)
next
  case (Some v)
  then obtain u' where "typed_value w t (before_type w n v) = Inr u'" "after_type w n u' = Inr u" "m = n"
    using assms(3) by (auto simp: validated_field_def rbind_Inr_iff)
  then show ?thesis using validated_settled [OF assms(1) fields_fit [OF assms(2)]] by simp
qed

lemma validated_names: "mapM (validated_field w d) fs = Inr x \<Longrightarrow> map fst x = map fst fs"
proof (induction fs arbitrary: x)
  case (Cons f fs)
  then obtain y ys where "validated_field w d f = Inr y" "mapM (validated_field w d) fs = Inr ys" "x = y # ys" by (auto simp: rbind_Inr_iff)
  moreover have "fst y = fst f" using calculation(1) by (auto simp: validated_field_def rbind_Inr_iff split: prod.splits option.splits)
  ultimately show ?case using Cons.IH by simp
qed simp

lemma admin_kept: "validate_admin_credentials x = Inr y \<Longrightarrow> y = x"
  by (cases "jget ''admin_username'' x"; cases "jget ''admin_password_hash'' x") (simp_all add: validate_admin_credentials_def bad_def split: if_splits)

lemma config_validated:
  assumes "system_config w d = Inr x"
  shows "mapM (validated_field w (migrate_legacy_dingtalk_notify w d)) (config_fields w) = Inr x \<and> validate_admin_credentials x = Inr x"
  using assms admin_kept by (cases "mapM (validated_field w (migrate_legacy_dingtalk_notify w d)) (config_fields w)") (fastforce simp: system_config_def)+

lemma config_names: "system_config w d = Inr x \<Longrightarrow> map fst x = map fst (config_fields w)"
  using validated_names config_validated by blast

lemma mapM_hits: "mapM f xs = Inr ys \<Longrightarrow> x \<in> set xs \<Longrightarrow> \<exists>y\<in>set ys. f x = Inr y"
  by (induction xs arbitrary: ys) (auto simp: rbind_Inr_iff)

lemma config_settled:
  assumes "reads_back w" "system_config w d = Inr x" "(n, t, d0) \<in> set (config_fields w)"
  shows "\<exists>u. map_of x n = Some u \<and> stable_value w n t u"
proof -
  let ?f = "validated_field w (migrate_legacy_dingtalk_notify w d)"
  have m: "mapM ?f (config_fields w) = Inr x" using config_validated [OF assms(2)] by simp
  then obtain m u where "?f (n, t, d0) = Inr (m, u)" "(m, u) \<in> set x"
    using assms(3) mapM_hits [of ?f "config_fields w" x] by (metis prod.collapse)
  moreover have "distinct (map fst x)" using config_names [OF assms(2)] fields_distinct by simp
  ultimately show ?thesis using field_settled [OF assms(1,3)] by (metis map_of_eq_Some_iff)
qed

text \<open>A dict with stable_value values for every field is its own validation.\<close>

lemma settled_config:
  assumes "map fst y = map fst (config_fields w)" "validate_admin_credentials y = Inr y"
    "\<And>n t d. (n, t, d) \<in> set (config_fields w) \<Longrightarrow> \<exists>u. map_of y n = Some u \<and> stable_value w n t u"
  shows "system_config w y = Inr y"
proof -
  have "''notify_enabled'' \<in> set (map fst (config_fields w))" by (simp add: config_fields_def)
  then have "''notify_enabled'' \<in> fst ` set y" using assms(1) by (metis list.set_map)
  then have mig: "migrate_legacy_dingtalk_notify w y = y" by (simp add: migrate_legacy_dingtalk_notify_def)
  have len: "length y = length (config_fields w)" using assms(1) by (metis length_map)
  have "mapM (validated_field w y) (config_fields w) = Inr y"
    unfolding mapM_Inr_iff
  proof (rule list_all2_all_nthI)
    show "length (config_fields w) = length y" using len by simp
    fix i assume i: "i < length (config_fields w)"
    obtain n t d where f: "config_fields w ! i = (n, t, d)" by (metis prod_cases3)
    obtain u where u: "map_of y n = Some u" "stable_value w n t u" using assms(3) [of n t d] f i nth_mem by metis
    have "fst (y ! i) = n" using arg_cong [OF assms(1), of "\<lambda>l. l ! i"] i len f by simp
    moreover have "distinct (map fst y)" using assms(1) fields_distinct by simp
    ultimately have "y ! i = (n, u)" using u(1) i len by (metis eq_fst_iff map_of_eq_Some_iff nth_mem option.inject)
    then show "validated_field w y (config_fields w ! i) = Inr (y ! i)"
      using f u by (simp add: validated_field_def stable_value_def)
  qed
  then show ?thesis using mig assms(2) by (simp add: system_config_def)
qed

section \<open>Saving and loading\<close>

text \<open>What the rest of the program relies on: both credentials or none, a valid hash, and the numbers in their ranges.\<close>

definition number_in :: "string \<Rightarrow> int \<Rightarrow> int \<Rightarrow> jobj \<Rightarrow> bool" where
  "number_in n lo hi x \<longleftrightarrow> (\<exists>k. jget n x = JInt k \<and> lo \<le> k \<and> k \<le> hi)"

definition sound_config :: "'t config_world \<Rightarrow> jobj \<Rightarrow> bool" where
  "sound_config w x \<longleftrightarrow> (if admin_auth_enabled x
       then \<exists>u h. jget ''admin_username'' x = JStr u \<and> plain_username u \<and> jget ''admin_password_hash'' x = JStr h \<and> argon2id_hash h
       else jget ''admin_username'' x = JNull \<and> jget ''admin_password_hash'' x = JNull)
     \<and> number_in ''max_clients'' 16 65534 x \<and> number_in ''admin_session_lifetime_minutes'' 5 10080 x \<and> number_in ''admin_reconnect_timeout_seconds'' 3 3600 x
     \<and> (\<forall>s n. jget ''global_subnet'' x = JStr s \<longrightarrow> ip_network s = Some n \<longrightarrow> 16 \<le> net_plen n)
     \<and> (\<exists>m\<in>set device_bind_modes. jget ''device_bind_mode'' x = JStr m)"

lemma settled_number:
  assumes "reads_back w" "system_config w d = Inr x" "(n, FInt (Some (lo, hi)), d0) \<in> set (config_fields w)" "before_type w n = id"
  shows "number_in n lo hi x"
proof -
  obtain u where u: "map_of x n = Some u" "stable_value w n (FInt (Some (lo, hi))) u" using config_settled [OF assms(1-3)] by blast
  then obtain k where "u = JInt k" "lo \<le> k" "k \<le> hi"
    using assms(4) by (auto simp: stable_value_def rbind_Inr_iff bad_def split: if_splits)
  then show ?thesis using u by (simp add: number_in_def jget_def)
qed

lemma admin_sound:
  assumes "validate_admin_credentials x = Inr x"
  shows "if admin_auth_enabled x
       then \<exists>u h. jget ''admin_username'' x = JStr u \<and> plain_username u \<and> jget ''admin_password_hash'' x = JStr h \<and> argon2id_hash h
       else jget ''admin_username'' x = JNull \<and> jget ''admin_password_hash'' x = JNull"
  using assms
  by (cases "jget ''admin_username'' x"; cases "jget ''admin_password_hash'' x")
    (simp_all add: validate_admin_credentials_def admin_auth_enabled_def bad_def split: if_splits)

lemma config_sound:
  assumes "reads_back w" "system_config w d = Inr x"
  shows "sound_config w x"
proof -
  have f: "(''max_clients'', FInt (Some (16, 65534)), JInt 2048) \<in> set (config_fields w)"
    "(''admin_session_lifetime_minutes'', FInt (Some (5, 10080)), JInt 480) \<in> set (config_fields w)"
    "(''admin_reconnect_timeout_seconds'', FInt (Some (3, 3600)), JInt 300) \<in> set (config_fields w)"
    "(''global_subnet'', FOptStr None, JNull) \<in> set (config_fields w)"
    "(''device_bind_mode'', FOneOf device_bind_modes, JStr ''weak_fingerprint'') \<in> set (config_fields w)"
    by (simp_all add: config_fields_def)
  obtain u where u: "map_of x ''global_subnet'' = Some u" "stable_value w ''global_subnet'' (FOptStr None) u"
    using config_settled [OF assms f(4)] by blast
  have g: "16 \<le> net_plen n" if "jget ''global_subnet'' x = JStr s" "ip_network s = Some n" for s n
    using that u by (auto simp: jget_def stable_value_def after_type_def validate_global_pool_def bad_def split: if_splits)
  obtain v where v: "map_of x ''device_bind_mode'' = Some v" "stable_value w ''device_bind_mode'' (FOneOf device_bind_modes) v"
    using config_settled [OF assms f(5)] by blast
  have b: "\<exists>m\<in>set device_bind_modes. jget ''device_bind_mode'' x = JStr m"
    using v by (cases "before_type w ''device_bind_mode'' v") (auto simp: jget_def stable_value_def bad_def split: if_splits)
  have id: "before_type w ''max_clients'' = id" "before_type w ''admin_session_lifetime_minutes'' = id" "before_type w ''admin_reconnect_timeout_seconds'' = id"
    by (simp_all add: before_type_def fun_eq_iff)
  note nums = settled_number [OF assms f(1) id(1)] settled_number [OF assms f(2) id(2)] settled_number [OF assms f(3) id(3)]
  show ?thesis unfolding sound_config_def using nums g b admin_sound config_validated [OF assms(2)] by blast
qed

lemma stamped_settled:
  assumes "reads_back w" "system_config w d = Inr x"
  shows "system_config w (jset ''updated_at'' (JStr t) x) = Inr (jset ''updated_at'' (JStr t) x)"
    and "normalize_config_data (jset ''updated_at'' (JStr t) x) = jset ''updated_at'' (JStr t) x"
proof -
  let ?y = "jset ''updated_at'' (JStr t) x"
  have in_fields: "''updated_at'' \<in> set (map fst (config_fields w))" by (simp add: config_fields_def)
  then have names: "map fst ?y = map fst (config_fields w)"
    using config_names [OF assms(2)] by (simp add: jset_def update_keys)
  have admin: "validate_admin_credentials ?y = Inr ?y"
    using config_validated [OF assms(2)]
    by (cases "jget ''admin_username'' x"; cases "jget ''admin_password_hash'' x") (auto simp: validate_admin_credentials_def bad_def split: if_splits)
  have up: "tp = FOptStr None" if "(''updated_at'', tp, d0) \<in> set (config_fields w)" for tp d0
    using that by (auto simp: config_fields_def)
  have stable_value: "\<exists>u. map_of ?y n = Some u \<and> stable_value w n tp u" if f: "(n, tp, d0) \<in> set (config_fields w)" for n tp d0
  proof (cases "n = ''updated_at''")
    case True
    then have "tp = FOptStr None" using up f by simp
    then show ?thesis using True by (simp add: jset_def update_conv' stable_value_def before_type_def after_type_def)
  next
    case False
    then show ?thesis using config_settled [OF assms f] by (simp add: jset_def update_conv')
  qed
  show "system_config w ?y = Inr ?y" by (rule settled_config [OF names admin stable_value])
  have "v \<noteq> JObj []" if kv: "(k, v) \<in> set ?y" "k \<in> set optional_string_fields" for k v
  proof -
    have "k \<in> fst ` set (config_fields w)" using kv names by (metis fst_conv image_eqI list.set_map)
    then obtain tp d0 where f: "(k, tp, d0) \<in> set (config_fields w)" by auto
    have "distinct (map fst ?y)" using names fields_distinct by simp
    then have "stable_value w k tp v" using stable_value [OF f] kv(1) by (auto simp: map_of_eq_Some_iff)
    moreover have "(\<exists>l. tp = FOptStr l) \<or> tp = FOptStrOrStrs" using f kv(2) by (auto simp: config_fields_def optional_string_fields_def)
    ultimately show ?thesis
      by (cases "before_type w k v") (auto simp: stable_value_def bad_def split: option.splits if_splits)
  qed
  then have "map (\<lambda>(k, v). (k, if k \<in> set optional_string_fields \<and> v = JObj [] then JNull else v)) ?y = map id ?y"
    by (intro map_cong) (auto split: prod.split)
  then show "normalize_config_data ?y = ?y" unfolding normalize_config_data_def by simp
qed

lemma file_step_result: "\<exists>r t. file_step f s = Some (r, t) \<and> (case r of Inl _ \<Rightarrow> cg_file t = cg_file s \<and> cg_tmp t = cg_tmp s
    | Inr _ \<Rightarrow> \<exists>es. t = f (s\<lparr>cg_faults := es\<rparr>))"
proof (cases "cg_faults s")
  case Nil
  then have e: "s\<lparr>cg_faults := []\<rparr> = s" by (cases s) simp
  have "f s = f (s\<lparr>cg_faults := []\<rparr>)" by (simp only: e)
  moreover have "file_step f s = Some (Inr (), f s)" using Nil by (simp add: file_step_def ret_def)
  ultimately show ?thesis by (intro exI [of _ "Inr ()"] exI [of _ "f s"] conjI) (simp, simp, blast)
next
  case (Cons e es)
  then show ?thesis by (cases e) (auto simp: file_step_def ret_def throw_def)
qed

text \<open>C38. Saving a configuration always ends.  When it fails, the file of the configuration is as it was.  When it succeeds,
  the next start loads exactly the validated configuration with its new time stamp, and this one is sound: a user name
  without blanks together with an Argon2id hash or neither, the limits in their ranges, a global pool of at least
  prefix 16, and a known policy for devices.
\<close>

theorem saved_config_loads_back:
  assumes "reads_back w"
  shows "\<exists>r t. save_config w data s = Some (r, t) \<and> (case r of
      Inl e \<Rightarrow> cg_file t = cg_file s
    | Inr _ \<Rightarrow> \<exists>x. system_config w (normalize_config_data data) = Inr x \<and> load_config w t = Inr (jset ''updated_at'' (JStr (cw_stamp w)) x)
        \<and> sound_config w (jset ''updated_at'' (JStr (cw_stamp w)) x))"
proof -
  obtain r0 t0 where s0: "file_step id s = Some (r0, t0)"
      "case r0 of Inl _ \<Rightarrow> cg_file t0 = cg_file s \<and> cg_tmp t0 = cg_tmp s | Inr _ \<Rightarrow> \<exists>es. t0 = id (s\<lparr>cg_faults := es\<rparr>)"
    using file_step_result [of id s] by blast
  have t0: "file_step id s = Some (r0, t0)" "cg_file t0 = cg_file s" using s0 by (cases r0; auto)+
  show ?thesis
  proof (cases r0)
    case (Inl e)
    then show ?thesis using t0 by (simp add: save_config_def andthen_def)
  next
    case (Inr u0)
    show ?thesis
    proof (cases "system_config w (normalize_config_data data)")
      case (Inl e)
      then show ?thesis using t0 Inr by (simp add: save_config_def andthen_def throw_def)
    next
      case x: (Inr x)
      define y where "y = jset ''updated_at'' (JStr (cw_stamp w)) x"
      define out where "out = cw_dumps w (JObj y)"
      obtain r1 t1 where s1: "file_step (\<lambda>s. s\<lparr>cg_tmp := Some out\<rparr>) t0 = Some (r1, t1)"
          "case r1 of Inl _ \<Rightarrow> cg_file t1 = cg_file t0 \<and> cg_tmp t1 = cg_tmp t0 | Inr _ \<Rightarrow> \<exists>es. t1 = t0\<lparr>cg_faults := es, cg_tmp := Some out\<rparr>"
        using file_step_result [of "\<lambda>s. s\<lparr>cg_tmp := Some out\<rparr>" t0] by blast
      have t1: "file_step (\<lambda>s. s\<lparr>cg_tmp := Some out\<rparr>) t0 = Some (r1, t1)" "cg_file t1 = cg_file t0" "\<forall>u. r1 = Inr u \<longrightarrow> cg_tmp t1 = Some out"
        using s1 by (cases r1; auto)+
      show ?thesis
      proof (cases r1)
        case (Inl e)
        then show ?thesis using t0 t1 Inr x by (simp add: save_config_def andthen_def Let_def y_def out_def)
      next
        case r1: (Inr u1)
        let ?mv = "\<lambda>s. s\<lparr>cg_file := cg_tmp s, cg_tmp := None\<rparr>"
        obtain r2 t2 where s2: "file_step ?mv t1 = Some (r2, t2)"
            "case r2 of Inl _ \<Rightarrow> cg_file t2 = cg_file t1 \<and> cg_tmp t2 = cg_tmp t1 | Inr _ \<Rightarrow> \<exists>es. t2 = ?mv (t1\<lparr>cg_faults := es\<rparr>)"
          using file_step_result [of ?mv t1] by blast
        have t2: "file_step ?mv t1 = Some (r2, t2)" "case r2 of Inl _ \<Rightarrow> cg_file t2 = cg_file t1 | Inr _ \<Rightarrow> cg_file t2 = cg_tmp t1"
          using s2 by (cases r2; auto)+
        have run: "save_config w data s = Some (r2, t2)"
          using t0 t1 t2(1) Inr x r1 by (simp add: save_config_def andthen_def Let_def y_def out_def)
        have y: "system_config w y = Inr y" "normalize_config_data y = y" unfolding y_def using stamped_settled [OF assms x] by simp_all
        have "load_config w t2 = Inr y" if "cg_file t2 = Some out"
          using that y assms by (simp add: load_config_def out_def as_dict_def reads_back_def)
        then show ?thesis
          using run t0 t1 t2(2) r1 config_sound [OF assms y(1)] x by (cases r2) (auto simp: y_def)
      qed
    qed
  qed
qed

text \<open>A text of JSON that is read back: dicts are numbered by the text itself.\<close>

text \<open>JSON values themselves as the text.\<close>

definition demo_config :: "json config_world" where
  "demo_config = \<lparr>cw_now = ''2026-01-01T00:00:00'', cw_stamp = ''2026-01-02T00:00:00+00:00'', cw_rep = \<lambda>_. ''?'',
     cw_bool = \<lambda>v. (case v of JBool b \<Rightarrow> Inr b | _ \<Rightarrow> bad ''bool''), cw_int = \<lambda>v. (case v of JInt n \<Rightarrow> Inr n | _ \<Rightarrow> bad ''int''),
     cw_ipv6 = \<lambda>_. None, cw_loads = Inr, cw_dumps = id\<rparr>"

definition demo_data :: jobj where
  "demo_data = [(''global_subnet'', JStr ''10.8.0.0/16''), (''push_lan_routes'', JStr ''10.0.1.7/24''), (''pki_dir'', JObj []), (''max_clients'', JInt 64)]"

definition demo_config_files :: "json config_files" where
  "demo_config_files = \<lparr>cg_file = None, cg_tmp = None, cg_faults = []\<rparr>"

lemma saved_config_loads_back_witness:
  "(\<exists>r t. save_config demo_config demo_data demo_config_files = Some (r, t) \<and> (case r of
      Inl e \<Rightarrow> cg_file t = cg_file demo_config_files
    | Inr _ \<Rightarrow> \<exists>x. system_config demo_config (normalize_config_data demo_data) = Inr x
        \<and> load_config demo_config t = Inr (jset ''updated_at'' (JStr (cw_stamp demo_config)) x)
        \<and> sound_config demo_config (jset ''updated_at'' (JStr (cw_stamp demo_config)) x)))
    \<and> (case system_config demo_config (normalize_config_data demo_data) of
         Inr x \<Rightarrow> jget ''push_lan_routes'' x = JList [JStr ''10.0.1.0/24''] \<and> jget ''max_clients'' x = JInt 64 | _ \<Rightarrow> False)"
proof
  have "reads_back demo_config" by (simp add: reads_back_def demo_config_def)
  then show "\<exists>r t. save_config demo_config demo_data demo_config_files = Some (r, t) \<and> (case r of
      Inl e \<Rightarrow> cg_file t = cg_file demo_config_files
    | Inr _ \<Rightarrow> \<exists>x. system_config demo_config (normalize_config_data demo_data) = Inr x
        \<and> load_config demo_config t = Inr (jset ''updated_at'' (JStr (cw_stamp demo_config)) x)
        \<and> sound_config demo_config (jset ''updated_at'' (JStr (cw_stamp demo_config)) x))"
    by (rule saved_config_loads_back)
qed code_simp

end
