(* ===== verification/Full_Backup.thy ===== *)
theory Full_Backup
  imports System_Config "HOL-Library.Sublist"
begin

text \<open>
  \<open>app/services/backup/full_backup.py\<close>: a full backup and its restoration, and the inspection of a PKI in
  \<open>app/services/easyrsa/wrapper.py\<close>.  A disk maps paths to files and directories, without symbolic links; the temporary
  directory of a backup is a disk of its own.  SQLite, SHA-256, the clock and failures of the file system are parameters.
\<close>

section \<open>Disks\<close>

type_synonym bpath = "string list"

datatype 'b item = IFile 'b | IDir

type_synonym 'b disk = "(bpath \<times> 'b item) list"

definition look :: "'b disk \<Rightarrow> bpath \<Rightarrow> 'b item option" where
  "look d p = map_of d p"

definition file_of :: "'b disk \<Rightarrow> bpath \<Rightarrow> 'b option" where
  "file_of d p = (case look d p of Some (IFile c) \<Rightarrow> Some c | _ \<Rightarrow> None)"

definition is_dir :: "'b disk \<Rightarrow> bpath \<Rightarrow> bool" where
  "is_dir d p \<longleftrightarrow> look d p = Some IDir"

text \<open>What lies at a path and below it, and a disk without it.\<close>

definition subtree :: "bpath \<Rightarrow> 'b disk \<Rightarrow> 'b disk" where
  "subtree p d = map (\<lambda>(q, i). (drop (length p) q, i)) (filter (\<lambda>(q, i). prefix p q) d)"

definition without :: "bpath \<Rightarrow> 'b disk \<Rightarrow> 'b disk" where
  "without p d = filter (\<lambda>(q, i). \<not> prefix p q) d"

definition graft :: "bpath \<Rightarrow> 'b disk \<Rightarrow> 'b disk \<Rightarrow> 'b disk" where
  "graft p t d = map (\<lambda>(q, i). (p @ q, i)) t @ without p d"

text \<open>\<open>mkdir(parents=True, exist_ok=True)\<close>.\<close>

fun make_dirs_below :: "bpath \<Rightarrow> bpath \<Rightarrow> 'b disk \<Rightarrow> 'b disk res" where
  "make_dirs_below p [] d = Inr d"
| "make_dirs_below p (c # cs) d = (case look d (p @ [c]) of
     Some (IFile b) \<Rightarrow> Inl (OSError c)
   | Some IDir \<Rightarrow> make_dirs_below (p @ [c]) cs d
   | None \<Rightarrow> make_dirs_below (p @ [c]) cs ((p @ [c], IDir) # d))"

definition make_dirs :: "bpath \<Rightarrow> 'b disk \<Rightarrow> 'b disk res" where
  "make_dirs p d = make_dirs_below [] p d"

definition path_parts :: "string \<Rightarrow> bpath" where
  "path_parts s = filter (\<lambda>c. c \<noteq> [] \<and> c \<noteq> ''.'') (split_on (CHR ''/'') s)"

definition path_text :: "bpath \<Rightarrow> string" where
  "path_text p = ''/'' @ join ''/'' p"

section \<open>The PKI\<close>

record pki_report =
  pk_state :: string
  pk_ready :: bool
  pk_missing :: "string list"

definition required_pki_files :: "(string \<times> bpath) list" where
  "required_pki_files = [(''ca.crt'', [''ca.crt'']), (''private/ca.key'', [''private'', ''ca.key'']), (''index.txt'', [''index.txt'']), (''serial'', [''serial''])]"

definition inspect_easyrsa_pki :: "bpath option \<Rightarrow> 'b disk \<Rightarrow> pki_report" where
  "inspect_easyrsa_pki pki d = (case pki of
     None \<Rightarrow> \<lparr>pk_state = ''missing'', pk_ready = False, pk_missing = map fst required_pki_files\<rparr>
   | Some p \<Rightarrow> (let missing = map fst (filter (\<lambda>(nm, f). file_of d (p @ f) = None) required_pki_files);
         ready = (missing = []); has_content = (is_dir d p \<and> list_ex (\<lambda>(q, i). strict_prefix p q) d) in
       \<lparr>pk_state = (if ready then ''ready'' else if ''ca.crt'' \<notin> set missing \<or> ''private/ca.key'' \<notin> set missing then ''partial''
           else if has_content then ''initialized'' else ''missing''),
         pk_ready = ready, pk_missing = missing\<rparr>))"

section \<open>The world\<close>

datatype 'b member = TFile 'b | TDir | TLink | TOther

type_synonym 'b tar = "(string \<times> 'b member) list"

record ('k, 'b) backup_host =
  bh_ext :: 'k
  bh_disk :: "'b disk"
  bh_archives :: "(string \<times> 'b tar) list"

record ('k, 'b) backup_world =
  bw_config :: "'b config_world"
  bw_data :: bpath
  bw_size :: "'b \<Rightarrow> nat"
  bw_sha :: "'b \<Rightarrow> string"
  bw_snapshot :: "'b \<Rightarrow> 'b res"
  bw_into_db :: "'b \<Rightarrow> 'b res"
  bw_quick_check :: "'b \<Rightarrow> string list"
  bw_tables :: "'b \<Rightarrow> string list"
  bw_version :: "'b \<Rightarrow> int"
  bw_stamp :: "'k \<Rightarrow> string"
  bw_created :: "'k \<Rightarrow> string"
  bw_uuid :: "'k \<Rightarrow> string"
  bw_resolve :: "string \<Rightarrow> bpath"
  bw_op :: "string \<Rightarrow> bpath \<Rightarrow> 'k \<Rightarrow> exn option \<times> 'k"
  bw_left :: "bpath \<Rightarrow> 'k \<Rightarrow> 'b disk"
  bw_part :: "'k \<Rightarrow> 'b tar option"
  bw_scripts :: "bpath \<Rightarrow> 'k \<times> 'b disk \<Rightarrow> unit res \<times> 'k \<times> 'b disk"

definition backup_op :: "('k, 'b) backup_world \<Rightarrow> string \<Rightarrow> bpath \<Rightarrow> (('k, 'b) backup_host \<Rightarrow> ('k, 'b) backup_host)
    \<Rightarrow> (('k, 'b) backup_host, 'a) stact \<Rightarrow> (('k, 'b) backup_host, 'a) stact" where
  "backup_op w nm p broken m s = (case bw_op w nm p (bh_ext s) of
     (None, k) \<Rightarrow> m (s\<lparr>bh_ext := k\<rparr>)
   | (Some e, k) \<Rightarrow> throw e (broken (s\<lparr>bh_ext := k\<rparr>)))"

definition half_done :: "('k, 'b) backup_world \<Rightarrow> bpath \<Rightarrow> ('k, 'b) backup_host \<Rightarrow> ('k, 'b) backup_host" where
  "half_done w p s = s\<lparr>bh_disk := graft p (bw_left w p (bh_ext s)) (bh_disk s)\<rparr>"

section \<open>Making a backup\<close>

datatype copy_step = Snapshot bpath bpath | CopyFile bpath bpath | CopyTree bpath bpath

definition config_path :: "('k, 'b) backup_world \<Rightarrow> bpath" where
  "config_path w = bw_data w @ [''config.json'']"

definition db_path :: "('k, 'b) backup_world \<Rightarrow> bpath" where
  "db_path w = bw_data w @ [''nicevpn.db'']"

definition dir_text :: "('k, 'b) backup_world \<Rightarrow> jobj \<Rightarrow> string" where
  "dir_text w cfg = (let v = jget ''openvpn_conf_dir'' cfg in if truthy v then py_str (cw_rep (bw_config w)) v else ''/etc/openvpn'')"

definition pki_text :: "('k, 'b) backup_world \<Rightarrow> jobj \<Rightarrow> string" where
  "pki_text w cfg = strip (str_or (cw_rep (bw_config w)) (jget ''pki_dir'' cfg))"

definition copy_steps :: "('k, 'b) backup_world \<Rightarrow> bpath \<Rightarrow> bpath \<Rightarrow> copy_step list" where
  "copy_steps w base pki = [
     Snapshot (db_path w) [''app'', ''nicevpn.db''],
     CopyFile (config_path w) [''app'', ''config.json''],
     CopyFile (bw_data w @ [''api_basic_credentials.json'']) [''app'', ''api_basic_credentials.json''],
     CopyFile (bw_data w @ [''admin_session_secret'']) [''app'', ''admin_session_secret''],
     CopyTree (bw_data w @ [''remote_peer_chains'']) [''app'', ''remote_peer_chains''],
     CopyTree pki [''openvpn'', ''pki''],
     CopyTree (base @ [''server'']) [''openvpn'', ''server''],
     CopyTree (base @ [''client'']) [''openvpn'', ''client''],
     CopyTree (base @ [''ccd'']) [''openvpn'', ''ccd''],
     CopyTree (base @ [''mgmt'', ''device_bindings'']) [''openvpn'', ''mgmt'', ''device_bindings''],
     CopyTree (base @ [''mgmt'', ''ovpn'']) [''openvpn'', ''mgmt'', ''ovpn''],
     CopyFile (base @ [''mgmt'', ''device_bind_mode'']) [''openvpn'', ''mgmt'', ''device_bind_mode''],
     CopyFile (butlast pki @ [''tc2-server.key'']) [''openvpn'', ''tc2-server.key'']]"

definition put_at :: "bpath \<Rightarrow> 'b \<Rightarrow> 'b disk \<Rightarrow> 'b disk" where
  "put_at p c d = graft p [([], IFile c)] d"

text \<open>\<open>copytree(dirs_exist_ok=True)\<close>: what is there stays unless the copy has the same path.\<close>

definition overlay :: "'b disk \<Rightarrow> 'b disk \<Rightarrow> 'b disk" where
  "overlay t d = t @ filter (\<lambda>(q, i). q \<notin> fst ` set t) d"

fun copy_one :: "('k, 'b) backup_world \<Rightarrow> 'b disk \<Rightarrow> copy_step \<Rightarrow> 'b disk \<Rightarrow> 'b disk res" where
  "copy_one w d (Snapshot src dst) payload = (case file_of d src of
     None \<Rightarrow> Inl (FileNotFoundError (path_text src))
   | Some c \<Rightarrow> rbind (make_dirs (butlast dst) payload) (\<lambda>pl. rbind (bw_snapshot w c) (\<lambda>c'. Inr (put_at dst c' pl))))"
| "copy_one w d (CopyFile src dst) payload = (case file_of d src of
     None \<Rightarrow> Inr payload
   | Some c \<Rightarrow> rbind (make_dirs (butlast dst) payload) (\<lambda>pl. Inr (put_at dst c pl)))"
| "copy_one w d (CopyTree src dst) payload = rbind (make_dirs dst payload) (\<lambda>pl.
     if is_dir d src then Inr (overlay (map (\<lambda>(q, i). (dst @ q, i)) (subtree src d)) pl) else Inr pl)"

fun copy_all :: "('k, 'b) backup_world \<Rightarrow> 'b disk \<Rightarrow> copy_step list \<Rightarrow> 'b disk \<Rightarrow> 'b disk res" where
  "copy_all w d [] payload = Inr payload"
| "copy_all w d (x # xs) payload = rbind (copy_one w d x payload) (copy_all w d xs)"

definition backup_base :: "('k, 'b) backup_world \<Rightarrow> jobj \<Rightarrow> bpath" where
  "backup_base w cfg = path_parts (dir_text w cfg)"

definition backup_pki :: "('k, 'b) backup_world \<Rightarrow> jobj \<Rightarrow> bpath" where
  "backup_pki w cfg = (if pki_text w cfg = [] then backup_base w cfg @ [''pki''] else path_parts (pki_text w cfg))"

definition copy_backup_payload :: "('k, 'b) backup_world \<Rightarrow> jobj \<Rightarrow> 'b disk \<Rightarrow> 'b disk res" where
  "copy_backup_payload w cfg d = copy_all w d (copy_steps w (backup_base w cfg) (backup_pki w cfg)) [([''app''], IDir), ([''openvpn''], IDir)]"

definition payload_files :: "'b disk \<Rightarrow> (string \<times> 'b) list" where
  "payload_files payload = concat (map (\<lambda>(p, i). case i of IFile c \<Rightarrow> [(join ''/'' p, c)] | IDir \<Rightarrow> []) payload)"

definition file_entry :: "('k, 'b) backup_world \<Rightarrow> 'b \<Rightarrow> json" where
  "file_entry w c = JObj [(''size'', JInt (int (bw_size w c))), (''sha256'', JStr (bw_sha w c))]"

definition backup_format :: string where
  "backup_format = ''nicevpn-full-backup''"

definition manifest_for :: "('k, 'b) backup_world \<Rightarrow> string \<Rightarrow> jobj \<Rightarrow> 'b disk \<Rightarrow> jobj" where
  "manifest_for w created cfg payload = [(''format'', JStr backup_format), (''format_version'', JInt 1), (''created_at'', JStr created),
     (''source'', JObj [(''openvpn_conf_dir'', JStr (dir_text w cfg)), (''pki_dir'', JStr (str_or (cw_rep (bw_config w)) (jget ''pki_dir'' cfg)))]),
     (''files'', JObj (map (\<lambda>(rel, c). (rel, file_entry w c)) (payload_files payload)))]"

section \<open>Checking a backup\<close>

text \<open>One entry of the manifest.\<close>

definition manifest_entry_ok :: "('k, 'b) backup_world \<Rightarrow> json \<Rightarrow> 'b \<Rightarrow> unit res" where
  "manifest_entry_ok w meta c = (case meta of
     JObj m \<Rightarrow> rbind (case jget ''size'' m of JInt n \<Rightarrow> Inr n | JBool b \<Rightarrow> Inr (if b then 1 else 0) | _ \<Rightarrow> bad ''size'') (\<lambda>n.
       if n < 0 then bad ''size'' else if n \<noteq> int (bw_size w c) then bad ''size''
       else if str_or (cw_rep (bw_config w)) (jget ''sha256'' m) \<noteq> bw_sha w c then bad ''sha256'' else Inr ())
   | _ \<Rightarrow> bad ''entry'')"

fun check_entries :: "('k, 'b) backup_world \<Rightarrow> (string \<times> 'b) list \<Rightarrow> (string \<times> json) list \<Rightarrow> unit res" where
  "check_entries w files [] = Inr ()"
| "check_entries w files ((rel, meta) # es) = rbind (case map_of files rel of None \<Rightarrow> Inl (KeyError rel) | Some c \<Rightarrow> manifest_entry_ok w meta c)
     (\<lambda>_. check_entries w files es)"

definition load_verified_manifest :: "('k, 'b) backup_world \<Rightarrow> 'b disk \<Rightarrow> jobj res" where
  "load_verified_manifest w root = (case file_of root [''manifest.json''] of
     None \<Rightarrow> bad ''manifest''
   | Some t \<Rightarrow> if \<not> is_dir root [''payload''] then bad ''payload''
     else (case cw_loads (bw_config w) t of
       Inl e \<Rightarrow> bad ''manifest''
     | Inr v \<Rightarrow> (case v of
         JObj m \<Rightarrow>
          if jget ''format'' m \<noteq> JStr backup_format then bad ''format''
          else rbind (if truthy (jget ''format_version'' m) then py_int (jget ''format_version'' m) else Inr 0) (\<lambda>n.
            if n \<noteq> 1 then bad ''format_version''
            else (case jget ''files'' m of
              JObj expected \<Rightarrow> (let actual = payload_files (filter (\<lambda>(p, i). p \<noteq> []) (subtree [''payload''] root)) in
                if fst ` set actual \<noteq> fst ` set expected then bad ''file list''
                else rbind (check_entries w actual expected) (\<lambda>_. Inr m))
            | _ \<Rightarrow> bad ''files''))
       | _ \<Rightarrow> Inl (AttributeError ''get''))))"

definition required_tables :: "string list" where
  "required_tables = [''schema_migrations'', ''storage_meta'', ''users'', ''groups'', ''peers'', ''firewall_rules'']"

definition validate_nicevpn_sqlite :: "('k, 'b) backup_world \<Rightarrow> 'b \<Rightarrow> unit res" where
  "validate_nicevpn_sqlite w db = (if bw_quick_check w db \<noteq> [''ok''] then bad ''quick_check''
     else if \<not> list_all (\<lambda>t. t \<in> set (bw_tables w db)) required_tables then bad ''tables''
     else if bw_version w db \<le> 0 then bad ''no version''
     else if bw_version w db > 4 then bad ''version'' else Inr ())"

definition config_accepted :: "('k, 'b) backup_world \<Rightarrow> 'b \<Rightarrow> bool" where
  "config_accepted w t = (case cw_loads (bw_config w) t of
     Inr (JObj x) \<Rightarrow> (case system_config (bw_config w) x of Inr _ \<Rightarrow> True | Inl _ \<Rightarrow> False)
   | _ \<Rightarrow> False)"

definition validate_restore_payload :: "('k, 'b) backup_world \<Rightarrow> 'b disk \<Rightarrow> jobj res" where
  "validate_restore_payload w root = rbind (load_verified_manifest w root) (\<lambda>m.
     (case file_of root [''payload'', ''app'', ''config.json''] of
        None \<Rightarrow> bad ''config.json''
      | Some cfg \<Rightarrow> (case file_of root [''payload'', ''app'', ''nicevpn.db''] of
          None \<Rightarrow> bad ''nicevpn.db''
        | Some db \<Rightarrow>
            if \<not> pk_ready (inspect_easyrsa_pki (Some [''payload'', ''openvpn'', ''pki'']) root) then bad ''pki''
            else if file_of root [''payload'', ''openvpn'', ''tc2-server.key''] = None then bad ''tc2-server.key''
            else if \<not> config_accepted w cfg then bad ''config.json''
            else rbind (validate_nicevpn_sqlite w db) (\<lambda>_. Inr m))))"

section \<open>Archives\<close>

definition members_of :: "'b disk \<Rightarrow> 'b tar" where
  "members_of root = map (\<lambda>(p, i). (join ''/'' p, case i of IFile c \<Rightarrow> TFile c | IDir \<Rightarrow> TDir)) root"

definition unsafe_name :: "string \<Rightarrow> bool" where
  "unsafe_name s \<longleftrightarrow> starts_with s ''/'' \<or> ''..'' \<in> set (path_parts s)"

definition unsafe_member :: "string \<times> 'b member \<Rightarrow> bool" where
  "unsafe_member = (\<lambda>(nm, k). unsafe_name nm \<or> k = TLink \<or> k = TOther)"

fun extract_all :: "'b tar \<Rightarrow> 'b disk \<Rightarrow> 'b disk res" where
  "extract_all [] d = Inr d"
| "extract_all ((nm, k) # ms) d = rbind (case k of
     TFile c \<Rightarrow> if is_dir d (path_parts nm) then Inl (OSError nm) else rbind (make_dirs (butlast (path_parts nm)) d) (\<lambda>d. Inr (put_at (path_parts nm) c d))
   | _ \<Rightarrow> make_dirs (path_parts nm) d) (extract_all ms)"

definition safe_extract :: "'b tar \<Rightarrow> 'b disk res" where
  "safe_extract ms = (if list_ex unsafe_member ms then bad ''member'' else extract_all ms [])"

text \<open>\<open>isalnum\<close> of the code points below 256.\<close>

definition py_alnum :: "char \<Rightarrow> bool" where
  "py_alnum c \<longleftrightarrow> (let n = of_char c :: nat in (48 \<le> n \<and> n \<le> 57) \<or> (65 \<le> n \<and> n \<le> 90) \<or> (97 \<le> n \<and> n \<le> 122)
     \<or> n \<in> {170, 178, 179, 181, 185, 186, 188, 189, 190} \<or> (192 \<le> n \<and> n \<noteq> 215 \<and> n \<noteq> 247))"

definition safe_label :: "string \<Rightarrow> string" where
  "safe_label label = (let s = filter (\<lambda>c. py_alnum c \<or> c \<in> {CHR ''-'', CHR ''_''}) label in if s = [] then ''manual'' else s)"

definition current_config :: "('k, 'b) backup_world \<Rightarrow> ('k, 'b) backup_host \<Rightarrow> jobj res" where
  "current_config w s = load_config (bw_config w) \<lparr>cg_file = file_of (bh_disk s) (config_path w), cg_tmp = None, cg_faults = []\<rparr>"

text \<open>The temporary directory of a backup: the manifest and the payload.\<close>

definition staged_root :: "('k, 'b) backup_world \<Rightarrow> string \<Rightarrow> jobj \<Rightarrow> 'b disk \<Rightarrow> 'b disk" where
  "staged_root w created cfg payload = ([''manifest.json''], IFile (cw_dumps (bw_config w) (JObj (manifest_for w created cfg payload))))
     # ([''payload''], IDir) # map (\<lambda>(p, i). (''payload'' # p, i)) payload"

definition archive_name :: "('k, 'b) backup_world \<Rightarrow> string \<Rightarrow> 'k \<Rightarrow> string" where
  "archive_name w label k = ''nicevpn-'' @ safe_label (if label = [] then ''manual'' else label) @ ''-'' @ bw_stamp w k @ ''.tar.gz''"

definition write_archive :: "('k, 'b) backup_world \<Rightarrow> string \<Rightarrow> 'b tar \<Rightarrow> (('k, 'b) backup_host, unit) stact" where
  "write_archive w nm ms = backup_op w ''tar'' [nm] (\<lambda>s. case bw_part w (bh_ext s) of None \<Rightarrow> s | Some part \<Rightarrow> s\<lparr>bh_archives := AList.update nm part (bh_archives s)\<rparr>)
     (\<lambda>s. ret () (s\<lparr>bh_archives := AList.update nm ms (bh_archives s)\<rparr>))"

text \<open>The check before the archive is written, the payload, and the whole.\<close>

definition pack_backup :: "('k, 'b) backup_world \<Rightarrow> string \<Rightarrow> 'b disk \<Rightarrow> (('k, 'b) backup_host, string) stact" where
  "pack_backup w nm root = andthen (backup_op w ''manifest'' [] id (ret ())) (\<lambda>_. case validate_restore_payload w root of
     Inl e \<Rightarrow> throw e
   | Inr m \<Rightarrow> andthen (write_archive w nm (members_of root)) (\<lambda>_. andthen (backup_op w ''chmod'' [nm] id (ret ())) (\<lambda>_. ret nm)))"

definition fill_backup :: "('k, 'b) backup_world \<Rightarrow> jobj \<Rightarrow> string \<Rightarrow> (('k, 'b) backup_host, string) stact" where
  "fill_backup w cfg nm = andthen (backup_op w ''copy payload'' [] id (ret ())) (\<lambda>_ s. case copy_backup_payload w cfg (bh_disk s) of
     Inl e \<Rightarrow> throw e s
   | Inr payload \<Rightarrow> pack_backup w nm (staged_root w (bw_created w (bh_ext s)) cfg payload) s)"

definition create_full_backup :: "('k, 'b) backup_world \<Rightarrow> string \<Rightarrow> (('k, 'b) backup_host, string) stact" where
  "create_full_backup w label s = (case current_config w s of
     Inl e \<Rightarrow> throw e s
   | Inr cfg \<Rightarrow> andthen (backup_op w ''mkdir'' [] id (ret ())) (\<lambda>_ s. fill_backup w cfg (archive_name w label (bh_ext s)) s) s)"

record backup_summary =
  bs_version :: json
  bs_created :: json
  bs_count :: nat
  bs_source :: jobj

definition inspect_full_backup :: "('k, 'b) backup_world \<Rightarrow> string \<Rightarrow> ('k, 'b) backup_host \<Rightarrow> backup_summary res" where
  "inspect_full_backup w nm s = (case map_of (bh_archives s) nm of
     None \<Rightarrow> Inl (FileNotFoundError nm)
   | Some ms \<Rightarrow> rbind (safe_extract ms) (\<lambda>root. rbind (validate_restore_payload w root) (\<lambda>m.
       rbind (if ''created_at'' \<notin> fst ` set m then Inl (KeyError ''created_at'') else Inr (jget ''created_at'' m)) (\<lambda>created.
       rbind (as_dict (jget ''source'' m)) (\<lambda>src.
       Inr \<lparr>bs_version = jget ''format_version'' m, bs_created = created,
         bs_count = (case jget ''files'' m of JObj fs \<Rightarrow> length fs | _ \<Rightarrow> 0), bs_source = src\<rparr>)))))"

section \<open>Restoring\<close>

definition mkdirs :: "('k, 'b) backup_world \<Rightarrow> bpath \<Rightarrow> (('k, 'b) backup_host, unit) stact" where
  "mkdirs w p = backup_op w ''mkdir'' p id (\<lambda>s. case make_dirs p (bh_disk s) of Inl e \<Rightarrow> throw e s | Inr d \<Rightarrow> ret () (s\<lparr>bh_disk := d\<rparr>))"

definition write_file :: "('k, 'b) backup_world \<Rightarrow> bpath \<Rightarrow> 'b \<Rightarrow> (('k, 'b) backup_host, unit) stact" where
  "write_file w p c = backup_op w ''copy'' p id (\<lambda>s. if is_dir (bh_disk s) p then throw (OSError (path_text p)) s
     else ret () (s\<lparr>bh_disk := put_at p c (bh_disk s)\<rparr>))"

definition may_move :: "bpath \<Rightarrow> bpath \<Rightarrow> 'b disk \<Rightarrow> bool" where
  "may_move src dst d \<longleftrightarrow> (case look d src of
     None \<Rightarrow> False
   | Some (IFile c) \<Rightarrow> \<not> is_dir d dst
   | Some IDir \<Rightarrow> file_of d dst = None \<and> \<not> list_ex (\<lambda>(q, i). strict_prefix dst q) d)"

definition move :: "('k, 'b) backup_world \<Rightarrow> bpath \<Rightarrow> bpath \<Rightarrow> (('k, 'b) backup_host, unit) stact" where
  "move w src dst = backup_op w ''replace'' src id (\<lambda>s. if may_move src dst (bh_disk s)
     then ret () (s\<lparr>bh_disk := graft dst (subtree src (bh_disk s)) (without src (bh_disk s))\<rparr>) else throw (OSError (path_text dst)) s)"

text \<open>\<open>rmtree(ignore_errors=True)\<close>.\<close>

definition remove_tree :: "('k, 'b) backup_world \<Rightarrow> bpath \<Rightarrow> (('k, 'b) backup_host, unit) stact" where
  "remove_tree w p = handle (backup_op w ''rmtree'' p (half_done w p) (\<lambda>s. ret () (s\<lparr>bh_disk := without p (bh_disk s)\<rparr>))) (\<lambda>_. ret ())"

definition copytree_to :: "('k, 'b) backup_world \<Rightarrow> 'b disk \<Rightarrow> bpath \<Rightarrow> (('k, 'b) backup_host, unit) stact" where
  "copytree_to w t dst = (\<lambda>s. if look (bh_disk s) dst \<noteq> None then throw (OSError (path_text dst)) s
     else backup_op w ''copytree'' dst (half_done w dst) (\<lambda>s. ret () (s\<lparr>bh_disk := graft dst t (bh_disk s)\<rparr>)) s)"

definition hidden :: "('k, 'b) backup_world \<Rightarrow> string \<Rightarrow> bpath \<Rightarrow> 'k \<Rightarrow> bpath" where
  "hidden w tag dst k = butlast dst @ [''.'' @ last dst @ tag @ bw_uuid w k]"

datatype restore_step = RestoreDb bpath bpath | ReplaceFile bpath bpath | ReplaceOptional bpath bpath | ReplaceTree bpath bpath

definition replace_file :: "('k, 'b) backup_world \<Rightarrow> 'b disk \<Rightarrow> bpath \<Rightarrow> bpath \<Rightarrow> (('k, 'b) backup_host, unit) stact" where
  "replace_file w payload src dst = (case file_of payload src of
     None \<Rightarrow> ret ()
   | Some c \<Rightarrow> andthen (mkdirs w (butlast dst)) (\<lambda>_ s. (let stage = hidden w ''.restore-'' dst (bh_ext s) in
       andthen (write_file w stage c) (\<lambda>_. move w stage dst) s)))"

definition unlink :: "('k, 'b) backup_world \<Rightarrow> bpath \<Rightarrow> (('k, 'b) backup_host, unit) stact" where
  "unlink w p = (\<lambda>s. if look (bh_disk s) p = None then ret () s
     else if is_dir (bh_disk s) p then throw (RuntimeError (path_text p)) s
     else backup_op w ''unlink'' p id (\<lambda>s. ret () (s\<lparr>bh_disk := without p (bh_disk s)\<rparr>)) s)"

definition replace_optional_file :: "('k, 'b) backup_world \<Rightarrow> 'b disk \<Rightarrow> bpath \<Rightarrow> bpath \<Rightarrow> (('k, 'b) backup_host, unit) stact" where
  "replace_optional_file w payload src dst = (if file_of payload src \<noteq> None then replace_file w payload src dst else unlink w dst)"

text \<open>The old tree moves aside, the copy takes its place; a failure moves the old one back.\<close>

definition swap_tree :: "('k, 'b) backup_world \<Rightarrow> bpath \<Rightarrow> bpath \<Rightarrow> bpath \<Rightarrow> (('k, 'b) backup_host, unit) stact" where
  "swap_tree w stage old dst = (\<lambda>s. let moves = (look (bh_disk s) dst \<noteq> None) in
     (case (if moves then move w dst old s else ret () s) of
        None \<Rightarrow> None
      | Some (r, s1) \<Rightarrow> (let moved_old = (moves \<and> \<not> isl r) in
          handle (andthen (\<lambda>s. Some (r, s)) (\<lambda>_. move w stage dst)) (\<lambda>e.
            andthen (\<lambda>s. if look (bh_disk s) stage \<noteq> None then remove_tree w stage s else ret () s) (\<lambda>_.
            andthen (\<lambda>s. if moved_old \<and> look (bh_disk s) old \<noteq> None \<and> look (bh_disk s) dst = None then move w old dst s else ret () s) (\<lambda>_. throw e))) s1)))"

definition replace_tree :: "('k, 'b) backup_world \<Rightarrow> 'b disk \<Rightarrow> bpath \<Rightarrow> bpath \<Rightarrow> (('k, 'b) backup_host, unit) stact" where
  "replace_tree w payload src dst = (if \<not> is_dir payload src then ret ()
     else andthen (mkdirs w (butlast dst)) (\<lambda>_ s. (let stage = hidden w ''.restore-'' dst (bh_ext s); old = hidden w ''.restore-old-'' dst (bh_ext s) in
       andthen (copytree_to w (subtree src payload) stage) (\<lambda>_.
       at_end (swap_tree w stage old dst) (\<lambda>s. if look (bh_disk s) old \<noteq> None then remove_tree w old s else ret () s)) s)))"

definition restore_sqlite :: "('k, 'b) backup_world \<Rightarrow> 'b disk \<Rightarrow> bpath \<Rightarrow> bpath \<Rightarrow> (('k, 'b) backup_host, unit) stact" where
  "restore_sqlite w payload src dst = andthen (mkdirs w (butlast dst)) (\<lambda>_.
     case file_of payload src of
       None \<Rightarrow> throw (OSError (path_text src))
     | Some c \<Rightarrow> (case bw_into_db w c of Inl e \<Rightarrow> throw e | Inr c' \<Rightarrow> write_file w dst c'))"

fun restore_one :: "('k, 'b) backup_world \<Rightarrow> 'b disk \<Rightarrow> restore_step \<Rightarrow> (('k, 'b) backup_host, unit) stact" where
  "restore_one w payload (RestoreDb src dst) = restore_sqlite w payload src dst"
| "restore_one w payload (ReplaceFile src dst) = replace_file w payload src dst"
| "restore_one w payload (ReplaceOptional src dst) = replace_optional_file w payload src dst"
| "restore_one w payload (ReplaceTree src dst) = replace_tree w payload src dst"

definition restore_steps :: "('k, 'b) backup_world \<Rightarrow> bpath \<Rightarrow> bpath \<Rightarrow> restore_step list" where
  "restore_steps w base pki = [
     RestoreDb [''app'', ''nicevpn.db''] (db_path w),
     ReplaceFile [''app'', ''config.json''] (config_path w),
     ReplaceOptional [''app'', ''api_basic_credentials.json''] (bw_data w @ [''api_basic_credentials.json'']),
     ReplaceOptional [''app'', ''admin_session_secret''] (bw_data w @ [''admin_session_secret'']),
     ReplaceTree [''app'', ''remote_peer_chains''] (bw_data w @ [''remote_peer_chains'']),
     ReplaceTree [''openvpn'', ''pki''] pki,
     ReplaceTree [''openvpn'', ''server''] (base @ [''server'']),
     ReplaceTree [''openvpn'', ''client''] (base @ [''client'']),
     ReplaceTree [''openvpn'', ''ccd''] (base @ [''ccd'']),
     ReplaceTree [''openvpn'', ''mgmt'', ''device_bindings''] (base @ [''mgmt'', ''device_bindings'']),
     ReplaceTree [''openvpn'', ''mgmt'', ''ovpn''] (base @ [''mgmt'', ''ovpn'']),
     ReplaceOptional [''openvpn'', ''mgmt'', ''device_bind_mode''] (base @ [''mgmt'', ''device_bind_mode'']),
     ReplaceFile [''openvpn'', ''tc2-server.key''] (butlast pki @ [''tc2-server.key''])]"

definition validate_restore_target :: "('k, 'b) backup_world \<Rightarrow> string \<Rightarrow> bpath res" where
  "validate_restore_target w t = (if length (bw_resolve w t) < 2 then bad t else Inr (bw_resolve w t))"

definition restore_places :: "('k, 'b) backup_world \<Rightarrow> jobj \<Rightarrow> (bpath \<times> bpath) res" where
  "restore_places w cfg = rbind (validate_restore_target w (dir_text w cfg)) (\<lambda>base.
     rbind (validate_restore_target w (if pki_text w cfg = [] then path_text (base @ [''pki'']) else pki_text w cfg)) (\<lambda>pki. Inr (base, pki)))"

text \<open>The configuration of the payload, which was checked before.\<close>

definition payload_config :: "('k, 'b) backup_world \<Rightarrow> 'b disk \<Rightarrow> jobj res" where
  "payload_config w payload = (case file_of payload [''app'', ''config.json''] of
     None \<Rightarrow> Inl (FileNotFoundError ''config.json'')
   | Some t \<Rightarrow> rbind (cw_loads (bw_config w) t) (\<lambda>v. case v of JObj x \<Rightarrow> Inr x | _ \<Rightarrow> Inl (AttributeError ''get'')))"

definition sync_scripts :: "('k, 'b) backup_world \<Rightarrow> bpath \<Rightarrow> (('k, 'b) backup_host, unit) stact" where
  "sync_scripts w base s = (case bw_scripts w base (bh_ext s, bh_disk s) of (r, k, d) \<Rightarrow> Some (r, s\<lparr>bh_ext := k, bh_disk := d\<rparr>))"

record restore_result =
  rs_created :: json
  rs_pre_restore :: string

definition restore_full_backup :: "('k, 'b) backup_world \<Rightarrow> string \<Rightarrow> (('k, 'b) backup_host, restore_result) stact" where
  "restore_full_backup w nm s = (case map_of (bh_archives s) nm of
     None \<Rightarrow> throw (FileNotFoundError nm) s
   | Some ms \<Rightarrow> (case safe_extract ms of
       Inl e \<Rightarrow> throw e s
     | Inr root \<Rightarrow> (case validate_restore_payload w root of
         Inl e \<Rightarrow> throw e s
       | Inr m \<Rightarrow> (let payload = subtree [''payload''] root in
           andthen (create_full_backup w ''pre-restore'') (\<lambda>pre.
           case payload_config w payload of
             Inl e \<Rightarrow> throw e
           | Inr cfg \<Rightarrow> (case restore_places w cfg of
               Inl e \<Rightarrow> throw e
             | Inr (base, pki) \<Rightarrow>
                 andthen (for_each (restore_one w payload) (restore_steps w base pki)) (\<lambda>_.
                 andthen (sync_scripts w base) (\<lambda>_.
                 andthen (backup_op w ''permissions'' [] id (ret ())) (\<lambda>_.
                 if ''created_at'' \<notin> fst ` set m then throw (KeyError ''created_at'')
                 else ret \<lparr>rs_created = jget ''created_at'' m, rs_pre_restore = pre\<rparr>))))) s))))"

end
