(* ===== verification/Backup_Disk.thy ===== *)
theory Backup_Disk
  imports Full_Backup
begin

text \<open>
  Lemmas on disks: what is found after grafting, removing and making directories, and sequences of steps
  each of which fills one place and leaves the others alone.
\<close>

section \<open>Looking up\<close>

lemma look_Nil [simp]: "look [] p = None"
  by (simp add: look_def)

lemma look_Cons: "look ((p, i) # d) q = (if p = q then Some i else look d q)"
  by (simp add: look_def)

lemma look_append: "look (a @ b) q = (case look a q of None \<Rightarrow> look b q | Some x \<Rightarrow> Some x)"
  unfolding look_def by (simp add: map_add_def)

lemma look_filter: "look (filter (\<lambda>(q, i). P q) d) q = (if P q then look d q else None)"
  by (induction d) (auto simp: look_def)

lemma look_without: "look (without p d) q = (if prefix p q then None else look d q)"
  unfolding without_def by (simp add: look_filter)

lemma look_subtree: "look (subtree p d) q = look d (p @ q)"
proof (induction d)
  case (Cons x d)
  obtain r i where x: "x = (r, i)" by (cases x)
  have "drop (length p) r = q \<longleftrightarrow> r = p @ q" if "prefix p r" using that by (auto simp: prefix_def)
  then show ?case using Cons x by (auto simp: subtree_def look_Cons)
qed (simp add: subtree_def)

lemma look_under: "look (map (\<lambda>(q, i). (p @ q, i)) t) r = (if prefix p r then look t (drop (length p) r) else None)"
  by (induction t) (auto simp: look_Cons prefix_def)

lemma look_graft: "look (graft p t d) q = (if prefix p q then look t (drop (length p) q) else look d q)"
  by (auto simp: graft_def look_append look_under look_without split: option.split)

lemma look_put_file: "look (put_at p c d) q = (if prefix p q then (if q = p then Some (IFile c) else None) else look d q)"
  by (auto simp: put_at_def look_graft look_Cons prefix_def)

lemma look_overlay: "look (overlay t d) q = (case look t q of None \<Rightarrow> look d q | Some x \<Rightarrow> Some x)"
proof -
  have "look t q = None \<longleftrightarrow> q \<notin> fst ` set t" by (simp add: look_def map_of_eq_None_iff)
  then show ?thesis by (auto simp: overlay_def look_append look_filter [where P = "\<lambda>q. q \<notin> fst ` set t"] split: option.split)
qed

lemma make_dirs_below_look:
  "make_dirs_below p cs d = Inr d' \<Longrightarrow> look d' q = (if strict_prefix p q \<and> prefix q (p @ cs) then Some IDir else look d q)"
proof (induction p cs d rule: make_dirs_below.induct)
  case (1 p d)
  then show ?case by auto
next
  case (2 p c cs d)
  have split: "strict_prefix p q \<and> prefix q (p @ c # cs) \<longleftrightarrow> q = p @ [c] \<or> (strict_prefix (p @ [c]) q \<and> prefix q ((p @ [c]) @ cs))" for q
    by (auto simp: strict_prefix_def prefix_def Cons_eq_append_conv append_eq_Cons_conv append_eq_append_conv2) 
  show ?case using 2 by (auto simp: split look_Cons split: option.splits item.splits)
qed

lemma make_dirs_look: "make_dirs p d = Inr d' \<Longrightarrow> look d' q = (if q \<noteq> [] \<and> prefix q p then Some IDir else look d q)"
  unfolding make_dirs_def using make_dirs_below_look [of "[]" p d d' q] by (auto simp: strict_prefix_def)

section \<open>Steps that fill one place each\<close>

definition apart :: "bpath \<Rightarrow> bpath \<Rightarrow> bool" where
  "apart p q \<longleftrightarrow> \<not> prefix p q \<and> \<not> prefix q p"

lemma apart_sym: "apart p q \<longleftrightarrow> apart q p"
  by (auto simp: apart_def)

text \<open>A step for the place \<open>t\<close>: there it does what it wants on \<open>Q\<close>, elsewhere it only makes directories above \<open>t\<close>.\<close>

type_synonym 'b place = "bpath \<times> bpath set \<times> (bpath \<Rightarrow> 'b item option)"

definition fills :: "'b place \<Rightarrow> 'b disk \<Rightarrow> 'b disk \<Rightarrow> bool" where
  "fills = (\<lambda>(t, Q, want) d d'. (\<forall>q\<in>Q. look d' (t @ q) = want q)
     \<and> (\<forall>q. \<not> prefix t q \<longrightarrow> look d' q = look d q \<or> (strict_prefix q t \<and> look d' q = Some IDir)))"

fun chain :: "'b place list \<Rightarrow> 'b disk \<Rightarrow> 'b disk \<Rightarrow> bool" where
  "chain [] d d' \<longleftrightarrow> look d' = look d"
| "chain (x # xs) d d' \<longleftrightarrow> (\<exists>m. fills x d m \<and> chain xs m d')"

lemma placed_other:
  assumes "fills (t, Q, want) d d'" "apart t p"
  shows "look d' (p @ q) = look d (p @ q)"
proof -
  have "\<not> prefix t (p @ q)" using assms(2) prefix_same_cases [of t "p @ q" p] by (auto simp: apart_def)
  moreover have "\<not> strict_prefix (p @ q) t" using assms(2) by (auto simp: apart_def strict_prefix_def prefix_def)
  ultimately show ?thesis using assms(1) by (auto simp: fills_def)
qed

lemma chain_other: "chain xs d d' \<Longrightarrow> \<forall>x\<in>set xs. apart (fst x) p \<Longrightarrow> look d' (p @ q) = look d (p @ q)"
proof (induction xs arbitrary: d)
  case (Cons x xs)
  then obtain m where m: "fills x d m" "chain xs m d'" by auto
  obtain t Q want where x: "x = (t, Q, want)" by (cases x)
  have "look m (p @ q) = look d (p @ q)" using placed_other m(1) Cons.prems(2) x by force
  then show ?case using Cons.IH [OF m(2)] Cons.prems(2) by simp
qed simp

lemma chain_place:
  "chain xs d d' \<Longrightarrow> sorted_wrt apart (map fst xs) \<Longrightarrow> (t, Q, want) \<in> set xs \<Longrightarrow> q \<in> Q \<Longrightarrow> look d' (t @ q) = want q"
proof (induction xs arbitrary: d)
  case (Cons x xs)
  then obtain m where m: "fills x d m" "chain xs m d'" by auto
  show ?case
  proof (cases "x = (t, Q, want)")
    case True
    then have "\<forall>y\<in>set xs. apart (fst y) t" using Cons.prems(2) apart_sym by auto
    then have "look d' (t @ q) = look m (t @ q)" using chain_other [OF m(2)] by blast
    then show ?thesis using m(1) True Cons.prems(4) by (simp add: fills_def)
  next
    case False
    then show ?thesis using Cons.IH [OF m(2)] Cons.prems by auto
  qed
qed simp

end
