(* ===== verification/Backup_Create.thy ===== *)
theory Backup_Create
  imports Backup_Disk
begin

text \<open>
  What a payload holds, that an archive made of it is unpacked to the same files, and that the checks of a
  restoration only look at these.
\<close>

section \<open>Well-formed disks\<close>

definition name_ok :: "string \<Rightarrow> bool" where
  "name_ok c \<longleftrightarrow> c \<noteq> [] \<and> c \<noteq> ''.'' \<and> c \<noteq> ''..'' \<and> CHR ''/'' \<notin> set c"

definition rooted :: "'b disk \<Rightarrow> bool" where
  "rooted d \<longleftrightarrow> (\<forall>p q. look d p \<noteq> None \<longrightarrow> strict_prefix q p \<longrightarrow> q \<noteq> [] \<longrightarrow> look d q = Some IDir)"

definition wf_disk :: "'b disk \<Rightarrow> bool" where
  "wf_disk d \<longleftrightarrow> distinct (map fst d) \<and> (\<forall>p\<in>fst ` set d. p \<noteq> [] \<and> list_all name_ok p) \<and> rooted d"

lemma prefix_trans: "prefix a b \<Longrightarrow> prefix b c \<Longrightarrow> prefix a c"
  by (auto simp: prefix_def)

lemma strict_not: "strict_prefix q p \<Longrightarrow> \<not> prefix p q"
  by (auto simp: strict_prefix_def prefix_def)

lemma distinct_under: "distinct xs \<Longrightarrow> distinct (map ((@) p) xs)"
  by (induction xs) auto

lemma distinct_overlay: "distinct (map fst t) \<Longrightarrow> distinct (map fst d) \<Longrightarrow> distinct (map fst (overlay t d))"
  by (force simp: overlay_def distinct_map_filter)

lemma subtree_Cons: "subtree p ((r, i) # d) = (if prefix p r then (drop (length p) r, i) # subtree p d else subtree p d)"
  by (simp add: subtree_def)

lemma look_None_iff: "look d p = None \<longleftrightarrow> p \<notin> fst ` set d"
  by (simp add: look_def map_of_eq_None_iff)

lemma look_in: "wf_disk d \<Longrightarrow> (p, i) \<in> set d \<longleftrightarrow> look d p = Some i"
  by (auto simp: wf_disk_def look_def map_of_eq_Some_iff)

lemma rootedD: "rooted d \<Longrightarrow> look d p \<noteq> None \<Longrightarrow> strict_prefix q p \<Longrightarrow> q \<noteq> [] \<Longrightarrow> look d q = Some IDir"
  by (auto simp: rooted_def)

lemma names_okD: "wf_disk d \<Longrightarrow> look d p \<noteq> None \<Longrightarrow> p \<noteq> [] \<and> list_all name_ok p"
  unfolding look_None_iff wf_disk_def by blast

lemma wf_diskI:
  assumes "distinct (map fst d)" "\<And>p. look d p \<noteq> None \<Longrightarrow> p \<noteq> [] \<and> list_all name_ok p" "rooted d"
  shows "wf_disk d"
  using assms unfolding wf_disk_def look_None_iff by blast

lemma make_dirs_below_distinct: "make_dirs_below p cs d = Inr d' \<Longrightarrow> distinct (map fst d) \<Longrightarrow> distinct (map fst d')"
  by (induction p cs d rule: make_dirs_below.induct) (auto simp: look_None_iff split: option.splits item.splits)

lemma prefix_names: "prefix q p \<Longrightarrow> list_all name_ok p \<Longrightarrow> list_all name_ok q"
  by (auto simp: prefix_def)

lemma wf_make_dirs:
  assumes "make_dirs p d = Inr d'" "wf_disk d" "list_all name_ok p"
  shows "wf_disk d'"
proof (rule wf_diskI)
  show "distinct (map fst d')" using make_dirs_below_distinct assms(1,2) by (auto simp: make_dirs_def wf_disk_def)
  note l = make_dirs_look [OF assms(1)]
  fix q assume "look d' q \<noteq> None"
  then show "q \<noteq> [] \<and> list_all name_ok q" using names_okD [OF assms(2)] prefix_names assms(3) by (auto simp: l split: if_splits)
next
  note l = make_dirs_look [OF assms(1)]
  have "look d' q = Some IDir" if "look d' r \<noteq> None" "strict_prefix q r" "q \<noteq> []" for r q
  proof (cases "prefix r p")
    case True
    then have "prefix q p" using that(2) by (meson prefix_trans strict_prefix_def)
    then show ?thesis using that(3) by (simp add: l)
  next
    case False
    then have "look d r \<noteq> None" using that(1) by (simp add: l)
    then have "look d q = Some IDir" using rootedD [of d r q] assms(2) that by (auto simp: wf_disk_def)
    then show ?thesis by (simp add: l)
  qed
  then show "rooted d'" by (simp add: rooted_def)
qed

lemma wf_put_file:
  assumes "wf_disk d" "p \<noteq> []" "list_all name_ok p" "\<forall>q. strict_prefix q p \<longrightarrow> q \<noteq> [] \<longrightarrow> look d q = Some IDir"
  shows "wf_disk (put_at p c d)"
proof (rule wf_diskI)
  have "distinct (map fst (without p d))" using assms(1) by (auto simp: without_def wf_disk_def distinct_map_filter)
  then show "distinct (map fst (put_at p c d))" by (auto simp: put_at_def graft_def without_def)
  fix q assume "look (put_at p c d) q \<noteq> None"
  then show "q \<noteq> [] \<and> list_all name_ok q" using names_okD [OF assms(1)] assms(2,3) by (auto simp: look_put_file split: if_splits)
next
  have "look (put_at p c d) q = Some IDir" if "look (put_at p c d) r \<noteq> None" "strict_prefix q r" "q \<noteq> []" for r q
  proof (cases "r = p")
    case True
    then have "\<not> prefix p q" using that(2) strict_not by blast
    then show ?thesis using assms(4) that True by (simp add: look_put_file)
  next
    case False
    then have "look d r \<noteq> None" "\<not> prefix p r" using that(1) by (auto simp: look_put_file split: if_splits)
    moreover have "\<not> prefix p q" using \<open>\<not> prefix p r\<close> that(2) by (meson prefix_trans strict_prefix_def)
    ultimately show ?thesis using rootedD [of d r q] assms(1) that by (auto simp: look_put_file wf_disk_def)
  qed
  then show "rooted (put_at p c d)" by (simp add: rooted_def)
qed

lemma distinct_subtree: "distinct (map fst d) \<Longrightarrow> distinct (map fst (subtree p d))"
proof (induction d)
  case (Cons x d)
  obtain r i where x: "x = (r, i)" by (cases x)
  have "drop (length p) r \<notin> fst ` set (subtree p d)" if "prefix p r"
  proof -
    have "look d r = None" using Cons.prems x by (simp add: look_None_iff)
    then have "look (subtree p d) (drop (length p) r) = None" using that by (auto simp: look_subtree prefix_def)
    then show ?thesis by (simp add: look_None_iff)
  qed
  then show ?case using Cons x by (auto simp: subtree_Cons)
qed (simp add: subtree_def)

lemma wf_overlay:
  assumes "wf_disk d" "wf_disk pl" "is_dir d src" "src \<noteq> []" "is_dir pl dst" "\<forall>q. q \<noteq> [] \<longrightarrow> look pl (dst @ q) = None"
  shows "wf_disk (overlay (map (\<lambda>(q, i). (dst @ q, i)) (subtree src d)) pl)" (is "wf_disk ?d")
proof (rule wf_diskI)
  let ?t = "map (\<lambda>(q, i). (dst @ q, i)) (subtree src d)"
  have "distinct (map fst (subtree src d))" using assms(1) distinct_subtree by (auto simp: wf_disk_def)
  then have "distinct (map ((@) dst) (map fst (subtree src d)))" by (rule distinct_under)
  moreover have "map fst ?t = map ((@) dst) (map fst (subtree src d))" by (simp add: case_prod_beta)
  ultimately have t: "distinct (map fst ?t)" by (simp only:)
  show "distinct (map fst ?d)" by (rule distinct_overlay [OF t]) (use assms(2) in \<open>simp add: wf_disk_def\<close>)
  note l = look_overlay look_under look_subtree
  have names: "list_all name_ok dst" "dst \<noteq> []" using names_okD [OF assms(2)] assms(5) by (auto simp: is_dir_def)
  fix p assume "look ?d p \<noteq> None"
  then consider "look pl p \<noteq> None" | q where "p = dst @ q" "look d (src @ q) \<noteq> None"
    by (auto simp: l prefix_def split: option.splits if_splits)
  then show "p \<noteq> [] \<and> list_all name_ok p"
  proof cases
    case 1
    then show ?thesis using names_okD [OF assms(2)] by blast
  next
    case 2
    then show ?thesis using names_okD [OF assms(1) 2(2)] names by simp
  qed
next
  note l = look_overlay look_under look_subtree
  have "look ?d x = Some IDir" if "look ?d r \<noteq> None" "strict_prefix x r" "x \<noteq> []" for r x
  proof (cases "prefix dst r")
    case True
    then obtain q where r: "r = dst @ q" by (auto simp: prefix_def)
    have q: "look d (src @ q) \<noteq> None" using that(1) r assms(3,6) by (cases "q = []") (auto simp: l is_dir_def split: option.splits)
    show ?thesis
    proof (cases "prefix dst x")
      case True
      then obtain y where x: "x = dst @ y" by (auto simp: prefix_def)
      have "strict_prefix y q" using that(2) r x by (auto simp: strict_prefix_def)
      then have "look d (src @ y) = Some IDir" using rootedD [of d "src @ q" "src @ y"] q assms(1,4) by (auto simp: wf_disk_def strict_prefix_def)
      then show ?thesis using x by (simp add: l)
    next
      case False
      then have "strict_prefix x dst" using that(2) r prefix_same_cases [of x r dst] by (auto simp: strict_prefix_def)
      then have "look pl x = Some IDir" using rootedD [of pl dst x] assms(2,5) that(3) by (auto simp: wf_disk_def is_dir_def)
      then show ?thesis using False by (simp add: l)
    qed
  next
    case False
    then have "look pl r \<noteq> None" using that(1) by (simp add: l)
    then have "look pl x = Some IDir" using rootedD [of pl r x] assms(2) that by (auto simp: wf_disk_def)
    moreover have "\<not> prefix dst x" using False that(2) by (meson prefix_trans strict_prefix_def)
    ultimately show ?thesis by (simp add: l)
  qed
  then show "rooted ?d" by (simp add: rooted_def)
qed

section \<open>The payload\<close>

fun copy_target :: "copy_step \<Rightarrow> bpath" where
  "copy_target (Snapshot src dst) = dst"
| "copy_target (CopyFile src dst) = dst"
| "copy_target (CopyTree src dst) = dst"

definition file_view :: "'b option \<Rightarrow> bpath \<Rightarrow> 'b item option" where
  "file_view f q = map_option IFile f"

definition tree_view :: "'b disk \<Rightarrow> bpath \<Rightarrow> bpath \<Rightarrow> 'b item option" where
  "tree_view d src q = (if is_dir d src then look d (src @ q) else if q = [] then Some IDir else None)"

text \<open>What a step puts into the payload; of files only the file itself is compared.\<close>

fun copied :: "('k, 'b) backup_world \<Rightarrow> 'b disk \<Rightarrow> copy_step \<Rightarrow> 'b place" where
  "copied w d (Snapshot src dst) = (dst, {[]}, file_view (case file_of d src of None \<Rightarrow> None | Some c \<Rightarrow> (case bw_snapshot w c of Inl _ \<Rightarrow> None | Inr c' \<Rightarrow> Some c')))"
| "copied w d (CopyFile src dst) = (dst, {[]}, file_view (file_of d src))"
| "copied w d (CopyTree src dst) = (dst, UNIV, tree_view d src)"

fun source_given :: "copy_step \<Rightarrow> bool" where
  "source_given (Snapshot src dst) \<longleftrightarrow> src \<noteq> []"
| "source_given (CopyFile src dst) \<longleftrightarrow> src \<noteq> []"
| "source_given (CopyTree src dst) \<longleftrightarrow> src \<noteq> []"

lemma parent_prefix: "strict_prefix q p \<Longrightarrow> prefix q (butlast p)"
  by (cases p rule: rev_cases) (auto simp: strict_prefix_def)

lemma prefix_parent: "p \<noteq> [] \<Longrightarrow> prefix q (butlast p) \<Longrightarrow> strict_prefix q p"
  by (cases p rule: rev_cases) (auto simp: strict_prefix_def prefix_def)

lemma put_placed:
  assumes "make_dirs (butlast p) d = Inr m" "p \<noteq> []"
  shows "fills (p, {[]}, file_view (Some c)) d (put_at p c m)"
  using make_dirs_look [OF assms(1)] prefix_parent [OF assms(2)] by (auto simp: fills_def look_put_file file_view_def)

lemma wf_copied_file:
  assumes "make_dirs (butlast p) d = Inr m" "wf_disk d" "p \<noteq> []" "list_all name_ok p"
  shows "wf_disk (put_at p c m)"
proof -
  have "list_all name_ok (butlast p)" using assms(4) by (auto simp: list_all_iff dest: in_set_butlastD)
  then have "wf_disk m" using wf_make_dirs [OF assms(1,2)] by simp
  moreover have "\<forall>q. strict_prefix q p \<longrightarrow> q \<noteq> [] \<longrightarrow> look m q = Some IDir"
    using parent_prefix by (auto simp: make_dirs_look [OF assms(1)])
  ultimately show ?thesis by (intro wf_put_file assms(3,4))
qed

lemma copy_one_result:
  assumes "copy_one w d x pl = Inr pl'" "wf_disk d" "wf_disk pl" "copy_target x \<noteq> []" "list_all name_ok (copy_target x)" "source_given x"
    "\<forall>q. look pl (copy_target x @ q) = None"
  shows "fills (copied w d x) pl pl' \<and> wf_disk pl'"
proof (cases x)
  case (Snapshot src dst)
  then obtain c c' m where c: "file_of d src = Some c" "make_dirs (butlast dst) pl = Inr m" "bw_snapshot w c = Inr c'" "pl' = put_at dst c' m"
    using assms(1) by (auto simp: rbind_Inr_iff split: option.splits)
  have "wf_disk pl'" unfolding c(4) using wf_copied_file [OF c(2) assms(3)] assms(4,5) Snapshot by simp
  then show ?thesis using put_placed [OF c(2)] c Snapshot assms(4) by simp
next
  case (CopyFile src dst)
  show ?thesis
  proof (cases "file_of d src")
    case None
    have "look pl dst = None" using assms(7) CopyFile by (metis append_Nil2 copy_target.simps(2))
    then show ?thesis using None assms(1,3) CopyFile by (simp add: fills_def file_view_def)
  next
    case (Some c)
    then obtain m where c: "make_dirs (butlast dst) pl = Inr m" "pl' = put_at dst c m"
      using assms(1) CopyFile by (auto simp: rbind_Inr_iff)
    have "wf_disk pl'" unfolding c(2) using wf_copied_file [OF c(1) assms(3)] assms(4,5) CopyFile by simp
    then show ?thesis using put_placed [OF c(1)] c Some CopyFile assms(4) by simp
  qed
next
  case (CopyTree src dst)
  then obtain m where m: "make_dirs dst pl = Inr m" using assms(1) by (auto simp: rbind_Inr_iff)
  note lm = make_dirs_look [OF m]
  have wf: "wf_disk m" using wf_make_dirs [OF m assms(3)] assms(5) CopyTree by simp
  have dst: "dst \<noteq> []" "\<forall>q. look pl (dst @ q) = None" using assms(4,7) CopyTree by simp_all
  have m_dst: "look m dst = Some IDir" using lm dst by simp
  have m_below: "look m (dst @ q) = None" if "q \<noteq> []" for q using lm dst that by simp
  have m_other: "\<not> prefix dst q \<longrightarrow> look m q = look pl q \<or> (strict_prefix q dst \<and> look m q = Some IDir)" for q
    using lm by (auto simp: strict_prefix_def)
  show ?thesis
  proof (cases "is_dir d src")
    case True
    then have pl': "pl' = overlay (map (\<lambda>(q, i). (dst @ q, i)) (subtree src d)) m" using assms(1) CopyTree m by simp
    have lk: "look pl' q = (if prefix dst q then (case look d (src @ drop (length dst) q) of None \<Rightarrow> look m q | Some i \<Rightarrow> Some i) else look m q)" for q
      unfolding pl' by (simp add: look_overlay look_under look_subtree)
    have "look pl' (dst @ q) = tree_view d src q" for q
      using lk [of "dst @ q"] True m_below m_dst by (cases "q = []") (auto simp: tree_view_def is_dir_def split: option.splits)
    moreover have "wf_disk pl'" unfolding pl' using wf_overlay [OF assms(2) wf True] assms(6) CopyTree m_dst m_below by (simp add: is_dir_def)
    ultimately show ?thesis using lk m_other CopyTree by (simp add: fills_def)
  next
    case False
    then have "pl' = m" using assms(1) CopyTree m by simp
    moreover have "look m (dst @ q) = tree_view d src q" for q using m_dst m_below False by (cases "q = []") (simp_all add: tree_view_def)
    ultimately show ?thesis using m_other CopyTree wf by (simp add: fills_def)
  qed
qed

lemma copied_target: "fst (copied w d x) = copy_target x"
  by (cases x) simp_all

lemma copy_all_result:
  assumes "copy_all w d xs pl = Inr pl'" "wf_disk d" "wf_disk pl" "sorted_wrt apart (map copy_target xs)"
    "\<forall>x\<in>set xs. copy_target x \<noteq> [] \<and> list_all name_ok (copy_target x) \<and> source_given x \<and> (\<forall>q. look pl (copy_target x @ q) = None)"
  shows "chain (map (copied w d) xs) pl pl' \<and> wf_disk pl'"
  using assms
proof (induction xs arbitrary: pl)
  case (Cons x xs)
  then obtain m where m: "copy_one w d x pl = Inr m" "copy_all w d xs m = Inr pl'" by (auto simp: rbind_Inr_iff)
  have p: "fills (copied w d x) pl m \<and> wf_disk m" using copy_one_result [OF m(1)] Cons.prems by simp
  have "look m (copy_target y @ q) = None" if "y \<in> set xs" for y q
  proof -
    obtain t Q want where t: "copied w d x = (t, Q, want)" by (cases "copied w d x")
    have "apart t (copy_target y)" using Cons.prems(4) that t copied_target [of w d x] by auto
    then show ?thesis using placed_other [of t Q want pl m "copy_target y" q] p t Cons.prems(5) that by simp
  qed
  then have "chain (map (copied w d) xs) m pl' \<and> wf_disk pl'" using Cons.IH [OF m(2)] p Cons.prems by simp
  then show ?case using p by auto
qed simp

lemma copy_targets: "sorted_wrt apart (map copy_target (copy_steps w base pki))"
  by (simp add: copy_steps_def apart_def)

end
