(* ===== verification/Backup_Archive.thy ===== *)
theory Backup_Archive
  imports Backup_Create
begin

text \<open>
  An archive of a well-formed directory passes the checks on its members and is unpacked to the same directory,
  and the checks of a restoration give the same answer for both.
\<close>

section \<open>Names\<close>

lemma path_parts_join:
  assumes "p \<noteq> []" "list_all name_ok p"
  shows "path_parts (join ''/'' p) = p"
proof -
  have "split_on (CHR ''/'') (join ''/'' p) = p" using assms by (intro split_on_join) (auto simp: list_all_iff name_ok_def)
  moreover have "filter (\<lambda>c. c \<noteq> [] \<and> c \<noteq> ''.'') p = p" using assms(2) by (auto simp: filter_id_conv list_all_iff name_ok_def)
  ultimately show ?thesis by (simp add: path_parts_def)
qed

lemma relative_name: "list_all name_ok p \<Longrightarrow> p \<noteq> [] \<Longrightarrow> \<not> starts_with (join ''/'' p) ''/''"
proof (cases p)
  case (Cons c cs)
  assume "list_all name_ok p"
  then obtain x xs where "c = x # xs" "x \<noteq> CHR ''/''" using Cons by (cases c) (auto simp: name_ok_def)
  then show ?thesis using Cons by (cases cs) (auto simp: starts_with_def)
qed simp

lemma members_safe:
  assumes "wf_disk d"
  shows "\<not> list_ex unsafe_member (members_of d)"
proof -
  have "\<not> unsafe_name (join ''/'' p)" if "p \<in> fst ` set d" for p
  proof -
    have p: "p \<noteq> []" "list_all name_ok p" using assms that by (auto simp: wf_disk_def)
    then have "''..'' \<notin> set (path_parts (join ''/'' p))" using path_parts_join [OF p] by (auto simp: list_all_iff name_ok_def)
    then show ?thesis using relative_name p by (simp add: unsafe_name_def)
  qed
  then show ?thesis by (force simp: members_of_def unsafe_member_def list_ex_iff split: item.splits)
qed

section \<open>Unpacking\<close>

lemma make_dirs_below_ok:
  "\<forall>q. strict_prefix p q \<longrightarrow> prefix q (p @ cs) \<longrightarrow> look d q = None \<or> look d q = Some IDir \<Longrightarrow> \<exists>d'. make_dirs_below p cs d = Inr d'"
proof (induction p cs d rule: make_dirs_below.induct)
  case (2 p c cs d)
  have c: "look d (p @ [c]) = None \<or> look d (p @ [c]) = Some IDir" using 2(3) by (auto simp: strict_prefix_def)
  have later: "\<forall>q. strict_prefix (p @ [c]) q \<longrightarrow> prefix q ((p @ [c]) @ cs) \<longrightarrow> look d q = None \<or> look d q = Some IDir"
    using 2(3) by (auto simp: strict_prefix_def prefix_def)
  show ?case
  proof (cases "look d (p @ [c])")
    case None
    have "\<forall>q. strict_prefix (p @ [c]) q \<longrightarrow> prefix q ((p @ [c]) @ cs) \<longrightarrow>
        look ((p @ [c], IDir) # d) q = None \<or> look ((p @ [c], IDir) # d) q = Some IDir"
      using later unfolding look_Cons by (simp add: strict_prefix_def)
    then show ?thesis using 2(1) [OF None] None by simp
  next
    case (Some i)
    then show ?thesis using 2(2) later c by auto
  qed
qed auto

lemma make_dirs_ok: "\<forall>q. q \<noteq> [] \<longrightarrow> prefix q p \<longrightarrow> look d q = None \<or> look d q = Some IDir \<Longrightarrow> \<exists>d'. make_dirs p d = Inr d'"
  unfolding make_dirs_def by (rule make_dirs_below_ok) (simp add: strict_prefix_def)

definition part_of :: "'b disk \<Rightarrow> 'b disk \<Rightarrow> bool" where
  "part_of d e \<longleftrightarrow> (\<forall>q i. look d q = Some i \<longrightarrow> look e q = Some i)"

lemma part_of_trans: "part_of a b \<Longrightarrow> part_of b c \<Longrightarrow> part_of a c"
  by (auto simp: part_of_def)

text \<open>Directories that the whole disk has can be made in a part of it, and the result is again a part.\<close>

lemma make_dirs_part:
  assumes "part_of d e" "\<And>q. q \<noteq> [] \<Longrightarrow> prefix q p \<Longrightarrow> look e q = Some IDir" "distinct (map fst d)"
  shows "\<exists>m. make_dirs p d = Inr m \<and> part_of d m \<and> part_of m e \<and> distinct (map fst m) \<and> (p \<noteq> [] \<longrightarrow> look m p = Some IDir)"
proof -
  have "look d q = None \<or> look d q = Some IDir" if "q \<noteq> []" "prefix q p" for q
    using assms(1,2) that by (metis not_Some_eq option.inject part_of_def)
  then obtain m where m: "make_dirs p d = Inr m" using make_dirs_ok by metis
  have eq: "look d q = Some i \<Longrightarrow> q \<noteq> [] \<Longrightarrow> prefix q p \<Longrightarrow> i = IDir" for q i
    using assms(1,2) by (metis option.inject part_of_def)
  have "distinct (map fst m)" using make_dirs_below_distinct [of "[]" p d m] m assms(3) by (simp add: make_dirs_def)
  then show ?thesis using m eq assms(1,2) by (auto simp: part_of_def make_dirs_look [OF m])
qed

lemma extract_member:
  assumes "wf_disk e" "look e p = Some i" "part_of d e" "distinct (map fst d)"
  shows "\<exists>d'. extract_all (members_of [(p, i)] @ ms) d = extract_all ms d' \<and> part_of d d' \<and> part_of d' e \<and> distinct (map fst d') \<and> look d' p = Some i"
proof -
  have e: "rooted e" using assms(1) by (simp add: wf_disk_def)
  have p: "p \<noteq> []" "path_parts (join ''/'' p) = p" using names_okD [OF assms(1), of p] assms(2) path_parts_join by auto
  show ?thesis
  proof (cases i)
    case IDir
    have "look e q = Some IDir" if "q \<noteq> []" "prefix q p" for q
      using rootedD [OF e, of p q] assms(2) IDir that by (cases "q = p") (auto simp: strict_prefix_def)
    then obtain m where "make_dirs p d = Inr m" "part_of d m" "part_of m e" "distinct (map fst m)" "look m p = Some IDir"
      using make_dirs_part [OF assms(3) _ assms(4), of p] p by blast
    then show ?thesis using IDir p by (intro exI [of _ m]) (simp add: members_of_def)
  next
    case (IFile c)
    have "look e q = Some IDir" if "q \<noteq> []" "prefix q (butlast p)" for q
      using rootedD [OF e, of p q] assms(2) prefix_parent [OF p(1) that(2)] that(1) by simp
    then obtain m where m: "make_dirs (butlast p) d = Inr m" "part_of d m" "part_of m e" "distinct (map fst m)"
      using make_dirs_part [OF assms(3) _ assms(4), of "butlast p"] by blast
    have below: "look e (p @ q) = None" if "q \<noteq> []" for q
      using rootedD [OF e, of "p @ q" p] assms(2) IFile p(1) that by (cases "look e (p @ q)") (simp_all add: strict_prefix_def)
    have nd: "\<not> is_dir d p" using assms(2,3) IFile by (auto simp: is_dir_def part_of_def)
    have lk: "look (put_at p c m) q = (if q = p then Some (IFile c) else look m q)" for q
    proof (cases "prefix p q")
      case True
      then obtain r where "q = p @ r" by (auto simp: prefix_def)
      then show ?thesis using below [of r] m(3) by (cases "r = []") (auto simp: look_put_file part_of_def, metis not_Some_eq)
    qed (auto simp: look_put_file)
    have "part_of d (put_at p c m)" using m(2,3) assms(2) IFile by (auto simp: part_of_def lk)
    moreover have "part_of (put_at p c m) e" using m(3) assms(2) IFile by (auto simp: part_of_def lk)
    moreover have "distinct (map fst (put_at p c m))"
      using m(4) by (auto simp: put_at_def graft_def without_def distinct_map_filter)
    ultimately show ?thesis using m(1) nd IFile p lk by (intro exI [of _ "put_at p c m"]) (simp add: members_of_def)
  qed
qed

lemma members_of_Cons: "members_of (x # ms) = members_of [x] @ members_of ms"
  by (simp add: members_of_def)

lemma extract_members:
  assumes "wf_disk e" "\<forall>(p, i)\<in>set ms. look e p = Some i" "part_of d e" "distinct (map fst d)"
  shows "\<exists>d'. extract_all (members_of ms) d = Inr d' \<and> part_of d d' \<and> part_of d' e \<and> distinct (map fst d') \<and> (\<forall>(p, i)\<in>set ms. look d' p = Some i)"
  using assms(2-)
proof (induction ms arbitrary: d)
  case Nil
  then show ?case by (auto simp: members_of_def part_of_def)
next
  case (Cons x ms)
  obtain p i where x: "x = (p, i)" by (cases x)
  then obtain d1 where d1: "extract_all (members_of (x # ms)) d = extract_all (members_of ms) d1" "part_of d d1" "part_of d1 e" "distinct (map fst d1)" "look d1 p = Some i"
    using extract_member [OF assms(1), of p i d "members_of ms"] Cons.prems members_of_Cons [of x ms] by auto
  then obtain d2 where "extract_all (members_of ms) d1 = Inr d2" "part_of d1 d2" "part_of d2 e" "distinct (map fst d2)" "\<forall>(p, i)\<in>set ms. look d2 p = Some i"
    using Cons.IH [of d1] Cons.prems by auto
  then show ?case using d1 x part_of_trans [of d d1 d2] by (intro exI [of _ d2]) (auto simp: part_of_def)
qed

lemma unpacked_same:
  assumes "wf_disk e"
  shows "\<exists>d. safe_extract (members_of e) = Inr d \<and> wf_disk d \<and> look d = look e"
proof -
  obtain d where d: "extract_all (members_of e) [] = Inr d" "part_of d e" "distinct (map fst d)" "\<forall>(p, i)\<in>set e. look d p = Some i"
    using extract_members [OF assms, of e "[]"] look_in [OF assms] by (auto simp: part_of_def)
  have "look d q = look e q" for q
  proof (cases "look e q")
    case None
    then show ?thesis using d(2) by (metis not_Some_eq part_of_def)
  next
    case (Some i)
    then have "(q, i) \<in> set e" using look_in [OF assms] by blast
    then show ?thesis using d(4) Some by auto
  qed
  then have same: "look d = look e" by (simp add: fun_eq_iff)
  have "wf_disk d"
  proof (rule wf_diskI [OF d(3)])
    show "p \<noteq> [] \<and> list_all name_ok p" if "look d p \<noteq> None" for p using names_okD [OF assms] that same by simp
    show "rooted d" using assms same by (auto simp: wf_disk_def rooted_def)
  qed
  then show ?thesis using d(1) same members_safe [OF assms] by (intro exI [of _ d]) (simp add: safe_extract_def)
qed

section \<open>The checks\<close>

lemma map_of_same:
  assumes "set xs = set ys" "\<And>k v v'. (k, v) \<in> set xs \<Longrightarrow> (k, v') \<in> set xs \<Longrightarrow> v = v'"
  shows "map_of xs = map_of ys"
proof
  fix k
  have *: "map_of zs k = (if \<exists>v. (k, v) \<in> set xs then Some (THE v. (k, v) \<in> set xs) else None)" if "set zs = set xs" for zs
  proof (cases "map_of zs k")
    case None
    then show ?thesis using that by (auto simp: map_of_eq_None_iff image_iff)
  next
    case (Some v)
    then have "(k, v) \<in> set xs" using that map_of_SomeD by fastforce
    then show ?thesis using Some assms(2) by (auto intro!: the_equality [symmetric])
  qed
  show "map_of xs k = map_of ys k" using * [of xs] * [of ys] assms(1) by simp
qed

definition archived_files :: "'b disk \<Rightarrow> (string \<times> 'b) list" where
  "archived_files root = payload_files (filter (\<lambda>(p, i). p \<noteq> []) (subtree [''payload''] root))"

lemma in_archived:
  "wf_disk root \<Longrightarrow> (rel, c) \<in> set (archived_files root) \<longleftrightarrow> (\<exists>p. p \<noteq> [] \<and> rel = join ''/'' p \<and> look root (''payload'' # p) = Some (IFile c))"
proof -
  assume wf: "wf_disk root"
  have "distinct (map fst (subtree [''payload''] root))" using wf distinct_subtree by (auto simp: wf_disk_def)
  then have "(p, i) \<in> set (subtree [''payload''] root) \<longleftrightarrow> look root (''payload'' # p) = Some i" for p i
    using look_subtree [of "[''payload'']" root p] map_of_eq_Some_iff [of "subtree [''payload''] root" p i] by (simp add: look_def)
  then show ?thesis unfolding archived_files_def payload_files_def
    by (force split: item.splits)
qed

lemma archived_files_same:
  assumes "wf_disk d" "wf_disk e" "look d = look e"
  shows "set (archived_files d) = set (archived_files e)" and "map_of (archived_files d) = map_of (archived_files e)"
proof -
  show s: "set (archived_files d) = set (archived_files e)"
    using in_archived [OF assms(1)] in_archived [OF assms(2)] assms(3) by auto
  show "map_of (archived_files d) = map_of (archived_files e)"
  proof (rule map_of_same [OF s])
    fix k v v' assume "(k, v) \<in> set (archived_files d)" "(k, v') \<in> set (archived_files d)"
    then obtain p q where p: "p \<noteq> []" "k = join ''/'' p" "look d (''payload'' # p) = Some (IFile v)"
      and q: "q \<noteq> []" "k = join ''/'' q" "look d (''payload'' # q) = Some (IFile v')" using in_archived [OF assms(1)] by metis
    have "list_all name_ok p" "list_all name_ok q"
      using names_okD [OF assms(1), of "''payload'' # p"] names_okD [OF assms(1), of "''payload'' # q"] p q by auto
    then have "p = q" using path_parts_join p q by metis
    then show "v = v'" using p q by simp
  qed
qed

lemma check_entries_same: "map_of fs = map_of fs' \<Longrightarrow> check_entries w fs es = check_entries w fs' es"
  by (induction es) auto

lemma file_of_same: "look d = look e \<Longrightarrow> file_of d = file_of e" and is_dir_same: "look d = look e \<Longrightarrow> is_dir d = is_dir e"
  by (simp_all add: file_of_def is_dir_def fun_eq_iff)

lemma manifest_same:
  assumes "wf_disk d" "wf_disk e" "look d = look e"
  shows "load_verified_manifest w d = load_verified_manifest w e"
proof -
  have "fst ` set (archived_files d) = fst ` set (archived_files e)" using archived_files_same [OF assms] by simp
  moreover have "check_entries w (archived_files d) x = check_entries w (archived_files e) x" for x
    using check_entries_same archived_files_same [OF assms] by blast
  ultimately show ?thesis
    unfolding load_verified_manifest_def archived_files_def [symmetric] Let_def
    by (simp only: file_of_same [OF assms(3)] is_dir_same [OF assms(3)])
qed

lemma pki_ready_same: "look d = look e \<Longrightarrow> pk_ready (inspect_easyrsa_pki p d) = pk_ready (inspect_easyrsa_pki p e)"
  using file_of_same [of d e] by (simp add: inspect_easyrsa_pki_def Let_def split: option.split)

lemma validate_same:
  assumes "wf_disk d" "wf_disk e" "look d = look e"
  shows "validate_restore_payload w d = validate_restore_payload w e"
  unfolding validate_restore_payload_def
  by (simp only: manifest_same [OF assms] file_of_same [OF assms(3)] pki_ready_same [OF assms(3)])

section \<open>The temporary directory\<close>

lemma look_prefixed: "look (map (\<lambda>(p, i). (c # p, i)) d) r = (case r of [] \<Rightarrow> None | x # xs \<Rightarrow> if x = c then look d xs else None)"
  by (induction d) (auto simp: look_Cons split: list.splits)

lemma staged_look: "look (staged_root w t cfg pl) p = (if p = [''manifest.json''] then Some (IFile (cw_dumps (bw_config w) (JObj (manifest_for w t cfg pl))))
    else if p = [''payload''] then Some IDir else if prefix [''payload''] p then look pl (tl p) else None)"
  by (cases p) (auto simp: staged_root_def look_Cons look_prefixed)

lemma staged_wf:
  assumes "wf_disk pl"
  shows "wf_disk (staged_root w t cfg pl)"
proof (rule wf_diskI)
  have "distinct (map (\<lambda>p. ''payload'' # p) (map fst pl))" using assms by (simp add: wf_disk_def distinct_map inj_on_def)
  then have "distinct (map fst (map (\<lambda>(p, i). (''payload'' # p, i)) pl))" by (simp add: comp_def case_prod_beta)
  moreover have "[] \<notin> fst ` set pl" using assms by (auto simp: wf_disk_def)
  ultimately show "distinct (map fst (staged_root w t cfg pl))" by (force simp: staged_root_def)
  fix p assume "look (staged_root w t cfg pl) p \<noteq> None"
  then consider "p = [''manifest.json'']" | "p = [''payload'']" | q where "p = ''payload'' # q" "look pl q \<noteq> None"
    by (auto simp: staged_look prefix_def split: if_splits)
  then show "p \<noteq> [] \<and> list_all name_ok p" using names_okD [OF assms] by cases (auto simp: name_ok_def)
next
  have "look (staged_root w t cfg pl) q = Some IDir" if u: "look (staged_root w t cfg pl) p \<noteq> None" "strict_prefix q p" "q \<noteq> []" for p q
  proof -
    obtain q' p' where q: "p = ''payload'' # p'" "q = ''payload'' # q'" "strict_prefix q' p'"
      using u by (cases p; cases q) (auto simp: staged_look prefix_def strict_prefix_def split: if_splits)
    then have "look pl p' \<noteq> None" using u(1) by (auto simp: staged_look strict_prefix_def split: if_splits)
    then show ?thesis using q rootedD [of pl p' q'] assms by (cases "q' = []") (auto simp: staged_look wf_disk_def)
  qed
  then show "rooted (staged_root w t cfg pl)" by (simp add: rooted_def)
qed

end
