(* ===== verification/Backup_Restore.thy ===== *)
theory Backup_Restore
  imports Backup_Archive
begin

text \<open>
  What the steps of a restoration leave on the disk when no operation of the file system fails.
\<close>

section \<open>Without faults\<close>

definition no_faults :: "('k, 'b) backup_world \<Rightarrow> bool" where
  "no_faults w \<longleftrightarrow> (\<forall>nm p k. fst (bw_op w nm p k) = None)"

lemma op_done: "no_faults w \<Longrightarrow> backup_op w nm p b m s = m (s\<lparr>bh_ext := snd (bw_op w nm p (bh_ext s))\<rparr>)"
proof -
  assume "no_faults w"
  then have "fst (bw_op w nm p (bh_ext s)) = None" by (simp add: no_faults_def)
  then show ?thesis by (cases "bw_op w nm p (bh_ext s)") (simp add: backup_op_def)
qed

text \<open>The names a restoration uses while it works do not occur otherwise.\<close>

definition visible :: "bpath \<Rightarrow> bool" where
  "visible p \<longleftrightarrow> \<not> (\<exists>c\<in>set p. sublist ''.restore-'' c)"

definition tidy_disk :: "'b disk \<Rightarrow> bool" where
  "tidy_disk d \<longleftrightarrow> (\<forall>p. look d p \<noteq> None \<longrightarrow> visible p)"

lemma tidy_diskD: "tidy_disk d \<Longrightarrow> \<not> visible p \<Longrightarrow> look d p = None"
  by (auto simp: tidy_disk_def)

lemma visible_prefix: "prefix q p \<Longrightarrow> visible p \<Longrightarrow> visible q"
  by (auto simp: visible_def prefix_def)

lemma visible_append [simp]: "visible (p @ q) \<longleftrightarrow> visible p \<and> visible q"
  by (auto simp: visible_def)

lemma hidden_invisible:
  assumes "tag = ''.restore-'' \<or> tag = ''.restore-old-''"
  shows "\<not> visible (hidden w tag p k @ q)"
proof -
  have "sublist ''.restore-'' (a @ tag @ b)" for a b
    using assms sublist_append_rightI sublist_appendI [of "''.restore-''" a "b"] sublist_appendI [of "''.restore-''" a "''old-'' @ b"] by auto
  from this [of "''.'' @ last p" "bw_uuid w k"] show ?thesis by (auto simp: visible_def hidden_def)
qed

lemma hidden_apart:
  assumes "tag = ''.restore-'' \<or> tag = ''.restore-old-''" "visible p" "p \<noteq> []"
  shows "apart p (hidden w tag p k)"
proof -
  have h: "\<not> visible (hidden w tag p k)" using hidden_invisible [OF assms(1), of w p k "[]"] by simp
  have "\<not> prefix (hidden w tag p k) p" using h visible_prefix assms(2) by blast
  moreover have "length (hidden w tag p k) = length p" using assms(3) by (simp add: hidden_def)
  then have "prefix p (hidden w tag p k) \<Longrightarrow> p = hidden w tag p k" by (auto simp: prefix_def)
  then have "\<not> prefix p (hidden w tag p k)" using h assms(2) by auto
  ultimately show ?thesis by (simp add: apart_def)
qed

lemma hidden_two: "apart (hidden w ''.restore-'' p k) (hidden w ''.restore-old-'' p k)"
  by (auto simp: apart_def hidden_def)

lemma clean_make_dirs: "make_dirs p d = Inr m \<Longrightarrow> tidy_disk d \<Longrightarrow> visible p \<Longrightarrow> tidy_disk m"
  using visible_prefix by (auto simp: tidy_disk_def make_dirs_look split: if_splits)

lemma mkdirs_done:
  assumes "no_faults w" "mkdirs w p s = Some (Inr (), s')"
  shows "make_dirs p (bh_disk s) = Inr (bh_disk s')"
  using assms by (auto simp: mkdirs_def op_done throw_def ret_def split: sum.splits)

lemma write_done:
  assumes "no_faults w" "write_file w p c s = Some (Inr (), s')"
  shows "bh_disk s' = put_at p c (bh_disk s)"
  using assms by (auto simp: write_file_def op_done throw_def ret_def split: if_splits)

lemma move_done:
  assumes "no_faults w" "move w p q s = Some (Inr (), s')"
  shows "bh_disk s' = graft q (subtree p (bh_disk s)) (without p (bh_disk s)) \<and> look (bh_disk s) p \<noteq> None"
  using assms by (auto simp: move_def op_done throw_def ret_def may_move_def split: if_splits option.splits)

lemma look_moved: "look (graft q (subtree p d) (without p d)) r =
    (if prefix q r then look d (p @ drop (length q) r) else if prefix p r then None else look d r)"
  by (simp add: look_graft look_subtree look_without)

text \<open>A file or tree at a place, with everything else but the directories above it as before.\<close>

definition installed :: "bpath \<Rightarrow> (bpath \<Rightarrow> 'b item option) \<Rightarrow> 'b disk \<Rightarrow> 'b disk \<Rightarrow> bool" where
  "installed t want d d' \<longleftrightarrow> (\<exists>m. make_dirs (butlast t) d = Inr m \<and> (\<forall>q. look d' q = (if prefix t q then want (drop (length t) q) else look m q)))"

lemma installed_placed:
  assumes "installed t want d d'" "t \<noteq> []"
  shows "fills (t, Q, want) d d'"
proof -
  obtain m where m: "make_dirs (butlast t) d = Inr m" "\<And>q. look d' q = (if prefix t q then want (drop (length t) q) else look m q)"
    using assms(1) by (auto simp: installed_def)
  show ?thesis using prefix_parent [OF assms(2)] by (auto simp: fills_def m(2) make_dirs_look [OF m(1)])
qed

lemma installed_clean:
  assumes "installed t want d d'" "tidy_disk d" "visible t" "\<forall>q. want q \<noteq> None \<longrightarrow> visible q"
  shows "tidy_disk d'"
proof -
  obtain m where m: "make_dirs (butlast t) d = Inr m" "\<And>q. look d' q = (if prefix t q then want (drop (length t) q) else look m q)"
    using assms(1) by (auto simp: installed_def)
  have "visible (butlast t)" using visible_prefix assms(3) prefixeq_butlast by blast
  then have "tidy_disk m" using clean_make_dirs m(1) assms(2) by blast
  then show ?thesis using assms(3,4) by (auto simp: tidy_disk_def m(2) prefix_def)
qed

definition just_file :: "'b \<Rightarrow> bpath \<Rightarrow> 'b item option" where
  "just_file c q = (if q = [] then Some (IFile c) else None)"

lemma replace_file_done:
  assumes "no_faults w" "replace_file w pl src dst s = Some (Inr (), s')" "file_of pl src = Some c" "tidy_disk (bh_disk s)" "visible dst" "dst \<noteq> []"
  shows "installed dst (just_file c) (bh_disk s) (bh_disk s')"
proof -
  obtain s1 where s1: "mkdirs w (butlast dst) s = Some (Inr (), s1)"
      "andthen (write_file w (hidden w ''.restore-'' dst (bh_ext s1)) c) (\<lambda>_. move w (hidden w ''.restore-'' dst (bh_ext s1)) dst) s1 = Some (Inr (), s')"
    using assms(2,3) by (auto simp: replace_file_def andthen_Some_iff Let_def)
  define st where "st = hidden w ''.restore-'' dst (bh_ext s1)"
  have m: "make_dirs (butlast dst) (bh_disk s) = Inr (bh_disk s1)" using mkdirs_done [OF assms(1) s1(1)] .
  obtain s2 where s2: "write_file w st c s1 = Some (Inr (), s2)" "move w st dst s2 = Some (Inr (), s')"
    using s1(2) by (auto simp: andthen_Some_iff st_def)
  have vis: "visible (butlast dst)" using visible_prefix assms(5) prefixeq_butlast by blast
  have gone: "look (bh_disk s1) (st @ q) = None" for q
    using tidy_diskD [OF clean_make_dirs [OF m assms(4) vis]] hidden_invisible [of "''.restore-''" w dst "bh_ext s1" q] by (simp add: st_def)
  have ap: "\<not> prefix dst st" "\<not> prefix st dst" using hidden_apart [of "''.restore-''" dst w "bh_ext s1"] assms(5,6) by (simp_all add: apart_def st_def)
  have "look (bh_disk s') q = (if prefix dst q then just_file c (drop (length dst) q) else look (bh_disk s1) q)" for q
  proof (cases "prefix dst q")
    case True
    then show ?thesis using move_done [OF assms(1) s2(2)] write_done [OF assms(1) s2(1)]
      by (auto simp: look_moved look_put_file just_file_def)
  next
    case False
    then show ?thesis using move_done [OF assms(1) s2(2)] write_done [OF assms(1) s2(1)] gone
      by (auto simp: look_moved look_put_file prefix_def)
  qed
  then show ?thesis using m by (auto simp: installed_def)
qed

lemma restore_sqlite_done:
  assumes "no_faults w" "restore_sqlite w pl src dst s = Some (Inr (), s')" "dst \<noteq> []"
  shows "\<exists>c c'. file_of pl src = Some c \<and> bw_into_db w c = Inr c' \<and> installed dst (just_file c') (bh_disk s) (bh_disk s')"
proof -
  obtain s1 c c' where s1: "mkdirs w (butlast dst) s = Some (Inr (), s1)" "file_of pl src = Some c" "bw_into_db w c = Inr c'" "write_file w dst c' s1 = Some (Inr (), s')"
    using assms(2) by (auto simp: restore_sqlite_def andthen_Some_iff throw_def split: option.splits sum.splits)
  have "make_dirs (butlast dst) (bh_disk s) = Inr (bh_disk s1)" using mkdirs_done [OF assms(1) s1(1)] .
  then have "installed dst (just_file c') (bh_disk s) (bh_disk s')"
    using write_done [OF assms(1) s1(4)] by (auto simp: installed_def look_put_file just_file_def prefix_def)
  then show ?thesis using s1 by blast
qed

lemma remove_tree_done: "no_faults w \<Longrightarrow> remove_tree w p s = Some (r, s') \<Longrightarrow> bh_disk s' = without p (bh_disk s)"
  by (auto simp: remove_tree_def handle_def op_done ret_def)

lemma copytree_done:
  assumes "no_faults w" "copytree_to w t p s = Some (Inr (), s')"
  shows "bh_disk s' = graft p t (bh_disk s)"
  using assms by (auto simp: copytree_to_def op_done throw_def ret_def split: if_splits)

lemma swap_tree_done:
  assumes "swap_tree w stage old dst s = Some (Inr (), s')"
  shows "\<exists>s1. (if look (bh_disk s) dst \<noteq> None then move w dst old s else ret () s) = Some (Inr (), s1) \<and> move w stage dst s1 = Some (Inr (), s')"
proof -
  let ?m = "if look (bh_disk s) dst \<noteq> None then move w dst old s else ret () s"
  obtain r s1 where m: "?m = Some (r, s1)" using assms by (cases ?m) (auto simp: swap_tree_def Let_def)
  have raises: "andthen f (\<lambda>_. andthen g (\<lambda>_. throw e)) t \<noteq> Some (Inr (), s')" for f g e t
    by (auto simp: andthen_Some_iff throw_def)
  have "handle (andthen (\<lambda>s. Some (r, s)) (\<lambda>_. move w stage dst)) (\<lambda>e.
      andthen (\<lambda>s. if look (bh_disk s) stage \<noteq> None then remove_tree w stage s else ret () s) (\<lambda>_.
      andthen (\<lambda>s. if (look (bh_disk s0) dst \<noteq> None \<and> \<not> isl r) \<and> look (bh_disk s) old \<noteq> None \<and> look (bh_disk s) dst = None then move w old dst s else ret () s)
        (\<lambda>_. throw e))) s1 = Some (Inr (), s')" if "s0 = s" for s0
    using assms m that by (simp add: swap_tree_def Let_def)
  then have "andthen (\<lambda>s. Some (r, s)) (\<lambda>_. move w stage dst) s1 = Some (Inr (), s')"
    using raises unfolding handle_Some_iff by blast
  then show ?thesis using m by (cases r) (auto simp: andthen_def)
qed

lemma replace_tree_done:
  assumes "no_faults w" "replace_tree w pl src dst s = Some (Inr (), s')" "is_dir pl src" "tidy_disk (bh_disk s)" "visible dst" "dst \<noteq> []"
  shows "installed dst (\<lambda>q. look pl (src @ q)) (bh_disk s) (bh_disk s')"
proof -
  obtain s1 where s1: "mkdirs w (butlast dst) s = Some (Inr (), s1)"
    using assms(2,3) by (auto simp: replace_tree_def andthen_Some_iff)
  define stage where "stage = hidden w ''.restore-'' dst (bh_ext s1)"
  define old where "old = hidden w ''.restore-old-'' dst (bh_ext s1)"
  obtain s2 where s2: "copytree_to w (subtree src pl) stage s1 = Some (Inr (), s2)"
      "at_end (swap_tree w stage old dst) (\<lambda>s. if look (bh_disk s) old \<noteq> None then remove_tree w old s else ret () s) s2 = Some (Inr (), s')"
    unfolding stage_def old_def using assms(2,3) s1 by (auto simp: replace_tree_def andthen_Some_iff Let_def)
  obtain s4 where s4: "swap_tree w stage old dst s2 = Some (Inr (), s4)"
      "(if look (bh_disk s4) old \<noteq> None then remove_tree w old s4 else ret () s4) = Some (Inr (), s')"
    using s2(2) unfolding at_end_def by (auto split: option.splits sum.splits prod.splits)
  obtain s3 where s3: "(if look (bh_disk s2) dst \<noteq> None then move w dst old s2 else ret () s2) = Some (Inr (), s3)" "move w stage dst s3 = Some (Inr (), s4)"
    using swap_tree_done [OF s4(1)] by blast
  have m: "make_dirs (butlast dst) (bh_disk s) = Inr (bh_disk s1)" using mkdirs_done [OF assms(1) s1] .
  have vis: "visible (butlast dst)" using visible_prefix assms(5) prefixeq_butlast by blast
  have c1: "tidy_disk (bh_disk s1)" using clean_make_dirs [OF m assms(4) vis] .
  have gone: "look (bh_disk s1) (stage @ q) = None" "look (bh_disk s1) (old @ q) = None" for q
    using tidy_diskD [OF c1] hidden_invisible [of "''.restore-''" w dst "bh_ext s1" q] hidden_invisible [of "''.restore-old-''" w dst "bh_ext s1" q]
    by (simp_all add: stage_def old_def)
  have ap: "apart dst stage" "apart dst old" "apart stage old"
    by (simp_all add: stage_def old_def hidden_apart [OF _ assms(5,6)] hidden_two)
  have no: "\<not> prefix old (dst @ q)" "\<not> prefix dst (old @ q)" "\<not> prefix stage (dst @ q)" "\<not> prefix dst (stage @ q)" "\<not> prefix stage (old @ q)" "\<not> prefix old (stage @ q)" for q
    using ap prefix_same_cases [of old "dst @ q" dst] prefix_same_cases [of dst "old @ q" old] prefix_same_cases [of stage "dst @ q" dst]
      prefix_same_cases [of dst "stage @ q" stage] prefix_same_cases [of stage "old @ q" old] prefix_same_cases [of old "stage @ q" stage]
    by (auto simp: apart_def)
  have l2: "look (bh_disk s2) q = (if prefix stage q then look pl (src @ drop (length stage) q) else look (bh_disk s1) q)" for q
    using copytree_done [OF assms(1) s2(1)] by (simp add: look_graft look_subtree)
  have l3: "look (bh_disk s3) q = (if prefix old q then look (bh_disk s2) (dst @ drop (length old) q) else if prefix dst q then None else look (bh_disk s2) q)
      \<or> (s3 = s2 \<and> look (bh_disk s2) dst = None)" for q
    using s3(1) move_done [OF assms(1), of dst old s2 s3] by (auto simp: look_moved ret_def split: if_splits)
  have l4: "look (bh_disk s4) q = (if prefix dst q then look (bh_disk s3) (stage @ drop (length dst) q) else if prefix stage q then None else look (bh_disk s3) q)" for q
    using move_done [OF assms(1) s3(2)] by (simp add: look_moved)
  have stage3: "look (bh_disk s3) (stage @ q) = look pl (src @ q)" for q
    using l3 [of "stage @ q"] l2 [of "stage @ q"] no by auto
  have "look (bh_disk s') q = (if prefix dst q then look pl (src @ drop (length dst) q) else look (bh_disk s1) q)" for q
  proof -
    have last: "look (bh_disk s') q = (if look (bh_disk s4) old \<noteq> None \<and> prefix old q then None else look (bh_disk s4) q)"
      using s4(2) remove_tree_done [OF assms(1), of old s4 "Inr ()" s'] by (auto simp: look_without ret_def split: if_splits)
    consider "prefix dst q" | "prefix old q" | "prefix stage q" | "\<not> prefix dst q" "\<not> prefix old q" "\<not> prefix stage q" by blast
    then show ?thesis
    proof cases
      case 1
      then have "\<not> prefix old q" using no by (auto simp: prefix_def)
      then show ?thesis using last l4 [of q] stage3 1 by simp
    next
      case 2
      then obtain r where r: "q = old @ r" by (auto simp: prefix_def)
      have nq: "\<not> prefix dst q" "\<not> prefix stage q" using no r by auto
      have "look (bh_disk s') q = None"
      proof (cases "look (bh_disk s2) dst = None")
        case True
        then have "s3 = s2" using s3(1) by (simp add: ret_def)
        then have "look (bh_disk s4) q = None" using l4 [of q] l2 [of q] nq gone r by simp
        then show ?thesis using last by simp
      next
        case False
        then have "look (bh_disk s3) old \<noteq> None" using l3 [of old] by auto
        then have "look (bh_disk s4) old \<noteq> None" using l4 [of old] no [of "[]"] by simp
        then show ?thesis using last 2 by simp
      qed
      then show ?thesis using nq gone r by simp
    next
      case 3
      then obtain r where r: "q = stage @ r" by (auto simp: prefix_def)
      have nq: "\<not> prefix dst q" "\<not> prefix old q" using no r by auto
      then show ?thesis using last l4 [of q] 3 gone r by simp
    next
      case 4
      have "look (bh_disk s3) q = look (bh_disk s2) q" using l3 [of q] 4 by auto
      then show ?thesis using last l4 [of q] l2 [of q] 4 by simp
    qed
  qed
  then show ?thesis using m by (auto simp: installed_def)
qed

section \<open>All steps\<close>

text \<open>The place a step fills and what it puts there; of files only the file itself is compared.\<close>

fun filled :: "('k, 'b) backup_world \<Rightarrow> 'b disk \<Rightarrow> restore_step \<Rightarrow> 'b place" where
  "filled w pl (RestoreDb src dst) = (dst, {[]}, file_view (case file_of pl src of None \<Rightarrow> None | Some c \<Rightarrow> (case bw_into_db w c of Inl _ \<Rightarrow> None | Inr c' \<Rightarrow> Some c')))"
| "filled w pl (ReplaceFile src dst) = (dst, {[]}, file_view (file_of pl src))"
| "filled w pl (ReplaceOptional src dst) = (dst, {[]}, file_view (file_of pl src))"
| "filled w pl (ReplaceTree src dst) = (dst, UNIV, \<lambda>q. look pl (src @ q))"

fun place_of :: "restore_step \<Rightarrow> bpath" where
  "place_of (RestoreDb src dst) = dst"
| "place_of (ReplaceFile src dst) = dst"
| "place_of (ReplaceOptional src dst) = dst"
| "place_of (ReplaceTree src dst) = dst"

text \<open>The payload has what the step needs.\<close>

fun supplied :: "'b disk \<Rightarrow> restore_step \<Rightarrow> bool" where
  "supplied pl (ReplaceFile src dst) \<longleftrightarrow> file_of pl src \<noteq> None"
| "supplied pl (ReplaceTree src dst) \<longleftrightarrow> is_dir pl src"
| "supplied pl _ \<longleftrightarrow> True"

lemma file_at_place: "fills (t, {[]}, just_file c) d d' \<longleftrightarrow> fills (t, {[]}, file_view (Some c)) d d'"
  by (auto simp: fills_def just_file_def file_view_def)

lemma just_file_visible: "just_file c q = Some i \<Longrightarrow> visible q"
  by (auto simp: just_file_def visible_def split: if_splits)

lemma just_file_clean: "installed t (just_file c) d d' \<Longrightarrow> tidy_disk d \<Longrightarrow> visible t \<Longrightarrow> tidy_disk d'"
  by (rule installed_clean) (auto dest: just_file_visible)

lemma restore_one_done:
  assumes "no_faults w" "restore_one w pl x s = Some (Inr (), s')" "supplied pl x" "tidy_disk (bh_disk s)" "tidy_disk pl" "visible (place_of x)" "place_of x \<noteq> []"
  shows "fills (filled w pl x) (bh_disk s) (bh_disk s') \<and> tidy_disk (bh_disk s')"
proof (cases x)
  case (RestoreDb src dst)
  then obtain c c' where c: "file_of pl src = Some c" "bw_into_db w c = Inr c'" "installed dst (just_file c') (bh_disk s) (bh_disk s')"
    using restore_sqlite_done [OF assms(1), of pl src dst s s'] assms(2,7) by auto
  then show ?thesis
    using installed_placed [OF c(3)] just_file_clean [OF c(3) assms(4)] assms(6,7) RestoreDb by (simp add: file_at_place [symmetric])
next
  case (ReplaceFile src dst)
  then obtain c where c: "file_of pl src = Some c" using assms(3) by auto
  then have i: "installed dst (just_file c) (bh_disk s) (bh_disk s')"
    using replace_file_done [OF assms(1), of pl src dst s s' c] assms ReplaceFile by simp
  then show ?thesis
    using installed_placed [OF i] just_file_clean [OF i assms(4)] assms(6,7) ReplaceFile c by (simp add: file_at_place [symmetric])
next
  case (ReplaceOptional src dst)
  show ?thesis
  proof (cases "file_of pl src")
    case (Some c)
    then have i: "installed dst (just_file c) (bh_disk s) (bh_disk s')"
      using replace_file_done [OF assms(1), of pl src dst s s' c] assms ReplaceOptional by (simp add: replace_optional_file_def)
    then show ?thesis
      using installed_placed [OF i] just_file_clean [OF i assms(4)] assms(6,7) ReplaceOptional Some by (simp add: file_at_place [symmetric])
  next
    case None
    then have u: "unlink w dst s = Some (Inr (), s')" using assms(2) ReplaceOptional by (simp add: replace_optional_file_def)
    then consider "s' = s" "look (bh_disk s) dst = None" | "bh_disk s' = without dst (bh_disk s)"
      by (auto simp: unlink_def op_done [OF assms(1)] ret_def throw_def split: if_splits)
    then show ?thesis
      using assms(4) None ReplaceOptional by cases (auto simp: fills_def look_without file_view_def tidy_disk_def)
  qed
next
  case (ReplaceTree src dst)
  then have i: "installed dst (\<lambda>q. look pl (src @ q)) (bh_disk s) (bh_disk s')"
    using replace_tree_done [OF assms(1), of pl src dst s s'] assms by simp
  have "\<forall>q. look pl (src @ q) \<noteq> None \<longrightarrow> visible q" using assms(5) by (auto simp: tidy_disk_def)
  then show ?thesis using installed_placed [OF i] installed_clean [OF i assms(4)] assms(6,7) ReplaceTree by simp
qed

lemma restore_all_done:
  assumes "no_faults w" "tidy_disk pl" "for_each (restore_one w pl) xs s = Some (Inr (), s')" "tidy_disk (bh_disk s)"
    "\<forall>x\<in>set xs. supplied pl x \<and> visible (place_of x) \<and> place_of x \<noteq> []"
  shows "chain (map (filled w pl) xs) (bh_disk s) (bh_disk s')"
  using assms(3-)
proof (induction xs arbitrary: s)
  case (Cons x xs)
  then obtain t where t: "restore_one w pl x s = Some (Inr (), t)" "for_each (restore_one w pl) xs t = Some (Inr (), s')"
    by (auto simp: andthen_Some_iff)
  have "fills (filled w pl x) (bh_disk s) (bh_disk t) \<and> tidy_disk (bh_disk t)"
    using restore_one_done [OF assms(1) t(1) _ Cons.prems(2) assms(2)] Cons.prems(3) by simp
  then show ?case using Cons.IH [OF t(2)] Cons.prems(3) by auto
qed (simp add: ret_def)

end
