(* ===== verification/Backup_Runs.thy ===== *)
theory Backup_Runs
  imports Backup_Restore Returns
begin

text \<open>
  What a backup holds when it was made, that making one leaves the disk as it is, and that restorations return.
\<close>

section \<open>Making a backup\<close>

lemma op_result: "backup_op w nm p b m s = Some (Inr x, s') \<Longrightarrow> \<exists>k. m (s\<lparr>bh_ext := k\<rparr>) = Some (Inr x, s')"
  by (cases "bw_op w nm p (bh_ext s)"; cases "fst (bw_op w nm p (bh_ext s))") (auto simp: backup_op_def throw_def)

lemma op_nothing: "backup_op w nm p id (ret ()) s = Some (r, s') \<Longrightarrow> bh_disk s' = bh_disk s \<and> bh_archives s' = bh_archives s"
  by (auto simp: backup_op_def throw_def ret_def split: prod.splits option.splits)

lemma archive_disk: "write_archive w nm ms s = Some (r, s') \<Longrightarrow> bh_disk s' = bh_disk s"
  by (auto simp: write_archive_def backup_op_def throw_def ret_def split: prod.splits option.splits)

lemma archive_written: "write_archive w nm ms s = Some (Inr u, s') \<Longrightarrow> map_of (bh_archives s') nm = Some ms"
  unfolding write_archive_def by (drule op_result) (auto simp: ret_def update_conv')

lemma pack_result:
  assumes "pack_backup w n root s = Some (Inr nm, s')"
  shows "nm = n \<and> (\<exists>m. validate_restore_payload w root = Inr m) \<and> map_of (bh_archives s') n = Some (members_of root)"
proof -
  obtain s1 m s2 where s1: "validate_restore_payload w root = Inr m" "write_archive w n (members_of root) s1 = Some (Inr (), s2)"
      "andthen (backup_op w ''chmod'' [n] id (ret ())) (\<lambda>_. ret n) s2 = Some (Inr nm, s')"
    using assms unfolding pack_backup_def andthen_Some_iff by (cases "validate_restore_payload w root") (auto simp: throw_def andthen_Some_iff)
  have s3: "backup_op w ''chmod'' [n] id (ret ()) s2 = Some (Inr (), s')" "nm = n" using s1(3) unfolding andthen_Some_iff by (auto simp: ret_def)
  show ?thesis using s1(1) archive_written [OF s1(2)] op_nothing [OF s3(1)] s3(2) by simp
qed

lemma create_result:
  assumes "create_full_backup w label s = Some (Inr nm, s')"
  shows "\<exists>cfg payload t m. current_config w s = Inr cfg \<and> copy_backup_payload w cfg (bh_disk s) = Inr payload
     \<and> validate_restore_payload w (staged_root w t cfg payload) = Inr m
     \<and> map_of (bh_archives s') nm = Some (members_of (staged_root w t cfg payload))"
proof -
  obtain cfg where cfg: "current_config w s = Inr cfg" using assms by (cases "current_config w s") (auto simp: create_full_backup_def throw_def)
  obtain s1 where s1: "backup_op w ''mkdir'' [] id (ret ()) s = Some (Inr (), s1)" "fill_backup w cfg (archive_name w label (bh_ext s1)) s1 = Some (Inr nm, s')"
    using assms cfg by (auto simp: create_full_backup_def andthen_Some_iff)
  obtain s2 where s2: "backup_op w ''copy payload'' [] id (ret ()) s1 = Some (Inr (), s2)"
      "(case copy_backup_payload w cfg (bh_disk s2) of Inl e \<Rightarrow> throw e s2
        | Inr payload \<Rightarrow> pack_backup w (archive_name w label (bh_ext s1)) (staged_root w (bw_created w (bh_ext s2)) cfg payload) s2) = Some (Inr nm, s')"
    using s1(2) by (auto simp: fill_backup_def andthen_Some_iff)
  have disk: "bh_disk s2 = bh_disk s" using op_nothing [OF s1(1)] op_nothing [OF s2(1)] by simp
  obtain payload where payload: "copy_backup_payload w cfg (bh_disk s) = Inr payload"
      "pack_backup w (archive_name w label (bh_ext s1)) (staged_root w (bw_created w (bh_ext s2)) cfg payload) s2 = Some (Inr nm, s')"
    using s2(2) disk by (cases "copy_backup_payload w cfg (bh_disk s)") (auto simp: throw_def)
  then show ?thesis using cfg pack_result [OF payload(2)] by blast
qed

interpretation disk_frame: step_frame "\<lambda>s s'. bh_disk s' = bh_disk s"
  by unfold_locales auto

abbreviation keeps_disk :: "(('k, 'b) backup_host, 'a) stact \<Rightarrow> bool" where
  "keeps_disk m \<equiv> keeps (\<lambda>s s'. bh_disk s' = bh_disk s) m"

lemma op_keeps_disk: "keeps_disk (backup_op w nm p id (ret ()))" and archive_keeps_disk: "keeps_disk (write_archive w n ms)"
  unfolding keeps_def by (blast dest: op_nothing archive_disk)+

lemma pack_keeps_disk: "keeps_disk (pack_backup w n root)"
  unfolding pack_backup_def by (auto intro!: disk_frame.andthen_keeps op_keeps_disk archive_keeps_disk split: sum.split)

lemma fill_keeps_disk: "keeps_disk (fill_backup w cfg n)"
proof -
  have "keeps_disk (\<lambda>s. case copy_backup_payload w cfg (bh_disk s) of Inl e \<Rightarrow> throw e s
      | Inr payload \<Rightarrow> pack_backup w n (staged_root w (bw_created w (bh_ext s)) cfg payload) s)"
    by (auto simp: keeps_def throw_def dest!: keepsD [OF pack_keeps_disk] split: sum.splits)
  then show ?thesis unfolding fill_backup_def by (intro disk_frame.andthen_keeps op_keeps_disk)
qed

lemma create_disk:
  assumes "create_full_backup w label s = Some (r, s')"
  shows "bh_disk s' = bh_disk s"
proof (cases "current_config w s")
  case (Inl e)
  then show ?thesis using assms by (simp add: create_full_backup_def throw_def)
next
  case (Inr cfg)
  have "keeps_disk (\<lambda>s. fill_backup w cfg (archive_name w label (bh_ext s)) s)" by (auto simp: keeps_def dest!: keepsD [OF fill_keeps_disk])
  then have "keeps_disk (andthen (backup_op w ''mkdir'' [] id (ret ())) (\<lambda>_ s. fill_backup w cfg (archive_name w label (bh_ext s)) s))"
    by (intro disk_frame.andthen_keeps op_keeps_disk)
  from keepsD [OF this] show ?thesis using assms Inr by (simp add: create_full_backup_def)
qed

lemma copy_one_clean:
  assumes "copy_one w d x pl = Inr pl'" "tidy_disk d" "tidy_disk pl" "visible (copy_target x)"
  shows "tidy_disk pl'"
proof (cases x)
  case (Snapshot src dst)
  then obtain c' m where m: "make_dirs (butlast dst) pl = Inr m" "pl' = put_at dst c' m"
    using assms(1) by (auto simp: rbind_Inr_iff split: option.splits)
  have "tidy_disk m" using clean_make_dirs [OF m(1) assms(3)] visible_prefix [OF prefixeq_butlast, of dst] assms(4) Snapshot by simp
  then show ?thesis using assms(4) Snapshot by (auto simp: tidy_disk_def m(2) look_put_file split: if_splits)
next
  case (CopyFile src dst)
  show ?thesis
  proof (cases "file_of d src")
    case None
    then show ?thesis using assms(1,3) CopyFile by simp
  next
    case (Some c)
    then obtain m where m: "make_dirs (butlast dst) pl = Inr m" "pl' = put_at dst c m"
      using assms(1) CopyFile by (auto simp: rbind_Inr_iff)
    have "tidy_disk m" using clean_make_dirs [OF m(1) assms(3)] visible_prefix [OF prefixeq_butlast, of dst] assms(4) CopyFile by simp
    then show ?thesis using assms(4) CopyFile by (auto simp: tidy_disk_def m(2) look_put_file split: if_splits)
  qed
next
  case (CopyTree src dst)
  then obtain m where m: "make_dirs dst pl = Inr m" using assms(1) by (auto simp: rbind_Inr_iff)
  have c: "tidy_disk m" using clean_make_dirs [OF m assms(3)] assms(4) CopyTree by simp
  show ?thesis
  proof (cases "is_dir d src")
    case True
    then have pl': "pl' = overlay (map (\<lambda>(q, i). (dst @ q, i)) (subtree src d)) m" using assms(1) CopyTree m by simp
    have "visible q" if "look d (src @ q) \<noteq> None" for q using that assms(2) by (auto simp: tidy_disk_def)
    then show ?thesis using c assms(4) CopyTree
      by (auto simp: tidy_disk_def pl' look_overlay look_under look_subtree prefix_def split: option.splits if_splits)
  qed (use assms(1) CopyTree m c in simp)
qed

lemma copy_all_clean:
  "copy_all w d xs pl = Inr pl' \<Longrightarrow> tidy_disk d \<Longrightarrow> tidy_disk pl \<Longrightarrow> \<forall>x\<in>set xs. visible (copy_target x) \<Longrightarrow> tidy_disk pl'"
proof (induction xs arbitrary: pl)
  case (Cons x xs)
  then obtain m where m: "copy_one w d x pl = Inr m" "copy_all w d xs m = Inr pl'" by (auto simp: rbind_Inr_iff)
  have "tidy_disk m" using copy_one_clean [OF m(1)] Cons.prems by simp
  then show ?case using Cons.IH [OF m(2)] Cons.prems by simp
qed simp

definition payload_targets :: "bpath list" where
  "payload_targets = [[''app'', ''nicevpn.db''], [''app'', ''config.json''], [''app'', ''api_basic_credentials.json''],
     [''app'', ''admin_session_secret''], [''app'', ''remote_peer_chains''], [''openvpn'', ''pki''], [''openvpn'', ''server''],
     [''openvpn'', ''client''], [''openvpn'', ''ccd''], [''openvpn'', ''mgmt'', ''device_bindings''], [''openvpn'', ''mgmt'', ''ovpn''],
     [''openvpn'', ''mgmt'', ''device_bind_mode''], [''openvpn'', ''tc2-server.key'']]"

lemma targets_are: "map copy_target (copy_steps w base pki) = payload_targets"
  by (simp add: copy_steps_def payload_targets_def)

lemma targets_good: "list_all (\<lambda>p. 2 \<le> length p \<and> list_all name_ok p) payload_targets"
  by (simp add: payload_targets_def name_ok_def)

lemma targets_visible: "list_all visible payload_targets"
  unfolding visible_def by code_simp

lemma target_in: "x \<in> set (copy_steps w base pki) \<Longrightarrow> copy_target x \<in> set payload_targets"
  using targets_are [of w base pki] by (metis image_eqI list.set_map)

lemma payload_result:
  fixes d :: "'b disk"
  assumes "copy_backup_payload w cfg d = Inr pl" "wf_disk d" "tidy_disk d" "backup_pki w cfg \<noteq> []"
  shows "chain (map (copied w d) (copy_steps w (backup_base w cfg) (backup_pki w cfg))) [([''app''], IDir), ([''openvpn''], IDir)] pl \<and> wf_disk pl \<and> tidy_disk pl"
proof -
  let ?xs = "copy_steps w (backup_base w cfg) (backup_pki w cfg)" and ?d0 = "[([''app''], IDir), ([''openvpn''], IDir)] :: 'b disk"
  have run: "copy_all w d ?xs ?d0 = Inr pl" using assms(1) by (simp add: copy_backup_payload_def)
  have wf0: "wf_disk ?d0" by (auto simp: wf_disk_def name_ok_def rooted_def look_Cons strict_prefix_def prefix_def Cons_eq_append_conv split: if_splits)
  have vis: "visible [''app'']" "visible [''openvpn'']" unfolding visible_def by code_simp+
  then have cl0: "tidy_disk ?d0" by (auto simp: tidy_disk_def look_Cons split: if_splits)
  have x: "copy_target x \<noteq> [] \<and> list_all name_ok (copy_target x) \<and> source_given x \<and> (\<forall>q. look ?d0 (copy_target x @ q) = None)" if "x \<in> set ?xs" for x
  proof -
    have t: "2 \<le> length (copy_target x)" "list_all name_ok (copy_target x)" using target_in [OF that] targets_good by (auto simp: list_all_iff)
    have "look ?d0 (copy_target x @ q) = None" for q
      using t(1) by (cases "copy_target x"; cases "tl (copy_target x)") (auto simp: look_Cons)
    moreover have "source_given x" using that assms(4) by (auto simp: copy_steps_def db_path_def config_path_def)
    ultimately show ?thesis using t by auto
  qed
  have "\<forall>x\<in>set ?xs. visible (copy_target x)" using targets_visible by (auto simp: list_all_iff dest!: target_in)
  then show ?thesis using copy_all_result [OF run assms(2) wf0 copy_targets] x copy_all_clean [OF run assms(3) cl0] by blast
qed

section \<open>A restoration returns\<close>

lemma returns_cond [intro!]: "returns f \<Longrightarrow> returns g \<Longrightarrow> returns (\<lambda>s. if P s then f s else g s)"
  by (simp add: returns_in_def)

lemma returns_sum: "(\<And>e. returns (f e)) \<Longrightarrow> (\<And>x. returns (g x)) \<Longrightarrow> returns (\<lambda>s. case h s of Inl e \<Rightarrow> f e s | Inr x \<Rightarrow> g x s)"
  by (simp add: returns_in_def split: sum.split)

lemma returns_op [intro!]: "returns m \<Longrightarrow> returns (backup_op w nm p b m)"
  by (simp add: returns_in_def backup_op_def throw_def split: prod.split option.split)

lemma returns_mkdirs [intro!]: "returns (mkdirs w p)" and returns_write [intro!]: "returns (write_file w p c)" and returns_move [intro!]: "returns (move w p q)"
  unfolding mkdirs_def write_file_def move_def
  by (intro returns_op returnsI; auto simp: ret_def throw_def split: sum.split)+

lemma returns_remove_tree [intro!]: "returns (remove_tree w p)"
  unfolding remove_tree_def by auto

lemma returns_throw_at [intro!]: "returns (\<lambda>s. throw (e s) s)" and returns_ret_at [intro!]: "returns (\<lambda>s. ret (x s) s)"
  by (simp_all add: returns_in_def ret_def throw_def)

lemma returns_copytree_to [intro!]: "returns (copytree_to w t p)"
  unfolding copytree_to_def by (intro returns_cond returns_op returns_done returns_throw_at)

lemma returns_replace_file [intro!]: "returns (replace_file w pl src dst)"
proof -
  have "returns (\<lambda>s. (let stage = hidden w ''.restore-'' dst (bh_ext s) in andthen (write_file w stage c) (\<lambda>_. move w stage dst)) s)" for c
    by (rule returns_state [where m = "\<lambda>s. let stage = hidden w ''.restore-'' dst (bh_ext s) in andthen (write_file w stage c) (\<lambda>_. move w stage dst)"])
      (unfold Let_def, intro returns_andthen returns_write returns_move)
  then show ?thesis unfolding replace_file_def Let_def by (auto split: option.split)
qed

lemma returns_unlink [intro!]: "returns (unlink w p)"
  unfolding unlink_def by (intro returns_cond returns_op returns_done returns_throw_at returns_ret_at)

lemma returns_optional [intro!]: "returns (replace_optional_file w pl src dst)"
  unfolding replace_optional_file_def by auto

lemma returns_swap [intro!]: "returns (swap_tree w stage old dst)"
proof (rule returnsI)
  fix s
  have "returns (\<lambda>s. if look (bh_disk s) dst \<noteq> None then move w dst old s else ret () s)"
    by (intro returns_cond returns_move returns_ret)
  from returns_some [OF this, of s]
  obtain r s1 where m: "(if look (bh_disk s) dst \<noteq> None then move w dst old s else ret () s) = Some (r, s1)" by blast
  have "returns (handle (andthen (\<lambda>s. Some (r, s)) (\<lambda>_. move w stage dst)) (\<lambda>e.
      andthen (\<lambda>s. if look (bh_disk s) stage \<noteq> None then remove_tree w stage s else ret () s) (\<lambda>_.
      andthen (\<lambda>s. if b \<and> look (bh_disk s) old \<noteq> None \<and> look (bh_disk s) dst = None then move w old dst s else ret () s)
        (\<lambda>_. throw e))))" for b
    by (intro returns_handle returns_andthen returns_cond returns_move returns_remove_tree returns_throw returns_ret) (rule returnsI, simp)
  from returns_some [OF this, of "look (bh_disk s) dst \<noteq> None \<and> \<not> isl r" s1]
  show "\<exists>r t. swap_tree w stage old dst s = Some (r, t)" unfolding swap_tree_def Let_def m by simp
qed

lemma returns_replace_tree [intro!]: "returns (replace_tree w pl src dst)"
proof -
  have "returns (andthen (copytree_to w (subtree src pl) stage) (\<lambda>_.
       at_end (swap_tree w stage old dst) (\<lambda>s. if look (bh_disk s) old \<noteq> None then remove_tree w old s else ret () s)))" for stage old
    by (intro returns_andthen returns_copytree_to returns_at_end returns_swap returns_cond returns_remove_tree returns_ret)
  then have "returns (\<lambda>s. (let stage = hidden w ''.restore-'' dst (bh_ext s); old = hidden w ''.restore-old-'' dst (bh_ext s) in
       andthen (copytree_to w (subtree src pl) stage) (\<lambda>_.
       at_end (swap_tree w stage old dst) (\<lambda>s. if look (bh_disk s) old \<noteq> None then remove_tree w old s else ret () s))) s)"
    unfolding Let_def by (simp add: returns_in_def)
  then show ?thesis unfolding replace_tree_def Let_def by (intro returns_if returns_ret returns_andthen returns_mkdirs)
qed

lemma returns_sqlite [intro!]: "returns (restore_sqlite w pl src dst)"
  unfolding restore_sqlite_def by (auto split: option.split sum.split)

lemma returns_one: "returns (restore_one w pl x)"
  by (cases x) auto

lemma returns_pack: "returns (pack_backup w n root)"
  unfolding pack_backup_def write_archive_def by (auto split: sum.split)

lemma returns_fill: "returns (fill_backup w cfg n)"
proof -
  have "returns (\<lambda>s. pack_backup w n (staged_root w (bw_created w (bh_ext s)) cfg x) s)" for x
    by (rule returnsI) (rule returns_some [OF returns_pack])
  then have "returns (\<lambda>s. case copy_backup_payload w cfg (bh_disk s) of Inl e \<Rightarrow> throw e s
      | Inr payload \<Rightarrow> pack_backup w n (staged_root w (bw_created w (bh_ext s)) cfg payload) s)"
    by (intro returns_sum returns_throw)
  then show ?thesis unfolding fill_backup_def by (intro returns_andthen returns_op returns_ret)
qed

lemma returns_create: "returns (create_full_backup w label)"
proof -
  have "returns (\<lambda>s. fill_backup w cfg (archive_name w label (bh_ext s)) s)" for cfg
    by (rule returnsI) (rule returns_some [OF returns_fill])
  then have "returns (andthen (backup_op w ''mkdir'' [] id (ret ())) (\<lambda>_ s. fill_backup w cfg (archive_name w label (bh_ext s)) s))" for cfg
    by (intro returns_andthen returns_op returns_ret)
  then have "\<exists>r t. create_full_backup w label s = Some (r, t)" for s
    unfolding create_full_backup_def throw_def by (simp add: returns_in_def split: sum.split)
  then show ?thesis by (intro returnsI)
qed

text \<open>The part after the checks.\<close>

definition restore_body :: "('k, 'b) backup_world \<Rightarrow> 'b disk \<Rightarrow> jobj \<Rightarrow> (('k, 'b) backup_host, restore_result) stact" where
  "restore_body w payload m = andthen (create_full_backup w ''pre-restore'') (\<lambda>pre. case payload_config w payload of
     Inl e \<Rightarrow> throw e
   | Inr cfg \<Rightarrow> (case restore_places w cfg of
       Inl e \<Rightarrow> throw e
     | Inr (base, pki) \<Rightarrow>
         andthen (for_each (restore_one w payload) (restore_steps w base pki)) (\<lambda>_.
         andthen (sync_scripts w base) (\<lambda>_.
         andthen (backup_op w ''permissions'' [] id (ret ())) (\<lambda>_.
         if ''created_at'' \<notin> fst ` set m then throw (KeyError ''created_at'')
         else ret \<lparr>rs_created = jget ''created_at'' m, rs_pre_restore = pre\<rparr>)))))"

lemma restore_checks: "restore_full_backup w nm s = (case map_of (bh_archives s) nm of
     None \<Rightarrow> throw (FileNotFoundError nm) s
   | Some ms \<Rightarrow> (case rbind (safe_extract ms) (\<lambda>root. rbind (validate_restore_payload w root) (\<lambda>m. Inr (root, m))) of
       Inl e \<Rightarrow> throw e s
     | Inr (root, m) \<Rightarrow> restore_body w (subtree [''payload''] root) m s))"
  unfolding restore_full_backup_def restore_body_def by (auto simp: Let_def split: option.split sum.split)

lemma returns_body: "returns (restore_body w payload m)"
proof -
  have sync: "returns (sync_scripts w base)" for base
    by (rule returnsI) (simp add: sync_scripts_def split: prod.split)
  show ?thesis unfolding restore_body_def
    by (auto intro!: returns_andthen returns_create returns_for_each returns_one sync split: sum.split)
qed

lemma returns_restore_backup: "returns (restore_full_backup w nm)"
proof (rule returnsI)
  show "\<exists>r t. restore_full_backup w nm s = Some (r, t)" for s
    unfolding restore_checks using returns_some [OF returns_body, of w _ _ s] by (auto simp: throw_def split: option.split sum.split)
qed

end
