(* ===== verification/Full_Backup_Props.thy ===== *)
theory Full_Backup_Props
  imports Backup_Runs System_Config_Props
begin

text \<open>
  Backups that can be restored, and restorations that only use verified backups.
\<close>

section \<open>What a verified backup says\<close>

lemma checked_entry:
  assumes "check_entries w fs es = Inr ()" "(rel, meta) \<in> set es"
  shows "\<exists>c e. map_of fs rel = Some c \<and> meta = JObj e \<and> str_or (cw_rep (bw_config w)) (jget ''sha256'' e) = bw_sha w c
    \<and> (jget ''size'' e = JInt (int (bw_size w c)) \<or> (\<exists>b. jget ''size'' e = JBool b))"
  using assms
proof (induction es)
  case (Cons x es)
  show ?case
  proof (cases "x = (rel, meta)")
    case True
    then obtain c where c: "map_of fs rel = Some c" "manifest_entry_ok w meta c = Inr ()"
      using Cons.prems(1) by (auto simp: rbind_Inr_iff split: option.splits)
    then obtain e where e: "meta = JObj e" by (auto simp: manifest_entry_ok_def bad_def split: json.splits)
    then show ?thesis using c by (auto simp: manifest_entry_ok_def bad_def rbind_Inr_iff split: json.splits if_splits)
  next
    case False
    then show ?thesis using Cons by (cases x) (auto simp: rbind_Inr_iff)
  qed
qed simp

lemma manifest_read:
  assumes "load_verified_manifest w root = Inr m"
  shows "\<exists>t es. file_of root [''manifest.json''] = Some t \<and> cw_loads (bw_config w) t = Inr (JObj m) \<and> jget ''files'' m = JObj es
    \<and> fst ` set (archived_files root) = fst ` set es \<and> check_entries w (archived_files root) es = Inr ()"
  using assms unfolding load_verified_manifest_def archived_files_def [symmetric] Let_def
  by (auto simp: bad_def rbind_Inr_iff split: option.splits if_splits sum.splits json.splits)

lemma validated:
  assumes "validate_restore_payload w root = Inr m"
  shows "load_verified_manifest w root = Inr m \<and> file_of root [''payload'', ''app'', ''config.json''] \<noteq> None
    \<and> file_of root [''payload'', ''app'', ''nicevpn.db''] \<noteq> None \<and> file_of root [''payload'', ''openvpn'', ''tc2-server.key''] \<noteq> None"
proof -
  have l: "load_verified_manifest w root = Inr m"
    using assms unfolding validate_restore_payload_def rbind_Inr_iff
    by (elim exE conjE) (cases "file_of root [''payload'', ''app'', ''config.json'']"; cases "file_of root [''payload'', ''app'', ''nicevpn.db'']";
      simp add: bad_def rbind_Inr_iff split: if_splits)
  then show ?thesis
    using assms unfolding validate_restore_payload_def rbind_Inr_iff
    by (cases "file_of root [''payload'', ''app'', ''config.json'']"; cases "file_of root [''payload'', ''app'', ''nicevpn.db'']")
      (simp_all add: bad_def rbind_Inr_iff split: if_splits)
qed

section \<open>Restorations keep the archives\<close>

text \<open>Once the backup of the current state is made, a restoration leaves the archives alone.\<close>

interpretation archives_frame: step_frame "\<lambda>s s'. bh_archives s' = bh_archives s"
  by unfold_locales auto

abbreviation keeps_archives :: "(('k, 'b) backup_host, 'a) stact \<Rightarrow> bool" where
  "keeps_archives m \<equiv> keeps (\<lambda>s s'. bh_archives s' = bh_archives s) m"

lemma keeps_cond: "keeps R f \<Longrightarrow> keeps R g \<Longrightarrow> keeps R (\<lambda>s. if P s then f s else g s)"
  by (simp add: keeps_def)

lemma op_keeps_archives:
  assumes "keeps_archives m" "\<And>s. bh_archives (b s) = bh_archives s"
  shows "keeps_archives (backup_op w nm p b m)"
  using assms unfolding keeps_def backup_op_def throw_def by (fastforce split: prod.splits option.splits)

lemma half_keeps_archives [simp]: "bh_archives (half_done w p s) = bh_archives s"
  by (simp add: half_done_def)

lemma mkdirs_keeps: "keeps_archives (mkdirs w p)" and write_keeps: "keeps_archives (write_file w p c)" and move_keeps: "keeps_archives (move w p q)"
  unfolding mkdirs_def write_file_def move_def
  by (intro op_keeps_archives; auto simp: keeps_def ret_def throw_def split: sum.splits if_splits)+

lemma remove_keeps: "keeps_archives (remove_tree w p)"
  unfolding remove_tree_def
  by (intro archives_frame.handle_keeps archives_frame.ret_keeps op_keeps_archives) (auto simp: keeps_def ret_def)

lemma copytree_keeps: "keeps_archives (copytree_to w t p)"
  unfolding copytree_to_def by (intro keeps_cond op_keeps_archives) (auto simp: keeps_def ret_def throw_def)

lemma replace_file_keeps: "keeps_archives (replace_file w pl src dst)"
proof -
  have "keeps_archives (andthen (write_file w stage c) (\<lambda>_. move w stage dst))" for stage c
    by (intro archives_frame.andthen_keeps write_keeps move_keeps)
  then have "keeps_archives (\<lambda>s. andthen (write_file w (hidden w ''.restore-'' dst (bh_ext s)) c) (\<lambda>_. move w (hidden w ''.restore-'' dst (bh_ext s)) dst) s)" for c
    by (simp add: keeps_def)
  then show ?thesis unfolding replace_file_def Let_def
    by (auto intro!: archives_frame.andthen_keeps mkdirs_keeps split: option.split)
qed

lemma unlink_keeps: "keeps_archives (unlink w p)"
  unfolding unlink_def by (intro keeps_cond op_keeps_archives) (auto simp: keeps_def ret_def throw_def)

lemma swap_keeps: "keeps_archives (swap_tree w stage old dst)"
proof -
  have moved: "keeps_archives (handle (andthen (\<lambda>s. Some (r, s)) (\<lambda>_. move w stage dst)) (\<lambda>e.
      andthen (\<lambda>s. if look (bh_disk s) stage \<noteq> None then remove_tree w stage s else ret () s) (\<lambda>_.
      andthen (\<lambda>s. if b \<and> look (bh_disk s) old \<noteq> None \<and> look (bh_disk s) dst = None then move w old dst s else ret () s)
        (\<lambda>_. throw e))))" for r b
    by (intro archives_frame.handle_keeps archives_frame.andthen_keeps keeps_cond move_keeps remove_keeps archives_frame.throw_keeps archives_frame.ret_keeps)
      (simp add: keeps_def)
  have first: "keeps_archives (\<lambda>s. if look (bh_disk s) dst \<noteq> None then move w dst old s else ret () s)"
    by (intro keeps_cond move_keeps archives_frame.ret_keeps)
  have "bh_archives s' = bh_archives s" if run: "swap_tree w stage old dst s = Some (r', s')" for s r' s'
  proof -
    obtain r s1 where m: "(if look (bh_disk s) dst \<noteq> None then move w dst old s else ret () s) = Some (r, s1)"
      using run by (cases "if look (bh_disk s) dst \<noteq> None then move w dst old s else ret () s") (auto simp: swap_tree_def Let_def)
    show ?thesis using run keepsD [OF first m] keepsD [OF moved [of r "look (bh_disk s) dst \<noteq> None \<and> \<not> isl r"], of s1 r' s']
      unfolding swap_tree_def Let_def m by simp
  qed
  then show ?thesis by (simp add: keeps_def)
qed

lemma at_end_keeps: "keeps_archives m \<Longrightarrow> keeps_archives f \<Longrightarrow> keeps_archives (at_end m f)"
  unfolding keeps_def at_end_def by (auto split: option.splits sum.splits prod.splits)

lemma replace_tree_keeps: "keeps_archives (replace_tree w pl src dst)"
proof -
  have "keeps_archives (andthen (copytree_to w (subtree src pl) stage) (\<lambda>_.
       at_end (swap_tree w stage old dst) (\<lambda>s. if look (bh_disk s) old \<noteq> None then remove_tree w old s else ret () s)))" for stage old
    by (intro archives_frame.andthen_keeps copytree_keeps at_end_keeps swap_keeps keeps_cond remove_keeps archives_frame.ret_keeps)
  then have "keeps_archives (\<lambda>s. (let stage = hidden w ''.restore-'' dst (bh_ext s); old = hidden w ''.restore-old-'' dst (bh_ext s) in
       andthen (copytree_to w (subtree src pl) stage) (\<lambda>_.
       at_end (swap_tree w stage old dst) (\<lambda>s. if look (bh_disk s) old \<noteq> None then remove_tree w old s else ret () s))) s)"
    unfolding Let_def by (simp add: keeps_def)
  then show ?thesis unfolding replace_tree_def Let_def
    by (auto intro: archives_frame.andthen_keeps mkdirs_keeps)
qed

lemma restore_one_keeps: "keeps_archives (restore_one w pl x)"
  by (cases x) (auto simp: restore_sqlite_def replace_optional_file_def split: option.split sum.split
    intro!: archives_frame.andthen_keeps mkdirs_keeps write_keeps replace_file_keeps replace_tree_keeps unlink_keeps)

lemma for_each_keeps_archives: "(\<And>x. keeps_archives (f x)) \<Longrightarrow> keeps_archives (for_each f xs)"
  by (induction xs) auto

text \<open>What a restoration did when it returned.\<close>

lemma body_cases:
  assumes "restore_body w pl m s = Some (r, s')"
  shows "(bh_disk s' = bh_disk s) \<or> (\<exists>pre t. create_full_backup w ''pre-restore'' s = Some (Inr pre, t) \<and> bh_disk t = bh_disk s \<and> bh_archives s' = bh_archives t)"
proof -
  obtain r0 t where t: "create_full_backup w ''pre-restore'' s = Some (r0, t)" using returns_some [OF returns_create, of w "''pre-restore''" s] by blast
  have d: "bh_disk t = bh_disk s" using create_disk [OF t] .
  show ?thesis
  proof (cases r0)
    case (Inl e)
    then show ?thesis using assms t d by (simp add: restore_body_def andthen_def)
  next
    case (Inr pre)
    have sync: "keeps_archives (sync_scripts w base)" for base by (auto simp: keeps_def sync_scripts_def split: prod.splits)
    have "keeps_archives (case payload_config w pl of Inl e \<Rightarrow> throw e
       | Inr cfg \<Rightarrow> (case restore_places w cfg of Inl e \<Rightarrow> throw e
       | Inr (base, pki) \<Rightarrow>
         andthen (for_each (restore_one w pl) (restore_steps w base pki)) (\<lambda>_.
         andthen (sync_scripts w base) (\<lambda>_.
         andthen (backup_op w ''permissions'' [] id (ret ())) (\<lambda>_.
         if ''created_at'' \<notin> fst ` set m then throw (KeyError ''created_at'')
         else ret \<lparr>rs_created = jget ''created_at'' m, rs_pre_restore = pre\<rparr>)))))"
      by (auto intro!: archives_frame.andthen_keeps for_each_keeps_archives restore_one_keeps sync op_keeps_archives split: sum.split)
    from keepsD [OF this] show ?thesis using assms t d Inr unfolding restore_body_def andthen_def [of "create_full_backup w ''pre-restore''"] by auto
  qed
qed

section \<open>Back again\<close>

lemma fills_same: "look d = look e \<Longrightarrow> fills y d d' = fills y e d'"
  by (cases y) (simp add: fills_def)

lemma chain_snoc: "chain xs d m \<Longrightarrow> fills y m d' \<Longrightarrow> chain (xs @ [y]) d d'"
proof (induction xs arbitrary: d)
  case Nil
  then show ?case using fills_same [of m d y d'] by auto
qed auto

lemma each_done: "for_each f xs s = Some (Inr (), s') \<Longrightarrow> x \<in> set xs \<Longrightarrow> \<exists>t t'. f x t = Some (Inr (), t')"
  by (induction xs arbitrary: s) (auto simp: andthen_Some_iff)

text \<open>The steps of a restoration undo the steps of a backup, one by one.\<close>

fun undoes :: "copy_step \<Rightarrow> restore_step \<Rightarrow> bool" where
  "undoes (Snapshot src dst) (RestoreDb a b) \<longleftrightarrow> a = dst \<and> b = src"
| "undoes (CopyFile src dst) (ReplaceFile a b) \<longleftrightarrow> a = dst \<and> b = src"
| "undoes (CopyFile src dst) (ReplaceOptional a b) \<longleftrightarrow> a = dst \<and> b = src"
| "undoes (CopyTree src dst) (ReplaceTree a b) \<longleftrightarrow> a = dst \<and> b = src"
| "undoes _ _ \<longleftrightarrow> False"

lemma steps_undone: "list_all2 undoes (copy_steps w base pki) (restore_steps w base pki)"
  by (simp add: copy_steps_def restore_steps_def)

text \<open>On the new disk there is what the old one had.\<close>

fun restored :: "('k, 'b) backup_world \<Rightarrow> 'b disk \<Rightarrow> 'b disk \<Rightarrow> copy_step \<Rightarrow> bool" where
  "restored w d d' (Snapshot src dst) \<longleftrightarrow> (\<exists>c c' c''. file_of d src = Some c \<and> bw_snapshot w c = Inr c' \<and> bw_into_db w c' = Inr c'' \<and> file_of d' src = Some c'')"
| "restored w d d' (CopyFile src dst) \<longleftrightarrow> file_of d' src = file_of d src"
| "restored w d d' (CopyTree src dst) \<longleftrightarrow> (\<forall>q. look d' (src @ q) = tree_view d src q)"

lemma view_file: "look d' p = file_view f [] \<Longrightarrow> file_of d' p = f"
  by (cases f) (simp_all add: file_view_def file_of_def)

lemma restored_step:
  assumes pl: "chain (map (copied w d) cs) d0 pl" "sorted_wrt apart (map copy_target cs)" "\<forall>p. p \<noteq> [] \<longrightarrow> look pl' p = look pl p"
    and st: "\<And>t Q want q. (t, Q, want) \<in> filled w pl' ` set rs \<Longrightarrow> q \<in> Q \<Longrightarrow> look d' (t @ q) = want q"
    and x: "x \<in> set cs" "y \<in> set rs" "undoes x y" "copy_target x \<noteq> []"
    and db: "\<And>a b. y = RestoreDb a b \<Longrightarrow> \<exists>c c'. file_of pl' a = Some c \<and> bw_into_db w c = Inr c'"
  shows "restored w d d' x"
proof -
  have at: "look pl' (t @ q) = want q" if "copied w d x = (t, Q, want)" "q \<in> Q" for t Q want q
  proof -
    have "(t, Q, want) \<in> set (map (copied w d) cs)" using x(1) that(1) by (metis image_eqI list.set_map)
    moreover have "sorted_wrt apart (map fst (map (copied w d) cs))" using pl(2) by (simp add: comp_def copied_target)
    ultimately have "look pl (t @ q) = want q" using chain_place [OF pl(1)] that(2) by blast
    then show ?thesis using pl(3) x(4) copied_target [of w d x] that(1) by simp
  qed
  show ?thesis
  proof (cases x)
    case (Snapshot src dst)
    then have y: "y = RestoreDb dst src" using x(3) by (cases y) auto
    obtain c c' where c: "file_of pl' dst = Some c" "bw_into_db w c = Inr c'" using db [OF y] by blast
    have "look pl' dst = file_view (case file_of d src of None \<Rightarrow> None | Some c \<Rightarrow> (case bw_snapshot w c of Inl _ \<Rightarrow> None | Inr c' \<Rightarrow> Some c')) []"
      using at [of dst "{[]}" _ "[]"] Snapshot by simp
    then have "\<exists>c0. file_of d src = Some c0 \<and> bw_snapshot w c0 = Inr c"
      using c(1) view_file by (fastforce split: option.splits sum.splits)
    moreover have "file_of d' src = Some c'"
      using st [of src "{[]}" _ "[]"] x(2) y c view_file by (force simp: image_iff)
    ultimately show ?thesis using Snapshot c(2) by auto
  next
    case (CopyFile src dst)
    have f: "file_of pl' dst = file_of d src" using at [of dst "{[]}" _ "[]"] CopyFile view_file by simp
    have "y = ReplaceFile dst src \<or> y = ReplaceOptional dst src" using x(3) CopyFile by (cases y) auto
    then have "(src, {[]}, file_view (file_of pl' dst)) \<in> filled w pl' ` set rs" using x(2) by (force simp: image_iff)
    from st [OF this, of "[]"] show ?thesis using f CopyFile view_file by simp
  next
    case (CopyTree src dst)
    then have "y = ReplaceTree dst src" using x(3) by (cases y) auto
    then have "(src, UNIV, \<lambda>q. look pl' (dst @ q)) \<in> filled w pl' ` set rs" using x(2) by (force simp: image_iff)
    from st [OF this] show ?thesis using at [of dst UNIV] CopyTree by simp
  qed
qed

text \<open>What the round trip relies on: the scripts that are installed again afterwards stay in their directory, and the places the
  backup is put back to do not lie inside each other.\<close>

definition scripts_law :: "('k, 'b) backup_world \<Rightarrow> bool" where
  "scripts_law w \<longleftrightarrow> (\<forall>base k d r k' d'. bw_scripts w base (k, d) = (r, k', d') \<longrightarrow> fills (base @ [''scripts''], {}, \<lambda>_. None) d d')"

definition separate_places :: "('k, 'b) backup_world \<Rightarrow> bpath \<Rightarrow> bpath \<Rightarrow> bool" where
  "separate_places w base pki \<longleftrightarrow> sorted_wrt apart (map place_of (restore_steps w base pki) @ [base @ [''scripts'']])
     \<and> pki \<noteq> [] \<and> visible (bw_data w) \<and> visible base \<and> visible pki"

text \<open>The places a restoration reads from the configuration of the backup are the places it was made from.\<close>

definition same_places :: "('k, 'b) backup_world \<Rightarrow> jobj \<Rightarrow> 'b disk \<Rightarrow> bool" where
  "same_places w cfg d \<longleftrightarrow> (\<exists>t raw. file_of d (config_path w) = Some t \<and> cw_loads (bw_config w) t = Inr (JObj raw)
     \<and> restore_places w raw = Inr (backup_base w cfg, backup_pki w cfg))"

lemma filled_place: "fst (filled w pl x) = place_of x"
  by (cases x) simp_all

lemma places_good:
  assumes "separate_places w base pki" "x \<in> set (restore_steps w base pki)"
  shows "visible (place_of x) \<and> place_of x \<noteq> []"
proof -
  have names: "list_all visible [[''config.json''], [''nicevpn.db''], [''api_basic_credentials.json''], [''admin_session_secret''], [''remote_peer_chains''],
      [''server''], [''client''], [''ccd''], [''mgmt'', ''device_bindings''], [''mgmt'', ''ovpn''], [''mgmt'', ''device_bind_mode''], [''tc2-server.key'']]"
    unfolding visible_def by code_simp
  have places: "visible (bw_data w)" "visible base" "visible pki" "pki \<noteq> []" using assms(1) by (simp_all add: separate_places_def)
  moreover have "visible (butlast pki)" using places(3) visible_prefix prefixeq_butlast by blast
  ultimately have "list_all (\<lambda>x. visible (place_of x) \<and> place_of x \<noteq> []) (restore_steps w base pki)"
    using names by (simp only: restore_steps_def db_path_def config_path_def list.pred_inject place_of.simps visible_append) simp
  then show ?thesis using assms(2) by (auto simp: list_all_iff)
qed

text \<open>The payload of the archive and what was saved.\<close>

lemma archive_payload:
  assumes "create_full_backup w label s = Some (Inr nm, s1)" "wf_disk (bh_disk s)" "tidy_disk (bh_disk s)" "current_config w s = Inr cfg"
    "backup_pki w cfg \<noteq> []" "reads_back (bw_config w)"
  shows "\<exists>ms root m pl t. map_of (bh_archives s1) nm = Some ms \<and> safe_extract ms = Inr root \<and> validate_restore_payload w root = Inr m
    \<and> m = manifest_for w t cfg pl \<and> tidy_disk pl
    \<and> chain (map (copied w (bh_disk s)) (copy_steps w (backup_base w cfg) (backup_pki w cfg))) [([''app''], IDir), ([''openvpn''], IDir)] pl
    \<and> (\<forall>p. p \<noteq> [] \<longrightarrow> look (subtree [''payload''] root) p = look pl p)"

proof -
  obtain pl t m where c: "copy_backup_payload w cfg (bh_disk s) = Inr pl" "validate_restore_payload w (staged_root w t cfg pl) = Inr m"
      "map_of (bh_archives s1) nm = Some (members_of (staged_root w t cfg pl))"
    using create_result [OF assms(1)] assms(4) by auto
  have pl: "chain (map (copied w (bh_disk s)) (copy_steps w (backup_base w cfg) (backup_pki w cfg))) [([''app''], IDir), ([''openvpn''], IDir)] pl"
      "wf_disk pl" "tidy_disk pl"
    using payload_result [OF c(1) assms(2,3,5)] by blast+
  have wf: "wf_disk (staged_root w t cfg pl)" by (rule staged_wf [OF pl(2)])
  obtain root where root: "safe_extract (members_of (staged_root w t cfg pl)) = Inr root" "wf_disk root" "look root = look (staged_root w t cfg pl)"
    using unpacked_same [OF wf] by blast
  have v: "validate_restore_payload w root = Inr m" using validate_same [OF root(2) wf root(3), of w] c(2) by simp
  obtain u where "file_of (staged_root w t cfg pl) [''manifest.json''] = Some u" "cw_loads (bw_config w) u = Inr (JObj m)"
    using manifest_read validated [OF c(2)] by blast
  then have "m = manifest_for w t cfg pl" using assms(6) by (auto simp: file_of_def staged_look reads_back_def)
  moreover have "look (subtree [''payload''] root) p = look pl p" if "p \<noteq> []" for p
    using that root(3) by (simp add: look_subtree staged_look prefix_def)
  ultimately show ?thesis using c(3) root(1) v pl(1,3) by blast
qed

lemma archive_supplies:
  assumes "validate_restore_payload w root = Inr m" "\<forall>p. p \<noteq> [] \<longrightarrow> look (subtree [''payload''] root) p = look pl p"
    "chain (map (copied w d) (copy_steps w base pki)) d0 pl" "x \<in> set (restore_steps w base pki)"
  shows "supplied (subtree [''payload''] root) x"
proof (cases x)
  case (ReplaceFile src dst)
  then have "src = [''app'', ''config.json''] \<or> src = [''openvpn'', ''tc2-server.key'']" using assms(4) by (auto simp: restore_steps_def)
  then show ?thesis using validated [OF assms(1)] ReplaceFile by (auto simp: file_of_def look_subtree)
next
  case (ReplaceTree src dst)
  then have c: "CopyTree dst src \<in> set (copy_steps w base pki)" "src \<noteq> []" using assms(4) by (auto simp: restore_steps_def copy_steps_def)
  then have "(src, UNIV, tree_view d dst) \<in> set (map (copied w d) (copy_steps w base pki))" by (metis copied.simps(3) image_eqI list.set_map)
  moreover have "sorted_wrt apart (map fst (map (copied w d) (copy_steps w base pki)))" using copy_targets [of w base pki] by (simp add: comp_def copied_target)
  ultimately have "look pl (src @ []) = tree_view d dst []" using chain_place [OF assms(3)] by blast
  then have "look pl src = Some IDir" by (auto simp: tree_view_def is_dir_def split: if_splits)
  then show ?thesis using assms(2) c(2) ReplaceTree by (simp add: is_dir_def)
qed simp_all

text \<open>A restoration that succeeds, seen from its disk.\<close>

lemma body_done:
  assumes "restore_body w pl m s = Some (Inr x, s')" "no_faults w" "scripts_law w" "payload_config w pl = Inr cfg" "restore_places w cfg = Inr (base, pki)"
    "tidy_disk pl" "tidy_disk (bh_disk s)" "separate_places w base pki" "\<forall>y\<in>set (restore_steps w base pki). supplied pl y"
  shows "chain (map (filled w pl) (restore_steps w base pki) @ [(base @ [''scripts''], {}, \<lambda>_. None)]) (bh_disk s) (bh_disk s')
    \<and> (\<exists>t t'. for_each (restore_one w pl) (restore_steps w base pki) t = Some (Inr (), t'))"
proof -
  obtain pre t1 t2 t3 where t: "create_full_backup w ''pre-restore'' s = Some (Inr pre, t1)"
      "for_each (restore_one w pl) (restore_steps w base pki) t1 = Some (Inr (), t2)"
      "sync_scripts w base t2 = Some (Inr (), t3)"
      "andthen (backup_op w ''permissions'' [] id (ret ())) (\<lambda>_. if ''created_at'' \<notin> fst ` set m then throw (KeyError ''created_at'')
         else ret \<lparr>rs_created = jget ''created_at'' m, rs_pre_restore = pre\<rparr>) t3 = Some (Inr x, s')"
    using assms(1,4,5) by (auto simp: restore_body_def andthen_Some_iff)
  have d1: "bh_disk t1 = bh_disk s" using create_disk [OF t(1)] .
  have "chain (map (filled w pl) (restore_steps w base pki)) (bh_disk s) (bh_disk t2)"
    using restore_all_done [OF assms(2,6) t(2)] assms(7,9) places_good [OF assms(8)] d1 by simp
  moreover have "fills (base @ [''scripts''], {}, \<lambda>_. None) (bh_disk t2) (bh_disk t3)"
    using t(3) assms(3) by (auto simp: sync_scripts_def scripts_law_def split: prod.splits)
  moreover have "bh_disk s' = bh_disk t3"
    using t(4) op_nothing [of w "''permissions''" "[]" t3] by (auto simp: andthen_Some_iff throw_def ret_def split: if_splits)
  ultimately show ?thesis using chain_snoc t(2) by fastforce
qed

section \<open>A small host\<close>

definition demo_backup :: "(unit, json) backup_world" where
  "demo_backup = \<lparr>bw_config = demo_config, bw_data = [''data''], bw_size = \<lambda>v. (case v of JStr t \<Rightarrow> length t | _ \<Rightarrow> 2),
     bw_sha = \<lambda>v. (case v of JStr t \<Rightarrow> t | _ \<Rightarrow> ''object''), bw_snapshot = Inr, bw_into_db = Inr, bw_quick_check = \<lambda>_. [''ok''],
     bw_tables = \<lambda>_. required_tables, bw_version = \<lambda>_. 4, bw_stamp = \<lambda>_. ''1'', bw_created = \<lambda>_. ''now'', bw_uuid = \<lambda>_. ''u'',
     bw_resolve = path_parts, bw_op = \<lambda>_ _ k. (None, k), bw_left = \<lambda>_ _. [], bw_part = \<lambda>_. None, bw_scripts = \<lambda>_ (k, d). (Inr (), k, d)\<rparr>"

definition demo_disk :: "json disk" where
  "demo_disk = [([''data''], IDir), ([''data'', ''config.json''], IFile (JObj [])), ([''data'', ''nicevpn.db''], IFile (JStr ''rows'')),
     ([''etc''], IDir), ([''etc'', ''openvpn''], IDir), ([''etc'', ''openvpn'', ''pki''], IDir), ([''etc'', ''openvpn'', ''pki'', ''ca.crt''], IFile (JStr ''ca'')),
     ([''etc'', ''openvpn'', ''pki'', ''private''], IDir), ([''etc'', ''openvpn'', ''pki'', ''private'', ''ca.key''], IFile (JStr ''key'')),
     ([''etc'', ''openvpn'', ''pki'', ''index.txt''], IFile (JStr ''V'')), ([''etc'', ''openvpn'', ''pki'', ''serial''], IFile (JStr ''01'')),
     ([''etc'', ''openvpn'', ''tc2-server.key''], IFile (JStr ''tc''))]"

definition demo_host :: "(unit, json) backup_host" where
  "demo_host = \<lparr>bh_ext = (), bh_disk = demo_disk, bh_archives = []\<rparr>"

text \<open>The host after the backup, with another serial number and a certificate that is newer.\<close>

definition demo_saved :: "(unit, json) backup_host" where
  "demo_saved = (case create_full_backup demo_backup ''manual'' demo_host of Some (Inr nm, s) \<Rightarrow> s | _ \<Rightarrow> demo_host)"

definition demo_later :: "(unit, json) backup_host" where
  "demo_later = demo_saved\<lparr>bh_disk := ([''etc'', ''openvpn'', ''pki'', ''newer.crt''], IFile (JStr ''n''))
     # map (\<lambda>(p, i). (p, if last p = ''serial'' then IFile (JStr ''02'') else i)) demo_disk\<rparr>"

lemma demo_saves: "map_option fst (create_full_backup demo_backup ''manual'' demo_host) = Some (Inr ''nicevpn-manual-1.tar.gz'')"
  by code_simp

lemma demo_comes_back:
  "case restore_full_backup demo_backup ''nicevpn-manual-1.tar.gz'' demo_later of
     Some (Inr x, s) \<Rightarrow> file_of (bh_disk s) [''etc'', ''openvpn'', ''pki'', ''serial''] = Some (JStr ''01'')
       \<and> look (bh_disk s) [''etc'', ''openvpn'', ''pki'', ''newer.crt''] = None
   | _ \<Rightarrow> False"
  by code_simp

lemma demo_result: "\<exists>x s. restore_full_backup demo_backup ''nicevpn-manual-1.tar.gz'' demo_later = Some (Inr x, s)
    \<and> look (bh_disk s) [''etc'', ''openvpn'', ''pki'', ''newer.crt''] = None"
proof (cases "restore_full_backup demo_backup ''nicevpn-manual-1.tar.gz'' demo_later")
  case None
  then show ?thesis using demo_comes_back by simp
next
  case (Some a)
  then show ?thesis using demo_comes_back by (cases a; cases "fst a") auto
qed

lemma demo_places: "case current_config demo_backup demo_host of
    Inr cfg \<Rightarrow> backup_base demo_backup cfg = [''etc'', ''openvpn''] \<and> backup_pki demo_backup cfg = [''etc'', ''openvpn'', ''pki''] | Inl _ \<Rightarrow> False"
  by code_simp

lemma demo_raw: "restore_places demo_backup [] = Inr ([''etc'', ''openvpn''], [''etc'', ''openvpn'', ''pki''])"
  by code_simp

lemma rooted_by: "list_all (\<lambda>(p, i). list_all (\<lambda>k. is_dir d (take k p)) [1..<length p]) d \<Longrightarrow> rooted d"
  unfolding rooted_def
proof (intro allI impI)
  fix p q assume a: "list_all (\<lambda>(p, i). list_all (\<lambda>k. is_dir d (take k p)) [1..<length p]) d" "look d p \<noteq> None" "strict_prefix q p" "q \<noteq> []"
  have "p \<in> fst ` set d" using a(2) look_None_iff [of d p] by simp
  then obtain i where "(p, i) \<in> set d" by auto
  then have "list_all (\<lambda>k. is_dir d (take k p)) [1..<length p]" using a(1) by (auto simp: list_all_iff)
  moreover have "take (length q) p = q" "length q \<in> set [1..<length p]" using a(3,4) prefix_length_less [of q p] by (auto simp: strict_prefix_def prefix_def Suc_le_eq)
  ultimately show "look d q = Some IDir" by (metis is_dir_def list_all_iff)
qed

lemma tidy_by: "list_all (\<lambda>(p, i). list_all (\<lambda>c. \<not> sublist ''.restore-'' c) p) d \<Longrightarrow> tidy_disk d"
proof -
  assume a: "list_all (\<lambda>(p, i). list_all (\<lambda>c. \<not> sublist ''.restore-'' c) p) d"
  have "visible p" if "look d p \<noteq> None" for p
  proof -
    have "p \<in> fst ` set d" using that look_None_iff [of d p] by simp
    then show ?thesis using a by (auto simp: list_all_iff visible_def)
  qed
  then show ?thesis by (simp add: tidy_disk_def)
qed

lemma demo_wf: "wf_disk demo_disk"
proof -
  have "list_all (\<lambda>(p, i). list_all (\<lambda>k. is_dir demo_disk (take k p)) [1..<length p]) demo_disk" by code_simp
  moreover have "distinct (map fst demo_disk)" "list_all (\<lambda>p. p \<noteq> [] \<and> list_all name_ok p) (map fst demo_disk)" by code_simp+
  ultimately show ?thesis using rooted_by by (auto simp: wf_disk_def list_all_iff)
qed

lemma demo_tidy: "tidy_disk demo_disk" "tidy_disk (bh_disk demo_later)"
proof -
  have "list_all (\<lambda>(p, i). list_all (\<lambda>c. \<not> sublist ''.restore-'' c) p) demo_disk" by code_simp
  then show "tidy_disk demo_disk" by (rule tidy_by)
  have "list_all (\<lambda>(p, i). list_all (\<lambda>c. \<not> sublist ''.restore-'' c) p)
      (([''etc'', ''openvpn'', ''pki'', ''newer.crt''], IFile (JStr ''n'')) # map (\<lambda>(p, i). (p, if last p = ''serial'' then IFile (JStr ''02'') else i)) demo_disk)"
    by code_simp
  then show "tidy_disk (bh_disk demo_later)" unfolding demo_later_def by (simp add: tidy_by)
qed

lemma demo_faultless: "no_faults demo_backup" "reads_back (bw_config demo_backup)" "scripts_law demo_backup"
  by (auto simp: no_faults_def demo_backup_def reads_back_def demo_config_def scripts_law_def fills_def)

lemma demo_separate: "separate_places demo_backup [''etc'', ''openvpn''] [''etc'', ''openvpn'', ''pki'']"
proof -
  have "list_all visible [[''data''], [''etc'', ''openvpn''], [''etc'', ''openvpn'', ''pki'']]" unfolding visible_def by code_simp
  then show ?thesis by (simp add: separate_places_def restore_steps_def apart_def demo_backup_def db_path_def config_path_def)
qed

lemma demo_same: "current_config demo_backup demo_host = Inr cfg \<Longrightarrow> same_places demo_backup cfg demo_disk"
  using demo_places demo_raw by (simp add: same_places_def demo_backup_def demo_config_def config_path_def file_of_def look_def demo_disk_def)


section \<open>The properties\<close>

text \<open>C16. A backup brings the state back.  On a file system without failures, with configuration texts that read back and places
  that do not lie inside each other: an archive made from one disk passes its inspection, and whatever the disk has become in
  between, its restoration returns; when it does not raise, the database is the one rebuilt from the snapshot, every saved file has
  its old content or is gone as it was, and every saved directory is exactly what it was, nothing newer left in it.\<close>

theorem backup_restores:
  assumes "no_faults w" "reads_back (bw_config w)" "scripts_law w" "wf_disk (bh_disk s)" "tidy_disk (bh_disk s)" "tidy_disk (bh_disk s2)"
    and "create_full_backup w label s = Some (Inr nm, s1)" "map_of (bh_archives s2) nm = map_of (bh_archives s1) nm"
    and "current_config w s = Inr cfg" "same_places w cfg (bh_disk s)" "separate_places w (backup_base w cfg) (backup_pki w cfg)"
  shows "(\<exists>i. inspect_full_backup w nm s2 = Inr i) \<and> (\<exists>r s3. restore_full_backup w nm s2 = Some (r, s3) \<and>
    (\<forall>x. r = Inr x \<longrightarrow> (\<forall>c\<in>set (copy_steps w (backup_base w cfg) (backup_pki w cfg)). restored w (bh_disk s) (bh_disk s3) c)))"
proof -
  let ?base = "backup_base w cfg" and ?pki = "backup_pki w cfg"
  have "?pki \<noteq> []" using assms(11) by (simp add: separate_places_def)
  then obtain ms root m pl t where a: "map_of (bh_archives s1) nm = Some ms" "safe_extract ms = Inr root" "validate_restore_payload w root = Inr m"
      "m = manifest_for w t cfg pl" "tidy_disk pl"
      "chain (map (copied w (bh_disk s)) (copy_steps w ?base ?pki)) [([''app''], IDir), ([''openvpn''], IDir)] pl"
      "\<forall>p. p \<noteq> [] \<longrightarrow> look (subtree [''payload''] root) p = look pl p"
    using archive_payload [OF assms(7,4,5,9) _ assms(2)] by blast
  let ?p = "subtree [''payload''] root"
  have inspect: "\<exists>i. inspect_full_backup w nm s2 = Inr i"
    using a(1-4) assms(8) by (simp add: inspect_full_backup_def manifest_for_def jget_def as_dict_def)
  have tidy: "tidy_disk ?p" using a(5,7) unfolding tidy_disk_def by (metis visible_def empty_iff list.set(1) bex_empty)
  have cs: "sorted_wrt apart (map copy_target (copy_steps w ?base ?pki))" by (rule copy_targets)
  obtain txt0 raw where raw: "file_of (bh_disk s) (config_path w) = Some txt0" "cw_loads (bw_config w) txt0 = Inr (JObj raw)" "restore_places w raw = Inr (?base, ?pki)"
    using assms(10) by (auto simp: same_places_def)
  have "([''app'', ''config.json''], {[]}, file_view (file_of (bh_disk s) (config_path w))) \<in> set (map (copied w (bh_disk s)) (copy_steps w ?base ?pki))"
    by (simp add: copy_steps_def)
  moreover have "sorted_wrt apart (map fst (map (copied w (bh_disk s)) (copy_steps w ?base ?pki)))" using cs by (simp add: comp_def copied_target)
  ultimately have "look pl ([''app'', ''config.json''] @ []) = file_view (file_of (bh_disk s) (config_path w)) []"
    using chain_place [OF a(6)] by blast
  then have cfg: "payload_config w ?p = Inr raw" using a(7) raw(1,2) view_file [of ?p "[''app'', ''config.json'']"] by (simp add: payload_config_def)
  obtain r s3 where run: "restore_body w ?p m s2 = Some (r, s3)" using returns_some [OF returns_body, of w ?p m s2] by blast
  then have "restore_full_backup w nm s2 = Some (r, s3)" using a(1-3) assms(8) by (simp add: restore_checks)
  moreover have "restored w (bh_disk s) (bh_disk s3) c" if ok: "r = Inr x" and c: "c \<in> set (copy_steps w ?base ?pki)" for x c
  proof -
    have d: "chain (map (filled w ?p) (restore_steps w ?base ?pki) @ [(?base @ [''scripts''], {}, \<lambda>_. None)]) (bh_disk s2) (bh_disk s3)"
        "\<exists>t t'. for_each (restore_one w ?p) (restore_steps w ?base ?pki) t = Some (Inr (), t')"
      using body_done [OF run [unfolded ok] assms(1,3) cfg raw(3) tidy assms(6,11)] archive_supplies [OF a(3,7,6)] by blast+
    have sep: "sorted_wrt apart (map fst (map (filled w ?p) (restore_steps w ?base ?pki) @ [(?base @ [''scripts''], {}, \<lambda>_. None)]))"
      using assms(11) by (simp add: separate_places_def comp_def filled_place)
    obtain y where y: "y \<in> set (restore_steps w ?base ?pki)" "undoes c y"
      using steps_undone [of w ?base ?pki] c by (metis in_set_conv_nth list_all2_conv_all_nth nth_mem)
    have "copy_target c \<noteq> []" using target_in [OF c] targets_good by (auto simp: list_all_iff)
    moreover have "\<exists>b b'. file_of ?p src = Some b \<and> bw_into_db w b = Inr b'" if db: "y = RestoreDb src dst" for src dst
    proof -
      obtain u u' where u: "restore_sqlite w ?p src dst u = Some (Inr (), u')" using d(2) each_done y(1) db by fastforce
      have "dst \<noteq> []" using places_good [OF assms(11) y(1)] db by simp
      then show ?thesis using restore_sqlite_done [OF assms(1) u] by blast
    qed
    ultimately show ?thesis
      by (intro restored_step [OF a(6) cs a(7) _ c y(1,2)] chain_place [OF d(1) sep]) auto
  qed
  ultimately show ?thesis using inspect by blast
qed

lemma backup_restores_witness:
  "(\<exists>i. inspect_full_backup demo_backup ''nicevpn-manual-1.tar.gz'' demo_later = Inr i) \<and>
   (\<exists>x s3. restore_full_backup demo_backup ''nicevpn-manual-1.tar.gz'' demo_later = Some (Inr x, s3)
     \<and> (\<forall>c\<in>set (copy_steps demo_backup [''etc'', ''openvpn''] [''etc'', ''openvpn'', ''pki'']). restored demo_backup demo_disk (bh_disk s3) c))"
proof -
  obtain cfg where cfg: "current_config demo_backup demo_host = Inr cfg" "backup_base demo_backup cfg = [''etc'', ''openvpn'']"
      "backup_pki demo_backup cfg = [''etc'', ''openvpn'', ''pki'']"
    using demo_places by (cases "current_config demo_backup demo_host") auto
  have made: "create_full_backup demo_backup ''manual'' demo_host = Some (Inr ''nicevpn-manual-1.tar.gz'', demo_saved)"
    using demo_saves by (auto simp: demo_saved_def)
  have "map_of (bh_archives demo_later) nm = map_of (bh_archives demo_saved) nm" for nm by (simp add: demo_later_def)
  moreover have "bh_disk demo_host = demo_disk" by (simp add: demo_host_def)
  ultimately show ?thesis
    using backup_restores [OF demo_faultless, of demo_host demo_later "''manual''" "''nicevpn-manual-1.tar.gz''" demo_saved cfg]
      demo_wf demo_tidy made cfg demo_same demo_separate demo_result by auto
qed

text \<open>C17. A restoration changes the disk only with a backup it has verified.  If the disk is another one afterwards, whatever
  failed in between, the archive had no member outside its directory, no link and no device; its payload has exactly the files of
  its manifest, each with the size and the SHA-256 of its entry; and a backup of the state before was made and is there.\<close>

theorem restore_only_verified:
  assumes "restore_full_backup w nm s = Some (r, s')" "bh_disk s' \<noteq> bh_disk s"
  shows "\<exists>ms root m es pre t. map_of (bh_archives s) nm = Some ms \<and> \<not> list_ex unsafe_member ms \<and> safe_extract ms = Inr root
    \<and> validate_restore_payload w root = Inr m \<and> jget ''files'' m = JObj es \<and> fst ` set (archived_files root) = fst ` set es
    \<and> (\<forall>(rel, meta)\<in>set es. \<exists>c e. map_of (archived_files root) rel = Some c \<and> meta = JObj e
         \<and> str_or (cw_rep (bw_config w)) (jget ''sha256'' e) = bw_sha w c
         \<and> (jget ''size'' e = JInt (int (bw_size w c)) \<or> (\<exists>b. jget ''size'' e = JBool b)))
    \<and> create_full_backup w ''pre-restore'' s = Some (Inr pre, t) \<and> bh_disk t = bh_disk s \<and> map_of (bh_archives s') pre = map_of (bh_archives t) pre"
proof -
  obtain ms where ms: "map_of (bh_archives s) nm = Some ms" using assms by (auto simp: restore_checks throw_def split: option.splits)
  obtain root m where m: "safe_extract ms = Inr root" "validate_restore_payload w root = Inr m" "restore_body w (subtree [''payload''] root) m s = Some (r, s')"
    using assms ms by (auto simp: restore_checks throw_def rbind_Inr_iff split: sum.splits)
  obtain es where es: "jget ''files'' m = JObj es" "fst ` set (archived_files root) = fst ` set es" "check_entries w (archived_files root) es = Inr ()"
    using manifest_read validated [OF m(2)] by blast
  obtain pre t where t: "create_full_backup w ''pre-restore'' s = Some (Inr pre, t)" "bh_disk t = bh_disk s" "bh_archives s' = bh_archives t"
    using body_cases [OF m(3)] assms(2) by blast
  have "\<not> list_ex unsafe_member ms" using m(1) by (auto simp: safe_extract_def bad_def split: if_splits)
  moreover have "\<forall>(rel, meta)\<in>set es. \<exists>c e. map_of (archived_files root) rel = Some c \<and> meta = JObj e
         \<and> str_or (cw_rep (bw_config w)) (jget ''sha256'' e) = bw_sha w c
         \<and> (jget ''size'' e = JInt (int (bw_size w c)) \<or> (\<exists>b. jget ''size'' e = JBool b))"
    using checked_entry [OF es(3)] by blast
  ultimately show ?thesis using ms m(1,2) es(1,2) t by (intro exI conjI) simp_all
qed

lemma restore_only_verified_witness:
  "\<exists>x s' ms root m. restore_full_backup demo_backup ''nicevpn-manual-1.tar.gz'' demo_later = Some (Inr x, s') \<and> bh_disk s' \<noteq> bh_disk demo_later
    \<and> map_of (bh_archives demo_later) ''nicevpn-manual-1.tar.gz'' = Some ms \<and> \<not> list_ex unsafe_member ms
    \<and> safe_extract ms = Inr root \<and> validate_restore_payload demo_backup root = Inr m"
proof -
  obtain x s' where s': "restore_full_backup demo_backup ''nicevpn-manual-1.tar.gz'' demo_later = Some (Inr x, s')"
      "look (bh_disk s') [''etc'', ''openvpn'', ''pki'', ''newer.crt''] = None"
    using demo_result by blast
  then have d: "bh_disk s' \<noteq> bh_disk demo_later" by (auto simp: demo_later_def look_Cons)
  from restore_only_verified [OF s'(1) d] show ?thesis
    by (elim exE conjE) (rule exI conjI s'(1) d | assumption)+
qed

end
