(* ===== verification/Grid.thy ===== *)
theory Grid
  imports Storage_Pages Json
begin

text \<open>
  \<open>app/ui/grid_query.py\<close>: the filters and the order of a table of the web interface, as conditions for the store and as
  a filter over rows; and the table of users in \<open>app/ui/pages/users.py\<close>, which takes its page from the store or from
  all users.  \<open>str.casefold\<close> folds letters of every alphabet, which \<open>NOCASE\<close> of the store does not: it is the parameter \<open>cf\<close>; \<open>float\<close>
  is the parameter \<open>num\<close>.  Texts that are not ASCII are their UTF-8 bytes, which sort like their code points.
\<close>

section \<open>Conditions for the store\<close>

text \<open>\<open>str(x or d)\<close>.\<close>

definition or_text :: "(json \<Rightarrow> string) \<Rightarrow> json \<Rightarrow> string \<Rightarrow> string" where
  "or_text rep v d = (if truthy v then py_str rep v else d)"

definition set_filter_values :: "(json \<Rightarrow> string) \<Rightarrow> jobj \<Rightarrow> string \<Rightarrow> string list" where
  "set_filter_values rep fm field = (case jget field fm of
     JObj m \<Rightarrow> (case jget ''values'' m of JList vs \<Rightarrow> map (py_str rep) vs | _ \<Rightarrow> [])
   | _ \<Rightarrow> [])"

definition text_filter_spec :: "(json \<Rightarrow> string) \<Rightarrow> jobj \<Rightarrow> string \<Rightarrow> (string \<times> string) option" where
  "text_filter_spec rep fm field = (case jget field fm of
     JObj m \<Rightarrow> if truthy (jget ''operator'' m) \<or> truthy (jget ''conditions'' m) then None
       else if jget ''filter'' m = JNull then None
       else Some (py_str rep (jget ''filter'' m), or_text rep (jget ''type'' m) ''contains'')
   | _ \<Rightarrow> None)"

definition mode_spec :: "string \<Rightarrow> string \<times> string" where
  "mode_spec mode = (if mode = ''containsAny'' then (''contains'', ''OR'') else if mode = ''containsAll'' then (''contains'', ''AND'')
     else if mode = ''notContainsAny'' then (''notContains'', ''AND'') else if mode = ''equalsAny'' then (''equals'', ''OR'')
     else (''contains'', ''OR''))"

definition multi_text :: "(json \<Rightarrow> string) \<Rightarrow> jobj \<Rightarrow> bool" where
  "multi_text rep m \<longleftrightarrow> or_text rep (jget ''filterType'' m) [] = ''niceVpnMultiText''"

definition multi_text_filter_spec :: "(json \<Rightarrow> string) \<Rightarrow> jobj \<Rightarrow> string \<Rightarrow> (string list \<times> string \<times> string) option" where
  "multi_text_filter_spec rep fm field = (case jget field fm of
     JObj m \<Rightarrow>
       if multi_text rep m then
         (case jget ''values'' m of
            JList vs \<Rightarrow> (let values = strip_all (map (py_str rep) vs) in
              if values = [] then None else Some (values, mode_spec (or_text rep (jget ''type'' m) ''containsAny'')))
          | _ \<Rightarrow> None)
       else map_option (\<lambda>(value, match_type). ([value], match_type, ''AND'')) (text_filter_spec rep fm field)
   | _ \<Rightarrow> None)"

definition sort_columns :: "json list \<Rightarrow> jobj list" where
  "sort_columns state = concat (map (\<lambda>v. case v of JObj m \<Rightarrow> if truthy (jget ''sort'' m) then [m] else [] | _ \<Rightarrow> []) state)"

definition sort_index :: "jobj \<Rightarrow> int res" where
  "sort_index m = (if truthy (jget ''sortIndex'' m) then py_int (jget ''sortIndex'' m) else Inr 0)"

definition first_sort_spec :: "(json \<Rightarrow> string) \<Rightarrow> json list \<Rightarrow> string \<Rightarrow> (string \<times> bool) res" where
  "first_sort_spec rep state default_field =
     rbind (mapM (\<lambda>m. rbind (sort_index m) (\<lambda>i. Inr (i, m))) (sort_columns state)) (\<lambda>keyed.
     case sort_key fst keyed of
       [] \<Rightarrow> Inr (default_field, False)
     | (i, m) # _ \<Rightarrow> Inr (or_text rep (jget ''colId'' m) default_field, py_str rep (jget ''sort'' m) = ''desc''))"

section \<open>Filters over rows\<close>

definition opt_text :: "(json \<Rightarrow> string) \<Rightarrow> json \<Rightarrow> string" where
  "opt_text rep v = (if v = JNull then [] else py_str rep v)"

definition number_match :: "string \<Rightarrow> 'n::linorder \<Rightarrow> 'n \<Rightarrow> bool" where
  "number_match kind actual target = (if kind = ''lessThan'' then actual < target else if kind = ''lessThanOrEqual'' then actual \<le> target
     else if kind = ''greaterThan'' then actual > target else if kind = ''greaterThanOrEqual'' then actual \<ge> target
     else if kind = ''notEqual'' then actual \<noteq> target else actual = target)"

definition single_filter_match :: "(string \<Rightarrow> string) \<Rightarrow> (json \<Rightarrow> string) \<Rightarrow> (json \<Rightarrow> 'n::linorder option) \<Rightarrow> json \<Rightarrow> jobj \<Rightarrow> bool" where
  "single_filter_match cf rep num v m = (let filter_type = or_text rep (jget ''filterType'' m) ''text'' in
     if filter_type = ''niceVpnSet'' then (case jget ''values'' m of JList vs \<Rightarrow> py_str rep v \<in> set (map (py_str rep) vs) | _ \<Rightarrow> True)
     else (let kind = or_text rep (jget ''type'' m) ''contains''; txt = opt_text rep v;
         left = cf txt; right = cf (opt_text rep (jget ''filter'' m)) in
       if kind = ''blank'' then txt = []
       else if kind = ''notBlank'' then txt \<noteq> []
       else if kind = ''equals'' then left = right
       else if kind = ''notEqual'' then left \<noteq> right
       else if kind = ''notContains'' then \<not> str_in right left
       else if kind = ''startsWith'' then starts_with left right
       else if kind = ''endsWith'' then ends_with left right
       else if filter_type = ''number'' then
         (case num v of None \<Rightarrow> False
          | Some actual \<Rightarrow> (case num (jget ''filter'' m) of None \<Rightarrow> False | Some target \<Rightarrow> number_match kind actual target))
       else str_in right left))"

definition text_match :: "(string \<Rightarrow> string) \<Rightarrow> (json \<Rightarrow> string) \<Rightarrow> (json \<Rightarrow> 'n::linorder option) \<Rightarrow> json \<Rightarrow> string \<Rightarrow> string \<Rightarrow> bool" where
  "text_match cf rep num v kind item = single_filter_match cf rep num v [(''filter'', JStr item), (''type'', JStr kind)]"

definition combined :: "(json \<Rightarrow> string) \<Rightarrow> jobj \<Rightarrow> bool list \<Rightarrow> bool" where
  "combined rep m matches = (if lower (or_text rep (jget ''operator'' m) ''AND'') = ''or'' then list_ex id matches else list_all id matches)"

definition objects :: "json list \<Rightarrow> jobj list" where
  "objects vs = concat (map (\<lambda>v. case v of JObj m \<Rightarrow> [m] | _ \<Rightarrow> []) vs)"

definition multi_text_match :: "(string \<Rightarrow> string) \<Rightarrow> (json \<Rightarrow> string) \<Rightarrow> (json \<Rightarrow> 'n::linorder option) \<Rightarrow> json \<Rightarrow> jobj \<Rightarrow> bool" where
  "multi_text_match cf rep num v m = (case jget ''values'' m of
     JList vs \<Rightarrow> (let values = strip_all (map (py_str rep) vs); mode = or_text rep (jget ''type'' m) ''containsAny'' in
       if values = [] then True
       else if mode = ''containsAll'' then list_all (text_match cf rep num v ''contains'') values
       else if mode = ''notContainsAny'' then list_all (text_match cf rep num v ''notContains'') values
       else if mode = ''equalsAny'' then list_ex (text_match cf rep num v ''equals'') values
       else list_ex (text_match cf rep num v ''contains'') values)
   | _ \<Rightarrow> True)"

definition model_match :: "(string \<Rightarrow> string) \<Rightarrow> (json \<Rightarrow> string) \<Rightarrow> (json \<Rightarrow> 'n::linorder option) \<Rightarrow> json \<Rightarrow> jobj \<Rightarrow> bool" where
  "model_match cf rep num v m =
     (if multi_text rep m then multi_text_match cf rep num v m
      else (let valid = (case jget ''conditions'' m of JList cs \<Rightarrow> objects cs | _ \<Rightarrow> []) in
        if valid \<noteq> [] then combined rep m (map (single_filter_match cf rep num v) valid)
        else (case (jget ''condition1'' m, jget ''condition2'' m) of
          (JObj c1, JObj c2) \<Rightarrow> combined rep m [single_filter_match cf rep num v c1, single_filter_match cf rep num v c2]
        | _ \<Rightarrow> single_filter_match cf rep num v m)))"

definition row_matches_filter_model :: "(string \<Rightarrow> string) \<Rightarrow> (json \<Rightarrow> string) \<Rightarrow> (json \<Rightarrow> 'n::linorder option) \<Rightarrow> (string \<times> string) list \<Rightarrow> jobj \<Rightarrow> jobj \<Rightarrow> bool" where
  "row_matches_filter_model cf rep num aliases fm row \<longleftrightarrow> list_all (\<lambda>(field, model). case model of
       JObj m \<Rightarrow> model_match cf rep num (jget (case map_of aliases field of None \<Rightarrow> field | Some src \<Rightarrow> src) row) m
     | _ \<Rightarrow> True) fm"

definition filter_rows :: "(string \<Rightarrow> string) \<Rightarrow> (json \<Rightarrow> string) \<Rightarrow> (json \<Rightarrow> 'n::linorder option) \<Rightarrow> (string \<times> string) list \<Rightarrow> jobj \<Rightarrow> jobj list \<Rightarrow> jobj list" where
  "filter_rows cf rep num aliases fm rows = filter (row_matches_filter_model cf rep num aliases fm) rows"

definition row_key :: "(string \<Rightarrow> string) \<Rightarrow> (json \<Rightarrow> string) \<Rightarrow> string \<Rightarrow> jobj \<Rightarrow> sqlkey" where
  "row_key cf rep field row = (case jget field row of
     JInt n \<Rightarrow> SqlInt n | JBool b \<Rightarrow> SqlInt (if b then 1 else 0) | v \<Rightarrow> SqlText (cf (str_or rep v)))"

definition sort_rows :: "(string \<Rightarrow> string) \<Rightarrow> (json \<Rightarrow> string) \<Rightarrow> json list \<Rightarrow> string \<Rightarrow> jobj list \<Rightarrow> jobj list res" where
  "sort_rows cf rep state default_field rows = rbind (first_sort_spec rep state default_field) (\<lambda>(field, desc).
     Inr (if desc then sort_desc (row_key cf rep field) rows else sort_key (row_key cf rep field) rows))"

section \<open>The table of users\<close>

definition label_active :: string where
  "label_active = [CHR 0xE5, CHR 0x90, CHR 0xAF, CHR 0xE7, CHR 0x94, CHR 0xA8]"

definition label_disabled :: string where
  "label_disabled = [CHR 0xE5, CHR 0x81, CHR 0x9C, CHR 0xE7, CHR 0x94, CHR 0xA8]"

definition group_names :: "group list \<Rightarrow> (string \<times> string) list" where
  "group_names gs = fold (\<lambda>g names. if g_id g = [] then names else AList.update (g_id g) (g_name g) names) gs []"

definition group_label :: "string \<times> string \<Rightarrow> string" where
  "group_label = (\<lambda>(gid, label). if label = [] then gid else label)"

definition group_ids_by_label :: "(string \<times> string) list \<Rightarrow> string \<Rightarrow> string list" where
  "group_ids_by_label names label = map fst (filter (\<lambda>n. group_label n = label) names)"

text \<open>What the page asks the store for, and whether it may.\<close>

record user_query =
  uq_supported :: bool
  uq_name :: "(string list \<times> string \<times> string) option"
  uq_statuses :: "string list"
  uq_groups :: "string list"

definition status_value :: "string \<Rightarrow> string" where
  "status_value v = (if v = label_active then ''active'' else if v = label_disabled then ''disabled'' else v)"

definition or_no_match :: "string \<Rightarrow> string list \<Rightarrow> string list" where
  "or_no_match none vs = (if vs = [] then [none] else vs)"

definition user_query_of :: "(json \<Rightarrow> string) \<Rightarrow> (string \<times> string) list \<Rightarrow> jobj \<Rightarrow> string \<Rightarrow> user_query" where
  "user_query_of rep names fm sort_field = (let fields = map fst fm; spec = multi_text_filter_spec rep fm ''username'' in
     \<lparr>uq_supported = (list_all (\<lambda>f. f \<in> {''username'', ''account_status'', ''group''}) fields \<and> (''username'' \<in> set fields \<longrightarrow> spec \<noteq> None)
        \<and> sort_field \<in> {''username'', ''account_status'', ''group'', ''created_at''}),
      uq_name = spec,
      uq_statuses = (if ''account_status'' \<in> set fields
        then or_no_match ''__no_status_match__'' (map status_value (set_filter_values rep fm ''account_status'')) else []),
      uq_groups = (if ''group'' \<in> set fields
        then or_no_match ''__no_group_match__'' (concat (map (\<lambda>v. group_ids_by_label names v @ (if v \<in> fst ` set names then [v] else []))
          (set_filter_values rep fm ''group''))) else [])\<rparr>)"

text \<open>What is known of the users at run time: sessions, devices and addresses; formatting is a parameter.\<close>

record live_session =
  lv_address :: string
  lv_received :: int
  lv_sent :: int
  lv_since :: string
  lv_real :: string

record runtime_view =
  rv_available :: bool
  rv_session :: "string \<Rightarrow> live_session option"
  rv_last_since :: "string \<Rightarrow> string"
  rv_device :: "string \<Rightarrow> string"
  rv_address :: "string \<Rightarrow> string"
  rv_bytes :: "int \<Rightarrow> string"
  rv_format_since :: "string \<Rightarrow> string"
  rv_duration :: "string \<Rightarrow> string"
  rv_short :: "string \<Rightarrow> string"

definition dash :: string where
  "dash = [CHR 0xE2, CHR 0x80, CHR 0x94]"

definition unknown_label :: string where
  "unknown_label = [CHR 0xE6, CHR 0x9C, CHR 0xAA, CHR 0xE7, CHR 0x9F, CHR 0xA5]"

definition or_else_text :: "string \<Rightarrow> string \<Rightarrow> string" where
  "or_else_text s d = (if s = [] then d else s)"

definition session_label :: "runtime_view \<Rightarrow> bool \<Rightarrow> string" where
  "session_label rv online = (if online then [CHR 0xE5, CHR 0x9C, CHR 0xA8, CHR 0xE7, CHR 0xBA, CHR 0xBF]
     else if rv_available rv then [CHR 0xE7, CHR 0xA6, CHR 0xBB, CHR 0xE7, CHR 0xBA, CHR 0xBF] else unknown_label)"

definition row_connection :: "runtime_view \<Rightarrow> string \<Rightarrow> live_session option \<Rightarrow> string" where
  "row_connection rv name session = (case session of
     Some s \<Rightarrow> rv_format_since rv (lv_since s) @ [CHR '' '', CHR 0xC2, CHR 0xB7, CHR '' ''] @ rv_duration rv (lv_since s)
   | None \<Rightarrow> if rv_last_since rv name \<noteq> [] then rv_format_since rv (rv_last_since rv name) else dash)"

definition group_cell :: "(string \<times> string) list \<Rightarrow> string \<Rightarrow> string" where
  "group_cell names gid = or_else_text (case map_of names gid of None \<Rightarrow> [] | Some n \<Rightarrow> n) (if gid = [] then dash else take 8 gid)"

definition build_user_grid_row :: "runtime_view \<Rightarrow> (string \<times> string) list \<Rightarrow> user \<Rightarrow> jobj" where
  "build_user_grid_row rv names u = (let name = username u; status = user_status_text (u_status u); session = rv_session rv name;
       online = (rv_available rv \<and> session \<noteq> None); serial = or_else_text (opt_str (cert_serial u)) dash;
       address = (if rv_address rv name \<noteq> [] then rv_address rv name
         else case session of Some s \<Rightarrow> or_else_text (strip (lv_address s)) dash | None \<Rightarrow> dash);
       down = (case session of Some s \<Rightarrow> rv_bytes rv (lv_received s) | None \<Rightarrow> dash);
       up = (case session of Some s \<Rightarrow> rv_bytes rv (lv_sent s) | None \<Rightarrow> dash);
       device = or_else_text (strip (rv_device rv name)) dash;
       tone = (\<lambda>b. JStr (if b then ''success'' else ''unknown'')) in
     [(''id'', JStr name), (''username'', JStr name),
      (''account_status'', JStr (if status = ''active'' then label_active else label_disabled)),
      (''account_status_tone'', tone (status = ''active'')),
      (''session_status'', JStr (session_label rv online)), (''session_status_tone'', tone online),
      (''virtual_ip'', JStr address), (''group'', JStr (group_cell names (group_id u))), (''group_id'', JStr (group_id u)),
      (''cert_serial'', JStr serial), (''cert_serial_display'', JStr (rv_short rv serial)),
      (''traffic'', JStr (case session of None \<Rightarrow> dash
         | Some s \<Rightarrow> [CHR 0xE2, CHR 0x86, CHR 0x93, CHR '' ''] @ down @ '' / '' @ [CHR 0xE2, CHR 0x86, CHR 0x91, CHR '' ''] @ up)),
      (''traffic_down'', JStr down), (''traffic_up'', JStr up),
      (''connection'', JStr (row_connection rv name session)),
      (''source'', JStr (case session of Some s \<Rightarrow> or_else_text (lv_real s) dash | None \<Rightarrow> dash)),
      (''device'', JStr device), (''device_filter'', JStr (if device \<noteq> dash then device else unknown_label)),
      (''created_at'', JStr (or_else_text (take 10 (u_created_at u)) unknown_label)),
      (''_status'', JStr status), (''_online'', JBool online), (''_live_available'', JBool (rv_available rv))])"

text \<open>The number of pages, and a page that exists.\<close>

definition page_count :: "nat \<Rightarrow> int \<Rightarrow> int" where
  "page_count n page_size = max 1 ((int n + page_size - 1) div page_size)"

definition asked_page :: "user_query \<Rightarrow> string \<Rightarrow> bool \<Rightarrow> int \<Rightarrow> int \<Rightarrow> db \<Rightarrow> user list \<times> nat" where
  "asked_page q sort_field desc offset page_size d =
     list_users_page offset page_size [] (case uq_name q of Some (vs, mode, op) \<Rightarrow> mode | None \<Rightarrow> ''contains'')
       (map_option fst (uq_name q)) (case uq_name q of Some (vs, mode, op) \<Rightarrow> op | None \<Rightarrow> ''AND'') (uq_groups q) (uq_statuses q) sort_field desc d"

record grid_page =
  gp_rows :: "jobj list"
  gp_total :: nat
  gp_page :: int

text \<open>The page from the store, asked for again when it does not exist any more.\<close>

definition stored_page :: "runtime_view \<Rightarrow> (string \<times> string) list \<Rightarrow> user_query \<Rightarrow> string \<Rightarrow> bool \<Rightarrow> int \<Rightarrow> int \<Rightarrow> db \<Rightarrow> grid_page" where
  "stored_page rv names q sort_field desc page page_size d =
     (let (users, count) = asked_page q sort_field desc (max 0 ((page - 1) * page_size)) page_size d; pages = page_count count page_size;
       (users, count, page) = (if page > pages
         then (let (us, n) = asked_page q sort_field desc ((pages - 1) * page_size) page_size d in (us, n, pages)) else (users, count, page)) in
     \<lparr>gp_rows = map (build_user_grid_row rv names) users, gp_total = count, gp_page = page\<rparr>)"

text \<open>The page from all users; a page before the first is not asked for.\<close>

definition computed_page :: "(string \<Rightarrow> string) \<Rightarrow> (json \<Rightarrow> string) \<Rightarrow> (json \<Rightarrow> 'n::linorder option) \<Rightarrow> runtime_view \<Rightarrow> (string \<times> string) list \<Rightarrow> jobj
    \<Rightarrow> string \<Rightarrow> bool \<Rightarrow> int \<Rightarrow> int \<Rightarrow> db \<Rightarrow> grid_page res" where
  "computed_page cf rep num rv names fm sort_field desc page page_size d =
     rbind (sort_rows cf rep [JObj [(''colId'', JStr sort_field), (''sort'', JStr (if desc then ''desc'' else ''asc''))]] ''username''
       (filter_rows cf rep num [(''device'', ''device_filter'')] fm (map (build_user_grid_row rv names) (list_users False d)))) (\<lambda>rows.
     (let count = length rows; pages = page_count count page_size; page = (if page > pages then pages else page) in
      Inr \<lparr>gp_rows = take (nat page_size) (drop (nat ((page - 1) * page_size)) rows), gp_total = count, gp_page = page\<rparr>))"

definition load_user_grid_rows :: "(string \<Rightarrow> string) \<Rightarrow> (json \<Rightarrow> string) \<Rightarrow> (json \<Rightarrow> 'n::linorder option) \<Rightarrow> runtime_view \<Rightarrow> group list res \<Rightarrow> jobj
    \<Rightarrow> string \<Rightarrow> bool \<Rightarrow> int \<Rightarrow> int \<Rightarrow> db \<Rightarrow> grid_page res" where
  "load_user_grid_rows cf rep num rv groups fm sort_field desc page page_size d =
     (let names = group_names (case groups of Inl e \<Rightarrow> [] | Inr gs \<Rightarrow> gs); q = user_query_of rep names fm sort_field in
      if uq_supported q then Inr (stored_page rv names q sort_field desc page page_size d)
      else computed_page cf rep num rv names fm sort_field desc page page_size d)"

end
