(* ===== verification/Grid_Props.thy ===== *)
theory Grid_Props
  imports Grid Storage_Laws
begin

text \<open>
  The table of users shows the same page whether the store or the page itself filters and sorts.
\<close>

section \<open>Stable sorts\<close>





section \<open>One condition in the store and on a row\<close>














section \<open>Names of groups\<close>







section \<open>The two pages\<close>












section \<open>A small table\<close>

definition demo_user :: "string \<Rightarrow> user_status \<Rightarrow> user" where
  "demo_user nm st = \<lparr>username = nm, group_id = ''g1'', password_enabled = False, u_status = st, ovpn_file_path = None, device_binding_id = None,
     cert_serial = None, u_rule_ids = [], u_created_at = ''2026-01-01T00:00:00'', u_updated_at = ''2026-01-01T00:00:00''\<rparr>"



definition demo_view :: runtime_view where
  "demo_view = \<lparr>rv_available = True, rv_session = \<lambda>_. None, rv_last_since = \<lambda>_. [], rv_device = \<lambda>_. [], rv_address = \<lambda>_. [],
     rv_bytes = dec_of_int, rv_format_since = id, rv_duration = id, rv_short = id\<rparr>"

definition demo_num :: "json \<Rightarrow> int option" where
  "demo_num v = (case v of JInt n \<Rightarrow> Some n | _ \<Rightarrow> None)"




text \<open>A folding of Cyrillic capitals too, as \<open>str.casefold\<close> has it.\<close>

fun demo_fold :: "string \<Rightarrow> string" where
  "demo_fold [] = []"
| "demo_fold [c] = [nocase_char c]"
| "demo_fold (c # x # s) = (let n = of_char x :: nat in
     if c = CHR 0xD0 \<and> 144 \<le> n \<and> n < 160 then c # char_of (n + 32) # demo_fold s
     else if c = CHR 0xD0 \<and> 160 \<le> n \<and> n < 176 then CHR 0xD1 # char_of (n - 32) # demo_fold s
     else nocase_char c # demo_fold (x # s))"



text \<open>With two groups whose names are in Cyrillic, one of them with a capital, the two pages are in different orders: the store puts
  the capital first, \<open>casefold\<close> puts it by the alphabet.  The user of the first group is \<open>bob\<close>, of the second \<open>al\<close>.\<close>

definition cyrillic_table :: db where
  "cyrillic_table = empty_db\<lparr>db_users := [(demo_user ''bob'' UActive)\<lparr>group_id := ''g1''\<rparr>, (demo_user ''al'' UActive)\<lparr>group_id := ''g2''\<rparr>],
     db_groups := map (\<lambda>(i, n). \<lparr>g_id = i, g_name = n, g_subnet = ''10.8.1.0/24'', g_status = GActive, user_count = 1, g_rule_ids = [],
       g_created_at = ''t'', g_updated_at = ''t''\<rparr>)
       [(''g1'', [CHR 0xD0, CHR 0x91, CHR 0xD1, CHR 0x83, CHR 0xD1, CHR 0x85]), (''g2'', [CHR 0xD0, CHR 0xB0, CHR 0xD0, CHR 0xB1, CHR 0xD0, CHR 0xB2])]\<rparr>"

definition first_names :: "grid_page res \<Rightarrow> json list" where
  "first_names p = (case p of Inr p \<Rightarrow> map (jget ''username'') (gp_rows p) | Inl e \<Rightarrow> [])"

lemma folded_orders_differ:
  "first_names (load_user_grid_rows demo_fold (\<lambda>_. []) demo_num demo_view (Inr (list_groups cyrillic_table)) [] ''group'' False 1 10 cyrillic_table)
    = [JStr ''bob'', JStr ''al'']"
  "first_names (computed_page demo_fold (\<lambda>_. []) demo_num demo_view (group_names (list_groups cyrillic_table)) [] ''group'' False 1 10 cyrillic_table)
    = [JStr ''al'', JStr ''bob'']"
  by code_simp+

section \<open>The property\<close>



end
