(* ===== verification/Paste.thy ===== *)
theory Paste
  imports Remote_Chain Import_Lines
begin

text \<open>
  \<open>app/ui/firewall_helpers.py\<close> and the handlers of \<open>app/ui/pages/firewall_remote_imports.py\<close>: rules for the chain of a peer
  from a JSON export or from lines of \<open>iptables\<close>, and changes of several rows of a working copy at once.  The reader of JSON is
  a parameter.
\<close>

section \<open>Texts of the forms\<close>

text \<open>The tunnel addresses in the CCD files of some users: the first \<open>ifconfig-push\<close> of each file.\<close>

definition push_words :: "string \<Rightarrow> string option" where
  "push_words line = (case py_words (strip line) of a # b # ws \<Rightarrow> if a = ''ifconfig-push'' then Some b else None | _ \<Rightarrow> None)"

definition read_ccd_vpn_ips :: "(string \<times> string) list \<Rightarrow> string list \<Rightarrow> string list" where
  "read_ccd_vpn_ips ccd names = concat (map (\<lambda>n. case map_of ccd n of
     None \<Rightarrow> [] | Some txt \<Rightarrow> take 1 (List.map_filter push_words (splitlines txt))) names)"

definition parse_user_source_for_create :: "netaddr \<Rightarrow> string \<Rightarrow> (string option \<times> string list option) res" where
  "parse_user_source_for_create na txt = (let chunks = comma_tokens (strip txt); cidrs = filter (validate_cidr na) chunks in
     if strip txt = [] \<or> chunks = [] then Inr (None, None)
     else if length cidrs = length chunks \<and> length chunks = 1 then Inr (Some (hd cidrs), None)
     else if list_ex (\<lambda>c. \<not> validate_cidr na c \<and> dotted_quad c) chunks then Inr (None, Some chunks)
     else Inl (ValueError ''bad user source''))"

definition parse_source_text_for_remote_save :: "netaddr \<Rightarrow> string \<Rightarrow> string option \<times> string list option" where
  "parse_source_text_for_remote_save na txt = (let v = strip txt in
     if v = [] then (None, None)
     else if CHR '','' \<in> set v then (case parse_user_source_for_create na v of Inr r \<Rightarrow> r | Inl e \<Rightarrow> (Some v, None))
     else (Some v, None))"

text \<open>\<open>re.split\<close> at runs of blanks, commas and semicolons.\<close>

definition lan_separator :: "char \<Rightarrow> bool" where
  "lan_separator c \<longleftrightarrow> py_space c \<or> c = CHR '','' \<or> c = CHR '';''"

definition parse_lan_cidrs_text :: "string \<Rightarrow> string list" where
  "parse_lan_cidrs_text raw = py_words (map (\<lambda>c. if lan_separator c then CHR '' '' else c) (strip raw))"

definition move_order :: "'a list \<Rightarrow> int \<Rightarrow> int \<Rightarrow> 'a list" where
  "move_order xs old_index new_index = (let n = int (length xs) in
     if xs = [] \<or> \<not> (0 \<le> old_index \<and> old_index < n) \<or> \<not> (0 \<le> new_index \<and> new_index < n) then []
     else (let i = nat old_index; j = nat new_index; rest = take i xs @ drop (Suc i) xs in take j rest @ xs ! i # drop j rest))"

text \<open>The second line of a rule in the table.\<close>

definition second_line_comment_text :: "(json \<Rightarrow> string) \<Rightarrow> jobj \<Rightarrow> string \<Rightarrow> bool \<Rightarrow> bool \<Rightarrow> string \<Rightarrow> string" where
  "second_line_comment_text rep x title_text is_center_peer is_remote_row iptables_comment =
     (let description = strip (str_or rep (jget ''description'' x)) in
      if is_center_peer then
        (let tag = strip (str_or rep (jget ''_center_tag_line'' x)) in
         if description \<noteq> [] \<and> tag \<noteq> [] then description @ '' | '' @ tag else if description \<noteq> [] then description else tag)
      else if is_remote_row then (if description \<noteq> [] then description else strip iptables_comment)
      else (let comment = strip (str_or rep (jget ''comment'' x)) in
        if comment \<noteq> [] then comment
        else if description \<noteq> [] \<and> description \<noteq> strip title_text then description else []))"

section \<open>Rows from an export or from pasted lines\<close>

definition unbroken :: "string \<Rightarrow> unit res" where
  "unbroken rest = (if CHR 0x0A \<in> set rest \<or> CHR 0x0D \<in> set rest then Inl (ValueError ''line break in a rule'') else Inr ())"

definition plain_row :: "string \<Rightarrow> jobj" where
  "plain_row rest = [(''rest'', JStr rest), (''enabled'', JBool True)]"

text \<open>One row of an export; rows that are no dicts or have no text are left out.\<close>

definition import_item :: "(json \<Rightarrow> string) \<Rightarrow> json \<Rightarrow> jobj list res" where
  "import_item rep v = (case v of
     JObj x \<Rightarrow> (let rest = strip (py_str rep (jget_or (JStr []) ''rest'' x)); description = strip (str_or rep (jget ''description'' x)) in
       if rest = [] then Inr []
       else rbind (unbroken rest) (\<lambda>_. rbind (if jget ''priority'' x = JNull then Inr []
           else (case py_int (jget ''priority'' x) of Inr n \<Rightarrow> Inr [(''priority'', JInt n)] | Inl e \<Rightarrow> Inl (ValueError ''priority''))) (\<lambda>pr.
         Inr [[(''rest'', JStr rest), (''enabled'', JBool (truthy (jget_or (JBool True) ''enabled'' x)))]
           @ (if description = [] then [] else [(''description'', JStr description)]) @ pr])))
   | _ \<Rightarrow> Inr [])"

definition rows_from_remote_import_payload :: "(json \<Rightarrow> string) \<Rightarrow> json \<Rightarrow> jobj list res" where
  "rows_from_remote_import_payload rep raw = (case raw of
     JObj x \<Rightarrow> (case jget ''rows'' x of
         JList (v # vs) \<Rightarrow> rbind (mapM (import_item rep) (v # vs)) (\<lambda>rows. Inr (concat rows))
       | _ \<Rightarrow> rbind (items (jget ''rests'' x)) (\<lambda>l. Inr (map plain_row (strip_all (map (py_str rep) l)))))
   | _ \<Rightarrow> Inl (ValueError ''not an object''))"

definition paste_line :: "string \<Rightarrow> string \<Rightarrow> jobj list res" where
  "paste_line chain line = (let src = strip line; pre = ''-A '' @ chain @ '' '' in
     if src = [] \<or> starts_with src ''#'' then Inr []
     else if starts_with src ''-A '' then
       (if \<not> starts_with src pre then Inl (ValueError ''another chain'')
        else (let rest = strip (drop (length pre) src) in if rest = [] then Inr [] else rbind (unbroken rest) (\<lambda>_. Inr [plain_row rest])))
     else (case try_parse_simplified_line src of
         Some sl \<Rightarrow> mapM (\<lambda>rest. rbind (unbroken rest) (\<lambda>_. Inr (plain_row rest))) (peer_rests_from_simplified_line sl)
       | None \<Rightarrow> rbind (unbroken src) (\<lambda>_. Inr [plain_row src])))"

definition rows_from_iptables_paste :: "string \<Rightarrow> string \<Rightarrow> jobj list res" where
  "rows_from_iptables_paste txt chain = (let current_chain = strip chain in
     if current_chain = [] then Inl (ValueError ''no chain'')
     else rbind (mapM (paste_line current_chain) (splitlines txt)) (\<lambda>rows.
       if concat rows = [] then Inl (ValueError ''no rules'') else Inr (concat rows)))"

record chain_import =
  ci_rows :: "jobj list"
  ci_chain :: string
  ci_exists :: bool

definition rows_from_remote_import_text_mixed :: "(json \<Rightarrow> string) \<Rightarrow> (string \<Rightarrow> json res) \<Rightarrow> string \<Rightarrow> string \<Rightarrow> string \<Rightarrow> chain_import res" where
  "rows_from_remote_import_text_mixed rep loads txt peer_id given_chain = (let src = strip txt in
     if starts_with src ''{'' then (case loads src of
         Inl (JSONDecodeError e) \<Rightarrow> Inl (ValueError ''JSON'')
       | Inl e \<Rightarrow> Inl e
       | Inr raw \<Rightarrow> (let incoming = (case raw of JObj x \<Rightarrow> strip (str_or rep (jget ''peer_id'' x)) | _ \<Rightarrow> []) in
           if incoming \<noteq> [] \<and> incoming \<noteq> strip peer_id then Inl (ValueError ''another peer'')
           else (case raw of
               JObj x \<Rightarrow> rbind (rows_from_remote_import_payload rep raw) (\<lambda>rows.
                 Inr \<lparr>ci_rows = rows, ci_chain = (if truthy (jget ''chain'' x) then py_str rep (jget ''chain'' x) else given_chain),
                   ci_exists = truthy (jget_or (JBool True) ''chain_exists'' x)\<rparr>)
             | _ \<Rightarrow> Inl (ValueError ''not an object''))))
     else rbind (rows_from_iptables_paste src given_chain) (\<lambda>rows. Inr \<lparr>ci_rows = rows, ci_chain = given_chain, ci_exists = True\<rparr>))"

section \<open>Working copies\<close>

text \<open>What an export of a working copy holds.\<close>

definition export_payload :: "'k remote_world \<Rightarrow> string \<Rightarrow> jobj option \<Rightarrow> jobj" where
  "export_payload w pid cache = (case cache of
     None \<Rightarrow> [(''version'', JInt 1), (''peer_id'', JStr pid), (''chain'', JStr (peer_chain_name_for_id (rw_hash w) pid)),
       (''chain_exists'', JBool True), (''rows'', JList [])]
   | Some c \<Rightarrow> c)"

text \<open>The import: an error of the text leaves everything as it is, otherwise the rows are the new working copy and pushed.\<close>

definition import_ok_remote :: "'k remote_world \<Rightarrow> db \<Rightarrow> (string \<Rightarrow> json res) \<Rightarrow> string \<Rightarrow> string \<Rightarrow> ('k remote, bool) stact" where
  "import_ok_remote w d loads pid txt =
     (case rows_from_remote_import_text_mixed (rw_repr w) loads txt pid (peer_chain_name_for_id (rw_hash w) pid) of
        Inl (ValueError m) \<Rightarrow> ret False
      | Inl e \<Rightarrow> throw e
      | Inr i \<Rightarrow> push_rows w d pid (ci_chain i) (ci_exists i) (map JObj (ci_rows i)))"

definition selected_rows :: "nat list \<Rightarrow> 'a list \<Rightarrow> nat list" where
  "selected_rows selected rows = filter (\<lambda>i. i < length rows) (sort (remdups selected))"

definition without_rows :: "nat list \<Rightarrow> 'a list \<Rightarrow> 'a list" where
  "without_rows gone rows = fold (\<lambda>i rs. take i rs @ drop (Suc i) rs) (rev gone) rows"

definition do_batch_remote_delete :: "'k remote_world \<Rightarrow> db \<Rightarrow> string \<Rightarrow> nat list \<Rightarrow> ('k remote, bool) stact" where
  "do_batch_remote_delete w d pid selected = andthen (read_remote_chain_cache w pid) (\<lambda>found.
     (let cache = (case found of None \<Rightarrow> [] | Some c \<Rightarrow> c); rows = rows_of_cache cache; valid = selected_rows selected rows in
      if valid = [] then ret False
      else push_rows w d pid (cached_chain w pid cache) (chain_exists_or_true cache) (without_rows valid rows)))"

definition row_is :: "bool \<Rightarrow> jobj \<Rightarrow> bool" where
  "row_is en r \<longleftrightarrow> truthy (jget_or (JBool True) ''enabled'' r) = en"

definition do_batch_remote_set_enabled :: "'k remote_world \<Rightarrow> db \<Rightarrow> string \<Rightarrow> nat list \<Rightarrow> bool \<Rightarrow> ('k remote, bool) stact" where
  "do_batch_remote_set_enabled w d pid selected en = andthen (read_remote_chain_cache w pid) (\<lambda>found.
     (let cache = (case found of None \<Rightarrow> [] | Some c \<Rightarrow> c); rows = dicts (rows_of_cache cache); valid = selected_rows selected rows in
      if valid = [] then ret False
      else if list_all (\<lambda>i. row_is en (rows ! i)) valid then ret True
      else push_rows w d pid (cached_chain w pid cache) (chain_exists_or_true cache)
        (map JObj (fold (\<lambda>i rs. if row_is en (rs ! i) then rs else rs[i := jset ''enabled'' (JBool en) (rs ! i)]) valid rows))))"

end
