(* ===== verification/Paste_Props.thy ===== *)
theory Paste_Props
  imports Paste Remote_Props Ccd_Props
begin

text \<open>
  The chain of a peer survives an export and an import: as JSON with every field of its rows, as pasted lines with its rules.
\<close>

section \<open>JSON\<close>

lemma import_row_form:
  assumes "strip t = t" "t \<noteq> []" "strip ds = ds" "CHR 0x0A \<notin> set t" "CHR 0x0D \<notin> set t"
  shows "import_item rep (JObj (row_form t b ds pr)) = Inr [row_form t b ds pr]"
  using assms by (cases "ds = []"; cases pr) (simp_all add: import_item_def row_form_def str_or_def unbroken_def Let_def)

lemma import_clean_row:
  assumes "clean_row rep v = Some r" "CHR 0x0A \<notin> set (py_str rep (row_rest r))" "CHR 0x0D \<notin> set (py_str rep (row_rest r))"
  shows "import_item rep (JObj r) = Inr [r]"
proof -
  obtain t b ds pr where r: "r = row_form t b ds pr" "strip t = t" "t \<noteq> []" "strip ds = ds" using clean_row_form [OF assms(1)] by blast
  have "row_rest r = JStr t" by (simp add: r(1) row_rest_def row_form_def jget_def)
  then show ?thesis using import_row_form r assms(2,3) by simp
qed

lemma mapM_single: "\<forall>r\<in>set rs. f (g r) = Inr [r] \<Longrightarrow> rbind (mapM f (map g rs)) (\<lambda>rows. Inr (concat rows)) = Inr rs"
proof -
  have "\<forall>r\<in>set rs. f (g r) = Inr [r] \<Longrightarrow> mapM f (map g rs) = Inr (map (\<lambda>r. [r]) rs)" by (induction rs) auto
  moreover have "concat (map (\<lambda>r. [r]) rs) = rs" by (induction rs) auto
  ultimately show "\<forall>r\<in>set rs. f (g r) = Inr [r] \<Longrightarrow> rbind (mapM f (map g rs)) (\<lambda>rows. Inr (concat rows)) = Inr rs" by simp
qed

definition one_line_rows :: "(json \<Rightarrow> string) \<Rightarrow> jobj list \<Rightarrow> bool" where
  "one_line_rows rep rows \<longleftrightarrow> list_all (\<lambda>r. CHR 0x0A \<notin> set (py_str rep (row_rest r)) \<and> CHR 0x0D \<notin> set (py_str rep (row_rest r))) rows"

lemma exported_rows:
  assumes "jget ''rows'' x = JList (map JObj rows)" "jget ''rests'' x = JList (map row_rest rows)" "\<forall>r\<in>set rows. \<exists>v. clean_row rep v = Some r"
    "one_line_rows rep rows"
  shows "rows_from_remote_import_payload rep (JObj x) = Inr rows"
proof -
  have "\<forall>r\<in>set rows. import_item rep (JObj r) = Inr [r]"
    using import_clean_row assms(3,4) by (force simp: one_line_rows_def list_all_iff)
  then have all: "rbind (mapM (import_item rep) (map JObj rows)) (\<lambda>rs. Inr (concat rs)) = Inr rows" by (rule mapM_single)
  show ?thesis
  proof (cases rows)
    case Nil
    then show ?thesis using assms(1,2) by (simp add: rows_from_remote_import_payload_def items_def strip_all_def)
  next
    case (Cons r rs)
    then show ?thesis using assms(1) all by (simp add: rows_from_remote_import_payload_def)
  qed
qed

text \<open>What a working copy that was read holds.\<close>

lemma normal_rows:
  assumes "normalize_rows_from_raw rep raw = Inr rows" "r \<in> set rows"
  shows "\<exists>v. clean_row rep v = Some r"
proof -
  have "\<exists>v. clean_row rep v = Some [(''rest'', JStr t), (''enabled'', JBool True)]" if "strip t = t" "t \<noteq> []" for t
    using clean_row_of_form [OF that, of "[]" rep True None] by (auto simp: row_form_def strip_def rstrip_def lstrip_def)
  then have "\<forall>r\<in>set (map (\<lambda>s. [(''rest'', JStr s), (''enabled'', JBool True)]) (strip_all l)). \<exists>v. clean_row rep v = Some r" for l
    by (auto simp: strip_all_def)
  then show ?thesis
    using assms clean_rows_mem unfolding normalize_rows_from_raw_def
    by (auto split: json.splits list.splits simp: rbind_Inr_iff)
qed

lemma read_rows:
  assumes "read_remote_chain_cache w pid s = Some (Inr (Some c), s)"
  obtains rows where "rows_of_cache c = map JObj rows" "jget ''rows'' c = JList (map JObj rows)" "jget ''rests'' c = JList (map row_rest rows)"
    "\<forall>r\<in>set rows. \<exists>v. clean_row (rw_repr w) v = Some r" "strip (str_or (rw_repr w) (jget ''peer_id'' c)) = strip pid"
proof -
  obtain p raw rows where c: "valid_copy w pid raw rows" "c = read_form raw rows" using read_finds [OF assms] by metis
  then have "\<forall>r\<in>set rows. \<exists>v. clean_row (rw_repr w) v = Some r" using normal_rows by (auto simp: valid_copy_def)
  moreover have "jget ''rows'' c = JList (map JObj rows)" "jget ''rests'' c = JList (map row_rest rows)" using c(2) by (simp_all add: read_form_def)
  moreover have "strip (str_or (rw_repr w) (jget ''peer_id'' c)) = strip pid" using c by (simp add: valid_copy_def)
  ultimately show ?thesis using that c(2) by simp
qed

lemma dicts_JObj [simp]: "dicts (map JObj rows) = rows"
  by (induction rows) (auto simp: dicts_def List.map_filter_simps)

lemma clean_rows_normal: "\<forall>r\<in>set rows. \<exists>v. clean_row rep v = Some r \<Longrightarrow> clean_rows rep (map JObj rows) = rows"
  unfolding clean_rows_def by (rule map_filter_again) (use clean_row_again in blast)

section \<open>Pasted lines\<close>

lemma splitlines_joined: "\<forall>l\<in>set ls. no_break l \<and> l \<noteq> [] \<Longrightarrow> splitlines (join nl ls) = ls"
proof (induction ls)
  case (Cons l ls)
  show ?case
  proof (cases ls)
    case Nil
    then show ?thesis using Cons.prems splitlines_last by simp
  next
    case (Cons m ms)
    then show ?thesis using Cons.IH Cons.prems splitlines_line [of l "join nl ls"] by simp
  qed
qed (simp add: splitlines_def)

lemma no_break_ends: "no_break s \<Longrightarrow> CHR 0x0A \<notin> set s \<and> CHR 0x0D \<notin> set s"
proof -
  have "line_break (CHR 0x0A)" "line_break (CHR 0x0D)" by (simp_all add: line_break_def)
  then show "no_break s \<Longrightarrow> CHR 0x0A \<notin> set s \<and> CHR 0x0D \<notin> set s" by (auto simp: no_break_def list_all_iff)
qed

definition listed_line :: "string \<Rightarrow> string \<Rightarrow> string" where
  "listed_line chain rest = ''-A '' @ chain @ '' '' @ rest"

lemma listed_line_strip:
  assumes "strip rest = rest" "rest \<noteq> []"
  shows "strip (listed_line chain rest) = listed_line chain rest"
proof (rule strip_eqI)
  show "\<not> py_space (hd (listed_line chain rest))" by (simp add: listed_line_def py_space_def)
  show "\<not> py_space (last (listed_line chain rest))" using strip_last [of rest] assms by (simp add: listed_line_def)
qed (simp add: listed_line_def)

lemma paste_listed:
  assumes "strip rest = rest" "rest \<noteq> []" "no_break rest"
  shows "paste_line chain (listed_line chain rest) = Inr [plain_row rest]"
proof -
  have "starts_with (listed_line chain rest) (''-A '' @ chain @ '' '')" "drop (length (''-A '' @ chain @ '' '')) (listed_line chain rest) = rest"
    "starts_with (listed_line chain rest) ''-A ''" "\<not> starts_with (listed_line chain rest) ''#''" "listed_line chain rest \<noteq> []"
    by (simp_all add: listed_line_def starts_with_def)
  then show ?thesis using assms no_break_ends [OF assms(3)] unfolding paste_line_def listed_line_strip [OF assms(1,2)]
    by (simp add: unbroken_def Let_def)
qed

lemma pasted_rows:
  assumes "strip chain = chain" "chain \<noteq> []" "no_break chain" "rests \<noteq> []" "\<forall>r\<in>set rests. strip r = r \<and> r \<noteq> [] \<and> no_break r"
  shows "rows_from_iptables_paste (join nl (map (listed_line chain) rests)) chain = Inr (map plain_row rests)"
proof -
  have "splitlines (join nl (map (listed_line chain) rests)) = map (listed_line chain) rests"
    using assms(3,5) by (intro splitlines_joined) (auto simp: listed_line_def line_break_def)
  moreover have "mapM (paste_line chain) (map (listed_line chain) rests) = Inr (map (\<lambda>r. [plain_row r]) rests)"
    using assms(5) by (induction rests) (auto simp: paste_listed)
  moreover have "concat (map (\<lambda>r. [plain_row r]) rests) = map plain_row rests" by (induction rests) auto
  ultimately show ?thesis using assms(1,2,4) by (simp add: rows_from_iptables_paste_def Let_def)
qed

section \<open>The imports\<close>

lemma import_pushes:
  assumes "import_ok_remote w d loads pid txt s = Some (Inr ok, t)"
    and "rows_from_remote_import_text_mixed (rw_repr w) loads txt pid (peer_chain_name_for_id (rw_hash w) pid) = Inr i"
  shows "push_rows w d pid (ci_chain i) (ci_exists i) (map JObj (ci_rows i)) s = Some (Inr ok, t)"
  using assms by (simp add: import_ok_remote_def)

lemma mixed_export:
  assumes "read_remote_chain_cache w pid s0 = Some (Inr (Some c), s0)" "loads txt = Inr (JObj c)" "starts_with txt ''{''" "strip txt = txt"
    "one_line_rows (rw_repr w) (dicts (rows_of_cache c))"
  shows "rows_from_remote_import_text_mixed (rw_repr w) loads txt pid name = Inr \<lparr>ci_rows = dicts (rows_of_cache c),
      ci_chain = (if truthy (jget ''chain'' c) then py_str (rw_repr w) (jget ''chain'' c) else name), ci_exists = chain_exists_or_true c\<rparr>"
    and "strip other \<noteq> strip pid \<Longrightarrow> strip pid \<noteq> [] \<Longrightarrow>
      rows_from_remote_import_text_mixed (rw_repr w) loads txt other name = Inl (ValueError ''another peer'')"
proof -
  obtain rows where r: "rows_of_cache c = map JObj rows" "jget ''rows'' c = JList (map JObj rows)" "jget ''rests'' c = JList (map row_rest rows)"
    "\<forall>r\<in>set rows. \<exists>v. clean_row (rw_repr w) v = Some r" "strip (str_or (rw_repr w) (jget ''peer_id'' c)) = strip pid"
    using read_rows [OF assms(1)] .
  have "rows_from_remote_import_payload (rw_repr w) (JObj c) = Inr rows" using exported_rows [OF r(2,3,4)] assms(5) r(1) by simp
  then show "rows_from_remote_import_text_mixed (rw_repr w) loads txt pid name = Inr \<lparr>ci_rows = dicts (rows_of_cache c),
      ci_chain = (if truthy (jget ''chain'' c) then py_str (rw_repr w) (jget ''chain'' c) else name), ci_exists = chain_exists_or_true c\<rparr>"
    using r(1,5) assms(2,3,4) by (simp add: rows_from_remote_import_text_mixed_def Let_def chain_exists_or_true_def)
  show "strip other \<noteq> strip pid \<Longrightarrow> strip pid \<noteq> [] \<Longrightarrow>
      rows_from_remote_import_text_mixed (rw_repr w) loads txt other name = Inl (ValueError ''another peer'')"
    using r(5) assms(2,3,4) by (simp add: rows_from_remote_import_text_mixed_def Let_def)
qed

lemma listing_strip:
  assumes "rests \<noteq> []" "\<forall>r\<in>set rests. strip r = r \<and> r \<noteq> []"
  shows "strip (join nl (map (listed_line chain) rests)) = join nl (map (listed_line chain) rests)"
proof (rule strip_eqI)
  have "join nl (l # ls) = l @ (if ls = [] then [] else nl @ join nl ls)" for l ls by (cases ls) simp_all
  then show ne: "join nl (map (listed_line chain) rests) \<noteq> []" "\<not> py_space (hd (join nl (map (listed_line chain) rests)))"
    using assms(1) by (cases rests; simp add: listed_line_def py_space_def)+
  have "\<forall>r\<in>set rests. strip r = r \<and> r \<noteq> [] \<Longrightarrow> rests \<noteq> [] \<Longrightarrow>
      last (join nl (map (listed_line chain) rests)) = last (last rests) \<and> join nl (map (listed_line chain) rests) \<noteq> []"
  proof (induction rests)
    case (Cons r rs)
    then show ?case by (cases rs) (auto simp: listed_line_def)
  qed simp
  moreover have "strip (last rests) = last rests" "last rests \<noteq> []" using assms by auto
  ultimately show "\<not> py_space (last (join nl (map (listed_line chain) rests)))" using strip_last [of "last rests"] assms by simp
qed

lemma mixed_listing:
  assumes "strip chain = chain" "chain \<noteq> []" "no_break chain" "rests \<noteq> []" "\<forall>r\<in>set rests. strip r = r \<and> r \<noteq> [] \<and> no_break r"
  shows "rows_from_remote_import_text_mixed rep loads (join nl (map (listed_line chain) rests)) pid chain =
    Inr \<lparr>ci_rows = map plain_row rests, ci_chain = chain, ci_exists = True\<rparr>"
proof -
  have "\<not> starts_with (join nl (map (listed_line chain) rests)) ''{''"
    using assms(4) by (cases rests; cases "tl rests") (auto simp: listed_line_def starts_with_def)
  then show ?thesis
    using pasted_rows [OF assms] listing_strip assms(4,5) by (simp add: rows_from_remote_import_text_mixed_def Let_def)
qed

lemma plain_rows_clean: "\<forall>r\<in>set rests. strip r = r \<and> r \<noteq> [] \<Longrightarrow> clean_rows rep (map JObj (map plain_row rests)) = map plain_row rests"
proof (rule clean_rows_normal)
  show "\<forall>r\<in>set rests. strip r = r \<and> r \<noteq> [] \<Longrightarrow> \<forall>r\<in>set (map plain_row rests). \<exists>v. clean_row rep v = Some r"
  proof (intro ballI)
    fix x
    assume a: "\<forall>r\<in>set rests. strip r = r \<and> r \<noteq> []" "x \<in> set (map plain_row rests)"
    then obtain r where "x = plain_row r" "strip r = r" "r \<noteq> []" by auto
    then show "\<exists>v. clean_row rep v = Some x"
      using clean_row_of_form [of r "[]" rep True None] by (auto simp: row_form_def plain_row_def strip_def rstrip_def lstrip_def)
  qed
qed

lemma plain_rows_pushed: "\<forall>r\<in>set rests. strip r = r \<and> r \<noteq> [] \<Longrightarrow> rests_to_push_list rep (map plain_row rests) = rests"
  by (induction rests) (auto simp: rests_to_push_list_def plain_row_def List.map_filter_simps)

section \<open>Properties\<close>

text \<open>C30. An exported working copy comes back.  If the copy of a peer whose rules have no line breaks was exported as JSON, the import
  of that text for the same peer is accepted with every row of the copy, an import for another peer is refused, and when the import
  over any later working copy reports success the working copy has its rows with every field and the peer has exactly the enabled
  rules of the export in their order, behind the old ones only when it refused the flush (\<open>chain_replaced\<close>); when it reports a failure
  the working copy has the rows it had before.\<close>

theorem exported_chain_imports_back:
  assumes "remote_chain_law w (peer_chain_name_for_id (rw_hash w) (strip (p_id q))) rules" "get_peer pid d = Some q" "\<forall>f. rw_read_ok w f"
    and "read_remote_chain_cache w pid s0 = Some (Inr (Some c), s0)" "one_line_rows (rw_repr w) (dicts (rows_of_cache c))"
    and "loads txt = Inr (JObj (export_payload w pid (Some c)))" "starts_with txt ''{''" "strip txt = txt"
    and "read_remote_chain_cache w pid s = Some (Inr (Some old), s)" "import_ok_remote w d loads pid txt s = Some (Inr ok, t)"
  shows "(\<exists>c'. read_remote_chain_cache w pid t = Some (Inr (Some c'), t) \<and>
      (if ok then chain_replaced w (peer_chain_name_for_id (rw_hash w) (strip (p_id q))) rules (rm_host s)
          (rests_to_push_list (rw_repr w) (dicts (rows_of_cache c))) (rm_host t) \<and> rows_of_cache c' = rows_of_cache c
       else rows_of_cache c' = rows_of_cache old \<and> jget ''pending_sync'' c' = JBool True)) \<and>
    (\<forall>other u. strip other \<noteq> strip pid \<longrightarrow> strip pid \<noteq> [] \<longrightarrow> import_ok_remote w d loads other txt u = Some (Inr False, u))"
proof -
  obtain rows where rows: "rows_of_cache c = map JObj rows" "\<forall>r\<in>set rows. \<exists>v. clean_row (rw_repr w) v = Some r" using read_rows [OF assms(4)] by metis
  have l: "loads txt = Inr (JObj c)" using assms(6) by (simp add: export_payload_def)
  note m = mixed_export [of w pid s0 c loads "txt", OF assms(4) l assms(7,8,5)]
  from import_pushes [OF assms(10) m(1)] obtain ch ce where
    push: "push_rows w d pid ch ce (map JObj rows) s = Some (Inr ok, t)" using rows(1) by (simp only: chain_import.simps dicts_JObj)
  from push_outcome [OF assms(1) assms(2) assms(3) assms(9) push] clean_rows_normal [OF rows(2)] rows(1)
  have "\<exists>c'. read_remote_chain_cache w pid t = Some (Inr (Some c'), t) \<and>
      (if ok then chain_replaced w (peer_chain_name_for_id (rw_hash w) (strip (p_id q))) rules (rm_host s)
          (rests_to_push_list (rw_repr w) (dicts (rows_of_cache c))) (rm_host t) \<and> rows_of_cache c' = rows_of_cache c
       else rows_of_cache c' = rows_of_cache old \<and> jget ''pending_sync'' c' = JBool True)" by (auto split: if_splits)
  moreover have "import_ok_remote w d loads other txt u = Some (Inr False, u)" if "strip other \<noteq> strip pid" "strip pid \<noteq> []" for other u
    using m(2) [OF that] by (simp add: import_ok_remote_def ret_def)
  ultimately show ?thesis by blast
qed

definition demo_exported :: jobj where
  "demo_exported = (case read_remote_chain_cache demo_remote_world ''p1'' demo_pulled of Some (Inr (Some c), _) \<Rightarrow> c | _ \<Rightarrow> [])"

text \<open>A text and the reader that reads it as the export.\<close>

definition demo_reader :: "string \<Rightarrow> json res" where
  "demo_reader t = (if t = ''{...}'' then Inr (JObj demo_exported) else Inl (JSONDecodeError t))"

text \<open>The state after other rules were pushed.\<close>

definition demo_pushed :: "string list option remote" where
  "demo_pushed = (case push_rows demo_remote_world demo_ssh_db ''p1'' demo_chain True (demo_rows_of [(''-j DROP'', True)]) demo_pulled of
     Some (_, s) \<Rightarrow> s | None \<Rightarrow> demo_pulled)"

lemma demo_law: "remote_chain_law demo_remote_world (peer_chain_name_for_id (rw_hash demo_remote_world) (strip (p_id demo_ssh_peer))) id"
  using demo_exec_law by (simp add: demo_chain_def demo_remote_world_def demo_ssh_peer_def demo_peer_def strip_def rstrip_def lstrip_def py_space_def)

lemma demo_obeys: "\<not> flush_refused demo_remote_world (peer_chain_name_for_id (rw_hash demo_remote_world) (strip (p_id demo_ssh_peer))) id old"
  using demo_flush_obeys by (simp add: demo_chain_def demo_remote_world_def demo_ssh_peer_def demo_peer_def strip_def rstrip_def lstrip_def py_space_def)

lemma demo_get: "get_peer ''p1'' demo_ssh_db = Some demo_ssh_peer"
  by code_simp

lemma demo_reads: "\<forall>f. rw_read_ok demo_remote_world f"
  by (simp add: demo_remote_world_def)

lemma demo_copy: "read_remote_chain_cache demo_remote_world ''p1'' demo_pulled = Some (Inr (Some demo_exported), demo_pulled)"
proof -
  have "case read_remote_chain_cache demo_remote_world ''p1'' demo_pulled of Some (Inr (Some c), s) \<Rightarrow> True | _ \<Rightarrow> False" by code_simp
  then obtain c s where cs: "read_remote_chain_cache demo_remote_world ''p1'' demo_pulled = Some (Inr (Some c), s)" by (auto split: option.splits sum.splits)
  then show ?thesis using read_state [OF cs] by (simp add: demo_exported_def)
qed

lemma demo_later: "\<exists>c. read_remote_chain_cache demo_remote_world ''p1'' demo_pushed = Some (Inr (Some c), demo_pushed)"
proof -
  have "case read_remote_chain_cache demo_remote_world ''p1'' demo_pushed of Some (Inr (Some c), s) \<Rightarrow> True | _ \<Rightarrow> False" by code_simp
  then obtain c s where cs: "read_remote_chain_cache demo_remote_world ''p1'' demo_pushed = Some (Inr (Some c), s)" by (auto split: option.splits sum.splits)
  then show ?thesis using read_state [OF cs] by simp
qed

lemma exported_chain_imports_back_witness:
  "\<exists>t c'. rm_host demo_pushed = Some [''-j DROP''] \<and>
     import_ok_remote demo_remote_world demo_ssh_db demo_reader ''p1'' ''{...}'' demo_pushed = Some (Inr True, t) \<and>
     rm_host t = Some [''-j ACCEPT''] \<and> read_remote_chain_cache demo_remote_world ''p1'' t = Some (Inr (Some c'), t) \<and>
     rows_of_cache c' = rows_of_cache demo_exported \<and>
     import_ok_remote demo_remote_world demo_ssh_db demo_reader ''p2'' ''{...}'' demo_pushed = Some (Inr False, demo_pushed)"
proof -
  let ?w = demo_remote_world and ?d = demo_ssh_db
  have one: "one_line_rows (rw_repr ?w) (dicts (rows_of_cache demo_exported))" by code_simp
  have l: "demo_reader ''{...}'' = Inr (JObj (export_payload ?w ''p1'' (Some demo_exported)))" by (simp add: demo_reader_def export_payload_def)
  have tx: "starts_with ''{...}'' ''{''" "strip ''{...}'' = ''{...}''" by code_simp+
  obtain old where old: "read_remote_chain_cache ?w ''p1'' demo_pushed = Some (Inr (Some old), demo_pushed)" using demo_later by blast
  have "case import_ok_remote ?w ?d demo_reader ''p1'' ''{...}'' demo_pushed of Some (Inr ok, t) \<Rightarrow> ok | _ \<Rightarrow> False" by code_simp
  then obtain t where t: "import_ok_remote ?w ?d demo_reader ''p1'' ''{...}'' demo_pushed = Some (Inr True, t)" by (auto split: option.splits sum.splits)
  have r: "rests_to_push_list (rw_repr ?w) (dicts (rows_of_cache demo_exported)) = [''-j ACCEPT'']" by code_simp
  have h: "rm_host demo_pushed = Some [''-j DROP'']" by code_simp
  have apart: "strip ''p2'' \<noteq> strip ''p1''" "strip ''p1'' \<noteq> []" by code_simp+
  note b = exported_chain_imports_back [OF demo_law demo_get demo_reads demo_copy one l tx old t]
  have "import_ok_remote ?w ?d demo_reader ''p2'' ''{...}'' demo_pushed = Some (Inr False, demo_pushed)" using b apart by blast
  moreover obtain c' where "rm_host t = Some [''-j ACCEPT'']" "read_remote_chain_cache ?w ''p1'' t = Some (Inr (Some c'), t)"
    "rows_of_cache c' = rows_of_cache demo_exported" using b r demo_obeys by (auto simp: chain_replaced_def)
  ultimately show ?thesis using t h by blast
qed

text \<open>C31. The rules of a listing pasted into the form become the chain.  The append lines that \<open>iptables -S\<close> prints for the chain of the
  peer, pasted without the header line \<open>-N\<close> it prints first (which the code would take for a rule,
  \<open>pasted_header_becomes_row\<close>), are read as the rules of the listing in their order; when the import reports success the working copy holds
  them, all enabled and in sync, and the peer has exactly these rules, behind the old ones only when it refused the flush
  (\<open>chain_replaced\<close>); when it reports a failure the working copy has the rows it had.\<close>

theorem pasted_listing_is_pushed:
  assumes "remote_chain_law w (peer_chain_name_for_id (rw_hash w) (strip (p_id q))) rules" "get_peer pid d = Some q" "\<forall>f. rw_read_ok w f"
    and "chain = peer_chain_name_for_id (rw_hash w) pid" "strip chain = chain" "chain \<noteq> []" "no_break chain"
    and "rests \<noteq> []" "\<forall>r\<in>set rests. strip r = r \<and> r \<noteq> [] \<and> no_break r"
    and "read_remote_chain_cache w pid s = Some (Inr (Some old), s)"
    and "import_ok_remote w d loads pid (join nl (map (listed_line chain) rests)) s = Some (Inr ok, t)"
  shows "\<exists>c'. read_remote_chain_cache w pid t = Some (Inr (Some c'), t) \<and>
    (if ok then chain_replaced w (peer_chain_name_for_id (rw_hash w) (strip (p_id q))) rules (rm_host s) rests (rm_host t) \<and> rows_of_cache c' = map JObj (map plain_row rests) \<and> jget ''pending_sync'' c' = JBool False
     else rows_of_cache c' = rows_of_cache old \<and> jget ''pending_sync'' c' = JBool True)"
proof -
  have r: "\<forall>r\<in>set rests. strip r = r \<and> r \<noteq> []" using assms(9) by blast
  from import_pushes [OF assms(11)] mixed_listing [OF assms(5-9)] assms(4)
  have "push_rows w d pid chain True (map JObj (map plain_row rests)) s = Some (Inr ok, t)" by simp
  from push_outcome [OF assms(1-3,10) this] show ?thesis
    unfolding plain_rows_clean [OF r] plain_rows_pushed [OF r] by (auto split: if_splits)
qed

lemma pasted_listing_is_pushed_witness:
  "\<exists>t c'. import_ok_remote demo_remote_world demo_ssh_db demo_reader ''p1''
       (join nl (map (listed_line demo_chain) [''-s 10.8.0.5 -j DROP'', ''-j ACCEPT''])) demo_pulled = Some (Inr True, t) \<and>
     rm_host t = Some [''-s 10.8.0.5 -j DROP'', ''-j ACCEPT''] \<and> read_remote_chain_cache demo_remote_world ''p1'' t = Some (Inr (Some c'), t)"
proof -
  let ?w = demo_remote_world and ?d = demo_ssh_db and ?rests = "[''-s 10.8.0.5 -j DROP'', ''-j ACCEPT'']"
  have ch: "demo_chain = peer_chain_name_for_id (rw_hash ?w) ''p1''" by (simp add: demo_chain_def demo_remote_world_def)
  have ok: "strip demo_chain = demo_chain" "demo_chain \<noteq> []" "no_break demo_chain" by code_simp+
  have rs: "?rests \<noteq> []" "\<forall>r\<in>set ?rests. strip r = r \<and> r \<noteq> [] \<and> no_break r" by code_simp+
  have "case import_ok_remote ?w ?d demo_reader ''p1'' (join nl (map (listed_line demo_chain) ?rests)) demo_pulled of Some (Inr ok, t) \<Rightarrow> ok | _ \<Rightarrow> False"
    by code_simp
  then obtain t where t: "import_ok_remote ?w ?d demo_reader ''p1'' (join nl (map (listed_line demo_chain) ?rests)) demo_pulled = Some (Inr True, t)"
    by (auto split: option.splits sum.splits)
  from pasted_listing_is_pushed [OF demo_law demo_get demo_reads ch ok rs demo_copy t] t demo_obeys show ?thesis by (auto simp: chain_replaced_def)
qed

text \<open>The whole output of \<open>iptables -S\<close> starts with the line that creates the chain; pasted with it, that line becomes a rule.\<close>

lemma pasted_header_becomes_row:
  "rows_from_iptables_paste (join nl [''-N VPN_PEER_1'', ''-A VPN_PEER_1 -j ACCEPT'']) ''VPN_PEER_1'' =
     Inr [plain_row ''-N VPN_PEER_1'', plain_row ''-j ACCEPT'']"
  by code_simp

lemma foreign_line_refused:
  "\<not> starts_with src (''-A '' @ chain @ '' '') \<Longrightarrow> starts_with src ''-A '' \<Longrightarrow> strip src = src \<Longrightarrow>
     paste_line chain src = Inl (ValueError ''another chain'')"
  by (cases src) (auto simp: paste_line_def starts_with_def)

end
