(* ===== verification/Spec2Isabelle.thy ===== *)
theory Spec2Isabelle
  imports Cidr Models Ipset_Props Forward_Props Kernel_Props Storage_Props Tags_Props Peers_Props Rules_Props Rules_Backup Site_Props Returns Import_Props Auth_Props Peer_Types Links Remote_Props Migration_Props Instances_Props Upgrade_Props Conntrack_Props System_Config_Props Full_Backup_Props Grid_Props Paste_Props
begin

text \<open>
  A verification development of NiceVPN, a web console for OpenVPN written in Python.

  \<^bold>\<open>The program.\<close>  Users belong to groups; a group owns a subnet of the global pool and every user gets a fixed address in it
  (\<open>app/services/group\<close>, \<open>app/services/user\<close>), which OpenVPN reads from one client file per user (CCD).  Firewall rules and peer
  sites (\<open>app/services/firewall\<close>, \<open>app/services/peer_instance\<close>) are stored in SQLite (\<open>app/storage\<close>), merged by priority and
  loaded into the chain \<open>VPN_FORWARD\<close> with \<open>iptables-restore\<close>; lists of addresses become ipsets that are staged and swapped.
  Tags name groups and users inside rules.  A change of a rule, a tag or a peer is stored, pushed to the kernel and taken
  back when the push fails.  Around this core there are the login (\<open>app/services/auth\<close>), one-time download links, device bindings, the
  rules on the hosts of the peers over SSH, the texts of the server instances and client profiles, the upgrade of OpenVPN with its
  rollback, the audit of connections, full backups, the import of the files of older versions, and the tables of the web interface.

  \<^bold>\<open>Theories and sources.\<close>
  \<^item> \<open>Prelude\<close>: exceptions, results, texts (\<open>strip\<close>, \<open>split\<close>, \<open>splitlines\<close>, numerals), association lists and the locales \<open>keyed_store\<close> and
    \<open>keyed_table\<close> of a table with a key.  \<open>Actions\<close>: stateful code that returns, raises or does not return; the locale \<open>step_frame\<close> for what a
    composition of steps leaves alone.  \<open>Json\<close>: values of \<open>json.loads\<close>.  \<open>Ipaddress\<close>: the standard module \<open>ipaddress\<close> for IPv4.
  \<^item> \<open>Cidr\<close>: \<open>app/utils/cidr.py\<close>.  \<open>Models\<close>: \<open>app/models\<close>; \<open>Peer_Types\<close>: the type of a stored peer site.
  \<^item> \<open>Ipset\<close>, \<open>Ipset_Laws\<close>, \<open>Ipset_Props\<close>: \<open>ipset_mgr.py\<close>.  \<open>Forward\<close> (planning), \<open>Kernel\<close> (transactions) with their laws and properties:
    \<open>iptables_mgr.py\<close>.  \<open>Returns\<close>: which of these operations end.
  \<^item> \<open>Sql\<close>, \<open>Storage\<close>, \<open>Storage_Pages\<close>, \<open>Storage_Laws\<close>, \<open>Storage_Props\<close>: \<open>app/storage\<close>, every repository, the schema and its migrations.
    \<open>Migration\<close>, \<open>Migration_Props\<close>: \<open>app/storage/migration.py\<close>.
  \<^item> \<open>System\<close>: the state the services share and the way from the store to the kernel, with the locale \<open>guarded_update\<close> (snapshot, change, push,
    take back).  \<open>Tags\<close>, \<open>Rules\<close> and their laws and properties: \<open>tag_service.py\<close>, \<open>rule_service.py\<close>.  \<open>Stored_Policy\<close>: what the tables
    say about a packet, without the code that plans the chain, and that the plan decides alike.  \<open>Demo\<close>: a concrete system for the
    witnesses.
  \<^item> \<open>Ccd\<close>, \<open>Ccd_Laws\<close>, \<open>Ccd_Props\<close>: the texts of client files (\<open>ccd_merge.py\<close>).  \<open>Peers\<close>, \<open>Peer_Frames\<close>, \<open>Peers_Props\<close>: \<open>peer_instance/service.py\<close>,
    with the locale \<open>peer_store\<close> for what every request about a peer site keeps of the stored ones.
  \<^item> \<open>Address_Groups\<close>, \<open>Users\<close>: the group and user services and the device bindings; \<open>Site_Groups\<close>, \<open>Site_Users\<close>, \<open>Site_Plan\<close>,
    \<open>Site_Steps\<close>, \<open>Site_Run\<close>, \<open>Site_Props\<close>: their invariant over every sequence of requests.
  \<^item> \<open>Import_Lines\<close>, \<open>Import_Props\<close>: the two readers of rules.  \<open>Paste\<close>, \<open>Paste_Props\<close>: \<open>app/ui/firewall_helpers.py\<close> and the imports of
    working copies.  \<open>Chain_Cache\<close>, \<open>Remote_Chain\<close>, \<open>Remote_Props\<close>: working copies and the rules on peers over SSH.
  \<^item> \<open>Auth\<close>, \<open>Auth_Props\<close>, \<open>Links\<close>: login, sessions, redirects, download links.  \<open>System_Config\<close>, \<open>System_Config_Props\<close>: \<open>app/models/config.py\<close>
    and \<open>app/core/config.py\<close>.
  \<^item> \<open>Instances\<close>, \<open>Instances_Props\<close>: server configurations and client profiles.  \<open>Preflight\<close>, \<open>Upgrade\<close>, \<open>Upgrade_Props\<close>: \<open>upgrade.py\<close>.
    \<open>Conntrack\<close>, \<open>Conntrack_Props\<close>: \<open>conntrack_audit.py\<close>.
  \<^item> \<open>Full_Backup\<close>, \<open>Backup_Disk\<close>, \<open>Backup_Create\<close>, \<open>Backup_Archive\<close>, \<open>Backup_Restore\<close>, \<open>Backup_Runs\<close>, \<open>Full_Backup_Props\<close>: \<open>full_backup.py\<close>.
  \<^item> \<open>Grid\<close>, \<open>Grid_Props\<close>: \<open>app/ui/grid_query.py\<close> and the table of users.

  Definitions carry the names of the functions; a record stands for a class or for the state of a service, and the steps of a long
  function that is split keep the order of the code.

  \<^bold>\<open>What is shown.\<close>
  \<^item> From the rules to the kernel: the generated lines decide every packet as the merged plan does, and after any request that returns the chain
    decides every packet as the tables do; a successful request leaves the chain, the ipsets and the table of rules as asked for; a failed
    request about one owner's rules, a failed refresh or a failed round of ipsets restores what was there.  Requests about the rows of peer
    sites, about the order over all owners and about the owner of a rule are modelled too, but leave changes when they fail
    (the last lemmas of \<open>Rules_Props\<close>).
  \<^item> The database: every reachable database satisfies its keys, indexes and foreign keys; the bootstrap brings every supported version to the
    current one; the import of legacy files is complete or changes nothing.
  \<^item> Tags, client files, peers, groups and users: a tag stands for exactly its addresses; edits of a client file refine changes of two
    fields; mesh routes are those the user may see and settle after one pass; fixed addresses are distinct in every reachable site, and subnets
    disjoint except for groups with the whole pool; allocation is exact.
  \<^item> Access: the limiter refines counting failures in a window; pages need a session; redirects stay on the site; a link serves once.
  \<^item> Peers over SSH: a push is all or nothing for the centre; exports and listings come back by an import.  The program ignores the exit code
    of the command that flushes a chain, here and when it restores its own: the laws of a kernel say what a flush that succeeds does and
    that one that fails changes nothing, and the theorems name the case.
  \<^item> OpenVPN: the trial configuration is the running one without its side effects; an upgrade installs the candidate or puts everything back; server
    configurations settle after one pass; the audit logs exactly the lines of the clients.
  \<^item> Backups: a restoration brings back what was saved, and changes the disk only with a verified archive; a saved configuration loads back.
  \<^item> Tables: a page of users does not depend on whether the store or the page filters and sorts, for names in ASCII or Chinese.

  \<^bold>\<open>Loops.\<close>  Loops over data are structural recursion or \<open>function\<close> with a measure.  The loops that delete rules until a command fails are
  \<open>partial_function\<close>: they may not end on an arbitrary kernel, and \<open>Returns\<close> shows that they do when a successful deletion leaves
  fewer rules.  No definition uses fuel.

  \<^bold>\<open>Parameters.\<close>  The package \<open>netaddr\<close>, commands run by \<open>subprocess\<close> and over \<open>paramiko\<close>, digests, Argon2, clocks and fresh identifiers, \<open>str.casefold\<close>, the
  text of JSON and the coercions of pydantic, the templates of the configurations, the backup call of SQLite, and failures of the file
  system are arguments of the definitions.  What a property needs of one of them is a named hypothesis (\<open>ipset_ok\<close>,
  \<open>chain_law\<close>, \<open>remote_chain_law\<close>, \<open>casefold_law\<close>, \<open>clock_ok\<close>), and its witness discharges it for a concrete instance.

  \<^bold>\<open>Limits.\<close>  Characters are code points below 256; texts of the program in Chinese are their UTF-8 bytes, messages of exceptions are short tags;
  \<open>lower\<close> and \<open>strip\<close> act on ASCII, and so does \<open>casefold\<close> on the output of OpenVPN.  Addresses are IPv4.  Threads and locks between processes are not modelled: an operation
  runs alone, and the guards of the pages against a second click are left out.  Logging, notifications and permissions of files are left out.  Pages, widgets,
  the command line, the installer, certificates by easyrsa, monitoring and diagnostics are calls of services or of the system
  without decisions of their own and are not modelled.
\<close>

end
